(* ===== verification/Prelude.thy ===== *)
theory Prelude
  imports Main "HOL-Library.Word"
begin

unbundle bit_operations_syntax

text \<open>
  Shared vocabulary of the development: the machine types of the C++ sources, the
  \<^verbatim>\<open>{code, message}\<close> error value that every validator pushes, IEEE-754 bit patterns as the
  representation of \<^verbatim>\<open>float\<close> and \<^verbatim>\<open>double\<close>, and the list and word lemmas the component
  theories share.

  \<^verbatim>\<open>std::uint8_t\<close>, \<open>uint16_t\<close>, \<open>uint32_t\<close> and \<open>uint64_t\<close> are words of their width, so
  arithmetic wraps as in C++. \<^verbatim>\<open>std::size_t\<close> counts of containers held in memory are \<open>nat\<close>
  (a container never holds \<open>2 ^ 64\<close> elements); where a size is computed and could wrap, the
  component theory writes the bound out. \<^verbatim>\<open>float\<close> and \<^verbatim>\<open>double\<close> values that are stored,
  copied, serialized or tested with \<^verbatim>\<open>std::isfinite\<close> are kept as their bit patterns.
  \<^verbatim>\<open>std::string\<close> is a list of bytes (\<open>string\<close>).
\<close>

named_theorems wire_safe \<open>reader operations that stay inside the message and keep an error\<close>

type_synonym byte = "8 word"
type_synonym u16 = "16 word"
type_synonym u32 = "32 word"
type_synonym u64 = "64 word"
type_synonym f32 = "32 word"
type_synonym f64 = "64 word"

section \<open>Errors\<close>

text \<open>
  \<open>PresetError\<close>, \<open>GraphBuildError\<close>, \<open>AudioDeviceError\<close> and \<open>VirtualEndpointError\<close> are four
  structs with the same two string members.
\<close>

record sar_error =
  err_code :: string
  err_message :: string

definition mk_error :: "string \<Rightarrow> string \<Rightarrow> sar_error" where
  "mk_error c m = \<lparr>err_code = c, err_message = m\<rparr>"

definition push_if :: "bool \<Rightarrow> 'e \<Rightarrow> 'e list" where
  "push_if b e = (if b then [e] else [])"

lemma push_if_Nil [simp]: "push_if b e = [] \<longleftrightarrow> \<not> b"
  by (simp add: push_if_def)

lemma set_push_if [simp]: "set (push_if b e) = (if b then {e} else {})"
  by (simp add: push_if_def)

lemma push_if_simps [simp]: "push_if True e = [e]" "push_if False e = []"
  by (simp_all add: push_if_def)

lemma conj_regroup: "a \<and> b \<and> c \<and> d \<and> e \<longleftrightarrow> (a \<and> c) \<and> (b \<and> d) \<and> e"
  by blast

lemma if_singleton_Nil: "(if c then [e] else xs) = [] \<longleftrightarrow> \<not> c \<and> xs = []"
  by simp

section \<open>Floating-point bit patterns\<close>

text \<open>\<^verbatim>\<open>std::isfinite\<close>: the exponent field is not all ones.\<close>

definition f32_finite :: "f32 \<Rightarrow> bool" where
  "f32_finite x \<longleftrightarrow> drop_bit 23 x AND 255 \<noteq> 255"

definition f64_finite :: "f64 \<Rightarrow> bool" where
  "f64_finite x \<longleftrightarrow> drop_bit 52 x AND 2047 \<noteq> 2047"

text \<open>Comparison with \<^verbatim>\<open>0.0F\<close>: both zeros compare equal to it, nothing else does.\<close>

definition f32_is_zero :: "f32 \<Rightarrow> bool" where
  "f32_is_zero x \<longleftrightarrow> x = 0 \<or> x = 0x80000000"

lemma f32_finite_0 [simp]: "f32_finite 0"
  by (simp add: f32_finite_def)

lemma f64_finite_0 [simp]: "f64_finite 0"
  by (simp add: f64_finite_def)

section \<open>Lists\<close>

text \<open>
  The \<^verbatim>\<open>unordered_set::insert(x).second\<close> idiom of the validators: a pass over a list that
  carries the set of keys seen so far and reports every key met before.
  \<open>fresh_from seen ks\<close> says that such a pass reports nothing.
\<close>

definition fresh_from :: "'k set \<Rightarrow> 'k list \<Rightarrow> bool" where
  "fresh_from seen ks \<longleftrightarrow> distinct ks \<and> set ks \<inter> seen = {}"

lemma fresh_from_Nil [simp]: "fresh_from seen []"
  by (simp add: fresh_from_def)

lemma fresh_from_Cons [simp]:
  "fresh_from seen (k # ks) \<longleftrightarrow> k \<notin> seen \<and> fresh_from (insert k seen) ks"
  by (auto simp: fresh_from_def)

lemma fresh_from_empty [simp]: "fresh_from {} ks \<longleftrightarrow> distinct ks"
  by (simp add: fresh_from_def)

lemma distinct_map_nth:
  "distinct (map g xs) \<Longrightarrow> i < length xs \<Longrightarrow> j < length xs \<Longrightarrow> g (xs ! i) = g (xs ! j) \<longleftrightarrow> i = j"
  using nth_eq_iff_index_eq [of "map g xs" i j] by simp

lemma find_Some_iff_first:
  "List.find P xs = Some x \<Longrightarrow> P x \<and> x \<in> set xs"
  by (auto simp: find_Some_iff)

lemma find_None_iff_all:
  "List.find P xs = None \<longleftrightarrow> (\<forall>x \<in> set xs. \<not> P x)"
  by (auto simp: find_None_iff)

text \<open>
  Erasing and updating the element that \<^verbatim>\<open>std::ranges::find_if\<close> returns: the first one that
  satisfies the predicate.
\<close>

fun erase_first :: "('a \<Rightarrow> bool) \<Rightarrow> 'a list \<Rightarrow> 'a list" where
  "erase_first P [] = []"
| "erase_first P (x # xs) = (if P x then xs else x # erase_first P xs)"

fun update_first :: "('a \<Rightarrow> bool) \<Rightarrow> ('a \<Rightarrow> 'a) \<Rightarrow> 'a list \<Rightarrow> 'a list" where
  "update_first P f [] = []"
| "update_first P f (x # xs) = (if P x then f x # xs else x # update_first P f xs)"

lemma length_update_first [simp]: "length (update_first P f xs) = length xs"
  by (induction xs) auto

lemma length_erase_first: "length (erase_first P xs) \<le> length xs"
  by (induction xs) auto

lemma length_erase_first_found:
  "\<exists>x \<in> set xs. P x \<Longrightarrow> Suc (length (erase_first P xs)) = length xs"
  by (induction xs) auto

lemma set_erase_first: "set (erase_first P xs) \<subseteq> set xs"
  by (induction xs) auto

lemma set_update_first: "set (update_first P f xs) \<subseteq> set xs \<union> f ` set xs"
  by (induction xs) auto

lemma erase_first_none: "\<forall>x \<in> set xs. \<not> P x \<Longrightarrow> erase_first P xs = xs"
  by (induction xs) auto

lemma update_first_none: "\<forall>x \<in> set xs. \<not> P x \<Longrightarrow> update_first P f xs = xs"
  by (induction xs) auto

lemma map_update_first:
  assumes "\<And>x. P x \<Longrightarrow> g (f x) = g x"
  shows "map g (update_first P f xs) = map g xs"
  using assms by (induction xs) auto

lemma distinct_erase_first: "distinct (map g xs) \<Longrightarrow> distinct (map g (erase_first P xs))"
  by (induction xs) (use set_erase_first in \<open>fastforce+\<close>)

lemma erase_first_eq_filter:
  assumes "distinct (map g xs)" and "\<And>x. P x \<longleftrightarrow> g x = k"
  shows "erase_first P xs = filter (\<lambda>x. \<not> P x) xs"
  using assms
proof (induction xs)
  case (Cons x xs)
  show ?case
  proof (cases "P x")
    case True
    with Cons.prems have "filter (\<lambda>x. \<not> P x) xs = xs"
      by (intro filter_True) (auto simp: image_iff)
    with True show ?thesis by simp
  qed (use Cons in auto)
qed simp

text \<open>Splitting a list at the first or at the last occurrence of a separator.\<close>

lemma split_at_first:
  "x \<notin> set a \<Longrightarrow> x \<notin> set b \<Longrightarrow> a @ x # u = b @ x # v \<longleftrightarrow> a = b \<and> u = v"
proof (induction a arbitrary: b)
  case (Cons y ys)
  then show ?case by (cases b) auto
next
  case Nil
  then show ?case by (cases b) auto
qed

lemma split_at_last:
  assumes "x \<notin> set u" "x \<notin> set v"
  shows "a @ x # u = b @ x # v \<longleftrightarrow> a = b \<and> u = v"
  using split_at_first [of x "rev u" "rev v" "rev a" "rev b"] assms
  by (metis (no_types, lifting) append.assoc append_Cons append_Nil rev.simps(2) rev_append rev_rev_ident set_rev)

end
