(* ===== verification/Errors.thy ===== *)
theory Errors
  imports Prelude
begin

text \<open>
  The error values the control plane reports, one constant per \<^verbatim>\<open>{code, message}\<close> pair of
  the sources, grouped by the file that pushes them. The component theories name these
  constants, so that proofs do not carry the message texts.
\<close>

section \<open>\<^verbatim>\<open>core/platform/audio_device.cpp\<close>\<close>

definition dev_empty_device_id :: sar_error where
  "dev_empty_device_id = mk_error ''empty_device_id''
     ''Audio device IDs must not be empty.''"

definition dev_duplicate_device_id :: sar_error where
  "dev_duplicate_device_id = mk_error ''duplicate_device_id''
     ''Audio device IDs must be unique.''"

definition dev_empty_device_label :: sar_error where
  "dev_empty_device_label = mk_error ''empty_device_label''
     ''Audio device labels must not be empty.''"

definition dev_empty_device_formats :: sar_error where
  "dev_empty_device_formats = mk_error ''empty_device_formats''
     ''Audio devices must expose at least one format.''"

definition dev_invalid_sample_rate :: sar_error where
  "dev_invalid_sample_rate = mk_error ''invalid_sample_rate''
     ''Audio device sample rates must be non-zero.''"

definition dev_invalid_channel_count :: sar_error where
  "dev_invalid_channel_count = mk_error ''invalid_channel_count''
     ''Audio device channel counts must be non-zero.''"

definition dev_invalid_frames_per_block :: sar_error where
  "dev_invalid_frames_per_block = mk_error ''invalid_frames_per_block''
     ''Audio device block sizes must be non-zero.''"

definition dev_invalid_bits_per_sample :: sar_error where
  "dev_invalid_bits_per_sample = mk_error ''invalid_bits_per_sample''
     ''Audio device bit depths must be non-zero.''"

definition dev_invalid_sample_format :: sar_error where
  "dev_invalid_sample_format = mk_error ''invalid_sample_format''
     ''Audio device sample formats must be known.''"

definition dev_invalid_valid_bits_per_sample :: sar_error where
  "dev_invalid_valid_bits_per_sample = mk_error ''invalid_valid_bits_per_sample''
     ''Audio device valid bit depth cannot exceed container bit depth.''"

section \<open>\<^verbatim>\<open>core/platform/virtual_endpoint.cpp\<close>\<close>

definition vep_empty_endpoint_id :: sar_error where
  "vep_empty_endpoint_id = mk_error ''empty_endpoint_id''
     ''Virtual endpoint IDs must not be empty.''"

definition vep_empty_endpoint_label :: sar_error where
  "vep_empty_endpoint_label = mk_error ''empty_endpoint_label''
     ''Virtual endpoint labels must not be empty.''"

definition vep_invalid_virtual_backend :: sar_error where
  "vep_invalid_virtual_backend = mk_error ''invalid_virtual_backend''
     ''Virtual endpoints require a virtual backend.''"

definition vep_invalid_sample_rate :: sar_error where
  "vep_invalid_sample_rate = mk_error ''invalid_sample_rate''
     ''Virtual endpoint sample rate must be non-zero.''"

definition vep_invalid_channel_count :: sar_error where
  "vep_invalid_channel_count = mk_error ''invalid_channel_count''
     ''Virtual endpoint channel count must be non-zero.''"

definition vep_invalid_frames_per_block :: sar_error where
  "vep_invalid_frames_per_block = mk_error ''invalid_frames_per_block''
     ''Virtual endpoint block size must be non-zero.''"

definition vep_duplicate_endpoint_id :: sar_error where
  "vep_duplicate_endpoint_id = mk_error ''duplicate_endpoint_id''
     ''Virtual endpoint IDs must be unique.''"

definition vep_unknown_endpoint_id :: sar_error where
  "vep_unknown_endpoint_id = mk_error ''unknown_endpoint_id''
     ''Virtual endpoint was not found.''"

section \<open>\<^verbatim>\<open>core/graph/graph_builder.cpp\<close>\<close>

definition gb_invalid_version :: sar_error where
  "gb_invalid_version = mk_error ''invalid_version''
     ''Graph version must be non-zero.''"

definition gb_invalid_channels :: sar_error where
  "gb_invalid_channels = mk_error ''invalid_channels''
     ''Graph channel count must be non-zero.''"

definition gb_invalid_frames :: sar_error where
  "gb_invalid_frames = mk_error ''invalid_frames''
     ''Graph frame count must be non-zero.''"

definition gb_invalid_sample_rate :: sar_error where
  "gb_invalid_sample_rate = mk_error ''invalid_sample_rate''
     ''Graph sample rate must be non-zero.''"

definition gb_null_node :: sar_error where
  "gb_null_node = mk_error ''null_node''
     ''Graph node list contains a null node.''"

definition gb_empty_node_id :: sar_error where
  "gb_empty_node_id = mk_error ''empty_node_id''
     ''Graph node IDs must not be empty.''"

definition gb_duplicate_node_id :: sar_error where
  "gb_duplicate_node_id = mk_error ''duplicate_node_id''
     ''Graph node IDs must be unique.''"

definition gb_empty_node_label :: sar_error where
  "gb_empty_node_label = mk_error ''empty_node_label''
     ''Graph node labels must not be empty.''"

definition gb_duplicate_node_label :: sar_error where
  "gb_duplicate_node_label = mk_error ''duplicate_node_label''
     ''Graph node labels must be unique.''"

section \<open>\<^verbatim>\<open>core/control/preset_document.cpp\<close>\<close>

definition pre_empty_endpoint_id :: sar_error where
  "pre_empty_endpoint_id = mk_error ''empty_endpoint_id''
     ''Route endpoint IDs must not be empty.''"

definition pre_empty_endpoint_label :: sar_error where
  "pre_empty_endpoint_label = mk_error ''empty_endpoint_label''
     ''Route endpoint labels must not be empty.''"

definition pre_multiple_route_matrix_nodes :: sar_error where
  "pre_multiple_route_matrix_nodes = mk_error ''multiple_route_matrix_nodes''
     ''Preset graph build currently supports exactly one route_matrix node.''"

definition pre_unsupported_preset_node_type :: sar_error where
  "pre_unsupported_preset_node_type = mk_error ''unsupported_preset_node_type''
     ''Preset graph build currently supports route_matrix nodes only.''"

definition pre_missing_route_matrix_node :: sar_error where
  "pre_missing_route_matrix_node = mk_error ''missing_route_matrix_node''
     ''Preset graph build requires one route_matrix node.''"

definition pre_invalid_schema_version :: sar_error where
  "pre_invalid_schema_version = mk_error ''invalid_schema_version''
     ''Preset schema version must be non-zero.''"

definition pre_invalid_sample_rate :: sar_error where
  "pre_invalid_sample_rate = mk_error ''invalid_sample_rate''
     ''Preset sample rate must be non-zero.''"

definition pre_sample_rate_too_large :: sar_error where
  "pre_sample_rate_too_large = mk_error ''sample_rate_too_large''
     ''Preset sample rate exceeds the supported control-plane limit.''"

definition pre_invalid_frames_per_block :: sar_error where
  "pre_invalid_frames_per_block = mk_error ''invalid_frames_per_block''
     ''Preset frames per block must be non-zero.''"

definition pre_frames_per_block_too_large :: sar_error where
  "pre_frames_per_block_too_large = mk_error ''frames_per_block_too_large''
     ''Preset frames per block exceeds the supported control-plane limit.''"

definition pre_too_many_preset_nodes :: sar_error where
  "pre_too_many_preset_nodes = mk_error ''too_many_preset_nodes''
     ''Preset exceeds the supported node-count limit.''"

definition pre_too_many_matrix_inputs :: sar_error where
  "pre_too_many_matrix_inputs = mk_error ''too_many_matrix_inputs''
     ''Preset exceeds the supported matrix input-channel limit.''"

definition pre_too_many_matrix_outputs :: sar_error where
  "pre_too_many_matrix_outputs = mk_error ''too_many_matrix_outputs''
     ''Preset exceeds the supported matrix output-channel limit.''"

definition pre_too_many_matrix_routes :: sar_error where
  "pre_too_many_matrix_routes = mk_error ''too_many_matrix_routes''
     ''Preset exceeds the supported route-count limit.''"

definition pre_duplicate_node_id :: sar_error where
  "pre_duplicate_node_id = mk_error ''duplicate_node_id''
     ''Preset node IDs must be unique.''"

definition pre_empty_matrix_inputs :: sar_error where
  "pre_empty_matrix_inputs = mk_error ''empty_matrix_inputs''
     ''Route matrix must contain at least one input.''"

definition pre_empty_matrix_outputs :: sar_error where
  "pre_empty_matrix_outputs = mk_error ''empty_matrix_outputs''
     ''Route matrix must contain at least one output.''"

definition pre_empty_route_input :: sar_error where
  "pre_empty_route_input = mk_error ''empty_route_input''
     ''Preset routes must reference an input endpoint.''"

definition pre_unknown_route_input :: sar_error where
  "pre_unknown_route_input = mk_error ''unknown_route_input''
     ''Preset route references an unknown input endpoint.''"

definition pre_empty_route_output :: sar_error where
  "pre_empty_route_output = mk_error ''empty_route_output''
     ''Preset routes must reference an output endpoint.''"

definition pre_unknown_route_output :: sar_error where
  "pre_unknown_route_output = mk_error ''unknown_route_output''
     ''Preset route references an unknown output endpoint.''"

definition pre_invalid_route_gain :: sar_error where
  "pre_invalid_route_gain = mk_error ''invalid_route_gain''
     ''Preset route gain must be finite.''"

definition pre_duplicate_route :: sar_error where
  "pre_duplicate_route = mk_error ''duplicate_route''
     ''Preset routes must not define the same crosspoint twice.''"

definition pre_empty_node_id :: sar_error where
  "pre_empty_node_id = mk_error ''empty_node_id''
     ''Preset node IDs must not be empty.''"

definition pre_empty_node_label :: sar_error where
  "pre_empty_node_label = mk_error ''empty_node_label''
     ''Preset node labels must not be empty.''"

definition pre_empty_node_type :: sar_error where
  "pre_empty_node_type = mk_error ''empty_node_type''
     ''Preset node types must not be empty.''"

definition pre_duplicate_input_endpoint_id :: sar_error where
  "pre_duplicate_input_endpoint_id = mk_error ''duplicate_input_endpoint_id''
     ''Input endpoint IDs must be unique.''"

definition pre_duplicate_output_endpoint_id :: sar_error where
  "pre_duplicate_output_endpoint_id = mk_error ''duplicate_output_endpoint_id''
     ''Output endpoint IDs must be unique.''"

section \<open>\<^verbatim>\<open>core/control/control_command.cpp\<close>\<close>

definition cmd_unexpected_wasapi_configuration :: sar_error where
  "cmd_unexpected_wasapi_configuration = mk_error ''unexpected_wasapi_configuration''
     ''Physical ASIO mode does not accept WASAPI devices or endpoints.''"

definition cmd_empty_physical_asio_driver_clsid :: sar_error where
  "cmd_empty_physical_asio_driver_clsid = mk_error ''empty_physical_asio_driver_clsid''
     ''Physical ASIO mode requires a driver CLSID.''"

definition cmd_physical_asio_driver_clsid_too_long :: sar_error where
  "cmd_physical_asio_driver_clsid_too_long = mk_error ''physical_asio_driver_clsid_too_long''
     ''Physical ASIO driver CLSID exceeds the supported length.''"

definition cmd_invalid_physical_asio_sample_rate :: sar_error where
  "cmd_invalid_physical_asio_sample_rate = mk_error ''invalid_physical_asio_sample_rate''
     ''Physical ASIO sample rate must be between 8000 and 768000 Hz.''"

definition cmd_invalid_physical_asio_block_frames :: sar_error where
  "cmd_invalid_physical_asio_block_frames = mk_error ''invalid_physical_asio_block_frames''
     ''Physical ASIO block size must be between 1 and 65536 frames.''"

definition cmd_too_many_physical_asio_channels :: sar_error where
  "cmd_too_many_physical_asio_channels = mk_error ''too_many_physical_asio_channels''
     ''Physical ASIO channel selection exceeds the supported capacity.''"

definition cmd_physical_asio_channel_out_of_range :: sar_error where
  "cmd_physical_asio_channel_out_of_range = mk_error ''physical_asio_channel_out_of_range''
     ''Physical ASIO channel index exceeds the supported range.''"

definition cmd_missing_audio_runtime_mode :: sar_error where
  "cmd_missing_audio_runtime_mode = mk_error ''missing_audio_runtime_mode''
     ''ConfigureAudioRuntime requires a runtime mode.''"

definition cmd_unexpected_audio_runtime_endpoint :: sar_error where
  "cmd_unexpected_audio_runtime_endpoint = mk_error ''unexpected_audio_runtime_endpoint''
     ''A disabled audio runtime cannot specify endpoints.''"

definition cmd_unexpected_physical_asio_configuration :: sar_error where
  "cmd_unexpected_physical_asio_configuration = mk_error ''unexpected_physical_asio_configuration''
     ''WASAPI modes do not accept Physical ASIO configuration.''"

definition cmd_unexpected_capture_device_id :: sar_error where
  "cmd_unexpected_capture_device_id = mk_error ''unexpected_capture_device_id''
     ''WASAPI render configuration does not accept a capture device ID.''"

definition cmd_unexpected_matrix_endpoints :: sar_error where
  "cmd_unexpected_matrix_endpoints = mk_error ''unexpected_matrix_endpoints''
     ''Legacy WASAPI modes do not accept matrix endpoints.''"

definition cmd_incomplete_duplex_device_ids :: sar_error where
  "cmd_incomplete_duplex_device_ids = mk_error ''incomplete_duplex_device_ids''
     ''WASAPI duplex configuration requires both device IDs or neither.''"

definition cmd_invalid_audio_runtime_mode :: sar_error where
  "cmd_invalid_audio_runtime_mode = mk_error ''invalid_audio_runtime_mode''
     ''Audio runtime mode is not supported.''"

definition cmd_unexpected_legacy_device_id :: sar_error where
  "cmd_unexpected_legacy_device_id = mk_error ''unexpected_legacy_device_id''
     ''WASAPI matrix mode uses endpoint descriptors, not legacy device IDs.''"

definition cmd_empty_audio_runtime_matrix :: sar_error where
  "cmd_empty_audio_runtime_matrix = mk_error ''empty_audio_runtime_matrix''
     ''WASAPI matrix mode requires at least one endpoint.''"

definition cmd_too_many_audio_runtime_endpoints :: sar_error where
  "cmd_too_many_audio_runtime_endpoints = mk_error ''too_many_audio_runtime_endpoints''
     ''WASAPI matrix mode exceeds the endpoint capacity.''"

definition cmd_empty_audio_runtime_endpoint_id :: sar_error where
  "cmd_empty_audio_runtime_endpoint_id = mk_error ''empty_audio_runtime_endpoint_id''
     ''Matrix endpoints require a stable endpoint ID.''"

definition cmd_duplicate_audio_runtime_endpoint_id :: sar_error where
  "cmd_duplicate_audio_runtime_endpoint_id = mk_error ''duplicate_audio_runtime_endpoint_id''
     ''Matrix endpoint IDs must be unique.''"

definition cmd_invalid_audio_runtime_endpoint_direction :: sar_error where
  "cmd_invalid_audio_runtime_endpoint_direction = mk_error ''invalid_audio_runtime_endpoint_direction''
     ''Matrix endpoint direction is invalid.''"

definition cmd_invalid_audio_runtime_endpoint_backend :: sar_error where
  "cmd_invalid_audio_runtime_endpoint_backend = mk_error ''invalid_audio_runtime_endpoint_backend''
     ''Matrix endpoint backend is invalid.''"

definition cmd_empty_physical_asio_device_group_id :: sar_error where
  "cmd_empty_physical_asio_device_group_id = mk_error ''empty_physical_asio_device_group_id''
     ''Physical ASIO endpoints require a device group ID.''"

definition cmd_invalid_physical_asio_endpoint_sample_rate :: sar_error where
  "cmd_invalid_physical_asio_endpoint_sample_rate = mk_error ''invalid_physical_asio_endpoint_sample_rate''
     ''Physical ASIO endpoint sample rate must be between 8000 and 768000 Hz.''"

definition cmd_invalid_physical_asio_endpoint_block_frames :: sar_error where
  "cmd_invalid_physical_asio_endpoint_block_frames = mk_error ''invalid_physical_asio_endpoint_block_frames''
     ''Physical ASIO endpoint block size must be between 1 and 65536 frames.''"

definition cmd_unexpected_wasapi_endpoint_timing :: sar_error where
  "cmd_unexpected_wasapi_endpoint_timing = mk_error ''unexpected_wasapi_endpoint_timing''
     ''WASAPI endpoints do not accept Physical ASIO group or timing fields.''"

definition cmd_duplicate_audio_runtime_device :: sar_error where
  "cmd_duplicate_audio_runtime_device = mk_error ''duplicate_audio_runtime_device''
     ''A native device direction can appear only once in a matrix runtime.''"

definition cmd_capture_clock_master_not_supported :: sar_error where
  "cmd_capture_clock_master_not_supported = mk_error ''capture_clock_master_not_supported''
     ''The matrix clock master must be a render endpoint.''"

definition cmd_empty_audio_runtime_channel_range :: sar_error where
  "cmd_empty_audio_runtime_channel_range = mk_error ''empty_audio_runtime_channel_range''
     ''Matrix endpoints require an explicit channel count.''"

definition cmd_invalid_audio_runtime_channel_range :: sar_error where
  "cmd_invalid_audio_runtime_channel_range = mk_error ''invalid_audio_runtime_channel_range''
     ''Matrix endpoint channel range overflows.''"

definition cmd_missing_audio_runtime_render_endpoint :: sar_error where
  "cmd_missing_audio_runtime_render_endpoint = mk_error ''missing_audio_runtime_render_endpoint''
     ''WASAPI matrix mode requires a render endpoint to drive the graph.''"

definition cmd_invalid_audio_runtime_clock_master_count :: sar_error where
  "cmd_invalid_audio_runtime_clock_master_count = mk_error ''invalid_audio_runtime_clock_master_count''
     ''WASAPI matrix mode requires exactly one clock master.''"

definition cmd_multiple_physical_asio_groups_not_supported :: sar_error where
  "cmd_multiple_physical_asio_groups_not_supported = mk_error ''multiple_physical_asio_groups_not_supported''
     ''This alpha supports one Physical ASIO driver group per matrix.''"

definition cmd_physical_asio_render_must_be_clock_master :: sar_error where
  "cmd_physical_asio_render_must_be_clock_master = mk_error ''physical_asio_render_must_be_clock_master''
     ''Physical ASIO must drive the matrix clock in this alpha.''"

definition cmd_incomplete_physical_asio_endpoint_group :: sar_error where
  "cmd_incomplete_physical_asio_endpoint_group = mk_error ''incomplete_physical_asio_endpoint_group''
     ''Physical ASIO requires matching capture and render endpoints.''"

definition cmd_mismatched_physical_asio_endpoint_group :: sar_error where
  "cmd_mismatched_physical_asio_endpoint_group = mk_error ''mismatched_physical_asio_endpoint_group''
     ''Physical ASIO capture and render endpoints must share one driver and timing configuration.''"

definition cmd_invalid_schema_version :: sar_error where
  "cmd_invalid_schema_version = mk_error ''invalid_schema_version''
     ''Command schema version must be non-zero.''"

definition cmd_invalid_virtual_asio_device_count :: sar_error where
  "cmd_invalid_virtual_asio_device_count = mk_error ''invalid_virtual_asio_device_count''
     ''ConfigureVirtualAsioDevices requires between one and sixteen devices.''"

definition cmd_invalid_route_gain :: sar_error where
  "cmd_invalid_route_gain = mk_error ''invalid_route_gain''
     ''Route gain must be finite.''"

definition cmd_unknown_command_type :: sar_error where
  "cmd_unknown_command_type = mk_error ''unknown_command_type''
     ''Control command type is not supported.''"

definition cmd_duplicate_route :: sar_error where
  "cmd_duplicate_route = mk_error ''duplicate_route''
     ''ConnectRoute cannot redefine an existing route.''"

definition cmd_unknown_route :: sar_error where
  "cmd_unknown_route = mk_error ''unknown_route''
     ''DisconnectRoute references an unknown route.''"

definition cmd_unknown_route_2 :: sar_error where
  "cmd_unknown_route_2 = mk_error ''unknown_route''
     ''SetGain references an unknown route.''"

definition cmd_unknown_route_3 :: sar_error where
  "cmd_unknown_route_3 = mk_error ''unknown_route''
     ''SetMute references an unknown route.''"

definition cmd_empty_route_input :: sar_error where
  "cmd_empty_route_input = mk_error ''empty_route_input''
     ''Route commands must reference an input endpoint.''"

definition cmd_empty_route_output :: sar_error where
  "cmd_empty_route_output = mk_error ''empty_route_output''
     ''Route commands must reference an output endpoint.''"

definition cmd_empty_command_id :: sar_error where
  "cmd_empty_command_id = mk_error ''empty_command_id''
     ''Control commands must have a command ID.''"

definition cmd_empty_endpoint_id :: sar_error where
  "cmd_empty_endpoint_id = mk_error ''empty_endpoint_id''
     ''CreateVirtualEndpoint requires an endpoint ID.''"

definition cmd_empty_endpoint_id_2 :: sar_error where
  "cmd_empty_endpoint_id_2 = mk_error ''empty_endpoint_id''
     ''RemoveVirtualEndpoint requires an endpoint ID.''"

definition cmd_empty_endpoint_label :: sar_error where
  "cmd_empty_endpoint_label = mk_error ''empty_endpoint_label''
     ''CreateVirtualEndpoint requires an endpoint label.''"

definition cmd_duplicate_physical_asio_input_channel :: sar_error where
  "cmd_duplicate_physical_asio_input_channel = mk_error ''duplicate_physical_asio_input_channel''
     ''Physical ASIO channel selections must be unique.''"

definition cmd_duplicate_physical_asio_output_channel :: sar_error where
  "cmd_duplicate_physical_asio_output_channel = mk_error ''duplicate_physical_asio_output_channel''
     ''Physical ASIO channel selections must be unique.''"

section \<open>\<^verbatim>\<open>core/control/control_session.cpp\<close>\<close>

definition ses_audio_runtime_command_requires_service :: sar_error where
  "ses_audio_runtime_command_requires_service = mk_error ''audio_runtime_command_requires_service''
     ''Audio runtime commands must be handled by the engine service.''"

definition ses_empty_command_id :: sar_error where
  "ses_empty_command_id = mk_error ''empty_command_id''
     ''Control command batches must have a command ID.''"

definition ses_empty_command_batch :: sar_error where
  "ses_empty_command_batch = mk_error ''empty_command_batch''
     ''Control command batches must contain at least one command.''"

definition ses_unsupported_batch_command :: sar_error where
  "ses_unsupported_batch_command = mk_error ''unsupported_batch_command''
     ''Control command batches currently support preset mutation commands only.''"

end
