(* ===== verification/RealtimeBuffers.thy ===== *)
theory RealtimeBuffers
  imports Prelude
begin

text \<open>
  \<^verbatim>\<open>core/realtime/audio_buffer.{h,cpp}\<close> and \<^verbatim>\<open>planar_audio_fifo.{h,cpp}\<close>: the planar float
  buffer and the fixed-capacity frame FIFO of the realtime path. A buffer is its flat sample
  vector, channel after channel, exactly as in the code; the FIFO keeps its circular read
  and write positions. The FIFO refines one list of frames per channel, stated through the
  locale \<open>frame_queue\<close>.
\<close>

section \<open>Copying a run of samples\<close>

text \<open>\<^verbatim>\<open>std::copy_n(source, n, destination + offset)\<close> into a vector.\<close>

definition copy_n :: "'a list \<Rightarrow> nat \<Rightarrow> nat \<Rightarrow> 'a list \<Rightarrow> 'a list" where
  "copy_n src n off dst = take off dst @ take n src @ drop (off + n) dst"

lemma length_copy_n [simp]:
  "n \<le> length src \<Longrightarrow> off + n \<le> length dst \<Longrightarrow> length (copy_n src n off dst) = length dst"
  by (simp add: copy_n_def)

lemma nth_copy_n:
  assumes "n \<le> length src" and "off + n \<le> length dst" and "i < length dst"
  shows "copy_n src n off dst ! i =
    (if off \<le> i \<and> i < off + n then src ! (i - off) else dst ! i)"
  using assms by (auto simp: copy_n_def nth_append min_def)

section \<open>Audio buffers\<close>

record audio_buffer =
  ab_channels :: nat
  ab_frames :: nat
  ab_samples :: "f32 list"

text \<open>The constructor: \<open>None\<close> is the \<^verbatim>\<open>std::invalid_argument\<close> it throws.\<close>

definition make_audio_buffer :: "nat \<Rightarrow> nat \<Rightarrow> audio_buffer option" where
  "make_audio_buffer c f =
     (if f = 0 then None
      else Some \<lparr>ab_channels = c, ab_frames = f, ab_samples = replicate (c * f) 0\<rparr>)"

definition ab_channel :: "audio_buffer \<Rightarrow> nat \<Rightarrow> f32 list" where
  "ab_channel b c = take (ab_frames b) (drop (c * ab_frames b) (ab_samples b))"

definition ab_wf :: "audio_buffer \<Rightarrow> bool" where
  "ab_wf b \<longleftrightarrow> length (ab_samples b) = ab_channels b * ab_frames b"

definition ab_clear :: "audio_buffer \<Rightarrow> audio_buffer" where
  "ab_clear b = b\<lparr>ab_samples := replicate (length (ab_samples b)) 0\<rparr>"

definition ab_copy_channel :: "audio_buffer \<Rightarrow> nat \<Rightarrow> nat \<Rightarrow> audio_buffer \<Rightarrow> audio_buffer" where
  "ab_copy_channel src n c b =
     b\<lparr>ab_samples := copy_n (ab_channel src c) n (c * ab_frames b) (ab_samples b)\<rparr>"

definition ab_copy_from :: "audio_buffer \<Rightarrow> audio_buffer \<Rightarrow> audio_buffer" where
  "ab_copy_from b src =
     (let cleared = ab_clear b;
          copy_channels = min (ab_channels b) (ab_channels src);
          copy_frames = min (ab_frames b) (ab_frames src)
      in fold (ab_copy_channel src copy_frames) [0..<copy_channels] cleared)"

lemma row_bound: "c < n \<Longrightarrow> j < (m::nat) \<Longrightarrow> c * m + j < n * m"
proof -
  assume "c < n" "j < m"
  then have "c * m + j < Suc c * m" by simp
  also have "\<dots> \<le> n * m" using \<open>c < n\<close> by (intro mult_le_mono1) simp
  finally show ?thesis .
qed

lemma row_fits: "c < n \<Longrightarrow> c * m + m \<le> n * (m::nat)"
  using mult_le_mono1 [of "Suc c" n m] by simp

lemma row_eq_iff: "j < m \<Longrightarrow> k < m \<Longrightarrow> c * m + j = d * m + (k::nat) \<longleftrightarrow> c = d \<and> j = k"
  by (metis add_right_cancel div_mult_self3 div_less less_nat_zero_code mod_less mod_mult_self3
      add.left_neutral)

lemma row_window:
  assumes "j < m" and "l + n \<le> (m::nat)"
  shows "d * m + l \<le> c * m + j \<and> c * m + j < d * m + l + n \<longleftrightarrow> c = d \<and> l \<le> j \<and> j < l + n"
proof (cases c d rule: linorder_cases)
  case less
  then have "c * m + m \<le> d * m" using mult_le_mono1 [of "Suc c" d m] by simp
  with assms less show ?thesis by auto
next
  case greater
  then have "d * m + m \<le> c * m" using mult_le_mono1 [of "Suc d" c m] by simp
  with assms greater show ?thesis by auto
qed auto

lemma ab_channel_nth:
  "ab_wf b \<Longrightarrow> c < ab_channels b \<Longrightarrow> j < ab_frames b \<Longrightarrow>
     ab_channel b c ! j = ab_samples b ! (c * ab_frames b + j)"
  using row_fits [of c "ab_channels b" "ab_frames b"] by (simp add: ab_channel_def ab_wf_def)

lemma length_ab_channel [simp]:
  "ab_wf b \<Longrightarrow> c < ab_channels b \<Longrightarrow> length (ab_channel b c) = ab_frames b"
  using row_fits [of c "ab_channels b" "ab_frames b"] by (simp add: ab_channel_def ab_wf_def)

lemma make_audio_buffer_wf: "make_audio_buffer c f = Some b \<Longrightarrow> ab_wf b"
  by (auto simp: make_audio_buffer_def ab_wf_def split: if_splits)

lemma ab_clear_simps [simp]:
  "ab_channels (ab_clear b) = ab_channels b" "ab_frames (ab_clear b) = ab_frames b"
  "ab_wf (ab_clear b) = ab_wf b"
  by (simp_all add: ab_clear_def ab_wf_def)

lemma ab_channel_clear:
  "ab_wf b \<Longrightarrow> c < ab_channels b \<Longrightarrow> ab_channel (ab_clear b) c = replicate (ab_frames b) 0"
  using row_fits [of c "ab_channels b" "ab_frames b"]
  by (simp add: ab_channel_def ab_clear_def ab_wf_def min_def)

text \<open>
  The copy: the common channels and frames are the source's, everything else is silence.
\<close>

lemma ab_copy_channel_simps [simp]:
  "ab_channels (ab_copy_channel src n c b) = ab_channels b"
  "ab_frames (ab_copy_channel src n c b) = ab_frames b"
  by (simp_all add: ab_copy_channel_def)

lemma ab_copy_channel_nth:
  assumes "ab_wf b" "ab_wf src" "c < ab_channels b" "c < ab_channels src"
    and "n \<le> ab_frames b" "n \<le> ab_frames src"
  shows "ab_wf (ab_copy_channel src n c b)"
    and "d < ab_channels b \<Longrightarrow> j < ab_frames b \<Longrightarrow>
      ab_channel (ab_copy_channel src n c b) d ! j =
        (if d = c \<and> j < n then ab_channel src c ! j else ab_channel b d ! j)"
proof -
  have fits: "c * ab_frames b + n \<le> length (ab_samples b)"
    using assms row_fits [of c "ab_channels b" "ab_frames b"] by (simp add: ab_wf_def)
  show wf: "ab_wf (ab_copy_channel src n c b)"
    using assms fits by (simp add: ab_wf_def ab_copy_channel_def)
  assume d: "d < ab_channels b" "j < ab_frames b"
  then have "d * ab_frames b + j < length (ab_samples b)"
    using assms row_bound by (simp add: ab_wf_def)
  with assms d fits wf show "ab_channel (ab_copy_channel src n c b) d ! j =
        (if d = c \<and> j < n then ab_channel src c ! j else ab_channel b d ! j)"
    using row_window [of j "ab_frames b" 0 n c d]
    by (auto simp: ab_channel_nth ab_copy_channel_def nth_copy_n)
qed

lemma ab_copy_channels_nth:
  assumes "ab_wf b" "ab_wf src" "k \<le> ab_channels b" "k \<le> ab_channels src"
    and "n \<le> ab_frames b" "n \<le> ab_frames src"
  shows "ab_wf (fold (ab_copy_channel src n) [0..<k] b) \<and>
    ab_channels (fold (ab_copy_channel src n) [0..<k] b) = ab_channels b \<and>
    ab_frames (fold (ab_copy_channel src n) [0..<k] b) = ab_frames b \<and>
    (\<forall>d < ab_channels b. \<forall>j < ab_frames b.
      ab_channel (fold (ab_copy_channel src n) [0..<k] b) d ! j =
        (if d < k \<and> j < n then ab_channel src d ! j else ab_channel b d ! j))"
  using assms
proof (induction k)
  case (Suc k)
  let ?b = "fold (ab_copy_channel src n) [0..<k] b"
  from Suc have IH: "ab_wf ?b" "ab_channels ?b = ab_channels b" "ab_frames ?b = ab_frames b"
    and nth: "\<forall>d < ab_channels b. \<forall>j < ab_frames b. ab_channel ?b d ! j =
        (if d < k \<and> j < n then ab_channel src d ! j else ab_channel b d ! j)" by simp_all
  have "k < ab_channels ?b" "k < ab_channels src" using Suc.prems IH by simp_all
  note step = ab_copy_channel_nth [OF IH(1) Suc.prems(2) this, of n]
  show ?case using step IH nth Suc.prems by (auto simp: less_Suc_eq)
qed simp

lemma ab_copy_from_simps:
  assumes "ab_wf b" "ab_wf src"
  shows "ab_wf (ab_copy_from b src)" "ab_channels (ab_copy_from b src) = ab_channels b"
    "ab_frames (ab_copy_from b src) = ab_frames b"
    and "d < ab_channels b \<Longrightarrow> j < ab_frames b \<Longrightarrow> ab_channel (ab_copy_from b src) d ! j =
      (if d < ab_channels src \<and> j < ab_frames src then ab_channel src d ! j else 0)"
  using ab_copy_channels_nth [of "ab_clear b" src "min (ab_channels b) (ab_channels src)"
      "min (ab_frames b) (ab_frames src)"] assms
  by (auto simp: ab_copy_from_def Let_def ab_channel_clear)

section \<open>Writing the start of a channel\<close>

definition ab_put_channel :: "f32 list \<Rightarrow> nat \<Rightarrow> audio_buffer \<Rightarrow> audio_buffer" where
  "ab_put_channel samples d b = b\<lparr>ab_samples := copy_n samples (length samples) (d * ab_frames b) (ab_samples b)\<rparr>"

lemma ab_put_channel_simps [simp]:
  "ab_channels (ab_put_channel xs d b) = ab_channels b" "ab_frames (ab_put_channel xs d b) = ab_frames b"
  by (simp_all add: ab_put_channel_def)

lemma ab_put_channel_wf:
  assumes "ab_wf b" "d < ab_channels b" "length xs \<le> ab_frames b"
  shows "ab_wf (ab_put_channel xs d b)"
    and "e < ab_channels b \<Longrightarrow> ab_channel (ab_put_channel xs d b) e =
      (if e = d then xs @ drop (length xs) (ab_channel b d) else ab_channel b e)"
proof -
  have fits: "d * ab_frames b + length xs \<le> length (ab_samples b)"
    using row_fits [OF assms(2), of "ab_frames b"] assms(1,3) by (simp add: ab_wf_def)
  show wf: "ab_wf (ab_put_channel xs d b)"
    using assms fits by (simp add: ab_wf_def ab_put_channel_def)
  assume e: "e < ab_channels b"
  show "ab_channel (ab_put_channel xs d b) e = (if e = d then xs @ drop (length xs) (ab_channel b d) else ab_channel b e)"
  proof (rule nth_equalityI)
    show "length (ab_channel (ab_put_channel xs d b) e) =
        length (if e = d then xs @ drop (length xs) (ab_channel b d) else ab_channel b e)"
      using wf assms e by simp
    fix j
    assume "j < length (ab_channel (ab_put_channel xs d b) e)"
    then have j: "j < ab_frames b" using wf e by simp
    have at: "e * ab_frames b + j < length (ab_samples b)"
      using row_bound [OF e j] assms(1) by (simp add: ab_wf_def)
    have "ab_channel (ab_put_channel xs d b) e ! j = ab_samples (ab_put_channel xs d b) ! (e * ab_frames b + j)"
      using ab_channel_nth [OF wf, of e j] e j by simp
    also have "\<dots> = (if e = d \<and> j < length xs then xs ! j else ab_samples b ! (e * ab_frames b + j))"
      using nth_copy_n [OF order_refl fits at] row_window [of j "ab_frames b" 0 "length xs" d e] assms(3) j
      by (auto simp: ab_put_channel_def)
    finally show "ab_channel (ab_put_channel xs d b) e ! j =
        (if e = d then xs @ drop (length xs) (ab_channel b d) else ab_channel b e) ! j"
      using ab_channel_nth [OF assms(1) e j] j assms(1,2) by (auto simp: nth_append)
  qed
qed

text \<open>The loops over channels: each round fills one channel of a range.\<close>

lemma ab_put_channels:
  assumes "ab_wf b" "first + n \<le> ab_channels b" "\<forall>c < n. length (g c) \<le> ab_frames b"
  shows "ab_wf (fold (\<lambda>c. ab_put_channel (g c) (first + c)) [0..<n] b) \<and>
    ab_channels (fold (\<lambda>c. ab_put_channel (g c) (first + c)) [0..<n] b) = ab_channels b \<and>
    ab_frames (fold (\<lambda>c. ab_put_channel (g c) (first + c)) [0..<n] b) = ab_frames b \<and>
    (\<forall>e < ab_channels b. ab_channel (fold (\<lambda>c. ab_put_channel (g c) (first + c)) [0..<n] b) e =
      (if first \<le> e \<and> e < first + n then g (e - first) @ drop (length (g (e - first))) (ab_channel b e)
       else ab_channel b e))"
  using assms(2,3)
proof (induction n)
  case 0
  then show ?case using assms(1) by auto
next
  case (Suc n)
  let ?b = "fold (\<lambda>c. ab_put_channel (g c) (first + c)) [0..<n] b"
  have IH: "ab_wf ?b" "ab_channels ?b = ab_channels b" "ab_frames ?b = ab_frames b"
    "\<forall>e < ab_channels b. ab_channel ?b e =
      (if first \<le> e \<and> e < first + n then g (e - first) @ drop (length (g (e - first))) (ab_channel b e) else ab_channel b e)"
    using Suc by simp_all
  have n: "first + n < ab_channels ?b" "length (g n) \<le> ab_frames ?b" using Suc.prems IH by simp_all
  note put = ab_put_channel_wf [OF IH(1) n]
  have "ab_channel (ab_put_channel (g n) (first + n) ?b) e =
      (if first \<le> e \<and> e < first + Suc n then g (e - first) @ drop (length (g (e - first))) (ab_channel b e)
       else ab_channel b e)" if "e < ab_channels b" for e
    using put(2) [of e] IH that by auto
  then show ?case using put(1) IH by simp
qed

lemma ab_put_whole_channels:
  assumes "ab_wf b" "first + n \<le> ab_channels b" "\<forall>c < n. length (g c) = ab_frames b"
  shows "ab_wf (fold (\<lambda>c. ab_put_channel (g c) (first + c)) [0..<n] b) \<and>
    ab_channels (fold (\<lambda>c. ab_put_channel (g c) (first + c)) [0..<n] b) = ab_channels b \<and>
    ab_frames (fold (\<lambda>c. ab_put_channel (g c) (first + c)) [0..<n] b) = ab_frames b \<and>
    (\<forall>e < ab_channels b. ab_channel (fold (\<lambda>c. ab_put_channel (g c) (first + c)) [0..<n] b) e =
      (if first \<le> e \<and> e < first + n then g (e - first) else ab_channel b e))"
proof -
  have le: "\<forall>c < n. length (g c) \<le> ab_frames b" using assms(3) by simp
  have whole: "g (e - first) @ drop (length (g (e - first))) (ab_channel b e) = g (e - first)"
    if "e < ab_channels b" "first \<le> e \<and> e < first + n" for e
  proof -
    have "length (g (e - first)) = ab_frames b" using assms(3) that(2) by auto
    then show ?thesis using assms(1) that(1) by simp
  qed
  note puts = ab_put_channels [OF assms(1,2) le]
  show ?thesis
  proof (intro conjI allI impI)
    fix e
    assume e: "e < ab_channels b"
    show "ab_channel (fold (\<lambda>c. ab_put_channel (g c) (first + c)) [0..<n] b) e =
      (if first \<le> e \<and> e < first + n then g (e - first) else ab_channel b e)"
      using puts e whole [OF e] by simp
  qed (use puts in simp_all)
qed

section \<open>The planar FIFO\<close>

record planar_fifo =
  pf_channels :: nat
  pf_capacity :: nat
  pf_samples :: "f32 list"
  pf_read :: nat
  pf_write :: nat
  pf_available :: nat

datatype fifo_error = InvalidArgument | LengthError

text \<open>\<^verbatim>\<open>checked_sample_count\<close>: \<open>size_t\<close> is 64 bits wide.\<close>

definition checked_sample_count :: "nat \<Rightarrow> nat \<Rightarrow> fifo_error + nat" where
  "checked_sample_count channels capacity =
     (if channels = 0 \<or> capacity = 0 then Inl InvalidArgument
      else if capacity > (2 ^ 64 - 1) div channels then Inl LengthError
      else Inr (channels * capacity))"

definition make_planar_fifo :: "nat \<Rightarrow> nat \<Rightarrow> fifo_error + planar_fifo" where
  "make_planar_fifo channels capacity =
     (case checked_sample_count channels capacity of
        Inl e \<Rightarrow> Inl e
      | Inr n \<Rightarrow> Inr \<lparr>pf_channels = channels, pf_capacity = capacity, pf_samples = replicate n 0,
                    pf_read = 0, pf_write = 0, pf_available = 0\<rparr>)"

definition pf_free_frames :: "planar_fifo \<Rightarrow> nat" where
  "pf_free_frames q = pf_capacity q - pf_available q"

text \<open>
  One round of the channel loop of \<open>push\<close>: \<open>first\<close> frames up to the end of the channel's
  storage, \<open>second\<close> frames wrapped to its start.
\<close>

definition pf_push_channel ::
  "audio_buffer \<Rightarrow> nat \<Rightarrow> nat \<Rightarrow> nat \<Rightarrow> nat \<Rightarrow> nat \<Rightarrow> f32 list \<Rightarrow> f32 list" where
  "pf_push_channel src cap wr first second c samples =
     copy_n (drop first (ab_channel src c)) second (c * cap)
       (copy_n (ab_channel src c) first (c * cap + wr) samples)"

definition pf_push :: "audio_buffer \<Rightarrow> nat \<Rightarrow> planar_fifo \<Rightarrow> nat \<times> planar_fifo" where
  "pf_push src frames q =
     (if ab_channels src \<noteq> pf_channels q then (0, q)
      else
        let transferred = min frames (min (ab_frames src) (pf_free_frames q));
            first = min transferred (pf_capacity q - pf_write q);
            second = transferred - first
        in (transferred,
            q\<lparr>pf_samples := fold (pf_push_channel src (pf_capacity q) (pf_write q) first second)
                             [0..<pf_channels q] (pf_samples q),
              pf_write := (pf_write q + transferred) mod pf_capacity q,
              pf_available := pf_available q + transferred\<rparr>))"

definition pf_peek_channel ::
  "planar_fifo \<Rightarrow> nat \<Rightarrow> nat \<Rightarrow> nat \<Rightarrow> audio_buffer \<Rightarrow> audio_buffer" where
  "pf_peek_channel q first second c dst =
     dst\<lparr>ab_samples :=
       copy_n (drop (c * pf_capacity q) (pf_samples q)) second (c * ab_frames dst + first)
         (copy_n (drop (c * pf_capacity q + pf_read q) (pf_samples q)) first (c * ab_frames dst)
           (ab_samples dst))\<rparr>"

definition pf_peek :: "audio_buffer \<Rightarrow> nat \<Rightarrow> planar_fifo \<Rightarrow> nat \<times> audio_buffer" where
  "pf_peek dst frames q =
     (if ab_channels dst \<noteq> pf_channels q then (0, dst)
      else
        let transferred = min frames (min (ab_frames dst) (pf_available q));
            first = min transferred (pf_capacity q - pf_read q);
            second = transferred - first
        in (transferred, fold (pf_peek_channel q first second) [0..<pf_channels q] dst))"

definition pf_consume :: "nat \<Rightarrow> planar_fifo \<Rightarrow> nat \<times> planar_fifo" where
  "pf_consume frames q =
     (let consumed = min frames (pf_available q)
      in (consumed,
          q\<lparr>pf_read := (pf_read q + consumed) mod pf_capacity q,
            pf_available := pf_available q - consumed\<rparr>))"

definition pf_pop :: "audio_buffer \<Rightarrow> nat \<Rightarrow> planar_fifo \<Rightarrow> nat \<times> audio_buffer \<times> planar_fifo" where
  "pf_pop dst frames q =
     (case pf_peek dst frames q of (transferred, dst') \<Rightarrow>
        (transferred, dst', snd (pf_consume transferred q)))"

definition pf_clear :: "planar_fifo \<Rightarrow> planar_fifo" where
  "pf_clear q = q\<lparr>pf_read := 0, pf_write := 0, pf_available := 0\<rparr>"

text \<open>
  The invariant ties the two positions to the fill level; the abstraction reads channel
  \<open>c\<close> from the read position on, wrapping at the capacity.
\<close>

definition pf_inv :: "planar_fifo \<Rightarrow> bool" where
  "pf_inv q \<longleftrightarrow> 0 < pf_channels q \<and> 0 < pf_capacity q \<and>
     length (pf_samples q) = pf_channels q * pf_capacity q \<and>
     pf_read q < pf_capacity q \<and> pf_available q \<le> pf_capacity q \<and>
     pf_write q = (pf_read q + pf_available q) mod pf_capacity q"

definition pf_contents :: "planar_fifo \<Rightarrow> nat \<Rightarrow> f32 list" where
  "pf_contents q c =
     map (\<lambda>i. pf_samples q ! (c * pf_capacity q + (pf_read q + i) mod pf_capacity q))
       [0..<pf_available q]"

text \<open>
  Position \<open>p\<close> of a channel's storage, counted from the write position with wrap-around.
\<close>

definition ring_dist :: "nat \<Rightarrow> nat \<Rightarrow> nat \<Rightarrow> nat" where
  "ring_dist cap wr p = (if wr \<le> p then p - wr else p + cap - wr)"

lemma mod_step: "((x mod c) + n) mod c = (x + n) mod (c::nat)"
  by (rule mod_add_left_eq)

lemma mod_step_back: "m \<le> n \<Longrightarrow> ((x + m) mod c + n - m) mod c = (x + n) mod (c::nat)"
  using mod_step [of "x + m" c "n - m"] by simp

lemma ring_dist_less: "p < cap \<Longrightarrow> wr < cap \<Longrightarrow> ring_dist cap wr p < cap"
  by (auto simp: ring_dist_def)

lemma ring_dist_mod:
  assumes "wr < cap" "i < cap"
  shows "ring_dist cap wr ((wr + i) mod cap) = i"
  using assms by (cases "wr + i < cap") (auto simp: ring_dist_def mod_if)

lemma pf_push_channel_nth:
  assumes "length samples = chs * cap" "c < chs" "wr < cap" "n \<le> cap"
    and "first = min n (cap - wr)" "n \<le> length (ab_channel src c)"
  shows "length (pf_push_channel src cap wr first (n - first) c samples) = chs * cap"
    and "d < chs \<Longrightarrow> p < cap \<Longrightarrow>
      pf_push_channel src cap wr first (n - first) c samples ! (d * cap + p) =
        (if d = c \<and> ring_dist cap wr p < n then ab_channel src c ! ring_dist cap wr p
         else samples ! (d * cap + p))"
proof -
  have fit: "c * cap + wr + first \<le> length samples" "c * cap + (n - first) \<le> length samples"
    using row_fits [of c chs cap] assms by (auto simp: min_def)
  have bounds: "first \<le> length (ab_channel src c)"
    "n - first \<le> length (drop first (ab_channel src c))" "first \<le> n"
    using assms(5,6) by (simp_all add: diff_le_mono)
  let ?s = "copy_n (ab_channel src c) first (c * cap + wr) samples"
  have inner: "length ?s = chs * cap"
    using fit bounds assms(1) by simp
  then show "length (pf_push_channel src cap wr first (n - first) c samples) = chs * cap"
    using fit bounds assms(1) unfolding pf_push_channel_def by simp
  assume d: "d < chs" "p < cap"
  then have lt: "d * cap + p < chs * cap" by (rule row_bound)
  have w1: "c * cap + wr \<le> d * cap + p \<and> d * cap + p < c * cap + wr + first \<longleftrightarrow>
      d = c \<and> wr \<le> p \<and> p < wr + first"
    using row_window [of p cap wr first c d] d assms(3,5) by auto
  have w2: "c * cap \<le> d * cap + p \<and> d * cap + p < c * cap + (n - first) \<longleftrightarrow>
      d = c \<and> p < n - first"
    using row_window [of p cap 0 "n - first" c d] d assms(4) by auto
  have nth_inner: "?s ! (d * cap + p) =
      (if d = c \<and> wr \<le> p \<and> p < wr + first then ab_channel src c ! (p - wr)
       else samples ! (d * cap + p))"
    using nth_copy_n [OF bounds(1) fit(1), of "d * cap + p"] lt assms(1) unfolding w1 by simp
  have "c * cap + (n - first) \<le> length ?s" using fit inner assms(1) by simp
  from nth_copy_n [OF bounds(2) this, of "d * cap + p"]
  have nth_outer: "pf_push_channel src cap wr first (n - first) c samples ! (d * cap + p) =
      (if d = c \<and> p < n - first then ab_channel src c ! (first + p) else ?s ! (d * cap + p))"
    using lt inner bounds(1) unfolding w2 pf_push_channel_def by simp
  have "ring_dist cap wr p < n \<and> (if p < n - first then ring_dist cap wr p = first + p
      else wr \<le> p \<and> p < wr + first \<and> ring_dist cap wr p = p - wr) \<or>
      \<not> ring_dist cap wr p < n \<and> \<not> p < n - first \<and> \<not> (wr \<le> p \<and> p < wr + first)"
    using assms(3-5) d(2) by (auto simp: ring_dist_def min_def)
  then show "pf_push_channel src cap wr first (n - first) c samples ! (d * cap + p) =
        (if d = c \<and> ring_dist cap wr p < n then ab_channel src c ! ring_dist cap wr p
         else samples ! (d * cap + p))"
    unfolding nth_outer nth_inner by (cases "d = c") (auto split: if_splits)
qed

lemma pf_push_channels_nth:
  assumes "length samples = chs * cap" "k \<le> chs" "wr < cap" "n \<le> cap"
    and "first = min n (cap - wr)" "\<forall>c < chs. n \<le> length (ab_channel src c)"
  defines "r \<equiv> fold (pf_push_channel src cap wr first (n - first)) [0..<k] samples"
  shows "length r = chs * cap \<and> (\<forall>d < chs. \<forall>p < cap. r ! (d * cap + p) =
      (if d < k \<and> ring_dist cap wr p < n then ab_channel src d ! ring_dist cap wr p
       else samples ! (d * cap + p)))"
  unfolding r_def using assms(2)
proof (induction k)
  case 0
  then show ?case using assms(1) by simp
next
  case (Suc k)
  let ?s = "fold (pf_push_channel src cap wr first (n - first)) [0..<k] samples"
  from Suc have IH: "length ?s = chs * cap" "\<forall>d < chs. \<forall>p < cap. ?s ! (d * cap + p) =
      (if d < k \<and> ring_dist cap wr p < n then ab_channel src d ! ring_dist cap wr p
       else samples ! (d * cap + p))" by simp_all
  have k: "k < chs" "n \<le> length (ab_channel src k)" using Suc.prems assms(6) by auto
  note step = pf_push_channel_nth [OF IH(1) k(1) assms(3,4,5) k(2)]
  show ?case using step IH by (auto simp: less_Suc_eq)
qed

lemma pf_push_unfold:
  assumes inv: "pf_inv q" and src: "ab_wf src" "ab_channels src = pf_channels q"
  obtains r n where "n = min frames (min (ab_frames src) (pf_free_frames q))"
    and "pf_push src frames q = (n, q\<lparr>pf_samples := r,
      pf_write := (pf_write q + n) mod pf_capacity q, pf_available := pf_available q + n\<rparr>)"
    and "length r = pf_channels q * pf_capacity q"
    and "\<And>d p. d < pf_channels q \<Longrightarrow> p < pf_capacity q \<Longrightarrow> r ! (d * pf_capacity q + p) =
      (if ring_dist (pf_capacity q) (pf_write q) p < n
       then ab_channel src d ! ring_dist (pf_capacity q) (pf_write q) p
       else pf_samples q ! (d * pf_capacity q + p))"
proof -
  define n where "n = min frames (min (ab_frames src) (pf_free_frames q))"
  define r where "r = fold (pf_push_channel src (pf_capacity q) (pf_write q)
      (min n (pf_capacity q - pf_write q)) (n - min n (pf_capacity q - pf_write q)))
      [0..<pf_channels q] (pf_samples q)"
  have n: "n \<le> pf_capacity q" "n \<le> ab_frames src"
    by (auto simp: n_def pf_free_frames_def)
  have len: "length (pf_samples q) = pf_channels q * pf_capacity q" "pf_write q < pf_capacity q"
    using inv by (auto simp: pf_inv_def)
  have "\<forall>c < pf_channels q. n \<le> length (ab_channel src c)" using n src by simp
  note push = pf_push_channels_nth [OF len(1) order_refl len(2) n(1) refl this, folded r_def]
  show thesis
    by (rule that [of n r]) (use push src in \<open>auto simp: pf_push_def Let_def n_def r_def\<close>)
qed

lemma pf_push_refines:
  assumes inv: "pf_inv q" and src: "ab_wf src" "ab_channels src = pf_channels q"
    and c: "c < pf_channels q"
  shows "pf_contents (snd (pf_push src frames q)) c =
    pf_contents q c @ take (fst (pf_push src frames q)) (ab_channel src c)"
proof -
  let ?cap = "pf_capacity q" and ?wr = "pf_write q" and ?av = "pf_available q"
  from inv src obtain r n where n_def: "n = min frames (min (ab_frames src) (pf_free_frames q))"
    and push: "pf_push src frames q = (n, q\<lparr>pf_samples := r, pf_write := (?wr + n) mod ?cap,
      pf_available := ?av + n\<rparr>)"
    and nth: "\<And>d p. d < pf_channels q \<Longrightarrow> p < ?cap \<Longrightarrow> r ! (d * ?cap + p) =
      (if ring_dist ?cap ?wr p < n then ab_channel src d ! ring_dist ?cap ?wr p
       else pf_samples q ! (d * ?cap + p))"
    by (rule pf_push_unfold [where frames = frames]) blast
  have n: "n \<le> ?cap" "?av + n \<le> ?cap" "n \<le> ab_frames src"
    using inv by (auto simp: n_def pf_free_frames_def pf_inv_def)
  have rd: "pf_read q < ?cap" "?wr < ?cap" "?wr = (pf_read q + ?av) mod ?cap"
    using inv by (auto simp: pf_inv_def)
  have pos: "(pf_read q + i) mod ?cap = (?wr + (i + ?cap - ?av)) mod ?cap" if "i < ?cap" for i
  proof -
    have "(?wr + (i + ?cap - ?av)) mod ?cap = (pf_read q + ?av + (i + ?cap - ?av)) mod ?cap"
      by (simp add: rd(3) mod_add_left_eq)
    also have "\<dots> = (pf_read q + i + ?cap) mod ?cap"
      using n by (intro arg_cong [where f = "\<lambda>x. x mod ?cap"]) simp
    finally show ?thesis by simp
  qed
  have dist: "ring_dist ?cap ?wr ((pf_read q + i) mod ?cap) =
      (if i < ?av then i + ?cap - ?av else i - ?av)" if "i < ?av + n" for i
  proof (cases "i < ?av")
    case True
    then show ?thesis using pos [of i] ring_dist_mod [OF rd(2), of "i + ?cap - ?av"] n by simp
  next
    case False
    then have "?wr + (i + ?cap - ?av) = ?wr + (i - ?av) + ?cap" by simp
    then have "(?wr + (i + ?cap - ?av)) mod ?cap = (?wr + (i - ?av)) mod ?cap"
      by (metis mod_add_self2)
    then show ?thesis
      using False that n pos [of i] ring_dist_mod [OF rd(2), of "i - ?av"] by simp
  qed
  show ?thesis
  proof (rule nth_equalityI)
    show "length (pf_contents (snd (pf_push src frames q)) c) =
        length (pf_contents q c @ take (fst (pf_push src frames q)) (ab_channel src c))"
      using src c n by (simp add: push pf_contents_def)
  next
    fix i
    assume "i < length (pf_contents (snd (pf_push src frames q)) c)"
    then have i: "i < ?av + n" by (simp add: push pf_contents_def)
    have "(pf_read q + i) mod ?cap < ?cap" using rd by simp
    then show "pf_contents (snd (pf_push src frames q)) c ! i =
        (pf_contents q c @ take (fst (pf_push src frames q)) (ab_channel src c)) ! i"
      using i nth c n dist [OF i] by (auto simp: push pf_contents_def nth_append)
  qed
qed

lemma pf_push_count:
  "ab_channels src = pf_channels q \<Longrightarrow>
     fst (pf_push src frames q) = min frames (min (ab_frames src) (pf_free_frames q))"
  by (simp add: pf_push_def Let_def)

lemma pf_push_mismatch: "ab_channels src \<noteq> pf_channels q \<Longrightarrow> pf_push src frames q = (0, q)"
  by (simp add: pf_push_def)

lemma pf_push_frame [simp]:
  "pf_channels (snd (pf_push src frames q)) = pf_channels q"
  "pf_capacity (snd (pf_push src frames q)) = pf_capacity q"
  "pf_read (snd (pf_push src frames q)) = pf_read q"
  by (simp_all add: pf_push_def Let_def)

lemma pf_push_available [simp]:
  "pf_available (snd (pf_push src frames q)) = pf_available q + fst (pf_push src frames q)"
  by (simp add: pf_push_def Let_def)

lemma pf_push_inv:
  assumes "pf_inv q" "ab_wf src"
  shows "pf_inv (snd (pf_push src frames q))"
proof (cases "ab_channels src = pf_channels q")
  case True
  from assms True obtain r n where "n = min frames (min (ab_frames src) (pf_free_frames q))"
    and "pf_push src frames q = (n, q\<lparr>pf_samples := r,
      pf_write := (pf_write q + n) mod pf_capacity q, pf_available := pf_available q + n\<rparr>)"
    and "length r = pf_channels q * pf_capacity q"
    by (rule pf_push_unfold [where frames = frames]) blast
  then show ?thesis
    using assms by (auto simp: pf_inv_def pf_free_frames_def mod_step add.assoc)
qed (use assms in \<open>simp add: pf_push_mismatch\<close>)

lemma pf_consume_inv: "pf_inv q \<Longrightarrow> pf_inv (snd (pf_consume frames q))"
  by (simp add: pf_inv_def pf_consume_def Let_def mod_step_back le_diff_conv)

lemma pf_consume_refines:
  assumes "pf_inv q"
  shows "pf_contents (snd (pf_consume frames q)) c = drop frames (pf_contents q c)"
proof (rule nth_equalityI)
  fix i
  assume "i < length (pf_contents (snd (pf_consume frames q)) c)"
  then have "i + min frames (pf_available q) < pf_available q" and "frames < pf_available q"
    by (auto simp: pf_consume_def pf_contents_def Let_def min_def split: if_splits)
  then show "pf_contents (snd (pf_consume frames q)) c ! i = drop frames (pf_contents q c) ! i"
    by (simp add: pf_consume_def pf_contents_def Let_def mod_add_left_eq add.assoc)
qed (auto simp: pf_consume_def pf_contents_def Let_def)

lemma pf_clear_simps [simp]:
  "pf_contents (pf_clear q) c = []" "pf_inv q \<Longrightarrow> pf_inv (pf_clear q)"
  by (simp_all add: pf_clear_def pf_contents_def pf_inv_def)

lemma length_pf_contents [simp]: "length (pf_contents q c) = pf_available q"
  by (simp add: pf_contents_def)

lemma make_planar_fifo_ok:
  "make_planar_fifo channels capacity = Inr q \<Longrightarrow>
     pf_inv q \<and> pf_channels q = channels \<and> pf_capacity q = capacity \<and> pf_contents q c = []"
  by (auto simp: make_planar_fifo_def checked_sample_count_def pf_inv_def pf_contents_def
      split: if_splits)

text \<open>
  \<open>peek\<close> writes the oldest frames to the front of each destination channel and leaves the
  rest of the destination as it was.
\<close>

lemma pf_peek_channel_nth:
  assumes inv: "pf_inv q" and c: "c < pf_channels q" and dst: "ab_wf dst" "c < ab_channels dst"
    and n: "n \<le> pf_available q" "n \<le> ab_frames dst" "first = min n (pf_capacity q - pf_read q)"
  shows "ab_wf (pf_peek_channel q first (n - first) c dst)"
    and "d < ab_channels dst \<Longrightarrow> j < ab_frames dst \<Longrightarrow>
      ab_channel (pf_peek_channel q first (n - first) c dst) d ! j =
        (if d = c \<and> j < n then pf_contents q c ! j else ab_channel dst d ! j)"
proof -
  let ?F = "ab_frames dst" and ?cap = "pf_capacity q" and ?rd = "pf_read q"
  let ?old = "drop (c * ?cap + ?rd) (pf_samples q)" and ?wrap = "drop (c * ?cap) (pf_samples q)"
  let ?s = "copy_n ?old first (c * ?F) (ab_samples dst)"
  have src: "c * ?cap + ?cap \<le> length (pf_samples q)" "?rd < ?cap" "n \<le> ?cap"
    using inv row_fits [OF c, of ?cap] n by (auto simp: pf_inv_def)
  have fit: "c * ?F + ?F \<le> length (ab_samples dst)"
    using row_fits [OF dst(2), of ?F] dst(1) by (simp add: ab_wf_def)
  have bounds: "first \<le> length ?old" "n - first \<le> length ?wrap" "first \<le> n"
    using src n(3) by auto
  have at: "c * ?F + first \<le> length (ab_samples dst)"
    using fit n bounds(3) by simp
  have inner: "length ?s = length (ab_samples dst)"
    using at bounds(1) by simp
  have at2: "c * ?F + first + (n - first) \<le> length ?s"
    unfolding inner using fit n bounds(3) by simp
  have samples: "ab_samples (pf_peek_channel q first (n - first) c dst) =
      copy_n ?wrap (n - first) (c * ?F + first) ?s"
    by (simp add: pf_peek_channel_def)
  show wf: "ab_wf (pf_peek_channel q first (n - first) c dst)"
    using at2 bounds(2) inner dst(1) by (simp add: ab_wf_def pf_peek_channel_def)
  assume d: "d < ab_channels dst" "j < ?F"
  then have lt: "d * ?F + j < length (ab_samples dst)"
    using row_bound dst(1) by (simp add: ab_wf_def)
  have w1: "c * ?F \<le> d * ?F + j \<and> d * ?F + j < c * ?F + first \<longleftrightarrow> d = c \<and> j < first"
    using row_window [of j ?F 0 first c d] d n bounds(3) by auto
  have w2: "c * ?F + first \<le> d * ?F + j \<and> d * ?F + j < c * ?F + first + (n - first) \<longleftrightarrow>
      d = c \<and> first \<le> j \<and> j < n"
    using row_window [of j ?F first "n - first" c d] d n bounds(3) by auto
  have nth_inner: "?s ! (d * ?F + j) = (if d = c \<and> j < first then pf_samples q ! (c * ?cap + (?rd + j))
      else ab_samples dst ! (d * ?F + j))"
    using nth_copy_n [OF bounds(1) at lt] src bounds unfolding w1 by (simp add: add.assoc)
  have nth_outer: "copy_n ?wrap (n - first) (c * ?F + first) ?s ! (d * ?F + j) =
      (if d = c \<and> first \<le> j \<and> j < n then pf_samples q ! (c * ?cap + (j - first))
       else ?s ! (d * ?F + j))"
    using nth_copy_n [OF bounds(2) at2, of "d * ?F + j"] lt inner src unfolding w2 by simp
  have contents: "j < n \<Longrightarrow> pf_contents q c ! j =
      pf_samples q ! (c * ?cap + (if j < first then ?rd + j else j - first))"
    using src n(1,3) by (auto simp: pf_contents_def mod_if min_def ac_simps)
  have lhs: "ab_channel (pf_peek_channel q first (n - first) c dst) d ! j =
      ab_samples (pf_peek_channel q first (n - first) c dst) ! (d * ?F + j)"
    using ab_channel_nth [OF wf, of d j] d by (simp add: pf_peek_channel_def)
  show "ab_channel (pf_peek_channel q first (n - first) c dst) d ! j =
        (if d = c \<and> j < n then pf_contents q c ! j else ab_channel dst d ! j)"
    unfolding lhs samples nth_outer nth_inner ab_channel_nth [OF dst(1) d]
    using contents bounds(3) by simp
qed

lemma pf_peek_channel_simps [simp]:
  "ab_channels (pf_peek_channel q first second c dst) = ab_channels dst"
  "ab_frames (pf_peek_channel q first second c dst) = ab_frames dst"
  by (simp_all add: pf_peek_channel_def)

lemma pf_peek_channels_nth:
  assumes "pf_inv q" "ab_wf dst" "k \<le> ab_channels dst" "ab_channels dst = pf_channels q"
    and "n \<le> pf_available q" "n \<le> ab_frames dst" "first = min n (pf_capacity q - pf_read q)"
  defines "r \<equiv> fold (pf_peek_channel q first (n - first)) [0..<k] dst"
  shows "ab_wf r \<and> ab_channels r = ab_channels dst \<and> ab_frames r = ab_frames dst \<and>
    (\<forall>d < ab_channels dst. \<forall>j < ab_frames dst. ab_channel r d ! j =
      (if d < k \<and> j < n then pf_contents q d ! j else ab_channel dst d ! j))"
  unfolding r_def using assms(3)
proof (induction k)
  case 0
  then show ?case using assms(2) by simp
next
  case (Suc k)
  let ?b = "fold (pf_peek_channel q first (n - first)) [0..<k] dst"
  from Suc have IH: "ab_wf ?b" "ab_channels ?b = ab_channels dst" "ab_frames ?b = ab_frames dst"
    and nth: "\<forall>d < ab_channels dst. \<forall>j < ab_frames dst. ab_channel ?b d ! j =
      (if d < k \<and> j < n then pf_contents q d ! j else ab_channel dst d ! j)" by simp_all
  have k: "k < pf_channels q" "k < ab_channels ?b" "n \<le> ab_frames ?b"
    using Suc.prems assms(4,6) IH by simp_all
  note step = pf_peek_channel_nth [OF assms(1) k(1) IH(1) k(2) assms(5) k(3) assms(7)]
  show ?case using step IH nth by (auto simp: less_Suc_eq)
qed

lemma pf_peek_nth:
  assumes "pf_inv q" "ab_wf dst" "ab_channels dst = pf_channels q"
    and "pf_peek dst frames q = (n, r)"
  shows "n = min frames (min (ab_frames dst) (pf_available q))"
    and "ab_wf r \<and> ab_channels r = ab_channels dst \<and> ab_frames r = ab_frames dst"
    and "d < ab_channels dst \<Longrightarrow> j < ab_frames dst \<Longrightarrow> ab_channel r d ! j =
      (if j < n then pf_contents q d ! j else ab_channel dst d ! j)"
proof -
  show n: "n = min frames (min (ab_frames dst) (pf_available q))"
    using assms by (simp add: pf_peek_def Let_def)
  then have r: "r = fold (pf_peek_channel q (min n (pf_capacity q - pf_read q))
      (n - min n (pf_capacity q - pf_read q))) [0..<ab_channels dst] dst"
    using assms by (simp add: pf_peek_def Let_def)
  have "n \<le> pf_available q" "n \<le> ab_frames dst" using n by simp_all
  note peek = pf_peek_channels_nth [OF assms(1,2) order_refl assms(3) this refl, folded r]
  show "ab_wf r \<and> ab_channels r = ab_channels dst \<and> ab_frames r = ab_frames dst"
    using peek by blast
  show "d < ab_channels dst \<Longrightarrow> j < ab_frames dst \<Longrightarrow> ab_channel r d ! j =
      (if j < n then pf_contents q d ! j else ab_channel dst d ! j)"
    using peek by simp
qed

lemma pf_peek_front:
  assumes "pf_inv q" "ab_wf dst" "ab_channels dst = pf_channels q" "c < pf_channels q"
    and "pf_peek dst frames q = (n, r)"
  shows "take n (ab_channel r c) = take n (pf_contents q c)"
    and "drop n (ab_channel r c) = drop n (ab_channel dst c)"
  using pf_peek_nth [OF assms(1-3,5)] assms(2-4)
  by (auto intro!: nth_equalityI)

section \<open>The frame queue contract\<close>

text \<open>
  What the realtime loops rely on: blocks come out in the order they went in, cut at
  whatever frame counts the two sides use.
\<close>

locale frame_queue =
  fixes contents :: "'q \<Rightarrow> nat \<Rightarrow> 'a list"
    and accepts :: "'q \<Rightarrow> 'b \<Rightarrow> bool"
    and block :: "'b \<Rightarrow> nat \<Rightarrow> 'a list"
    and channels :: "'q \<Rightarrow> nat"
    and push :: "'b \<Rightarrow> nat \<Rightarrow> 'q \<Rightarrow> nat \<times> 'q"
    and consume :: "nat \<Rightarrow> 'q \<Rightarrow> nat \<times> 'q"
    and inv :: "'q \<Rightarrow> bool"
  assumes push_contents: "inv q \<Longrightarrow> accepts q b \<Longrightarrow> c < channels q \<Longrightarrow>
      contents (snd (push b n q)) c = contents q c @ take (fst (push b n q)) (block b c)"
    and push_channels: "channels (snd (push b n q)) = channels q"
    and push_inv: "inv q \<Longrightarrow> accepts q b \<Longrightarrow> inv (snd (push b n q))"
    and consume_contents: "inv q \<Longrightarrow> contents (snd (consume n q)) c = drop n (contents q c)"
    and consume_count: "inv q \<Longrightarrow> c < channels q \<Longrightarrow> fst (consume n q) = min n (length (contents q c))"
    and consume_channels: "channels (snd (consume n q)) = channels q"
    and consume_inv: "inv q \<Longrightarrow> inv (snd (consume n q))"
begin

text \<open>
  Bytes conservation over one push and one consume: what was taken followed by what is left
  is what was there followed by what was accepted.
\<close>

lemma push_then_consume:
  assumes "inv q" "accepts q b" "c < channels q"
  shows "take k (contents (snd (push b n q)) c) @ contents (snd (consume k (snd (push b n q)))) c =
    contents q c @ take (fst (push b n q)) (block b c)"
proof -
  from assms(1,2) have "inv (snd (push b n q))" by (rule push_inv)
  then show ?thesis by (simp only: consume_contents append_take_drop_id push_contents assms)
qed

lemma push_behind:
  assumes "inv q" "accepts q b" "c < channels q" "k \<le> length (contents q c)"
  shows "contents (snd (consume k (snd (push b n q)))) c =
    contents (snd (consume k q)) c @ take (fst (push b n q)) (block b c)"
  using assms by (simp add: consume_contents push_inv push_contents)

text \<open>A run of pushes with every block accepted: the queue holds their frames in order.\<close>

primrec push_all :: "('b \<times> nat) list \<Rightarrow> 'q \<Rightarrow> 'q" where
  "push_all [] q = q"
| "push_all (x # xs) q = push_all xs (snd (push (fst x) (snd x) q))"

primrec pushed :: "('b \<times> nat) list \<Rightarrow> nat \<Rightarrow> 'q \<Rightarrow> 'a list" where
  "pushed [] c q = []"
| "pushed (x # xs) c q = take (fst (push (fst x) (snd x) q)) (block (fst x) c) @
     pushed xs c (snd (push (fst x) (snd x) q))"

lemma push_all_contents:
  assumes "inv q" "c < channels q" "\<And>x q'. x \<in> set xs \<Longrightarrow> channels q' = channels q \<Longrightarrow> accepts q' (fst x)"
  shows "contents (push_all xs q) c = contents q c @ pushed xs c q"
  using assms
proof (induction xs arbitrary: q)
  case (Cons x xs)
  have acc: "accepts q (fst x)" using Cons.prems by simp
  have "contents (push_all xs (snd (push (fst x) (snd x) q))) c =
      contents (snd (push (fst x) (snd x) q)) c @ pushed xs c (snd (push (fst x) (snd x) q))"
    using Cons.prems acc by (intro Cons.IH) (auto simp: push_inv push_channels)
  with Cons.prems acc show ?case by (simp add: push_contents)
qed simp

end

interpretation pf: frame_queue pf_contents "\<lambda>q b. ab_wf b \<and> ab_channels b = pf_channels q"
  ab_channel pf_channels pf_push pf_consume pf_inv
  by unfold_locales
    (auto simp: pf_push_refines pf_push_inv pf_consume_refines pf_consume_inv,
     simp_all add: pf_consume_def Let_def)

section \<open>Properties\<close>

text \<open>
  Pushing into the planar FIFO appends to every channel exactly the first frames of the
  block that fit, across the wrap of the circular storage, and keeps the invariant.
\<close>

theorem planar_push_appends:
  assumes "pf_inv q" "ab_wf src" "ab_channels src = pf_channels q" "pf_push src frames q = (n, q')"
  shows "n = min frames (min (ab_frames src) (pf_capacity q - pf_available q)) \<and> pf_inv q' \<and>
    (\<forall>c < pf_channels q. pf_contents q' c = pf_contents q c @ take n (ab_channel src c))"
proof -
  have "n = fst (pf_push src frames q)" "q' = snd (pf_push src frames q)" using assms(4) by simp_all
  with assms(1-3) show ?thesis
    by (simp add: pf_push_refines pf_push_inv pf_push_count pf_free_frames_def)
qed

definition demo_fifo :: planar_fifo where
  "demo_fifo = \<lparr>pf_channels = 1, pf_capacity = 3, pf_samples = [7, 8, 9], pf_read = 2, pf_write = 1,
     pf_available = 2\<rparr>"

definition demo_block :: audio_buffer where
  "demo_block = \<lparr>ab_channels = 1, ab_frames = 2, ab_samples = [5, 6]\<rparr>"

lemma demo_fifo_inv: "pf_inv demo_fifo" "ab_wf demo_block" "ab_channels demo_block = pf_channels demo_fifo"
  by (simp_all add: demo_fifo_def demo_block_def pf_inv_def ab_wf_def)

theorem planar_push_appends_witness:
  "fst (pf_push demo_block 2 demo_fifo) = 1 \<and>
   pf_contents (snd (pf_push demo_block 2 demo_fifo)) 0 = [9, 7, 5]"
proof -
  have "pf_contents demo_fifo 0 = [9, 7]" by (simp add: pf_contents_def demo_fifo_def upt_rec)
  with planar_push_appends [OF demo_fifo_inv, of 2 "fst (pf_push demo_block 2 demo_fifo)"
      "snd (pf_push demo_block 2 demo_fifo)"] show ?thesis
    by (simp add: ab_channel_def) (simp add: demo_fifo_def demo_block_def)
qed

text \<open>
  Popping delivers the oldest frames: what lands at the front of each destination channel,
  followed by what stays in the FIFO, is what the FIFO held; the rest of the destination keeps
  its samples and the invariant holds.
\<close>

theorem planar_pop_delivers_oldest:
  assumes "pf_inv q" "ab_wf dst" "ab_channels dst = pf_channels q" "pf_pop dst frames q = (n, dst', q')"
  shows "n = min frames (min (ab_frames dst) (pf_available q)) \<and> pf_inv q' \<and> ab_wf dst' \<and>
    (\<forall>c < pf_channels q. take n (ab_channel dst' c) @ pf_contents q' c = pf_contents q c \<and>
       drop n (ab_channel dst' c) = drop n (ab_channel dst c))"
proof -
  obtain m d where peek: "pf_peek dst frames q = (m, d)" by (cases "pf_peek dst frames q")
  with assms(4) have eq: "n = m" "dst' = d" "q' = snd (pf_consume m q)" by (auto simp: pf_pop_def)
  note nth = pf_peek_nth [OF assms(1-3) peek]
  have "take m (ab_channel d c) @ pf_contents (snd (pf_consume m q)) c = pf_contents q c"
    if "c < pf_channels q" for c
    using pf_peek_front(1) [OF assms(1-3) that peek] pf_consume_refines [OF assms(1)] by simp
  then show ?thesis
    using nth(1,2) pf_peek_front(2) [OF assms(1-3) _ peek] pf_consume_inv [OF assms(1)] eq by auto
qed

theorem planar_pop_delivers_oldest_witness:
  "take 2 (ab_channel (fst (snd (pf_pop demo_block 2 demo_fifo))) 0) = [9, 7]"
proof -
  have old: "pf_contents demo_fifo 0 = [9, 7]" by (simp add: pf_contents_def demo_fifo_def upt_rec)
  obtain n d q where pop: "pf_pop demo_block 2 demo_fifo = (n, d, q)" by (cases "pf_pop demo_block 2 demo_fifo") auto
  have "0 < pf_channels demo_fifo" by (simp add: demo_fifo_def)
  with planar_pop_delivers_oldest [OF demo_fifo_inv pop] have
    n: "n = min 2 (min (ab_frames demo_block) (pf_available demo_fifo))"
    and keep: "take n (ab_channel d 0) @ pf_contents q 0 = [9, 7]"
    using old by auto
  then have n: "n = 2" by (simp add: demo_fifo_def demo_block_def)
  have "pf_available q = 0"
    using pop by (auto simp: pf_pop_def pf_peek_def pf_consume_def demo_fifo_def demo_block_def Let_def)
  then have "pf_contents q 0 = []" by (simp add: pf_contents_def)
  with keep n pop show ?thesis by simp
qed

text \<open>
  A FIFO that is constructed has a sample vector whose size did not overflow \<^verbatim>\<open>size_t\<close>, holds
  nothing and satisfies the invariant; zero sizes and overflowing products are refused.
\<close>

theorem planar_fifo_construction:
  assumes "channels < 2 ^ 64" "capacity < 2 ^ 64"
  shows "case make_planar_fifo channels capacity of
      Inr q \<Rightarrow> 0 < channels * capacity \<and> channels * capacity < 2 ^ 64 \<and> pf_inv q \<and>
        length (pf_samples q) = channels * capacity \<and> (\<forall>c. pf_contents q c = [])
    | Inl InvalidArgument \<Rightarrow> channels * capacity = 0
    | Inl LengthError \<Rightarrow> 2 ^ 64 \<le> channels * capacity"
proof -
  have "(2 ^ 64 - 1) div channels < capacity \<longleftrightarrow> 2 ^ 64 - 1 < capacity * channels" if "0 < channels"
    using that by (rule div_less_iff_less_mult)
  then show ?thesis
    by (auto simp: make_planar_fifo_def checked_sample_count_def pf_inv_def pf_contents_def mult.commute)
qed

theorem planar_fifo_construction_witness:
  "make_planar_fifo (2 ^ 40) (2 ^ 40) = Inl LengthError \<and>
   (\<exists>q. make_planar_fifo 2 480 = Inr q \<and> pf_inv q)"
  using planar_fifo_construction [of "2 ^ 40" "2 ^ 40"] planar_fifo_construction [of 2 480]
  by (simp add: make_planar_fifo_def checked_sample_count_def)

text \<open>
  \<open>copy_from\<close> writes the common channels and frames of the source and silence everywhere
  else, and never changes the shape of the buffer.
\<close>

theorem buffer_copy_from:
  assumes "ab_wf b" "ab_wf src" "d < ab_channels b" "j < ab_frames b"
  shows "ab_channel (ab_copy_from b src) d ! j =
      (if d < ab_channels src \<and> j < ab_frames src then ab_channel src d ! j else 0) \<and>
    ab_wf (ab_copy_from b src) \<and> ab_channels (ab_copy_from b src) = ab_channels b \<and>
    ab_frames (ab_copy_from b src) = ab_frames b"
  using ab_copy_from_simps [OF assms(1,2)] assms(3,4) by blast

theorem buffer_copy_from_witness:
  "ab_channel (ab_copy_from \<lparr>ab_channels = 1, ab_frames = 3, ab_samples = [1, 2, 3]\<rparr> demo_block) 0 ! 2 = 0"
  using buffer_copy_from [of "\<lparr>ab_channels = 1, ab_frames = 3, ab_samples = [1, 2, 3]\<rparr>" demo_block 0 2]
  by (simp add: ab_wf_def demo_block_def)

end
