(* ===== verification/SpscRing.thy ===== *)
theory SpscRing
  imports RealtimeBuffers
begin

text \<open>
  \<^verbatim>\<open>core/realtime/spsc_ring_buffer.h\<close>: the single-producer single-consumer ring that carries
  blocks between threads. The operations are modelled twice: as the functions the code
  states, and as the atomic steps in which one producer and one consumer interleave. The
  loads and stores of the two indices are the acquire/release pairs of the code; with one
  writer per index every interleaving of the steps below is one the code can show.
\<close>

section \<open>The ring and its operations\<close>

record 'a spsc_ring =
  sp_slots :: nat
  sp_buffer :: "'a list"
  sp_read :: nat
  sp_write :: nat

text \<open>
  The constructor: \<open>None\<close> is the \<^verbatim>\<open>std::invalid_argument\<close> of \<^verbatim>\<open>checked_capacity\<close>;
  \<open>d\<close> is the value-initialised element.
\<close>

definition make_spsc :: "'a \<Rightarrow> nat \<Rightarrow> 'a spsc_ring option" where
  "make_spsc d capacity =
     (if capacity = 0 \<or> capacity = 2 ^ 64 - 1 then None
      else Some \<lparr>sp_slots = capacity + 1, sp_buffer = replicate (capacity + 1) d,
                 sp_read = 0, sp_write = 0\<rparr>)"

definition sp_capacity :: "'a spsc_ring \<Rightarrow> nat" where
  "sp_capacity r = sp_slots r - 1"

definition sp_increment :: "'a spsc_ring \<Rightarrow> nat \<Rightarrow> nat" where
  "sp_increment r v = (v + 1) mod sp_slots r"

definition sp_empty :: "'a spsc_ring \<Rightarrow> bool" where
  "sp_empty r \<longleftrightarrow> sp_read r = sp_write r"

definition sp_full :: "'a spsc_ring \<Rightarrow> bool" where
  "sp_full r \<longleftrightarrow> sp_increment r (sp_write r) = sp_read r"

definition sp_push :: "'a \<Rightarrow> 'a spsc_ring \<Rightarrow> bool \<times> 'a spsc_ring" where
  "sp_push v r =
     (let next = sp_increment r (sp_write r)
      in if next = sp_read r then (False, r)
         else (True, r\<lparr>sp_buffer := (sp_buffer r)[sp_write r := v], sp_write := next\<rparr>))"

definition sp_pop :: "'a spsc_ring \<Rightarrow> 'a option \<times> 'a spsc_ring" where
  "sp_pop r =
     (if sp_read r = sp_write r then (None, r)
      else (Some (sp_buffer r ! sp_read r), r\<lparr>sp_read := sp_increment r (sp_read r)\<rparr>))"

definition sp_inv :: "'a spsc_ring \<Rightarrow> bool" where
  "sp_inv r \<longleftrightarrow> 1 < sp_slots r \<and> length (sp_buffer r) = sp_slots r \<and>
     sp_read r < sp_slots r \<and> sp_write r < sp_slots r"

definition sp_fill :: "'a spsc_ring \<Rightarrow> nat" where
  "sp_fill r = ring_dist (sp_slots r) (sp_read r) (sp_write r)"

definition sp_contents :: "'a spsc_ring \<Rightarrow> 'a list" where
  "sp_contents r = map (\<lambda>i. sp_buffer r ! ((sp_read r + i) mod sp_slots r)) [0..<sp_fill r]"

lemma sp_increment_eq:
  "sp_inv r \<Longrightarrow> v < sp_slots r \<Longrightarrow> sp_increment r v = (if v + 1 = sp_slots r then 0 else v + 1)"
  by (auto simp: sp_increment_def)

lemma sp_increment_upd [simp]:
  "sp_increment (r\<lparr>sp_read := i\<rparr>) = sp_increment r"
  "sp_increment (r\<lparr>sp_write := i\<rparr>) = sp_increment r"
  "sp_increment (r\<lparr>sp_buffer := b\<rparr>) = sp_increment r"
  by (simp_all add: sp_increment_def fun_eq_iff)

lemma sp_increment_less [simp]: "sp_inv r \<Longrightarrow> sp_increment r v < sp_slots r"
  by (auto simp: sp_increment_def sp_inv_def)

lemma sp_fill_less: "sp_inv r \<Longrightarrow> sp_fill r < sp_slots r"
  by (simp add: sp_fill_def sp_inv_def ring_dist_less)

lemma sp_fill_full: "sp_inv r \<Longrightarrow> sp_full r \<longleftrightarrow> sp_fill r = sp_capacity r"
  by (auto simp: sp_full_def sp_fill_def sp_capacity_def ring_dist_def sp_increment_eq sp_inv_def)

lemma sp_fill_empty: "sp_inv r \<Longrightarrow> sp_empty r \<longleftrightarrow> sp_fill r = 0"
  by (auto simp: sp_empty_def sp_fill_def ring_dist_def sp_inv_def)

lemma sp_write_pos: "sp_inv r \<Longrightarrow> sp_write r = (sp_read r + sp_fill r) mod sp_slots r"
  by (auto simp: sp_fill_def ring_dist_def sp_inv_def)

lemma length_sp_contents [simp]: "length (sp_contents r) = sp_fill r"
  by (simp add: sp_contents_def)

lemma ring_pos_inj:
  "a < n \<Longrightarrow> i < n \<Longrightarrow> j < n \<Longrightarrow> (a + i) mod n = (a + j) mod (n::nat) \<longleftrightarrow> i = j"
  by (auto dest: arg_cong [where f = "ring_dist n a"] simp: ring_dist_mod)

lemma sp_inv_moves:
  assumes "sp_inv r"
  shows "sp_inv (r\<lparr>sp_buffer := (sp_buffer r)[i := v]\<rparr>)"
    and "sp_inv (r\<lparr>sp_write := sp_increment r (sp_write r)\<rparr>)"
    and "sp_inv (r\<lparr>sp_read := sp_increment r (sp_read r)\<rparr>)"
  using assms sp_increment_less [OF assms] by (simp_all add: sp_inv_def)

text \<open>Writing the free slot changes no queued element; publishing it appends the element.\<close>

lemma sp_contents_store:
  assumes "sp_inv r"
  shows "sp_contents (r\<lparr>sp_buffer := (sp_buffer r)[sp_write r := v]\<rparr>) = sp_contents r"
proof -
  have "sp_write r \<noteq> (sp_read r + i) mod sp_slots r" if "i < sp_fill r" for i
    using that assms sp_fill_less [OF assms] ring_pos_inj [of "sp_read r" "sp_slots r" i "sp_fill r"]
    by (simp add: sp_write_pos sp_inv_def)
  then show ?thesis by (auto simp: sp_contents_def sp_fill_def)
qed

lemma sp_fill_publish:
  assumes "sp_inv r" "\<not> sp_full r"
  shows "sp_fill (r\<lparr>sp_write := sp_increment r (sp_write r)\<rparr>) = sp_fill r + 1"
  using assms
  by (auto simp: sp_full_def sp_fill_def ring_dist_def sp_increment_eq sp_inv_def split: if_splits)

lemma sp_contents_publish:
  assumes "sp_inv r" "\<not> sp_full r"
  shows "sp_contents (r\<lparr>sp_write := sp_increment r (sp_write r)\<rparr>) =
    sp_contents r @ [sp_buffer r ! sp_write r]"
  using sp_fill_publish [OF assms] sp_write_pos [OF assms(1)] by (simp add: sp_contents_def)

lemma sp_contents_take:
  assumes "sp_inv r" "\<not> sp_empty r"
  shows "sp_contents r =
    sp_buffer r ! sp_read r # sp_contents (r\<lparr>sp_read := sp_increment r (sp_read r)\<rparr>)"
proof -
  let ?r = "r\<lparr>sp_read := sp_increment r (sp_read r)\<rparr>"
  have fill: "sp_fill r = Suc (sp_fill ?r)"
    using assms
    by (auto simp: sp_empty_def sp_fill_def ring_dist_def sp_increment_eq sp_inv_def split: if_splits)
  have "(sp_read r + Suc i) mod sp_slots r = (sp_increment r (sp_read r) + i) mod sp_slots r" for i
    by (simp add: sp_increment_def mod_step)
  moreover have "sp_read r mod sp_slots r = sp_read r"
    using assms by (simp add: sp_inv_def)
  ultimately show ?thesis
    unfolding sp_contents_def fill by (simp add: upt_conv_Cons map_Suc_upt [symmetric] o_def del: upt_Suc)
qed

section \<open>The bounded queue contract\<close>

text \<open>
  What the owners of a ring rely on: a first-in first-out queue that refuses an element of the
  right shape (\<open>fits\<close>) exactly when it is full.
\<close>

locale bounded_fifo =
  fixes items :: "'q \<Rightarrow> 'a list"
    and bound :: "'q \<Rightarrow> nat"
    and enq :: "'a \<Rightarrow> 'q \<Rightarrow> bool \<times> 'q"
    and deq :: "'q \<Rightarrow> 'a option \<times> 'q"
    and inv :: "'q \<Rightarrow> bool"
    and fits :: "'q \<Rightarrow> 'a \<Rightarrow> bool"
  assumes enq_accepts: "inv q \<Longrightarrow> fits q x \<Longrightarrow> fst (enq x q) \<longleftrightarrow> length (items q) < bound q"
    and enq_items: "inv q \<Longrightarrow> fits q x \<Longrightarrow>
      items (snd (enq x q)) = (if fst (enq x q) then items q @ [x] else items q)"
    and deq_result: "inv q \<Longrightarrow> fst (deq q) = (if items q = [] then None else Some (hd (items q)))"
    and deq_items: "inv q \<Longrightarrow> items (snd (deq q)) = tl (items q)"
    and enq_bound: "inv q \<Longrightarrow> bound (snd (enq x q)) = bound q"
    and deq_bound: "inv q \<Longrightarrow> bound (snd (deq q)) = bound q"
    and enq_fits: "inv q \<Longrightarrow> fits (snd (enq x q)) y \<longleftrightarrow> fits q y"
    and deq_fits: "inv q \<Longrightarrow> fits (snd (deq q)) y \<longleftrightarrow> fits q y"
    and inv_bound: "inv q \<Longrightarrow> length (items q) \<le> bound q"
    and enq_inv: "inv q \<Longrightarrow> fits q x \<Longrightarrow> inv (snd (enq x q))"
    and deq_inv: "inv q \<Longrightarrow> inv (snd (deq q))"
begin

text \<open>
  A run of operations, \<open>Some x\<close> for an enqueue and \<open>None\<close> for a dequeue, with the elements
  accepted and the elements delivered.
\<close>

fun run_ops :: "'a option list \<Rightarrow> 'q \<Rightarrow> 'a list \<times> 'a list \<times> 'q" where
  "run_ops [] q = ([], [], q)"
| "run_ops (Some x # os) q =
     (case run_ops os (snd (enq x q)) of (acc, out, q') \<Rightarrow>
        ((if fst (enq x q) then x # acc else acc), out, q'))"
| "run_ops (None # os) q =
     (case run_ops os (snd (deq q)) of (acc, out, q') \<Rightarrow>
        (acc, (case fst (deq q) of None \<Rightarrow> out | Some y \<Rightarrow> y # out), q'))"

text \<open>No element is lost, duplicated or reordered, whatever the sequence of operations.\<close>

lemma run_ops_fifo:
  "inv q \<Longrightarrow> \<forall>x. Some x \<in> set os \<longrightarrow> fits q x \<Longrightarrow> run_ops os q = (acc, out, q') \<Longrightarrow>
     items q @ acc = out @ items q' \<and> inv q'"
proof (induction os q arbitrary: acc out rule: run_ops.induct)
  case (2 x os q)
  then show ?case
    by (cases "run_ops os (snd (enq x q))") (auto simp: enq_inv enq_items enq_fits split: if_splits)
next
  case (3 os q)
  then show ?case
    by (cases "run_ops os (snd (deq q))"; cases "items q")
      (auto simp: deq_inv deq_items deq_result deq_fits)
qed simp

end

interpretation sp: bounded_fifo sp_contents sp_capacity sp_push sp_pop sp_inv "\<lambda>_ _. True"
proof unfold_locales
  fix q :: "'a spsc_ring" and x :: 'a
  assume inv: "sp_inv q"
  have full: "sp_full q \<longleftrightarrow> sp_increment q (sp_write q) = sp_read q" by (simp add: sp_full_def)
  have nil: "sp_contents q = [] \<longleftrightarrow> sp_read q = sp_write q"
    using sp_fill_empty [OF inv] by (simp add: sp_empty_def flip: length_0_conv)
  have cap: "sp_fill q \<le> sp_capacity q"
    using sp_fill_less [OF inv] by (simp add: sp_capacity_def)
  show "fst (sp_push x q) \<longleftrightarrow> length (sp_contents q) < sp_capacity q"
    using sp_fill_full [OF inv] full cap by (auto simp: sp_push_def Let_def)
  let ?s = "q\<lparr>sp_buffer := (sp_buffer q)[sp_write q := x]\<rparr>"
  have s: "sp_inv ?s" "sp_full ?s \<longleftrightarrow> sp_full q"
    using sp_inv_moves [OF inv] by (auto simp: sp_full_def sp_increment_def)
  show "sp_contents (snd (sp_push x q)) =
      (if fst (sp_push x q) then sp_contents q @ [x] else sp_contents q)"
    using sp_contents_publish [OF s(1)] sp_contents_store [OF inv, of x] s(2) full inv
    by (auto simp: sp_push_def Let_def sp_increment_def sp_inv_def)
  show "sp_inv (snd (sp_push x q))"
    using sp_inv_moves(2) [OF s(1)] inv by (auto simp: sp_push_def Let_def sp_increment_def)
  show "length (sp_contents q) \<le> sp_capacity q" using cap by simp
  show "fst (sp_pop q) = (if sp_contents q = [] then None else Some (hd (sp_contents q)))"
    using sp_contents_take [OF inv] nil by (auto simp: sp_pop_def sp_empty_def)
  show "sp_contents (snd (sp_pop q)) = tl (sp_contents q)"
    using sp_contents_take [OF inv] nil by (auto simp: sp_pop_def sp_empty_def)
  show "sp_inv (snd (sp_pop q))"
    using sp_inv_moves(3) [OF inv] inv by (simp add: sp_pop_def)
qed (simp_all add: sp_push_def sp_pop_def sp_capacity_def Let_def)

lemma make_spsc_ok:
  "make_spsc d capacity = Some r \<Longrightarrow> sp_inv r \<and> sp_capacity r = capacity \<and> sp_contents r = []"
  by (auto simp: make_spsc_def sp_inv_def sp_capacity_def sp_contents_def sp_fill_def ring_dist_def
      split: if_splits)

section \<open>One producer and one consumer\<close>

text \<open>
  The atomic steps of \<open>push\<close> and \<open>try_pop\<close>. A thread first reads its own index, which only it
  writes, so that load is not a step of its own; the load of the other thread's index, the
  element copy and the index store are separate steps. The histories record what was
  published and what was delivered.
\<close>

datatype 'a producer_pc = PIdle | PCheck 'a | PStore 'a | PPublish 'a

datatype 'a consumer_pc = CIdle | CCheck | CLoad | CPublish 'a

record 'a spsc_system =
  sy_ring :: "'a spsc_ring"
  sy_producer :: "'a producer_pc"
  sy_consumer :: "'a consumer_pc"
  sy_pushed :: "'a list"
  sy_popped :: "'a list"

definition spsc_init :: "'a spsc_ring \<Rightarrow> 'a spsc_system" where
  "spsc_init r = \<lparr>sy_ring = r, sy_producer = PIdle, sy_consumer = CIdle, sy_pushed = [],
     sy_popped = []\<rparr>"

inductive spsc_step :: "'a spsc_system \<Rightarrow> 'a spsc_system \<Rightarrow> bool" where
  begin_push: "sy_producer s = PIdle \<Longrightarrow> spsc_step s (s\<lparr>sy_producer := PCheck v\<rparr>)"
| push_full: "sy_producer s = PCheck v \<Longrightarrow>
     sp_increment (sy_ring s) (sp_write (sy_ring s)) = sp_read (sy_ring s) \<Longrightarrow>
     spsc_step s (s\<lparr>sy_producer := PIdle\<rparr>)"
| push_room: "sy_producer s = PCheck v \<Longrightarrow>
     sp_increment (sy_ring s) (sp_write (sy_ring s)) \<noteq> sp_read (sy_ring s) \<Longrightarrow>
     spsc_step s (s\<lparr>sy_producer := PStore v\<rparr>)"
| push_store: "sy_producer s = PStore v \<Longrightarrow>
     spsc_step s (s\<lparr>sy_ring := (sy_ring s)\<lparr>sp_buffer :=
         (sp_buffer (sy_ring s))[sp_write (sy_ring s) := v]\<rparr>, sy_producer := PPublish v\<rparr>)"
| push_publish: "sy_producer s = PPublish v \<Longrightarrow>
     spsc_step s (s\<lparr>sy_ring := (sy_ring s)\<lparr>sp_write :=
         sp_increment (sy_ring s) (sp_write (sy_ring s))\<rparr>,
       sy_producer := PIdle, sy_pushed := sy_pushed s @ [v]\<rparr>)"
| begin_pop: "sy_consumer s = CIdle \<Longrightarrow> spsc_step s (s\<lparr>sy_consumer := CCheck\<rparr>)"
| pop_none: "sy_consumer s = CCheck \<Longrightarrow> sp_read (sy_ring s) = sp_write (sy_ring s) \<Longrightarrow>
     spsc_step s (s\<lparr>sy_consumer := CIdle\<rparr>)"
| pop_some: "sy_consumer s = CCheck \<Longrightarrow> sp_read (sy_ring s) \<noteq> sp_write (sy_ring s) \<Longrightarrow>
     spsc_step s (s\<lparr>sy_consumer := CLoad\<rparr>)"
| pop_load: "sy_consumer s = CLoad \<Longrightarrow>
     spsc_step s (s\<lparr>sy_consumer := CPublish (sp_buffer (sy_ring s) ! sp_read (sy_ring s))\<rparr>)"
| pop_publish: "sy_consumer s = CPublish v \<Longrightarrow>
     spsc_step s (s\<lparr>sy_ring := (sy_ring s)\<lparr>sp_read :=
         sp_increment (sy_ring s) (sp_read (sy_ring s))\<rparr>,
       sy_consumer := CIdle, sy_popped := sy_popped s @ [v]\<rparr>)"

inductive spsc_reachable :: "'a spsc_ring \<Rightarrow> 'a spsc_system \<Rightarrow> bool" for r where
  start: "spsc_reachable r (spsc_init r)"
| step: "spsc_reachable r s \<Longrightarrow> spsc_step s t \<Longrightarrow> spsc_reachable r t"

inductive_cases spsc_stepE: "spsc_step s t"

text \<open>
  The invariant: the published elements are the delivered ones followed by the queue, the
  producer past its check still sees room, the consumer past its check still sees an
  element, and an element copied but not yet published or released is the right one.
\<close>

definition spsc_inv :: "'a spsc_system \<Rightarrow> bool" where
  "spsc_inv s \<longleftrightarrow> sp_inv (sy_ring s) \<and> sy_pushed s = sy_popped s @ sp_contents (sy_ring s) \<and>
     (case sy_producer s of PStore v \<Rightarrow> \<not> sp_full (sy_ring s)
      | PPublish v \<Rightarrow> \<not> sp_full (sy_ring s) \<and> sp_buffer (sy_ring s) ! sp_write (sy_ring s) = v
      | _ \<Rightarrow> True) \<and>
     (case sy_consumer s of CLoad \<Rightarrow> \<not> sp_empty (sy_ring s)
      | CPublish v \<Rightarrow> \<not> sp_empty (sy_ring s) \<and> sp_buffer (sy_ring s) ! sp_read (sy_ring s) = v
      | _ \<Rightarrow> True)"

lemma sp_full_moves:
  assumes "sp_inv r"
  shows "sp_full (r\<lparr>sp_buffer := b\<rparr>) = sp_full r" "sp_empty (r\<lparr>sp_buffer := b\<rparr>) = sp_empty r"
    and "\<not> sp_empty r \<Longrightarrow> \<not> sp_full (r\<lparr>sp_read := sp_increment r (sp_read r)\<rparr>)"
    and "\<not> sp_full r \<Longrightarrow> \<not> sp_empty (r\<lparr>sp_write := sp_increment r (sp_write r)\<rparr>)"
  using assms sp_increment_eq [OF assms, of "sp_read r"] sp_increment_eq [OF assms, of "sp_write r"]
  by (auto simp: sp_full_def sp_empty_def sp_inv_def split: if_splits)

lemma spsc_step_inv: "spsc_step s t \<Longrightarrow> spsc_inv s \<Longrightarrow> spsc_inv t"
proof (induction rule: spsc_step.induct)
  case (push_store s v)
  then show ?case
    by (auto simp: spsc_inv_def sp_inv_moves sp_contents_store sp_full_moves sp_inv_def
        sp_empty_def nth_list_update split: consumer_pc.splits)
next
  case (push_publish s v)
  then show ?case
    by (auto simp: spsc_inv_def sp_inv_moves sp_contents_publish sp_full_moves
        split: consumer_pc.splits)
next
  case (pop_publish s v)
  then show ?case
    by (auto simp: spsc_inv_def sp_inv_moves sp_full_moves dest: sp_contents_take
        split: producer_pc.splits)
qed (auto simp: spsc_inv_def sp_full_def sp_empty_def split: producer_pc.splits consumer_pc.splits)

lemma spsc_reachable_inv:
  assumes "spsc_reachable r s" "sp_inv r" "sp_contents r = []"
  shows "spsc_inv s"
  using assms(1)
proof (induction rule: spsc_reachable.induct)
  case start
  then show ?case using assms(2,3) by (simp add: spsc_inv_def spsc_init_def)
next
  case (step s t)
  then show ?case by (blast intro: spsc_step_inv)
qed

section \<open>Properties\<close>

text \<open>
  C13: Under every interleaving of one producer and one consumer, the elements published are the
  ones delivered followed by the ones queued, in order, and the queue never exceeds the
  capacity the ring was made with.
\<close>

theorem spsc_interleavings_fifo:
  assumes "make_spsc d capacity = Some r" "spsc_reachable r s"
  shows "sy_pushed s = sy_popped s @ sp_contents (sy_ring s) \<and>
    length (sp_contents (sy_ring s)) \<le> sp_capacity (sy_ring s)"
proof -
  have "spsc_inv s" using make_spsc_ok [OF assms(1)] spsc_reachable_inv [OF assms(2)] by blast
  then show ?thesis using sp.inv_bound by (auto simp: spsc_inv_def)
qed

text \<open>A run: one element is published, then both threads are between check and copy.\<close>

definition demo_ring :: "nat spsc_ring" where
  "demo_ring = \<lparr>sp_slots = 3, sp_buffer = [0, 0, 0], sp_read = 0, sp_write = 0\<rparr>"

definition demo_system :: "nat spsc_system" where
  "demo_system = \<lparr>sy_ring = \<lparr>sp_slots = 3, sp_buffer = [5, 0, 0], sp_read = 0, sp_write = 1\<rparr>,
     sy_producer = PStore 6, sy_consumer = CLoad, sy_pushed = [5], sy_popped = []\<rparr>"

lemma demo_ring_made: "make_spsc 0 2 = Some demo_ring"
  by (simp add: make_spsc_def demo_ring_def numeral_3_eq_3)

lemma demo_system_reachable: "spsc_reachable demo_ring demo_system"
proof -
  let ?s = "\<lambda>b w p c h. \<lparr>sy_ring = \<lparr>sp_slots = 3, sp_buffer = [b, 0, 0], sp_read = 0, sp_write = w\<rparr>,
     sy_producer = p, sy_consumer = c, sy_pushed = h, sy_popped = []\<rparr> :: nat spsc_system"
  have r0: "spsc_reachable demo_ring (?s 0 0 PIdle CIdle [])"
    using spsc_reachable.start [of demo_ring] by (simp add: spsc_init_def demo_ring_def)
  have r1: "spsc_reachable demo_ring (?s 0 0 (PCheck 5) CIdle [])"
    using begin_push [of "?s 0 0 PIdle CIdle []" 5] by (intro spsc_reachable.step [OF r0]) simp
  have r2: "spsc_reachable demo_ring (?s 0 0 (PStore 5) CIdle [])"
    using push_room [of "?s 0 0 (PCheck 5) CIdle []" 5] by (intro spsc_reachable.step [OF r1]) (simp add: sp_increment_def)
  have r3: "spsc_reachable demo_ring (?s 5 0 (PPublish 5) CIdle [])"
    using push_store [of "?s 0 0 (PStore 5) CIdle []" 5] by (intro spsc_reachable.step [OF r2]) simp
  have r4: "spsc_reachable demo_ring (?s 5 1 PIdle CIdle [5])"
    using push_publish [of "?s 5 0 (PPublish 5) CIdle []" 5] by (intro spsc_reachable.step [OF r3]) (simp add: sp_increment_def)
  have r5: "spsc_reachable demo_ring (?s 5 1 PIdle CCheck [5])"
    using begin_pop [of "?s 5 1 PIdle CIdle [5]"] by (intro spsc_reachable.step [OF r4]) simp
  have r6: "spsc_reachable demo_ring (?s 5 1 PIdle CLoad [5])"
    using pop_some [of "?s 5 1 PIdle CCheck [5]"] by (intro spsc_reachable.step [OF r5]) simp
  have r7: "spsc_reachable demo_ring (?s 5 1 (PCheck 6) CLoad [5])"
    using begin_push [of "?s 5 1 PIdle CLoad [5]" 6] by (intro spsc_reachable.step [OF r6]) simp
  have r8: "spsc_reachable demo_ring (?s 5 1 (PStore 6) CLoad [5])"
    using push_room [of "?s 5 1 (PCheck 6) CLoad [5]" 6] by (intro spsc_reachable.step [OF r7]) (simp add: sp_increment_def)
  show ?thesis unfolding demo_system_def by (rule r8)
qed

theorem spsc_interleavings_fifo_witness:
  "sy_pushed demo_system = sy_popped demo_system @ sp_contents (sy_ring demo_system) \<and>
   sp_contents (sy_ring demo_system) = [5]"
  using spsc_interleavings_fifo [OF demo_ring_made demo_system_reachable] by (simp add: demo_system_def)

text \<open>
  No data race on a slot: while the producer is about to write or publish its slot and the
  consumer is about to read or release its own, the two slots are different.
\<close>

theorem spsc_no_slot_race:
  assumes "make_spsc d capacity = Some r" "spsc_reachable r s"
    and "sy_producer s = PStore v \<or> sy_producer s = PPublish v"
    and "sy_consumer s = CLoad \<or> sy_consumer s = CPublish u"
  shows "sp_write (sy_ring s) \<noteq> sp_read (sy_ring s)"
proof -
  have "spsc_inv s" using make_spsc_ok [OF assms(1)] spsc_reachable_inv [OF assms(2)] by blast
  with assms(4) show ?thesis by (auto simp: spsc_inv_def sp_empty_def)
qed

theorem spsc_no_slot_race_witness: "sp_write (sy_ring demo_system) \<noteq> sp_read (sy_ring demo_system)"
  by (rule spsc_no_slot_race [OF demo_ring_made demo_system_reachable, of 6 0]) (simp_all add: demo_system_def)

text \<open>
  Whatever the sequence of pushes and pops on one thread, no element is lost, duplicated or
  reordered: what the ring held followed by what it accepted is what it delivered followed by
  what it still holds.
\<close>

theorem spsc_run_fifo:
  assumes "sp_inv q" "sp.run_ops os q = (accepted, delivered, q')"
  shows "sp_contents q @ accepted = delivered @ sp_contents q' \<and> sp_inv q'"
  using assms by (simp add: sp.run_ops_fifo)

theorem spsc_run_fifo_witness:
  "let q = \<lparr>sp_slots = 2, sp_buffer = [0, 0], sp_read = 0, sp_write = 0\<rparr> :: nat spsc_ring
   in case sp.run_ops [Some 4, Some 5, None] q of (accepted, delivered, q') \<Rightarrow>
     accepted = [4] \<and> delivered = [4] \<and> sp_contents q' = []"
proof -
  let ?q = "\<lparr>sp_slots = 2, sp_buffer = [0, 0], sp_read = 0, sp_write = 0\<rparr> :: nat spsc_ring"
  obtain a d q' where run: "sp.run_ops [Some 4, Some 5, None] ?q = (a, d, q')"
    by (cases "sp.run_ops [Some 4, Some 5, None] ?q")
  then have ad: "a = [4]" "d = [4]"
    by (auto simp: sp_push_def sp_pop_def sp_increment_def Let_def)
  have "sp_inv ?q" "sp_contents ?q = []" by (simp_all add: sp_inv_def sp_contents_def sp_fill_def ring_dist_def)
  with spsc_run_fifo [OF _ run] ad run show ?thesis by simp
qed

end
