(* ===== verification/Graph.thy ===== *)
theory Graph
  imports Errors SpscRing
begin

text \<open>
  \<^verbatim>\<open>core/graph\<close>: the route matrix and its gain table, the node kinds, the graph as the three
  parallel vectors of the code, the transfer of realtime parameters between two graphs and
  the builder with its validation; \<^verbatim>\<open>core/realtime/atomic_float_parameter.h\<close>. The sample
  arithmetic of the nodes' \<^verbatim>\<open>process\<close> functions is not part of this theory.
\<close>

section \<open>Atomic float parameters\<close>

definition afp_make :: "f32 \<Rightarrow> f32" where
  "afp_make v = (if f32_finite v then v else 0)"

definition afp_set :: "f32 \<Rightarrow> f32 \<Rightarrow> bool \<times> f32" where
  "afp_set v old = (if \<not> f32_finite v then (False, old) else (True, v))"

lemma afp_finite: "f32_finite (afp_make v)" "f32_finite old \<Longrightarrow> f32_finite (snd (afp_set v old))"
  by (simp_all add: afp_make_def afp_set_def)

section \<open>Route matrix\<close>

record route_endpoint =
  re_id :: string
  re_label :: string

record route_matrix =
  rm_inputs :: "route_endpoint list"
  rm_outputs :: "route_endpoint list"
  rm_gains :: "f32 list"

definition rm_input_channels :: "route_matrix \<Rightarrow> nat" where
  "rm_input_channels m = length (rm_inputs m)"

definition rm_output_channels :: "route_matrix \<Rightarrow> nat" where
  "rm_output_channels m = length (rm_outputs m)"

text \<open>\<^verbatim>\<open>validate_endpoints\<close>: the message of the \<^verbatim>\<open>std::invalid_argument\<close>, if it throws.\<close>

fun validate_endpoints_from ::
  "string set \<Rightarrow> string \<Rightarrow> route_endpoint list \<Rightarrow> string option" where
  "validate_endpoints_from ids side [] = None"
| "validate_endpoints_from ids side (e # es) =
     (if re_id e = [] then Some (''RouteMatrix '' @ side @ '' endpoint IDs must not be empty'')
      else if re_label e = [] then Some (''RouteMatrix '' @ side @ '' endpoint labels must not be empty'')
      else if re_id e \<in> ids then Some (''RouteMatrix '' @ side @ '' endpoint IDs must be unique'')
      else validate_endpoints_from (insert (re_id e) ids) side es)"

definition validate_endpoints :: "string \<Rightarrow> route_endpoint list \<Rightarrow> string option" where
  "validate_endpoints side es =
     (if es = [] then Some (''RouteMatrix requires at least one '' @ side @ '' endpoint'')
      else validate_endpoints_from {} side es)"

definition make_route_matrix ::
  "route_endpoint list \<Rightarrow> route_endpoint list \<Rightarrow> string + route_matrix" where
  "make_route_matrix inputs outputs =
     (case validate_endpoints ''input'' inputs of
        Some msg \<Rightarrow> Inl msg
      | None \<Rightarrow>
        (case validate_endpoints ''output'' outputs of
           Some msg \<Rightarrow> Inl msg
         | None \<Rightarrow> Inr \<lparr>rm_inputs = inputs, rm_outputs = outputs,
                      rm_gains = replicate (length inputs * length outputs) 0\<rparr>))"

definition rm_index :: "route_matrix \<Rightarrow> nat \<Rightarrow> nat \<Rightarrow> nat" where
  "rm_index m i out = out * rm_input_channels m + i"

definition rm_set_gain :: "nat \<Rightarrow> nat \<Rightarrow> f32 \<Rightarrow> route_matrix \<Rightarrow> bool \<times> route_matrix" where
  "rm_set_gain i out g m =
     (if i \<ge> rm_input_channels m \<or> out \<ge> rm_output_channels m \<or> \<not> f32_finite g then (False, m)
      else (True, m\<lparr>rm_gains := (rm_gains m)[rm_index m i out := g]\<rparr>))"

definition rm_gain :: "route_matrix \<Rightarrow> nat \<Rightarrow> nat \<Rightarrow> f32" where
  "rm_gain m i out =
     (if i \<ge> rm_input_channels m \<or> out \<ge> rm_output_channels m then 0
      else rm_gains m ! rm_index m i out)"

definition rm_clear_routes :: "route_matrix \<Rightarrow> route_matrix" where
  "rm_clear_routes m = m\<lparr>rm_gains := map (\<lambda>_. 0) (rm_gains m)\<rparr>"

definition rm_input_id :: "route_matrix \<Rightarrow> nat \<Rightarrow> string" where
  "rm_input_id m i = (if i \<ge> length (rm_inputs m) then [] else re_id (rm_inputs m ! i))"

definition rm_output_id :: "route_matrix \<Rightarrow> nat \<Rightarrow> string" where
  "rm_output_id m i = (if i \<ge> length (rm_outputs m) then [] else re_id (rm_outputs m ! i))"

text \<open>The copy loop runs over the outputs, and for each output over the inputs.\<close>

definition rm_copy_gains_from :: "route_matrix \<Rightarrow> route_matrix \<Rightarrow> bool \<times> route_matrix" where
  "rm_copy_gains_from src m =
     (if rm_input_channels m \<noteq> rm_input_channels src \<or>
         rm_output_channels m \<noteq> rm_output_channels src then (False, m)
      else if \<exists>i \<in> set [0..<rm_input_channels m]. rm_input_id m i \<noteq> rm_input_id src i then (False, m)
      else if \<exists>i \<in> set [0..<rm_output_channels m]. rm_output_id m i \<noteq> rm_output_id src i then (False, m)
      else (True,
        fold (\<lambda>out m'. fold (\<lambda>i m''. snd (rm_set_gain i out (rm_gain src i out) m''))
                            [0..<rm_input_channels m] m')
             [0..<rm_output_channels m] m))"

definition endpoints_ok :: "route_endpoint list \<Rightarrow> bool" where
  "endpoints_ok es \<longleftrightarrow> es \<noteq> [] \<and> (\<forall>e \<in> set es. re_id e \<noteq> [] \<and> re_label e \<noteq> []) \<and>
     distinct (map re_id es)"

definition rm_wf :: "route_matrix \<Rightarrow> bool" where
  "rm_wf m \<longleftrightarrow> endpoints_ok (rm_inputs m) \<and> endpoints_ok (rm_outputs m) \<and>
     length (rm_gains m) = length (rm_inputs m) * length (rm_outputs m) \<and>
     (\<forall>g \<in> set (rm_gains m). f32_finite g)"

lemma validate_endpoints_from_None:
  "validate_endpoints_from ids side es = None \<longleftrightarrow>
     (\<forall>e \<in> set es. re_id e \<noteq> [] \<and> re_label e \<noteq> []) \<and> fresh_from ids (map re_id es)"
  by (induction es arbitrary: ids) auto

lemma validate_endpoints_None: "validate_endpoints side es = None \<longleftrightarrow> endpoints_ok es"
  by (simp add: validate_endpoints_def endpoints_ok_def validate_endpoints_from_None)

lemma make_route_matrix_ok:
  "endpoints_ok ins \<Longrightarrow> endpoints_ok outs \<Longrightarrow>
     make_route_matrix ins outs = Inr \<lparr>rm_inputs = ins, rm_outputs = outs,
       rm_gains = replicate (length ins * length outs) 0\<rparr>"
  by (simp add: make_route_matrix_def validate_endpoints_None [THEN iffD2])

lemma make_route_matrix_wf: "make_route_matrix ins outs = Inr m \<Longrightarrow> rm_wf m"
  by (auto simp: make_route_matrix_def rm_wf_def validate_endpoints_None split: option.splits)

lemma rm_index_less:
  "rm_wf m \<Longrightarrow> i < rm_input_channels m \<Longrightarrow> out < rm_output_channels m \<Longrightarrow>
     rm_index m i out < length (rm_gains m)"
  using row_bound [of out "rm_output_channels m" i "rm_input_channels m"]
  by (simp add: rm_index_def rm_wf_def rm_input_channels_def rm_output_channels_def mult.commute)

lemma rm_set_gain_simps [simp]:
  "rm_inputs (snd (rm_set_gain i out g m)) = rm_inputs m"
  "rm_outputs (snd (rm_set_gain i out g m)) = rm_outputs m"
  by (simp_all add: rm_set_gain_def)

lemma rm_set_gain_channels [simp]:
  "rm_input_channels (snd (rm_set_gain i out g m)) = rm_input_channels m"
  "rm_output_channels (snd (rm_set_gain i out g m)) = rm_output_channels m"
  by (simp_all add: rm_input_channels_def rm_output_channels_def)

lemma rm_set_gain_wf: "rm_wf m \<Longrightarrow> rm_wf (snd (rm_set_gain i out g m))"
  by (auto simp: rm_wf_def rm_set_gain_def dest!: set_update_subset_insert [THEN subsetD])

text \<open>A written crosspoint reads back, and no other crosspoint moves.\<close>

lemma rm_gain_set_gain:
  assumes "rm_wf m" "i < rm_input_channels m" "out < rm_output_channels m" "f32_finite g"
  shows "rm_gain (snd (rm_set_gain i out g m)) i' out' =
    (if i' = i \<and> out' = out then g else rm_gain m i' out')"
proof -
  have "rm_index m i' out' = rm_index m i out \<longleftrightarrow> i' = i \<and> out' = out" if "i' < rm_input_channels m"
    using row_eq_iff [OF that assms(2), of out' out] by (auto simp: rm_index_def)
  then show ?thesis
    using assms rm_index_less [OF assms(1-3)]
    by (auto simp: rm_gain_def rm_set_gain_def nth_list_update rm_input_channels_def
        rm_output_channels_def rm_index_def)
qed

lemma rm_gain_finite:
  "rm_wf m \<Longrightarrow> f32_finite (rm_gain m i out)"
  using rm_index_less [of m i out] by (auto simp: rm_gain_def rm_wf_def)

lemma rm_clear_routes_gain: "rm_wf m \<Longrightarrow> rm_gain (rm_clear_routes m) i out = 0"
  using rm_index_less [of m i out]
  by (simp add: rm_gain_def rm_clear_routes_def rm_input_channels_def rm_output_channels_def
      rm_index_def)

text \<open>
  The nested copy loop: after it every crosspoint of the target reads as in the source.
\<close>

lemma rm_copy_row:
  assumes "rm_wf m" "out < rm_output_channels m" "k \<le> rm_input_channels m" "\<And>i. f32_finite (g i)"
  defines "r \<equiv> fold (\<lambda>i m'. snd (rm_set_gain i out (g i) m')) [0..<k] m"
  shows "rm_wf r \<and> rm_inputs r = rm_inputs m \<and> rm_outputs r = rm_outputs m \<and>
    (\<forall>i' out'. rm_gain r i' out' = (if out' = out \<and> i' < k then g i' else rm_gain m i' out'))"
  unfolding r_def using assms(3)
proof (induction k)
  case 0
  then show ?case using assms(1) by simp
next
  case (Suc k)
  let ?m = "fold (\<lambda>i m'. snd (rm_set_gain i out (g i) m')) [0..<k] m"
  from Suc have IH: "rm_wf ?m" "rm_inputs ?m = rm_inputs m" "rm_outputs ?m = rm_outputs m"
    "\<forall>i' out'. rm_gain ?m i' out' = (if out' = out \<and> i' < k then g i' else rm_gain m i' out')"
    by simp_all
  have "k < rm_input_channels ?m" "out < rm_output_channels ?m"
    using IH(2,3) Suc.prems assms(2) by (simp_all add: rm_input_channels_def rm_output_channels_def)
  note set = rm_gain_set_gain [OF IH(1) this assms(4)]
  show ?case using IH set by (auto simp: rm_set_gain_wf less_Suc_eq)
qed

lemma rm_copy_rows:
  assumes "rm_wf m" "k \<le> rm_output_channels m" "\<And>i out. f32_finite (g i out)"
  defines "r \<equiv> fold (\<lambda>out m'. fold (\<lambda>i m''. snd (rm_set_gain i out (g i out) m''))
    [0..<rm_input_channels m] m') [0..<k] m"
  shows "rm_wf r \<and> rm_inputs r = rm_inputs m \<and> rm_outputs r = rm_outputs m \<and>
    (\<forall>i out. rm_gain r i out =
      (if out < k \<and> i < rm_input_channels m then g i out else rm_gain m i out))"
  unfolding r_def using assms(2)
proof (induction k)
  case 0
  then show ?case using assms(1) by simp
next
  case (Suc k)
  let ?m = "fold (\<lambda>out m'. fold (\<lambda>i m''. snd (rm_set_gain i out (g i out) m''))
    [0..<rm_input_channels m] m') [0..<k] m"
  from Suc have IH: "rm_wf ?m" "rm_inputs ?m = rm_inputs m" "rm_outputs ?m = rm_outputs m"
    "\<forall>i out. rm_gain ?m i out =
      (if out < k \<and> i < rm_input_channels m then g i out else rm_gain m i out)" by simp_all
  have "k < rm_output_channels ?m" "rm_input_channels m \<le> rm_input_channels ?m"
    using IH(2,3) Suc.prems by (simp_all add: rm_input_channels_def rm_output_channels_def)
  note row = rm_copy_row [OF IH(1) this, of "\<lambda>i. g i k", OF assms(3)]
  show ?case using IH row by (auto simp: less_Suc_eq)
qed

lemma rm_copy_gains_ok:
  assumes "rm_wf m" "rm_wf src" "rm_copy_gains_from src m = (True, r)"
  shows "rm_wf r \<and> rm_inputs r = rm_inputs m \<and> rm_outputs r = rm_outputs m \<and> rm_gain r = rm_gain src"
proof -
  from assms(3) have ch: "rm_input_channels m = rm_input_channels src"
    "rm_output_channels m = rm_output_channels src"
    and r: "r = fold (\<lambda>out m'. fold (\<lambda>i m''. snd (rm_set_gain i out (rm_gain src i out) m''))
      [0..<rm_input_channels m] m') [0..<rm_output_channels m] m"
    by (auto simp: rm_copy_gains_from_def split: if_splits)
  note rows = rm_copy_rows [OF assms(1) order_refl, of "rm_gain src", OF rm_gain_finite [OF assms(2)],
      folded r]
  have "rm_gain r i out = rm_gain src i out" for i out
    using rows ch by (auto simp: rm_gain_def)
  with rows show ?thesis by (auto simp: fun_eq_iff)
qed

section \<open>Nodes and graphs\<close>

text \<open>
  The node kinds of \<^verbatim>\<open>node.h\<close> and \<^verbatim>\<open>route_matrix.h\<close> with the parameters each keeps.
\<close>

datatype graph_node =
  PassthroughNode
| GainNode f32
| MuteNode bool
| MeterNode f32 f32
| BusNode nat
| PolarityInvertNode bool
| RouteMatrixNode route_matrix

record graph =
  g_version :: u64
  g_sample_rate :: u32
  g_channels :: nat
  g_frames :: nat
  g_nodes :: "graph_node list"
  g_node_ids :: "string list"
  g_node_labels :: "string list"

definition make_graph :: "u64 \<Rightarrow> nat \<Rightarrow> nat \<Rightarrow> u32 \<Rightarrow> graph" where
  "make_graph version channels frames sample_rate =
     \<lparr>g_version = version, g_sample_rate = sample_rate, g_channels = channels, g_frames = frames,
      g_nodes = [], g_node_ids = [], g_node_labels = []\<rparr>"

definition graph_add_node :: "string \<Rightarrow> string \<Rightarrow> graph_node \<Rightarrow> graph \<Rightarrow> graph" where
  "graph_add_node i label n g =
     g\<lparr>g_node_ids := g_node_ids g @ [i], g_node_labels := g_node_labels g @ [label],
       g_nodes := g_nodes g @ [n]\<rparr>"

definition graph_node_id :: "graph \<Rightarrow> nat \<Rightarrow> string" where
  "graph_node_id g i = (if i \<ge> length (g_node_ids g) then [] else g_node_ids g ! i)"

definition graph_node_label :: "graph \<Rightarrow> nat \<Rightarrow> string" where
  "graph_node_label g i = (if i \<ge> length (g_node_labels g) then [] else g_node_labels g ! i)"

text \<open>
  \<^verbatim>\<open>Graph::apply_realtime_parameters_from\<close>. The node loop stops at the first mismatch, with
  the nodes before it already changed.
\<close>

fun as_matrix :: "graph_node \<Rightarrow> route_matrix option" where
  "as_matrix (RouteMatrixNode m) = Some m"
| "as_matrix _ = None"

fun apply_parameters :: "graph_node list \<Rightarrow> graph_node list \<Rightarrow> bool \<times> graph_node list" where
  "apply_parameters (t # ts) (s # ss) =
     (if (as_matrix t = None) \<noteq> (as_matrix s = None) then (False, t # ts)
      else case as_matrix t of
        None \<Rightarrow> (case apply_parameters ts ss of (ok, ts') \<Rightarrow> (ok, t # ts'))
      | Some m \<Rightarrow>
          (case rm_copy_gains_from (the (as_matrix s)) m of (copied, m') \<Rightarrow>
             if \<not> copied then (False, RouteMatrixNode m' # ts)
             else case apply_parameters ts ss of (ok, ts') \<Rightarrow> (ok, RouteMatrixNode m' # ts')))"
| "apply_parameters ts _ = (True, ts)"

definition graph_apply_realtime_parameters_from :: "graph \<Rightarrow> graph \<Rightarrow> bool \<times> graph" where
  "graph_apply_realtime_parameters_from src g =
     (if length (g_nodes g) \<noteq> length (g_nodes src) \<or> g_node_ids g \<noteq> g_node_ids src then (False, g)
      else case apply_parameters (g_nodes g) (g_nodes src) of (ok, ns) \<Rightarrow> (ok, g\<lparr>g_nodes := ns\<rparr>))"

definition node_wf :: "graph_node \<Rightarrow> bool" where
  "node_wf n \<longleftrightarrow> (case as_matrix n of None \<Rightarrow> True | Some m \<Rightarrow> rm_wf m)"

lemma as_matrix_Some: "as_matrix n = Some m \<longleftrightarrow> n = RouteMatrixNode m"
  by (cases n) auto

text \<open>Node \<open>r\<close> is node \<open>t\<close> with the realtime parameters of node \<open>s\<close>.\<close>

definition params_copied :: "graph_node \<Rightarrow> graph_node \<Rightarrow> graph_node \<Rightarrow> bool" where
  "params_copied t s r \<longleftrightarrow>
     (case as_matrix s of
        None \<Rightarrow> r = t
      | Some sm \<Rightarrow> (\<exists>tm rm. t = RouteMatrixNode tm \<and> r = RouteMatrixNode rm \<and> rm_wf rm \<and>
          rm_inputs rm = rm_inputs tm \<and> rm_outputs rm = rm_outputs tm \<and> rm_gain rm = rm_gain sm))"

lemma apply_parameters_ok:
  assumes "apply_parameters ts ss = (True, rs)" "length ts = length ss"
    and "\<forall>n \<in> set ts \<union> set ss. node_wf n"
  shows "length rs = length ts \<and> (\<forall>i < length ts. params_copied (ts ! i) (ss ! i) (rs ! i))"
  using assms
proof (induction ts ss arbitrary: rs rule: apply_parameters.induct)
  case (1 t ts s ss)
  have wf: "node_wf t" "node_wf s" "\<forall>n \<in> set ts \<union> set ss. node_wf n" using "1.prems" by auto
  show ?case
  proof (cases "as_matrix t")
    case None
    with 1 wf obtain rs' where "apply_parameters ts ss = (True, rs')" "rs = t # rs'" "as_matrix s = None"
      by (auto split: if_splits prod.splits)
    with 1 None wf(3) show ?thesis by (auto simp: All_less_Suc2 params_copied_def [of t])
  next
    case (Some m)
    with 1 obtain sm rs' m' where s: "as_matrix s = Some sm" "rm_copy_gains_from sm m = (True, m')"
      "apply_parameters ts ss = (True, rs')" "rs = RouteMatrixNode m' # rs'"
      by (auto split: if_splits prod.splits)
    have "rm_wf m" "rm_wf sm" using wf Some s(1) by (auto simp: node_wf_def)
    note copy = rm_copy_gains_ok [OF this s(2)]
    have "params_copied t s (RouteMatrixNode m')"
      using Some s(1) copy by (simp add: params_copied_def as_matrix_Some)
    moreover have "length rs' = length ts \<and> (\<forall>i < length ts. params_copied (ts ! i) (ss ! i) (rs' ! i))"
      using Some s(1,2) by (intro "1.IH"(2) [OF _ Some]) (use s(3) "1.prems" wf(3) in auto)
    ultimately show ?thesis using s(4) by (simp add: All_less_Suc2)
  qed
qed auto

section \<open>The graph builder\<close>

text \<open>A pending node may be a null pointer.\<close>

record pending_node =
  pd_id :: string
  pd_label :: string
  pd_node :: "graph_node option"

record graph_builder =
  gbr_version :: u64
  gbr_channels :: nat
  gbr_frames :: nat
  gbr_sample_rate :: u32
  gbr_nodes :: "pending_node list"

definition make_graph_builder :: "u64 \<Rightarrow> nat \<Rightarrow> nat \<Rightarrow> graph_builder" where
  "make_graph_builder version channels frames =
     \<lparr>gbr_version = version, gbr_channels = channels, gbr_frames = frames,
      gbr_sample_rate = 48000, gbr_nodes = []\<rparr>"

definition builder_sample_rate :: "u32 \<Rightarrow> graph_builder \<Rightarrow> graph_builder" where
  "builder_sample_rate rate b = b\<lparr>gbr_sample_rate := rate\<rparr>"

definition builder_add_node :: "string \<Rightarrow> string \<Rightarrow> graph_node option \<Rightarrow> graph_builder \<Rightarrow> graph_builder" where
  "builder_add_node i label n b =
     b\<lparr>gbr_nodes := gbr_nodes b @ [\<lparr>pd_id = i, pd_label = label, pd_node = n\<rparr>]\<rparr>"

fun validate_pending :: "string set \<Rightarrow> string set \<Rightarrow> pending_node list \<Rightarrow> sar_error list" where
  "validate_pending ids labels [] = []"
| "validate_pending ids labels (p # ps) =
     push_if (pd_node p = None) gb_null_node @
     (if pd_id p = [] then [gb_empty_node_id]
      else push_if (pd_id p \<in> ids) gb_duplicate_node_id) @
     (if pd_label p = [] then [gb_empty_node_label]
      else push_if (pd_label p \<in> labels) gb_duplicate_node_label) @
     validate_pending (if pd_id p = [] then ids else insert (pd_id p) ids)
       (if pd_label p = [] then labels else insert (pd_label p) labels) ps"

definition builder_validate :: "graph_builder \<Rightarrow> sar_error list" where
  "builder_validate b =
     push_if (gbr_version b = 0) gb_invalid_version @
     push_if (gbr_channels b = 0) gb_invalid_channels @
     push_if (gbr_frames b = 0) gb_invalid_frames @
     push_if (gbr_sample_rate b = 0) gb_invalid_sample_rate @
     validate_pending {} {} (gbr_nodes b)"

text \<open>\<^verbatim>\<open>build\<close> moves the pending nodes out and leaves the builder empty; on failure it keeps them.\<close>

definition builder_build :: "graph_builder \<Rightarrow> (sar_error list + graph) \<times> graph_builder" where
  "builder_build b =
     (let errors = builder_validate b
      in if errors \<noteq> [] then (Inl errors, b)
         else (Inr (fold (\<lambda>p. graph_add_node (pd_id p) (pd_label p) (the (pd_node p))) (gbr_nodes b)
                 (make_graph (gbr_version b) (gbr_channels b) (gbr_frames b) (gbr_sample_rate b))),
               b\<lparr>gbr_nodes := []\<rparr>))"

definition graph_wf :: "graph \<Rightarrow> bool" where
  "graph_wf g \<longleftrightarrow> g_version g \<noteq> 0 \<and> g_channels g \<noteq> 0 \<and> g_frames g \<noteq> 0 \<and> g_sample_rate g \<noteq> 0 \<and>
     length (g_nodes g) = length (g_node_ids g) \<and> length (g_node_labels g) = length (g_node_ids g) \<and>
     distinct (g_node_ids g) \<and> distinct (g_node_labels g) \<and>
     [] \<notin> set (g_node_ids g) \<and> [] \<notin> set (g_node_labels g)"

lemma validate_pending_Nil:
  "validate_pending ids labels ps = [] \<longleftrightarrow>
     (\<forall>p \<in> set ps. pd_node p \<noteq> None \<and> pd_id p \<noteq> [] \<and> pd_label p \<noteq> []) \<and>
     fresh_from ids (map pd_id ps) \<and> fresh_from labels (map pd_label ps)"
  by (induction ps arbitrary: ids labels) auto

lemma fold_graph_add_node:
  "fold (\<lambda>p. graph_add_node (pd_id p) (pd_label p) (the (pd_node p))) ps g =
     g\<lparr>g_node_ids := g_node_ids g @ map pd_id ps, g_node_labels := g_node_labels g @ map pd_label ps,
       g_nodes := g_nodes g @ map (the \<circ> pd_node) ps\<rparr>"
  by (induction ps arbitrary: g) (simp_all add: graph_add_node_def)

lemma builder_build_cases:
  "fst (builder_build b) =
     (if builder_validate b \<noteq> [] then Inl (builder_validate b)
      else Inr \<lparr>g_version = gbr_version b, g_sample_rate = gbr_sample_rate b,
        g_channels = gbr_channels b, g_frames = gbr_frames b,
        g_nodes = map (the \<circ> pd_node) (gbr_nodes b), g_node_ids = map pd_id (gbr_nodes b),
        g_node_labels = map pd_label (gbr_nodes b)\<rparr>)"
  by (simp add: builder_build_def Let_def fold_graph_add_node make_graph_def)

lemma builder_validate_Nil:
  "builder_validate b = [] \<longleftrightarrow>
     gbr_version b \<noteq> 0 \<and> gbr_channels b \<noteq> 0 \<and> gbr_frames b \<noteq> 0 \<and> gbr_sample_rate b \<noteq> 0 \<and>
     (\<forall>p \<in> set (gbr_nodes b). pd_node p \<noteq> None \<and> pd_id p \<noteq> [] \<and> pd_label p \<noteq> []) \<and>
     distinct (map pd_id (gbr_nodes b)) \<and> distinct (map pd_label (gbr_nodes b))"
  by (simp add: builder_validate_def validate_pending_Nil)

lemma builder_build_wf:
  assumes "fst (builder_build b) = Inr g"
  shows "graph_wf g"
  using assms
  by (auto simp: builder_build_cases builder_validate_Nil graph_wf_def split: if_splits) force+

section \<open>Properties\<close>

text \<open>
  The builder either returns a well-formed graph with the pending nodes in order, under the
  requested version and format, and is left empty; or it reports at least one error and keeps
  its pending nodes.
\<close>

theorem builder_builds_or_keeps:
  "case builder_build b of
     (Inr g, b') \<Rightarrow> graph_wf g \<and> g_version g = gbr_version b \<and> g_sample_rate g = gbr_sample_rate b \<and>
       g_channels g = gbr_channels b \<and> g_frames g = gbr_frames b \<and>
       g_node_ids g = map pd_id (gbr_nodes b) \<and> map Some (g_nodes g) = map pd_node (gbr_nodes b) \<and>
       gbr_nodes b' = []
   | (Inl es, b') \<Rightarrow> es \<noteq> [] \<and> b' = b"
proof (cases "builder_validate b = []")
  case True
  then have "fst (builder_build b) = Inr \<lparr>g_version = gbr_version b, g_sample_rate = gbr_sample_rate b,
        g_channels = gbr_channels b, g_frames = gbr_frames b,
        g_nodes = map (the \<circ> pd_node) (gbr_nodes b), g_node_ids = map pd_id (gbr_nodes b),
        g_node_labels = map pd_label (gbr_nodes b)\<rparr>" (is "_ = Inr ?g")
    by (simp add: builder_build_cases)
  moreover from this have "graph_wf ?g" by (rule builder_build_wf)
  moreover have "gbr_nodes (snd (builder_build b)) = []" using True by (simp add: builder_build_def)
  moreover have "map Some (map (the \<circ> pd_node) (gbr_nodes b)) = map pd_node (gbr_nodes b)"
    using True by (auto simp: builder_validate_Nil)
  ultimately show ?thesis by (cases "builder_build b") simp
qed (simp add: builder_build_def)

text \<open>
  Setting the gain of a crosspoint succeeds exactly for channels that exist and a finite
  gain; then that crosspoint reads back the gain and every other one is unchanged, and the
  matrix stays well-formed.
\<close>

theorem matrix_gain_read_back:
  assumes "rm_wf m" "rm_set_gain i out g m = (ok, m')"
  shows "(ok \<longleftrightarrow> i < rm_input_channels m \<and> out < rm_output_channels m \<and> f32_finite g) \<and> rm_wf m' \<and>
    (\<forall>i' out'. rm_gain m' i' out' = (if ok \<and> i' = i \<and> out' = out then g else rm_gain m i' out'))"
proof -
  have m': "m' = snd (rm_set_gain i out g m)" "ok = fst (rm_set_gain i out g m)" using assms(2) by simp_all
  show ?thesis
  proof (cases "i < rm_input_channels m \<and> out < rm_output_channels m \<and> f32_finite g")
    case True
    then have "ok" unfolding m' by (simp add: rm_set_gain_def)
    with True show ?thesis
      unfolding m'(1) using rm_set_gain_wf [OF assms(1)] rm_gain_set_gain [OF assms(1)] by simp
  next
    case False
    then show ?thesis unfolding m' using assms(1) by (auto simp: rm_set_gain_def)
  qed
qed

definition demo_matrix :: "string \<Rightarrow> f32 \<Rightarrow> route_matrix" where
  "demo_matrix i g = \<lparr>rm_inputs = [\<lparr>re_id = i, re_label = ''in''\<rparr>],
     rm_outputs = [\<lparr>re_id = ''o'', re_label = ''out''\<rparr>], rm_gains = [g]\<rparr>"

lemma demo_matrix_wf: "i \<noteq> [] \<Longrightarrow> f32_finite g \<Longrightarrow> rm_wf (demo_matrix i g)"
  by (simp add: rm_wf_def demo_matrix_def endpoints_ok_def)

theorem matrix_gain_read_back_witness:
  "fst (rm_set_gain 0 0 0x3F800000 (demo_matrix ''a'' 0)) \<and>
   rm_gain (snd (rm_set_gain 0 0 0x3F800000 (demo_matrix ''a'' 0))) 0 0 = 0x3F800000"
proof -
  let ?m = "demo_matrix ''a'' 0"
  have "rm_wf ?m" by (rule demo_matrix_wf) simp_all
  moreover have "0 < rm_input_channels ?m \<and> 0 < rm_output_channels ?m \<and> f32_finite 0x3F800000"
    by (simp add: rm_input_channels_def rm_output_channels_def demo_matrix_def f32_finite_def)
  ultimately show ?thesis
    using matrix_gain_read_back [of ?m 0 0 "0x3F800000" "fst (rm_set_gain 0 0 0x3F800000 ?m)"
        "snd (rm_set_gain 0 0 0x3F800000 ?m)"] by (simp add: prod_eq_iff)
qed

text \<open>
  Copying gains succeeds only between matrices with the same endpoint ids, and then every
  crosspoint of the target reads as in the source; a refusal leaves the target as it was.
\<close>

theorem matrix_copy_gains:
  assumes "rm_wf m" "rm_wf src" "rm_copy_gains_from src m = (ok, r)"
  shows "if ok then rm_wf r \<and> rm_gain r = rm_gain src \<and> rm_inputs r = rm_inputs m \<and>
      rm_outputs r = rm_outputs m else r = m"
proof (cases ok)
  case True
  then show ?thesis using rm_copy_gains_ok [OF assms(1,2)] assms(3) by simp
next
  case False
  then show ?thesis using assms(3) by (auto simp: rm_copy_gains_from_def split: if_splits)
qed

theorem matrix_copy_gains_witness:
  "rm_gain (snd (rm_copy_gains_from (demo_matrix ''a'' 0x3F800000) (demo_matrix ''a'' 0))) 0 0 = 0x3F800000"
proof -
  have wf: "rm_wf (demo_matrix ''a'' 0)" "rm_wf (demo_matrix ''a'' 0x3F800000)"
    by (rule demo_matrix_wf, simp_all add: f32_finite_def)+
  have ok: "fst (rm_copy_gains_from (demo_matrix ''a'' 0x3F800000) (demo_matrix ''a'' 0))"
    by (simp add: rm_copy_gains_from_def rm_input_channels_def rm_output_channels_def demo_matrix_def
        rm_input_id_def rm_output_id_def)
  from matrix_copy_gains [OF wf prod.collapse [symmetric]] ok
  have "rm_gain (snd (rm_copy_gains_from (demo_matrix ''a'' 0x3F800000) (demo_matrix ''a'' 0))) =
      rm_gain (demo_matrix ''a'' 0x3F800000)" by simp
  then show ?thesis
    by (simp add: rm_gain_def rm_input_channels_def rm_output_channels_def demo_matrix_def rm_index_def)
qed

text \<open>
  When the transfer of realtime parameters between two graphs succeeds, the target keeps its
  nodes and every one of its route matrices has exactly the gains of the matrix at the same
  position in the source.
\<close>

theorem realtime_parameters_transferred:
  assumes "\<forall>n \<in> set (g_nodes g) \<union> set (g_nodes src). node_wf n"
    and "graph_apply_realtime_parameters_from src g = (True, g')"
  shows "g_node_ids g' = g_node_ids src \<and> length (g_nodes g') = length (g_nodes g) \<and>
    (\<forall>i < length (g_nodes g). params_copied (g_nodes g ! i) (g_nodes src ! i) (g_nodes g' ! i))"
proof -
  from assms(2) obtain rs where "length (g_nodes g) = length (g_nodes src)" "g_node_ids g = g_node_ids src"
    "apply_parameters (g_nodes g) (g_nodes src) = (True, rs)" "g' = g\<lparr>g_nodes := rs\<rparr>"
    by (auto simp: graph_apply_realtime_parameters_from_def split: if_splits prod.splits)
  with apply_parameters_ok [of "g_nodes g" "g_nodes src" rs] assms(1) show ?thesis by simp
qed

definition demo_graph :: "f32 \<Rightarrow> graph" where
  "demo_graph x = graph_add_node ''m'' ''m'' (RouteMatrixNode (demo_matrix ''a'' x)) (make_graph 1 1 64 48000)"

theorem realtime_parameters_transferred_witness:
  "\<exists>g'. graph_apply_realtime_parameters_from (demo_graph 0x3F800000) (demo_graph 0) = (True, g') \<and>
     params_copied (g_nodes (demo_graph 0) ! 0) (g_nodes (demo_graph 0x3F800000) ! 0) (g_nodes g' ! 0)"
proof -
  obtain ok g' where run: "graph_apply_realtime_parameters_from (demo_graph 0x3F800000) (demo_graph 0) = (ok, g')"
    by (cases "graph_apply_realtime_parameters_from (demo_graph 0x3F800000) (demo_graph 0)")
  then have "ok"
    by (auto simp: graph_apply_realtime_parameters_from_def demo_graph_def graph_add_node_def make_graph_def
        rm_copy_gains_from_def rm_input_channels_def rm_output_channels_def demo_matrix_def
        rm_input_id_def rm_output_id_def)
  moreover have "\<forall>n \<in> set (g_nodes (demo_graph 0)) \<union> set (g_nodes (demo_graph 0x3F800000)). node_wf n"
    by (auto simp: demo_graph_def graph_add_node_def make_graph_def node_wf_def f32_finite_def
        intro!: demo_matrix_wf)
  ultimately show ?thesis
    using realtime_parameters_transferred [of "demo_graph 0" "demo_graph 0x3F800000" g'] run
    by (simp add: demo_graph_def graph_add_node_def make_graph_def)
qed

end
