(* ===== verification/Preset.thy ===== *)
theory Preset
  imports Graph
begin

text \<open>
  \<^verbatim>\<open>core/control/preset_document.{h,cpp}\<close>: the preset document, its validation, and the two
  builders that turn a valid preset into a route matrix and into a one-node graph.
\<close>

section \<open>Documents\<close>

record preset_node =
  pn_id :: string
  pn_label :: string
  pn_type :: string

record preset_route =
  pr_input_id :: string
  pr_output_id :: string
  pr_gain :: f32
  pr_muted :: bool

record preset_matrix =
  pm_inputs :: "route_endpoint list"
  pm_outputs :: "route_endpoint list"
  pm_routes :: "preset_route list"

record preset_document =
  pd_schema_version :: u32
  pd_sample_rate :: u32
  pd_frames_per_block :: u32
  pd_nodes :: "preset_node list"
  pd_matrix :: preset_matrix

definition empty_matrix :: preset_matrix where
  "empty_matrix = \<lparr>pm_inputs = [], pm_outputs = [], pm_routes = []\<rparr>"

definition default_preset :: preset_document where
  "default_preset = \<lparr>pd_schema_version = 1, pd_sample_rate = 48000, pd_frames_per_block = 128,
     pd_nodes = [], pd_matrix = empty_matrix\<rparr>"

section \<open>Validation\<close>

definition kMaximumSampleRate :: u32 where "kMaximumSampleRate = 384000"
definition kMaximumFramesPerBlock :: u32 where "kMaximumFramesPerBlock = 8192"
definition kMaximumNodes :: nat where "kMaximumNodes = 64"
definition kMaximumMatrixChannels :: nat where "kMaximumMatrixChannels = 64"
definition kMaximumRoutes :: nat where
  "kMaximumRoutes = kMaximumMatrixChannels * kMaximumMatrixChannels"

fun validate_preset_nodes :: "string set \<Rightarrow> preset_node list \<Rightarrow> sar_error list" where
  "validate_preset_nodes ids [] = []"
| "validate_preset_nodes ids (n # ns) =
     push_if (pn_id n = []) pre_empty_node_id @
     push_if (pn_id n \<noteq> [] \<and> pn_id n \<in> ids) pre_duplicate_node_id @
     push_if (pn_label n = []) pre_empty_node_label @
     push_if (pn_type n = []) pre_empty_node_type @
     validate_preset_nodes (if pn_id n = [] then ids else insert (pn_id n) ids) ns"

text \<open>\<open>validate_unique_endpoint_ids\<close> with the id set it fills.\<close>

fun validate_unique_endpoint_ids ::
  "sar_error \<Rightarrow> route_endpoint list \<Rightarrow> string set \<Rightarrow> sar_error list \<times> string set" where
  "validate_unique_endpoint_ids dup [] ids = ([], ids)"
| "validate_unique_endpoint_ids dup (e # es) ids =
     (case validate_unique_endpoint_ids dup es
             (if re_id e = [] then ids else insert (re_id e) ids) of
        (errors, ids') \<Rightarrow>
          ((if re_id e = [] then [pre_empty_endpoint_id]
            else push_if (re_id e \<in> ids) dup) @
           push_if (re_label e = []) pre_empty_endpoint_label @ errors, ids'))"

definition route_key :: "preset_route \<Rightarrow> string" where
  "route_key r = pr_input_id r @ [CHR 0x0A] @ pr_output_id r"

fun validate_preset_routes ::
  "string set \<Rightarrow> string set \<Rightarrow> string set \<Rightarrow> preset_route list \<Rightarrow> sar_error list" where
  "validate_preset_routes input_ids output_ids pairs [] = []"
| "validate_preset_routes input_ids output_ids pairs (r # rs) =
     (if pr_input_id r = [] then [pre_empty_route_input]
      else push_if (pr_input_id r \<notin> input_ids) pre_unknown_route_input) @
     (if pr_output_id r = [] then [pre_empty_route_output]
      else push_if (pr_output_id r \<notin> output_ids) pre_unknown_route_output) @
     push_if (\<not> f32_finite (pr_gain r)) pre_invalid_route_gain @
     (if pr_input_id r \<noteq> [] \<and> pr_output_id r \<noteq> []
      then push_if (route_key r \<in> pairs) pre_duplicate_route else []) @
     validate_preset_routes input_ids output_ids
       (if pr_input_id r \<noteq> [] \<and> pr_output_id r \<noteq> [] then insert (route_key r) pairs else pairs) rs"

definition validate_preset :: "preset_document \<Rightarrow> sar_error list" where
  "validate_preset p =
     (case validate_unique_endpoint_ids pre_duplicate_input_endpoint_id
             (pm_inputs (pd_matrix p)) {} of (input_errors, input_ids) \<Rightarrow>
      case validate_unique_endpoint_ids pre_duplicate_output_endpoint_id
             (pm_outputs (pd_matrix p)) {} of (output_errors, output_ids) \<Rightarrow>
        push_if (pd_schema_version p = 0) pre_invalid_schema_version @
        (if pd_sample_rate p = 0 then [pre_invalid_sample_rate]
         else push_if (pd_sample_rate p > kMaximumSampleRate) pre_sample_rate_too_large) @
        (if pd_frames_per_block p = 0 then [pre_invalid_frames_per_block]
         else push_if (pd_frames_per_block p > kMaximumFramesPerBlock) pre_frames_per_block_too_large) @
        push_if (length (pd_nodes p) > kMaximumNodes) pre_too_many_preset_nodes @
        push_if (length (pm_inputs (pd_matrix p)) > kMaximumMatrixChannels) pre_too_many_matrix_inputs @
        push_if (length (pm_outputs (pd_matrix p)) > kMaximumMatrixChannels) pre_too_many_matrix_outputs @
        push_if (length (pm_routes (pd_matrix p)) > kMaximumRoutes) pre_too_many_matrix_routes @
        validate_preset_nodes {} (pd_nodes p) @
        input_errors @ output_errors @
        push_if (pm_inputs (pd_matrix p) = []) pre_empty_matrix_inputs @
        push_if (pm_outputs (pd_matrix p) = []) pre_empty_matrix_outputs @
        validate_preset_routes input_ids output_ids {} (pm_routes (pd_matrix p)))"

text \<open>What a validated preset satisfies, field by field.\<close>

definition preset_wf :: "preset_document \<Rightarrow> bool" where
  "preset_wf p \<longleftrightarrow>
     pd_schema_version p \<noteq> 0 \<and>
     pd_sample_rate p \<noteq> 0 \<and> pd_sample_rate p \<le> kMaximumSampleRate \<and>
     pd_frames_per_block p \<noteq> 0 \<and> pd_frames_per_block p \<le> kMaximumFramesPerBlock \<and>
     length (pd_nodes p) \<le> kMaximumNodes \<and>
     length (pm_inputs (pd_matrix p)) \<le> kMaximumMatrixChannels \<and>
     length (pm_outputs (pd_matrix p)) \<le> kMaximumMatrixChannels \<and>
     length (pm_routes (pd_matrix p)) \<le> kMaximumRoutes \<and>
     (\<forall>n \<in> set (pd_nodes p). pn_id n \<noteq> [] \<and> pn_label n \<noteq> [] \<and> pn_type n \<noteq> []) \<and>
     distinct (map pn_id (pd_nodes p)) \<and>
     endpoints_ok (pm_inputs (pd_matrix p)) \<and> endpoints_ok (pm_outputs (pd_matrix p)) \<and>
     (\<forall>r \<in> set (pm_routes (pd_matrix p)).
        pr_input_id r \<in> re_id ` set (pm_inputs (pd_matrix p)) \<and>
        pr_output_id r \<in> re_id ` set (pm_outputs (pd_matrix p)) \<and> f32_finite (pr_gain r)) \<and>
     distinct (map route_key (pm_routes (pd_matrix p)))"

lemma validate_preset_nodes_Nil:
  "validate_preset_nodes ids ns = [] \<longleftrightarrow>
     (\<forall>n \<in> set ns. pn_id n \<noteq> [] \<and> pn_label n \<noteq> [] \<and> pn_type n \<noteq> []) \<and>
     fresh_from ids (map pn_id ns)"
  by (induction ns arbitrary: ids) auto

lemma validate_unique_endpoint_ids_Nil:
  "fst (validate_unique_endpoint_ids dup es ids) = [] \<longleftrightarrow>
     (\<forall>e \<in> set es. re_id e \<noteq> [] \<and> re_label e \<noteq> []) \<and> fresh_from ids (map re_id es)"
  by (induction es arbitrary: ids) (auto split: prod.splits simp: case_prod_beta)

lemma validate_unique_endpoint_ids_set:
  "snd (validate_unique_endpoint_ids dup es ids) = ids \<union> (re_id ` set es - {[]})"
  by (induction es arbitrary: ids) (auto simp: case_prod_beta)

lemma validate_preset_routes_Nil:
  assumes "[] \<notin> ins" "[] \<notin> outs"
  shows "validate_preset_routes ins outs pairs rs = [] \<longleftrightarrow>
     (\<forall>r \<in> set rs. pr_input_id r \<in> ins \<and> pr_output_id r \<in> outs \<and> f32_finite (pr_gain r)) \<and>
     fresh_from pairs (map route_key rs)"
  using assms by (induction rs arbitrary: pairs) auto

lemma validate_preset_unfold:
  "validate_preset p = [] \<longleftrightarrow>
     pd_schema_version p \<noteq> 0 \<and>
     (pd_sample_rate p \<noteq> 0 \<and> pd_sample_rate p \<le> kMaximumSampleRate) \<and>
     (pd_frames_per_block p \<noteq> 0 \<and> pd_frames_per_block p \<le> kMaximumFramesPerBlock) \<and>
     length (pd_nodes p) \<le> kMaximumNodes \<and>
     length (pm_inputs (pd_matrix p)) \<le> kMaximumMatrixChannels \<and>
     length (pm_outputs (pd_matrix p)) \<le> kMaximumMatrixChannels \<and>
     length (pm_routes (pd_matrix p)) \<le> kMaximumRoutes \<and>
     validate_preset_nodes {} (pd_nodes p) = [] \<and>
     fst (validate_unique_endpoint_ids pre_duplicate_input_endpoint_id (pm_inputs (pd_matrix p)) {}) = [] \<and>
     fst (validate_unique_endpoint_ids pre_duplicate_output_endpoint_id (pm_outputs (pd_matrix p)) {}) = [] \<and>
     pm_inputs (pd_matrix p) \<noteq> [] \<and> pm_outputs (pd_matrix p) \<noteq> [] \<and>
     validate_preset_routes (re_id ` set (pm_inputs (pd_matrix p)) - {[]})
       (re_id ` set (pm_outputs (pd_matrix p)) - {[]}) {} (pm_routes (pd_matrix p)) = []"
  by (simp only: validate_preset_def case_prod_beta append_is_Nil_conv push_if_Nil if_singleton_Nil
      validate_unique_endpoint_ids_set Un_empty_left not_less)

lemma validate_preset_Nil: "validate_preset p = [] \<longleftrightarrow> preset_wf p"
proof -
  define ins where "ins = pm_inputs (pd_matrix p)"
  define outs where "outs = pm_outputs (pd_matrix p)"
  define rs where "rs = pm_routes (pd_matrix p)"
  have "endpoints_ok ins \<and> endpoints_ok outs \<and>
      validate_preset_routes (re_id ` set ins - {[]}) (re_id ` set outs - {[]}) {} rs = [] \<longleftrightarrow>
    endpoints_ok ins \<and> endpoints_ok outs \<and>
      (\<forall>r \<in> set rs. pr_input_id r \<in> re_id ` set ins \<and> pr_output_id r \<in> re_id ` set outs \<and>
        f32_finite (pr_gain r)) \<and> distinct (map route_key rs)"
  proof (intro conj_cong refl)
    assume "endpoints_ok ins" "endpoints_ok outs"
    then have "re_id ` set ins - {[]} = re_id ` set ins" "re_id ` set outs - {[]} = re_id ` set outs"
      "[] \<notin> re_id ` set ins" "[] \<notin> re_id ` set outs"
      by (auto simp: endpoints_ok_def)
    then show "validate_preset_routes (re_id ` set ins - {[]}) (re_id ` set outs - {[]}) {} rs = [] \<longleftrightarrow>
      (\<forall>r \<in> set rs. pr_input_id r \<in> re_id ` set ins \<and> pr_output_id r \<in> re_id ` set outs \<and>
        f32_finite (pr_gain r)) \<and> distinct (map route_key rs)"
      by (simp add: validate_preset_routes_Nil)
  qed
  moreover have endpoints: "fst (validate_unique_endpoint_ids dup es {}) = [] \<and> es \<noteq> [] \<longleftrightarrow>
      endpoints_ok es" for dup es
    by (simp only: validate_unique_endpoint_ids_Nil fresh_from_empty endpoints_ok_def conj_ac)
  ultimately have X: "fst (validate_unique_endpoint_ids pre_duplicate_input_endpoint_id ins {}) = [] \<and>
      fst (validate_unique_endpoint_ids pre_duplicate_output_endpoint_id outs {}) = [] \<and>
      ins \<noteq> [] \<and> outs \<noteq> [] \<and>
      validate_preset_routes (re_id ` set ins - {[]}) (re_id ` set outs - {[]}) {} rs = [] \<longleftrightarrow>
    endpoints_ok ins \<and> endpoints_ok outs \<and>
      (\<forall>r \<in> set rs. pr_input_id r \<in> re_id ` set ins \<and> pr_output_id r \<in> re_id ` set outs \<and>
        f32_finite (pr_gain r)) \<and> distinct (map route_key rs)"
    by (simp only: conj_regroup [where e = "validate_preset_routes _ _ _ _ = []"] endpoints)
  show ?thesis
    unfolding validate_preset_unfold preset_wf_def X [unfolded ins_def outs_def rs_def]
      validate_preset_nodes_Nil fresh_from_empty conj_assoc
    by (rule refl)
qed

text \<open>Distinct keys mean distinct crosspoints; the converse fails for ids that hold a newline.\<close>

definition crosspoint :: "preset_route \<Rightarrow> string \<times> string" where
  "crosspoint r = (pr_input_id r, pr_output_id r)"

lemma route_key_crosspoint: "crosspoint r = crosspoint r' \<Longrightarrow> route_key r = route_key r'"
  by (simp add: crosspoint_def route_key_def)

lemma distinct_route_key: "distinct (map route_key rs) \<Longrightarrow> distinct (map crosspoint rs)"
  by (auto simp: distinct_map inj_on_def dest: route_key_crosspoint)

section \<open>Building the route matrix\<close>

text \<open>
  The \<^verbatim>\<open>unordered_map\<close> from endpoint ids to channel indices, filled with \<^verbatim>\<open>emplace\<close> (which
  keeps an existing entry).
\<close>

definition endpoint_indices :: "route_endpoint list \<Rightarrow> string \<Rightarrow> nat option" where
  "endpoint_indices es =
     fold (\<lambda>i m. if m (re_id (es ! i)) = None then m(re_id (es ! i) \<mapsto> i) else m)
       [0..<length es] (\<lambda>_. None)"

text \<open>
  The outer \<open>None\<close> stands for an exception leaving the function: the matrix constructor's
  \<^verbatim>\<open>std::invalid_argument\<close> or the \<^verbatim>\<open>std::out_of_range\<close> of \<^verbatim>\<open>at\<close>.
\<close>

fun set_route_gains :: "(string \<Rightarrow> nat option) \<Rightarrow> (string \<Rightarrow> nat option) \<Rightarrow> preset_route list \<Rightarrow>
    route_matrix \<Rightarrow> route_matrix option" where
  "set_route_gains ins outs [] m = Some m"
| "set_route_gains ins outs (r # rs) m =
     (if pr_muted r then set_route_gains ins outs rs m
      else case ins (pr_input_id r) of
        None \<Rightarrow> None
      | Some i \<Rightarrow>
          (case outs (pr_output_id r) of
             None \<Rightarrow> None
           | Some out \<Rightarrow> set_route_gains ins outs rs (snd (rm_set_gain i out (pr_gain r) m))))"

definition build_route_matrix :: "preset_document \<Rightarrow> (sar_error list + route_matrix) option" where
  "build_route_matrix p =
     (let errors = validate_preset p
      in if errors \<noteq> [] then Some (Inl errors)
         else case make_route_matrix (pm_inputs (pd_matrix p)) (pm_outputs (pd_matrix p)) of
           Inl _ \<Rightarrow> None
         | Inr m \<Rightarrow>
             map_option Inr (set_route_gains (endpoint_indices (pm_inputs (pd_matrix p)))
               (endpoint_indices (pm_outputs (pd_matrix p))) (pm_routes (pd_matrix p)) m))"

lemma endpoint_indices_upto:
  assumes "distinct (map re_id es)" "k \<le> length es"
  shows "fold (\<lambda>i m. if m (re_id (es ! i)) = None then m(re_id (es ! i) \<mapsto> i) else m) [0..<k] (\<lambda>_. None) x
     = Some i \<longleftrightarrow> i < k \<and> re_id (es ! i) = x"
  using assms(2)
proof (induction k arbitrary: x i)
  case (Suc k)
  let ?m = "fold (\<lambda>i m. if m (re_id (es ! i)) = None then m(re_id (es ! i) \<mapsto> i) else m) [0..<k] (\<lambda>_. None)"
  have fresh: "re_id (es ! j) \<noteq> re_id (es ! k)" if "j < k" for j
    using that Suc.prems distinct_map_nth [OF assms(1), of j k] by simp
  have "?m (re_id (es ! k)) = None"
  proof (cases "?m (re_id (es ! k))")
    case (Some j)
    with Suc have "j < k" "re_id (es ! j) = re_id (es ! k)" by simp_all
    with fresh show ?thesis by blast
  qed
  with Suc fresh show ?case by (auto simp: less_Suc_eq)
qed simp

lemma endpoint_indices_Some:
  "distinct (map re_id es) \<Longrightarrow> endpoint_indices es x = Some i \<longleftrightarrow> i < length es \<and> re_id (es ! i) = x"
  unfolding endpoint_indices_def by (rule endpoint_indices_upto) simp_all

lemma endpoint_indices_mem:
  assumes "distinct (map re_id es)" "x \<in> re_id ` set es"
  obtains i where "endpoint_indices es x = Some i" "i < length es" "re_id (es ! i) = x"
  using assms endpoint_indices_Some [OF assms(1)] by (auto simp: in_set_conv_nth)

text \<open>The gain the routes give a crosspoint: that of its unmuted route, or silence.\<close>

definition route_gain_at :: "preset_route list \<Rightarrow> string \<Rightarrow> string \<Rightarrow> f32" where
  "route_gain_at rs i out =
     (case List.find (\<lambda>r. crosspoint r = (i, out) \<and> \<not> pr_muted r) rs of
        None \<Rightarrow> 0 | Some r \<Rightarrow> pr_gain r)"

lemma set_route_gains_ok:
  assumes "rm_wf m" "distinct (map re_id (rm_inputs m))" "distinct (map re_id (rm_outputs m))"
    and "\<forall>r \<in> set rs. pr_input_id r \<in> re_id ` set (rm_inputs m) \<and>
      pr_output_id r \<in> re_id ` set (rm_outputs m) \<and> f32_finite (pr_gain r)"
    and "distinct (map crosspoint rs)"
  shows "\<exists>m'. set_route_gains (endpoint_indices (rm_inputs m)) (endpoint_indices (rm_outputs m)) rs m = Some m' \<and>
    rm_wf m' \<and> rm_inputs m' = rm_inputs m \<and> rm_outputs m' = rm_outputs m \<and>
    (\<forall>i < length (rm_inputs m). \<forall>out < length (rm_outputs m). rm_gain m' i out =
      (case List.find (\<lambda>r. crosspoint r = (re_id (rm_inputs m ! i), re_id (rm_outputs m ! out)) \<and>
          \<not> pr_muted r) rs of None \<Rightarrow> rm_gain m i out | Some r \<Rightarrow> pr_gain r))"
  using assms
proof (induction rs arbitrary: m)
  case Nil
  then show ?case by simp
next
  case (Cons r rs)
  show ?case
  proof (cases "pr_muted r")
    case True
    with Cons.IH [of m] Cons.prems show ?thesis by simp
  next
    case False
    from Cons.prems obtain i where i: "endpoint_indices (rm_inputs m) (pr_input_id r) = Some i"
      "i < length (rm_inputs m)" "re_id (rm_inputs m ! i) = pr_input_id r"
      by (meson endpoint_indices_mem list.set_intros(1))
    from Cons.prems obtain j where j: "endpoint_indices (rm_outputs m) (pr_output_id r) = Some j"
      "j < length (rm_outputs m)" "re_id (rm_outputs m ! j) = pr_output_id r"
      by (meson endpoint_indices_mem list.set_intros(1))
    let ?m = "snd (rm_set_gain i j (pr_gain r) m)"
    have gain: "rm_gain ?m a b = (if a = i \<and> b = j then pr_gain r else rm_gain m a b)" for a b
      using Cons.prems i(2) j(2)
      by (simp add: rm_gain_set_gain rm_input_channels_def rm_output_channels_def)
    have "\<exists>m'. set_route_gains (endpoint_indices (rm_inputs ?m)) (endpoint_indices (rm_outputs ?m)) rs ?m = Some m' \<and>
      rm_wf m' \<and> rm_inputs m' = rm_inputs ?m \<and> rm_outputs m' = rm_outputs ?m \<and>
      (\<forall>i < length (rm_inputs ?m). \<forall>out < length (rm_outputs ?m). rm_gain m' i out =
        (case List.find (\<lambda>r. crosspoint r = (re_id (rm_inputs ?m ! i), re_id (rm_outputs ?m ! out)) \<and>
          \<not> pr_muted r) rs of None \<Rightarrow> rm_gain ?m i out | Some r \<Rightarrow> pr_gain r))"
      using Cons.prems by (intro Cons.IH) (auto simp: rm_set_gain_wf)
    then obtain m' where m': "set_route_gains (endpoint_indices (rm_inputs m)) (endpoint_indices (rm_outputs m)) rs ?m = Some m'"
      "rm_wf m'" "rm_inputs m' = rm_inputs m" "rm_outputs m' = rm_outputs m"
      "\<forall>a < length (rm_inputs m). \<forall>b < length (rm_outputs m). rm_gain m' a b =
        (case List.find (\<lambda>r. crosspoint r = (re_id (rm_inputs m ! a), re_id (rm_outputs m ! b)) \<and>
          \<not> pr_muted r) rs of None \<Rightarrow> rm_gain ?m a b | Some r \<Rightarrow> pr_gain r)"
      by auto
    have same: "crosspoint r = (re_id (rm_inputs m ! a), re_id (rm_outputs m ! b)) \<longleftrightarrow> a = i \<and> b = j"
      if "a < length (rm_inputs m)" "b < length (rm_outputs m)" for a b
      using that i(2) j(2) Cons.prems(2,3)
      by (auto simp: crosspoint_def distinct_map_nth simp flip: i(3) j(3))
    have none: "List.find (\<lambda>q. crosspoint q = crosspoint r \<and> \<not> pr_muted q) rs = None"
      using Cons.prems(5) by (auto simp: find_None_iff_all) (metis imageI)
    have "rm_gain m' a b = (case List.find (\<lambda>r. crosspoint r =
        (re_id (rm_inputs m ! a), re_id (rm_outputs m ! b)) \<and> \<not> pr_muted r) (r # rs) of
        None \<Rightarrow> rm_gain m a b | Some r \<Rightarrow> pr_gain r)"
      if ab: "a < length (rm_inputs m)" "b < length (rm_outputs m)" for a b
    proof (cases "a = i \<and> b = j")
      case True
      have "crosspoint r = (re_id (rm_inputs m ! i), re_id (rm_outputs m ! j))"
        using i(3) j(3) by (simp add: crosspoint_def)
      with True False none m'(5) ab gain show ?thesis by simp
    next
      case False
      then have "crosspoint r \<noteq> (re_id (rm_inputs m ! a), re_id (rm_outputs m ! b))"
        using same [OF ab] by blast
      moreover have "rm_gain ?m a b = rm_gain m a b" using gain False by auto
      ultimately show ?thesis using m'(5) ab by (simp split: option.split)
    qed
    with m' i j False show ?thesis by auto
  qed
qed

lemma build_route_matrix_ok:
  assumes "preset_wf p"
  shows "\<exists>m. build_route_matrix p = Some (Inr m) \<and> rm_wf m \<and>
    rm_inputs m = pm_inputs (pd_matrix p) \<and> rm_outputs m = pm_outputs (pd_matrix p) \<and>
    (\<forall>i < length (rm_inputs m). \<forall>out < length (rm_outputs m). rm_gain m i out =
      route_gain_at (pm_routes (pd_matrix p)) (re_id (rm_inputs m ! i)) (re_id (rm_outputs m ! out)))"
proof -
  let ?ins = "pm_inputs (pd_matrix p)" and ?outs = "pm_outputs (pd_matrix p)"
  let ?m = "\<lparr>rm_inputs = ?ins, rm_outputs = ?outs, rm_gains = replicate (length ?ins * length ?outs) 0\<rparr>"
  have ok: "endpoints_ok ?ins" "endpoints_ok ?outs"
    using assms by (simp_all add: preset_wf_def)
  have m: "make_route_matrix ?ins ?outs = Inr ?m" using ok by (rule make_route_matrix_ok)
  have wf: "rm_wf ?m" using make_route_matrix_wf [OF m] .
  have zero: "rm_gain ?m i out = 0" for i out
    using rm_index_less [OF wf, of i out] by (simp add: rm_gain_def)
  have routes: "\<forall>r \<in> set (pm_routes (pd_matrix p)). pr_input_id r \<in> re_id ` set (rm_inputs ?m) \<and>
      pr_output_id r \<in> re_id ` set (rm_outputs ?m) \<and> f32_finite (pr_gain r)"
    and distinct: "distinct (map crosspoint (pm_routes (pd_matrix p)))"
    "distinct (map re_id (rm_inputs ?m))" "distinct (map re_id (rm_outputs ?m))"
    using assms by (auto simp: preset_wf_def endpoints_ok_def intro: distinct_route_key)
  from set_route_gains_ok [OF wf distinct(2,3) routes distinct(1)]
  obtain m' where m': "set_route_gains (endpoint_indices ?ins) (endpoint_indices ?outs)
      (pm_routes (pd_matrix p)) ?m = Some m'"
    "rm_wf m'" "rm_inputs m' = ?ins" "rm_outputs m' = ?outs"
    "\<forall>i < length ?ins. \<forall>out < length ?outs. rm_gain m' i out =
      route_gain_at (pm_routes (pd_matrix p)) (re_id (?ins ! i)) (re_id (?outs ! out))"
    unfolding route_gain_at_def zero by (elim exE conjE) simp
  have "build_route_matrix p = Some (Inr m')"
    using assms m m'(1) by (simp add: build_route_matrix_def validate_preset_Nil)
  with m' show ?thesis by auto
qed

section \<open>Building the graph\<close>

text \<open>
  \<^verbatim>\<open>find_route_matrix_node\<close>: the first node of type \<^verbatim>\<open>route_matrix\<close>, an error for every
  further one and for every node of another type, and an error when there is none.
\<close>

fun scan_matrix_nodes :: "preset_node option \<Rightarrow> preset_node list \<Rightarrow> preset_node option \<times> sar_error list" where
  "scan_matrix_nodes found [] = (found, [])"
| "scan_matrix_nodes found (n # ns) =
     (if pn_type n = ''route_matrix'' then
        (if found \<noteq> None then
           (case scan_matrix_nodes found ns of (f, es) \<Rightarrow> (f, pre_multiple_route_matrix_nodes # es))
         else scan_matrix_nodes (Some n) ns)
      else (case scan_matrix_nodes found ns of (f, es) \<Rightarrow> (f, pre_unsupported_preset_node_type # es)))"

definition find_route_matrix_node :: "preset_document \<Rightarrow> preset_node option \<times> sar_error list" where
  "find_route_matrix_node p =
     (case scan_matrix_nodes None (pd_nodes p) of (found, errors) \<Rightarrow>
        (found, errors @ push_if (found = None) pre_missing_route_matrix_node))"

definition append_graph_build_errors :: "sar_error list \<Rightarrow> sar_error list" where
  "append_graph_build_errors = map (\<lambda>e. mk_error (''graph_'' @ err_code e) (err_message e))"

definition build_preset_graph :: "preset_document \<Rightarrow> u64 \<Rightarrow> (sar_error list + graph) option" where
  "build_preset_graph p version =
     (let invalid = validate_preset p
      in if invalid \<noteq> [] then Some (Inl invalid)
         else case find_route_matrix_node p of (node, errors) \<Rightarrow>
           if errors \<noteq> [] then Some (Inl errors)
           else case build_route_matrix p of
             None \<Rightarrow> None
           | Some (Inl es) \<Rightarrow> Some (Inl es)
           | Some (Inr m) \<Rightarrow>
               (case node of
                  None \<Rightarrow> None
                | Some n \<Rightarrow>
                    (case fst (builder_build
                            (builder_add_node (pn_id n) (pn_label n) (Some (RouteMatrixNode m))
                              (builder_sample_rate (pd_sample_rate p)
                                (make_graph_builder version
                                  (max (rm_input_channels m) (rm_output_channels m))
                                  (unat (pd_frames_per_block p)))))) of
                       Inl es \<Rightarrow> Some (Inl (append_graph_build_errors es))
                     | Inr g \<Rightarrow> Some (Inr g))))"

text \<open>The presets the graph builder supports: exactly one node, a route matrix.\<close>

definition preset_buildable :: "preset_document \<Rightarrow> bool" where
  "preset_buildable p \<longleftrightarrow> (\<exists>n. pd_nodes p = [n] \<and> pn_type n = ''route_matrix'')"

lemma scan_matrix_nodes_Nil:
  "snd (scan_matrix_nodes found ns) = [] \<longleftrightarrow>
     (\<forall>n \<in> set ns. pn_type n = ''route_matrix'') \<and>
     (case found of Some _ \<Rightarrow> ns = [] | None \<Rightarrow> length ns \<le> 1)"
proof (induction found ns rule: scan_matrix_nodes.induct)
  case (2 found n ns)
  then show ?case by (cases ns) (auto simp: case_prod_beta split: option.splits)
qed (auto split: option.splits)

lemma find_route_matrix_node_Nil:
  "snd (find_route_matrix_node p) = [] \<longleftrightarrow> preset_buildable p"
proof -
  have "snd (find_route_matrix_node p) = [] \<longleftrightarrow>
      snd (scan_matrix_nodes None (pd_nodes p)) = [] \<and> fst (scan_matrix_nodes None (pd_nodes p)) \<noteq> None"
    by (simp add: find_route_matrix_node_def case_prod_beta)
  also have "\<dots> \<longleftrightarrow> preset_buildable p"
    unfolding scan_matrix_nodes_Nil preset_buildable_def
    by (cases "pd_nodes p" rule: remdups_adj.cases) auto
  finally show ?thesis .
qed

lemma build_preset_graph_ok:
  assumes "preset_wf p" "pd_nodes p = [n]" "pn_type n = ''route_matrix''" "version \<noteq> 0"
  shows "\<exists>m. build_route_matrix p = Some (Inr m) \<and> rm_wf m \<and>
    build_preset_graph p version = Some (Inr \<lparr>g_version = version, g_sample_rate = pd_sample_rate p,
      g_channels = max (length (pm_inputs (pd_matrix p))) (length (pm_outputs (pd_matrix p))),
      g_frames = unat (pd_frames_per_block p), g_nodes = [RouteMatrixNode m],
      g_node_ids = [pn_id n], g_node_labels = [pn_label n]\<rparr>)"
proof -
  from build_route_matrix_ok [OF assms(1)] obtain m where m: "build_route_matrix p = Some (Inr m)"
    "rm_wf m" "rm_inputs m = pm_inputs (pd_matrix p)" "rm_outputs m = pm_outputs (pd_matrix p)"
    by blast
  have node: "find_route_matrix_node p = (Some n, [])"
    using assms(2,3) by (simp add: find_route_matrix_node_def)
  have ch: "max (rm_input_channels m) (rm_output_channels m) =
      max (length (pm_inputs (pd_matrix p))) (length (pm_outputs (pd_matrix p)))"
    by (simp add: rm_input_channels_def rm_output_channels_def m)
  have "builder_validate (builder_add_node (pn_id n) (pn_label n) (Some (RouteMatrixNode m))
      (builder_sample_rate (pd_sample_rate p) (make_graph_builder version
        (max (length (pm_inputs (pd_matrix p))) (length (pm_outputs (pd_matrix p))))
        (unat (pd_frames_per_block p))))) = []"
    using assms by (auto simp: builder_validate_Nil builder_add_node_def builder_sample_rate_def
        make_graph_builder_def preset_wf_def endpoints_ok_def unat_eq_0)
  with assms m node show ?thesis
    by (simp add: build_preset_graph_def Let_def validate_preset_Nil ch builder_build_cases)
      (simp add: builder_add_node_def builder_sample_rate_def make_graph_builder_def)
qed

lemma build_preset_graph_version_0:
  assumes "preset_wf p" "pd_nodes p = [n]" "pn_type n = ''route_matrix''"
  shows "build_preset_graph p 0 = Some (Inl (append_graph_build_errors [gb_invalid_version]))"
proof -
  from build_route_matrix_ok [OF assms(1)] obtain m where m: "build_route_matrix p = Some (Inr m)"
    "rm_inputs m = pm_inputs (pd_matrix p)" "rm_outputs m = pm_outputs (pd_matrix p)"
    by blast
  have node: "find_route_matrix_node p = (Some n, [])"
    using assms(2,3) by (simp add: find_route_matrix_node_def)
  have "builder_validate (builder_add_node (pn_id n) (pn_label n) (Some (RouteMatrixNode m))
      (builder_sample_rate (pd_sample_rate p) (make_graph_builder 0
        (max (rm_input_channels m) (rm_output_channels m))
        (unat (pd_frames_per_block p))))) = [gb_invalid_version]"
    using assms by (auto simp: builder_validate_def builder_add_node_def builder_sample_rate_def
        make_graph_builder_def preset_wf_def endpoints_ok_def unat_eq_0 m
        rm_input_channels_def rm_output_channels_def)
  with assms m(1) node show ?thesis
    by (simp add: build_preset_graph_def Let_def validate_preset_Nil builder_build_cases)
qed

text \<open>No exception escapes either builder, and a failure carries at least one error.\<close>

lemma build_preset_graph_total:
  "(\<exists>g. build_preset_graph p version = Some (Inr g) \<and> preset_wf p \<and> preset_buildable p \<and> version \<noteq> 0) \<or>
   (\<exists>es. build_preset_graph p version = Some (Inl es) \<and> es \<noteq> [] \<and>
       \<not> (preset_wf p \<and> preset_buildable p \<and> version \<noteq> 0))"
proof (cases "preset_wf p \<and> preset_buildable p")
  case True
  then obtain n where "preset_wf p" "pd_nodes p = [n]" "pn_type n = ''route_matrix''"
    by (auto simp: preset_buildable_def)
  note ok = build_preset_graph_ok [OF this] build_preset_graph_version_0 [OF this]
  from True ok show ?thesis
    by (cases "version = 0") (auto simp: append_graph_build_errors_def)
next
  case False
  then show ?thesis
    using find_route_matrix_node_Nil [of p]
    by (cases "find_route_matrix_node p")
      (auto simp: build_preset_graph_def Let_def validate_preset_Nil)
qed

lemma build_preset_graph_not_None [simp]: "build_preset_graph p version \<noteq> None"
  using build_preset_graph_total [of p version] by auto

lemma build_preset_graph_Inr:
  "build_preset_graph p version = Some (Inr g) \<Longrightarrow>
     preset_wf p \<and> preset_buildable p \<and> version \<noteq> 0 \<and> g_version g = version"
proof -
  assume g: "build_preset_graph p version = Some (Inr g)"
  then have wf: "preset_wf p" "preset_buildable p" "version \<noteq> 0"
    using build_preset_graph_total [of p version] by auto
  then obtain n where "pd_nodes p = [n]" "pn_type n = ''route_matrix''"
    by (auto simp: preset_buildable_def)
  from build_preset_graph_ok [OF wf(1) this wf(3)] g wf show ?thesis by auto
qed

section \<open>Properties\<close>

text \<open>A preset passes the validation exactly when it satisfies every requirement of \<open>preset_wf\<close>.\<close>

theorem preset_validation_complete: "validate_preset p = [] \<longleftrightarrow> preset_wf p"
  by (rule validate_preset_Nil)

text \<open>
  A valid preset gives a route matrix over its endpoints in which every crosspoint has the
  gain of its unmuted route, and silence where there is none; no exception is thrown.
\<close>

theorem preset_matrix_has_route_gains:
  assumes "preset_wf p"
  shows "\<exists>m. build_route_matrix p = Some (Inr m) \<and>
    rm_inputs m = pm_inputs (pd_matrix p) \<and> rm_outputs m = pm_outputs (pd_matrix p) \<and>
    (\<forall>i < length (rm_inputs m). \<forall>out < length (rm_outputs m). rm_gain m i out =
      route_gain_at (pm_routes (pd_matrix p)) (re_id (rm_inputs m ! i)) (re_id (rm_outputs m ! out)))"
  using build_route_matrix_ok [OF assms] by blast

definition demo_preset :: preset_document where
  "demo_preset = default_preset\<lparr>pd_nodes := [\<lparr>pn_id = ''m'', pn_label = ''Matrix'', pn_type = ''route_matrix''\<rparr>],
     pd_matrix := \<lparr>pm_inputs = [\<lparr>re_id = ''in'', re_label = ''In''\<rparr>],
       pm_outputs = [\<lparr>re_id = ''out'', re_label = ''Out''\<rparr>],
       pm_routes = [\<lparr>pr_input_id = ''in'', pr_output_id = ''out'', pr_gain = 0x3F800000, pr_muted = False\<rparr>]\<rparr>\<rparr>"

lemma demo_preset_wf: "preset_wf demo_preset" "preset_buildable demo_preset"
  by (simp_all add: preset_wf_def demo_preset_def default_preset_def endpoints_ok_def f32_finite_def
      preset_buildable_def kMaximumSampleRate_def kMaximumFramesPerBlock_def kMaximumNodes_def
      kMaximumMatrixChannels_def kMaximumRoutes_def)

theorem preset_matrix_has_route_gains_witness:
  "\<exists>m. build_route_matrix demo_preset = Some (Inr m) \<and> rm_gain m 0 0 = 0x3F800000"
  using preset_matrix_has_route_gains [OF demo_preset_wf(1)]
  by (auto simp: demo_preset_def route_gain_at_def crosspoint_def)

text \<open>
  Building the graph of a preset never throws. It succeeds exactly for a valid preset whose
  only node is a route matrix, under a non-zero version, and the graph then carries that
  version and the preset's format; otherwise at least one error is reported.
\<close>

theorem preset_graph_total:
  "case build_preset_graph p version of
     None \<Rightarrow> False
   | Some (Inl es) \<Rightarrow> es \<noteq> [] \<and> \<not> (preset_wf p \<and> preset_buildable p \<and> version \<noteq> 0)
   | Some (Inr g) \<Rightarrow> preset_wf p \<and> preset_buildable p \<and> version \<noteq> 0 \<and> g_version g = version \<and>
       g_sample_rate g = pd_sample_rate p \<and> g_frames g = unat (pd_frames_per_block p) \<and>
       g_channels g = max (length (pm_inputs (pd_matrix p))) (length (pm_outputs (pd_matrix p))) \<and>
       (\<exists>m. g_nodes g = [RouteMatrixNode m] \<and> build_route_matrix p = Some (Inr m))"
proof (cases "preset_wf p \<and> preset_buildable p \<and> version \<noteq> 0")
  case True
  then obtain n where "preset_wf p" "pd_nodes p = [n]" "pn_type n = ''route_matrix''" "version \<noteq> 0"
    by (auto simp: preset_buildable_def)
  from build_preset_graph_ok [OF this] show ?thesis using True by auto
next
  case False
  with build_preset_graph_total [of p version] show ?thesis by auto
qed

text \<open>
  The crosspoint key joins the two ids with a newline, which an id may itself contain: there
  are presets whose routes name different crosspoints and which are refused as defining the
  same crosspoint twice, and nothing else is wrong with them.
\<close>

definition newline_preset :: preset_document where
  "newline_preset = default_preset\<lparr>pd_nodes := [\<lparr>pn_id = ''m'', pn_label = ''Matrix'', pn_type = ''route_matrix''\<rparr>],
     pd_matrix := \<lparr>pm_inputs = [\<lparr>re_id = ''a'', re_label = ''A''\<rparr>, \<lparr>re_id = ''a'' @ [CHR 0x0A] @ ''b'', re_label = ''B''\<rparr>],
       pm_outputs = [\<lparr>re_id = ''b'' @ [CHR 0x0A] @ ''c'', re_label = ''C''\<rparr>, \<lparr>re_id = ''c'', re_label = ''D''\<rparr>],
       pm_routes = [\<lparr>pr_input_id = ''a'', pr_output_id = ''b'' @ [CHR 0x0A] @ ''c'', pr_gain = 0, pr_muted = False\<rparr>,
         \<lparr>pr_input_id = ''a'' @ [CHR 0x0A] @ ''b'', pr_output_id = ''c'', pr_gain = 0, pr_muted = False\<rparr>]\<rparr>\<rparr>"

theorem distinct_crosspoints_refused:
  "distinct (map crosspoint (pm_routes (pd_matrix newline_preset))) \<and>
   validate_preset newline_preset = [pre_duplicate_route]"
  by (simp add: newline_preset_def crosspoint_def validate_preset_def default_preset_def route_key_def
      kMaximumSampleRate_def kMaximumFramesPerBlock_def kMaximumNodes_def kMaximumMatrixChannels_def
      kMaximumRoutes_def)

end
