(* ===== verification/ControlCommand.thy ===== *)
theory ControlCommand
  imports Preset
begin

text \<open>
  \<^verbatim>\<open>core/control/control_command.{h,cpp}\<close>: the commands of the control plane, the validation of
  commands and of audio-runtime configurations, and \<open>apply_command\<close>, which turns one preset
  document into the next. An enumerator the C++ code may receive as an unnamed value of the
  underlying type (its \<^verbatim>\<open>default\<close> branches test for it) is the \<open>Unnamed...\<close> constructor.
\<close>

section \<open>Commands\<close>

datatype control_command_type =
  ListDevices | CreateVirtualEndpoint | RemoveVirtualEndpoint | ConnectRoute | DisconnectRoute
| SetGain | SetMute | LoadPreset | SavePreset | QueryDiagnostics | QueryActiveGraph
| QuerySessionState | QueryAudioRuntime | StartAudioRuntime | StopAudioRuntime
| ConfigureAudioRuntime | QueryVirtualAsioDevices | ConfigureVirtualAsioDevices
| UnnamedCommandType u32

datatype audio_runtime_mode =
  ModeNone | WasapiRender | WasapiDuplex | WasapiMatrix | PhysicalAsioMode | UnnamedMode u32

datatype runtime_direction = Capture | Render | UnnamedDirection u32

datatype runtime_backend = WasapiBackend | PhysicalAsioBackend | UnnamedBackend u32

record runtime_endpoint =
  rt_endpoint_id :: string
  rt_device_id :: string
  rt_direction :: runtime_direction
  rt_clock_master :: bool
  rt_first_channel :: u32
  rt_channel_count :: u32
  rt_backend :: runtime_backend
  rt_device_group_id :: string
  rt_sample_rate :: u32
  rt_block_frames :: u32

record runtime_configuration =
  rc_mode :: audio_runtime_mode
  rc_capture_device_id :: string
  rc_render_device_id :: string
  rc_endpoints :: "runtime_endpoint list"
  rc_asio_driver_clsid :: string
  rc_asio_sample_rate :: u32
  rc_asio_block_frames :: u32
  rc_asio_input_channels :: "u32 list"
  rc_asio_output_channels :: "u32 list"

record virtual_asio_device =
  va_device_id :: string
  va_clsid :: string
  va_registry_name :: string
  va_broker_token :: string
  va_input_channels :: u32
  va_output_channels :: u32
  va_enabled :: bool

record control_command =
  cc_schema_version :: u32
  cc_command_id :: string
  cc_type :: control_command_type
  cc_endpoint_id :: string
  cc_endpoint_label :: string
  cc_input_id :: string
  cc_output_id :: string
  cc_gain :: f32
  cc_mute :: bool
  cc_preset :: preset_document
  cc_audio_runtime :: runtime_configuration
  cc_virtual_asio_devices :: "virtual_asio_device list"

definition default_runtime_endpoint :: runtime_endpoint where
  "default_runtime_endpoint = \<lparr>rt_endpoint_id = [], rt_device_id = [], rt_direction = Capture,
     rt_clock_master = False, rt_first_channel = 0, rt_channel_count = 0,
     rt_backend = WasapiBackend, rt_device_group_id = [], rt_sample_rate = 0, rt_block_frames = 0\<rparr>"

definition default_runtime_configuration :: runtime_configuration where
  "default_runtime_configuration = \<lparr>rc_mode = ModeNone, rc_capture_device_id = [],
     rc_render_device_id = [], rc_endpoints = [], rc_asio_driver_clsid = [],
     rc_asio_sample_rate = 0, rc_asio_block_frames = 0, rc_asio_input_channels = [],
     rc_asio_output_channels = []\<rparr>"

definition default_virtual_asio_device :: virtual_asio_device where
  "default_virtual_asio_device = \<lparr>va_device_id = [], va_clsid = [], va_registry_name = [],
     va_broker_token = [], va_input_channels = 2, va_output_channels = 2, va_enabled = True\<rparr>"

definition default_command :: control_command where
  "default_command = \<lparr>cc_schema_version = 1, cc_command_id = [], cc_type = QueryDiagnostics,
     cc_endpoint_id = [], cc_endpoint_label = [], cc_input_id = [], cc_output_id = [],
     cc_gain = 0, cc_mute = False, cc_preset = default_preset,
     cc_audio_runtime = default_runtime_configuration, cc_virtual_asio_devices = []\<rparr>"

definition kMaximumAudioRuntimeEndpoints :: nat where "kMaximumAudioRuntimeEndpoints = 32"
definition kMaximumPhysicalAsioChannels :: nat where "kMaximumPhysicalAsioChannels = 256"
definition kMaximumVirtualAsioDevices :: nat where "kMaximumVirtualAsioDevices = 16"

section \<open>Audio runtime configurations\<close>

definition has_physical_asio_fields :: "runtime_configuration \<Rightarrow> bool" where
  "has_physical_asio_fields c \<longleftrightarrow> rc_asio_driver_clsid c \<noteq> [] \<or> rc_asio_sample_rate c \<noteq> 0 \<or>
     rc_asio_block_frames c \<noteq> 0 \<or> rc_asio_input_channels c \<noteq> [] \<or> rc_asio_output_channels c \<noteq> []"

fun validate_channels :: "sar_error \<Rightarrow> u32 set \<Rightarrow> u32 list \<Rightarrow> sar_error list" where
  "validate_channels dup seen [] = []"
| "validate_channels dup seen (c # cs) =
     (if unat c \<ge> kMaximumPhysicalAsioChannels
      then cmd_physical_asio_channel_out_of_range # validate_channels dup seen cs
      else push_if (c \<in> seen) dup @ validate_channels dup (insert c seen) cs)"

definition validate_physical_asio :: "runtime_configuration \<Rightarrow> sar_error list" where
  "validate_physical_asio c =
     push_if (rc_capture_device_id c \<noteq> [] \<or> rc_render_device_id c \<noteq> [] \<or> rc_endpoints c \<noteq> [])
       cmd_unexpected_wasapi_configuration @
     (if rc_asio_driver_clsid c = [] then [cmd_empty_physical_asio_driver_clsid]
      else push_if (length (rc_asio_driver_clsid c) > 128) cmd_physical_asio_driver_clsid_too_long) @
     push_if (rc_asio_sample_rate c < 8000 \<or> rc_asio_sample_rate c > 768000)
       cmd_invalid_physical_asio_sample_rate @
     push_if (rc_asio_block_frames c = 0 \<or> rc_asio_block_frames c > 65536)
       cmd_invalid_physical_asio_block_frames @
     push_if (length (rc_asio_input_channels c) > kMaximumPhysicalAsioChannels \<or>
         length (rc_asio_output_channels c) > kMaximumPhysicalAsioChannels)
       cmd_too_many_physical_asio_channels @
     validate_channels cmd_duplicate_physical_asio_input_channel {} (rc_asio_input_channels c) @
     validate_channels cmd_duplicate_physical_asio_output_channel {} (rc_asio_output_channels c)"

definition native_key :: "runtime_endpoint \<Rightarrow> string" where
  "native_key e =
     (let physical = (rt_backend e = PhysicalAsioBackend)
      in (if physical then ''physical-asio'' @ [CHR 0x0A] else ''wasapi'' @ [CHR 0x0A]) @
         (if rt_direction e = Render then ''render'' @ [CHR 0x0A] else ''capture'' @ [CHR 0x0A]) @
         (if physical then rt_device_group_id e else rt_device_id e))"

text \<open>The four accumulators of the endpoint loop, and the counter of clock masters.\<close>

record runtime_scan =
  rs_endpoint_ids :: "string set"
  rs_native :: "string set"
  rs_render_count :: nat
  rs_clock_masters :: nat
  rs_groups :: "string set"

definition empty_scan :: runtime_scan where
  "empty_scan = \<lparr>rs_endpoint_ids = {}, rs_native = {}, rs_render_count = 0, rs_clock_masters = 0,
     rs_groups = {}\<rparr>"

definition scan_endpoint_errors :: "runtime_scan \<Rightarrow> runtime_endpoint \<Rightarrow> sar_error list" where
  "scan_endpoint_errors s e =
     (if rt_endpoint_id e = [] then [cmd_empty_audio_runtime_endpoint_id]
      else push_if (rt_endpoint_id e \<in> rs_endpoint_ids s) cmd_duplicate_audio_runtime_endpoint_id) @
     push_if (rt_direction e \<noteq> Render \<and> rt_direction e \<noteq> Capture)
       cmd_invalid_audio_runtime_endpoint_direction @
     (if rt_backend e \<noteq> WasapiBackend \<and> rt_backend e \<noteq> PhysicalAsioBackend
      then [cmd_invalid_audio_runtime_endpoint_backend]
      else if rt_backend e = PhysicalAsioBackend then
        push_if (rt_device_group_id e = []) cmd_empty_physical_asio_device_group_id @
        push_if (rt_sample_rate e < 8000 \<or> rt_sample_rate e > 768000)
          cmd_invalid_physical_asio_endpoint_sample_rate @
        push_if (rt_block_frames e = 0 \<or> rt_block_frames e > 65536)
          cmd_invalid_physical_asio_endpoint_block_frames
      else push_if (rt_device_group_id e \<noteq> [] \<or> rt_sample_rate e \<noteq> 0 \<or> rt_block_frames e \<noteq> 0)
          cmd_unexpected_wasapi_endpoint_timing) @
     push_if (native_key e \<in> rs_native s) cmd_duplicate_audio_runtime_device @
     push_if (rt_clock_master e \<and> rt_direction e \<noteq> Render) cmd_capture_clock_master_not_supported @
     (if rt_channel_count e = 0 then [cmd_empty_audio_runtime_channel_range]
      else push_if (rt_first_channel e > (- 1) - rt_channel_count e)
          cmd_invalid_audio_runtime_channel_range)"

definition scan_endpoint :: "runtime_scan \<Rightarrow> runtime_endpoint \<Rightarrow> runtime_scan" where
  "scan_endpoint s e =
     s\<lparr>rs_endpoint_ids := (if rt_endpoint_id e = [] then rs_endpoint_ids s
                           else insert (rt_endpoint_id e) (rs_endpoint_ids s)),
       rs_native := insert (native_key e) (rs_native s),
       rs_render_count := rs_render_count s + (if rt_direction e = Render then 1 else 0),
       rs_clock_masters := rs_clock_masters s + (if rt_clock_master e then 1 else 0),
       rs_groups := (if rt_backend e = PhysicalAsioBackend
                     then insert (rt_device_group_id e) (rs_groups s) else rs_groups s)\<rparr>"

fun scan_endpoints :: "runtime_scan \<Rightarrow> runtime_endpoint list \<Rightarrow> sar_error list \<times> runtime_scan" where
  "scan_endpoints s [] = ([], s)"
| "scan_endpoints s (e # es) =
     (case scan_endpoints (scan_endpoint s e) es of (errors, s') \<Rightarrow>
        (scan_endpoint_errors s e @ errors, s'))"

definition asio_counterpart :: "runtime_endpoint list \<Rightarrow> runtime_endpoint \<Rightarrow> runtime_endpoint option" where
  "asio_counterpart es e =
     List.find (\<lambda>c. rt_backend c = PhysicalAsioBackend \<and>
       rt_device_group_id c = rt_device_group_id e \<and> rt_direction c \<noteq> rt_direction e) es"

definition asio_group_errors :: "runtime_endpoint list \<Rightarrow> runtime_endpoint \<Rightarrow> sar_error list" where
  "asio_group_errors es e =
     (if rt_backend e \<noteq> PhysicalAsioBackend then []
      else
        push_if (rt_direction e = Render \<and> \<not> rt_clock_master e)
          cmd_physical_asio_render_must_be_clock_master @
        (case asio_counterpart es e of
           None \<Rightarrow> [cmd_incomplete_physical_asio_endpoint_group]
         | Some c \<Rightarrow>
             push_if (rt_device_id c \<noteq> rt_device_id e \<or> rt_sample_rate c \<noteq> rt_sample_rate e \<or>
                 rt_block_frames c \<noteq> rt_block_frames e)
               cmd_mismatched_physical_asio_endpoint_group))"

definition validate_matrix_endpoints :: "runtime_endpoint list \<Rightarrow> sar_error list" where
  "validate_matrix_endpoints es =
     (case scan_endpoints empty_scan es of (errors, s) \<Rightarrow>
        errors @
        push_if (rs_render_count s = 0) cmd_missing_audio_runtime_render_endpoint @
        push_if (rs_clock_masters s \<noteq> 1) cmd_invalid_audio_runtime_clock_master_count @
        push_if (card (rs_groups s) > 1) cmd_multiple_physical_asio_groups_not_supported @
        concat (map (asio_group_errors es) es))"

definition validate_audio_runtime_configuration ::
  "runtime_configuration \<Rightarrow> bool \<Rightarrow> sar_error list" where
  "validate_audio_runtime_configuration c allow_none =
     (if rc_mode c = PhysicalAsioMode then validate_physical_asio c
      else if rc_mode c = ModeNone then
        push_if (\<not> allow_none) cmd_missing_audio_runtime_mode @
        push_if (rc_capture_device_id c \<noteq> [] \<or> rc_render_device_id c \<noteq> [] \<or>
            rc_endpoints c \<noteq> [] \<or> has_physical_asio_fields c)
          cmd_unexpected_audio_runtime_endpoint
      else
        push_if (has_physical_asio_fields c) cmd_unexpected_physical_asio_configuration @
        (if rc_mode c = WasapiRender then
           push_if (rc_capture_device_id c \<noteq> []) cmd_unexpected_capture_device_id @
           push_if (rc_endpoints c \<noteq> []) cmd_unexpected_matrix_endpoints
         else if rc_mode c = WasapiDuplex then
           push_if ((rc_capture_device_id c = []) \<noteq> (rc_render_device_id c = []))
             cmd_incomplete_duplex_device_ids @
           push_if (rc_endpoints c \<noteq> []) cmd_unexpected_matrix_endpoints
         else if rc_mode c \<noteq> WasapiMatrix then [cmd_invalid_audio_runtime_mode]
         else
           push_if (rc_capture_device_id c \<noteq> [] \<or> rc_render_device_id c \<noteq> [])
             cmd_unexpected_legacy_device_id @
           (if rc_endpoints c = [] then [cmd_empty_audio_runtime_matrix]
            else if length (rc_endpoints c) > kMaximumAudioRuntimeEndpoints
              then [cmd_too_many_audio_runtime_endpoints]
            else validate_matrix_endpoints (rc_endpoints c))))"

text \<open>What an accepted matrix configuration satisfies.\<close>

definition runtime_endpoint_ok :: "runtime_endpoint \<Rightarrow> bool" where
  "runtime_endpoint_ok e \<longleftrightarrow> rt_endpoint_id e \<noteq> [] \<and>
     (rt_direction e = Render \<or> rt_direction e = Capture) \<and>
     (rt_backend e = WasapiBackend \<and> rt_device_group_id e = [] \<and> rt_sample_rate e = 0 \<and>
        rt_block_frames e = 0 \<or>
      rt_backend e = PhysicalAsioBackend \<and> rt_device_group_id e \<noteq> [] \<and>
        8000 \<le> rt_sample_rate e \<and> rt_sample_rate e \<le> 768000 \<and>
        rt_block_frames e \<noteq> 0 \<and> rt_block_frames e \<le> 65536) \<and>
     (rt_clock_master e \<longrightarrow> rt_direction e = Render) \<and>
     rt_channel_count e \<noteq> 0 \<and> unat (rt_first_channel e) + unat (rt_channel_count e) < 2 ^ 32"

lemma u32_range_fits: "(a :: u32) > - 1 - b \<longleftrightarrow> \<not> unat a + unat b < 2 ^ 32"
proof -
  have max: "unat (- 1 :: u32) = 2 ^ 32 - 1"
    by (simp add: unsigned_minus_1_eq_mask mask_eq_exp_minus_1)
  have "b \<le> - 1" by simp
  then have "unat (- 1 - b) = 2 ^ 32 - 1 - unat b"
    by (simp only: unat_sub max)
  moreover have "unat b < 2 ^ 32" using unsigned_less [of b] by simp
  ultimately show ?thesis unfolding word_less_nat_alt by auto
qed

lemma scan_endpoint_errors_Nil:
  "scan_endpoint_errors s e = [] \<longleftrightarrow> runtime_endpoint_ok e \<and>
     rt_endpoint_id e \<notin> rs_endpoint_ids s \<and> native_key e \<notin> rs_native s"
  unfolding scan_endpoint_errors_def append_is_Nil_conv if_singleton_Nil u32_range_fits
    runtime_endpoint_ok_def
  by (cases "rt_backend e") (auto simp: not_less)

lemma scan_endpoints_Nil:
  "fst (scan_endpoints s es) = [] \<longleftrightarrow> (\<forall>e \<in> set es. runtime_endpoint_ok e) \<and>
     fresh_from (rs_endpoint_ids s) (map rt_endpoint_id es) \<and>
     fresh_from (rs_native s) (map native_key es)"
proof (induction es arbitrary: s)
  case (Cons e es)
  show ?case
  proof (cases "runtime_endpoint_ok e")
    case True
    then have "rt_endpoint_id e \<noteq> []" by (simp add: runtime_endpoint_ok_def)
    with Cons True show ?thesis
      by (auto simp: case_prod_beta scan_endpoint_errors_Nil scan_endpoint_def)
  qed (simp add: case_prod_beta scan_endpoint_errors_Nil)
qed simp

definition asio_groups :: "runtime_endpoint list \<Rightarrow> string set" where
  "asio_groups es = rt_device_group_id ` {e \<in> set es. rt_backend e = PhysicalAsioBackend}"

lemma scan_endpoints_counts:
  "rs_render_count (snd (scan_endpoints s es)) =
     rs_render_count s + length (filter (\<lambda>e. rt_direction e = Render) es)"
  "rs_clock_masters (snd (scan_endpoints s es)) =
     rs_clock_masters s + length (filter rt_clock_master es)"
  "rs_groups (snd (scan_endpoints s es)) = rs_groups s \<union> asio_groups es"
  by (induction es arbitrary: s) (auto simp: case_prod_beta scan_endpoint_def asio_groups_def)

definition asio_pair_ok :: "runtime_endpoint list \<Rightarrow> runtime_endpoint \<Rightarrow> bool" where
  "asio_pair_ok es e \<longleftrightarrow> (rt_direction e = Render \<longrightarrow> rt_clock_master e) \<and>
     (\<exists>c. asio_counterpart es e = Some c \<and> rt_device_id c = rt_device_id e \<and>
        rt_sample_rate c = rt_sample_rate e \<and> rt_block_frames c = rt_block_frames e)"

definition matrix_endpoints_ok :: "runtime_endpoint list \<Rightarrow> bool" where
  "matrix_endpoints_ok es \<longleftrightarrow> (\<forall>e \<in> set es. runtime_endpoint_ok e) \<and>
     distinct (map rt_endpoint_id es) \<and> distinct (map native_key es) \<and>
     length (filter rt_clock_master es) = 1 \<and> card (asio_groups es) \<le> 1 \<and>
     (\<forall>e \<in> set es. rt_backend e = PhysicalAsioBackend \<longrightarrow> asio_pair_ok es e)"

lemma asio_group_errors_Nil:
  "asio_group_errors es e = [] \<longleftrightarrow> (rt_backend e = PhysicalAsioBackend \<longrightarrow> asio_pair_ok es e)"
  by (auto simp: asio_group_errors_def asio_pair_ok_def split: option.splits)

lemma clock_master_is_render:
  "\<forall>e \<in> set es. runtime_endpoint_ok e \<Longrightarrow> length (filter rt_clock_master es) = 1 \<Longrightarrow>
     length (filter (\<lambda>e. rt_direction e = Render) es) \<noteq> 0"
  by (auto simp: filter_eq_Cons_iff length_Suc_conv filter_empty_conv runtime_endpoint_ok_def)

lemma validate_matrix_endpoints_Nil: "validate_matrix_endpoints es = [] \<longleftrightarrow> matrix_endpoints_ok es"
proof -
  have "validate_matrix_endpoints es = [] \<longleftrightarrow>
      fst (scan_endpoints empty_scan es) = [] \<and>
      length (filter (\<lambda>e. rt_direction e = Render) es) \<noteq> 0 \<and>
      length (filter rt_clock_master es) = 1 \<and> card (asio_groups es) \<le> 1 \<and>
      (\<forall>e \<in> set es. asio_group_errors es e = [])"
    by (simp add: validate_matrix_endpoints_def case_prod_beta scan_endpoints_counts empty_scan_def
        not_less)
  also have "\<dots> \<longleftrightarrow> matrix_endpoints_ok es"
    using clock_master_is_render [of es]
    by (auto simp: scan_endpoints_Nil empty_scan_def matrix_endpoints_ok_def asio_group_errors_Nil)
  finally show ?thesis .
qed

lemma native_key_eq:
  assumes "runtime_endpoint_ok e" "runtime_endpoint_ok f"
  shows "native_key e = native_key f \<longleftrightarrow> rt_backend e = rt_backend f \<and>
    rt_direction e = rt_direction f \<and>
    (if rt_backend e = PhysicalAsioBackend then rt_device_group_id e = rt_device_group_id f
     else rt_device_id e = rt_device_id f)"
  using assms by (auto simp: native_key_def Let_def runtime_endpoint_ok_def)

section \<open>Command validation\<close>

definition validate_route_binding :: "control_command \<Rightarrow> sar_error list" where
  "validate_route_binding c =
     push_if (cc_input_id c = []) cmd_empty_route_input @
     push_if (cc_output_id c = []) cmd_empty_route_output"

fun validate_command_type :: "control_command_type \<Rightarrow> control_command \<Rightarrow> sar_error list" where
  "validate_command_type ConfigureVirtualAsioDevices c =
     push_if (cc_virtual_asio_devices c = [] \<or>
         length (cc_virtual_asio_devices c) > kMaximumVirtualAsioDevices)
       cmd_invalid_virtual_asio_device_count"
| "validate_command_type ConfigureAudioRuntime c =
     validate_audio_runtime_configuration (cc_audio_runtime c) False"
| "validate_command_type CreateVirtualEndpoint c =
     push_if (cc_endpoint_id c = []) cmd_empty_endpoint_id @
     push_if (cc_endpoint_label c = []) cmd_empty_endpoint_label"
| "validate_command_type RemoveVirtualEndpoint c =
     push_if (cc_endpoint_id c = []) cmd_empty_endpoint_id_2"
| "validate_command_type ConnectRoute c =
     validate_route_binding c @ push_if (\<not> f32_finite (cc_gain c)) cmd_invalid_route_gain"
| "validate_command_type SetGain c =
     validate_route_binding c @ push_if (\<not> f32_finite (cc_gain c)) cmd_invalid_route_gain"
| "validate_command_type DisconnectRoute c = validate_route_binding c"
| "validate_command_type SetMute c = validate_route_binding c"
| "validate_command_type LoadPreset c = validate_preset (cc_preset c)"
| "validate_command_type (UnnamedCommandType w) c = [cmd_unknown_command_type]"
| "validate_command_type _ c = []"

definition validate_command :: "control_command \<Rightarrow> sar_error list" where
  "validate_command c =
     push_if (cc_schema_version c = 0) cmd_invalid_schema_version @
     push_if (cc_command_id c = []) cmd_empty_command_id @
     validate_command_type (cc_type c) c"

fun control_command_mutates_preset :: "control_command_type \<Rightarrow> bool" where
  "control_command_mutates_preset ConnectRoute = True"
| "control_command_mutates_preset DisconnectRoute = True"
| "control_command_mutates_preset SetGain = True"
| "control_command_mutates_preset SetMute = True"
| "control_command_mutates_preset LoadPreset = True"
| "control_command_mutates_preset _ = False"

section \<open>Applying a command\<close>

definition is_route :: "string \<Rightarrow> string \<Rightarrow> preset_route \<Rightarrow> bool" where
  "is_route i out r \<longleftrightarrow> pr_input_id r = i \<and> pr_output_id r = out"

definition find_route :: "preset_route list \<Rightarrow> string \<Rightarrow> string \<Rightarrow> preset_route option" where
  "find_route rs i out = List.find (is_route i out) rs"

definition set_routes :: "preset_route list \<Rightarrow> preset_document \<Rightarrow> preset_document" where
  "set_routes rs p = p\<lparr>pd_matrix := (pd_matrix p)\<lparr>pm_routes := rs\<rparr>\<rparr>"

text \<open>The \<^verbatim>\<open>switch\<close> of \<open>apply_command\<close> on a copy of the current preset.\<close>

fun apply_route_edit :: "control_command_type \<Rightarrow> control_command \<Rightarrow> preset_document \<Rightarrow>
    sar_error list + preset_document" where
  "apply_route_edit ConnectRoute c p =
     (let rs = pm_routes (pd_matrix p)
      in if find_route rs (cc_input_id c) (cc_output_id c) \<noteq> None then Inl [cmd_duplicate_route]
         else Inr (set_routes (rs @ [\<lparr>pr_input_id = cc_input_id c, pr_output_id = cc_output_id c,
                pr_gain = cc_gain c, pr_muted = False\<rparr>]) p))"
| "apply_route_edit DisconnectRoute c p =
     (let rs = pm_routes (pd_matrix p)
      in if find_route rs (cc_input_id c) (cc_output_id c) = None then Inl [cmd_unknown_route]
         else Inr (set_routes (erase_first (is_route (cc_input_id c) (cc_output_id c)) rs) p))"
| "apply_route_edit SetGain c p =
     (let rs = pm_routes (pd_matrix p)
      in if find_route rs (cc_input_id c) (cc_output_id c) = None then Inl [cmd_unknown_route_2]
         else Inr (set_routes (update_first (is_route (cc_input_id c) (cc_output_id c))
                (\<lambda>r. r\<lparr>pr_gain := cc_gain c\<rparr>) rs) p))"
| "apply_route_edit SetMute c p =
     (let rs = pm_routes (pd_matrix p)
      in if find_route rs (cc_input_id c) (cc_output_id c) = None then Inl [cmd_unknown_route_3]
         else Inr (set_routes (update_first (is_route (cc_input_id c) (cc_output_id c))
                (\<lambda>r. r\<lparr>pr_muted := cc_mute c\<rparr>) rs) p))"
| "apply_route_edit _ c p = Inr p"

definition apply_command :: "preset_document \<Rightarrow> control_command \<Rightarrow>
    sar_error list + preset_document" where
  "apply_command current c =
     (let invalid = validate_command c
      in if invalid \<noteq> [] then Inl invalid
         else if cc_type c = LoadPreset then Inr (cc_preset c)
         else
           let current_errors = validate_preset current
           in if current_errors \<noteq> [] then Inl current_errors
              else case apply_route_edit (cc_type c) c current of
                Inl es \<Rightarrow> Inl es
              | Inr next \<Rightarrow>
                  (let next_errors = validate_preset next
                   in if next_errors \<noteq> [] then Inl next_errors else Inr next))"

section \<open>What applying a command does\<close>

lemma apply_command_wf: "apply_command current c = Inr p \<Longrightarrow> preset_wf p"
proof -
  assume "apply_command current c = Inr p"
  then have "validate_preset p = []"
    by (auto simp: apply_command_def Let_def validate_command_def split: if_splits sum.splits)
  then show ?thesis by (simp add: validate_preset_Nil)
qed

text \<open>
  The routes of a preset as a finite map from crosspoints to gain and mute flag, and the
  effect of the four edits on that map: \<open>None\<close> when the edit is refused.
\<close>

type_synonym route_map = "string \<times> string \<Rightarrow> (f32 \<times> bool) option"

definition routes_map :: "preset_document \<Rightarrow> route_map" where
  "routes_map p cp = map_option (\<lambda>r. (pr_gain r, pr_muted r))
     (find_route (pm_routes (pd_matrix p)) (fst cp) (snd cp))"

fun edit_map :: "control_command_type \<Rightarrow> control_command \<Rightarrow> route_map \<Rightarrow> route_map option" where
  "edit_map ConnectRoute c m =
     (case m (cc_input_id c, cc_output_id c) of
        None \<Rightarrow> Some (m((cc_input_id c, cc_output_id c) \<mapsto> (cc_gain c, False)))
      | Some _ \<Rightarrow> None)"
| "edit_map DisconnectRoute c m =
     (case m (cc_input_id c, cc_output_id c) of
        None \<Rightarrow> None
      | Some _ \<Rightarrow> Some (m((cc_input_id c, cc_output_id c) := None)))"
| "edit_map SetGain c m =
     (case m (cc_input_id c, cc_output_id c) of
        None \<Rightarrow> None
      | Some (g, mu) \<Rightarrow> Some (m((cc_input_id c, cc_output_id c) \<mapsto> (cc_gain c, mu))))"
| "edit_map SetMute c m =
     (case m (cc_input_id c, cc_output_id c) of
        None \<Rightarrow> None
      | Some (g, mu) \<Rightarrow> Some (m((cc_input_id c, cc_output_id c) \<mapsto> (g, cc_mute c))))"
| "edit_map _ c m = Some m"

definition is_route_edit :: "control_command_type \<Rightarrow> bool" where
  "is_route_edit ty \<longleftrightarrow> ty = ConnectRoute \<or> ty = DisconnectRoute \<or> ty = SetGain \<or> ty = SetMute"

lemma find_route_append:
  "find_route (rs @ [r]) i out =
     (case find_route rs i out of Some q \<Rightarrow> Some q | None \<Rightarrow> if is_route i out r then Some r else None)"
  unfolding find_route_def by (induction rs) auto

lemma find_route_erase:
  "distinct (map crosspoint rs) \<Longrightarrow> find_route (erase_first (is_route i out) rs) j out' =
     (if j = i \<and> out' = out then None else find_route rs j out')"
  unfolding find_route_def
  by (induction rs) (auto simp: find_None_iff_all is_route_def crosspoint_def image_iff)

lemma find_route_update:
  assumes "\<And>r. crosspoint (f r) = crosspoint r"
  shows "find_route (update_first (is_route i out) f rs) j out' =
     (if j = i \<and> out' = out then map_option f (find_route rs i out) else find_route rs j out')"
  using assms unfolding find_route_def
  by (induction rs) (auto simp: is_route_def crosspoint_def)

lemma find_route_Some: "find_route rs i out = Some r \<Longrightarrow> r \<in> set rs \<and> crosspoint r = (i, out)"
  unfolding find_route_def by (auto dest!: find_Some_iff_first simp: is_route_def crosspoint_def)

lemma set_routes_simps [simp]:
  "pm_routes (pd_matrix (set_routes rs p)) = rs"
  "pm_inputs (pd_matrix (set_routes rs p)) = pm_inputs (pd_matrix p)"
  "pm_outputs (pd_matrix (set_routes rs p)) = pm_outputs (pd_matrix p)"
  "pd_schema_version (set_routes rs p) = pd_schema_version p"
  "pd_sample_rate (set_routes rs p) = pd_sample_rate p"
  "pd_frames_per_block (set_routes rs p) = pd_frames_per_block p"
  "pd_nodes (set_routes rs p) = pd_nodes p"
  by (simp_all add: set_routes_def)

lemma crosspoint_updates [simp]:
  "crosspoint (r\<lparr>pr_gain := g\<rparr>) = crosspoint r" "crosspoint (r\<lparr>pr_muted := b\<rparr>) = crosspoint r"
  by (simp_all add: crosspoint_def)

lemma apply_route_edit_map:
  assumes "distinct (map crosspoint (pm_routes (pd_matrix p)))"
  shows "case apply_route_edit ty c p of
      Inl es \<Rightarrow> es \<noteq> [] \<and> edit_map ty c (routes_map p) = None
    | Inr q \<Rightarrow> edit_map ty c (routes_map p) = Some (routes_map q) \<and>
        (\<exists>rs. q = set_routes rs p)"
proof (cases "is_route_edit ty")
  case True
  then consider "ty = ConnectRoute" | "ty = DisconnectRoute" | "ty = SetGain" | "ty = SetMute"
    by (auto simp: is_route_edit_def)
  then show ?thesis
    using assms
    by cases (auto simp: Let_def routes_map_def fun_eq_iff find_route_append find_route_erase
        find_route_update is_route_def split: option.splits)
next
  case False
  have "set_routes (pm_routes (pd_matrix p)) p = p" by (simp add: set_routes_def)
  then have "\<exists>rs. p = set_routes rs p" by metis
  with False show ?thesis by (cases ty) (auto simp: is_route_edit_def)
qed

text \<open>An edit of an existing route keeps the preset valid.\<close>

lemma preset_wf_set_routes:
  assumes "preset_wf p" "length rs \<le> length (pm_routes (pd_matrix p))"
    and "\<forall>r \<in> set rs. crosspoint r \<in> crosspoint ` set (pm_routes (pd_matrix p)) \<and> f32_finite (pr_gain r)"
    and "distinct (map route_key rs)"
  shows "preset_wf (set_routes rs p)"
proof -
  have "pr_input_id r \<in> re_id ` set (pm_inputs (pd_matrix p)) \<and>
      pr_output_id r \<in> re_id ` set (pm_outputs (pd_matrix p))" if "r \<in> set rs" for r
  proof -
    from assms(3) that obtain q where "q \<in> set (pm_routes (pd_matrix p))" "crosspoint r = crosspoint q"
      by (auto simp: image_iff)
    with assms(1) show ?thesis by (auto simp: preset_wf_def crosspoint_def)
  qed
  with assms show ?thesis by (simp add: preset_wf_def)
qed

lemma route_key_updates [simp]:
  "route_key (r\<lparr>pr_gain := g\<rparr>) = route_key r" "route_key (r\<lparr>pr_muted := b\<rparr>) = route_key r"
  by (simp_all add: route_key_def)

lemma apply_route_edit_wf:
  assumes "preset_wf p" "validate_command c = []" "cc_type c = ty"
    and "ty = DisconnectRoute \<or> ty = SetGain \<or> ty = SetMute" "apply_route_edit ty c p = Inr q"
  shows "preset_wf q"
proof -
  let ?rs = "pm_routes (pd_matrix p)" and ?P = "is_route (cc_input_id c) (cc_output_id c)"
  have wf: "\<forall>r \<in> set ?rs. f32_finite (pr_gain r)" "distinct (map route_key ?rs)"
    using assms(1) by (auto simp: preset_wf_def)
  consider "ty = DisconnectRoute" | "ty = SetGain" | "ty = SetMute" using assms(4) by blast
  then show ?thesis
  proof cases
    case 1
    then have "q = set_routes (erase_first ?P ?rs) p" using assms(5) by (auto simp: Let_def split: if_splits)
    then show ?thesis
      using assms(1) wf length_erase_first [of ?P ?rs] set_erase_first [of ?P ?rs]
      by (auto intro!: preset_wf_set_routes distinct_erase_first)
  next
    case 2
    then have "f32_finite (cc_gain c)"
      using assms(2,3) by (simp add: validate_command_def)
    moreover have "q = set_routes (update_first ?P (\<lambda>r. r\<lparr>pr_gain := cc_gain c\<rparr>) ?rs) p"
      using 2 assms(5) by (auto simp: Let_def split: if_splits)
    ultimately show ?thesis
      using assms(1) wf set_update_first [of ?P "\<lambda>r. r\<lparr>pr_gain := cc_gain c\<rparr>" ?rs]
      by (auto intro!: preset_wf_set_routes simp: map_update_first)
  next
    case 3
    then have "q = set_routes (update_first ?P (\<lambda>r. r\<lparr>pr_muted := cc_mute c\<rparr>) ?rs) p"
      using assms(5) by (auto simp: Let_def split: if_splits)
    then show ?thesis
      using assms(1) wf set_update_first [of ?P "\<lambda>r. r\<lparr>pr_muted := cc_mute c\<rparr>" ?rs]
      by (auto intro!: preset_wf_set_routes simp: map_update_first)
  qed
qed

lemma apply_command_edit:
  assumes "preset_wf current" "validate_command c = []" "is_route_edit (cc_type c)"
  shows "case apply_command current c of
      Inr p \<Rightarrow> edit_map (cc_type c) c (routes_map current) = Some (routes_map p) \<and>
        (\<exists>rs. p = set_routes rs current)
    | Inl es \<Rightarrow> es \<noteq> [] \<and>
        (cc_type c \<noteq> ConnectRoute \<longrightarrow> edit_map (cc_type c) c (routes_map current) = None)"
proof -
  have "distinct (map crosspoint (pm_routes (pd_matrix current)))"
    using assms(1) by (auto simp: preset_wf_def intro: distinct_route_key)
  note map = apply_route_edit_map [OF this, of "cc_type c" c]
  have unfold: "apply_command current c = (case apply_route_edit (cc_type c) c current of
      Inl es \<Rightarrow> Inl es
    | Inr next \<Rightarrow> if validate_preset next \<noteq> [] then Inl (validate_preset next) else Inr next)"
    using assms by (auto simp: apply_command_def Let_def validate_preset_Nil is_route_edit_def
        split: sum.splits)
  show ?thesis
  proof (cases "apply_route_edit (cc_type c) c current")
    case (Inl es)
    with map show ?thesis by (simp add: unfold)
  next
    case (Inr q)
    moreover have "preset_wf q" if "cc_type c \<noteq> ConnectRoute"
      using apply_route_edit_wf [OF assms(1,2) refl _ Inr] assms(3) that
      by (auto simp: is_route_edit_def)
    ultimately show ?thesis
      using map by (cases "validate_preset q = []") (auto simp: unfold validate_preset_Nil)
  qed
qed

section \<open>Properties\<close>

text \<open>
  A matrix runtime configuration is accepted exactly when every endpoint is complete and its
  channel range fits 32 bits, endpoint ids and native devices are unique per direction, exactly
  one endpoint is the clock master, and there is at most one ASIO driver group, whose capture
  and render sides agree.
\<close>

theorem matrix_endpoints_validation: "validate_matrix_endpoints es = [] \<longleftrightarrow> matrix_endpoints_ok es"
  by (rule validate_matrix_endpoints_Nil)

text \<open>
  The document a command produces is always a valid preset, whatever the command and the
  document it is applied to.
\<close>

theorem applied_preset_valid:
  assumes "apply_command current c = Inr p"
  shows "preset_wf p"
  using assms by (rule apply_command_wf)

definition demo_gain_command :: control_command where
  "demo_gain_command = default_command\<lparr>cc_command_id := ''g'', cc_type := SetGain, cc_input_id := ''in'',
     cc_output_id := ''out'', cc_gain := 0x3F000000\<rparr>"

definition demo_preset_half :: preset_document where
  "demo_preset_half = set_routes [\<lparr>pr_input_id = ''in'', pr_output_id = ''out'', pr_gain = 0x3F000000,
     pr_muted = False\<rparr>] demo_preset"

lemma demo_gain_command_valid: "validate_command demo_gain_command = []"
  by (simp add: demo_gain_command_def default_command_def validate_command_def validate_route_binding_def
      f32_finite_def)

lemma demo_gain_applies: "apply_command demo_preset demo_gain_command = Inr demo_preset_half"
proof -
  have edit: "apply_route_edit SetGain demo_gain_command demo_preset = Inr demo_preset_half"
    by (simp add: demo_preset_def demo_gain_command_def demo_preset_half_def set_routes_def find_route_def
        is_route_def)
  have ty: "cc_type demo_gain_command = SetGain" by (simp add: demo_gain_command_def)
  have "preset_wf demo_preset_half"
    using apply_route_edit_wf [OF demo_preset_wf(1) demo_gain_command_valid ty _ edit] by simp
  then have "validate_preset demo_preset_half = []" "validate_preset demo_preset = []"
    using demo_preset_wf(1) by (simp_all add: validate_preset_Nil)
  then show ?thesis
    unfolding apply_command_def Let_def demo_gain_command_valid ty edit by simp
qed

theorem applied_preset_valid_witness:
  "apply_command demo_preset demo_gain_command = Inr demo_preset_half \<and> preset_wf demo_preset_half"
  using applied_preset_valid [OF demo_gain_applies] demo_gain_applies by blast

text \<open>
  On a valid preset, connecting, disconnecting, setting the gain and muting act on the
  routes as the corresponding update of a finite map from crosspoints to gain and mute flag,
  touch nothing else of the preset, and are refused when that update is (a connection may also
  be refused because the result would not be a valid preset).
\<close>

theorem route_edits_refine_map:
  assumes "preset_wf current" "validate_command c = []" "is_route_edit (cc_type c)"
  shows "case apply_command current c of
      Inr p \<Rightarrow> edit_map (cc_type c) c (routes_map current) = Some (routes_map p) \<and>
        (\<exists>rs. p = set_routes rs current)
    | Inl es \<Rightarrow> es \<noteq> [] \<and>
        (cc_type c \<noteq> ConnectRoute \<longrightarrow> edit_map (cc_type c) c (routes_map current) = None)"
  using assms by (rule apply_command_edit)

theorem route_edits_refine_map_witness:
  "routes_map demo_preset_half (''in'', ''out'') = Some (0x3F000000, False)"
proof -
  have "is_route_edit (cc_type demo_gain_command)"
    by (simp add: is_route_edit_def demo_gain_command_def)
  from route_edits_refine_map [OF demo_preset_wf(1) demo_gain_command_valid this]
  have "edit_map (cc_type demo_gain_command) demo_gain_command (routes_map demo_preset) =
      Some (routes_map demo_preset_half)"
    by (simp only: demo_gain_applies sum.case)
  moreover have "routes_map demo_preset (''in'', ''out'') = Some (0x3F800000, False)"
    by (simp add: routes_map_def demo_preset_def find_route_def is_route_def)
  moreover have "cc_type demo_gain_command = SetGain" "cc_input_id demo_gain_command = ''in''"
    "cc_output_id demo_gain_command = ''out''" "cc_gain demo_gain_command = 0x3F000000"
    by (simp_all add: demo_gain_command_def)
  ultimately have "(routes_map demo_preset)((''in'', ''out'') \<mapsto> (0x3F000000, False)) =
      routes_map demo_preset_half" by simp
  from fun_cong [OF this, of "(''in'', ''out'')"] show ?thesis by simp
qed

end
