(* ===== verification/AudioDevice.thy ===== *)
theory AudioDevice
  imports Errors
begin

text \<open>
  \<^verbatim>\<open>core/platform/audio_device.{h,cpp}\<close>, \<^verbatim>\<open>audio_device_registry.cpp\<close> and
  \<^verbatim>\<open>virtual_endpoint.{h,cpp}\<close>: device descriptors and their validation, the merge of the
  device lists of several providers, and the registry of virtual endpoints with its add and
  remove operations. The registry's contract is the locale \<open>keyed_registry\<close>, interpreted
  here on the registry itself.
\<close>

section \<open>Device descriptors\<close>

datatype audio_backend_kind =
  Wasapi | WasapiLoopback | Asio | VirtualWasapi | VirtualAsio | Mock

datatype audio_device_direction = Input | Output | Duplex

datatype audio_sample_format = Unknown | PcmInt | IeeeFloat

record audio_format =
  af_sample_rate :: u32
  af_channels :: u32
  af_frames_per_block :: u32
  af_bits_per_sample :: u32
  af_valid_bits_per_sample :: u32
  af_sample_format :: audio_sample_format

definition default_audio_format :: audio_format where
  "default_audio_format =
     \<lparr>af_sample_rate = 48000, af_channels = 2, af_frames_per_block = 128,
      af_bits_per_sample = 32, af_valid_bits_per_sample = 0, af_sample_format = IeeeFloat\<rparr>"

record audio_device =
  ad_id :: string
  ad_label :: string
  ad_backend :: audio_backend_kind
  ad_direction :: audio_device_direction
  ad_formats :: "audio_format list"
  ad_is_default :: bool
  ad_is_virtual :: bool
  ad_input_channels :: u32
  ad_output_channels :: u32

text \<open>The in-class member initialisers of \<^verbatim>\<open>AudioDeviceDescriptor\<close>.\<close>

definition default_audio_device :: audio_device where
  "default_audio_device =
     \<lparr>ad_id = [], ad_label = [], ad_backend = Mock, ad_direction = Duplex, ad_formats = [],
      ad_is_default = False, ad_is_virtual = False, ad_input_channels = 0,
      ad_output_channels = 0\<rparr>"

text \<open>
  \<^verbatim>\<open>AudioDeviceListResult\<close>: a result is \<open>ok\<close> exactly when it has no errors, and a failure
  carries no devices.
\<close>

type_synonym device_list_result = "sar_error list + audio_device list"

definition list_result :: "sar_error list \<Rightarrow> audio_device list \<Rightarrow> device_list_result" where
  "list_result errors devices = (if errors \<noteq> [] then Inl errors else Inr devices)"

section \<open>Validation of device lists\<close>

definition validate_audio_format :: "audio_format \<Rightarrow> sar_error list" where
  "validate_audio_format f =
     push_if (af_sample_rate f = 0) dev_invalid_sample_rate @
     push_if (af_channels f = 0) dev_invalid_channel_count @
     push_if (af_frames_per_block f = 0) dev_invalid_frames_per_block @
     push_if (af_bits_per_sample f = 0) dev_invalid_bits_per_sample @
     push_if (af_sample_format f = Unknown) dev_invalid_sample_format @
     push_if (af_valid_bits_per_sample f > af_bits_per_sample f) dev_invalid_valid_bits_per_sample"

fun validate_audio_devices_from :: "string set \<Rightarrow> audio_device list \<Rightarrow> sar_error list" where
  "validate_audio_devices_from ids [] = []"
| "validate_audio_devices_from ids (d # ds) =
     (if ad_id d = [] then [dev_empty_device_id]
      else push_if (ad_id d \<in> ids) dev_duplicate_device_id) @
     push_if (ad_label d = []) dev_empty_device_label @
     push_if (ad_formats d = []) dev_empty_device_formats @
     concat (map validate_audio_format (ad_formats d)) @
     validate_audio_devices_from (if ad_id d = [] then ids else insert (ad_id d) ids) ds"

definition validate_audio_devices :: "audio_device list \<Rightarrow> sar_error list" where
  "validate_audio_devices ds = validate_audio_devices_from {} ds"

text \<open>What the validation means.\<close>

definition format_ok :: "audio_format \<Rightarrow> bool" where
  "format_ok f \<longleftrightarrow> af_sample_rate f \<noteq> 0 \<and> af_channels f \<noteq> 0 \<and> af_frames_per_block f \<noteq> 0 \<and>
     af_bits_per_sample f \<noteq> 0 \<and> af_sample_format f \<noteq> Unknown \<and>
     af_valid_bits_per_sample f \<le> af_bits_per_sample f"

definition device_ok :: "audio_device \<Rightarrow> bool" where
  "device_ok d \<longleftrightarrow> ad_id d \<noteq> [] \<and> ad_label d \<noteq> [] \<and> ad_formats d \<noteq> [] \<and>
     (\<forall>f \<in> set (ad_formats d). format_ok f)"

lemma validate_audio_format_Nil: "validate_audio_format f = [] \<longleftrightarrow> format_ok f"
  by (auto simp: validate_audio_format_def format_ok_def)

lemma validate_audio_devices_from_Nil:
  "validate_audio_devices_from ids ds = [] \<longleftrightarrow>
     (\<forall>d \<in> set ds. device_ok d) \<and> fresh_from ids (map ad_id ds)"
  by (induction ds arbitrary: ids)
     (auto simp: device_ok_def validate_audio_format_Nil split: if_splits)

lemma validate_audio_devices_Nil:
  "validate_audio_devices ds = [] \<longleftrightarrow> (\<forall>d \<in> set ds. device_ok d) \<and> distinct (map ad_id ds)"
  by (simp add: validate_audio_devices_def validate_audio_devices_from_Nil)

section \<open>Merging the lists of several providers\<close>

text \<open>
  \<^verbatim>\<open>AudioDeviceRegistry::list_devices\<close>. A provider is an interface of the code
  (\<^verbatim>\<open>AudioDeviceProvider\<close>, implemented over WASAPI, ASIO and mocks); the registry sees only
  the result each provider returns.
\<close>

definition registry_devices :: "device_list_result list \<Rightarrow> audio_device list" where
  "registry_devices results =
     concat (map (\<lambda>r. case r of Inl _ \<Rightarrow> [] | Inr ds \<Rightarrow> ds) results)"

definition registry_provider_errors :: "device_list_result list \<Rightarrow> sar_error list" where
  "registry_provider_errors results =
     concat (map (\<lambda>r. case r of Inl es \<Rightarrow> es | Inr _ \<Rightarrow> []) results)"

definition registry_list_devices :: "device_list_result list \<Rightarrow> device_list_result" where
  "registry_list_devices results =
     (let devices = registry_devices results;
          errors = registry_provider_errors results @ validate_audio_devices devices
      in list_result errors devices)"

section \<open>Virtual endpoints\<close>

record virtual_endpoint =
  ve_id :: string
  ve_label :: string
  ve_backend :: audio_backend_kind
  ve_direction :: audio_device_direction
  ve_format :: audio_format

definition is_virtual_backend :: "audio_backend_kind \<Rightarrow> bool" where
  "is_virtual_backend b \<longleftrightarrow> b = VirtualAsio \<or> b = VirtualWasapi"

definition to_audio_device :: "virtual_endpoint \<Rightarrow> audio_device" where
  "to_audio_device e =
     default_audio_device\<lparr>ad_id := ve_id e, ad_label := ve_label e, ad_backend := ve_backend e,
       ad_direction := ve_direction e, ad_formats := [ve_format e], ad_is_virtual := True\<rparr>"

definition validate_virtual_endpoint :: "virtual_endpoint \<Rightarrow> sar_error list" where
  "validate_virtual_endpoint e =
     push_if (ve_id e = []) vep_empty_endpoint_id @
     push_if (ve_label e = []) vep_empty_endpoint_label @
     push_if (\<not> is_virtual_backend (ve_backend e)) vep_invalid_virtual_backend @
     push_if (af_sample_rate (ve_format e) = 0) vep_invalid_sample_rate @
     push_if (af_channels (ve_format e) = 0) vep_invalid_channel_count @
     push_if (af_frames_per_block (ve_format e) = 0) vep_invalid_frames_per_block"

type_synonym vep_registry = "virtual_endpoint list"

text \<open>Each operation returns the errors (none for success) and the registry afterwards.\<close>

definition add_endpoint :: "virtual_endpoint \<Rightarrow> vep_registry \<Rightarrow> sar_error list \<times> vep_registry" where
  "add_endpoint e reg =
     (let errors = validate_virtual_endpoint e
      in if errors \<noteq> [] then (errors, reg)
         else case List.find (\<lambda>x. ve_id x = ve_id e) reg of
           Some _ \<Rightarrow> ([vep_duplicate_endpoint_id], reg)
         | None \<Rightarrow> ([], reg @ [e]))"

definition remove_endpoint :: "string \<Rightarrow> vep_registry \<Rightarrow> sar_error list \<times> vep_registry" where
  "remove_endpoint i reg =
     (case List.find (\<lambda>x. ve_id x = i) reg of
        None \<Rightarrow> ([vep_unknown_endpoint_id], reg)
      | Some _ \<Rightarrow> ([], erase_first (\<lambda>x. ve_id x = i) reg))"

definition vep_list_devices :: "vep_registry \<Rightarrow> device_list_result" where
  "vep_list_devices reg =
     (let devices = map to_audio_device reg
      in list_result (validate_audio_devices devices) devices)"

section \<open>The registry contract\<close>

text \<open>
  A registry keyed by an identifier: what a client of \<^verbatim>\<open>VirtualEndpointRegistry\<close> may rely
  on. \<open>look s\<close> is the finite map the registry stands for.
\<close>

locale keyed_registry =
  fixes add :: "'e \<Rightarrow> 's \<Rightarrow> 'err list \<times> 's"
    and remove :: "'k \<Rightarrow> 's \<Rightarrow> 'err list \<times> 's"
    and look :: "'s \<Rightarrow> 'k \<Rightarrow> 'e option"
    and key :: "'e \<Rightarrow> 'k"
    and valid :: "'e \<Rightarrow> bool"
    and inv :: "'s \<Rightarrow> bool"
  assumes add_accepts: "inv s \<Longrightarrow> fst (add e s) = [] \<longleftrightarrow> valid e \<and> look s (key e) = None"
    and add_effect: "inv s \<Longrightarrow> fst (add e s) = [] \<Longrightarrow> look (snd (add e s)) = (look s)(key e \<mapsto> e)"
    and add_refused: "fst (add e s) \<noteq> [] \<Longrightarrow> snd (add e s) = s"
    and remove_accepts: "inv s \<Longrightarrow> fst (remove k s) = [] \<longleftrightarrow> look s k \<noteq> None"
    and remove_effect: "inv s \<Longrightarrow> fst (remove k s) = [] \<Longrightarrow> look (snd (remove k s)) = (look s)(k := None)"
    and remove_refused: "fst (remove k s) \<noteq> [] \<Longrightarrow> snd (remove k s) = s"
    and inv_add: "inv s \<Longrightarrow> inv (snd (add e s))"
    and inv_remove: "inv s \<Longrightarrow> inv (snd (remove k s))"
begin

lemma look_add:
  "inv s \<Longrightarrow> look (snd (add e s)) =
     (if valid e \<and> look s (key e) = None then (look s)(key e \<mapsto> e) else look s)"
  using add_accepts add_effect add_refused by metis

lemma look_remove: "inv s \<Longrightarrow> look (snd (remove k s)) = (look s)(k := None)"
  by (metis fun_upd_triv remove_accepts remove_effect remove_refused)

lemma remove_after_add:
  assumes "inv s" and "fst (add e s) = []"
  shows "look (snd (remove (key e) (snd (add e s)))) = look s"
proof -
  from assms have "look s (key e) = None" by (simp add: add_accepts)
  then have "(look s)(key e := None) = look s" by (rule fun_upd_idem)
  with assms show ?thesis by (simp add: look_remove inv_add add_effect)
qed

lemma add_twice_refused:
  "inv s \<Longrightarrow> fst (add e s) = [] \<Longrightarrow> key e' = key e \<Longrightarrow> fst (add e' (snd (add e s))) \<noteq> []"
  by (simp add: add_accepts add_effect inv_add)

end

section \<open>The virtual endpoint registry keeps the contract\<close>

definition vep_look :: "vep_registry \<Rightarrow> string \<Rightarrow> virtual_endpoint option" where
  "vep_look reg i = List.find (\<lambda>x. ve_id x = i) reg"

definition vep_valid :: "virtual_endpoint \<Rightarrow> bool" where
  "vep_valid e \<longleftrightarrow> validate_virtual_endpoint e = []"

definition vep_inv :: "vep_registry \<Rightarrow> bool" where
  "vep_inv reg \<longleftrightarrow> (\<forall>e \<in> set reg. vep_valid e) \<and> distinct (map ve_id reg)"

lemma vep_inv_empty [simp]: "vep_inv []"
  by (simp add: vep_inv_def)

lemma find_append_one:
  "List.find P (xs @ [x]) =
     (case List.find P xs of Some y \<Rightarrow> Some y | None \<Rightarrow> if P x then Some x else None)"
  by (induction xs) auto

lemma find_erase_first:
  assumes "distinct (map g xs)"
  shows "List.find (\<lambda>x. g x = j) (erase_first (\<lambda>x. g x = k) xs) =
    (if j = k then None else List.find (\<lambda>x. g x = j) xs)"
  using assms by (induction xs) (auto simp: find_None_iff_all image_iff)

lemma add_endpoint_simps:
  "fst (add_endpoint e reg) = [] \<longleftrightarrow> vep_valid e \<and> vep_look reg (ve_id e) = None"
  "snd (add_endpoint e reg) =
     (if vep_valid e \<and> vep_look reg (ve_id e) = None then reg @ [e] else reg)"
  by (auto simp: add_endpoint_def vep_valid_def vep_look_def Let_def split: option.splits)

lemma remove_endpoint_simps:
  "fst (remove_endpoint i reg) = [] \<longleftrightarrow> vep_look reg i \<noteq> None"
  "snd (remove_endpoint i reg) =
     (if vep_look reg i = None then reg else erase_first (\<lambda>x. ve_id x = i) reg)"
  by (auto simp: remove_endpoint_def vep_look_def split: option.splits)

interpretation vep: keyed_registry add_endpoint remove_endpoint vep_look ve_id vep_valid vep_inv
proof unfold_locales
  fix s :: vep_registry and e :: virtual_endpoint and k :: string
  show "fst (add_endpoint e s) = [] \<longleftrightarrow> vep_valid e \<and> vep_look s (ve_id e) = None"
    by (rule add_endpoint_simps)
  show "vep_look (snd (add_endpoint e s)) = (vep_look s)(ve_id e \<mapsto> e)"
    if "fst (add_endpoint e s) = []"
    using that by (auto simp: add_endpoint_simps vep_look_def find_append_one fun_eq_iff
        split: option.splits)
  show "snd (add_endpoint e s) = s" if "fst (add_endpoint e s) \<noteq> []"
    using that unfolding add_endpoint_simps by simp
  show "fst (remove_endpoint k s) = [] \<longleftrightarrow> vep_look s k \<noteq> None"
    by (rule remove_endpoint_simps)
  show "vep_look (snd (remove_endpoint k s)) = (vep_look s)(k := None)"
    if "vep_inv s" "fst (remove_endpoint k s) = []"
    using that by (auto simp: remove_endpoint_simps vep_look_def vep_inv_def find_erase_first)
  show "snd (remove_endpoint k s) = s" if "fst (remove_endpoint k s) \<noteq> []"
    using that unfolding remove_endpoint_simps by simp
  show "vep_inv (snd (add_endpoint e s))" if "vep_inv s"
    using that by (auto simp: add_endpoint_simps vep_inv_def vep_look_def find_None_iff_all)
  show "vep_inv (snd (remove_endpoint k s))" if "vep_inv s"
    using that set_erase_first by (fastforce simp: remove_endpoint_simps vep_inv_def
        distinct_erase_first)
qed

text \<open>
  An endpoint is listable when its format also passes the device validation, which checks
  more than the endpoint validation does (bit depths and the sample format).
\<close>

definition vep_listable :: "virtual_endpoint \<Rightarrow> bool" where
  "vep_listable e \<longleftrightarrow> vep_valid e \<and> af_bits_per_sample (ve_format e) \<noteq> 0 \<and>
     af_sample_format (ve_format e) \<noteq> Unknown \<and>
     af_valid_bits_per_sample (ve_format e) \<le> af_bits_per_sample (ve_format e)"

lemma vep_listable_device_ok: "vep_listable e \<Longrightarrow> device_ok (to_audio_device e)"
  by (auto simp: vep_listable_def vep_valid_def validate_virtual_endpoint_def device_ok_def
      format_ok_def to_audio_device_def default_audio_device_def)

lemma ad_id_to_audio_device [simp]: "ad_id (to_audio_device e) = ve_id e"
  by (simp add: to_audio_device_def)

lemma vep_list_devices_ok:
  assumes "vep_inv reg" and "\<forall>e \<in> set reg. vep_listable e"
  shows "vep_list_devices reg = Inr (map to_audio_device reg)"
  using assms
  by (simp add: vep_list_devices_def list_result_def validate_audio_devices_Nil vep_inv_def
      vep_listable_device_ok o_def)

section \<open>Properties\<close>

text \<open>
  A device list passes the validation exactly when every device has an id, a label and at
  least one format, every format is complete, and no two devices share an id.
\<close>

theorem device_validation_complete:
  "validate_audio_devices ds = [] \<longleftrightarrow> (\<forall>d \<in> set ds. device_ok d) \<and> distinct (map ad_id ds)"
  by (rule validate_audio_devices_Nil)

definition mock_device :: "string \<Rightarrow> audio_device" where
  "mock_device i = default_audio_device\<lparr>ad_id := i, ad_label := ''label'', ad_formats := [default_audio_format]\<rparr>"

theorem device_validation_complete_witness:
  "validate_audio_devices [mock_device ''a'', mock_device ''b''] = [] \<and>
   validate_audio_devices [mock_device ''a'', mock_device ''a''] \<noteq> []"
  unfolding device_validation_complete
  by (simp add: mock_device_def device_ok_def format_ok_def default_audio_device_def
      default_audio_format_def)

text \<open>
  The registry returns a device list exactly when every provider succeeded and the
  concatenation of their lists is valid; then it is that concatenation, in provider order.
\<close>

theorem registry_merges_all_or_fails:
  assumes "Inl [] \<notin> set results"
  shows "registry_list_devices results = Inr ds \<longleftrightarrow>
     (\<exists>dss. results = map Inr dss \<and> ds = concat dss) \<and> validate_audio_devices ds = []"
proof -
  have ok: "registry_provider_errors results = [] \<longleftrightarrow> (\<exists>dss. results = map Inr dss)"
    using assms
  proof (induction results)
    case (Cons r rs)
    then show ?case
      by (cases r) (auto simp: registry_provider_errors_def Cons_eq_map_conv)
  qed (simp add: registry_provider_errors_def)
  have all: "registry_devices (map Inr dss) = concat dss" for dss
    by (simp add: registry_devices_def o_def)
  show ?thesis
    using ok all by (auto simp: registry_list_devices_def list_result_def Let_def)
qed

theorem registry_merges_all_or_fails_witness:
  "registry_list_devices [Inr [mock_device ''a''], Inr [mock_device ''b'']] =
     Inr [mock_device ''a'', mock_device ''b'']"
  using registry_merges_all_or_fails [of "[Inr [mock_device ''a''], Inr [mock_device ''b'']]"
      "[mock_device ''a'', mock_device ''b'']"]
  by (simp add: validate_audio_devices_def validate_audio_format_def mock_device_def
      default_audio_device_def default_audio_format_def map_eq_Cons_conv exI [of _ "[[_], [_]]"])

text \<open>
  Adding a virtual endpoint succeeds exactly when it is valid and its id is new, and then
  the registry maps that id to it; a refused endpoint changes nothing.
\<close>

theorem endpoint_add_updates_map:
  assumes "vep_inv reg"
  shows "(fst (add_endpoint e reg) = [] \<longleftrightarrow> vep_valid e \<and> vep_look reg (ve_id e) = None) \<and>
    vep_look (snd (add_endpoint e reg)) =
      (if vep_valid e \<and> vep_look reg (ve_id e) = None then (vep_look reg)(ve_id e \<mapsto> e) else vep_look reg) \<and>
    vep_inv (snd (add_endpoint e reg))"
  using vep.add_accepts [OF assms] vep.look_add [OF assms] vep.inv_add [OF assms] by blast

definition demo_endpoint :: "string \<Rightarrow> virtual_endpoint" where
  "demo_endpoint i = \<lparr>ve_id = i, ve_label = ''demo'', ve_backend = VirtualAsio, ve_direction = Duplex,
     ve_format = default_audio_format\<rparr>"

theorem endpoint_add_updates_map_witness:
  "fst (add_endpoint (demo_endpoint ''a'') []) = [] \<and> vep_inv (snd (add_endpoint (demo_endpoint ''a'') []))"
  using endpoint_add_updates_map [of "[]" "demo_endpoint ''a''"]
  by (simp add: vep_valid_def validate_virtual_endpoint_def demo_endpoint_def vep_look_def
      is_virtual_backend_def default_audio_format_def)

text \<open>
  Removing an endpoint that was just added gives back the registry's map, and an endpoint
  whose id was just added is refused.
\<close>

theorem endpoint_remove_undoes_add:
  assumes "vep_inv reg" "fst (add_endpoint e reg) = []" "ve_id e' = ve_id e"
  shows "vep_look (snd (remove_endpoint (ve_id e) (snd (add_endpoint e reg)))) = vep_look reg \<and>
    fst (add_endpoint e' (snd (add_endpoint e reg))) \<noteq> []"
  using vep.remove_after_add [OF assms(1,2)] vep.add_twice_refused [OF assms] by blast

theorem endpoint_remove_undoes_add_witness:
  "vep_look (snd (remove_endpoint ''a'' (snd (add_endpoint (demo_endpoint ''a'') [])))) = vep_look []"
proof -
  have "fst (add_endpoint (demo_endpoint ''a'') []) = []"
    by (simp add: add_endpoint_def validate_virtual_endpoint_def demo_endpoint_def
        is_virtual_backend_def default_audio_format_def)
  from endpoint_remove_undoes_add [OF vep_inv_empty this refl] show ?thesis by (simp add: demo_endpoint_def)
qed

end
