(* ===== verification/ControlResponse.thy ===== *)
theory ControlResponse
  imports ControlCommand AudioDevice
begin

text \<open>
  \<^verbatim>\<open>core/control/control_response.{h,cpp}\<close> and \<^verbatim>\<open>core/diagnostics/engine_diagnostics.h\<close>: the
  response record of the control plane and its constructor functions.
\<close>

section \<open>Diagnostics\<close>

record engine_diagnostics =
  ed_graph_version :: u64
  ed_processed_blocks :: u64
  ed_xrun_count :: u64
  ed_capture_fifo_fill_frames :: u64
  ed_render_fifo_fill_frames :: u64
  ed_capture_fifo_overflow_cycles :: u64
  ed_capture_fifo_overflow_frames :: u64
  ed_render_fifo_overflow_cycles :: u64
  ed_render_fifo_overflow_frames :: u64
  ed_render_fifo_underflow_cycles :: u64
  ed_render_fifo_underflow_frames :: u64
  ed_va_pushed_blocks :: u64
  ed_va_dropped_blocks :: u64
  ed_va_producer_underflows :: u64
  ed_va_producer_overflows :: u64
  ed_va_consumed_blocks :: u64
  ed_va_mixed_blocks :: u64
  ed_va_silent_reads :: u64
  ed_va_clipped_samples :: u64
  ed_va_non_finite_samples :: u64
  ed_va_maximum_queue_depth :: u64
  ed_va_active_producers :: u64
  ed_import_failures :: u64
  ed_export_failures :: u64
  ed_last_callback_seconds :: f64
  ed_peak_callback_seconds :: f64
  ed_va_peak :: f64

definition default_diagnostics :: engine_diagnostics where
  "default_diagnostics = \<lparr>ed_graph_version = 0, ed_processed_blocks = 0, ed_xrun_count = 0,
     ed_capture_fifo_fill_frames = 0, ed_render_fifo_fill_frames = 0,
     ed_capture_fifo_overflow_cycles = 0, ed_capture_fifo_overflow_frames = 0,
     ed_render_fifo_overflow_cycles = 0, ed_render_fifo_overflow_frames = 0,
     ed_render_fifo_underflow_cycles = 0, ed_render_fifo_underflow_frames = 0,
     ed_va_pushed_blocks = 0, ed_va_dropped_blocks = 0, ed_va_producer_underflows = 0,
     ed_va_producer_overflows = 0, ed_va_consumed_blocks = 0, ed_va_mixed_blocks = 0,
     ed_va_silent_reads = 0, ed_va_clipped_samples = 0, ed_va_non_finite_samples = 0,
     ed_va_maximum_queue_depth = 0, ed_va_active_producers = 0, ed_import_failures = 0,
     ed_export_failures = 0, ed_last_callback_seconds = 0, ed_peak_callback_seconds = 0,
     ed_va_peak = 0\<rparr>"

datatype recovery_state =
  RecoveryStopped | RecoveryOpening | RecoveryRunning | RecoveryQuiescing | RecoveryBackoff
| RecoveryFaulted

datatype runtime_health = HealthStopped | HealthHealthy | HealthDegraded | HealthFaulted

record recovery_diagnostics =
  rd_state :: recovery_state
  rd_runtime_health :: runtime_health
  rd_reason_code :: string
  rd_recovery_episode_count :: u64
  rd_successful_recovery_count :: u64
  rd_failed_recovery_count :: u64
  rd_last_recovery_duration_ms :: u64
  rd_maximum_recovery_duration_ms :: u64
  rd_reopen_count :: u64
  rd_reset_failure_count :: u64
  rd_reopen_pending :: bool
  rd_wait_timeout_cycles :: u64
  rd_capture_discontinuity_cycles :: u64
  rd_render_fifo_underflow_frames :: u64
  rd_maximum_silence_frames :: u64
  rd_maximum_clamped_frames :: u64

definition default_recovery :: recovery_diagnostics where
  "default_recovery = \<lparr>rd_state = RecoveryStopped, rd_runtime_health = HealthStopped,
     rd_reason_code = [], rd_recovery_episode_count = 0, rd_successful_recovery_count = 0,
     rd_failed_recovery_count = 0, rd_last_recovery_duration_ms = 0,
     rd_maximum_recovery_duration_ms = 0, rd_reopen_count = 0, rd_reset_failure_count = 0,
     rd_reopen_pending = False, rd_wait_timeout_cycles = 0, rd_capture_discontinuity_cycles = 0,
     rd_render_fifo_underflow_frames = 0, rd_maximum_silence_frames = 0,
     rd_maximum_clamped_frames = 0\<rparr>"

datatype runtime_role = Master | Follower

record endpoint_diagnostics =
  ep_endpoint_id :: string
  ep_role :: runtime_role
  ep_diagnostics :: engine_diagnostics
  ep_recovery :: "recovery_diagnostics option"
  ep_queue_fill_frames :: "u64 option"
  ep_correction_ppm :: "f64 option"

section \<open>Responses\<close>

datatype response_status = Accepted | Rejected

record active_graph_node =
  gn_id :: string
  gn_label :: string

record active_graph_summary =
  gs_version :: u64
  gs_sample_rate :: u32
  gs_channels :: nat
  gs_frames :: nat
  gs_nodes :: "active_graph_node list"

record audio_runtime_state =
  as_installed :: bool
  as_running :: bool
  as_graph_version :: u64
  as_configured :: bool
  as_configuration :: runtime_configuration

record control_response =
  cr_command_id :: string
  cr_status :: response_status
  cr_errors :: "sar_error list"
  cr_preset :: preset_document
  cr_has_preset :: bool
  cr_diagnostics :: engine_diagnostics
  cr_has_diagnostics :: bool
  cr_wasapi_recovery :: recovery_diagnostics
  cr_has_wasapi_recovery :: bool
  cr_endpoint_diagnostics :: "endpoint_diagnostics list"
  cr_devices :: "audio_device list"
  cr_has_devices :: bool
  cr_next_graph_version :: u64
  cr_has_session_state :: bool
  cr_active_graph :: active_graph_summary
  cr_has_active_graph :: bool
  cr_audio_runtime :: audio_runtime_state
  cr_has_audio_runtime_state :: bool
  cr_virtual_asio_devices :: "virtual_asio_device list"
  cr_has_virtual_asio_devices :: bool

definition empty_graph_summary :: active_graph_summary where
  "empty_graph_summary = \<lparr>gs_version = 0, gs_sample_rate = 0, gs_channels = 0, gs_frames = 0,
     gs_nodes = []\<rparr>"

definition default_runtime_state :: audio_runtime_state where
  "default_runtime_state = \<lparr>as_installed = False, as_running = False, as_graph_version = 0,
     as_configured = False, as_configuration = default_runtime_configuration\<rparr>"

definition default_response :: control_response where
  "default_response = \<lparr>cr_command_id = [], cr_status = Accepted, cr_errors = [],
     cr_preset = default_preset, cr_has_preset = False, cr_diagnostics = default_diagnostics,
     cr_has_diagnostics = False, cr_wasapi_recovery = default_recovery,
     cr_has_wasapi_recovery = False, cr_endpoint_diagnostics = [], cr_devices = [],
     cr_has_devices = False, cr_next_graph_version = 0, cr_has_session_state = False,
     cr_active_graph = empty_graph_summary, cr_has_active_graph = False,
     cr_audio_runtime = default_runtime_state, cr_has_audio_runtime_state = False,
     cr_virtual_asio_devices = [], cr_has_virtual_asio_devices = False\<rparr>"

definition command_accepted :: "string \<Rightarrow> control_response" where
  "command_accepted i = default_response\<lparr>cr_command_id := i, cr_status := Accepted\<rparr>"

definition command_rejected :: "string \<Rightarrow> sar_error list \<Rightarrow> control_response" where
  "command_rejected i es =
     default_response\<lparr>cr_command_id := i, cr_status := Rejected, cr_errors := es\<rparr>"

definition preset_response :: "string \<Rightarrow> preset_document \<Rightarrow> control_response" where
  "preset_response i p = (command_accepted i)\<lparr>cr_preset := p, cr_has_preset := True\<rparr>"

definition diagnostics_response :: "string \<Rightarrow> engine_diagnostics \<Rightarrow> control_response" where
  "diagnostics_response i d =
     (command_accepted i)\<lparr>cr_diagnostics := d, cr_has_diagnostics := True\<rparr>"

definition device_list_response :: "string \<Rightarrow> audio_device list \<Rightarrow> control_response" where
  "device_list_response i ds = (command_accepted i)\<lparr>cr_devices := ds, cr_has_devices := True\<rparr>"

definition active_graph_response :: "string \<Rightarrow> graph \<Rightarrow> control_response" where
  "active_graph_response i g =
     (command_accepted i)\<lparr>cr_active_graph :=
        \<lparr>gs_version = g_version g, gs_sample_rate = g_sample_rate g, gs_channels = g_channels g,
         gs_frames = g_frames g,
         gs_nodes = map (\<lambda>k. \<lparr>gn_id = graph_node_id g k, gn_label = graph_node_label g k\<rparr>)
                      [0..<length (g_nodes g)]\<rparr>,
       cr_has_active_graph := True\<rparr>"

definition session_state_response ::
  "string \<Rightarrow> preset_document \<Rightarrow> audio_device list \<Rightarrow> graph \<Rightarrow> u64 \<Rightarrow> control_response" where
  "session_state_response i p ds g version =
     (active_graph_response i g)\<lparr>cr_preset := p, cr_has_preset := True, cr_devices := ds,
       cr_has_devices := True, cr_next_graph_version := version, cr_has_session_state := True\<rparr>"

definition audio_runtime_state_response ::
  "string \<Rightarrow> bool \<Rightarrow> bool \<Rightarrow> u64 \<Rightarrow> control_response" where
  "audio_runtime_state_response i installed running version =
     (command_accepted i)\<lparr>cr_audio_runtime := default_runtime_state\<lparr>as_installed := installed,
         as_running := running, as_graph_version := version\<rparr>,
       cr_has_audio_runtime_state := True\<rparr>"

end
