(* ===== verification/ControlSession.thy ===== *)
theory ControlSession
  imports ControlResponse
begin

text \<open>
  \<^verbatim>\<open>core/control/control_session.{h,cpp}\<close>: the session that owns the current preset, the
  published graph, the virtual endpoints and the next graph version, with its command and
  batch handlers. The graph publisher is represented by the graph it holds. A result
  \<open>None\<close> is an exception leaving a handler; it is proved never to happen.
\<close>

section \<open>State and updates\<close>

record control_session =
  ss_preset :: preset_document
  ss_graph :: graph
  ss_endpoints :: vep_registry
  ss_next_version :: u64

record prepared_update =
  pu_preset :: preset_document
  pu_graph :: graph
  pu_version :: u64

definition convert_errors :: "sar_error list \<Rightarrow> sar_error list" where
  "convert_errors = map (\<lambda>e. mk_error (err_code e) (err_message e))"

definition make_virtual_endpoint :: "control_command \<Rightarrow> preset_document \<Rightarrow> virtual_endpoint" where
  "make_virtual_endpoint c p =
     \<lparr>ve_id = cc_endpoint_id c, ve_label = cc_endpoint_label c, ve_backend = VirtualAsio,
      ve_direction = Duplex,
      ve_format = default_audio_format\<lparr>af_sample_rate := pd_sample_rate p,
        af_channels := word_of_nat (max (length (pm_inputs (pd_matrix p))) (length (pm_outputs (pd_matrix p)))),
        af_frames_per_block := pd_frames_per_block p\<rparr>\<rparr>"

definition session_create :: "preset_document \<Rightarrow> u64 \<Rightarrow> (sar_error list + control_session) option" where
  "session_create p version =
     (case build_preset_graph p version of
        None \<Rightarrow> None
      | Some (Inl es) \<Rightarrow> Some (Inl es)
      | Some (Inr g) \<Rightarrow> Some (Inr \<lparr>ss_preset = p, ss_graph = g, ss_endpoints = [],
                                   ss_next_version = version + 1\<rparr>))"

definition prepare_preset_update ::
  "control_command \<Rightarrow> control_session \<Rightarrow> (sar_error list + prepared_update) option" where
  "prepare_preset_update c s =
     (case apply_command (ss_preset s) c of
        Inl es \<Rightarrow> Some (Inl es)
      | Inr p \<Rightarrow>
          (case build_preset_graph p (ss_next_version s) of
             None \<Rightarrow> None
           | Some (Inl es) \<Rightarrow> Some (Inl es)
           | Some (Inr g) \<Rightarrow>
               Some (Inr \<lparr>pu_preset = p, pu_graph = g, pu_version = ss_next_version s\<rparr>)))"

definition commit_preset_update :: "prepared_update \<Rightarrow> control_session \<Rightarrow> control_session" where
  "commit_preset_update u s =
     s\<lparr>ss_graph := pu_graph u, ss_preset := pu_preset u, ss_next_version := ss_next_version s + 1\<rparr>"

type_synonym handled = "(control_response \<times> control_session) option"

section \<open>Handlers\<close>

definition is_runtime_command :: "control_command_type \<Rightarrow> bool" where
  "is_runtime_command ty \<longleftrightarrow> ty = QueryAudioRuntime \<or> ty = StartAudioRuntime \<or>
     ty = StopAudioRuntime \<or> ty = ConfigureAudioRuntime \<or> ty = QueryVirtualAsioDevices \<or>
     ty = ConfigureVirtualAsioDevices"

definition handle_update :: "control_command \<Rightarrow> control_command \<Rightarrow> control_session \<Rightarrow> handled" where
  "handle_update answered c s =
     (case prepare_preset_update c s of
        None \<Rightarrow> None
      | Some (Inl es) \<Rightarrow> Some (command_rejected (cc_command_id answered) es, s)
      | Some (Inr u) \<Rightarrow> Some (command_accepted (cc_command_id answered), commit_preset_update u s))"

definition session_handle ::
  "control_command \<Rightarrow> engine_diagnostics \<Rightarrow> control_session \<Rightarrow> handled" where
  "session_handle c diagnostics s =
     (let i = cc_command_id c; ty = cc_type c; invalid = validate_command c
      in if invalid \<noteq> [] then Some (command_rejected i invalid, s)
         else if ty = QueryDiagnostics then Some (diagnostics_response i diagnostics, s)
         else if ty = QueryActiveGraph then Some (active_graph_response i (ss_graph s), s)
         else if ty = SavePreset then Some (preset_response i (ss_preset s), s)
         else if ty = QuerySessionState then
           (case vep_list_devices (ss_endpoints s) of
              Inl es \<Rightarrow> Some (command_rejected i (convert_errors es), s)
            | Inr ds \<Rightarrow> Some (session_state_response i (ss_preset s) ds (ss_graph s) (ss_next_version s), s))
         else if is_runtime_command ty then
           Some (command_rejected i [ses_audio_runtime_command_requires_service], s)
         else if ty = ListDevices then
           (case vep_list_devices (ss_endpoints s) of
              Inl es \<Rightarrow> Some (command_rejected i (convert_errors es), s)
            | Inr ds \<Rightarrow> Some (device_list_response i ds, s))
         else if ty = CreateVirtualEndpoint then
           (case add_endpoint (make_virtual_endpoint c (ss_preset s)) (ss_endpoints s) of (es, reg) \<Rightarrow>
              if es \<noteq> [] then Some (command_rejected i (convert_errors es), s\<lparr>ss_endpoints := reg\<rparr>)
              else Some (command_accepted i, s\<lparr>ss_endpoints := reg\<rparr>))
         else if ty = RemoveVirtualEndpoint then
           (case remove_endpoint (cc_endpoint_id c) (ss_endpoints s) of (es, reg) \<Rightarrow>
              if es \<noteq> [] then Some (command_rejected i (convert_errors es), s\<lparr>ss_endpoints := reg\<rparr>)
              else Some (command_accepted i, s\<lparr>ss_endpoints := reg\<rparr>))
         else if \<not> control_command_mutates_preset ty then Some (command_accepted i, s)
         else handle_update c c s)"

text \<open>The loop of \<open>handle_batch\<close>: the preset after the whole batch, or the first refusal.\<close>

fun batch_presets :: "control_command list \<Rightarrow> preset_document \<Rightarrow> sar_error list + preset_document" where
  "batch_presets [] p = Inr p"
| "batch_presets (c # cs) p =
     (let invalid = validate_command c
      in if invalid \<noteq> [] then Inl invalid
         else if \<not> control_command_mutates_preset (cc_type c) then Inl [ses_unsupported_batch_command]
         else case apply_command p c of Inl es \<Rightarrow> Inl es | Inr q \<Rightarrow> batch_presets cs q)"

definition publish_preset :: "control_command \<Rightarrow> preset_document \<Rightarrow> control_session \<Rightarrow> handled" where
  "publish_preset c p s = handle_update c (c\<lparr>cc_preset := p\<rparr>) s"

definition session_handle_batch :: "string \<Rightarrow> control_command list \<Rightarrow> control_session \<Rightarrow> handled" where
  "session_handle_batch i cs s =
     (if i = [] then Some (command_rejected i [ses_empty_command_id], s)
      else if cs = [] then Some (command_rejected i [ses_empty_command_batch], s)
      else case batch_presets cs (ss_preset s) of
        Inl es \<Rightarrow> Some (command_rejected i es, s)
      | Inr p \<Rightarrow> publish_preset (default_command\<lparr>cc_command_id := i, cc_type := LoadPreset\<rparr>) p s)"

section \<open>The session invariant\<close>

text \<open>
  The published graph is the one built from the current preset, under the version before
  the next one; the endpoint registry keeps its invariant and every endpoint is listable.
\<close>

definition session_inv :: "control_session \<Rightarrow> bool" where
  "session_inv s \<longleftrightarrow> build_preset_graph (ss_preset s) (ss_next_version s - 1) = Some (Inr (ss_graph s)) \<and>
     vep_inv (ss_endpoints s) \<and> (\<forall>e \<in> set (ss_endpoints s). vep_listable e)"

lemma session_inv_preset: "session_inv s \<Longrightarrow> preset_wf (ss_preset s) \<and> preset_buildable (ss_preset s)"
  using build_preset_graph_Inr by (auto simp: session_inv_def)

lemma mk_error_fields [simp]: "mk_error (err_code e) (err_message e) = e"
  by (cases e) (simp add: mk_error_def)

lemma convert_errors_id [simp]: "convert_errors es = es"
  by (simp add: convert_errors_def)

lemma make_virtual_endpoint_listable:
  assumes "preset_wf p" "cc_endpoint_id c \<noteq> []" "cc_endpoint_label c \<noteq> []"
  shows "vep_listable (make_virtual_endpoint c p)"
proof -
  let ?n = "max (length (pm_inputs (pd_matrix p))) (length (pm_outputs (pd_matrix p)))"
  have "pm_inputs (pd_matrix p) \<noteq> []" "?n \<le> 64"
    using assms(1) by (auto simp: preset_wf_def endpoints_ok_def kMaximumMatrixChannels_def)
  then have "0 < ?n" "?n \<le> 64" by (simp_all add: less_max_iff_disj)
  then have "(word_of_nat ?n :: u32) \<noteq> 0"
    by (simp add: word_of_nat_eq_0_iff nat_dvd_not_less)
  with assms show ?thesis
    by (simp add: vep_listable_def vep_valid_def validate_virtual_endpoint_def preset_wf_def
        make_virtual_endpoint_def default_audio_format_def is_virtual_backend_def)
qed

lemma apply_command_Inl: "apply_command p c = Inl es \<Longrightarrow> es \<noteq> []"
  by (auto simp: apply_command_def Let_def split: if_splits sum.splits elim!: apply_route_edit.elims)

lemma handle_update_cases:
  obtains es where "handle_update a c s = Some (command_rejected (cc_command_id a) es, s)" "es \<noteq> []"
  | p g where "handle_update a c s = Some (command_accepted (cc_command_id a),
      s\<lparr>ss_preset := p, ss_graph := g, ss_next_version := ss_next_version s + 1\<rparr>)"
    "apply_command (ss_preset s) c = Inr p" "build_preset_graph p (ss_next_version s) = Some (Inr g)"
proof (cases "apply_command (ss_preset s) c")
  case (Inl es)
  then have "es \<noteq> []" by (rule apply_command_Inl)
  with Inl that(1) [of es] show ?thesis by (simp add: handle_update_def prepare_preset_update_def)
next
  case (Inr p)
  with that build_preset_graph_total [of p "ss_next_version s"] show ?thesis
    by (auto simp: handle_update_def prepare_preset_update_def commit_preset_update_def)
qed

section \<open>What a session guarantees\<close>

text \<open>
  Every command is answered; a refused command leaves the session as it was; an accepted one
  either leaves preset, graph and version alone or publishes the graph of the edited preset
  under the next version.
\<close>

definition session_published :: "control_command \<Rightarrow> control_session \<Rightarrow> control_session \<Rightarrow> bool" where
  "session_published c s s' \<longleftrightarrow> apply_command (ss_preset s) c = Inr (ss_preset s') \<and>
     build_preset_graph (ss_preset s') (ss_next_version s) = Some (Inr (ss_graph s')) \<and>
     ss_next_version s' = ss_next_version s + 1 \<and> ss_endpoints s' = ss_endpoints s"

lemma response_simps [simp]:
  "cr_status (command_rejected i es) = Rejected" "cr_errors (command_rejected i es) = es"
  "cr_command_id (command_rejected i es) = i"
  "cr_status (command_accepted i) = Accepted" "cr_command_id (command_accepted i) = i"
  "cr_status (preset_response i p) = Accepted" "cr_status (diagnostics_response i d) = Accepted"
  "cr_status (device_list_response i ds) = Accepted" "cr_status (active_graph_response i g) = Accepted"
  "cr_status (session_state_response i p ds g v) = Accepted"
  "cr_command_id (preset_response i p) = i" "cr_command_id (diagnostics_response i d) = i"
  "cr_command_id (device_list_response i ds) = i" "cr_command_id (active_graph_response i g) = i"
  "cr_command_id (session_state_response i p ds g v) = i"
  by (simp_all add: command_rejected_def command_accepted_def preset_response_def
      diagnostics_response_def device_list_response_def active_graph_response_def
      session_state_response_def default_response_def)

lemma handle_update_step:
  assumes "handle_update a c s = Some (r, s')"
  shows "(cr_status r = Rejected \<and> cr_errors r \<noteq> [] \<and> s' = s) \<or>
    (cr_status r = Accepted \<and> session_published c s s')"
  by (rule handle_update_cases [of a c s]) (use assms in \<open>auto simp: session_published_def\<close>)

lemma handle_update_total: "\<exists>r s'. handle_update a c s = Some (r, s')"
  by (rule handle_update_cases [of a c s]) auto

lemma session_handle_mutates:
  assumes "control_command_mutates_preset (cc_type c)" "validate_command c = []"
  shows "session_handle c d s = handle_update c c s"
proof -
  have "cc_type c \<notin> {QueryDiagnostics, QueryActiveGraph, SavePreset, QuerySessionState, ListDevices,
      CreateVirtualEndpoint, RemoveVirtualEndpoint}" "\<not> is_runtime_command (cc_type c)"
    using assms(1) by (auto simp: is_runtime_command_def)
  with assms show ?thesis unfolding session_handle_def Let_def by (simp only: insert_iff empty_iff de_Morgan_disj if_False if_True simp_thms)
qed

lemma session_handle_invalid:
  "validate_command c \<noteq> [] \<Longrightarrow>
     session_handle c d s = Some (command_rejected (cc_command_id c) (validate_command c), s)"
  by (simp add: session_handle_def)

lemma session_handle_create:
  assumes "cc_type c = CreateVirtualEndpoint" "validate_command c = []"
  shows "session_handle c d s = (let e = make_virtual_endpoint c (ss_preset s);
      x = add_endpoint e (ss_endpoints s) in
      Some (if fst x \<noteq> [] then command_rejected (cc_command_id c) (fst x) else command_accepted (cc_command_id c),
            s\<lparr>ss_endpoints := snd x\<rparr>))"
  using assms by (simp add: session_handle_def is_runtime_command_def Let_def split: prod.split)

lemma session_handle_remove:
  assumes "cc_type c = RemoveVirtualEndpoint" "validate_command c = []"
  shows "session_handle c d s = (let x = remove_endpoint (cc_endpoint_id c) (ss_endpoints s) in
      Some (if fst x \<noteq> [] then command_rejected (cc_command_id c) (fst x) else command_accepted (cc_command_id c),
            s\<lparr>ss_endpoints := snd x\<rparr>))"
  using assms by (simp add: session_handle_def is_runtime_command_def Let_def split: prod.split)

lemma session_handle_query:
  assumes "\<not> control_command_mutates_preset (cc_type c)" "cc_type c \<noteq> CreateVirtualEndpoint"
    "cc_type c \<noteq> RemoveVirtualEndpoint"
  shows "\<exists>r. session_handle c d s = Some (r, s)"
  using assms by (simp add: session_handle_def Let_def split: sum.split)

lemma session_handle_total: "\<exists>r s'. session_handle c d s = Some (r, s')"
proof (cases "validate_command c = []")
  case True
  note valid = this
  consider "control_command_mutates_preset (cc_type c)" | "cc_type c = CreateVirtualEndpoint"
    | "cc_type c = RemoveVirtualEndpoint"
    | "\<not> control_command_mutates_preset (cc_type c)" "cc_type c \<noteq> CreateVirtualEndpoint"
      "cc_type c \<noteq> RemoveVirtualEndpoint" by blast
  then show ?thesis
  proof cases
    case 1
    then show ?thesis
      using valid handle_update_total by (simp add: session_handle_mutates)
  next
    case 2 then show ?thesis using valid by (simp add: session_handle_create Let_def)
  next
    case 3 then show ?thesis using valid by (simp add: session_handle_remove Let_def)
  next
    case 4 then show ?thesis using session_handle_query by blast
  qed
qed (simp add: session_handle_invalid)

definition endpoints_step :: "control_command \<Rightarrow> control_session \<Rightarrow> control_session \<Rightarrow> bool" where
  "endpoints_step c s s' \<longleftrightarrow> s' = s \<or>
     (cc_type c = CreateVirtualEndpoint \<and>
        s' = s\<lparr>ss_endpoints := ss_endpoints s @ [make_virtual_endpoint c (ss_preset s)]\<rparr> \<and>
        fst (add_endpoint (make_virtual_endpoint c (ss_preset s)) (ss_endpoints s)) = []) \<or>
     (cc_type c = RemoveVirtualEndpoint \<and>
        s' = s\<lparr>ss_endpoints := erase_first (\<lambda>e. ve_id e = cc_endpoint_id c) (ss_endpoints s)\<rparr> \<and>
        fst (remove_endpoint (cc_endpoint_id c) (ss_endpoints s)) = [])"

lemma session_endpoints_same [simp]: "s\<lparr>ss_endpoints := ss_endpoints s\<rparr> = s"
  by (cases s) simp

lemma session_handle_step:
  assumes "session_handle c d s = Some (r, s')"
  shows "(cr_status r = Rejected \<and> s' = s) \<or>
    (cr_status r = Accepted \<and> validate_command c = [] \<and>
      (if control_command_mutates_preset (cc_type c) then session_published c s s'
       else endpoints_step c s s'))"
proof (cases "validate_command c = []")
  case True
  note valid = this
  consider "control_command_mutates_preset (cc_type c)" | "cc_type c = CreateVirtualEndpoint"
    | "cc_type c = RemoveVirtualEndpoint"
    | "\<not> control_command_mutates_preset (cc_type c)" "cc_type c \<noteq> CreateVirtualEndpoint"
      "cc_type c \<noteq> RemoveVirtualEndpoint" by blast
  then show ?thesis
  proof cases
    case 1
    then have "handle_update c c s = Some (r, s')" using assms valid by (simp add: session_handle_mutates)
    from handle_update_step [OF this] 1 valid show ?thesis by auto
  next
    case 2
    show ?thesis
    proof (cases "fst (add_endpoint (make_virtual_endpoint c (ss_preset s)) (ss_endpoints s)) = []")
      case True
      then show ?thesis using assms valid 2
        by (auto simp: session_handle_create Let_def endpoints_step_def add_endpoint_simps)
    next
      case False
      then show ?thesis using assms valid 2 by (auto simp: session_handle_create Let_def vep.add_refused)
    qed
  next
    case 3
    show ?thesis
    proof (cases "fst (remove_endpoint (cc_endpoint_id c) (ss_endpoints s)) = []")
      case True
      then show ?thesis using assms valid 3
        by (auto simp: session_handle_remove Let_def endpoints_step_def remove_endpoint_simps)
    next
      case False
      then show ?thesis using assms valid 3 by (auto simp: session_handle_remove Let_def vep.remove_refused)
    qed
  next
    case 4 
    then obtain q where "session_handle c d s = Some (q, s)" using session_handle_query by blast
    with assms 4 valid show ?thesis by (cases "cr_status r") (auto simp: endpoints_step_def)
  qed
qed (use assms in \<open>auto simp: session_handle_invalid\<close>)

lemma session_published_inv:
  "session_inv s \<Longrightarrow> session_published c s s' \<Longrightarrow> session_inv s'"
  by (simp add: session_inv_def session_published_def)

lemma endpoints_step_inv:
  assumes "session_inv s" "endpoints_step c s s'" "validate_command c = []"
  shows "session_inv s'"
proof -
  let ?e = "make_virtual_endpoint c (ss_preset s)"
  have inv: "vep_inv (ss_endpoints s)" "\<forall>e \<in> set (ss_endpoints s). vep_listable e"
    using assms(1) by (simp_all add: session_inv_def)
  from assms(2) consider "s' = s"
    | "cc_type c = CreateVirtualEndpoint" "s' = s\<lparr>ss_endpoints := snd (add_endpoint ?e (ss_endpoints s))\<rparr>"
      "snd (add_endpoint ?e (ss_endpoints s)) = ss_endpoints s @ [?e]"
    | "s' = s\<lparr>ss_endpoints := snd (remove_endpoint (cc_endpoint_id c) (ss_endpoints s))\<rparr>"
      "snd (remove_endpoint (cc_endpoint_id c) (ss_endpoints s)) =
         erase_first (\<lambda>e. ve_id e = cc_endpoint_id c) (ss_endpoints s)"
    unfolding endpoints_step_def by (auto simp: add_endpoint_simps remove_endpoint_simps)
  then show ?thesis
  proof cases
    case 1 with assms show ?thesis by simp
  next
    case 2
    have "cc_endpoint_id c \<noteq> []" "cc_endpoint_label c \<noteq> []"
      using assms(3) 2(1) by (auto simp: validate_command_def)
    then have "vep_listable ?e"
      using make_virtual_endpoint_listable session_inv_preset assms(1) by blast
    with 2 inv vep.inv_add [OF inv(1), of ?e] assms(1) show ?thesis by (auto simp: session_inv_def)
  next
    case 3
    have "\<forall>e \<in> set (erase_first (\<lambda>e. ve_id e = cc_endpoint_id c) (ss_endpoints s)). vep_listable e"
      using inv(2) set_erase_first by fastforce
    with 3 inv vep.inv_remove [OF inv(1), of "cc_endpoint_id c"] assms(1) show ?thesis
      by (simp add: session_inv_def)
  qed
qed

lemma session_handle_inv:
  assumes "session_inv s" "session_handle c d s = Some (r, s')"
  shows "session_inv s'"
proof -
  from session_handle_step [OF assms(2)] consider "s' = s" | "session_published c s s'"
    | "validate_command c = []" "endpoints_step c s s'" by (metis (full_types))
  then show ?thesis
    using assms(1) session_published_inv [of s c s'] endpoints_step_inv [of s c s'] by cases blast+
qed

lemma session_create_inv:
  "session_create p version = Some (Inr s) \<Longrightarrow> session_inv s"
  by (auto simp: session_create_def session_inv_def split: option.splits sum.splits)

lemma session_list_devices:
  assumes "session_inv s" "cc_type c = ListDevices" "validate_command c = []"
  shows "session_handle c d s =
    Some (device_list_response (cc_command_id c) (map to_audio_device (ss_endpoints s)), s)"
proof -
  have "vep_list_devices (ss_endpoints s) = Inr (map to_audio_device (ss_endpoints s))"
    using assms(1) vep_list_devices_ok by (simp add: session_inv_def)
  with assms(2,3) show ?thesis by (simp add: session_handle_def is_runtime_command_def)
qed

section \<open>Batches\<close>

text \<open>Handling the commands one by one, collecting the responses.\<close>

fun session_run :: "control_command list \<Rightarrow> control_session \<Rightarrow>
    (control_response list \<times> control_session) option" where
  "session_run [] s = Some ([], s)"
| "session_run (c # cs) s =
     (case session_handle c default_diagnostics s of
        None \<Rightarrow> None
      | Some (r, s1) \<Rightarrow>
          (case session_run cs s1 of None \<Rightarrow> None | Some (rs, s2) \<Rightarrow> Some (r # rs, s2)))"

lemma session_run_batch_presets:
  assumes "session_run cs s = Some (rs, s')" "\<forall>r \<in> set rs. cr_status r = Accepted"
    and "\<forall>c \<in> set cs. control_command_mutates_preset (cc_type c)"
  shows "batch_presets cs (ss_preset s) = Inr (ss_preset s') \<and> ss_endpoints s' = ss_endpoints s \<and>
    (cs \<noteq> [] \<longrightarrow> preset_wf (ss_preset s') \<and> preset_buildable (ss_preset s') \<and> ss_next_version s \<noteq> 0)"
  using assms
proof (induction cs arbitrary: s rs)
  case Nil
  then show ?case by simp
next
  case (Cons c cs)
  from Cons.prems(1) obtain r s1 rs1 where
    c: "session_handle c default_diagnostics s = Some (r, s1)" "session_run cs s1 = Some (rs1, s')" "rs = r # rs1"
    by (auto split: option.splits)
  have step: "validate_command c = []" "session_published c s s1"
    using session_handle_step [OF c(1)] Cons.prems(2,3) c(3) by auto
  have IH: "batch_presets cs (ss_preset s1) = Inr (ss_preset s') \<and> ss_endpoints s' = ss_endpoints s1 \<and>
    (cs \<noteq> [] \<longrightarrow> preset_wf (ss_preset s') \<and> preset_buildable (ss_preset s') \<and> ss_next_version s1 \<noteq> 0)"
    using Cons.IH [OF c(2)] Cons.prems(2,3) c(3) by simp
  have built: "preset_wf (ss_preset s1) \<and> preset_buildable (ss_preset s1) \<and> ss_next_version s \<noteq> 0"
    using step(2) build_preset_graph_Inr by (auto simp: session_published_def)
  have run: "batch_presets (c # cs) (ss_preset s) = batch_presets cs (ss_preset s1)"
    using step Cons.prems(3) by (simp add: session_published_def)
  have same: "ss_endpoints s1 = ss_endpoints s" using step(2) by (simp add: session_published_def)
  have "preset_wf (ss_preset s') \<and> preset_buildable (ss_preset s')"
  proof (cases "cs = []")
    case True
    then have "s1 = s'" using c(2) by simp
    with built show ?thesis by blast
  next
    case False
    with IH show ?thesis by blast
  qed
  with run same IH built show ?case by metis
qed

lemma batch_presets_Inl: "batch_presets cs p = Inl es \<Longrightarrow> es \<noteq> []"
proof (induction cs arbitrary: p)
  case (Cons c cs)
  show ?case
  proof (cases "apply_command p c")
    case (Inl es')
    with Cons.prems apply_command_Inl [OF Inl] show ?thesis by (auto simp: Let_def split: if_splits)
  next
    case (Inr q)
    with Cons show ?thesis by (auto simp: Let_def split: if_splits)
  qed
qed simp

lemma apply_command_load:
  "cc_type c = LoadPreset \<Longrightarrow> apply_command p c = Inr q \<Longrightarrow> q = cc_preset c"
  by (simp add: apply_command_def Let_def split: if_splits)

lemma session_handle_batch_step:
  assumes "session_handle_batch i cs s = Some (r, s')"
  shows "(cr_status r = Rejected \<and> cr_errors r \<noteq> [] \<and> s' = s) \<or>
    (cr_status r = Accepted \<and> cs \<noteq> [] \<and> batch_presets cs (ss_preset s) = Inr (ss_preset s') \<and>
     build_preset_graph (ss_preset s') (ss_next_version s) = Some (Inr (ss_graph s')) \<and>
     ss_next_version s' = ss_next_version s + 1 \<and> ss_endpoints s' = ss_endpoints s)"
proof (cases "i = [] \<or> cs = []")
  case True
  with assms show ?thesis by (auto simp: session_handle_batch_def split: if_splits)
next
  case False
  show ?thesis
  proof (cases "batch_presets cs (ss_preset s)")
    case (Inl es)
    with False assms batch_presets_Inl [OF Inl] show ?thesis
      by (auto simp: session_handle_batch_def)
  next
    case (Inr p)
    let ?c = "default_command\<lparr>cc_command_id := i, cc_type := LoadPreset\<rparr>"
    from False Inr assms have "handle_update ?c (?c\<lparr>cc_preset := p\<rparr>) s = Some (r, s')"
      by (simp add: session_handle_batch_def publish_preset_def)
    from handle_update_step [OF this] show ?thesis
      using False Inr by (auto simp: session_published_def dest: apply_command_load [rotated])
  qed
qed

lemma session_handle_batch_total: "\<exists>r s'. session_handle_batch i cs s = Some (r, s')"
  using handle_update_total unfolding session_handle_batch_def publish_preset_def
  by (auto split: sum.split)

lemma session_handle_batch_accepts:
  assumes "i \<noteq> []" "cs \<noteq> []" "batch_presets cs (ss_preset s) = Inr p"
    "preset_wf p" "preset_buildable p" "ss_next_version s \<noteq> 0"
  shows "\<exists>g. build_preset_graph p (ss_next_version s) = Some (Inr g) \<and>
    session_handle_batch i cs s = Some (command_accepted i,
      s\<lparr>ss_preset := p, ss_graph := g, ss_next_version := ss_next_version s + 1\<rparr>)"
proof -
  obtain g where g: "build_preset_graph p (ss_next_version s) = Some (Inr g)"
    using build_preset_graph_total [of p "ss_next_version s"] assms by auto
  let ?c = "default_command\<lparr>cc_command_id := i, cc_type := LoadPreset\<rparr>"
  have "apply_command (ss_preset s) (?c\<lparr>cc_preset := p\<rparr>) = Inr p"
    using assms by (simp add: apply_command_def validate_command_def validate_preset_Nil
        default_command_def)
  with g assms show ?thesis
    by (simp add: session_handle_batch_def publish_preset_def handle_update_def
        prepare_preset_update_def commit_preset_update_def)
qed

section \<open>Properties\<close>

text \<open>
  C5: Every command gets an answer (no exception leaves the handler), and handling keeps the
  session invariant: the published graph is the one built from the current preset under the
  version before the next, and every virtual endpoint is unique, valid and listable.
\<close>

theorem session_invariant_kept:
  assumes "session_inv s"
  shows "\<exists>r s'. session_handle c d s = Some (r, s') \<and> session_inv s'"
  using session_handle_total [of c d s] session_handle_inv [OF assms] by blast

definition demo_session :: "graph \<Rightarrow> control_session" where
  "demo_session g = \<lparr>ss_preset = demo_preset, ss_graph = g, ss_endpoints = [], ss_next_version = 2\<rparr>"

lemma demo_session_created:
  "\<exists>g. session_create demo_preset 1 = Some (Inr (demo_session g)) \<and> session_inv (demo_session g)"
proof -
  from build_preset_graph_total [of demo_preset 1] demo_preset_wf
  obtain g where "build_preset_graph demo_preset 1 = Some (Inr g)" by auto
  then have "session_create demo_preset 1 = Some (Inr (demo_session g))"
    by (simp add: session_create_def demo_session_def)
  with session_create_inv show ?thesis by blast
qed

theorem session_invariant_kept_witness:
  "\<exists>g r s'. session_create demo_preset 1 = Some (Inr (demo_session g)) \<and>
     session_handle demo_gain_command default_diagnostics (demo_session g) = Some (r, s') \<and> session_inv s'"
  using demo_session_created session_invariant_kept by meson

text \<open>
  A refused command leaves the session exactly as it was. An accepted command that edits the
  preset publishes: the new preset is what \<open>apply_command\<close> gives, the new graph is the one built
  from it under the version that was next, the version counter moves by one and the endpoints
  stay. Any other accepted command leaves preset, graph and version alone.
\<close>

theorem session_commands_atomic:
  assumes "session_handle c d s = Some (r, s')"
  shows "if cr_status r = Rejected then s' = s
    else if control_command_mutates_preset (cc_type c) then
      apply_command (ss_preset s) c = Inr (ss_preset s') \<and>
      build_preset_graph (ss_preset s') (ss_next_version s) = Some (Inr (ss_graph s')) \<and>
      ss_next_version s' = ss_next_version s + 1 \<and> ss_endpoints s' = ss_endpoints s
    else ss_preset s' = ss_preset s \<and> ss_graph s' = ss_graph s \<and> ss_next_version s' = ss_next_version s"
  using session_handle_step [OF assms]
  by (auto simp: session_published_def endpoints_step_def split: if_splits)

lemma demo_gain_handled:
  "\<exists>s'. session_handle demo_gain_command d (demo_session g) = Some (command_accepted ''g'', s')"
proof -
  have "control_command_mutates_preset (cc_type demo_gain_command)" "cc_command_id demo_gain_command = ''g''"
    by (simp_all add: demo_gain_command_def)
  moreover have "preset_wf demo_preset_half" "preset_buildable demo_preset_half"
    using apply_command_wf [OF demo_gain_applies] demo_preset_wf(2)
    by (simp_all add: demo_preset_half_def preset_buildable_def)
  moreover from this build_preset_graph_total [of demo_preset_half 2]
  obtain h where "build_preset_graph demo_preset_half 2 = Some (Inr h)" by auto
  ultimately show ?thesis
    using demo_gain_applies demo_gain_command_valid
    by (simp add: session_handle_mutates handle_update_def prepare_preset_update_def demo_session_def)
qed

theorem session_commands_atomic_witness:
  "\<exists>g r s'. session_handle demo_gain_command default_diagnostics (demo_session g) = Some (r, s') \<and>
     ss_preset s' = demo_preset_half \<and> ss_next_version s' = 3"
proof -
  obtain g s' where run: "session_handle demo_gain_command default_diagnostics (demo_session g) =
      Some (command_accepted ''g'', s')"
    using demo_gain_handled by blast
  have "control_command_mutates_preset (cc_type demo_gain_command)" by (simp add: demo_gain_command_def)
  with session_commands_atomic [OF run] demo_gain_applies
  have "ss_preset s' = demo_preset_half \<and> ss_next_version s' = 3" by (simp add: demo_session_def)
  with run show ?thesis by blast
qed

text \<open>
  A batch is all or nothing: it is answered; refused, it names at least one error and leaves
  the session as it was; accepted, the preset is the result of all commands in order, its graph
  is published once and the version counter moves by exactly one.
\<close>

theorem session_batch_atomic:
  "\<exists>r s'. session_handle_batch i cs s = Some (r, s') \<and>
    ((cr_status r = Rejected \<and> cr_errors r \<noteq> [] \<and> s' = s) \<or>
     (cr_status r = Accepted \<and> cs \<noteq> [] \<and> batch_presets cs (ss_preset s) = Inr (ss_preset s') \<and>
      build_preset_graph (ss_preset s') (ss_next_version s) = Some (Inr (ss_graph s')) \<and>
      ss_next_version s' = ss_next_version s + 1 \<and> ss_endpoints s' = ss_endpoints s))"
proof -
  obtain r s' where "session_handle_batch i cs s = Some (r, s')" using session_handle_batch_total by blast
  with session_handle_batch_step [OF this] show ?thesis by blast
qed



text \<open>
  A session that keeps the invariant always answers \<open>ListDevices\<close> with its virtual
  endpoints in the order they were created.
\<close>

theorem session_lists_endpoints:
  assumes "session_inv s" "cc_type c = ListDevices" "cc_schema_version c \<noteq> 0" "cc_command_id c \<noteq> []"
  shows "session_handle c d s =
    Some (device_list_response (cc_command_id c) (map to_audio_device (ss_endpoints s)), s)"
  using assms by (intro session_list_devices) (simp_all add: validate_command_def)

theorem session_lists_endpoints_witness:
  "\<exists>g. session_handle (default_command\<lparr>cc_command_id := ''l'', cc_type := ListDevices\<rparr>) default_diagnostics
     (demo_session g) = Some (device_list_response ''l'' [], demo_session g)"
proof -
  obtain g where "session_inv (demo_session g)" using demo_session_created by blast
  from session_lists_endpoints [OF this, of "default_command\<lparr>cc_command_id := ''l'', cc_type := ListDevices\<rparr>"]
  show ?thesis by (auto simp: demo_session_def default_command_def)
qed

end
