(* ===== verification/WireFormat.thy ===== *)
theory WireFormat
  imports RealtimeBuffers "HOL-Library.State_Monad"
begin

text \<open>
  The byte level of \<^verbatim>\<open>core/control/control_wire_protocol.cpp\<close>: the classes \<^verbatim>\<open>Writer\<close> and
  \<^verbatim>\<open>Reader\<close> with their little-endian scalars, length-prefixed strings, counts, limits, header
  and sticky error. A writer operation is a function on the writer; a reader operation is a
  state monad value, so that decoders read as the code does. The predicates \<open>puts\<close> and \<open>reads\<close>
  say what bytes an operation writes or consumes, and the locale \<open>wire_codec\<close> is the contract
  between an encoder and its decoder.
\<close>

section \<open>Limits and errors\<close>

definition kControlWireVersion :: u16 where "kControlWireVersion = 14"
definition kControlWireHeaderSize :: nat where "kControlWireHeaderSize = 12"
definition kControlWireMaxMessageBytes :: nat where "kControlWireMaxMessageBytes = 1024 * 1024"
definition kControlWireMaxStringBytes :: nat where "kControlWireMaxStringBytes = 64 * 1024"
definition kControlWireMaxArrayElements :: nat where "kControlWireMaxArrayElements = 4096"
definition kMagic :: u32 where "kMagic = 0x31524153"

datatype wire_error_code =
  MessageTooLarge | Truncated | InvalidMagic | UnsupportedVersion | UnexpectedMessageKind
| InvalidHeader | InvalidLength | StringTooLong | ArrayTooLong | UnknownEnum | InvalidBoolean
| InvalidValue | TrailingBytes

text \<open>\<open>None\<close> is \<^verbatim>\<open>ControlWireErrorCode::None\<close>; otherwise the code and the byte offset.\<close>

type_synonym wire_error = "(wire_error_code \<times> nat) option"

section \<open>Bytes\<close>

definition byte_of :: "char \<Rightarrow> byte" where
  "byte_of c = word_of_nat (of_char c)"

definition char_of_byte :: "byte \<Rightarrow> char" where
  "char_of_byte b = char_of (unat b)"

lemma char_of_byte_of [simp]: "char_of_byte (byte_of c) = c"
  by (simp add: char_of_byte_def byte_of_def unsigned_of_nat char_of_take_bit_eq)

definition le_bytes :: "'a::len word \<Rightarrow> byte list" where
  "le_bytes w = map (\<lambda>i. ucast (drop_bit (8 * i) w AND 0xFF)) [0..<LENGTH('a) div 8]"

definition le_word :: "byte list \<Rightarrow> 'a::len word" where
  "le_word bs = fold (\<lambda>i v. v OR push_bit (8 * i) (ucast (bs ! i))) [0..<length bs] 0"

lemma length_le_bytes [simp]: "length (le_bytes (w :: 'a::len word)) = LENGTH('a) div 8"
  by (simp add: le_bytes_def)

lemma bit_word_beyond: "8 \<le> k \<Longrightarrow> \<not> bit (b :: byte) k"
  using bit_imp_le_length [of b k] by auto

lemma bit_le_word:
  "bit (fold (\<lambda>i v. v OR push_bit (8 * i) (ucast (f i :: byte))) [0..<n] (0 :: 'a::len word)) k \<longleftrightarrow>
     k < LENGTH('a) \<and> k < 8 * n \<and> bit (f (k div 8)) (k mod 8)"
proof (induction n)
  case (Suc n)
  have "bit (push_bit (8 * n) (ucast (f n)) :: 'a word) k \<longleftrightarrow>
      k < LENGTH('a) \<and> 8 * n \<le> k \<and> k < 8 * Suc n \<and> bit (f (k div 8)) (k mod 8)"
  proof (cases "8 * n \<le> k \<and> k < 8 * Suc n")
    case True
    then obtain j where "k = 8 * n + j" "j < 8" using le_Suc_ex [of "8 * n" k] by auto
    then show ?thesis by (auto simp: bit_simps)
  next
    case False
    then have "\<not> bit (push_bit (8 * n) (ucast (f n)) :: 'a word) k"
    proof (cases "8 * Suc n \<le> k")
      case True
      then obtain j where "k = 8 * Suc n + j" using le_Suc_ex by blast
      then have "8 \<le> k - 8 * n" by simp
      then show ?thesis using bit_word_beyond [of "k - 8 * n" "f n"] by (simp add: bit_simps)
    qed (simp add: bit_simps)
    with False show ?thesis by blast
  qed
  with Suc show ?case by (auto simp: bit_simps)
qed simp

lemma ucast_low_byte: "(ucast (x AND 0xFF :: 'a::len word) :: byte) = ucast x"
proof -
  have low: "(0xFF :: 'a word) = mask 8" by (simp add: mask_eq_exp_minus_1)
  show ?thesis unfolding low
    by (intro bit_word_eqI) (auto simp: bit_ucast_iff bit_and_iff bit_mask_iff dest: bit_imp_le_length)
qed

lemma le_word_le_bytes [simp]:
  assumes "LENGTH('a) = 8 * n"
  shows "le_word (le_bytes (w :: 'a::len word)) = w"
proof (rule bit_word_eqI)
  fix k
  assume k: "k < LENGTH('a)"
  have len: "length (le_bytes w) = n" using assms by simp
  have "fold (\<lambda>i v. v OR push_bit (8 * i) (ucast (le_bytes w ! i))) [0..<n] (0 :: 'a word) = le_word (le_bytes w)"
    by (simp add: le_word_def assms)
  with bit_le_word [where 'a = 'a and f = "\<lambda>i. le_bytes w ! i" and n = n and k = k]
  have "bit (le_word (le_bytes w) :: 'a word) k \<longleftrightarrow> bit (le_bytes w ! (k div 8)) (k mod 8)"
    using k assms by simp
  also have "le_bytes w ! (k div 8) = ucast (drop_bit (8 * (k div 8)) w)"
  proof -
    have "k div 8 < n" using k assms by simp
    then show ?thesis using assms by (simp add: le_bytes_def ucast_low_byte)
  qed
  also have "bit \<dots> (k mod 8) \<longleftrightarrow> bit w k"
    using k by (simp add: bit_ucast_iff bit_drop_bit_eq)
  finally show "bit (le_word (le_bytes w) :: 'a word) k \<longleftrightarrow> bit w k" .
qed

section \<open>The writer\<close>

record writer =
  wr_kind :: u16
  wr_bytes :: "byte list"
  wr_error :: wire_error

type_synonym wop = "writer \<Rightarrow> writer"

definition make_writer :: "u16 \<Rightarrow> writer" where
  "make_writer kind = \<lparr>wr_kind = kind, wr_bytes = replicate kControlWireHeaderSize 0, wr_error = None\<rparr>"

definition w_fail :: "wire_error_code \<Rightarrow> wop" where
  "w_fail code w =
     (if wr_error w = None then w\<lparr>wr_error := Some (code, length (wr_bytes w))\<rparr> else w)"

definition w_scalar :: "'a::len word \<Rightarrow> wop" where
  "w_scalar v w = w\<lparr>wr_bytes := wr_bytes w @ le_bytes v\<rparr>"

definition w_boolean :: "bool \<Rightarrow> wop" where
  "w_boolean b = w_scalar ((if b then 1 else 0) :: byte)"

definition w_float32 :: "f32 \<Rightarrow> wop" where
  "w_float32 = w_scalar"

definition w_float64 :: "f64 \<Rightarrow> wop" where
  "w_float64 = w_scalar"

definition w_string :: "string \<Rightarrow> wop" where
  "w_string s w =
     (if length s > kControlWireMaxStringBytes \<or> length s > 2 ^ 32 - 1 then w_fail StringTooLong w
      else let w' = w_scalar (word_of_nat (length s) :: u32) w
           in w'\<lparr>wr_bytes := wr_bytes w' @ map byte_of s\<rparr>)"

definition w_count :: "nat \<Rightarrow> wop" where
  "w_count n w =
     (if n > kControlWireMaxArrayElements \<or> n > 2 ^ 32 - 1 then w_fail ArrayTooLong w
      else w_scalar (word_of_nat n :: u32) w)"

text \<open>Statements in sequence, a loop over a container, and a conditional write.\<close>

primrec w_seq :: "wop list \<Rightarrow> wop" where
  "w_seq [] w = w"
| "w_seq (f # fs) w = w_seq fs (f w)"

definition w_each :: "('a \<Rightarrow> wop) \<Rightarrow> 'a list \<Rightarrow> wop" where
  "w_each f xs = w_seq (map f xs)"

definition w_when :: "bool \<Rightarrow> wop \<Rightarrow> wop" where
  "w_when b f w = (if b then f w else w)"

definition write_header :: "nat \<Rightarrow> 'a::len word \<Rightarrow> byte list \<Rightarrow> byte list" where
  "write_header off v bytes =
     fold (\<lambda>i bs. bs[off + i := le_bytes v ! i]) [0..<LENGTH('a) div 8] bytes"

text \<open>\<open>finish\<close>: the error, or the bytes with the header filled in.\<close>

type_synonym encode_result = "(wire_error_code \<times> nat) + byte list"

definition w_finish :: "writer \<Rightarrow> encode_result" where
  "w_finish w =
     (case wr_error w of
        Some e \<Rightarrow> Inl e
      | None \<Rightarrow>
          if length (wr_bytes w) > kControlWireMaxMessageBytes
          then Inl (MessageTooLarge, length (wr_bytes w))
          else
            let payload = word_of_nat (length (wr_bytes w) - kControlWireHeaderSize) :: u32
            in Inr (write_header 8 payload (write_header 6 (wr_kind w)
                 (write_header 4 kControlWireVersion (write_header 0 kMagic (wr_bytes w))))))"

section \<open>The reader\<close>

record reader =
  rd_bytes :: "byte list"
  rd_offset :: nat
  rd_version :: u16
  rd_error :: wire_error

type_synonym 'a rd = "(reader, 'a) state"

definition r_fail :: "wire_error_code \<Rightarrow> unit rd" where
  "r_fail code = State (\<lambda>r. ((),
     if rd_error r = None then r\<lparr>rd_error := Some (code, rd_offset r)\<rparr> else r))"

definition r_ok :: "bool rd" where
  "r_ok = State (\<lambda>r. (rd_error r = None, r))"

definition r_version :: "u16 rd" where
  "r_version = State (\<lambda>r. (rd_version r, r))"

definition r_require :: "nat \<Rightarrow> bool rd" where
  "r_require needed = State (\<lambda>r.
     if rd_error r \<noteq> None then (False, r)
     else if needed > length (rd_bytes r) - rd_offset r then (False, snd (run_state (r_fail Truncated) r))
     else (True, r))"

text \<open>Take the next \<open>n\<close> bytes, once \<open>r_require n\<close> has succeeded.\<close>

definition r_take :: "nat \<Rightarrow> byte list rd" where
  "r_take n = State (\<lambda>r. (take n (drop (rd_offset r) (rd_bytes r)), r\<lparr>rd_offset := rd_offset r + n\<rparr>))"

definition r_scalar :: "'a::len word rd" where
  "r_scalar = do {
     present \<leftarrow> r_require (LENGTH('a) div 8);
     if \<not> present then State_Monad.return 0
     else do { bs \<leftarrow> r_take (LENGTH('a) div 8); State_Monad.return (le_word bs) }
   }"

definition r_fail_if :: "bool \<Rightarrow> wire_error_code \<Rightarrow> unit rd" where
  "r_fail_if b code = (if b then r_fail code else State_Monad.return ())"

definition r_boolean :: "bool rd" where
  "r_boolean = do {
     v \<leftarrow> (r_scalar :: byte rd);
     ok \<leftarrow> r_ok;
     _ \<leftarrow> r_fail_if (ok \<and> v > 1) InvalidBoolean;
     State_Monad.return (v = 1)
   }"

definition r_float32 :: "f32 rd" where
  "r_float32 = do {
     v \<leftarrow> (r_scalar :: f32 rd);
     ok \<leftarrow> r_ok;
     _ \<leftarrow> r_fail_if (ok \<and> \<not> f32_finite v) InvalidValue;
     State_Monad.return v
   }"

definition r_float64 :: "f64 rd" where
  "r_float64 = do {
     v \<leftarrow> (r_scalar :: f64 rd);
     ok \<leftarrow> r_ok;
     _ \<leftarrow> r_fail_if (ok \<and> \<not> f64_finite v) InvalidValue;
     State_Monad.return v
   }"

definition r_string :: "string rd" where
  "r_string = do {
     len \<leftarrow> (r_scalar :: u32 rd);
     ok \<leftarrow> r_ok;
     if \<not> ok then State_Monad.return []
     else if unat len > kControlWireMaxStringBytes then
       do { _ \<leftarrow> r_fail StringTooLong; State_Monad.return [] }
     else do {
       present \<leftarrow> r_require (unat len);
       if \<not> present then State_Monad.return []
       else do { bs \<leftarrow> r_take (unat len); State_Monad.return (map char_of_byte bs) }
     }
   }"

definition r_remaining :: "nat rd" where
  "r_remaining = State (\<lambda>r. (length (rd_bytes r) - rd_offset r, r))"

definition r_count :: "u32 rd" where
  "r_count = do {
     v \<leftarrow> (r_scalar :: u32 rd);
     ok \<leftarrow> r_ok;
     if ok \<and> unat v > kControlWireMaxArrayElements then
       do { _ \<leftarrow> r_fail ArrayTooLong; State_Monad.return 0 }
     else do {
       remaining \<leftarrow> r_remaining;
       if ok \<and> unat v > remaining then
         do { _ \<leftarrow> r_fail Truncated; State_Monad.return 0 }
       else State_Monad.return v
     }
   }"

text \<open>\<open>of_code\<close> is the \<^verbatim>\<open>static_cast\<close> to the enumeration.\<close>

definition r_enumeration :: "(u32 \<Rightarrow> 'e) \<Rightarrow> u32 \<Rightarrow> 'e rd" where
  "r_enumeration of_code maximum = do {
     v \<leftarrow> (r_scalar :: u32 rd);
     ok \<leftarrow> r_ok;
     _ \<leftarrow> r_fail_if (ok \<and> v > maximum) UnknownEnum;
     State_Monad.return (of_code v)
   }"

definition r_finish :: "unit rd" where
  "r_finish = do {
     ok \<leftarrow> r_ok;
     complete \<leftarrow> State (\<lambda>r. (rd_offset r = length (rd_bytes r), r));
     r_fail_if (ok \<and> \<not> complete) TrailingBytes
   }"

text \<open>The loop \<^verbatim>\<open>for (index = 0; index < count && reader.ok(); ++index) push_back(...)\<close>.\<close>

primrec r_repeat :: "nat \<Rightarrow> 'a rd \<Rightarrow> 'a list rd" where
  "r_repeat 0 m = State_Monad.return []"
| "r_repeat (Suc n) m = do {
     ok \<leftarrow> r_ok;
     if \<not> ok then State_Monad.return []
     else do { x \<leftarrow> m; xs \<leftarrow> r_repeat n m; State_Monad.return (x # xs) }
   }"

text \<open>A loop over elements that already exist, each replaced by what the body returns.\<close>

primrec r_each :: "('a \<Rightarrow> 'b rd) \<Rightarrow> 'a list \<Rightarrow> 'b list rd" where
  "r_each f [] = State_Monad.return []"
| "r_each f (x # xs) = do { y \<leftarrow> f x; ys \<leftarrow> r_each f xs; State_Monad.return (y # ys) }"

text \<open>The constructor: the checks of the header in the order of the code.\<close>

definition r_set_version :: "u16 \<Rightarrow> unit rd" where
  "r_set_version v = State (\<lambda>r. ((), r\<lparr>rd_version := v\<rparr>))"

definition r_header :: "nat \<Rightarrow> u16 \<Rightarrow> unit rd" where
  "r_header message_size expected_kind = do {
     magic \<leftarrow> (r_scalar :: u32 rd);
     version \<leftarrow> (r_scalar :: u16 rd);
     _ \<leftarrow> r_set_version version;
     kind \<leftarrow> (r_scalar :: u16 rd);
     payload_size \<leftarrow> (r_scalar :: u32 rd);
     ok \<leftarrow> r_ok;
     if \<not> ok then State_Monad.return ()
     else if magic \<noteq> kMagic then r_fail InvalidMagic
     else if version < 8 \<or> version > kControlWireVersion then r_fail UnsupportedVersion
     else if kind \<noteq> expected_kind then r_fail UnexpectedMessageKind
     else r_fail_if (unat payload_size \<noteq> message_size - kControlWireHeaderSize) InvalidLength
   }"

definition make_reader :: "byte list \<Rightarrow> u16 \<Rightarrow> reader" where
  "make_reader bytes kind =
     (let r = \<lparr>rd_bytes = bytes, rd_offset = 0, rd_version = 0, rd_error = None\<rparr>
      in if length bytes > kControlWireMaxMessageBytes then snd (run_state (r_fail MessageTooLarge) r)
         else if length bytes < kControlWireHeaderSize then snd (run_state (r_fail Truncated) r)
         else snd (run_state (r_header (length bytes) kind) r))"

section \<open>What the operations write\<close>

text \<open>
  \<open>puts f fits bs\<close>: on a writer without an error, \<open>f\<close> appends exactly \<open>bs\<close> when the limits
  (\<open>fits\<close>) hold and reports an error otherwise; an earlier error is kept.
\<close>

definition puts :: "wop \<Rightarrow> bool \<Rightarrow> byte list \<Rightarrow> bool" where
  "puts f fits bs \<longleftrightarrow>
     (\<forall>w. wr_error w = None \<longrightarrow>
        (if fits then f w = w\<lparr>wr_bytes := wr_bytes w @ bs\<rparr> else wr_error (f w) \<noteq> None)) \<and>
     (\<forall>w. wr_error w \<noteq> None \<longrightarrow> wr_error (f w) = wr_error w)"

definition string_bytes :: "string \<Rightarrow> byte list" where
  "string_bytes s = le_bytes (word_of_nat (length s) :: u32) @ map byte_of s"

definition count_bytes :: "nat \<Rightarrow> byte list" where
  "count_bytes n = le_bytes (word_of_nat n :: u32)"

definition bool_bytes :: "bool \<Rightarrow> byte list" where
  "bool_bytes b = le_bytes ((if b then 1 else 0) :: byte)"

definition string_fits :: "string \<Rightarrow> bool" where
  "string_fits s \<longleftrightarrow> length s \<le> kControlWireMaxStringBytes"

definition count_fits :: "nat \<Rightarrow> bool" where
  "count_fits n \<longleftrightarrow> n \<le> kControlWireMaxArrayElements"

lemma puts_scalar: "puts (w_scalar v) True (le_bytes v)"
  by (simp add: puts_def w_scalar_def)

lemma puts_boolean: "puts (w_boolean b) True (bool_bytes b)"
  by (simp add: w_boolean_def bool_bytes_def puts_scalar)

lemma puts_float32: "puts (w_float32 v) True (le_bytes v)"
  by (simp add: w_float32_def puts_scalar)

lemma puts_float64: "puts (w_float64 v) True (le_bytes v)"
  by (simp add: w_float64_def puts_scalar)

lemma puts_string: "puts (w_string s) (string_fits s) (string_bytes s)"
  by (auto simp: puts_def w_string_def w_fail_def w_scalar_def string_bytes_def string_fits_def
      kControlWireMaxStringBytes_def Let_def)

lemma puts_count: "puts (w_count n) (count_fits n) (count_bytes n)"
  by (auto simp: puts_def w_count_def w_fail_def w_scalar_def count_bytes_def count_fits_def
      kControlWireMaxArrayElements_def)

lemma puts_Nil: "puts (w_seq []) True []"
  by (simp add: puts_def)

lemma puts_Cons:
  assumes "puts f a x" "puts (w_seq fs) b y"
  shows "puts (w_seq (f # fs)) (a \<and> b) (x @ y)"
proof -
  have ok: "if a \<and> b then w_seq (f # fs) w = w\<lparr>wr_bytes := wr_bytes w @ x @ y\<rparr>
      else wr_error (w_seq (f # fs) w) \<noteq> None" if "wr_error w = None" for w
  proof (cases a)
    case True
    with assms(1) that have "f w = w\<lparr>wr_bytes := wr_bytes w @ x\<rparr>" by (simp add: puts_def)
    with assms(2) that True show ?thesis by (simp add: puts_def)
  next
    case False
    with assms(1) that have "wr_error (f w) \<noteq> None" by (simp add: puts_def)
    with assms(2) have "wr_error (w_seq fs (f w)) \<noteq> None" unfolding puts_def by metis
    with False show ?thesis by simp
  qed
  have "wr_error (w_seq (f # fs) w) = wr_error w" if "wr_error w \<noteq> None" for w
  proof -
    from assms(1) that have "wr_error (f w) = wr_error w" unfolding puts_def by metis
    with assms(2) that show ?thesis unfolding puts_def w_seq.simps by metis
  qed
  with ok show ?thesis unfolding puts_def by blast
qed

lemma puts_each:
  "(\<And>x. puts (f x) (a x) (g x)) \<Longrightarrow> puts (w_each f xs) (\<forall>x \<in> set xs. a x) (concat (map g xs))"
proof (induction xs)
  case (Cons x xs)
  from puts_Cons [OF Cons.prems [of x] Cons.IH [OF Cons.prems, unfolded w_each_def]]
  show ?case by (simp only: w_each_def list.map list.set concat.simps ball_simps)
qed (simp add: w_each_def puts_def)

lemma puts_when: "puts f a x \<Longrightarrow> puts (w_when b f) (b \<longrightarrow> a) (if b then x else [])"
  by (cases b) (simp_all add: puts_def w_when_def)

text \<open>The header of a message and what \<open>finish\<close> returns.\<close>

definition wire_header :: "u16 \<Rightarrow> nat \<Rightarrow> byte list" where
  "wire_header kind n =
     le_bytes kMagic @ le_bytes kControlWireVersion @ le_bytes kind @ le_bytes (word_of_nat n :: u32)"

lemma length_wire_header [simp]: "length (wire_header kind n) = 12"
  by (simp add: wire_header_def)

lemma list_of_four: "length xs = 4 \<Longrightarrow> [xs ! 0, xs ! 1, xs ! 2, xs ! 3] = xs"
  by (rule nth_equalityI) (auto simp: less_Suc_eq numeral_eq_Suc)

lemma list_of_two: "length xs = 2 \<Longrightarrow> [xs ! 0, xs ! 1] = xs"
  by (rule nth_equalityI) (auto simp: less_Suc_eq numeral_eq_Suc)

lemma write_header_bytes:
  assumes "off + LENGTH('a) div 8 \<le> length bytes"
  shows "write_header off (v :: 'a::len word) bytes =
    take off bytes @ le_bytes v @ drop (off + LENGTH('a) div 8) bytes"
proof -
  have "n \<le> LENGTH('a) div 8 \<Longrightarrow> fold (\<lambda>i bs. bs[off + i := le_bytes v ! i]) [0..<n] bytes =
      take off bytes @ take n (le_bytes v) @ drop (off + n) bytes" for n
  proof (induction n)
    case (Suc n)
    then have "drop (off + n) bytes = bytes ! (off + n) # drop (off + Suc n) bytes"
      using assms by (simp add: Cons_nth_drop_Suc)
    with Suc assms show ?case by (simp add: list_update_append take_Suc_conv_app_nth)
  qed simp
  from this [of "LENGTH('a) div 8"] show ?thesis by (simp add: write_header_def)
qed

lemma finished_bytes:
  assumes "wr_error w = None" "wr_bytes w = replicate kControlWireHeaderSize 0 @ bs"
  shows "w_finish w =
    (if 12 + length bs > kControlWireMaxMessageBytes then Inl (MessageTooLarge, 12 + length bs)
     else Inr (wire_header (wr_kind w) (length bs) @ bs))"
  using assms
  by (simp add: w_finish_def Let_def write_header_bytes wire_header_def kControlWireHeaderSize_def)

lemma encode_result:
  assumes "puts f fits bs"
  shows "if fits \<and> 12 + length bs \<le> kControlWireMaxMessageBytes
    then w_finish (f (make_writer kind)) = Inr (wire_header kind (length bs) @ bs)
    else \<exists>e. w_finish (f (make_writer kind)) = Inl e"
proof (cases fits)
  case True
  with assms have "f (make_writer kind) = (make_writer kind)\<lparr>wr_bytes := wr_bytes (make_writer kind) @ bs\<rparr>"
    by (simp add: puts_def make_writer_def)
  then show ?thesis using True by (auto simp: make_writer_def finished_bytes)
next
  case False
  with assms have "wr_error (f (make_writer kind)) \<noteq> None" by (simp add: puts_def make_writer_def)
  with False show ?thesis by (auto simp: w_finish_def)
qed

section \<open>What the operations read\<close>

text \<open>
  \<open>reads v m bs x\<close>: a reader without an error at protocol version \<open>v\<close>, standing before the
  bytes \<open>bs\<close>, returns \<open>x\<close> from \<open>m\<close> and stands right after them, still without an error.
\<close>

definition reads :: "u16 \<Rightarrow> 'a rd \<Rightarrow> byte list \<Rightarrow> 'a \<Rightarrow> bool" where
  "reads v m bs x \<longleftrightarrow>
     (\<forall>r rest. rd_error r = None \<longrightarrow> rd_version r = v \<longrightarrow>
        drop (rd_offset r) (rd_bytes r) = bs @ rest \<longrightarrow>
        run_state m r = (x, r\<lparr>rd_offset := rd_offset r + length bs\<rparr>))"

lemma reader_offset_id [simp]: "r\<lparr>rd_offset := rd_offset r\<rparr> = (r :: reader)"
  by (cases r) simp

lemma reads_return: "reads v (State_Monad.return x) [] x"
  by (simp add: reads_def State_Monad.return_def)

lemma reads_bind:
  assumes "reads v m bs x" "reads v (f x) cs y"
  shows "reads v (m \<bind> f) (bs @ cs) y"
  unfolding reads_def
proof (intro allI impI)
  fix r :: reader and rest
  assume r: "rd_error r = None" "rd_version r = v" "drop (rd_offset r) (rd_bytes r) = (bs @ cs) @ rest"
  let ?r = "r\<lparr>rd_offset := rd_offset r + length bs\<rparr>"
  have "drop (rd_offset ?r) (rd_bytes ?r) = drop (length bs) (drop (rd_offset r) (rd_bytes r))"
    by (simp add: add.commute)
  then have "drop (rd_offset ?r) (rd_bytes ?r) = cs @ rest" by (simp add: r(3))
  with assms r show "run_state (m \<bind> f) r = (y, r\<lparr>rd_offset := rd_offset r + length (bs @ cs)\<rparr>)"
    by (simp add: reads_def State_Monad.bind_def add.assoc)
qed

lemma reads_bind_silent:
  assumes "reads v m [] x" "reads v (f x) cs y"
  shows "reads v (m \<bind> f) cs y"
  using reads_bind [of v m "[]" x f cs y] assms by simp

lemma reads_last:
  assumes "reads v m bs x" "reads v (f x) [] y"
  shows "reads v (m \<bind> f) bs y"
  using reads_bind [of v m bs x f "[]" y] assms by simp

lemma reads_ok: "reads v r_ok [] True"
  by (simp add: reads_def r_ok_def)

lemma reads_version: "reads v r_version [] v"
  by (simp add: reads_def r_version_def)

lemma reads_no_fail: "reads v (r_fail_if False c) [] ()"
  by (simp add: r_fail_if_def reads_return)

lemma reads_take: "reads v (r_take (length bs)) bs bs"
  by (simp add: reads_def r_take_def)

lemma reads_require:
  "rd_error r = None \<Longrightarrow> drop (rd_offset r) (rd_bytes r) = bs @ rest \<Longrightarrow> n \<le> length bs \<Longrightarrow>
     run_state (r_require n) r = (True, r)"
proof -
  assume r: "rd_error r = None" "drop (rd_offset r) (rd_bytes r) = bs @ rest" "n \<le> length bs"
  have "length (rd_bytes r) - rd_offset r = length (drop (rd_offset r) (rd_bytes r))" by simp
  then have "length (rd_bytes r) - rd_offset r = length bs + length rest" by (simp only: r(2) length_append)
  with r show ?thesis by (simp add: r_require_def)
qed

lemma reads_with_require:
  assumes "n = length bs" "reads v (f True) bs x"
  shows "reads v (r_require n \<bind> f) bs x"
  unfolding reads_def
proof (intro allI impI)
  fix r :: reader and rest
  assume r: "rd_error r = None" "rd_version r = v" "drop (rd_offset r) (rd_bytes r) = bs @ rest"
  have "run_state (r_require n) r = (True, r)" using reads_require [OF r(1,3)] assms(1) by simp
  with assms(2) r show "run_state (r_require n \<bind> f) r = (x, r\<lparr>rd_offset := rd_offset r + length bs\<rparr>)"
    by (simp add: State_Monad.bind_def reads_def)
qed

lemma reads_scalar:
  assumes "LENGTH('a) = 8 * n"
  shows "reads v r_scalar (le_bytes w) (w :: 'a::len word)"
proof -
  have "reads v (r_take (LENGTH('a) div 8)) (le_bytes w) (le_bytes w)"
    using reads_take [of v "le_bytes w"] by simp
  then have "reads v (r_take (LENGTH('a) div 8) \<bind> (\<lambda>bs. State_Monad.return (le_word bs)))
      (le_bytes w) (le_word (le_bytes w) :: 'a word)"
    by (rule reads_last) (rule reads_return)
  then show ?thesis
    unfolding r_scalar_def by (intro reads_with_require) (simp_all add: le_word_le_bytes [OF assms])
qed

lemma reads_scalars:
  "reads v r_scalar (le_bytes b) (b :: byte)" "reads v r_scalar (le_bytes h) (h :: u16)"
  "reads v r_scalar (le_bytes w) (w :: u32)" "reads v r_scalar (le_bytes d) (d :: u64)"
  by (rule reads_scalar [where n = 1], simp, rule reads_scalar [where n = 2], simp,
      rule reads_scalar [where n = 4], simp, rule reads_scalar [where n = 8], simp)

lemma reads_boolean: "reads v r_boolean (bool_bytes b) b"
  unfolding r_boolean_def bool_bytes_def
  by (cases b; rule reads_last [OF reads_scalars(1)], rule reads_bind_silent [OF reads_ok])
    (auto intro!: reads_bind_silent [OF reads_no_fail] reads_return)

lemma reads_float32: "f32_finite x \<Longrightarrow> reads v r_float32 (le_bytes x) x"
  unfolding r_float32_def
  by (rule reads_last [OF reads_scalars(3)], rule reads_bind_silent [OF reads_ok])
    (auto intro!: reads_bind_silent [OF reads_no_fail] reads_return)

lemma reads_float64: "f64_finite x \<Longrightarrow> reads v r_float64 (le_bytes x) x"
  unfolding r_float64_def
  by (rule reads_last [OF reads_scalars(4)], rule reads_bind_silent [OF reads_ok])
    (auto intro!: reads_bind_silent [OF reads_no_fail] reads_return)

lemma reads_enumeration:
  "of_code w = x \<Longrightarrow> w \<le> maximum \<Longrightarrow> reads v (r_enumeration of_code maximum) (le_bytes w) x"
  unfolding r_enumeration_def
  by (rule reads_last [OF reads_scalars(3)], rule reads_bind_silent [OF reads_ok])
    (auto intro!: reads_bind_silent [OF reads_no_fail] reads_return simp: leD)

lemma le_bytes_nonempty [simp]: "8 \<le> LENGTH('a) \<Longrightarrow> le_bytes (w :: 'a::len word) \<noteq> []"
  by (simp add: le_bytes_def)

lemma bytes_nonempty [simp]: "string_bytes s \<noteq> []" "count_bytes n \<noteq> []" "bool_bytes b \<noteq> []"
  by (simp_all add: string_bytes_def count_bytes_def bool_bytes_def)

lemma char_of_byte_comp [simp]: "char_of_byte \<circ> byte_of = id"
  by (simp add: fun_eq_iff)

lemma unat_length_u32:
  "n < 2 ^ 32 \<Longrightarrow> unat (word_of_nat n :: u32) = n"
  by (simp add: unsigned_of_nat take_bit_nat_eq_self)

lemma reads_string:
  assumes "string_fits s"
  shows "reads v r_string (string_bytes s) s"
proof -
  have len: "unat (word_of_nat (length s) :: u32) = length s"
    using assms by (simp add: string_fits_def kControlWireMaxStringBytes_def unat_length_u32)
  have "reads v (r_take (length s)) (map byte_of s) (map byte_of s)"
    using reads_take [of v "map byte_of s"] by simp
  then have "reads v (r_take (length s) \<bind> (\<lambda>bs. State_Monad.return (map char_of_byte bs)))
      (map byte_of s) (map char_of_byte (map byte_of s))"
    by (rule reads_last) (rule reads_return)
  then show ?thesis
    unfolding r_string_def string_bytes_def
    using assms
    by (intro reads_bind [OF reads_scalars(3)] reads_bind_silent [OF reads_ok])
      (auto simp: len string_fits_def not_less intro!: reads_with_require)
qed

text \<open>
  A count promises at least that many bytes: \<open>reads_count\<close> holds when the bytes that follow
  really are that many, which every element list guarantees.
\<close>

lemma reads_counted:
  assumes "count_fits n" "n \<le> length bs" "reads v (f (word_of_nat n)) bs x"
  shows "reads v (r_count \<bind> f) (count_bytes n @ bs) x"
proof -
  have n: "unat (word_of_nat n :: u32) = n"
    using assms(1) by (simp add: count_fits_def kControlWireMaxArrayElements_def unat_length_u32)
  let ?check = "\<lambda>w. do { ok \<leftarrow> r_ok;
     if ok \<and> unat w > kControlWireMaxArrayElements then
       do { _ \<leftarrow> r_fail ArrayTooLong; State_Monad.return 0 }
     else do {
       remaining \<leftarrow> r_remaining;
       if ok \<and> unat w > remaining then
         do { _ \<leftarrow> r_fail Truncated; State_Monad.return 0 }
       else State_Monad.return w
     } } :: u32 rd"
  have "reads v (?check (word_of_nat n) \<bind> f) bs x"
    unfolding reads_def
  proof (intro allI impI)
    fix r :: reader and rest
    assume r: "rd_error r = None" "rd_version r = v" "drop (rd_offset r) (rd_bytes r) = bs @ rest"
    have "length (rd_bytes r) - rd_offset r = length (drop (rd_offset r) (rd_bytes r))" by simp
    then have "length (rd_bytes r) - rd_offset r = length bs + length rest" by (simp only: r(3) length_append)
    then have "run_state (?check (word_of_nat n)) r = (word_of_nat n, r)"
      using r(1) assms(1,2) n
      by (simp add: State_Monad.bind_def r_ok_def r_remaining_def State_Monad.return_def count_fits_def)
    with assms(3) r show "run_state (?check (word_of_nat n) \<bind> f) r = (x, r\<lparr>rd_offset := rd_offset r + length bs\<rparr>)"
      by (simp add: State_Monad.bind_def reads_def)
  qed
  with reads_scalars(3) have "reads v (r_scalar \<bind> (\<lambda>w. ?check w \<bind> f))
      (le_bytes (word_of_nat n :: u32) @ bs) x"
    by (rule reads_bind)
  then show ?thesis by (simp only: r_count_def count_bytes_def State_Monad.bind_assoc)
qed

lemma reads_repeat:
  "\<forall>x \<in> set xs. reads v m (g x) x \<Longrightarrow> reads v (r_repeat (length xs) m) (concat (map g xs)) xs"
proof (induction xs)
  case (Cons x xs)
  have "reads v (m \<bind> (\<lambda>x. r_repeat (length xs) m \<bind> (\<lambda>xs. State_Monad.return (x # xs))))
      (g x @ concat (map g xs)) (x # xs)"
    by (rule reads_bind [of _ _ _ x], use Cons in simp, rule reads_last [of _ _ _ xs], use Cons in simp,
        rule reads_return)
  then show ?case by (auto intro!: reads_bind_silent [OF reads_ok])
qed (simp add: reads_return)

lemma reads_each:
  "\<forall>x \<in> set xs. reads v (f (h x)) (g x) x \<Longrightarrow> reads v (r_each f (map h xs)) (concat (map g xs)) xs"
proof (induction xs)
  case (Cons x xs)
  then show ?case
    unfolding list.map concat.simps r_each.simps
    by (intro reads_bind [of _ _ _ x]) (simp, rule reads_last [of _ _ _ xs], simp, rule reads_return)
qed (simp add: reads_return)

definition list_bytes :: "('a \<Rightarrow> byte list) \<Rightarrow> 'a list \<Rightarrow> byte list" where
  "list_bytes g xs = count_bytes (length xs) @ concat (map g xs)"

lemma list_bytes_nonempty [simp]: "list_bytes g xs \<noteq> []"
  by (simp add: list_bytes_def)

lemma length_concat_nonempty: "\<forall>x \<in> set xs. g x \<noteq> [] \<Longrightarrow> length xs \<le> length (concat (map g xs))"
proof (induction xs)
  case (Cons x xs)
  then have "1 \<le> length (g x)" "length xs \<le> length (concat (map g xs))" by (auto simp: Suc_le_eq)
  then show ?case by simp
qed simp

lemma unat_count: "count_fits n \<Longrightarrow> unat (word_of_nat n :: u32) = n"
  by (simp add: count_fits_def kControlWireMaxArrayElements_def unat_length_u32)

lemma reads_list:
  assumes "count_fits (length xs)" "\<forall>x \<in> set xs. g x \<noteq> []" "\<forall>x \<in> set xs. reads v m (g x) x"
    and "reads v (f xs) rest y"
  shows "reads v (r_count \<bind> (\<lambda>n. r_repeat (unat n) m \<bind> f)) (list_bytes g xs @ rest) y"
proof -
  have "reads v (r_repeat (length xs) m \<bind> f) (concat (map g xs) @ rest) y"
    using reads_repeat [OF assms(3)] assms(4) by (rule reads_bind)
  then have "reads v (r_count \<bind> (\<lambda>n. r_repeat (unat n) m \<bind> f))
      (count_bytes (length xs) @ (concat (map g xs) @ rest)) y"
    using assms(1) length_concat_nonempty [OF assms(2)]
    by (intro reads_counted) (simp_all add: unat_count)
  then show ?thesis by (simp add: list_bytes_def)
qed

lemma reads_list_checked:
  assumes "count_fits (length xs)" "\<forall>x \<in> set xs. g x \<noteq> []" "\<forall>x \<in> set xs. reads v m (g x) x"
    and "reads v (f xs) rest y"
  shows "reads v (r_count \<bind> (\<lambda>n. r_ok \<bind> (\<lambda>ok. if \<not> ok then k n else r_repeat (unat n) m \<bind> f)))
    (list_bytes g xs @ rest) y"
proof -
  have "reads v (r_repeat (length xs) m \<bind> f) (concat (map g xs) @ rest) y"
    using reads_repeat [OF assms(3)] assms(4) by (rule reads_bind)
  then have "reads v (r_count \<bind> (\<lambda>n. r_ok \<bind> (\<lambda>ok. if \<not> ok then k n else r_repeat (unat n) m \<bind> f)))
      (count_bytes (length xs) @ (concat (map g xs) @ rest)) y"
    using assms(1) length_concat_nonempty [OF assms(2)]
    by (intro reads_counted reads_bind_silent [OF reads_ok]) (simp_all add: unat_count)
  then show ?thesis by (simp add: list_bytes_def)
qed

lemma reads_if:
  "(b \<Longrightarrow> reads v m bs x) \<Longrightarrow>
     reads v (if b then m else State_Monad.return d) (if b then bs else []) (if b then x else d)"
  by (simp add: reads_return)

text \<open>Loops guarded by a check of the reader, and fields behind a presence flag.\<close>

lemma reads_list_guarded:
  assumes "count_fits (length xs)" "\<forall>x \<in> set xs. g x \<noteq> []" "\<forall>x \<in> set xs. reads v m (g x) x"
    and "reads v (f xs) rest y"
  shows "reads v (r_count \<bind> (\<lambda>n. r_ok \<bind> (\<lambda>ok.
      (if ok then r_repeat (unat n) m else State_Monad.return d) \<bind> f))) (list_bytes g xs @ rest) y"
proof -
  have "reads v (r_repeat (length xs) m \<bind> f) (concat (map g xs) @ rest) y"
    using reads_repeat [OF assms(3)] assms(4) by (rule reads_bind)
  then have "reads v (r_count \<bind> (\<lambda>n. r_ok \<bind> (\<lambda>ok.
      (if ok then r_repeat (unat n) m else State_Monad.return d) \<bind> f)))
      (count_bytes (length xs) @ (concat (map g xs) @ rest)) y"
    using assms(1) length_concat_nonempty [OF assms(2)]
    by (intro reads_counted reads_bind_silent [OF reads_ok]) (simp_all add: unat_count)
  then show ?thesis by (simp add: list_bytes_def)
qed

lemma reads_guarded:
  assumes "b \<Longrightarrow> reads v m bs x" "reads v (f b (if b then x else d)) rest y"
  shows "reads v (r_boolean \<bind> (\<lambda>h. r_ok \<bind> (\<lambda>ok.
      (if ok \<and> h then m else State_Monad.return d) \<bind> f h)))
    (bool_bytes b @ (if b then bs else []) @ rest) y"
proof -
  have "reads v ((if b then m else State_Monad.return d) \<bind> f b) ((if b then bs else []) @ rest) y"
    by (rule reads_bind [OF reads_if]) (use assms in auto)
  then show ?thesis
    by (intro reads_bind [OF reads_boolean] reads_bind_silent [OF reads_ok]) simp
qed

definition w_option :: "('a \<Rightarrow> wop) \<Rightarrow> 'a option \<Rightarrow> wop" where
  "w_option f x w = (case x of None \<Rightarrow> w | Some y \<Rightarrow> f y w)"

definition option_bytes :: "('a \<Rightarrow> byte list) \<Rightarrow> 'a option \<Rightarrow> byte list" where
  "option_bytes g x = bool_bytes (x \<noteq> None) @ (case x of None \<Rightarrow> [] | Some y \<Rightarrow> g y)"

section \<open>The codec contract\<close>

text \<open>
  An encoder and a decoder of the same value: the encoder writes \<open>ser x\<close> when the limits hold,
  and the decoder reads \<open>x\<close> back from it when the value is one the wire can carry.
\<close>

locale wire_codec =
  fixes enc :: "'a \<Rightarrow> wop"
    and dec :: "'a rd"
    and ser :: "'a \<Rightarrow> byte list"
    and fits :: "'a \<Rightarrow> bool"
    and carried :: "'a \<Rightarrow> bool"
  assumes enc_puts: "puts (enc x) (fits x) (ser x)"
    and dec_reads: "fits x \<Longrightarrow> carried x \<Longrightarrow> reads kControlWireVersion dec (ser x) x"
    and ser_nonempty: "ser x \<noteq> []"
begin

definition list_fits :: "'a list \<Rightarrow> bool" where
  "list_fits xs \<longleftrightarrow> count_fits (length xs) \<and> (\<forall>x \<in> set xs. fits x)"

text \<open>A counted container of encoded elements, written and read as the code's loops do.\<close>

lemma puts_list:
  assumes "puts (w_seq fs) b bs"
  shows "puts (w_seq (w_count (length xs) # w_each enc xs # fs)) (list_fits xs \<and> b)
    (list_bytes ser xs @ bs)"
  using puts_Cons [OF puts_count puts_Cons [OF puts_each [of enc fits ser xs] assms], OF enc_puts]
  by (simp only: list_fits_def list_bytes_def append_assoc conj_assoc)

lemma reads_elements:
  assumes "list_fits xs" "\<forall>x \<in> set xs. carried x" "reads kControlWireVersion (f xs) rest y"
  shows "reads kControlWireVersion (r_count \<bind> (\<lambda>n. r_repeat (unat n) dec \<bind> f))
      (list_bytes ser xs @ rest) y"
    and "reads kControlWireVersion
      (r_count \<bind> (\<lambda>n. r_ok \<bind> (\<lambda>ok. if \<not> ok then k n else r_repeat (unat n) dec \<bind> f)))
      (list_bytes ser xs @ rest) y"
    and "reads kControlWireVersion
      (r_count \<bind> (\<lambda>n. r_ok \<bind> (\<lambda>ok.
        (if ok then r_repeat (unat n) dec else State_Monad.return d) \<bind> f)))
      (list_bytes ser xs @ rest) y"
  using assms by (auto simp: list_fits_def ser_nonempty
      intro!: reads_list reads_list_checked reads_list_guarded dec_reads)

text \<open>An optional element behind its presence flag.\<close>

definition option_fits :: "'a option \<Rightarrow> bool" where
  "option_fits x \<longleftrightarrow> (case x of None \<Rightarrow> True | Some y \<Rightarrow> fits y)"

lemma puts_option:
  assumes "puts (w_seq fs) b bs"
  shows "puts (w_seq (w_boolean (x \<noteq> None) # w_option enc x # fs)) (option_fits x \<and> b)
    (option_bytes ser x @ bs)"
proof -
  have "puts (w_option enc x) (option_fits x) (case x of None \<Rightarrow> [] | Some y \<Rightarrow> ser y)"
    using enc_puts by (cases x) (simp_all add: w_option_def option_fits_def puts_def)
  from puts_Cons [OF puts_boolean puts_Cons [OF this assms]] show ?thesis
    by (simp only: option_bytes_def append_assoc simp_thms)
qed

lemma reads_option:
  assumes "option_fits x" "\<forall>y. x = Some y \<longrightarrow> carried y" "reads kControlWireVersion (f x) rest z"
  shows "reads kControlWireVersion (r_boolean \<bind> (\<lambda>h.
      (if h then dec \<bind> (\<lambda>y. State_Monad.return (Some y)) else State_Monad.return None) \<bind> f))
    (option_bytes ser x @ rest) z"
proof (cases x)
  case None
  then show ?thesis
    using assms(3) by (simp add: option_bytes_def) (rule reads_bind [OF reads_boolean], simp)
next
  case (Some y)
  have "reads kControlWireVersion (dec \<bind> (\<lambda>y. State_Monad.return (Some y))) (ser y) (Some y)"
    using assms(1,2) Some by (intro reads_last [OF dec_reads] reads_return) (auto simp: option_fits_def)
  from reads_bind [OF this, of f rest z] assms(3)
  have "reads kControlWireVersion ((dec \<bind> (\<lambda>y. State_Monad.return (Some y))) \<bind> f) (ser y @ rest) z"
    using Some by simp
  then show ?thesis
    unfolding option_bytes_def append_assoc using Some
    by (intro reads_bind [OF reads_boolean]) simp
qed

text \<open>Two values in a row come back as the pair.\<close>

lemma reads_pair:
  assumes "fits x" "carried x" "fits y" "carried y"
  shows "reads kControlWireVersion (do { a \<leftarrow> dec; b \<leftarrow> dec; State_Monad.return (a, b) })
    (ser x @ ser y) (x, y)"
  by (rule reads_bind [OF dec_reads [OF assms(1,2)]], rule reads_last [OF dec_reads [OF assms(3,4)]],
      rule reads_return)

end

interpretation str: wire_codec w_string r_string string_bytes string_fits "\<lambda>_. True"
  by unfold_locales (auto simp: puts_string reads_string)

interpretation num64: wire_codec "w_scalar :: u64 \<Rightarrow> wop" r_scalar le_bytes "\<lambda>_. True" "\<lambda>_. True"
  by unfold_locales (auto simp: puts_scalar reads_scalars)

interpretation float64: wire_codec w_float64 r_float64 le_bytes "\<lambda>_. True" f64_finite
  by unfold_locales (auto simp: puts_float64 reads_float64)

interpretation num: wire_codec "w_scalar :: u32 \<Rightarrow> wop" r_scalar le_bytes "\<lambda>_. True" "\<lambda>_. True"
  by unfold_locales (auto simp: puts_scalar reads_scalars)

section \<open>Rules for whole records\<close>

lemma puts_cong: "puts f a x \<Longrightarrow> a = b \<Longrightarrow> x = y \<Longrightarrow> puts f b y"
  by simp

lemma reads_return_eq: "x = y \<Longrightarrow> reads v (State_Monad.return x) [] y"
  using reads_return by simp

lemmas puts_intros = puts_Nil puts_Cons puts_scalar puts_boolean puts_float32 puts_float64
  puts_string puts_count puts_when

lemmas reads_intros = reads_return_eq reads_bind_silent [OF reads_ok]
  reads_bind_silent [OF reads_version] reads_bind reads_scalars reads_boolean reads_float32
  reads_float64 reads_string

section \<open>Readers stay inside the message\<close>

text \<open>
  Whatever the bytes are: an operation only moves forward, never past the end of the message,
  never changes the message or the version, reports an error at a position inside the message,
  and does nothing at all once an error has been reported.
\<close>

definition rd_step :: "reader \<Rightarrow> reader \<Rightarrow> bool" where
  "rd_step r r' \<longleftrightarrow> rd_bytes r' = rd_bytes r \<and> rd_version r' = rd_version r \<and>
     rd_offset r \<le> rd_offset r' \<and> rd_offset r' \<le> length (rd_bytes r) \<and>
     (rd_error r \<noteq> None \<longrightarrow> r' = r) \<and>
     (\<forall>c off. rd_error r = None \<longrightarrow> rd_error r' = Some (c, off) \<longrightarrow> off = rd_offset r')"

definition safe :: "'a rd \<Rightarrow> bool" where
  "safe m \<longleftrightarrow> (\<forall>r. rd_offset r \<le> length (rd_bytes r) \<longrightarrow> rd_step r (snd (run_state m r)))"

lemma rd_step_refl: "rd_offset r \<le> length (rd_bytes r) \<Longrightarrow> rd_step r r"
  by (simp add: rd_step_def)

lemma rd_step_trans: "rd_step r s \<Longrightarrow> rd_step s t \<Longrightarrow> rd_step r t"
  unfolding rd_step_def by (cases "rd_error s") (auto)

lemma safe_return [wire_safe]: "safe (State_Monad.return x)"
  by (simp add: safe_def rd_step_refl)

lemma safe_bind [wire_safe]:
  assumes "safe m" "\<And>x. safe (f x)"
  shows "safe (m \<bind> f)"
  unfolding safe_def
proof (intro allI impI)
  fix r :: reader
  assume r: "rd_offset r \<le> length (rd_bytes r)"
  obtain x s where m: "run_state m r = (x, s)" by (cases "run_state m r")
  with assms(1) r have s: "rd_step r s" by (force simp: safe_def)
  then have "rd_offset s \<le> length (rd_bytes s)" by (simp add: rd_step_def)
  with assms(2) have "rd_step s (snd (run_state (f x) s))" by (simp add: safe_def)
  with s m show "rd_step r (snd (run_state (m \<bind> f) r))" by (auto intro: rd_step_trans)
qed

lemma safe_if [wire_safe]: "safe m \<Longrightarrow> safe n \<Longrightarrow> safe (if b then m else n)"
  by simp

lemma safe_fail [wire_safe]: "safe (r_fail c)"
  by (auto simp: safe_def rd_step_def r_fail_def)

lemma safe_fail_if [wire_safe]: "safe (r_fail_if b c)"
  by (simp add: r_fail_if_def safe_fail safe_return)

lemma safe_ok [wire_safe]: "safe r_ok"
  by (simp add: safe_def r_ok_def rd_step_refl)

lemma safe_version [wire_safe]: "safe r_version"
  by (simp add: safe_def r_version_def rd_step_refl)

lemma safe_remaining [wire_safe]: "safe r_remaining"
  by (simp add: safe_def r_remaining_def rd_step_refl)

lemma safe_require_take:
  "safe (do { p \<leftarrow> r_require n;
     if \<not> p then State_Monad.return x
     else do { bs \<leftarrow> r_take n; State_Monad.return (f bs) } })"
  by (auto simp: safe_def rd_step_def r_require_def r_take_def r_fail_def)

lemma safe_scalar [wire_safe]: "safe r_scalar"
  unfolding r_scalar_def by (rule safe_require_take)

lemma safe_boolean [wire_safe]: "safe r_boolean"
  unfolding r_boolean_def by (intro wire_safe)

lemma safe_float32 [wire_safe]: "safe r_float32"
  unfolding r_float32_def by (intro wire_safe)

lemma safe_float64 [wire_safe]: "safe r_float64"
  unfolding r_float64_def by (intro wire_safe)

lemma safe_string [wire_safe]: "safe r_string"
  unfolding r_string_def by (intro wire_safe safe_require_take)

lemma safe_count [wire_safe]: "safe r_count"
  unfolding r_count_def by (intro wire_safe)

lemma safe_enumeration [wire_safe]: "safe (r_enumeration of_code maximum)"
  unfolding r_enumeration_def by (intro wire_safe)

lemma safe_finish [wire_safe]: "safe r_finish"
  unfolding r_finish_def by (intro wire_safe) (simp add: safe_def rd_step_refl)

lemma safe_repeat [wire_safe]: "safe m \<Longrightarrow> safe (r_repeat n m)"
proof (induction n)
  case (Suc n)
  then show ?case unfolding r_repeat.simps by (intro wire_safe) simp_all
qed (simp add: safe_return)

lemma safe_each [wire_safe]: "(\<And>x. safe (f x)) \<Longrightarrow> safe (r_each f xs)"
proof (induction xs)
  case (Cons x xs)
  then show ?case unfolding r_each.simps by (intro wire_safe) simp_all
qed (simp add: safe_return)

section \<open>Reading a whole message\<close>

text \<open>The constructor sets the version, so it is not \<open>safe\<close>, but it keeps the bounds.\<close>

definition rd_bounded :: "reader \<Rightarrow> bool" where
  "rd_bounded r \<longleftrightarrow> rd_offset r \<le> length (rd_bytes r) \<and>
     (\<forall>c off. rd_error r = Some (c, off) \<longrightarrow> off \<le> length (rd_bytes r))"

definition bounded :: "'a rd \<Rightarrow> bool" where
  "bounded m \<longleftrightarrow> (\<forall>r. rd_bounded r \<longrightarrow>
     rd_bounded (snd (run_state m r)) \<and> rd_bytes (snd (run_state m r)) = rd_bytes r)"

lemma safe_bounded: "safe m \<Longrightarrow> bounded m"
  unfolding bounded_def
proof (intro allI impI)
  fix r :: reader
  assume m: "safe m" and r: "rd_bounded r"
  then have "rd_step r (snd (run_state m r))" by (simp add: safe_def rd_bounded_def)
  with r show "rd_bounded (snd (run_state m r)) \<and> rd_bytes (snd (run_state m r)) = rd_bytes r"
    by (cases "rd_error r") (auto simp: rd_step_def rd_bounded_def)
qed

lemma bounded_bind:
  assumes "bounded m" "\<And>x. bounded (f x)"
  shows "bounded (m \<bind> f)"
  unfolding bounded_def
proof (intro allI impI)
  fix r :: reader
  assume r: "rd_bounded r"
  obtain x s where m: "run_state m r = (x, s)" by (cases "run_state m r")
  with assms(1) r have "rd_bounded s \<and> rd_bytes s = rd_bytes r" by (force simp: bounded_def)
  with assms(2) m show "rd_bounded (snd (run_state (m \<bind> f) r)) \<and>
      rd_bytes (snd (run_state (m \<bind> f) r)) = rd_bytes r"
    by (simp add: bounded_def)
qed

lemma bounded_set_version: "bounded (r_set_version v)"
  by (simp add: bounded_def r_set_version_def rd_bounded_def)

lemma bounded_header: "bounded (r_header n kind)"
  unfolding r_header_def
  by (intro bounded_bind bounded_set_version safe_bounded [OF safe_scalar] safe_bounded) (intro wire_safe)+

lemma make_reader_bounded: "rd_bounded (make_reader bytes kind) \<and> rd_bytes (make_reader bytes kind) = bytes"
proof -
  let ?r = "\<lparr>rd_bytes = bytes, rd_offset = 0, rd_version = 0, rd_error = None\<rparr>"
  have r: "rd_bounded ?r" by (simp add: rd_bounded_def)
  then have "rd_bounded (snd (run_state m ?r)) \<and> rd_bytes (snd (run_state m ?r)) = bytes"
    if "bounded m" for m :: "unit rd" using that by (simp add: bounded_def)
  then show ?thesis
    using bounded_header safe_bounded [OF safe_fail] unfolding make_reader_def Let_def by presburger
qed

text \<open>Reading the header the writer puts in front of a payload.\<close>

lemma make_reader_message:
  assumes "12 + length bs \<le> kControlWireMaxMessageBytes"
  shows "make_reader (wire_header kind (length bs) @ bs) kind =
    \<lparr>rd_bytes = wire_header kind (length bs) @ bs, rd_offset = 12, rd_version = kControlWireVersion,
     rd_error = None\<rparr>"
proof -
  let ?B = "wire_header kind (length bs) @ bs" and ?n = "word_of_nat (length bs) :: u32"
  let ?r = "\<lambda>off v. \<lparr>rd_bytes = ?B, rd_offset = off, rd_version = v, rd_error = None\<rparr> :: reader"
  have 1: "run_state r_scalar (?r 0 0) = (kMagic, ?r 4 0)"
    using reads_scalars(3) [of 0 kMagic] by (simp add: reads_def wire_header_def)
  have 2: "run_state r_scalar (?r 4 0) = (kControlWireVersion, ?r 6 0)"
    using reads_scalars(2) [of 0 kControlWireVersion] by (simp add: reads_def wire_header_def)
  have 3: "run_state r_scalar (?r 6 kControlWireVersion) = (kind, ?r 8 kControlWireVersion)"
    using reads_scalars(2) [of kControlWireVersion kind] by (simp add: reads_def wire_header_def)
  have 4: "run_state r_scalar (?r 8 kControlWireVersion) = (?n, ?r 12 kControlWireVersion)"
    using reads_scalars(3) [of kControlWireVersion ?n] by (simp add: reads_def wire_header_def)
  have len: "unat ?n = length bs"
    using assms by (simp add: kControlWireMaxMessageBytes_def unat_length_u32)
  have "run_state (r_header (length ?B) kind) (?r 0 0) = ((), ?r 12 kControlWireVersion)"
    by (simp add: r_header_def 1 2 3 4 r_set_version_def r_ok_def len kControlWireHeaderSize_def
        r_fail_if_def) (simp add: kControlWireVersion_def)
  then show ?thesis
    using assms by (simp add: make_reader_def Let_def kControlWireHeaderSize_def)
qed

end
