(* ===== verification/WireCodecs.thy ===== *)
theory WireCodecs
  imports ControlResponse WireFormat
begin

text \<open>
  The codecs of \<^verbatim>\<open>core/control/control_wire_protocol.cpp\<close> for the parts of a message, over
  the writer and reader of \<open>WireFormat\<close>: enumerations, presets, diagnostics and devices. Every
  encoder/decoder pair is an interpretation of \<open>wire_codec\<close>.
\<close>

section \<open>Enumerations on the wire\<close>

text \<open>
  An enumeration travels as its 32-bit value. A number above the largest enumerator fails the
  reader; what the field then holds is not part of a successful result, so for types without
  an \<open>Unnamed\<close> constructor any enumerator may stand for it.
\<close>

fun command_type_code :: "control_command_type \<Rightarrow> u32" where
  "command_type_code ListDevices = 0"
| "command_type_code CreateVirtualEndpoint = 1"
| "command_type_code RemoveVirtualEndpoint = 2"
| "command_type_code ConnectRoute = 3"
| "command_type_code DisconnectRoute = 4"
| "command_type_code SetGain = 5"
| "command_type_code SetMute = 6"
| "command_type_code LoadPreset = 7"
| "command_type_code SavePreset = 8"
| "command_type_code QueryDiagnostics = 9"
| "command_type_code QueryActiveGraph = 10"
| "command_type_code QuerySessionState = 11"
| "command_type_code QueryAudioRuntime = 12"
| "command_type_code StartAudioRuntime = 13"
| "command_type_code StopAudioRuntime = 14"
| "command_type_code ConfigureAudioRuntime = 15"
| "command_type_code QueryVirtualAsioDevices = 16"
| "command_type_code ConfigureVirtualAsioDevices = 17"
| "command_type_code (UnnamedCommandType w) = w"

definition command_type_of :: "u32 \<Rightarrow> control_command_type" where
  "command_type_of w =
     (if w = 0 then ListDevices else if w = 1 then CreateVirtualEndpoint else
      if w = 2 then RemoveVirtualEndpoint else if w = 3 then ConnectRoute else
      if w = 4 then DisconnectRoute else if w = 5 then SetGain else
      if w = 6 then SetMute else if w = 7 then LoadPreset else if w = 8 then SavePreset else
      if w = 9 then QueryDiagnostics else if w = 10 then QueryActiveGraph else
      if w = 11 then QuerySessionState else if w = 12 then QueryAudioRuntime else
      if w = 13 then StartAudioRuntime else if w = 14 then StopAudioRuntime else
      if w = 15 then ConfigureAudioRuntime else if w = 16 then QueryVirtualAsioDevices else
      if w = 17 then ConfigureVirtualAsioDevices else UnnamedCommandType w)"

lemma command_type_of_code [simp]: "\<forall>w. x \<noteq> UnnamedCommandType w \<Longrightarrow> command_type_of (command_type_code x) = x"
  by (cases x) (simp_all add: command_type_of_def)

lemma command_type_code_max: "\<forall>w. x \<noteq> UnnamedCommandType w \<Longrightarrow> command_type_code x \<le> 17"
  by (cases x) simp_all

lemma reads_command_type_code: "\<forall>w. x \<noteq> UnnamedCommandType w \<Longrightarrow>
    reads v (r_enumeration command_type_of 17) (le_bytes (command_type_code x)) x"
  by (rule reads_enumeration) (simp_all add: command_type_code_max)

fun runtime_mode_code :: "audio_runtime_mode \<Rightarrow> u32" where
  "runtime_mode_code ModeNone = 0"
| "runtime_mode_code WasapiRender = 1"
| "runtime_mode_code WasapiDuplex = 2"
| "runtime_mode_code WasapiMatrix = 3"
| "runtime_mode_code PhysicalAsioMode = 4"
| "runtime_mode_code (UnnamedMode w) = w"

definition runtime_mode_of :: "u32 \<Rightarrow> audio_runtime_mode" where
  "runtime_mode_of w =
     (if w = 0 then ModeNone else if w = 1 then WasapiRender else
      if w = 2 then WasapiDuplex else if w = 3 then WasapiMatrix else
      if w = 4 then PhysicalAsioMode else UnnamedMode w)"

lemma runtime_mode_of_code [simp]: "\<forall>w. x \<noteq> UnnamedMode w \<Longrightarrow> runtime_mode_of (runtime_mode_code x) = x"
  by (cases x) (simp_all add: runtime_mode_of_def)

lemma runtime_mode_code_max: "\<forall>w. x \<noteq> UnnamedMode w \<Longrightarrow> runtime_mode_code x \<le> 4"
  by (cases x) simp_all

lemma reads_runtime_mode_code: "\<forall>w. x \<noteq> UnnamedMode w \<Longrightarrow>
    reads v (r_enumeration runtime_mode_of 4) (le_bytes (runtime_mode_code x)) x"
  by (rule reads_enumeration) (simp_all add: runtime_mode_code_max)

fun runtime_direction_code :: "runtime_direction \<Rightarrow> u32" where
  "runtime_direction_code Capture = 0"
| "runtime_direction_code Render = 1"
| "runtime_direction_code (UnnamedDirection w) = w"

definition runtime_direction_of :: "u32 \<Rightarrow> runtime_direction" where
  "runtime_direction_of w =
     (if w = 0 then Capture else if w = 1 then Render else UnnamedDirection w)"

lemma runtime_direction_of_code [simp]: "\<forall>w. x \<noteq> UnnamedDirection w \<Longrightarrow> runtime_direction_of (runtime_direction_code x) = x"
  by (cases x) (simp_all add: runtime_direction_of_def)

lemma runtime_direction_code_max: "\<forall>w. x \<noteq> UnnamedDirection w \<Longrightarrow> runtime_direction_code x \<le> 1"
  by (cases x) simp_all

lemma reads_runtime_direction_code: "\<forall>w. x \<noteq> UnnamedDirection w \<Longrightarrow>
    reads v (r_enumeration runtime_direction_of 1) (le_bytes (runtime_direction_code x)) x"
  by (rule reads_enumeration) (simp_all add: runtime_direction_code_max)

fun runtime_backend_code :: "runtime_backend \<Rightarrow> u32" where
  "runtime_backend_code WasapiBackend = 0"
| "runtime_backend_code PhysicalAsioBackend = 1"
| "runtime_backend_code (UnnamedBackend w) = w"

definition runtime_backend_of :: "u32 \<Rightarrow> runtime_backend" where
  "runtime_backend_of w =
     (if w = 0 then WasapiBackend else if w = 1 then PhysicalAsioBackend else UnnamedBackend w)"

lemma runtime_backend_of_code [simp]: "\<forall>w. x \<noteq> UnnamedBackend w \<Longrightarrow> runtime_backend_of (runtime_backend_code x) = x"
  by (cases x) (simp_all add: runtime_backend_of_def)

lemma runtime_backend_code_max: "\<forall>w. x \<noteq> UnnamedBackend w \<Longrightarrow> runtime_backend_code x \<le> 1"
  by (cases x) simp_all

lemma reads_runtime_backend_code: "\<forall>w. x \<noteq> UnnamedBackend w \<Longrightarrow>
    reads v (r_enumeration runtime_backend_of 1) (le_bytes (runtime_backend_code x)) x"
  by (rule reads_enumeration) (simp_all add: runtime_backend_code_max)

fun backend_kind_code :: "audio_backend_kind \<Rightarrow> u32" where
  "backend_kind_code Wasapi = 0"
| "backend_kind_code WasapiLoopback = 1"
| "backend_kind_code Asio = 2"
| "backend_kind_code VirtualWasapi = 3"
| "backend_kind_code VirtualAsio = 4"
| "backend_kind_code Mock = 5"

definition backend_kind_of :: "u32 \<Rightarrow> audio_backend_kind" where
  "backend_kind_of w =
     (if w = 0 then Wasapi else if w = 1 then WasapiLoopback else if w = 2 then Asio else
      if w = 3 then VirtualWasapi else if w = 4 then VirtualAsio else Mock)"

lemma backend_kind_of_code [simp]: "backend_kind_of (backend_kind_code x) = x"
  by (cases x) (simp_all add: backend_kind_of_def)

lemma backend_kind_code_max [simp]: "backend_kind_code x \<le> 5"
  by (cases x) simp_all

lemma reads_backend_kind_code: "reads v (r_enumeration backend_kind_of 5) (le_bytes (backend_kind_code x)) x"
  by (rule reads_enumeration) simp_all

fun device_direction_code :: "audio_device_direction \<Rightarrow> u32" where
  "device_direction_code Input = 0"
| "device_direction_code Output = 1"
| "device_direction_code Duplex = 2"

definition device_direction_of :: "u32 \<Rightarrow> audio_device_direction" where
  "device_direction_of w =
     (if w = 0 then Input else if w = 1 then Output else Duplex)"

lemma device_direction_of_code [simp]: "device_direction_of (device_direction_code x) = x"
  by (cases x) (simp_all add: device_direction_of_def)

lemma device_direction_code_max [simp]: "device_direction_code x \<le> 2"
  by (cases x) simp_all

lemma reads_device_direction_code: "reads v (r_enumeration device_direction_of 2) (le_bytes (device_direction_code x)) x"
  by (rule reads_enumeration) simp_all

fun sample_format_code :: "audio_sample_format \<Rightarrow> u32" where
  "sample_format_code Unknown = 0"
| "sample_format_code PcmInt = 1"
| "sample_format_code IeeeFloat = 2"

definition sample_format_of :: "u32 \<Rightarrow> audio_sample_format" where
  "sample_format_of w =
     (if w = 0 then Unknown else if w = 1 then PcmInt else IeeeFloat)"

lemma sample_format_of_code [simp]: "sample_format_of (sample_format_code x) = x"
  by (cases x) (simp_all add: sample_format_of_def)

lemma sample_format_code_max [simp]: "sample_format_code x \<le> 2"
  by (cases x) simp_all

lemma reads_sample_format_code: "reads v (r_enumeration sample_format_of 2) (le_bytes (sample_format_code x)) x"
  by (rule reads_enumeration) simp_all

fun recovery_state_code :: "recovery_state \<Rightarrow> u32" where
  "recovery_state_code RecoveryStopped = 0"
| "recovery_state_code RecoveryOpening = 1"
| "recovery_state_code RecoveryRunning = 2"
| "recovery_state_code RecoveryQuiescing = 3"
| "recovery_state_code RecoveryBackoff = 4"
| "recovery_state_code RecoveryFaulted = 5"

definition recovery_state_of :: "u32 \<Rightarrow> recovery_state" where
  "recovery_state_of w =
     (if w = 0 then RecoveryStopped else if w = 1 then RecoveryOpening else
      if w = 2 then RecoveryRunning else if w = 3 then RecoveryQuiescing else
      if w = 4 then RecoveryBackoff else RecoveryFaulted)"

lemma recovery_state_of_code [simp]: "recovery_state_of (recovery_state_code x) = x"
  by (cases x) (simp_all add: recovery_state_of_def)

lemma recovery_state_code_max [simp]: "recovery_state_code x \<le> 5"
  by (cases x) simp_all

lemma reads_recovery_state_code: "reads v (r_enumeration recovery_state_of 5) (le_bytes (recovery_state_code x)) x"
  by (rule reads_enumeration) simp_all

fun runtime_health_code :: "runtime_health \<Rightarrow> u32" where
  "runtime_health_code HealthStopped = 0"
| "runtime_health_code HealthHealthy = 1"
| "runtime_health_code HealthDegraded = 2"
| "runtime_health_code HealthFaulted = 3"

definition runtime_health_of :: "u32 \<Rightarrow> runtime_health" where
  "runtime_health_of w =
     (if w = 0 then HealthStopped else if w = 1 then HealthHealthy else
      if w = 2 then HealthDegraded else HealthFaulted)"

lemma runtime_health_of_code [simp]: "runtime_health_of (runtime_health_code x) = x"
  by (cases x) (simp_all add: runtime_health_of_def)

lemma runtime_health_code_max [simp]: "runtime_health_code x \<le> 3"
  by (cases x) simp_all

lemma reads_runtime_health_code: "reads v (r_enumeration runtime_health_of 3) (le_bytes (runtime_health_code x)) x"
  by (rule reads_enumeration) simp_all

fun runtime_role_code :: "runtime_role \<Rightarrow> u32" where
  "runtime_role_code Master = 0"
| "runtime_role_code Follower = 1"

definition runtime_role_of :: "u32 \<Rightarrow> runtime_role" where
  "runtime_role_of w =
     (if w = 0 then Master else Follower)"

lemma runtime_role_of_code [simp]: "runtime_role_of (runtime_role_code x) = x"
  by (cases x) (simp_all add: runtime_role_of_def)

lemma runtime_role_code_max [simp]: "runtime_role_code x \<le> 1"
  by (cases x) simp_all

lemma reads_runtime_role_code: "reads v (r_enumeration runtime_role_of 1) (le_bytes (runtime_role_code x)) x"
  by (rule reads_enumeration) simp_all

fun response_status_code :: "response_status \<Rightarrow> u32" where
  "response_status_code Accepted = 0"
| "response_status_code Rejected = 1"

definition response_status_of :: "u32 \<Rightarrow> response_status" where
  "response_status_of w =
     (if w = 0 then Accepted else Rejected)"

lemma response_status_of_code [simp]: "response_status_of (response_status_code x) = x"
  by (cases x) (simp_all add: response_status_of_def)

lemma response_status_code_max [simp]: "response_status_code x \<le> 1"
  by (cases x) simp_all

lemma reads_response_status_code: "reads v (r_enumeration response_status_of 1) (le_bytes (response_status_code x)) x"
  by (rule reads_enumeration) simp_all

section \<open>Presets\<close>

definition encode_endpoint :: "route_endpoint \<Rightarrow> wop" where
  "encode_endpoint e = w_seq [w_string (re_id e), w_string (re_label e)]"

definition decode_endpoint :: "route_endpoint rd" where
  "decode_endpoint = do {
     i \<leftarrow> r_string; label \<leftarrow> r_string;
     State_Monad.return \<lparr>re_id = i, re_label = label\<rparr>
   }"

definition encode_preset_node :: "preset_node \<Rightarrow> wop" where
  "encode_preset_node n = w_seq [w_string (pn_id n), w_string (pn_label n), w_string (pn_type n)]"

definition decode_preset_node :: "preset_node rd" where
  "decode_preset_node = do {
     i \<leftarrow> r_string; label \<leftarrow> r_string; ty \<leftarrow> r_string;
     State_Monad.return \<lparr>pn_id = i, pn_label = label, pn_type = ty\<rparr>
   }"

definition encode_preset_route :: "preset_route \<Rightarrow> wop" where
  "encode_preset_route r = w_seq [w_string (pr_input_id r), w_string (pr_output_id r),
     w_float32 (pr_gain r), w_boolean (pr_muted r)]"

definition decode_preset_route :: "preset_route rd" where
  "decode_preset_route = do {
     i \<leftarrow> r_string; out \<leftarrow> r_string; g \<leftarrow> r_float32; mu \<leftarrow> r_boolean;
     State_Monad.return \<lparr>pr_input_id = i, pr_output_id = out, pr_gain = g, pr_muted = mu\<rparr>
   }"

definition encode_preset :: "preset_document \<Rightarrow> wop" where
  "encode_preset p = w_seq [
     w_scalar (pd_schema_version p), w_scalar (pd_sample_rate p), w_scalar (pd_frames_per_block p),
     w_count (length (pd_nodes p)), w_each encode_preset_node (pd_nodes p),
     w_count (length (pm_inputs (pd_matrix p))), w_each encode_endpoint (pm_inputs (pd_matrix p)),
     w_count (length (pm_outputs (pd_matrix p))), w_each encode_endpoint (pm_outputs (pd_matrix p)),
     w_count (length (pm_routes (pd_matrix p))), w_each encode_preset_route (pm_routes (pd_matrix p))]"

text \<open>The early returns hand back the preset as filled so far.\<close>

definition decode_preset :: "preset_document rd" where
  "decode_preset = do {
     schema \<leftarrow> (r_scalar :: u32 rd);
     rate \<leftarrow> (r_scalar :: u32 rd);
     frames \<leftarrow> (r_scalar :: u32 rd);
     let p0 = default_preset\<lparr>pd_schema_version := schema, pd_sample_rate := rate,
                pd_frames_per_block := frames\<rparr>;
     node_count \<leftarrow> r_count; ok \<leftarrow> r_ok;
     if \<not> ok then State_Monad.return p0
     else do {
     nodes \<leftarrow> r_repeat (unat node_count) decode_preset_node;
     let p1 = p0\<lparr>pd_nodes := nodes\<rparr>;
     input_count \<leftarrow> r_count; ok \<leftarrow> r_ok;
     if \<not> ok then State_Monad.return p1
     else do {
     inputs \<leftarrow> r_repeat (unat input_count) decode_endpoint;
     let p2 = p1\<lparr>pd_matrix := (pd_matrix p1)\<lparr>pm_inputs := inputs\<rparr>\<rparr>;
     output_count \<leftarrow> r_count; ok \<leftarrow> r_ok;
     if \<not> ok then State_Monad.return p2
     else do {
     outputs \<leftarrow> r_repeat (unat output_count) decode_endpoint;
     let p3 = p2\<lparr>pd_matrix := (pd_matrix p2)\<lparr>pm_outputs := outputs\<rparr>\<rparr>;
     route_count \<leftarrow> r_count; ok \<leftarrow> r_ok;
     if \<not> ok then State_Monad.return p3
     else do {
     routes \<leftarrow> r_repeat (unat route_count) decode_preset_route;
     State_Monad.return (p3\<lparr>pd_matrix := (pd_matrix p3)\<lparr>pm_routes := routes\<rparr>\<rparr>)
     } } } }
   }"

definition endpoint_bytes :: "route_endpoint \<Rightarrow> byte list" where
  "endpoint_bytes e = concat [string_bytes (re_id e), string_bytes (re_label e)]"

definition endpoint_fits :: "route_endpoint \<Rightarrow> bool" where
  "endpoint_fits e \<longleftrightarrow> string_fits (re_id e) \<and> string_fits (re_label e)"

interpretation endpoint: wire_codec encode_endpoint decode_endpoint endpoint_bytes endpoint_fits "\<lambda>_. True"
proof unfold_locales
  show "puts (encode_endpoint x) (endpoint_fits x) (endpoint_bytes x)" for x
    unfolding encode_endpoint_def
    by (rule puts_cong, (rule puts_intros)+) (simp_all add: endpoint_fits_def endpoint_bytes_def)
  show "reads kControlWireVersion decode_endpoint (endpoint_bytes x) x" if "endpoint_fits x" for x
    using that
    unfolding decode_endpoint_def endpoint_bytes_def concat.simps endpoint_fits_def Let_def
    by - ((elim conjE)?, (rule reads_intros; (assumption | rule ballI, rule TrueI)?)+, simp)
qed (simp add: endpoint_bytes_def)

definition preset_node_bytes :: "preset_node \<Rightarrow> byte list" where
  "preset_node_bytes n = concat [string_bytes (pn_id n), string_bytes (pn_label n), string_bytes (pn_type n)]"

definition preset_node_fits :: "preset_node \<Rightarrow> bool" where
  "preset_node_fits n \<longleftrightarrow> string_fits (pn_id n) \<and> string_fits (pn_label n) \<and> string_fits (pn_type n)"

interpretation preset_node: wire_codec encode_preset_node decode_preset_node preset_node_bytes preset_node_fits "\<lambda>_. True"
proof unfold_locales
  show "puts (encode_preset_node x) (preset_node_fits x) (preset_node_bytes x)" for x
    unfolding encode_preset_node_def
    by (rule puts_cong, (rule puts_intros)+) (simp_all add: preset_node_fits_def preset_node_bytes_def)
  show "reads kControlWireVersion decode_preset_node (preset_node_bytes x) x" if "preset_node_fits x" for x
    using that
    unfolding decode_preset_node_def preset_node_bytes_def concat.simps preset_node_fits_def Let_def
    by - ((elim conjE)?, (rule reads_intros; (assumption | rule ballI, rule TrueI)?)+, simp)
qed (simp add: preset_node_bytes_def)

definition preset_route_bytes :: "preset_route \<Rightarrow> byte list" where
  "preset_route_bytes r = concat [string_bytes (pr_input_id r), string_bytes (pr_output_id r),
     le_bytes (pr_gain r), bool_bytes (pr_muted r)]"

definition preset_route_fits :: "preset_route \<Rightarrow> bool" where
  "preset_route_fits r \<longleftrightarrow> string_fits (pr_input_id r) \<and> string_fits (pr_output_id r)"

definition preset_route_carried :: "preset_route \<Rightarrow> bool" where
  "preset_route_carried r \<longleftrightarrow> f32_finite (pr_gain r)"

interpretation preset_route: wire_codec encode_preset_route decode_preset_route preset_route_bytes preset_route_fits preset_route_carried
proof unfold_locales
  show "puts (encode_preset_route x) (preset_route_fits x) (preset_route_bytes x)" for x
    unfolding encode_preset_route_def
    by (rule puts_cong, (rule puts_intros)+) (simp_all add: preset_route_fits_def preset_route_bytes_def)
  show "reads kControlWireVersion decode_preset_route (preset_route_bytes x) x" if "preset_route_fits x" "preset_route_carried x" for x
    using that
    unfolding decode_preset_route_def preset_route_bytes_def concat.simps preset_route_fits_def preset_route_carried_def Let_def
    by - ((elim conjE)?, (rule reads_intros; (assumption | rule ballI, rule TrueI)?)+, simp)
qed (simp add: preset_route_bytes_def)

definition preset_bytes :: "preset_document \<Rightarrow> byte list" where
  "preset_bytes p = concat [le_bytes (pd_schema_version p), le_bytes (pd_sample_rate p),
     le_bytes (pd_frames_per_block p), list_bytes preset_node_bytes (pd_nodes p),
     list_bytes endpoint_bytes (pm_inputs (pd_matrix p)),
     list_bytes endpoint_bytes (pm_outputs (pd_matrix p)),
     list_bytes preset_route_bytes (pm_routes (pd_matrix p))]"

definition preset_fits :: "preset_document \<Rightarrow> bool" where
  "preset_fits p \<longleftrightarrow> preset_node.list_fits (pd_nodes p) \<and>
     endpoint.list_fits (pm_inputs (pd_matrix p)) \<and> endpoint.list_fits (pm_outputs (pd_matrix p)) \<and>
     preset_route.list_fits (pm_routes (pd_matrix p))"

definition preset_carried :: "preset_document \<Rightarrow> bool" where
  "preset_carried p \<longleftrightarrow> (\<forall>r \<in> set (pm_routes (pd_matrix p)). preset_route_carried r)"

interpretation preset: wire_codec encode_preset decode_preset preset_bytes preset_fits preset_carried
proof unfold_locales
  show "puts (encode_preset x) (preset_fits x) (preset_bytes x)" for x
    unfolding encode_preset_def
    by (rule puts_cong, (rule preset_node.puts_list endpoint.puts_list preset_route.puts_list puts_intros)+) (simp_all add: preset_fits_def preset_bytes_def)
  show "reads kControlWireVersion decode_preset (preset_bytes x) x" if "preset_fits x" "preset_carried x" for x
    using that
    unfolding decode_preset_def preset_bytes_def concat.simps preset_fits_def preset_carried_def Let_def
    by - ((elim conjE)?, (rule preset_node.reads_elements endpoint.reads_elements preset_route.reads_elements reads_intros; (assumption | rule ballI, rule TrueI)?)+, simp)
qed (simp add: preset_bytes_def)

section \<open>Diagnostics\<close>

definition encode_diagnostics :: "engine_diagnostics \<Rightarrow> wop" where
  "encode_diagnostics x = w_seq [
     w_scalar (ed_graph_version x), w_scalar (ed_processed_blocks x),
     w_scalar (ed_xrun_count x), w_scalar (ed_capture_fifo_fill_frames x),
     w_scalar (ed_render_fifo_fill_frames x), w_scalar (ed_capture_fifo_overflow_cycles x),
     w_scalar (ed_capture_fifo_overflow_frames x), w_scalar (ed_render_fifo_overflow_cycles x),
     w_scalar (ed_render_fifo_overflow_frames x), w_scalar (ed_render_fifo_underflow_cycles x),
     w_scalar (ed_render_fifo_underflow_frames x), w_scalar (ed_va_pushed_blocks x),
     w_scalar (ed_va_dropped_blocks x), w_scalar (ed_va_producer_underflows x),
     w_scalar (ed_va_producer_overflows x), w_scalar (ed_va_consumed_blocks x),
     w_scalar (ed_va_mixed_blocks x), w_scalar (ed_va_silent_reads x),
     w_scalar (ed_va_clipped_samples x), w_scalar (ed_va_non_finite_samples x),
     w_scalar (ed_va_maximum_queue_depth x), w_scalar (ed_va_active_producers x),
     w_scalar (ed_import_failures x), w_scalar (ed_export_failures x),
     w_float64 (ed_last_callback_seconds x), w_float64 (ed_peak_callback_seconds x),
     w_float64 (ed_va_peak x)]"

definition decode_diagnostics :: "engine_diagnostics rd" where
  "decode_diagnostics = do {
     graph_version \<leftarrow> (r_scalar :: u64 rd);
     processed_blocks \<leftarrow> (r_scalar :: u64 rd);
     xrun_count \<leftarrow> (r_scalar :: u64 rd);
     capture_fifo_fill_frames \<leftarrow> (r_scalar :: u64 rd);
     render_fifo_fill_frames \<leftarrow> (r_scalar :: u64 rd);
     capture_fifo_overflow_cycles \<leftarrow> (r_scalar :: u64 rd);
     capture_fifo_overflow_frames \<leftarrow> (r_scalar :: u64 rd);
     render_fifo_overflow_cycles \<leftarrow> (r_scalar :: u64 rd);
     render_fifo_overflow_frames \<leftarrow> (r_scalar :: u64 rd);
     render_fifo_underflow_cycles \<leftarrow> (r_scalar :: u64 rd);
     render_fifo_underflow_frames \<leftarrow> (r_scalar :: u64 rd);
     va_pushed_blocks \<leftarrow> (r_scalar :: u64 rd);
     va_dropped_blocks \<leftarrow> (r_scalar :: u64 rd);
     va_producer_underflows \<leftarrow> (r_scalar :: u64 rd);
     va_producer_overflows \<leftarrow> (r_scalar :: u64 rd);
     va_consumed_blocks \<leftarrow> (r_scalar :: u64 rd);
     va_mixed_blocks \<leftarrow> (r_scalar :: u64 rd);
     va_silent_reads \<leftarrow> (r_scalar :: u64 rd);
     va_clipped_samples \<leftarrow> (r_scalar :: u64 rd);
     va_non_finite_samples \<leftarrow> (r_scalar :: u64 rd);
     va_maximum_queue_depth \<leftarrow> (r_scalar :: u64 rd);
     va_active_producers \<leftarrow> (r_scalar :: u64 rd);
     import_failures \<leftarrow> (r_scalar :: u64 rd);
     export_failures \<leftarrow> (r_scalar :: u64 rd);
     last_callback_seconds \<leftarrow> r_float64;
     peak_callback_seconds \<leftarrow> r_float64;
     va_peak \<leftarrow> r_float64;
     State_Monad.return \<lparr>ed_graph_version = graph_version, ed_processed_blocks = processed_blocks,
       ed_xrun_count = xrun_count, ed_capture_fifo_fill_frames = capture_fifo_fill_frames,
       ed_render_fifo_fill_frames = render_fifo_fill_frames,
       ed_capture_fifo_overflow_cycles = capture_fifo_overflow_cycles,
       ed_capture_fifo_overflow_frames = capture_fifo_overflow_frames,
       ed_render_fifo_overflow_cycles = render_fifo_overflow_cycles,
       ed_render_fifo_overflow_frames = render_fifo_overflow_frames,
       ed_render_fifo_underflow_cycles = render_fifo_underflow_cycles,
       ed_render_fifo_underflow_frames = render_fifo_underflow_frames,
       ed_va_pushed_blocks = va_pushed_blocks, ed_va_dropped_blocks = va_dropped_blocks,
       ed_va_producer_underflows = va_producer_underflows,
       ed_va_producer_overflows = va_producer_overflows,
       ed_va_consumed_blocks = va_consumed_blocks, ed_va_mixed_blocks = va_mixed_blocks,
       ed_va_silent_reads = va_silent_reads, ed_va_clipped_samples = va_clipped_samples,
       ed_va_non_finite_samples = va_non_finite_samples,
       ed_va_maximum_queue_depth = va_maximum_queue_depth,
       ed_va_active_producers = va_active_producers, ed_import_failures = import_failures,
       ed_export_failures = export_failures, ed_last_callback_seconds = last_callback_seconds,
       ed_peak_callback_seconds = peak_callback_seconds, ed_va_peak = va_peak\<rparr>
   }"

definition diagnostics_bytes :: "engine_diagnostics \<Rightarrow> byte list" where
  "diagnostics_bytes x = concat [
     le_bytes (ed_graph_version x), le_bytes (ed_processed_blocks x),
     le_bytes (ed_xrun_count x), le_bytes (ed_capture_fifo_fill_frames x),
     le_bytes (ed_render_fifo_fill_frames x), le_bytes (ed_capture_fifo_overflow_cycles x),
     le_bytes (ed_capture_fifo_overflow_frames x), le_bytes (ed_render_fifo_overflow_cycles x),
     le_bytes (ed_render_fifo_overflow_frames x), le_bytes (ed_render_fifo_underflow_cycles x),
     le_bytes (ed_render_fifo_underflow_frames x), le_bytes (ed_va_pushed_blocks x),
     le_bytes (ed_va_dropped_blocks x), le_bytes (ed_va_producer_underflows x),
     le_bytes (ed_va_producer_overflows x), le_bytes (ed_va_consumed_blocks x),
     le_bytes (ed_va_mixed_blocks x), le_bytes (ed_va_silent_reads x),
     le_bytes (ed_va_clipped_samples x), le_bytes (ed_va_non_finite_samples x),
     le_bytes (ed_va_maximum_queue_depth x), le_bytes (ed_va_active_producers x),
     le_bytes (ed_import_failures x), le_bytes (ed_export_failures x),
     le_bytes (ed_last_callback_seconds x), le_bytes (ed_peak_callback_seconds x),
     le_bytes (ed_va_peak x)]"

definition diagnostics_carried :: "engine_diagnostics \<Rightarrow> bool" where
  "diagnostics_carried x \<longleftrightarrow>
     f64_finite (ed_last_callback_seconds x) \<and>
     f64_finite (ed_peak_callback_seconds x) \<and> f64_finite (ed_va_peak x)"

interpretation diagnostics: wire_codec encode_diagnostics decode_diagnostics diagnostics_bytes "\<lambda>_. True" diagnostics_carried
proof unfold_locales
  show "puts (encode_diagnostics x) True (diagnostics_bytes x)" for x
    unfolding encode_diagnostics_def
    by (rule puts_cong, (rule puts_intros)+) (simp_all add: diagnostics_bytes_def)
  show "reads kControlWireVersion decode_diagnostics (diagnostics_bytes x) x" if  "diagnostics_carried x" for x
    using that
    unfolding decode_diagnostics_def diagnostics_bytes_def concat.simps diagnostics_carried_def Let_def
    by - ((elim conjE)?, (rule reads_intros; (assumption | rule ballI, rule TrueI)?)+, simp)
qed (simp_all add: diagnostics_bytes_def)

definition encode_wasapi_recovery :: "recovery_diagnostics \<Rightarrow> wop" where
  "encode_wasapi_recovery x = w_seq [
     w_scalar (recovery_state_code (rd_state x)),
     w_scalar (runtime_health_code (rd_runtime_health x)), w_string (rd_reason_code x),
     w_scalar (rd_recovery_episode_count x), w_scalar (rd_successful_recovery_count x),
     w_scalar (rd_failed_recovery_count x), w_scalar (rd_last_recovery_duration_ms x),
     w_scalar (rd_maximum_recovery_duration_ms x), w_scalar (rd_reopen_count x),
     w_scalar (rd_reset_failure_count x), w_boolean (rd_reopen_pending x),
     w_scalar (rd_wait_timeout_cycles x), w_scalar (rd_capture_discontinuity_cycles x),
     w_scalar (rd_render_fifo_underflow_frames x), w_scalar (rd_maximum_silence_frames x),
     w_scalar (rd_maximum_clamped_frames x)]"

definition decode_wasapi_recovery :: "recovery_diagnostics rd" where
  "decode_wasapi_recovery = do {
     state \<leftarrow> r_enumeration recovery_state_of 5;
     runtime_health \<leftarrow> r_enumeration runtime_health_of 3;
     reason_code \<leftarrow> r_string;
     recovery_episode_count \<leftarrow> (r_scalar :: u64 rd);
     successful_recovery_count \<leftarrow> (r_scalar :: u64 rd);
     failed_recovery_count \<leftarrow> (r_scalar :: u64 rd);
     last_recovery_duration_ms \<leftarrow> (r_scalar :: u64 rd);
     maximum_recovery_duration_ms \<leftarrow> (r_scalar :: u64 rd);
     reopen_count \<leftarrow> (r_scalar :: u64 rd);
     reset_failure_count \<leftarrow> (r_scalar :: u64 rd);
     reopen_pending \<leftarrow> r_boolean;
     wait_timeout_cycles \<leftarrow> (r_scalar :: u64 rd);
     capture_discontinuity_cycles \<leftarrow> (r_scalar :: u64 rd);
     render_fifo_underflow_frames \<leftarrow> (r_scalar :: u64 rd);
     maximum_silence_frames \<leftarrow> (r_scalar :: u64 rd);
     maximum_clamped_frames \<leftarrow> (r_scalar :: u64 rd);
     State_Monad.return \<lparr>rd_state = state, rd_runtime_health = runtime_health, rd_reason_code = reason_code,
       rd_recovery_episode_count = recovery_episode_count,
       rd_successful_recovery_count = successful_recovery_count,
       rd_failed_recovery_count = failed_recovery_count,
       rd_last_recovery_duration_ms = last_recovery_duration_ms,
       rd_maximum_recovery_duration_ms = maximum_recovery_duration_ms,
       rd_reopen_count = reopen_count, rd_reset_failure_count = reset_failure_count,
       rd_reopen_pending = reopen_pending, rd_wait_timeout_cycles = wait_timeout_cycles,
       rd_capture_discontinuity_cycles = capture_discontinuity_cycles,
       rd_render_fifo_underflow_frames = render_fifo_underflow_frames,
       rd_maximum_silence_frames = maximum_silence_frames,
       rd_maximum_clamped_frames = maximum_clamped_frames\<rparr>
   }"

definition recovery_bytes :: "recovery_diagnostics \<Rightarrow> byte list" where
  "recovery_bytes x = concat [
     le_bytes (recovery_state_code (rd_state x)),
     le_bytes (runtime_health_code (rd_runtime_health x)), string_bytes (rd_reason_code x),
     le_bytes (rd_recovery_episode_count x), le_bytes (rd_successful_recovery_count x),
     le_bytes (rd_failed_recovery_count x), le_bytes (rd_last_recovery_duration_ms x),
     le_bytes (rd_maximum_recovery_duration_ms x), le_bytes (rd_reopen_count x),
     le_bytes (rd_reset_failure_count x), bool_bytes (rd_reopen_pending x),
     le_bytes (rd_wait_timeout_cycles x), le_bytes (rd_capture_discontinuity_cycles x),
     le_bytes (rd_render_fifo_underflow_frames x), le_bytes (rd_maximum_silence_frames x),
     le_bytes (rd_maximum_clamped_frames x)]"

definition recovery_fits :: "recovery_diagnostics \<Rightarrow> bool" where
  "recovery_fits x \<longleftrightarrow>
     string_fits (rd_reason_code x)"

interpretation recovery: wire_codec encode_wasapi_recovery decode_wasapi_recovery recovery_bytes recovery_fits "\<lambda>_. True"
proof unfold_locales
  show "puts (encode_wasapi_recovery x) (recovery_fits x) (recovery_bytes x)" for x
    unfolding encode_wasapi_recovery_def
    by (rule puts_cong, (rule puts_intros)+) (simp_all add: recovery_fits_def recovery_bytes_def)
  show "reads kControlWireVersion decode_wasapi_recovery (recovery_bytes x) x" if "recovery_fits x" for x
    using that
    unfolding decode_wasapi_recovery_def recovery_bytes_def concat.simps recovery_fits_def Let_def
    by - ((elim conjE)?, (rule reads_recovery_state_code reads_runtime_health_code reads_intros; (assumption | rule ballI, rule TrueI)?)+, simp)
qed (simp_all add: recovery_bytes_def)

section \<open>Devices\<close>

definition encode_audio_format :: "audio_format \<Rightarrow> wop" where
  "encode_audio_format x = w_seq [
     w_scalar (af_sample_rate x), w_scalar (af_channels x), w_scalar (af_frames_per_block x),
     w_scalar (af_bits_per_sample x), w_scalar (af_valid_bits_per_sample x),
     w_scalar (sample_format_code (af_sample_format x))]"

definition decode_audio_format :: "audio_format rd" where
  "decode_audio_format = do {
     sample_rate \<leftarrow> (r_scalar :: u32 rd);
     channels \<leftarrow> (r_scalar :: u32 rd);
     frames_per_block \<leftarrow> (r_scalar :: u32 rd);
     bits_per_sample \<leftarrow> (r_scalar :: u32 rd);
     valid_bits_per_sample \<leftarrow> (r_scalar :: u32 rd);
     format \<leftarrow> r_enumeration sample_format_of 2;
     State_Monad.return \<lparr>af_sample_rate = sample_rate, af_channels = channels,
       af_frames_per_block = frames_per_block, af_bits_per_sample = bits_per_sample,
       af_valid_bits_per_sample = valid_bits_per_sample, af_sample_format = format\<rparr>
   }"

definition audio_format_bytes :: "audio_format \<Rightarrow> byte list" where
  "audio_format_bytes x = concat [
     le_bytes (af_sample_rate x), le_bytes (af_channels x), le_bytes (af_frames_per_block x),
     le_bytes (af_bits_per_sample x), le_bytes (af_valid_bits_per_sample x),
     le_bytes (sample_format_code (af_sample_format x))]"

interpretation audio_format: wire_codec encode_audio_format decode_audio_format audio_format_bytes "\<lambda>_. True" "\<lambda>_. True"
proof unfold_locales
  show "puts (encode_audio_format x) True (audio_format_bytes x)" for x
    unfolding encode_audio_format_def
    by (rule puts_cong, (rule puts_intros)+) (simp_all add: audio_format_bytes_def)
  show "reads kControlWireVersion decode_audio_format (audio_format_bytes x) x" for x
    unfolding decode_audio_format_def audio_format_bytes_def concat.simps Let_def
    by ((rule reads_sample_format_code reads_intros; (assumption | rule ballI, rule TrueI)?)+, simp)
qed (simp_all add: audio_format_bytes_def)

definition encode_device :: "audio_device \<Rightarrow> wop" where
  "encode_device x = w_seq [
     w_string (ad_id x), w_string (ad_label x), w_scalar (backend_kind_code (ad_backend x)),
     w_scalar (device_direction_code (ad_direction x)), w_count (length (ad_formats x)),
     w_each encode_audio_format (ad_formats x), w_boolean (ad_is_default x),
     w_boolean (ad_is_virtual x), w_scalar (ad_input_channels x), w_scalar (ad_output_channels x)]"

definition decode_device :: "audio_device rd" where
  "decode_device = do {
     i \<leftarrow> r_string; label \<leftarrow> r_string;
     backend \<leftarrow> r_enumeration backend_kind_of 5;
     direction \<leftarrow> r_enumeration device_direction_of 2;
     let d0 = default_audio_device\<lparr>ad_id := i, ad_label := label, ad_backend := backend,
                ad_direction := direction\<rparr>;
     format_count \<leftarrow> r_count; ok \<leftarrow> r_ok;
     if \<not> ok then State_Monad.return d0
     else do {
       formats \<leftarrow> r_repeat (unat format_count) decode_audio_format;
       is_default \<leftarrow> r_boolean;
       is_virtual \<leftarrow> r_boolean;
       let d1 = d0\<lparr>ad_formats := formats, ad_is_default := is_default, ad_is_virtual := is_virtual\<rparr>;
       ok \<leftarrow> r_ok; version \<leftarrow> r_version;
       if ok \<and> 13 \<le> version then do {
         inputs \<leftarrow> (r_scalar :: u32 rd);
         outputs \<leftarrow> (r_scalar :: u32 rd);
         State_Monad.return (d1\<lparr>ad_input_channels := inputs, ad_output_channels := outputs\<rparr>)
       } else State_Monad.return d1
     }
   }"

definition device_bytes :: "audio_device \<Rightarrow> byte list" where
  "device_bytes x = concat [
     string_bytes (ad_id x), string_bytes (ad_label x), le_bytes (backend_kind_code (ad_backend x)),
     le_bytes (device_direction_code (ad_direction x)), list_bytes audio_format_bytes (ad_formats x),
     bool_bytes (ad_is_default x), bool_bytes (ad_is_virtual x), le_bytes (ad_input_channels x),
     le_bytes (ad_output_channels x)]"

definition device_fits :: "audio_device \<Rightarrow> bool" where
  "device_fits x \<longleftrightarrow> string_fits (ad_id x) \<and> string_fits (ad_label x) \<and>
     audio_format.list_fits (ad_formats x)"

lemma version_gates [simp]:
  "8 \<le> kControlWireVersion" "9 \<le> kControlWireVersion" "10 \<le> kControlWireVersion"
  "11 \<le> kControlWireVersion" "12 \<le> kControlWireVersion" "13 \<le> kControlWireVersion"
  "14 \<le> kControlWireVersion"
  by (simp_all add: kControlWireVersion_def)

interpretation device: wire_codec encode_device decode_device device_bytes device_fits "\<lambda>_. True"
proof unfold_locales
  show "puts (encode_device x) (device_fits x) (device_bytes x)" for x
    unfolding encode_device_def
    by (rule puts_cong, (rule audio_format.puts_list puts_intros)+)
      (simp_all add: device_fits_def device_bytes_def)
  show "reads kControlWireVersion decode_device (device_bytes x) x" if "device_fits x" for x
    using that
    unfolding decode_device_def device_bytes_def concat.simps device_fits_def Let_def
    by (elim conjE) (((simp (no_asm) only: version_gates if_True simp_thms) |
        (rule audio_format.reads_elements reads_backend_kind_code reads_device_direction_code
          reads_intros;
          (assumption | rule ballI, rule TrueI)?))+, simp)
qed (simp_all add: device_bytes_def)

definition encode_virtual_asio_device :: "virtual_asio_device \<Rightarrow> wop" where
  "encode_virtual_asio_device x = w_seq [
     w_string (va_device_id x), w_string (va_clsid x), w_string (va_registry_name x),
     w_string (va_broker_token x), w_scalar (va_input_channels x),
     w_scalar (va_output_channels x), w_boolean (va_enabled x)]"

definition decode_virtual_asio_device :: "virtual_asio_device rd" where
  "decode_virtual_asio_device = do {
     i \<leftarrow> r_string;
     clsid \<leftarrow> r_string;
     name \<leftarrow> r_string;
     token \<leftarrow> r_string;
     inputs \<leftarrow> (r_scalar :: u32 rd);
     outputs \<leftarrow> (r_scalar :: u32 rd);
     enabled \<leftarrow> r_boolean;
     State_Monad.return \<lparr>va_device_id = i, va_clsid = clsid, va_registry_name = name, va_broker_token = token,
       va_input_channels = inputs, va_output_channels = outputs, va_enabled = enabled\<rparr>
   }"

definition vasio_bytes :: "virtual_asio_device \<Rightarrow> byte list" where
  "vasio_bytes x = concat [
     string_bytes (va_device_id x), string_bytes (va_clsid x),
     string_bytes (va_registry_name x), string_bytes (va_broker_token x),
     le_bytes (va_input_channels x), le_bytes (va_output_channels x), bool_bytes (va_enabled x)]"

definition vasio_fits :: "virtual_asio_device \<Rightarrow> bool" where
  "vasio_fits x \<longleftrightarrow>
     string_fits (va_device_id x) \<and> string_fits (va_clsid x) \<and>
     string_fits (va_registry_name x) \<and> string_fits (va_broker_token x)"

interpretation vasio: wire_codec encode_virtual_asio_device decode_virtual_asio_device vasio_bytes vasio_fits "\<lambda>_. True"
proof unfold_locales
  show "puts (encode_virtual_asio_device x) (vasio_fits x) (vasio_bytes x)" for x
    unfolding encode_virtual_asio_device_def
    by (rule puts_cong, (rule puts_intros)+) (simp_all add: vasio_fits_def vasio_bytes_def)
  show "reads kControlWireVersion decode_virtual_asio_device (vasio_bytes x) x" if "vasio_fits x" for x
    using that
    unfolding decode_virtual_asio_device_def vasio_bytes_def concat.simps vasio_fits_def Let_def
    by - ((elim conjE)?, (rule reads_intros; (assumption | rule ballI, rule TrueI)?)+, simp)
qed (simp_all add: vasio_bytes_def)

end
