(* ===== verification/WireControl.thy ===== *)
theory WireControl
  imports WireCodecs
begin

text \<open>
  The two messages of \<^verbatim>\<open>core/control/control_wire_protocol.cpp\<close>: commands and responses, with
  the runtime configuration both carry and the fields the protocol versions 9 to 14 added. A
  decoded message is the value together with the reader's error.
\<close>

section \<open>Runtime configurations\<close>

definition encode_runtime_endpoint :: "runtime_endpoint \<Rightarrow> wop" where
  "encode_runtime_endpoint x = w_seq [w_string (rt_endpoint_id x), w_string (rt_device_id x),
     w_scalar (runtime_direction_code (rt_direction x)), w_boolean (rt_clock_master x),
     w_scalar (rt_first_channel x), w_scalar (rt_channel_count x)]"

definition decode_runtime_endpoint :: "runtime_endpoint rd" where
  "decode_runtime_endpoint = do {
     i \<leftarrow> r_string; device \<leftarrow> r_string;
     direction \<leftarrow> r_enumeration runtime_direction_of 1;
     clock_master \<leftarrow> r_boolean;
     first \<leftarrow> (r_scalar :: u32 rd);
     channels \<leftarrow> (r_scalar :: u32 rd);
     State_Monad.return (default_runtime_endpoint\<lparr>rt_endpoint_id := i, rt_device_id := device,
       rt_direction := direction, rt_clock_master := clock_master, rt_first_channel := first,
       rt_channel_count := channels\<rparr>)
   }"

definition runtime_endpoint_bytes :: "runtime_endpoint \<Rightarrow> byte list" where
  "runtime_endpoint_bytes x = concat [string_bytes (rt_endpoint_id x), string_bytes (rt_device_id x),
     le_bytes (runtime_direction_code (rt_direction x)), bool_bytes (rt_clock_master x),
     le_bytes (rt_first_channel x), le_bytes (rt_channel_count x)]"

definition runtime_endpoint_fits :: "runtime_endpoint \<Rightarrow> bool" where
  "runtime_endpoint_fits x \<longleftrightarrow> string_fits (rt_endpoint_id x) \<and> string_fits (rt_device_id x)"

text \<open>What the first pass over the endpoints carries: everything but the version-14 extension.\<close>

definition runtime_base :: "runtime_endpoint \<Rightarrow> runtime_endpoint" where
  "runtime_base x = x\<lparr>rt_backend := WasapiBackend, rt_device_group_id := [], rt_sample_rate := 0,
     rt_block_frames := 0\<rparr>"

definition named_direction :: "runtime_endpoint \<Rightarrow> bool" where
  "named_direction x \<longleftrightarrow> (\<forall>w. rt_direction x \<noteq> UnnamedDirection w)"

definition runtime_endpoint_base :: "runtime_endpoint \<Rightarrow> bool" where
  "runtime_endpoint_base x \<longleftrightarrow> named_direction x \<and> x = runtime_base x"

interpretation runtime_endpoint: wire_codec encode_runtime_endpoint decode_runtime_endpoint
  runtime_endpoint_bytes runtime_endpoint_fits runtime_endpoint_base
proof unfold_locales
  show "puts (encode_runtime_endpoint x) (runtime_endpoint_fits x) (runtime_endpoint_bytes x)" for x
    unfolding encode_runtime_endpoint_def
    by (rule puts_cong, (rule puts_intros)+)
      (simp_all add: runtime_endpoint_fits_def runtime_endpoint_bytes_def)
  show "reads kControlWireVersion decode_runtime_endpoint (runtime_endpoint_bytes x) x"
    if "runtime_endpoint_fits x" "runtime_endpoint_base x" for x
  proof -
    have x: "runtime_base x = x" using that(2) by (simp add: runtime_endpoint_base_def)
    have "reads kControlWireVersion decode_runtime_endpoint (runtime_endpoint_bytes x) (runtime_base x)"
      using that
      unfolding decode_runtime_endpoint_def runtime_endpoint_bytes_def concat.simps
        runtime_endpoint_fits_def runtime_endpoint_base_def named_direction_def
      by - ((elim conjE)?, (rule reads_runtime_direction_code reads_intros; assumption?)+,
        simp (no_asm) add: runtime_base_def default_runtime_endpoint_def)
    then show ?thesis unfolding x .
  qed
qed (simp add: runtime_endpoint_bytes_def)

definition encode_runtime_configuration :: "runtime_configuration \<Rightarrow> wop" where
  "encode_runtime_configuration x = w_seq [w_scalar (runtime_mode_code (rc_mode x)),
     w_string (rc_capture_device_id x), w_string (rc_render_device_id x),
     w_count (length (rc_endpoints x)), w_each encode_runtime_endpoint (rc_endpoints x),
     w_string (rc_asio_driver_clsid x), w_scalar (rc_asio_sample_rate x),
     w_scalar (rc_asio_block_frames x),
     w_count (length (rc_asio_input_channels x)), w_each w_scalar (rc_asio_input_channels x),
     w_count (length (rc_asio_output_channels x)), w_each w_scalar (rc_asio_output_channels x)]"

definition decode_runtime_configuration :: "runtime_configuration rd" where
  "decode_runtime_configuration = do {
     version \<leftarrow> r_version;
     mode \<leftarrow> r_enumeration runtime_mode_of
       (if 12 \<le> version then 4 else if 9 \<le> version then 3 else 2);
     capture \<leftarrow> r_string;
     render \<leftarrow> r_string;
     n \<leftarrow> (if 9 \<le> version then r_count else State_Monad.return 0);
     ok \<leftarrow> r_ok;
     endpoints \<leftarrow> (if ok \<and> 9 \<le> version then r_repeat (unat n) decode_runtime_endpoint
                   else State_Monad.return []);
     let c0 = default_runtime_configuration\<lparr>rc_mode := mode, rc_capture_device_id := capture,
                rc_render_device_id := render, rc_endpoints := endpoints\<rparr>;
     ok \<leftarrow> r_ok;
     if ok \<and> 12 \<le> version then do {
       clsid \<leftarrow> r_string;
       rate \<leftarrow> (r_scalar :: u32 rd);
       frames \<leftarrow> (r_scalar :: u32 rd);
       input_count \<leftarrow> r_count;
       inputs \<leftarrow> r_repeat (unat input_count) (r_scalar :: u32 rd);
       output_count \<leftarrow> r_count;
       outputs \<leftarrow> r_repeat (unat output_count) (r_scalar :: u32 rd);
       State_Monad.return (c0\<lparr>rc_asio_driver_clsid := clsid, rc_asio_sample_rate := rate,
         rc_asio_block_frames := frames, rc_asio_input_channels := inputs,
         rc_asio_output_channels := outputs\<rparr>)
     } else State_Monad.return c0
   }"

definition runtime_configuration_bytes :: "runtime_configuration \<Rightarrow> byte list" where
  "runtime_configuration_bytes x = concat [le_bytes (runtime_mode_code (rc_mode x)),
     string_bytes (rc_capture_device_id x), string_bytes (rc_render_device_id x),
     list_bytes runtime_endpoint_bytes (rc_endpoints x), string_bytes (rc_asio_driver_clsid x),
     le_bytes (rc_asio_sample_rate x), le_bytes (rc_asio_block_frames x),
     list_bytes le_bytes (rc_asio_input_channels x), list_bytes le_bytes (rc_asio_output_channels x)]"

definition runtime_configuration_fits :: "runtime_configuration \<Rightarrow> bool" where
  "runtime_configuration_fits x \<longleftrightarrow> string_fits (rc_capture_device_id x) \<and>
     string_fits (rc_render_device_id x) \<and> runtime_endpoint.list_fits (rc_endpoints x) \<and>
     string_fits (rc_asio_driver_clsid x) \<and> num.list_fits (rc_asio_input_channels x) \<and>
     num.list_fits (rc_asio_output_channels x)"

definition runtime_configuration_base :: "runtime_configuration \<Rightarrow> bool" where
  "runtime_configuration_base x \<longleftrightarrow> (\<forall>w. rc_mode x \<noteq> UnnamedMode w) \<and>
     (\<forall>e \<in> set (rc_endpoints x). runtime_endpoint_base e)"

interpretation runtime_configuration: wire_codec encode_runtime_configuration
  decode_runtime_configuration runtime_configuration_bytes runtime_configuration_fits
  runtime_configuration_base
proof unfold_locales
  show "puts (encode_runtime_configuration x) (runtime_configuration_fits x)
      (runtime_configuration_bytes x)" for x
    unfolding encode_runtime_configuration_def
    by (rule puts_cong, (rule runtime_endpoint.puts_list num.puts_list puts_intros)+)
      (simp_all add: runtime_configuration_fits_def runtime_configuration_bytes_def)
  show "reads kControlWireVersion decode_runtime_configuration (runtime_configuration_bytes x) x"
    if "runtime_configuration_fits x" "runtime_configuration_base x" for x
    using that
    unfolding decode_runtime_configuration_def runtime_configuration_bytes_def concat.simps
      runtime_configuration_fits_def runtime_configuration_base_def Let_def
    by - ((elim conjE)?, (((simp (no_asm) only: version_gates if_True simp_thms) |
        (rule runtime_endpoint.reads_elements num.reads_elements reads_runtime_mode_code
          reads_intros; (assumption | rule ballI, rule TrueI)?))+),
        simp add: default_runtime_configuration_def)
qed (simp add: runtime_configuration_bytes_def)

text \<open>The extension of protocol version 14 completes endpoints that were read before it.\<close>

definition encode_endpoint_extension :: "runtime_endpoint \<Rightarrow> wop" where
  "encode_endpoint_extension x = w_seq [w_scalar (runtime_backend_code (rt_backend x)),
     w_string (rt_device_group_id x), w_scalar (rt_sample_rate x), w_scalar (rt_block_frames x)]"

definition encode_runtime_endpoint_extensions :: "runtime_endpoint list \<Rightarrow> wop" where
  "encode_runtime_endpoint_extensions es =
     w_seq [w_count (length es), w_each encode_endpoint_extension es]"

definition decode_endpoint_extension :: "runtime_endpoint \<Rightarrow> runtime_endpoint rd" where
  "decode_endpoint_extension e = do {
     backend \<leftarrow> r_enumeration runtime_backend_of 1;
     group \<leftarrow> r_string;
     rate \<leftarrow> (r_scalar :: u32 rd);
     frames \<leftarrow> (r_scalar :: u32 rd);
     State_Monad.return (e\<lparr>rt_backend := backend, rt_device_group_id := group,
       rt_sample_rate := rate, rt_block_frames := frames\<rparr>)
   }"

definition decode_runtime_endpoint_extensions :: "runtime_endpoint list \<Rightarrow> runtime_endpoint list rd" where
  "decode_runtime_endpoint_extensions es = do {
     n \<leftarrow> r_count;
     ok \<leftarrow> r_ok;
     if \<not> ok then State_Monad.return es
     else if unat n \<noteq> length es then do { _ \<leftarrow> r_fail InvalidValue; State_Monad.return es }
     else r_each decode_endpoint_extension es
   }"

definition extension_bytes :: "runtime_endpoint \<Rightarrow> byte list" where
  "extension_bytes x = concat [le_bytes (runtime_backend_code (rt_backend x)),
     string_bytes (rt_device_group_id x), le_bytes (rt_sample_rate x), le_bytes (rt_block_frames x)]"

definition named_backend :: "runtime_endpoint \<Rightarrow> bool" where
  "named_backend x \<longleftrightarrow> (\<forall>w. rt_backend x \<noteq> UnnamedBackend w)"

definition extensions_fit :: "runtime_endpoint list \<Rightarrow> bool" where
  "extensions_fit es \<longleftrightarrow> count_fits (length es) \<and> (\<forall>e \<in> set es. string_fits (rt_device_group_id e))"

lemma puts_extension:
  "puts (encode_endpoint_extension x) (string_fits (rt_device_group_id x)) (extension_bytes x)"
  unfolding encode_endpoint_extension_def
  by (rule puts_cong, (rule puts_intros)+) (simp_all add: extension_bytes_def)

lemma puts_extensions:
  "puts (encode_runtime_endpoint_extensions es) (extensions_fit es) (list_bytes extension_bytes es)"
  unfolding encode_runtime_endpoint_extensions_def
  by (rule puts_cong, rule puts_Cons [OF puts_count], rule puts_Cons [OF puts_each [OF puts_extension]],
      rule puts_Nil) (simp_all add: extensions_fit_def list_bytes_def)

lemma reads_extension:
  assumes "string_fits (rt_device_group_id x)" "named_backend x"
  shows "reads v (decode_endpoint_extension (runtime_base x)) (extension_bytes x) x"
  using assms unfolding decode_endpoint_extension_def extension_bytes_def concat.simps named_backend_def
  by - ((rule reads_runtime_backend_code reads_intros; assumption?)+, simp add: runtime_base_def)

lemma reads_extensions:
  assumes "extensions_fit es" "\<forall>e \<in> set es. named_backend e"
  shows "reads v (decode_runtime_endpoint_extensions (map runtime_base es)) (list_bytes extension_bytes es) es"
proof -
  have "reads v (r_each decode_endpoint_extension (map runtime_base es)) (concat (map extension_bytes es)) es"
    using assms by (intro reads_each) (simp add: extensions_fit_def reads_extension)
  moreover have "length es \<le> length (concat (map extension_bytes es))"
    by (rule length_concat_nonempty) (simp add: extension_bytes_def)
  ultimately show ?thesis
    unfolding decode_runtime_endpoint_extensions_def list_bytes_def
    using assms(1) by (intro reads_counted reads_bind_silent [OF reads_ok])
      (simp_all add: extensions_fit_def unat_count)
qed

definition configuration_base :: "runtime_configuration \<Rightarrow> runtime_configuration" where
  "configuration_base c = c\<lparr>rc_endpoints := map runtime_base (rc_endpoints c)\<rparr>"

definition configuration_carried :: "runtime_configuration \<Rightarrow> bool" where
  "configuration_carried c \<longleftrightarrow> (\<forall>w. rc_mode c \<noteq> UnnamedMode w) \<and>
     (\<forall>e \<in> set (rc_endpoints c). named_direction e \<and> named_backend e)"

lemma reads_configuration:
  assumes "runtime_configuration_fits c" "configuration_carried c"
  shows "reads kControlWireVersion decode_runtime_configuration (runtime_configuration_bytes c)
    (configuration_base c)"
proof -
  have bytes: "runtime_endpoint_bytes (runtime_base e) = runtime_endpoint_bytes e" for e
    by (simp add: runtime_endpoint_bytes_def runtime_base_def)
  then have "list_bytes runtime_endpoint_bytes (map runtime_base es) = list_bytes runtime_endpoint_bytes es" for es
    by (simp add: list_bytes_def o_def)
  then have "runtime_configuration_bytes (configuration_base c) = runtime_configuration_bytes c"
    by (simp add: runtime_configuration_bytes_def configuration_base_def)
  moreover have "runtime_configuration_fits (configuration_base c)"
    using assms(1) by (auto simp: runtime_configuration_fits_def configuration_base_def
        runtime_endpoint.list_fits_def runtime_endpoint_fits_def runtime_base_def)
  moreover have "runtime_configuration_base (configuration_base c)"
    using assms(2) by (auto simp: runtime_configuration_base_def configuration_base_def
        configuration_carried_def runtime_endpoint_base_def named_direction_def runtime_base_def)
  ultimately show ?thesis using runtime_configuration.dec_reads [of "configuration_base c"] by simp
qed

section \<open>Commands\<close>

definition kCommandKind :: u16 where "kCommandKind = 1"
definition kResponseKind :: u16 where "kResponseKind = 2"

definition encode_command_body :: "control_command \<Rightarrow> wop" where
  "encode_command_body x = w_seq [w_scalar (cc_schema_version x), w_string (cc_command_id x),
     w_scalar (command_type_code (cc_type x)), w_string (cc_endpoint_id x),
     w_string (cc_endpoint_label x), w_string (cc_input_id x), w_string (cc_output_id x),
     w_float32 (cc_gain x), w_boolean (cc_mute x), encode_preset (cc_preset x),
     encode_runtime_configuration (cc_audio_runtime x),
     w_count (length (cc_virtual_asio_devices x)),
     w_each encode_virtual_asio_device (cc_virtual_asio_devices x),
     encode_runtime_endpoint_extensions (rc_endpoints (cc_audio_runtime x))]"

definition encode_control_command :: "control_command \<Rightarrow> encode_result" where
  "encode_control_command x = w_finish (encode_command_body x (make_writer kCommandKind))"

definition decode_command_body :: "control_command rd" where
  "decode_command_body = do {
     schema \<leftarrow> (r_scalar :: u32 rd);
     i \<leftarrow> r_string;
     version \<leftarrow> r_version;
     ty \<leftarrow> r_enumeration command_type_of
       (if 11 \<le> version then command_type_code ConfigureVirtualAsioDevices
        else command_type_code ConfigureAudioRuntime);
     endpoint_id \<leftarrow> r_string;
     endpoint_label \<leftarrow> r_string;
     input_id \<leftarrow> r_string;
     output_id \<leftarrow> r_string;
     gain \<leftarrow> r_float32;
     mute \<leftarrow> r_boolean;
     preset \<leftarrow> decode_preset;
     runtime \<leftarrow> decode_runtime_configuration;
     n \<leftarrow> (if 11 \<le> version then r_count else State_Monad.return 0);
     ok \<leftarrow> r_ok;
     devices \<leftarrow> (if ok \<and> 11 \<le> version then r_repeat (unat n) decode_virtual_asio_device
                 else State_Monad.return []);
     ok \<leftarrow> r_ok;
     endpoints \<leftarrow> (if ok \<and> 14 \<le> version then decode_runtime_endpoint_extensions (rc_endpoints runtime)
                   else State_Monad.return (rc_endpoints runtime));
     State_Monad.return \<lparr>cc_schema_version = schema, cc_command_id = i, cc_type = ty,
       cc_endpoint_id = endpoint_id, cc_endpoint_label = endpoint_label, cc_input_id = input_id,
       cc_output_id = output_id, cc_gain = gain, cc_mute = mute, cc_preset = preset,
       cc_audio_runtime = runtime\<lparr>rc_endpoints := endpoints\<rparr>, cc_virtual_asio_devices = devices\<rparr>
   }"

text \<open>
  Both decoders: nothing is read after a bad header, and after the body \<open>finish\<close> reports
  bytes that are left over.
\<close>

definition decode_message :: "'a \<Rightarrow> 'a rd \<Rightarrow> u16 \<Rightarrow> byte list \<Rightarrow> 'a \<times> wire_error" where
  "decode_message d body kind bytes =
     (let r = make_reader bytes kind
      in if rd_error r \<noteq> None then (d, rd_error r)
         else case run_state (do { x \<leftarrow> body; _ \<leftarrow> r_finish; State_Monad.return x }) r of
           (x, r') \<Rightarrow> (x, rd_error r'))"

definition decode_control_command :: "byte list \<Rightarrow> control_command \<times> wire_error" where
  "decode_control_command = decode_message default_command decode_command_body kCommandKind"

definition command_bytes :: "control_command \<Rightarrow> byte list" where
  "command_bytes x = concat [le_bytes (cc_schema_version x), string_bytes (cc_command_id x),
     le_bytes (command_type_code (cc_type x)), string_bytes (cc_endpoint_id x),
     string_bytes (cc_endpoint_label x), string_bytes (cc_input_id x), string_bytes (cc_output_id x),
     le_bytes (cc_gain x), bool_bytes (cc_mute x), preset_bytes (cc_preset x),
     runtime_configuration_bytes (cc_audio_runtime x),
     list_bytes vasio_bytes (cc_virtual_asio_devices x),
     list_bytes extension_bytes (rc_endpoints (cc_audio_runtime x))]"

definition command_fits :: "control_command \<Rightarrow> bool" where
  "command_fits x \<longleftrightarrow> string_fits (cc_command_id x) \<and> string_fits (cc_endpoint_id x) \<and>
     string_fits (cc_endpoint_label x) \<and> string_fits (cc_input_id x) \<and> string_fits (cc_output_id x) \<and>
     preset_fits (cc_preset x) \<and> runtime_configuration_fits (cc_audio_runtime x) \<and>
     vasio.list_fits (cc_virtual_asio_devices x) \<and> extensions_fit (rc_endpoints (cc_audio_runtime x))"

definition command_carried :: "control_command \<Rightarrow> bool" where
  "command_carried x \<longleftrightarrow> (\<forall>w. cc_type x \<noteq> UnnamedCommandType w) \<and> f32_finite (cc_gain x) \<and>
     preset_carried (cc_preset x) \<and> configuration_carried (cc_audio_runtime x)"

lemma puts_command: "puts (encode_command_body x) (command_fits x) (command_bytes x)"
  unfolding encode_command_body_def
  by (rule puts_cong, (rule vasio.puts_list puts_intros preset.enc_puts
        runtime_configuration.enc_puts puts_extensions)+)
    (simp_all add: command_fits_def command_bytes_def)

lemma command_type_limit: "command_type_code ConfigureVirtualAsioDevices = 17"
  by simp

lemma reads_command:
  assumes "command_fits x" "command_carried x"
  shows "reads kControlWireVersion decode_command_body (command_bytes x) x"
proof -
  have named: "\<forall>e \<in> set (rc_endpoints (cc_audio_runtime x)). named_backend e"
    using assms(2) by (simp add: command_carried_def configuration_carried_def)
  have endpoints: "rc_endpoints (configuration_base (cc_audio_runtime x)) =
      map runtime_base (rc_endpoints (cc_audio_runtime x))"
    by (simp add: configuration_base_def)
  show ?thesis
    using assms named
    unfolding decode_command_body_def command_bytes_def concat.simps command_fits_def command_carried_def
    by - ((elim conjE)?, (((simp (no_asm) only: version_gates command_type_limit endpoints if_True simp_thms) |
        (rule vasio.reads_elements reads_command_type_code preset.dec_reads reads_configuration
          reads_extensions reads_intros; (assumption | rule ballI, rule TrueI)?))+),
        simp add: configuration_base_def)
qed

section \<open>Whole messages\<close>

lemma decode_message_bytes:
  assumes "reads kControlWireVersion body bs x" "12 + length bs \<le> kControlWireMaxMessageBytes"
  shows "decode_message d body kind (wire_header kind (length bs) @ bs) = (x, None)"
proof -
  let ?r = "\<lparr>rd_bytes = wire_header kind (length bs) @ bs, rd_offset = 12,
    rd_version = kControlWireVersion, rd_error = None\<rparr>"
  have "drop (rd_offset ?r) (rd_bytes ?r) = bs @ []" by simp
  with assms(1) have "run_state body ?r = (x, ?r\<lparr>rd_offset := rd_offset ?r + length bs\<rparr>)"
    unfolding reads_def by (metis reader.select_convs(3,4))
  then show ?thesis
    using assms(2)
    by (simp add: decode_message_def make_reader_message r_finish_def r_ok_def r_fail_if_def Let_def)
qed

lemma message_roundtrip:
  assumes "puts enc fits bs" "fits \<Longrightarrow> reads kControlWireVersion body bs x"
    and "w_finish (enc (make_writer kind)) = Inr msg"
  shows "decode_message d body kind msg = (x, None)"
proof -
  from encode_result [OF assms(1), of kind] assms(3)
  have ok: "fits" "12 + length bs \<le> kControlWireMaxMessageBytes" "msg = wire_header kind (length bs) @ bs"
    by (auto split: if_splits)
  with assms(2) show ?thesis by (simp add: decode_message_bytes)
qed

lemma command_roundtrip:
  assumes "encode_control_command x = Inr msg" "command_carried x"
  shows "decode_control_command msg = (x, None)"
  using assms unfolding decode_control_command_def encode_control_command_def
  by (intro message_roundtrip [OF puts_command]) (auto intro: reads_command)

lemma command_encodes:
  "(\<exists>msg. encode_control_command x = Inr msg) \<longleftrightarrow>
     command_fits x \<and> 12 + length (command_bytes x) \<le> kControlWireMaxMessageBytes"
  using encode_result [OF puts_command, of x kCommandKind]
  unfolding encode_control_command_def by (auto split: if_splits)

text \<open>
  Decoding arbitrary bytes: the reader stays inside the message, and a reported error names a
  position inside it.
\<close>

lemma safe_enum_fields [wire_safe]: "safe decode_endpoint" "safe decode_preset_node"
  "safe decode_preset_route" "safe decode_diagnostics" "safe decode_wasapi_recovery"
  "safe decode_audio_format" "safe decode_virtual_asio_device" "safe decode_runtime_endpoint"
  "safe (decode_endpoint_extension e)"
  unfolding decode_endpoint_def decode_preset_node_def decode_preset_route_def
    decode_diagnostics_def decode_wasapi_recovery_def decode_audio_format_def
    decode_virtual_asio_device_def decode_runtime_endpoint_def decode_endpoint_extension_def
  by (intro wire_safe)+

lemma safe_preset [wire_safe]: "safe decode_preset"
  unfolding decode_preset_def Let_def by (intro wire_safe)

lemma safe_device [wire_safe]: "safe decode_device"
  unfolding decode_device_def Let_def by (intro wire_safe)

lemma safe_runtime_configuration [wire_safe]: "safe decode_runtime_configuration"
  unfolding decode_runtime_configuration_def Let_def by (intro wire_safe)

lemma safe_extensions [wire_safe]: "safe (decode_runtime_endpoint_extensions es)"
  unfolding decode_runtime_endpoint_extensions_def by (intro wire_safe)

lemma safe_command_body: "safe decode_command_body"
  unfolding decode_command_body_def by (intro wire_safe)

lemma decode_message_safe:
  assumes "safe body" "decode_message d body kind bytes = (x, Some (c, off))"
  shows "off \<le> length bytes"
proof -
  let ?r = "make_reader bytes kind" and ?m = "do { x \<leftarrow> body; _ \<leftarrow> r_finish; State_Monad.return x }"
  have r: "rd_bounded ?r" "rd_bytes ?r = bytes" using make_reader_bounded by auto
  have "safe ?m" using assms(1) by (intro wire_safe)
  then have "bounded ?m" by (rule safe_bounded)
  with r have "rd_bounded (snd (run_state ?m ?r))" "rd_bytes (snd (run_state ?m ?r)) = bytes"
    by (auto simp: bounded_def)
  with r assms(2) show ?thesis
    by (auto simp: decode_message_def Let_def rd_bounded_def split: if_splits prod.splits)
qed

text \<open>A message that decodes without an error was read to its end.\<close>

section \<open>Responses\<close>

definition encode_error :: "sar_error \<Rightarrow> wop" where
  "encode_error x = w_seq [w_string (err_code x), w_string (err_message x)]"

definition decode_error :: "sar_error rd" where
  "decode_error = do {
     code \<leftarrow> r_string; message \<leftarrow> r_string;
     State_Monad.return \<lparr>err_code = code, err_message = message\<rparr>
   }"

definition error_bytes :: "sar_error \<Rightarrow> byte list" where
  "error_bytes x = concat [string_bytes (err_code x), string_bytes (err_message x)]"

definition error_fits :: "sar_error \<Rightarrow> bool" where
  "error_fits x \<longleftrightarrow> string_fits (err_code x) \<and> string_fits (err_message x)"

interpretation error: wire_codec encode_error decode_error error_bytes error_fits "\<lambda>_. True"
proof unfold_locales
  show "puts (encode_error x) (error_fits x) (error_bytes x)" for x
    unfolding encode_error_def by (rule puts_cong, (rule puts_intros)+)
      (simp_all add: error_fits_def error_bytes_def)
  show "reads kControlWireVersion decode_error (error_bytes x) x" if "error_fits x" for x
    using that unfolding decode_error_def error_bytes_def concat.simps error_fits_def
    by - ((elim conjE)?, (rule reads_intros; assumption?)+, simp)
qed (simp add: error_bytes_def)

definition encode_graph_node :: "active_graph_node \<Rightarrow> wop" where
  "encode_graph_node x = w_seq [w_string (gn_id x), w_string (gn_label x)]"

definition decode_graph_node :: "active_graph_node rd" where
  "decode_graph_node = do {
     i \<leftarrow> r_string; label \<leftarrow> r_string;
     State_Monad.return \<lparr>gn_id = i, gn_label = label\<rparr>
   }"

definition graph_node_bytes :: "active_graph_node \<Rightarrow> byte list" where
  "graph_node_bytes x = concat [string_bytes (gn_id x), string_bytes (gn_label x)]"

definition graph_node_fits :: "active_graph_node \<Rightarrow> bool" where
  "graph_node_fits x \<longleftrightarrow> string_fits (gn_id x) \<and> string_fits (gn_label x)"

interpretation graph_node: wire_codec encode_graph_node decode_graph_node graph_node_bytes
  graph_node_fits "\<lambda>_. True"
proof unfold_locales
  show "puts (encode_graph_node x) (graph_node_fits x) (graph_node_bytes x)" for x
    unfolding encode_graph_node_def by (rule puts_cong, (rule puts_intros)+)
      (simp_all add: graph_node_fits_def graph_node_bytes_def)
  show "reads kControlWireVersion decode_graph_node (graph_node_bytes x) x" if "graph_node_fits x" for x
    using that unfolding decode_graph_node_def graph_node_bytes_def concat.simps graph_node_fits_def
    by - ((elim conjE)?, (rule reads_intros; assumption?)+, simp)
qed (simp add: graph_node_bytes_def)

text \<open>
  \<open>channels\<close> and \<open>frames\<close> travel as 64-bit words. The decoder's test that they fit
  \<^verbatim>\<open>std::size_t\<close> can not fail where \<^verbatim>\<open>std::size_t\<close> has 64 bits.
\<close>

definition encode_active_graph :: "active_graph_summary \<Rightarrow> wop" where
  "encode_active_graph x = w_seq [w_scalar (gs_version x), w_scalar (gs_sample_rate x),
     w_scalar (word_of_nat (gs_channels x) :: u64), w_scalar (word_of_nat (gs_frames x) :: u64),
     w_count (length (gs_nodes x)), w_each encode_graph_node (gs_nodes x)]"

definition decode_active_graph :: "active_graph_summary rd" where
  "decode_active_graph = do {
     version \<leftarrow> (r_scalar :: u64 rd);
     rate \<leftarrow> (r_scalar :: u32 rd);
     channels \<leftarrow> (r_scalar :: u64 rd);
     frames \<leftarrow> (r_scalar :: u64 rd);
     n \<leftarrow> r_count; ok \<leftarrow> r_ok;
     nodes \<leftarrow> (if ok then r_repeat (unat n) decode_graph_node else State_Monad.return []);
     State_Monad.return \<lparr>gs_version = version, gs_sample_rate = rate, gs_channels = unat channels,
       gs_frames = unat frames, gs_nodes = nodes\<rparr>
   }"

definition active_graph_bytes :: "active_graph_summary \<Rightarrow> byte list" where
  "active_graph_bytes x = concat [le_bytes (gs_version x), le_bytes (gs_sample_rate x),
     le_bytes (word_of_nat (gs_channels x) :: u64), le_bytes (word_of_nat (gs_frames x) :: u64),
     list_bytes graph_node_bytes (gs_nodes x)]"

definition active_graph_fits :: "active_graph_summary \<Rightarrow> bool" where
  "active_graph_fits x \<longleftrightarrow> graph_node.list_fits (gs_nodes x)"

definition active_graph_carried :: "active_graph_summary \<Rightarrow> bool" where
  "active_graph_carried x \<longleftrightarrow> gs_channels x < 2 ^ 64 \<and> gs_frames x < 2 ^ 64"

lemma unat_u64: "n < 2 ^ 64 \<Longrightarrow> unat (word_of_nat n :: u64) = n"
  by (simp add: unsigned_of_nat take_bit_nat_eq_self)

interpretation active_graph: wire_codec encode_active_graph decode_active_graph active_graph_bytes
  active_graph_fits active_graph_carried
proof unfold_locales
  show "puts (encode_active_graph x) (active_graph_fits x) (active_graph_bytes x)" for x
    unfolding encode_active_graph_def by (rule puts_cong, (rule graph_node.puts_list puts_intros)+)
      (simp_all add: active_graph_fits_def active_graph_bytes_def)
  show "reads kControlWireVersion decode_active_graph (active_graph_bytes x) x"
    if "active_graph_fits x" "active_graph_carried x" for x
    using that unfolding decode_active_graph_def active_graph_bytes_def concat.simps
      active_graph_fits_def active_graph_carried_def
    by - ((elim conjE)?, (rule graph_node.reads_elements reads_intros;
        (assumption | rule ballI, rule TrueI)?)+, simp add: unat_u64)
qed (simp add: active_graph_bytes_def)

text \<open>The diagnostics of one endpoint, with three optional fields.\<close>

definition encode_endpoint_diagnostics :: "endpoint_diagnostics \<Rightarrow> wop" where
  "encode_endpoint_diagnostics x = w_seq [w_string (ep_endpoint_id x),
     w_scalar (runtime_role_code (ep_role x)), encode_diagnostics (ep_diagnostics x),
     w_boolean (ep_recovery x \<noteq> None), w_option encode_wasapi_recovery (ep_recovery x),
     w_boolean (ep_queue_fill_frames x \<noteq> None), w_option w_scalar (ep_queue_fill_frames x),
     w_boolean (ep_correction_ppm x \<noteq> None), w_option w_float64 (ep_correction_ppm x)]"

definition r_some :: "'a rd \<Rightarrow> 'a option rd" where
  "r_some m = m \<bind> (\<lambda>y. State_Monad.return (Some y))"

definition decode_endpoint_diagnostics :: "endpoint_diagnostics rd" where
  "decode_endpoint_diagnostics = do {
     i \<leftarrow> r_string;
     role \<leftarrow> r_enumeration runtime_role_of 1;
     diagnostics \<leftarrow> decode_diagnostics;
     has_recovery \<leftarrow> r_boolean;
     recovery \<leftarrow> (if has_recovery then r_some decode_wasapi_recovery else State_Monad.return None);
     has_fill \<leftarrow> r_boolean;
     fill \<leftarrow> (if has_fill then r_some (r_scalar :: u64 rd) else State_Monad.return None);
     has_ppm \<leftarrow> r_boolean;
     ppm \<leftarrow> (if has_ppm then r_some r_float64 else State_Monad.return None);
     State_Monad.return \<lparr>ep_endpoint_id = i, ep_role = role, ep_diagnostics = diagnostics,
       ep_recovery = recovery, ep_queue_fill_frames = fill, ep_correction_ppm = ppm\<rparr>
   }"

definition endpoint_diagnostics_bytes :: "endpoint_diagnostics \<Rightarrow> byte list" where
  "endpoint_diagnostics_bytes x = concat [string_bytes (ep_endpoint_id x),
     le_bytes (runtime_role_code (ep_role x)), diagnostics_bytes (ep_diagnostics x),
     option_bytes recovery_bytes (ep_recovery x), option_bytes le_bytes (ep_queue_fill_frames x),
     option_bytes le_bytes (ep_correction_ppm x)]"

definition endpoint_diagnostics_fits :: "endpoint_diagnostics \<Rightarrow> bool" where
  "endpoint_diagnostics_fits x \<longleftrightarrow> string_fits (ep_endpoint_id x) \<and> recovery.option_fits (ep_recovery x)"

definition endpoint_diagnostics_carried :: "endpoint_diagnostics \<Rightarrow> bool" where
  "endpoint_diagnostics_carried x \<longleftrightarrow> diagnostics_carried (ep_diagnostics x) \<and>
     (\<forall>y. ep_correction_ppm x = Some y \<longrightarrow> f64_finite y)"

lemma option_fits_scalar [simp]: "num64.option_fits x" "float64.option_fits x'"
  by (auto simp: num64.option_fits_def float64.option_fits_def split: option.split)

interpretation endpoint_diagnostics: wire_codec encode_endpoint_diagnostics
  decode_endpoint_diagnostics endpoint_diagnostics_bytes endpoint_diagnostics_fits
  endpoint_diagnostics_carried
proof unfold_locales
  show "puts (encode_endpoint_diagnostics x) (endpoint_diagnostics_fits x) (endpoint_diagnostics_bytes x)" for x
    unfolding encode_endpoint_diagnostics_def
    by (rule puts_cong, (rule recovery.puts_option num64.puts_option float64.puts_option puts_intros
          diagnostics.enc_puts)+)
      (simp_all add: endpoint_diagnostics_fits_def endpoint_diagnostics_bytes_def)
  show "reads kControlWireVersion decode_endpoint_diagnostics (endpoint_diagnostics_bytes x) x"
    if "endpoint_diagnostics_fits x" "endpoint_diagnostics_carried x" for x
    using that unfolding decode_endpoint_diagnostics_def endpoint_diagnostics_bytes_def concat.simps
      endpoint_diagnostics_fits_def endpoint_diagnostics_carried_def r_some_def
    by - ((elim conjE)?, (rule recovery.reads_option num64.reads_option float64.reads_option
        reads_runtime_role_code diagnostics.dec_reads reads_intros;
        (assumption | rule option_fits_scalar TrueI | rule allI impI TrueI, (rule allI impI TrueI)+)?)+, simp)
qed (simp add: endpoint_diagnostics_bytes_def)

section \<open>The response message\<close>

definition encode_device_list :: "audio_device list \<Rightarrow> wop" where
  "encode_device_list xs = w_seq [w_count (length xs), w_each encode_device xs]"

definition decode_device_list :: "audio_device list rd" where
  "decode_device_list = do {
     n \<leftarrow> r_count; ok \<leftarrow> r_ok;
     xs \<leftarrow> (if ok then r_repeat (unat n) decode_device else State_Monad.return []);
     State_Monad.return xs
   }"

definition encode_virtual_asio_list :: "virtual_asio_device list \<Rightarrow> wop" where
  "encode_virtual_asio_list xs = w_seq [w_count (length xs), w_each encode_virtual_asio_device xs]"

definition decode_virtual_asio_list :: "virtual_asio_device list rd" where
  "decode_virtual_asio_list = do {
     n \<leftarrow> r_count;
     xs \<leftarrow> r_repeat (unat n) decode_virtual_asio_device;
     State_Monad.return xs
   }"

lemma puts_lists:
  "puts (encode_device_list xs) (device.list_fits xs) (list_bytes device_bytes xs)"
  "puts (encode_virtual_asio_list ys) (vasio.list_fits ys) (list_bytes vasio_bytes ys)"
  unfolding encode_device_list_def encode_virtual_asio_list_def
  by (rule puts_cong, rule device.puts_list, rule puts_Nil, simp_all)
    (rule puts_cong, rule vasio.puts_list, rule puts_Nil, simp_all)

lemma reads_lists:
  "device.list_fits xs \<Longrightarrow> reads kControlWireVersion decode_device_list (list_bytes device_bytes xs) xs"
  "vasio.list_fits ys \<Longrightarrow> reads kControlWireVersion decode_virtual_asio_list (list_bytes vasio_bytes ys) ys"
  unfolding decode_device_list_def decode_virtual_asio_list_def
  using device.reads_elements(3) [of xs State_Monad.return "[]" xs "[]"]
    vasio.reads_elements(1) [of ys State_Monad.return "[]" ys]
  by (simp_all add: reads_return)

text \<open>The part behind \<^verbatim>\<open>has_diagnostics\<close>.\<close>

definition encode_diagnostics_section :: "control_response \<Rightarrow> wop" where
  "encode_diagnostics_section x = w_seq [encode_diagnostics (cr_diagnostics x),
     w_boolean (cr_has_wasapi_recovery x),
     w_when (cr_has_wasapi_recovery x) (encode_wasapi_recovery (cr_wasapi_recovery x)),
     w_count (length (cr_endpoint_diagnostics x)),
     w_each encode_endpoint_diagnostics (cr_endpoint_diagnostics x)]"

type_synonym diagnostics_section =
  "engine_diagnostics \<times> bool \<times> recovery_diagnostics \<times> endpoint_diagnostics list"

definition decode_diagnostics_section :: "diagnostics_section rd" where
  "decode_diagnostics_section = do {
     diagnostics \<leftarrow> decode_diagnostics;
     has_recovery \<leftarrow> r_boolean; ok \<leftarrow> r_ok;
     recovery \<leftarrow> (if ok \<and> has_recovery then decode_wasapi_recovery
                  else State_Monad.return default_recovery);
     version \<leftarrow> r_version;
     n \<leftarrow> (if 10 \<le> version then r_count else State_Monad.return 0);
     ok \<leftarrow> r_ok;
     endpoints \<leftarrow> (if ok \<and> 10 \<le> version then r_repeat (unat n) decode_endpoint_diagnostics
                   else State_Monad.return []);
     State_Monad.return (diagnostics, has_recovery, recovery, endpoints)
   }"

definition diagnostics_section_bytes :: "control_response \<Rightarrow> byte list" where
  "diagnostics_section_bytes x = concat [diagnostics_bytes (cr_diagnostics x),
     bool_bytes (cr_has_wasapi_recovery x),
     (if cr_has_wasapi_recovery x then recovery_bytes (cr_wasapi_recovery x) else []),
     list_bytes endpoint_diagnostics_bytes (cr_endpoint_diagnostics x)]"

definition diagnostics_section_fits :: "control_response \<Rightarrow> bool" where
  "diagnostics_section_fits x \<longleftrightarrow>
     (cr_has_wasapi_recovery x \<longrightarrow> recovery_fits (cr_wasapi_recovery x)) \<and>
     endpoint_diagnostics.list_fits (cr_endpoint_diagnostics x)"

definition diagnostics_section_carried :: "control_response \<Rightarrow> bool" where
  "diagnostics_section_carried x \<longleftrightarrow> diagnostics_carried (cr_diagnostics x) \<and>
     (\<forall>e \<in> set (cr_endpoint_diagnostics x). endpoint_diagnostics_carried e)"

definition diagnostics_section_of :: "control_response \<Rightarrow> diagnostics_section" where
  "diagnostics_section_of x = (cr_diagnostics x, cr_has_wasapi_recovery x,
     (if cr_has_wasapi_recovery x then cr_wasapi_recovery x else default_recovery),
     cr_endpoint_diagnostics x)"

lemma puts_diagnostics_section:
  "puts (encode_diagnostics_section x) (diagnostics_section_fits x) (diagnostics_section_bytes x)"
  unfolding encode_diagnostics_section_def
  by (rule puts_cong, (rule endpoint_diagnostics.puts_list puts_intros diagnostics.enc_puts
        recovery.enc_puts)+)
    (simp_all add: diagnostics_section_fits_def diagnostics_section_bytes_def)

lemma reads_diagnostics_section:
  assumes "diagnostics_section_fits x" "diagnostics_section_carried x"
  shows "reads kControlWireVersion decode_diagnostics_section (diagnostics_section_bytes x)
    (diagnostics_section_of x)"
proof -
  have recovery: "reads kControlWireVersion decode_wasapi_recovery (recovery_bytes (cr_wasapi_recovery x))
      (cr_wasapi_recovery x)" if "cr_has_wasapi_recovery x"
    using that assms(1) by (intro recovery.dec_reads) (simp_all add: diagnostics_section_fits_def)
  show ?thesis
    using assms
    unfolding decode_diagnostics_section_def diagnostics_section_bytes_def concat.simps
      diagnostics_section_fits_def diagnostics_section_carried_def
    by - ((elim conjE)?, (((simp (no_asm) only: version_gates if_True simp_thms) |
        (rule reads_guarded [OF recovery] endpoint_diagnostics.reads_elements diagnostics.dec_reads
          reads_intros; (assumption | rule TrueI)?))+), simp (no_asm) add: diagnostics_section_of_def)
qed

definition encode_runtime_state :: "audio_runtime_state \<Rightarrow> wop" where
  "encode_runtime_state x = w_seq [w_boolean (as_installed x), w_boolean (as_running x),
     w_scalar (as_graph_version x), w_boolean (as_configured x),
     encode_runtime_configuration (as_configuration x)]"

definition decode_runtime_state :: "audio_runtime_state rd" where
  "decode_runtime_state = do {
     installed \<leftarrow> r_boolean;
     running \<leftarrow> r_boolean;
     version \<leftarrow> (r_scalar :: u64 rd);
     configured \<leftarrow> r_boolean;
     configuration \<leftarrow> decode_runtime_configuration;
     State_Monad.return \<lparr>as_installed = installed, as_running = running,
       as_graph_version = version, as_configured = configured, as_configuration = configuration\<rparr>
   }"

definition runtime_state_bytes :: "audio_runtime_state \<Rightarrow> byte list" where
  "runtime_state_bytes x = concat [bool_bytes (as_installed x), bool_bytes (as_running x),
     le_bytes (as_graph_version x), bool_bytes (as_configured x),
     runtime_configuration_bytes (as_configuration x)]"

definition runtime_state_base :: "audio_runtime_state \<Rightarrow> audio_runtime_state" where
  "runtime_state_base x = x\<lparr>as_configuration := configuration_base (as_configuration x)\<rparr>"

lemma puts_runtime_state:
  "puts (encode_runtime_state x) (runtime_configuration_fits (as_configuration x)) (runtime_state_bytes x)"
  unfolding encode_runtime_state_def
  by (rule puts_cong, (rule puts_intros runtime_configuration.enc_puts)+)
    (simp_all add: runtime_state_bytes_def)

lemma reads_runtime_state:
  assumes "runtime_configuration_fits (as_configuration x)" "configuration_carried (as_configuration x)"
  shows "reads kControlWireVersion decode_runtime_state (runtime_state_bytes x) (runtime_state_base x)"
  using assms unfolding decode_runtime_state_def runtime_state_bytes_def concat.simps
  by - ((rule reads_configuration reads_intros; assumption?)+, simp add: runtime_state_base_def)

definition encode_response_body :: "control_response \<Rightarrow> wop" where
  "encode_response_body x = w_seq [w_string (cr_command_id x),
     w_scalar (response_status_code (cr_status x)),
     w_count (length (cr_errors x)), w_each encode_error (cr_errors x),
     w_boolean (cr_has_preset x), w_when (cr_has_preset x) (encode_preset (cr_preset x)),
     w_boolean (cr_has_diagnostics x), w_when (cr_has_diagnostics x) (encode_diagnostics_section x),
     w_boolean (cr_has_devices x), w_when (cr_has_devices x) (encode_device_list (cr_devices x)),
     w_scalar (cr_next_graph_version x), w_boolean (cr_has_session_state x),
     w_boolean (cr_has_active_graph x),
     w_when (cr_has_active_graph x) (encode_active_graph (cr_active_graph x)),
     w_boolean (cr_has_audio_runtime_state x),
     w_when (cr_has_audio_runtime_state x) (encode_runtime_state (cr_audio_runtime x)),
     w_boolean (cr_has_virtual_asio_devices x),
     w_when (cr_has_virtual_asio_devices x) (encode_virtual_asio_list (cr_virtual_asio_devices x)),
     encode_runtime_endpoint_extensions (rc_endpoints (as_configuration (cr_audio_runtime x)))]"

definition encode_control_response :: "control_response \<Rightarrow> encode_result" where
  "encode_control_response x = w_finish (encode_response_body x (make_writer kResponseKind))"

definition decode_response_body :: "control_response rd" where
  "decode_response_body = do {
     i \<leftarrow> r_string;
     status \<leftarrow> r_enumeration response_status_of 1;
     n \<leftarrow> r_count; ok \<leftarrow> r_ok;
     errors \<leftarrow> (if ok then r_repeat (unat n) decode_error else State_Monad.return []);
     has_preset \<leftarrow> r_boolean; ok \<leftarrow> r_ok;
     preset \<leftarrow> (if ok \<and> has_preset then decode_preset else State_Monad.return default_preset);
     has_diagnostics \<leftarrow> r_boolean; ok \<leftarrow> r_ok;
     diagnostics \<leftarrow> (if ok \<and> has_diagnostics then decode_diagnostics_section
                     else State_Monad.return (default_diagnostics, False, default_recovery, []));
     has_devices \<leftarrow> r_boolean; ok \<leftarrow> r_ok;
     devices \<leftarrow> (if ok \<and> has_devices then decode_device_list else State_Monad.return []);
     next_version \<leftarrow> (r_scalar :: u64 rd);
     has_session \<leftarrow> r_boolean;
     has_graph \<leftarrow> r_boolean; ok \<leftarrow> r_ok;
     active \<leftarrow> (if ok \<and> has_graph then decode_active_graph
                else State_Monad.return empty_graph_summary);
     has_runtime \<leftarrow> r_boolean; ok \<leftarrow> r_ok;
     runtime \<leftarrow> (if ok \<and> has_runtime then decode_runtime_state
                 else State_Monad.return default_runtime_state);
     version \<leftarrow> r_version;
     has_virtual \<leftarrow> (if 11 \<le> version then r_boolean else State_Monad.return False); ok \<leftarrow> r_ok;
     virtual \<leftarrow> (if ok \<and> has_virtual then decode_virtual_asio_list else State_Monad.return []);
     ok \<leftarrow> r_ok;
     endpoints \<leftarrow>
       (if ok \<and> 14 \<le> version
        then decode_runtime_endpoint_extensions (rc_endpoints (as_configuration runtime))
        else State_Monad.return (rc_endpoints (as_configuration runtime)));
     State_Monad.return \<lparr>cr_command_id = i, cr_status = status, cr_errors = errors,
       cr_preset = preset, cr_has_preset = has_preset,
       cr_diagnostics = fst diagnostics, cr_has_diagnostics = has_diagnostics,
       cr_wasapi_recovery = fst (snd (snd diagnostics)),
       cr_has_wasapi_recovery = fst (snd diagnostics),
       cr_endpoint_diagnostics = snd (snd (snd diagnostics)),
       cr_devices = devices, cr_has_devices = has_devices, cr_next_graph_version = next_version,
       cr_has_session_state = has_session, cr_active_graph = active,
       cr_has_active_graph = has_graph,
       cr_audio_runtime = runtime\<lparr>as_configuration :=
         (as_configuration runtime)\<lparr>rc_endpoints := endpoints\<rparr>\<rparr>,
       cr_has_audio_runtime_state = has_runtime, cr_virtual_asio_devices = virtual,
       cr_has_virtual_asio_devices = has_virtual\<rparr>
   }"

definition decode_control_response :: "byte list \<Rightarrow> control_response \<times> wire_error" where
  "decode_control_response = decode_message default_response decode_response_body kResponseKind"

definition response_bytes :: "control_response \<Rightarrow> byte list" where
  "response_bytes x = concat [string_bytes (cr_command_id x),
     le_bytes (response_status_code (cr_status x)), list_bytes error_bytes (cr_errors x),
     bool_bytes (cr_has_preset x), (if cr_has_preset x then preset_bytes (cr_preset x) else []),
     bool_bytes (cr_has_diagnostics x),
     (if cr_has_diagnostics x then diagnostics_section_bytes x else []),
     bool_bytes (cr_has_devices x),
     (if cr_has_devices x then list_bytes device_bytes (cr_devices x) else []),
     le_bytes (cr_next_graph_version x), bool_bytes (cr_has_session_state x),
     bool_bytes (cr_has_active_graph x),
     (if cr_has_active_graph x then active_graph_bytes (cr_active_graph x) else []),
     bool_bytes (cr_has_audio_runtime_state x),
     (if cr_has_audio_runtime_state x then runtime_state_bytes (cr_audio_runtime x) else []),
     bool_bytes (cr_has_virtual_asio_devices x),
     (if cr_has_virtual_asio_devices x then list_bytes vasio_bytes (cr_virtual_asio_devices x) else []),
     list_bytes extension_bytes (rc_endpoints (as_configuration (cr_audio_runtime x)))]"

definition response_fits :: "control_response \<Rightarrow> bool" where
  "response_fits x \<longleftrightarrow> string_fits (cr_command_id x) \<and> error.list_fits (cr_errors x) \<and>
     (cr_has_preset x \<longrightarrow> preset_fits (cr_preset x)) \<and>
     (cr_has_diagnostics x \<longrightarrow> diagnostics_section_fits x) \<and>
     (cr_has_devices x \<longrightarrow> device.list_fits (cr_devices x)) \<and>
     (cr_has_active_graph x \<longrightarrow> active_graph_fits (cr_active_graph x)) \<and>
     (cr_has_audio_runtime_state x \<longrightarrow> runtime_configuration_fits (as_configuration (cr_audio_runtime x))) \<and>
     (cr_has_virtual_asio_devices x \<longrightarrow> vasio.list_fits (cr_virtual_asio_devices x)) \<and>
     extensions_fit (rc_endpoints (as_configuration (cr_audio_runtime x)))"

text \<open>
  The values a response message can carry: finite floating-point numbers, named enumerators,
  and no runtime endpoints without the runtime state (the extension at the end of the message
  would not match the endpoints the decoder has).
\<close>

definition response_carried :: "control_response \<Rightarrow> bool" where
  "response_carried x \<longleftrightarrow>
     (cr_has_preset x \<longrightarrow> preset_carried (cr_preset x)) \<and>
     (cr_has_diagnostics x \<longrightarrow> diagnostics_section_carried x) \<and>
     (cr_has_active_graph x \<longrightarrow> active_graph_carried (cr_active_graph x)) \<and>
     (if cr_has_audio_runtime_state x then configuration_carried (as_configuration (cr_audio_runtime x))
      else rc_endpoints (as_configuration (cr_audio_runtime x)) = [])"

text \<open>What the receiver sees: the sections that are present, defaults for the others.\<close>

definition response_visible :: "control_response \<Rightarrow> control_response" where
  "response_visible x = x\<lparr>
     cr_preset := (if cr_has_preset x then cr_preset x else default_preset),
     cr_diagnostics := (if cr_has_diagnostics x then cr_diagnostics x else default_diagnostics),
     cr_has_wasapi_recovery := cr_has_diagnostics x \<and> cr_has_wasapi_recovery x,
     cr_wasapi_recovery := (if cr_has_diagnostics x \<and> cr_has_wasapi_recovery x
                            then cr_wasapi_recovery x else default_recovery),
     cr_endpoint_diagnostics := (if cr_has_diagnostics x then cr_endpoint_diagnostics x else []),
     cr_devices := (if cr_has_devices x then cr_devices x else []),
     cr_active_graph := (if cr_has_active_graph x then cr_active_graph x else empty_graph_summary),
     cr_audio_runtime := (if cr_has_audio_runtime_state x then cr_audio_runtime x
                          else default_runtime_state),
     cr_virtual_asio_devices := (if cr_has_virtual_asio_devices x then cr_virtual_asio_devices x else [])\<rparr>"

lemma puts_response: "puts (encode_response_body x) (response_fits x) (response_bytes x)"
  unfolding encode_response_body_def
  by (rule puts_cong, (rule error.puts_list puts_intros preset.enc_puts puts_diagnostics_section
        puts_lists active_graph.enc_puts puts_runtime_state puts_extensions)+)
    (simp_all add: response_fits_def response_bytes_def)

lemma reads_response:
  assumes "response_fits x" "response_carried x"
  shows "reads kControlWireVersion decode_response_body (response_bytes x) (response_visible x)"
proof -
  note parts = assms [unfolded response_fits_def response_carried_def]
  have guarded:
    "cr_has_preset x \<Longrightarrow> reads kControlWireVersion decode_preset (preset_bytes (cr_preset x)) (cr_preset x)"
    "cr_has_diagnostics x \<Longrightarrow> reads kControlWireVersion decode_diagnostics_section
       (diagnostics_section_bytes x) (diagnostics_section_of x)"
    "cr_has_devices x \<Longrightarrow> reads kControlWireVersion decode_device_list
       (list_bytes device_bytes (cr_devices x)) (cr_devices x)"
    "cr_has_active_graph x \<Longrightarrow> reads kControlWireVersion decode_active_graph
       (active_graph_bytes (cr_active_graph x)) (cr_active_graph x)"
    "cr_has_audio_runtime_state x \<Longrightarrow> reads kControlWireVersion decode_runtime_state
       (runtime_state_bytes (cr_audio_runtime x)) (runtime_state_base (cr_audio_runtime x))"
    "cr_has_virtual_asio_devices x \<Longrightarrow> reads kControlWireVersion decode_virtual_asio_list
       (list_bytes vasio_bytes (cr_virtual_asio_devices x)) (cr_virtual_asio_devices x)"
    using parts
    by (simp_all add: preset.dec_reads reads_diagnostics_section reads_lists active_graph.dec_reads
        reads_runtime_state)
  have scalars: "string_fits (cr_command_id x)" "error.list_fits (cr_errors x)"
    "extensions_fit (rc_endpoints (as_configuration (cr_audio_runtime x)))"
    and named: "\<forall>e \<in> set (rc_endpoints (as_configuration (cr_audio_runtime x))). named_backend e"
    using parts by (auto simp: configuration_carried_def split: if_splits)
  have endpoints: "rc_endpoints (as_configuration (if cr_has_audio_runtime_state x
      then runtime_state_base (cr_audio_runtime x) else default_runtime_state)) =
      map runtime_base (rc_endpoints (as_configuration (cr_audio_runtime x)))"
    using parts by (simp add: runtime_state_base_def configuration_base_def default_runtime_state_def
        default_runtime_configuration_def)
  have whole: "\<not> cr_has_audio_runtime_state x \<Longrightarrow>
      rc_endpoints (as_configuration (cr_audio_runtime x)) = []"
    using parts by simp
  show ?thesis
    using scalars named
    unfolding decode_response_body_def response_bytes_def concat.simps
    by - (((simp (no_asm) only: version_gates endpoints if_True simp_thms) |
        (rule reads_guarded [OF guarded(1)] reads_guarded [OF guarded(2)] reads_guarded [OF guarded(3)]
          reads_guarded [OF guarded(4)] reads_guarded [OF guarded(5)] reads_guarded [OF guarded(6)]
          error.reads_elements reads_response_status_code reads_extensions reads_intros;
          (assumption | rule ballI, rule TrueI)?))+,
        use whole in \<open>simp add: response_visible_def diagnostics_section_of_def runtime_state_base_def
          configuration_base_def default_runtime_state_def default_runtime_configuration_def\<close>)
qed

lemma response_roundtrip:
  assumes "encode_control_response x = Inr msg" "response_carried x"
  shows "decode_control_response msg = (response_visible x, None)"
  using assms unfolding decode_control_response_def encode_control_response_def
  by (intro message_roundtrip [OF puts_response]) (auto intro: reads_response)

lemma response_encodes:
  "(\<exists>msg. encode_control_response x = Inr msg) \<longleftrightarrow>
     response_fits x \<and> 12 + length (response_bytes x) \<le> kControlWireMaxMessageBytes"
  using encode_result [OF puts_response, of x kResponseKind]
  unfolding encode_control_response_def by (auto split: if_splits)

lemma safe_response_parts [wire_safe]: "safe decode_error" "safe decode_graph_node"
  "safe decode_active_graph" "safe decode_endpoint_diagnostics" "safe decode_device_list"
  "safe decode_virtual_asio_list" "safe decode_runtime_state"
  unfolding decode_error_def decode_graph_node_def decode_active_graph_def
    decode_endpoint_diagnostics_def decode_device_list_def decode_virtual_asio_list_def
    decode_runtime_state_def r_some_def
  by (intro wire_safe)+

lemma safe_diagnostics_section [wire_safe]: "safe decode_diagnostics_section"
  unfolding decode_diagnostics_section_def by (intro wire_safe)

lemma safe_response_body: "safe decode_response_body"
  unfolding decode_response_body_def by (intro wire_safe)

section \<open>Properties\<close>

text \<open>
  C6: Whatever command the encoder accepts, the decoder gives back the same command without an
  error, as long as its enumerations have names and its floating-point numbers are finite.
\<close>

theorem command_round_trip:
  assumes "encode_control_command x = Inr msg" "command_carried x"
  shows "decode_control_command msg = (x, None)"
  using assms by (rule command_roundtrip)

definition wire_command :: control_command where
  "wire_command = default_command\<lparr>cc_command_id := ''id'', cc_type := ConfigureAudioRuntime,
     cc_audio_runtime := default_runtime_configuration\<lparr>rc_mode := WasapiMatrix, rc_endpoints :=
       [default_runtime_endpoint\<lparr>rt_endpoint_id := ''e'', rt_direction := Render, rt_backend := PhysicalAsioBackend,
          rt_device_group_id := ''g'', rt_sample_rate := 48000\<rparr>]\<rparr>\<rparr>"

lemma wire_command_encodes: "\<exists>msg. encode_control_command wire_command = Inr msg" "command_carried wire_command"
  unfolding command_encodes
  by (simp_all add: wire_command_def default_command_def default_preset_def empty_matrix_def
      default_runtime_configuration_def default_runtime_endpoint_def command_fits_def command_bytes_def
      string_fits_def preset_fits_def runtime_configuration_fits_def extensions_fit_def count_fits_def
      preset_bytes_def runtime_configuration_bytes_def list_bytes_def count_bytes_def string_bytes_def
      bool_bytes_def extension_bytes_def runtime_endpoint_bytes_def runtime_endpoint_fits_def
      preset_node.list_fits_def endpoint.list_fits_def preset_route.list_fits_def
      runtime_endpoint.list_fits_def num.list_fits_def vasio.list_fits_def
      kControlWireMaxStringBytes_def kControlWireMaxArrayElements_def kControlWireMaxMessageBytes_def
      command_carried_def preset_carried_def configuration_carried_def named_direction_def named_backend_def)

theorem command_round_trip_witness:
  "\<exists>msg. encode_control_command wire_command = Inr msg \<and> decode_control_command msg = (wire_command, None)"
  using wire_command_encodes command_round_trip by blast

text \<open>
  C7: Whatever response the encoder accepts, the decoder gives back the sections that were
  present (defaults for the others) without an error, as long as the values are ones the wire
  carries.
\<close>

theorem response_round_trip:
  assumes "encode_control_response x = Inr msg" "response_carried x"
  shows "decode_control_response msg = (response_visible x, None)"
  using assms by (rule response_roundtrip)

definition wire_response :: control_response where
  "wire_response = command_rejected ''id'' [mk_error ''code'' ''message'']"

lemma wire_response_encodes: "\<exists>msg. encode_control_response wire_response = Inr msg" "response_carried wire_response"
  unfolding response_encodes
  by (simp_all add: wire_response_def command_rejected_def default_response_def mk_error_def
      response_fits_def response_carried_def response_bytes_def default_runtime_state_def
      default_runtime_configuration_def extensions_fit_def count_fits_def error.list_fits_def
      error_fits_def error_bytes_def string_fits_def list_bytes_def count_bytes_def string_bytes_def
      bool_bytes_def kControlWireMaxStringBytes_def kControlWireMaxArrayElements_def
      kControlWireMaxMessageBytes_def)

theorem response_round_trip_witness:
  "\<exists>msg. encode_control_response wire_response = Inr msg \<and>
     decode_control_response msg = (response_visible wire_response, None)"
  using wire_response_encodes response_round_trip by blast

text \<open>
  The encoder accepts a command exactly when every string has at most 65536 bytes, every
  array at most 4096 elements and the whole message at most one mebibyte.
\<close>

theorem command_encodes_within_limits:
  "(\<exists>msg. encode_control_command x = Inr msg) \<longleftrightarrow>
     command_fits x \<and> kControlWireHeaderSize + length (command_bytes x) \<le> kControlWireMaxMessageBytes"
  using command_encodes [of x] by (simp add: kControlWireHeaderSize_def)

text \<open>
  Decoding arbitrary bytes as a command or as a response always returns, and a reported
  error names a position inside the message: the reader never passes its end.
\<close>

theorem decoding_stays_inside:
  assumes "decode_control_command bytes = (x, Some (c, off)) \<or>
    decode_control_response bytes = (y, Some (c, off))"
  shows "off \<le> length bytes"
  using assms decode_message_safe [OF safe_command_body] decode_message_safe [OF safe_response_body]
  unfolding decode_control_command_def decode_control_response_def by blast

theorem decoding_stays_inside_witness:
  "snd (decode_control_command [0, 1, 2]) = Some (Truncated, 0) \<and> 0 \<le> length [0 :: byte, 1, 2]"
proof -
  have run: "decode_control_command [0, 1, 2] = (default_command, Some (Truncated, 0))"
    by (simp add: decode_control_command_def decode_message_def make_reader_def r_fail_def Let_def
        kControlWireMaxMessageBytes_def kControlWireHeaderSize_def)
  with decoding_stays_inside [of "[0, 1, 2]"] show ?thesis by auto
qed

end
