(* ===== verification/GraphPublisher.thy ===== *)
theory GraphPublisher
  imports Prelude
begin

text \<open>
  \<^verbatim>\<open>core/graph/graph_snapshot.{h,cpp}\<close>: the publisher that hands a graph from the control
  threads to the audio threads. Every load, store, spin and reference-count change of the code
  is one step; any number of control threads (\<open>publish\<close>, \<open>current\<close>) and of audio threads
  (\<open>process\<close>) interleave. A graph is the identity of its object. A \<^verbatim>\<open>shared_ptr\<close> is an optional
  identity, and an object is destroyed when the last pointer to it is reset. The atomics of the
  code are sequentially consistent where the algorithm needs it, so interleavings of the
  steps are its executions.
\<close>

section \<open>State\<close>

type_synonym graph_id = nat
type_synonym graph_ptr = "graph_id option"

text \<open>
  Where a control thread stands: in \<open>publish\<close> with its argument and the previous graph, or in
  \<open>current\<close> with its result.
\<close>

datatype control_pc = CtlIdle
  | PubLock graph_ptr | PubMove graph_ptr | PubAssign graph_ptr graph_ptr | PubStore graph_ptr
  | PubWait graph_ptr | PubReset graph_ptr | PubUnlock
  | CurLock | CurCopy | CurUnlock graph_ptr

datatype process_pc = AIdle | ALoad | AUsing graph_ptr

record publisher =
  ps_control_lock :: bool
  ps_graph :: graph_ptr
  ps_active_graph :: graph_ptr
  ps_active_processors :: u32
  ps_control :: "control_pc list"
  ps_process :: "process_pc list"
  ps_clients :: "graph_id list"
  ps_destroyed :: "graph_id set"

text \<open>The constructor, for a program with the given numbers of threads.\<close>

definition make_publisher :: "graph_ptr \<Rightarrow> nat \<Rightarrow> nat \<Rightarrow> publisher" where
  "make_publisher g controls processors =
     \<lparr>ps_control_lock = False, ps_graph = g, ps_active_graph = g, ps_active_processors = 0,
      ps_control = replicate controls CtlIdle, ps_process = replicate processors AIdle,
      ps_clients = [], ps_destroyed = {}\<rparr>"

text \<open>The pointers a control thread owns, and the objects that are owned at all.\<close>

fun pc_pointers :: "control_pc \<Rightarrow> graph_ptr set" where
  "pc_pointers (PubLock a) = {a}"
| "pc_pointers (PubMove a) = {a}"
| "pc_pointers (PubAssign a p) = {a, p}"
| "pc_pointers (PubStore p) = {p}"
| "pc_pointers (PubWait p) = {p}"
| "pc_pointers (PubReset p) = {p}"
| "pc_pointers (CurUnlock r) = {r}"
| "pc_pointers _ = {}"

definition ps_owned :: "publisher \<Rightarrow> graph_id \<Rightarrow> bool" where
  "ps_owned s g \<longleftrightarrow> ps_graph s = Some g \<or> (\<exists>c \<in> set (ps_control s). Some g \<in> pc_pointers c) \<or>
     g \<in> set (ps_clients s)"

text \<open>After a pointer is gone: its object is destroyed when nothing else owns it.\<close>

definition ps_reclaim :: "graph_ptr \<Rightarrow> publisher \<Rightarrow> publisher" where
  "ps_reclaim p s =
     (case p of None \<Rightarrow> s
      | Some g \<Rightarrow> if ps_owned s g then s else s\<lparr>ps_destroyed := insert g (ps_destroyed s)\<rparr>)"

abbreviation at_control :: "publisher \<Rightarrow> nat \<Rightarrow> control_pc \<Rightarrow> bool" where
  "at_control s i c \<equiv> i < length (ps_control s) \<and> ps_control s ! i = c"

abbreviation at_process :: "publisher \<Rightarrow> nat \<Rightarrow> process_pc \<Rightarrow> bool" where
  "at_process s k c \<equiv> k < length (ps_process s) \<and> ps_process s ! k = c"

definition go :: "nat \<Rightarrow> control_pc \<Rightarrow> publisher \<Rightarrow> publisher" where
  "go i c s = s\<lparr>ps_control := (ps_control s)[i := c]\<rparr>"

definition run :: "nat \<Rightarrow> process_pc \<Rightarrow> publisher \<Rightarrow> publisher" where
  "run k c s = s\<lparr>ps_process := (ps_process s)[k := c]\<rparr>"

section \<open>Steps\<close>

text \<open>
  \<open>publish\<close> is called with a pointer to a graph that has not been destroyed, or with no graph. The
  spin of \<open>lock_control\<close> and the wait for the processors are the steps that are not enabled yet.
\<close>

inductive publisher_step :: "publisher \<Rightarrow> publisher \<Rightarrow> bool" where
  publish_call: "at_control s i CtlIdle \<Longrightarrow> (case a of None \<Rightarrow> True | Some g \<Rightarrow> g \<notin> ps_destroyed s) \<Longrightarrow>
     publisher_step s (go i (PubLock a) s)"
| publish_lock: "at_control s i (PubLock a) \<Longrightarrow> \<not> ps_control_lock s \<Longrightarrow>
     publisher_step s (go i (PubMove a) s\<lparr>ps_control_lock := True\<rparr>)"
| publish_move: "at_control s i (PubMove a) \<Longrightarrow>
     publisher_step s (go i (PubAssign a (ps_graph s)) s\<lparr>ps_graph := None\<rparr>)"
| publish_assign: "at_control s i (PubAssign a p) \<Longrightarrow>
     publisher_step s (go i (PubStore p) s\<lparr>ps_graph := a\<rparr>)"
| publish_store: "at_control s i (PubStore p) \<Longrightarrow>
     publisher_step s (go i (PubWait p) s\<lparr>ps_active_graph := ps_graph s\<rparr>)"
| publish_wait: "at_control s i (PubWait p) \<Longrightarrow> ps_active_processors s = 0 \<Longrightarrow>
     publisher_step s (go i (PubReset p) s)"
| publish_reset: "at_control s i (PubReset p) \<Longrightarrow>
     publisher_step s (ps_reclaim p (go i PubUnlock s))"
| publish_unlock: "at_control s i PubUnlock \<Longrightarrow>
     publisher_step s (go i CtlIdle s\<lparr>ps_control_lock := False\<rparr>)"
| current_call: "at_control s i CtlIdle \<Longrightarrow> publisher_step s (go i CurLock s)"
| current_lock: "at_control s i CurLock \<Longrightarrow> \<not> ps_control_lock s \<Longrightarrow>
     publisher_step s (go i CurCopy s\<lparr>ps_control_lock := True\<rparr>)"
| current_copy: "at_control s i CurCopy \<Longrightarrow> publisher_step s (go i (CurUnlock (ps_graph s)) s)"
| current_unlock: "at_control s i (CurUnlock r) \<Longrightarrow>
     publisher_step s (go i CtlIdle s\<lparr>ps_control_lock := False,
       ps_clients := (case r of None \<Rightarrow> [] | Some g \<Rightarrow> [g]) @ ps_clients s\<rparr>)"
| client_reset: "g \<in> set (ps_clients s) \<Longrightarrow>
     publisher_step s (ps_reclaim (Some g) (s\<lparr>ps_clients := remove1 g (ps_clients s)\<rparr>))"
| process_enter: "at_process s k AIdle \<Longrightarrow>
     publisher_step s (run k ALoad s\<lparr>ps_active_processors := ps_active_processors s + 1\<rparr>)"
| process_load: "at_process s k ALoad \<Longrightarrow> publisher_step s (run k (AUsing (ps_active_graph s)) s)"
| process_leave: "at_process s k (AUsing g) \<Longrightarrow>
     publisher_step s (run k AIdle s\<lparr>ps_active_processors := ps_active_processors s - 1\<rparr>)"

inductive publisher_run :: "publisher \<Rightarrow> publisher \<Rightarrow> bool" where
  publisher_refl: "publisher_run s s"
| publisher_then: "publisher_run s t \<Longrightarrow> publisher_step t u \<Longrightarrow> publisher_run s u"

inductive_cases publisher_stepE: "publisher_step s t"

section \<open>The invariant\<close>

lemma length_filter_update:
  "i < length xs \<Longrightarrow> length (filter P (xs[i := y])) + of_bool (P (xs ! i)) =
     length (filter P xs) + of_bool (P y)"
proof (induction xs arbitrary: i)
  case (Cons x xs)
  then show ?case by (cases i) auto
qed simp

text \<open>The threads inside \<open>process\<close>, as the code counts them.\<close>

definition inside :: "process_pc list \<Rightarrow> nat" where
  "inside ps = length (filter (\<lambda>p. p \<noteq> AIdle) ps)"

lemma inside_update:
  "k < length ps \<Longrightarrow> ps ! k = AIdle \<Longrightarrow> p \<noteq> AIdle \<Longrightarrow> inside (ps[k := p]) = inside ps + 1"
  "k < length ps \<Longrightarrow> ps ! k \<noteq> AIdle \<Longrightarrow> p \<noteq> AIdle \<Longrightarrow> inside (ps[k := p]) = inside ps"
  "k < length ps \<Longrightarrow> ps ! k \<noteq> AIdle \<Longrightarrow> inside (ps[k := AIdle]) + 1 = inside ps"
  using length_filter_update [of k ps "\<lambda>p. p \<noteq> AIdle" p]
    length_filter_update [of k ps "\<lambda>p. p \<noteq> AIdle" AIdle]
  by (simp_all add: inside_def)

lemma inside_0: "inside ps = 0 \<Longrightarrow> k < length ps \<Longrightarrow> ps ! k = AIdle"
  by (auto simp: inside_def filter_empty_conv)

lemma inside_le: "inside ps \<le> length ps"
  by (simp add: inside_def)

definition count_inv :: "publisher \<Rightarrow> bool" where
  "count_inv s \<longleftrightarrow> length (ps_process s) < 2 ^ 32 \<and>
     unat (ps_active_processors s) = inside (ps_process s)"

text \<open>A control thread between \<open>lock_control\<close> and \<open>unlock_control\<close>.\<close>

fun critical :: "control_pc \<Rightarrow> bool" where
  "critical CtlIdle = False"
| "critical (PubLock a) = False"
| "critical CurLock = False"
| "critical _ = True"

text \<open>What the lock holder knows of the two graph pointers.\<close>

fun phase_ok :: "control_pc \<Rightarrow> publisher \<Rightarrow> bool" where
  "phase_ok (PubAssign a p) s \<longleftrightarrow> ps_active_graph s = p \<and> ps_graph s = None"
| "phase_ok (PubStore p) s \<longleftrightarrow> ps_active_graph s = p"
| "phase_ok c s \<longleftrightarrow> (critical c \<longrightarrow> ps_active_graph s = ps_graph s)"

definition lock_inv :: "publisher \<Rightarrow> bool" where
  "lock_inv s \<longleftrightarrow>
     (ps_control_lock s \<longleftrightarrow> (\<exists>i < length (ps_control s). critical (ps_control s ! i))) \<and>
     (\<forall>i < length (ps_control s). \<forall>j < length (ps_control s).
        critical (ps_control s ! i) \<longrightarrow> critical (ps_control s ! j) \<longrightarrow> i = j) \<and>
     (\<forall>i < length (ps_control s). phase_ok (ps_control s ! i) s) \<and>
     (\<not> ps_control_lock s \<longrightarrow> ps_active_graph s = ps_graph s)"

definition using_inv :: "publisher \<Rightarrow> bool" where
  "using_inv s \<longleftrightarrow> (\<forall>k g. at_process s k (AUsing (Some g)) \<longrightarrow>
     ps_active_graph s = Some g \<or> (\<exists>i. at_control s i (PubWait (Some g))))"

definition owned_inv :: "publisher \<Rightarrow> bool" where
  "owned_inv s \<longleftrightarrow> (\<forall>g. ps_owned s g \<longrightarrow> g \<notin> ps_destroyed s)"

lemma go_simps [simp]:
  "ps_control_lock (go i c s) = ps_control_lock s" "ps_graph (go i c s) = ps_graph s"
  "ps_active_graph (go i c s) = ps_active_graph s"
  "ps_active_processors (go i c s) = ps_active_processors s"
  "ps_control (go i c s) = (ps_control s)[i := c]" "ps_process (go i c s) = ps_process s"
  "ps_clients (go i c s) = ps_clients s" "ps_destroyed (go i c s) = ps_destroyed s"
  by (simp_all add: go_def)

lemma run_simps [simp]:
  "ps_control_lock (run i c s) = ps_control_lock s" "ps_graph (run i c s) = ps_graph s"
  "ps_active_graph (run i c s) = ps_active_graph s"
  "ps_active_processors (run i c s) = ps_active_processors s"
  "ps_process (run i c s) = (ps_process s)[i := c]" "ps_control (run i c s) = ps_control s"
  "ps_clients (run i c s) = ps_clients s" "ps_destroyed (run i c s) = ps_destroyed s"
  by (simp_all add: run_def)

lemma reclaim_simps [simp]:
  "ps_control_lock (ps_reclaim p s) = ps_control_lock s" "ps_graph (ps_reclaim p s) = ps_graph s"
  "ps_active_graph (ps_reclaim p s) = ps_active_graph s"
  "ps_active_processors (ps_reclaim p s) = ps_active_processors s"
  "ps_process (ps_reclaim p s) = ps_process s" "ps_control (ps_reclaim p s) = ps_control s"
  "ps_clients (ps_reclaim p s) = ps_clients s"
  by (simp_all add: ps_reclaim_def split: option.splits)

lemma phase_ok_reclaim [simp]: "phase_ok c (ps_reclaim p s) = phase_ok c s"
  by (cases c) simp_all

lemma phase_ok_go [simp]: "phase_ok c (go i d s) = phase_ok c s"
  by (cases c) simp_all

lemma phase_ok_run [simp]: "phase_ok c (run i d s) = phase_ok c s"
  by (cases c) simp_all

lemma phase_ok_upd [simp]:
  "phase_ok c (s\<lparr>ps_control_lock := b\<rparr>) = phase_ok c s" "phase_ok c (s\<lparr>ps_clients := cs\<rparr>) = phase_ok c s"
  "phase_ok c (s\<lparr>ps_active_processors := n\<rparr>) = phase_ok c s"
  by (cases c; simp)+

lemma phase_ok_not_critical: "\<not> critical c \<Longrightarrow> phase_ok c s"
  by (cases c) simp_all

lemma count_inv_step: "publisher_step s t \<Longrightarrow> count_inv s \<Longrightarrow> count_inv t"
proof (induction rule: publisher_step.induct)
  case (process_enter s k)
  then have "inside (ps_process s) < length (ps_process s)"
    using inside_update(1) [of k "ps_process s" ALoad] inside_le [of "(ps_process s)[k := ALoad]"] by simp
  with process_enter have "unat (ps_active_processors s) + 1 < 2 ^ 32" by (simp add: count_inv_def)
  then have "unat (ps_active_processors s + 1) = unat (ps_active_processors s) + 1"
    by (simp add: unat_word_ariths)
  with process_enter show ?case
    using inside_update(1) [of k "ps_process s" ALoad] by (simp add: count_inv_def)
next
  case (process_load s k)
  then show ?case
    using inside_update(2) [of k "ps_process s" "AUsing (ps_active_graph s)"] by (simp add: count_inv_def)
next
  case (process_leave s k g)
  then have "inside ((ps_process s)[k := AIdle]) + 1 = unat (ps_active_processors s)"
    using inside_update(3) [of k "ps_process s"] by (simp add: count_inv_def)
  moreover from this have "unat (ps_active_processors s - 1) = unat (ps_active_processors s) - 1"
    by (simp add: unat_minus_one unat_eq_0 [symmetric])
  ultimately show ?case using process_leave by (simp add: count_inv_def)
qed (simp_all add: count_inv_def)

text \<open>
  A step of thread \<open>i\<close> keeps the lock invariant when \<open>i\<close> is inside or takes the free lock, and
  what it leaves behind agrees with its new phase; outside, only its own program counter moves.
\<close>

lemma lock_inv_inside:
  assumes inv: "lock_inv s" and i: "i < length (ps_control s)"
    and old: "critical (ps_control s ! i) \<or> \<not> ps_control_lock s"
    and ctl: "ps_control t = (ps_control s)[i := c]"
    and lock: "ps_control_lock t = critical c" and phase: "phase_ok c t"
    and out: "\<not> critical c \<longrightarrow> ps_active_graph t = ps_graph t"
  shows "lock_inv t"
proof -
  have others: "\<not> critical (ps_control s ! j)" if "j < length (ps_control s)" "j \<noteq> i" for j
    using inv i old that unfolding lock_inv_def by blast
  have at: "ps_control t ! j = (if j = i then c else ps_control s ! j)" if "j < length (ps_control s)" for j
    using that i ctl by (simp add: nth_list_update)
  have len: "length (ps_control t) = length (ps_control s)" by (simp add: ctl)
  show ?thesis
    unfolding lock_inv_def len
    using others at i lock phase out phase_ok_not_critical by (metis (full_types))
qed

lemma lock_inv_outside:
  assumes inv: "lock_inv s" and i: "i < length (ps_control s)"
    and old: "\<not> critical (ps_control s ! i)" and new: "\<not> critical c"
  shows "lock_inv (go i c s)"
proof -
  have at: "critical ((ps_control s)[i := c] ! j) = critical (ps_control s ! j)" if "j < length (ps_control s)" for j
    using that i old new by (auto simp: nth_list_update)
  have ph: "phase_ok ((ps_control s)[i := c] ! j) s" if "j < length (ps_control s)" for j
    using that i inv new phase_ok_not_critical by (auto simp: nth_list_update lock_inv_def)
  show ?thesis using inv at ph by (auto simp: lock_inv_def)
qed

lemma lock_inv_free: "lock_inv s \<Longrightarrow> \<not> ps_control_lock s \<Longrightarrow> ps_active_graph s = ps_graph s"
  by (simp add: lock_inv_def)

lemma lock_inv_mutex:
  "lock_inv s \<Longrightarrow> at_control s i c \<Longrightarrow> at_control s j d \<Longrightarrow> critical c \<Longrightarrow> critical d \<Longrightarrow> i = j"
  by (auto simp: lock_inv_def)

lemma lock_inv_locked: "lock_inv s \<Longrightarrow> at_control s i c \<Longrightarrow> critical c \<Longrightarrow> ps_control_lock s"
  by (auto simp: lock_inv_def)

lemma lock_inv_phase: "lock_inv s \<Longrightarrow> at_control s i c \<Longrightarrow> phase_ok c s"
  by (auto simp: lock_inv_def)

lemma lock_inv_frame:
  "lock_inv s \<Longrightarrow> ps_control t = ps_control s \<Longrightarrow> ps_control_lock t = ps_control_lock s \<Longrightarrow>
   ps_graph t = ps_graph s \<Longrightarrow> ps_active_graph t = ps_active_graph s \<Longrightarrow> lock_inv t"
proof -
  assume a: "lock_inv s" "ps_control t = ps_control s" "ps_control_lock t = ps_control_lock s"
   "ps_graph t = ps_graph s" "ps_active_graph t = ps_active_graph s"
  have "phase_ok c t = phase_ok c s" for c using a by (cases c) simp_all
  with a show ?thesis by (simp add: lock_inv_def)
qed

lemma lock_inv_step: "publisher_step s t \<Longrightarrow> lock_inv s \<Longrightarrow> lock_inv t"
proof (induction rule: publisher_step.induct)
  case (publish_lock s i a)
  then show ?case
    using lock_inv_free [of s] by - (rule lock_inv_inside [of s i _ "PubMove a"], simp_all)
next
  case (publish_move s i a)
  then show ?case
    using lock_inv_phase [of s i "PubMove a"] lock_inv_locked [of s i "PubMove a"]
    by - (rule lock_inv_inside [of s i _ "PubAssign a (ps_graph s)"], simp_all)
next
  case (publish_assign s i a p)
  then show ?case
    using lock_inv_phase [of s i "PubAssign a p"] lock_inv_locked [of s i "PubAssign a p"]
    by - (rule lock_inv_inside [of s i _ "PubStore p"], simp_all)
next
  case (publish_store s i p)
  then show ?case
    using lock_inv_locked [of s i "PubStore p"]
    by - (rule lock_inv_inside [of s i _ "PubWait p"], simp_all)
next
  case (publish_wait s i p)
  then show ?case
    using lock_inv_phase [of s i "PubWait p"] lock_inv_locked [of s i "PubWait p"]
    by - (rule lock_inv_inside [of s i _ "PubReset p"], simp_all)
next
  case (publish_reset s i p)
  then show ?case
    using lock_inv_phase [of s i "PubReset p"] lock_inv_locked [of s i "PubReset p"]
    by - (rule lock_inv_inside [of s i _ "PubUnlock"], simp_all)
next
  case (publish_unlock s i)
  then show ?case
    using lock_inv_phase [of s i "PubUnlock"] lock_inv_locked [of s i "PubUnlock"]
    by - (rule lock_inv_inside [of s i _ "CtlIdle"], simp_all)
next
  case (current_lock s i)
  then show ?case
    using lock_inv_free [of s] by - (rule lock_inv_inside [of s i _ "CurCopy"], simp_all)
next
  case (current_copy s i)
  then show ?case
    using lock_inv_phase [of s i "CurCopy"] lock_inv_locked [of s i "CurCopy"]
    by - (rule lock_inv_inside [of s i _ "CurUnlock (ps_graph s)"], simp_all)
next
  case (current_unlock s i r)
  then show ?case
    using lock_inv_phase [of s i "CurUnlock r"] lock_inv_locked [of s i "CurUnlock r"]
    by - (rule lock_inv_inside [of s i _ "CtlIdle"], simp_all)
qed (auto intro: lock_inv_outside lock_inv_frame)

lemma using_inv_control:
  assumes "using_inv s" "at_control s i c" "\<And>g. c \<noteq> PubWait (Some g)"
    and "ps_control t = (ps_control s)[i := d]" "ps_process t = ps_process s"
    and "ps_active_graph t = ps_active_graph s"
  shows "using_inv t"
  unfolding using_inv_def
proof (intro allI impI)
  fix k g
  assume "at_process t k (AUsing (Some g))"
  with assms have "ps_active_graph s = Some g \<or> (\<exists>j. at_control s j (PubWait (Some g)))"
    by (auto simp: using_inv_def)
  then show "ps_active_graph t = Some g \<or> (\<exists>j. at_control t j (PubWait (Some g)))"
  proof
    assume "\<exists>j. at_control s j (PubWait (Some g))"
    then obtain j where j: "at_control s j (PubWait (Some g))" by blast
    moreover from this assms(2,3) have "j \<noteq> i" by auto
    ultimately have "at_control t j (PubWait (Some g))" using assms(4) by simp
    then show ?thesis by blast
  qed (use assms in simp)
qed

lemma using_inv_process:
  assumes "using_inv s" "ps_control t = ps_control s" "ps_active_graph t = ps_active_graph s"
    and "ps_process t = (ps_process s)[k := p]" "p = AIdle \<or> p = ALoad \<or> p = AUsing (ps_active_graph s)"
  shows "using_inv t"
  unfolding using_inv_def
proof (intro allI impI)
  fix j g
  assume at: "at_process t j (AUsing (Some g))"
  show "ps_active_graph t = Some g \<or> (\<exists>i. at_control t i (PubWait (Some g)))"
  proof (cases "j = k")
    case True
    with at assms show ?thesis by auto
  next
    case False
    with at assms have "at_process s j (AUsing (Some g))" by simp
    with assms show ?thesis by (simp add: using_inv_def)
  qed
qed

lemma using_inv_step:
  "publisher_step s t \<Longrightarrow> count_inv s \<Longrightarrow> lock_inv s \<Longrightarrow> using_inv s \<Longrightarrow> using_inv t"
proof (induction rule: publisher_step.induct)
  case (publish_store s i p)
  then have act: "ps_active_graph s = p" using lock_inv_phase [of s i "PubStore p"] by simp
  have "\<not> at_control s j (PubWait g)" for j g
    using lock_inv_mutex [OF publish_store.prems(2) publish_store.hyps, of j "PubWait g"] publish_store.hyps
    by auto
  with publish_store act show ?case by (auto simp: using_inv_def)
next
  case (publish_wait s i p)
  then have "inside (ps_process s) = 0" by (simp add: count_inv_def)
  then show ?case using inside_0 by (fastforce simp: using_inv_def)
next
  case (client_reset g s)
  then show ?case by (auto simp: using_inv_def)
next
  case (process_enter s k)
  then show ?case by - (rule using_inv_process [of s _ k ALoad], simp_all)
next
  case (process_load s k)
  then show ?case by - (rule using_inv_process [of s _ k "AUsing (ps_active_graph s)"], simp_all)
next
  case (process_leave s k g)
  then show ?case by - (rule using_inv_process [of s _ k AIdle], simp_all)
qed (erule (1) using_inv_control; simp)+

lemma owned_go: "ps_owned (go i c s) g \<Longrightarrow> ps_owned s g \<or> Some g \<in> pc_pointers c"
  using set_update_subset_insert [of "ps_control s" i c] by (auto simp: ps_owned_def)

lemma owned_at: "at_control s i c \<Longrightarrow> Some g \<in> pc_pointers c \<Longrightarrow> ps_owned s g"
  by (auto simp: ps_owned_def)

lemma owned_fields [simp]:
  "ps_owned (s\<lparr>ps_control_lock := b\<rparr>) = ps_owned s" "ps_owned (s\<lparr>ps_active_graph := p\<rparr>) = ps_owned s"
  "ps_owned (s\<lparr>ps_active_processors := n\<rparr>) = ps_owned s" "ps_owned (run k q s) = ps_owned s"
  "ps_owned (ps_reclaim p s) = ps_owned s" "ps_owned (s\<lparr>ps_destroyed := d\<rparr>) = ps_owned s"
  by (simp_all add: ps_owned_def fun_eq_iff)

lemma owned_graph: "ps_owned (s\<lparr>ps_graph := p\<rparr>) g \<Longrightarrow> ps_owned s g \<or> p = Some g"
  by (auto simp: ps_owned_def)

lemma owned_clients: "ps_owned (s\<lparr>ps_clients := cs\<rparr>) g \<Longrightarrow> ps_owned s g \<or> g \<in> set cs"
  by (auto simp: ps_owned_def)

lemma owned_client: "g \<in> set (ps_clients s) \<Longrightarrow> ps_owned s g"
  by (simp add: ps_owned_def)

lemma owned_inv_reclaim: "owned_inv s \<Longrightarrow> owned_inv (ps_reclaim p s)"
  by (auto simp: owned_inv_def ps_reclaim_def split: option.splits)

lemma owned_invI: "owned_inv s \<Longrightarrow> ps_destroyed t = ps_destroyed s \<Longrightarrow>
    (\<And>g. ps_owned t g \<Longrightarrow> ps_owned s g \<or> g \<notin> ps_destroyed s) \<Longrightarrow> owned_inv t"
  by (auto simp: owned_inv_def)

text \<open>A control thread only moves pointers it, or the publisher, already owns.\<close>

lemma owned_inv_control:
  assumes "owned_inv s" "at_control s i c" "ps_control t = (ps_control s)[i := d]"
    and "ps_graph t = ps_graph s \<or> ps_graph t = None \<or> ps_graph t \<in> pc_pointers c"
    and "pc_pointers d \<subseteq> insert (ps_graph s) (pc_pointers c)"
    and "ps_clients t = ps_clients s" "ps_destroyed t = ps_destroyed s"
  shows "owned_inv t"
  using assms(1,7)
proof (rule owned_invI)
  fix g
  assume owned: "ps_owned t g"
  have c: "c \<in> set (ps_control s)" using assms(2) by auto
  from owned consider "ps_graph t = Some g" | "Some g \<in> pc_pointers d"
    | e where "e \<in> set (ps_control s)" "Some g \<in> pc_pointers e" | "g \<in> set (ps_clients s)"
    using set_update_subset_insert [of "ps_control s" i d] assms(3,6) by (auto simp: ps_owned_def)
  then have "ps_owned s g"
    by cases (use assms(4,5) c in \<open>auto simp: ps_owned_def\<close>)
  then show "ps_owned s g \<or> g \<notin> ps_destroyed s" ..
qed

lemma owned_inv_step: "publisher_step s t \<Longrightarrow> owned_inv s \<Longrightarrow> owned_inv t"
proof (induction rule: publisher_step.induct)
  case (publish_reset s i p)
  have "owned_inv (go i PubUnlock s)"
    using publish_reset.prems by (rule owned_invI) (auto dest: owned_go)
  then show ?case by (rule owned_inv_reclaim)
next
  case (client_reset g s)
  have "owned_inv (s\<lparr>ps_clients := remove1 g (ps_clients s)\<rparr>)"
    using client_reset.prems
    by (rule owned_invI) (auto simp: ps_owned_def dest: notin_set_remove1)
  then show ?case by (rule owned_inv_reclaim)
next
  case (publish_call s i a)
  show ?case
    using publish_call.prems by (rule owned_invI) (use publish_call.hyps in \<open>auto dest!: owned_go\<close>)
next
  case (current_unlock s i r)
  then have "ps_owned s g" if "r = Some g" for g using owned_at [of i s "CurUnlock r" g] that by simp
  with current_unlock.prems show ?case
    by - (rule owned_invI, auto dest!: owned_clients owned_go dest: owned_client split: option.splits)
next
  case (process_enter s k)
  then show ?case by (auto simp: owned_inv_def)
next
  case (process_load s k)
  then show ?case by (auto simp: owned_inv_def)
next
  case (process_leave s k g)
  then show ?case by (auto simp: owned_inv_def)
qed (erule (1) owned_inv_control, simp, simp, simp, simp, simp)+

definition publisher_inv :: "publisher \<Rightarrow> bool" where
  "publisher_inv s \<longleftrightarrow> count_inv s \<and> lock_inv s \<and> using_inv s \<and> owned_inv s"

lemma publisher_inv_step: "publisher_step s t \<Longrightarrow> publisher_inv s \<Longrightarrow> publisher_inv t"
  unfolding publisher_inv_def
  by (blast intro: count_inv_step lock_inv_step using_inv_step owned_inv_step)

lemma publisher_inv_run: "publisher_run s t \<Longrightarrow> publisher_inv s \<Longrightarrow> publisher_inv t"
  by (induction rule: publisher_run.induct) (blast intro: publisher_inv_step)+

lemma make_publisher_inv: "m < 2 ^ 32 \<Longrightarrow> publisher_inv (make_publisher g n m)"
  by (auto simp: publisher_inv_def make_publisher_def count_inv_def lock_inv_def using_inv_def
      owned_inv_def inside_def)

text \<open>What an audio thread reads from is owned, hence alive.\<close>

lemma using_owned:
  assumes "publisher_inv s" "at_process s k (AUsing (Some g))"
  shows "ps_owned s g \<and> g \<notin> ps_destroyed s"
proof -
  have inv: "lock_inv s" "using_inv s" "owned_inv s" using assms(1) by (auto simp: publisher_inv_def)
  have active: "ps_owned s g" if act: "ps_active_graph s = Some g"
  proof (cases "\<exists>i a. at_control s i (PubAssign a (Some g)) \<or> at_control s i (PubStore (Some g))")
    case True
    then show ?thesis by (auto intro: owned_at)
  next
    case False
    have "ps_active_graph s = ps_graph s"
    proof (cases "ps_control_lock s")
      case True
      then obtain i where i: "i < length (ps_control s)" "critical (ps_control s ! i)"
        using inv(1) by (auto simp: lock_inv_def)
      with lock_inv_phase [OF inv(1), of i "ps_control s ! i"] False act show ?thesis
        by (cases "ps_control s ! i") auto
    qed (use inv(1) lock_inv_free in blast)
    with act show ?thesis by (simp add: ps_owned_def)
  qed
  from inv(2) assms(2) consider "ps_active_graph s = Some g" | i where "at_control s i (PubWait (Some g))"
    by (auto simp: using_inv_def)
  then have "ps_owned s g"
    by cases (auto intro: active owned_at [of _ s "PubWait (Some g)"])
  with inv(3) show ?thesis by (simp add: owned_inv_def)
qed

text \<open>When the previous graph is about to be reset, no audio thread is in it.\<close>

lemma reset_retired:
  assumes "publisher_inv s" "at_control s j (PubReset (Some h))" "ps_graph s \<noteq> Some h"
  shows "\<not> at_process s k (AUsing (Some h))"
proof
  assume at: "at_process s k (AUsing (Some h))"
  have inv: "lock_inv s" "using_inv s" using assms(1) by (auto simp: publisher_inv_def)
  have "ps_active_graph s \<noteq> Some h" using lock_inv_phase [OF inv(1) assms(2)] assms(3) by simp
  then obtain i where "at_control s i (PubWait (Some h))" using inv(2) at by (auto simp: using_inv_def)
  with lock_inv_mutex [OF inv(1) assms(2), of i "PubWait (Some h)"] assms(2) show False by auto
qed

section \<open>Progress\<close>

text \<open>The steps each thread still has before it.\<close>

fun control_work :: "control_pc \<Rightarrow> nat" where
  "control_work CtlIdle = 0"
| "control_work (PubLock a) = 7"
| "control_work (PubMove a) = 6"
| "control_work (PubAssign a p) = 5"
| "control_work (PubStore p) = 4"
| "control_work (PubWait p) = 3"
| "control_work (PubReset p) = 2"
| "control_work PubUnlock = 1"
| "control_work CurLock = 3"
| "control_work CurCopy = 2"
| "control_work (CurUnlock r) = 1"

fun process_work :: "process_pc \<Rightarrow> nat" where
  "process_work AIdle = 0"
| "process_work ALoad = 2"
| "process_work (AUsing g) = 1"

definition publisher_work :: "publisher \<Rightarrow> nat" where
  "publisher_work s = sum_list (map control_work (ps_control s)) + sum_list (map process_work (ps_process s))"

lemma sum_list_update_less:
  "i < length xs \<Longrightarrow> w y < w (xs ! i) \<Longrightarrow> sum_list (map w (xs[i := y])) < (sum_list (map w xs) :: nat)"
proof (induction xs arbitrary: i)
  case (Cons x xs)
  then show ?case by (cases i) auto
qed simp

lemma work_control:
  "at_control s i c \<Longrightarrow> control_work d < control_work c \<Longrightarrow> ps_control t = (ps_control s)[i := d] \<Longrightarrow>
   ps_process t = ps_process s \<Longrightarrow> publisher_work t < publisher_work s"
  using sum_list_update_less [of i "ps_control s" control_work d] by (simp add: publisher_work_def)

lemma work_process:
  "at_process s k p \<Longrightarrow> process_work q < process_work p \<Longrightarrow> ps_process t = (ps_process s)[k := q] \<Longrightarrow>
   ps_control t = ps_control s \<Longrightarrow> publisher_work t < publisher_work s"
  using sum_list_update_less [of k "ps_process s" process_work q] by (simp add: publisher_work_def)

lemma work_0: "publisher_work s = 0 \<longleftrightarrow> (\<forall>c \<in> set (ps_control s). c = CtlIdle) \<and> (\<forall>p \<in> set (ps_process s). p = AIdle)"
proof -
  have "control_work c = 0 \<longleftrightarrow> c = CtlIdle" "process_work p = 0 \<longleftrightarrow> p = AIdle" for c p
    by (cases c; simp) (cases p; simp)
  then show ?thesis by (auto simp: publisher_work_def)
qed

lemma process_progress:
  assumes "at_process s k p" "p \<noteq> AIdle"
  shows "\<exists>t. publisher_step s t \<and> publisher_work t < publisher_work s"
proof (cases p)
  case ALoad
  have "publisher_step s (run k (AUsing (ps_active_graph s)) s)" using assms ALoad by (intro process_load) simp
  moreover have "publisher_work (run k (AUsing (ps_active_graph s)) s) < publisher_work s"
    using assms ALoad by (intro work_process [of k s ALoad "AUsing (ps_active_graph s)"]) simp_all
  ultimately show ?thesis by blast
next
  case (AUsing g)
  let ?t = "run k AIdle s\<lparr>ps_active_processors := ps_active_processors s - 1\<rparr>"
  have "publisher_step s ?t" using assms AUsing by (intro process_leave) simp
  moreover have "publisher_work ?t < publisher_work s"
    using assms AUsing by (intro work_process [of k s "AUsing g" AIdle]) simp_all
  ultimately show ?thesis by blast
qed (use assms in simp)

text \<open>
  A control thread moves on its own unless it spins on the lock or waits for audio threads.
\<close>

lemma control_progress:
  assumes "at_control s i c" "critical c \<or> \<not> ps_control_lock s" "c \<noteq> CtlIdle" "ps_active_processors s = 0"
  shows "\<exists>t. publisher_step s t \<and> publisher_work t < publisher_work s"
proof -
  have step: "\<exists>t. publisher_step s t \<and> publisher_work t < publisher_work s"
    if "publisher_step s t" "ps_control t = (ps_control s)[i := d]" "ps_process t = ps_process s"
      "control_work d < control_work c" for t d
    using that assms(1) work_control by blast
  show ?thesis
  proof (cases c)
    case (PubLock a)
    with assms step [OF publish_lock [of i s a]] show ?thesis by auto
  next
    case (PubMove a)
    with assms step [OF publish_move [of i s a]] show ?thesis by auto
  next
    case (PubAssign a p)
    with assms step [OF publish_assign [of i s a p]] show ?thesis by auto
  next
    case (PubStore p)
    with assms step [OF publish_store [of i s p]] show ?thesis by auto
  next
    case (PubWait p)
    with assms step [OF publish_wait [of i s p]] show ?thesis by auto
  next
    case (PubReset p)
    with assms step [OF publish_reset [of i s p]] show ?thesis by auto
  next
    case PubUnlock
    with assms step [OF publish_unlock [of i s]] show ?thesis by auto
  next
    case CurLock
    with assms step [OF current_lock [of i s]] show ?thesis by auto
  next
    case CurCopy
    with assms step [OF current_copy [of i s]] show ?thesis by auto
  next
    case (CurUnlock r)
    with assms step [OF current_unlock [of i s r]] show ?thesis by auto
  qed (use assms in simp)
qed

lemma publisher_progress:
  assumes "publisher_inv s" "publisher_work s \<noteq> 0"
  shows "\<exists>t. publisher_step s t \<and> publisher_work t < publisher_work s"
proof (cases "\<exists>k p. at_process s k p \<and> p \<noteq> AIdle")
  case True
  then show ?thesis using process_progress by blast
next
  case False
  then have idle: "\<forall>p \<in> set (ps_process s). p = AIdle" by (auto simp: in_set_conv_nth)
  then have "inside (ps_process s) = 0" by (simp add: inside_def filter_empty_conv)
  with assms(1) have none: "ps_active_processors s = 0"
    by (simp add: publisher_inv_def count_inv_def unat_eq_0)
  have inv: "lock_inv s" using assms(1) by (simp add: publisher_inv_def)
  have "\<exists>i c. at_control s i c \<and> (critical c \<or> \<not> ps_control_lock s) \<and> c \<noteq> CtlIdle"
  proof (cases "ps_control_lock s")
    case True
    then obtain i where "i < length (ps_control s)" "critical (ps_control s ! i)"
      using inv by (auto simp: lock_inv_def)
    moreover from this have "ps_control s ! i \<noteq> CtlIdle" by auto
    ultimately show ?thesis by blast
  next
    case False
    with assms(2) idle show ?thesis by (auto simp: work_0 in_set_conv_nth)
  qed
  then show ?thesis using control_progress none by blast
qed

lemma publisher_run_trans: "publisher_run t u \<Longrightarrow> publisher_run s t \<Longrightarrow> publisher_run s u"
  by (induction rule: publisher_run.induct) (blast intro: publisher_then)+

lemma publisher_finishes: "publisher_inv s \<Longrightarrow> \<exists>t. publisher_run s t \<and> publisher_work t = 0"
proof (induction "publisher_work s" arbitrary: s rule: less_induct)
  case less
  show ?case
  proof (cases "publisher_work s = 0")
    case True
    then show ?thesis using publisher_refl by blast
  next
    case False
    with less.prems obtain t where t: "publisher_step s t" "publisher_work t < publisher_work s"
      using publisher_progress by blast
    with less obtain u where "publisher_run t u" "publisher_work u = 0" using publisher_inv_step by blast
    moreover have "publisher_run s t" using t(1) publisher_refl publisher_then by blast
    ultimately show ?thesis using publisher_run_trans by blast
  qed
qed

section \<open>Properties\<close>

text \<open>
  C8: No use after free: whatever the interleaving of the control threads and fewer than \<open>2 ^ 32\<close>
  audio threads, a graph an audio thread is processing has not been destroyed; and when a
  publishing thread is about to reset a previous graph that it replaced by another one, no audio
  thread is still in it.
\<close>

theorem publisher_no_use_after_free:
  assumes "publisher_run (make_publisher g controls processors) s" "processors < 2 ^ 32"
  shows "(at_process s k (AUsing (Some h)) \<longrightarrow> ps_owned s h \<and> h \<notin> ps_destroyed s) \<and>
    (at_control s j (PubReset (Some h)) \<longrightarrow> ps_graph s \<noteq> Some h \<longrightarrow> \<not> at_process s k (AUsing (Some h)))"
  using publisher_inv_run [OF assms(1) make_publisher_inv [OF assms(2)]] using_owned reset_retired
  by blast

text \<open>
  A run of one control and one audio thread: the audio thread is in graph 1 while graph 2 is
  published and the publisher waits for it.
\<close>

definition demo_publisher :: "graph_ptr \<Rightarrow> graph_ptr \<Rightarrow> u32 \<Rightarrow> bool \<Rightarrow> control_pc \<Rightarrow> process_pc \<Rightarrow> publisher" where
  "demo_publisher g a n l c p = \<lparr>ps_control_lock = l, ps_graph = g, ps_active_graph = a,
     ps_active_processors = n, ps_control = [c], ps_process = [p], ps_clients = [], ps_destroyed = {}\<rparr>"

lemma demo_publisher_run:
  "publisher_run (make_publisher (Some 1) 1 1)
     (demo_publisher (Some 2) (Some 2) 1 True (PubWait (Some 1)) (AUsing (Some 1)))"
proof -
  let ?d = demo_publisher
  note defs = demo_publisher_def go_def run_def
  have r0: "publisher_run (make_publisher (Some 1) 1 1) (?d (Some 1) (Some 1) 0 False CtlIdle AIdle)"
    using publisher_refl by (simp add: make_publisher_def demo_publisher_def)
  have r1: "publisher_run (make_publisher (Some 1) 1 1) (?d (Some 1) (Some 1) 1 False CtlIdle ALoad)"
    using process_enter [of 0 "?d (Some 1) (Some 1) 0 False CtlIdle AIdle"]
    by (intro publisher_then [OF r0]) (simp add: defs)
  have r2: "publisher_run (make_publisher (Some 1) 1 1) (?d (Some 1) (Some 1) 1 False CtlIdle (AUsing (Some 1)))"
    using process_load [of 0 "?d (Some 1) (Some 1) 1 False CtlIdle ALoad"]
    by (intro publisher_then [OF r1]) (simp add: defs)
  have r3: "publisher_run (make_publisher (Some 1) 1 1) (?d (Some 1) (Some 1) 1 False (PubLock (Some 2)) (AUsing (Some 1)))"
    using publish_call [of 0 "?d (Some 1) (Some 1) 1 False CtlIdle (AUsing (Some 1))" "Some 2"]
    by (intro publisher_then [OF r2]) (simp add: defs)
  have r4: "publisher_run (make_publisher (Some 1) 1 1) (?d (Some 1) (Some 1) 1 True (PubMove (Some 2)) (AUsing (Some 1)))"
    using publish_lock [of 0 "?d (Some 1) (Some 1) 1 False (PubLock (Some 2)) (AUsing (Some 1))" "Some 2"]
    by (intro publisher_then [OF r3]) (simp add: defs)
  have r5: "publisher_run (make_publisher (Some 1) 1 1) (?d None (Some 1) 1 True (PubAssign (Some 2) (Some 1)) (AUsing (Some 1)))"
    using publish_move [of 0 "?d (Some 1) (Some 1) 1 True (PubMove (Some 2)) (AUsing (Some 1))" "Some 2"]
    by (intro publisher_then [OF r4]) (simp add: defs)
  have r6: "publisher_run (make_publisher (Some 1) 1 1) (?d (Some 2) (Some 1) 1 True (PubStore (Some 1)) (AUsing (Some 1)))"
    using publish_assign [of 0 "?d None (Some 1) 1 True (PubAssign (Some 2) (Some 1)) (AUsing (Some 1))" "Some 2" "Some 1"]
    by (intro publisher_then [OF r5]) (simp add: defs)
  show ?thesis
    using publish_store [of 0 "?d (Some 2) (Some 1) 1 True (PubStore (Some 1)) (AUsing (Some 1))" "Some 1"]
    by (intro publisher_then [OF r6]) (simp add: defs)
qed

theorem publisher_no_use_after_free_witness:
  "1 \<notin> ps_destroyed (demo_publisher (Some 2) (Some 2) 1 True (PubWait (Some 1)) (AUsing (Some 1)))"
  using publisher_no_use_after_free [OF demo_publisher_run, of 0 1] by (simp add: demo_publisher_def)

text \<open>
  No deadlock: from every state the threads can reach there is a continuation in which every
  call of \<open>publish\<close>, \<open>current\<close> and \<open>process\<close> returns.
\<close>

theorem publisher_can_finish:
  assumes "publisher_run (make_publisher g controls processors) s" "processors < 2 ^ 32"
  shows "\<exists>t. publisher_run s t \<and> (\<forall>c \<in> set (ps_control t). c = CtlIdle) \<and> (\<forall>p \<in> set (ps_process t). p = AIdle)"
  using publisher_finishes [OF publisher_inv_run [OF assms(1) make_publisher_inv [OF assms(2)]]]
  by (simp add: work_0)

theorem publisher_can_finish_witness:
  "\<exists>t. publisher_run (demo_publisher (Some 2) (Some 2) 1 True (PubWait (Some 1)) (AUsing (Some 1))) t \<and>
     (\<forall>c \<in> set (ps_control t). c = CtlIdle)"
  using publisher_can_finish [OF demo_publisher_run] by auto

end
