(* ===== verification/AsioRegistry.thy ===== *)
theory AsioRegistry
  imports Prelude
begin

text \<open>
  \<^verbatim>\<open>core/platform/virtual_asio_client_registry.{h,cpp}\<close>: the hosts connected to a virtual ASIO
  device. All clients share one clock domain, and every connection carries a generation that
  later messages must name. The generation counter is the 64-bit counter of the code, which
  skips zero when it wraps.
\<close>

section \<open>Error values\<close>

definition reg_empty_asio_client_id :: sar_error where
  "reg_empty_asio_client_id = mk_error ''empty_asio_client_id''
     ''ASIO client ID must not be empty.''"

definition reg_asio_client_id_too_long :: sar_error where
  "reg_asio_client_id_too_long = mk_error ''asio_client_id_too_long''
     ''ASIO client ID exceeds the bounded transport limit.''"

definition reg_invalid_asio_process_id :: sar_error where
  "reg_invalid_asio_process_id = mk_error ''invalid_asio_process_id''
     ''ASIO client process ID must be non-zero.''"

definition reg_invalid_asio_sample_rate :: sar_error where
  "reg_invalid_asio_sample_rate = mk_error ''invalid_asio_sample_rate''
     ''ASIO sample rate must be non-zero.''"

definition reg_invalid_asio_block_size :: sar_error where
  "reg_invalid_asio_block_size = mk_error ''invalid_asio_block_size''
     ''ASIO block size is outside the supported range.''"

definition reg_empty_asio_channel_layout :: sar_error where
  "reg_empty_asio_channel_layout = mk_error ''empty_asio_channel_layout''
     ''ASIO clients must expose input or output channels.''"

definition reg_asio_channel_limit_exceeded :: sar_error where
  "reg_asio_channel_limit_exceeded = mk_error ''asio_channel_limit_exceeded''
     ''ASIO channel count exceeds the fixed transport limit.''"

definition reg_duplicate_asio_client_id :: sar_error where
  "reg_duplicate_asio_client_id = mk_error ''duplicate_asio_client_id''
     ''ASIO client ID is already connected.''"

definition reg_asio_client_capacity_reached :: sar_error where
  "reg_asio_client_capacity_reached = mk_error ''asio_client_capacity_reached''
     ''ASIO client registry has reached its configured capacity.''"

definition reg_asio_session_format_mismatch :: sar_error where
  "reg_asio_session_format_mismatch = mk_error ''asio_session_format_mismatch''
     ''ASIO client format does not match the active session clock domain.''"

definition reg_unknown_asio_client :: sar_error where
  "reg_unknown_asio_client = mk_error ''unknown_asio_client''
     ''ASIO client is not connected.''"

definition reg_stale_asio_connection :: sar_error where
  "reg_stale_asio_connection = mk_error ''stale_asio_connection''
     ''ASIO disconnect generation does not match the active connection.''"

section \<open>Requests and clients\<close>

definition kVirtualAsioMaxClientIdBytes :: nat where
  "kVirtualAsioMaxClientIdBytes = 128"

definition kVirtualAsioMaxChannels :: u32 where
  "kVirtualAsioMaxChannels = 256"

definition kVirtualAsioMaxFramesPerBlock :: u32 where
  "kVirtualAsioMaxFramesPerBlock = 8192"

record asio_format =
  vf_sample_rate :: u32
  vf_frames_per_block :: u32
  vf_input_channels :: u32
  vf_output_channels :: u32

record asio_request =
  rq_client_id :: string
  rq_process_id :: u32
  rq_format :: asio_format

record asio_client =
  cl_client_id :: string
  cl_process_id :: u32
  cl_format :: asio_format
  cl_generation :: u64

definition shares_clock_domain :: "asio_format \<Rightarrow> asio_format \<Rightarrow> bool" where
  "shares_clock_domain active candidate \<longleftrightarrow>
     vf_sample_rate active = vf_sample_rate candidate \<and>
     vf_input_channels active = vf_input_channels candidate \<and>
     vf_output_channels active = vf_output_channels candidate"

definition validate_asio_request :: "asio_request \<Rightarrow> sar_error list" where
  "validate_asio_request r =
     (if rq_client_id r = [] then [reg_empty_asio_client_id]
      else push_if (kVirtualAsioMaxClientIdBytes < length (rq_client_id r)) reg_asio_client_id_too_long) @
     push_if (rq_process_id r = 0) reg_invalid_asio_process_id @
     push_if (vf_sample_rate (rq_format r) = 0) reg_invalid_asio_sample_rate @
     push_if (vf_frames_per_block (rq_format r) = 0 \<or>
       kVirtualAsioMaxFramesPerBlock < vf_frames_per_block (rq_format r)) reg_invalid_asio_block_size @
     push_if (vf_input_channels (rq_format r) = 0 \<and> vf_output_channels (rq_format r) = 0)
       reg_empty_asio_channel_layout @
     push_if (kVirtualAsioMaxChannels < vf_input_channels (rq_format r) \<or>
       kVirtualAsioMaxChannels < vf_output_channels (rq_format r)) reg_asio_channel_limit_exceeded"

section \<open>The registry\<close>

record asio_registry =
  rg_maximum_clients :: nat
  rg_next_generation :: u64
  rg_active_format :: "asio_format option"
  rg_clients :: "asio_client list"

text \<open>The constructor; \<open>None\<close> is its exception.\<close>

definition make_asio_registry :: "nat \<Rightarrow> u64 \<Rightarrow> asio_registry option" where
  "make_asio_registry maximum_clients initial =
     (if maximum_clients = 0 then None
      else Some \<lparr>rg_maximum_clients = maximum_clients,
             rg_next_generation = (if initial = 0 then 1 else initial),
             rg_active_format = None, rg_clients = []\<rparr>)"

definition next_generation :: "u64 \<Rightarrow> u64" where
  "next_generation g = (if g + 1 = 0 then 1 else g + 1)"

definition asio_connect :: "asio_request \<Rightarrow> asio_registry \<Rightarrow> (sar_error list + asio_client) \<times> asio_registry" where
  "asio_connect r s =
     (let errors = validate_asio_request r
      in if errors \<noteq> [] then (Inl errors, s)
         else if List.find (\<lambda>c. cl_client_id c = rq_client_id r) (rg_clients s) \<noteq> None
         then (Inl [reg_duplicate_asio_client_id], s)
         else if rg_maximum_clients s \<le> length (rg_clients s)
         then (Inl [reg_asio_client_capacity_reached], s)
         else if (case rg_active_format s of None \<Rightarrow> False | Some f \<Rightarrow> \<not> shares_clock_domain f (rq_format r))
         then (Inl [reg_asio_session_format_mismatch], s)
         else
           let client = \<lparr>cl_client_id = rq_client_id r, cl_process_id = rq_process_id r,
                 cl_format = rq_format r, cl_generation = rg_next_generation s\<rparr>
           in (Inr client,
               s\<lparr>rg_active_format := (case rg_active_format s of None \<Rightarrow> Some (rq_format r) | Some f \<Rightarrow> Some f),
                 rg_next_generation := next_generation (rg_next_generation s),
                 rg_clients := rg_clients s @ [client]\<rparr>))"

definition asio_disconnect :: "string \<Rightarrow> u64 \<Rightarrow> asio_registry \<Rightarrow> sar_error list \<times> asio_registry" where
  "asio_disconnect i generation s =
     (case List.find (\<lambda>c. cl_client_id c = i) (rg_clients s) of
        None \<Rightarrow> ([reg_unknown_asio_client], s)
      | Some c \<Rightarrow>
          if cl_generation c \<noteq> generation then ([reg_stale_asio_connection], s)
          else
            let left = erase_first (\<lambda>c. cl_client_id c = i) (rg_clients s)
            in ([], s\<lparr>rg_clients := left,
                  rg_active_format := (if left = [] then None else rg_active_format s)\<rparr>))"

section \<open>The invariant\<close>

definition asio_inv :: "asio_registry \<Rightarrow> bool" where
  "asio_inv s \<longleftrightarrow> 0 < rg_maximum_clients s \<and> length (rg_clients s) \<le> rg_maximum_clients s \<and>
     rg_next_generation s \<noteq> 0 \<and> distinct (map cl_client_id (rg_clients s)) \<and>
     (rg_active_format s = None \<longleftrightarrow> rg_clients s = []) \<and>
     (\<forall>c \<in> set (rg_clients s). cl_client_id c \<noteq> [] \<and> cl_generation c \<noteq> 0 \<and>
        (\<forall>f. rg_active_format s = Some f \<longrightarrow> shares_clock_domain f (cl_format c)))"

lemma next_generation_nonzero: "next_generation g \<noteq> 0"
  by (simp add: next_generation_def)

lemma make_asio_registry_inv: "make_asio_registry n g = Some s \<Longrightarrow> asio_inv s"
  by (auto simp: make_asio_registry_def asio_inv_def split: if_splits)

lemma asio_connect_refused: "asio_connect r s = (Inl es, t) \<Longrightarrow> es \<noteq> [] \<and> t = s"
  unfolding asio_connect_def Let_def by (clarsimp split: if_splits)

lemma asio_connect_accepted:
  assumes "asio_connect r s = (Inr c, t)"
  shows "validate_asio_request r = []" "\<forall>d \<in> set (rg_clients s). cl_client_id d \<noteq> rq_client_id r"
    and "length (rg_clients s) < rg_maximum_clients s"
    and "\<forall>f. rg_active_format s = Some f \<longrightarrow> shares_clock_domain f (rq_format r)"
    and "c = \<lparr>cl_client_id = rq_client_id r, cl_process_id = rq_process_id r,
         cl_format = rq_format r, cl_generation = rg_next_generation s\<rparr>"
    and "t = s\<lparr>rg_active_format := (case rg_active_format s of None \<Rightarrow> Some (rq_format r) | Some f \<Rightarrow> Some f),
         rg_next_generation := next_generation (rg_next_generation s), rg_clients := rg_clients s @ [c]\<rparr>"
  using assms unfolding asio_connect_def Let_def
  by (simp_all add: find_None_iff split: if_splits option.splits)

lemma shares_clock_domain_refl [simp]: "shares_clock_domain f f"
  by (simp add: shares_clock_domain_def)

lemma asio_connect_inv:
  assumes "asio_connect r s = (res, t)" "asio_inv s"
  shows "asio_inv t"
proof (cases res)
  case (Inl es)
  with assms asio_connect_refused show ?thesis by blast
next
  case (Inr c)
  note acc = asio_connect_accepted [OF assms(1) [unfolded Inr]]
  have "rq_client_id r \<noteq> []" using acc(1) by (auto simp: validate_asio_request_def)
  with acc assms(2) show ?thesis
    by (auto simp: asio_inv_def next_generation_nonzero split: option.splits)
qed

lemma asio_disconnect_inv:
  assumes "asio_disconnect i g s = (es, t)" "asio_inv s"
  shows "asio_inv t"
  using assms set_erase_first [of "\<lambda>c. cl_client_id c = i" "rg_clients s"]
    length_erase_first [of "\<lambda>c. cl_client_id c = i" "rg_clients s"]
  by (auto simp: asio_disconnect_def asio_inv_def Let_def distinct_erase_first split: option.splits if_splits)

section \<open>Generations\<close>

text \<open>The generations are numbered from the first one, modulo \<open>2 ^ 64 - 1\<close>.\<close>

lemma unat_next_generation:
  assumes "g \<noteq> 0"
  shows "unat (next_generation g) = (if unat g = 2 ^ 64 - 1 then 1 else unat g + 1)"
proof -
  have lt: "unat g < 2 ^ 64" using unsigned_less [of g] by simp
  have plus: "unat (g + 1) = (unat g + 1) mod 2 ^ 64" by (simp add: unat_word_ariths)
  show ?thesis
  proof (cases "unat g = 2 ^ 64 - 1")
    case True
    with plus have "g + 1 = 0" by (simp add: unat_eq_0 [symmetric])
    with True show ?thesis by (simp add: next_generation_def)
  next
    case False
    with lt have "unat g + 1 < 2 ^ 64" by simp
    with plus have "unat (g + 1) = unat g + 1" by simp
    moreover from this have "g + 1 \<noteq> 0" by (metis Suc_eq_plus1 nat.simps(3) unat_0)
    ultimately show ?thesis using False by (simp add: next_generation_def)
  qed
qed

lemma funpow_next_generation_nonzero: "g \<noteq> 0 \<Longrightarrow> (next_generation ^^ k) g \<noteq> 0"
  by (induction k) (simp_all add: next_generation_nonzero)

lemma unat_nth_generation:
  "g \<noteq> 0 \<Longrightarrow> unat ((next_generation ^^ k) g) = (unat g - 1 + k) mod (2 ^ 64 - 1) + 1"
proof (induction k)
  case 0
  then have "0 < unat g" by (simp add: unat_gt_0)
  moreover have "unat g < 2 ^ 64" using unsigned_less [of g] by simp
  ultimately show ?case by simp
next
  case (Suc k)
  then show ?case
    using funpow_next_generation_nonzero [of g k]
    by (auto simp: unat_next_generation mod_Suc)
qed

lemma nth_generation_neq:
  assumes "g \<noteq> 0" "k < l" "l < 2 ^ 64 - 1"
  shows "(next_generation ^^ k) g \<noteq> (next_generation ^^ l) g"
proof
  assume "(next_generation ^^ k) g = (next_generation ^^ l) g"
  then have "(unat g - 1 + l) mod (2 ^ 64 - 1) = (unat g - 1 + k) mod (2 ^ 64 - 1)"
    using unat_nth_generation [OF assms(1), of k] unat_nth_generation [OF assms(1), of l] by simp
  then have "(2 ^ 64 - 1) dvd (unat g - 1 + l) - (unat g - 1 + k)"
    using assms(2) by (intro iffD1 [OF mod_eq_dvd_iff_nat]) simp_all
  then have "(2 ^ 64 - 1) dvd l - k" by simp
  with assms(2,3) show False by (auto dest: dvd_imp_le)
qed

section \<open>Runs\<close>

datatype asio_op = Connect asio_request | Disconnect string u64

text \<open>The clients the operations connected, in order, and the registry they leave.\<close>

fun asio_run :: "asio_op list \<Rightarrow> asio_registry \<Rightarrow> asio_client list \<times> asio_registry" where
  "asio_run [] s = ([], s)"
| "asio_run (Connect r # ops) s =
     (case asio_connect r s of
        (Inl es, t) \<Rightarrow> asio_run ops t
      | (Inr c, t) \<Rightarrow> (case asio_run ops t of (issued, u) \<Rightarrow> (c # issued, u)))"
| "asio_run (Disconnect i g # ops) s = asio_run ops (snd (asio_disconnect i g s))"

lemma asio_run_inv: "asio_run ops s = (issued, t) \<Longrightarrow> asio_inv s \<Longrightarrow> asio_inv t"
proof (induction ops arbitrary: s issued)
  case (Cons op ops)
  show ?case
  proof (cases op)
    case (Connect r)
    obtain res u where con: "asio_connect r s = (res, u)" by force
    with Cons.prems(2) have "asio_inv u" by (rule asio_connect_inv [rotated -1])
    with Cons Connect con show ?thesis by (cases res) (auto split: prod.splits)
  next
    case (Disconnect i g)
    have "asio_inv (snd (asio_disconnect i g s))"
      using Cons.prems(2) by (rule asio_disconnect_inv [OF prod.collapse [symmetric]])
    with Cons Disconnect show ?thesis by simp
  qed
qed simp

lemma asio_disconnect_clients:
  "rg_next_generation (snd (asio_disconnect i g s)) = rg_next_generation s \<and>
   set (rg_clients (snd (asio_disconnect i g s))) \<subseteq> set (rg_clients s)"
  using set_erase_first [of "\<lambda>c. cl_client_id c = i" "rg_clients s"]
  by (auto simp: asio_disconnect_def Let_def split: option.splits)

lemma asio_run_issued:
  "asio_run ops s = (issued, t) \<Longrightarrow>
   map cl_generation issued = map (\<lambda>k. (next_generation ^^ k) (rg_next_generation s)) [0..<length issued] \<and>
   length issued \<le> length ops \<and> set (rg_clients t) \<subseteq> set (rg_clients s) \<union> set issued"
proof (induction ops arbitrary: s issued)
  case (Cons op ops)
  show ?case
  proof (cases op)
    case (Connect r)
    obtain res u where con: "asio_connect r s = (res, u)" by force
    show ?thesis
    proof (cases res)
      case (Inl es)
      then have "u = s" using con asio_connect_refused by blast
      with con Inl Connect Cons.prems have "asio_run ops s = (issued, t)" by simp
      from Cons.IH [OF this] show ?thesis by simp
    next
      case (Inr c)
      note acc = asio_connect_accepted [OF con [unfolded Inr]]
      obtain rest where rest: "asio_run ops u = (rest, t)" "issued = c # rest"
        using Cons.prems Connect con Inr by (auto split: prod.splits)
      have gen: "rg_next_generation u = next_generation (rg_next_generation s)"
        "set (rg_clients u) \<subseteq> insert c (set (rg_clients s))" "cl_generation c = rg_next_generation s"
        using acc(5,6) by (simp, simp, simp)
      have "map cl_generation rest = map (\<lambda>k. (next_generation ^^ Suc k) (rg_next_generation s)) [0..<length rest]"
        and "length rest \<le> length ops" and "set (rg_clients t) \<subseteq> set (rg_clients u) \<union> set rest"
        using Cons.IH [OF rest(1)] gen(1) by (simp_all add: funpow_swap1)
      then show ?thesis
        using rest(2) gen(2,3)
        by (auto simp: upt_conv_Cons map_Suc_upt [symmetric] simp del: upt_Suc map_Suc_upt)
    qed
  next
    case (Disconnect i g)
    then have "asio_run ops (snd (asio_disconnect i g s)) = (issued, t)" using Cons.prems by simp
    from Cons.IH [OF this] show ?thesis using asio_disconnect_clients [of i g s] by auto
  qed
qed simp

lemma asio_generations_distinct:
  assumes "asio_run ops s = (issued, t)" "rg_next_generation s \<noteq> 0" "length ops < 2 ^ 64 - 1"
  shows "distinct (map cl_generation issued)"
proof -
  have len: "length issued < 2 ^ 64 - 1" using asio_run_issued [OF assms(1)] assms(3) by simp
  have "inj_on (\<lambda>k. (next_generation ^^ k) (rg_next_generation s)) (set [0..<length issued])"
    using nth_generation_neq [OF assms(2)] len by (intro linorder_inj_onI) auto
  then show ?thesis using asio_run_issued [OF assms(1)] by (simp add: distinct_map)
qed

lemma asio_run_maximum: "asio_run ops s = (issued, t) \<Longrightarrow> rg_maximum_clients t = rg_maximum_clients s"
proof (induction ops arbitrary: s issued)
  case (Cons op ops)
  show ?case
  proof (cases op)
    case (Connect r)
    obtain res u where con: "asio_connect r s = (res, u)" by force
    then have "rg_maximum_clients u = rg_maximum_clients s"
      using asio_connect_refused [of r s _ u] asio_connect_accepted(6) [of r s _ u] by (cases res) auto
    with Cons Connect con show ?thesis by (cases res) (auto split: prod.splits)
  next
    case (Disconnect i g)
    have "rg_maximum_clients (snd (asio_disconnect i g s)) = rg_maximum_clients s"
      by (simp add: asio_disconnect_def Let_def split: option.split)
    with Cons Disconnect show ?thesis by simp
  qed
qed simp

text \<open>A disconnect removes exactly the client whose id and generation it names.\<close>

lemma asio_disconnect_exact:
  assumes "distinct (map cl_client_id (rg_clients s))" "c \<in> set (rg_clients s)"
  shows "fst (asio_disconnect (cl_client_id c) (cl_generation c) s) = []"
    and "rg_clients (snd (asio_disconnect (cl_client_id c) (cl_generation c) s)) = filter (\<lambda>d. d \<noteq> c) (rg_clients s)"
proof -
  obtain d where d: "List.find (\<lambda>d. cl_client_id d = cl_client_id c) (rg_clients s) = Some d"
    using assms(2) by (cases "List.find (\<lambda>d. cl_client_id d = cl_client_id c) (rg_clients s)") (auto simp: find_None_iff)
  with find_Some_iff_first [OF d] assms have "d = c" by (auto simp: distinct_map inj_on_def)
  have "erase_first (\<lambda>d. cl_client_id d = cl_client_id c) (rg_clients s) =
      filter (\<lambda>d. \<not> cl_client_id d = cl_client_id c) (rg_clients s)"
    using assms(1) by (rule erase_first_eq_filter) simp
  also have "\<dots> = filter (\<lambda>d. d \<noteq> c) (rg_clients s)"
    using assms by (intro filter_cong) (auto simp: distinct_map inj_on_def)
  finally show "rg_clients (snd (asio_disconnect (cl_client_id c) (cl_generation c) s)) = filter (\<lambda>d. d \<noteq> c) (rg_clients s)"
    and "fst (asio_disconnect (cl_client_id c) (cl_generation c) s) = []"
    using d \<open>d = c\<close> by (simp_all add: asio_disconnect_def Let_def)
qed

section \<open>Properties\<close>

text \<open>
  Whatever requests and disconnects arrive, the registry never holds more clients than its
  maximum, no id twice, and only clients of one clock domain; a format is active exactly while
  somebody is connected.
\<close>

theorem asio_registry_invariant:
  assumes "make_asio_registry n g = Some s0" "asio_run ops s0 = (issued, s)"
  shows "length (rg_clients s) \<le> n \<and> distinct (map cl_client_id (rg_clients s)) \<and>
    (rg_active_format s = None \<longleftrightarrow> rg_clients s = []) \<and>
    (\<forall>c \<in> set (rg_clients s). \<forall>d \<in> set (rg_clients s). shares_clock_domain (cl_format c) (cl_format d))"
proof -
  have inv: "asio_inv s" using asio_run_inv [OF assms(2) make_asio_registry_inv [OF assms(1)]] .
  have "rg_maximum_clients s = n"
    using asio_run_maximum [OF assms(2)] assms(1) by (auto simp: make_asio_registry_def split: if_splits)
  moreover have "shares_clock_domain (cl_format c) (cl_format d)"
    if "c \<in> set (rg_clients s)" "d \<in> set (rg_clients s)" for c d
  proof -
    from that inv obtain f where "rg_active_format s = Some f" by (auto simp: asio_inv_def)
    with that inv have "shares_clock_domain f (cl_format c)" "shares_clock_domain f (cl_format d)"
      by (auto simp: asio_inv_def)
    then show ?thesis by (simp add: shares_clock_domain_def)
  qed
  ultimately show ?thesis using inv by (simp add: asio_inv_def)
qed

definition demo_asio_request :: "string \<Rightarrow> u32 \<Rightarrow> asio_request" where
  "demo_asio_request i frames = \<lparr>rq_client_id = i, rq_process_id = 7,
     rq_format = \<lparr>vf_sample_rate = 48000, vf_frames_per_block = frames, vf_input_channels = 2, vf_output_channels = 2\<rparr>\<rparr>"

definition demo_asio_client :: "string \<Rightarrow> u32 \<Rightarrow> u64 \<Rightarrow> asio_client" where
  "demo_asio_client i frames g = \<lparr>cl_client_id = i, cl_process_id = 7,
     cl_format = rq_format (demo_asio_request i frames), cl_generation = g\<rparr>"

text \<open>Two hosts connect, the first leaves and connects again, with the next generation.\<close>

definition demo_asio_ops :: "asio_op list" where
  "demo_asio_ops = [Connect (demo_asio_request ''a'' 64), Connect (demo_asio_request ''b'' 128),
     Disconnect ''a'' (- 1), Connect (demo_asio_request ''a'' 64)]"

definition demo_asio_registry :: asio_registry where
  "demo_asio_registry = \<lparr>rg_maximum_clients = 2, rg_next_generation = 3,
     rg_active_format = Some (rq_format (demo_asio_request ''a'' 64)),
     rg_clients = [demo_asio_client ''b'' 128 1, demo_asio_client ''a'' 64 2]\<rparr>"

lemma demo_asio_made: "make_asio_registry 2 (- 1) =
    Some \<lparr>rg_maximum_clients = 2, rg_next_generation = - 1, rg_active_format = None, rg_clients = []\<rparr>"
  by (simp add: make_asio_registry_def)

lemma demo_asio_run:
  "asio_run demo_asio_ops \<lparr>rg_maximum_clients = 2, rg_next_generation = - 1, rg_active_format = None, rg_clients = []\<rparr> =
     ([demo_asio_client ''a'' 64 (- 1), demo_asio_client ''b'' 128 1, demo_asio_client ''a'' 64 2], demo_asio_registry)"
  by (simp add: demo_asio_ops_def demo_asio_registry_def demo_asio_client_def demo_asio_request_def
      asio_connect_def asio_disconnect_def validate_asio_request_def Let_def next_generation_def
      shares_clock_domain_def kVirtualAsioMaxClientIdBytes_def kVirtualAsioMaxFramesPerBlock_def
      kVirtualAsioMaxChannels_def)

theorem asio_registry_invariant_witness:
  "length (rg_clients demo_asio_registry) \<le> 2 \<and> distinct (map cl_client_id (rg_clients demo_asio_registry))"
  using asio_registry_invariant [OF demo_asio_made demo_asio_run] by blast

text \<open>
  Generations identify connections: over any run with fewer than \<open>2 ^ 64 - 1\<close> operations every
  connection gets its own generation, also across the wrap of the counter; a disconnect that
  names a past connection is refused and changes nothing, even when a client of the same id
  has connected since, and one that names a live connection removes exactly that client.
\<close>

theorem asio_disconnect_names_one_connection:
  assumes "make_asio_registry n g = Some s0" "asio_run ops s0 = (issued, s)" "length ops < 2 ^ 64 - 1"
    and "c \<in> set issued"
  shows "distinct (map cl_generation issued) \<and>
    (case asio_disconnect (cl_client_id c) (cl_generation c) s of (es, t) \<Rightarrow>
       if c \<in> set (rg_clients s) then es = [] \<and> rg_clients t = filter (\<lambda>d. d \<noteq> c) (rg_clients s)
       else es \<noteq> [] \<and> t = s)"
proof -
  have start: "asio_inv s0" "rg_clients s0 = []" "rg_next_generation s0 \<noteq> 0"
    using assms(1) make_asio_registry_inv by (auto simp: make_asio_registry_def split: if_splits)
  have inv: "asio_inv s" using asio_run_inv [OF assms(2) start(1)] .
  have dist: "distinct (map cl_generation issued)"
    using asio_generations_distinct [OF assms(2) start(3) assms(3)] .
  have live: "d \<in> set issued" if "d \<in> set (rg_clients s)" for d
    using that asio_run_issued [OF assms(2)] start(2) by auto
  show ?thesis
  proof (cases "c \<in> set (rg_clients s)")
    case True
    with dist inv asio_disconnect_exact [of s c] show ?thesis by (auto simp: asio_inv_def split: prod.split)
  next
    case False
    have "asio_disconnect (cl_client_id c) (cl_generation c) s \<in> {([reg_unknown_asio_client], s), ([reg_stale_asio_connection], s)}"
    proof (cases "List.find (\<lambda>d. cl_client_id d = cl_client_id c) (rg_clients s)")
      case (Some d)
      with find_Some_iff_first [OF Some] live False have "d \<in> set issued" "d \<noteq> c" by auto
      with dist assms(4) have "cl_generation d \<noteq> cl_generation c" by (auto simp: distinct_map inj_on_def)
      with Some show ?thesis by (simp add: asio_disconnect_def)
    qed (simp add: asio_disconnect_def)
    with dist False show ?thesis by auto
  qed
qed

theorem asio_disconnect_names_one_connection_witness:
  "case asio_disconnect ''a'' (- 1) demo_asio_registry of (es, t) \<Rightarrow> es \<noteq> [] \<and> t = demo_asio_registry"
  using asio_disconnect_names_one_connection [OF demo_asio_made demo_asio_run, of "demo_asio_client ''a'' 64 (- 1)"]
  by (auto simp: demo_asio_registry_def demo_asio_client_def demo_asio_ops_def split: prod.splits)

end
