(* ===== verification/SharedMemory.thy ===== *)
theory SharedMemory
  imports AsioRegistry
begin

text \<open>
  \<^verbatim>\<open>core/platform/virtual_asio_shared_memory_layout.{h,cpp}\<close>: where the header, the two queue
  controls and the block slots of a virtual ASIO connection lie in the memory the engine and
  the host share, and the check a side makes of a header it finds there. All offsets are the
  64-bit words of the code, with its overflow checks.
\<close>

section \<open>Error values\<close>

definition shm_invalid_virtual_asio_shared_format :: sar_error where
  "shm_invalid_virtual_asio_shared_format = mk_error ''invalid_virtual_asio_shared_format''
     ''Virtual ASIO shared memory requires a valid fixed audio format.''"

definition shm_invalid_virtual_asio_queue_capacity :: sar_error where
  "shm_invalid_virtual_asio_queue_capacity = mk_error ''invalid_virtual_asio_queue_capacity''
     ''Virtual ASIO queue capacity is outside the supported range.''"

definition shm_invalid_virtual_asio_connection_identity :: sar_error where
  "shm_invalid_virtual_asio_connection_identity = mk_error ''invalid_virtual_asio_connection_identity''
     ''Virtual ASIO shared memory requires non-zero process IDs and generation.''"

definition shm_virtual_asio_mapping_too_large :: sar_error where
  "shm_virtual_asio_mapping_too_large = mk_error ''virtual_asio_mapping_too_large''
     ''Virtual ASIO shared memory layout exceeds its bounded mapping size.''"

definition shm_invalid_virtual_asio_shared_header :: sar_error where
  "shm_invalid_virtual_asio_shared_header = mk_error ''invalid_virtual_asio_shared_header''
     ''Virtual ASIO shared memory header does not match the calculated layout.''"

definition shm_unsupported_virtual_asio_shared_protocol :: sar_error where
  "shm_unsupported_virtual_asio_shared_protocol = mk_error ''unsupported_virtual_asio_shared_protocol''
     ''Virtual ASIO shared memory protocol version is unsupported.''"

definition shm_virtual_asio_mapping_truncated :: sar_error where
  "shm_virtual_asio_mapping_truncated = mk_error ''virtual_asio_mapping_truncated''
     ''Virtual ASIO shared memory mapping is smaller than its declared layout.''"

section \<open>Headers and layouts\<close>

definition kVirtualAsioSharedMemoryMagic :: u32 where
  "kVirtualAsioSharedMemoryMagic = 0x4D524153"

definition kVirtualAsioSharedMemoryProtocolMajor :: u32 where
  "kVirtualAsioSharedMemoryProtocolMajor = 1"

definition kVirtualAsioSharedMemoryProtocolMinor :: u32 where
  "kVirtualAsioSharedMemoryProtocolMinor = 0"

definition kVirtualAsioSharedMemoryEndianTag :: u32 where
  "kVirtualAsioSharedMemoryEndianTag = 0x01020304"

definition kVirtualAsioSharedMemoryAlignment :: u64 where
  "kVirtualAsioSharedMemoryAlignment = 64"

definition kVirtualAsioSharedMemoryHeaderBytes :: u32 where
  "kVirtualAsioSharedMemoryHeaderBytes = 256"

definition kVirtualAsioMaxQueueCapacityBlocks :: u32 where
  "kVirtualAsioMaxQueueCapacityBlocks = 64"

definition kVirtualAsioMaxSharedMemoryBytes :: u64 where
  "kVirtualAsioMaxSharedMemoryBytes = 256 * 1024 * 1024"

text \<open>The sizes the code asserts of the structures in the mapping.\<close>

definition header_size :: u64 where
  "header_size = 256"

definition queue_control_size :: u64 where
  "queue_control_size = 128"

definition block_header_size :: u64 where
  "block_header_size = 64"

datatype shared_state = Initializing | Ready | Stopping | Faulted

definition shared_state_code :: "shared_state \<Rightarrow> u32" where
  "shared_state_code s = (case s of Initializing \<Rightarrow> 1 | Ready \<Rightarrow> 2 | Stopping \<Rightarrow> 3 | Faulted \<Rightarrow> 4)"

definition shared_state_known :: "u32 \<Rightarrow> bool" where
  "shared_state_known c \<longleftrightarrow> c = shared_state_code Initializing \<or> c = shared_state_code Ready \<or>
     c = shared_state_code Stopping \<or> c = shared_state_code Faulted"

definition float32_planar :: u32 where
  "float32_planar = 1"

record shared_config =
  sc_format :: asio_format
  sc_queue_capacity_blocks :: u32

record shared_identity =
  si_connection_generation :: u64
  si_owner_process_id :: u32
  si_client_process_id :: u32
  si_server_nonce_low :: u64
  si_server_nonce_high :: u64
  si_client_nonce_low :: u64
  si_client_nonce_high :: u64

record shared_header =
  sh_magic :: u32
  sh_protocol_major :: u32
  sh_protocol_minor :: u32
  sh_header_bytes :: u32
  sh_endian_tag :: u32
  sh_feature_bits :: u32
  sh_state :: u32
  sh_sample_format :: u32
  sh_sample_rate :: u32
  sh_frames_per_block :: u32
  sh_input_channels :: u32
  sh_output_channels :: u32
  sh_queue_capacity_blocks :: u32
  sh_owner_process_id :: u32
  sh_client_process_id :: u32
  sh_reserved32 :: u32
  sh_connection_generation :: u64
  sh_server_nonce_low :: u64
  sh_server_nonce_high :: u64
  sh_client_nonce_low :: u64
  sh_client_nonce_high :: u64
  sh_input_control_offset :: u64
  sh_input_slots_offset :: u64
  sh_input_slot_stride :: u64
  sh_output_control_offset :: u64
  sh_output_slots_offset :: u64
  sh_output_slot_stride :: u64
  sh_total_bytes :: u64
  sh_reserved :: "u64 list"

record queue_layout =
  ql_control_offset :: u64
  ql_slots_offset :: u64
  ql_slot_stride :: u64
  ql_end_offset :: u64
  ql_channels :: u32
  ql_sample_count :: u32

record shared_layout =
  sl_header :: shared_header
  sl_input_queue :: queue_layout
  sl_output_queue :: queue_layout

section \<open>Checked arithmetic\<close>

definition add_checked :: "u64 \<Rightarrow> u64 \<Rightarrow> u64 option" where
  "add_checked left right = (if - 1 - left < right then None else Some (left + right))"

definition multiply_checked :: "u64 \<Rightarrow> u64 \<Rightarrow> u64 option" where
  "multiply_checked left right =
     (if left \<noteq> 0 \<and> - 1 div left < right then None else Some (left * right))"

definition align_checked :: "u64 \<Rightarrow> u64 option" where
  "align_checked value =
     (let mask = kVirtualAsioSharedMemoryAlignment - 1
      in map_option (\<lambda>expanded. expanded AND NOT mask) (add_checked value mask))"

lemma unat_max_u64: "unat (- 1 :: u64) = 18446744073709551615"
  by (simp add: unsigned_minus_1_eq_mask mask_eq_exp_minus_1)

lemma add_checked_Some:
  "add_checked a b = Some c \<longleftrightarrow> unat a + unat b < 2 ^ 64 \<and> c = a + b"
proof -
  have lt: "unat a < 2 ^ 64" using unsigned_less [of a] by simp
  have "a \<le> - 1" using lt by (simp add: word_le_nat_alt unat_max_u64)
  then have "unat (- 1 - a) = 18446744073709551615 - unat a"
    by (simp add: unat_sub unat_max_u64)
  then have "- 1 - a < b \<longleftrightarrow> 18446744073709551615 - unat a < unat b" by (simp add: word_less_nat_alt)
  then show ?thesis using lt by (auto simp: add_checked_def)
qed

lemma multiply_checked_Some:
  "multiply_checked a b = Some c \<longleftrightarrow> unat a * unat b < 2 ^ 64 \<and> c = a * b"
proof (cases "a = 0")
  case False
  then have "0 < unat a" by (simp add: unat_gt_0)
  then have "18446744073709551615 div unat a < unat b \<longleftrightarrow> 18446744073709551615 < unat b * unat a"
    by (rule div_less_iff_less_mult)
  moreover have "unat (- 1 div a) = 18446744073709551615 div unat a"
    by (simp add: unat_div unat_max_u64)
  ultimately show ?thesis using False by (auto simp: multiply_checked_def word_less_nat_alt mult.commute)
qed (simp add: multiply_checked_def)

text \<open>The next multiple of 64.\<close>

definition align_up :: "nat \<Rightarrow> nat" where
  "align_up n = (n + 63) div 64 * 64"

lemma align_up_bounds: "n \<le> align_up n" "align_up n < n + 64" "64 dvd align_up n"
  by (simp_all add: align_up_def)

lemma align_up_dvd [simp]: "64 dvd n \<Longrightarrow> align_up n = n"
  by (auto simp: align_up_def elim!: dvdE)

lemma and_not_63: "unat ((w :: u64) AND NOT 63) = unat w div 64 * 64"
proof -
  have mask: "(63 :: u64) = mask 6" by (simp add: mask_eq_exp_minus_1)
  have "w AND NOT (mask 6) = w AND NOT (take_bit 6 w)"
    by (simp add: take_bit_eq_mask bit_eq_iff bit_simps) blast
  also have "\<dots> = w - take_bit 6 w"
    by (rule disjunctive_diff_eq_and_not [symmetric]) (simp add: bit_eq_iff bit_simps)
  finally have "unat (w AND NOT 63) = unat w - unat (take_bit 6 w)"
    by (simp add: mask unat_sub word_le_nat_alt unsigned_take_bit_eq take_bit_nat_less_eq_self)
  also have "\<dots> = unat w - unat w mod 64" by (simp add: unat_mod take_bit_eq_mod)
  finally show ?thesis by (simp add: minus_mod_eq_div_mult)
qed

lemma align_checked_Some:
  "align_checked a = Some c \<longleftrightarrow> unat a + 63 < 2 ^ 64 \<and> unat c = align_up (unat a)"
proof (cases "add_checked a 63")
  case None
  then have "\<not> unat a + 63 < 2 ^ 64" using add_checked_Some [of a 63 "a + 63"] by simp
  with None show ?thesis by (simp add: align_checked_def kVirtualAsioSharedMemoryAlignment_def)
next
  case (Some e)
  then have small: "unat a + 63 < 2 ^ 64" and e: "e = a + 63" using add_checked_Some [of a 63 e] by simp_all
  have "unat ((a + 63) AND NOT 63) = align_up (unat a)"
    unfolding and_not_63 using small by (simp add: align_up_def unat_word_ariths)
  moreover have "align_checked a = Some ((a + 63) AND NOT 63)"
    using Some e by (simp add: align_checked_def kVirtualAsioSharedMemoryAlignment_def)
  ultimately show ?thesis using small by (auto simp: word_unat_eq_iff)
qed

lemma align_checked_ex: "unat a + 63 < 2 ^ 64 \<Longrightarrow> \<exists>c. align_checked a = Some c \<and> unat c = align_up (unat a)"
  using add_checked_Some [of a 63 "a + 63"] align_checked_Some [of a "(a + 63) AND NOT 63"]
  by (simp add: align_checked_def kVirtualAsioSharedMemoryAlignment_def)

section \<open>The layout\<close>

definition build_queue :: "u64 \<Rightarrow> u32 \<Rightarrow> u32 \<Rightarrow> u32 \<Rightarrow> queue_layout option" where
  "build_queue start channels frames capacity =
     (if channels = 0
      then Some \<lparr>ql_control_offset = 0, ql_slots_offset = 0, ql_slot_stride = 0, ql_end_offset = start,
                 ql_channels = 0, ql_sample_count = 0\<rparr>
      else case multiply_checked (ucast channels) (ucast frames) of
        None \<Rightarrow> None
      | Some sample_count \<Rightarrow>
          if ucast (- 1 :: u32) < sample_count then None
          else case add_checked start queue_control_size of
            None \<Rightarrow> None
          | Some slots_offset \<Rightarrow>
              (case multiply_checked sample_count 4 of
                 None \<Rightarrow> None
               | Some sample_bytes \<Rightarrow>
                   (case add_checked block_header_size sample_bytes of
                      None \<Rightarrow> None
                    | Some raw_stride \<Rightarrow>
                        (case align_checked raw_stride of
                           None \<Rightarrow> None
                         | Some slot_stride \<Rightarrow>
                             (case multiply_checked slot_stride (ucast capacity) of
                                None \<Rightarrow> None
                              | Some slots_bytes \<Rightarrow>
                                  (case add_checked slots_offset slots_bytes of
                                     None \<Rightarrow> None
                                   | Some end_offset \<Rightarrow>
                                       Some \<lparr>ql_control_offset = start, ql_slots_offset = slots_offset,
                                         ql_slot_stride = slot_stride, ql_end_offset = end_offset,
                                         ql_channels = channels, ql_sample_count = ucast sample_count\<rparr>))))))"

definition queue_present :: "queue_layout \<Rightarrow> bool" where
  "queue_present q \<longleftrightarrow> ql_channels q \<noteq> 0"

definition shared_format_ok :: "asio_format \<Rightarrow> bool" where
  "shared_format_ok f \<longleftrightarrow> \<not> (vf_sample_rate f = 0 \<or> vf_frames_per_block f = 0 \<or>
     kVirtualAsioMaxFramesPerBlock < vf_frames_per_block f \<or>
     (vf_input_channels f = 0 \<and> vf_output_channels f = 0) \<or>
     kVirtualAsioMaxChannels < vf_input_channels f \<or> kVirtualAsioMaxChannels < vf_output_channels f)"

definition shared_identity_ok :: "shared_identity \<Rightarrow> bool" where
  "shared_identity_ok i \<longleftrightarrow> \<not> (si_connection_generation i = 0 \<or> si_owner_process_id i = 0 \<or>
     si_client_process_id i = 0 \<or> (si_server_nonce_low i = 0 \<and> si_server_nonce_high i = 0) \<or>
     (si_client_nonce_low i = 0 \<and> si_client_nonce_high i = 0))"

definition make_shared_header ::
  "shared_config \<Rightarrow> shared_identity \<Rightarrow> queue_layout \<Rightarrow> queue_layout \<Rightarrow> u64 \<Rightarrow> shared_header" where
  "make_shared_header c i qi qo total_bytes =
     \<lparr>sh_magic = kVirtualAsioSharedMemoryMagic,
      sh_protocol_major = kVirtualAsioSharedMemoryProtocolMajor,
      sh_protocol_minor = kVirtualAsioSharedMemoryProtocolMinor,
      sh_header_bytes = kVirtualAsioSharedMemoryHeaderBytes,
      sh_endian_tag = kVirtualAsioSharedMemoryEndianTag,
      sh_feature_bits = 0, sh_state = shared_state_code Initializing, sh_sample_format = float32_planar,
      sh_sample_rate = vf_sample_rate (sc_format c),
      sh_frames_per_block = vf_frames_per_block (sc_format c),
      sh_input_channels = vf_input_channels (sc_format c),
      sh_output_channels = vf_output_channels (sc_format c),
      sh_queue_capacity_blocks = sc_queue_capacity_blocks c,
      sh_owner_process_id = si_owner_process_id i, sh_client_process_id = si_client_process_id i,
      sh_reserved32 = 0, sh_connection_generation = si_connection_generation i,
      sh_server_nonce_low = si_server_nonce_low i, sh_server_nonce_high = si_server_nonce_high i,
      sh_client_nonce_low = si_client_nonce_low i, sh_client_nonce_high = si_client_nonce_high i,
      sh_input_control_offset = ql_control_offset qi, sh_input_slots_offset = ql_slots_offset qi,
      sh_input_slot_stride = ql_slot_stride qi,
      sh_output_control_offset = ql_control_offset qo, sh_output_slots_offset = ql_slots_offset qo,
      sh_output_slot_stride = ql_slot_stride qo,
      sh_total_bytes = total_bytes, sh_reserved = replicate 12 0\<rparr>"

definition calculate_shared_layout :: "shared_config \<Rightarrow> shared_identity \<Rightarrow> sar_error + shared_layout" where
  "calculate_shared_layout c i =
     (if \<not> shared_format_ok (sc_format c) then Inl shm_invalid_virtual_asio_shared_format
      else if sc_queue_capacity_blocks c = 0 \<or> kVirtualAsioMaxQueueCapacityBlocks < sc_queue_capacity_blocks c
      then Inl shm_invalid_virtual_asio_queue_capacity
      else if \<not> shared_identity_ok i then Inl shm_invalid_virtual_asio_connection_identity
      else case build_queue header_size (vf_input_channels (sc_format c))
             (vf_frames_per_block (sc_format c)) (sc_queue_capacity_blocks c) of
        None \<Rightarrow> Inl shm_virtual_asio_mapping_too_large
      | Some qi \<Rightarrow>
          (case build_queue (ql_end_offset qi) (vf_output_channels (sc_format c))
                  (vf_frames_per_block (sc_format c)) (sc_queue_capacity_blocks c) of
             None \<Rightarrow> Inl shm_virtual_asio_mapping_too_large
           | Some qo \<Rightarrow>
               (case align_checked (ql_end_offset qo) of
                  None \<Rightarrow> Inl shm_virtual_asio_mapping_too_large
                | Some total_bytes \<Rightarrow>
                    if kVirtualAsioMaxSharedMemoryBytes < total_bytes then Inl shm_virtual_asio_mapping_too_large
                    else Inr \<lparr>sl_header = make_shared_header c i qi qo total_bytes,
                              sl_input_queue = qi, sl_output_queue = qo\<rparr>)))"

text \<open>\<open>headers_equal\<close>: every field but the state, and the twelve reserved words.\<close>

definition headers_equal :: "shared_header \<Rightarrow> shared_header \<Rightarrow> bool" where
  "headers_equal l r \<longleftrightarrow> take 12 (sh_reserved l) = take 12 (sh_reserved r) \<and>
     sh_magic l = sh_magic r \<and> sh_protocol_major l = sh_protocol_major r \<and>
     sh_protocol_minor l = sh_protocol_minor r \<and> sh_header_bytes l = sh_header_bytes r \<and>
     sh_endian_tag l = sh_endian_tag r \<and> sh_feature_bits l = sh_feature_bits r \<and>
     sh_sample_format l = sh_sample_format r \<and> sh_sample_rate l = sh_sample_rate r \<and>
     sh_frames_per_block l = sh_frames_per_block r \<and> sh_input_channels l = sh_input_channels r \<and>
     sh_output_channels l = sh_output_channels r \<and>
     sh_queue_capacity_blocks l = sh_queue_capacity_blocks r \<and>
     sh_owner_process_id l = sh_owner_process_id r \<and> sh_client_process_id l = sh_client_process_id r \<and>
     sh_reserved32 l = sh_reserved32 r \<and> sh_connection_generation l = sh_connection_generation r \<and>
     sh_server_nonce_low l = sh_server_nonce_low r \<and> sh_server_nonce_high l = sh_server_nonce_high r \<and>
     sh_client_nonce_low l = sh_client_nonce_low r \<and> sh_client_nonce_high l = sh_client_nonce_high r \<and>
     sh_input_control_offset l = sh_input_control_offset r \<and>
     sh_input_slots_offset l = sh_input_slots_offset r \<and>
     sh_input_slot_stride l = sh_input_slot_stride r \<and>
     sh_output_control_offset l = sh_output_control_offset r \<and>
     sh_output_slots_offset l = sh_output_slots_offset r \<and>
     sh_output_slot_stride l = sh_output_slot_stride r \<and> sh_total_bytes l = sh_total_bytes r"

definition validate_shared_header :: "shared_header \<Rightarrow> u64 \<Rightarrow> sar_error + shared_layout" where
  "validate_shared_header h mapped_bytes =
     (if sh_magic h \<noteq> kVirtualAsioSharedMemoryMagic \<or>
         sh_header_bytes h \<noteq> kVirtualAsioSharedMemoryHeaderBytes \<or>
         sh_endian_tag h \<noteq> kVirtualAsioSharedMemoryEndianTag \<or>
         sh_feature_bits h \<noteq> 0 \<or> sh_reserved32 h \<noteq> 0 \<or> sh_sample_format h \<noteq> float32_planar
      then Inl shm_invalid_virtual_asio_shared_header
      else if sh_protocol_major h \<noteq> kVirtualAsioSharedMemoryProtocolMajor \<or>
         kVirtualAsioSharedMemoryProtocolMinor < sh_protocol_minor h
      then Inl shm_unsupported_virtual_asio_shared_protocol
      else if \<not> shared_state_known (sh_state h) then Inl shm_invalid_virtual_asio_shared_header
      else
        let calculated = calculate_shared_layout
             \<lparr>sc_format = \<lparr>vf_sample_rate = sh_sample_rate h, vf_frames_per_block = sh_frames_per_block h,
                vf_input_channels = sh_input_channels h, vf_output_channels = sh_output_channels h\<rparr>,
              sc_queue_capacity_blocks = sh_queue_capacity_blocks h\<rparr>
             \<lparr>si_connection_generation = sh_connection_generation h,
              si_owner_process_id = sh_owner_process_id h, si_client_process_id = sh_client_process_id h,
              si_server_nonce_low = sh_server_nonce_low h, si_server_nonce_high = sh_server_nonce_high h,
              si_client_nonce_low = sh_client_nonce_low h, si_client_nonce_high = sh_client_nonce_high h\<rparr>
        in case calculated of
             Inl _ \<Rightarrow> Inl shm_invalid_virtual_asio_shared_header
           | Inr l \<Rightarrow>
               if \<not> headers_equal h (sl_header l) then Inl shm_invalid_virtual_asio_shared_header
               else if mapped_bytes < sh_total_bytes h then Inl shm_virtual_asio_mapping_truncated
               else calculated)"

section \<open>What the layout is\<close>

text \<open>The bytes a queue takes, in natural numbers.\<close>

definition queue_bytes :: "nat \<Rightarrow> nat \<Rightarrow> nat \<Rightarrow> nat" where
  "queue_bytes channels frames capacity =
     (if channels = 0 then 0 else 128 + align_up (64 + 4 * (channels * frames)) * capacity)"

lemma queue_bytes_dvd: "64 dvd queue_bytes channels frames capacity"
  using align_up_bounds(3) by (auto simp: queue_bytes_def intro: dvd_add)

lemma product_bounds:
  assumes "channels \<le> 256" "frames \<le> 8192" "capacity \<le> 64"
  shows "channels * frames \<le> 2097152" "align_up (64 + 4 * (channels * frames)) \<le> 8388735"
    "align_up (64 + 4 * (channels * frames)) * capacity \<le> 536879040"
proof -
  show 1: "channels * frames \<le> 2097152" using mult_le_mono [OF assms(1,2)] by simp
  show 2: "align_up (64 + 4 * (channels * frames)) \<le> 8388735"
    using 1 align_up_bounds(2) [of "64 + 4 * (channels * frames)"] by linarith
  show "align_up (64 + 4 * (channels * frames)) * capacity \<le> 536879040"
    using mult_le_mono [OF 2 assms(3)] by simp
qed

lemma unat_ucast_up: "unat (ucast (x :: u32) :: u64) = unat x"
proof -
  have "unat x < 2 ^ 32" using unsigned_less [of x] by simp
  then show ?thesis by (simp add: unsigned_ucast_eq take_bit_nat_eq_self)
qed

lemma max_u32: "ucast (- 1 :: u32) = (4294967295 :: u64)"
  by (simp add: word_unat_eq_iff unat_ucast_up unsigned_minus_1_eq_mask mask_eq_exp_minus_1)

lemma build_queue_present:
  assumes "unat start \<le> 2 ^ 30" "unat channels \<le> 256" "unat frames \<le> 8192" "unat capacity \<le> 64"
    and "channels \<noteq> 0"
  shows "\<exists>q. build_queue start channels frames capacity = Some q \<and> ql_channels q = channels \<and>
     unat (ql_control_offset q) = unat start \<and> unat (ql_slots_offset q) = unat start + 128 \<and>
     unat (ql_slot_stride q) = align_up (64 + 4 * (unat channels * unat frames)) \<and>
     unat (ql_end_offset q) = unat start + queue_bytes (unat channels) (unat frames) (unat capacity) \<and>
     unat (ql_sample_count q) = unat channels * unat frames"
proof -
  note b = product_bounds [OF assms(2-4)]
  have start: "unat start \<le> 1073741824" using assms(1) by simp
  obtain n where n: "multiply_checked (ucast channels) (ucast frames) = Some n"
      "unat n = unat channels * unat frames"
    using multiply_checked_Some [of "ucast channels" "ucast frames"] b(1)
    by (auto simp: unat_ucast_up unat_mult_lem [THEN iffD1])
  have small: "\<not> ucast (- 1 :: u32) < n"
    using n(2) b(1) by (simp add: word_less_nat_alt unat_ucast_up unsigned_minus_1_eq_mask mask_eq_exp_minus_1)
  obtain sl where sl: "add_checked start queue_control_size = Some sl" "unat sl = unat start + 128"
    using add_checked_Some [of start queue_control_size] start
    by (auto simp: queue_control_size_def unat_word_ariths)
  obtain bs where bs: "multiply_checked n 4 = Some bs" "unat bs = 4 * unat n"
    using multiply_checked_Some [of n 4] n(2) b(1) by (auto simp: unat_word_ariths)
  obtain rs where rs: "add_checked block_header_size bs = Some rs" "unat rs = 64 + 4 * unat n"
    using add_checked_Some [of block_header_size bs] bs(2) n(2) b(1)
    by (auto simp: block_header_size_def unat_word_ariths)
  have "unat rs + 63 < 2 ^ 64" using rs(2) n(2) b(1) by simp
  then obtain st where st: "align_checked rs = Some st" "unat st = align_up (64 + 4 * unat n)"
    using align_checked_ex [of rs] rs(2) by auto
  obtain sb where sb: "multiply_checked st (ucast capacity) = Some sb" "unat sb = unat st * unat capacity"
    using multiply_checked_Some [of st "ucast capacity"] st(2) n(2) b(3)
    by (auto simp: unat_ucast_up unat_mult_lem [THEN iffD1])
  obtain e where e: "add_checked sl sb = Some e" "unat e = unat sl + unat sb"
    using add_checked_Some [of sl sb] sl(2) sb(2) st(2) n(2) b(3) start
    by (auto simp: unat_word_ariths)
  have "unat (ucast n :: u32) = unat n" using n(2) b(1) by (simp add: unsigned_ucast_eq take_bit_nat_eq_self)
  with n small sl bs rs st sb e assms(5) show ?thesis
    by (auto simp: build_queue_def queue_bytes_def unat_eq_0)
qed

text \<open>Either queue, present or not.\<close>

definition queue_ok :: "u64 \<Rightarrow> u32 \<Rightarrow> u32 \<Rightarrow> u32 \<Rightarrow> queue_layout \<Rightarrow> bool" where
  "queue_ok start channels frames capacity q \<longleftrightarrow>
     ql_channels q = channels \<and>
     unat (ql_end_offset q) = unat start + queue_bytes (unat channels) (unat frames) (unat capacity) \<and>
     (channels \<noteq> 0 \<longrightarrow>
       unat (ql_control_offset q) = unat start \<and> unat (ql_slots_offset q) = unat start + 128 \<and>
       unat (ql_slot_stride q) = align_up (64 + 4 * (unat channels * unat frames)) \<and>
       unat (ql_sample_count q) = unat channels * unat frames)"

lemma build_queue_ok:
  assumes "unat start \<le> 2 ^ 30" "unat channels \<le> 256" "unat frames \<le> 8192" "unat capacity \<le> 64"
  shows "\<exists>q. build_queue start channels frames capacity = Some q \<and> queue_ok start channels frames capacity q"
proof (cases "channels = 0")
  case True
  then show ?thesis by (simp add: build_queue_def queue_ok_def queue_bytes_def)
next
  case False
  then show ?thesis using build_queue_present [OF assms False] by (auto simp: queue_ok_def)
qed

definition shared_capacity_ok :: "u32 \<Rightarrow> bool" where
  "shared_capacity_ok n \<longleftrightarrow> n \<noteq> 0 \<and> n \<le> kVirtualAsioMaxQueueCapacityBlocks"

definition shared_total :: "shared_config \<Rightarrow> nat" where
  "shared_total c =
     256 + queue_bytes (unat (vf_input_channels (sc_format c))) (unat (vf_frames_per_block (sc_format c)))
             (unat (sc_queue_capacity_blocks c)) +
     queue_bytes (unat (vf_output_channels (sc_format c))) (unat (vf_frames_per_block (sc_format c)))
             (unat (sc_queue_capacity_blocks c))"

text \<open>The calculation, for a valid request: no overflow check fails, only the size limit counts.\<close>

lemma calculate_shared_layout_valid:
  assumes "shared_format_ok (sc_format c)" "shared_capacity_ok (sc_queue_capacity_blocks c)" "shared_identity_ok i"
  shows "\<exists>qi qo n. build_queue header_size (vf_input_channels (sc_format c))
             (vf_frames_per_block (sc_format c)) (sc_queue_capacity_blocks c) = Some qi \<and>
      queue_ok header_size (vf_input_channels (sc_format c)) (vf_frames_per_block (sc_format c))
        (sc_queue_capacity_blocks c) qi \<and>
      queue_ok (ql_end_offset qi) (vf_output_channels (sc_format c)) (vf_frames_per_block (sc_format c))
        (sc_queue_capacity_blocks c) qo \<and> unat n = shared_total c \<and>
      calculate_shared_layout c i =
        (if kVirtualAsioMaxSharedMemoryBytes < n then Inl shm_virtual_asio_mapping_too_large
         else Inr \<lparr>sl_header = make_shared_header c i qi qo n, sl_input_queue = qi, sl_output_queue = qo\<rparr>)"
proof -
  let ?f = "sc_format c" and ?cap = "sc_queue_capacity_blocks c"
  have lim: "unat (vf_input_channels ?f) \<le> 256" "unat (vf_output_channels ?f) \<le> 256"
      "unat (vf_frames_per_block ?f) \<le> 8192" "unat ?cap \<le> 64"
    using assms(1,2)
    by (simp_all add: shared_format_ok_def shared_capacity_ok_def kVirtualAsioMaxChannels_def
        kVirtualAsioMaxFramesPerBlock_def kVirtualAsioMaxQueueCapacityBlocks_def word_less_nat_alt word_le_nat_alt)
  have bytes: "queue_bytes ch (unat (vf_frames_per_block ?f)) (unat ?cap) \<le> 536879168" if "ch \<le> 256" for ch
    using product_bounds(3) [OF that lim(3,4)] by (simp add: queue_bytes_def)
  obtain qi where qi: "build_queue header_size (vf_input_channels ?f) (vf_frames_per_block ?f) ?cap = Some qi"
      "queue_ok header_size (vf_input_channels ?f) (vf_frames_per_block ?f) ?cap qi"
    using build_queue_ok [of header_size, OF _ lim(1,3,4)] by (auto simp: header_size_def)
  have endi: "unat (ql_end_offset qi) = 256 + queue_bytes (unat (vf_input_channels ?f)) (unat (vf_frames_per_block ?f)) (unat ?cap)"
    using qi(2) by (simp add: queue_ok_def header_size_def)
  then have "unat (ql_end_offset qi) \<le> 2 ^ 30" using bytes [OF lim(1)] by simp
  then obtain qo where qo: "build_queue (ql_end_offset qi) (vf_output_channels ?f) (vf_frames_per_block ?f) ?cap = Some qo"
      "queue_ok (ql_end_offset qi) (vf_output_channels ?f) (vf_frames_per_block ?f) ?cap qo"
    using build_queue_ok [OF _ lim(2,3,4)] by blast
  have endo: "unat (ql_end_offset qo) = shared_total c"
    using qo(2) endi by (simp add: queue_ok_def shared_total_def)
  have "shared_total c \<le> 1073758592" using bytes [OF lim(1)] bytes [OF lim(2)] by (simp add: shared_total_def)
  moreover have "64 dvd shared_total c"
    by (simp add: shared_total_def queue_bytes_dvd)
  ultimately obtain n where n: "align_checked (ql_end_offset qo) = Some n" "unat n = shared_total c"
    using align_checked_ex [of "ql_end_offset qo"] endo by auto
  have "\<not> (?cap = 0 \<or> kVirtualAsioMaxQueueCapacityBlocks < ?cap)"
    using assms(2) by (auto simp: shared_capacity_ok_def)
  then have "calculate_shared_layout c i =
        (if kVirtualAsioMaxSharedMemoryBytes < n then Inl shm_virtual_asio_mapping_too_large
         else Inr \<lparr>sl_header = make_shared_header c i qi qo n, sl_input_queue = qi, sl_output_queue = qo\<rparr>)"
    using assms(1,3) qi(1) qo(1) n(1) by (simp add: calculate_shared_layout_def)
  with qi qo(2) n(2) show ?thesis by blast
qed

lemma calculate_shared_layout_Inr:
  assumes "calculate_shared_layout c i = Inr l"
  shows "shared_format_ok (sc_format c)" "shared_capacity_ok (sc_queue_capacity_blocks c)" "shared_identity_ok i"
  using assms by (auto simp: calculate_shared_layout_def shared_capacity_ok_def split: if_splits)

lemma shared_limit: "kVirtualAsioMaxSharedMemoryBytes < n \<longleftrightarrow> 2 ^ 28 < unat n"
  by (simp add: kVirtualAsioMaxSharedMemoryBytes_def word_less_nat_alt)

lemma calculate_shared_layout_spec:
  assumes "calculate_shared_layout c i = Inr l"
  shows "sl_header l = make_shared_header c i (sl_input_queue l) (sl_output_queue l) (sh_total_bytes (sl_header l))"
    and "queue_ok header_size (vf_input_channels (sc_format c)) (vf_frames_per_block (sc_format c))
        (sc_queue_capacity_blocks c) (sl_input_queue l)"
    and "queue_ok (ql_end_offset (sl_input_queue l)) (vf_output_channels (sc_format c))
        (vf_frames_per_block (sc_format c)) (sc_queue_capacity_blocks c) (sl_output_queue l)"
    and "unat (sh_total_bytes (sl_header l)) = shared_total c" "shared_total c \<le> 2 ^ 28"
proof -
  note ok = calculate_shared_layout_Inr [OF assms]
  obtain qi qo n where q:
      "queue_ok header_size (vf_input_channels (sc_format c)) (vf_frames_per_block (sc_format c))
        (sc_queue_capacity_blocks c) qi"
      "queue_ok (ql_end_offset qi) (vf_output_channels (sc_format c)) (vf_frames_per_block (sc_format c))
        (sc_queue_capacity_blocks c) qo" "unat n = shared_total c"
      "calculate_shared_layout c i =
        (if kVirtualAsioMaxSharedMemoryBytes < n then Inl shm_virtual_asio_mapping_too_large
         else Inr \<lparr>sl_header = make_shared_header c i qi qo n, sl_input_queue = qi, sl_output_queue = qo\<rparr>)"
    using calculate_shared_layout_valid [OF ok] by blast
  then have l: "\<not> kVirtualAsioMaxSharedMemoryBytes < n"
      "l = \<lparr>sl_header = make_shared_header c i qi qo n, sl_input_queue = qi, sl_output_queue = qo\<rparr>"
    using assms by (simp_all split: if_splits)
  have "sh_total_bytes (sl_header l) = n" by (simp add: l(2) make_shared_header_def)
  with q l shared_limit [of n] show
    "sl_header l = make_shared_header c i (sl_input_queue l) (sl_output_queue l) (sh_total_bytes (sl_header l))"
    "queue_ok header_size (vf_input_channels (sc_format c)) (vf_frames_per_block (sc_format c))
        (sc_queue_capacity_blocks c) (sl_input_queue l)"
    "queue_ok (ql_end_offset (sl_input_queue l)) (vf_output_channels (sc_format c))
        (vf_frames_per_block (sc_format c)) (sc_queue_capacity_blocks c) (sl_output_queue l)"
    "unat (sh_total_bytes (sl_header l)) = shared_total c" "shared_total c \<le> 2 ^ 28"
    by simp_all
qed

text \<open>The parts of the mapping, as offsets and sizes, and what it means that they fit.\<close>

definition queue_regions :: "nat \<Rightarrow> queue_layout \<Rightarrow> (nat \<times> nat) list" where
  "queue_regions capacity q =
     (if queue_present q
      then [(unat (ql_control_offset q), 128), (unat (ql_slots_offset q), unat (ql_slot_stride q) * capacity)]
      else [])"

definition shared_regions :: "shared_layout \<Rightarrow> (nat \<times> nat) list" where
  "shared_regions l = (0, 256) #
     queue_regions (unat (sh_queue_capacity_blocks (sl_header l))) (sl_input_queue l) @
     queue_regions (unat (sh_queue_capacity_blocks (sl_header l))) (sl_output_queue l)"

fun packed :: "nat \<Rightarrow> (nat \<times> nat) list \<Rightarrow> nat \<Rightarrow> bool" where
  "packed a [] b \<longleftrightarrow> a \<le> b"
| "packed a ((s, n) # rs) b \<longleftrightarrow> a \<le> s \<and> 64 dvd s \<and> packed (s + n) rs b"

lemma packed_append: "packed a rs m \<Longrightarrow> packed m qs b \<Longrightarrow> packed a (rs @ qs) b"
proof (induction a rs m rule: packed.induct)
  case (1 a m)
  then show ?case by (cases qs) auto
qed auto

lemma queue_regions_packed:
  assumes "queue_ok start channels frames capacity q" "64 dvd unat start"
  shows "packed (unat start) (queue_regions (unat capacity) q) (unat (ql_end_offset q))"
    and "64 dvd unat (ql_end_offset q)"
    and "queue_present q \<longrightarrow> 64 + 4 * unat (ql_sample_count q) \<le> unat (ql_slot_stride q) \<and> 64 dvd unat (ql_slot_stride q)"
  using assms align_up_bounds [of "64 + 4 * (unat channels * unat frames)"]
  by (auto simp: queue_ok_def queue_regions_def queue_present_def queue_bytes_def unat_eq_0 dvd_add_right_iff
      intro: dvd_add)

lemma shared_layout_fits:
  assumes "calculate_shared_layout c i = Inr l"
  shows "packed 0 (shared_regions l) (unat (sh_total_bytes (sl_header l)))"
    and "\<forall>q \<in> {sl_input_queue l, sl_output_queue l}. queue_present q \<longrightarrow>
      64 + 4 * unat (ql_sample_count q) \<le> unat (ql_slot_stride q) \<and> 64 dvd unat (ql_slot_stride q)"
proof -
  note spec = calculate_shared_layout_spec [OF assms]
  have cap: "sh_queue_capacity_blocks (sl_header l) = sc_queue_capacity_blocks c"
    by (subst spec(1)) (simp add: make_shared_header_def)
  have 0: "64 dvd unat header_size" by (simp add: header_size_def)
  note qi = queue_regions_packed [OF spec(2) 0]
  note qo = queue_regions_packed [OF spec(3) qi(2)]
  have "unat (ql_end_offset (sl_output_queue l)) = unat (sh_total_bytes (sl_header l))"
    using spec(2-4) by (simp add: queue_ok_def shared_total_def header_size_def)
  then show "packed 0 (shared_regions l) (unat (sh_total_bytes (sl_header l)))"
    using packed_append [OF qi(1) qo(1)] by (simp add: shared_regions_def cap header_size_def)
  show "\<forall>q \<in> {sl_input_queue l, sl_output_queue l}. queue_present q \<longrightarrow>
      64 + 4 * unat (ql_sample_count q) \<le> unat (ql_slot_stride q) \<and> 64 dvd unat (ql_slot_stride q)"
    using qi(3) qo(3) by blast
qed

lemma make_shared_header_equal:
  "length (sh_reserved h) = 12 \<Longrightarrow> headers_equal h (make_shared_header c i qi qo n) \<longleftrightarrow>
     h = make_shared_header c i qi qo n\<lparr>sh_state := sh_state h\<rparr>"
  by (cases h) (auto simp: headers_equal_def make_shared_header_def)

lemma shared_config_eta:
  "\<lparr>sc_format = \<lparr>vf_sample_rate = vf_sample_rate (sc_format c),
       vf_frames_per_block = vf_frames_per_block (sc_format c),
       vf_input_channels = vf_input_channels (sc_format c),
       vf_output_channels = vf_output_channels (sc_format c)\<rparr>,
     sc_queue_capacity_blocks = sc_queue_capacity_blocks c\<rparr> = c"
  by (cases c; cases "sc_format c") simp

lemma shared_identity_eta:
  "\<lparr>si_connection_generation = si_connection_generation i, si_owner_process_id = si_owner_process_id i,
     si_client_process_id = si_client_process_id i, si_server_nonce_low = si_server_nonce_low i,
     si_server_nonce_high = si_server_nonce_high i, si_client_nonce_low = si_client_nonce_low i,
     si_client_nonce_high = si_client_nonce_high i\<rparr> = i"
  by (cases i) simp

lemma validate_made_header:
  assumes "calculate_shared_layout c i = Inr l" "shared_state_known st" "n \<le> mapped"
    and "headers_equal (make_shared_header c i qi qo n\<lparr>sh_state := st\<rparr>) (sl_header l)"
  shows "validate_shared_header (make_shared_header c i qi qo n\<lparr>sh_state := st\<rparr>) mapped = Inr l"
  using assms
  by (simp add: validate_shared_header_def Let_def make_shared_header_def not_less
      shared_config_eta shared_identity_eta)

section \<open>Properties\<close>

text \<open>
  C19: A calculated layout fits: the header, the two queue controls and the two slot arrays follow
  each other on 64-byte boundaries without overlap, all inside the total size, which is at most
  256 MiB; every slot has room for its block header and all its samples.
\<close>

theorem shared_layout_disjoint:
  assumes "calculate_shared_layout c i = Inr l"
  shows "packed 0 (shared_regions l) (unat (sh_total_bytes (sl_header l))) \<and>
    unat (sh_total_bytes (sl_header l)) \<le> 2 ^ 28 \<and>
    (\<forall>q \<in> {sl_input_queue l, sl_output_queue l}. queue_present q \<longrightarrow>
      64 + 4 * unat (ql_sample_count q) \<le> unat (ql_slot_stride q) \<and> 64 dvd unat (ql_slot_stride q))"
  using shared_layout_fits [OF assms] calculate_shared_layout_spec(4,5) [OF assms] by simp

definition demo_shared_config :: shared_config where
  "demo_shared_config = \<lparr>sc_format = \<lparr>vf_sample_rate = 48000, vf_frames_per_block = 9,
     vf_input_channels = 1, vf_output_channels = 2\<rparr>, sc_queue_capacity_blocks = 3\<rparr>"

definition demo_shared_identity :: shared_identity where
  "demo_shared_identity = \<lparr>si_connection_generation = 5, si_owner_process_id = 10, si_client_process_id = 20,
     si_server_nonce_low = 1, si_server_nonce_high = 0, si_client_nonce_low = 0, si_client_nonce_high = 2\<rparr>"

definition demo_shared_layout :: shared_layout where
  "demo_shared_layout =
     (let qi = \<lparr>ql_control_offset = 256, ql_slots_offset = 384, ql_slot_stride = 128, ql_end_offset = 768,
                ql_channels = 1, ql_sample_count = 9\<rparr>;
          qo = \<lparr>ql_control_offset = 768, ql_slots_offset = 896, ql_slot_stride = 192, ql_end_offset = 1472,
                ql_channels = 2, ql_sample_count = 18\<rparr>
      in \<lparr>sl_header = make_shared_header demo_shared_config demo_shared_identity qi qo 1472,
          sl_input_queue = qi, sl_output_queue = qo\<rparr>)"

lemma demo_align:
  "align_checked 100 = Some 128" "align_checked 136 = Some 192" "align_checked 1472 = Some 1472"
  by (simp_all add: align_checked_Some align_up_def)

lemma demo_shared_calculated:
  "calculate_shared_layout demo_shared_config demo_shared_identity = Inr demo_shared_layout"
  by (simp add: calculate_shared_layout_def demo_shared_config_def demo_shared_identity_def
      demo_shared_layout_def shared_format_ok_def shared_identity_ok_def build_queue_def add_checked_def
      multiply_checked_def demo_align max_u32 header_size_def block_header_size_def queue_control_size_def
      kVirtualAsioMaxQueueCapacityBlocks_def kVirtualAsioMaxChannels_def kVirtualAsioMaxFramesPerBlock_def
      kVirtualAsioMaxSharedMemoryBytes_def Let_def)

theorem shared_layout_disjoint_witness:
  "packed 0 [(0, 256), (256, 128), (384, 384), (768, 128), (896, 576)] 1472"
  using shared_layout_disjoint [OF demo_shared_calculated]
  by (simp add: demo_shared_layout_def shared_regions_def queue_regions_def queue_present_def
      make_shared_header_def demo_shared_config_def Let_def)

text \<open>
  Both sides agree: a header is accepted, with a layout, exactly when that layout is the one
  calculated from some request, the header is its header up to a known state, and the mapping is
  large enough. So no header that is accepted places anything elsewhere, and every header the
  owner writes is accepted by its client in every state.
\<close>

theorem shared_header_accepted_iff:
  assumes "length (sh_reserved h) = 12"
  shows "validate_shared_header h mapped = Inr l \<longleftrightarrow>
    (\<exists>c i. calculate_shared_layout c i = Inr l \<and> h = sl_header l\<lparr>sh_state := sh_state h\<rparr>) \<and>
    shared_state_known (sh_state h) \<and> sh_total_bytes h \<le> mapped"
proof
  assume v: "validate_shared_header h mapped = Inr l"
  let ?c = "\<lparr>sc_format = \<lparr>vf_sample_rate = sh_sample_rate h, vf_frames_per_block = sh_frames_per_block h,
        vf_input_channels = sh_input_channels h, vf_output_channels = sh_output_channels h\<rparr>,
      sc_queue_capacity_blocks = sh_queue_capacity_blocks h\<rparr>"
  let ?i = "\<lparr>si_connection_generation = sh_connection_generation h,
      si_owner_process_id = sh_owner_process_id h, si_client_process_id = sh_client_process_id h,
      si_server_nonce_low = sh_server_nonce_low h, si_server_nonce_high = sh_server_nonce_high h,
      si_client_nonce_low = sh_client_nonce_low h, si_client_nonce_high = sh_client_nonce_high h\<rparr>"
  have l: "calculate_shared_layout ?c ?i = Inr l" "headers_equal h (sl_header l)"
      "shared_state_known (sh_state h)" "sh_total_bytes h \<le> mapped"
    using v by (auto simp: validate_shared_header_def Let_def split: if_splits sum.splits)
  obtain qi qo n where made: "sl_header l = make_shared_header ?c ?i qi qo n"
    using calculate_shared_layout_spec(1) [OF l(1)] by blast
  have "h = sl_header l\<lparr>sh_state := sh_state h\<rparr>"
    using l(2) make_shared_header_equal [OF assms, of ?c ?i qi qo n] unfolding made by blast
  with l show "(\<exists>c i. calculate_shared_layout c i = Inr l \<and> h = sl_header l\<lparr>sh_state := sh_state h\<rparr>) \<and>
      shared_state_known (sh_state h) \<and> sh_total_bytes h \<le> mapped" by blast
next
  assume "(\<exists>c i. calculate_shared_layout c i = Inr l \<and> h = sl_header l\<lparr>sh_state := sh_state h\<rparr>) \<and>
      shared_state_known (sh_state h) \<and> sh_total_bytes h \<le> mapped"
  then obtain c i where l: "calculate_shared_layout c i = Inr l" "h = sl_header l\<lparr>sh_state := sh_state h\<rparr>"
      "shared_state_known (sh_state h)" "sh_total_bytes h \<le> mapped" by blast
  obtain qi qo n where made: "sl_header l = make_shared_header c i qi qo n"
    using calculate_shared_layout_spec(1) [OF l(1)] by blast
  obtain st where st: "h = make_shared_header c i qi qo n\<lparr>sh_state := st\<rparr>" "shared_state_known st"
    using l(2,3) made by metis
  have "headers_equal h (sl_header l)"
    using make_shared_header_equal [OF assms] made st(1) by simp
  moreover have "n \<le> mapped" using l(4) unfolding st(1) by (simp add: make_shared_header_def)
  ultimately show "validate_shared_header h mapped = Inr l"
    unfolding st(1) using validate_made_header [OF l(1) st(2)] by blast
qed

theorem shared_header_accepted_iff_witness:
  "validate_shared_header (sl_header demo_shared_layout\<lparr>sh_state := 2\<rparr>) 4096 = Inr demo_shared_layout"
proof -
  have "length (sh_reserved (sl_header demo_shared_layout\<lparr>sh_state := 2\<rparr>)) = 12"
    by (simp add: demo_shared_layout_def make_shared_header_def Let_def)
  from shared_header_accepted_iff [OF this, of 4096 demo_shared_layout] demo_shared_calculated show ?thesis
    by (auto simp: shared_state_known_def shared_state_code_def demo_shared_layout_def make_shared_header_def Let_def)
qed

end
