(* ===== verification/SharedQueue.thy ===== *)
theory SharedQueue
  imports SharedMemory SpscRing
begin

text \<open>
  \<^verbatim>\<open>core/platform/windows_virtual_asio_shared_queue.{h,cpp}\<close>: the block queue between the engine
  and an ASIO host in shared memory. The slots of the mapping are a list of blocks, which the
  layout of \<open>SharedMemory\<close> keeps apart; the other process may write anything into them, so the
  consumer checks what it finds. The interlocked operations of the code are the plain reads
  and writes of one side's view.
\<close>

section \<open>State\<close>

datatype queue_status = Completed | NotReady | FormatMismatch | Full | Empty | StaleGeneration
  | CorruptSlot | CorruptControl

record block_metadata =
  bm_sequence :: u64
  bm_connection_generation :: u64
  bm_sample_position :: u64
  bm_qpc_position :: u64
  bm_flags :: u32

record shared_block =
  bk_sequence :: u64
  bk_connection_generation :: u64
  bk_sample_position :: u64
  bk_qpc_position :: u64
  bk_valid_frames :: u32
  bk_flags :: u32
  bk_reserved :: "u64 list"
  bk_samples :: "f32 list"

record queue_control =
  qc_write_position :: u64
  qc_read_position :: u64
  qc_produced_blocks :: u64
  qc_consumed_blocks :: u64
  qc_overrun_blocks :: u64
  qc_underrun_blocks :: u64
  qc_sequence_discontinuities :: u64

text \<open>What the processes share, and the object one of them holds.\<close>

record shared_queue =
  sq_state :: u32
  sq_control :: queue_control
  sq_slots :: "shared_block list"

record queue_view =
  qv_channels :: u32
  qv_frames :: u32
  qv_capacity :: u32
  qv_generation :: u64
  qv_expected_sequence :: u64
  qv_has_expected_sequence :: bool

definition bind_queue :: "queue_layout \<Rightarrow> shared_header \<Rightarrow> queue_view option" where
  "bind_queue q h =
     (if \<not> queue_present q then None
      else Some \<lparr>qv_channels = ql_channels q, qv_frames = sh_frames_per_block h,
             qv_capacity = sh_queue_capacity_blocks h, qv_generation = sh_connection_generation h,
             qv_expected_sequence = 0, qv_has_expected_sequence = False\<rparr>)"

section \<open>Operations\<close>

definition sq_ready :: "shared_queue \<Rightarrow> bool" where
  "sq_ready s \<longleftrightarrow> sq_state s = shared_state_code Ready"

definition sq_matches :: "queue_view \<Rightarrow> audio_buffer \<Rightarrow> bool" where
  "sq_matches v b \<longleftrightarrow> ab_channels b = unat (qv_channels v) \<and> ab_frames b = unat (qv_frames v)"

definition slot_index :: "queue_view \<Rightarrow> u64 \<Rightarrow> nat" where
  "slot_index v position = unat (position mod ucast (qv_capacity v))"

definition set_control :: "(queue_control \<Rightarrow> queue_control) \<Rightarrow> shared_queue \<Rightarrow> shared_queue" where
  "set_control f s = s\<lparr>sq_control := f (sq_control s)\<rparr>"

text \<open>The copies of the channel loops: into a slot's samples, and out of them.\<close>

definition store_channel :: "audio_buffer \<Rightarrow> nat \<Rightarrow> nat \<Rightarrow> f32 list \<Rightarrow> f32 list" where
  "store_channel src frames c samples = copy_n (ab_channel src c) frames (c * frames) samples"

definition load_channel :: "f32 list \<Rightarrow> nat \<Rightarrow> nat \<Rightarrow> audio_buffer \<Rightarrow> audio_buffer" where
  "load_channel samples frames c dst =
     dst\<lparr>ab_samples := copy_n (drop (c * frames) samples) frames (c * ab_frames dst) (ab_samples dst)\<rparr>"

definition sq_push ::
  "queue_view \<Rightarrow> audio_buffer \<Rightarrow> block_metadata \<Rightarrow> shared_queue \<Rightarrow> queue_status \<times> shared_queue" where
  "sq_push v src m s =
     (if \<not> sq_ready s then (NotReady, s)
      else if \<not> sq_matches v src then (FormatMismatch, s)
      else
        let write = qc_write_position (sq_control s);
            read = qc_read_position (sq_control s);
            fill = write - read
        in if ucast (qv_capacity v) < fill then (CorruptControl, s)
           else if fill = ucast (qv_capacity v)
           then (Full, set_control (\<lambda>c. c\<lparr>qc_overrun_blocks := qc_overrun_blocks c + 1\<rparr>) s)
           else
             let old = sq_slots s ! slot_index v write;
                 block = \<lparr>bk_sequence = bm_sequence m, bk_connection_generation = qv_generation v,
                    bk_sample_position = bm_sample_position m, bk_qpc_position = bm_qpc_position m,
                    bk_valid_frames = qv_frames v, bk_flags = bm_flags m, bk_reserved = [0, 0, 0],
                    bk_samples = fold (store_channel src (unat (qv_frames v)))
                       [0..<unat (qv_channels v)] (bk_samples old)\<rparr>
             in (Completed,
                 set_control (\<lambda>c. c\<lparr>qc_write_position := write + 1,
                     qc_produced_blocks := qc_produced_blocks c + 1\<rparr>)
                   (s\<lparr>sq_slots := (sq_slots s)[slot_index v write := block]\<rparr>)))"

definition consume_invalid :: "u64 \<Rightarrow> shared_queue \<Rightarrow> shared_queue" where
  "consume_invalid read s =
     set_control (\<lambda>c. c\<lparr>qc_sequence_discontinuities := qc_sequence_discontinuities c + 1,
       qc_read_position := read + 1, qc_consumed_blocks := qc_consumed_blocks c + 1\<rparr>) s"

definition block_meta :: "shared_block \<Rightarrow> block_metadata" where
  "block_meta b = \<lparr>bm_sequence = bk_sequence b, bm_connection_generation = bk_connection_generation b,
     bm_sample_position = bk_sample_position b, bm_qpc_position = bk_qpc_position b, bm_flags = bk_flags b\<rparr>"

text \<open>The result: status, destination, metadata, the consumer's view and the shared state.\<close>

definition sq_pop ::
  "queue_view \<Rightarrow> audio_buffer \<Rightarrow> block_metadata \<Rightarrow> shared_queue \<Rightarrow>
   queue_status \<times> audio_buffer \<times> block_metadata \<times> queue_view \<times> shared_queue" where
  "sq_pop v dst m s =
     (if \<not> sq_ready s then (NotReady, ab_clear dst, m, v, s)
      else if \<not> sq_matches v dst then (FormatMismatch, ab_clear dst, m, v, s)
      else
        let read = qc_read_position (sq_control s);
            write = qc_write_position (sq_control s);
            fill = write - read
        in if ucast (qv_capacity v) < fill then (CorruptControl, ab_clear dst, m, v, s)
           else if fill = 0
           then (Empty, ab_clear dst, m, v, set_control (\<lambda>c. c\<lparr>qc_underrun_blocks := qc_underrun_blocks c + 1\<rparr>) s)
           else
             let b = sq_slots s ! slot_index v read
             in if bk_connection_generation b \<noteq> qv_generation v
                then (StaleGeneration, ab_clear dst, m, v\<lparr>qv_has_expected_sequence := False\<rparr>, consume_invalid read s)
                else if bk_valid_frames b \<noteq> qv_frames v \<or> bk_reserved b \<noteq> [0, 0, 0]
                then (CorruptSlot, ab_clear dst, m, v\<lparr>qv_has_expected_sequence := False\<rparr>, consume_invalid read s)
                else
                  (Completed,
                   fold (load_channel (bk_samples b) (unat (qv_frames v))) [0..<unat (qv_channels v)] dst,
                   block_meta b,
                   v\<lparr>qv_expected_sequence := bk_sequence b + 1, qv_has_expected_sequence := True\<rparr>,
                   set_control (\<lambda>c. c\<lparr>qc_sequence_discontinuities :=
                       qc_sequence_discontinuities c +
                         (if qv_has_expected_sequence v \<and> bk_sequence b \<noteq> qv_expected_sequence v then 1 else 0),
                       qc_read_position := read + 1, qc_consumed_blocks := qc_consumed_blocks c + 1\<rparr>) s))"

section \<open>Copying a block\<close>

lemma copy_n_behind:
  "length xs = n \<Longrightarrow> copy_n src m n (xs @ drop n ys) = xs @ take m src @ drop (n + m) ys"
  by (simp add: copy_n_def add.commute)

lemma store_channels:
  assumes "ab_wf src" "ab_frames src = frames" "length samples = ab_channels src * frames" "k \<le> ab_channels src"
  shows "fold (store_channel src frames) [0..<k] samples =
    take (k * frames) (ab_samples src) @ drop (k * frames) samples"
  using assms(4)
proof (induction k)
  case (Suc k)
  let ?n = "k * frames"
  have len: "length (ab_samples src) = ab_channels src * frames" using assms(1,2) by (simp add: ab_wf_def)
  have fits: "?n + frames \<le> ab_channels src * frames" using row_fits [of k "ab_channels src" frames] Suc.prems by simp
  have "store_channel src frames k (take ?n (ab_samples src) @ drop ?n samples) =
      take ?n (ab_samples src) @ take frames (ab_channel src k) @ drop (?n + frames) samples"
    unfolding store_channel_def using fits len by (intro copy_n_behind) simp
  also have "take frames (ab_channel src k) = take frames (drop ?n (ab_samples src))"
    by (simp add: ab_channel_def assms(2))
  finally have "store_channel src frames k (take ?n (ab_samples src) @ drop ?n samples) =
      take (?n + frames) (ab_samples src) @ drop (?n + frames) samples"
    by (simp only: take_add append_assoc)
  then show ?case using Suc by (simp add: add.commute)
qed simp

lemma load_channels:
  assumes "ab_wf dst" "length samples = ab_channels dst * ab_frames dst" "k \<le> ab_channels dst"
  shows "fold (load_channel samples (ab_frames dst)) [0..<k] dst =
    dst\<lparr>ab_samples := take (k * ab_frames dst) samples @ drop (k * ab_frames dst) (ab_samples dst)\<rparr>"
  using assms(3)
proof (induction k)
  case (Suc k)
  let ?n = "k * ab_frames dst"
  have fits: "?n + ab_frames dst \<le> ab_channels dst * ab_frames dst"
    using row_fits [of k "ab_channels dst" "ab_frames dst"] Suc.prems by simp
  have "copy_n (drop ?n samples) (ab_frames dst) ?n (take ?n samples @ drop ?n (ab_samples dst)) =
      take ?n samples @ take (ab_frames dst) (drop ?n samples) @ drop (?n + ab_frames dst) (ab_samples dst)"
    using fits assms(2) by (intro copy_n_behind) simp
  also have "\<dots> = take (?n + ab_frames dst) samples @ drop (?n + ab_frames dst) (ab_samples dst)"
    by (simp add: take_add)
  finally show ?case using Suc by (simp add: load_channel_def add.commute)
qed simp

lemma store_block:
  assumes "ab_wf src" "length samples = ab_channels src * ab_frames src"
  shows "fold (store_channel src (ab_frames src)) [0..<ab_channels src] samples = ab_samples src"
  using store_channels [OF assms(1) refl assms(2) order_refl] assms by (simp add: ab_wf_def)

lemma load_block:
  assumes "ab_wf dst" "length samples = ab_channels dst * ab_frames dst"
  shows "fold (load_channel samples (ab_frames dst)) [0..<ab_channels dst] dst = dst\<lparr>ab_samples := samples\<rparr>"
  using load_channels [OF assms order_refl] assms by (simp add: ab_wf_def)

section \<open>The queue between the two sides\<close>

text \<open>
  The blocks queued are the slots from the read position to the write position. The capacity
  divides \<open>2 ^ 64\<close> (the program configures 8), so the slots keep their order when the 64-bit
  positions wrap.
\<close>

type_synonym queue_end = "queue_view \<times> shared_queue"

definition sq_fill :: "shared_queue \<Rightarrow> nat" where
  "sq_fill s = unat (qc_write_position (sq_control s) - qc_read_position (sq_control s))"

definition block_buffer :: "queue_view \<Rightarrow> shared_block \<Rightarrow> audio_buffer" where
  "block_buffer v b = \<lparr>ab_channels = unat (qv_channels v), ab_frames = unat (qv_frames v), ab_samples = bk_samples b\<rparr>"

definition sq_block :: "queue_end \<Rightarrow> nat \<Rightarrow> shared_block" where
  "sq_block e i = sq_slots (snd e) !
     ((unat (qc_read_position (sq_control (snd e))) + i) mod unat (qv_capacity (fst e)))"

definition sq_items :: "queue_end \<Rightarrow> (audio_buffer \<times> block_metadata) list" where
  "sq_items e = map (\<lambda>i. (block_buffer (fst e) (sq_block e i), block_meta (sq_block e i))) [0..<sq_fill (snd e)]"

definition block_ok :: "queue_view \<Rightarrow> shared_block \<Rightarrow> bool" where
  "block_ok v b \<longleftrightarrow> bk_connection_generation b = qv_generation v \<and> bk_valid_frames b = qv_frames v \<and>
     bk_reserved b = [0, 0, 0]"

definition sq_inv :: "queue_end \<Rightarrow> bool" where
  "sq_inv e \<longleftrightarrow> (case e of (v, s) \<Rightarrow>
     sq_ready s \<and> 0 < unat (qv_capacity v) \<and> unat (qv_capacity v) dvd 2 ^ 64 \<and>
     length (sq_slots s) = unat (qv_capacity v) \<and> sq_fill s \<le> unat (qv_capacity v) \<and>
     (\<forall>b \<in> set (sq_slots s). length (bk_samples b) = unat (qv_channels v) * unat (qv_frames v)) \<and>
     (\<forall>i < sq_fill s. block_ok v (sq_block e i)))"

lemma slot_index_nat: "slot_index v p = unat p mod unat (qv_capacity v)"
  by (simp add: slot_index_def unat_mod unat_ucast_up)

lemma unat_succ_mod: "n dvd 2 ^ 64 \<Longrightarrow> unat ((p :: u64) + 1) mod n = (unat p + 1) mod n"
  by (simp add: unat_word_ariths mod_mod_cancel)

lemma write_slot:
  assumes "n dvd 2 ^ 64"
  shows "unat (w :: u64) mod n = (unat r + unat (w - r)) mod n"
proof -
  have "unat w = (unat r + unat (w - r)) mod 2 ^ 64"
    using unat_word_ariths(1) [of r "w - r"] by simp
  with assms show ?thesis by (simp add: mod_mod_cancel)
qed

lemma fill_succ:
  assumes "unat ((w :: u64) - r) < 2 ^ 32"
  shows "unat (w + 1 - r) = unat (w - r) + 1"
proof -
  have "w + 1 - r = (w - r) + 1" by simp
  then show ?thesis using assms by (simp only: unat_word_ariths) simp
qed

lemma fill_pred: "(w :: u64) - r \<noteq> 0 \<Longrightarrow> unat (w - (r + 1)) = unat (w - r) - 1"
  using unat_minus_one [of "w - r"] by (simp add: diff_diff_add)

text \<open>The queue operations as the two sides use them: a push, and a pop into a fresh buffer.\<close>

definition sq_enq :: "audio_buffer \<times> block_metadata \<Rightarrow> queue_end \<Rightarrow> bool \<times> queue_end" where
  "sq_enq x e = (case sq_push (fst e) (fst x) (snd x) (snd e) of (st, s) \<Rightarrow> (st = Completed, (fst e, s)))"

definition sq_deq :: "queue_end \<Rightarrow> (audio_buffer \<times> block_metadata) option \<times> queue_end" where
  "sq_deq e =
     (let v = fst e;
          dst = \<lparr>ab_channels = unat (qv_channels v), ab_frames = unat (qv_frames v),
                 ab_samples = replicate (unat (qv_channels v) * unat (qv_frames v)) 0\<rparr>
      in case sq_pop v dst (block_meta (sq_block e 0)) (snd e) of
           (st, b, m, v', s') \<Rightarrow> (if st = Completed then Some (b, m) else None, (v', s')))"

definition sq_fits :: "queue_end \<Rightarrow> audio_buffer \<times> block_metadata \<Rightarrow> bool" where
  "sq_fits e x \<longleftrightarrow> ab_wf (fst x) \<and> sq_matches (fst e) (fst x) \<and>
     bm_connection_generation (snd x) = qv_generation (fst e)"

lemma set_control_simps [simp]:
  "sq_state (set_control f s) = sq_state s" "sq_slots (set_control f s) = sq_slots s"
  "sq_control (set_control f s) = f (sq_control s)" "sq_ready (set_control f s) = sq_ready s"
  by (simp_all add: set_control_def sq_ready_def)

lemma length_sq_items [simp]: "length (sq_items e) = sq_fill (snd e)"
  by (simp add: sq_items_def)

text \<open>The three outcomes of a push that fits.\<close>

lemma sq_push_fits:
  assumes "sq_inv (v, s)" "sq_fits (v, s) (b, m)"
  shows "sq_push v b m s =
    (if sq_fill s = unat (qv_capacity v)
     then (Full, set_control (\<lambda>c. c\<lparr>qc_overrun_blocks := qc_overrun_blocks c + 1\<rparr>) s)
     else (Completed, set_control (\<lambda>c. c\<lparr>qc_write_position := qc_write_position c + 1,
             qc_produced_blocks := qc_produced_blocks c + 1\<rparr>)
           (s\<lparr>sq_slots := (sq_slots s)[(unat (qc_read_position (sq_control s)) + sq_fill s) mod unat (qv_capacity v) :=
              \<lparr>bk_sequence = bm_sequence m, bk_connection_generation = qv_generation v,
               bk_sample_position = bm_sample_position m, bk_qpc_position = bm_qpc_position m,
               bk_valid_frames = qv_frames v, bk_flags = bm_flags m, bk_reserved = [0, 0, 0],
               bk_samples = ab_samples b\<rparr>]\<rparr>)))"
proof -
  have inv: "sq_ready s" "0 < unat (qv_capacity v)" "unat (qv_capacity v) dvd 2 ^ 64"
      "length (sq_slots s) = unat (qv_capacity v)" "sq_fill s \<le> unat (qv_capacity v)"
      "\<forall>b \<in> set (sq_slots s). length (bk_samples b) = unat (qv_channels v) * unat (qv_frames v)"
    using assms(1) by (simp_all add: sq_inv_def)
  have fits: "ab_wf b" "sq_matches v b" "ab_channels b = unat (qv_channels v)" "ab_frames b = unat (qv_frames v)"
    using assms(2) by (simp_all add: sq_fits_def sq_matches_def)
  have slot: "slot_index v (qc_write_position (sq_control s)) =
      (unat (qc_read_position (sq_control s)) + sq_fill s) mod unat (qv_capacity v)"
    using write_slot [OF inv(3)] by (simp add: slot_index_nat sq_fill_def)
  have "sq_slots s ! slot_index v (qc_write_position (sq_control s)) \<in> set (sq_slots s)"
    using inv(2,4) by (simp add: slot_index_nat)
  with inv(6) store_block [OF fits(1)] fits(3,4)
  have store: "fold (store_channel b (unat (qv_frames v))) [0..<unat (qv_channels v)]
      (bk_samples (sq_slots s ! slot_index v (qc_write_position (sq_control s)))) = ab_samples b" by metis
  have fill: "(ucast (qv_capacity v) < qc_write_position (sq_control s) - qc_read_position (sq_control s)) = False"
    "(qc_write_position (sq_control s) - qc_read_position (sq_control s) = ucast (qv_capacity v)) =
       (sq_fill s = unat (qv_capacity v))"
    using inv(5) by (simp_all add: word_less_nat_alt word_unat_eq_iff unat_ucast_up sq_fill_def)
  show ?thesis
    unfolding sq_push_def Let_def fill store using inv(1) fits(2) by (simp add: slot [symmetric])
qed

lemma sq_deq_inv:
  assumes "sq_inv (v, s)"
  shows "sq_deq (v, s) =
    (if sq_fill s = 0
     then (None, (v, set_control (\<lambda>c. c\<lparr>qc_underrun_blocks := qc_underrun_blocks c + 1\<rparr>) s))
     else (Some (block_buffer v (sq_block (v, s) 0), block_meta (sq_block (v, s) 0)),
           (v\<lparr>qv_expected_sequence := bk_sequence (sq_block (v, s) 0) + 1, qv_has_expected_sequence := True\<rparr>,
            set_control (\<lambda>c. c\<lparr>qc_sequence_discontinuities := qc_sequence_discontinuities c +
                (if qv_has_expected_sequence v \<and> bk_sequence (sq_block (v, s) 0) \<noteq> qv_expected_sequence v then 1 else 0),
              qc_read_position := qc_read_position c + 1, qc_consumed_blocks := qc_consumed_blocks c + 1\<rparr>) s)))"
proof -
  let ?dst = "\<lparr>ab_channels = unat (qv_channels v), ab_frames = unat (qv_frames v),
                 ab_samples = replicate (unat (qv_channels v) * unat (qv_frames v)) 0\<rparr>"
  let ?b = "sq_block (v, s) 0" and ?c = "sq_control s"
  have inv: "sq_ready s" "0 < unat (qv_capacity v)" "length (sq_slots s) = unat (qv_capacity v)"
      "sq_fill s \<le> unat (qv_capacity v)"
      "\<forall>b \<in> set (sq_slots s). length (bk_samples b) = unat (qv_channels v) * unat (qv_frames v)"
      "\<forall>i < sq_fill s. block_ok v (sq_block (v, s) i)"
    using assms by (simp_all add: sq_inv_def)
  have slot: "sq_slots s ! slot_index v (qc_read_position ?c) = ?b"
    by (simp add: slot_index_nat sq_block_def)
  have "?b \<in> set (sq_slots s)" using inv(2,3) by (simp add: sq_block_def)
  with inv(5) load_block [of ?dst "bk_samples ?b"]
  have load: "fold (load_channel (bk_samples ?b) (unat (qv_frames v))) [0..<unat (qv_channels v)] ?dst =
      block_buffer v ?b"
    by (simp add: ab_wf_def block_buffer_def)
  have fill: "(ucast (qv_capacity v) < qc_write_position ?c - qc_read_position ?c) = False"
    "(qc_write_position ?c - qc_read_position ?c = 0) = (sq_fill s = 0)"
    using inv(4) by (simp_all add: word_less_nat_alt unat_eq_0 unat_ucast_up sq_fill_def)
  have dst: "sq_matches v ?dst" by (simp add: sq_matches_def)
  show ?thesis
  proof (cases "sq_fill s = 0")
    case True
    then show ?thesis
      unfolding sq_deq_def sq_pop_def Let_def fst_conv snd_conv fill using inv(1) dst by simp
  next
    case False
    then have "block_ok v ?b" using inv(6) by simp
    then have "bk_connection_generation ?b = qv_generation v" "bk_valid_frames ?b = qv_frames v" "bk_reserved ?b = [0, 0, 0]"
      by (simp_all add: block_ok_def)
    with False show ?thesis
      unfolding sq_deq_def sq_pop_def Let_def fst_conv snd_conv fill slot load using inv(1) dst by simp
  qed
qed

text \<open>A push appends its block; a pop drops the oldest.\<close>

lemma sq_push_items:
  assumes "sq_inv (v, s)" "sq_fits (v, s) (b, m)" "sq_fill s \<noteq> unat (qv_capacity v)"
  shows "sq_items (v, snd (sq_push v b m s)) = sq_items (v, s) @ [(b, m)]" "sq_inv (v, snd (sq_push v b m s))"
proof -
  let ?r = "unat (qc_read_position (sq_control s))" and ?n = "unat (qv_capacity v)"
  let ?blk = "\<lparr>bk_sequence = bm_sequence m, bk_connection_generation = qv_generation v,
               bk_sample_position = bm_sample_position m, bk_qpc_position = bm_qpc_position m,
               bk_valid_frames = qv_frames v, bk_flags = bm_flags m, bk_reserved = [0, 0, 0],
               bk_samples = ab_samples b\<rparr>"
  have inv: "sq_ready s" "0 < ?n" "?n dvd 2 ^ 64" "length (sq_slots s) = ?n" "sq_fill s < ?n"
      "\<forall>b \<in> set (sq_slots s). length (bk_samples b) = unat (qv_channels v) * unat (qv_frames v)"
      "\<forall>i < sq_fill s. block_ok v (sq_block (v, s) i)"
    using assms(1,3) by (simp_all add: sq_inv_def)
  let ?t = "set_control (\<lambda>c. c\<lparr>qc_write_position := qc_write_position c + 1,
             qc_produced_blocks := qc_produced_blocks c + 1\<rparr>)
           (s\<lparr>sq_slots := (sq_slots s)[(?r + sq_fill s) mod ?n := ?blk]\<rparr>)"
  have t: "snd (sq_push v b m s) = ?t" using sq_push_fits [OF assms(1,2)] assms(3) by simp
  have lt: "?n < 2 ^ 32" using unsigned_less [of "qv_capacity v"] by simp
  have fill: "sq_fill ?t = sq_fill s + 1"
    using fill_succ [of "qc_write_position (sq_control s)" "qc_read_position (sq_control s)"] inv(5) lt
    by (simp add: sq_fill_def)
  have blk: "sq_block (v, ?t) i = (if i = sq_fill s then ?blk else sq_block (v, s) i)" if "i \<le> sq_fill s" for i
  proof -
    have "(?r + i) mod ?n = (?r + sq_fill s) mod ?n \<longleftrightarrow> i = sq_fill s"
      using ring_pos_inj [of "?r mod ?n" ?n i "sq_fill s"] that inv(2,5) by (simp add: mod_add_left_eq)
    then show ?thesis using inv(2,4) by (auto simp: sq_block_def)
  qed
  have buf: "block_buffer v ?blk = b" "block_meta ?blk = m"
    using assms(2) by (simp_all add: sq_fits_def sq_matches_def block_buffer_def block_meta_def)
  show "sq_items (v, snd (sq_push v b m s)) = sq_items (v, s) @ [(b, m)]"
    unfolding t by (simp add: sq_items_def fill blk buf)
  have "length (ab_samples b) = unat (qv_channels v) * unat (qv_frames v)"
    using assms(2) by (simp add: sq_fits_def sq_matches_def ab_wf_def)
  then have "\<forall>x \<in> set (sq_slots ?t). length (bk_samples x) = unat (qv_channels v) * unat (qv_frames v)"
    using inv(6) set_update_subset_insert [of "sq_slots s" "(?r + sq_fill s) mod ?n" ?blk] by auto
  moreover have "block_ok v (sq_block (v, ?t) i)" if "i < sq_fill ?t" for i
    using that inv(7) blk [of i] fill by (auto simp: block_ok_def)
  ultimately show "sq_inv (v, snd (sq_push v b m s))"
    unfolding t using inv fill by (simp add: sq_inv_def sq_ready_def)
qed

lemma sq_take_items:
  assumes "sq_inv (v, s)" "sq_fill s \<noteq> 0"
    and "t = set_control (\<lambda>c. c\<lparr>qc_sequence_discontinuities := d c, qc_read_position := qc_read_position c + 1,
           qc_consumed_blocks := qc_consumed_blocks c + 1\<rparr>) s"
  shows "sq_items (v\<lparr>qv_expected_sequence := x, qv_has_expected_sequence := y\<rparr>, t) = tl (sq_items (v, s))"
    and "sq_inv (v\<lparr>qv_expected_sequence := x, qv_has_expected_sequence := y\<rparr>, t)"
proof -
  let ?n = "unat (qv_capacity v)" and ?w = "v\<lparr>qv_expected_sequence := x, qv_has_expected_sequence := y\<rparr>"
  have inv: "0 < ?n" "?n dvd 2 ^ 64" using assms(1) by (simp_all add: sq_inv_def)
  have "qc_write_position (sq_control s) - qc_read_position (sq_control s) \<noteq> 0"
    using assms(2) by (auto simp: sq_fill_def)
  from fill_pred [OF this] have "sq_fill t = sq_fill s - 1" using assms(3) by (simp add: sq_fill_def)
  with assms(2) have fill: "sq_fill s = Suc (sq_fill t)" by simp
  have blk: "sq_block (?w, t) i = sq_block (v, s) (Suc i)" for i
    using unat_succ_mod [OF inv(2), of "qc_read_position (sq_control s)"] assms(3)
      mod_add_left_eq [of "unat (qc_read_position (sq_control s) + 1)" ?n i]
      mod_add_left_eq [of "unat (qc_read_position (sq_control s)) + 1" ?n i]
    by (simp add: sq_block_def)
  show "sq_items (?w, t) = tl (sq_items (v, s))"
    by (simp add: sq_items_def blk fill block_buffer_def upt_conv_Cons map_Suc_upt [symmetric] o_def del: upt_Suc map_Suc_upt)
  show "sq_inv (?w, t)"
    using assms(1,3) fill blk by (auto simp: sq_inv_def block_ok_def)
qed

lemma sq_counter [simp]:
  "sq_items (v, set_control (\<lambda>c. c\<lparr>qc_overrun_blocks := f c\<rparr>) s) = sq_items (v, s)"
  "sq_items (v, set_control (\<lambda>c. c\<lparr>qc_underrun_blocks := f c\<rparr>) s) = sq_items (v, s)"
  "sq_inv (v, set_control (\<lambda>c. c\<lparr>qc_overrun_blocks := f c\<rparr>) s) = sq_inv (v, s)"
  "sq_inv (v, set_control (\<lambda>c. c\<lparr>qc_underrun_blocks := f c\<rparr>) s) = sq_inv (v, s)"
  by (simp_all add: sq_items_def sq_inv_def sq_block_def sq_fill_def)

interpretation sq: bounded_fifo sq_items "\<lambda>e. unat (qv_capacity (fst e))" sq_enq sq_deq sq_inv sq_fits
proof unfold_locales
  fix e :: queue_end and x y :: "audio_buffer \<times> block_metadata"
  assume inv: "sq_inv e"
  obtain v s b m where e: "e = (v, s)" and x: "x = (b, m)" by (cases e, cases x) auto
  note inv' = inv [unfolded e]
  have le: "sq_fill s \<le> unat (qv_capacity v)" using inv' by (simp add: sq_inv_def)
  have hd: "sq_items (v, s) \<noteq> [] \<Longrightarrow> hd (sq_items (v, s)) = (block_buffer v (sq_block (v, s) 0), block_meta (sq_block (v, s) 0))"
    by (simp add: sq_items_def hd_map upt_conv_Cons)
  show "length (sq_items e) \<le> unat (qv_capacity (fst e))" using le e by simp
  show "sq_fits (snd (sq_enq x e)) y = sq_fits e y" "unat (qv_capacity (fst (snd (sq_enq x e)))) = unat (qv_capacity (fst e))"
    by (simp_all add: sq_enq_def sq_fits_def split: prod.split)
  show "sq_fits (snd (sq_deq e)) y = sq_fits e y" "unat (qv_capacity (fst (snd (sq_deq e)))) = unat (qv_capacity (fst e))"
    using sq_deq_inv [OF inv'] by (simp_all add: e sq_fits_def sq_matches_def)
  show "fst (sq_deq e) = (if sq_items e = [] then None else Some (hd (sq_items e)))"
    using sq_deq_inv [OF inv'] hd by (auto simp: e simp flip: length_0_conv)
  have nil: "sq_items (v, s) = [] \<longleftrightarrow> sq_fill s = 0" by (simp add: sq_items_def)
  show "sq_items (snd (sq_deq e)) = tl (sq_items e)" "sq_inv (snd (sq_deq e))"
    using sq_deq_inv [OF inv'] sq_take_items [OF inv' _ refl] inv' nil by (auto simp: e)
  assume fits: "sq_fits e x"
  note fits' = fits [unfolded e x]
  have full: "sq_push v b m s = (Full, set_control (\<lambda>c. c\<lparr>qc_overrun_blocks := qc_overrun_blocks c + 1\<rparr>) s)"
    if "sq_fill s = unat (qv_capacity v)" using sq_push_fits [OF inv' fits'] that by simp
  have room: "fst (sq_push v b m s) = Completed" if "sq_fill s \<noteq> unat (qv_capacity v)"
    using sq_push_fits [OF inv' fits'] that by simp
  show "fst (sq_enq x e) = (length (sq_items e) < unat (qv_capacity (fst e)))"
    "sq_items (snd (sq_enq x e)) = (if fst (sq_enq x e) then sq_items e @ [x] else sq_items e)"
    "sq_inv (snd (sq_enq x e))"
    using full room sq_push_items [OF inv' fits'] le inv'
    by (cases "sq_fill s = unat (qv_capacity v)"; cases "sq_push v b m s"; simp add: e x sq_enq_def)+
qed

section \<open>Properties\<close>


definition demo_shared_block :: "u32 \<Rightarrow> u64 \<Rightarrow> audio_buffer \<times> block_metadata" where
  "demo_shared_block sample sequence = (\<lparr>ab_channels = 1, ab_frames = 2, ab_samples = [sample, sample + 1]\<rparr>,
     \<lparr>bm_sequence = sequence, bm_connection_generation = 5, bm_sample_position = 2 * sequence,
      bm_qpc_position = 0, bm_flags = 0\<rparr>)"

definition demo_queue_end :: queue_end where
  "demo_queue_end =
     (\<lparr>qv_channels = 1, qv_frames = 2, qv_capacity = 2, qv_generation = 5, qv_expected_sequence = 0,
       qv_has_expected_sequence = False\<rparr>,
      \<lparr>sq_state = 2,
       sq_control = \<lparr>qc_write_position = - 1, qc_read_position = - 1, qc_produced_blocks = 0, qc_consumed_blocks = 0,
         qc_overrun_blocks = 0, qc_underrun_blocks = 0, qc_sequence_discontinuities = 0\<rparr>,
       sq_slots = replicate 2 \<lparr>bk_sequence = 0, bk_connection_generation = 0, bk_sample_position = 0,
         bk_qpc_position = 0, bk_valid_frames = 0, bk_flags = 0, bk_reserved = [], bk_samples = [0, 0]\<rparr>\<rparr>)"

lemma demo_queue_end_inv:
  "sq_inv demo_queue_end" "sq_items demo_queue_end = []" "sq_fits demo_queue_end (demo_shared_block a n)"
  by (simp_all add: demo_queue_end_def sq_inv_def sq_ready_def shared_state_code_def sq_fill_def sq_items_def
      sq_fits_def demo_shared_block_def ab_wf_def sq_matches_def)


text \<open>
  The consumer trusts nothing it finds: whatever the shared memory holds, a pop that does not
  complete leaves silence and the caller's metadata, one that completes comes from a slot of
  this connection's generation, with the agreed frame count, and in all cases the read
  position moves by at most one block and the slots are not touched.
\<close>

theorem shared_pop_guarded:
  "case sq_pop v dst m s of (status, dst', m', v', s') \<Rightarrow>
     (if status = Completed
      then m' = block_meta (sq_slots s ! slot_index v (qc_read_position (sq_control s))) \<and>
        block_ok v (sq_slots s ! slot_index v (qc_read_position (sq_control s))) \<and>
        sq_ready s \<and> sq_matches v dst \<and> sq_fill s \<noteq> 0 \<and> sq_fill s \<le> unat (qv_capacity v)
      else dst' = ab_clear dst \<and> m' = m) \<and>
     sq_slots s' = sq_slots s \<and> sq_state s' = sq_state s \<and>
     qc_write_position (sq_control s') = qc_write_position (sq_control s) \<and>
     qc_read_position (sq_control s') - qc_read_position (sq_control s) =
       (if status = Completed \<or> status = StaleGeneration \<or> status = CorruptSlot then 1 else 0)"
  by (simp add: sq_pop_def Let_def consume_invalid_def set_control_def block_ok_def sq_fill_def
      word_less_nat_alt unat_ucast_up unat_eq_0)

end
