(* ===== verification/RecoveryPolicy.thy ===== *)
theory RecoveryPolicy
  imports Prelude "HOL-Library.Sublist"
begin

text \<open>
  \<^verbatim>\<open>core/platform/wasapi_recovery_policy.{h,cpp}\<close>: when the WASAPI worker reopens its streams
  after a failure, and when it gives up. Times are the monotonic milliseconds the callers pass;
  the policy is a state machine over the calls they make.
\<close>

section \<open>Failure classes\<close>

datatype failure_class = Transient | DeviceInvalidated | Fatal | UnknownFailure

definition failure_is_recoverable :: "failure_class \<Rightarrow> bool" where
  "failure_is_recoverable c = (case c of Transient \<Rightarrow> True | DeviceInvalidated \<Rightarrow> True | Fatal \<Rightarrow> False
     | UnknownFailure \<Rightarrow> False)"

definition device_failure_codes :: "string list" where
  "device_failure_codes =
     [''wasapi_device_lookup_failed'', ''wasapi_default_endpoint_unavailable'',
      ''wasapi_pinned_endpoint_unavailable'', ''wasapi_probe_format_changed'',
      ''wasapi_probe_buffer_changed'']"

definition classify_failure_code :: "string \<Rightarrow> failure_class" where
  "classify_failure_code code =
     (if code \<in> set device_failure_codes then DeviceInvalidated
      else if prefix ''wasapi_'' code \<and> (suffix ''_failed'' code \<or> code = ''wasapi_event_wait_failed'')
      then Transient
      else if prefix ''graph_'' code \<or> prefix ''invalid_'' code \<or> prefix ''sample_conversion_'' code \<or>
        prefix ''capture_resampler_'' code \<or> code = ''stream_not_open'' \<or>
        code = ''stream_already_open'' \<or> code = ''wasapi_resample_mode_unsupported''
      then Fatal
      else UnknownFailure)"

section \<open>The policy\<close>

definition kMaxAttempts :: nat where
  "kMaxAttempts = 3"

definition kRecoveryDeadlineMs :: u64 where
  "kRecoveryDeadlineMs = 5000"

definition kDeviceRetryDelayMs :: u64 where
  "kDeviceRetryDelayMs = 5000"

definition kStabilityWindowMs :: u64 where
  "kStabilityWindowMs = 5000"

definition kAttemptDelaysMs :: "u64 list" where
  "kAttemptDelaysMs = [0, 500, 3000]"

definition saturating_add :: "u64 \<Rightarrow> u64 \<Rightarrow> u64" where
  "saturating_add v inc = (if - 1 - v < inc then - 1 else v + inc)"

datatype policy_state = WStopped | WOpening | WRunning | WQuiescing | WBackoff | WFaulted

record recovery_policy =
  rp_state :: policy_state
  rp_attempt_count :: nat
  rp_recovery_deadline :: u64
  rp_next_attempt :: u64
  rp_running_since :: u64
  rp_recovery_active :: bool
  rp_device_retry_active :: bool
  rp_recovery_pending :: bool
  rp_stop_requested :: bool

definition initial_policy :: recovery_policy where
  "initial_policy = \<lparr>rp_state = WStopped, rp_attempt_count = 0, rp_recovery_deadline = 0,
     rp_next_attempt = 0, rp_running_since = 0, rp_recovery_active = False,
     rp_device_retry_active = False, rp_recovery_pending = False, rp_stop_requested = False\<rparr>"

definition clear_recovery :: "recovery_policy \<Rightarrow> recovery_policy" where
  "clear_recovery p = p\<lparr>rp_attempt_count := 0, rp_recovery_deadline := 0, rp_next_attempt := 0,
     rp_recovery_active := False, rp_device_retry_active := False, rp_recovery_pending := False,
     rp_stop_requested := False\<rparr>"

definition policy_fault :: "recovery_policy \<Rightarrow> recovery_policy" where
  "policy_fault p = p\<lparr>rp_next_attempt := 0, rp_state := WFaulted\<rparr>"

definition reset_if_stable :: "u64 \<Rightarrow> recovery_policy \<Rightarrow> recovery_policy" where
  "reset_if_stable now p =
     (if rp_state p = WRunning \<and> rp_recovery_active p \<and> kStabilityWindowMs \<le> now - rp_running_since p
      then clear_recovery p else p)"

definition begin_recovery :: "u64 \<Rightarrow> recovery_policy \<Rightarrow> recovery_policy" where
  "begin_recovery now p =
     (if rp_recovery_active p then p
      else p\<lparr>rp_recovery_active := True, rp_recovery_deadline := saturating_add now kRecoveryDeadlineMs\<rparr>)"

definition schedule_recovery :: "u64 \<Rightarrow> recovery_policy \<Rightarrow> recovery_policy" where
  "schedule_recovery now p =
     (if rp_recovery_deadline p \<le> now \<or> kMaxAttempts \<le> rp_attempt_count p
      then if rp_device_retry_active p
           then p\<lparr>rp_next_attempt := saturating_add now kDeviceRetryDelayMs,
                  rp_recovery_deadline := saturating_add now kDeviceRetryDelayMs, rp_state := WBackoff\<rparr>
           else policy_fault p
      else p\<lparr>rp_attempt_count := rp_attempt_count p + 1,
             rp_next_attempt := saturating_add now (kAttemptDelaysMs ! rp_attempt_count p),
             rp_state := WBackoff\<rparr>)"

definition request_start :: "u64 \<Rightarrow> recovery_policy \<Rightarrow> recovery_policy" where
  "request_start now p =
     (if rp_state p \<noteq> WStopped then p
      else (clear_recovery p)\<lparr>rp_running_since := now, rp_state := WOpening\<rparr>)"

definition request_stop :: "recovery_policy \<Rightarrow> recovery_policy" where
  "request_stop p =
     (case rp_state p of
        WOpening \<Rightarrow> p\<lparr>rp_stop_requested := True, rp_recovery_pending := False, rp_state := WQuiescing\<rparr>
      | WRunning \<Rightarrow> p\<lparr>rp_stop_requested := True, rp_recovery_pending := False, rp_state := WQuiescing\<rparr>
      | WQuiescing \<Rightarrow> p\<lparr>rp_stop_requested := True, rp_recovery_pending := False\<rparr>
      | WBackoff \<Rightarrow> (clear_recovery p)\<lparr>rp_state := WStopped\<rparr>
      | WFaulted \<Rightarrow> (clear_recovery p)\<lparr>rp_state := WStopped\<rparr>
      | WStopped \<Rightarrow> p)"

definition on_quiesced :: "u64 \<Rightarrow> recovery_policy \<Rightarrow> recovery_policy" where
  "on_quiesced now p =
     (if rp_state p \<noteq> WQuiescing then p
      else if rp_stop_requested p then (clear_recovery p)\<lparr>rp_state := WStopped\<rparr>
      else if rp_recovery_pending p then schedule_recovery now (p\<lparr>rp_recovery_pending := False\<rparr>)
      else (clear_recovery p)\<lparr>rp_state := WStopped\<rparr>)"

definition on_open_succeeded :: "u64 \<Rightarrow> recovery_policy \<Rightarrow> recovery_policy" where
  "on_open_succeeded now p =
     (if rp_state p \<noteq> WOpening then p else p\<lparr>rp_running_since := now, rp_state := WRunning\<rparr>)"

definition on_failure :: "failure_class \<Rightarrow> u64 \<Rightarrow> recovery_policy \<Rightarrow> recovery_policy" where
  "on_failure c now p =
     (if rp_state p \<noteq> WOpening \<and> rp_state p \<noteq> WRunning then p
      else
        let stable = reset_if_stable now p
        in if \<not> failure_is_recoverable c then policy_fault stable
           else
             let noted = (if c = DeviceInvalidated then stable\<lparr>rp_device_retry_active := True\<rparr> else stable);
                 begun = begin_recovery now noted
             in if rp_state begun = WRunning
                then begun\<lparr>rp_recovery_pending := True, rp_state := WQuiescing\<rparr>
                else schedule_recovery now begun)"

definition policy_tick :: "u64 \<Rightarrow> recovery_policy \<Rightarrow> recovery_policy" where
  "policy_tick now p =
     (if rp_state p = WRunning then reset_if_stable now p
      else if rp_state p = WOpening \<and> rp_recovery_active p \<and> rp_recovery_deadline p \<le> now
      then if rp_device_retry_active p then schedule_recovery now p else policy_fault p
      else if rp_state p \<noteq> WBackoff then p
      else if rp_device_retry_active p \<and> rp_next_attempt p \<le> now then p\<lparr>rp_state := WOpening\<rparr>
      else if rp_recovery_deadline p \<le> now then policy_fault p
      else if rp_next_attempt p \<le> now then p\<lparr>rp_state := WOpening\<rparr>
      else p)"

section \<open>Events\<close>

datatype policy_event = StartRequested u64 | StopRequested | Quiesced u64 | OpenSucceeded u64
  | Failure failure_class u64 | Tick u64

fun policy_step :: "policy_event \<Rightarrow> recovery_policy \<Rightarrow> recovery_policy" where
  "policy_step (StartRequested t) p = request_start t p"
| "policy_step StopRequested p = request_stop p"
| "policy_step (Quiesced t) p = on_quiesced t p"
| "policy_step (OpenSucceeded t) p = on_open_succeeded t p"
| "policy_step (Failure c t) p = on_failure c t p"
| "policy_step (Tick t) p = policy_tick t p"

definition policy_run :: "policy_event list \<Rightarrow> recovery_policy \<Rightarrow> recovery_policy" where
  "policy_run es p = fold policy_step es p"

section \<open>The invariant\<close>

text \<open>
  The attempts stay within the budget; outside a recovery nothing of one is left; a pending
  recovery and a requested stop belong to a loop that is being quiesced; a backoff belongs to a
  recovery.
\<close>

definition policy_inv :: "recovery_policy \<Rightarrow> bool" where
  "policy_inv p \<longleftrightarrow> rp_attempt_count p \<le> kMaxAttempts \<and>
     (\<not> rp_recovery_active p \<longrightarrow> rp_attempt_count p = 0 \<and> rp_recovery_deadline p = 0 \<and>
        \<not> rp_recovery_pending p \<and> \<not> rp_device_retry_active p) \<and>
     (rp_state p = WStopped \<longrightarrow> \<not> rp_recovery_active p \<and> \<not> rp_stop_requested p) \<and>
     (rp_stop_requested p \<longrightarrow> rp_state p = WQuiescing) \<and>
     (rp_recovery_pending p \<longrightarrow> rp_state p = WQuiescing \<and> \<not> rp_stop_requested p) \<and>
     (rp_state p = WBackoff \<longrightarrow> rp_recovery_active p \<and> (rp_device_retry_active p \<or> 0 < rp_attempt_count p)) \<and>
     (rp_state p = WQuiescing \<longrightarrow> rp_stop_requested p \<or> rp_recovery_pending p)"

lemmas policy_ops = request_start_def request_stop_def on_quiesced_def on_open_succeeded_def
  on_failure_def policy_tick_def schedule_recovery_def begin_recovery_def reset_if_stable_def
  policy_fault_def clear_recovery_def

lemma initial_policy_inv: "policy_inv initial_policy"
  by (simp add: policy_inv_def initial_policy_def)

lemma policy_step_inv: "policy_inv p \<Longrightarrow> policy_inv (policy_step e p)"
  by (cases e; cases "rp_state p") (auto simp: policy_inv_def policy_ops Let_def kMaxAttempts_def)

lemma policy_run_inv: "policy_inv p \<Longrightarrow> policy_inv (policy_run es p)"
  by (induction es arbitrary: p) (simp_all add: policy_run_def policy_step_inv)

section \<open>Recovery episodes\<close>

text \<open>
  An episode: a run in which the recovery stays active, no device has been invalidated and no
  failure comes after a stable period, which would start a recovery of its own. Its reopens are
  the steps from the backoff to a new opening.
\<close>

definition after_stability :: "policy_event \<Rightarrow> recovery_policy \<Rightarrow> bool" where
  "after_stability e p = (case e of Failure c t \<Rightarrow>
     rp_state p = WRunning \<and> kStabilityWindowMs \<le> t - rp_running_since p | _ \<Rightarrow> False)"

fun in_episode :: "policy_event list \<Rightarrow> recovery_policy \<Rightarrow> bool" where
  "in_episode [] p \<longleftrightarrow> rp_recovery_active p \<and> \<not> rp_device_retry_active p"
| "in_episode (e # es) p \<longleftrightarrow> rp_recovery_active p \<and> \<not> rp_device_retry_active p \<and>
     \<not> after_stability e p \<and> in_episode es (policy_step e p)"

fun reopens :: "policy_event list \<Rightarrow> recovery_policy \<Rightarrow> nat" where
  "reopens [] p = 0"
| "reopens (e # es) p =
     (if rp_state p = WBackoff \<and> rp_state (policy_step e p) = WOpening then 1 else 0) + reopens es (policy_step e p)"

text \<open>The reopens a policy can still make.\<close>

definition reopens_left :: "recovery_policy \<Rightarrow> nat" where
  "reopens_left p = (kMaxAttempts - rp_attempt_count p) + (if rp_state p = WBackoff then 1 else 0)"

lemma in_episode_start: "in_episode es p \<Longrightarrow> rp_recovery_active p \<and> \<not> rp_device_retry_active p"
  by (cases es) simp_all

definition episode_le :: "recovery_policy \<Rightarrow> recovery_policy \<Rightarrow> bool" where
  "episode_le p q \<longleftrightarrow> (rp_recovery_active q \<longrightarrow> \<not> rp_device_retry_active q \<longrightarrow>
     (if rp_state p = WBackoff \<and> rp_state q = WOpening then 1 else 0) + reopens_left q \<le> reopens_left p \<and>
     rp_recovery_deadline q = rp_recovery_deadline p)"

lemma policy_inv_facts:
  assumes "policy_inv p"
  shows "rp_attempt_count p \<le> 3"
    and "rp_state p = WBackoff \<Longrightarrow> \<not> rp_device_retry_active p \<Longrightarrow> 0 < rp_attempt_count p"
    and "rp_stop_requested p \<Longrightarrow> rp_state p = WQuiescing"
  using assms unfolding policy_inv_def kMaxAttempts_def by blast+

lemma episode_ops:
  assumes "policy_inv p" "rp_recovery_active p" "\<not> rp_device_retry_active p"
  shows "episode_le p (request_start t p)" "episode_le p (request_stop p)" "episode_le p (on_open_succeeded t p)"
    and "episode_le p (on_quiesced t p)" "episode_le p (policy_tick t p)"
    and "\<not> after_stability (Failure c t) p \<Longrightarrow> episode_le p (on_failure c t p)"
proof -
  note p = assms(2,3) policy_inv_facts(1,2) [OF assms(1)]
  note d = episode_le_def reopens_left_def kMaxAttempts_def
  show "episode_le p (request_start t p)" "episode_le p (request_stop p)" "episode_le p (on_open_succeeded t p)"
    using p by (cases "rp_state p"; simp add: d request_start_def request_stop_def on_open_succeeded_def clear_recovery_def)+
  show "episode_le p (on_quiesced t p)"
    using p by (cases "rp_state p"; simp add: d on_quiesced_def schedule_recovery_def policy_fault_def clear_recovery_def)
  show "episode_le p (policy_tick t p)"
    using p by (cases "rp_state p"; auto simp: d policy_tick_def policy_fault_def reset_if_stable_def clear_recovery_def)
  show "episode_le p (on_failure c t p)" if "\<not> after_stability (Failure c t) p"
    using p that
    by (cases "rp_state p"; simp add: d on_failure_def schedule_recovery_def policy_fault_def begin_recovery_def
        reset_if_stable_def after_stability_def Let_def)
qed

lemma episode_step:
  assumes "policy_inv p" "rp_recovery_active p" "\<not> rp_device_retry_active p" "\<not> after_stability e p"
  shows "episode_le p (policy_step e p)"
  using assms(4) by (cases e) (simp_all add: episode_ops [OF assms(1-3)])

lemma policy_run_Cons: "policy_run (e # es) p = policy_run es (policy_step e p)"
  by (simp add: policy_run_def)

lemma episode_run:
  "policy_inv p \<Longrightarrow> in_episode es p \<Longrightarrow> reopens es p + reopens_left (policy_run es p) \<le> reopens_left p \<and>
     rp_recovery_deadline (policy_run es p) = rp_recovery_deadline p \<and>
     rp_recovery_active (policy_run es p) \<and> \<not> rp_device_retry_active (policy_run es p)"
proof (induction es arbitrary: p)
  case (Cons e es)
  let ?q = "policy_step e p"
  have q: "policy_inv ?q" "in_episode es ?q" using Cons.prems by (simp_all add: policy_step_inv)
  have "episode_le p ?q" using Cons.prems by (intro episode_step) simp_all
  with in_episode_start [OF q(2)]
  have step: "(if rp_state p = WBackoff \<and> rp_state ?q = WOpening then 1 else 0) + reopens_left ?q \<le> reopens_left p"
    "rp_recovery_deadline ?q = rp_recovery_deadline p" by (simp_all add: episode_le_def)
  note IH = Cons.IH [OF q]
  have "reopens (e # es) p + reopens_left (policy_run es ?q) \<le>
      (if rp_state p = WBackoff \<and> rp_state ?q = WOpening then 1 else 0) + reopens_left ?q"
    using conjunct1 [OF IH] by simp
  from le_trans [OF this step(1)] IH step(2) show ?case unfolding policy_run_Cons by presburger
qed (simp add: policy_run_def)

lemma reopens_left_bound: "policy_inv p \<Longrightarrow> \<not> rp_device_retry_active p \<Longrightarrow> reopens_left p \<le> kMaxAttempts"
  using policy_inv_facts(1,2) [of p]
  by (cases "rp_state p = WBackoff") (auto simp: reopens_left_def kMaxAttempts_def)

section \<open>Properties\<close>


definition demo_episode :: "policy_event list" where
  "demo_episode = [Quiesced 100, Tick 100, Failure Transient 150, Tick 650, Failure Transient 700, Tick 3700]"

definition demo_policy :: recovery_policy where
  "demo_policy = policy_run [StartRequested 0, OpenSucceeded 0, Failure Transient 100] initial_policy"

lemma demo_policy_episode:
  "policy_inv demo_policy" "in_episode demo_episode demo_policy" "rp_recovery_deadline demo_policy = 5100"
  "reopens demo_episode demo_policy = 3"
proof -
  show "policy_inv demo_policy" unfolding demo_policy_def by (rule policy_run_inv [OF initial_policy_inv])
  show "in_episode demo_episode demo_policy" "rp_recovery_deadline demo_policy = 5100"
    "reopens demo_episode demo_policy = 3"
    by (simp_all add: demo_policy_def demo_episode_def after_stability_def policy_run_def initial_policy_def policy_ops
        failure_is_recoverable_def saturating_add_def kRecoveryDeadlineMs_def kMaxAttempts_def kAttemptDelaysMs_def
        kStabilityWindowMs_def)
qed


text \<open>
  When an invalidated device is given up: once a device was invalidated, a policy that has not
  faulted faults in exactly two cases, an unrecoverable failure of the open or running streams,
  and a tick that comes while a backoff has passed the deadline but not yet its next attempt.
\<close>

theorem device_retry_faults_iff:
  assumes "rp_device_retry_active p" "rp_state p \<noteq> WFaulted"
  shows "rp_state (policy_step e p) = WFaulted \<longleftrightarrow>
    (\<exists>c t. e = Failure c t \<and> \<not> failure_is_recoverable c \<and> (rp_state p = WOpening \<or> rp_state p = WRunning)) \<or>
    (\<exists>t. e = Tick t \<and> rp_state p = WBackoff \<and> rp_recovery_deadline p \<le> t \<and> t < rp_next_attempt p)"
  using assms
  by (cases e; cases "rp_state p") (auto simp: policy_ops Let_def not_le)

definition demo_device_policy :: "u64 \<Rightarrow> recovery_policy" where
  "demo_device_policy t = policy_run
     [StartRequested 0, Failure DeviceInvalidated 0, Tick 0, Failure DeviceInvalidated 1500, Tick 2000,
      Failure DeviceInvalidated t] initial_policy"

theorem device_retry_faults_iff_witness:
  "rp_state (policy_step (Tick 4999) (demo_device_policy 2500)) \<noteq> WFaulted"
proof -
  have "rp_device_retry_active (demo_device_policy 2500)" "rp_state (demo_device_policy 2500) \<noteq> WFaulted"
    "rp_recovery_deadline (demo_device_policy 2500) = 5000"
    by (simp_all add: demo_device_policy_def policy_run_def initial_policy_def policy_ops
        failure_is_recoverable_def saturating_add_def kRecoveryDeadlineMs_def kMaxAttempts_def kAttemptDelaysMs_def
        kStabilityWindowMs_def)
  then show ?thesis using device_retry_faults_iff [of "demo_device_policy 2500" "Tick 4999"] by simp
qed

text \<open>
  A returning device is abandoned: a device that fails at 0, 1500 and 2500 ms, each time with a
  recoverable failure, leaves its third attempt waiting past the deadline of 5000 ms, and the
  tick at 5000 ms faults the policy for good, although an invalidated device is to be retried.
\<close>

theorem device_recovery_abandoned:
  "rp_device_retry_active (demo_device_policy 2500) \<and> rp_next_attempt (demo_device_policy 2500) = 5500 \<and>
   rp_state (policy_step (Tick 5000) (demo_device_policy 2500)) = WFaulted \<and>
   rp_state (policy_run [Tick 5000, Tick 10000, OpenSucceeded 10000, StartRequested 10000] (demo_device_policy 2500)) = WFaulted"
  by (simp add: demo_device_policy_def policy_run_def initial_policy_def policy_ops
      failure_is_recoverable_def saturating_add_def kRecoveryDeadlineMs_def kMaxAttempts_def kAttemptDelaysMs_def
      kStabilityWindowMs_def kDeviceRetryDelayMs_def)

text \<open>
  A stop always succeeds: after any history, a stop request followed by the end of the running
  loop leaves the policy stopped, with nothing of a recovery left, ready to start again.
\<close>

theorem stop_always_stops:
  "let p = policy_run (es @ [StopRequested, Quiesced now]) initial_policy
   in rp_state p = WStopped \<and> rp_attempt_count p = 0 \<and> \<not> rp_recovery_active p \<and> \<not> rp_stop_requested p \<and>
     rp_state (request_start later p) = WOpening"
proof -
  define q where "q = policy_run es initial_policy"
  have inv: "policy_inv q" unfolding q_def by (rule policy_run_inv [OF initial_policy_inv])
  have run: "policy_run (es @ [StopRequested, Quiesced now]) initial_policy = on_quiesced now (request_stop q)"
    by (simp add: policy_run_def q_def)
  show ?thesis
    unfolding run using inv
    by (cases "rp_state q")
      (simp_all add: policy_inv_def on_quiesced_def request_stop_def clear_recovery_def request_start_def)
qed

end
