(* ===== verification/ObjectNames.thy ===== *)
theory ObjectNames
  imports WireFormat
begin

text \<open>
  \<^verbatim>\<open>core/platform/windows_virtual_asio_object_names.{h,cpp}\<close>: the names of the kernel objects
  (one mapping, four events) that a connection of the virtual ASIO driver shares with the
  engine. A \<^verbatim>\<open>std::wstring\<close> is a list of 16-bit units, as on Windows.
\<close>

type_synonym wstring = "u16 list"

section \<open>Tokens\<close>

definition kWindowsVirtualAsioMaxObjectTokenBytes :: nat where
  "kWindowsVirtualAsioMaxObjectTokenBytes = 64"

record object_names =
  on_mapping :: wstring
  on_input_event :: wstring
  on_output_event :: wstring
  on_shutdown_event :: wstring
  on_client_disconnect_event :: wstring

definition nam_invalid_virtual_asio_connection_generation :: sar_error where
  "nam_invalid_virtual_asio_connection_generation = mk_error ''invalid_virtual_asio_connection_generation''
     ''Virtual ASIO connection generation must be non-zero.''"

definition is_object_token_character :: "char \<Rightarrow> bool" where
  "is_object_token_character c \<longleftrightarrow>
     (byte_of CHR ''a'' \<le> byte_of c \<and> byte_of c \<le> byte_of CHR ''z'') \<or>
     (byte_of CHR ''0'' \<le> byte_of c \<and> byte_of c \<le> byte_of CHR ''9'') \<or>
     byte_of c = byte_of CHR ''-'' \<or> byte_of c = byte_of CHR ''_''"

text \<open>Every branch pushes at most one error; the message quotes two characters.\<close>

definition validate_token :: "string \<Rightarrow> string \<Rightarrow> sar_error list" where
  "validate_token token token_kind =
     (if token = [] then
        [mk_error (''empty_virtual_asio_'' @ token_kind @ ''_token'')
           ''Virtual ASIO object tokens must not be empty.'']
      else if length token > kWindowsVirtualAsioMaxObjectTokenBytes then
        [mk_error (''virtual_asio_'' @ token_kind @ ''_token_too_long'')
           ''Virtual ASIO object token exceeds the bounded naming limit.'']
      else if \<exists>c \<in> set token. \<not> is_object_token_character c then
        [mk_error (''invalid_virtual_asio_'' @ token_kind @ ''_token'')
           (''Virtual ASIO object tokens require lowercase ASCII letters, digits, '' @
            [CHR 0x27, CHR ''-'', CHR 0x27] @ '' or '' @ [CHR 0x27, CHR ''_'', CHR 0x27, CHR ''.''])]
      else [])"

section \<open>Names\<close>

definition widen_ascii :: "string \<Rightarrow> wstring" where
  "widen_ascii s = map (\<lambda>c. ucast (byte_of c)) s"

definition hex_digits :: wstring where
  "hex_digits = widen_ascii ''0123456789abcdef''"

text \<open>The loop of \<^verbatim>\<open>generation_hex\<close>, from the last digit to the first.\<close>

primrec hex_loop :: "nat \<Rightarrow> u64 \<Rightarrow> wstring \<Rightarrow> wstring" where
  "hex_loop 0 generation result = result"
| "hex_loop (Suc i) generation result =
     hex_loop i (drop_bit 4 generation) (result[i := hex_digits ! unat (generation AND 0x0F)])"

definition generation_hex :: "u64 \<Rightarrow> wstring" where
  "generation_hex generation = hex_loop 16 generation (replicate 16 (ucast (byte_of CHR ''0'')))"

definition kObjectNamePrefix :: wstring where
  "kObjectNamePrefix = widen_ascii (''Local'' @ [CHR 0x5C] @ ''SAR.VirtualASIO.v1.endpoint.'')"

definition make_base_name :: "string \<Rightarrow> string \<Rightarrow> u64 \<Rightarrow> wstring" where
  "make_base_name endpoint_token client_token generation =
     kObjectNamePrefix @ widen_ascii endpoint_token @ widen_ascii ''.client.'' @
     widen_ascii client_token @ widen_ascii ''.generation.'' @ generation_hex generation"

definition make_object_names :: "string \<Rightarrow> string \<Rightarrow> u64 \<Rightarrow> sar_error list + object_names" where
  "make_object_names endpoint_token client_token generation =
     (let errors = validate_token endpoint_token ''endpoint'' @ validate_token client_token ''client'' @
            push_if (generation = 0) nam_invalid_virtual_asio_connection_generation
      in if errors \<noteq> [] then Inl errors
         else
           let base = make_base_name endpoint_token client_token generation
           in Inr \<lparr>on_mapping = base @ widen_ascii ''.mapping'',
                   on_input_event = base @ widen_ascii ''.input-event'',
                   on_output_event = base @ widen_ascii ''.output-event'',
                   on_shutdown_event = base @ widen_ascii ''.shutdown-event'',
                   on_client_disconnect_event = base @ widen_ascii ''.client-disconnect-event''\<rparr>)"

section \<open>Lemmas\<close>

definition wide_dot :: u16 where "wide_dot = ucast (byte_of CHR ''.'')"

definition token_ok :: "string \<Rightarrow> bool" where
  "token_ok t \<longleftrightarrow> t \<noteq> [] \<and> length t \<le> kWindowsVirtualAsioMaxObjectTokenBytes \<and>
     (\<forall>c \<in> set t. is_object_token_character c)"

definition object_name_list :: "object_names \<Rightarrow> wstring list" where
  "object_name_list n = [on_mapping n, on_input_event n, on_output_event n, on_shutdown_event n,
     on_client_disconnect_event n]"

lemma validate_token_ok: "validate_token t k = [] \<longleftrightarrow> token_ok t"
  by (auto simp: validate_token_def token_ok_def)

lemma make_object_names_ok:
  "(\<exists>n. make_object_names e c g = Inr n) \<longleftrightarrow> token_ok e \<and> token_ok c \<and> g \<noteq> 0"
  by (auto simp: make_object_names_def Let_def validate_token_ok)

lemma widen_ascii_append: "widen_ascii (s @ t) = widen_ascii s @ widen_ascii t"
  by (simp add: widen_ascii_def)

lemma ucast_up_down [simp]: "(ucast (ucast b :: u16) :: byte) = b"
  by (rule bit_word_eqI) (simp add: bit_ucast_iff)

lemma widen_ascii_inject [simp]: "widen_ascii s = widen_ascii t \<longleftrightarrow> s = t"
proof -
  have "inj (\<lambda>c. ucast (byte_of c) :: u16)"
    by (rule inj_on_inverseI [of _ "\<lambda>w. char_of_byte (ucast w)"]) simp
  then show ?thesis by (simp add: widen_ascii_def inj_map_eq_map)
qed

lemma length_hex_loop [simp]: "length (hex_loop n g r) = length r"
  by (induction n arbitrary: g r) simp_all

lemma hex_loop_beyond: "n \<le> i \<Longrightarrow> hex_loop n g r ! i = r ! i"
  by (induction n arbitrary: g r) simp_all

lemma hex_loop_nth:
  "i < n \<Longrightarrow> n \<le> length r \<Longrightarrow>
     hex_loop n g r ! i = hex_digits ! unat (drop_bit (4 * (n - 1 - i)) g AND 0x0F)"
proof (induction n arbitrary: g r)
  case (Suc n)
  show ?case
  proof (cases "i = n")
    case True
    then show ?thesis using Suc.prems by (simp add: hex_loop_beyond)
  next
    case False
    then have "4 * (Suc n - 1 - i) = 4 * (n - 1 - i) + 4" using Suc.prems by simp
    then show ?thesis
      using False Suc.prems Suc.IH [of "r[n := hex_digits ! unat (g AND 15)]" "drop_bit 4 g"] by simp
  qed
qed simp

lemma unat_nibble: "unat (w AND 0x0F :: u64) < 16"
proof -
  have "w AND 0x0F = take_bit 4 w" by (simp add: take_bit_eq_mask mask_eq_exp_minus_1)
  then show ?thesis by (simp add: unsigned_take_bit_eq take_bit_nat_less_exp [of 4, simplified])
qed

lemma hex_digit_inject:
  assumes "i < 16" "j < 16"
  shows "hex_digits ! i = hex_digits ! j \<longleftrightarrow> i = j"
proof -
  have "distinct hex_digits" "length hex_digits = 16" by code_simp+
  with assms show ?thesis by (simp add: nth_eq_iff_index_eq)
qed

lemma generation_hex_inject [simp]: "generation_hex g = generation_hex h \<longleftrightarrow> g = h"
proof
  assume eq: "generation_hex g = generation_hex h"
  have nibble: "drop_bit (4 * k) g AND 0x0F = drop_bit (4 * k) h AND 0x0F" if "k < 16" for k
  proof -
    have "generation_hex g ! (15 - k) = generation_hex h ! (15 - k)" using eq by simp
    then have "hex_digits ! unat (drop_bit (4 * k) g AND 0x0F) = hex_digits ! unat (drop_bit (4 * k) h AND 0x0F)"
      using that by (simp add: generation_hex_def hex_loop_nth)
    then have "unat (drop_bit (4 * k) g AND 0x0F) = unat (drop_bit (4 * k) h AND 0x0F)"
      by (simp only: hex_digit_inject [OF unat_nibble unat_nibble])
    then show ?thesis by (simp only: word_unat_eq_iff)
  qed
  show "g = h"
  proof (rule bit_word_eqI)
    fix n
    assume "n < LENGTH(64)"
    then have "bit (drop_bit (4 * (n div 4)) g AND 0x0F) (n mod 4) =
        bit (drop_bit (4 * (n div 4)) h AND 0x0F) (n mod 4)"
      using nibble [of "n div 4"] by simp
    moreover have "bit (0x0F :: u64) (n mod 4)"
      using bit_mask_iff [where 'a = u64, of 4 "n mod 4"] by (simp add: mask_eq_exp_minus_1)
    ultimately show "bit g n = bit h n" by (simp add: bit_and_iff bit_drop_bit_eq)
  qed
qed simp

lemma token_no_dot: "token_ok t \<Longrightarrow> wide_dot \<notin> set (widen_ascii t)"
proof
  assume "token_ok t" "wide_dot \<in> set (widen_ascii t)"
  then obtain c where c: "is_object_token_character c" "(ucast (byte_of c) :: u16) = ucast (byte_of CHR ''.'')"
    by (auto simp: token_ok_def widen_ascii_def wide_dot_def)
  from arg_cong [OF c(2), of "ucast :: u16 \<Rightarrow> byte"] have "byte_of c = byte_of CHR ''.''" by (simp only: ucast_up_down)
  with c(1) show False
    by (simp only: is_object_token_character_def) (simp add: byte_of_def)
qed

lemma generation_hex_digits: "set (generation_hex g) \<subseteq> set hex_digits"
proof
  fix x
  assume "x \<in> set (generation_hex g)"
  then obtain i where i: "i < 16" "x = generation_hex g ! i"
    by (auto simp: in_set_conv_nth generation_hex_def)
  have "length hex_digits = 16" by code_simp
  with i show "x \<in> set hex_digits"
    using unat_nibble [of "drop_bit (4 * (15 - i)) g"] by (simp add: generation_hex_def hex_loop_nth)
qed

lemma generation_hex_no_dot: "wide_dot \<notin> set (generation_hex g)"
proof -
  have "wide_dot \<notin> set hex_digits" by code_simp
  with generation_hex_digits show ?thesis by blast
qed

definition object_suffixes :: "wstring list" where
  "object_suffixes = map widen_ascii [''.mapping'', ''.input-event'', ''.output-event'', ''.shutdown-event'',
     ''.client-disconnect-event'']"

lemma object_names_of:
  "make_object_names e c g = Inr n \<Longrightarrow>
     token_ok e \<and> token_ok c \<and> g \<noteq> 0 \<and> object_name_list n = map ((@) (make_base_name e c g)) object_suffixes"
  by (auto simp: make_object_names_def Let_def validate_token_ok object_name_list_def object_suffixes_def
      split: if_splits)

text \<open>The base name determines the connection, and a dot separates it from the suffix.\<close>

lemma suffix_dot: "s \<in> set object_suffixes \<Longrightarrow> \<exists>t. s = wide_dot # t"
  by (auto simp: object_suffixes_def widen_ascii_def wide_dot_def)

lemma distinct_suffixes: "distinct object_suffixes"
  by (simp add: object_suffixes_def distinct_map)

lemma base_name_split:
  assumes "token_ok e" "token_ok c" "token_ok e'" "token_ok c'"
    and "s \<in> set object_suffixes" "s' \<in> set object_suffixes"
  shows "make_base_name e c g @ s = make_base_name e' c' g' @ s' \<longleftrightarrow>
    e = e' \<and> c = c' \<and> g = g' \<and> s = s'"
proof -
  obtain t t' where t: "s = wide_dot # t" "s' = wide_dot # t'" using assms(5,6) suffix_dot by blast
  have client: "widen_ascii ''.client.'' = wide_dot # widen_ascii ''client.''"
    and generation: "widen_ascii ''.generation.'' = wide_dot # widen_ascii ''generation.''"
    by (simp_all add: widen_ascii_def wide_dot_def)
  show ?thesis
    unfolding make_base_name_def t client generation append.assoc append_Cons same_append_eq
      split_at_first [OF token_no_dot [OF assms(1)] token_no_dot [OF assms(3)]]
      split_at_first [OF token_no_dot [OF assms(2)] token_no_dot [OF assms(4)]]
      split_at_first [OF generation_hex_no_dot generation_hex_no_dot]
    by auto
qed

section \<open>Properties\<close>

text \<open>
  Connections do not share kernel objects: names are made exactly for two valid tokens and a
  non-zero generation; the five names of a connection are distinct, and two connections have a
  name in common only if they agree in endpoint, client and generation.
\<close>

theorem object_names_separate:
  assumes "make_object_names e c g = Inr n" "make_object_names e' c' g' = Inr n'"
  shows "distinct (object_name_list n) \<and>
    (set (object_name_list n) \<inter> set (object_name_list n') \<noteq> {} \<longleftrightarrow> e = e' \<and> c = c' \<and> g = g')"
proof -
  let ?b = "make_base_name e c g" and ?b' = "make_base_name e' c' g'"
  have ok: "token_ok e" "token_ok c" "token_ok e'" "token_ok c'"
    and n: "object_name_list n = map ((@) ?b) object_suffixes" "object_name_list n' = map ((@) ?b') object_suffixes"
    using object_names_of [OF assms(1)] object_names_of [OF assms(2)] by blast+
  have 1: "distinct (object_name_list n)"
    using distinct_suffixes by (simp add: n distinct_map inj_on_def)
  have same: "?b @ s = ?b' @ s' \<longleftrightarrow> (e = e' \<and> c = c' \<and> g = g') \<and> s = s'"
    if "s \<in> set object_suffixes" "s' \<in> set object_suffixes" for s s'
    using base_name_split [OF ok that] by simp
  have ne: "object_suffixes \<noteq> []" by (simp add: object_suffixes_def)
  have "set (object_name_list n) \<inter> set (object_name_list n') \<noteq> {} \<longleftrightarrow>
      (\<exists>s \<in> set object_suffixes. \<exists>s' \<in> set object_suffixes. ?b @ s = ?b' @ s')"
    by (auto simp: n)
  also have "\<dots> \<longleftrightarrow> e = e' \<and> c = c' \<and> g = g'"
    using same ne by (metis last_in_set)
  finally show ?thesis using 1 by blast
qed

theorem object_names_separate_witness:
  "\<exists>n n'. make_object_names ''main'' ''daw_1'' 7 = Inr n \<and> make_object_names ''main'' ''daw_1'' 8 = Inr n' \<and>
     set (object_name_list n) \<inter> set (object_name_list n') = {}"
proof -
  have ok: "token_ok ''main''" "token_ok ''daw_1''" by code_simp+
  obtain n n' where "make_object_names ''main'' ''daw_1'' 7 = Inr n" "make_object_names ''main'' ''daw_1'' 8 = Inr n'"
    using make_object_names_ok [of "''main''" "''daw_1''" 7] make_object_names_ok [of "''main''" "''daw_1''" 8] ok
    by auto
  with object_names_separate [of "''main''" "''daw_1''" 7 n "''main''" "''daw_1''" 8 n'] show ?thesis by auto
qed

end
