(* ===== verification/BrokerProtocol.thy ===== *)
theory BrokerProtocol
  imports ObjectNames AsioRegistry
begin

text \<open>
  \<^verbatim>\<open>core/control/virtual_asio_broker_protocol.{h,cpp}\<close>: the messages between the virtual ASIO
  driver inside a host and the engine. The file has a \<^verbatim>\<open>Writer\<close> and a \<^verbatim>\<open>Reader\<close> of its own, with
  a request id in the header, 16-bit string lengths and other limits than the control protocol.
  A failed reader goes on reading, but its first error stays and is the one reported.
\<close>

section \<open>Limits and errors\<close>

definition kVirtualAsioBrokerVersion :: u16 where "kVirtualAsioBrokerVersion = 2"
definition kVirtualAsioBrokerHeaderBytes :: nat where "kVirtualAsioBrokerHeaderBytes = 20"
definition kVirtualAsioBrokerMaxMessageBytes :: nat where "kVirtualAsioBrokerMaxMessageBytes = 16 * 1024"
definition kVirtualAsioBrokerMaxStringBytes :: nat where "kVirtualAsioBrokerMaxStringBytes = 512"
definition kBrokerMagic :: u32 where "kBrokerMagic = 0x42524153"
definition kConnectRequest :: u16 where "kConnectRequest = 1"
definition kDisconnectRequest :: u16 where "kDisconnectRequest = 2"
definition kConnectResponse :: u16 where "kConnectResponse = 3"
definition kDisconnectResponse :: u16 where "kDisconnectResponse = 4"
definition kFormatRequest :: u16 where "kFormatRequest = 5"
definition kFormatResponse :: u16 where "kFormatResponse = 6"

datatype broker_error_code =
  BrokerMessageTooLarge | BrokerTruncated | BrokerInvalidMagic | BrokerUnsupportedVersion
| BrokerUnexpectedMessageType | BrokerInvalidLength | BrokerStringTooLong | BrokerInvalidBoolean
| BrokerTrailingBytes

text \<open>\<open>None\<close> is \<^verbatim>\<open>VirtualAsioBrokerErrorCode::None\<close>.\<close>

type_synonym broker_error = "(broker_error_code \<times> nat) option"

section \<open>Messages\<close>

record connect_request =
  cq_request_id :: u64
  cq_client_id :: string
  cq_format :: asio_format
  cq_queue_capacity_blocks :: u32
  cq_client_nonce_low :: u64
  cq_client_nonce_high :: u64

record disconnect_request =
  dq_request_id :: u64
  dq_client_id :: string
  dq_connection_generation :: u64

record format_request =
  fq_request_id :: u64

record connect_response =
  cs_request_id :: u64
  cs_accepted :: bool
  cs_connection_generation :: u64
  cs_names :: object_names
  cs_server_nonce_low :: u64
  cs_server_nonce_high :: u64
  cs_error_code :: string
  cs_error_message :: string

record disconnect_response =
  ds_request_id :: u64
  ds_accepted :: bool
  ds_error_code :: string
  ds_error_message :: string

record format_response =
  fs_request_id :: u64
  fs_accepted :: bool
  fs_format :: asio_format
  fs_error_code :: string
  fs_error_message :: string

section \<open>The writer\<close>

record broker_writer =
  bw_type :: u16
  bw_bytes :: "byte list"
  bw_error :: broker_error

type_synonym bop = "broker_writer \<Rightarrow> broker_writer"

definition make_broker_writer :: "u16 \<Rightarrow> u64 \<Rightarrow> broker_writer" where
  "make_broker_writer t request_id =
     \<lparr>bw_type = t, bw_bytes = write_header 12 request_id (replicate kVirtualAsioBrokerHeaderBytes 0),
      bw_error = None\<rparr>"

definition bw_fail :: "broker_error_code \<Rightarrow> bop" where
  "bw_fail code w = (if bw_error w = None then w\<lparr>bw_error := Some (code, length (bw_bytes w))\<rparr> else w)"

definition bw_scalar :: "'a::len word \<Rightarrow> bop" where
  "bw_scalar v w = w\<lparr>bw_bytes := bw_bytes w @ le_bytes v\<rparr>"

definition bw_boolean :: "bool \<Rightarrow> bop" where
  "bw_boolean b = bw_scalar ((if b then 1 else 0) :: byte)"

definition bw_string :: "string \<Rightarrow> bop" where
  "bw_string s w =
     (if length s > kVirtualAsioBrokerMaxStringBytes \<or> length s > 2 ^ 16 - 1 then bw_fail BrokerStringTooLong w
      else let w' = bw_scalar (word_of_nat (length s) :: u16) w
           in w'\<lparr>bw_bytes := bw_bytes w' @ map byte_of s\<rparr>)"

definition bw_wide_ascii :: "wstring \<Rightarrow> bop" where
  "bw_wide_ascii s w =
     (if \<exists>c \<in> set s. c > 0x7F then bw_fail BrokerStringTooLong w
      else bw_string (map (\<lambda>c. char_of_byte (ucast c)) s) w)"

definition bw_finish :: "broker_writer \<Rightarrow> (broker_error_code \<times> nat) + byte list" where
  "bw_finish w =
     (case bw_error w of
        Some e \<Rightarrow> Inl e
      | None \<Rightarrow>
          if length (bw_bytes w) > kVirtualAsioBrokerMaxMessageBytes
          then Inl (BrokerMessageTooLarge, length (bw_bytes w))
          else Inr (write_header 8 (word_of_nat (length (bw_bytes w) - kVirtualAsioBrokerHeaderBytes) :: u32)
                 (write_header 6 (bw_type w) (write_header 4 kVirtualAsioBrokerVersion
                    (write_header 0 kBrokerMagic (bw_bytes w))))))"

text \<open>Statements in sequence.\<close>

primrec bw_seq :: "bop list \<Rightarrow> bop" where
  "bw_seq [] w = w"
| "bw_seq (f # fs) w = bw_seq fs (f w)"

definition write_format :: "asio_format \<Rightarrow> bop" where
  "write_format f = bw_seq [bw_scalar (vf_sample_rate f), bw_scalar (vf_frames_per_block f),
     bw_scalar (vf_input_channels f), bw_scalar (vf_output_channels f)]"

definition write_error :: "bool \<Rightarrow> string \<Rightarrow> string \<Rightarrow> bop" where
  "write_error accepted code message = bw_seq [bw_boolean accepted, bw_string code, bw_string message]"

section \<open>The reader\<close>

record broker_reader =
  br_bytes :: "byte list"
  br_offset :: nat
  br_request_id :: u64
  br_error :: broker_error

type_synonym 'a br = "(broker_reader, 'a) state"

definition br_fail :: "broker_error_code \<Rightarrow> unit br" where
  "br_fail code = State (\<lambda>r. ((),
     if br_error r = None then r\<lparr>br_error := Some (code, br_offset r)\<rparr> else r))"

definition br_ok :: "bool br" where
  "br_ok = State (\<lambda>r. (br_error r = None, r))"

definition br_require :: "nat \<Rightarrow> bool br" where
  "br_require bytes = State (\<lambda>r.
     if bytes > length (br_bytes r) - br_offset r then (False, snd (run_state (br_fail BrokerTruncated) r))
     else (True, r))"

definition br_take :: "nat \<Rightarrow> byte list br" where
  "br_take n = State (\<lambda>r. (take n (drop (br_offset r) (br_bytes r)), r\<lparr>br_offset := br_offset r + n\<rparr>))"

definition br_scalar :: "'a::len word br" where
  "br_scalar = do {
     present \<leftarrow> br_require (LENGTH('a) div 8);
     if \<not> present then State_Monad.return 0
     else do { bs \<leftarrow> br_take (LENGTH('a) div 8); State_Monad.return (le_word bs) }
   }"

definition br_fail_if :: "bool \<Rightarrow> broker_error_code \<Rightarrow> unit br" where
  "br_fail_if b code = (if b then br_fail code else State_Monad.return ())"

definition br_boolean :: "bool br" where
  "br_boolean = do {
     v \<leftarrow> (br_scalar :: byte br);
     ok \<leftarrow> br_ok;
     _ \<leftarrow> br_fail_if (ok \<and> v > 1) BrokerInvalidBoolean;
     State_Monad.return (v = 1)
   }"

definition br_string :: "string br" where
  "br_string = do {
     len \<leftarrow> (br_scalar :: u16 br);
     ok \<leftarrow> br_ok;
     if \<not> ok then State_Monad.return []
     else if unat len > kVirtualAsioBrokerMaxStringBytes then
       do { _ \<leftarrow> br_fail BrokerStringTooLong; State_Monad.return [] }
     else do {
       present \<leftarrow> br_require (unat len);
       if \<not> present then State_Monad.return []
       else do { bs \<leftarrow> br_take (unat len); State_Monad.return (map char_of_byte bs) }
     }
   }"

text \<open>Each \<^verbatim>\<open>char\<close> is signed and is sign-extended to a 16-bit unit.\<close>

definition br_wide_ascii :: "wstring br" where
  "br_wide_ascii = do { value \<leftarrow> br_string; State_Monad.return (map (\<lambda>c. scast (byte_of c)) value) }"

definition br_finish :: "unit br" where
  "br_finish = do {
     ok \<leftarrow> br_ok;
     complete \<leftarrow> State (\<lambda>r. (br_offset r = length (br_bytes r), r));
     br_fail_if (ok \<and> \<not> complete) BrokerTrailingBytes
   }"

definition br_request :: "u64 br" where
  "br_request = State (\<lambda>r. (br_request_id r, r))"

definition br_set_request :: "u64 \<Rightarrow> unit br" where
  "br_set_request v = State (\<lambda>r. ((), r\<lparr>br_request_id := v\<rparr>))"

definition br_header :: "nat \<Rightarrow> u16 \<Rightarrow> unit br" where
  "br_header message_size expected_type = do {
     magic \<leftarrow> (br_scalar :: u32 br);
     version \<leftarrow> (br_scalar :: u16 br);
     kind \<leftarrow> (br_scalar :: u16 br);
     payload_bytes \<leftarrow> (br_scalar :: u32 br);
     request_id \<leftarrow> (br_scalar :: u64 br);
     _ \<leftarrow> br_set_request request_id;
     ok \<leftarrow> br_ok;
     if \<not> ok then State_Monad.return ()
     else if magic \<noteq> kBrokerMagic then br_fail BrokerInvalidMagic
     else if version \<noteq> kVirtualAsioBrokerVersion then br_fail BrokerUnsupportedVersion
     else if kind \<noteq> expected_type then br_fail BrokerUnexpectedMessageType
     else br_fail_if (unat payload_bytes \<noteq> message_size - kVirtualAsioBrokerHeaderBytes) BrokerInvalidLength
   }"

definition make_broker_reader :: "byte list \<Rightarrow> u16 \<Rightarrow> broker_reader" where
  "make_broker_reader bytes expected_type =
     (let r = \<lparr>br_bytes = bytes, br_offset = 0, br_request_id = 0, br_error = None\<rparr>
      in if length bytes > kVirtualAsioBrokerMaxMessageBytes then snd (run_state (br_fail BrokerMessageTooLarge) r)
         else if length bytes < kVirtualAsioBrokerHeaderBytes then snd (run_state (br_fail BrokerTruncated) r)
         else snd (run_state (br_header (length bytes) expected_type) r))"

definition read_format :: "asio_format br" where
  "read_format = do {
     sample_rate \<leftarrow> br_scalar;
     frames_per_block \<leftarrow> br_scalar;
     input_channels \<leftarrow> br_scalar;
     output_channels \<leftarrow> br_scalar;
     State_Monad.return \<lparr>vf_sample_rate = sample_rate, vf_frames_per_block = frames_per_block,
       vf_input_channels = input_channels, vf_output_channels = output_channels\<rparr>
   }"

text \<open>
  Every decoder takes the request id, reads its fields, calls \<^verbatim>\<open>finish\<close> and returns the value it
  has built with the error of the reader.
\<close>

definition broker_decode :: "u16 \<Rightarrow> (u64 \<Rightarrow> 'a br) \<Rightarrow> byte list \<Rightarrow> 'a \<times> broker_error" where
  "broker_decode t body bytes =
     (let (v, r) = run_state (do { id \<leftarrow> br_request; v \<leftarrow> body id; _ \<leftarrow> br_finish; State_Monad.return v })
            (make_broker_reader bytes t)
      in (v, br_error r))"

section \<open>The codecs\<close>

definition encode_broker_connect :: "connect_request \<Rightarrow> (broker_error_code \<times> nat) + byte list" where
  "encode_broker_connect q = bw_finish (bw_seq
     [bw_string (cq_client_id q), write_format (cq_format q), bw_scalar (cq_queue_capacity_blocks q),
      bw_scalar (cq_client_nonce_low q), bw_scalar (cq_client_nonce_high q)]
     (make_broker_writer kConnectRequest (cq_request_id q)))"

definition decode_broker_connect :: "byte list \<Rightarrow> connect_request \<times> broker_error" where
  "decode_broker_connect = broker_decode kConnectRequest (\<lambda>id. do {
     client_id \<leftarrow> br_string;
     format \<leftarrow> read_format;
     capacity \<leftarrow> br_scalar;
     low \<leftarrow> br_scalar;
     high \<leftarrow> br_scalar;
     State_Monad.return \<lparr>cq_request_id = id, cq_client_id = client_id, cq_format = format,
       cq_queue_capacity_blocks = capacity, cq_client_nonce_low = low, cq_client_nonce_high = high\<rparr> })"

definition encode_broker_disconnect :: "disconnect_request \<Rightarrow> (broker_error_code \<times> nat) + byte list" where
  "encode_broker_disconnect q = bw_finish (bw_seq
     [bw_string (dq_client_id q), bw_scalar (dq_connection_generation q)]
     (make_broker_writer kDisconnectRequest (dq_request_id q)))"

definition decode_broker_disconnect :: "byte list \<Rightarrow> disconnect_request \<times> broker_error" where
  "decode_broker_disconnect = broker_decode kDisconnectRequest (\<lambda>id. do {
     client_id \<leftarrow> br_string;
     generation \<leftarrow> br_scalar;
     State_Monad.return \<lparr>dq_request_id = id, dq_client_id = client_id,
       dq_connection_generation = generation\<rparr> })"

definition encode_broker_format :: "format_request \<Rightarrow> (broker_error_code \<times> nat) + byte list" where
  "encode_broker_format q = bw_finish (make_broker_writer kFormatRequest (fq_request_id q))"

definition decode_broker_format :: "byte list \<Rightarrow> format_request \<times> broker_error" where
  "decode_broker_format = broker_decode kFormatRequest (\<lambda>id. State_Monad.return \<lparr>fq_request_id = id\<rparr>)"

definition encode_broker_connect_response :: "connect_response \<Rightarrow> (broker_error_code \<times> nat) + byte list" where
  "encode_broker_connect_response s = bw_finish (bw_seq
     [write_error (cs_accepted s) (cs_error_code s) (cs_error_message s),
      bw_scalar (cs_connection_generation s),
      bw_wide_ascii (on_mapping (cs_names s)), bw_wide_ascii (on_input_event (cs_names s)),
      bw_wide_ascii (on_output_event (cs_names s)), bw_wide_ascii (on_shutdown_event (cs_names s)),
      bw_wide_ascii (on_client_disconnect_event (cs_names s)),
      bw_scalar (cs_server_nonce_low s), bw_scalar (cs_server_nonce_high s)]
     (make_broker_writer kConnectResponse (cs_request_id s)))"

definition decode_broker_connect_response :: "byte list \<Rightarrow> connect_response \<times> broker_error" where
  "decode_broker_connect_response = broker_decode kConnectResponse (\<lambda>id. do {
     accepted \<leftarrow> br_boolean;
     code \<leftarrow> br_string;
     message \<leftarrow> br_string;
     generation \<leftarrow> br_scalar;
     mapping \<leftarrow> br_wide_ascii;
     input_event \<leftarrow> br_wide_ascii;
     output_event \<leftarrow> br_wide_ascii;
     shutdown_event \<leftarrow> br_wide_ascii;
     client_disconnect_event \<leftarrow> br_wide_ascii;
     low \<leftarrow> br_scalar;
     high \<leftarrow> br_scalar;
     State_Monad.return \<lparr>cs_request_id = id, cs_accepted = accepted, cs_connection_generation = generation,
       cs_names = \<lparr>on_mapping = mapping, on_input_event = input_event, on_output_event = output_event,
         on_shutdown_event = shutdown_event, on_client_disconnect_event = client_disconnect_event\<rparr>,
       cs_server_nonce_low = low, cs_server_nonce_high = high, cs_error_code = code,
       cs_error_message = message\<rparr> })"

definition encode_broker_disconnect_response ::
  "disconnect_response \<Rightarrow> (broker_error_code \<times> nat) + byte list" where
  "encode_broker_disconnect_response s = bw_finish
     (write_error (ds_accepted s) (ds_error_code s) (ds_error_message s)
        (make_broker_writer kDisconnectResponse (ds_request_id s)))"

definition decode_broker_disconnect_response :: "byte list \<Rightarrow> disconnect_response \<times> broker_error" where
  "decode_broker_disconnect_response = broker_decode kDisconnectResponse (\<lambda>id. do {
     accepted \<leftarrow> br_boolean;
     code \<leftarrow> br_string;
     message \<leftarrow> br_string;
     State_Monad.return \<lparr>ds_request_id = id, ds_accepted = accepted, ds_error_code = code,
       ds_error_message = message\<rparr> })"

definition encode_broker_format_response :: "format_response \<Rightarrow> (broker_error_code \<times> nat) + byte list" where
  "encode_broker_format_response s = bw_finish (bw_seq
     [write_error (fs_accepted s) (fs_error_code s) (fs_error_message s), write_format (fs_format s)]
     (make_broker_writer kFormatResponse (fs_request_id s)))"

definition decode_broker_format_response :: "byte list \<Rightarrow> format_response \<times> broker_error" where
  "decode_broker_format_response = broker_decode kFormatResponse (\<lambda>id. do {
     accepted \<leftarrow> br_boolean;
     code \<leftarrow> br_string;
     message \<leftarrow> br_string;
     format \<leftarrow> read_format;
     State_Monad.return \<lparr>fs_request_id = id, fs_accepted = accepted, fs_format = format,
       fs_error_code = code, fs_error_message = message\<rparr> })"

section \<open>What the writer appends\<close>

text \<open>
  \<open>bputs f fits bs\<close>: \<open>f\<close> appends exactly \<open>bs\<close> to a writer without an error when the limits hold,
  and otherwise leaves an error.
\<close>

definition bputs :: "bop \<Rightarrow> bool \<Rightarrow> byte list \<Rightarrow> bool" where
  "bputs f fits bs \<longleftrightarrow> (\<forall>w. if bw_error w = None \<and> fits then f w = w\<lparr>bw_bytes := bw_bytes w @ bs\<rparr>
     else bw_error (f w) \<noteq> None)"

definition short_string_bytes :: "string \<Rightarrow> byte list" where
  "short_string_bytes s = le_bytes (word_of_nat (length s) :: u16) @ map byte_of s"

definition short_string_fits :: "string \<Rightarrow> bool" where
  "short_string_fits s \<longleftrightarrow> length s \<le> kVirtualAsioBrokerMaxStringBytes"

definition wide_fits :: "wstring \<Rightarrow> bool" where
  "wide_fits s \<longleftrightarrow> (\<forall>c \<in> set s. c \<le> 0x7F) \<and> length s \<le> kVirtualAsioBrokerMaxStringBytes"

definition narrow :: "wstring \<Rightarrow> string" where
  "narrow s = map (\<lambda>c. char_of_byte (ucast c)) s"

definition format_bytes :: "asio_format \<Rightarrow> byte list" where
  "format_bytes f = le_bytes (vf_sample_rate f) @ le_bytes (vf_frames_per_block f) @
     le_bytes (vf_input_channels f) @ le_bytes (vf_output_channels f)"

lemma bputs_seq_Nil: "bputs (bw_seq []) True []"
  by (simp add: bputs_def)

lemma bputs_seq_Cons:
  "bputs f a x \<Longrightarrow> bputs (bw_seq fs) b y \<Longrightarrow> bputs (bw_seq (f # fs)) (a \<and> b) (x @ y)"
proof (unfold bputs_def, rule allI)
  fix w
  assume "\<forall>w. if bw_error w = None \<and> a then f w = w\<lparr>bw_bytes := bw_bytes w @ x\<rparr> else bw_error (f w) \<noteq> None"
    and "\<forall>w. if bw_error w = None \<and> b then bw_seq fs w = w\<lparr>bw_bytes := bw_bytes w @ y\<rparr>
      else bw_error (bw_seq fs w) \<noteq> None"
  from this(1) [rule_format, of w] this(2) [rule_format, of "f w"]
  show "if bw_error w = None \<and> a \<and> b then bw_seq (f # fs) w = w\<lparr>bw_bytes := bw_bytes w @ x @ y\<rparr>
      else bw_error (bw_seq (f # fs) w) \<noteq> None"
    by (auto split: if_splits)
qed

lemma bputs_scalar: "bputs (bw_scalar v) True (le_bytes v)"
  by (simp add: bputs_def bw_scalar_def)

lemma bputs_boolean: "bputs (bw_boolean b) True (bool_bytes b)"
  by (simp add: bw_boolean_def bool_bytes_def bputs_scalar)

lemma bputs_string: "bputs (bw_string s) (short_string_fits s) (short_string_bytes s)"
  by (auto simp: bputs_def bw_string_def bw_fail_def bw_scalar_def short_string_bytes_def short_string_fits_def
      kVirtualAsioBrokerMaxStringBytes_def Let_def)

lemma bputs_wide: "bputs (bw_wide_ascii s) (wide_fits s) (short_string_bytes (narrow s))"
proof (cases "\<exists>c \<in> set s. c > 0x7F")
  case True
  then show ?thesis
    by (auto simp: bputs_def bw_wide_ascii_def bw_fail_def wide_fits_def not_le [symmetric])
next
  case False
  then have "bw_wide_ascii s = bw_string (narrow s)" "wide_fits s \<longleftrightarrow> short_string_fits (narrow s)"
    by (auto simp: fun_eq_iff bw_wide_ascii_def narrow_def wide_fits_def short_string_fits_def not_less)
  with bputs_string [of "narrow s"] show ?thesis by simp
qed

lemmas bputs_intros = bputs_seq_Nil bputs_seq_Cons bputs_scalar bputs_boolean bputs_string bputs_wide

lemma bputs_cong: "bputs f a x \<Longrightarrow> a = b \<Longrightarrow> x = y \<Longrightarrow> bputs f b y"
  by simp

lemma bputs_format: "bputs (write_format f) True (format_bytes f)"
  unfolding write_format_def by (rule bputs_cong, (rule bputs_intros)+) (simp_all add: format_bytes_def)

lemma bputs_error:
  "bputs (write_error a c m) (short_string_fits c \<and> short_string_fits m)
     (bool_bytes a @ short_string_bytes c @ short_string_bytes m)"
  unfolding write_error_def by (rule bputs_cong, (rule bputs_intros)+) simp_all

definition broker_header :: "u16 \<Rightarrow> u64 \<Rightarrow> nat \<Rightarrow> byte list" where
  "broker_header t request_id n = le_bytes kBrokerMagic @ le_bytes kVirtualAsioBrokerVersion @ le_bytes t @
     le_bytes (word_of_nat n :: u32) @ le_bytes request_id"

lemma length_broker_header [simp]: "length (broker_header t i n) = 20"
  by (simp add: broker_header_def)

lemma broker_encode_iff:
  assumes "bputs f fits bs"
  shows "bw_finish (f (make_broker_writer t i)) = Inr bytes \<longleftrightarrow>
    fits \<and> 20 + length bs \<le> kVirtualAsioBrokerMaxMessageBytes \<and> bytes = broker_header t i (length bs) @ bs"
proof (cases fits)
  case True
  with assms have "f (make_broker_writer t i) =
      (make_broker_writer t i)\<lparr>bw_bytes := bw_bytes (make_broker_writer t i) @ bs\<rparr>"
    by (simp add: bputs_def make_broker_writer_def)
  with True show ?thesis
    by (auto simp: make_broker_writer_def bw_finish_def broker_header_def write_header_bytes
        kVirtualAsioBrokerHeaderBytes_def)
next
  case False
  with assms have "bw_error (f (make_broker_writer t i)) \<noteq> None" by (simp add: bputs_def)
  with False show ?thesis by (auto simp: bw_finish_def)
qed


section \<open>What the reader consumes\<close>

text \<open>
  \<open>parses m S\<close>: on a reader without an error, \<open>m\<close> succeeds with value \<open>x\<close> exactly when the bytes
  before it start with some \<open>bs\<close> such that \<open>S x bs\<close>, and it then stands right after them; a failed
  reader stays failed.
\<close>

definition br_ahead :: "broker_reader \<Rightarrow> byte list" where
  "br_ahead r = drop (br_offset r) (br_bytes r)"

definition br_inside :: "broker_reader \<Rightarrow> bool" where
  "br_inside r \<longleftrightarrow> br_offset r \<le> length (br_bytes r)"

definition br_skip :: "nat \<Rightarrow> broker_reader \<Rightarrow> broker_reader" where
  "br_skip n r = r\<lparr>br_offset := br_offset r + n\<rparr>"

definition parses :: "'a br \<Rightarrow> ('a \<Rightarrow> byte list \<Rightarrow> bool) \<Rightarrow> bool" where
  "parses m S \<longleftrightarrow> (\<forall>r. br_inside r \<longrightarrow>
     br_inside (snd (run_state m r)) \<and>
     (br_error r \<noteq> None \<longrightarrow> br_error (snd (run_state m r)) \<noteq> None) \<and>
     (\<forall>x r'. br_error r = None \<longrightarrow> run_state m r = (x, r') \<longrightarrow> br_error r' = None \<longrightarrow>
        (\<exists>bs rest. S x bs \<and> br_ahead r = bs @ rest \<and> r' = br_skip (length bs) r)) \<and>
     (\<forall>x bs rest. br_error r = None \<longrightarrow> S x bs \<longrightarrow> br_ahead r = bs @ rest \<longrightarrow>
        run_state m r = (x, br_skip (length bs) r)))"

lemma br_skip_simps [simp]:
  "br_error (br_skip n r) = br_error r" "br_bytes (br_skip n r) = br_bytes r"
  "br_offset (br_skip n r) = br_offset r + n" "br_request_id (br_skip n r) = br_request_id r"
  "br_skip 0 r = r" "br_skip m (br_skip n r) = br_skip (n + m) r"
  by (simp_all add: br_skip_def add.assoc)

lemma br_ahead_skip: "br_ahead r = bs @ rest \<Longrightarrow> br_ahead (br_skip (length bs) r) = rest"
  by (metis add.commute append_eq_conv_conj br_ahead_def br_skip_simps(2,3) drop_drop)

lemma br_inside_skip: "br_inside r \<Longrightarrow> br_ahead r = bs @ rest \<Longrightarrow> br_inside (br_skip (length bs) r)"
proof -
  assume "br_inside r" "br_ahead r = bs @ rest"
  then have "length (br_bytes r) - br_offset r = length bs + length rest"
    by (metis br_ahead_def length_append length_drop)
  with \<open>br_inside r\<close> show ?thesis by (simp add: br_inside_def)
qed

lemma parsesI:
  assumes "\<And>r. br_inside r \<Longrightarrow> br_inside (snd (run_state m r))"
    and "\<And>r. br_inside r \<Longrightarrow> br_error r \<noteq> None \<Longrightarrow> br_error (snd (run_state m r)) \<noteq> None"
    and "\<And>r x r'. br_inside r \<Longrightarrow> br_error r = None \<Longrightarrow> run_state m r = (x, r') \<Longrightarrow> br_error r' = None \<Longrightarrow>
      \<exists>bs rest. S x bs \<and> br_ahead r = bs @ rest \<and> r' = br_skip (length bs) r"
    and "\<And>r x bs rest. br_inside r \<Longrightarrow> br_error r = None \<Longrightarrow> S x bs \<Longrightarrow> br_ahead r = bs @ rest \<Longrightarrow>
      run_state m r = (x, br_skip (length bs) r)"
  shows "parses m S"
  using assms unfolding parses_def by blast

lemma parses_error:
  "parses m S \<Longrightarrow> br_inside r \<Longrightarrow> br_error r \<noteq> None \<Longrightarrow> br_error (snd (run_state m r)) \<noteq> None"
  by (simp add: parses_def)

lemma parses_inside: "parses m S \<Longrightarrow> br_inside r \<Longrightarrow> br_inside (snd (run_state m r))"
  by (simp add: parses_def)

lemma parses_sound:
  "parses m S \<Longrightarrow> br_inside r \<Longrightarrow> br_error r = None \<Longrightarrow> run_state m r = (x, r') \<Longrightarrow> br_error r' = None \<Longrightarrow>
     \<exists>bs rest. S x bs \<and> br_ahead r = bs @ rest \<and> r' = br_skip (length bs) r"
  by (simp add: parses_def)

lemma parses_complete:
  "parses m S \<Longrightarrow> br_inside r \<Longrightarrow> br_error r = None \<Longrightarrow> S x bs \<Longrightarrow> br_ahead r = bs @ rest \<Longrightarrow>
     run_state m r = (x, br_skip (length bs) r)"
  unfolding parses_def by blast

lemma parses_cong: "parses m S \<Longrightarrow> (\<And>x bs. S x bs \<longleftrightarrow> T x bs) \<Longrightarrow> parses m T"
  by (simp add: parses_def)

lemma parses_same:
  assumes "parses m S" "\<And>r. br_error r = None \<Longrightarrow> run_state m' r = run_state m r"
    and "\<And>r. br_error r \<noteq> None \<Longrightarrow> snd (run_state m' r) = r"
  shows "parses m' S"
  unfolding parses_def
proof (intro allI impI)
  fix r
  assume r: "br_inside r"
  have m: "br_inside (snd (run_state m r)) \<and>
     (br_error r \<noteq> None \<longrightarrow> br_error (snd (run_state m r)) \<noteq> None) \<and>
     (\<forall>x r'. br_error r = None \<longrightarrow> run_state m r = (x, r') \<longrightarrow> br_error r' = None \<longrightarrow>
        (\<exists>bs rest. S x bs \<and> br_ahead r = bs @ rest \<and> r' = br_skip (length bs) r)) \<and>
     (\<forall>x bs rest. br_error r = None \<longrightarrow> S x bs \<longrightarrow> br_ahead r = bs @ rest \<longrightarrow>
        run_state m r = (x, br_skip (length bs) r))"
    using assms(1) r unfolding parses_def by (elim allE [where x = r]) (erule mp)
  show "br_inside (snd (run_state m' r)) \<and>
     (br_error r \<noteq> None \<longrightarrow> br_error (snd (run_state m' r)) \<noteq> None) \<and>
     (\<forall>x r'. br_error r = None \<longrightarrow> run_state m' r = (x, r') \<longrightarrow> br_error r' = None \<longrightarrow>
        (\<exists>bs rest. S x bs \<and> br_ahead r = bs @ rest \<and> r' = br_skip (length bs) r)) \<and>
     (\<forall>x bs rest. br_error r = None \<longrightarrow> S x bs \<longrightarrow> br_ahead r = bs @ rest \<longrightarrow>
        run_state m' r = (x, br_skip (length bs) r))"
  proof (cases "br_error r = None")
    case True
    show ?thesis unfolding assms(2) [OF True] by (rule m)
  next
    case False
    with r show ?thesis unfolding assms(3) [OF False] by blast
  qed
qed

lemma parses_return: "parses (State_Monad.return x) (\<lambda>y bs. y = x \<and> bs = [])"
  by (rule parsesI) (auto simp: State_Monad.return_def)

lemma parses_bind:
  assumes m: "parses m S" and f: "\<And>x. parses (f x) (T x)"
  shows "parses (m \<bind> f) (\<lambda>y cs. \<exists>x as bs. cs = as @ bs \<and> S x as \<and> T x y bs)"
proof (rule parsesI)
  fix r
  assume r: "br_inside r"
  obtain x s where s: "run_state m r = (x, s)" by (cases "run_state m r")
  then have inside: "br_inside s" using parses_inside [OF m r] by simp
  then show "br_inside (snd (run_state (m \<bind> f) r))"
    using s parses_inside [OF f, of s x] by (simp add: State_Monad.bind_def)
  {
    assume "br_error r \<noteq> None"
    then have "br_error s \<noteq> None" using parses_error [OF m r] s by simp
    then show "br_error (snd (run_state (m \<bind> f) r)) \<noteq> None"
      using s parses_error [OF f inside, of x] by (simp add: State_Monad.bind_def)
  }
  {
    fix y r'
    assume ok: "br_error r = None" "run_state (m \<bind> f) r = (y, r')" "br_error r' = None"
    then have run: "run_state (f x) s = (y, r')" using s by (simp add: State_Monad.bind_def)
    then have "br_error s = None" using parses_error [OF f inside, of x] ok(3) by (cases "br_error s") auto
    moreover obtain as rest where as: "S x as" "br_ahead r = as @ rest" "s = br_skip (length as) r"
      using parses_sound [OF m r ok(1) s \<open>br_error s = None\<close>] by blast
    ultimately obtain bs rest' where bs: "T x y bs" "br_ahead s = bs @ rest'" "r' = br_skip (length bs) s"
      using parses_sound [OF f inside _ run ok(3)] by blast
    have "br_ahead r = (as @ bs) @ rest'" using as bs br_ahead_skip [OF as(2)] by simp
    then show "\<exists>cs rest. (\<exists>x as bs. cs = as @ bs \<and> S x as \<and> T x y bs) \<and> br_ahead r = cs @ rest \<and>
        r' = br_skip (length cs) r"
      using as bs by (intro exI [of _ "as @ bs"] exI [of _ rest']) (auto simp: add.commute)
  }
  {
    fix y cs rest
    assume ok: "br_error r = None" "\<exists>x as bs. cs = as @ bs \<and> S x as \<and> T x y bs" "br_ahead r = cs @ rest"
    then obtain z as bs where z: "cs = as @ bs" "S z as" "T z y bs" by blast
    then have a: "br_ahead r = as @ (bs @ rest)" using ok(3) by simp
    have "run_state m r = (z, br_skip (length as) r)" by (rule parses_complete [OF m r ok(1) z(2) a])
    moreover have "run_state (f z) (br_skip (length as) r) = (y, br_skip (length bs) (br_skip (length as) r))"
      by (rule parses_complete [OF f br_inside_skip [OF r a] _ z(3) br_ahead_skip [OF a]]) (simp add: ok(1))
    ultimately show "run_state (m \<bind> f) r = (y, br_skip (length cs) r)"
      by (simp add: State_Monad.bind_def z(1))
  }
qed

lemma byte_of_char_of_byte [simp]: "byte_of (char_of_byte b) = b"
  by (simp add: byte_of_def char_of_byte_def unsigned_less [of b, simplified])

lemma le_bytes_le_word:
  assumes "length bs = n" "LENGTH('a) = 8 * n"
  shows "le_bytes (le_word bs :: 'a::len word) = bs"
proof (rule nth_equalityI)
  fix i
  assume "i < length (le_bytes (le_word bs :: 'a word))"
  then have i: "i < n" using assms by simp
  have "le_bytes (le_word bs :: 'a word) ! i = ucast (drop_bit (8 * i) (le_word bs :: 'a word))"
    using i assms by (simp add: le_bytes_def ucast_low_byte)
  also have "\<dots> = bs ! i"
  proof (rule bit_word_eqI)
    fix k
    assume k: "k < LENGTH(8)"
    then have "8 * i + k < 8 * n" using i by simp
    then show "bit (ucast (drop_bit (8 * i) (le_word bs :: 'a word)) :: byte) k \<longleftrightarrow> bit (bs ! i) k"
      using k assms bit_le_word [where 'a = 'a and f = "\<lambda>i. bs ! i" and n = n and k = "8 * i + k"]
      by (simp add: bit_ucast_iff bit_drop_bit_eq le_word_def)
  qed
  finally show "le_bytes (le_word bs :: 'a word) ! i = bs ! i" .
qed (use assms in simp)

text \<open>Taking a fixed number of bytes after checking that they are there.\<close>

lemma parses_require_take:
  assumes inj: "\<And>bs. length bs = n \<Longrightarrow> S (g bs) bs"
    and det: "\<And>x bs. S x bs \<Longrightarrow> length bs = n \<and> x = g bs"
  shows "parses (do { p \<leftarrow> br_require n; if \<not> p then State_Monad.return d
     else do { bs \<leftarrow> br_take n; State_Monad.return (g bs) } }) S"
    (is "parses ?m S")
proof -
  have run: "run_state ?m r =
      (if n \<le> length (br_ahead r) then (g (take n (br_ahead r)), br_skip n r)
       else (d, snd (run_state (br_fail BrokerTruncated) r)))" for r
    by (simp add: State_Monad.bind_def br_require_def br_take_def State_Monad.return_def br_ahead_def
        br_skip_def not_le)
  show ?thesis
  proof (rule parsesI)
    fix r :: broker_reader assume "br_inside r"
    then show "br_inside (snd (run_state ?m r))"
      unfolding run by (auto simp: br_fail_def br_inside_def br_ahead_def)
  next
    fix r :: broker_reader assume "br_error r \<noteq> None"
    then show "br_error (snd (run_state ?m r)) \<noteq> None" unfolding run by (auto simp: br_fail_def)
  next
    fix r r' :: broker_reader and x
    assume r: "br_error r = None" "run_state ?m r = (x, r')" "br_error r' = None"
    then have n: "n \<le> length (br_ahead r)" unfolding run by (auto simp: br_fail_def split: if_splits)
    then show "\<exists>bs rest. S x bs \<and> br_ahead r = bs @ rest \<and> r' = br_skip (length bs) r"
      using r(2) [unfolded run] inj [of "take n (br_ahead r)"]
      by (intro exI [of _ "take n (br_ahead r)"] exI [of _ "drop n (br_ahead r)"]) auto
  next
    fix r :: broker_reader and x bs rest
    assume "S x bs" "br_ahead r = bs @ rest"
    with det [of x bs] show "run_state ?m r = (x, br_skip (length bs) r)" unfolding run by auto
  qed
qed

lemma parses_scalar:
  assumes "LENGTH('a) = 8 * n"
  shows "parses br_scalar (\<lambda>(w :: 'a::len word) bs. bs = le_bytes w)"
  unfolding br_scalar_def
proof (rule parses_require_take)
  fix bs :: "byte list"
  assume "length bs = LENGTH('a) div 8"
  then show "bs = le_bytes (le_word bs :: 'a word)" using assms by (simp add: le_bytes_le_word [where n = n])
qed (simp_all add: le_word_le_bytes [OF assms])

lemma parses_scalars:
  "parses br_scalar (\<lambda>(w :: byte) bs. bs = le_bytes w)" "parses br_scalar (\<lambda>(w :: u16) bs. bs = le_bytes w)"
  "parses br_scalar (\<lambda>(w :: u32) bs. bs = le_bytes w)" "parses br_scalar (\<lambda>(w :: u64) bs. bs = le_bytes w)"
  by (rule parses_scalar [where n = 1], simp, rule parses_scalar [where n = 2], simp,
      rule parses_scalar [where n = 4], simp, rule parses_scalar [where n = 8], simp)


text \<open>A check that only leaves an error, after a value was read.\<close>

lemma parses_checked:
  assumes "parses m S"
  shows "parses (do { v \<leftarrow> m; ok \<leftarrow> br_ok; _ \<leftarrow> br_fail_if (ok \<and> P v) c; State_Monad.return (g v) })
    (\<lambda>y bs. \<exists>v. y = g v \<and> \<not> P v \<and> S v bs)"
proof -
  have "parses (do { ok \<leftarrow> br_ok; _ \<leftarrow> br_fail_if (ok \<and> P v) c; State_Monad.return (g v) })
      (\<lambda>y bs. y = g v \<and> bs = [] \<and> \<not> P v)" (is "parses ?m _") for v
  proof -
    have run: "run_state ?m r = (g v, if br_error r = None \<and> P v then snd (run_state (br_fail c) r) else r)" for r
      by (simp add: State_Monad.bind_def br_ok_def br_fail_if_def State_Monad.return_def br_fail_def)
    show ?thesis
      by (rule parsesI; unfold run) (auto simp: br_fail_def br_inside_def split: if_splits)
  qed
  from parses_bind [OF assms this] show ?thesis by (rule parses_cong) auto
qed

lemma parses_boolean: "parses br_boolean (\<lambda>b bs. bs = bool_bytes b)"
  unfolding br_boolean_def
proof (rule parses_cong [OF parses_checked [OF parses_scalars(1)]])
  fix b :: bool and bs
  have "\<not> 1 < v \<longleftrightarrow> v = 0 \<or> v = 1" for v :: byte
    by (auto simp: not_less word_le_nat_alt word_unat_eq_iff)
  then show "(\<exists>v :: byte. b = (v = 1) \<and> \<not> 1 < v \<and> bs = le_bytes v) \<longleftrightarrow> bs = bool_bytes b"
    by (auto simp: bool_bytes_def intro: exI [of _ "0 :: byte"])
qed

lemma unat_u16_length: "n < 2 ^ 16 \<Longrightarrow> unat (word_of_nat n :: u16) = n"
  by (simp add: unsigned_of_nat take_bit_nat_eq_self)

lemma parses_string: "parses br_string (\<lambda>s bs. short_string_fits s \<and> bs = short_string_bytes s)"
proof -
  let ?rest = "\<lambda>len :: u16. do { ok \<leftarrow> br_ok;
     if \<not> ok then State_Monad.return []
     else if unat len > kVirtualAsioBrokerMaxStringBytes then
       do { _ \<leftarrow> br_fail BrokerStringTooLong; State_Monad.return [] }
     else do {
       present \<leftarrow> br_require (unat len);
       if \<not> present then State_Monad.return []
       else do { bs \<leftarrow> br_take (unat len); State_Monad.return (map char_of_byte bs) } } }"
  let ?S = "\<lambda>len s bs. unat (len :: u16) \<le> kVirtualAsioBrokerMaxStringBytes \<and> length s = unat len \<and> bs = map byte_of s"
  have rest: "parses (?rest len) (?S len)" for len
  proof (cases "unat len > kVirtualAsioBrokerMaxStringBytes")
    case True
    have run: "run_state (?rest len) r =
        ([], if br_error r = None then snd (run_state (br_fail BrokerStringTooLong) r) else r)" for r
      using True by (simp add: State_Monad.bind_def br_ok_def State_Monad.return_def br_fail_def)
    show ?thesis
      using True by (intro parsesI; unfold run) (auto simp: br_fail_def br_inside_def split: if_splits)
  next
    case False
    let ?take = "do { present \<leftarrow> br_require (unat len);
       if \<not> present then State_Monad.return []
       else do { bs \<leftarrow> br_take (unat len); State_Monad.return (map char_of_byte bs) } }"
    have take: "parses ?take (?S len)"
      by (rule parses_require_take) (use False in \<open>auto simp: comp_def map_idI\<close>)
    have run: "run_state (?rest len) r = (if br_error r = None then run_state ?take r else ([], r))" for r
      using False by (simp add: State_Monad.bind_def br_ok_def State_Monad.return_def)
    show ?thesis
      by (rule parses_same [OF take]) (simp_all only: run simp_thms if_True if_False fst_conv snd_conv)
  qed
  show ?thesis
    unfolding br_string_def
  proof (rule parses_cong [OF parses_bind [OF parses_scalars(2) rest]])
    fix s :: string and bs
    have "unat (word_of_nat (length s) :: u16) = length s" if "length s \<le> 512"
      using that by (intro unat_u16_length) simp
    moreover have "word_of_nat (unat len) = (len :: u16)" for len by simp
    ultimately show "(\<exists>len as cs. bs = as @ cs \<and> as = le_bytes (len :: u16) \<and> ?S len s cs) \<longleftrightarrow>
        short_string_fits s \<and> bs = short_string_bytes s"
      unfolding short_string_fits_def short_string_bytes_def kVirtualAsioBrokerMaxStringBytes_def
      by (metis (no_types, lifting))
  qed
qed


definition wide_read :: "wstring \<Rightarrow> byte list \<Rightarrow> bool" where
  "wide_read w bs \<longleftrightarrow> (\<exists>s. w = map (\<lambda>c. scast (byte_of c)) s \<and> short_string_fits s \<and> bs = short_string_bytes s)"

lemma parses_wide: "parses br_wide_ascii wide_read"
  unfolding br_wide_ascii_def wide_read_def
  by (rule parses_cong [OF parses_bind [OF parses_string parses_return]]) auto

lemma le_bytes_inject: "LENGTH('a) = 8 * n \<Longrightarrow> le_bytes (v :: 'a::len word) = le_bytes w \<longleftrightarrow> v = w"
  by (metis le_word_le_bytes)

lemmas le_bytes_injects [simp] =
  le_bytes_inject [where 'a = 8 and n = 1, simplified] le_bytes_inject [where 'a = 16 and n = 2, simplified]
  le_bytes_inject [where 'a = 32 and n = 4, simplified] le_bytes_inject [where 'a = 64 and n = 8, simplified]

lemma parses_format: "parses read_format (\<lambda>f bs. bs = format_bytes f)"
  unfolding read_format_def
  by (rule parses_cong, (rule parses_bind parses_scalars parses_return)+)
    (auto simp: format_bytes_def intro: asio_format.equality)

text \<open>The constructor succeeds exactly on a message with the header of its type.\<close>

definition broker_body :: "u16 \<Rightarrow> u64 \<Rightarrow> byte list \<Rightarrow> byte list \<Rightarrow> bool" where
  "broker_body t i bytes body \<longleftrightarrow>
     20 + length body \<le> kVirtualAsioBrokerMaxMessageBytes \<and> bytes = broker_header t i (length body) @ body"

lemma unat_u32_small: "n \<le> kVirtualAsioBrokerMaxMessageBytes \<Longrightarrow> unat (word_of_nat n :: u32) = n"
  by (simp add: kVirtualAsioBrokerMaxMessageBytes_def unsigned_of_nat take_bit_nat_eq_self)

lemma u32_length_eq: "unat (w :: u32) = n \<longleftrightarrow> w = word_of_nat n \<and> n < 2 ^ 32"
  using unsigned_less [of w] by (auto simp: unsigned_of_nat take_bit_nat_eq_self)

lemma br_header_run:
  fixes magic :: u32 and version t :: u16 and payload :: u32 and id :: u64
  assumes "br_error r = None" "br_inside r"
    "br_ahead r = (le_bytes magic @ le_bytes version @ le_bytes t @ le_bytes payload @ le_bytes id) @ body"
  shows "run_state (br_header n expected) r = run_state (
     if magic \<noteq> kBrokerMagic then br_fail BrokerInvalidMagic
     else if version \<noteq> kVirtualAsioBrokerVersion then br_fail BrokerUnsupportedVersion
     else if t \<noteq> expected then br_fail BrokerUnexpectedMessageType
     else br_fail_if (unat payload \<noteq> n - kVirtualAsioBrokerHeaderBytes) BrokerInvalidLength)
       ((br_skip 20 r)\<lparr>br_request_id := id\<rparr>)"
proof -
  let ?five = "do { magic \<leftarrow> (br_scalar :: u32 br); version \<leftarrow> (br_scalar :: u16 br); kind \<leftarrow> (br_scalar :: u16 br);
     payload \<leftarrow> (br_scalar :: u32 br); id \<leftarrow> (br_scalar :: u64 br);
     State_Monad.return (magic, version, kind, payload, id) }"
  have "parses ?five (\<lambda>(m, v, k, p, i) bs. bs = le_bytes m @ le_bytes v @ le_bytes k @ le_bytes p @ le_bytes i)"
    by (rule parses_cong, (rule parses_bind parses_scalars parses_return)+) auto
  from parses_complete [OF this assms(2,1) _ assms(3), of "(magic, version, t, payload, id)"]
  have five: "run_state ?five r = ((magic, version, t, payload, id), br_skip 20 r)" by simp
  have "br_header n expected = do { (magic, version, kind, payload, id) \<leftarrow> ?five;
     _ \<leftarrow> br_set_request id;
     ok \<leftarrow> br_ok;
     if \<not> ok then State_Monad.return ()
     else if magic \<noteq> kBrokerMagic then br_fail BrokerInvalidMagic
     else if version \<noteq> kVirtualAsioBrokerVersion then br_fail BrokerUnsupportedVersion
     else if kind \<noteq> expected then br_fail BrokerUnexpectedMessageType
     else br_fail_if (unat payload \<noteq> n - kVirtualAsioBrokerHeaderBytes) BrokerInvalidLength }"
    by (simp only: br_header_def State_Monad.bind_assoc State_Monad.bind_left_identity prod.case)
  then show ?thesis
    using assms(1) five by (simp only:) (simp only: run_state_bind, simp add: br_set_request_def br_ok_def)
qed


lemma split_scalar:
  assumes "LENGTH('a) = 8 * n" "n \<le> length bs"
  obtains w :: "'a::len word" where "bs = le_bytes w @ drop n bs"
proof -
  have "le_bytes (le_word (take n bs) :: 'a word) = take n bs"
    using assms by (intro le_bytes_le_word [where n = n]) simp_all
  then show thesis using that [of "le_word (take n bs)"] by simp
qed

lemma split_header:
  assumes "20 \<le> length bytes"
  obtains magic :: u32 and version t :: u16 and payload :: u32 and i :: u64
  where "bytes = (le_bytes magic @ le_bytes version @ le_bytes t @ le_bytes payload @ le_bytes i) @ drop 20 bytes"
proof -
  have l: "k \<le> length (drop j bytes)" if "j + k \<le> 20" for j k using assms that by simp
  obtain magic :: u32 where 1: "bytes = le_bytes magic @ drop 4 bytes"
    using split_scalar [where 'a = 32, OF _ l [of 0 4]] by auto
  obtain version :: u16 where 2: "drop 4 bytes = le_bytes version @ drop 6 bytes"
    using split_scalar [where 'a = 16, OF _ l [of 4 2]] by auto
  obtain t :: u16 where 3: "drop 6 bytes = le_bytes t @ drop 8 bytes"
    using split_scalar [where 'a = 16, OF _ l [of 6 2]] by auto
  obtain payload :: u32 where 4: "drop 8 bytes = le_bytes payload @ drop 12 bytes"
    using split_scalar [where 'a = 32, OF _ l [of 8 4]] by auto
  obtain i :: u64 where 5: "drop 12 bytes = le_bytes i @ drop 20 bytes"
    using split_scalar [where 'a = 64, OF _ l [of 12 8]] by auto
  have "bytes = le_bytes magic @ le_bytes version @ le_bytes t @ le_bytes payload @ le_bytes i @ drop 20 bytes"
    by (subst 1, subst 2, subst 3, subst 4, subst 5) (rule refl)
  then show thesis by (intro that [of magic version t payload i]) simp
qed

definition opened :: "byte list \<Rightarrow> u64 \<Rightarrow> broker_reader" where
  "opened bytes i = \<lparr>br_bytes = bytes, br_offset = 20, br_request_id = i, br_error = None\<rparr>"

lemma broker_reader_result:
  "(\<exists>i body. broker_body t i bytes body \<and> make_broker_reader bytes t = opened bytes i) \<or>
   ((\<forall>i body. \<not> broker_body t i bytes body) \<and>
     br_inside (make_broker_reader bytes t) \<and> br_error (make_broker_reader bytes t) \<noteq> None)"
proof (cases "length bytes > kVirtualAsioBrokerMaxMessageBytes \<or> length bytes < 20")
  case True
  then have "br_inside (make_broker_reader bytes t) \<and> br_error (make_broker_reader bytes t) \<noteq> None"
    by (elim disjE) (simp_all add: make_broker_reader_def Let_def br_fail_def br_inside_def
        kVirtualAsioBrokerHeaderBytes_def kVirtualAsioBrokerMaxMessageBytes_def)
  moreover have "\<not> broker_body t i bytes body" for i body
    using True by (auto simp: broker_body_def)
  ultimately show ?thesis by blast
next
  case False
  then obtain magic :: u32 and version k :: u16 and payload :: u32 and i :: u64
    where bytes: "bytes = (le_bytes magic @ le_bytes version @ le_bytes k @ le_bytes payload @ le_bytes i) @ drop 20 bytes"
    using split_header [of bytes] by (metis not_less)
  let ?r = "\<lparr>br_bytes = bytes, br_offset = 0, br_request_id = 0, br_error = None\<rparr>"
  have len: "length bytes - 20 < 2 ^ 32"
    using False by (auto simp: kVirtualAsioBrokerMaxMessageBytes_def)
  have run: "make_broker_reader bytes t = snd (run_state (
     if magic \<noteq> kBrokerMagic then br_fail BrokerInvalidMagic
     else if version \<noteq> kVirtualAsioBrokerVersion then br_fail BrokerUnsupportedVersion
     else if k \<noteq> t then br_fail BrokerUnexpectedMessageType
     else br_fail_if (unat payload \<noteq> length bytes - kVirtualAsioBrokerHeaderBytes) BrokerInvalidLength)
       ((br_skip 20 ?r)\<lparr>br_request_id := i\<rparr>))"
    using False br_header_run [of ?r magic version k payload i "drop 20 bytes" "length bytes" t] bytes
    by (simp add: make_broker_reader_def br_ahead_def br_inside_def kVirtualAsioBrokerHeaderBytes_def)
  have body: "broker_body t j bytes bs \<longleftrightarrow> magic = kBrokerMagic \<and> version = kVirtualAsioBrokerVersion \<and> k = t \<and>
      unat payload = length bytes - 20 \<and> j = i \<and> bs = drop 20 bytes" for j bs
  proof -
    have "bytes = broker_header t j (length bs) @ bs \<longleftrightarrow>
        le_bytes magic @ le_bytes version @ le_bytes k @ le_bytes payload @ le_bytes i =
          broker_header t j (length bs) \<and> drop 20 bytes = bs"
      by (subst (1) bytes) (rule append_eq_append_conv, simp)
    also have "\<dots> \<longleftrightarrow> magic = kBrokerMagic \<and> version = kVirtualAsioBrokerVersion \<and> k = t \<and>
        payload = word_of_nat (length bs) \<and> i = j \<and> drop 20 bytes = bs"
      by (simp add: broker_header_def append_eq_append_conv del: append_assoc)
    finally show ?thesis
      unfolding broker_body_def using False len by (auto simp only:) (auto simp: u32_length_eq)
  qed
  let ?s = "(br_skip 20 ?r)\<lparr>br_request_id := i\<rparr>"
  have s: "br_error ?s = None" "br_inside ?s" "?s = opened bytes i"
    using False by (simp_all add: br_skip_def br_inside_def opened_def)
  have fail: "br_inside (snd (run_state (br_fail c) ?s)) \<and> br_error (snd (run_state (br_fail c) ?s)) \<noteq> None" for c
    using s by (simp add: br_fail_def br_inside_def)
  let ?ok = "magic = kBrokerMagic \<and> version = kVirtualAsioBrokerVersion \<and> k = t \<and> unat payload = length bytes - 20"
  show ?thesis
  proof (cases ?ok)
    case True
    then have "make_broker_reader bytes t = opened bytes i"
      unfolding run s(3) by (simp add: br_fail_if_def kVirtualAsioBrokerHeaderBytes_def)
    moreover have "broker_body t i bytes (drop 20 bytes)" using True body by blast
    ultimately show ?thesis by blast
  next
    case no: False
    then have "br_inside (make_broker_reader bytes t) \<and> br_error (make_broker_reader bytes t) \<noteq> None"
      unfolding run br_fail_if_def using fail by (simp add: kVirtualAsioBrokerHeaderBytes_def split: if_split)
    moreover have "\<not> broker_body t j bytes bs" for j bs using no body by blast
    ultimately show ?thesis by blast
  qed
qed

lemma opened_facts:
  "broker_body t i bytes body \<Longrightarrow> br_inside (opened bytes i) \<and> br_error (opened bytes i) = None \<and>
     br_ahead (opened bytes i) = body"
  by (simp add: broker_body_def opened_def br_inside_def br_ahead_def)

lemma broker_decode_iff:
  assumes body: "\<And>i. parses (body i) (S i)"
  shows "broker_decode t body bytes = (v, None) \<longleftrightarrow> (\<exists>i bs. S i v bs \<and> broker_body t i bytes bs)"
proof -
  let ?r = "make_broker_reader bytes t"
  have run: "broker_decode t body bytes =
      (let (x, s) = run_state (body (br_request_id r)) r in (x, br_error (snd (run_state br_finish s))))"
    if "r = ?r" for r
    using that
    by (simp add: broker_decode_def br_request_def Let_def split: prod.splits)
  have finish: "br_error (snd (run_state br_finish s)) = None \<longleftrightarrow> br_error s = None \<and> br_offset s = length (br_bytes s)"
    for s
    by (cases "br_error s") (simp_all add: br_finish_def br_ok_def br_fail_if_def br_fail_def)
  from broker_reader_result [of t bytes] consider
    (good) i bs where "broker_body t i bytes bs" "?r = opened bytes i"
  | (bad) "\<forall>i body. \<not> broker_body t i bytes body" "br_inside ?r" "br_error ?r \<noteq> None"
    by blast
  then show ?thesis
  proof cases
    case bad
    obtain x s where s: "run_state (body (br_request_id ?r)) ?r = (x, s)"
      by (cases "run_state (body (br_request_id ?r)) ?r")
    then have "br_error s \<noteq> None" using parses_error [OF body bad(2,3), of "br_request_id ?r"] by simp
    then show ?thesis using bad(1) run [OF refl] s finish [of s] by simp
  next
    case good
    note o = opened_facts [OF good(1)]
    have i: "br_request_id (opened bytes i) = i" by (simp add: opened_def)
    have unique: "broker_body t j bytes cs \<longleftrightarrow> j = i \<and> cs = bs" for j cs
      using good(1) by (auto simp: broker_body_def broker_header_def)
    obtain x s where s: "run_state (body i) (opened bytes i) = (x, s)" by (cases "run_state (body i) (opened bytes i)")
    have lhs: "broker_decode t body bytes = (v, None) \<longleftrightarrow>
        x = v \<and> br_error s = None \<and> br_offset s = length (br_bytes s)"
      using run [OF good(2) [symmetric]] s finish [of s] i by simp
    show ?thesis
    proof
      assume "broker_decode t body bytes = (v, None)"
      then have x: "x = v" "br_error s = None" "br_offset s = length (br_bytes s)" using lhs by simp_all
      obtain cs rest where cs: "S i x cs" "bs = cs @ rest" "s = br_skip (length cs) (opened bytes i)"
        using parses_sound [OF body _ _ s x(2)] o by auto
      have "rest = []"
        using x(3) cs good(1) by (simp add: opened_def broker_body_def)
      then show "\<exists>i bs. S i v bs \<and> broker_body t i bytes bs" using cs x good(1) by auto
    next
      assume "\<exists>i bs. S i v bs \<and> broker_body t i bytes bs"
      then obtain j cs where "S j v cs" "broker_body t j bytes cs" by blast
      then have "S i v bs" using unique [of j cs] by simp
      from parses_complete [OF body _ _ this, of "opened bytes i" "[]"] o
      have "run_state (body i) (opened bytes i) = (v, br_skip (length bs) (opened bytes i))" by simp
      then have "x = v" "s = br_skip (length bs) (opened bytes i)" using s by simp_all
      moreover have "length bytes = 20 + length bs" using good(1) by (simp add: broker_body_def)
      ultimately show "broker_decode t body bytes = (v, None)" unfolding lhs by (simp add: opened_def)
    qed
  qed
qed


section \<open>Properties\<close>

lemma scast_ascii: "c \<le> 0x7F \<Longrightarrow> scast (ucast (c :: u16) :: byte) = c"
proof -
  assume "c \<le> 0x7F"
  then have "unat c \<in> set [0..<128]" by (simp add: word_le_nat_alt)
  moreover have "\<forall>n \<in> set [0..<128]. scast (ucast (word_of_nat n :: u16) :: byte) = (word_of_nat n :: u16)"
    by code_simp
  ultimately have "scast (ucast (word_of_nat (unat c) :: u16) :: byte) = (word_of_nat (unat c) :: u16)" by blast
  then show ?thesis by simp
qed

lemma ucast_scast: "(ucast (scast (b :: byte) :: u16) :: byte) = b"
proof (rule bit_word_eqI)
  fix n
  assume "n < LENGTH(8)"
  then have "n < 7 \<or> n = 7" by auto
  then show "bit (ucast (scast b :: u16) :: byte) n = bit b n"
    by (auto simp: bit_ucast_iff bit_signed_iff)
qed

definition names_ascii :: "object_names \<Rightarrow> bool" where
  "names_ascii n \<longleftrightarrow> (\<forall>w \<in> set (object_name_list n). \<forall>c \<in> set w. c \<le> 0x7F)"

lemma wide_read_ascii:
  assumes "\<forall>c \<in> set w. c \<le> 0x7F"
  shows "wide_read w bs \<longleftrightarrow> wide_fits w \<and> bs = short_string_bytes (narrow w)"
proof -
  have "map (\<lambda>c. scast (byte_of c)) (narrow w) = w"
    using assms by (simp add: narrow_def comp_def map_idI scast_ascii)
  moreover have "narrow (map (\<lambda>c. scast (byte_of c)) s) = s" for s
    by (simp add: narrow_def comp_def ucast_scast)
  moreover have "wide_fits w \<longleftrightarrow> short_string_fits (narrow w)"
    using assms by (auto simp: wide_fits_def short_string_fits_def narrow_def)
  ultimately show ?thesis unfolding wide_read_def by metis
qed

lemma wide_fits_ascii: "wide_fits w \<Longrightarrow> \<forall>c \<in> set w. c \<le> 0x7F"
  by (simp add: wide_fits_def)

lemmas broker_puts = bputs_intros bputs_format bputs_error
lemmas broker_parses = parses_bind parses_scalars parses_string parses_format parses_boolean parses_wide
  parses_return

lemma connect_codec: "encode_broker_connect q = Inr bytes \<longleftrightarrow> decode_broker_connect bytes = (q, None)"
proof -
  let ?b = "short_string_bytes (cq_client_id q) @ format_bytes (cq_format q) @
    le_bytes (cq_queue_capacity_blocks q) @ le_bytes (cq_client_nonce_low q) @ le_bytes (cq_client_nonce_high q)"
  have "encode_broker_connect q = Inr bytes \<longleftrightarrow> short_string_fits (cq_client_id q) \<and>
      broker_body kConnectRequest (cq_request_id q) bytes ?b"
    unfolding encode_broker_connect_def broker_body_def
    by (rule broker_encode_iff, rule bputs_cong, (rule broker_puts)+) simp_all
  also have "\<dots> \<longleftrightarrow> decode_broker_connect bytes = (q, None)"
    unfolding decode_broker_connect_def
    by (subst broker_decode_iff, (rule broker_parses)+)
      (cases q; auto)
  finally show ?thesis .
qed


lemma disconnect_codec: "encode_broker_disconnect q = Inr bytes \<longleftrightarrow> decode_broker_disconnect bytes = (q, None)"
proof -
  have "encode_broker_disconnect q = Inr bytes \<longleftrightarrow> short_string_fits (dq_client_id q) \<and>
      broker_body kDisconnectRequest (dq_request_id q) bytes
        (short_string_bytes (dq_client_id q) @ le_bytes (dq_connection_generation q))"
    unfolding encode_broker_disconnect_def broker_body_def
    by (rule broker_encode_iff, rule bputs_cong, (rule broker_puts)+) simp_all
  also have "\<dots> \<longleftrightarrow> decode_broker_disconnect bytes = (q, None)"
    unfolding decode_broker_disconnect_def
    by (subst broker_decode_iff, (rule broker_parses)+) (cases q; auto)
  finally show ?thesis .
qed

lemma format_codec: "encode_broker_format q = Inr bytes \<longleftrightarrow> decode_broker_format bytes = (q, None)"
proof -
  have "encode_broker_format q = Inr bytes \<longleftrightarrow> broker_body kFormatRequest (fq_request_id q) bytes []"
    using broker_encode_iff [of id True "[]" kFormatRequest "fq_request_id q" bytes]
    by (simp add: encode_broker_format_def broker_body_def bputs_def)
  also have "\<dots> \<longleftrightarrow> decode_broker_format bytes = (q, None)"
    unfolding decode_broker_format_def
    by (subst broker_decode_iff, (rule broker_parses)+) (cases q; auto)
  finally show ?thesis .
qed

lemma disconnect_response_codec:
  "encode_broker_disconnect_response s = Inr bytes \<longleftrightarrow> decode_broker_disconnect_response bytes = (s, None)"
proof -
  have "encode_broker_disconnect_response s = Inr bytes \<longleftrightarrow>
      (short_string_fits (ds_error_code s) \<and> short_string_fits (ds_error_message s)) \<and>
      broker_body kDisconnectResponse (ds_request_id s) bytes
        (bool_bytes (ds_accepted s) @ short_string_bytes (ds_error_code s) @ short_string_bytes (ds_error_message s))"
    unfolding encode_broker_disconnect_response_def broker_body_def
    by (rule broker_encode_iff, rule bputs_error)
  also have "\<dots> \<longleftrightarrow> decode_broker_disconnect_response bytes = (s, None)"
    unfolding decode_broker_disconnect_response_def
    by (subst broker_decode_iff, (rule broker_parses)+) (cases s; auto)
  finally show ?thesis .
qed

lemma format_response_codec:
  "encode_broker_format_response s = Inr bytes \<longleftrightarrow> decode_broker_format_response bytes = (s, None)"
proof -
  have "encode_broker_format_response s = Inr bytes \<longleftrightarrow>
      (short_string_fits (fs_error_code s) \<and> short_string_fits (fs_error_message s)) \<and>
      broker_body kFormatResponse (fs_request_id s) bytes
        (bool_bytes (fs_accepted s) @ short_string_bytes (fs_error_code s) @
         short_string_bytes (fs_error_message s) @ format_bytes (fs_format s))"
    unfolding encode_broker_format_response_def broker_body_def
    by (rule broker_encode_iff, rule bputs_cong, (rule broker_puts)+) simp_all
  also have "\<dots> \<longleftrightarrow> decode_broker_format_response bytes = (s, None)"
    unfolding decode_broker_format_response_def
    by (subst broker_decode_iff, (rule broker_parses)+) (cases s; auto)
  finally show ?thesis .
qed

definition names_fit :: "object_names \<Rightarrow> bool" where
  "names_fit n \<longleftrightarrow> (\<forall>w \<in> set (object_name_list n). wide_fits w)"

definition connect_response_bytes :: "connect_response \<Rightarrow> byte list" where
  "connect_response_bytes s =
     bool_bytes (cs_accepted s) @ short_string_bytes (cs_error_code s) @ short_string_bytes (cs_error_message s) @
     le_bytes (cs_connection_generation s) @
     concat (map (short_string_bytes \<circ> narrow) (object_name_list (cs_names s))) @
     le_bytes (cs_server_nonce_low s) @ le_bytes (cs_server_nonce_high s)"

lemma encode_connect_response_iff:
  "encode_broker_connect_response s = Inr bytes \<longleftrightarrow>
     (short_string_fits (cs_error_code s) \<and> short_string_fits (cs_error_message s) \<and> names_fit (cs_names s)) \<and>
     broker_body kConnectResponse (cs_request_id s) bytes (connect_response_bytes s)"
  unfolding encode_broker_connect_response_def broker_body_def
  by (rule broker_encode_iff, rule bputs_cong, (rule broker_puts)+)
    (simp_all add: names_fit_def connect_response_bytes_def object_name_list_def conj_ac)

lemma connect_response_codec:
  "encode_broker_connect_response s = Inr bytes \<longleftrightarrow>
     decode_broker_connect_response bytes = (s, None) \<and> names_ascii (cs_names s)"
proof (cases "names_ascii (cs_names s)")
  case True
  then have ascii: "\<forall>c \<in> set (on_mapping (cs_names s)). c \<le> 0x7F" "\<forall>c \<in> set (on_input_event (cs_names s)). c \<le> 0x7F"
    "\<forall>c \<in> set (on_output_event (cs_names s)). c \<le> 0x7F" "\<forall>c \<in> set (on_shutdown_event (cs_names s)). c \<le> 0x7F"
    "\<forall>c \<in> set (on_client_disconnect_event (cs_names s)). c \<le> 0x7F"
    by (simp_all add: names_ascii_def object_name_list_def)
  have "decode_broker_connect_response bytes = (s, None) \<longleftrightarrow>
      (short_string_fits (cs_error_code s) \<and> short_string_fits (cs_error_message s) \<and> names_fit (cs_names s)) \<and>
      broker_body kConnectResponse (cs_request_id s) bytes (connect_response_bytes s)"
    unfolding decode_broker_connect_response_def
    by (subst broker_decode_iff, (rule broker_parses)+)
      (use ascii in \<open>cases s; cases "cs_names s"; auto simp: wide_read_ascii names_fit_def connect_response_bytes_def
        object_name_list_def\<close>)
  with True show ?thesis by (simp add: encode_connect_response_iff)
next
  case False
  then have "\<not> names_fit (cs_names s)"
    using wide_fits_ascii by (auto simp: names_fit_def names_ascii_def)
  with False show ?thesis by (simp add: encode_connect_response_iff)
qed


text \<open>
  C31: The broker's messages have one encoding each: for every message type the encoder produces
  some bytes for a value exactly when the decoder accepts those bytes and returns that value; for
  the response to a connect the names must in addition be ASCII, the decoder alone does not check it.
\<close>

theorem broker_codecs_exact:
  "(encode_broker_connect q = Inr bytes \<longleftrightarrow> decode_broker_connect bytes = (q, None)) \<and>
   (encode_broker_disconnect d = Inr bytes \<longleftrightarrow> decode_broker_disconnect bytes = (d, None)) \<and>
   (encode_broker_format f = Inr bytes \<longleftrightarrow> decode_broker_format bytes = (f, None)) \<and>
   (encode_broker_connect_response a = Inr bytes \<longleftrightarrow>
      decode_broker_connect_response bytes = (a, None) \<and> names_ascii (cs_names a)) \<and>
   (encode_broker_disconnect_response b = Inr bytes \<longleftrightarrow> decode_broker_disconnect_response bytes = (b, None)) \<and>
   (encode_broker_format_response c = Inr bytes \<longleftrightarrow> decode_broker_format_response bytes = (c, None))"
  by (intro conjI connect_codec disconnect_codec format_codec connect_response_codec disconnect_response_codec
      format_response_codec)

lemma token_ascii: "is_object_token_character c \<Longrightarrow> (ucast (byte_of c) :: u16) \<le> 0x7F"
proof -
  assume "is_object_token_character c"
  then have "byte_of c \<le> 0x7A"
    by (auto simp: is_object_token_character_def byte_of_def intro: order_trans)
  then show ?thesis by (simp add: word_le_nat_alt unsigned_ucast_eq take_bit_nat_eq_self)
qed

lemma wide_literal_ascii: "\<forall>c \<in> set s. byte_of c \<le> 0x7F \<Longrightarrow> \<forall>c \<in> set (widen_ascii s). c \<le> 0x7F"
  by (auto simp: widen_ascii_def word_le_nat_alt unsigned_ucast_eq take_bit_nat_eq_self)

lemma made_names_fit:
  assumes "make_object_names e c g = Inr n" "w \<in> set (object_name_list n)"
  shows "wide_fits w \<and> length w \<le> 512"
proof -
  obtain s where ok: "token_ok e" "token_ok c" and w: "w = make_base_name e c g @ s" "s \<in> set object_suffixes"
    using object_names_of [OF assms(1)] assms(2) by auto
  have lit: "\<forall>x \<in> set kObjectNamePrefix \<union> set (widen_ascii ''.client.'') \<union> set (widen_ascii ''.generation.'') \<union>
      set hex_digits. x \<le> 0x7F" "\<forall>s \<in> set object_suffixes. (\<forall>x \<in> set s. x \<le> 0x7F) \<and> length s \<le> 24"
    "length kObjectNamePrefix + length (widen_ascii ''.client.'') + length (widen_ascii ''.generation.'') \<le> 64"
    by code_simp+
  have tok: "\<forall>x \<in> set (widen_ascii t). x \<le> 0x7F" "length (widen_ascii t) \<le> 64" if "token_ok t" for t
    using that token_ascii by (auto simp: token_ok_def widen_ascii_def kWindowsVirtualAsioMaxObjectTokenBytes_def)
  have hex: "length (generation_hex g) = 16" by (simp add: generation_hex_def)
  have "length w \<le> 512"
    using tok(2) [OF ok(1)] tok(2) [OF ok(2)] lit(2,3) w(2) hex by (auto simp: w(1) make_base_name_def)
  moreover have "\<forall>x \<in> set w. x \<le> 0x7F"
    unfolding w(1) make_base_name_def set_append
    using lit(1,2) tok(1) [OF ok(1)] tok(1) [OF ok(2)] w(2) generation_hex_digits [of g] by blast
  ultimately show ?thesis by (simp add: wide_fits_def kVirtualAsioBrokerMaxStringBytes_def)
qed

text \<open>
  Every connection can be answered: a response that carries the object names made for a
  connection and error texts within the string limit is encoded, whatever the tokens, and is
  decoded to itself.
\<close>

theorem connect_response_deliverable:
  assumes "make_object_names e c g = Inr (cs_names s)"
    and "length (cs_error_code s) \<le> 512" "length (cs_error_message s) \<le> 512"
  shows "\<exists>bytes. encode_broker_connect_response s = Inr bytes \<and>
    decode_broker_connect_response bytes = (s, None)"
proof -
  have fit: "wide_fits w \<and> length w \<le> 512" if "w \<in> set (object_name_list (cs_names s))" for w
    using made_names_fit [OF assms(1) that] .
  have "length (short_string_bytes t) = 2 + length t" for t by (simp add: short_string_bytes_def)
  then have "length (connect_response_bytes s) \<le> 5000"
    using assms(2,3) fit [of "on_mapping (cs_names s)"] fit [of "on_input_event (cs_names s)"]
      fit [of "on_output_event (cs_names s)"] fit [of "on_shutdown_event (cs_names s)"]
      fit [of "on_client_disconnect_event (cs_names s)"]
    by (simp add: connect_response_bytes_def object_name_list_def narrow_def bool_bytes_def)
  then have "encode_broker_connect_response s =
      Inr (broker_header kConnectResponse (cs_request_id s) (length (connect_response_bytes s)) @
        connect_response_bytes s)"
    unfolding encode_connect_response_iff
    using assms(2,3) fit
    by (simp add: names_fit_def broker_body_def short_string_fits_def kVirtualAsioBrokerMaxStringBytes_def
        kVirtualAsioBrokerMaxMessageBytes_def)
  then show ?thesis using connect_response_codec by blast
qed

definition demo_connect_response :: connect_response where
  "demo_connect_response = \<lparr>cs_request_id = 5, cs_accepted = True, cs_connection_generation = 7,
     cs_names = (case make_object_names ''main'' ''daw_1'' 7 of Inr n \<Rightarrow> n), cs_server_nonce_low = 1,
     cs_server_nonce_high = 2, cs_error_code = [], cs_error_message = []\<rparr>"

theorem connect_response_deliverable_witness:
  "\<exists>bytes. encode_broker_connect_response demo_connect_response = Inr bytes \<and>
     decode_broker_connect_response bytes = (demo_connect_response, None)"
proof -
  have "token_ok ''main''" "token_ok ''daw_1''" by code_simp+
  then have "make_object_names ''main'' ''daw_1'' 7 = Inr (cs_names demo_connect_response)"
    using make_object_names_ok [of "''main''" "''daw_1''" 7] by (auto simp: demo_connect_response_def)
  then show ?thesis by (rule connect_response_deliverable) (simp_all add: demo_connect_response_def)
qed

end
