(* ===== verification/RuntimeTopology.thy ===== *)
theory RuntimeTopology
  imports ControlCommand
begin

text \<open>
  \<^verbatim>\<open>core/service/audio_runtime_topology\<close>, \<^verbatim>\<open>audio_runtime_matrix_preset\<close> and
  \<^verbatim>\<open>audio_runtime_matrix_binding\<close>: the logical ports of a runtime configuration, the preset whose
  matrix has those ports, and the channel range each endpoint occupies on the axes of the matrix.
\<close>

section \<open>Ports\<close>

text \<open>\<^verbatim>\<open>std::to_string\<close> of an unsigned number.\<close>

definition digit :: "nat \<Rightarrow> char" where
  "digit d = char_of (48 + d)"

fun to_string :: "nat \<Rightarrow> string" where
  "to_string n = (if n < 10 then [digit n] else to_string (n div 10) @ [digit (n mod 10)])"

declare to_string.simps [simp del]

definition port_id :: "runtime_endpoint \<Rightarrow> nat \<Rightarrow> string" where
  "port_id e channel = rt_endpoint_id e @ ''.ch'' @ to_string (channel + 1)"

definition port_label :: "runtime_endpoint \<Rightarrow> nat \<Rightarrow> string" where
  "port_label e channel = rt_endpoint_id e @ '' Ch '' @ to_string (channel + 1)"

text \<open>\<^verbatim>\<open>for (channel = 0; channel < channel_count; ++channel)\<close>.\<close>

definition channels :: "runtime_endpoint \<Rightarrow> nat list" where
  "channels e = [0..<unat (rt_channel_count e)]"

section \<open>Topology\<close>

record runtime_port =
  ap_port_id :: string
  ap_endpoint_id :: string
  ap_direction :: runtime_direction
  ap_native_channel :: u32
  ap_clock_master :: bool

record runtime_topology =
  tp_endpoints :: "runtime_endpoint list"
  tp_ports :: "runtime_port list"
  tp_clock_master_index :: nat

definition endpoint_ports :: "runtime_endpoint \<Rightarrow> runtime_port list" where
  "endpoint_ports e = map (\<lambda>channel. \<lparr>ap_port_id = port_id e channel, ap_endpoint_id = rt_endpoint_id e,
     ap_direction = rt_direction e, ap_native_channel = rt_first_channel e + word_of_nat channel,
     ap_clock_master = rt_clock_master e\<rparr>) (channels e)"

definition append_ports :: "runtime_topology \<Rightarrow> runtime_topology" where
  "append_ports t = t\<lparr>tp_ports := tp_ports t @ concat (map endpoint_ports (tp_endpoints t))\<rparr>"

fun first_clock_master :: "nat \<Rightarrow> runtime_endpoint list \<Rightarrow> nat" where
  "first_clock_master index [] = 0"
| "first_clock_master index (e # es) =
     (if rt_clock_master e then index else first_clock_master (index + 1) es)"

text \<open>The initialiser of the legacy endpoints; members not named keep their defaults.\<close>

definition legacy_endpoint :: "string \<Rightarrow> string \<Rightarrow> runtime_direction \<Rightarrow> bool \<Rightarrow> runtime_endpoint" where
  "legacy_endpoint endpoint_id device_id direction clock_master =
     \<lparr>rt_endpoint_id = endpoint_id, rt_device_id = device_id, rt_direction = direction,
      rt_clock_master = clock_master, rt_first_channel = 0, rt_channel_count = 0,
      rt_backend = WasapiBackend, rt_device_group_id = [], rt_sample_rate = 0, rt_block_frames = 0\<rparr>"

definition build_audio_runtime_topology ::
  "runtime_configuration \<Rightarrow> sar_error list + runtime_topology" where
  "build_audio_runtime_topology c =
     (let errors = validate_audio_runtime_configuration c False
      in if errors \<noteq> [] then Inl errors
         else if rc_mode c = WasapiMatrix
         then Inr (append_ports \<lparr>tp_endpoints = rc_endpoints c, tp_ports = [],
                tp_clock_master_index = first_clock_master 0 (rc_endpoints c)\<rparr>)
         else
           let capture = (if rc_mode c = WasapiDuplex
                 then [legacy_endpoint ''wasapi.capture'' (rc_capture_device_id c) Capture False] else []);
               render = legacy_endpoint ''wasapi.render'' (rc_render_device_id c) Render True
           in Inr (append_ports \<lparr>tp_endpoints = capture @ [render], tp_ports = [],
                tp_clock_master_index = length capture\<rparr>))"

section \<open>Binding to the axes of a matrix\<close>

record graph_binding =
  gb_endpoint_id :: string
  gb_direction :: runtime_direction
  gb_graph_first_channel :: nat
  gb_channel_count :: nat
  gb_clock_master :: bool

definition port_missing :: "string \<Rightarrow> sar_error" where
  "port_missing p = mk_error ''audio_runtime_matrix_port_missing''
     (''Matrix does not contain runtime port '' @ [CHR 0x27] @ p @ [CHR 0x27, CHR ''.''])"

definition port_range_not_contiguous :: "runtime_endpoint \<Rightarrow> sar_error" where
  "port_range_not_contiguous e = mk_error ''audio_runtime_matrix_port_range_not_contiguous''
     (''Runtime endpoint '' @ [CHR 0x27] @ rt_endpoint_id e @ [CHR 0x27] @
      '' must occupy contiguous matrix channels in native order.'')"

fun find_port :: "route_endpoint list \<Rightarrow> string \<Rightarrow> nat option" where
  "find_port [] p = None"
| "find_port (x # xs) p = (if re_id x = p then Some 0 else map_option Suc (find_port xs p))"

text \<open>The loop over the channels: errors, \<^verbatim>\<open>first\<close> and \<^verbatim>\<open>complete\<close>.\<close>

fun bind_channels ::
  "runtime_endpoint \<Rightarrow> route_endpoint list \<Rightarrow> nat list \<Rightarrow> nat \<Rightarrow> bool \<Rightarrow> sar_error list \<times> nat \<times> bool" where
  "bind_channels e axis [] first complete = ([], first, complete)"
| "bind_channels e axis (channel # chs) first complete =
     (case find_port axis (port_id e channel) of
        None \<Rightarrow> (case bind_channels e axis chs first False of
                    (errors, r) \<Rightarrow> (port_missing (port_id e channel) # errors, r))
      | Some index \<Rightarrow>
          if channel = 0 then bind_channels e axis chs index complete
          else if index \<noteq> first + channel then ([port_range_not_contiguous e], first, False)
          else bind_channels e axis chs first complete)"

definition bind_endpoint ::
  "preset_matrix \<Rightarrow> runtime_endpoint \<Rightarrow> sar_error list \<times> graph_binding list" where
  "bind_endpoint m e =
     (let axis = (if rt_direction e = Capture then pm_inputs m else pm_outputs m)
      in case bind_channels e axis (channels e) 0 True of (errors, first, complete) \<Rightarrow>
        (errors, if complete
           then [\<lparr>gb_endpoint_id = rt_endpoint_id e, gb_direction = rt_direction e,
                  gb_graph_first_channel = first, gb_channel_count = unat (rt_channel_count e),
                  gb_clock_master = rt_clock_master e\<rparr>]
           else []))"

definition bind_audio_runtime_to_matrix ::
  "runtime_topology \<Rightarrow> preset_matrix \<Rightarrow> sar_error list + graph_binding list" where
  "bind_audio_runtime_to_matrix t m =
     (let bound = map (bind_endpoint m) (tp_endpoints t);
          errors = concat (map fst bound)
      in if errors \<noteq> [] then Inl errors else Inr (concat (map snd bound)))"

section \<open>The preset of a configuration\<close>

definition runtime_port_ids :: "runtime_configuration \<Rightarrow> runtime_direction \<Rightarrow> string set" where
  "runtime_port_ids c d =
     (if rc_mode c \<noteq> WasapiMatrix then {}
      else set (concat (map (\<lambda>e. map (port_id e) (channels e))
             (filter (\<lambda>e. rt_direction e = d) (rc_endpoints c)))))"

definition legacy_ports :: "runtime_direction \<Rightarrow> route_endpoint list" where
  "legacy_ports d =
     (if d = Capture
      then [\<lparr>re_id = ''wasapi-capture-l'', re_label = ''WASAPI Capture L''\<rparr>,
            \<lparr>re_id = ''wasapi-capture-r'', re_label = ''WASAPI Capture R''\<rparr>]
      else [\<lparr>re_id = ''wasapi-render-l'', re_label = ''WASAPI Render L''\<rparr>,
            \<lparr>re_id = ''wasapi-render-r'', re_label = ''WASAPI Render R''\<rparr>])"

definition legacy_port_ids :: "runtime_direction \<Rightarrow> string set" where
  "legacy_port_ids d =
     (if d = Capture then {''wasapi-capture-l'', ''wasapi-capture-r''}
      else {''wasapi-render-l'', ''wasapi-render-r''})"

definition desired_runtime_ports ::
  "runtime_configuration \<Rightarrow> runtime_direction \<Rightarrow> route_endpoint list" where
  "desired_runtime_ports c d =
     (if rc_mode c \<noteq> WasapiMatrix then legacy_ports d
      else concat (map (\<lambda>e. map (\<lambda>channel. \<lparr>re_id = port_id e channel, re_label = port_label e channel\<rparr>)
             (channels e)) (filter (\<lambda>e. rt_direction e = d) (rc_endpoints c))))"

definition reconcile_axis ::
  "route_endpoint list \<Rightarrow> runtime_configuration \<Rightarrow> runtime_configuration \<Rightarrow> runtime_direction \<Rightarrow>
   route_endpoint list" where
  "reconcile_axis current previous_c next_c d =
     (let removed = runtime_port_ids previous_c d \<union> legacy_port_ids d;
          desired = (if rc_mode next_c = WasapiMatrix then runtime_port_ids next_c d else legacy_port_ids d)
      in desired_runtime_ports next_c d @
         filter (\<lambda>p. re_id p \<notin> removed \<and> re_id p \<notin> desired) current)"

definition port_ids :: "route_endpoint list \<Rightarrow> string set" where
  "port_ids ports = set (map re_id ports)"

definition add_route_if_ports_exist ::
  "string set \<Rightarrow> string set \<Rightarrow> string \<times> string \<Rightarrow> preset_route list \<Rightarrow> preset_route list" where
  "add_route_if_ports_exist inputs outputs pair routes =
     (case pair of (i, out) \<Rightarrow>
        if i \<notin> inputs \<or> out \<notin> outputs then routes
        else if \<exists>r \<in> set routes. pr_input_id r = i \<and> pr_output_id r = out then routes
        else routes @ [\<lparr>pr_input_id = i, pr_output_id = out, pr_gain = 0x3F800000, pr_muted = False\<rparr>])"

definition legacy_routes :: "(string \<times> string) list" where
  "legacy_routes = [(''asio-output-l'', ''wasapi-render-l''), (''asio-output-r'', ''wasapi-render-r''),
     (''wasapi-capture-l'', ''asio-input-l''), (''wasapi-capture-r'', ''asio-input-r'')]"

definition reconcile_audio_runtime_matrix_preset ::
  "preset_document \<Rightarrow> runtime_configuration \<Rightarrow> runtime_configuration \<Rightarrow> sar_error list + preset_document" where
  "reconcile_audio_runtime_matrix_preset current previous_c next_c =
     (let configuration_errors = validate_audio_runtime_configuration next_c False
      in if configuration_errors \<noteq> [] then Inl configuration_errors
         else
           let m = pd_matrix current;
               inputs = reconcile_axis (pm_inputs m) previous_c next_c Capture;
               outputs = reconcile_axis (pm_outputs m) previous_c next_c Render;
               kept = filter (\<lambda>r. pr_input_id r \<in> port_ids inputs \<and> pr_output_id r \<in> port_ids outputs)
                        (pm_routes m);
               routes = (if rc_mode next_c \<noteq> WasapiMatrix
                 then fold (add_route_if_ports_exist (port_ids inputs) (port_ids outputs)) legacy_routes kept
                 else kept);
               candidate = current\<lparr>pd_matrix := \<lparr>pm_inputs = inputs, pm_outputs = outputs, pm_routes = routes\<rparr>\<rparr>
           in if validate_preset candidate \<noteq> [] then Inl (validate_preset candidate) else Inr candidate)"


section \<open>Port ids are unambiguous\<close>

definition decimal :: "string \<Rightarrow> nat" where
  "decimal s = fold (\<lambda>c n. 10 * n + (of_char c - 48)) s 0"

lemma of_char_digit: "d < 10 \<Longrightarrow> of_char (digit d) = 48 + d"
  by (simp add: digit_def)

lemma decimal_to_string: "decimal (to_string n) = n"
proof (induction n rule: to_string.induct)
  case (1 n)
  have "decimal (s @ [digit d]) = 10 * decimal s + d" if "d < 10" for s d
    using that by (simp add: decimal_def of_char_digit)
  moreover have "decimal [digit d] = d" if "d < 10" for d
    using that by (simp add: decimal_def of_char_digit)
  ultimately show ?case using 1 by (subst to_string.simps) simp
qed

lemma to_string_inject [simp]: "to_string m = to_string n \<longleftrightarrow> m = n"
  by (metis decimal_to_string)

lemma to_string_digits: "c \<in> set (to_string n) \<Longrightarrow> \<exists>d < 10. c = digit d"
proof (induction n rule: to_string.induct)
  case (1 n)
  show ?case
  proof (cases "n < 10 \<or> c \<notin> set (to_string (n div 10))")
    case True
    then have "c = digit (n mod 10)"
      using "1.prems" by (subst (asm) to_string.simps) (auto split: if_splits)
    then show ?thesis by (intro exI [of _ "n mod 10"]) simp
  next
    case False
    then show ?thesis using "1.IH" by simp
  qed
qed

lemma to_string_no_dot: "CHR ''.'' \<notin> set (to_string n)"
proof
  assume "CHR ''.'' \<in> set (to_string n)"
  then obtain d where d: "d < 10" "CHR ''.'' = digit d" using to_string_digits by blast
  have "of_char CHR ''.'' = (46 :: nat)" by simp
  with d show False using of_char_digit [OF d(1)] by simp
qed

lemma to_string_nonempty [simp]: "to_string n \<noteq> []"
  by (subst to_string.simps) simp

lemma port_id_inject: "port_id e k = port_id f l \<longleftrightarrow> rt_endpoint_id e = rt_endpoint_id f \<and> k = l"
proof -
  have "CHR ''.'' \<notin> set (''ch'' @ to_string (k + 1))" "CHR ''.'' \<notin> set (''ch'' @ to_string (l + 1))"
    using to_string_no_dot by simp_all
  from split_at_last [OF this, of "rt_endpoint_id e" "rt_endpoint_id f"]
  show ?thesis by (simp add: port_id_def)
qed

section \<open>The runtime ports of a configuration\<close>

definition endpoint_axis_ports :: "runtime_endpoint \<Rightarrow> route_endpoint list" where
  "endpoint_axis_ports e = map (\<lambda>channel. \<lparr>re_id = port_id e channel, re_label = port_label e channel\<rparr>) (channels e)"

definition of_direction :: "runtime_direction \<Rightarrow> runtime_endpoint list \<Rightarrow> runtime_endpoint list" where
  "of_direction d es = filter (\<lambda>e. rt_direction e = d) es"

lemma desired_matrix:
  "rc_mode c = WasapiMatrix \<Longrightarrow>
     desired_runtime_ports c d = concat (map endpoint_axis_ports (of_direction d (rc_endpoints c)))"
  by (simp add: desired_runtime_ports_def endpoint_axis_ports_def [abs_def] of_direction_def)

lemma runtime_port_ids_matrix:
  "rc_mode c = WasapiMatrix \<Longrightarrow> runtime_port_ids c d = re_id ` set (desired_runtime_ports c d)"
  by (simp add: runtime_port_ids_def desired_runtime_ports_def image_UN image_image)

lemma distinct_endpoint_ports:
  "distinct (map rt_endpoint_id es) \<Longrightarrow> distinct (map re_id (concat (map endpoint_axis_ports es)))"
proof (induction es)
  case (Cons e es)
  have "distinct (map re_id (endpoint_axis_ports e))"
    by (simp add: endpoint_axis_ports_def channels_def comp_def distinct_map inj_on_def port_id_inject)
  moreover have "re_id ` set (endpoint_axis_ports e) \<inter> re_id ` set (concat (map endpoint_axis_ports es)) = {}"
    using Cons.prems by (fastforce simp: endpoint_axis_ports_def port_id_inject)
  ultimately show ?case using Cons by simp
qed simp

lemma valid_matrix_configuration:
  assumes "rc_mode c = WasapiMatrix" "validate_audio_runtime_configuration c False = []"
  shows "matrix_endpoints_ok (rc_endpoints c)"
  using assms by (simp add: validate_audio_runtime_configuration_def validate_matrix_endpoints_Nil split: if_splits)

lemma reconcile_axis_matrix:
  "rc_mode next_c = WasapiMatrix \<Longrightarrow> reconcile_axis current previous_c next_c d =
     desired_runtime_ports next_c d @
     filter (\<lambda>p. re_id p \<notin> runtime_port_ids previous_c d \<union> legacy_port_ids d \<union> runtime_port_ids next_c d) current"
  by (simp add: reconcile_axis_def)

section \<open>Finding the channels of an endpoint\<close>

lemma find_port_nth:
  "distinct (map re_id axis) \<Longrightarrow> i < length axis \<Longrightarrow> find_port axis (re_id (axis ! i)) = Some i"
proof (induction axis arbitrary: i)
  case (Cons x xs)
  then show ?case by (cases i) (auto simp: nth_Cons')
qed simp

lemma find_port_endpoint:
  assumes "distinct (map re_id axis)" "axis = before @ endpoint_axis_ports e @ after" "k \<in> set (channels e)"
  shows "find_port axis (port_id e k) = Some (length before + k)"
proof -
  have "k < length (endpoint_axis_ports e)" using assms(3) by (simp add: endpoint_axis_ports_def channels_def)
  then have "length before + k < length axis" "axis ! (length before + k) = endpoint_axis_ports e ! k"
    using assms(2) by (simp_all add: nth_append)
  moreover have "re_id (endpoint_axis_ports e ! k) = port_id e k"
    using assms(3) by (simp add: endpoint_axis_ports_def channels_def)
  ultimately show ?thesis using find_port_nth [OF assms(1)] by metis
qed

lemma bind_later_channels:
  "\<forall>k \<in> set chs. 0 < k \<and> find_port axis (port_id e k) = Some (first + k) \<Longrightarrow>
     bind_channels e axis chs first complete = ([], first, complete)"
  by (induction chs) auto

lemma bind_channels_found:
  assumes "\<forall>k \<in> set (channels e). find_port axis (port_id e k) = Some (first + k)" "rt_channel_count e \<noteq> 0"
  shows "bind_channels e axis (channels e) 0 True = ([], first, True)"
proof -
  have "0 < unat (rt_channel_count e)" using assms(2) by (simp add: unat_gt_0)
  then have "channels e = 0 # [1..<unat (rt_channel_count e)]"
    by (simp add: channels_def upt_conv_Cons)
  with assms(1) show ?thesis
    using bind_later_channels [of "[1..<unat (rt_channel_count e)]" axis e first True] by simp
qed


section \<open>The axis an endpoint is on\<close>

definition axis_of :: "preset_matrix \<Rightarrow> runtime_endpoint \<Rightarrow> route_endpoint list" where
  "axis_of m e = (if rt_direction e = Capture then pm_inputs m else pm_outputs m)"

text \<open>The channels that the earlier endpoints of the same direction take.\<close>

definition channels_before :: "runtime_endpoint list \<Rightarrow> nat \<Rightarrow> nat" where
  "channels_before es i =
     (\<Sum>e \<leftarrow> of_direction (rt_direction (es ! i)) (take i es). unat (rt_channel_count e))"

definition expected_binding :: "runtime_endpoint list \<Rightarrow> nat \<Rightarrow> graph_binding" where
  "expected_binding es i = \<lparr>gb_endpoint_id = rt_endpoint_id (es ! i), gb_direction = rt_direction (es ! i),
     gb_graph_first_channel = channels_before es i, gb_channel_count = unat (rt_channel_count (es ! i)),
     gb_clock_master = rt_clock_master (es ! i)\<rparr>"

lemma desired_ports_split:
  assumes "rc_mode c = WasapiMatrix" "i < length (rc_endpoints c)"
  shows "\<exists>before after. length before = channels_before (rc_endpoints c) i \<and>
    desired_runtime_ports c (rt_direction (rc_endpoints c ! i)) =
      before @ endpoint_axis_ports (rc_endpoints c ! i) @ after"
proof -
  let ?es = "rc_endpoints c"
  let ?d = "rt_direction (?es ! i)"
  let ?before = "concat (map endpoint_axis_ports (of_direction ?d (take i ?es)))"
  let ?after = "concat (map endpoint_axis_ports (of_direction ?d (drop (Suc i) ?es)))"
  have "?es = take i ?es @ ?es ! i # drop (Suc i) ?es" using assms(2) by (rule id_take_nth_drop)
  then have "of_direction ?d ?es = of_direction ?d (take i ?es) @ ?es ! i # of_direction ?d (drop (Suc i) ?es)"
    unfolding of_direction_def
    by (metis (mono_tags, lifting) filter.simps(2) filter_append)
  then have "desired_runtime_ports c ?d = ?before @ endpoint_axis_ports (?es ! i) @ ?after"
    using assms(1) by (simp add: desired_matrix)
  moreover have "length ?before = channels_before ?es i"
    by (simp add: channels_before_def length_concat comp_def endpoint_axis_ports_def channels_def)
  ultimately show ?thesis by blast
qed

lemma reconciled_preset:
  assumes "reconcile_audio_runtime_matrix_preset current previous_c next_c = Inr p"
  shows "validate_audio_runtime_configuration next_c False = []" "preset_wf p"
    "pm_inputs (pd_matrix p) = reconcile_axis (pm_inputs (pd_matrix current)) previous_c next_c Capture"
    "pm_outputs (pd_matrix p) = reconcile_axis (pm_outputs (pd_matrix current)) previous_c next_c Render"
  using assms by (auto simp: reconcile_audio_runtime_matrix_preset_def Let_def validate_preset_Nil split: if_splits)

lemma reconciled_axis:
  assumes "rc_mode next_c = WasapiMatrix" "e \<in> set (rc_endpoints next_c)"
    and "reconcile_audio_runtime_matrix_preset current previous_c next_c = Inr p"
  shows "\<exists>kept. axis_of (pd_matrix p) e = desired_runtime_ports next_c (rt_direction e) @ kept"
    and "distinct (map re_id (axis_of (pd_matrix p) e))"
proof -
  note r = reconciled_preset [OF assms(3)]
  have "rt_direction e = Capture \<or> rt_direction e = Render"
    using valid_matrix_configuration [OF assms(1) r(1)] assms(2)
    by (auto simp: matrix_endpoints_ok_def runtime_endpoint_ok_def)
  then show "\<exists>kept. axis_of (pd_matrix p) e = desired_runtime_ports next_c (rt_direction e) @ kept"
    by (auto simp: axis_of_def r(3,4) reconcile_axis_matrix [OF assms(1)])
  show "distinct (map re_id (axis_of (pd_matrix p) e))"
    using r(2) by (simp add: axis_of_def preset_wf_def endpoints_ok_def)
qed

lemma bind_endpoint_expected:
  assumes "rc_mode next_c = WasapiMatrix" "i < length (rc_endpoints next_c)"
    and "reconcile_audio_runtime_matrix_preset current previous_c next_c = Inr p"
  shows "bind_endpoint (pd_matrix p) (rc_endpoints next_c ! i) = ([], [expected_binding (rc_endpoints next_c) i])"
proof -
  let ?e = "rc_endpoints next_c ! i"
  have e: "?e \<in> set (rc_endpoints next_c)" using assms(2) by simp
  have count: "rt_channel_count ?e \<noteq> 0"
    using valid_matrix_configuration [OF assms(1) reconciled_preset(1) [OF assms(3)]] e
    by (auto simp: matrix_endpoints_ok_def runtime_endpoint_ok_def)
  obtain kept where kept: "axis_of (pd_matrix p) ?e = desired_runtime_ports next_c (rt_direction ?e) @ kept"
    using reconciled_axis(1) [OF assms(1) e assms(3)] by blast
  obtain before after where split: "length before = channels_before (rc_endpoints next_c) i"
    "desired_runtime_ports next_c (rt_direction ?e) = before @ endpoint_axis_ports ?e @ after"
    using desired_ports_split [OF assms(1,2)] by blast
  have axis: "axis_of (pd_matrix p) ?e = before @ endpoint_axis_ports ?e @ (after @ kept)"
    using kept split by simp
  have "\<forall>k \<in> set (channels ?e). find_port (axis_of (pd_matrix p) ?e) (port_id ?e k) =
      Some (channels_before (rc_endpoints next_c) i + k)"
    unfolding split(1) [symmetric]
    by (intro ballI find_port_endpoint [OF reconciled_axis(2) [OF assms(1) e assms(3)] axis])
  from bind_channels_found [OF this count] show ?thesis
    by (simp add: bind_endpoint_def axis_of_def [symmetric] expected_binding_def)
qed

section \<open>When a preset can be reconciled\<close>

lemma reconcile_axis_distinct:
  assumes "rc_mode next_c = WasapiMatrix" "distinct (map rt_endpoint_id (rc_endpoints next_c))"
    and "distinct (map re_id current)"
  shows "distinct (map re_id (reconcile_axis current previous_c next_c d))"
proof -
  have "distinct (map rt_endpoint_id (of_direction d (rc_endpoints next_c)))"
    using assms(2) by (simp add: of_direction_def distinct_map_filter)
  from distinct_endpoint_ports [OF this]
  have "distinct (map re_id (desired_runtime_ports next_c d))" by (simp add: desired_matrix [OF assms(1)])
  then show ?thesis
    using assms(3)
    by (auto simp: reconcile_axis_matrix [OF assms(1)] distinct_map_filter runtime_port_ids_matrix [OF assms(1)] image_iff)
qed

lemma desired_named:
  assumes "rc_mode next_c = WasapiMatrix" "\<forall>e \<in> set (rc_endpoints next_c). runtime_endpoint_ok e"
    and "x \<in> set (desired_runtime_ports next_c d)"
  shows "re_id x \<noteq> [] \<and> re_label x \<noteq> []"
  using assms
  by (auto simp: desired_matrix of_direction_def endpoint_axis_ports_def port_id_def port_label_def)

lemma render_ports_exist:
  assumes "rc_mode next_c = WasapiMatrix" "matrix_endpoints_ok (rc_endpoints next_c)"
  shows "desired_runtime_ports next_c Render \<noteq> []"
proof -
  have "length (filter rt_clock_master (rc_endpoints next_c)) = 1"
    using assms(2) by (simp add: matrix_endpoints_ok_def)
  then obtain e where e: "e \<in> set (rc_endpoints next_c)" "rt_clock_master e"
    by (metis filter_False length_0_conv zero_neq_one)
  then have ok: "rt_direction e = Render" "rt_channel_count e \<noteq> 0"
    using assms(2) by (auto simp: matrix_endpoints_ok_def runtime_endpoint_ok_def)
  have "e \<in> set (of_direction Render (rc_endpoints next_c))" using e ok by (simp add: of_direction_def)
  moreover have "endpoint_axis_ports e \<noteq> []"
    using ok by (simp add: endpoint_axis_ports_def channels_def unat_gt_0)
  ultimately show ?thesis by (auto simp: desired_matrix [OF assms(1)])
qed

lemma reconciled_endpoints_ok:
  assumes "rc_mode next_c = WasapiMatrix" "matrix_endpoints_ok (rc_endpoints next_c)" "endpoints_ok current"
  shows "endpoints_ok (reconcile_axis current previous_c next_c d) \<longleftrightarrow>
    reconcile_axis current previous_c next_c d \<noteq> []"
proof -
  have ok: "\<forall>e \<in> set (rc_endpoints next_c). runtime_endpoint_ok e"
    "distinct (map rt_endpoint_id (rc_endpoints next_c))" "distinct (map re_id current)"
    using assms(2,3) by (simp_all add: matrix_endpoints_ok_def endpoints_ok_def)
  have "re_id x \<noteq> [] \<and> re_label x \<noteq> []" if "x \<in> set (reconcile_axis current previous_c next_c d)" for x
    using that desired_named [OF assms(1) ok(1), of x d] assms(3)
    by (auto simp: reconcile_axis_matrix [OF assms(1)] endpoints_ok_def)
  with reconcile_axis_distinct [OF assms(1) ok(2,3)] show ?thesis by (auto simp: endpoints_ok_def)
qed

lemma kept_routes_wf:
  assumes "preset_wf current"
  shows "preset_wf (current\<lparr>pd_matrix := \<lparr>pm_inputs = ins, pm_outputs = outs,
      pm_routes = filter (\<lambda>r. pr_input_id r \<in> port_ids ins \<and> pr_output_id r \<in> port_ids outs)
        (pm_routes (pd_matrix current))\<rparr>\<rparr>) \<longleftrightarrow>
    length ins \<le> kMaximumMatrixChannels \<and> length outs \<le> kMaximumMatrixChannels \<and> endpoints_ok ins \<and> endpoints_ok outs"
proof -
  have "length (filter P (pm_routes (pd_matrix current))) \<le> kMaximumRoutes" for P
    by (rule order_trans [OF length_filter_le]) (use assms in \<open>simp add: preset_wf_def\<close>)
  then show ?thesis
    using assms by (auto simp: preset_wf_def port_ids_def distinct_map_filter)
qed

lemma reconcile_accepts:
  assumes "preset_wf current" "rc_mode next_c = WasapiMatrix"
  shows "(\<exists>p. reconcile_audio_runtime_matrix_preset current previous_c next_c = Inr p) \<longleftrightarrow>
    validate_audio_runtime_configuration next_c False = [] \<and>
    length (reconcile_axis (pm_inputs (pd_matrix current)) previous_c next_c Capture) \<le> kMaximumMatrixChannels \<and>
    length (reconcile_axis (pm_outputs (pd_matrix current)) previous_c next_c Render) \<le> kMaximumMatrixChannels \<and>
    reconcile_axis (pm_inputs (pd_matrix current)) previous_c next_c Capture \<noteq> []"
    (is "?accepted \<longleftrightarrow> ?valid \<and> ?limits")
proof (cases ?valid)
  case True
  let ?ins = "reconcile_axis (pm_inputs (pd_matrix current)) previous_c next_c Capture"
  let ?outs = "reconcile_axis (pm_outputs (pd_matrix current)) previous_c next_c Render"
  have ok: "matrix_endpoints_ok (rc_endpoints next_c)" by (rule valid_matrix_configuration [OF assms(2) True])
  have axes: "endpoints_ok (pm_inputs (pd_matrix current))" "endpoints_ok (pm_outputs (pd_matrix current))"
    using assms(1) by (simp_all add: preset_wf_def)
  have "?outs \<noteq> []"
    using render_ports_exist [OF assms(2) ok] by (simp add: reconcile_axis_matrix [OF assms(2)])
  moreover have "?accepted \<longleftrightarrow> preset_wf (current\<lparr>pd_matrix := \<lparr>pm_inputs = ?ins, pm_outputs = ?outs,
      pm_routes = filter (\<lambda>r. pr_input_id r \<in> port_ids ?ins \<and> pr_output_id r \<in> port_ids ?outs)
        (pm_routes (pd_matrix current))\<rparr>\<rparr>)"
    using True assms(2) by (simp add: reconcile_audio_runtime_matrix_preset_def Let_def validate_preset_Nil)
  ultimately show ?thesis
    unfolding kept_routes_wf [OF assms(1)] reconciled_endpoints_ok [OF assms(2) ok axes(1)]
      reconciled_endpoints_ok [OF assms(2) ok axes(2)]
    using True by blast
next
  case False
  then show ?thesis by (simp add: reconcile_audio_runtime_matrix_preset_def)
qed


lemma reconciled_binds:
  assumes "rc_mode next_c = WasapiMatrix"
    and "reconcile_audio_runtime_matrix_preset current previous_c next_c = Inr p"
  shows "\<exists>t. build_audio_runtime_topology next_c = Inr t \<and>
    bind_audio_runtime_to_matrix t (pd_matrix p) =
      Inr (map (expected_binding (rc_endpoints next_c)) [0..<length (rc_endpoints next_c)])"
proof -
  let ?es = "rc_endpoints next_c"
  let ?t = "append_ports \<lparr>tp_endpoints = ?es, tp_ports = [], tp_clock_master_index = first_clock_master 0 ?es\<rparr>"
  have "build_audio_runtime_topology next_c = Inr ?t"
    using assms(1) reconciled_preset(1) [OF assms(2)] by (simp add: build_audio_runtime_topology_def)
  moreover have "map (bind_endpoint (pd_matrix p)) ?es = map (\<lambda>i. ([], [expected_binding ?es i])) [0..<length ?es]"
    by (rule nth_equalityI) (use bind_endpoint_expected [OF assms(1) _ assms(2)] in simp_all)
  then have "bind_audio_runtime_to_matrix ?t (pd_matrix p) = Inr (map (expected_binding ?es) [0..<length ?es])"
    by (simp add: bind_audio_runtime_to_matrix_def append_ports_def Let_def comp_def)
  ultimately show ?thesis by blast
qed

section \<open>Properties\<close>

text \<open>
  C32: A reconciled preset can be bound: once the preset of a matrix configuration has been built, its
  topology builds too and the binding finds every port, giving each endpoint the contiguous
  channel range that follows the ranges of the earlier endpoints of its direction.
\<close>

theorem reconciled_matrix_binds:
  assumes "rc_mode next_c = WasapiMatrix"
    and "reconcile_audio_runtime_matrix_preset current previous_c next_c = Inr p"
  shows "\<exists>t. build_audio_runtime_topology next_c = Inr t \<and>
    bind_audio_runtime_to_matrix t (pd_matrix p) =
      Inr (map (expected_binding (rc_endpoints next_c)) [0..<length (rc_endpoints next_c)])"
  by (rule reconciled_binds [OF assms])


definition demo_matrix_configuration :: runtime_configuration where
  "demo_matrix_configuration = default_runtime_configuration\<lparr>rc_mode := WasapiMatrix, rc_endpoints :=
     [default_runtime_endpoint\<lparr>rt_endpoint_id := ''mic'', rt_device_id := ''d1'', rt_channel_count := 2\<rparr>,
      default_runtime_endpoint\<lparr>rt_endpoint_id := ''spk'', rt_device_id := ''d2'', rt_direction := Render,
        rt_clock_master := True, rt_channel_count := 2\<rparr>]\<rparr>"

lemma demo_matrix_configuration_ok:
  "rc_mode demo_matrix_configuration = WasapiMatrix"
  "validate_audio_runtime_configuration demo_matrix_configuration False = []"
  "length (reconcile_axis (pm_inputs (pd_matrix demo_preset)) default_runtime_configuration demo_matrix_configuration Capture) = 3"
  "length (reconcile_axis (pm_outputs (pd_matrix demo_preset)) default_runtime_configuration demo_matrix_configuration Render) = 3"
  "reconcile_axis (pm_inputs (pd_matrix demo_preset)) default_runtime_configuration demo_matrix_configuration Capture \<noteq> []"
  by code_simp+

lemma demo_reconciled:
  "\<exists>p. reconcile_audio_runtime_matrix_preset demo_preset default_runtime_configuration demo_matrix_configuration = Inr p"
  unfolding reconcile_accepts [OF demo_preset_wf(1) demo_matrix_configuration_ok(1)]
  using demo_matrix_configuration_ok by (simp add: kMaximumMatrixChannels_def)

theorem reconciled_matrix_binds_witness:
  "\<exists>p t bs. reconcile_audio_runtime_matrix_preset demo_preset default_runtime_configuration demo_matrix_configuration = Inr p \<and>
     build_audio_runtime_topology demo_matrix_configuration = Inr t \<and>
     bind_audio_runtime_to_matrix t (pd_matrix p) = Inr bs \<and> length bs = 2"
proof -
  obtain p where p: "reconcile_audio_runtime_matrix_preset demo_preset default_runtime_configuration
      demo_matrix_configuration = Inr p"
    using demo_reconciled by blast
  moreover have "length (rc_endpoints demo_matrix_configuration) = 2" by code_simp
  ultimately show ?thesis
    using reconciled_matrix_binds [OF demo_matrix_configuration_ok(1) p] by fastforce
qed

text \<open>
  When a preset can take a matrix configuration: a valid preset is reconciled exactly when the
  configuration is valid, both new axes are within the channel limit and an input is left; no
  combination of endpoint ids and retained ports can make the ports ambiguous.
\<close>

theorem reconcile_matrix_accepts_iff:
  assumes "preset_wf current" "rc_mode next_c = WasapiMatrix"
  shows "(\<exists>p. reconcile_audio_runtime_matrix_preset current previous_c next_c = Inr p) \<longleftrightarrow>
    validate_audio_runtime_configuration next_c False = [] \<and>
    length (reconcile_axis (pm_inputs (pd_matrix current)) previous_c next_c Capture) \<le> kMaximumMatrixChannels \<and>
    length (reconcile_axis (pm_outputs (pd_matrix current)) previous_c next_c Render) \<le> kMaximumMatrixChannels \<and>
    reconcile_axis (pm_inputs (pd_matrix current)) previous_c next_c Capture \<noteq> []"
  by (rule reconcile_accepts [OF assms])

theorem reconcile_matrix_accepts_iff_witness:
  "\<exists>p. reconcile_audio_runtime_matrix_preset demo_preset default_runtime_configuration demo_matrix_configuration = Inr p"
  unfolding reconcile_matrix_accepts_iff [OF demo_preset_wf(1) demo_matrix_configuration_ok(1)]
  using demo_matrix_configuration_ok by (simp add: kMaximumMatrixChannels_def)

section \<open>Reconciling twice\<close>

lemma desired_port_ids:
  "re_id ` set (desired_runtime_ports c d) =
     (if rc_mode c = WasapiMatrix then runtime_port_ids c d else legacy_port_ids d)"
  by (auto simp: runtime_port_ids_matrix desired_runtime_ports_def legacy_ports_def legacy_port_ids_def)

lemma reconcile_axis_again:
  "reconcile_axis (reconcile_axis current previous_c next_c d) next_c next_c d =
     reconcile_axis current previous_c next_c d"
proof -
  let ?desired = "if rc_mode next_c = WasapiMatrix then runtime_port_ids next_c d else legacy_port_ids d"
  have ids: "re_id x \<in> ?desired" if "x \<in> set (desired_runtime_ports next_c d)" for x
    using that by (simp add: desired_port_ids [symmetric])
  have none: "runtime_port_ids next_c d = {}" if "rc_mode next_c \<noteq> WasapiMatrix"
    using that by (simp add: runtime_port_ids_def)
  have "filter (\<lambda>p. re_id p \<notin> runtime_port_ids next_c d \<union> legacy_port_ids d \<and> re_id p \<notin> ?desired)
      (desired_runtime_ports next_c d) = []"
    using ids by (simp add: filter_empty_conv)
  then show ?thesis
    unfolding reconcile_axis_def Let_def filter_append filter_filter
    by (simp only: append_Nil) (intro arg_cong2 [where f = "(@)"] refl filter_cong, use none in auto)
qed

lemma add_route_pair:
  "add_route_if_ports_exist ins outs (i, out) routes =
     (if i \<notin> ins \<or> out \<notin> outs \<or> (\<exists>r \<in> set routes. pr_input_id r = i \<and> pr_output_id r = out) then routes
      else routes @ [\<lparr>pr_input_id = i, pr_output_id = out, pr_gain = 0x3F800000, pr_muted = False\<rparr>])"
  by (simp add: add_route_if_ports_exist_def)

lemma added_routes_present:
  assumes "\<forall>r \<in> set routes. pr_input_id r \<in> ins \<and> pr_output_id r \<in> outs"
  shows "\<forall>r \<in> set (fold (add_route_if_ports_exist ins outs) pairs routes). pr_input_id r \<in> ins \<and> pr_output_id r \<in> outs"
  using assms
proof (induction pairs arbitrary: routes)
  case (Cons q pairs)
  have "\<forall>r \<in> set (add_route_if_ports_exist ins outs q routes). pr_input_id r \<in> ins \<and> pr_output_id r \<in> outs"
    using Cons.prems by (cases q) (auto simp: add_route_pair)
  from Cons.IH [OF this] show ?case by simp
qed simp

lemma added_routes_grow: "set routes \<subseteq> set (fold (add_route_if_ports_exist ins outs) pairs routes)"
proof (induction pairs arbitrary: routes)
  case (Cons q pairs)
  have "set routes \<subseteq> set (add_route_if_ports_exist ins outs q routes)"
    by (cases q) (auto simp: add_route_pair)
  with Cons [of "add_route_if_ports_exist ins outs q routes"] show ?case by simp
qed simp

lemma add_route_again:
  "\<forall>(i, out) \<in> set pairs. i \<in> ins \<longrightarrow> out \<in> outs \<longrightarrow> (\<exists>r \<in> set routes. pr_input_id r = i \<and> pr_output_id r = out) \<Longrightarrow>
     fold (add_route_if_ports_exist ins outs) pairs routes = routes"
  by (induction pairs) (auto simp: add_route_pair)

lemma added_routes_all:
  "\<forall>(i, out) \<in> set pairs. i \<in> ins \<longrightarrow> out \<in> outs \<longrightarrow>
     (\<exists>r \<in> set (fold (add_route_if_ports_exist ins outs) pairs routes). pr_input_id r = i \<and> pr_output_id r = out)"
proof (induction pairs arbitrary: routes)
  case (Cons q pairs)
  obtain i out where q: "q = (i, out)" by (cases q)
  let ?step = "add_route_if_ports_exist ins outs q routes"
  have "\<exists>r \<in> set ?step. pr_input_id r = i \<and> pr_output_id r = out" if "i \<in> ins" "out \<in> outs"
    using that by (auto simp: q add_route_pair)
  then have "\<exists>r \<in> set (fold (add_route_if_ports_exist ins outs) pairs ?step). pr_input_id r = i \<and> pr_output_id r = out"
    if "i \<in> ins" "out \<in> outs"
    using that added_routes_grow [of ?step ins outs pairs] by blast
  with Cons [of ?step] show ?case by (auto simp: q)
qed simp

definition reconciled_routes ::
  "bool \<Rightarrow> string set \<Rightarrow> string set \<Rightarrow> preset_route list \<Rightarrow> preset_route list" where
  "reconciled_routes matrix ins outs routes =
     (let kept = filter (\<lambda>r. pr_input_id r \<in> ins \<and> pr_output_id r \<in> outs) routes
      in if matrix then kept else fold (add_route_if_ports_exist ins outs) legacy_routes kept)"

lemma reconciled_routes_present:
  "\<forall>r \<in> set (reconciled_routes matrix ins outs routes). pr_input_id r \<in> ins \<and> pr_output_id r \<in> outs"
proof -
  let ?kept = "filter (\<lambda>r. pr_input_id r \<in> ins \<and> pr_output_id r \<in> outs) routes"
  have kept: "\<forall>r \<in> set ?kept. pr_input_id r \<in> ins \<and> pr_output_id r \<in> outs" by simp
  show ?thesis
  proof (cases matrix)
    case True
    show ?thesis unfolding reconciled_routes_def Let_def if_P [OF True] by (rule kept)
  next
    case False
    show ?thesis unfolding reconciled_routes_def Let_def if_not_P [OF False] by (rule added_routes_present [OF kept])
  qed
qed

lemma reconciled_routes_again:
  "reconciled_routes matrix ins outs (reconciled_routes matrix ins outs routes) = reconciled_routes matrix ins outs routes"
proof -
  let ?r = "reconciled_routes matrix ins outs routes"
  have kept: "filter (\<lambda>r. pr_input_id r \<in> ins \<and> pr_output_id r \<in> outs) ?r = ?r"
    using reconciled_routes_present by (simp add: filter_id_conv)
  show ?thesis
  proof (cases matrix)
    case True
    then show ?thesis using kept by (simp add: reconciled_routes_def)
  next
    case False
    then have r: "?r = fold (add_route_if_ports_exist ins outs) legacy_routes
        (filter (\<lambda>r. pr_input_id r \<in> ins \<and> pr_output_id r \<in> outs) routes)"
      by (simp only: reconciled_routes_def Let_def if_False)
    have "fold (add_route_if_ports_exist ins outs) legacy_routes ?r = ?r"
      unfolding r by (intro add_route_again added_routes_all)
    then show ?thesis
      by (subst reconciled_routes_def) (simp only: Let_def kept if_not_P [OF False])
  qed
qed

lemma reconcile_result:
  "reconcile_audio_runtime_matrix_preset current previous_c next_c = Inr p \<longleftrightarrow>
     validate_audio_runtime_configuration next_c False = [] \<and> preset_wf p \<and>
     (let ins = reconcile_axis (pm_inputs (pd_matrix current)) previous_c next_c Capture;
          outs = reconcile_axis (pm_outputs (pd_matrix current)) previous_c next_c Render
      in p = current\<lparr>pd_matrix := \<lparr>pm_inputs = ins, pm_outputs = outs,
           pm_routes = reconciled_routes (rc_mode next_c = WasapiMatrix) (port_ids ins) (port_ids outs)
             (pm_routes (pd_matrix current))\<rparr>\<rparr>)"
  by (auto simp: reconcile_audio_runtime_matrix_preset_def Let_def validate_preset_Nil reconciled_routes_def
      split: if_splits)

text \<open>
  Reconciling is idempotent and keeps routes, in every mode: the result is a valid preset that
  differs from the old one in its matrix only, every old route whose two ports are still there is
  kept, and reconciling the result again to the same configuration changes nothing.
\<close>

theorem reconcile_idempotent:
  assumes "reconcile_audio_runtime_matrix_preset current previous_c next_c = Inr p"
  shows "preset_wf p \<and> p\<lparr>pd_matrix := pd_matrix current\<rparr> = current \<and>
    (\<forall>r \<in> set (pm_routes (pd_matrix current)).
       pr_input_id r \<in> port_ids (pm_inputs (pd_matrix p)) \<and> pr_output_id r \<in> port_ids (pm_outputs (pd_matrix p)) \<longrightarrow>
       r \<in> set (pm_routes (pd_matrix p))) \<and>
    reconcile_audio_runtime_matrix_preset p next_c next_c = Inr p"
proof -
  let ?ins = "reconcile_axis (pm_inputs (pd_matrix current)) previous_c next_c Capture"
  let ?outs = "reconcile_axis (pm_outputs (pd_matrix current)) previous_c next_c Render"
  let ?m = "rc_mode next_c = WasapiMatrix"
  have r: "validate_audio_runtime_configuration next_c False = []" "preset_wf p"
    "p = current\<lparr>pd_matrix := \<lparr>pm_inputs = ?ins, pm_outputs = ?outs,
       pm_routes = reconciled_routes ?m (port_ids ?ins) (port_ids ?outs) (pm_routes (pd_matrix current))\<rparr>\<rparr>"
    using assms unfolding reconcile_result Let_def by blast+
  have "reconcile_audio_runtime_matrix_preset p next_c next_c = Inr p"
    unfolding reconcile_result Let_def using r(1,2)
    by (simp add: r(3) reconcile_axis_again reconciled_routes_again)
  moreover have "\<forall>r \<in> set (pm_routes (pd_matrix current)). pr_input_id r \<in> port_ids ?ins \<and> pr_output_id r \<in> port_ids ?outs \<longrightarrow>
      r \<in> set (reconciled_routes ?m (port_ids ?ins) (port_ids ?outs) (pm_routes (pd_matrix current)))"
    using added_routes_grow by (fastforce simp: reconciled_routes_def Let_def)
  ultimately show ?thesis using r(2) by (simp add: r(3))
qed

theorem reconcile_idempotent_witness:
  "\<exists>p. preset_wf p \<and> p \<noteq> demo_preset \<and>
     reconcile_audio_runtime_matrix_preset p demo_matrix_configuration demo_matrix_configuration = Inr p"
proof -
  obtain p where p: "reconcile_audio_runtime_matrix_preset demo_preset default_runtime_configuration
      demo_matrix_configuration = Inr p"
    using demo_reconciled by blast
  then have "length (pm_inputs (pd_matrix p)) = 3"
    using reconciled_preset(3) [OF p] demo_matrix_configuration_ok(3) by simp
  then have "p \<noteq> demo_preset" by (auto simp: demo_preset_def)
  then show ?thesis using reconcile_idempotent [OF p] by blast
qed

end
