(* ===== verification/AsioProfile.thy ===== *)
theory AsioProfile
  imports RuntimeTopology
begin

text \<open>
  \<^verbatim>\<open>core/service/virtual_asio_matrix_profile\<close> and \<^verbatim>\<open>virtual_asio_instance_layout\<close>: the block of
  matrix channels that belongs to the virtual ASIO driver, changing its size, and dividing it
  among the driver's device definitions.
\<close>

section \<open>The profile of a matrix\<close>

record matrix_profile =
  mp_daw_output_offset :: nat
  mp_daw_input_offset :: nat
  mp_channels :: nat

record axis_range =
  ar_offset :: nat
  ar_count :: nat
  ar_fragmented :: bool

definition starts_with :: "string \<Rightarrow> string \<Rightarrow> bool" where
  "starts_with s p \<longleftrightarrow> take (length p) s = p"

text \<open>The loop of \<^verbatim>\<open>find_range\<close> with its two flags.\<close>

fun find_range_from ::
  "string \<Rightarrow> nat \<Rightarrow> axis_range \<Rightarrow> bool \<Rightarrow> bool \<Rightarrow> route_endpoint list \<Rightarrow> axis_range" where
  "find_range_from p index result inside ended [] = result"
| "find_range_from p index result inside ended (x # xs) =
     (let matches = starts_with (re_id x) p
      in if matches \<and> ended then result\<lparr>ar_fragmented := True\<rparr>
         else if matches then
           find_range_from p (index + 1)
             (let r = (if \<not> inside then result\<lparr>ar_offset := index\<rparr> else result) in r\<lparr>ar_count := ar_count r + 1\<rparr>)
             True ended xs
         else find_range_from p (index + 1) result inside (inside \<or> ended) xs)"

definition find_range :: "route_endpoint list \<Rightarrow> string \<Rightarrow> axis_range" where
  "find_range ports p = find_range_from p 0 \<lparr>ar_offset = 0, ar_count = 0, ar_fragmented = False\<rparr> False False ports"

definition virtual_asio_matrix_profile :: "preset_matrix \<Rightarrow> matrix_profile option" where
  "virtual_asio_matrix_profile m =
     (let outputs_from_daw = find_range (pm_inputs m) ''asio-output-'';
          inputs_to_daw = find_range (pm_outputs m) ''asio-input-''
      in if ar_fragmented outputs_from_daw \<or> ar_fragmented inputs_to_daw \<or>
            ar_count outputs_from_daw = 0 \<or> ar_count outputs_from_daw \<noteq> ar_count inputs_to_daw
         then None
         else Some \<lparr>mp_daw_output_offset = ar_offset outputs_from_daw,
                mp_daw_input_offset = ar_offset inputs_to_daw, mp_channels = ar_count outputs_from_daw\<rparr>)"

section \<open>Resizing\<close>

definition erase_range :: "nat \<Rightarrow> nat \<Rightarrow> 'a list \<Rightarrow> 'a list" where
  "erase_range first n xs = take first xs @ drop (first + n) xs"

definition insert_at :: "nat \<Rightarrow> 'a \<Rightarrow> 'a list \<Rightarrow> 'a list" where
  "insert_at i x xs = take i xs @ x # drop i xs"

definition asio_port :: "string \<Rightarrow> string \<Rightarrow> nat \<Rightarrow> route_endpoint" where
  "asio_port id_prefix label_prefix channel =
     \<lparr>re_id = id_prefix @ to_string (channel + 1), re_label = label_prefix @ to_string (channel + 1)\<rparr>"

definition resize_axis :: "string \<Rightarrow> string \<Rightarrow> nat \<Rightarrow> nat \<Rightarrow> nat \<Rightarrow> route_endpoint list \<Rightarrow> route_endpoint list" where
  "resize_axis id_prefix label_prefix offset old new ports =
     fold (\<lambda>channel. insert_at (offset + channel) (asio_port id_prefix label_prefix channel)) [0..<new]
       (erase_range offset old ports)"

definition resize_virtual_asio_matrix_profile :: "nat \<Rightarrow> preset_document \<Rightarrow> bool \<times> preset_document" where
  "resize_virtual_asio_matrix_profile n p =
     (case virtual_asio_matrix_profile (pd_matrix p) of
        None \<Rightarrow> (False, p)
      | Some f \<Rightarrow>
          if n = 0 then (False, p)
          else
            let m = pd_matrix p;
                inputs = resize_axis ''asio-output-'' ''ASIO DAW Out '' (mp_daw_output_offset f) (mp_channels f) n (pm_inputs m);
                outputs = resize_axis ''asio-input-'' ''ASIO DAW In '' (mp_daw_input_offset f) (mp_channels f) n (pm_outputs m);
                routes = filter (\<lambda>r. pr_input_id r \<in> port_ids inputs \<and> pr_output_id r \<in> port_ids outputs) (pm_routes m)
            in (True, p\<lparr>pd_matrix := \<lparr>pm_inputs = inputs, pm_outputs = outputs, pm_routes = routes\<rparr>\<rparr>))"

section \<open>The slices of the devices\<close>

record instance_slice =
  sl_definition_index :: nat
  sl_daw_output_offset :: nat
  sl_daw_input_offset :: nat
  sl_output_channels :: nat
  sl_input_channels :: nat

record instance_layout =
  il_instances :: "instance_slice list"
  il_output_channels :: nat
  il_input_channels :: nat

text \<open>The loop over the definitions; the guard is the overflow check of \<open>size_t\<close>.\<close>

fun layout_from :: "nat \<Rightarrow> virtual_asio_device list \<Rightarrow> instance_layout \<Rightarrow> instance_layout option" where
  "layout_from index [] result = Some result"
| "layout_from index (d # ds) result =
     (if \<not> va_enabled d then layout_from (index + 1) ds result
      else if va_input_channels d = 0 \<or> va_output_channels d = 0 \<or>
        unat (va_input_channels d) > (2 ^ 64 - 1) - il_input_channels result \<or>
        unat (va_output_channels d) > (2 ^ 64 - 1) - il_output_channels result then None
      else layout_from (index + 1) ds
        \<lparr>il_instances = il_instances result @
           [\<lparr>sl_definition_index = index, sl_daw_output_offset = il_output_channels result,
             sl_daw_input_offset = il_input_channels result,
             sl_output_channels = unat (va_output_channels d), sl_input_channels = unat (va_input_channels d)\<rparr>],
         il_output_channels = il_output_channels result + unat (va_output_channels d),
         il_input_channels = il_input_channels result + unat (va_input_channels d)\<rparr>)"

definition virtual_asio_instance_layout ::
  "virtual_asio_device list \<Rightarrow> matrix_profile \<Rightarrow> instance_layout option" where
  "virtual_asio_instance_layout ds f =
     (if mp_channels f = 0 then None
      else case layout_from 0 ds \<lparr>il_instances = [], il_output_channels = 0, il_input_channels = 0\<rparr> of
        None \<Rightarrow> None
      | Some r \<Rightarrow>
          if il_instances r = [] \<or> il_output_channels r \<noteq> mp_channels f \<or> il_input_channels r \<noteq> mp_channels f
          then None else Some r)"

section \<open>Ranges\<close>

definition is_range :: "string \<Rightarrow> route_endpoint list \<Rightarrow> nat \<Rightarrow> nat \<Rightarrow> bool" where
  "is_range p ports first n \<longleftrightarrow> first + n \<le> length ports \<and>
     (\<forall>i < length ports. starts_with (re_id (ports ! i)) p \<longleftrightarrow> first \<le> i \<and> i < first + n)"

lemma range_ended:
  "find_range_from p index r inside True xs =
     (if \<exists>x \<in> set xs. starts_with (re_id x) p then r\<lparr>ar_fragmented := True\<rparr> else r)"
proof (induction xs arbitrary: index inside)
  case (Cons x xs)
  then show ?case by (cases "starts_with (re_id x) p") simp_all
qed simp

lemma range_inside:
  assumes "\<forall>x \<in> set mid. starts_with (re_id x) p" "after = [] \<or> \<not> starts_with (re_id (hd after)) p"
  shows "find_range_from p index r True False (mid @ after) =
     (if \<exists>x \<in> set after. starts_with (re_id x) p then r\<lparr>ar_count := ar_count r + length mid, ar_fragmented := True\<rparr>
      else r\<lparr>ar_count := ar_count r + length mid\<rparr>)"
  using assms
proof (induction mid arbitrary: index r)
  case Nil
  then show ?case
  proof (cases after)
    case (Cons y ys)
    with Nil have "\<not> starts_with (re_id y) p" by simp
    with Cons show ?thesis by (simp add: range_ended)
  qed simp
next
  case (Cons x xs)
  have "starts_with (re_id x) p" using Cons.prems by simp
  then have step: "find_range_from p index r True False ((x # xs) @ after) =
      find_range_from p (index + 1) (r\<lparr>ar_count := ar_count r + 1\<rparr>) True False (xs @ after)"
    by simp
  show ?case unfolding step using Cons.prems by (subst Cons.IH) simp_all
qed

lemma range_before:
  assumes "\<forall>x \<in> set before. \<not> starts_with (re_id x) p"
  shows "find_range_from p index r False False (before @ xs) = find_range_from p (index + length before) r False False xs"
  using assms
proof (induction before arbitrary: index)
  case (Cons x before)
  then have "\<not> starts_with (re_id x) p" by simp
  then show ?case using Cons by simp
qed simp

lemma find_range_append:
  assumes "\<forall>x \<in> set before. \<not> starts_with (re_id x) p" "\<forall>x \<in> set mid. starts_with (re_id x) p" "mid \<noteq> []"
    and "after = [] \<or> \<not> starts_with (re_id (hd after)) p"
  shows "find_range (before @ mid @ after) p =
    \<lparr>ar_offset = length before, ar_count = length mid, ar_fragmented = (\<exists>x \<in> set after. starts_with (re_id x) p)\<rparr>"
proof -
  obtain y ys where mid: "mid = y # ys" using assms(3) by (cases mid) auto
  then have "starts_with (re_id y) p" using assms(2) by simp
  then have "find_range (before @ mid @ after) p =
      find_range_from p (length before + 1) \<lparr>ar_offset = length before, ar_count = 1, ar_fragmented = False\<rparr> True False (ys @ after)"
    unfolding find_range_def range_before [OF assms(1)] by (simp add: mid)
  then show ?thesis using range_inside [of ys p after] assms(2,4) by (simp add: mid)
qed

lemma find_range_none:
  "\<forall>x \<in> set ports. \<not> starts_with (re_id x) p \<Longrightarrow> ar_count (find_range ports p) = 0"
  using range_before [of ports p 0 _ "[]"] by (simp add: find_range_def)

lemma find_range_split:
  assumes "\<not> ar_fragmented (find_range ports p)" "ar_count (find_range ports p) \<noteq> 0"
  obtains before mid after where "ports = before @ mid @ after" "mid \<noteq> []"
    "\<forall>x \<in> set before \<union> set after. \<not> starts_with (re_id x) p" "\<forall>x \<in> set mid. starts_with (re_id x) p"
    "ar_offset (find_range ports p) = length before" "ar_count (find_range ports p) = length mid"
proof -
  let ?P = "\<lambda>x. starts_with (re_id x) p"
  define before rest where "before = takeWhile (\<lambda>x. \<not> ?P x) ports" and "rest = dropWhile (\<lambda>x. \<not> ?P x) ports"
  define mid after where "mid = takeWhile ?P rest" and "after = dropWhile ?P rest"
  have ports: "ports = before @ mid @ after" by (simp add: before_def rest_def mid_def after_def)
  have b: "\<forall>x \<in> set before. \<not> ?P x" unfolding before_def by (metis set_takeWhileD)
  have m: "\<forall>x \<in> set mid. ?P x" unfolding mid_def by (metis set_takeWhileD)
  have a: "after = [] \<or> \<not> ?P (hd after)" unfolding after_def by (metis hd_dropWhile)
  have "rest \<noteq> []"
  proof
    assume "rest = []"
    then have e: "mid = []" "after = []" by (simp_all add: mid_def after_def)
    have "ports = before" using ports unfolding e by (simp only: append_Nil append_Nil2)
    then show False using find_range_none b assms(2) by metis
  qed
  then have "?P (hd rest)" unfolding rest_def by (metis hd_dropWhile)
  then have ne: "mid \<noteq> []" unfolding mid_def using \<open>rest \<noteq> []\<close> by (cases rest) simp_all
  note r = find_range_append [OF b m ne a, folded ports]
  have "\<forall>x \<in> set after. \<not> ?P x" using assms(1) unfolding r by simp
  then show thesis using that [OF ports ne _ m] b r by auto
qed

section \<open>Resizing the block\<close>

lemma insert_at_end: "i = length xs \<Longrightarrow> insert_at i x (xs @ ys) = xs @ x # ys"
  by (simp add: insert_at_def)

lemma resize_axis_split:
  assumes "ports = before @ mid @ after"
  shows "resize_axis ip lp (length before) (length mid) n ports = before @ map (asio_port ip lp) [0..<n] @ after"
proof -
  have "erase_range (length before) (length mid) ports = before @ after" by (simp add: erase_range_def assms)
  moreover have "fold (\<lambda>channel. insert_at (length before + channel) (asio_port ip lp channel)) [0..<n] (before @ after) =
      before @ map (asio_port ip lp) [0..<n] @ after"
  proof (induction n)
    case (Suc n)
    have "insert_at (length before + n) (asio_port ip lp n) ((before @ map (asio_port ip lp) [0..<n]) @ after) =
        (before @ map (asio_port ip lp) [0..<n]) @ asio_port ip lp n # after"
      by (rule insert_at_end) simp
    with Suc show ?case by simp
  qed simp
  ultimately show ?thesis by (simp add: resize_axis_def)
qed

lemma asio_port_prefix: "starts_with (re_id (asio_port ip lp k)) ip"
  by (simp add: starts_with_def asio_port_def)

lemma resized_axis_ok:
  assumes "endpoints_ok (before @ mid @ after)" "\<forall>x \<in> set before \<union> set after. \<not> starts_with (re_id x) ip"
    and "n \<noteq> 0" "lp \<noteq> []"
  shows "endpoints_ok (before @ map (asio_port ip lp) [0..<n] @ after)"
proof -
  have new: "distinct (map (re_id \<circ> asio_port ip lp) [0..<n])"
    by (simp add: asio_port_def comp_def distinct_map inj_on_def)
  have apart: "re_id x \<noteq> re_id (asio_port ip lp k)" if "x \<in> set before \<union> set after" for x k
    using assms(2) that asio_port_prefix [of ip lp k] by metis
  let ?new = "map re_id (map (asio_port ip lp) [0..<n])"
  have old: "distinct (map re_id before)" "distinct (map re_id after)" "set (map re_id before) \<inter> set (map re_id after) = {}"
    using assms(1) by (auto simp: endpoints_ok_def)
  have "set ?new \<inter> set (map re_id after) = {}" "set (map re_id before) \<inter> set ?new = {}"
    using apart apart [symmetric] by (auto simp: disjoint_iff)
  then have "distinct (map re_id (before @ map (asio_port ip lp) [0..<n] @ after))"
    unfolding map_append distinct_append set_append using old new by (simp only: map_map) blast
  moreover have "\<forall>x \<in> set (map (asio_port ip lp) [0..<n]). re_id x \<noteq> [] \<and> re_label x \<noteq> []"
    using assms(4) by (simp add: asio_port_def)
  ultimately show ?thesis using assms(1,3) by (auto simp: endpoints_ok_def)
qed


section \<open>Dividing the block\<close>

definition enabled_devices :: "virtual_asio_device list \<Rightarrow> virtual_asio_device list" where
  "enabled_devices ds = filter va_enabled ds"

definition total_outputs :: "virtual_asio_device list \<Rightarrow> nat" where
  "total_outputs ds = (\<Sum>d \<leftarrow> enabled_devices ds. unat (va_output_channels d))"

definition total_inputs :: "virtual_asio_device list \<Rightarrow> nat" where
  "total_inputs ds = (\<Sum>d \<leftarrow> enabled_devices ds. unat (va_input_channels d))"

definition output_range :: "instance_slice \<Rightarrow> nat list" where
  "output_range s = [sl_daw_output_offset s..<sl_daw_output_offset s + sl_output_channels s]"

definition input_range :: "instance_slice \<Rightarrow> nat list" where
  "input_range s = [sl_daw_input_offset s..<sl_daw_input_offset s + sl_input_channels s]"

lemma totals_Cons [simp]:
  "enabled_devices [] = []" "total_outputs [] = 0" "total_inputs [] = 0"
  "total_outputs (d # ds) = (if va_enabled d then unat (va_output_channels d) else 0) + total_outputs ds"
  "total_inputs (d # ds) = (if va_enabled d then unat (va_input_channels d) else 0) + total_inputs ds"
  "enabled_devices (d # ds) = (if va_enabled d then [d] else []) @ enabled_devices ds"
  by (simp_all add: total_outputs_def total_inputs_def enabled_devices_def)

lemma layout_from_exists:
  "il_output_channels r < 2 ^ 64 \<Longrightarrow> il_input_channels r < 2 ^ 64 \<Longrightarrow>
     (\<exists>r'. layout_from i ds r = Some r') \<longleftrightarrow>
       (\<forall>d \<in> set (enabled_devices ds). va_input_channels d \<noteq> 0 \<and> va_output_channels d \<noteq> 0) \<and>
       il_output_channels r + total_outputs ds < 2 ^ 64 \<and> il_input_channels r + total_inputs ds < 2 ^ 64"
proof (induction ds arbitrary: i r)
  case (Cons d ds)
  show ?case
  proof (cases "va_enabled d")
    case True
    let ?r = "\<lparr>il_instances = il_instances r @
        [\<lparr>sl_definition_index = i, sl_daw_output_offset = il_output_channels r,
          sl_daw_input_offset = il_input_channels r,
          sl_output_channels = unat (va_output_channels d), sl_input_channels = unat (va_input_channels d)\<rparr>],
      il_output_channels = il_output_channels r + unat (va_output_channels d),
      il_input_channels = il_input_channels r + unat (va_input_channels d)\<rparr>"
    have guard: "unat (va_input_channels d) > (2 ^ 64 - 1) - il_input_channels r \<longleftrightarrow>
        \<not> il_input_channels r + unat (va_input_channels d) < 2 ^ 64"
      "unat (va_output_channels d) > (2 ^ 64 - 1) - il_output_channels r \<longleftrightarrow>
        \<not> il_output_channels r + unat (va_output_channels d) < 2 ^ 64"
      using Cons.prems by auto
    show ?thesis
    proof (cases "va_input_channels d \<noteq> 0 \<and> va_output_channels d \<noteq> 0 \<and>
        il_input_channels r + unat (va_input_channels d) < 2 ^ 64 \<and>
        il_output_channels r + unat (va_output_channels d) < 2 ^ 64")
      case ok: True
      then have "layout_from i (d # ds) r = layout_from (i + 1) ds ?r"
        using True guard by simp
      moreover have "(\<exists>r'. layout_from (i + 1) ds ?r = Some r') \<longleftrightarrow>
          (\<forall>d \<in> set (enabled_devices ds). va_input_channels d \<noteq> 0 \<and> va_output_channels d \<noteq> 0) \<and>
          il_output_channels ?r + total_outputs ds < 2 ^ 64 \<and> il_input_channels ?r + total_inputs ds < 2 ^ 64"
        using ok by (intro Cons.IH) simp_all
      ultimately show ?thesis using True ok by (simp add: add.assoc)
    next
      case no: False
      then have "layout_from i (d # ds) r = None" using True guard by auto
      with True no show ?thesis by auto
    qed
  next
    case False
    then show ?thesis using Cons.IH [OF Cons.prems, of "i + 1"] by simp
  qed
qed simp

lemma upt_join: "a \<le> b \<Longrightarrow> b \<le> c \<Longrightarrow> [a..<b] @ [b..<c] = [a..<c]"
  by (metis le_Suc_ex upt_add_eq_append)

lemma layout_from_result:
  "layout_from i ds r = Some r' \<Longrightarrow>
     \<exists>new. il_instances r' = il_instances r @ new \<and>
       map (\<lambda>s. (sl_definition_index s, sl_output_channels s, sl_input_channels s)) new =
         map (\<lambda>(k, d). (k, unat (va_output_channels d), unat (va_input_channels d)))
           (filter (\<lambda>(k, d). va_enabled d) (enumerate i ds)) \<and>
       concat (map output_range new) = [il_output_channels r..<il_output_channels r'] \<and>
       concat (map input_range new) = [il_input_channels r..<il_input_channels r'] \<and>
       il_output_channels r' = il_output_channels r + total_outputs ds \<and>
       il_input_channels r' = il_input_channels r + total_inputs ds"
proof (induction ds arbitrary: i r)
  case (Cons d ds)
  show ?case
  proof (cases "va_enabled d")
    case True
    let ?s = "\<lparr>sl_definition_index = i, sl_daw_output_offset = il_output_channels r,
          sl_daw_input_offset = il_input_channels r,
          sl_output_channels = unat (va_output_channels d), sl_input_channels = unat (va_input_channels d)\<rparr>"
    let ?r = "\<lparr>il_instances = il_instances r @ [?s],
      il_output_channels = il_output_channels r + unat (va_output_channels d),
      il_input_channels = il_input_channels r + unat (va_input_channels d)\<rparr>"
    have "layout_from (i + 1) ds ?r = Some r'" using Cons.prems True by (auto split: if_splits)
    from Cons.IH [OF this] obtain new where new:
      "il_instances r' = il_instances ?r @ new"
      "map (\<lambda>s. (sl_definition_index s, sl_output_channels s, sl_input_channels s)) new =
         map (\<lambda>(k, d). (k, unat (va_output_channels d), unat (va_input_channels d)))
           (filter (\<lambda>(k, d). va_enabled d) (enumerate (i + 1) ds))"
      "concat (map output_range new) = [il_output_channels ?r..<il_output_channels r']"
      "concat (map input_range new) = [il_input_channels ?r..<il_input_channels r']"
      "il_output_channels r' = il_output_channels ?r + total_outputs ds"
      "il_input_channels r' = il_input_channels ?r + total_inputs ds"
      by blast
    have "output_range ?s @ [il_output_channels ?r..<il_output_channels r'] = [il_output_channels r..<il_output_channels r']"
      "input_range ?s @ [il_input_channels ?r..<il_input_channels r'] = [il_input_channels r..<il_input_channels r']"
      using new(5,6) by (simp_all add: output_range_def input_range_def upt_join)
    with new True show ?thesis by (intro exI [of _ "?s # new"]) simp
  next
    case False
    then show ?thesis using Cons by simp
  qed
qed simp

section \<open>Properties\<close>

lemma resized_range:
  assumes "\<forall>x \<in> set before \<union> set after. \<not> starts_with (re_id x) ip" "n \<noteq> 0"
  shows "find_range (before @ map (asio_port ip lp) [0..<n] @ after) ip =
    \<lparr>ar_offset = length before, ar_count = n, ar_fragmented = False\<rparr>"
proof -
  have "after = [] \<or> \<not> starts_with (re_id (hd after)) ip" using assms(1) by (cases after) auto
  moreover have "\<forall>x \<in> set (map (asio_port ip lp) [0..<n]). starts_with (re_id x) ip"
    using asio_port_prefix by auto
  ultimately have "find_range (before @ map (asio_port ip lp) [0..<n] @ after) ip =
      \<lparr>ar_offset = length before, ar_count = length (map (asio_port ip lp) [0..<n]),
       ar_fragmented = (\<exists>x \<in> set after. starts_with (re_id x) ip)\<rparr>"
    using assms by (intro find_range_append) auto
  then show ?thesis using assms(1) by simp
qed

text \<open>
  Resizing the block of the virtual ASIO driver: when it succeeds on a valid preset, the new
  matrix has a block of the requested size at the same place on both axes, exactly the routes
  whose ports remain are kept, and the preset is valid if and only if the channel limit holds.
\<close>

theorem resize_profile_correct:
  assumes "preset_wf p" "resize_virtual_asio_matrix_profile n p = (True, q)"
  shows "\<exists>f. virtual_asio_matrix_profile (pd_matrix p) = Some f \<and>
    virtual_asio_matrix_profile (pd_matrix q) = Some (f\<lparr>mp_channels := n\<rparr>) \<and>
    pm_routes (pd_matrix q) = filter (\<lambda>r. pr_input_id r \<in> port_ids (pm_inputs (pd_matrix q)) \<and>
      pr_output_id r \<in> port_ids (pm_outputs (pd_matrix q))) (pm_routes (pd_matrix p)) \<and>
    (preset_wf q \<longleftrightarrow> length (pm_inputs (pd_matrix p)) - mp_channels f + n \<le> kMaximumMatrixChannels \<and>
      length (pm_outputs (pd_matrix p)) - mp_channels f + n \<le> kMaximumMatrixChannels)"
proof -
  let ?in = "''asio-output-''" and ?out = "''asio-input-''"
  let ?li = "''ASIO DAW Out ''" and ?lo = "''ASIO DAW In ''"
  let ?m = "pd_matrix p"
  obtain f where f: "virtual_asio_matrix_profile ?m = Some f" and n: "n \<noteq> 0"
    using assms(2) by (auto simp: resize_virtual_asio_matrix_profile_def split: option.splits if_splits)
  from f have fr: "\<not> ar_fragmented (find_range (pm_inputs ?m) ?in)" "ar_count (find_range (pm_inputs ?m) ?in) \<noteq> 0"
    "\<not> ar_fragmented (find_range (pm_outputs ?m) ?out)" "ar_count (find_range (pm_outputs ?m) ?out) \<noteq> 0"
    and f_eq: "f = \<lparr>mp_daw_output_offset = ar_offset (find_range (pm_inputs ?m) ?in),
      mp_daw_input_offset = ar_offset (find_range (pm_outputs ?m) ?out),
      mp_channels = ar_count (find_range (pm_inputs ?m) ?in)\<rparr>"
    and same: "ar_count (find_range (pm_outputs ?m) ?out) = ar_count (find_range (pm_inputs ?m) ?in)"
    by (simp_all add: virtual_asio_matrix_profile_def Let_def split: if_splits)
  obtain b1 m1 a1 where i: "pm_inputs ?m = b1 @ m1 @ a1" "\<forall>x \<in> set b1 \<union> set a1. \<not> starts_with (re_id x) ?in"
    "ar_offset (find_range (pm_inputs ?m) ?in) = length b1" "ar_count (find_range (pm_inputs ?m) ?in) = length m1"
    using find_range_split [OF fr(1,2)] by metis
  obtain b2 m2 a2 where o: "pm_outputs ?m = b2 @ m2 @ a2" "\<forall>x \<in> set b2 \<union> set a2. \<not> starts_with (re_id x) ?out"
    "ar_offset (find_range (pm_outputs ?m) ?out) = length b2" "ar_count (find_range (pm_outputs ?m) ?out) = length m2"
    using find_range_split [OF fr(3,4)] by metis
  define ins where "ins = b1 @ map (asio_port ?in ?li) [0..<n] @ a1"
  define outs where "outs = b2 @ map (asio_port ?out ?lo) [0..<n] @ a2"
  have len: "length m2 = length m1" using same i(4) o(4) by simp
  have f': "f = \<lparr>mp_daw_output_offset = length b1, mp_daw_input_offset = length b2, mp_channels = length m1\<rparr>"
    using f_eq i o by simp
  have axes: "resize_axis ?in ?li (length b1) (length m1) n (pm_inputs ?m) = ins"
    "resize_axis ?out ?lo (length b2) (length m1) n (pm_outputs ?m) = outs"
    using resize_axis_split [OF i(1)] resize_axis_split [OF o(1)] len by (simp_all add: ins_def outs_def)
  have q: "q = p\<lparr>pd_matrix := \<lparr>pm_inputs = ins, pm_outputs = outs,
      pm_routes = filter (\<lambda>r. pr_input_id r \<in> port_ids ins \<and> pr_output_id r \<in> port_ids outs) (pm_routes ?m)\<rparr>\<rparr>"
    using assms(2) f n axes by (simp add: resize_virtual_asio_matrix_profile_def f' Let_def)
  have ranges: "find_range ins ?in = \<lparr>ar_offset = length b1, ar_count = n, ar_fragmented = False\<rparr>"
    "find_range outs ?out = \<lparr>ar_offset = length b2, ar_count = n, ar_fragmented = False\<rparr>"
    unfolding ins_def outs_def by (rule resized_range [OF i(2) n], rule resized_range [OF o(2) n])
  have "endpoints_ok ins" "endpoints_ok outs"
    unfolding ins_def outs_def
    using assms(1) i o n by (auto simp: preset_wf_def intro!: resized_axis_ok)
  moreover have "length ins = length (pm_inputs ?m) - length m1 + n" "length outs = length (pm_outputs ?m) - length m1 + n"
    using i(1) o(1) len by (simp_all add: ins_def outs_def)
  ultimately have "preset_wf q \<longleftrightarrow> length (pm_inputs ?m) - mp_channels f + n \<le> kMaximumMatrixChannels \<and>
      length (pm_outputs ?m) - mp_channels f + n \<le> kMaximumMatrixChannels"
    unfolding q kept_routes_wf [OF assms(1)] by (simp add: f')
  moreover have "virtual_asio_matrix_profile (pd_matrix q) = Some (f\<lparr>mp_channels := n\<rparr>)"
    using n by (simp add: q virtual_asio_matrix_profile_def ranges f' Let_def)
  ultimately show ?thesis using f by (simp add: q)
qed


definition demo_daw_preset :: preset_document where
  "demo_daw_preset = demo_preset\<lparr>pd_matrix := \<lparr>
     pm_inputs = [\<lparr>re_id = ''in'', re_label = ''In''\<rparr>, asio_port ''asio-output-'' ''Out '' 0],
     pm_outputs = [asio_port ''asio-input-'' ''In '' 0, \<lparr>re_id = ''out'', re_label = ''Out''\<rparr>],
     pm_routes = []\<rparr>\<rparr>"

theorem resize_profile_correct_witness:
  "virtual_asio_matrix_profile (pd_matrix (snd (resize_virtual_asio_matrix_profile 4 demo_daw_preset))) =
     Some \<lparr>mp_daw_output_offset = 1, mp_daw_input_offset = 0, mp_channels = 4\<rparr>"
proof -
  have "validate_preset demo_daw_preset = []" by code_simp
  then have wf: "preset_wf demo_daw_preset" by (simp add: validate_preset_Nil)
  have ok: "fst (resize_virtual_asio_matrix_profile 4 demo_daw_preset) = True"
    and f: "virtual_asio_matrix_profile (pd_matrix demo_daw_preset) =
      Some \<lparr>mp_daw_output_offset = 1, mp_daw_input_offset = 0, mp_channels = 1\<rparr>"
    by code_simp+
  have "resize_virtual_asio_matrix_profile 4 demo_daw_preset =
      (True, snd (resize_virtual_asio_matrix_profile 4 demo_daw_preset))"
    using ok by (cases "resize_virtual_asio_matrix_profile 4 demo_daw_preset") simp
  from resize_profile_correct [OF wf this] show ?thesis using f by auto
qed

text \<open>
  The devices of the virtual ASIO driver divide its block: a layout exists exactly when every
  enabled device has channels and their sums fill the block on both axes; its slices belong to the
  enabled devices in order, and on each axis they cover every channel exactly once.
\<close>

theorem instance_layout_partitions:
  assumes "mp_channels f < 2 ^ 64"
  shows "((\<exists>l. virtual_asio_instance_layout ds f = Some l) \<longleftrightarrow>
      mp_channels f \<noteq> 0 \<and> total_outputs ds = mp_channels f \<and> total_inputs ds = mp_channels f \<and>
      (\<forall>d \<in> set (enabled_devices ds). va_input_channels d \<noteq> 0 \<and> va_output_channels d \<noteq> 0)) \<and>
    (\<forall>l. virtual_asio_instance_layout ds f = Some l \<longrightarrow>
      map (\<lambda>s. (sl_definition_index s, sl_output_channels s, sl_input_channels s)) (il_instances l) =
        map (\<lambda>(k, d). (k, unat (va_output_channels d), unat (va_input_channels d)))
          (filter (\<lambda>(k, d). va_enabled d) (enumerate 0 ds)) \<and>
      concat (map output_range (il_instances l)) = [0..<mp_channels f] \<and>
      concat (map input_range (il_instances l)) = [0..<mp_channels f])"
proof -
  let ?r = "\<lparr>il_instances = [], il_output_channels = 0, il_input_channels = 0\<rparr>"
  have layout: "virtual_asio_instance_layout ds f = Some l \<longleftrightarrow> mp_channels f \<noteq> 0 \<and> layout_from 0 ds ?r = Some l \<and>
      il_instances l \<noteq> [] \<and> il_output_channels l = mp_channels f \<and> il_input_channels l = mp_channels f" for l
    by (auto simp: virtual_asio_instance_layout_def split: option.splits)
  have result: "map (\<lambda>s. (sl_definition_index s, sl_output_channels s, sl_input_channels s)) (il_instances l) =
        map (\<lambda>(k, d). (k, unat (va_output_channels d), unat (va_input_channels d)))
          (filter (\<lambda>(k, d). va_enabled d) (enumerate 0 ds)) \<and>
      concat (map output_range (il_instances l)) = [0..<il_output_channels l] \<and>
      concat (map input_range (il_instances l)) = [0..<il_input_channels l] \<and>
      il_output_channels l = total_outputs ds \<and> il_input_channels l = total_inputs ds"
    if "layout_from 0 ds ?r = Some l" for l
    using layout_from_result [OF that] by simp
  have nonempty: "il_instances l \<noteq> []" if "layout_from 0 ds ?r = Some l" "total_outputs ds \<noteq> 0" for l
  proof
    assume "il_instances l = []"
    then have "[] = [0..<total_outputs ds]" using result [OF that(1)] by (simp only: list.map concat.simps) metis
    then have "[0..<total_outputs ds] = []" by (rule sym)
    then show False using that(2) by simp
  qed
  have from_iff: "(\<exists>l. layout_from 0 ds ?r = Some l) \<longleftrightarrow>
      (\<forall>d \<in> set (enabled_devices ds). va_input_channels d \<noteq> 0 \<and> va_output_channels d \<noteq> 0) \<and>
      total_outputs ds < 2 ^ 64 \<and> total_inputs ds < 2 ^ 64"
    using layout_from_exists [of ?r 0 ds] by simp
  have "(\<exists>l. virtual_asio_instance_layout ds f = Some l) \<longleftrightarrow>
      mp_channels f \<noteq> 0 \<and> total_outputs ds = mp_channels f \<and> total_inputs ds = mp_channels f \<and>
      (\<exists>l. layout_from 0 ds ?r = Some l)"
    unfolding layout using result nonempty by metis
  also have "\<dots> \<longleftrightarrow> mp_channels f \<noteq> 0 \<and> total_outputs ds = mp_channels f \<and> total_inputs ds = mp_channels f \<and>
      (\<forall>d \<in> set (enabled_devices ds). va_input_channels d \<noteq> 0 \<and> va_output_channels d \<noteq> 0)"
    unfolding from_iff using assms by auto
  finally show ?thesis using layout result by auto
qed

definition demo_devices :: "virtual_asio_device list" where
  "demo_devices = map (\<lambda>(i, n, on). \<lparr>va_device_id = i, va_clsid = i, va_registry_name = i, va_broker_token = i,
     va_input_channels = n, va_output_channels = 4 - n, va_enabled = on\<rparr>)
     [(''a'', 1, True), (''b'', 2, False), (''c'', 3, True)]"

theorem instance_layout_partitions_witness:
  "\<exists>l. virtual_asio_instance_layout demo_devices
     \<lparr>mp_daw_output_offset = 0, mp_daw_input_offset = 0, mp_channels = 4\<rparr> = Some l \<and>
     concat (map output_range (il_instances l)) = [0..<4]"
proof -
  have "total_outputs demo_devices = 4" "total_inputs demo_devices = 4"
    "\<forall>d \<in> set (enabled_devices demo_devices). va_input_channels d \<noteq> 0 \<and> va_output_channels d \<noteq> 0"
    by code_simp+
  then show ?thesis
    using instance_layout_partitions [of "\<lparr>mp_daw_output_offset = 0, mp_daw_input_offset = 0, mp_channels = 4\<rparr>" demo_devices]
    by auto
qed

end
