(* ===== verification/SessionDocument.thy ===== *)
theory SessionDocument
  imports WireFormat ControlCommand AsioRegistry
begin

text \<open>
  \<^verbatim>\<open>core/control/session_document.{h,cpp}\<close>: the document the engine saves, a preset with the
  runtime configuration and the devices of the virtual ASIO driver, and its validation.
\<close>

section \<open>Error values\<close>

definition sdo_unsupported_session_schema_version :: sar_error where
  "sdo_unsupported_session_schema_version = mk_error ''unsupported_session_schema_version''
     ''Session document schema version is not supported.''"

definition sdo_audio_runtime_device_id_too_long :: sar_error where
  "sdo_audio_runtime_device_id_too_long = mk_error ''audio_runtime_device_id_too_long''
     ''Audio runtime device IDs exceed the supported length.''"

definition sdo_audio_runtime_endpoint_field_too_long :: sar_error where
  "sdo_audio_runtime_endpoint_field_too_long = mk_error ''audio_runtime_endpoint_field_too_long''
     ''Audio runtime endpoint fields exceed the supported length.''"

definition sdo_invalid_virtual_asio_device_count :: sar_error where
  "sdo_invalid_virtual_asio_device_count = mk_error ''invalid_virtual_asio_device_count''
     ''Session requires between one and sixteen Virtual ASIO devices.''"

definition sdo_invalid_virtual_asio_device_identity :: sar_error where
  "sdo_invalid_virtual_asio_device_identity = mk_error ''invalid_virtual_asio_device_identity''
     ''Virtual ASIO device identity fields must be non-empty and bounded.''"

definition sdo_invalid_virtual_asio_device_system_identity :: sar_error where
  "sdo_invalid_virtual_asio_device_system_identity = mk_error ''invalid_virtual_asio_device_system_identity''
     ''Virtual ASIO device IDs, CLSIDs, registry names, and broker tokens must be valid Windows system identities.''"

definition sdo_invalid_virtual_asio_device_channels :: sar_error where
  "sdo_invalid_virtual_asio_device_channels = mk_error ''invalid_virtual_asio_device_channels''
     ''Virtual ASIO channel counts must be between one and sixty-four.''"

definition sdo_duplicate_virtual_asio_device_identity :: sar_error where
  "sdo_duplicate_virtual_asio_device_identity = mk_error ''duplicate_virtual_asio_device_identity''
     ''Virtual ASIO device IDs, CLSIDs, registry names, and broker tokens must be unique.''"

definition sdo_auto_start_without_audio_runtime :: sar_error where
  "sdo_auto_start_without_audio_runtime = mk_error ''auto_start_without_audio_runtime''
     ''Session auto-start requires a configured audio runtime.''"

section \<open>Characters\<close>

text \<open>\<^verbatim>\<open>std::isalnum\<close>, \<^verbatim>\<open>std::isxdigit\<close> and \<^verbatim>\<open>std::tolower\<close> in the "C" locale.\<close>

definition between :: "char \<Rightarrow> char \<Rightarrow> char \<Rightarrow> bool" where
  "between lo hi c \<longleftrightarrow> (of_char lo :: nat) \<le> of_char c \<and> of_char c \<le> (of_char hi :: nat)"

definition is_upper :: "char \<Rightarrow> bool" where "is_upper = between CHR ''A'' CHR ''Z''"

definition is_alnum :: "char \<Rightarrow> bool" where
  "is_alnum c \<longleftrightarrow> between CHR ''0'' CHR ''9'' c \<or> is_upper c \<or> between CHR ''a'' CHR ''z'' c"

definition is_xdigit :: "char \<Rightarrow> bool" where
  "is_xdigit c \<longleftrightarrow> between CHR ''0'' CHR ''9'' c \<or> between CHR ''A'' CHR ''F'' c \<or> between CHR ''a'' CHR ''f'' c"

definition to_lower :: "char \<Rightarrow> char" where
  "to_lower c = (if is_upper c then char_of ((of_char c :: nat) + 32) else c)"

section \<open>Identities\<close>

definition valid_token :: "string \<Rightarrow> bool" where
  "valid_token v \<longleftrightarrow> v \<noteq> [] \<and> (\<forall>c \<in> set v. is_alnum c \<or> c = CHR ''-'' \<or> c = CHR ''_'' \<or> c = CHR ''.'')"

definition valid_clsid :: "string \<Rightarrow> bool" where
  "valid_clsid v \<longleftrightarrow> length v = 38 \<and> hd v = CHR 0x7B \<and> last v = CHR 0x7D \<and>
     (\<forall>index \<in> set [1..<37]. if index = 9 \<or> index = 14 \<or> index = 19 \<or> index = 24 then v ! index = CHR ''-''
        else is_xdigit (v ! index))"

definition folded_identity :: "string \<Rightarrow> string" where
  "folded_identity = map to_lower"

section \<open>The document\<close>

definition kSessionDocumentSchemaVersion :: u32 where "kSessionDocumentSchemaVersion = 2"

record session_document =
  sd_schema_version :: u32
  sd_preset :: preset_document
  sd_audio_runtime :: runtime_configuration
  sd_virtual_asio_devices :: "virtual_asio_device list"
  sd_auto_start :: bool

definition default_virtual_asio_device_definition :: virtual_asio_device where
  "default_virtual_asio_device_definition = \<lparr>va_device_id = ''default'',
     va_clsid = [CHR 0x7B] @ ''7F16C8A9-4A0C-4D31-9A5B-2C6E7F8D1042'' @ [CHR 0x7D],
     va_registry_name = ''System Audio Route'', va_broker_token = ''virtual-asio'',
     va_input_channels = 2, va_output_channels = 2, va_enabled = True\<rparr>"

definition bounded_field :: "string \<Rightarrow> bool" where
  "bounded_field v \<longleftrightarrow> length v \<le> kControlWireMaxStringBytes"

definition device_identity_errors :: "virtual_asio_device \<Rightarrow> sar_error list" where
  "device_identity_errors d =
     (let names = [va_device_id d, va_clsid d, va_registry_name d, va_broker_token d];
          empty_field = (\<exists>v \<in> set names. v = []);
          oversized = (\<exists>v \<in> set names. \<not> bounded_field v)
      in push_if (empty_field \<or> oversized) sdo_invalid_virtual_asio_device_identity @
         push_if (\<not> valid_token (va_device_id d) \<or> \<not> valid_clsid (va_clsid d) \<or>
             CHR 0x5C \<in> set (va_registry_name d) \<or> CHR ''/'' \<in> set (va_registry_name d) \<or>
             \<not> valid_token (va_broker_token d))
           sdo_invalid_virtual_asio_device_system_identity @
         push_if (va_input_channels d = 0 \<or> va_output_channels d = 0 \<or>
             va_input_channels d > kVirtualAsioMaxChannels \<or> va_output_channels d > kVirtualAsioMaxChannels)
           sdo_invalid_virtual_asio_device_channels)"

text \<open>
  The four sets of the device loop. \<^verbatim>\<open>||\<close> stops at the first duplicate, so the later sets do
  not receive the later identities of that device.
\<close>

record identity_sets =
  is_device_ids :: "string set"
  is_clsids :: "string set"
  is_registry_names :: "string set"
  is_broker_tokens :: "string set"

definition insert_identities :: "identity_sets \<Rightarrow> virtual_asio_device \<Rightarrow> bool \<times> identity_sets" where
  "insert_identities s d =
     (let i = folded_identity (va_device_id d); c = folded_identity (va_clsid d);
          r = folded_identity (va_registry_name d); b = folded_identity (va_broker_token d);
          s1 = s\<lparr>is_device_ids := insert i (is_device_ids s)\<rparr>;
          s2 = s1\<lparr>is_clsids := insert c (is_clsids s)\<rparr>;
          s3 = s2\<lparr>is_registry_names := insert r (is_registry_names s)\<rparr>;
          s4 = s3\<lparr>is_broker_tokens := insert b (is_broker_tokens s)\<rparr>
      in if i \<in> is_device_ids s then (True, s1)
         else if c \<in> is_clsids s then (True, s2)
         else if r \<in> is_registry_names s then (True, s3)
         else if b \<in> is_broker_tokens s then (True, s4)
         else (False, s4))"

fun validate_devices :: "identity_sets \<Rightarrow> virtual_asio_device list \<Rightarrow> sar_error list" where
  "validate_devices s [] = []"
| "validate_devices s (d # ds) =
     (case insert_identities s d of (duplicate, s') \<Rightarrow>
        device_identity_errors d @ push_if duplicate sdo_duplicate_virtual_asio_device_identity @ validate_devices s' ds)"

definition validate_session_document :: "session_document \<Rightarrow> sar_error list" where
  "validate_session_document d =
     (let runtime = sd_audio_runtime d
      in push_if (sd_schema_version d \<noteq> kSessionDocumentSchemaVersion) sdo_unsupported_session_schema_version @
         validate_preset (sd_preset d) @
         push_if (\<not> bounded_field (rc_capture_device_id runtime) \<or> \<not> bounded_field (rc_render_device_id runtime))
           sdo_audio_runtime_device_id_too_long @
         concat (map (\<lambda>e. push_if (\<not> bounded_field (rt_endpoint_id e) \<or> \<not> bounded_field (rt_device_id e))
           sdo_audio_runtime_endpoint_field_too_long) (rc_endpoints runtime)) @
         validate_audio_runtime_configuration runtime True @
         push_if (sd_virtual_asio_devices d = [] \<or> length (sd_virtual_asio_devices d) > kMaximumVirtualAsioDevices)
           sdo_invalid_virtual_asio_device_count @
         validate_devices \<lparr>is_device_ids = {}, is_clsids = {}, is_registry_names = {}, is_broker_tokens = {}\<rparr>
           (sd_virtual_asio_devices d) @
         push_if (sd_auto_start d \<and> rc_mode runtime = ModeNone) sdo_auto_start_without_audio_runtime)"

section \<open>What a valid document satisfies\<close>

definition device_identity_ok :: "virtual_asio_device \<Rightarrow> bool" where
  "device_identity_ok d \<longleftrightarrow>
     (\<forall>v \<in> {va_device_id d, va_clsid d, va_registry_name d, va_broker_token d}. v \<noteq> [] \<and> bounded_field v) \<and>
     valid_token (va_device_id d) \<and> valid_clsid (va_clsid d) \<and> CHR 0x5C \<notin> set (va_registry_name d) \<and>
     CHR ''/'' \<notin> set (va_registry_name d) \<and> valid_token (va_broker_token d) \<and>
     va_input_channels d \<noteq> 0 \<and> va_input_channels d \<le> kVirtualAsioMaxChannels \<and>
     va_output_channels d \<noteq> 0 \<and> va_output_channels d \<le> kVirtualAsioMaxChannels"

definition session_document_ok :: "session_document \<Rightarrow> bool" where
  "session_document_ok d \<longleftrightarrow>
     sd_schema_version d = kSessionDocumentSchemaVersion \<and> preset_wf (sd_preset d) \<and>
     bounded_field (rc_capture_device_id (sd_audio_runtime d)) \<and> bounded_field (rc_render_device_id (sd_audio_runtime d)) \<and>
     (\<forall>e \<in> set (rc_endpoints (sd_audio_runtime d)). bounded_field (rt_endpoint_id e) \<and> bounded_field (rt_device_id e)) \<and>
     validate_audio_runtime_configuration (sd_audio_runtime d) True = [] \<and>
     0 < length (sd_virtual_asio_devices d) \<and> length (sd_virtual_asio_devices d) \<le> kMaximumVirtualAsioDevices \<and>
     (\<forall>v \<in> set (sd_virtual_asio_devices d). device_identity_ok v) \<and>
     (\<forall>f \<in> {va_device_id, va_clsid, va_registry_name, va_broker_token}.
        distinct (map (folded_identity \<circ> f) (sd_virtual_asio_devices d))) \<and>
     (sd_auto_start d \<longrightarrow> rc_mode (sd_audio_runtime d) \<noteq> ModeNone)"

lemma device_identity_errors_Nil: "device_identity_errors d = [] \<longleftrightarrow> device_identity_ok d"
  by (auto simp: device_identity_errors_def device_identity_ok_def Let_def unat_gt_0 not_less)

lemma validate_devices_Nil:
  "validate_devices s ds = [] \<longleftrightarrow> (\<forall>v \<in> set ds. device_identity_ok v) \<and>
     fresh_from (is_device_ids s) (map (folded_identity \<circ> va_device_id) ds) \<and>
     fresh_from (is_clsids s) (map (folded_identity \<circ> va_clsid) ds) \<and>
     fresh_from (is_registry_names s) (map (folded_identity \<circ> va_registry_name) ds) \<and>
     fresh_from (is_broker_tokens s) (map (folded_identity \<circ> va_broker_token) ds)"
proof (induction ds arbitrary: s)
  case (Cons d ds)
  show ?case
  proof (cases "fst (insert_identities s d)")
    case True
    then have "folded_identity (va_device_id d) \<in> is_device_ids s \<or> folded_identity (va_clsid d) \<in> is_clsids s \<or>
        folded_identity (va_registry_name d) \<in> is_registry_names s \<or> folded_identity (va_broker_token d) \<in> is_broker_tokens s"
      by (auto simp: insert_identities_def Let_def split: if_splits)
    with True show ?thesis by (auto simp: case_prod_beta)
  next
    case False
    then have fresh: "folded_identity (va_device_id d) \<notin> is_device_ids s" "folded_identity (va_clsid d) \<notin> is_clsids s"
        "folded_identity (va_registry_name d) \<notin> is_registry_names s" "folded_identity (va_broker_token d) \<notin> is_broker_tokens s"
      by (auto simp: insert_identities_def Let_def split: if_splits)
    then have "snd (insert_identities s d) = \<lparr>is_device_ids = insert (folded_identity (va_device_id d)) (is_device_ids s),
        is_clsids = insert (folded_identity (va_clsid d)) (is_clsids s),
        is_registry_names = insert (folded_identity (va_registry_name d)) (is_registry_names s),
        is_broker_tokens = insert (folded_identity (va_broker_token d)) (is_broker_tokens s)\<rparr>"
      by (simp add: insert_identities_def Let_def)
    with False fresh show ?thesis
      by (simp add: case_prod_beta device_identity_errors_Nil Cons conj_ac)
  qed
qed simp

section \<open>Properties\<close>

text \<open>
  Validation of a session is complete: nothing is reported exactly when the preset and the runtime
  configuration are valid, every field is within its bounds, and the one to sixteen devices have valid
  identities that stay pairwise different when letter case is ignored.
\<close>

theorem session_document_validation: "validate_session_document d = [] \<longleftrightarrow> session_document_ok d"
  by (auto simp: validate_session_document_def session_document_ok_def Let_def validate_preset_Nil
      validate_devices_Nil not_less)

end
