(* ===== verification/EngineService.thy ===== *)
theory EngineService
  imports RuntimeTopology ControlSession WireControl SessionDocument
begin

text \<open>
  \<^verbatim>\<open>core/service/engine_control_service.{h,cpp}\<close>: the service that decodes requests, answers
  repeated ones from a cache, edits the session, and starts, stops, rebuilds and replaces the
  audio runtime so that preset and runtime change together or not at all.

  The audio runtime, its builder and configurator, the commit observer, the recovery provider
  and the device providers are interfaces of the code: here they are functions, given in
  \<open>engine_hooks\<close> and in the state, over a type \<open>'r\<close> of runtime objects and a type \<open>'w\<close> of the world
  outside, which every call may read and change. Calls may fail and may throw. A handler result
  \<open>None\<close> is an exception that leaves the handler. Observers do not call back into the model.
\<close>

section \<open>Error values\<close>

definition srv_null_audio_runtime :: sar_error where
  "srv_null_audio_runtime = mk_error ''null_audio_runtime''
     ''Engine audio runtime must not be null.''"

definition srv_audio_runtime_running :: sar_error where
  "srv_audio_runtime_running = mk_error ''audio_runtime_running''
     ''Stop the active audio runtime before replacing it.''"

definition srv_audio_runtime_configurator_not_installed :: sar_error where
  "srv_audio_runtime_configurator_not_installed = mk_error ''audio_runtime_configurator_not_installed''
     ''Install an audio runtime configurator before configuring the engine.''"

definition srv_audio_runtime_restore_exception :: sar_error where
  "srv_audio_runtime_restore_exception = mk_error ''audio_runtime_restore_exception''
     ''The previous audio runtime threw an unknown exception while being restored.''"

definition srv_audio_runtime_configurator_returned_null :: sar_error where
  "srv_audio_runtime_configurator_returned_null = mk_error ''audio_runtime_configurator_returned_null''
     ''Audio runtime configurator returned no runtime.''"

definition srv_preset_commit_observer_exception :: sar_error where
  "srv_preset_commit_observer_exception = mk_error ''preset_commit_observer_exception''
     ''Preset commit observer raised an unknown exception.''"

definition srv_preset_commit_observer_exception_2 :: sar_error where
  "srv_preset_commit_observer_exception_2 = mk_error ''preset_commit_observer_exception''
     ''The preset commit observer threw an unknown exception.''"

definition srv_audio_runtime_configurator_exception :: sar_error where
  "srv_audio_runtime_configurator_exception = mk_error ''audio_runtime_configurator_exception''
     ''Audio runtime configurator raised an unknown exception.''"

definition srv_audio_runtime_not_installed :: sar_error where
  "srv_audio_runtime_not_installed = mk_error ''audio_runtime_not_installed''
     ''Install an audio runtime before starting the engine.''"

definition srv_audio_runtime_already_running :: sar_error where
  "srv_audio_runtime_already_running = mk_error ''audio_runtime_already_running''
     ''Engine audio runtime is already running.''"

definition srv_audio_runtime_graph_stale :: sar_error where
  "srv_audio_runtime_graph_stale = mk_error ''audio_runtime_graph_stale''
     ''Rebuild the audio runtime for the current graph before starting it.''"

definition srv_audio_runtime_builder_returned_null :: sar_error where
  "srv_audio_runtime_builder_returned_null = mk_error ''audio_runtime_builder_returned_null''
     ''Audio runtime builder returned no runtime.''"

definition srv_audio_runtime_builder_exception :: sar_error where
  "srv_audio_runtime_builder_exception = mk_error ''audio_runtime_builder_exception''
     ''Audio runtime builder raised an unknown exception.''"

definition srv_command_id_conflict :: sar_error where
  "srv_command_id_conflict = mk_error ''command_id_conflict''
     ''Control command ID was already used for a different request.''"

definition srv_audio_runtime_graph_change_requires_restart :: sar_error where
  "srv_audio_runtime_graph_change_requires_restart = mk_error ''audio_runtime_graph_change_requires_restart''
     ''The running audio runtime cannot rebuild its graph automatically.''"

definition srv_reentrant_preset_mutation_rejected :: sar_error where
  "srv_reentrant_preset_mutation_rejected = mk_error ''reentrant_preset_mutation_rejected''
     ''A preset observer cannot issue another preset mutation while a commit is pending.''"

definition srv_audio_runtime_realtime_parameter_update_unsupported :: sar_error where
  "srv_audio_runtime_realtime_parameter_update_unsupported = mk_error ''audio_runtime_realtime_parameter_update_unsupported''
     ''The running audio runtime cannot apply route parameters without restarting.''"

section \<open>The runtime interface\<close>

record runtime_error =
  ee_code :: string
  ee_message :: string
  ee_native_hresult :: "u32 option"
  ee_native_win32_code :: "u32 option"

definition runtime_error_of :: "sar_error \<Rightarrow> runtime_error" where
  "runtime_error_of e = \<lparr>ee_code = err_code e, ee_message = err_message e, ee_native_hresult = None,
     ee_native_win32_code = None\<rparr>"

definition preset_error_of :: "runtime_error \<Rightarrow> sar_error" where
  "preset_error_of e = mk_error (ee_code e) (ee_message e)"

text \<open>The text of \<^verbatim>\<open>std::exception::what\<close>, or \<open>None\<close> for an object of another type.\<close>

type_synonym thrown = "string option"

datatype start_outcome = StartReturned "runtime_error list" | StartThrew thrown

text \<open>\<open>BuildFailed []\<close> is a null runtime without errors.\<close>

datatype 'r build_outcome = Built 'r | BuildFailed "runtime_error list" | BuildThrew thrown

datatype observer_outcome = Observed "sar_error list" | ObserverThrew thrown

datatype engine_recovery_state =
  EngineStopped | EngineOpening | EngineRunning | EngineQuiescing | EngineBackoff | EngineFaulted

datatype engine_runtime_health = EngineHealthStopped | EngineHealthy | EngineDegraded | EngineHealthFaulted

record engine_recovery =
  er_state :: engine_recovery_state
  er_runtime_health :: engine_runtime_health
  er_runtime_reason_code :: string
  er_recovery_episode_count :: u64
  er_successful_recovery_count :: u64
  er_failed_recovery_count :: u64
  er_last_recovery_duration_ms :: u64
  er_maximum_recovery_duration_ms :: u64
  er_reopen_count :: u64
  er_reset_failure_count :: u64
  er_reopen_pending :: bool
  er_wait_timeout_cycles :: u64
  er_capture_discontinuity_cycles :: u64
  er_render_fifo_underflow_frames :: u64
  er_maximum_silence_frames :: u64
  er_maximum_clamped_frames :: u64

datatype engine_endpoint_role = EngineMaster | EngineFollower

record engine_endpoint =
  ei_endpoint_id :: string
  ei_role :: engine_endpoint_role
  ei_diagnostics :: engine_diagnostics
  ei_recovery :: "engine_recovery option"
  ei_queue_fill_frames :: "u64 option"
  ei_correction_ppm :: "f64 option"

text \<open>The virtual functions of \<^verbatim>\<open>EngineAudioRuntime\<close>; the last two return \<open>None\<close> when they throw.\<close>

record ('r, 'w) engine_hooks =
  hk_start :: "u32 \<Rightarrow> 'r \<Rightarrow> 'w \<Rightarrow> start_outcome \<times> 'r \<times> 'w"
  hk_stop :: "'r \<Rightarrow> 'w \<Rightarrow> 'r \<times> 'w"
  hk_running :: "'r \<Rightarrow> 'w \<Rightarrow> bool"
  hk_graph_version :: "'r \<Rightarrow> 'w \<Rightarrow> u64"
  hk_apply_parameters :: "graph \<Rightarrow> 'r \<Rightarrow> 'w \<Rightarrow> bool \<times> 'r \<times> 'w"
  hk_diagnostics :: "'r \<Rightarrow> 'w \<Rightarrow> engine_diagnostics"
  hk_recovery_diagnostics :: "'r \<Rightarrow> 'w \<Rightarrow> engine_recovery option option"
  hk_endpoint_diagnostics :: "'r \<Rightarrow> 'w \<Rightarrow> engine_endpoint list option"

section \<open>State\<close>

record replayed_response =
  rp_command_id :: string
  rp_request :: "byte list"
  rp_response :: encode_result

record ('r, 'w) engine_service =
  es_session :: control_session
  es_runtime :: "'r option"
  es_builder :: "(graph \<Rightarrow> 'w \<Rightarrow> 'r build_outcome \<times> 'w) option"
  es_configurator :: "(runtime_configuration \<Rightarrow> graph \<Rightarrow> preset_matrix \<Rightarrow> 'w \<Rightarrow> 'r build_outcome \<times> 'w) option"
  es_observer :: "(preset_document \<Rightarrow> u64 \<Rightarrow> 'w \<Rightarrow> observer_outcome \<times> 'w) option"
  es_recovery_provider :: "('w \<Rightarrow> recovery_diagnostics option option) option"
  es_commit_in_progress :: bool
  es_configuration :: "runtime_configuration option"
  es_providers :: "('w \<Rightarrow> device_list_result) list"
  es_replayed :: "replayed_response list"
  es_replayed_bytes :: nat
  es_world :: 'w

definition kMaxReplayedResponses :: nat where "kMaxReplayedResponses = 64"
definition kMaxReplayedResponseBytes :: nat where "kMaxReplayedResponseBytes = 4 * 1024 * 1024"

definition service_create ::
  "'w \<Rightarrow> preset_document \<Rightarrow> u64 \<Rightarrow> (sar_error list + ('r, 'w) engine_service) option" where
  "service_create w p version =
     (case session_create p version of
        None \<Rightarrow> None
      | Some (Inl es) \<Rightarrow> Some (Inl es)
      | Some (Inr s) \<Rightarrow> Some (Inr \<lparr>es_session = s, es_runtime = None, es_builder = None, es_configurator = None,
          es_observer = None, es_recovery_provider = None, es_commit_in_progress = False, es_configuration = None,
          es_providers = [], es_replayed = [], es_replayed_bytes = 0, es_world = w\<rparr>))"

definition runtime_running :: "('r, 'w) engine_hooks \<Rightarrow> ('r, 'w) engine_service \<Rightarrow> bool" where
  "runtime_running h s = (case es_runtime s of None \<Rightarrow> False | Some r \<Rightarrow> hk_running h r (es_world s))"

definition install_audio_runtime ::
  "('r, 'w) engine_hooks \<Rightarrow> 'r option \<Rightarrow> (graph \<Rightarrow> 'w \<Rightarrow> 'r build_outcome \<times> 'w) option \<Rightarrow> ('r, 'w) engine_service \<Rightarrow>
   runtime_error list \<times> ('r, 'w) engine_service" where
  "install_audio_runtime h runtime builder s =
     (if runtime = None then ([runtime_error_of srv_null_audio_runtime], s)
      else if runtime_running h s then ([runtime_error_of srv_audio_runtime_running], s)
      else ([], s\<lparr>es_runtime := runtime, es_builder := builder, es_configuration := None\<rparr>))"

definition set_audio_runtime_configurator ::
  "(runtime_configuration \<Rightarrow> graph \<Rightarrow> preset_matrix \<Rightarrow> 'w \<Rightarrow> 'r build_outcome \<times> 'w) option \<Rightarrow>
   ('r, 'w) engine_service \<Rightarrow> ('r, 'w) engine_service" where
  "set_audio_runtime_configurator f s = s\<lparr>es_configurator := f\<rparr>"

definition set_preset_commit_observer ::
  "(preset_document \<Rightarrow> u64 \<Rightarrow> 'w \<Rightarrow> observer_outcome \<times> 'w) option \<Rightarrow>
   ('r, 'w) engine_service \<Rightarrow> ('r, 'w) engine_service" where
  "set_preset_commit_observer f s = s\<lparr>es_observer := f\<rparr>"

definition set_wasapi_recovery_diagnostics_provider ::
  "('w \<Rightarrow> recovery_diagnostics option option) option \<Rightarrow> ('r, 'w) engine_service \<Rightarrow> ('r, 'w) engine_service" where
  "set_wasapi_recovery_diagnostics_provider f s = s\<lparr>es_recovery_provider := f\<rparr>"

definition add_audio_device_provider ::
  "('w \<Rightarrow> device_list_result) option \<Rightarrow> ('r, 'w) engine_service \<Rightarrow> ('r, 'w) engine_service" where
  "add_audio_device_provider provider s =
     (case provider of None \<Rightarrow> s | Some p \<Rightarrow> s\<lparr>es_providers := es_providers s @ [p]\<rparr>)"

section \<open>Building, starting and stopping the runtime\<close>

definition builder_exception :: "thrown \<Rightarrow> runtime_error" where
  "builder_exception t = runtime_error_of
     (case t of Some what \<Rightarrow> mk_error ''audio_runtime_builder_exception'' what
      | None \<Rightarrow> srv_audio_runtime_builder_exception)"

definition build_audio_runtime_locked ::
  "graph \<Rightarrow> preset_matrix \<Rightarrow> ('r, 'w) engine_service \<Rightarrow> (runtime_error list + 'r) \<times> ('r, 'w) engine_service" where
  "build_audio_runtime_locked g m s =
     (let build = (case (es_configurator s, es_configuration s) of
          (Some f, Some c) \<Rightarrow> Some (f c g m)
        | _ \<Rightarrow> map_option (\<lambda>f. f g) (es_builder s))
      in case build of
        None \<Rightarrow> (Inl [runtime_error_of srv_audio_runtime_graph_stale], s)
      | Some f \<Rightarrow>
          (case f (es_world s) of (outcome, w) \<Rightarrow>
             (case outcome of
                Built r \<Rightarrow> Inr r
              | BuildFailed es \<Rightarrow>
                  Inl (if es = [] then [runtime_error_of srv_audio_runtime_builder_returned_null] else es)
              | BuildThrew t \<Rightarrow> Inl [builder_exception t], s\<lparr>es_world := w\<rparr>)))"

definition rebuild_audio_runtime_locked ::
  "('r, 'w) engine_service \<Rightarrow> runtime_error list \<times> ('r, 'w) engine_service" where
  "rebuild_audio_runtime_locked s =
     (case build_audio_runtime_locked (ss_graph (es_session s)) (pd_matrix (ss_preset (es_session s))) s of
        (Inl es, s') \<Rightarrow> (es, s')
      | (Inr r, s') \<Rightarrow> ([], s'\<lparr>es_runtime := Some r\<rparr>))"

text \<open>\<open>audio_runtime_->start\<close> on the installed runtime; \<open>None\<close> when it throws.\<close>

definition start_installed ::
  "('r, 'w) engine_hooks \<Rightarrow> u32 \<Rightarrow> ('r, 'w) engine_service \<Rightarrow> runtime_error list option \<times> ('r, 'w) engine_service" where
  "start_installed h timeout s =
     (case es_runtime s of
        None \<Rightarrow> (None, s)
      | Some r \<Rightarrow>
          (case hk_start h timeout r (es_world s) of (outcome, r', w) \<Rightarrow>
             (case outcome of StartReturned es \<Rightarrow> Some es | StartThrew _ \<Rightarrow> None,
              s\<lparr>es_runtime := Some r', es_world := w\<rparr>)))"

definition start_audio_runtime_locked ::
  "('r, 'w) engine_hooks \<Rightarrow> u32 \<Rightarrow> ('r, 'w) engine_service \<Rightarrow> runtime_error list option \<times> ('r, 'w) engine_service" where
  "start_audio_runtime_locked h timeout s =
     (case es_runtime s of
        None \<Rightarrow> (Some [runtime_error_of srv_audio_runtime_not_installed], s)
      | Some r \<Rightarrow>
          if runtime_running h s then (Some [runtime_error_of srv_audio_runtime_already_running], s)
          else if hk_graph_version h r (es_world s) \<noteq> g_version (ss_graph (es_session s)) then
            (case rebuild_audio_runtime_locked s of (es, s') \<Rightarrow>
               if es \<noteq> [] then (Some es, s') else start_installed h timeout s')
          else start_installed h timeout s)"

definition stop_audio_runtime_locked ::
  "('r, 'w) engine_hooks \<Rightarrow> ('r, 'w) engine_service \<Rightarrow> ('r, 'w) engine_service" where
  "stop_audio_runtime_locked h s =
     (case es_runtime s of
        None \<Rightarrow> s
      | Some r \<Rightarrow> (case hk_stop h r (es_world s) of (r', w) \<Rightarrow> s\<lparr>es_runtime := Some r', es_world := w\<rparr>))"

section \<open>Configuring the runtime\<close>

text \<open>The preset update of a change to or from matrix mode; the outer \<open>None\<close> is an exception.\<close>

definition matrix_update ::
  "runtime_configuration \<Rightarrow> ('r, 'w) engine_service \<Rightarrow> (sar_error list + prepared_update option) option" where
  "matrix_update c s =
     (let leaves = (case es_configuration s of
            None \<Rightarrow> False
          | Some p \<Rightarrow> rc_mode p = WasapiMatrix \<and> rc_mode c \<noteq> PhysicalAsioMode)
      in if rc_mode c = WasapiMatrix \<or> leaves then
           (case reconcile_audio_runtime_matrix_preset (ss_preset (es_session s))
                   (case es_configuration s of None \<Rightarrow> default_runtime_configuration | Some p \<Rightarrow> p) c of
              Inl es \<Rightarrow> Some (Inl es)
            | Inr p \<Rightarrow>
                (case prepare_preset_update (default_command\<lparr>cc_command_id := ''runtime-matrix-reconcile'',
                         cc_type := LoadPreset, cc_preset := p\<rparr>) (es_session s) of
                   None \<Rightarrow> None
                 | Some (Inl es) \<Rightarrow> Some (Inl es)
                 | Some (Inr u) \<Rightarrow> Some (Inr (Some u))))
         else Some (Inr None))"

definition restore_failed_message :: string where
  "restore_failed_message = ''The audio configuration was rejected and the previous runtime could not be restored: ''"

definition restore_errors :: "start_outcome \<Rightarrow> runtime_error list" where
  "restore_errors outcome =
     (case outcome of
        StartReturned es \<Rightarrow> map (\<lambda>e. e\<lparr>ee_code := ''audio_runtime_restore_failed_'' @ ee_code e,
          ee_message := restore_failed_message @ ee_message e\<rparr>) es
      | StartThrew (Some what) \<Rightarrow> [runtime_error_of (mk_error ''audio_runtime_restore_exception''
          (''The previous audio runtime threw while being restored: '' @ what))]
      | StartThrew None \<Rightarrow> [runtime_error_of srv_audio_runtime_restore_exception])"

definition restore_previous_runtime ::
  "('r, 'w) engine_hooks \<Rightarrow> 'r option \<Rightarrow> runtime_error list \<Rightarrow> ('r, 'w) engine_service \<Rightarrow>
   runtime_error list \<times> ('r, 'w) engine_service" where
  "restore_previous_runtime h previous errors s =
     (case previous of
        None \<Rightarrow> (errors, s)
      | Some r \<Rightarrow>
          (case hk_start h 10 r (es_world s) of (outcome, r', w) \<Rightarrow>
             (errors @ restore_errors outcome, s\<lparr>es_runtime := Some r', es_world := w\<rparr>)))"

definition configurator_exception :: "thrown \<Rightarrow> runtime_error" where
  "configurator_exception t = runtime_error_of
     (case t of Some what \<Rightarrow> mk_error ''audio_runtime_configurator_exception'' what
      | None \<Rightarrow> srv_audio_runtime_configurator_exception)"

definition observe_matrix_update ::
  "prepared_update option \<Rightarrow> ('r, 'w) engine_service \<Rightarrow> sar_error list \<times> ('r, 'w) engine_service" where
  "observe_matrix_update update s =
     (case (update, es_observer s) of
        (Some u, Some f) \<Rightarrow>
          (case f (pu_preset u) (pu_version u) (es_world s) of (outcome, w) \<Rightarrow>
             (case outcome of
                Observed es \<Rightarrow> es
              | ObserverThrew (Some what) \<Rightarrow> [mk_error ''preset_commit_observer_exception'' what]
              | ObserverThrew None \<Rightarrow> [srv_preset_commit_observer_exception], s\<lparr>es_world := w\<rparr>))
      | _ \<Rightarrow> ([], s))"

text \<open>The candidate runtime is stopped and dropped, then the previous one is restored.\<close>

definition drop_and_restore ::
  "('r, 'w) engine_hooks \<Rightarrow> 'r \<Rightarrow> 'r option \<Rightarrow> runtime_error list \<Rightarrow> ('r, 'w) engine_service \<Rightarrow>
   runtime_error list \<times> ('r, 'w) engine_service" where
  "drop_and_restore h candidate previous errors s =
     restore_previous_runtime h previous errors (s\<lparr>es_world := snd (hk_stop h candidate (es_world s))\<rparr>)"

definition adopt_candidate ::
  "('r, 'w) engine_hooks \<Rightarrow> runtime_configuration \<Rightarrow> prepared_update option \<Rightarrow> 'r option \<Rightarrow> 'r \<Rightarrow>
   ('r, 'w) engine_service \<Rightarrow> runtime_error list \<times> ('r, 'w) engine_service" where
  "adopt_candidate h c update previous candidate s =
     (case observe_matrix_update update s of (observer_errors, s') \<Rightarrow>
        if observer_errors \<noteq> []
        then drop_and_restore h candidate previous (map runtime_error_of observer_errors) s'
        else ([], s'\<lparr>es_runtime := Some candidate, es_configuration := Some c,
          es_session := (case update of None \<Rightarrow> es_session s' | Some u \<Rightarrow> commit_preset_update u (es_session s'))\<rparr>))"

definition install_candidate ::
  "('r, 'w) engine_hooks \<Rightarrow> runtime_configuration \<Rightarrow> prepared_update option \<Rightarrow> 'r option \<Rightarrow> 'r build_outcome \<Rightarrow>
   ('r, 'w) engine_service \<Rightarrow> runtime_error list \<times> ('r, 'w) engine_service" where
  "install_candidate h c update previous outcome s =
     (case outcome of
        BuildThrew t \<Rightarrow> restore_previous_runtime h previous [configurator_exception t] s
      | BuildFailed es \<Rightarrow> restore_previous_runtime h previous
          (if es = [] then [runtime_error_of srv_audio_runtime_configurator_returned_null] else es) s
      | Built candidate \<Rightarrow>
          if previous = None then adopt_candidate h c update previous candidate s
          else (case hk_start h 10 candidate (es_world s) of (started, candidate', w) \<Rightarrow>
            case started of
              StartThrew t \<Rightarrow> restore_previous_runtime h previous [configurator_exception t] (s\<lparr>es_world := w\<rparr>)
            | StartReturned es \<Rightarrow>
                if es \<noteq> [] then drop_and_restore h candidate' previous es (s\<lparr>es_world := w\<rparr>)
                else adopt_candidate h c update previous candidate' (s\<lparr>es_world := w\<rparr>)))"

definition configure_audio_runtime_locked ::
  "('r, 'w) engine_hooks \<Rightarrow> runtime_configuration \<Rightarrow> ('r, 'w) engine_service \<Rightarrow>
   runtime_error list option \<times> ('r, 'w) engine_service" where
  "configure_audio_runtime_locked h c s =
     (case es_configurator s of
        None \<Rightarrow> (Some [runtime_error_of srv_audio_runtime_configurator_not_installed], s)
      | Some configurator \<Rightarrow>
          (case matrix_update c s of
             None \<Rightarrow> (None, s)
           | Some (Inl es) \<Rightarrow> (Some (map runtime_error_of es), s)
           | Some (Inr update) \<Rightarrow>
               let stopped = (if runtime_running h s then stop_audio_runtime_locked h s else s);
                   previous = (if runtime_running h s then es_runtime stopped else None);
                   moved = (if runtime_running h s then stopped\<lparr>es_runtime := None\<rparr> else s);
                   g = (case update of None \<Rightarrow> ss_graph (es_session s) | Some u \<Rightarrow> pu_graph u);
                   m = (case update of None \<Rightarrow> pd_matrix (ss_preset (es_session s)) | Some u \<Rightarrow> pd_matrix (pu_preset u))
               in (case configurator c g m (es_world moved) of (outcome, w) \<Rightarrow>
                     case install_candidate h c update previous outcome (moved\<lparr>es_world := w\<rparr>) of
                       (es, s') \<Rightarrow> (Some es, s'))))"


section \<open>Responses of the service\<close>

definition runtime_state_response_locked ::
  "('r, 'w) engine_hooks \<Rightarrow> string \<Rightarrow> ('r, 'w) engine_service \<Rightarrow> control_response" where
  "runtime_state_response_locked h i s =
     (let r = audio_runtime_state_response i (es_runtime s \<noteq> None) (runtime_running h s)
            (case es_runtime s of None \<Rightarrow> 0 | Some r \<Rightarrow> hk_graph_version h r (es_world s))
      in case es_configuration s of
           None \<Rightarrow> r
         | Some c \<Rightarrow> r\<lparr>cr_audio_runtime := (cr_audio_runtime r)\<lparr>as_configured := True, as_configuration := c\<rparr>\<rparr>)"

definition append_platform_devices_locked ::
  "control_response \<Rightarrow> ('r, 'w) engine_service \<Rightarrow> control_response" where
  "append_platform_devices_locked r s =
     (if cr_status r = Rejected then r
      else case registry_list_devices (map (\<lambda>p. p (es_world s)) (es_providers s)) of
        Inl es \<Rightarrow> command_rejected (cr_command_id r) es
      | Inr ds \<Rightarrow>
          (let devices = cr_devices r @ ds; validation = validate_audio_devices devices
           in if validation \<noteq> [] then command_rejected (cr_command_id r) validation
              else r\<lparr>cr_devices := devices, cr_has_devices := True\<rparr>))"

fun convert_recovery_state :: "engine_recovery_state \<Rightarrow> recovery_state" where
  "convert_recovery_state EngineStopped = RecoveryStopped"
| "convert_recovery_state EngineOpening = RecoveryOpening"
| "convert_recovery_state EngineRunning = RecoveryRunning"
| "convert_recovery_state EngineQuiescing = RecoveryQuiescing"
| "convert_recovery_state EngineBackoff = RecoveryBackoff"
| "convert_recovery_state EngineFaulted = RecoveryFaulted"

fun convert_runtime_health :: "engine_runtime_health \<Rightarrow> runtime_health" where
  "convert_runtime_health EngineHealthStopped = HealthStopped"
| "convert_runtime_health EngineHealthy = HealthHealthy"
| "convert_runtime_health EngineDegraded = HealthDegraded"
| "convert_runtime_health EngineHealthFaulted = HealthFaulted"

definition convert_recovery_diagnostics :: "engine_recovery \<Rightarrow> recovery_diagnostics" where
  "convert_recovery_diagnostics r =
     \<lparr>rd_state = convert_recovery_state (er_state r),
      rd_runtime_health = convert_runtime_health (er_runtime_health r),
      rd_reason_code = er_runtime_reason_code r,
      rd_recovery_episode_count = er_recovery_episode_count r,
      rd_successful_recovery_count = er_successful_recovery_count r,
      rd_failed_recovery_count = er_failed_recovery_count r,
      rd_last_recovery_duration_ms = er_last_recovery_duration_ms r,
      rd_maximum_recovery_duration_ms = er_maximum_recovery_duration_ms r,
      rd_reopen_count = er_reopen_count r, rd_reset_failure_count = er_reset_failure_count r,
      rd_reopen_pending = er_reopen_pending r, rd_wait_timeout_cycles = er_wait_timeout_cycles r,
      rd_capture_discontinuity_cycles = er_capture_discontinuity_cycles r,
      rd_render_fifo_underflow_frames = er_render_fifo_underflow_frames r,
      rd_maximum_silence_frames = er_maximum_silence_frames r,
      rd_maximum_clamped_frames = er_maximum_clamped_frames r\<rparr>"

definition convert_endpoint_diagnostics :: "engine_endpoint \<Rightarrow> endpoint_diagnostics" where
  "convert_endpoint_diagnostics e =
     \<lparr>ep_endpoint_id = ei_endpoint_id e,
      ep_role = (if ei_role e = EngineMaster then Master else Follower),
      ep_diagnostics = ei_diagnostics e,
      ep_recovery = map_option convert_recovery_diagnostics (ei_recovery e),
      ep_queue_fill_frames = ei_queue_fill_frames e, ep_correction_ppm = ei_correction_ppm e\<rparr>"

text \<open>The telemetry block: an exception keeps what was written to the response before it.\<close>

definition add_recovery_telemetry ::
  "('r, 'w) engine_hooks \<Rightarrow> ('r, 'w) engine_service \<Rightarrow> control_response \<Rightarrow> control_response" where
  "add_recovery_telemetry h s r =
     (let w = es_world s;
          runtime_recovery = (case es_runtime s of None \<Rightarrow> Some None | Some x \<Rightarrow> hk_recovery_diagnostics h x w)
      in case runtime_recovery of
        None \<Rightarrow> r
      | Some found \<Rightarrow>
          (let recovery = (case found of
                 Some x \<Rightarrow> Some (Some (convert_recovery_diagnostics x))
               | None \<Rightarrow> (case es_recovery_provider s of None \<Rightarrow> Some None | Some p \<Rightarrow> p w))
           in case recovery of
             None \<Rightarrow> r
           | Some d \<Rightarrow>
               (let r' = (case d of None \<Rightarrow> r
                      | Some x \<Rightarrow> r\<lparr>cr_wasapi_recovery := x, cr_has_wasapi_recovery := True\<rparr>)
                in case es_runtime s of
                  None \<Rightarrow> r'
                | Some x \<Rightarrow>
                    (case hk_endpoint_diagnostics h x w of
                       None \<Rightarrow> r'
                     | Some es \<Rightarrow> r'\<lparr>cr_endpoint_diagnostics :=
                         cr_endpoint_diagnostics r' @ map convert_endpoint_diagnostics es\<rparr>))))"

section \<open>Editing the preset\<close>

definition updates_realtime_route_parameters :: "control_command_type \<Rightarrow> bool" where
  "updates_realtime_route_parameters ty \<longleftrightarrow> ty = ConnectRoute \<or> ty = DisconnectRoute \<or> ty = SetGain \<or> ty = SetMute"

definition not_committed :: "string \<Rightarrow> string \<Rightarrow> runtime_error \<Rightarrow> sar_error" where
  "not_committed code_prefix message_prefix e = mk_error (code_prefix @ ee_code e) (message_prefix @ ee_message e)"

definition rebuild_failed :: "runtime_error \<Rightarrow> sar_error" where
  "rebuild_failed = not_committed ''audio_runtime_rebuild_failed_''
     ''The preset change was not committed because the replacement audio runtime could not be built: ''"

definition replacement_start_failed :: "runtime_error \<Rightarrow> sar_error" where
  "replacement_start_failed = not_committed ''audio_runtime_replacement_start_failed_''
     ''The preset change was not committed because the replacement audio runtime could not start: ''"

definition restore_failed :: "runtime_error \<Rightarrow> sar_error" where
  "restore_failed = not_committed ''audio_runtime_restore_failed_''
     ''The preset change was rejected and the previous audio runtime could not be restored: ''"

text \<open>Put the previous runtime back, start it, and refuse with what went wrong.\<close>

definition reject_and_restore ::
  "('r, 'w) engine_hooks \<Rightarrow> string \<Rightarrow> 'r option \<Rightarrow> sar_error list \<Rightarrow> ('r, 'w) engine_service \<Rightarrow>
   control_response option \<times> ('r, 'w) engine_service" where
  "reject_and_restore h i previous errors s =
     (case start_audio_runtime_locked h 10 (s\<lparr>es_runtime := previous\<rparr>) of
        (None, s') \<Rightarrow> (None, s')
      | (Some es, s') \<Rightarrow> (Some (command_rejected i (errors @ map restore_failed es)), s'))"

definition observer_exception :: "thrown \<Rightarrow> sar_error" where
  "observer_exception t = (case t of
     Some what \<Rightarrow> mk_error ''preset_commit_observer_exception'' (''The preset commit observer threw an exception: '' @ what)
   | None \<Rightarrow> srv_preset_commit_observer_exception_2)"

definition observe_update ::
  "prepared_update \<Rightarrow> ('r, 'w) engine_service \<Rightarrow> sar_error list \<times> ('r, 'w) engine_service" where
  "observe_update u s =
     (case es_observer s of
        None \<Rightarrow> ([], s)
      | Some f \<Rightarrow>
          (case f (pu_preset u) (pu_version u) (es_world s) of (outcome, w) \<Rightarrow>
             (case outcome of Observed es \<Rightarrow> es | ObserverThrew t \<Rightarrow> [observer_exception t],
              s\<lparr>es_world := w, es_commit_in_progress := False\<rparr>)))"

text \<open>Tell the observer that the committed preset stays; whatever it answers is ignored.\<close>

definition report_rollback :: "('r, 'w) engine_service \<Rightarrow> ('r, 'w) engine_service" where
  "report_rollback s =
     (case es_observer s of
        None \<Rightarrow> s
      | Some f \<Rightarrow> s\<lparr>es_world := snd (f (ss_preset (es_session s)) (g_version (ss_graph (es_session s))) (es_world s))\<rparr>)"

definition commit_and_answer ::
  "('r, 'w) engine_hooks \<Rightarrow> string \<Rightarrow> prepared_update \<Rightarrow> ('r, 'w) engine_service \<Rightarrow>
   control_response option \<times> ('r, 'w) engine_service" where
  "commit_and_answer h i u s =
     (let s' = s\<lparr>es_session := commit_preset_update u (es_session s)\<rparr>;
          r = preset_response i (ss_preset (es_session s'))
      in (Some (if es_runtime s' = None then r
            else r\<lparr>cr_audio_runtime := cr_audio_runtime (runtime_state_response_locked h i s'),
                   cr_has_audio_runtime_state := True\<rparr>), s'))"

text \<open>
  From the observer call on. \<open>previous\<close> is the runtime that was replaced, when one was;
  \<open>live\<close> says that the running runtime takes the new route parameters.
\<close>

definition finish_update ::
  "('r, 'w) engine_hooks \<Rightarrow> string \<Rightarrow> prepared_update \<Rightarrow> bool \<Rightarrow> 'r option \<Rightarrow> bool \<Rightarrow> ('r, 'w) engine_service \<Rightarrow>
   control_response option \<times> ('r, 'w) engine_service" where
  "finish_update h i u restarted previous live s =
     (case observe_update u s of (observer_errors, s1) \<Rightarrow>
        if observer_errors \<noteq> [] then
          (if restarted then reject_and_restore h i previous observer_errors (stop_audio_runtime_locked h s1)
           else (Some (command_rejected i observer_errors), s1))
        else if live then
          (case es_runtime s1 of
             None \<Rightarrow> (None, s1)
           | Some r \<Rightarrow>
               (case hk_apply_parameters h (pu_graph u) r (es_world s1) of (applied, r', w) \<Rightarrow>
                  let s2 = s1\<lparr>es_runtime := Some r', es_world := w\<rparr>
                  in if applied then commit_and_answer h i u s2
                     else (Some (command_rejected i [srv_audio_runtime_realtime_parameter_update_unsupported]),
                           report_rollback s2)))
        else commit_and_answer h i u s1)"

definition update_preset ::
  "('r, 'w) engine_hooks \<Rightarrow> control_command \<Rightarrow> bool \<Rightarrow> bool \<Rightarrow> ('r, 'w) engine_service \<Rightarrow>
   control_response option \<times> ('r, 'w) engine_service" where
  "update_preset h c restart live s =
     (let i = cc_command_id c
      in case prepare_preset_update c (es_session s) of
        None \<Rightarrow> (None, s)
      | Some (Inl es) \<Rightarrow> (Some (command_rejected i es), s)
      | Some (Inr u) \<Rightarrow>
          if \<not> restart then finish_update h i u False None live s
          else
            let stopped = stop_audio_runtime_locked h s; previous = es_runtime stopped
            in (case build_audio_runtime_locked (pu_graph u) (pd_matrix (pu_preset u)) (stopped\<lparr>es_runtime := None\<rparr>) of
                  (Inl es, s1) \<Rightarrow> reject_and_restore h i previous (map rebuild_failed es) s1
                | (Inr r, s1) \<Rightarrow>
                    (case start_installed h 10 (s1\<lparr>es_runtime := Some r\<rparr>) of
                       (None, s2) \<Rightarrow> (None, s2)
                     | (Some es, s2) \<Rightarrow>
                         if es \<noteq> [] then
                           reject_and_restore h i previous (map replacement_start_failed es)
                             (stop_audio_runtime_locked h s2)
                         else finish_update h i u True previous live s2)))"

section \<open>Handling a request\<close>

definition answer_runtime_command ::
  "('r, 'w) engine_hooks \<Rightarrow> string \<Rightarrow> runtime_error list option \<times> ('r, 'w) engine_service \<Rightarrow>
   control_response option \<times> ('r, 'w) engine_service" where
  "answer_runtime_command h i result =
     (case result of
        (None, s) \<Rightarrow> (None, s)
      | (Some es, s) \<Rightarrow>
          (Some (if es \<noteq> [] then command_rejected i (map preset_error_of es)
                 else runtime_state_response_locked h i s), s))"

definition execute_command ::
  "('r, 'w) engine_hooks \<Rightarrow> control_command \<Rightarrow> ('r, 'w) engine_service \<Rightarrow>
   control_response option \<times> ('r, 'w) engine_service" where
  "execute_command h c s =
     (let i = cc_command_id c; ty = cc_type c; invalid = validate_command c;
          mutates = control_command_mutates_preset ty;
          route_update = updates_realtime_route_parameters ty;
          live = (route_update \<and> runtime_running h s);
          restart = (mutates \<and> \<not> route_update \<and> runtime_running h s)
      in if invalid \<noteq> [] then (Some (command_rejected i invalid), s)
         else if ty = QueryAudioRuntime then (Some (runtime_state_response_locked h i s), s)
         else if ty = StartAudioRuntime then answer_runtime_command h i (start_audio_runtime_locked h 10 s)
         else if ty = StopAudioRuntime then
           (let s' = stop_audio_runtime_locked h s in (Some (runtime_state_response_locked h i s'), s'))
         else if ty = ConfigureAudioRuntime then
           answer_runtime_command h i (configure_audio_runtime_locked h (cc_audio_runtime c) s)
         else if restart \<and> es_builder s = None \<and> (es_configurator s = None \<or> es_configuration s = None) then
           (Some (command_rejected i [srv_audio_runtime_graph_change_requires_restart]), s)
         else if mutates \<and> es_commit_in_progress s then
           (Some (command_rejected i [srv_reentrant_preset_mutation_rejected]), s)
         else if mutates then update_preset h c restart live s
         else
           let diagnostics = (case es_runtime s of
                 Some r \<Rightarrow> if ty = QueryDiagnostics then hk_diagnostics h r (es_world s) else default_diagnostics
               | None \<Rightarrow> default_diagnostics)
           in (case session_handle c diagnostics (es_session s) of
                 None \<Rightarrow> (None, s)
               | Some (r, session) \<Rightarrow>
                   (let s' = s\<lparr>es_session := session\<rparr>;
                        r1 = (if ty = QueryDiagnostics \<and> cr_has_diagnostics r then add_recovery_telemetry h s' r else r);
                        r2 = (if ty = ListDevices \<or> ty = QuerySessionState then append_platform_devices_locked r1 s' else r1)
                    in (Some r2, s'))))"

definition find_replayed_response :: "string \<Rightarrow> replayed_response list \<Rightarrow> replayed_response option" where
  "find_replayed_response i rs = List.find (\<lambda>r. rp_command_id r = i) rs"

definition result_bytes :: "encode_result \<Rightarrow> nat" where
  "result_bytes r = (case r of Inl _ \<Rightarrow> 0 | Inr bs \<Rightarrow> length bs)"

definition entry_bytes :: "replayed_response \<Rightarrow> nat" where
  "entry_bytes r = length (rp_request r) + result_bytes (rp_response r)"

text \<open>The \<^verbatim>\<open>while\<close> loop that drops the oldest responses until the new one fits.\<close>

fun evict :: "nat \<Rightarrow> replayed_response list \<times> nat \<Rightarrow> replayed_response list \<times> nat" where
  "evict n ([], bytes) = ([], bytes)"
| "evict n (r # rs, bytes) =
     (if length (r # rs) \<ge> kMaxReplayedResponses \<or> bytes + n > kMaxReplayedResponseBytes
      then evict n (rs, bytes - entry_bytes r) else (r # rs, bytes))"

definition remember_response ::
  "string \<Rightarrow> byte list \<Rightarrow> encode_result \<Rightarrow> ('r, 'w) engine_service \<Rightarrow> ('r, 'w) engine_service" where
  "remember_response i request response s =
     (let entry = \<lparr>rp_command_id = i, rp_request = request, rp_response = response\<rparr>; n = entry_bytes entry
      in if n > kMaxReplayedResponseBytes then s
         else case evict n (es_replayed s, es_replayed_bytes s) of (rs, bytes) \<Rightarrow>
           s\<lparr>es_replayed := rs @ [entry], es_replayed_bytes := bytes + n\<rparr>)"

definition invalid_wire_request :: "nat \<Rightarrow> sar_error" where
  "invalid_wire_request offset = mk_error ''invalid_control_wire_request''
     (''Control wire request could not be decoded at byte '' @ to_string offset @ ''.'')"

definition handle_wire_request ::
  "('r, 'w) engine_hooks \<Rightarrow> byte list \<Rightarrow> ('r, 'w) engine_service \<Rightarrow>
   encode_result option \<times> ('r, 'w) engine_service" where
  "handle_wire_request h request s =
     (case decode_control_command request of
        (c, Some (code, offset)) \<Rightarrow>
          (Some (encode_control_response (command_rejected [] [invalid_wire_request offset])), s)
      | (c, None) \<Rightarrow>
          (let i = cc_command_id c
           in case (if i \<noteq> [] then find_replayed_response i (es_replayed s) else None) of
                Some replayed \<Rightarrow>
                  (Some (if rp_request replayed = request then rp_response replayed
                         else encode_control_response (command_rejected i [srv_command_id_conflict])), s)
              | None \<Rightarrow>
                  (case execute_command h c s of
                     (None, s') \<Rightarrow> (None, s')
                   | (Some r, s') \<Rightarrow>
                       (let response = encode_control_response r
                        in (Some response, if i \<noteq> [] then remember_response i request response s' else s')))))"

section \<open>Other operations\<close>

definition session_document_of :: "('r, 'w) engine_hooks \<Rightarrow> ('r, 'w) engine_service \<Rightarrow> session_document" where
  "session_document_of h s =
     \<lparr>sd_schema_version = kSessionDocumentSchemaVersion, sd_preset = ss_preset (es_session s),
      sd_audio_runtime = (case es_configuration s of None \<Rightarrow> default_runtime_configuration | Some c \<Rightarrow> c),
      sd_virtual_asio_devices = [],
      sd_auto_start = (es_configuration s \<noteq> None \<and> runtime_running h s)\<rparr>"

definition build_client_graph ::
  "u32 \<Rightarrow> u32 \<Rightarrow> u32 \<Rightarrow> u32 \<Rightarrow> ('r, 'w) engine_service \<Rightarrow> graph option option" where
  "build_client_graph sample_rate frames inputs outputs s =
     (let p = ss_preset (es_session s)
      in if sample_rate \<noteq> pd_sample_rate p \<or> inputs \<noteq> outputs \<or>
            unat inputs \<noteq> length (pm_inputs (pd_matrix p)) \<or> unat outputs \<noteq> length (pm_outputs (pd_matrix p))
         then Some None
         else case build_preset_graph (p\<lparr>pd_frames_per_block := frames\<rparr>) (g_version (ss_graph (es_session s))) of
           None \<Rightarrow> None
         | Some (Inl es) \<Rightarrow> Some None
         | Some (Inr g) \<Rightarrow> Some (Some g))"

end
