(* ===== verification/EngineServiceCorrect.thy ===== *)
theory EngineServiceCorrect
  imports EngineService
begin

text \<open>
  What the control service guarantees: refused and failed requests change neither the preset nor
  the configuration, accepted ones change preset and runtime together, a repeated request is
  answered without being executed again, and the cache of answers stays within its limits.
\<close>

section \<open>What the runtime operations leave alone\<close>

text \<open>Everything but the runtime, the outside world and the commit flag is the same.\<close>

definition control_kept :: "('r, 'w) engine_service \<Rightarrow> ('r, 'w) engine_service \<Rightarrow> bool" where
  "control_kept s s' \<longleftrightarrow> (\<exists>r b w. s' = s\<lparr>es_runtime := r, es_commit_in_progress := b, es_world := w\<rparr>)"

named_theorems kept

lemma control_kept_iff:
  "control_kept s s' \<longleftrightarrow> es_session s' = es_session s \<and> es_builder s' = es_builder s \<and>
     es_configurator s' = es_configurator s \<and> es_observer s' = es_observer s \<and>
     es_recovery_provider s' = es_recovery_provider s \<and> es_configuration s' = es_configuration s \<and>
     es_providers s' = es_providers s \<and> es_replayed s' = es_replayed s \<and> es_replayed_bytes s' = es_replayed_bytes s"
  unfolding control_kept_def by (cases s, cases s') auto

lemma control_kept_refl [simp]: "control_kept s s"
  by (simp add: control_kept_iff)

lemma control_kept_trans: "control_kept s s' \<Longrightarrow> control_kept s' s'' \<Longrightarrow> control_kept s s''"
  by (simp add: control_kept_iff)

lemma control_kept_update [simp]:
  "control_kept s (s'\<lparr>es_runtime := r\<rparr>) = control_kept s s'"
  "control_kept s (s'\<lparr>es_world := w\<rparr>) = control_kept s s'"
  "control_kept s (s'\<lparr>es_commit_in_progress := b\<rparr>) = control_kept s s'"
  "control_kept (s\<lparr>es_runtime := r\<rparr>) s' = control_kept s s'"
  "control_kept (s\<lparr>es_world := w\<rparr>) s' = control_kept s s'"
  by (simp_all add: control_kept_iff)

lemma kept_build [kept]: "control_kept s (snd (build_audio_runtime_locked g m s))"
  by (auto simp: build_audio_runtime_locked_def Let_def split: option.splits prod.splits)

lemma kept_rebuild [kept]: "control_kept s (snd (rebuild_audio_runtime_locked s))"
  using kept_build [of s "ss_graph (es_session s)" "pd_matrix (ss_preset (es_session s))"]
  by (auto simp: rebuild_audio_runtime_locked_def split: prod.splits sum.splits)

lemma kept_start_installed [kept]: "control_kept s (snd (start_installed h t s))"
  by (auto simp: start_installed_def split: option.splits prod.splits)

lemma kept_start [kept]: "control_kept s (snd (start_audio_runtime_locked h t s))"
  using kept_rebuild [of s] control_kept_trans [OF kept_rebuild [of s] kept_start_installed [of "snd (rebuild_audio_runtime_locked s)" h t]]
    kept_start_installed [of s h t]
  by (auto simp: start_audio_runtime_locked_def split: option.splits prod.splits)

lemma kept_stop [kept]: "control_kept s (stop_audio_runtime_locked h s)"
  by (auto simp: stop_audio_runtime_locked_def split: option.splits prod.splits)

lemma kept_restore [kept]: "control_kept s (snd (restore_previous_runtime h p es s))"
  by (auto simp: restore_previous_runtime_def split: option.splits prod.splits)

lemma kept_drop [kept]: "control_kept s (snd (drop_and_restore h x p es s))"
  using kept_restore [of "s\<lparr>es_world := snd (hk_stop h x (es_world s))\<rparr>" h p es] by (simp add: drop_and_restore_def)

lemma kept_reject [kept]: "control_kept s (snd (reject_and_restore h i p es s))"
  using kept_start [of "s\<lparr>es_runtime := p\<rparr>" h 10]
  by (auto simp: reject_and_restore_def split: option.splits prod.splits)

lemma kept_observe [kept]: "control_kept s (snd (observe_update u s))"
  by (auto simp: observe_update_def split: option.splits prod.splits)

lemma kept_observe_matrix [kept]: "control_kept s (snd (observe_matrix_update u s))"
  by (auto simp: observe_matrix_update_def split: option.splits prod.splits)

lemma kept_rollback [kept]: "control_kept s (report_rollback s)"
  by (auto simp: report_rollback_def split: option.splits)

section \<open>Configuring\<close>

lemma restore_previous_nonempty: "es \<noteq> [] \<Longrightarrow> fst (restore_previous_runtime h p es s) \<noteq> []"
  by (simp add: restore_previous_runtime_def split: option.splits prod.splits)

lemma drop_and_restore_nonempty: "es \<noteq> [] \<Longrightarrow> fst (drop_and_restore h x p es s) \<noteq> []"
  by (simp add: drop_and_restore_def restore_previous_nonempty)

lemma prepare_preset_update_cases:
  obtains es where "prepare_preset_update c s = Some (Inl es)" "es \<noteq> []"
  | u where "prepare_preset_update c s = Some (Inr u)" "session_published c s (commit_preset_update u s)"
      "apply_command (ss_preset s) c = Inr (pu_preset u)" "g_version (pu_graph u) = ss_next_version s"
proof (cases "apply_command (ss_preset s) c")
  case (Inl es)
  then show thesis using that(1) [of es] apply_command_Inl [OF Inl] by (simp add: prepare_preset_update_def)
next
  case (Inr p)
  show ?thesis
  proof (cases "build_preset_graph p (ss_next_version s)")
    case (Some r)
    with Inr that(1) that(2) [of "\<lparr>pu_preset = p, pu_graph = projr r, pu_version = ss_next_version s\<rparr>"]
      build_preset_graph_total [of p "ss_next_version s"] show ?thesis using build_preset_graph_Inr
      by (cases r) (auto simp: prepare_preset_update_def commit_preset_update_def session_published_def)
  qed simp
qed

lemma reconcile_Inl: "reconcile_audio_runtime_matrix_preset p a b = Inl es \<Longrightarrow> es \<noteq> []"
  by (auto simp: reconcile_audio_runtime_matrix_preset_def Let_def split: if_splits)

lemma matrix_update_cases:
  obtains es where "matrix_update c s = Some (Inl es)" "es \<noteq> []"
  | "matrix_update c s = Some (Inr None)" "rc_mode c \<noteq> WasapiMatrix"
  | u previous where "matrix_update c s = Some (Inr (Some u))"
      "reconcile_audio_runtime_matrix_preset (ss_preset (es_session s)) previous c = Inr (pu_preset u)"
      "build_preset_graph (pu_preset u) (ss_next_version (es_session s)) = Some (Inr (pu_graph u))"
proof -
  let ?previous = "case es_configuration s of None \<Rightarrow> default_runtime_configuration | Some p \<Rightarrow> p"
  let ?r = "reconcile_audio_runtime_matrix_preset (ss_preset (es_session s)) ?previous c"
  show thesis
  proof (cases "matrix_update c s = Some (Inr None)")
    case True
    then have "rc_mode c \<noteq> WasapiMatrix"
      by (auto simp: matrix_update_def Let_def split: sum.splits option.splits if_splits)
    with True that(2) show ?thesis by blast
  next
    case False
    then have m: "matrix_update c s = (case ?r of Inl es \<Rightarrow> Some (Inl es) | Inr p \<Rightarrow>
        (case prepare_preset_update (default_command\<lparr>cc_command_id := ''runtime-matrix-reconcile'',
             cc_type := LoadPreset, cc_preset := p\<rparr>) (es_session s) of
           None \<Rightarrow> None | Some (Inl es) \<Rightarrow> Some (Inl es) | Some (Inr u) \<Rightarrow> Some (Inr (Some u))))"
      unfolding matrix_update_def Let_def by presburger
    show ?thesis
    proof (cases ?r)
      case (Inl es)
      with m reconcile_Inl [OF Inl] that(1) show ?thesis by simp
    next
      case (Inr p)
      let ?load = "default_command\<lparr>cc_command_id := ''runtime-matrix-reconcile'', cc_type := LoadPreset, cc_preset := p\<rparr>"
      have load: "apply_command (ss_preset (es_session s)) ?load = Inr q \<Longrightarrow> q = p" for q
        by (auto simp: apply_command_def Let_def split: if_splits)
      show ?thesis
      proof (cases rule: prepare_preset_update_cases [of ?load "es_session s"])
        case (1 es)
        with m Inr that(1) show ?thesis by simp
      next
        case (2 u)
        with load have "pu_preset u = p" by simp
        with 2 m Inr that(3) [of u ?previous] show ?thesis
          by (simp add: session_published_def commit_preset_update_def)
      qed
    qed
  qed
qed

definition committed :: "prepared_update option \<Rightarrow> control_session \<Rightarrow> control_session" where
  "committed update s = (case update of None \<Rightarrow> s | Some u \<Rightarrow> commit_preset_update u s)"

text \<open>The outcome of a configuration: an error and nothing kept changes, or everything is adopted.\<close>

definition configured ::
  "runtime_configuration \<Rightarrow> prepared_update option \<Rightarrow> ('r, 'w) engine_service \<Rightarrow> runtime_error list \<Rightarrow>
   ('r, 'w) engine_service \<Rightarrow> bool" where
  "configured c update s es s' \<longleftrightarrow>
     (if es \<noteq> [] then control_kept s s'
      else \<exists>s1 x. control_kept s s1 \<and> s' = s1\<lparr>es_runtime := Some x, es_configuration := Some c,
        es_session := committed update (es_session s)\<rparr>)"

lemma configured_failure: "es \<noteq> [] \<Longrightarrow> configured c update s es s' = control_kept s s'"
  by (simp add: configured_def)

lemma configured_world [simp]: "configured c update (s\<lparr>es_world := w\<rparr>) es s' = configured c update s es s'"
  by (auto simp: configured_def)

lemma configured_kept: "control_kept s s1 \<Longrightarrow> configured c update s1 es s' \<Longrightarrow> configured c update s es s'"
  unfolding configured_def using control_kept_trans by (auto simp: control_kept_iff split: if_splits)

lemma adopt_candidate_configured:
  "configured c update s (fst (adopt_candidate h c update previous x s)) (snd (adopt_candidate h c update previous x s))"
proof -
  obtain oe s1 where o: "observe_matrix_update update s = (oe, s1)" by force
  have k: "control_kept s s1" using kept_observe_matrix [of s update] o by simp
  show ?thesis
  proof (cases "oe = []")
    case True
    with o have "adopt_candidate h c update previous x s = ([], s1\<lparr>es_runtime := Some x, es_configuration := Some c,
        es_session := committed update (es_session s1)\<rparr>)"
      by (simp add: adopt_candidate_def committed_def split: option.split)
    with k show ?thesis unfolding configured_def by (auto simp: control_kept_iff)
  next
    case False
    with o show ?thesis
      using drop_and_restore_nonempty [of "map runtime_error_of oe" h x previous s1]
        control_kept_trans [OF k kept_drop [of s1 h x previous "map runtime_error_of oe"]]
      by (simp add: adopt_candidate_def case_prod_beta configured_failure)
  qed
qed

lemma install_candidate_configured:
  "configured c update s (fst (install_candidate h c update previous outcome s))
     (snd (install_candidate h c update previous outcome s))"
proof -
  have restored: "configured c update s (fst (restore_previous_runtime h previous es s1)) (snd (restore_previous_runtime h previous es s1))"
    if "es \<noteq> []" "control_kept s s1" for es s1
    using restore_previous_nonempty [OF that(1), of h previous s1] control_kept_trans [OF that(2) kept_restore]
    by (simp add: case_prod_beta configured_failure)
  have dropped: "configured c update s (fst (drop_and_restore h x previous es s1)) (snd (drop_and_restore h x previous es s1))"
    if "es \<noteq> []" "control_kept s s1" for x es s1
    using drop_and_restore_nonempty [OF that(1), of h x previous s1] control_kept_trans [OF that(2) kept_drop]
    by (simp add: case_prod_beta configured_failure)
  have adopted: "configured c update s (fst (adopt_candidate h c update previous x (s\<lparr>es_world := w\<rparr>)))
      (snd (adopt_candidate h c update previous x (s\<lparr>es_world := w\<rparr>)))" for x w using adopt_candidate_configured [where s = "s\<lparr>es_world := w\<rparr>"] by simp
  show ?thesis
    by (auto simp: install_candidate_def case_prod_beta restored dropped adopted adopt_candidate_configured
        split: build_outcome.split start_outcome.split)
qed

lemma configure_cases:
  assumes "configure_audio_runtime_locked h c s = (result, s')"
  shows "case result of None \<Rightarrow> s' = s | Some es \<Rightarrow> es \<noteq> [] \<and> control_kept s s' \<or>
     (\<exists>update. matrix_update c s = Some (Inr update) \<and> configured c update s es s')"
proof (cases "es_configurator s")
  case None
  with assms show ?thesis by (auto simp: configure_audio_runtime_locked_def)
next
  case (Some f)
  show ?thesis
  proof (cases "matrix_update c s")
    case None
    with assms Some show ?thesis by (auto simp: configure_audio_runtime_locked_def)
  next
    case (Some m)
    note matrix = this
    show ?thesis
    proof (cases m)
      case (Inl es)
      then have "es \<noteq> []" using matrix by (cases rule: matrix_update_cases [of c s]) auto
      with assms matrix Inl \<open>es_configurator s = Some f\<close> show ?thesis
        by (auto simp: configure_audio_runtime_locked_def)
    next
      case (Inr update)
      define moved where "moved = (if runtime_running h s then (stop_audio_runtime_locked h s)\<lparr>es_runtime := None\<rparr> else s)"
      define previous where "previous = (if runtime_running h s then es_runtime (stop_audio_runtime_locked h s) else None)"
      define built where "built = f c (case update of None \<Rightarrow> ss_graph (es_session s) | Some u \<Rightarrow> pu_graph u)
        (case update of None \<Rightarrow> pd_matrix (ss_preset (es_session s)) | Some u \<Rightarrow> pd_matrix (pu_preset u)) (es_world moved)"
      define outcome where "outcome = fst built"
      define w where "w = snd built"
      have k: "control_kept s moved" by (simp add: moved_def kept)
      have s': "result = Some (fst (install_candidate h c update previous outcome (moved\<lparr>es_world := w\<rparr>)))"
          "s' = snd (install_candidate h c update previous outcome (moved\<lparr>es_world := w\<rparr>))"
        using assms matrix Inr \<open>es_configurator s = Some f\<close>
        by (auto simp: configure_audio_runtime_locked_def Let_def moved_def previous_def outcome_def w_def built_def
            case_prod_beta)
      then have "configured c update moved (the result) s'"
        using install_candidate_configured [where s = "moved\<lparr>es_world := w\<rparr>" and h = h and c = c and update = update and
            previous = previous and outcome = outcome] by simp
      with s'(1) show ?thesis using configured_kept [OF k] matrix Inr by auto
    qed
  qed
qed

section \<open>Editing the preset\<close>

text \<open>
  The outcome of an edit: an exception or a refusal changes nothing that is kept, an acceptance
  commits the prepared update and nothing else.
\<close>

definition finished ::
  "prepared_update \<Rightarrow> ('r, 'w) engine_service \<Rightarrow> control_response option \<Rightarrow> ('r, 'w) engine_service \<Rightarrow> bool" where
  "finished u s result s' \<longleftrightarrow>
     control_kept s s' \<and> (\<forall>r. result = Some r \<longrightarrow> cr_status r = Rejected) \<or>
     (\<exists>r. result = Some r \<and> cr_status r = Accepted) \<and>
       control_kept (s\<lparr>es_session := commit_preset_update u (es_session s)\<rparr>) s'"

lemma finished_kept: "control_kept s s1 \<Longrightarrow> finished u s1 result s' \<Longrightarrow> finished u s result s'"
  by (auto simp: finished_def control_kept_iff)

lemma finished_rejected:
  "control_kept s s' \<Longrightarrow> (\<And>r. result = Some r \<Longrightarrow> cr_status r = Rejected) \<Longrightarrow> finished u s result s'"
  by (simp add: finished_def)

lemma reject_and_restore_status: "fst (reject_and_restore h i p es s) = Some r \<Longrightarrow> cr_status r = Rejected"
  by (auto simp: reject_and_restore_def split: prod.splits option.splits)

lemma finished_reject: "control_kept s s1 \<Longrightarrow>
    finished u s (fst (reject_and_restore h i p es s1)) (snd (reject_and_restore h i p es s1))"
  by (intro finished_rejected control_kept_trans [OF _ kept_reject] reject_and_restore_status)

lemma runtime_state_response_status [simp]: "cr_status (runtime_state_response_locked h i s) = Accepted"
  by (simp add: runtime_state_response_locked_def audio_runtime_state_response_def Let_def split: option.split)

lemma commit_and_answer_finished:
  "finished u s (fst (commit_and_answer h i u s)) (snd (commit_and_answer h i u s))"
  by (simp add: commit_and_answer_def finished_def Let_def)

lemma finish_update_finished:
  "finished u s (fst (finish_update h i u restarted previous live s)) (snd (finish_update h i u restarted previous live s))"
proof -
  obtain oe s1 where o: "observe_update u s = (oe, s1)" by force
  then have k: "control_kept s s1" using kept_observe [of s u] by simp
  show ?thesis
  proof (cases "oe = []")
    case False
    with o k show ?thesis
      using finished_reject [OF control_kept_trans [OF k kept_stop [of s1 h]]]
        finished_rejected [OF k, of "Some (command_rejected i oe)"]
      by (simp add: finish_update_def)
  next
    case True
    note fin = finished_kept [OF _ commit_and_answer_finished]
    show ?thesis
    proof (cases "live \<and> es_runtime s1 \<noteq> None")
      case True
      then obtain r where r: "es_runtime s1 = Some r" by blast
      obtain applied r' w where a: "hk_apply_parameters h (pu_graph u) r (es_world s1) = (applied, r', w)"
        by (cases "hk_apply_parameters h (pu_graph u) r (es_world s1)") auto
      define s2 where "s2 = s1\<lparr>es_runtime := Some r', es_world := w\<rparr>"
      have k2: "control_kept s s2" using k by (simp add: s2_def)
      show ?thesis
        using o True \<open>oe = []\<close> r a fin [OF k2]
          finished_rejected [OF control_kept_trans [OF k2 kept_rollback],
            of "Some (command_rejected i [srv_audio_runtime_realtime_parameter_update_unsupported])" u]
        by (simp add: finish_update_def s2_def [symmetric] Let_def)
    next
      case False
      with o \<open>oe = []\<close> fin [OF k] finished_rejected [OF k, of None u] show ?thesis
        by (auto simp: finish_update_def split: option.split)
    qed
  qed
qed

lemma update_preset_finished:
  assumes "update_preset h c restart live s = (result, s')"
  shows "control_kept s s' \<and> (\<forall>r. result = Some r \<longrightarrow> cr_status r = Rejected) \<or>
     (\<exists>u. prepare_preset_update c (es_session s) = Some (Inr u) \<and> finished u s result s')"
proof (cases rule: prepare_preset_update_cases [of c "es_session s"])
  case (1 es)
  with assms show ?thesis by (auto simp: update_preset_def Let_def)
next
  case (2 u)
  let ?i = "cc_command_id c"
  have "finished u s result s'"
  proof (cases restart)
    case False
    with assms 2(1) finish_update_finished [of u s h ?i False None live] show ?thesis
      by (simp add: update_preset_def)
  next
    case True
    define previous where "previous = es_runtime (stop_audio_runtime_locked h s)"
    obtain built s1 where b: "build_audio_runtime_locked (pu_graph u) (pd_matrix (pu_preset u))
        ((stop_audio_runtime_locked h s)\<lparr>es_runtime := None\<rparr>) = (built, s1)" by force
    then have k1: "control_kept s s1"
      using control_kept_trans [OF kept_stop [of s h]] kept_build [of "(stop_audio_runtime_locked h s)\<lparr>es_runtime := None\<rparr>"
          "pu_graph u" "pd_matrix (pu_preset u)"] by simp
    show ?thesis
    proof (cases built)
      case (Inl es)
      with assms True 2(1) b finished_reject [OF k1] show ?thesis
        by (simp add: update_preset_def Let_def previous_def [symmetric]) (metis fst_conv snd_conv)
    next
      case (Inr r)
      obtain started s2 where st: "start_installed h 10 (s1\<lparr>es_runtime := Some r\<rparr>) = (started, s2)" by force
      then have k2: "control_kept s s2"
        using control_kept_trans [OF k1] kept_start_installed [of "s1\<lparr>es_runtime := Some r\<rparr>" h 10] by simp
      have update: "update_preset h c restart live s = (case started of None \<Rightarrow> (None, s2)
        | Some es \<Rightarrow> if es \<noteq> [] then reject_and_restore h ?i previous (map replacement_start_failed es)
            (stop_audio_runtime_locked h s2) else finish_update h ?i u True previous live s2)"
        using True 2(1) b Inr st by (simp add: update_preset_def Let_def previous_def split: option.split)
      have rs: "result = fst (update_preset h c restart live s)" "s' = snd (update_preset h c restart live s)"
        using assms by simp_all
      show ?thesis
      proof (cases started)
        case None
        with update finished_rejected [OF k2, of None u] show ?thesis unfolding rs by simp
      next
        case (Some es)
        with update show ?thesis unfolding rs
          using finished_reject [OF control_kept_trans [OF k2 kept_stop [of s2 h]],
              where h = h and i = ?i and p = previous and es = "map replacement_start_failed es" and u = u]
            finished_kept [OF k2 finish_update_finished [where h = h and i = ?i and restarted = True and
              previous = previous and live = live]]
          by simp
      qed
    qed
  qed
  with 2(1) show ?thesis by blast
qed

section \<open>Executing a command\<close>

lemma add_recovery_telemetry_status [simp]: "cr_status (add_recovery_telemetry h s r) = cr_status r"
  by (simp add: add_recovery_telemetry_def Let_def split: option.split)

lemma append_platform_devices_status: "cr_status r = Rejected \<Longrightarrow> append_platform_devices_locked r s = r"
  by (simp add: append_platform_devices_locked_def)

text \<open>
  What a command may do: change nothing that is kept (then it is refused or throws), or be
  accepted and commit its edit, adopt its configuration, or change the endpoints.
\<close>

definition executed ::
  "control_command \<Rightarrow> ('r, 'w) engine_service \<Rightarrow> control_response option \<Rightarrow> ('r, 'w) engine_service \<Rightarrow> bool" where
  "executed c s result s' \<longleftrightarrow>
     control_kept s s' \<and> (\<forall>r. result = Some r \<longrightarrow> cr_status r = Rejected) \<or>
     (\<exists>r. result = Some r \<and> cr_status r = Accepted) \<and> validate_command c = [] \<and>
       (if control_command_mutates_preset (cc_type c) then
          \<exists>u. prepare_preset_update c (es_session s) = Some (Inr u) \<and>
            control_kept (s\<lparr>es_session := commit_preset_update u (es_session s)\<rparr>) s'
        else if cc_type c = ConfigureAudioRuntime then
          \<exists>update. matrix_update (cc_audio_runtime c) s = Some (Inr update) \<and>
            configured (cc_audio_runtime c) update s [] s'
        else \<exists>session. endpoints_step c (es_session s) session \<and> control_kept (s\<lparr>es_session := session\<rparr>) s')"

lemma executed_rejected:
  "control_kept s s' \<Longrightarrow> (\<And>r. result = Some r \<Longrightarrow> cr_status r = Rejected) \<Longrightarrow> executed c s result s'"
  by (simp add: executed_def)

lemma executed_query:
  assumes "control_kept s s'" "cr_status r = Accepted \<Longrightarrow> validate_command c = []"
    "\<not> control_command_mutates_preset (cc_type c)" "cc_type c \<noteq> ConfigureAudioRuntime"
  shows "executed c s (Some r) s'"
  using assms by (cases "cr_status r") (auto simp: executed_def endpoints_step_def intro!: exI [of _ "es_session s"])

lemma answer_runtime_command_status:
  "answer_runtime_command h i (Some es, s) =
     (Some (if es \<noteq> [] then command_rejected i (map preset_error_of es) else runtime_state_response_locked h i s), s)"
  "answer_runtime_command h i (None, s) = (None, s)"
  by (simp_all add: answer_runtime_command_def)

lemma execute_query:
  assumes "validate_command c = []" "\<not> control_command_mutates_preset (cc_type c)"
    "cc_type c \<notin> {QueryAudioRuntime, StartAudioRuntime, StopAudioRuntime, ConfigureAudioRuntime}"
    "execute_command h c s = (result, s')"
  shows "executed c s result s'"
proof -
  define d where "d = (case es_runtime s of
       Some r \<Rightarrow> if cc_type c = QueryDiagnostics then hk_diagnostics h r (es_world s) else default_diagnostics
     | None \<Rightarrow> default_diagnostics)"
  obtain r session where handled: "session_handle c d (es_session s) = Some (r, session)"
    using session_handle_total by blast
  define r1 where "r1 = (if cc_type c = QueryDiagnostics \<and> cr_has_diagnostics r
    then add_recovery_telemetry h (s\<lparr>es_session := session\<rparr>) r else r)"
  define r2 where "r2 = (if cc_type c = ListDevices \<or> cc_type c = QuerySessionState
    then append_platform_devices_locked r1 (s\<lparr>es_session := session\<rparr>) else r1)"
  have run: "execute_command h c s = (Some r2, s\<lparr>es_session := session\<rparr>)"
    using assms(1-3) handled by (simp add: execute_command_def Let_def d_def [symmetric] r1_def r2_def)
  have result: "result = Some r2" "s' = s\<lparr>es_session := session\<rparr>"
    using assms(4) run by simp_all
  have "cr_status r1 = cr_status r" by (simp add: r1_def)
  then have r2: "cr_status r = Rejected \<Longrightarrow> cr_status r2 = Rejected"
    "cr_status r2 \<noteq> cr_status r \<Longrightarrow> cc_type c = ListDevices \<or> cc_type c = QuerySessionState"
    by (auto simp: r2_def append_platform_devices_status split: if_splits)
  from session_handle_step [OF handled] assms(2) have step: "endpoints_step c (es_session s) session"
    by (auto simp: endpoints_step_def)
  show ?thesis
  proof (cases "cr_status r2")
    case Rejected
    have "session = es_session s"
    proof (cases "cr_status r")
      case Rejected
      with session_handle_step [OF handled] show ?thesis by auto
    next
      case Accepted
      with r2(2) \<open>cr_status r2 = Rejected\<close> step show ?thesis by (auto simp: endpoints_step_def)
    qed
    with result Rejected show ?thesis by (auto intro!: executed_rejected)
  next
    case Accepted
    with result step assms(1-3) show ?thesis by (auto simp: executed_def intro!: exI [of _ session])
  qed
qed

lemma execute_command_executed:
  assumes "execute_command h c s = (result, s')"
  shows "executed c s result s'"
proof (cases "validate_command c = []")
  case False
  with assms show ?thesis by (auto simp: execute_command_def Let_def intro!: executed_rejected)
next
  case valid: True
  let ?i = "cc_command_id c"
  consider "cc_type c \<in> {QueryAudioRuntime, StartAudioRuntime, StopAudioRuntime}"
    | "cc_type c = ConfigureAudioRuntime" | "control_command_mutates_preset (cc_type c)"
    | "\<not> control_command_mutates_preset (cc_type c)"
      "cc_type c \<notin> {QueryAudioRuntime, StartAudioRuntime, StopAudioRuntime, ConfigureAudioRuntime}"
    by blast
  then show ?thesis
  proof cases
    case 1
    have start: "executed c s (fst (answer_runtime_command h ?i (start_audio_runtime_locked h 10 s)))
        (snd (answer_runtime_command h ?i (start_audio_runtime_locked h 10 s)))"
      if "cc_type c = StartAudioRuntime"
      using kept_start [of s h 10] that valid
      by (cases "start_audio_runtime_locked h 10 s"; cases "fst (start_audio_runtime_locked h 10 s)")
        (auto simp: answer_runtime_command_status intro: executed_query executed_rejected)
    from 1 assms valid start show ?thesis
      by (auto simp: execute_command_def Let_def intro!: executed_query kept)
  next
    case 2
    obtain es s1 where conf: "configure_audio_runtime_locked h (cc_audio_runtime c) s = (es, s1)" by force
    have "(result, s') = answer_runtime_command h ?i (es, s1)"
      using assms valid 2 conf by (simp add: execute_command_def Let_def)
    with configure_cases [OF conf] 2 valid show ?thesis
      by (cases es) (auto simp: answer_runtime_command_status configured_failure executed_def split: if_splits)
  next
    case 3
    then have "cc_type c \<notin> {QueryAudioRuntime, StartAudioRuntime, StopAudioRuntime, ConfigureAudioRuntime}" by auto
    with 3 assms valid consider "s' = s" "\<exists>es. result = Some (command_rejected ?i es)"
      | restart live where "update_preset h c restart live s = (result, s')"
      by (auto simp: execute_command_def Let_def split: if_splits)
    then show ?thesis
    proof cases
      case 1 then show ?thesis by (auto intro: executed_rejected)
    next
      case (2 restart live)
      from update_preset_finished [OF 2] 3 valid show ?thesis by (auto simp: finished_def executed_def)
    qed
  next
    case 4
    with execute_query valid assms show ?thesis by blast
  qed
qed

lemma matrix_update_published:
  assumes "matrix_update c s = Some (Inr update)" "session_inv (es_session s)"
  shows "session_inv (committed update (es_session s))"
  using assms
  by (cases rule: matrix_update_cases [of c s])
    (auto simp: committed_def commit_preset_update_def session_inv_def)

lemma execute_command_inv:
  assumes "session_inv (es_session s)" "execute_command h c s = (result, s')"
  shows "session_inv (es_session s')"
proof -
  note e = execute_command_executed [OF assms(2), unfolded executed_def]
  consider "control_kept s s'"
    | u where "prepare_preset_update c (es_session s) = Some (Inr u)"
        "control_kept (s\<lparr>es_session := commit_preset_update u (es_session s)\<rparr>) s'"
    | update where "matrix_update (cc_audio_runtime c) s = Some (Inr update)"
        "configured (cc_audio_runtime c) update s [] s'"
    | session where "endpoints_step c (es_session s) session" "validate_command c = []"
        "control_kept (s\<lparr>es_session := session\<rparr>) s'"
    using e by (auto split: if_splits)
  then show ?thesis
  proof cases
    case 1 with assms show ?thesis by (simp add: control_kept_iff)
  next
    case (2 u)
    then have "session_published c (es_session s) (commit_preset_update u (es_session s))"
      by (cases rule: prepare_preset_update_cases [of c "es_session s"]) auto
    with 2 assms session_published_inv show ?thesis by (auto simp: control_kept_iff)
  next
    case (3 update)
    with matrix_update_published [OF 3(1) assms(1)] show ?thesis by (auto simp: configured_def)
  next
    case (4 session)
    with assms endpoints_step_inv show ?thesis by (auto simp: control_kept_iff)
  qed
qed

lemma execute_command_replayed:
  assumes "execute_command h c s = (result, s')"
  shows "es_replayed s' = es_replayed s \<and> es_replayed_bytes s' = es_replayed_bytes s"
  using execute_command_executed [OF assms]
  by (auto simp: executed_def configured_def control_kept_iff split: if_splits)

section \<open>The replay cache\<close>

definition replay_inv :: "replayed_response list \<Rightarrow> nat \<Rightarrow> bool" where
  "replay_inv rs bytes \<longleftrightarrow> bytes = sum_list (map entry_bytes rs) \<and> length rs \<le> kMaxReplayedResponses \<and>
     bytes \<le> kMaxReplayedResponseBytes \<and> distinct (map rp_command_id rs) \<and> [] \<notin> rp_command_id ` set rs"

lemma evict_suffix: "\<exists>dropped. rs = dropped @ fst (evict n (rs, bytes))"
proof (induction rs arbitrary: bytes)
  case (Cons r rs)
  from Cons [of "bytes - entry_bytes r"] show ?case by (auto intro: exI [of _ "r # _"])
qed simp

lemma evict_bytes:
  "bytes = sum_list (map entry_bytes rs) \<Longrightarrow>
     snd (evict n (rs, bytes)) = sum_list (map entry_bytes (fst (evict n (rs, bytes))))"
  by (induction rs arbitrary: bytes) auto

lemma evict_room:
  assumes "bytes = sum_list (map entry_bytes rs)" "n \<le> kMaxReplayedResponseBytes"
  shows "length (fst (evict n (rs, bytes))) < kMaxReplayedResponses \<and>
     snd (evict n (rs, bytes)) + n \<le> kMaxReplayedResponseBytes"
  using assms by (induction rs arbitrary: bytes) (auto simp: kMaxReplayedResponses_def)

lemma find_replayed_None:
  "find_replayed_response i rs = None \<longleftrightarrow> i \<notin> rp_command_id ` set rs"
  by (auto simp: find_replayed_response_def find_None_iff)

lemma find_replayed_append:
  "i \<notin> rp_command_id ` set rs \<Longrightarrow> find_replayed_response i (rs @ [e]) = (if rp_command_id e = i then Some e else None)"
  by (induction rs) (auto simp: find_replayed_response_def)

lemma replay_cache_extend:
  assumes "all = dropped @ rs" "i \<notin> rp_command_id ` set all" "i \<noteq> []" "rp_command_id e = i"
    "distinct (map rp_command_id all)" "[] \<notin> rp_command_id ` set all"
  shows "distinct (map rp_command_id (rs @ [e])) \<and> [] \<notin> rp_command_id ` set (rs @ [e])"
  using assms(2-) unfolding assms(1) by auto

lemma remember_response_cases:
  fixes s :: "('r, 'w) engine_service"
  assumes "length request + result_bytes response \<le> kMaxReplayedResponseBytes"
  obtains rs bytes dropped where
    "remember_response i request response s =
       s\<lparr>es_replayed := rs @ [\<lparr>rp_command_id = i, rp_request = request, rp_response = response\<rparr>], es_replayed_bytes := bytes\<rparr>"
    "es_replayed s = dropped @ rs"
    "replay_inv (es_replayed s) (es_replayed_bytes s) \<Longrightarrow> i \<notin> rp_command_id ` set (es_replayed s) \<Longrightarrow> i \<noteq> [] \<Longrightarrow>
       replay_inv (rs @ [\<lparr>rp_command_id = i, rp_request = request, rp_response = response\<rparr>]) bytes"
proof -
  let ?e = "\<lparr>rp_command_id = i, rp_request = request, rp_response = response\<rparr>"
  let ?v = "evict (entry_bytes ?e) (es_replayed s, es_replayed_bytes s)"
  have n: "entry_bytes ?e \<le> kMaxReplayedResponseBytes" using assms by (simp add: entry_bytes_def)
  obtain dropped where d: "es_replayed s = dropped @ fst ?v" using evict_suffix by blast
  show thesis
  proof (rule that)
    show "remember_response i request response s =
        s\<lparr>es_replayed := fst ?v @ [?e], es_replayed_bytes := snd ?v + entry_bytes ?e\<rparr>"
      using n by (simp add: remember_response_def Let_def case_prod_beta)
    show "es_replayed s = dropped @ fst ?v" by (rule d)
    assume inv: "replay_inv (es_replayed s) (es_replayed_bytes s)" "i \<notin> rp_command_id ` set (es_replayed s)" "i \<noteq> []"
    then have b: "es_replayed_bytes s = sum_list (map entry_bytes (es_replayed s))" by (simp add: replay_inv_def)
    have "distinct (map rp_command_id (fst ?v @ [?e]))" "[] \<notin> rp_command_id ` set (fst ?v @ [?e])"
      using inv replay_cache_extend [OF d, of i ?e] by (simp_all add: replay_inv_def)
    with evict_room [OF b n] evict_bytes [OF b, of "entry_bytes ?e"]
    show "replay_inv (fst ?v @ [?e]) (snd ?v + entry_bytes ?e)"
      by (simp add: replay_inv_def)
  qed
qed

section \<open>Requests\<close>

lemma decoded_length:
  assumes "decode_control_command request = (c, None)"
  shows "length request \<le> kControlWireMaxMessageBytes"
proof (rule ccontr)
  assume "\<not> length request \<le> kControlWireMaxMessageBytes"
  then have "rd_error (make_reader request kCommandKind) \<noteq> None"
    by (simp add: make_reader_def r_fail_def Let_def)
  with assms show False
    by (auto simp: decode_control_command_def decode_message_def Let_def)
qed

lemma encoded_length: "result_bytes (encode_control_response r) \<le> kControlWireMaxMessageBytes"
  using encode_result [OF puts_response, of r kResponseKind]
  by (auto simp: result_bytes_def encode_control_response_def wire_header_def length_le_bytes split: sum.split if_splits)

lemma remembered_fits:
  "decode_control_command request = (c, None) \<Longrightarrow>
     length request + result_bytes (encode_control_response r) \<le> kMaxReplayedResponseBytes"
  using decoded_length [of request c] encoded_length [of r]
  by (simp add: kControlWireMaxMessageBytes_def kMaxReplayedResponseBytes_def)

lemma handle_replayed:
  assumes "decode_control_command request = (c, None)" "cc_command_id c \<noteq> []"
    "find_replayed_response (cc_command_id c) (es_replayed s) = Some e"
  shows "handle_wire_request h request s =
    (Some (if rp_request e = request then rp_response e
       else encode_control_response (command_rejected (cc_command_id c) [srv_command_id_conflict])), s)"
  using assms by (simp add: handle_wire_request_def Let_def)

lemma handle_fresh:
  assumes "decode_control_command request = (c, None)"
    "cc_command_id c \<noteq> [] \<Longrightarrow> find_replayed_response (cc_command_id c) (es_replayed s) = None"
    "execute_command h c s = (result, s1)"
  shows "handle_wire_request h request s = (case result of None \<Rightarrow> (None, s1)
    | Some r \<Rightarrow> (Some (encode_control_response r),
        if cc_command_id c \<noteq> [] then remember_response (cc_command_id c) request (encode_control_response r) s1 else s1))"
  using assms by (cases "cc_command_id c = []") (simp_all add: handle_wire_request_def Let_def split: option.split)

lemma handle_again:
  assumes "decode_control_command request = (c, None)" "cc_command_id c \<noteq> []"
    "handle_wire_request h request s = (Some response, s')"
  shows "handle_wire_request h request s' = (Some response, s')"
proof (cases "find_replayed_response (cc_command_id c) (es_replayed s)")
  case (Some e)
  with assms handle_replayed [OF assms(1,2) Some] show ?thesis by simp
next
  case None
  obtain result s1 where run: "execute_command h c s = (result, s1)" by force
  from handle_fresh [OF assms(1) None run] assms obtain r where
    r: "response = encode_control_response r" "s' = remember_response (cc_command_id c) request response s1"
    by (auto split: option.splits)
  have fits: "length request + result_bytes response \<le> kMaxReplayedResponseBytes"
    using remembered_fits [OF assms(1)] r(1) by blast
  obtain rs bytes dropped where m: "s' = s1\<lparr>es_replayed := rs @ [\<lparr>rp_command_id = cc_command_id c,
      rp_request = request, rp_response = response\<rparr>], es_replayed_bytes := bytes\<rparr>" "es_replayed s1 = dropped @ rs"
    using remember_response_cases [OF fits, of "cc_command_id c" s1] r(2) by metis
  have "cc_command_id c \<notin> rp_command_id ` set rs"
    using None execute_command_replayed [OF run] unfolding find_replayed_None
    by (metis (no_types, lifting) Un_iff image_eqI imageE m(2) set_append)
  with m(1) have "find_replayed_response (cc_command_id c) (es_replayed s') =
      Some \<lparr>rp_command_id = cc_command_id c, rp_request = request, rp_response = response\<rparr>"
    by (simp add: find_replayed_append)
  from handle_replayed [OF assms(1,2) this] show ?thesis by simp
qed

definition service_inv :: "('r, 'w) engine_service \<Rightarrow> bool" where
  "service_inv s \<longleftrightarrow> session_inv (es_session s) \<and> replay_inv (es_replayed s) (es_replayed_bytes s)"

lemma handle_inv:
  assumes "service_inv s" "handle_wire_request h request s = (response, s')"
  shows "service_inv s'"
proof -
  obtain c e where d: "decode_control_command request = (c, e)" by force
  show ?thesis
  proof (cases "e = None \<and> (cc_command_id c \<noteq> [] \<longrightarrow> find_replayed_response (cc_command_id c) (es_replayed s) = None)")
    case False
    then have "s' = s"
      using assms(2) d by (auto simp: handle_wire_request_def Let_def split: option.splits prod.splits)
    with assms show ?thesis by simp
  next
    case True
    obtain result s1 where run: "execute_command h c s = (result, s1)" by force
    have s1: "service_inv s1"
      using assms(1) execute_command_inv [OF _ run] execute_command_replayed [OF run] by (simp add: service_inv_def)
    have dec: "decode_control_command request = (c, None)" using d True by simp
    have h: "(response, s') = (case result of None \<Rightarrow> (None, s1)
        | Some r \<Rightarrow> (Some (encode_control_response r), if cc_command_id c \<noteq> []
            then remember_response (cc_command_id c) request (encode_control_response r) s1 else s1))"
      using handle_fresh [OF dec _ run] True assms(2) by simp
    show ?thesis
    proof (cases "result = None \<or> cc_command_id c = []")
      case True
      with h s1 show ?thesis by (auto split: option.splits)
    next
      case False
      then obtain r where s': "s' = remember_response (cc_command_id c) request (encode_control_response r) s1"
        using h by auto
      have new: "cc_command_id c \<notin> rp_command_id ` set (es_replayed s1)"
        using True False execute_command_replayed [OF run] by (simp add: find_replayed_None)
      show ?thesis
        by (rule remember_response_cases [OF remembered_fits [OF dec, of r], of "cc_command_id c" s1])
          (use s' s1 new False in \<open>simp add: service_inv_def\<close>)
    qed
  qed
qed

lemma service_create_inv:
  "service_create w p version = Some (Inr s) \<Longrightarrow> service_inv s"
  by (auto simp: service_create_def service_inv_def replay_inv_def session_create_inv split: option.splits sum.splits)

section \<open>A running runtime\<close>

text \<open>
  What \<^verbatim>\<open>EngineAudioRuntime\<close> promises: a start without errors leaves the runtime running, new
  parameters do not stop it, and only its own functions change whether it runs.
\<close>

definition runtime_contract :: "('r, 'w) engine_hooks \<Rightarrow> bool" where
  "runtime_contract h \<longleftrightarrow>
     (\<forall>t r w r' w'. hk_start h t r w = (StartReturned [], r', w') \<longrightarrow> hk_running h r' w') \<and>
     (\<forall>g r w b r' w'. hk_apply_parameters h g r w = (b, r', w') \<longrightarrow> hk_running h r' w' = hk_running h r w) \<and>
     (\<forall>r w w'. hk_running h r w = hk_running h r w')"

definition restore_failure :: "control_response \<Rightarrow> bool" where
  "restore_failure r \<longleftrightarrow> cr_status r = Rejected \<and>
     (\<exists>e \<in> set (cr_errors r). \<exists>code. err_code e = ''audio_runtime_restore_failed_'' @ code)"

lemma runtime_running_world:
  "runtime_contract h \<Longrightarrow> runtime_running h (s\<lparr>es_world := w\<rparr>) = runtime_running h s"
  by (auto simp: runtime_contract_def runtime_running_def split: option.split)

lemma runtime_running_same:
  "runtime_contract h \<Longrightarrow> es_runtime s' = es_runtime s \<Longrightarrow> runtime_running h s' = runtime_running h s"
  by (auto simp: runtime_contract_def runtime_running_def split: option.split)

lemma start_installed_running:
  "runtime_contract h \<Longrightarrow> start_installed h t s = (Some [], s') \<Longrightarrow> runtime_running h s'"
  by (auto simp: runtime_contract_def start_installed_def runtime_running_def split: option.splits prod.splits start_outcome.splits)

lemma start_running:
  "runtime_contract h \<Longrightarrow> start_audio_runtime_locked h t s = (Some [], s') \<Longrightarrow> runtime_running h s'"
  by (auto simp: start_audio_runtime_locked_def start_installed_running split: option.splits prod.splits if_splits)

lemma reject_and_restore_running:
  assumes "runtime_contract h" "reject_and_restore h i p es s = (Some r, s')"
  shows "runtime_running h s' \<or> restore_failure r"
proof -
  obtain started s1 where st: "start_audio_runtime_locked h 10 (s\<lparr>es_runtime := p\<rparr>) = (started, s1)" by force
  with assms(2) obtain fs where "started = Some fs" "s1 = s'"
    "r = command_rejected i (es @ map restore_failed fs)"
    by (auto simp: reject_and_restore_def split: option.splits)
  then show ?thesis
    using start_running [OF assms(1)] st
    by (cases fs) (auto simp: restore_failure_def restore_failed_def not_committed_def mk_error_def)
qed

lemma observe_update_runtime [simp]: "es_runtime (snd (observe_update u s)) = es_runtime s"
  by (simp add: observe_update_def split: option.split prod.split)

lemma report_rollback_runtime [simp]: "es_runtime (report_rollback s) = es_runtime s"
  by (simp add: report_rollback_def split: option.split)

lemma commit_and_answer_same_runtime: "commit_and_answer h i u s = (r, s') \<Longrightarrow> es_runtime s' = es_runtime s"
  by (auto simp: commit_and_answer_def Let_def)

lemma finish_update_running:
  assumes "runtime_contract h" "runtime_running h s"
    "finish_update h i u restarted previous live s = (Some r, s')"
  shows "runtime_running h s' \<or> restore_failure r"
proof -
  obtain oe s1 where o: "observe_update u s = (oe, s1)" by force
  then have "es_runtime s1 = es_runtime s" using observe_update_runtime [of u s] by simp
  then have run: "runtime_running h s1" using assms(1,2) runtime_running_same by blast
  then obtain x where x: "es_runtime s1 = Some x" by (auto simp: runtime_running_def split: option.splits)
  obtain applied x' w where a: "hk_apply_parameters h (pu_graph u) x (es_world s1) = (applied, x', w)"
    by (cases "hk_apply_parameters h (pu_graph u) x (es_world s1)") auto
  have applied: "runtime_running h (s1\<lparr>es_runtime := Some x', es_world := w\<rparr>)"
    using run x a assms(1) by (auto simp: runtime_contract_def runtime_running_def)
  have eq: "(Some r, s') = finish_update h i u restarted previous live s" using assms(3) by simp
  consider "oe \<noteq> []" "restarted" | "oe \<noteq> []" "\<not> restarted" | "oe = []" "live" | "oe = []" "\<not> live" by blast
  then show ?thesis
  proof cases
    case 1
    with eq o reject_and_restore_running [OF assms(1)] show ?thesis by (auto simp: finish_update_def)
  next
    case 2
    with eq o run show ?thesis by (simp add: finish_update_def)
  next
    case 3
    have "es_runtime s' = Some x'"
      using eq [symmetric] o 3 x a
      by (auto simp: finish_update_def Let_def split: if_splits dest: commit_and_answer_same_runtime)
    then have "es_runtime s' = es_runtime (s1\<lparr>es_runtime := Some x', es_world := w\<rparr>)" by simp
    with applied runtime_running_same [OF assms(1)] show ?thesis by blast
  next
    case 4
    have "es_runtime s' = es_runtime s1"
      using eq [symmetric] o 4 by (auto simp: finish_update_def dest: commit_and_answer_same_runtime)
    with run runtime_running_same [OF assms(1)] show ?thesis by blast
  qed
qed

text \<open>The steps of a restart, up to the point where the replacement runs.\<close>

lemma update_preset_restart:
  assumes "update_preset h c True live s = (Some r, s')"
    "prepare_preset_update c (es_session s) = Some (Inr u)"
  obtains (rejected) es s1 previous where
      "reject_and_restore h (cc_command_id c) previous es s1 = (Some r, s')"
  | (replaced) t x s1 s2 previous where "control_kept s t"
      "build_audio_runtime_locked (pu_graph u) (pd_matrix (pu_preset u)) t = (Inr x, s1)"
      "start_installed h 10 (s1\<lparr>es_runtime := Some x\<rparr>) = (Some [], s2)"
      "finish_update h (cc_command_id c) u True previous live s2 = (Some r, s')"
proof -
  let ?t = "(stop_audio_runtime_locked h s)\<lparr>es_runtime := None\<rparr>"
  obtain built s1 where b: "build_audio_runtime_locked (pu_graph u) (pd_matrix (pu_preset u)) ?t = (built, s1)" by force
  have t: "control_kept s ?t" by (simp add: kept)
  show thesis
  proof (cases built)
    case (Inl es)
    with assms b rejected show ?thesis by (simp add: update_preset_def Let_def)
  next
    case (Inr x)
    obtain started s2 where st: "start_installed h 10 (s1\<lparr>es_runtime := Some x\<rparr>) = (started, s2)" by force
    from assms b Inr st obtain fs where fs: "started = Some fs"
      by (cases started) (simp_all add: update_preset_def Let_def)
    with assms b Inr st show ?thesis
      using rejected replaced [OF t b [unfolded Inr]]
      by (cases fs) (simp_all add: update_preset_def Let_def)
  qed
qed

lemma update_preset_running:
  assumes "runtime_contract h" "runtime_running h s" "update_preset h c restart live s = (Some r, s')"
  shows "runtime_running h s' \<or> restore_failure r"
proof (cases rule: prepare_preset_update_cases [of c "es_session s"])
  case (1 es)
  with assms show ?thesis by (auto simp: update_preset_def Let_def)
next
  case (2 u)
  show ?thesis
  proof (cases restart)
    case False
    with assms(3) 2(1) have "finish_update h (cc_command_id c) u False None live s = (Some r, s')"
      by (simp add: update_preset_def)
    with finish_update_running [OF assms(1,2)] show ?thesis by blast
  next
    case True
    with assms(3) have "update_preset h c True live s = (Some r, s')" by simp
    then show ?thesis
    proof (cases rule: update_preset_restart [OF _ 2(1), of h live r s'])
      case (2 es s1 previous)
      with reject_and_restore_running [OF assms(1)] show ?thesis by blast
    next
      case (3 t x s1 s2 previous)
      with start_installed_running [OF assms(1) 3(3)] finish_update_running [OF assms(1)] show ?thesis by blast
    qed
  qed
qed

lemma execute_mutating:
  assumes "control_command_mutates_preset (cc_type c)" "execute_command h c s = (Some r, s')"
  obtains (refused) es where "s' = s" "r = command_rejected (cc_command_id c) es"
  | (edited) "update_preset h c
        (\<not> updates_realtime_route_parameters (cc_type c) \<and> runtime_running h s)
        (updates_realtime_route_parameters (cc_type c) \<and> runtime_running h s) s = (Some r, s')"
      "\<not> es_commit_in_progress s"
proof -
  have "cc_type c \<notin> {QueryAudioRuntime, StartAudioRuntime, StopAudioRuntime, ConfigureAudioRuntime}"
    using assms(1) by auto
  with assms refused edited show thesis
    by (auto simp: execute_command_def Let_def split: if_splits)
qed

section \<open>Accepted edits\<close>

lemma finish_update_accepted:
  assumes "finish_update h i u restarted previous live s = (Some r, s')" "cr_status r = Accepted"
  shows "if live then \<exists>x w x' w'. es_runtime s = Some x \<and> hk_apply_parameters h (pu_graph u) x w = (True, x', w') \<and>
      es_runtime s' = Some x' else es_runtime s' = es_runtime s"
proof -
  obtain oe s1 where o: "observe_update u s = (oe, s1)" by force
  then have rt: "es_runtime s1 = es_runtime s" using observe_update_runtime [of u s] by simp
  have oe: "oe = []"
  proof (rule ccontr)
    assume "oe \<noteq> []"
    with assms o show False
      using reject_and_restore_status [of h i previous oe "stop_audio_runtime_locked h s1" r]
      by (auto simp: finish_update_def split: if_splits)
  qed
  show ?thesis
  proof (cases live)
    case True
    with assms(1) o oe obtain x where x: "es_runtime s1 = Some x"
      by (auto simp: finish_update_def split: option.splits)
    obtain applied x' w where a: "hk_apply_parameters h (pu_graph u) x (es_world s1) = (applied, x', w)"
      by (cases "hk_apply_parameters h (pu_graph u) x (es_world s1)") auto
    from assms True o oe x a have "applied" "es_runtime s' = Some x'"
      by (auto simp: finish_update_def Let_def split: if_splits dest: commit_and_answer_same_runtime)
    with True a x rt show ?thesis by auto
  next
    case False
    with assms(1) o oe rt show ?thesis by (auto simp: finish_update_def dest: commit_and_answer_same_runtime)
  qed
qed

text \<open>What happens to a running runtime when an edit is accepted.\<close>

definition runtime_follows ::
  "('r, 'w) engine_hooks \<Rightarrow> control_command_type \<Rightarrow> prepared_update \<Rightarrow> ('r, 'w) engine_service \<Rightarrow>
   ('r, 'w) engine_service \<Rightarrow> bool" where
  "runtime_follows h ty u s s' \<longleftrightarrow>
     (if \<not> runtime_running h s then es_runtime s' = es_runtime s
      else if updates_realtime_route_parameters ty then
        \<exists>x w x' w'. es_runtime s = Some x \<and> hk_apply_parameters h (pu_graph u) x w = (True, x', w') \<and>
          es_runtime s' = Some x'
      else \<exists>t t' x w x' w'. control_kept s t \<and>
        build_audio_runtime_locked (pu_graph u) (pd_matrix (pu_preset u)) t = (Inr x, t') \<and>
        hk_start h 10 x w = (StartReturned [], x', w') \<and> es_runtime s' = Some x')"

lemma start_installed_started:
  "start_installed h t (s\<lparr>es_runtime := Some x\<rparr>) = (Some [], s') \<Longrightarrow>
     \<exists>w x' w'. hk_start h t x w = (StartReturned [], x', w') \<and> es_runtime s' = Some x'"
  by (fastforce simp: start_installed_def split: prod.splits start_outcome.splits)

lemma execute_accepted:
  assumes "control_command_mutates_preset (cc_type c)" "execute_command h c s = (Some r, s')" "cr_status r = Accepted"
  shows "\<exists>u. prepare_preset_update c (es_session s) = Some (Inr u) \<and>
    es_session s' = commit_preset_update u (es_session s) \<and> runtime_follows h (cc_type c) u s s'"
proof -
  from execute_command_executed [OF assms(2)] assms(1,3) obtain u where
    u: "prepare_preset_update c (es_session s) = Some (Inr u)" "es_session s' = commit_preset_update u (es_session s)"
    by (auto simp: executed_def control_kept_iff)
  let ?route = "updates_realtime_route_parameters (cc_type c)" and ?run = "runtime_running h s"
  have up: "update_preset h c (\<not> ?route \<and> ?run) (?route \<and> ?run) s = (Some r, s')"
    using execute_mutating [OF assms(1,2)] assms(3) by (metis response_simps(1) response_status.distinct(1))
  have "runtime_follows h (cc_type c) u s s'"
  proof (cases "\<not> ?route \<and> ?run")
    case False
    with up u(1) have "finish_update h (cc_command_id c) u False None (?route \<and> ?run) s = (Some r, s')"
      by (simp add: update_preset_def)
    from finish_update_accepted [OF this assms(3)] False show ?thesis
      by (auto simp: runtime_follows_def split: if_splits)
  next
    case True
    then have up': "update_preset h c True False s = (Some r, s')" using up by simp
    show ?thesis
    proof (cases rule: update_preset_restart [OF up' u(1)])
      case (1 es s1 previous)
      with reject_and_restore_status [of h "cc_command_id c" previous es s1 r] assms(3) show ?thesis by simp
    next
      case (2 t x s1 s2 previous)
      obtain w x' w' where "hk_start h 10 x w = (StartReturned [], x', w')" "es_runtime s' = Some x'"
        using finish_update_accepted [OF 2(4) assms(3)] start_installed_started [OF 2(3)] by auto
      with 2(1,2) True show ?thesis unfolding runtime_follows_def by (simp (no_asm_simp)) blast
    qed
  qed
  with u show ?thesis by blast
qed

section \<open>Configuring during a commit\<close>

text \<open>\<open>pending b\<close> sets the flag that says a commit is in progress.\<close>

abbreviation pending :: "bool \<Rightarrow> ('r, 'w) engine_service \<Rightarrow> ('r, 'w) engine_service" where
  "pending b s \<equiv> s\<lparr>es_commit_in_progress := b\<rparr>"

named_theorems pending

lemma pending_updates [pending]:
  "(pending b s)\<lparr>es_world := w\<rparr> = pending b (s\<lparr>es_world := w\<rparr>)"
  "(pending b s)\<lparr>es_runtime := r\<rparr> = pending b (s\<lparr>es_runtime := r\<rparr>)"
  "(pending b s)\<lparr>es_configuration := c\<rparr> = pending b (s\<lparr>es_configuration := c\<rparr>)"
  "(pending b s)\<lparr>es_session := x\<rparr> = pending b (s\<lparr>es_session := x\<rparr>)"
  by simp_all

lemma pending_running [pending]: "runtime_running h (pending b s) = runtime_running h s"
  by (simp add: runtime_running_def split: option.split)

lemma pending_stop [pending]: "stop_audio_runtime_locked h (pending b s) = pending b (stop_audio_runtime_locked h s)"
  by (simp add: stop_audio_runtime_locked_def split: option.split prod.split)

lemma pending_restore [pending]: "restore_previous_runtime h p es (pending b s) = apsnd (pending b) (restore_previous_runtime h p es s)"
  by (simp add: restore_previous_runtime_def split: option.split prod.split)

lemma pending_drop [pending]: "drop_and_restore h x p es (pending b s) = apsnd (pending b) (drop_and_restore h x p es s)"
  by (simp add: drop_and_restore_def pending)

lemma pending_observe [pending]: "observe_matrix_update u (pending b s) = apsnd (pending b) (observe_matrix_update u s)"
  by (auto simp: observe_matrix_update_def split: option.split prod.split observer_outcome.split)

lemma pending_adopt [pending]: "adopt_candidate h c u p x (pending b s) = apsnd (pending b) (adopt_candidate h c u p x s)"
  by (cases u) (simp_all add: adopt_candidate_def pending case_prod_beta)

lemma pending_install [pending]: "install_candidate h c u p out (pending b s) = apsnd (pending b) (install_candidate h c u p out s)"
  by (auto simp: install_candidate_def pending split: build_outcome.split prod.split start_outcome.split)

lemma pending_matrix [pending]: "matrix_update c (pending b s) = matrix_update c s"
  unfolding matrix_update_def Let_def by (simp split: sum.split)

lemma pending_configure:
  "configure_audio_runtime_locked h c (pending b s) = apsnd (pending b) (configure_audio_runtime_locked h c s)"
  by (auto simp: configure_audio_runtime_locked_def Let_def pending split: option.split prod.split sum.split)

section \<open>A small service\<close>

text \<open>A runtime that always works: whether it runs, and the version of its graph.\<close>

definition demo_hooks :: "(bool \<times> u64, unit) engine_hooks" where
  "demo_hooks = \<lparr>hk_start = \<lambda>t r w. (StartReturned [], (True, snd r), w), hk_stop = \<lambda>r w. ((False, snd r), w),
     hk_running = \<lambda>r w. fst r, hk_graph_version = \<lambda>r w. snd r,
     hk_apply_parameters = \<lambda>g r w. (True, (fst r, g_version g), w), hk_diagnostics = \<lambda>r w. default_diagnostics,
     hk_recovery_diagnostics = \<lambda>r w. Some None, hk_endpoint_diagnostics = \<lambda>r w. Some []\<rparr>"

definition demo_service :: "graph \<Rightarrow> (bool \<times> u64, unit) engine_service" where
  "demo_service g = \<lparr>es_session = demo_session g, es_runtime = Some (True, 1),
     es_builder = Some (\<lambda>g w. (Built (False, g_version g), w)),
     es_configurator = Some (\<lambda>c g m w. (Built (False, g_version g), w)), es_observer = None,
     es_recovery_provider = None, es_commit_in_progress = False, es_configuration = None, es_providers = [],
     es_replayed = [], es_replayed_bytes = 0, es_world = ()\<rparr>"

lemma demo_service_fields:
  "es_runtime (demo_service g) = Some (True, 1)" "es_world (demo_service g) = ()"
  "es_configurator (demo_service g) = Some (\<lambda>c g m w. (Built (False, g_version g), w))"
  "es_builder (demo_service g) = Some (\<lambda>g w. (Built (False, g_version g), w))"
  "es_observer (demo_service g) = None" "es_session (demo_service g) = demo_session g"
  "es_commit_in_progress (demo_service g) = False" "es_replayed (demo_service g) = []"
  by (simp_all add: demo_service_def)

definition demo_configure_command :: control_command where
  "demo_configure_command = default_command\<lparr>cc_command_id := ''c'', cc_type := ConfigureAudioRuntime,
     cc_audio_runtime := demo_matrix_configuration\<rparr>"

lemma demo_contract: "runtime_contract demo_hooks"
  by (simp add: runtime_contract_def demo_hooks_def)

lemma demo_service_running: "runtime_running demo_hooks (demo_service g)"
  by (simp add: runtime_running_def demo_hooks_def demo_service_def)

lemma demo_edit:
  "\<exists>r s'. execute_command demo_hooks demo_gain_command (demo_service g) = (Some r, s') \<and> cr_status r = Accepted"
proof -
  obtain s1 where "session_handle demo_gain_command default_diagnostics (demo_session g) = Some (command_accepted ''g'', s1)"
    using demo_gain_handled by blast
  moreover have ty: "cc_type demo_gain_command = SetGain" by (simp add: demo_gain_command_def)
  ultimately have handled: "handle_update demo_gain_command demo_gain_command (demo_session g) = Some (command_accepted ''g'', s1)"
    by (simp add: session_handle_mutates demo_gain_command_valid)
  obtain u where u: "prepare_preset_update demo_gain_command (demo_session g) = Some (Inr u)"
  proof (cases rule: prepare_preset_update_cases [of demo_gain_command "demo_session g"])
    case (1 es)
    with handled have "command_rejected (cc_command_id demo_gain_command) es = command_accepted ''g''"
      by (simp add: handle_update_def)
    from arg_cong [OF this, of cr_status] show ?thesis by simp
  qed
  have "execute_command demo_hooks demo_gain_command (demo_service g) =
      update_preset demo_hooks demo_gain_command False True (demo_service g)"
    using demo_service_running [of g] demo_gain_command_valid ty
    by (simp add: execute_command_def Let_def updates_realtime_route_parameters_def demo_service_def)
  also have "\<dots> = commit_and_answer demo_hooks (cc_command_id demo_gain_command) u
      ((demo_service g)\<lparr>es_runtime := Some (True, g_version (pu_graph u))\<rparr>)"
    using u by (simp add: update_preset_def Let_def finish_update_def observe_update_def demo_service_def demo_hooks_def)
  finally show ?thesis by (simp add: commit_and_answer_def Let_def)
qed

lemma demo_matrix_update: "\<exists>u. matrix_update demo_matrix_configuration (demo_service g) = Some (Inr (Some u))"
proof -
  have start: "ss_preset (es_session (demo_service g)) = demo_preset" "es_configuration (demo_service g) = None"
    "ss_next_version (es_session (demo_service g)) = 2"
    by (simp_all add: demo_service_def demo_session_def)
  obtain p where p: "reconcile_audio_runtime_matrix_preset demo_preset default_runtime_configuration
      demo_matrix_configuration = Inr p"
    using demo_reconciled by blast
  have "pd_nodes p = pd_nodes demo_preset"
    using p by (auto simp: reconcile_audio_runtime_matrix_preset_def Let_def split: if_splits)
  then have ok: "preset_wf p" "preset_buildable p"
    using reconciled_preset(2) [OF p] demo_preset_wf by (simp_all add: preset_buildable_def)
  let ?load = "default_command\<lparr>cc_command_id := ''runtime-matrix-reconcile'', cc_type := LoadPreset, cc_preset := p\<rparr>"
  have load: "apply_command demo_preset ?load = Inr p"
    using ok(1) by (simp add: apply_command_def Let_def validate_command_def validate_preset_Nil default_command_def)
  obtain h where "build_preset_graph p 2 = Some (Inr h)"
    using build_preset_graph_total [of p 2] ok by auto
  then have "prepare_preset_update ?load (es_session (demo_service g)) =
      Some (Inr \<lparr>pu_preset = p, pu_graph = h, pu_version = 2\<rparr>)"
    using load by (simp add: prepare_preset_update_def start)
  then show ?thesis
    using p start demo_matrix_configuration_ok(1) by (simp add: matrix_update_def Let_def)
qed

lemma demo_configured:
  "\<exists>s'. configure_audio_runtime_locked demo_hooks demo_matrix_configuration (demo_service g) = (Some [], s') \<and>
     es_session s' \<noteq> demo_session g"
proof -
  obtain u where u: "matrix_update demo_matrix_configuration (demo_service g) = Some (Inr (Some u))"
    using demo_matrix_update by blast
  have "fst (configure_audio_runtime_locked demo_hooks demo_matrix_configuration (demo_service g)) = Some []"
    using demo_service_running [of g]
    by (simp add: configure_audio_runtime_locked_def u Let_def stop_audio_runtime_locked_def install_candidate_def
        adopt_candidate_def observe_matrix_update_def demo_service_fields demo_hooks_def)
  then obtain s' where conf: "configure_audio_runtime_locked demo_hooks demo_matrix_configuration (demo_service g) =
      (Some [], s')"
    by (metis prod.collapse)
  from configure_cases [OF conf] u have "configured demo_matrix_configuration (Some u) (demo_service g) [] s'" by simp
  then have "es_session s' = commit_preset_update u (demo_session g)"
    by (auto simp: configured_def committed_def demo_service_fields)
  then have "ss_next_version (es_session s') \<noteq> ss_next_version (demo_session g)"
    by (simp add: commit_preset_update_def)
  with conf show ?thesis by auto
qed

lemma demo_configure:
  "\<exists>r s'. execute_command demo_hooks demo_configure_command (demo_service g) = (Some r, s') \<and> cr_status r = Accepted"
proof -
  have "validate_command demo_configure_command = []" by code_simp
  moreover have "cc_type demo_configure_command = ConfigureAudioRuntime"
    "cc_audio_runtime demo_configure_command = demo_matrix_configuration"
    by (simp_all add: demo_configure_command_def)
  ultimately show ?thesis
    using demo_configured [of g] by (auto simp: execute_command_def Let_def answer_runtime_command_def)
qed

lemma demo_gain_encodes:
  "\<exists>msg. encode_control_command demo_gain_command = Inr msg" "command_carried demo_gain_command"
  unfolding command_encodes
  by (simp_all add: demo_gain_command_def default_command_def default_preset_def empty_matrix_def
      default_runtime_configuration_def command_fits_def command_bytes_def
      string_fits_def preset_fits_def runtime_configuration_fits_def extensions_fit_def count_fits_def
      preset_bytes_def runtime_configuration_bytes_def list_bytes_def count_bytes_def string_bytes_def
      bool_bytes_def preset_node.list_fits_def endpoint.list_fits_def preset_route.list_fits_def
      runtime_endpoint.list_fits_def num.list_fits_def vasio.list_fits_def
      kControlWireMaxStringBytes_def kControlWireMaxArrayElements_def kControlWireMaxMessageBytes_def
      command_carried_def preset_carried_def configuration_carried_def f32_finite_def)

lemma demo_request:
  "\<exists>request s'. decode_control_command request = (demo_gain_command, None) \<and>
     (\<exists>response. handle_wire_request demo_hooks request (demo_service g) = (Some response, s'))"
proof -
  obtain request where "encode_control_command demo_gain_command = Inr request"
    using demo_gain_encodes(1) by blast
  then have d: "decode_control_command request = (demo_gain_command, None)"
    using command_roundtrip demo_gain_encodes(2) by blast
  obtain r s1 where "execute_command demo_hooks demo_gain_command (demo_service g) = (Some r, s1)"
    using demo_edit by blast
  from handle_fresh [OF d _ this] show ?thesis
    using d by (auto simp: demo_service_fields find_replayed_response_def)
qed

lemma demo_service_inv: "\<exists>g. service_inv (demo_service g)"
  using demo_session_created
  by (auto simp: service_inv_def demo_service_def replay_inv_def)

section \<open>Properties\<close>



text \<open>
  C33: Every request keeps the invariant of the service, whatever the runtime, the builders and the
  observer do: the published graph belongs to the current preset, and the cache of answers holds at
  most 64 entries of at most four mebibytes in total, counted exactly, with different non-empty ids.
\<close>

theorem service_invariant_kept:
  assumes "session_inv (es_session s)" "replay_inv (es_replayed s) (es_replayed_bytes s)"
    and "handle_wire_request h request s = (response, s')"
  shows "session_inv (es_session s') \<and> replay_inv (es_replayed s') (es_replayed_bytes s')"
  using handle_inv [of s h request response s'] assms by (simp add: service_inv_def)

theorem service_invariant_kept_witness:
  "\<exists>g request response s'. handle_wire_request demo_hooks request (demo_service g) = (Some response, s') \<and>
     session_inv (es_session s') \<and> replay_inv (es_replayed s') (es_replayed_bytes s')"
proof -
  obtain g where inv: "session_inv (es_session (demo_service g))"
      "replay_inv (es_replayed (demo_service g)) (es_replayed_bytes (demo_service g))"
    using demo_service_inv by (auto simp: service_inv_def)
  obtain request s' response where run: "handle_wire_request demo_hooks request (demo_service g) = (Some response, s')"
    using demo_request by blast
  from service_invariant_kept [OF inv run] run show ?thesis by blast
qed

text \<open>
  C3: A command that is refused, or that throws, leaves the session (preset, graph, version and
  endpoints) and the runtime configuration as they were, in every branch: validation, a failed build
  or start, an observer that refuses or throws, or parameters the runtime does not take.
\<close>

theorem refused_command_changes_nothing:
  assumes "execute_command h c s = (result, s')"
    and "\<forall>r. result = Some r \<longrightarrow> cr_status r = Rejected"
  shows "es_session s' = es_session s \<and> es_configuration s' = es_configuration s"
  using execute_command_executed [OF assms(1)] assms(2) by (auto simp: executed_def control_kept_iff)

theorem refused_command_changes_nothing_witness:
  "\<exists>g es s'. execute_command demo_hooks default_command (demo_service g) = (Some (command_rejected [] es), s') \<and>
     es_session s' = demo_session g"
proof -
  have "validate_command default_command \<noteq> []" by code_simp
  then have run: "execute_command demo_hooks default_command (demo_service g) =
      (Some (command_rejected (cc_command_id default_command) (validate_command default_command)), demo_service g)" for g
    by (simp add: execute_command_def Let_def)
  from refused_command_changes_nothing [OF run] run show ?thesis
    by (auto simp: demo_service_fields default_command_def)
qed

text \<open>
  C2: An accepted edit moves session and runtime together: the session commits exactly the prepared
  update, and a running runtime either took the new route parameters (gain, mute and routing
  commands) or was replaced by one that was built for the new graph and matrix and started without
  errors; a runtime that was not running is left alone.
\<close>

theorem accepted_edit_moves_session_and_runtime:
  assumes "control_command_mutates_preset (cc_type c)" "execute_command h c s = (Some r, s')"
    and "cr_status r = Accepted"
  shows "\<exists>u. prepare_preset_update c (es_session s) = Some (Inr u) \<and>
    es_session s' = commit_preset_update u (es_session s) \<and> runtime_follows h (cc_type c) u s s'"
  by (rule execute_accepted [OF assms])

theorem accepted_edit_moves_session_and_runtime_witness:
  "\<exists>g u r s'. execute_command demo_hooks demo_gain_command (demo_service g) = (Some r, s') \<and>
     es_session s' = commit_preset_update u (demo_session g) \<and>
     es_runtime s' = Some (True, g_version (pu_graph u))"
proof -
  obtain g r s' where run: "execute_command demo_hooks demo_gain_command (demo_service g) = (Some r, s')"
    "cr_status r = Accepted" using demo_edit by blast
  have "control_command_mutates_preset (cc_type demo_gain_command)" by (simp add: demo_gain_command_def)
  from accepted_edit_moves_session_and_runtime [OF this run] obtain u where
    "es_session s' = commit_preset_update u (demo_session g)"
    "runtime_follows demo_hooks (cc_type demo_gain_command) u (demo_service g) s'"
    by (auto simp: demo_service_fields)
  with run show ?thesis using demo_service_running [of g]
    by (auto simp: runtime_follows_def demo_service_fields updates_realtime_route_parameters_def
        demo_gain_command_def demo_hooks_def)
qed

text \<open>
  C4: A running engine survives edits: with a runtime that keeps its contract, after any answered
  preset command the engine still runs, or the answer says that the previous runtime could not be
  restored. A failing build, start or observer never leaves the engine silently stopped.
\<close>

theorem running_engine_survives_edits:
  assumes "runtime_contract h" "runtime_running h s" "control_command_mutates_preset (cc_type c)"
    and "execute_command h c s = (Some r, s')"
  shows "runtime_running h s' \<or> restore_failure r"
proof (cases rule: execute_mutating [OF assms(3,4)])
  case (1 es)
  with assms(2) show ?thesis by simp
next
  case 2
  from update_preset_running [OF assms(1,2) 2(1)] show ?thesis .
qed

theorem running_engine_survives_edits_witness:
  "\<exists>g r s'. execute_command demo_hooks demo_gain_command (demo_service g) = (Some r, s') \<and>
     (runtime_running demo_hooks s' \<or> restore_failure r)"
proof -
  obtain g r s' where run: "execute_command demo_hooks demo_gain_command (demo_service g) = (Some r, s')"
    using demo_edit by blast
  have "control_command_mutates_preset (cc_type demo_gain_command)" by (simp add: demo_gain_command_def)
  from running_engine_survives_edits [OF demo_contract demo_service_running this run] run show ?thesis by blast
qed

text \<open>
  C34: An accepted matrix configuration is published as a whole: it becomes the configuration, a new
  preset is committed under the next version with the graph built from it, a runtime is installed,
  and the topology of the configuration binds to the matrix of that preset.
\<close>

theorem matrix_configuration_published:
  assumes "cc_type c = ConfigureAudioRuntime" "rc_mode (cc_audio_runtime c) = WasapiMatrix"
    and "execute_command h c s = (Some r, s')" "cr_status r = Accepted"
  shows "es_configuration s' = Some (cc_audio_runtime c) \<and> es_runtime s' \<noteq> None \<and>
    build_preset_graph (ss_preset (es_session s')) (ss_next_version (es_session s)) =
      Some (Inr (ss_graph (es_session s'))) \<and>
    ss_next_version (es_session s') = ss_next_version (es_session s) + 1 \<and>
    (\<exists>t bs. build_audio_runtime_topology (cc_audio_runtime c) = Inr t \<and>
       bind_audio_runtime_to_matrix t (pd_matrix (ss_preset (es_session s'))) = Inr bs)"
proof -
  from execute_command_executed [OF assms(3)] assms(1,4) obtain update where
    update: "matrix_update (cc_audio_runtime c) s = Some (Inr update)"
    and conf: "configured (cc_audio_runtime c) update s [] s'"
    by (auto simp: executed_def)
  from update assms(2) obtain u previous where u: "update = Some u"
      "reconcile_audio_runtime_matrix_preset (ss_preset (es_session s)) previous (cc_audio_runtime c) = Inr (pu_preset u)"
      "build_preset_graph (pu_preset u) (ss_next_version (es_session s)) = Some (Inr (pu_graph u))"
    by (cases rule: matrix_update_cases [of "cc_audio_runtime c" s]) auto
  with conf reconciled_binds [OF assms(2) u(2)] show ?thesis
    by (auto simp: configured_def committed_def commit_preset_update_def)
qed

theorem matrix_configuration_published_witness:
  "\<exists>g r s'. execute_command demo_hooks demo_configure_command (demo_service g) = (Some r, s') \<and>
     es_configuration s' = Some demo_matrix_configuration \<and> ss_next_version (es_session s') = 3"
proof -
  obtain g r s' where run: "execute_command demo_hooks demo_configure_command (demo_service g) = (Some r, s')"
    "cr_status r = Accepted" using demo_configure by blast
  have "cc_type demo_configure_command = ConfigureAudioRuntime"
    "rc_mode (cc_audio_runtime demo_configure_command) = WasapiMatrix"
    by (simp_all add: demo_configure_command_def demo_matrix_configuration_ok(1))
  from matrix_configuration_published [OF this run] run show ?thesis
    by (auto simp: demo_service_fields demo_session_def demo_configure_command_def)
qed

text \<open>
  Edits are refused while a commit is pending, but a configuration is not: it behaves as if no commit
  were pending, and in matrix mode it commits a preset of its own.
\<close>

theorem pending_commit_guards_edits_only:
  "(control_command_mutates_preset (cc_type c) \<longrightarrow> es_session (snd (execute_command h c (pending True s))) = es_session s) \<and>
   configure_audio_runtime_locked h conf (pending True s) =
     apsnd (pending True) (configure_audio_runtime_locked h conf s)"
proof (intro conjI impI)
  assume m: "control_command_mutates_preset (cc_type c)"
  obtain result s' where run: "execute_command h c (pending True s) = (result, s')" by force
  show "es_session (snd (execute_command h c (pending True s))) = es_session s"
  proof (cases "\<exists>r. result = Some r \<and> cr_status r = Accepted")
    case True
    then obtain r where r: "result = Some r" "cr_status r = Accepted" by blast
    from m run [unfolded r(1)] show ?thesis
      by (cases rule: execute_mutating) (use run r in auto)
  next
    case False
    with execute_command_executed [OF run] run show ?thesis by (auto simp: executed_def control_kept_iff)
  qed
next
  show "configure_audio_runtime_locked h conf (pending True s) =
     apsnd (pending True) (configure_audio_runtime_locked h conf s)" by (rule pending_configure)
qed

theorem pending_commit_guards_edits_only_witness:
  "\<exists>g s'. control_command_mutates_preset (cc_type demo_gain_command) \<and>
     es_session (snd (execute_command demo_hooks demo_gain_command (pending True (demo_service g)))) = demo_session g \<and>
     configure_audio_runtime_locked demo_hooks demo_matrix_configuration (pending True (demo_service g)) = (Some [], s') \<and>
     es_session s' \<noteq> demo_session g"
proof -
  obtain g s' where conf: "configure_audio_runtime_locked demo_hooks demo_matrix_configuration (demo_service g) =
      (Some [], s')" "es_session s' \<noteq> demo_session g"
    using demo_configured by blast
  have "control_command_mutates_preset (cc_type demo_gain_command)" by (simp add: demo_gain_command_def)
  with pending_commit_guards_edits_only [of demo_gain_command demo_hooks "demo_service g" demo_matrix_configuration] conf
  show ?thesis by (auto simp: demo_service_fields intro!: exI [of _ g])
qed

end
