(* ===== verification/EndpointPolicy.thy ===== *)
theory EndpointPolicy
  imports AudioDevice
begin

text \<open>
  \<^verbatim>\<open>core/platform/wasapi_endpoint_selection_policy.{h,cpp}\<close>: which WASAPI endpoints a duplex runtime
  opens, and when a change of the default endpoint makes it open others.
\<close>

section \<open>Selections\<close>

datatype wasapi_direction = CaptureEndpoint | RenderEndpoint

datatype selection_mode = FollowDefault | PinnedDeviceId

record endpoint_selection =
  sl_mode :: selection_mode
  sl_device_id :: string

definition follow_default :: endpoint_selection where
  "follow_default = \<lparr>sl_mode = FollowDefault, sl_device_id = []\<rparr>"

text \<open>\<^verbatim>\<open>pinned_device_id\<close> throws \<^verbatim>\<open>std::invalid_argument\<close> for an empty id.\<close>

definition pinned_device_id :: "string \<Rightarrow> endpoint_selection option" where
  "pinned_device_id i = (if i = [] then None else Some \<lparr>sl_mode = PinnedDeviceId, sl_device_id = i\<rparr>)"

record default_generations =
  gn_capture :: u64
  gn_render :: u64

record reopen_requirements =
  rq_capture :: bool
  rq_render :: bool

record selection_error =
  se_code :: string
  se_message :: string
  se_direction :: wasapi_direction
  se_device_id :: string

record endpoint_pair =
  epr_capture_device_id :: string
  epr_render_device_id :: string

definition no_endpoints :: endpoint_pair where
  "no_endpoints = \<lparr>epr_capture_device_id = [], epr_render_device_id = []\<rparr>"

record endpoint_policy =
  eo_capture :: endpoint_selection
  eo_render :: endpoint_selection
  eo_opened :: default_generations

definition make_endpoint_policy :: "endpoint_selection \<Rightarrow> endpoint_selection \<Rightarrow> endpoint_policy" where
  "make_endpoint_policy capture render =
     \<lparr>eo_capture = capture, eo_render = render, eo_opened = \<lparr>gn_capture = 0, gn_render = 0\<rparr>\<rparr>"

definition policy_selection :: "wasapi_direction \<Rightarrow> endpoint_policy \<Rightarrow> endpoint_selection" where
  "policy_selection d p = (if d = CaptureEndpoint then eo_capture p else eo_render p)"

section \<open>Reopening\<close>

definition mark_opened :: "default_generations \<Rightarrow> endpoint_policy \<Rightarrow> endpoint_policy" where
  "mark_opened g p = p\<lparr>eo_opened := g\<rparr>"

definition mark_opened_direction :: "wasapi_direction \<Rightarrow> u64 \<Rightarrow> endpoint_policy \<Rightarrow> endpoint_policy" where
  "mark_opened_direction d generation p =
     (if d = CaptureEndpoint then p\<lparr>eo_opened := (eo_opened p)\<lparr>gn_capture := generation\<rparr>\<rparr>
      else p\<lparr>eo_opened := (eo_opened p)\<lparr>gn_render := generation\<rparr>\<rparr>)"

definition reopen_required :: "wasapi_direction \<Rightarrow> u64 \<Rightarrow> endpoint_policy \<Rightarrow> bool" where
  "reopen_required d current p =
     (if sl_mode (policy_selection d p) \<noteq> FollowDefault then False
      else current \<noteq> (if d = CaptureEndpoint then gn_capture (eo_opened p) else gn_render (eo_opened p)))"

definition policy_reopen_requirements :: "default_generations \<Rightarrow> endpoint_policy \<Rightarrow> reopen_requirements" where
  "policy_reopen_requirements current p =
     \<lparr>rq_capture = reopen_required CaptureEndpoint (gn_capture current) p,
      rq_render = reopen_required RenderEndpoint (gn_render current) p\<rparr>"

section \<open>Resolution\<close>

definition direction_name :: "wasapi_direction \<Rightarrow> string" where
  "direction_name d = (if d = CaptureEndpoint then ''capture'' else ''render'')"

definition direction_matches :: "audio_device \<Rightarrow> wasapi_direction \<Rightarrow> bool" where
  "direction_matches dev d =
     (if ad_backend dev \<noteq> Wasapi then False
      else if ad_direction dev = Duplex then True
      else if d = CaptureEndpoint then ad_direction dev = Input else ad_direction dev = Output)"

definition make_unavailable_error :: "wasapi_direction \<Rightarrow> endpoint_selection \<Rightarrow> selection_error" where
  "make_unavailable_error d s =
     (if sl_mode s = PinnedDeviceId
      then \<lparr>se_code = ''wasapi_pinned_endpoint_unavailable'',
        se_message = ''Pinned WASAPI '' @ direction_name d @ '' endpoint '' @ [CHR 0x27] @ sl_device_id s @ [CHR 0x27] @ '' is unavailable.'',
        se_direction = d, se_device_id = sl_device_id s\<rparr>
      else \<lparr>se_code = ''wasapi_default_endpoint_unavailable'',
        se_message = ''Default WASAPI '' @ direction_name d @ '' endpoint is unavailable.'',
        se_direction = d, se_device_id = []\<rparr>)"

definition make_discovery_error :: "wasapi_direction \<Rightarrow> endpoint_selection \<Rightarrow> selection_error" where
  "make_discovery_error d s =
     \<lparr>se_code = ''wasapi_endpoint_discovery_failed'',
      se_message = ''WASAPI '' @ direction_name d @ '' endpoint discovery failed.'',
      se_direction = d, se_device_id = (if sl_mode s = PinnedDeviceId then sl_device_id s else [])\<rparr>"

definition selection_matches :: "wasapi_direction \<Rightarrow> endpoint_policy \<Rightarrow> audio_device \<Rightarrow> bool" where
  "selection_matches d p dev =
     (if \<not> direction_matches dev d then False
      else if sl_mode (policy_selection d p) = FollowDefault then ad_is_default dev
      else ad_id dev = sl_device_id (policy_selection d p))"

definition resolve_endpoint :: "wasapi_direction \<Rightarrow> audio_device list \<Rightarrow> endpoint_policy \<Rightarrow> selection_error + string" where
  "resolve_endpoint d devices p =
     (case List.find (selection_matches d p) devices of
        None \<Rightarrow> Inl (make_unavailable_error d (policy_selection d p))
      | Some dev \<Rightarrow> Inr (ad_id dev))"

text \<open>\<^verbatim>\<open>resolve\<close> and \<^verbatim>\<open>resolve_pair\<close> on the result of a discovery.\<close>

definition resolve_discovered ::
  "wasapi_direction \<Rightarrow> device_list_result \<Rightarrow> endpoint_policy \<Rightarrow> selection_error + string" where
  "resolve_discovered d discovery p =
     (case discovery of
        Inl _ \<Rightarrow> Inl (make_discovery_error d (policy_selection d p))
      | Inr devices \<Rightarrow> resolve_endpoint d devices p)"

definition resolution_errors :: "selection_error + string \<Rightarrow> selection_error list" where
  "resolution_errors r = (case r of Inl e \<Rightarrow> [e] | Inr _ \<Rightarrow> [])"

definition resolved_device_id :: "selection_error + string \<Rightarrow> string" where
  "resolved_device_id r = (case r of Inl _ \<Rightarrow> [] | Inr i \<Rightarrow> i)"

text \<open>The pair is carried with the errors; it is meant only when there are none.\<close>

definition resolve_pair :: "audio_device list \<Rightarrow> endpoint_policy \<Rightarrow> endpoint_pair \<times> selection_error list" where
  "resolve_pair devices p =
     (let capture = resolve_endpoint CaptureEndpoint devices p; render = resolve_endpoint RenderEndpoint devices p
      in (\<lparr>epr_capture_device_id = resolved_device_id capture, epr_render_device_id = resolved_device_id render\<rparr>,
          resolution_errors capture @ resolution_errors render))"

definition resolve_pair_discovered ::
  "device_list_result \<Rightarrow> endpoint_policy \<Rightarrow> endpoint_pair \<times> selection_error list" where
  "resolve_pair_discovered discovery p =
     (case discovery of
        Inr devices \<Rightarrow> resolve_pair devices p
      | Inl _ \<Rightarrow> (no_endpoints, [make_discovery_error CaptureEndpoint (eo_capture p),
          make_discovery_error RenderEndpoint (eo_render p)]))"

section \<open>What a resolution promises\<close>

lemma find_matching:
  "List.find P xs = Some x \<Longrightarrow> x \<in> set xs \<and> P x"
  by (induction xs) (auto split: if_splits)

lemma resolve_endpoint_Inr:
  assumes "resolve_endpoint d devices p = Inr i"
  obtains dev where "dev \<in> set devices" "selection_matches d p dev" "ad_id dev = i"
  using assms find_matching [of "selection_matches d p" devices]
  by (auto simp: resolve_endpoint_def split: option.splits)

lemma resolve_endpoint_available:
  "(\<exists>i. resolve_endpoint d devices p = Inr i) \<longleftrightarrow> (\<exists>dev \<in> set devices. selection_matches d p dev)"
  by (auto simp: resolve_endpoint_def find_None_iff split: option.split dest: find_matching)

text \<open>
  A pinned selection never resolves to another device, a following one only to a default, and both only
  to WASAPI devices of the direction. A pair resolves exactly when both directions do.
\<close>

definition resolution_ok :: "audio_device list \<Rightarrow> endpoint_policy \<Rightarrow> wasapi_direction \<Rightarrow> string \<Rightarrow> bool" where
  "resolution_ok devices p d i \<longleftrightarrow> (\<exists>dev \<in> set devices. ad_id dev = i \<and> ad_backend dev = Wasapi \<and>
     ad_direction dev \<in> {Duplex, (if d = CaptureEndpoint then Input else Output)} \<and>
     (case sl_mode (policy_selection d p) of FollowDefault \<Rightarrow> ad_is_default dev
      | PinnedDeviceId \<Rightarrow> i = sl_device_id (policy_selection d p)))"

lemma selection_matches_iff:
  "selection_matches d p dev \<longleftrightarrow> ad_backend dev = Wasapi \<and>
     ad_direction dev \<in> {Duplex, (if d = CaptureEndpoint then Input else Output)} \<and>
     (case sl_mode (policy_selection d p) of FollowDefault \<Rightarrow> ad_is_default dev
      | PinnedDeviceId \<Rightarrow> ad_id dev = sl_device_id (policy_selection d p))"
  by (auto simp: selection_matches_def direction_matches_def split: selection_mode.split)

lemma resolve_endpoint_ok: "resolve_endpoint d devices p = Inr i \<Longrightarrow> resolution_ok devices p d i"
  unfolding resolution_ok_def
  by (erule resolve_endpoint_Inr) (auto simp: selection_matches_iff)

lemma resolve_pair_ok:
  "resolve_pair_discovered discovery p = (pair, []) \<longleftrightarrow>
     (\<exists>devices c r. discovery = Inr devices \<and> resolve_endpoint CaptureEndpoint devices p = Inr c \<and>
        resolve_endpoint RenderEndpoint devices p = Inr r \<and>
        pair = \<lparr>epr_capture_device_id = c, epr_render_device_id = r\<rparr>)"
  by (auto simp: resolve_pair_discovered_def resolve_pair_def resolution_errors_def resolved_device_id_def Let_def
      split: sum.splits)

section \<open>Properties\<close>

text \<open>
  A pair of endpoints is resolved exactly when both directions have a matching device, and then each
  id is that of a WASAPI device of its direction: the pinned one, or a default one.
\<close>

theorem endpoint_pair_resolution:
  "((\<exists>pair. resolve_pair_discovered (Inr devices) p = (pair, [])) \<longleftrightarrow>
      (\<forall>d. \<exists>dev \<in> set devices. selection_matches d p dev)) \<and>
   (\<forall>pair. resolve_pair_discovered (Inr devices) p = (pair, []) \<longrightarrow>
      resolution_ok devices p CaptureEndpoint (epr_capture_device_id pair) \<and>
      resolution_ok devices p RenderEndpoint (epr_render_device_id pair))"
proof -
  have both: "(\<forall>d. P d) \<longleftrightarrow> P CaptureEndpoint \<and> P RenderEndpoint" for P
    by (metis wasapi_direction.exhaust)
  show ?thesis
    unfolding resolve_pair_ok both resolve_endpoint_available [symmetric]
    by (auto dest: resolve_endpoint_ok)
qed

definition demo_wasapi_devices :: "audio_device list" where
  "demo_wasapi_devices =
     [default_audio_device\<lparr>ad_id := ''out'', ad_backend := Wasapi, ad_direction := Output, ad_is_default := True\<rparr>,
      default_audio_device\<lparr>ad_id := ''in1'', ad_backend := Wasapi, ad_direction := Input, ad_is_default := True\<rparr>,
      default_audio_device\<lparr>ad_id := ''in2'', ad_backend := Wasapi, ad_direction := Input\<rparr>]"

theorem endpoint_pair_resolution_witness:
  "resolution_ok demo_wasapi_devices (make_endpoint_policy \<lparr>sl_mode = PinnedDeviceId, sl_device_id = ''in2''\<rparr> follow_default)
     CaptureEndpoint ''in2''"
proof -
  have "resolve_pair_discovered (Inr demo_wasapi_devices)
      (make_endpoint_policy \<lparr>sl_mode = PinnedDeviceId, sl_device_id = ''in2''\<rparr> follow_default) =
      (\<lparr>epr_capture_device_id = ''in2'', epr_render_device_id = ''out''\<rparr>, [])"
    by code_simp
  with endpoint_pair_resolution [of demo_wasapi_devices
      "make_endpoint_policy \<lparr>sl_mode = PinnedDeviceId, sl_device_id = ''in2''\<rparr> follow_default"]
  show ?thesis by fastforce
qed

end
