(* ===== verification/DuplexSupervisor.thy ===== *)
theory DuplexSupervisor
  imports EndpointPolicy RecoveryPolicy
begin

text \<open>
  \<^verbatim>\<open>core/platform/windows_wasapi_duplex_supervisor.{h,cpp}\<close>: the object that owns the duplex runtime,
  opens it again when it fails, and follows changes of the default endpoints. It drives the recovery
  policy and the endpoint selection policy.

  The runtime and the factory that opens one are interfaces of the code: functions over a type
  \<open>'r\<close> of runtimes and a type \<open>'w\<close> of the world outside, which every call may read and change.
\<close>

section \<open>The runtime interface\<close>

record worker_error =
  we_code :: string
  we_message :: string
  we_native_hresult :: "u32 option"
  we_native_win32_code :: "u32 option"

text \<open>\<open>dr_maximum_silence\<close> is the field of \<^verbatim>\<open>stats()\<close> the supervisor reads.\<close>

record ('r, 'w) duplex_hooks =
  dr_open :: "'w \<Rightarrow> (worker_error list + 'r \<times> endpoint_pair) \<times> 'w"
  dr_start :: "u32 \<Rightarrow> 'r \<Rightarrow> 'w \<Rightarrow> worker_error list \<times> 'r \<times> 'w"
  dr_stop :: "'r \<Rightarrow> 'w \<Rightarrow> 'w"
  dr_running :: "'r \<Rightarrow> 'w \<Rightarrow> bool"
  dr_last_errors :: "'r \<Rightarrow> 'w \<Rightarrow> worker_error list"
  dr_maximum_silence :: "'r \<Rightarrow> 'w \<Rightarrow> u64"

text \<open>The factory of the product: resolve the endpoints, then open a loop on them.\<close>

definition convert_selection_errors :: "selection_error list \<Rightarrow> worker_error list" where
  "convert_selection_errors = map (\<lambda>e. \<lparr>we_code = se_code e, we_message = se_message e,
     we_native_hresult = None, we_native_win32_code = None\<rparr>)"

definition make_selected_duplex_factory ::
  "('w \<Rightarrow> device_list_result) \<Rightarrow> (string \<Rightarrow> string \<Rightarrow> 'w \<Rightarrow> (worker_error list + 'r \<times> endpoint_pair) \<times> 'w) \<Rightarrow>
   endpoint_policy \<Rightarrow> 'w \<Rightarrow> (worker_error list + 'r \<times> endpoint_pair) \<times> 'w" where
  "make_selected_duplex_factory discover open_loop p w =
     (case resolve_pair_discovered (discover w) p of (selected, errors) \<Rightarrow>
        if errors \<noteq> [] then (Inl (convert_selection_errors errors), w)
        else open_loop (epr_capture_device_id selected) (epr_render_device_id selected) w)"

section \<open>Failures\<close>

definition kAudioClientDeviceInvalidated :: u32 where
  "kAudioClientDeviceInvalidated = 0x88890004"

definition error_class :: "worker_error \<Rightarrow> failure_class" where
  "error_class e = (if we_native_hresult e = Some kAudioClientDeviceInvalidated then DeviceInvalidated
     else classify_failure_code (we_code e))"

fun combine_failures :: "failure_class \<Rightarrow> worker_error list \<Rightarrow> failure_class" where
  "combine_failures combined [] = combined"
| "combine_failures combined (e # es) =
     (let c = error_class e
      in if c = Fatal then Fatal
         else if c = UnknownFailure then combine_failures UnknownFailure es
         else if c = DeviceInvalidated \<and> combined \<noteq> UnknownFailure then combine_failures DeviceInvalidated es
         else combine_failures combined es)"

definition classify_wasapi_failures :: "worker_error list \<Rightarrow> failure_class" where
  "classify_wasapi_failures es = (if es = [] then UnknownFailure else combine_failures Transient es)"

section \<open>The supervisor\<close>

definition kEndpointNotificationSettleMs :: u64 where
  "kEndpointNotificationSettleMs = 300"

record ('r, 'w) supervisor =
  su_timeout :: u32
  su_selection :: endpoint_policy
  su_generations :: default_generations
  su_policy :: recovery_policy
  su_runtime :: "'r option"
  su_last_errors :: "worker_error list"
  su_open_count :: u64
  su_episode_count :: u64
  su_successful_count :: u64
  su_failed_count :: u64
  su_started_at :: u64
  su_last_duration :: u64
  su_maximum_duration :: u64
  su_maximum_silence :: u64
  su_reopen_count :: u64
  su_reset_failure_count :: u64
  su_reopen_at :: u64
  su_generations_initialized :: bool
  su_reopen_pending :: bool
  su_active :: endpoint_pair
  su_episode_active :: bool
  su_world :: 'w

definition make_supervisor :: "u32 \<Rightarrow> endpoint_policy \<Rightarrow> 'w \<Rightarrow> ('r, 'w) supervisor" where
  "make_supervisor timeout selection w =
     \<lparr>su_timeout = timeout, su_selection = selection, su_generations = \<lparr>gn_capture = 0, gn_render = 0\<rparr>,
      su_policy = initial_policy, su_runtime = None, su_last_errors = [], su_open_count = 0,
      su_episode_count = 0, su_successful_count = 0, su_failed_count = 0, su_started_at = 0,
      su_last_duration = 0, su_maximum_duration = 0, su_maximum_silence = 0, su_reopen_count = 0,
      su_reset_failure_count = 0, su_reopen_at = 0, su_generations_initialized = False,
      su_reopen_pending = False, su_active = no_endpoints, su_episode_active = False, su_world = w\<rparr>"

abbreviation su_state :: "('r, 'w) supervisor \<Rightarrow> policy_state" where
  "su_state s \<equiv> rp_state (su_policy s)"

definition cancel_reopen :: "('r, 'w) supervisor \<Rightarrow> ('r, 'w) supervisor" where
  "cancel_reopen s = s\<lparr>su_reopen_pending := False, su_reopen_at := 0\<rparr>"

definition retain_runtime_diagnostics :: "('r, 'w) duplex_hooks \<Rightarrow> ('r, 'w) supervisor \<Rightarrow> ('r, 'w) supervisor" where
  "retain_runtime_diagnostics h s =
     (case su_runtime s of
        None \<Rightarrow> s
      | Some r \<Rightarrow> s\<lparr>su_maximum_silence := max (su_maximum_silence s) (dr_maximum_silence h r (su_world s))\<rparr>)"

text \<open>\<^verbatim>\<open>runtime_->stop(); runtime_.reset();\<close> and, when asked, the endpoint ids are cleared.\<close>

definition drop_runtime :: "('r, 'w) duplex_hooks \<Rightarrow> ('r, 'w) supervisor \<Rightarrow> ('r, 'w) supervisor" where
  "drop_runtime h s =
     (case su_runtime s of
        None \<Rightarrow> s
      | Some r \<Rightarrow> s\<lparr>su_runtime := None, su_world := dr_stop h r (su_world s)\<rparr>)"

definition quiesce :: "('r, 'w) duplex_hooks \<Rightarrow> u64 \<Rightarrow> ('r, 'w) supervisor \<Rightarrow> ('r, 'w) supervisor" where
  "quiesce h now s =
     (let s1 = drop_runtime h (retain_runtime_diagnostics h (cancel_reopen s))
      in s1\<lparr>su_active := no_endpoints, su_policy := on_quiesced now (su_policy s1)\<rparr>)"

definition begin_episode :: "u64 \<Rightarrow> ('r, 'w) supervisor \<Rightarrow> ('r, 'w) supervisor" where
  "begin_episode now s =
     (if su_episode_active s then s
      else s\<lparr>su_episode_active := True, su_started_at := now, su_episode_count := su_episode_count s + 1\<rparr>)"

text \<open>The check that ends an episode once the policy has faulted.\<close>

definition end_failed_episode :: "('r, 'w) supervisor \<Rightarrow> ('r, 'w) supervisor" where
  "end_failed_episode s =
     (if su_state s = WFaulted \<and> su_episode_active s
      then s\<lparr>su_failed_count := su_failed_count s + 1, su_episode_active := False\<rparr> else s)"

definition handle_failure :: "worker_error list \<Rightarrow> u64 \<Rightarrow> ('r, 'w) supervisor \<Rightarrow> ('r, 'w) supervisor" where
  "handle_failure errors now s =
     (let c = classify_wasapi_failures errors;
          s1 = (cancel_reopen s)\<lparr>su_last_errors := errors\<rparr>;
          s2 = (if failure_is_recoverable c then begin_episode now s1 else s1)
      in end_failed_episode (s2\<lparr>su_policy := on_failure c now (su_policy s2)\<rparr>))"

definition opened :: "'r \<Rightarrow> endpoint_pair \<Rightarrow> u64 \<Rightarrow> ('r, 'w) supervisor \<Rightarrow> ('r, 'w) supervisor" where
  "opened r endpoints now s =
     (let s1 = s\<lparr>su_runtime := Some r, su_active := endpoints, su_last_errors := [],
            su_policy := on_open_succeeded now (su_policy s)\<rparr>;
          s2 = (if su_generations_initialized s1
                then s1\<lparr>su_selection := mark_opened (su_generations s1) (su_selection s1)\<rparr> else s1)
      in if su_episode_active s2 then
           let duration = (if su_started_at s2 \<le> now then now - su_started_at s2 else 0)
           in s2\<lparr>su_last_duration := duration, su_maximum_duration := max (su_maximum_duration s2) duration,
                su_successful_count := su_successful_count s2 + 1, su_episode_active := False\<rparr>
         else s2)"

definition attempt_open :: "('r, 'w) duplex_hooks \<Rightarrow> u64 \<Rightarrow> ('r, 'w) supervisor \<Rightarrow> ('r, 'w) supervisor" where
  "attempt_open h now s =
     (case dr_open h (su_world s) of (result, w) \<Rightarrow>
        let s1 = s\<lparr>su_open_count := su_open_count s + 1, su_world := w\<rparr>
        in case result of
             Inl errors \<Rightarrow> handle_failure errors now s1
           | Inr (r, endpoints) \<Rightarrow>
               (case dr_start h (su_timeout s1) r w of (errors, r', w') \<Rightarrow>
                  if errors \<noteq> [] then handle_failure errors now (s1\<lparr>su_world := dr_stop h r' w'\<rparr>)
                  else opened r' endpoints now (s1\<lparr>su_world := w'\<rparr>)))"

definition su_start :: "('r, 'w) duplex_hooks \<Rightarrow> u64 \<Rightarrow> ('r, 'w) supervisor \<Rightarrow> ('r, 'w) supervisor" where
  "su_start h now s =
     (let s1 = s\<lparr>su_policy := request_start now (su_policy s)\<rparr>
      in if su_state s1 = WOpening then attempt_open h now s1 else s1)"

definition request_reopen :: "('r, 'w) duplex_hooks \<Rightarrow> u64 \<Rightarrow> ('r, 'w) supervisor \<Rightarrow> ('r, 'w) supervisor" where
  "request_reopen h now s =
     (if su_state s \<noteq> WRunning then s
      else
        let s1 = (begin_episode now (cancel_reopen s))\<lparr>su_last_errors := []\<rparr>;
            s2 = s1\<lparr>su_policy := on_failure DeviceInvalidated now (su_policy s1)\<rparr>
        in if su_state s2 = WQuiescing then quiesce h now s2 else s2)"

text \<open>The three parts of \<^verbatim>\<open>tick\<close>: a settled notification, a runtime that stopped, the policy.\<close>

definition tick_notification :: "('r, 'w) duplex_hooks \<Rightarrow> u64 \<Rightarrow> ('r, 'w) supervisor \<Rightarrow> ('r, 'w) supervisor" where
  "tick_notification h now s =
     (if su_reopen_pending s \<and> su_state s = WRunning \<and> su_reopen_at s \<le> now
      then request_reopen h now ((cancel_reopen s)\<lparr>su_reopen_count := su_reopen_count s + 1\<rparr>)
      else s)"

definition runtime_alive :: "('r, 'w) duplex_hooks \<Rightarrow> ('r, 'w) supervisor \<Rightarrow> bool" where
  "runtime_alive h s = (case su_runtime s of None \<Rightarrow> False | Some r \<Rightarrow> dr_running h r (su_world s))"

definition tick_runtime :: "('r, 'w) duplex_hooks \<Rightarrow> u64 \<Rightarrow> ('r, 'w) supervisor \<Rightarrow> ('r, 'w) supervisor" where
  "tick_runtime h now s =
     (if su_state s = WRunning \<and> \<not> runtime_alive h s then
        let errors = (case su_runtime s of None \<Rightarrow> [] | Some r \<Rightarrow> dr_last_errors h r (su_world s));
            s1 = handle_failure errors now s
        in if su_state s1 = WQuiescing then quiesce h now s1
           else if su_runtime s1 \<noteq> None then (drop_runtime h s1)\<lparr>su_active := no_endpoints\<rparr>
           else s1
      else s)"

definition tick_policy :: "('r, 'w) duplex_hooks \<Rightarrow> u64 \<Rightarrow> ('r, 'w) supervisor \<Rightarrow> ('r, 'w) supervisor" where
  "tick_policy h now s =
     (let s1 = end_failed_episode (s\<lparr>su_policy := policy_tick now (su_policy s)\<rparr>)
      in if su_state s1 = WOpening then attempt_open h now s1 else s1)"

definition su_tick :: "('r, 'w) duplex_hooks \<Rightarrow> u64 \<Rightarrow> ('r, 'w) supervisor \<Rightarrow> ('r, 'w) supervisor" where
  "su_tick h now s = tick_policy h now (tick_runtime h now (tick_notification h now s))"

record notification_snapshot =
  ns_capture_generation :: u64
  ns_render_generation :: u64
  ns_event_reset_succeeded :: bool

definition settle_time :: "u64 \<Rightarrow> u64" where
  "settle_time now = (if now > - 1 - kEndpointNotificationSettleMs then - 1 else now + kEndpointNotificationSettleMs)"

definition poll_endpoint_notifications ::
  "notification_snapshot \<Rightarrow> u64 \<Rightarrow> ('r, 'w) supervisor \<Rightarrow> reopen_requirements \<times> ('r, 'w) supervisor" where
  "poll_endpoint_notifications n now s =
     (let s0 = (if ns_event_reset_succeeded n then s else s\<lparr>su_reset_failure_count := su_reset_failure_count s + 1\<rparr>);
          current = \<lparr>gn_capture = ns_capture_generation n, gn_render = ns_render_generation n\<rparr>;
          changed = (su_generations_initialized s0 \<and> current \<noteq> su_generations s0)
      in if \<not> su_generations_initialized s0 then
           (\<lparr>rq_capture = False, rq_render = False\<rparr>,
            s0\<lparr>su_generations := current, su_generations_initialized := True,
               su_selection := mark_opened current (su_selection s0)\<rparr>)
         else
           let s1 = s0\<lparr>su_generations := current\<rparr>;
               requirements = policy_reopen_requirements current (su_selection s1);
               required = (rq_capture requirements \<or> rq_render requirements)
           in (requirements,
               if required \<and> su_state s1 = WRunning \<and> changed
               then s1\<lparr>su_reopen_pending := True, su_reopen_at := settle_time now\<rparr>
               else if \<not> required
               then (cancel_reopen s1)\<lparr>su_selection := mark_opened current (su_selection s1)\<rparr>
               else s1))"

definition su_stop :: "('r, 'w) duplex_hooks \<Rightarrow> u64 \<Rightarrow> ('r, 'w) supervisor \<Rightarrow> ('r, 'w) supervisor" where
  "su_stop h now s =
     (let s1 = (cancel_reopen (s\<lparr>su_policy := request_stop (su_policy s)\<rparr>))\<lparr>su_episode_active := False\<rparr>
      in if su_state s1 = WQuiescing then quiesce h now s1
         else if su_runtime s1 \<noteq> None
         then (drop_runtime h (retain_runtime_diagnostics h s1))\<lparr>su_active := no_endpoints\<rparr>
         else s1)"

definition su_running :: "('r, 'w) duplex_hooks \<Rightarrow> ('r, 'w) supervisor \<Rightarrow> bool" where
  "su_running h s \<longleftrightarrow> su_state s = WRunning \<and> runtime_alive h s"

definition summary_maximum_silence :: "('r, 'w) duplex_hooks \<Rightarrow> ('r, 'w) supervisor \<Rightarrow> u64" where
  "summary_maximum_silence h s = max (su_maximum_silence s)
     (case su_runtime s of None \<Rightarrow> 0 | Some r \<Rightarrow> dr_maximum_silence h r (su_world s))"

record duplex_summary =
  ds_state :: policy_state
  ds_attempt_count :: nat
  ds_next_attempt_at_ms :: u64
  ds_recovery_deadline_at_ms :: u64
  ds_error_count :: nat
  ds_runtime_open_count :: u64
  ds_recovery_episode_count :: u64
  ds_successful_recovery_count :: u64
  ds_failed_recovery_count :: u64
  ds_last_recovery_duration_ms :: u64
  ds_maximum_recovery_duration_ms :: u64
  ds_maximum_silence_frames :: u64
  ds_capture_generation :: u64
  ds_render_generation :: u64
  ds_reopen_count :: u64
  ds_reset_failure_count :: u64
  ds_reopen_at_ms :: u64
  ds_generations_initialized :: bool
  ds_reopen_pending :: bool
  ds_active :: endpoint_pair
  ds_running :: bool

definition su_summary :: "('r, 'w) duplex_hooks \<Rightarrow> ('r, 'w) supervisor \<Rightarrow> duplex_summary" where
  "su_summary h s = \<lparr>ds_state = su_state s, ds_attempt_count = rp_attempt_count (su_policy s),
     ds_next_attempt_at_ms = rp_next_attempt (su_policy s), ds_recovery_deadline_at_ms = rp_recovery_deadline (su_policy s),
     ds_error_count = length (su_last_errors s), ds_runtime_open_count = su_open_count s,
     ds_recovery_episode_count = su_episode_count s, ds_successful_recovery_count = su_successful_count s,
     ds_failed_recovery_count = su_failed_count s, ds_last_recovery_duration_ms = su_last_duration s,
     ds_maximum_recovery_duration_ms = su_maximum_duration s, ds_maximum_silence_frames = summary_maximum_silence h s,
     ds_capture_generation = gn_capture (su_generations s), ds_render_generation = gn_render (su_generations s),
     ds_reopen_count = su_reopen_count s, ds_reset_failure_count = su_reset_failure_count s,
     ds_reopen_at_ms = su_reopen_at s, ds_generations_initialized = su_generations_initialized s,
     ds_reopen_pending = su_reopen_pending s, ds_active = su_active s, ds_running = su_running h s\<rparr>"

section \<open>Calls\<close>

datatype supervisor_call = CallStart u64 | CallTick u64 | CallPoll notification_snapshot u64 | CallReopen u64 | CallStop u64

fun su_call :: "('r, 'w) duplex_hooks \<Rightarrow> supervisor_call \<Rightarrow> ('r, 'w) supervisor \<Rightarrow> ('r, 'w) supervisor" where
  "su_call h (CallStart t) s = su_start h t s"
| "su_call h (CallTick t) s = su_tick h t s"
| "su_call h (CallPoll n t) s = snd (poll_endpoint_notifications n t s)"
| "su_call h (CallReopen t) s = request_reopen h t s"
| "su_call h (CallStop t) s = su_stop h t s"

end
