(* ===== verification/DuplexSupervisorCorrect.thy ===== *)
theory DuplexSupervisorCorrect
  imports DuplexSupervisor
begin

text \<open>
  What the supervisor guarantees after any sequence of calls, whatever the runtimes and the factory do.
\<close>

section \<open>The policy between calls\<close>

lemma failure_while_opening:
  "policy_inv p \<Longrightarrow> rp_state p = WOpening \<Longrightarrow> policy_inv (on_failure c now p) \<and>
     (rp_state (on_failure c now p) = WFaulted \<or> rp_state (on_failure c now p) = WBackoff \<and> failure_is_recoverable c)"
  using policy_step_inv [of p "Failure c now"]
  by (auto simp: policy_ops Let_def)

lemma failure_while_running:
  "policy_inv p \<Longrightarrow> rp_state p = WRunning \<Longrightarrow> policy_inv (on_failure c now p) \<and>
     (if failure_is_recoverable c
      then rp_state (on_failure c now p) = WQuiescing \<and> rp_recovery_pending (on_failure c now p) \<and>
        (c = DeviceInvalidated \<longrightarrow> rp_device_retry_active (on_failure c now p))
      else rp_state (on_failure c now p) = WFaulted)"
  using policy_step_inv [of p "Failure c now"]
  by (auto simp: policy_ops Let_def)

lemma quiesced_with_recovery:
  "policy_inv p \<Longrightarrow> rp_state p = WQuiescing \<Longrightarrow> rp_recovery_pending p \<Longrightarrow> policy_inv (on_quiesced now p) \<and>
     (rp_state (on_quiesced now p) = WBackoff \<or> rp_state (on_quiesced now p) = WFaulted \<and> \<not> rp_device_retry_active p)"
proof -
  assume p: "policy_inv p" "rp_state p = WQuiescing" "rp_recovery_pending p"
  then have "\<not> rp_stop_requested p" unfolding policy_inv_def by blast
  with p policy_step_inv [of p "Quiesced now"] show ?thesis
    by (simp add: on_quiesced_def schedule_recovery_def policy_fault_def)
qed

lemma tick_states:
  "policy_inv p \<Longrightarrow> policy_inv (policy_tick now p) \<and>
     (rp_state p \<in> {WRunning, WStopped, WFaulted} \<longrightarrow> rp_state (policy_tick now p) = rp_state p) \<and>
     (rp_state p = WBackoff \<longrightarrow> rp_state (policy_tick now p) \<in> {WBackoff, WOpening, WFaulted})"
  using policy_step_inv [of p "Tick now"]
  by (auto simp: policy_ops)

lemma stop_states:
  "policy_inv p \<Longrightarrow> rp_state p \<notin> {WOpening, WQuiescing} \<Longrightarrow> policy_inv (request_stop p) \<and>
     (rp_state p = WRunning \<and> rp_state (request_stop p) = WQuiescing \<and> rp_stop_requested (request_stop p) \<or>
      rp_state p \<noteq> WRunning \<and> rp_state (request_stop p) = WStopped)"
  using policy_step_inv [of p StopRequested]
  by (cases "rp_state p") (auto simp: policy_ops)

section \<open>The invariant\<close>

text \<open>
  Between calls no opening and no quiescing is left over; a runtime is owned, and its endpoints are known,
  exactly while the policy is running; an episode is under way exactly while the policy waits for
  its next attempt; a reopening is pending only while running.
\<close>

definition sup_core :: "('r, 'w) supervisor \<Rightarrow> bool" where
  "sup_core s \<longleftrightarrow> policy_inv (su_policy s) \<and> su_state s \<in> {WStopped, WRunning, WBackoff, WFaulted} \<and>
     (su_runtime s \<noteq> None \<longleftrightarrow> su_state s = WRunning) \<and> (su_state s \<noteq> WRunning \<longrightarrow> su_active s = no_endpoints) \<and>
     (su_reopen_pending s \<longrightarrow> su_state s = WRunning)"

definition sup_inv :: "('r, 'w) supervisor \<Rightarrow> bool" where
  "sup_inv s \<longleftrightarrow> sup_core s \<and> (su_episode_active s \<longleftrightarrow> su_state s = WBackoff)"

text \<open>Inside a tick an episode may already have faulted without being counted.\<close>

definition sup_ticking :: "('r, 'w) supervisor \<Rightarrow> bool" where
  "sup_ticking s \<longleftrightarrow> sup_core s \<and> (su_state s = WBackoff \<longrightarrow> su_episode_active s) \<and>
     (su_episode_active s \<longrightarrow> su_state s = WBackoff \<or> su_state s = WFaulted)"

text \<open>Before an attempt to open: nothing is owned.\<close>

definition sup_opening :: "('r, 'w) supervisor \<Rightarrow> bool" where
  "sup_opening s \<longleftrightarrow> policy_inv (su_policy s) \<and> su_state s = WOpening \<and> su_runtime s = None \<and>
     su_active s = no_endpoints \<and> \<not> su_reopen_pending s"

lemma sup_inv_ticking: "sup_inv s \<Longrightarrow> sup_ticking s"
  by (auto simp: sup_inv_def sup_ticking_def)

lemma make_supervisor_inv: "sup_inv (make_supervisor t p w)"
  by (simp add: sup_inv_def sup_core_def make_supervisor_def initial_policy_inv, simp add: initial_policy_def)

lemmas sup_defs = cancel_reopen_def begin_episode_def end_failed_episode_def retain_runtime_diagnostics_def
  drop_runtime_def

lemma handle_failure_opening: "sup_opening s \<Longrightarrow> sup_inv (handle_failure es now s)"
  using failure_while_opening [of "su_policy s" "classify_wasapi_failures es" now]
  by (auto simp: sup_opening_def sup_inv_def sup_core_def handle_failure_def sup_defs Let_def)

lemma opened_opening:
  assumes "sup_opening s"
  shows "sup_inv (opened r endpoints now s)"
proof -
  have "policy_inv (on_open_succeeded now (su_policy s))" "rp_state (on_open_succeeded now (su_policy s)) = WRunning"
    using assms policy_step_inv [of "su_policy s" "OpenSucceeded now"]
    by (auto simp: sup_opening_def on_open_succeeded_def)
  with assms show ?thesis
    by (auto simp: sup_opening_def sup_inv_def sup_core_def opened_def Let_def)
qed

lemma sup_opening_updates [simp]:
  "sup_opening (s\<lparr>su_open_count := n\<rparr>) = sup_opening s" "sup_opening (s\<lparr>su_world := w\<rparr>) = sup_opening s"
  by (simp_all add: sup_opening_def)

lemma attempt_open_inv: "sup_opening s \<Longrightarrow> sup_inv (attempt_open h now s)"
  by (auto simp: attempt_open_def Let_def handle_failure_opening opened_opening split: prod.split sum.split)

lemma quiesce_core:
  assumes "policy_inv (su_policy s)" "su_state s = WQuiescing" "rp_recovery_pending (su_policy s)" "su_episode_active s"
  shows "sup_ticking (quiesce h now s) \<and> (rp_device_retry_active (su_policy s) \<longrightarrow> su_state (quiesce h now s) = WBackoff) \<and>
    su_episode_active (quiesce h now s)"
  using quiesced_with_recovery [OF assms(1-3), of now] assms(4)
  by (auto simp: quiesce_def sup_ticking_def sup_core_def sup_defs Let_def split: option.split)

lemma request_reopen_inv:
  assumes "sup_inv s"
  shows "sup_inv (request_reopen h now s)"
proof (cases "su_state s = WRunning")
  case True
  let ?s1 = "(begin_episode now (cancel_reopen s))\<lparr>su_last_errors := []\<rparr>"
  let ?s2 = "?s1\<lparr>su_policy := on_failure DeviceInvalidated now (su_policy ?s1)\<rparr>"
  have p: "su_policy ?s1 = su_policy s" "su_episode_active ?s1" by (simp_all add: sup_defs)
  have f: "failure_is_recoverable DeviceInvalidated" by (simp add: failure_is_recoverable_def)
  from failure_while_running [of "su_policy s" DeviceInvalidated now] assms True f
  have q: "policy_inv (su_policy ?s2)" "su_state ?s2 = WQuiescing" "rp_recovery_pending (su_policy ?s2)"
    "su_episode_active ?s2" "rp_device_retry_active (su_policy ?s2)"
    by (simp_all add: sup_inv_def sup_core_def sup_defs)
  have "request_reopen h now s = quiesce h now ?s2"
    using True q(2) by (simp add: request_reopen_def Let_def)
  with quiesce_core [OF q(1-4), of h now] q(5) show ?thesis
    by (auto simp: sup_inv_def sup_ticking_def)
qed (use assms in \<open>simp add: request_reopen_def\<close>)

lemma tick_notification_inv:
  assumes "sup_inv s"
  shows "sup_inv (tick_notification h now s)"
proof -
  have "sup_inv ((cancel_reopen s)\<lparr>su_reopen_count := n\<rparr>)" for n
    using assms by (auto simp: sup_inv_def sup_core_def cancel_reopen_def)
  with assms show ?thesis by (auto simp: tick_notification_def intro: request_reopen_inv)
qed

lemma tick_runtime_ticking:
  assumes "sup_inv s"
  shows "sup_ticking (tick_runtime h now s)"
proof (cases "su_state s = WRunning \<and> \<not> runtime_alive h s")
  case True
  define es where "es = (case su_runtime s of None \<Rightarrow> [] | Some r \<Rightarrow> dr_last_errors h r (su_world s))"
  let ?c = "classify_wasapi_failures es"
  have run: "tick_runtime h now s = (let s1 = handle_failure es now s in
      if su_state s1 = WQuiescing then quiesce h now s1
      else if su_runtime s1 \<noteq> None then (drop_runtime h s1)\<lparr>su_active := no_endpoints\<rparr> else s1)"
    using True by (simp add: tick_runtime_def es_def Let_def)
  have p: "policy_inv (su_policy s)" "su_state s = WRunning" "\<not> su_episode_active s" "su_runtime s \<noteq> None"
    using assms True by (auto simp: sup_inv_def sup_core_def)
  note f = failure_while_running [OF p(1,2), of ?c now]
  show ?thesis
  proof (cases "failure_is_recoverable ?c")
    case True
    with f have "policy_inv (su_policy (handle_failure es now s))" "su_state (handle_failure es now s) = WQuiescing"
      "rp_recovery_pending (su_policy (handle_failure es now s))" "su_episode_active (handle_failure es now s)"
      by (auto simp: handle_failure_def sup_defs Let_def)
    with quiesce_core [OF this, of h now] run show ?thesis by (simp add: Let_def)
  next
    case False
    with f p show ?thesis
      unfolding run by (auto simp: handle_failure_def sup_ticking_def sup_core_def sup_defs Let_def split: option.split)
  qed
next
  case False
  then have "tick_runtime h now s = s" by (simp only: tick_runtime_def if_False)
  with assms show ?thesis by (simp add: sup_inv_ticking)
qed

lemma tick_policy_inv:
  assumes "sup_ticking s"
  shows "sup_inv (tick_policy h now s)"
proof -
  let ?s1 = "end_failed_episode (s\<lparr>su_policy := policy_tick now (su_policy s)\<rparr>)"
  have "policy_inv (su_policy s)" using assms by (simp add: sup_ticking_def sup_core_def)
  from tick_states [OF this, of now] assms
  have "if su_state ?s1 = WOpening then sup_opening ?s1 else sup_inv ?s1"
    by (cases "su_state s"; cases "rp_state (policy_tick now (su_policy s))")
      (simp_all add: sup_ticking_def sup_core_def sup_inv_def sup_opening_def end_failed_episode_def)
  then show ?thesis using attempt_open_inv by (auto simp: tick_policy_def Let_def split: if_splits)
qed

lemma su_start_inv:
  assumes "sup_inv s"
  shows "sup_inv (su_start h now s)"
proof (cases "su_state s = WStopped")
  case True
  with assms have "sup_opening (s\<lparr>su_policy := request_start now (su_policy s)\<rparr>)"
    using policy_step_inv [of "su_policy s" "StartRequested now"]
    by (auto simp: sup_inv_def sup_core_def sup_opening_def request_start_def)
  with attempt_open_inv [OF this] show ?thesis by (simp add: su_start_def Let_def sup_opening_def)
next
  case False
  then have "request_start now (su_policy s) = su_policy s" by (simp add: request_start_def)
  with assms False show ?thesis by (auto simp: su_start_def Let_def sup_inv_def sup_core_def)
qed

lemma poll_inv: "sup_inv s \<Longrightarrow> sup_inv (snd (poll_endpoint_notifications n now s))"
  by (auto simp: poll_endpoint_notifications_def Let_def cancel_reopen_def sup_inv_def sup_core_def)

lemma su_stop_stopped:
  assumes "sup_inv s"
  shows "sup_inv (su_stop h now s) \<and> su_state (su_stop h now s) = WStopped"
proof -
  have p: "policy_inv (su_policy s)" "su_state s \<notin> {WOpening, WQuiescing}"
    using assms by (auto simp: sup_inv_def sup_core_def)
  note stop = stop_states [OF p]
  show ?thesis
  proof (cases "su_state s = WRunning")
    case True
    with stop have q: "policy_inv (request_stop (su_policy s))" "rp_state (request_stop (su_policy s)) = WQuiescing"
      "rp_stop_requested (request_stop (su_policy s))" by auto
    then have "rp_state (on_quiesced now (request_stop (su_policy s))) = WStopped"
      "policy_inv (on_quiesced now (request_stop (su_policy s)))"
      using policy_step_inv [OF q(1), of "Quiesced now"] by (auto simp: on_quiesced_def clear_recovery_def)
    with q show ?thesis
      by (auto simp: su_stop_def quiesce_def sup_inv_def sup_core_def sup_defs Let_def split: option.split)
  next
    case False
    with stop assms show ?thesis
      by (auto simp: su_stop_def sup_inv_def sup_core_def sup_defs Let_def)
  qed
qed

lemma su_call_inv: "sup_inv s \<Longrightarrow> sup_inv (su_call h c s)"
  by (cases c) (simp_all add: su_start_inv poll_inv request_reopen_inv su_stop_stopped su_tick_def
      tick_policy_inv tick_runtime_ticking tick_notification_inv)

definition su_run :: "('r, 'w) duplex_hooks \<Rightarrow> supervisor_call list \<Rightarrow> ('r, 'w) supervisor \<Rightarrow> ('r, 'w) supervisor" where
  "su_run h cs s = fold (su_call h) cs s"

lemma su_run_inv: "sup_inv s \<Longrightarrow> sup_inv (su_run h cs s)"
  by (induction cs arbitrary: s) (simp_all add: su_run_def su_call_inv)

section \<open>Accounting of episodes\<close>

text \<open>What remains when the finished and the running episodes are subtracted: the abandoned ones.\<close>

definition abandoned :: "('r, 'w) supervisor \<Rightarrow> u64" where
  "abandoned s = su_episode_count s - su_successful_count s - su_failed_count s - (if su_episode_active s then 1 else 0)"

lemma abandoned_updates [simp]:
  "abandoned (s\<lparr>su_policy := p\<rparr>) = abandoned s" "abandoned (s\<lparr>su_world := w\<rparr>) = abandoned s"
  "abandoned (s\<lparr>su_active := a\<rparr>) = abandoned s" "abandoned (s\<lparr>su_last_errors := e\<rparr>) = abandoned s"
  "abandoned (s\<lparr>su_open_count := n\<rparr>) = abandoned s" "abandoned (s\<lparr>su_reopen_count := n\<rparr>) = abandoned s"
  "abandoned (s\<lparr>su_reset_failure_count := n\<rparr>) = abandoned s" "abandoned (s\<lparr>su_generations := g\<rparr>) = abandoned s"
  "abandoned (s\<lparr>su_selection := q\<rparr>) = abandoned s" "abandoned (cancel_reopen s) = abandoned s"
  "abandoned (begin_episode now s) = abandoned s" "abandoned (end_failed_episode s) = abandoned s"
  "abandoned (retain_runtime_diagnostics h s) = abandoned s" "abandoned (drop_runtime h s) = abandoned s"
  by (simp_all add: abandoned_def sup_defs split: option.split)

lemma abandoned_quiesce [simp]: "abandoned (quiesce h now s) = abandoned s"
  by (simp add: quiesce_def Let_def)

lemma abandoned_handle_failure [simp]: "abandoned (handle_failure es now s) = abandoned s"
  by (simp add: handle_failure_def Let_def)

lemma abandoned_opened [simp]: "abandoned (opened r e now s) = abandoned s"
  by (simp add: opened_def abandoned_def Let_def)

lemma abandoned_attempt_open [simp]: "abandoned (attempt_open h now s) = abandoned s"
  by (simp add: attempt_open_def Let_def split: prod.split sum.split)

lemma abandoned_request_reopen [simp]: "abandoned (request_reopen h now s) = abandoned s"
  by (simp add: request_reopen_def Let_def)

lemma abandoned_tick [simp]: "abandoned (su_tick h now s) = abandoned s"
  by (simp add: su_tick_def tick_policy_def tick_runtime_def tick_notification_def Let_def)

lemma abandoned_poll [simp]: "abandoned (snd (poll_endpoint_notifications n now s)) = abandoned s"
  by (simp add: poll_endpoint_notifications_def Let_def, simp add: abandoned_def)

lemma abandoned_stop: "abandoned (su_stop h now s) = abandoned s + (if su_episode_active s then 1 else 0)"
  by (simp add: su_stop_def Let_def, simp add: abandoned_def cancel_reopen_def)

lemma abandoned_start [simp]: "abandoned (su_start h now s) = abandoned s"
  by (simp add: su_start_def Let_def)

text \<open>The stops that came during an episode.\<close>

fun cut_short :: "('r, 'w) duplex_hooks \<Rightarrow> supervisor_call list \<Rightarrow> ('r, 'w) supervisor \<Rightarrow> nat" where
  "cut_short h [] s = 0"
| "cut_short h (c # cs) s =
     (if su_episode_active s \<and> (\<exists>t. c = CallStop t) then 1 else 0) + cut_short h cs (su_call h c s)"

lemma abandoned_run: "abandoned (su_run h cs s) = abandoned s + of_nat (cut_short h cs s)"
proof (induction cs arbitrary: s)
  case (Cons c cs)
  have "abandoned (su_call h c s) = abandoned s + (if su_episode_active s \<and> (\<exists>t. c = CallStop t) then 1 else 0)"
    by (cases c) (simp_all add: abandoned_stop)
  with Cons [of "su_call h c s"] show ?case by (simp add: su_run_def)
qed (simp add: su_run_def)

section \<open>Coming back\<close>

lemma tick_reopens:
  assumes "sup_inv s" "su_state s = WBackoff" "rp_next_attempt (su_policy s) \<le> now"
    and "rp_device_retry_active (su_policy s) \<or> now < rp_recovery_deadline (su_policy s)"
    and "dr_open h (su_world s) = (Inr (r, endpoints), w)" "dr_start h (su_timeout s) r w = ([], r', w')"
  shows "su_state (su_tick h now s) = WRunning \<and> su_runtime (su_tick h now s) = Some r' \<and>
    su_active (su_tick h now s) = endpoints \<and> su_last_errors (su_tick h now s) = [] \<and>
    \<not> su_episode_active (su_tick h now s) \<and>
    su_successful_count (su_tick h now s) = su_successful_count s + 1 \<and>
    su_last_duration (su_tick h now s) = (if su_started_at s \<le> now then now - su_started_at s else 0)"
proof -
  let ?s1 = "s\<lparr>su_policy := policy_tick now (su_policy s)\<rparr>"
  have p: "rp_state (policy_tick now (su_policy s)) = WOpening"
    using assms(2-4) by (auto simp: policy_tick_def)
  have "su_tick h now s = attempt_open h now ?s1"
    using assms(2) p by (simp add: su_tick_def tick_policy_def tick_runtime_def tick_notification_def
        end_failed_episode_def Let_def)
  also have "\<dots> = opened r' endpoints now (?s1\<lparr>su_open_count := su_open_count s + 1, su_world := w'\<rparr>)"
    using assms(5,6) by (simp add: attempt_open_def Let_def)
  finally have "su_tick h now s = opened r' endpoints now (?s1\<lparr>su_open_count := su_open_count s + 1, su_world := w'\<rparr>)" .
  moreover have "su_episode_active s" using assms(1,2) by (simp add: sup_inv_def)
  ultimately show ?thesis using p by (simp add: opened_def on_open_succeeded_def Let_def)
qed

section \<open>Diagnostics of the runtimes\<close>

lemma stop_retains:
  assumes "sup_inv s"
  shows "summary_maximum_silence h (su_stop h now s) = summary_maximum_silence h s"
proof (cases "su_runtime s")
  case None
  with assms stop_states [of "su_policy s"] show ?thesis
    by (auto simp: su_stop_def sup_inv_def sup_core_def sup_defs Let_def summary_maximum_silence_def)
next
  case (Some r)
  with assms stop_states [of "su_policy s"] show ?thesis
    by (auto simp: su_stop_def quiesce_def sup_inv_def sup_core_def sup_defs Let_def summary_maximum_silence_def)
qed

lemma fault_forgets:
  assumes "sup_inv s" "su_runtime s = Some r" "\<not> dr_running h r (su_world s)" "\<not> su_reopen_pending s"
    and "\<not> failure_is_recoverable (classify_wasapi_failures (dr_last_errors h r (su_world s)))"
  shows "su_state (su_tick h now s) = WFaulted \<and> su_runtime (su_tick h now s) = None \<and>
    summary_maximum_silence h (su_tick h now s) = su_maximum_silence s"
proof -
  let ?es = "dr_last_errors h r (su_world s)" and ?c = "classify_wasapi_failures (dr_last_errors h r (su_world s))"
  have p: "policy_inv (su_policy s)" "su_state s = WRunning" "\<not> su_episode_active s"
    using assms(1,2) by (auto simp: sup_inv_def sup_core_def)
  have f: "rp_state (on_failure ?c now (su_policy s)) = WFaulted"
    using failure_while_running [OF p(1,2), of ?c now] assms(5) by simp
  let ?s1 = "(cancel_reopen s)\<lparr>su_last_errors := ?es, su_policy := on_failure ?c now (su_policy s)\<rparr>"
  have h: "handle_failure ?es now s = ?s1"
    using assms(5) f p(3) by (simp add: handle_failure_def end_failed_episode_def cancel_reopen_def)
  have "tick_runtime h now s = (drop_runtime h ?s1)\<lparr>su_active := no_endpoints\<rparr>"
    using assms(2,3) p(2) f h by (simp add: tick_runtime_def runtime_alive_def Let_def cancel_reopen_def)
  moreover have "policy_tick now (on_failure ?c now (su_policy s)) = on_failure ?c now (su_policy s)"
    using f by (simp add: policy_tick_def)
  ultimately show ?thesis
    using assms(2,4) p(3) f
    by (simp add: su_tick_def tick_policy_def tick_notification_def end_failed_episode_def sup_defs Let_def
        summary_maximum_silence_def)
qed

section \<open>A small runtime\<close>

text \<open>The world says whether the device is there; a runtime is the silence it has counted.\<close>

definition demo_duplex :: "worker_error list \<Rightarrow> (u64, bool) duplex_hooks" where
  "demo_duplex es = \<lparr>dr_open = \<lambda>w. (if w then Inr (192, \<lparr>epr_capture_device_id = ''in'', epr_render_device_id = ''out''\<rparr>)
       else Inl es, w), dr_start = \<lambda>t r w. ([], r, w), dr_stop = \<lambda>r w. w, dr_running = \<lambda>r w. w,
     dr_last_errors = \<lambda>r w. es, dr_maximum_silence = \<lambda>r w. r\<rparr>"

definition lost_device :: "worker_error list" where
  "lost_device = [\<lparr>we_code = ''wasapi_device_lookup_failed'', we_message = [], we_native_hresult = None,
     we_native_win32_code = None\<rparr>]"

definition broken_graph :: "worker_error list" where
  "broken_graph = [\<lparr>we_code = ''graph_process_failed'', we_message = [], we_native_hresult = None,
     we_native_win32_code = None\<rparr>]"

definition demo_supervisor :: "bool \<Rightarrow> (u64, bool) supervisor" where
  "demo_supervisor w = make_supervisor 10 (make_endpoint_policy follow_default follow_default) w"

lemmas demo_duplex_defs = demo_duplex_def demo_supervisor_def make_supervisor_def su_run_def su_start_def
  su_tick_def tick_policy_def tick_runtime_def tick_notification_def attempt_open_def handle_failure_def
  opened_def quiesce_def sup_defs runtime_alive_def initial_policy_def policy_ops saturating_add_def
  classify_wasapi_failures_def error_class_def classify_failure_code_def device_failure_codes_def
  failure_is_recoverable_def kRecoveryDeadlineMs_def kMaxAttempts_def kAttemptDelaysMs_def kStabilityWindowMs_def

section \<open>Properties\<close>

text \<open>
  After any calls, with any runtimes and any factory, no opening and no quiescing is left over: the
  supervisor is stopped, running, waiting or faulted; it owns a runtime exactly while running, names
  endpoints only then, has an episode under way exactly while waiting, and a reopening pending only
  while running.
\<close>

theorem supervisor_between_calls:
  "let s = su_run h cs (make_supervisor timeout selection w) in
     su_state s \<in> {WStopped, WRunning, WBackoff, WFaulted} \<and> (su_runtime s \<noteq> None \<longleftrightarrow> su_state s = WRunning) \<and>
     (su_state s = WRunning \<or> su_active s = no_endpoints) \<and> (su_episode_active s \<longleftrightarrow> su_state s = WBackoff) \<and>
     \<not> (su_reopen_pending s \<and> su_state s \<noteq> WRunning) \<and> rp_attempt_count (su_policy s) \<le> kMaxAttempts"
  using su_run_inv [OF make_supervisor_inv [of timeout selection w], of h cs] policy_inv_facts(1)
  by (auto simp: sup_inv_def sup_core_def kMaxAttempts_def Let_def)

text \<open>
  Every recovery episode is accounted for: the episodes begun are those that succeeded, those that
  failed, the one under way and those a stop cut short, and no other call loses or repeats one.
\<close>

theorem recovery_episodes_accounted:
  "let s = su_run h cs (make_supervisor timeout selection w) in
     su_episode_count s = su_successful_count s + su_failed_count s + (if su_episode_active s then 1 else 0) +
       of_nat (cut_short h cs (make_supervisor timeout selection w))"
  using abandoned_run [of h cs "make_supervisor timeout selection w"]
  by (simp add: abandoned_def make_supervisor_def Let_def algebra_simps)

text \<open>
  A stop ends everything: after any calls it leaves the supervisor stopped without a runtime, an
  episode or a pending reopening, and the longest silence the runtimes have counted stays reported.
\<close>

theorem supervisor_stop_ends:
  "let s = su_run h cs (make_supervisor timeout selection w); s' = su_stop h now s in
     su_state s' = WStopped \<and> su_runtime s' = None \<and> su_active s' = no_endpoints \<and> \<not> su_episode_active s' \<and>
     \<not> su_reopen_pending s' \<and> su_open_count s' = su_open_count s \<and>
     summary_maximum_silence h s' = summary_maximum_silence h s"
proof -
  let ?s = "su_run h cs (make_supervisor timeout selection w)"
  have inv: "sup_inv ?s" by (rule su_run_inv [OF make_supervisor_inv])
  have "su_open_count (su_stop h now ?s) = su_open_count ?s"
    by (simp add: su_stop_def quiesce_def sup_defs Let_def split: option.split)
  with su_stop_stopped [OF inv, of h now] stop_retains [OF inv, of h now] show ?thesis
    by (auto simp: Let_def sup_inv_def sup_core_def)
qed

text \<open>
  C39: Recovery completes: a supervisor that waits, ticked once its next attempt is due (and, unless a
  device was invalidated, before the deadline), with a device that opens and starts, is running with
  that runtime and its endpoints; the episode has ended successfully and its duration is recorded.
\<close>

theorem supervisor_recovers:
  assumes "sup_inv s" "su_state s = WBackoff" "rp_next_attempt (su_policy s) \<le> now"
    and "rp_device_retry_active (su_policy s) \<or> now < rp_recovery_deadline (su_policy s)"
    and "dr_open h (su_world s) = (Inr (r, endpoints), w)" "dr_start h (su_timeout s) r w = ([], r', w')"
  shows "su_state (su_tick h now s) = WRunning \<and> su_runtime (su_tick h now s) = Some r' \<and>
    su_active (su_tick h now s) = endpoints \<and> su_last_errors (su_tick h now s) = [] \<and>
    \<not> su_episode_active (su_tick h now s) \<and>
    su_successful_count (su_tick h now s) = su_successful_count s + 1 \<and>
    su_last_duration (su_tick h now s) = (if su_started_at s \<le> now then now - su_started_at s else 0)"
  by (rule tick_reopens [OF assms])

theorem supervisor_recovers_witness:
  "let s = su_run (demo_duplex lost_device) [CallStart 100] (demo_supervisor False) in
     su_state s = WBackoff \<and>
     su_state (su_tick (demo_duplex lost_device) 700 (s\<lparr>su_world := True\<rparr>)) = WRunning \<and>
     su_last_duration (su_tick (demo_duplex lost_device) 700 (s\<lparr>su_world := True\<rparr>)) = 600"
proof -
  let ?h = "demo_duplex lost_device"
  define s where "s = (su_run ?h [CallStart 100] (demo_supervisor False))\<lparr>su_world := True\<rparr>"
  have inv: "sup_inv s"
    using su_run_inv [OF make_supervisor_inv, of ?h "[CallStart 100]" 10 "make_endpoint_policy follow_default follow_default" False]
    by (simp add: s_def demo_supervisor_def sup_inv_def sup_core_def)
  have state: "su_state s = WBackoff" "rp_next_attempt (su_policy s) \<le> 700" "su_started_at s = 100"
    "rp_device_retry_active (su_policy s) \<or> 700 < rp_recovery_deadline (su_policy s)" "su_world s"
    by (simp_all add: s_def demo_duplex_defs lost_device_def Let_def)
  from supervisor_recovers [OF inv state(1,2,4), of ?h 192 _ True 192 True] state(3,5)
  have "su_state (su_tick ?h 700 s) = WRunning" "su_last_duration (su_tick ?h 700 s) = 600"
    by (simp_all add: demo_duplex_def)
  with state(1) show ?thesis by (simp add: s_def Let_def)
qed

text \<open>
  A fault forgets: a tick that finds the running runtime stopped by an unrecoverable error drops it
  without retaining its diagnostics, and the reported longest silence falls back to that of the
  runtimes before it, whereas a stop keeps it.
\<close>

theorem fault_forgets_longest_silence:
  assumes "sup_inv s" "su_runtime s = Some r" "\<not> dr_running h r (su_world s)" "\<not> su_reopen_pending s"
    and "\<not> failure_is_recoverable (classify_wasapi_failures (dr_last_errors h r (su_world s)))"
  shows "su_state (su_tick h now s) = WFaulted \<and> su_runtime (su_tick h now s) = None \<and>
    summary_maximum_silence h (su_tick h now s) = su_maximum_silence s \<and>
    summary_maximum_silence h (su_stop h now s) = max (su_maximum_silence s) (dr_maximum_silence h r (su_world s))"
proof -
  have "summary_maximum_silence h s = max (su_maximum_silence s) (dr_maximum_silence h r (su_world s))"
    using assms(2) by (simp add: summary_maximum_silence_def)
  with fault_forgets [OF assms, of now] stop_retains [OF assms(1), of h now] show ?thesis by simp
qed

theorem fault_forgets_longest_silence_witness:
  "let s = (su_run (demo_duplex broken_graph) [CallStart 100] (demo_supervisor True))\<lparr>su_world := False\<rparr> in
     summary_maximum_silence (demo_duplex broken_graph) s = 192 \<and>
     summary_maximum_silence (demo_duplex broken_graph) (su_tick (demo_duplex broken_graph) 200 s) = 0"
proof -
  let ?h = "demo_duplex broken_graph"
  define s where "s = (su_run ?h [CallStart 100] (demo_supervisor True))\<lparr>su_world := False\<rparr>"
  have inv: "sup_inv s"
    using su_run_inv [OF make_supervisor_inv, of ?h "[CallStart 100]" 10 "make_endpoint_policy follow_default follow_default" True]
    by (simp add: s_def demo_supervisor_def sup_inv_def sup_core_def)
  have state: "su_runtime s = Some 192" "\<not> su_reopen_pending s" "\<not> su_world s" "su_maximum_silence s = 0"
    by (simp_all add: s_def demo_duplex_defs broken_graph_def Let_def)
  have bad: "\<not> failure_is_recoverable (classify_wasapi_failures broken_graph)"
    by (simp add: broken_graph_def classify_wasapi_failures_def error_class_def classify_failure_code_def
        device_failure_codes_def failure_is_recoverable_def)
  from fault_forgets_longest_silence [OF inv state(1) _ state(2), of ?h 200] bad state(3,4)
  have "summary_maximum_silence ?h (su_tick ?h 200 s) = 0" by (simp add: demo_duplex_def)
  with state(1,4) show ?thesis by (simp add: s_def Let_def summary_maximum_silence_def demo_duplex_def)
qed

end
