(* ===== verification/FloatBits.thy ===== *)
theory FloatBits
  imports Prelude
begin

text \<open>
  Comparison of \<^verbatim>\<open>float\<close> and \<^verbatim>\<open>double\<close> values held as bit patterns: IEEE 754 \<^verbatim>\<open><\<close>, which is false
  when an operand is a NaN, treats the two zeros as equal, and orders the rest by sign and magnitude.
\<close>

definition f64_nan :: "f64 \<Rightarrow> bool" where
  "f64_nan x \<longleftrightarrow> drop_bit 52 x AND 2047 = 2047 \<and> x AND 0x000FFFFFFFFFFFFF \<noteq> 0"

definition f64_negative :: "f64 \<Rightarrow> bool" where
  "f64_negative x \<longleftrightarrow> 0x8000000000000000 \<le> x"

definition f64_is_zero :: "f64 \<Rightarrow> bool" where
  "f64_is_zero x \<longleftrightarrow> x = 0 \<or> x = 0x8000000000000000"

definition f64_less :: "f64 \<Rightarrow> f64 \<Rightarrow> bool" where
  "f64_less x y \<longleftrightarrow> \<not> f64_nan x \<and> \<not> f64_nan y \<and> \<not> (f64_is_zero x \<and> f64_is_zero y) \<and>
     (if f64_negative x then \<not> f64_negative y \<or> y < x else \<not> f64_negative y \<and> x < y)"

text \<open>\<^verbatim>\<open>std::max (a, b)\<close> is \<^verbatim>\<open>a < b ? b : a\<close>.\<close>

definition f64_max :: "f64 \<Rightarrow> f64 \<Rightarrow> f64" where
  "f64_max x y = (if f64_less x y then y else x)"

lemma f64_less_irrefl [simp]: "\<not> f64_less x x"
  by (auto simp: f64_less_def)

lemma f64_less_trans: "f64_less x y \<Longrightarrow> f64_less y z \<Longrightarrow> f64_less x z"
  by (auto simp: f64_less_def f64_negative_def f64_is_zero_def split: if_splits)

lemma f64_less_examples:
  "f64_less 0 0x3FF0000000000000" "f64_less 0xBFF0000000000000 0" "f64_less 0xC000000000000000 0xBFF0000000000000"
  "\<not> f64_less 0x8000000000000000 0" "\<not> f64_less 0x7FF8000000000000 0"
  by (simp_all add: f64_less_def f64_nan_def f64_negative_def f64_is_zero_def)

end
