(* ===== verification/MultiEndpoint.thy ===== *)
theory MultiEndpoint
  imports EngineServiceCorrect FloatBits
begin

text \<open>
  \<^verbatim>\<open>core/service/multi_endpoint_audio_runtime.{h,cpp}\<close>: one audio runtime made of a master that drives
  the graph and followers that feed it, itself an implementation of the runtime interface of the
  engine service. The members are runtimes of that interface: the model takes their functions
  (\<open>engine_hooks\<close>) and gives those of the whole.
\<close>

section \<open>Members\<close>

type_synonym 'r runtime_member = "string \<times> 'r"

record 'r multi_runtime =
  mu_master :: "'r runtime_member"
  mu_followers :: "'r runtime_member list"
  mu_running :: bool

text \<open>
  The constructor throws \<^verbatim>\<open>std::invalid_argument\<close> for an empty or repeated id and for a member that
  owns no runtime; a member whose runtime is missing is \<open>None\<close> here.
\<close>

definition validate_member :: "string \<times> 'r option \<Rightarrow> string set \<Rightarrow> (string \<times> string set) option" where
  "validate_member m ids =
     (if fst m = [] then None else if snd m = None then None else if fst m \<in> ids then None
      else Some (fst m, insert (fst m) ids))"

fun validate_members :: "(string \<times> 'r option) list \<Rightarrow> string set \<Rightarrow> bool" where
  "validate_members [] ids \<longleftrightarrow> True"
| "validate_members (m # ms) ids \<longleftrightarrow>
     (case validate_member m ids of None \<Rightarrow> False | Some (_, ids') \<Rightarrow> validate_members ms ids')"

definition make_multi_runtime ::
  "string \<times> 'r option \<Rightarrow> (string \<times> 'r option) list \<Rightarrow> 'r multi_runtime option" where
  "make_multi_runtime master followers =
     (if validate_members (master # followers) {}
      then Some \<lparr>mu_master = map_prod id the master, mu_followers = map (map_prod id the) followers, mu_running = False\<rparr>
      else None)"

section \<open>Starting and stopping\<close>

definition multi_already_running :: runtime_error where
  "multi_already_running = runtime_error_of (mk_error ''multi_endpoint_runtime_already_running''
     ''Multi-endpoint audio runtime is already running.'')"

definition prefix_errors :: "string \<Rightarrow> runtime_error list \<Rightarrow> runtime_error list" where
  "prefix_errors i = map (\<lambda>e. e\<lparr>ee_message := ''Endpoint '' @ [CHR 0x27] @ i @ [CHR 0x27] @ '': '' @ ee_message e\<rparr>)"

text \<open>Stop the members from the last to the first.\<close>

fun stop_reverse ::
  "('r, 'w) engine_hooks \<Rightarrow> 'r runtime_member list \<Rightarrow> 'w \<Rightarrow> 'r runtime_member list \<times> 'w" where
  "stop_reverse h [] w = ([], w)"
| "stop_reverse h ((i, r) # ms) w =
     (case stop_reverse h ms w of (ms', w1) \<Rightarrow> (case hk_stop h r w1 of (r', w2) \<Rightarrow> ((i, r') # ms', w2)))"

text \<open>
  Start the followers in order. At the first one that fails, it is stopped and then the earlier ones in
  reverse; an exception leaves at once.
\<close>

fun start_followers ::
  "('r, 'w) engine_hooks \<Rightarrow> u32 \<Rightarrow> 'r runtime_member list \<Rightarrow> 'r runtime_member list \<Rightarrow> 'w \<Rightarrow>
   start_outcome \<times> 'r runtime_member list \<times> 'w" where
  "start_followers h t started [] w = (StartReturned [], started, w)"
| "start_followers h t started ((i, r) # rest) w =
     (case hk_start h t r w of (outcome, r', w1) \<Rightarrow>
        (case outcome of
           StartThrew x \<Rightarrow> (StartThrew x, started @ (i, r') # rest, w1)
         | StartReturned es \<Rightarrow>
             if es \<noteq> [] then
               (case hk_stop h r' w1 of (r'', w2) \<Rightarrow>
                 (case stop_reverse h started w2 of (started', w3) \<Rightarrow>
                   (StartReturned (prefix_errors i es), started' @ (i, r'') # rest, w3)))
             else start_followers h t (started @ [(i, r')]) rest w1))"

definition multi_start ::
  "('r, 'w) engine_hooks \<Rightarrow> u32 \<Rightarrow> 'r multi_runtime \<Rightarrow> 'w \<Rightarrow> start_outcome \<times> 'r multi_runtime \<times> 'w" where
  "multi_start h t m w =
     (if mu_running m then (StartReturned [multi_already_running], m, w)
      else case start_followers h t [] (mu_followers m) w of (followers_outcome, fs, w1) \<Rightarrow>
        if followers_outcome \<noteq> StartReturned [] then (followers_outcome, m\<lparr>mu_followers := fs\<rparr>, w1)
        else case mu_master m of (i, r) \<Rightarrow>
          (case hk_start h t r w1 of (outcome, r', w2) \<Rightarrow>
            (case outcome of
               StartThrew x \<Rightarrow> (StartThrew x, m\<lparr>mu_followers := fs, mu_master := (i, r')\<rparr>, w2)
             | StartReturned es \<Rightarrow>
                 if es \<noteq> [] then
                   (case hk_stop h r' w2 of (r'', w3) \<Rightarrow>
                     (case stop_reverse h fs w3 of (fs', w4) \<Rightarrow>
                       (StartReturned (prefix_errors i es), m\<lparr>mu_followers := fs', mu_master := (i, r'')\<rparr>, w4)))
                 else (StartReturned [], m\<lparr>mu_followers := fs, mu_master := (i, r'), mu_running := True\<rparr>, w2))))"

definition multi_stop :: "('r, 'w) engine_hooks \<Rightarrow> 'r multi_runtime \<Rightarrow> 'w \<Rightarrow> 'r multi_runtime \<times> 'w" where
  "multi_stop h m w =
     (if \<not> mu_running m then (m, w)
      else case mu_master m of (i, r) \<Rightarrow>
        (case hk_stop h r w of (r', w1) \<Rightarrow>
          (case stop_reverse h (mu_followers m) w1 of (fs, w2) \<Rightarrow>
            (m\<lparr>mu_master := (i, r'), mu_followers := fs, mu_running := False\<rparr>, w2))))"

definition multi_running :: "('r, 'w) engine_hooks \<Rightarrow> 'r multi_runtime \<Rightarrow> 'w \<Rightarrow> bool" where
  "multi_running h m w \<longleftrightarrow> mu_running m \<and> hk_running h (snd (mu_master m)) w \<and>
     (\<forall>f \<in> set (mu_followers m). hk_running h (snd f) w)"

definition multi_graph_version :: "('r, 'w) engine_hooks \<Rightarrow> 'r multi_runtime \<Rightarrow> 'w \<Rightarrow> u64" where
  "multi_graph_version h m w = hk_graph_version h (snd (mu_master m)) w"

definition multi_apply_parameters ::
  "('r, 'w) engine_hooks \<Rightarrow> graph \<Rightarrow> 'r multi_runtime \<Rightarrow> 'w \<Rightarrow> bool \<times> 'r multi_runtime \<times> 'w" where
  "multi_apply_parameters h g m w =
     (case hk_apply_parameters h g (snd (mu_master m)) w of (applied, r, w') \<Rightarrow>
        (applied, m\<lparr>mu_master := (fst (mu_master m), r)\<rparr>, w'))"

section \<open>Diagnostics\<close>

definition add_follower_diagnostics :: "engine_diagnostics \<Rightarrow> engine_diagnostics \<Rightarrow> engine_diagnostics" where
  "add_follower_diagnostics a f = a\<lparr>
     ed_xrun_count := ed_xrun_count a + ed_xrun_count f,
     ed_capture_fifo_fill_frames := ed_capture_fifo_fill_frames a + ed_capture_fifo_fill_frames f,
     ed_render_fifo_fill_frames := ed_render_fifo_fill_frames a + ed_render_fifo_fill_frames f,
     ed_capture_fifo_overflow_cycles := ed_capture_fifo_overflow_cycles a + ed_capture_fifo_overflow_cycles f,
     ed_capture_fifo_overflow_frames := ed_capture_fifo_overflow_frames a + ed_capture_fifo_overflow_frames f,
     ed_render_fifo_overflow_cycles := ed_render_fifo_overflow_cycles a + ed_render_fifo_overflow_cycles f,
     ed_render_fifo_overflow_frames := ed_render_fifo_overflow_frames a + ed_render_fifo_overflow_frames f,
     ed_render_fifo_underflow_cycles := ed_render_fifo_underflow_cycles a + ed_render_fifo_underflow_cycles f,
     ed_render_fifo_underflow_frames := ed_render_fifo_underflow_frames a + ed_render_fifo_underflow_frames f,
     ed_import_failures := ed_import_failures a + ed_import_failures f,
     ed_export_failures := ed_export_failures a + ed_export_failures f,
     ed_va_pushed_blocks := ed_va_pushed_blocks a + ed_va_pushed_blocks f,
     ed_va_dropped_blocks := ed_va_dropped_blocks a + ed_va_dropped_blocks f,
     ed_va_producer_underflows := ed_va_producer_underflows a + ed_va_producer_underflows f,
     ed_va_producer_overflows := ed_va_producer_overflows a + ed_va_producer_overflows f,
     ed_va_consumed_blocks := ed_va_consumed_blocks a + ed_va_consumed_blocks f,
     ed_va_mixed_blocks := ed_va_mixed_blocks a + ed_va_mixed_blocks f,
     ed_va_silent_reads := ed_va_silent_reads a + ed_va_silent_reads f,
     ed_va_clipped_samples := ed_va_clipped_samples a + ed_va_clipped_samples f,
     ed_va_non_finite_samples := ed_va_non_finite_samples a + ed_va_non_finite_samples f,
     ed_va_maximum_queue_depth := max (ed_va_maximum_queue_depth a) (ed_va_maximum_queue_depth f),
     ed_va_active_producers := ed_va_active_producers a + ed_va_active_producers f,
     ed_va_peak := f64_max (ed_va_peak a) (ed_va_peak f),
     ed_last_callback_seconds := f64_max (ed_last_callback_seconds a) (ed_last_callback_seconds f),
     ed_peak_callback_seconds := f64_max (ed_peak_callback_seconds a) (ed_peak_callback_seconds f)\<rparr>"

definition multi_diagnostics :: "('r, 'w) engine_hooks \<Rightarrow> 'r multi_runtime \<Rightarrow> 'w \<Rightarrow> engine_diagnostics" where
  "multi_diagnostics h m w =
     (foldl (\<lambda>a f. add_follower_diagnostics a (hk_diagnostics h (snd f) w))
        (hk_diagnostics h (snd (mu_master m)) w) (mu_followers m))\<lparr>ed_graph_version := multi_graph_version h m w\<rparr>"

fun health_rank :: "engine_runtime_health \<Rightarrow> nat" where
  "health_rank EngineHealthStopped = 0"
| "health_rank EngineHealthy = 1"
| "health_rank EngineDegraded = 2"
| "health_rank EngineHealthFaulted = 3"

fun state_rank :: "engine_recovery_state \<Rightarrow> nat" where
  "state_rank EngineStopped = 0"
| "state_rank EngineRunning = 1"
| "state_rank EngineOpening = 2"
| "state_rank EngineQuiescing = 3"
| "state_rank EngineBackoff = 4"
| "state_rank EngineFaulted = 5"

definition default_engine_recovery :: engine_recovery where
  "default_engine_recovery = \<lparr>er_state = EngineStopped, er_runtime_health = EngineHealthStopped,
     er_runtime_reason_code = [], er_recovery_episode_count = 0, er_successful_recovery_count = 0,
     er_failed_recovery_count = 0, er_last_recovery_duration_ms = 0, er_maximum_recovery_duration_ms = 0,
     er_reopen_count = 0, er_reset_failure_count = 0, er_reopen_pending = False, er_wait_timeout_cycles = 0,
     er_capture_discontinuity_cycles = 0, er_render_fifo_underflow_frames = 0, er_maximum_silence_frames = 0,
     er_maximum_clamped_frames = 0\<rparr>"

definition merge_recovery :: "engine_recovery \<Rightarrow> string \<Rightarrow> engine_recovery \<Rightarrow> engine_recovery" where
  "merge_recovery a i m =
     (let a1 = (if health_rank (er_runtime_health a) < health_rank (er_runtime_health m)
            then a\<lparr>er_runtime_health := er_runtime_health m,
              er_runtime_reason_code := (if er_runtime_reason_code m = [] then i else i @ '':'' @ er_runtime_reason_code m)\<rparr>
            else a);
          a2 = (if state_rank (er_state a1) < state_rank (er_state m) then a1\<lparr>er_state := er_state m\<rparr> else a1)
      in a2\<lparr>er_recovery_episode_count := er_recovery_episode_count a + er_recovery_episode_count m,
           er_successful_recovery_count := er_successful_recovery_count a + er_successful_recovery_count m,
           er_failed_recovery_count := er_failed_recovery_count a + er_failed_recovery_count m,
           er_last_recovery_duration_ms := max (er_last_recovery_duration_ms a) (er_last_recovery_duration_ms m),
           er_maximum_recovery_duration_ms := max (er_maximum_recovery_duration_ms a) (er_maximum_recovery_duration_ms m),
           er_reopen_count := er_reopen_count a + er_reopen_count m,
           er_reset_failure_count := er_reset_failure_count a + er_reset_failure_count m,
           er_reopen_pending := (er_reopen_pending a \<or> er_reopen_pending m),
           er_wait_timeout_cycles := er_wait_timeout_cycles a + er_wait_timeout_cycles m,
           er_capture_discontinuity_cycles := er_capture_discontinuity_cycles a + er_capture_discontinuity_cycles m,
           er_render_fifo_underflow_frames := er_render_fifo_underflow_frames a + er_render_fifo_underflow_frames m,
           er_maximum_silence_frames := max (er_maximum_silence_frames a) (er_maximum_silence_frames m),
           er_maximum_clamped_frames := max (er_maximum_clamped_frames a) (er_maximum_clamped_frames m)\<rparr>)"

text \<open>The members' recoveries merged in order; the outer \<open>None\<close> is an exception.\<close>

fun merge_members ::
  "('r, 'w) engine_hooks \<Rightarrow> 'w \<Rightarrow> 'r runtime_member list \<Rightarrow> engine_recovery option \<Rightarrow> engine_recovery option option" where
  "merge_members h w [] aggregate = Some aggregate"
| "merge_members h w ((i, r) # ms) aggregate =
     (case hk_recovery_diagnostics h r w of
        None \<Rightarrow> None
      | Some None \<Rightarrow> merge_members h w ms aggregate
      | Some (Some member) \<Rightarrow> merge_members h w ms (Some (merge_recovery
          (case aggregate of None \<Rightarrow> default_engine_recovery | Some a \<Rightarrow> a) i member)))"

definition multi_members :: "'r multi_runtime \<Rightarrow> 'r runtime_member list" where
  "multi_members m = mu_master m # mu_followers m"

definition multi_recovery_diagnostics ::
  "('r, 'w) engine_hooks \<Rightarrow> 'r multi_runtime \<Rightarrow> 'w \<Rightarrow> engine_recovery option option" where
  "multi_recovery_diagnostics h m w = merge_members h w (multi_members m) None"

definition member_snapshot ::
  "('r, 'w) engine_hooks \<Rightarrow> 'w \<Rightarrow> engine_endpoint_role \<Rightarrow> 'r runtime_member \<Rightarrow> engine_endpoint option" where
  "member_snapshot h w role m =
     (case hk_recovery_diagnostics h (snd m) w of
        None \<Rightarrow> None
      | Some recovery \<Rightarrow> Some \<lparr>ei_endpoint_id = fst m, ei_role = role, ei_diagnostics = hk_diagnostics h (snd m) w,
          ei_recovery = recovery, ei_queue_fill_frames = None, ei_correction_ppm = None\<rparr>)"

definition multi_endpoint_diagnostics ::
  "('r, 'w) engine_hooks \<Rightarrow> 'r multi_runtime \<Rightarrow> 'w \<Rightarrow> engine_endpoint list option" where
  "multi_endpoint_diagnostics h m w =
     those (member_snapshot h w EngineMaster (mu_master m) # map (member_snapshot h w EngineFollower) (mu_followers m))"

definition multi_endpoint_count :: "'r multi_runtime \<Rightarrow> nat" where
  "multi_endpoint_count m = length (mu_followers m) + 1"

text \<open>The whole as a runtime of the interface.\<close>

definition multi_hooks :: "('r, 'w) engine_hooks \<Rightarrow> ('r multi_runtime, 'w) engine_hooks" where
  "multi_hooks h = \<lparr>hk_start = multi_start h, hk_stop = multi_stop h, hk_running = multi_running h,
     hk_graph_version = multi_graph_version h, hk_apply_parameters = multi_apply_parameters h,
     hk_diagnostics = multi_diagnostics h, hk_recovery_diagnostics = multi_recovery_diagnostics h,
     hk_endpoint_diagnostics = multi_endpoint_diagnostics h\<rparr>"

end
