(* ===== verification/MultiEndpointCorrect.thy ===== *)
theory MultiEndpointCorrect
  imports MultiEndpoint
begin

text \<open>
  Properties of the multi-endpoint runtime: it keeps the contract the engine service needs of a runtime,
  a start is all or nothing as long as no member throws, and its diagnostics aggregate its members'.
\<close>

section \<open>Starting the followers\<close>

definition members_running :: "('r, 'w) engine_hooks \<Rightarrow> 'w \<Rightarrow> 'r runtime_member list \<Rightarrow> bool" where
  "members_running h w ms \<longleftrightarrow> (\<forall>m \<in> set ms. hk_running h (snd m) w)"

definition members_stopped :: "('r, 'w) engine_hooks \<Rightarrow> 'w \<Rightarrow> 'r runtime_member list \<Rightarrow> bool" where
  "members_stopped h w ms \<longleftrightarrow> (\<forall>m \<in> set ms. \<not> hk_running h (snd m) w)"

definition stop_contract :: "('r, 'w) engine_hooks \<Rightarrow> bool" where
  "stop_contract h \<longleftrightarrow> (\<forall>r w w'. \<not> hk_running h (fst (hk_stop h r w)) w')"

lemma members_running_simps [simp]:
  "members_running h w []" "members_running h w (m # ms) \<longleftrightarrow> hk_running h (snd m) w \<and> members_running h w ms"
  "members_running h w (ms @ ns) \<longleftrightarrow> members_running h w ms \<and> members_running h w ns"
  by (auto simp: members_running_def)

lemma members_stopped_simps [simp]:
  "members_stopped h w []" "members_stopped h w (m # ms) \<longleftrightarrow> \<not> hk_running h (snd m) w \<and> members_stopped h w ms"
  "members_stopped h w (ms @ ns) \<longleftrightarrow> members_stopped h w ms \<and> members_stopped h w ns"
  by (auto simp: members_stopped_def)

lemma contract_world:
  assumes "runtime_contract h"
  shows "hk_running h r w = hk_running h r w'"
  using assms unfolding runtime_contract_def by blast

lemma members_world:
  assumes "runtime_contract h"
  shows "members_running h w ms = members_running h w' ms" "members_stopped h w ms = members_stopped h w' ms"
  using contract_world [OF assms, of _ w w'] by (auto simp: members_running_def members_stopped_def)

lemma contract_start:
  "runtime_contract h \<Longrightarrow> hk_start h t r w = (StartReturned [], r', w') \<Longrightarrow> hk_running h r' w''"
  unfolding runtime_contract_def by metis

lemma start_followers_running:
  assumes "runtime_contract h" "members_running h w started"
    and "start_followers h t started ms w = (StartReturned [], fs, w')"
  shows "members_running h w' fs"
  using assms(2,3)
proof (induction ms arbitrary: started w)
  case Nil
  then show ?case by simp
next
  case (Cons m rest)
  obtain i r where m: "m = (i, r)" by force
  obtain outcome r' w1 where st: "hk_start h t r w = (outcome, r', w1)" by (cases "hk_start h t r w") auto
  from Cons(3) st m have o: "outcome = StartReturned []"
    by (auto simp: prefix_errors_def split: start_outcome.splits if_splits prod.splits)
  show ?case
  proof (rule Cons(1))
    show "members_running h w1 (started @ [(i, r')])"
    proof -
      have "members_running h w1 started" using Cons(2) members_world(1) [OF assms(1)] by blast
      moreover have "hk_running h r' w1" using contract_start [OF assms(1)] st o by blast
      ultimately show ?thesis by simp
    qed
    show "start_followers h t (started @ [(i, r')]) rest w1 = (StartReturned [], fs, w')"
      using Cons(3) st o m by simp
  qed
qed

lemma stop_reverse_stopped:
  assumes "stop_contract h"
  shows "members_stopped h w' (fst (stop_reverse h ms w))"
proof (induction ms)
  case (Cons m ms)
  then show ?case using assms
    by (cases m) (auto simp: stop_contract_def fst_def split: prod.splits)
qed simp

lemma stop_reverse_ids [simp]: "map fst (fst (stop_reverse h ms w)) = map fst ms"
proof (induction ms)
  case (Cons m ms)
  then show ?case by (cases m) (simp add: case_prod_beta)
qed simp

text \<open>A follower that fails leaves every follower stopped, the later ones untouched.\<close>

lemma start_followers_failed:
  assumes "runtime_contract h" "stop_contract h" "members_stopped h w ms"
    and "start_followers h t started ms w = (StartReturned es, fs, w')" "es \<noteq> []"
  shows "members_stopped h w'' fs"
  using assms(3,4)
proof (induction ms arbitrary: started w)
  case Nil
  with assms(5) show ?case by simp
next
  case (Cons m rest)
  obtain i r where m: "m = (i, r)" by force
  obtain outcome r' w1 where st: "hk_start h t r w = (outcome, r', w1)" by (cases "hk_start h t r w") auto
  then obtain fails where o: "outcome = StartReturned fails" using Cons(3) m by (cases outcome) auto
  show ?case
  proof (cases "fails = []")
    case True
    show ?thesis
    proof (rule Cons(1))
      show "members_stopped h w1 rest"
        using Cons(2) members_world(2) [OF assms(1)] by (metis members_stopped_simps(2))
      show "start_followers h t (started @ [(i, r')]) rest w1 = (StartReturned es, fs, w')"
        using Cons(3) st o True m by simp
    qed
  next
    case False
    obtain r'' w2 where s1: "hk_stop h r' w1 = (r'', w2)" by force
    obtain started' w3 where s2: "stop_reverse h started w2 = (started', w3)" by force
    have "fs = started' @ (i, r'') # rest" using Cons(3) st o False s1 s2 m by simp
    moreover have "\<not> hk_running h r'' w''" using assms(2) s1 by (metis stop_contract_def fst_conv)
    moreover have "members_stopped h w'' started'" using stop_reverse_stopped [OF assms(2), of w'' started w2] s2 by simp
    moreover have "members_stopped h w'' rest"
      using Cons(2) members_world(2) [OF assms(1)] by (metis members_stopped_simps(2))
    ultimately show ?thesis by simp
  qed
qed

section \<open>The contract of a runtime\<close>

lemma multi_start_running:
  assumes "runtime_contract h" "multi_start h t m w = (StartReturned [], m', w')"
  shows "multi_running h m' w''"
proof -
  from assms(2) have idle: "\<not> mu_running m" by (auto simp: multi_start_def split: if_splits)
  obtain fo fs w1 where f: "start_followers h t [] (mu_followers m) w = (fo, fs, w1)"
    by (cases "start_followers h t [] (mu_followers m) w") auto
  obtain i r where mm: "mu_master m = (i, r)" by force
  obtain outcome r' w2 where st: "hk_start h t r w1 = (outcome, r', w2)" by (cases "hk_start h t r w1") auto
  from assms(2) idle f mm st have
    o: "fo = StartReturned []" "outcome = StartReturned []" and
    m': "m' = m\<lparr>mu_followers := fs, mu_master := (i, r'), mu_running := True\<rparr>"
    by (auto simp: multi_start_def prefix_errors_def split: start_outcome.splits if_splits prod.splits)
  have "members_running h w1 fs" using start_followers_running [OF assms(1), of w "[]"] f o(1) by simp
  moreover have "hk_running h r' w''" using contract_start [OF assms(1)] st o(2) by blast
  ultimately show ?thesis
    using m' members_world(1) [OF assms(1), of w1 fs w''] by (simp add: multi_running_def members_running_def)
qed

lemma multi_apply_running:
  assumes "runtime_contract h" "multi_apply_parameters h g m w = (b, m', w')"
  shows "multi_running h m' w' = multi_running h m w"
proof -
  obtain b1 r w1 where a: "hk_apply_parameters h g (snd (mu_master m)) w = (b1, r, w1)"
    by (cases "hk_apply_parameters h g (snd (mu_master m)) w") auto
  then have m': "m' = m\<lparr>mu_master := (fst (mu_master m), r)\<rparr>" "w' = w1"
    using assms(2) by (simp_all add: multi_apply_parameters_def)
  have "hk_running h r w1 = hk_running h (snd (mu_master m)) w"
    using assms(1) a unfolding runtime_contract_def by blast
  then show ?thesis
    using m' members_world(1) [OF assms(1), of w' "mu_followers m" w]
    by (simp add: multi_running_def members_running_def)
qed

lemma multi_contract: "runtime_contract h \<Longrightarrow> runtime_contract (multi_hooks h)"
  unfolding runtime_contract_def [of "multi_hooks h"]
  using multi_start_running [of h] multi_apply_running [of h] contract_world [of h]
  by (simp add: multi_hooks_def multi_running_def) blast

text \<open>
  C38: A multi-endpoint runtime keeps the contract the engine service relies on whenever its members do: a
  start without errors leaves master and followers running, and applying parameters changes none of
  that.
\<close>

theorem multi_runtime_contract:
  "runtime_contract h \<Longrightarrow> runtime_contract (multi_hooks h)"
  by (rule multi_contract)

theorem multi_runtime_contract_witness: "runtime_contract (multi_hooks demo_hooks)"
  by (rule multi_runtime_contract [OF demo_contract])


section \<open>All or nothing\<close>

lemma multi_start_stopped:
  assumes "runtime_contract h" "stop_contract h" "\<not> mu_running m" "members_stopped h w (multi_members m)"
    and "multi_start h t m w = (StartReturned es, m', w')" "es \<noteq> []"
  shows "\<not> mu_running m' \<and> members_stopped h w'' (multi_members m')"
proof -
  obtain i r where mm: "mu_master m = (i, r)" by force
  obtain fo fs w1 where f: "start_followers h t [] (mu_followers m) w = (fo, fs, w1)"
    by (cases "start_followers h t [] (mu_followers m) w") auto
  have idle: "members_stopped h w (mu_followers m)" "\<not> hk_running h r w"
    using assms(4) mm by (simp_all add: multi_members_def)
  show ?thesis
  proof (cases "fo = StartReturned []")
    case False
    then have "fo = StartReturned es" "m' = m\<lparr>mu_followers := fs\<rparr>"
      using assms(3,5) f by (simp_all add: multi_start_def)
    moreover have "members_stopped h w'' fs"
      using start_followers_failed [OF assms(1,2) idle(1)] f calculation(1) assms(6) by blast
    moreover have "\<not> hk_running h r w''" using contract_world [OF assms(1)] idle(2) by blast
    ultimately show ?thesis using assms(3) mm by (simp add: multi_members_def)
  next
    case True
    obtain outcome r' w2 where st: "hk_start h t r w1 = (outcome, r', w2)" by (cases "hk_start h t r w1") auto
    then obtain fails where o: "outcome = StartReturned fails"
      using assms(3,5) f True mm by (cases outcome) (auto simp: multi_start_def)
    have fails: "fails \<noteq> []" using assms(3,5,6) f True mm st o by (auto simp: multi_start_def split: if_splits)
    obtain r'' w3 where s1: "hk_stop h r' w2 = (r'', w3)" by force
    obtain fs' w4 where s2: "stop_reverse h fs w3 = (fs', w4)" by force
    have "m' = m\<lparr>mu_followers := fs', mu_master := (i, r'')\<rparr>"
      using assms(3,5) f True mm st o fails s1 s2 by (simp add: multi_start_def)
    moreover have "\<not> hk_running h r'' w''" using assms(2) s1 by (metis stop_contract_def fst_conv)
    moreover have "members_stopped h w'' fs'" using stop_reverse_stopped [OF assms(2), of w'' fs w3] s2 by simp
    ultimately show ?thesis using assms(3) by (simp add: multi_members_def)
  qed
qed

lemma multi_stop_stopped:
  assumes "stop_contract h" "mu_running m"
  shows "\<not> mu_running (fst (multi_stop h m w)) \<and> members_stopped h w' (multi_members (fst (multi_stop h m w)))"
proof -
  obtain i r where mm: "mu_master m = (i, r)" by force
  obtain r' w1 where s1: "hk_stop h r w = (r', w1)" by force
  obtain fs w2 where s2: "stop_reverse h (mu_followers m) w1 = (fs, w2)" by force
  have "\<not> hk_running h r' w'" using assms(1) s1 by (metis stop_contract_def fst_conv)
  moreover have "members_stopped h w' fs" using stop_reverse_stopped [OF assms(1), of w' "mu_followers m" w1] s2 by simp
  ultimately show ?thesis using assms(2) mm s1 s2 by (simp add: multi_stop_def multi_members_def)
qed


text \<open>Members that fail to start when their version is odd.\<close>

definition flaky_hooks :: "(bool \<times> u64, unit) engine_hooks" where
  "flaky_hooks = demo_hooks\<lparr>hk_start := \<lambda>t r w.
     if snd r = 1 then (StartReturned [runtime_error_of (mk_error ''e'' ''m'')], (True, snd r), w)
     else if snd r = 2 then (StartThrew None, (False, snd r), w)
     else (StartReturned [], (True, snd r), w)\<rparr>"

definition flaky_runtime :: "u64 \<Rightarrow> (bool \<times> u64) multi_runtime" where
  "flaky_runtime v = \<lparr>mu_master = (''a'', (False, v)), mu_followers = [(''b'', (False, 0))], mu_running = False\<rparr>"

lemma flaky_contracts: "runtime_contract flaky_hooks" "stop_contract flaky_hooks"
  by (simp_all add: runtime_contract_def stop_contract_def flaky_hooks_def demo_hooks_def)

lemma flaky_stopped: "\<not> mu_running (flaky_runtime v)" "members_stopped flaky_hooks w (multi_members (flaky_runtime v))"
  by (simp_all add: flaky_runtime_def multi_members_def flaky_hooks_def demo_hooks_def)

lemma flaky_start:
  "multi_start flaky_hooks 1 (flaky_runtime 1) () =
     (StartReturned (prefix_errors ''a'' [runtime_error_of (mk_error ''e'' ''m'')]), flaky_runtime 1, ())"
  by (simp add: multi_start_def flaky_runtime_def flaky_hooks_def demo_hooks_def)


section \<open>A member that throws\<close>

text \<open>
  When the master throws from its start, the followers that were started keep running, and the
  whole's stop does nothing about it, because the whole was never marked running.
\<close>

theorem throwing_master_leaves_followers:
  assumes "runtime_contract h" "\<not> mu_running m"
    and "start_followers h t [] (mu_followers m) w = (StartReturned [], fs, w1)"
    and "hk_start h t (snd (mu_master m)) w1 = (StartThrew x, r', w2)"
  shows "fst (multi_start h t m w) = StartThrew x \<and>
    multi_stop h (fst (snd (multi_start h t m w))) w2 = (fst (snd (multi_start h t m w)), w2) \<and>
    members_running h w2 (mu_followers (fst (snd (multi_start h t m w))))"
proof (intro conjI)
  have eq: "multi_start h t m w = (StartThrew x, m\<lparr>mu_followers := fs, mu_master := (fst (mu_master m), r')\<rparr>, w2)"
    using assms(2-4) by (cases "mu_master m") (simp add: multi_start_def)
  show "fst (multi_start h t m w) = StartThrew x" using eq by simp
  show "multi_stop h (fst (snd (multi_start h t m w))) w2 = (fst (snd (multi_start h t m w)), w2)"
    using eq assms(2) by (simp add: multi_stop_def)
  have "members_running h w1 fs" using start_followers_running [OF assms(1) _ assms(3)] by simp
  then show "members_running h w2 (mu_followers (fst (snd (multi_start h t m w))))"
    using eq members_world(1) [OF assms(1)] by (metis fst_conv snd_conv multi_runtime.select_convs(2)
        multi_runtime.surjective multi_runtime.update_convs(1,2))
qed

theorem throwing_master_leaves_followers_witness:
  "fst (multi_start flaky_hooks 1 (flaky_runtime 2) ()) = StartThrew None \<and>
   members_running flaky_hooks () (mu_followers (fst (snd (multi_start flaky_hooks 1 (flaky_runtime 2) ()))))"
proof -
  have "start_followers flaky_hooks 1 [] (mu_followers (flaky_runtime 2)) () =
      (StartReturned [], [(''b'', (True, 0))], ())"
    "hk_start flaky_hooks 1 (snd (mu_master (flaky_runtime 2))) () = (StartThrew None, (False, 2), ())"
    by (simp_all add: flaky_runtime_def flaky_hooks_def demo_hooks_def)
  from throwing_master_leaves_followers [OF flaky_contracts(1) flaky_stopped(1) this] show ?thesis by blast
qed


section \<open>Diagnostics\<close>

text \<open>The diagnostics of the members that have some, with their ids.\<close>

definition member_recoveries ::
  "('r, 'w) engine_hooks \<Rightarrow> 'w \<Rightarrow> 'r runtime_member list \<Rightarrow> (string \<times> engine_recovery) list" where
  "member_recoveries h w ms = concat (map (\<lambda>m. case hk_recovery_diagnostics h (snd m) w of
     Some (Some e) \<Rightarrow> [(fst m, e)] | _ \<Rightarrow> []) ms)"

lemma member_recoveries_simps [simp]:
  "member_recoveries h w [] = []"
  "hk_recovery_diagnostics h r w = Some None \<Longrightarrow> member_recoveries h w ((i, r) # ms) = member_recoveries h w ms"
  "hk_recovery_diagnostics h r w = Some (Some e) \<Longrightarrow>
     member_recoveries h w ((i, r) # ms) = (i, e) # member_recoveries h w ms"
  by (simp_all add: member_recoveries_def)

lemma merge_members_fold:
  assumes "\<forall>m \<in> set ms. hk_recovery_diagnostics h (snd m) w \<noteq> None"
  shows "merge_members h w ms (Some a) =
    Some (Some (foldl (\<lambda>a (i, e). merge_recovery a i e) a (member_recoveries h w ms)))"
  using assms
proof (induction ms arbitrary: a)
  case (Cons m ms)
  obtain i r where m: "m = (i, r)" by force
  with Cons.prems obtain d where d: "hk_recovery_diagnostics h r w = Some d" by auto
  have rest: "\<forall>m \<in> set ms. hk_recovery_diagnostics h (snd m) w \<noteq> None" using Cons.prems by simp
  show ?case by (cases d) (simp_all add: m d Cons.IH [OF rest])
qed simp

lemma merge_members_none:
  assumes "\<forall>m \<in> set ms. hk_recovery_diagnostics h (snd m) w \<noteq> None"
  shows "merge_members h w ms None = Some (if member_recoveries h w ms = [] then None
    else Some (foldl (\<lambda>a (i, e). merge_recovery a i e) default_engine_recovery (member_recoveries h w ms)))"
  using assms
proof (induction ms)
  case (Cons m ms)
  obtain i r where m: "m = (i, r)" by force
  with Cons.prems obtain d where d: "hk_recovery_diagnostics h r w = Some d" by auto
  have rest: "\<forall>m \<in> set ms. hk_recovery_diagnostics h (snd m) w \<noteq> None" using Cons.prems by simp
  show ?case by (cases d) (simp_all add: m d Cons.IH [OF rest] merge_members_fold [OF rest])
qed simp

lemma health_rank_max:
  "health_rank (er_runtime_health (merge_recovery a i e)) = max (health_rank (er_runtime_health a)) (health_rank (er_runtime_health e))"
  by (simp add: merge_recovery_def Let_def)

lemma state_rank_max:
  "state_rank (er_state (merge_recovery a i e)) = max (state_rank (er_state a)) (state_rank (er_state e))"
  by (simp add: merge_recovery_def Let_def)

lemma health_rank_inj: "health_rank a = health_rank b \<Longrightarrow> a = b"
  by (cases a; cases b) simp_all

lemma state_rank_inj: "state_rank a = state_rank b \<Longrightarrow> a = b"
  by (cases a; cases b) simp_all

lemma merge_counters:
  "er_recovery_episode_count (merge_recovery a i e) = er_recovery_episode_count a + er_recovery_episode_count e"
  "er_successful_recovery_count (merge_recovery a i e) = er_successful_recovery_count a + er_successful_recovery_count e"
  "er_failed_recovery_count (merge_recovery a i e) = er_failed_recovery_count a + er_failed_recovery_count e"
  "er_reopen_pending (merge_recovery a i e) \<longleftrightarrow> er_reopen_pending a \<or> er_reopen_pending e"
  "er_maximum_silence_frames (merge_recovery a i e) = max (er_maximum_silence_frames a) (er_maximum_silence_frames e)"
  by (simp_all add: merge_recovery_def Let_def)

lemma fold_merge:
  fixes es :: "(string \<times> engine_recovery) list" and a :: engine_recovery
  defines "r \<equiv> foldl (\<lambda>a (i, e). merge_recovery a i e) a es"
  shows "health_rank (er_runtime_health r) = foldl max (health_rank (er_runtime_health a)) (map (health_rank \<circ> er_runtime_health \<circ> snd) es)"
    and "state_rank (er_state r) = foldl max (state_rank (er_state a)) (map (state_rank \<circ> er_state \<circ> snd) es)"
    and "er_recovery_episode_count r = er_recovery_episode_count a + sum_list (map (er_recovery_episode_count \<circ> snd) es)"
    and "er_successful_recovery_count r = er_successful_recovery_count a + sum_list (map (er_successful_recovery_count \<circ> snd) es)"
    and "er_failed_recovery_count r = er_failed_recovery_count a + sum_list (map (er_failed_recovery_count \<circ> snd) es)"
    and "er_reopen_pending r \<longleftrightarrow> er_reopen_pending a \<or> (\<exists>e \<in> set es. er_reopen_pending (snd e))"
    and "er_maximum_silence_frames r = foldl max (er_maximum_silence_frames a) (map (er_maximum_silence_frames \<circ> snd) es)"
  unfolding r_def
  by (induction es arbitrary: a) (auto simp: health_rank_max state_rank_max merge_counters)

lemma foldl_max_upper:
  fixes a :: "'a::linorder"
  shows "a \<le> foldl max a xs" "x \<in> set xs \<Longrightarrow> x \<le> foldl max a xs" "foldl max a xs \<in> insert a (set xs)"
proof (induction xs arbitrary: a)
  case (Cons y ys)
  { case 1 from Cons(1) [of "max a y"] show ?case by simp }
  { case 2 then show ?case using Cons(1,2) [of "max a y"] by auto }
  { case 3 from Cons(3) [of "max a y"] show ?case by (auto simp: max_def) }
qed simp_all


text \<open>From the defaults, whose ranks are the least, the maximum is one of the members'.\<close>

lemma foldl_max_attained:
  assumes "xs \<noteq> []" "\<forall>x \<in> set xs. a \<le> x"
  shows "foldl max (a :: 'a::linorder) xs \<in> set xs"
  using assms by (cases xs) (auto simp: max_def split: if_splits, (metis foldl_max_upper(3) insert_iff)+)

text \<open>
  The recovery diagnostics of the whole aggregate the members that report any: its health and its
  recovery state are the worst of theirs, its episode and recovery counters are their sums, a reopen
  is pending when one is for some member, and its longest silence is the longest of theirs.
\<close>

theorem multi_recovery_aggregates:
  fixes h :: "('r, 'w) engine_hooks" and m :: "'r multi_runtime" and w :: 'w
  defines "es \<equiv> map snd (member_recoveries h w (multi_members m))"
  assumes "\<forall>x \<in> set (multi_members m). hk_recovery_diagnostics h (snd x) w \<noteq> None" and "es \<noteq> []"
  shows "\<exists>a. multi_recovery_diagnostics h m w = Some (Some a) \<and>
    er_runtime_health a \<in> er_runtime_health ` set es \<and>
    (\<forall>e \<in> set es. health_rank (er_runtime_health e) \<le> health_rank (er_runtime_health a)) \<and>
    er_state a \<in> er_state ` set es \<and> (\<forall>e \<in> set es. state_rank (er_state e) \<le> state_rank (er_state a)) \<and>
    er_recovery_episode_count a = sum_list (map er_recovery_episode_count es) \<and>
    er_successful_recovery_count a = sum_list (map er_successful_recovery_count es) \<and>
    er_failed_recovery_count a = sum_list (map er_failed_recovery_count es) \<and>
    (er_reopen_pending a \<longleftrightarrow> (\<exists>e \<in> set es. er_reopen_pending e)) \<and>
    er_maximum_silence_frames a = Max (er_maximum_silence_frames ` set es)"
proof -
  let ?ms = "member_recoveries h w (multi_members m)"
  let ?a = "foldl (\<lambda>a (i, e). merge_recovery a i e) default_engine_recovery ?ms"
  have some: "?ms \<noteq> []" using assms(3) by (simp add: es_def)
  have run: "multi_recovery_diagnostics h m w = Some (Some ?a)"
    using merge_members_none [OF assms(2)] some by (simp add: multi_recovery_diagnostics_def)
  note f = fold_merge [of default_engine_recovery ?ms, folded map_map, folded es_def]
  have d: "health_rank (er_runtime_health default_engine_recovery) = 0" "state_rank (er_state default_engine_recovery) = 0"
    "er_maximum_silence_frames default_engine_recovery = 0" "\<not> er_reopen_pending default_engine_recovery"
    "er_recovery_episode_count default_engine_recovery = 0" "er_successful_recovery_count default_engine_recovery = 0"
    "er_failed_recovery_count default_engine_recovery = 0"
    by (simp_all add: default_engine_recovery_def)
  have "health_rank (er_runtime_health ?a) \<in> set (map health_rank (map er_runtime_health es))"
    unfolding f(1) d by (rule foldl_max_attained) (use assms(3) in auto)
  then have h: "er_runtime_health ?a \<in> er_runtime_health ` set es" by (auto dest: health_rank_inj)
  have hm: "\<forall>e \<in> set es. health_rank (er_runtime_health e) \<le> health_rank (er_runtime_health ?a)"
    unfolding f(1) by (auto intro!: foldl_max_upper(2))
  have "state_rank (er_state ?a) \<in> set (map state_rank (map er_state es))"
    unfolding f(2) d by (rule foldl_max_attained) (use assms(3) in auto)
  then have st: "er_state ?a \<in> er_state ` set es" by (auto dest: state_rank_inj)
  have sm: "\<forall>e \<in> set es. state_rank (er_state e) \<le> state_rank (er_state ?a)"
    unfolding f(2) by (auto intro!: foldl_max_upper(2))
  have "er_maximum_silence_frames ?a \<in> set (map er_maximum_silence_frames es)"
    unfolding f(7) d by (rule foldl_max_attained) (use assms(3) in auto)
  moreover have "\<forall>e \<in> set es. er_maximum_silence_frames e \<le> er_maximum_silence_frames ?a"
    unfolding f(7) by (auto intro!: foldl_max_upper(2))
  ultimately have mx: "er_maximum_silence_frames ?a = Max (er_maximum_silence_frames ` set es)"
    by (intro Max_eqI [symmetric]) auto
  have "er_reopen_pending ?a \<longleftrightarrow> (\<exists>e \<in> set es. er_reopen_pending e)" using f(6) d(4) by (auto simp: es_def)
  with run h hm st sm mx f(3-5) d(5-7) show ?thesis by (intro exI [of _ ?a]) simp
qed


definition reporting_hooks :: "(bool \<times> u64, unit) engine_hooks" where
  "reporting_hooks = demo_hooks\<lparr>hk_recovery_diagnostics := \<lambda>r w. Some (Some (default_engine_recovery\<lparr>
     er_state := (if snd r = 0 then EngineBackoff else EngineRunning), er_recovery_episode_count := snd r + 2\<rparr>))\<rparr>"

theorem multi_recovery_aggregates_witness:
  "\<exists>a. multi_recovery_diagnostics reporting_hooks (flaky_runtime 1) () = Some (Some a) \<and>
     er_state a = EngineBackoff \<and> er_recovery_episode_count a = 5"
proof -
  have es: "map snd (member_recoveries reporting_hooks () (multi_members (flaky_runtime 1))) =
      [default_engine_recovery\<lparr>er_state := EngineRunning, er_recovery_episode_count := 3\<rparr>,
       default_engine_recovery\<lparr>er_state := EngineBackoff, er_recovery_episode_count := 2\<rparr>]"
    by (simp add: member_recoveries_def reporting_hooks_def flaky_runtime_def multi_members_def)
  have "\<forall>x \<in> set (multi_members (flaky_runtime 1)). hk_recovery_diagnostics reporting_hooks (snd x) () \<noteq> None"
    by (simp add: reporting_hooks_def)
  from multi_recovery_aggregates [OF this] obtain a where
    "multi_recovery_diagnostics reporting_hooks (flaky_runtime 1) () = Some (Some a)"
    "er_state a \<in> {EngineRunning, EngineBackoff}" "state_rank EngineBackoff \<le> state_rank (er_state a)"
    "er_recovery_episode_count a = 5"
    unfolding es by auto
  then show ?thesis by auto
qed

end
