(* ===== verification/SessionFile.thy ===== *)
theory SessionFile
  imports SessionDocument WireControl
begin

text \<open>
  \<^verbatim>\<open>core/control/preset_file_codec.{h,cpp}\<close> and \<^verbatim>\<open>core/control/session_file_codec.{h,cpp}\<close>: the
  files in which presets and sessions are kept. A preset file is a control response that holds the preset;
  a session file has a header of its own and a payload whose fields depend on its version, from one to
  five. A reader is a function from the bytes not yet read to a value and the rest, or nothing; a step
  of the decoder adds the error to report.
\<close>

section \<open>Preset files\<close>

record preset_file_error =
  pf_code :: string
  pf_message :: string

definition preset_file_wire_error :: "string \<Rightarrow> preset_file_error" where
  "preset_file_wire_error message = \<lparr>pf_code = ''invalid_preset_file'', pf_message = message\<rparr>"

definition invalid_preset :: "sar_error list \<Rightarrow> preset_file_error" where
  "invalid_preset errors = \<lparr>pf_code = ''invalid_preset'',
     pf_message = (if errors = [] then ''Preset validation failed.'' else err_message (hd errors))\<rparr>"

definition encode_preset_file :: "preset_document \<Rightarrow> preset_file_error + byte list" where
  "encode_preset_file p =
     (let errors = validate_preset p
      in if errors \<noteq> [] then Inl (invalid_preset errors)
         else case encode_control_response (preset_response ''preset-file'' p) of
           Inl _ \<Rightarrow> Inl (preset_file_wire_error ''Preset exceeds the supported file format limits.'')
         | Inr bytes \<Rightarrow> Inr bytes)"

definition decode_preset_file :: "byte list \<Rightarrow> preset_file_error + preset_document" where
  "decode_preset_file bytes =
     (if bytes = [] then Inl (preset_file_wire_error ''Preset file is empty.'')
      else if length bytes > kControlWireMaxMessageBytes
        then Inl (preset_file_wire_error ''Preset file exceeds the maximum supported size.'')
      else case decode_control_response bytes of (response, failure) \<Rightarrow>
        if failure \<noteq> None then Inl (preset_file_wire_error ''Preset file header or payload is invalid.'')
        else if cr_status response \<noteq> Accepted \<or> \<not> cr_has_preset response
          then Inl (preset_file_wire_error ''Preset file does not contain a preset document.'')
        else let errors = validate_preset (cr_preset response)
             in if errors \<noteq> [] then Inl (invalid_preset errors) else Inr (cr_preset response))"

section \<open>The writer of session files\<close>

definition kSessionFileVersion :: u16 where "kSessionFileVersion = 5"
definition kSessionFileMaxBytes :: nat where "kSessionFileMaxBytes = 1024 * 1024"
definition kSessionMagic :: "byte list" where "kSessionMagic = map byte_of ''SARS''"
definition kSessionHeaderSize :: nat where "kSessionHeaderSize = 12"

record session_file_error =
  sf_code :: string
  sf_message :: string

definition file_error :: "string \<Rightarrow> session_file_error" where
  "file_error message = \<lparr>sf_code = ''invalid_session_file'', sf_message = message\<rparr>"

definition invalid_session :: "sar_error list \<Rightarrow> session_file_error" where
  "invalid_session errors = \<lparr>sf_code = ''invalid_session'',
     sf_message = (if errors = [] then ''Session document validation failed.'' else err_message (hd errors))\<rparr>"

definition append_integer :: "byte list \<Rightarrow> 'a::len word \<Rightarrow> byte list" where
  "append_integer bytes v = bytes @ le_bytes v"

definition append_string :: "byte list \<Rightarrow> string \<Rightarrow> byte list" where
  "append_string bytes v = append_integer bytes (word_of_nat (length v) :: u32) @ map byte_of v"

definition flag :: "bool \<Rightarrow> byte" where "flag b = (if b then 1 else 0)"

definition append_count :: "byte list \<Rightarrow> 'a list \<Rightarrow> byte list" where
  "append_count bytes xs = append_integer bytes (word_of_nat (length xs) :: u32)"

definition append_endpoint :: "byte list \<Rightarrow> runtime_endpoint \<Rightarrow> byte list" where
  "append_endpoint b0 e =
     (let b1 = append_string b0 (rt_endpoint_id e);
          b2 = append_string b1 (rt_device_id e);
          b3 = append_integer b2 (ucast (runtime_direction_code (rt_direction e)) :: byte);
          b4 = append_integer b3 (flag (rt_clock_master e));
          b5 = append_integer b4 (rt_first_channel e)
      in append_integer b5 (rt_channel_count e))"

definition append_device :: "byte list \<Rightarrow> virtual_asio_device \<Rightarrow> byte list" where
  "append_device b0 d =
     (let b1 = append_string b0 (va_device_id d);
          b2 = append_string b1 (va_clsid d);
          b3 = append_string b2 (va_registry_name d);
          b4 = append_string b3 (va_broker_token d);
          b5 = append_integer b4 (va_input_channels d);
          b6 = append_integer b5 (va_output_channels d)
      in append_integer b6 (flag (va_enabled d)))"

definition append_extension :: "byte list \<Rightarrow> runtime_endpoint \<Rightarrow> byte list" where
  "append_extension b0 e =
     (let b1 = append_integer b0 (ucast (runtime_backend_code (rt_backend e)) :: byte);
          b2 = append_string b1 (rt_device_group_id e);
          b3 = append_integer b2 (rt_sample_rate e)
      in append_integer b3 (rt_block_frames e))"

text \<open>The header with a zero payload size, then the document.\<close>

definition session_header :: "byte list" where
  "session_header = append_integer (append_integer (append_integer kSessionMagic kSessionFileVersion) (0 :: u16)) (0 :: u32)"

definition append_runtime :: "byte list \<Rightarrow> runtime_configuration \<Rightarrow> byte list" where
  "append_runtime b0 c =
     (let b1 = append_integer b0 (ucast (runtime_mode_code (rc_mode c)) :: byte);
          b2 = append_string b1 (rc_capture_device_id c);
          b3 = append_string b2 (rc_render_device_id c);
          b4 = foldl append_endpoint (append_count b3 (rc_endpoints c)) (rc_endpoints c);
          b5 = append_string b4 (rc_asio_driver_clsid c);
          b6 = append_integer b5 (rc_asio_sample_rate c);
          b7 = append_integer b6 (rc_asio_block_frames c);
          b8 = foldl append_integer (append_count b7 (rc_asio_input_channels c)) (rc_asio_input_channels c)
      in foldl append_integer (append_count b8 (rc_asio_output_channels c)) (rc_asio_output_channels c))"

definition append_session :: "byte list \<Rightarrow> byte list \<Rightarrow> session_document \<Rightarrow> byte list" where
  "append_session b0 pb s =
     (let b1 = append_integer b0 (sd_schema_version s);
          b2 = append_count b1 pb @ pb;
          b3 = append_runtime b2 (sd_audio_runtime s);
          b4 = append_integer b3 (flag (sd_auto_start s));
          b5 = foldl append_device (append_count b4 (sd_virtual_asio_devices s)) (sd_virtual_asio_devices s);
          es = rc_endpoints (sd_audio_runtime s)
      in foldl append_extension (append_count b5 es) es)"

text \<open>Write the payload size over bytes 8 to 11.\<close>

definition patch_size :: "byte list \<Rightarrow> u32 \<Rightarrow> byte list" where
  "patch_size bytes n = foldl (\<lambda>b i. b[8 + i := ucast (drop_bit (8 * i) n AND 0xFF)]) bytes [0..<4]"

definition encode_session_file :: "session_document \<Rightarrow> session_file_error + byte list" where
  "encode_session_file s =
     (let errors = validate_session_document s
      in if errors \<noteq> [] then Inl (invalid_session errors)
         else case encode_preset_file (sd_preset s) of
           Inl e \<Rightarrow> Inl \<lparr>sf_code = ''invalid_session'', sf_message = pf_message e\<rparr>
         | Inr pb \<Rightarrow>
             if length pb > 2 ^ 32 - 1 then Inl (file_error ''Session preset payload is too large.'')
             else
               let bytes = append_session session_header pb s
               in if length bytes > kSessionFileMaxBytes
                  then Inl (file_error ''Session file exceeds the maximum supported size.'')
                  else Inr (patch_size bytes (word_of_nat (length bytes - kSessionHeaderSize))))"


section \<open>The reader\<close>

type_synonym 'a sread = "byte list \<Rightarrow> ('a \<times> byte list) option"

definition s_integer :: "'a::len word sread" where
  "s_integer bs =
     (if length bs < LENGTH('a) div 8 then None
      else Some (le_word (take (LENGTH('a) div 8) bs), drop (LENGTH('a) div 8) bs))"

definition s_string :: "string sread" where
  "s_string bs =
     (case s_integer bs of
        None \<Rightarrow> None
      | Some (n, rest) \<Rightarrow>
          if unat (n :: u32) > kControlWireMaxStringBytes \<or> length rest < unat n then None
          else Some (map char_of_byte (take (unat n) rest), drop (unat n) rest))"

definition s_span :: "nat \<Rightarrow> byte list sread" where
  "s_span n bs = (if length bs < n then None else Some (take n bs, drop n bs))"

section \<open>Steps of the decoder\<close>

type_synonym 'a sstep = "byte list \<Rightarrow> session_file_error + 'a \<times> byte list"

definition s_bind :: "'a sstep \<Rightarrow> ('a \<Rightarrow> 'b sstep) \<Rightarrow> 'b sstep" where
  "s_bind m f bs = (case m bs of Inl e \<Rightarrow> Inl e | Inr (x, rest) \<Rightarrow> f x rest)"

definition s_return :: "'a \<Rightarrow> 'a sstep" where
  "s_return x bs = Inr (x, bs)"

definition s_fail :: "session_file_error \<Rightarrow> 'a sstep" where
  "s_fail e bs = Inl e"

text \<open>One operand of the \<^verbatim>\<open>||\<close> chains: a read, or a check of what was read.\<close>

definition s_or :: "string \<Rightarrow> 'a sread \<Rightarrow> 'a sstep" where
  "s_or message m bs = (case m bs of None \<Rightarrow> Inl (file_error message) | Some r \<Rightarrow> Inr r)"

definition s_check :: "string \<Rightarrow> bool \<Rightarrow> unit sstep" where
  "s_check message ok = (if ok then s_return () else s_fail (file_error message))"

definition s_remaining :: "nat sstep" where
  "s_remaining bs = Inr (length bs, bs)"

fun s_repeat :: "nat \<Rightarrow> 'a sstep \<Rightarrow> 'a list sstep" where
  "s_repeat 0 m = s_return []"
| "s_repeat (Suc n) m = s_bind m (\<lambda>x. s_bind (s_repeat n m) (\<lambda>xs. s_return (x # xs)))"

fun s_each :: "('a \<Rightarrow> 'b sstep) \<Rightarrow> 'a list \<Rightarrow> 'b list sstep" where
  "s_each f [] = s_return []"
| "s_each f (x # xs) = s_bind (f x) (\<lambda>y. s_bind (s_each f xs) (\<lambda>ys. s_return (y # ys)))"

section \<open>The decoder of session files\<close>

definition invalid_header :: string where
  "invalid_header = ''Session file header is invalid.''"

definition decode_session_header :: "u16 sstep" where
  "decode_session_header =
     s_bind (s_or invalid_header (s_span 4)) (\<lambda>magic.
     s_bind (s_check invalid_header (magic = kSessionMagic)) (\<lambda>_.
     s_bind (s_or invalid_header s_integer) (\<lambda>version.
     s_bind (s_check invalid_header (version \<noteq> 0 \<and> version \<le> kSessionFileVersion)) (\<lambda>_.
     s_bind (s_or invalid_header s_integer) (\<lambda>reserved.
     s_bind (s_check invalid_header (reserved = (0 :: u16))) (\<lambda>_.
     s_bind (s_or invalid_header s_integer) (\<lambda>payload_size.
     s_bind s_remaining (\<lambda>remaining.
     s_bind (s_check invalid_header (unat (payload_size :: u32) = remaining)) (\<lambda>_.
     s_return version)))))))))"

definition invalid_payload :: string where
  "invalid_payload = ''Session document payload is invalid.''"

definition decode_session_preset :: "preset_document sstep" where
  "decode_session_preset =
     s_bind (s_or invalid_payload s_integer) (\<lambda>schema.
     s_bind (s_check invalid_payload (schema \<noteq> 0 \<and> schema \<le> kSessionDocumentSchemaVersion)) (\<lambda>_.
     s_bind (s_or invalid_payload s_integer) (\<lambda>preset_size.
     s_bind (s_or invalid_payload (s_span (unat (preset_size :: u32)))) (\<lambda>bytes.
     case decode_preset_file bytes of
       Inl e \<Rightarrow> s_fail \<lparr>sf_code = ''invalid_preset'', sf_message = pf_message e\<rparr>
     | Inr p \<Rightarrow> s_return p))))"

definition invalid_endpoint :: string where
  "invalid_endpoint = ''Session runtime endpoint is invalid.''"

definition invalid_range :: string where
  "invalid_range = ''Session runtime endpoint channel range is invalid.''"

definition decode_session_endpoint :: "runtime_endpoint sstep" where
  "decode_session_endpoint =
     s_bind (s_or invalid_endpoint s_string) (\<lambda>endpoint_id.
     s_bind (s_or invalid_endpoint s_string) (\<lambda>device_id.
     s_bind (s_or invalid_endpoint s_integer) (\<lambda>direction.
     s_bind (s_check invalid_endpoint (direction \<le> (1 :: byte))) (\<lambda>_.
     s_bind (s_or invalid_endpoint s_integer) (\<lambda>clock_master.
     s_bind (s_check invalid_endpoint (clock_master \<le> (1 :: byte))) (\<lambda>_.
     s_bind (s_or invalid_range s_integer) (\<lambda>first_channel.
     s_bind (s_or invalid_range s_integer) (\<lambda>channel_count.
     s_return (default_runtime_endpoint\<lparr>rt_endpoint_id := endpoint_id, rt_device_id := device_id,
       rt_direction := runtime_direction_of (ucast direction), rt_clock_master := (clock_master = 1),
       rt_first_channel := first_channel, rt_channel_count := channel_count\<rparr>)))))))))"

definition invalid_endpoint_list :: string where
  "invalid_endpoint_list = ''Session runtime endpoint list is invalid.''"

definition decode_session_endpoints :: "u16 \<Rightarrow> runtime_endpoint list sstep" where
  "decode_session_endpoints version =
     (if version \<ge> 2 then
        s_bind (s_or invalid_endpoint_list s_integer) (\<lambda>count.
        s_bind (s_check invalid_endpoint_list (unat (count :: u32) \<le> kMaximumAudioRuntimeEndpoints)) (\<lambda>_.
        s_repeat (unat count) decode_session_endpoint))
      else s_return [])"


definition invalid_physical_asio :: string where
  "invalid_physical_asio = ''Session Physical ASIO configuration is invalid.''"

definition invalid_asio_inputs :: string where
  "invalid_asio_inputs = ''Session Physical ASIO input channels are invalid.''"

definition invalid_asio_outputs :: string where
  "invalid_asio_outputs = ''Session Physical ASIO output channels are invalid.''"

definition decode_physical_asio :: "u16 \<Rightarrow> runtime_configuration \<Rightarrow> runtime_configuration sstep" where
  "decode_physical_asio version c =
     (if version \<ge> 4 then
        s_bind (s_or invalid_physical_asio s_string) (\<lambda>clsid.
        s_bind (s_or invalid_physical_asio s_integer) (\<lambda>sample_rate.
        s_bind (s_or invalid_physical_asio s_integer) (\<lambda>block_frames.
        s_bind (s_or invalid_physical_asio s_integer) (\<lambda>input_count.
        s_bind (s_check invalid_physical_asio (unat (input_count :: u32) \<le> kMaximumPhysicalAsioChannels)) (\<lambda>_.
        s_bind (s_repeat (unat input_count) (s_or invalid_asio_inputs s_integer)) (\<lambda>inputs.
        s_bind (s_or invalid_asio_outputs s_integer) (\<lambda>output_count.
        s_bind (s_check invalid_asio_outputs (unat (output_count :: u32) \<le> kMaximumPhysicalAsioChannels)) (\<lambda>_.
        s_bind (s_repeat (unat output_count) (s_or invalid_asio_outputs s_integer)) (\<lambda>outputs.
        s_return (c\<lparr>rc_asio_driver_clsid := clsid, rc_asio_sample_rate := sample_rate,
          rc_asio_block_frames := block_frames, rc_asio_input_channels := inputs,
          rc_asio_output_channels := outputs\<rparr>))))))))))
      else s_return c)"

definition invalid_runtime :: string where
  "invalid_runtime = ''Session runtime payload is invalid.''"

definition maximum_runtime_mode :: "u16 \<Rightarrow> byte" where
  "maximum_runtime_mode version =
     (if version \<ge> 4 then ucast (runtime_mode_code PhysicalAsioMode)
      else if version = 1 then ucast (runtime_mode_code WasapiDuplex)
      else ucast (runtime_mode_code WasapiMatrix))"

definition decode_session_runtime :: "u16 \<Rightarrow> runtime_configuration sstep" where
  "decode_session_runtime version =
     s_bind (s_or invalid_runtime s_integer) (\<lambda>mode.
     s_bind (s_check invalid_runtime (mode \<le> maximum_runtime_mode version)) (\<lambda>_.
     s_bind (s_or invalid_runtime s_string) (\<lambda>capture.
     s_bind (s_or invalid_runtime s_string) (\<lambda>render.
     s_bind (decode_session_endpoints version) (\<lambda>endpoints.
     decode_physical_asio version (default_runtime_configuration\<lparr>rc_mode := runtime_mode_of (ucast mode),
       rc_capture_device_id := capture, rc_render_device_id := render, rc_endpoints := endpoints\<rparr>))))))"

definition invalid_device :: string where
  "invalid_device = ''Session Virtual ASIO device is invalid.''"

definition decode_session_device :: "virtual_asio_device sstep" where
  "decode_session_device =
     s_bind (s_or invalid_device s_string) (\<lambda>device_id.
     s_bind (s_or invalid_device s_string) (\<lambda>clsid.
     s_bind (s_or invalid_device s_string) (\<lambda>registry_name.
     s_bind (s_or invalid_device s_string) (\<lambda>broker_token.
     s_bind (s_or invalid_device s_integer) (\<lambda>inputs.
     s_bind (s_or invalid_device s_integer) (\<lambda>outputs.
     s_bind (s_or invalid_device s_integer) (\<lambda>enabled.
     s_bind (s_check invalid_device (enabled \<le> (1 :: byte))) (\<lambda>_.
     s_return \<lparr>va_device_id = device_id, va_clsid = clsid, va_registry_name = registry_name,
       va_broker_token = broker_token, va_input_channels = inputs, va_output_channels = outputs,
       va_enabled = (enabled = 1)\<rparr>))))))))"

definition invalid_device_list :: string where
  "invalid_device_list = ''Session Virtual ASIO device list is invalid.''"

definition decode_session_devices :: "u16 \<Rightarrow> virtual_asio_device list sstep" where
  "decode_session_devices version =
     (if version \<ge> 3 then
        s_bind (s_or invalid_device_list s_integer) (\<lambda>count.
        s_bind (s_check invalid_device_list
          (count \<noteq> 0 \<and> unat (count :: u32) \<le> kMaximumVirtualAsioDevices)) (\<lambda>_.
        s_repeat (unat count) decode_session_device))
      else s_return [default_virtual_asio_device_definition])"

definition invalid_extension :: string where
  "invalid_extension = ''Session runtime endpoint extension is invalid.''"

definition decode_session_extension :: "runtime_endpoint \<Rightarrow> runtime_endpoint sstep" where
  "decode_session_extension e =
     s_bind (s_or invalid_extension s_integer) (\<lambda>backend.
     s_bind (s_check invalid_extension (backend \<le> (1 :: byte))) (\<lambda>_.
     s_bind (s_or invalid_extension s_string) (\<lambda>group.
     s_bind (s_or invalid_extension s_integer) (\<lambda>sample_rate.
     s_bind (s_or invalid_extension s_integer) (\<lambda>block_frames.
     s_return (e\<lparr>rt_backend := runtime_backend_of (ucast backend), rt_device_group_id := group,
       rt_sample_rate := sample_rate, rt_block_frames := block_frames\<rparr>))))))"

definition invalid_extensions :: string where
  "invalid_extensions = ''Session runtime endpoint extensions are invalid.''"

definition decode_session_extensions :: "u16 \<Rightarrow> runtime_endpoint list \<Rightarrow> runtime_endpoint list sstep" where
  "decode_session_extensions version es =
     (if version \<ge> 5 then
        s_bind (s_or invalid_extensions s_integer) (\<lambda>count.
        s_bind (s_check invalid_extensions (unat (count :: u32) = length es)) (\<lambda>_.
        s_each decode_session_extension es))
      else s_return es)"

definition decode_session_body :: "session_document sstep" where
  "decode_session_body =
     s_bind decode_session_header (\<lambda>version.
     s_bind decode_session_preset (\<lambda>p.
     s_bind (decode_session_runtime version) (\<lambda>c.
     s_bind (s_or invalid_runtime s_integer) (\<lambda>auto_start.
     s_bind (s_check invalid_runtime (auto_start \<le> (1 :: byte))) (\<lambda>_.
     s_bind (decode_session_devices version) (\<lambda>devices.
     s_bind (decode_session_extensions version (rc_endpoints c)) (\<lambda>es.
     s_bind s_remaining (\<lambda>remaining.
     s_bind (s_check invalid_runtime (remaining = 0)) (\<lambda>_.
     s_return \<lparr>sd_schema_version = kSessionDocumentSchemaVersion, sd_preset = p,
       sd_audio_runtime = c\<lparr>rc_endpoints := es\<rparr>, sd_virtual_asio_devices = devices,
       sd_auto_start = (auto_start = 1)\<rparr>)))))))))"

definition decode_session_file :: "byte list \<Rightarrow> session_file_error + session_document" where
  "decode_session_file bytes =
     (if bytes = [] then Inl (file_error ''Session file is empty.'')
      else if length bytes > kSessionFileMaxBytes
        then Inl (file_error ''Session file exceeds the maximum supported size.'')
      else case decode_session_body bytes of
        Inl e \<Rightarrow> Inl e
      | Inr (s, _) \<Rightarrow>
          let errors = validate_session_document s
          in if errors \<noteq> [] then Inl (invalid_session errors) else Inr s)"

end
