(* ===== verification/SessionFileCorrect.thy ===== *)
theory SessionFileCorrect
  imports SessionFile
begin

text \<open>
  Properties of the file codecs: a saved preset or session is read back, files of every version are
  read with the defaults of the fields they lack, and nothing invalid is ever read.
\<close>

section \<open>What a step reads\<close>

definition s_reads :: "'a sstep \<Rightarrow> byte list \<Rightarrow> 'a \<Rightarrow> bool" where
  "s_reads m bs x \<longleftrightarrow> (\<forall>rest. m (bs @ rest) = Inr (x, rest))"

lemma s_reads_bind: "s_reads m xs x \<Longrightarrow> s_reads (f x) ys y \<Longrightarrow> s_reads (s_bind m f) (xs @ ys) y"
  by (simp add: s_reads_def s_bind_def)

lemma s_reads_return: "x = y \<Longrightarrow> s_reads (s_return x) [] y"
  by (simp add: s_reads_def s_return_def)

lemma s_reads_check: "ok \<Longrightarrow> s_reads (f ()) ys y \<Longrightarrow> s_reads (s_bind (s_check message ok) f) ys y"
  by (simp add: s_reads_def s_bind_def s_check_def s_return_def)

lemma s_integer_le_bytes:
  assumes "LENGTH('a) = 8 * n"
  shows "s_integer (le_bytes w @ rest) = Some (w :: 'a::len word, rest)"
  using assms by (simp add: s_integer_def)

lemma s_reads_integer:
  assumes "LENGTH('a) = 8 * n"
  shows "s_reads (s_or message s_integer) (le_bytes (w :: 'a::len word)) w"
  by (simp add: s_reads_def s_or_def s_integer_le_bytes [OF assms])

lemma s_reads_integers:
  "s_reads (s_or message s_integer) (le_bytes (b :: byte)) b"
  "s_reads (s_or message s_integer) (le_bytes (h :: u16)) h"
  "s_reads (s_or message s_integer) (le_bytes (w :: u32)) w"
  by (rule s_reads_integer [where n = 1] s_reads_integer [where n = 2] s_reads_integer [where n = 4]; simp)+

lemma s_reads_span: "s_reads (s_or message (s_span (length bs))) bs bs"
  by (simp add: s_reads_def s_or_def s_span_def)

lemma s_reads_string:
  assumes "string_fits v"
  shows "s_reads (s_or message s_string) (string_bytes v) v"
proof -
  have n: "unat (word_of_nat (length v) :: u32) = length v"
    using assms by (simp add: unat_of_nat string_fits_def kControlWireMaxStringBytes_def)
  have "s_integer (le_bytes (word_of_nat (length v) :: u32) @ r) = Some (word_of_nat (length v) :: u32, r)" for r
    by (rule s_integer_le_bytes [where n = 4]) simp
  then show ?thesis
    using assms by (simp add: s_reads_def s_or_def s_string_def string_bytes_def n string_fits_def)
qed

lemma s_reads_repeat:
  assumes "\<And>x. x \<in> set xs \<Longrightarrow> s_reads m (g x) x"
  shows "s_reads (s_repeat (length xs) m) (concat (map g xs)) xs"
  using assms
proof (induction xs)
  case Nil
  then show ?case by (simp add: s_reads_return)
next
  case (Cons x xs)
  have "s_reads m (g x) x" "s_reads (s_repeat (length xs) m) (concat (map g xs)) xs" using Cons by auto
  then have "s_reads (s_bind m (\<lambda>x. s_bind (s_repeat (length xs) m) (\<lambda>xs. s_return (x # xs))))
      (g x @ concat (map g xs) @ []) (x # xs)"
    by (blast intro: s_reads_bind s_reads_return)
  then show ?case by simp
qed

lemma s_reads_each:
  assumes "\<And>x. x \<in> set xs \<Longrightarrow> s_reads (f (d x)) (g x) x"
  shows "s_reads (s_each f (map d xs)) (concat (map g xs)) xs"
  using assms
proof (induction xs)
  case Nil
  then show ?case by (simp add: s_reads_return)
next
  case (Cons x xs)
  have "s_reads (f (d x)) (g x) x" "s_reads (s_each f (map d xs)) (concat (map g xs)) xs" using Cons by auto
  then have "s_reads (s_bind (f (d x)) (\<lambda>y. s_bind (s_each f (map d xs)) (\<lambda>ys. s_return (y # ys))))
      (g x @ concat (map g xs) @ []) (x # xs)"
    by (blast intro: s_reads_bind s_reads_return)
  then show ?case by simp
qed

lemmas s_reads_intros = s_reads_check s_reads_bind s_reads_integers s_reads_string s_reads_return


lemma s_reads_sized:
  assumes "length xs < 2 ^ 32" "\<And>x. x \<in> set xs \<Longrightarrow> s_reads m (g x) x"
  shows "unat (word_of_nat (length xs) :: u32) = length xs"
    and "s_reads (s_repeat (unat (word_of_nat (length xs) :: u32)) m) (concat (map g xs)) xs"
  using assms s_reads_repeat [of xs m g] by (simp_all add: unat_of_nat)

section \<open>The layout of each version\<close>

definition session_endpoint_bytes :: "runtime_endpoint \<Rightarrow> byte list" where
  "session_endpoint_bytes e = concat [string_bytes (rt_endpoint_id e), string_bytes (rt_device_id e),
     le_bytes (ucast (runtime_direction_code (rt_direction e)) :: byte), le_bytes (flag (rt_clock_master e)),
     le_bytes (rt_first_channel e), le_bytes (rt_channel_count e)]"

definition session_device_bytes :: "virtual_asio_device \<Rightarrow> byte list" where
  "session_device_bytes d = concat [string_bytes (va_device_id d), string_bytes (va_clsid d),
     string_bytes (va_registry_name d), string_bytes (va_broker_token d), le_bytes (va_input_channels d),
     le_bytes (va_output_channels d), le_bytes (flag (va_enabled d))]"

definition session_extension_bytes :: "runtime_endpoint \<Rightarrow> byte list" where
  "session_extension_bytes e = concat [le_bytes (ucast (runtime_backend_code (rt_backend e)) :: byte),
     string_bytes (rt_device_group_id e), le_bytes (rt_sample_rate e), le_bytes (rt_block_frames e)]"

definition session_runtime_bytes :: "u16 \<Rightarrow> runtime_configuration \<Rightarrow> byte list" where
  "session_runtime_bytes v c = concat [le_bytes (ucast (runtime_mode_code (rc_mode c)) :: byte),
     string_bytes (rc_capture_device_id c), string_bytes (rc_render_device_id c),
     (if v \<ge> 2 then list_bytes session_endpoint_bytes (rc_endpoints c) else []),
     (if v \<ge> 4 then concat [string_bytes (rc_asio_driver_clsid c), le_bytes (rc_asio_sample_rate c),
        le_bytes (rc_asio_block_frames c), list_bytes le_bytes (rc_asio_input_channels c),
        list_bytes le_bytes (rc_asio_output_channels c)] else [])]"

definition session_payload :: "u16 \<Rightarrow> u32 \<Rightarrow> byte list \<Rightarrow> session_document \<Rightarrow> byte list" where
  "session_payload v schema pb s = concat [le_bytes schema, count_bytes (length pb), pb,
     session_runtime_bytes v (sd_audio_runtime s), le_bytes (flag (sd_auto_start s)),
     (if v \<ge> 3 then list_bytes session_device_bytes (sd_virtual_asio_devices s) else []),
     (if v \<ge> 5 then list_bytes session_extension_bytes (rc_endpoints (sd_audio_runtime s)) else [])]"

definition session_file :: "u16 \<Rightarrow> u32 \<Rightarrow> byte list \<Rightarrow> session_document \<Rightarrow> byte list" where
  "session_file v schema pb s = kSessionMagic @ le_bytes v @ le_bytes (0 :: u16) @
     le_bytes (word_of_nat (length (session_payload v schema pb s)) :: u32) @ session_payload v schema pb s"

text \<open>The sessions a version can express.\<close>

definition version_expresses :: "u16 \<Rightarrow> session_document \<Rightarrow> bool" where
  "version_expresses v s \<longleftrightarrow> 1 \<le> v \<and> v \<le> 5 \<and>
     runtime_mode_code (rc_mode (sd_audio_runtime s)) \<le> ucast (maximum_runtime_mode v) \<and>
     (v < 3 \<longrightarrow> sd_virtual_asio_devices s = [default_virtual_asio_device_definition]) \<and>
     (\<forall>e \<in> set (rc_endpoints (sd_audio_runtime s)).
        if v < 5 then rt_backend e = WasapiBackend else string_fits (rt_device_group_id e))"

section \<open>What a valid configuration gives the reader\<close>

lemma valid_configuration:
  assumes "validate_audio_runtime_configuration c True = []"
  shows "\<forall>w. rc_mode c \<noteq> UnnamedMode w"
    and "rc_mode c \<noteq> WasapiMatrix \<Longrightarrow> rc_endpoints c = []"
    and "rc_mode c \<noteq> PhysicalAsioMode \<Longrightarrow> \<not> has_physical_asio_fields c"
    and "length (rc_endpoints c) \<le> kMaximumAudioRuntimeEndpoints"
    and "\<forall>e \<in> set (rc_endpoints c). runtime_endpoint_ok e"
    and "length (rc_asio_driver_clsid c) \<le> 128"
    and "length (rc_asio_input_channels c) \<le> kMaximumPhysicalAsioChannels"
    and "length (rc_asio_output_channels c) \<le> kMaximumPhysicalAsioChannels"
  using assms
  by (auto simp: validate_audio_runtime_configuration_def validate_physical_asio_def has_physical_asio_fields_def
      validate_matrix_endpoints_Nil matrix_endpoints_ok_def split: if_splits)


section \<open>The parts are read back\<close>

lemma flag_is: "flag b \<le> 1" "(flag b = 1) = b"
  by (simp_all add: flag_def)

lemma small_code: "c \<le> 4 \<Longrightarrow> ucast (ucast (c :: u32) :: byte) = c"
proof -
  assume "c \<le> 4"
  then have "unat c \<le> 4" by (simp add: word_le_nat_alt)
  then show ?thesis by (simp add: word_unat_eq_iff unsigned_ucast_eq unsigned_take_bit_eq take_bit_nat_eq_self)
qed

definition plain_endpoint :: "runtime_endpoint \<Rightarrow> runtime_endpoint" where
  "plain_endpoint e = e\<lparr>rt_backend := WasapiBackend, rt_device_group_id := [], rt_sample_rate := 0, rt_block_frames := 0\<rparr>"

lemma endpoint_direction:
  "runtime_endpoint_ok e \<Longrightarrow> ucast (runtime_direction_code (rt_direction e)) \<le> (1 :: byte) \<and>
     runtime_direction_of (ucast (ucast (runtime_direction_code (rt_direction e)) :: byte)) = rt_direction e"
  by (auto simp: runtime_endpoint_ok_def runtime_direction_of_def)

lemma endpoint_backend:
  "runtime_endpoint_ok e \<Longrightarrow> ucast (runtime_backend_code (rt_backend e)) \<le> (1 :: byte) \<and>
     runtime_backend_of (ucast (ucast (runtime_backend_code (rt_backend e)) :: byte)) = rt_backend e"
  by (auto simp: runtime_endpoint_ok_def runtime_backend_of_def)

lemma s_reads_endpoint:
  assumes "runtime_endpoint_ok e" "string_fits (rt_endpoint_id e)" "string_fits (rt_device_id e)"
  shows "s_reads decode_session_endpoint (session_endpoint_bytes e) (plain_endpoint e)"
  unfolding decode_session_endpoint_def session_endpoint_bytes_def concat.simps
  by (rule s_reads_intros assms(2,3) endpoint_direction [OF assms(1), THEN conjunct1] flag_is(1))+
     (use endpoint_direction [OF assms(1)] in \<open>simp add: flag_is plain_endpoint_def default_runtime_endpoint_def\<close>)

lemma s_reads_device:
  assumes "device_identity_ok d"
  shows "s_reads decode_session_device (session_device_bytes d) d"
proof -
  have fits: "string_fits (va_device_id d)" "string_fits (va_clsid d)" "string_fits (va_registry_name d)"
    "string_fits (va_broker_token d)"
    using assms by (simp_all add: device_identity_ok_def bounded_field_def string_fits_def)
  show ?thesis
    unfolding decode_session_device_def session_device_bytes_def concat.simps
    by (rule s_reads_intros fits flag_is(1))+ (simp add: flag_is)
qed

lemma s_reads_extension:
  assumes "runtime_endpoint_ok e" "string_fits (rt_device_group_id e)"
  shows "s_reads (decode_session_extension (plain_endpoint e)) (session_extension_bytes e) e"
  unfolding decode_session_extension_def session_extension_bytes_def concat.simps
  by (rule s_reads_intros assms(2) endpoint_backend [OF assms(1), THEN conjunct1])+
     (use endpoint_backend [OF assms(1)] in \<open>simp add: plain_endpoint_def\<close>)


lemma s_reads_if: "s_reads m xs x \<Longrightarrow> s_reads n ys x \<Longrightarrow> s_reads (if b then m else n) (if b then xs else ys) x"
  by simp

lemma s_reads_list:
  assumes "length xs < 2 ^ 32" "P (word_of_nat (length xs) :: u32)"
    and "\<And>x. x \<in> set xs \<Longrightarrow> s_reads m (g x) (d x)"
  shows "s_reads (s_bind (s_or message s_integer) (\<lambda>count :: u32. s_bind (s_check message2 (P count)) (\<lambda>_.
      s_repeat (unat count) m))) (list_bytes g xs) (map d xs)"
proof -
  have n: "unat (word_of_nat (length xs) :: u32) = length xs" using assms(1) by (simp add: unat_length_u32)
  have "s_reads (s_repeat (length (map d xs)) m) (concat (map (\<lambda>x. x) (map g xs))) (map d xs)"
    using assms(3)
  proof (induction xs)
    case Nil
    then show ?case by (simp add: s_reads_return)
  next
    case (Cons x xs)
    have "s_reads m (g x) (d x)" "s_reads (s_repeat (length (map d xs)) m) (concat (map (\<lambda>x. x) (map g xs))) (map d xs)"
      using Cons by auto
    then have "s_reads (s_bind m (\<lambda>y. s_bind (s_repeat (length (map d xs)) m) (\<lambda>ys. s_return (y # ys))))
        (g x @ concat (map (\<lambda>x. x) (map g xs)) @ []) (d x # map d xs)"
      by (blast intro: s_reads_bind s_reads_return)
    then show ?case by simp
  qed
  then have whole: "s_reads (s_repeat (unat (word_of_nat (length xs) :: u32)) m) (concat (map g xs)) (map d xs)"
    using n by simp
  show ?thesis
    unfolding list_bytes_def count_bytes_def
    by (rule s_reads_bind [OF s_reads_integers(3)], rule s_reads_check [OF assms(2) whole])
qed

text \<open>What the reader of a version sees of the endpoints before the extensions.\<close>

definition plain_endpoints :: "u16 \<Rightarrow> runtime_endpoint list \<Rightarrow> runtime_endpoint list" where
  "plain_endpoints v es = (if v \<ge> 2 then map plain_endpoint es else [])"

lemma s_reads_endpoints:
  assumes "length es \<le> kMaximumAudioRuntimeEndpoints"
    and "\<forall>e \<in> set es. runtime_endpoint_ok e \<and> string_fits (rt_endpoint_id e) \<and> string_fits (rt_device_id e)"
  shows "s_reads (decode_session_endpoints v) (if v \<ge> 2 then list_bytes session_endpoint_bytes es else []) (plain_endpoints v es)"
proof (cases "v \<ge> 2")
  case True
  have "s_reads (s_bind (s_or invalid_endpoint_list s_integer) (\<lambda>count :: u32. s_bind (s_check invalid_endpoint_list
      (unat count \<le> kMaximumAudioRuntimeEndpoints)) (\<lambda>_. s_repeat (unat count) decode_session_endpoint)))
      (list_bytes session_endpoint_bytes es) (map plain_endpoint es)"
    by (rule s_reads_list) (use assms s_reads_endpoint in \<open>auto simp: unat_length_u32 kMaximumAudioRuntimeEndpoints_def\<close>)
  then show ?thesis using True by (simp add: decode_session_endpoints_def plain_endpoints_def)
next
  case False
  then show ?thesis by (simp add: decode_session_endpoints_def plain_endpoints_def s_reads_return)
qed

lemma s_reads_channels:
  assumes "length cs \<le> kMaximumPhysicalAsioChannels"
  shows "length cs < 2 ^ 32" "unat (word_of_nat (length cs) :: u32) \<le> kMaximumPhysicalAsioChannels"
    "s_reads (s_repeat (unat (word_of_nat (length cs) :: u32)) (s_or message s_integer)) (concat (map le_bytes cs)) (cs :: u32 list)"
  using assms s_reads_repeat [of cs "s_or message s_integer" le_bytes] s_reads_integers(3)
  by (simp_all add: unat_length_u32 kMaximumPhysicalAsioChannels_def)

definition physical_fields :: "runtime_configuration \<Rightarrow> runtime_configuration \<Rightarrow> runtime_configuration" where
  "physical_fields c base = base\<lparr>rc_asio_driver_clsid := rc_asio_driver_clsid c,
     rc_asio_sample_rate := rc_asio_sample_rate c, rc_asio_block_frames := rc_asio_block_frames c,
     rc_asio_input_channels := rc_asio_input_channels c, rc_asio_output_channels := rc_asio_output_channels c\<rparr>"

lemma s_reads_physical_asio:
  assumes "length (rc_asio_driver_clsid c) \<le> 128"
    and "length (rc_asio_input_channels c) \<le> kMaximumPhysicalAsioChannels"
    and "length (rc_asio_output_channels c) \<le> kMaximumPhysicalAsioChannels" "v \<ge> 4"
  shows "s_reads (decode_physical_asio v base)
    (concat [string_bytes (rc_asio_driver_clsid c), le_bytes (rc_asio_sample_rate c),
       le_bytes (rc_asio_block_frames c), list_bytes le_bytes (rc_asio_input_channels c),
       list_bytes le_bytes (rc_asio_output_channels c)]) (physical_fields c base)"
proof -
  have fits: "string_fits (rc_asio_driver_clsid c)"
    using assms(1) by (simp add: string_fits_def kControlWireMaxStringBytes_def)
  show ?thesis
    unfolding decode_physical_asio_def if_P [OF assms(4)] list_bytes_def count_bytes_def concat.simps append_assoc
    by (rule s_reads_check [OF s_reads_channels(2) [OF assms(2)]] s_reads_check [OF s_reads_channels(2) [OF assms(3)]]
        s_reads_bind s_reads_channels(3) [OF assms(2)] s_reads_channels(3) [OF assms(3)]
        s_reads_integers s_reads_string [OF fits] s_reads_return)+
       (simp add: physical_fields_def)
qed


section \<open>The whole is read back\<close>

definition runtime_expressed :: "u16 \<Rightarrow> runtime_configuration \<Rightarrow> bool" where
  "runtime_expressed v c \<longleftrightarrow> validate_audio_runtime_configuration c True = [] \<and>
     runtime_mode_code (rc_mode c) \<le> ucast (maximum_runtime_mode v) \<and>
     string_fits (rc_capture_device_id c) \<and> string_fits (rc_render_device_id c) \<and>
     (\<forall>e \<in> set (rc_endpoints c). string_fits (rt_endpoint_id e) \<and> string_fits (rt_device_id e))"

lemma maximum_runtime_mode_values:
  "maximum_runtime_mode v = (if v \<ge> 4 then 4 else if v = 1 then 2 else 3)"
  by (simp add: maximum_runtime_mode_def)

lemma expressed_mode:
  assumes "runtime_expressed v c"
  shows "(ucast (runtime_mode_code (rc_mode c)) :: byte) \<le> maximum_runtime_mode v"
    and "runtime_mode_of (ucast (ucast (runtime_mode_code (rc_mode c)) :: byte)) = rc_mode c"
proof -
  have named: "\<forall>w. rc_mode c \<noteq> UnnamedMode w"
    using assms valid_configuration(1) by (auto simp: runtime_expressed_def)
  with assms show "(ucast (runtime_mode_code (rc_mode c)) :: byte) \<le> maximum_runtime_mode v"
    unfolding runtime_expressed_def maximum_runtime_mode_values by (cases "rc_mode c") (auto split: if_splits)
  show "runtime_mode_of (ucast (ucast (runtime_mode_code (rc_mode c)) :: byte)) = rc_mode c"
    using named by (simp add: small_code [OF runtime_mode_code_max [OF named]])
qed

text \<open>The configuration a version reads before the extensions; with them it is the one saved.\<close>

lemma s_reads_runtime:
  assumes "runtime_expressed v c" "1 \<le> v"
  shows "s_reads (decode_session_runtime v) (session_runtime_bytes v c)
    (c\<lparr>rc_endpoints := plain_endpoints v (rc_endpoints c)\<rparr>)"
proof -
  have valid: "validate_audio_runtime_configuration c True = []" using assms(1) by (simp add: runtime_expressed_def)
  note facts = valid_configuration [OF valid]
  have fits: "string_fits (rc_capture_device_id c)" "string_fits (rc_render_device_id c)"
    using assms(1) by (simp_all add: runtime_expressed_def)
  have es: "\<forall>e \<in> set (rc_endpoints c). runtime_endpoint_ok e \<and> string_fits (rt_endpoint_id e) \<and> string_fits (rt_device_id e)"
    using assms(1) facts(5) by (simp add: runtime_expressed_def)
  let ?base = "default_runtime_configuration\<lparr>rc_mode := runtime_mode_of (ucast (ucast (runtime_mode_code (rc_mode c)) :: byte)),
      rc_capture_device_id := rc_capture_device_id c, rc_render_device_id := rc_render_device_id c,
      rc_endpoints := plain_endpoints v (rc_endpoints c)\<rparr>"
  let ?asio = "if v \<ge> 4 then concat [string_bytes (rc_asio_driver_clsid c), le_bytes (rc_asio_sample_rate c),
        le_bytes (rc_asio_block_frames c), list_bytes le_bytes (rc_asio_input_channels c),
        list_bytes le_bytes (rc_asio_output_channels c)] else []"
  have asio: "s_reads (decode_physical_asio v ?base) (?asio @ []) (c\<lparr>rc_endpoints := plain_endpoints v (rc_endpoints c)\<rparr>)"
  proof (cases "v \<ge> 4")
    case True
    have "physical_fields c ?base = c\<lparr>rc_endpoints := plain_endpoints v (rc_endpoints c)\<rparr>"
      using expressed_mode(2) [OF assms(1)] by (simp add: physical_fields_def default_runtime_configuration_def)
    then show ?thesis using s_reads_physical_asio [OF facts(6-8) True, of ?base] True by simp
  next
    case False
    then have "rc_mode c \<noteq> PhysicalAsioMode"
      using assms(1) by (auto simp: runtime_expressed_def maximum_runtime_mode_values split: if_splits)
    then have "\<not> has_physical_asio_fields c" by (rule facts(3))
    then show ?thesis
      using False expressed_mode(2) [OF assms(1)]
      by (simp add: decode_physical_asio_def has_physical_asio_fields_def default_runtime_configuration_def s_reads_return)
  qed
  show ?thesis
    unfolding decode_session_runtime_def session_runtime_bytes_def concat.simps
    by (rule s_reads_check [OF expressed_mode(1) [OF assms(1)]] s_reads_bind s_reads_integers
        s_reads_string [OF fits(1)] s_reads_string [OF fits(2)] s_reads_endpoints [OF facts(4) es])+
       (use asio in \<open>simp only: concat.simps\<close>)
qed


lemma s_reads_devices:
  assumes "0 < length ds" "length ds \<le> kMaximumVirtualAsioDevices" "\<forall>d \<in> set ds. device_identity_ok d"
    and "v < 3 \<longrightarrow> ds = [default_virtual_asio_device_definition]"
  shows "s_reads (decode_session_devices v) (if v \<ge> 3 then list_bytes session_device_bytes ds else []) ds"
proof (cases "v \<ge> 3")
  case True
  have n: "length ds < 2 ^ 32" "unat (word_of_nat (length ds) :: u32) = length ds"
    using assms(2) by (simp_all add: kMaximumVirtualAsioDevices_def unat_length_u32)
  then have nonzero: "(word_of_nat (length ds) :: u32) \<noteq> 0" using assms(1) by (metis less_irrefl unsigned_0)
  have "s_reads (s_bind (s_or invalid_device_list s_integer) (\<lambda>count :: u32. s_bind (s_check invalid_device_list
      (count \<noteq> 0 \<and> unat count \<le> kMaximumVirtualAsioDevices)) (\<lambda>_. s_repeat (unat count) decode_session_device)))
      (list_bytes session_device_bytes ds) (map (\<lambda>d. d) ds)"
    by (rule s_reads_list) (use assms(2,3) n nonzero s_reads_device in auto)
  then show ?thesis using True by (simp add: decode_session_devices_def)
next
  case False
  then have ds: "ds = [default_virtual_asio_device_definition]" using assms(4) by (simp add: not_le)
  show ?thesis
    unfolding decode_session_devices_def if_not_P [OF False] ds by (rule s_reads_return) simp
qed

lemma s_reads_extensions:
  assumes "length es \<le> kMaximumAudioRuntimeEndpoints" "1 \<le> v"
    and "\<forall>e \<in> set es. runtime_endpoint_ok e \<and>
      (if v < 5 then rt_backend e = WasapiBackend else string_fits (rt_device_group_id e))"
    and "v = 1 \<longrightarrow> es = []"
  shows "s_reads (decode_session_extensions v (plain_endpoints v es))
    (if v \<ge> 5 then list_bytes session_extension_bytes es else []) es"
proof (cases "v \<ge> 5")
  case True
  then have "v \<ge> 2" by (simp add: word_le_nat_alt)
  then have plain: "plain_endpoints v es = map plain_endpoint es" by (simp add: plain_endpoints_def)
  have n: "unat (word_of_nat (length es) :: u32) = length (map plain_endpoint es)"
    using assms(1) by (simp add: kMaximumAudioRuntimeEndpoints_def unat_length_u32)
  have "s_reads (decode_session_extension (plain_endpoint e)) (session_extension_bytes e) e" if "e \<in> set es" for e
    using that assms(3) True by (auto intro: s_reads_extension simp: not_less)
  then have whole: "s_reads (s_each decode_session_extension (map plain_endpoint es)) (concat (map session_extension_bytes es)) es"
    by (rule s_reads_each)
  show ?thesis
    unfolding decode_session_extensions_def if_P [OF True] plain list_bytes_def count_bytes_def
    by (rule s_reads_bind, rule s_reads_integers(3), rule s_reads_check [OF n whole])
next
  case False
  then have old: "v < 5" by (simp add: not_le)
  have "plain_endpoint e = e" if "e \<in> set es" for e
    using that assms(3) old by (auto simp: plain_endpoint_def runtime_endpoint_ok_def)
  then have "map plain_endpoint es = es" by (simp add: map_idI)
  moreover have "v \<ge> 2 \<or> v = 1" using assms(2) by (auto simp: word_le_nat_alt word_unat_eq_iff)
  ultimately have "plain_endpoints v es = es" using assms(4) by (auto simp: plain_endpoints_def)
  then show ?thesis using False by (simp add: decode_session_extensions_def s_reads_return)
qed

lemma s_reads_header:
  assumes "1 \<le> v" "v \<le> 5" "length payload < 2 ^ 32"
  shows "decode_session_header (kSessionMagic @ le_bytes v @ le_bytes (0 :: u16) @
    le_bytes (word_of_nat (length payload) :: u32) @ payload) = Inr (v, payload)"
proof -
  have four: "length kSessionMagic = 4" by (simp add: kSessionMagic_def)
  have "s_or invalid_header (s_span 4) (kSessionMagic @ rest) = Inr (kSessionMagic, rest)" for rest
    using s_reads_span [of invalid_header kSessionMagic] by (simp add: s_reads_def four)
  moreover have "s_or invalid_header s_integer (le_bytes (h :: u16) @ rest) = Inr (h, rest)"
    "s_or invalid_header s_integer (le_bytes (w :: u32) @ rest) = Inr (w, rest)" for h w rest
    using s_reads_integers(2) [of invalid_header h] s_reads_integers(3) [of invalid_header w] by (simp_all add: s_reads_def)
  moreover have "v \<noteq> 0" using assms(1) by auto
  ultimately show ?thesis
    using assms(2,3)
    by (simp add: decode_session_header_def s_bind_def s_check_def s_return_def s_remaining_def
        kSessionFileVersion_def unat_length_u32)
qed


lemma s_step: "s_reads m xs x \<Longrightarrow> f x rest = r \<Longrightarrow> s_bind m f (xs @ rest) = r"
  by (simp add: s_reads_def s_bind_def)

lemma s_checked: "ok \<Longrightarrow> f () rest = r \<Longrightarrow> s_bind (s_check message ok) f rest = r"
  by (simp add: s_bind_def s_check_def s_return_def)

lemma s_at_end: "s_bind s_remaining f [] = f 0 []"
  by (simp add: s_bind_def s_remaining_def)

lemma version_one:
  assumes "runtime_mode_code (rc_mode c) \<le> ucast (maximum_runtime_mode 1)"
    and valid: "validate_audio_runtime_configuration c True = []"
  shows "rc_endpoints c = []"
proof -
  have "(ucast (maximum_runtime_mode 1) :: u32) = 2" by (simp add: maximum_runtime_mode_def word_le_nat_alt)
  then have "rc_mode c \<noteq> WasapiMatrix" using assms(1) by auto
  then show ?thesis by (rule valid_configuration(2) [OF valid])
qed

text \<open>What is left to read when the reader arrives at the extensions.\<close>

definition finish_session :: "session_document \<Rightarrow> runtime_endpoint list \<Rightarrow> session_document sstep" where
  "finish_session s es =
     s_bind s_remaining (\<lambda>remaining.
     s_bind (s_check invalid_runtime (remaining = 0)) (\<lambda>_.
     s_return \<lparr>sd_schema_version = kSessionDocumentSchemaVersion, sd_preset = sd_preset s,
       sd_audio_runtime = (sd_audio_runtime s)\<lparr>rc_endpoints := es\<rparr>,
       sd_virtual_asio_devices = sd_virtual_asio_devices s, sd_auto_start = sd_auto_start s\<rparr>))"

lemma session_prefix_read:
  assumes "session_document_ok s" "decode_preset_file pb = Inr (sd_preset s)"
    and "length pb < 2 ^ 32" "length (session_payload v schema pb s) < 2 ^ 32" "schema \<noteq> 0" "schema \<le> 2"
    and "1 \<le> v" "v \<le> 5" "runtime_mode_code (rc_mode (sd_audio_runtime s)) \<le> ucast (maximum_runtime_mode v)"
    and "v < 3 \<longrightarrow> sd_virtual_asio_devices s = [default_virtual_asio_device_definition]"
  shows "decode_session_body (session_file v schema pb s) =
    s_bind (decode_session_extensions v (plain_endpoints v (rc_endpoints (sd_audio_runtime s)))) (finish_session s)
      (if v \<ge> 5 then list_bytes session_extension_bytes (rc_endpoints (sd_audio_runtime s)) else [])"
proof -
  let ?c = "sd_audio_runtime s"
  have expressed: "runtime_expressed v ?c"
    using assms(1,9) by (auto simp: session_document_ok_def runtime_expressed_def bounded_field_def string_fits_def)
  have ds: "0 < length (sd_virtual_asio_devices s)" "length (sd_virtual_asio_devices s) \<le> kMaximumVirtualAsioDevices"
    "\<forall>d \<in> set (sd_virtual_asio_devices s). device_identity_ok d"
    using assms(1) by (simp_all add: session_document_ok_def)
  have schema: "schema \<noteq> 0 \<and> schema \<le> kSessionDocumentSchemaVersion"
    using assms(5,6) by (simp add: kSessionDocumentSchemaVersion_def)
  have size: "s_reads (s_or invalid_payload (s_span (unat (word_of_nat (length pb) :: u32)))) pb pb"
    using s_reads_span [of invalid_payload pb] assms(3) by (simp add: unat_length_u32)
  have p: "s_reads decode_session_preset (le_bytes schema @ count_bytes (length pb) @ pb @ []) (sd_preset s)"
    unfolding decode_session_preset_def count_bytes_def
    by (rule s_reads_bind s_reads_integers s_reads_check [OF schema] size)+ (simp add: assms(2) s_reads_return)
  have runtime: "s_reads (decode_session_runtime v) (session_runtime_bytes v ?c)
      (?c\<lparr>rc_endpoints := plain_endpoints v (rc_endpoints ?c)\<rparr>)"
    by (rule s_reads_runtime [OF expressed assms(7)])
  have version: "sd_schema_version s = kSessionDocumentSchemaVersion" using assms(1) by (simp add: session_document_ok_def)
  have flat: "session_payload v schema pb s = (le_bytes schema @ count_bytes (length pb) @ pb @ []) @
      session_runtime_bytes v ?c @ le_bytes (flag (sd_auto_start s)) @
      (if v \<ge> 3 then list_bytes session_device_bytes (sd_virtual_asio_devices s) else []) @
      (if v \<ge> 5 then list_bytes session_extension_bytes (rc_endpoints ?c) else [])"
    unfolding session_payload_def concat.simps by simp
  show ?thesis
    unfolding decode_session_body_def session_file_def
    apply (subst s_bind_def, subst s_reads_header [OF assms(7,8,4)], simp only: sum.case prod.case)
    apply (subst flat)
    apply (rule s_step [OF p], rule s_step [OF runtime], rule s_step [OF s_reads_integers(1)])
    apply (rule s_checked [OF flag_is(1)], rule s_step [OF s_reads_devices [OF ds assms(10)]])
    apply (simp add: finish_session_def [abs_def] flag_is version)
    done
qed

lemma session_payload_read:
  assumes "session_document_ok s" "version_expresses v s" "decode_preset_file pb = Inr (sd_preset s)"
    and "length pb < 2 ^ 32" "length (session_payload v schema pb s) < 2 ^ 32" "schema \<noteq> 0" "schema \<le> 2"
  shows "decode_session_body (session_file v schema pb s) = Inr (s, [])"
proof -
  let ?c = "sd_audio_runtime s"
  have v: "1 \<le> v" "v \<le> 5" "runtime_mode_code (rc_mode ?c) \<le> ucast (maximum_runtime_mode v)"
    "v < 3 \<longrightarrow> sd_virtual_asio_devices s = [default_virtual_asio_device_definition]"
    using assms(2) by (simp_all add: version_expresses_def)
  have valid: "validate_audio_runtime_configuration ?c True = []" using assms(1) by (simp add: session_document_ok_def)
  note facts = valid_configuration [OF valid]
  have es: "\<forall>e \<in> set (rc_endpoints ?c). runtime_endpoint_ok e \<and>
      (if v < 5 then rt_backend e = WasapiBackend else string_fits (rt_device_group_id e))"
    using assms(2) facts(5) by (simp add: version_expresses_def)
  have one: "v = 1 \<longrightarrow> rc_endpoints ?c = []" using v(3) version_one valid by blast
  have "s_bind (decode_session_extensions v (plain_endpoints v (rc_endpoints ?c))) (finish_session s)
      ((if v \<ge> 5 then list_bytes session_extension_bytes (rc_endpoints ?c) else []) @ []) = Inr (s, [])"
    by (rule s_step [OF s_reads_extensions [OF facts(4) v(1) es one]])
      (use assms(1) in \<open>simp add: finish_session_def session_document_ok_def s_bind_def s_check_def s_return_def s_remaining_def\<close>)
  then show ?thesis using session_prefix_read [OF assms(1,3-7) v] by simp
qed

section \<open>Preset files\<close>

lemma preset_file_carried:
  assumes "validate_preset p = []"
  shows "response_carried (preset_response i p)" "cr_preset (response_visible (preset_response i p)) = p"
    "cr_status (response_visible (preset_response i p)) = Accepted"
    "cr_has_preset (response_visible (preset_response i p))"
proof -
  have "\<forall>r \<in> set (pm_routes (pd_matrix p)). f32_finite (pr_gain r)"
    using assms by (simp add: validate_preset_Nil preset_wf_def)
  then show "response_carried (preset_response i p)"
    by (simp add: response_carried_def preset_response_def command_accepted_def default_response_def
        preset_carried_def preset_route_carried_def default_runtime_state_def default_runtime_configuration_def)
qed (simp_all add: response_visible_def preset_response_def command_accepted_def default_response_def)

lemma decode_response_bounds:
  assumes "snd (decode_control_response bytes) = None"
  shows "bytes \<noteq> []" "length bytes \<le> kControlWireMaxMessageBytes"
  using assms
  by (auto simp: decode_control_response_def decode_message_def make_reader_def r_fail_def Let_def
      kControlWireMaxMessageBytes_def kControlWireHeaderSize_def split: if_splits)

lemma preset_file_roundtrip:
  assumes "encode_preset_file p = Inr bytes"
  shows "decode_preset_file bytes = Inr p" "length bytes \<le> kControlWireMaxMessageBytes"
proof -
  have valid: "validate_preset p = []" using assms by (auto simp: encode_preset_file_def Let_def split: if_splits)
  with assms have "encode_control_response (preset_response ''preset-file'' p) = Inr bytes"
    by (auto simp: encode_preset_file_def Let_def split: sum.splits)
  with preset_file_carried(1) [OF valid] have run:
    "decode_control_response bytes = (response_visible (preset_response ''preset-file'' p), None)"
    by (intro response_roundtrip)
  have bounds: "bytes \<noteq> []" "length bytes \<le> kControlWireMaxMessageBytes"
    by (rule decode_response_bounds; simp add: run)+
  then show "length bytes \<le> kControlWireMaxMessageBytes" by blast
  show "decode_preset_file bytes = Inr p"
    using bounds valid preset_file_carried [OF valid] by (simp add: decode_preset_file_def run)
qed

section \<open>The encoder writes the layout of the current version\<close>

lemma append_parts:
  "append_integer b w = b @ le_bytes w" "append_string b v = b @ string_bytes v"
  "append_count b xs = b @ count_bytes (length xs)"
  by (simp_all add: append_integer_def append_string_def append_count_def string_bytes_def count_bytes_def)

lemma append_each: "(\<And>b x. f b x = b @ g x) \<Longrightarrow> foldl f b xs = b @ concat (map g xs)"
  by (induction xs arbitrary: b) simp_all

lemma append_items:
  "append_endpoint b e = b @ session_endpoint_bytes e" "append_device b d = b @ session_device_bytes d"
  "append_extension b e = b @ session_extension_bytes e"
  by (simp_all add: append_endpoint_def append_device_def append_extension_def append_parts Let_def
      session_endpoint_bytes_def session_device_bytes_def session_extension_bytes_def)

lemma append_session_bytes: "append_session b pb s = b @ session_payload 5 (sd_schema_version s) pb s"
proof -
  have five: "(2 :: u16) \<le> 5" "(3 :: u16) \<le> 5" "(4 :: u16) \<le> 5" by (simp_all add: word_le_nat_alt)
  note each = append_each [of append_endpoint, OF append_items(1)] append_each [of append_device, OF append_items(2)]
    append_each [of append_extension, OF append_items(3)] append_each [of append_integer, OF append_parts(1)]
  show ?thesis
    unfolding append_session_def append_runtime_def Let_def each append_parts session_payload_def
      session_runtime_bytes_def list_bytes_def concat.simps
    by (simp add: five append_each [of append_integer, OF append_parts(1)])
qed

lemma patch_size_bytes:
  assumes "length h = 8" "length z = 4"
  shows "patch_size (h @ z @ rest) n = h @ le_bytes n @ rest"
proof -
  have "length z = Suc (Suc (Suc (Suc 0)))" using assms(2) by simp
  then obtain a b c d where z: "z = [a, b, c, d]" by (auto simp: length_Suc_conv)
  have four: "[0..<4] = [0 :: nat, 1, 2, 3]" by (simp add: upt_rec)
  have at: "(h @ xs)[8 + i := v] = h @ xs[i := v]" for xs i v
    using assms(1) by (simp add: list_update_append)
  have step: "[0..<LENGTH(32) div 8] = [0, 1, 2, 3]" by (simp add: upt_rec)
  show ?thesis
    unfolding patch_size_def le_bytes_def four step z by (simp only: foldl.simps at) simp
qed

lemma encode_session_layout:
  assumes "encode_session_file s = Inr bytes"
  shows "\<exists>pb. encode_preset_file (sd_preset s) = Inr pb \<and> bytes = session_file 5 (sd_schema_version s) pb s \<and>
    length bytes \<le> kSessionFileMaxBytes \<and> validate_session_document s = []"
proof -
  from assms obtain pb where pb: "encode_preset_file (sd_preset s) = Inr pb" and ok: "validate_session_document s = []"
    and fits: "length (append_session session_header pb s) \<le> kSessionFileMaxBytes"
    and bytes: "bytes = patch_size (append_session session_header pb s)
      (word_of_nat (length (append_session session_header pb s) - kSessionHeaderSize))"
    by (auto simp: encode_session_file_def Let_def not_less split: if_splits sum.splits)
  let ?p = "session_payload 5 (sd_schema_version s) pb s"
  have header: "session_header = (kSessionMagic @ le_bytes (5 :: u16) @ le_bytes (0 :: u16)) @ le_bytes (0 :: u32)"
    by (simp add: session_header_def append_parts kSessionFileVersion_def)
  have len: "length (kSessionMagic @ le_bytes (5 :: u16) @ le_bytes (0 :: u16)) = 8" by (simp add: kSessionMagic_def)
  have "bytes = session_file 5 (sd_schema_version s) pb s"
    unfolding bytes append_session_bytes header append_assoc
    using patch_size_bytes [OF len, of "le_bytes (0 :: u32)" ?p] len
    by (simp add: session_file_def kSessionHeaderSize_def)
  moreover have "length bytes = length (append_session session_header pb s)"
    using calculation len by (simp add: append_session_bytes header session_file_def)
  ultimately show ?thesis using pb ok fits by auto
qed


section \<open>Properties\<close>

lemma session_ok: "validate_session_document s = [] \<longleftrightarrow> session_document_ok s"
  by (auto simp: validate_session_document_def session_document_ok_def Let_def validate_preset_Nil
      validate_devices_Nil not_less)

lemma session_file_length:
  "length (session_file v schema pb s) = 12 + length (session_payload v schema pb s)"
  by (simp add: session_file_def kSessionMagic_def)

lemma session_file_read:
  assumes "session_document_ok s" "version_expresses v s" "encode_preset_file (sd_preset s) = Inr pb"
    and "schema \<noteq> 0" "schema \<le> 2" "length (session_file v schema pb s) \<le> kSessionFileMaxBytes"
  shows "decode_session_file (session_file v schema pb s) = Inr s"
proof -
  have small: "length (session_payload v schema pb s) < 2 ^ 32" "length pb < 2 ^ 32"
    using assms(6) preset_file_roundtrip(2) [OF assms(3)]
    by (simp_all add: session_file_length kSessionFileMaxBytes_def kControlWireMaxMessageBytes_def)
  have "decode_session_body (session_file v schema pb s) = Inr (s, [])"
    by (rule session_payload_read [OF assms(1,2) preset_file_roundtrip(1) [OF assms(3)] small(2,1) assms(4,5)])
  moreover have "session_file v schema pb s \<noteq> []" by (metis list.size(3) session_file_length zero_neq_numeral add_is_0)
  ultimately show ?thesis
    using assms(1,6) by (simp add: decode_session_file_def session_ok Let_def)
qed

text \<open>
  A preset file is read back to the preset that was saved, whatever preset the encoder accepts.
\<close>

theorem preset_file_round_trip:
  assumes "encode_preset_file p = Inr bytes"
  shows "decode_preset_file bytes = Inr p"
  by (rule preset_file_roundtrip(1) [OF assms])



text \<open>
  Whatever bytes are read as a session, the session is valid and of the current schema.
\<close>

theorem session_file_decodes_valid:
  assumes "decode_session_file bytes = Inr s"
  shows "session_document_ok s \<and> bytes \<noteq> [] \<and> length bytes \<le> kSessionFileMaxBytes"
  using assms by (auto simp: decode_session_file_def Let_def session_ok not_less split: if_splits sum.splits)


section \<open>A saved session that cannot be read\<close>

lemma s_string_oversized:
  assumes "\<not> string_fits v" "length v < 2 ^ 32"
  shows "s_or message s_string (string_bytes v @ rest) = Inl (file_error message)"
proof -
  have n: "unat (word_of_nat (length v) :: u32) = length v" using assms(2) by (simp add: unat_length_u32)
  have "s_integer (le_bytes (word_of_nat (length v) :: u32) @ r) = Some (word_of_nat (length v) :: u32, r)" for r
    by (rule s_integer_le_bytes [where n = 4]) simp
  then show ?thesis
    using assms(1) by (simp add: s_or_def s_string_def string_bytes_def n string_fits_def)
qed

lemma extension_oversized:
  assumes "runtime_endpoint_ok e" "\<not> string_fits (rt_device_group_id e)" "length (rt_device_group_id e) < 2 ^ 32"
  shows "decode_session_extension d (session_extension_bytes e @ rest) = Inl (file_error invalid_extension)"
  unfolding decode_session_extension_def session_extension_bytes_def concat.simps append_assoc
  by (rule s_step [OF s_reads_integers(1)] s_checked [OF endpoint_backend [OF assms(1), THEN conjunct1]])+
     (simp add: s_bind_def s_string_oversized [OF assms(2,3)])

lemma extensions_oversized:
  assumes "\<forall>e \<in> set es. runtime_endpoint_ok e \<and> length (rt_device_group_id e) < 2 ^ 32"
    and "\<exists>e \<in> set es. \<not> string_fits (rt_device_group_id e)"
  shows "s_each decode_session_extension (map plain_endpoint es) (concat (map session_extension_bytes es) @ rest) =
    Inl (file_error invalid_extension)"
  using assms
proof (induction es)
  case (Cons e es)
  show ?case
  proof (cases "string_fits (rt_device_group_id e)")
    case True
    then have rest: "s_each decode_session_extension (map plain_endpoint es) (concat (map session_extension_bytes es) @ rest) =
        Inl (file_error invalid_extension)"
      using Cons by auto
    have "s_reads (decode_session_extension (plain_endpoint e)) (session_extension_bytes e) e"
      using Cons.prems(1) True by (auto intro: s_reads_extension)
    then show ?thesis using rest by (simp add: s_reads_def s_bind_def)
  next
    case False
    then show ?thesis using Cons.prems(1) by (simp add: s_bind_def extension_oversized)
  qed
qed simp


lemma oversized_unreadable:
  assumes "encode_session_file s = Inr bytes" "e \<in> set (rc_endpoints (sd_audio_runtime s))"
    and "\<not> string_fits (rt_device_group_id e)"
  shows "decode_session_file bytes = Inl (file_error invalid_extension)"
proof -
  let ?es = "rc_endpoints (sd_audio_runtime s)"
  obtain pb where pb: "encode_preset_file (sd_preset s) = Inr pb"
    and bytes: "bytes = session_file 5 (sd_schema_version s) pb s" "length bytes \<le> kSessionFileMaxBytes"
    and ok: "session_document_ok s"
    using encode_session_layout [OF assms(1)] session_ok by blast
  have valid: "validate_audio_runtime_configuration (sd_audio_runtime s) True = []"
    using ok by (simp add: session_document_ok_def)
  have five: "(1 :: u16) \<le> 5" "(5 :: u16) \<le> 5" "(4 :: u16) \<le> 5" "(2 :: u16) \<le> 5" "\<not> (5 :: u16) < 3"
    by (simp_all add: word_le_nat_alt)
  have payload: "length (session_payload 5 (sd_schema_version s) pb s) < 2 ^ 20"
    using bytes(2) unfolding bytes(1) session_file_length by (simp add: kSessionFileMaxBytes_def)
  have size: "length (concat (map session_extension_bytes ?es)) \<le> length (session_payload 5 (sd_schema_version s) pb s)"
    by (simp add: session_payload_def list_bytes_def five)
  have groups: "length (rt_device_group_id x) < 2 ^ 32" if "x \<in> set ?es" for x
  proof -
    have "length (rt_device_group_id x) \<le> length (session_extension_bytes x)"
      by (simp add: session_extension_bytes_def string_bytes_def)
    also have "\<dots> \<le> length (concat (map session_extension_bytes ?es))"
      using that by (simp add: length_concat member_le_sum_list)
    finally show ?thesis using size payload by simp
  qed
  have n: "unat (word_of_nat (length ?es) :: u32) = length (map plain_endpoint ?es)"
    using valid_configuration(4) [OF valid] by (simp add: kMaximumAudioRuntimeEndpoints_def unat_length_u32)
  have all: "\<forall>x \<in> set ?es. runtime_endpoint_ok x \<and> length (rt_device_group_id x) < 2 ^ 32"
    using groups valid_configuration(5) [OF valid] by simp
  have some: "\<exists>x \<in> set ?es. \<not> string_fits (rt_device_group_id x)" using assms(2,3) by blast
  have "decode_session_extensions 5 (plain_endpoints 5 ?es) (list_bytes session_extension_bytes ?es) =
      Inl (file_error invalid_extension)"
    unfolding decode_session_extensions_def list_bytes_def count_bytes_def plain_endpoints_def if_P [OF five(2)] if_P [OF five(4)]
    by (rule s_step [OF s_reads_integers(3)], rule s_checked [OF n])
      (use extensions_oversized [OF all some, of "[]"] in simp)
  moreover have "decode_session_body bytes = s_bind (decode_session_extensions 5 (plain_endpoints 5 ?es)) (finish_session s)
      (if (5 :: u16) \<ge> 5 then list_bytes session_extension_bytes ?es else [])"
    unfolding bytes(1)
  proof (rule session_prefix_read [OF ok preset_file_roundtrip(1) [OF pb] _ _ _ _ five(1,2)])
    show "length pb < 2 ^ 32" using preset_file_roundtrip(2) [OF pb] by (simp add: kControlWireMaxMessageBytes_def)
    show "length (session_payload 5 (sd_schema_version s) pb s) < 2 ^ 32" using payload by simp
    show "sd_schema_version s \<noteq> 0" "sd_schema_version s \<le> 2"
      using ok by (simp_all add: session_document_ok_def kSessionDocumentSchemaVersion_def)
    show "runtime_mode_code (rc_mode (sd_audio_runtime s)) \<le> ucast (maximum_runtime_mode 5)"
      using runtime_mode_code_max [OF valid_configuration(1) [OF valid]] by (simp add: maximum_runtime_mode_values five)
    show "5 < (3 :: u16) \<longrightarrow> sd_virtual_asio_devices s = [default_virtual_asio_device_definition]" by simp
  qed
  moreover have "bytes \<noteq> []" unfolding bytes(1) by (metis list.size(3) session_file_length zero_neq_numeral add_is_0)
  ultimately show ?thesis using bytes(2) by (simp add: decode_session_file_def s_bind_def)
qed


text \<open>A session that runs a physical ASIO device, whose group has the given id.\<close>

definition demo_asio_endpoint :: "string \<Rightarrow> runtime_endpoint" where
  "demo_asio_endpoint gid = default_runtime_endpoint\<lparr>rt_device_id := ''asio'', rt_channel_count := 2,
     rt_backend := PhysicalAsioBackend, rt_device_group_id := gid, rt_sample_rate := 48000, rt_block_frames := 64\<rparr>"

definition demo_session_document :: "string \<Rightarrow> session_document" where
  "demo_session_document gid = \<lparr>sd_schema_version = 2, sd_preset = demo_preset,
     sd_audio_runtime = default_runtime_configuration\<lparr>rc_mode := WasapiMatrix, rc_endpoints :=
       [(demo_asio_endpoint gid)\<lparr>rt_endpoint_id := ''in''\<rparr>,
        (demo_asio_endpoint gid)\<lparr>rt_endpoint_id := ''out'', rt_direction := Render, rt_clock_master := True\<rparr>]\<rparr>,
     sd_virtual_asio_devices = [default_virtual_asio_device_definition], sd_auto_start = True\<rparr>"

lemma demo_identity:
  "valid_clsid (va_clsid default_virtual_asio_device_definition)" "valid_token ''virtual-asio''" "valid_token ''default''"
proof -
  have inner: "[1..<37] = [1 :: nat, 2, 3, 4, 5, 6, 7, 8, 9, 10, 11, 12, 13, 14, 15, 16, 17, 18, 19, 20, 21, 22, 23, 24,
      25, 26, 27, 28, 29, 30, 31, 32, 33, 34, 35, 36]"
    by (simp add: upt_rec)
  show "valid_clsid (va_clsid default_virtual_asio_device_definition)"
    unfolding valid_clsid_def inner default_virtual_asio_device_definition_def by (simp add: is_xdigit_def between_def)
qed (simp_all add: valid_token_def is_alnum_def is_upper_def between_def)

lemma demo_device_ok: "device_identity_ok default_virtual_asio_device_definition"
  using demo_identity
  by (simp add: device_identity_ok_def default_virtual_asio_device_definition_def bounded_field_def
      kControlWireMaxStringBytes_def kVirtualAsioMaxChannels_def)

lemma demo_session_ok:
  assumes "gid \<noteq> []"
  shows "session_document_ok (demo_session_document gid)"
proof -
  let ?c = "sd_audio_runtime (demo_session_document gid)"
  have "asio_groups (rc_endpoints ?c) \<subseteq> {gid}"
    by (auto simp: asio_groups_def demo_session_document_def demo_asio_endpoint_def)
  then have "card (asio_groups (rc_endpoints ?c)) \<le> 1" using card_mono [of "{gid}"] by simp
  then have "matrix_endpoints_ok (rc_endpoints ?c)"
    using assms
    by (simp add: matrix_endpoints_ok_def demo_session_document_def demo_asio_endpoint_def default_runtime_endpoint_def
        runtime_endpoint_ok_def native_key_def asio_pair_ok_def asio_counterpart_def Let_def)
  then have "validate_audio_runtime_configuration ?c True = []"
    by (simp add: validate_audio_runtime_configuration_def validate_matrix_endpoints_Nil demo_session_document_def
        default_runtime_configuration_def has_physical_asio_fields_def kMaximumAudioRuntimeEndpoints_def)
  then show ?thesis
    using demo_preset_wf(1) demo_device_ok
    by (simp add: session_document_ok_def demo_session_document_def kSessionDocumentSchemaVersion_def
        default_runtime_configuration_def default_runtime_endpoint_def demo_asio_endpoint_def bounded_field_def
        kControlWireMaxStringBytes_def kMaximumVirtualAsioDevices_def)
qed

lemma demo_preset_file: "\<exists>pb. encode_preset_file demo_preset = Inr pb \<and> length pb < 1000"
proof -
  let ?x = "preset_response ''preset-file'' demo_preset"
  note defs = preset_response_def command_accepted_def default_response_def demo_preset_def default_preset_def
  have fits: "response_fits ?x"
    by (simp add: defs response_fits_def preset_fits_def preset_node_fits_def endpoint_fits_def preset_route_fits_def
        string_fits_def preset_node.list_fits_def endpoint.list_fits_def preset_route.list_fits_def error.list_fits_def
        count_fits_def extensions_fit_def default_runtime_state_def default_runtime_configuration_def
        kControlWireMaxStringBytes_def kControlWireMaxArrayElements_def)
  have len: "length (response_bytes ?x) < 900"
    by (simp add: defs response_bytes_def preset_bytes_def preset_node_bytes_def endpoint_bytes_def preset_route_bytes_def
        string_bytes_def list_bytes_def count_bytes_def bool_bytes_def default_runtime_state_def
        default_runtime_configuration_def)
  obtain pb where "encode_control_response ?x = Inr pb" "length pb = 12 + length (response_bytes ?x)"
    using encode_result [OF puts_response, of ?x kResponseKind] fits len
    unfolding encode_control_response_def by (auto simp: kControlWireMaxMessageBytes_def split: if_splits)
  moreover have "validate_preset demo_preset = []" using demo_preset_wf(1) by (simp add: validate_preset_Nil)
  ultimately show ?thesis using len by (auto simp: encode_preset_file_def)
qed

lemma demo_session_encodes:
  assumes "gid \<noteq> []" "length gid \<le> 100000"
  shows "\<exists>bytes. encode_session_file (demo_session_document gid) = Inr bytes"
proof -
  let ?s = "demo_session_document gid"
  obtain pb where pb: "encode_preset_file demo_preset = Inr pb" "length pb < 1000" using demo_preset_file by blast
  have five: "(2 :: u16) \<le> 5" "(3 :: u16) \<le> 5" "(4 :: u16) \<le> 5" by (simp_all add: word_le_nat_alt)
  have "length (session_payload 5 2 pb ?s) \<le> 300000"
    using pb(2) assms(2)
    by (simp add: session_payload_def session_runtime_bytes_def list_bytes_def count_bytes_def string_bytes_def five
        session_endpoint_bytes_def session_extension_bytes_def session_device_bytes_def demo_session_document_def
        demo_asio_endpoint_def default_runtime_endpoint_def default_runtime_configuration_def
        default_virtual_asio_device_definition_def)
  moreover have "length (append_session session_header pb ?s) = 12 + length (session_payload 5 2 pb ?s)"
    by (simp add: append_session_bytes session_header_def append_parts kSessionMagic_def demo_session_document_def)
  moreover have "validate_session_document ?s = []" using demo_session_ok [OF assms(1)] by (simp add: session_ok)
  moreover have "encode_preset_file (sd_preset ?s) = Inr pb" using pb(1) by (simp add: demo_session_document_def)
  ultimately show ?thesis using pb(2) by (simp add: encode_session_file_def Let_def kSessionFileMaxBytes_def)
qed


theorem preset_file_round_trip_witness:
  "\<exists>bytes. encode_preset_file demo_preset = Inr bytes \<and> decode_preset_file bytes = Inr demo_preset"
  using demo_preset_file preset_file_round_trip by blast


theorem session_file_decodes_valid_witness:
  "\<exists>bytes. decode_session_file bytes = Inr (demo_session_document ''asio'') \<and>
     session_document_ok (demo_session_document ''asio'')"
proof -
  obtain bytes where enc: "encode_session_file (demo_session_document ''asio'') = Inr bytes"
    using demo_session_encodes [of "''asio''"] by auto
  obtain pb where pb: "encode_preset_file (sd_preset (demo_session_document ''asio'')) = Inr pb"
    and bytes: "bytes = session_file 5 2 pb (demo_session_document ''asio'')" "length bytes \<le> kSessionFileMaxBytes"
    using encode_session_layout [OF enc] by (auto simp: demo_session_document_def)
  have "decode_session_file bytes = Inr (demo_session_document ''asio'')"
    unfolding bytes(1)
    by (rule session_file_read [OF demo_session_ok _ pb])
      (use bytes in \<open>simp_all add: version_expresses_def demo_session_document_def demo_asio_endpoint_def
        maximum_runtime_mode_def word_le_nat_alt string_fits_def kControlWireMaxStringBytes_def\<close>)
  with session_file_decodes_valid [of bytes] show ?thesis by blast
qed

text \<open>A session that the first version can express, in its layout and under the first schema.\<close>

definition demo_first_session :: session_document where
  "demo_first_session = (demo_session_document [])\<lparr>sd_audio_runtime := default_runtime_configuration\<lparr>rc_mode := WasapiDuplex,
     rc_capture_device_id := ''mic'', rc_render_device_id := ''speakers''\<rparr>\<rparr>"


text \<open>
  The encoder does not bound the group id of an endpoint and the reader does: a valid session whose
  endpoint has a longer group id is written to a file that is always refused.
\<close>

theorem oversized_group_is_unreadable:
  assumes "encode_session_file s = Inr bytes" "e \<in> set (rc_endpoints (sd_audio_runtime s))"
    and "\<not> string_fits (rt_device_group_id e)"
  shows "decode_session_file bytes = Inl (file_error ''Session runtime endpoint extension is invalid.'')"
  using oversized_unreadable [OF assms] by (simp add: invalid_extension_def)

theorem oversized_group_is_unreadable_witness:
  "\<exists>bytes. encode_session_file (demo_session_document (replicate 70000 CHR ''g'')) = Inr bytes \<and>
     decode_session_file bytes = Inl (file_error ''Session runtime endpoint extension is invalid.'')"
proof -
  let ?g = "replicate 70000 CHR ''g''"
  obtain bytes where enc: "encode_session_file (demo_session_document ?g) = Inr bytes"
    using demo_session_encodes [of ?g] by auto
  have "(demo_asio_endpoint ?g)\<lparr>rt_endpoint_id := ''in''\<rparr> \<in> set (rc_endpoints (sd_audio_runtime (demo_session_document ?g)))"
    by (simp add: demo_session_document_def)
  from oversized_group_is_unreadable [OF enc this] enc show ?thesis
    by (auto simp: demo_asio_endpoint_def string_fits_def kControlWireMaxStringBytes_def)
qed

end
