(* ===== verification/WasapiTransport.thy ===== *)
theory WasapiTransport
  imports SharedMemory
begin

text \<open>
  \<^verbatim>\<open>driver/windows_virtual_wasapi/virtual_wasapi_transport_abi.h\<close> and
  \<^verbatim>\<open>core/platform/virtual_wasapi_transport_layout.{h,cpp}\<close>: the header of the memory the engine
  shares with the virtual WASAPI driver, the layout computed for a configuration, and the validation of
  a header found in a mapping.
\<close>

section \<open>The ABI\<close>

definition vw_magic :: u32 where "vw_magic = 0x56574153"
definition vw_version :: u16 where "vw_version = 1"
definition vw_alignment :: u32 where "vw_alignment = 64"
definition vw_max_bytes :: u32 where "vw_max_bytes = 0x04000000"
definition vw_min_slots :: u32 where "vw_min_slots = 2"
definition vw_max_slots :: u32 where "vw_max_slots = 1024"
definition vw_max_channels :: u32 where "vw_max_channels = 256"
definition vw_max_frames_per_slot :: u32 where "vw_max_frames_per_slot = 8192"
definition vw_direction_render :: u32 where "vw_direction_render = 1"
definition vw_direction_capture :: u32 where "vw_direction_capture = 2"
definition vw_sample_pcm_int :: u32 where "vw_sample_pcm_int = 1"
definition vw_sample_ieee_float :: u32 where "vw_sample_ieee_float = 2"
definition vw_slot_flag_silent :: u32 where "vw_slot_flag_silent = 1"
definition vw_slot_flag_discontinuity :: u32 where "vw_slot_flag_discontinuity = 2"

text \<open>The sizes of the three structs, which the header asserts.\<close>

definition vw_header_bytes :: u32 where "vw_header_bytes = 128"
definition vw_ring_state_bytes :: u32 where "vw_ring_state_bytes = 128"
definition vw_slot_state_bytes :: u32 where "vw_slot_state_bytes = 64"

record vw_header =
  vh_magic :: u32
  vh_version :: u16
  vh_header_size :: u16
  vh_total_size :: u32
  vh_direction :: u32
  vh_sample_format :: u32
  vh_sample_rate :: u32
  vh_channel_count :: u32
  vh_bits_per_sample :: u32
  vh_valid_bits_per_sample :: u32
  vh_frames_per_slot :: u32
  vh_slot_count :: u32
  vh_ring_state_offset :: u32
  vh_ring_state_size :: u32
  vh_slot_table_offset :: u32
  vh_slot_stride :: u32
  vh_audio_data_offset :: u32
  vh_audio_slot_stride :: u32
  vh_reserved :: "u32 list"

record vw_config =
  vc_direction :: u32
  vc_sample_format :: u32
  vc_sample_rate :: u32
  vc_channel_count :: u32
  vc_bits_per_sample :: u32
  vc_valid_bits_per_sample :: u32
  vc_frames_per_slot :: u32
  vc_slot_count :: u32

datatype vw_layout_error =
  NullHeader | UnsupportedTransportVersion | InvalidDirection | InvalidFormat | InvalidRange
| ArithmeticOverflow | SizeMismatch | MisalignedOffset | OverlappingRegion | ReservedFieldNotZero

section \<open>Checked arithmetic\<close>

definition checked_multiply :: "u64 \<Rightarrow> u64 \<Rightarrow> u64 option" where
  "checked_multiply left right =
     (if left \<noteq> 0 \<and> right > - 1 div left then None else Some (left * right))"

definition checked_add :: "u64 \<Rightarrow> u64 \<Rightarrow> u64 option" where
  "checked_add left right = (if right > - 1 - left then None else Some (left + right))"

definition align_up_checked :: "u64 \<Rightarrow> u64 option" where
  "align_up_checked value =
     (case checked_add value (ucast vw_alignment - 1) of
        None \<Rightarrow> None
      | Some biased \<Rightarrow> Some (biased AND NOT (ucast vw_alignment - 1)))"

definition supported_format :: "u32 \<Rightarrow> u32 \<Rightarrow> u32 \<Rightarrow> bool" where
  "supported_format format bits valid_bits \<longleftrightarrow>
     (if format = vw_sample_ieee_float then bits = 32 \<and> valid_bits = 32
      else format = vw_sample_pcm_int \<and> (bits = 16 \<or> bits = 24 \<or> bits = 32) \<and>
        valid_bits > 0 \<and> valid_bits \<le> bits)"

definition aligned :: "u32 \<Rightarrow> bool" where
  "aligned value \<longleftrightarrow> value mod vw_alignment = 0"

definition region_ends_at_or_before :: "u32 \<Rightarrow> u32 \<Rightarrow> u32 \<Rightarrow> u32 \<Rightarrow> bool" where
  "region_ends_at_or_before offset stride count boundary \<longleftrightarrow>
     (ucast offset :: u64) + ucast stride * ucast count \<le> ucast boundary"

definition all_zero :: "u32 list \<Rightarrow> bool" where
  "all_zero values \<longleftrightarrow> (\<forall>v \<in> set values. v = 0)"

section \<open>The layout of a configuration\<close>

definition vw_range_ok :: "vw_config \<Rightarrow> bool" where
  "vw_range_ok c \<longleftrightarrow> \<not> (vc_sample_rate c < 8000 \<or> vc_sample_rate c > 768000 \<or> vc_channel_count c = 0 \<or>
     vc_channel_count c > vw_max_channels \<or> vc_frames_per_slot c = 0 \<or>
     vc_frames_per_slot c > vw_max_frames_per_slot \<or> vc_slot_count c < vw_min_slots \<or>
     vc_slot_count c > vw_max_slots)"

definition vw_audio_slot_bytes :: "vw_config \<Rightarrow> u64 option" where
  "vw_audio_slot_bytes c =
     Option.bind (checked_multiply (ucast (vc_channel_count c)) (ucast (vc_frames_per_slot c))) (\<lambda>samples.
     Option.bind (checked_multiply samples (ucast (vc_bits_per_sample c) div 8)) align_up_checked)"

text \<open>The offsets of the slot table and of the audio, and the whole size.\<close>

definition vw_offsets :: "u32 \<Rightarrow> u64 \<Rightarrow> (u64 \<times> u64 \<times> u64) option" where
  "vw_offsets slots audio_slot_bytes =
     Option.bind (align_up_checked (ucast vw_header_bytes + ucast vw_ring_state_bytes)) (\<lambda>slot_table_offset.
     Option.bind (checked_multiply (ucast vw_slot_state_bytes) (ucast slots)) (\<lambda>slot_table_bytes.
     Option.bind (checked_add slot_table_offset slot_table_bytes) (\<lambda>table_end.
     Option.bind (align_up_checked table_end) (\<lambda>audio_data_offset.
     Option.bind (checked_multiply audio_slot_bytes (ucast slots)) (\<lambda>audio_data_bytes.
     Option.bind (checked_add audio_data_offset audio_data_bytes) (\<lambda>audio_end.
     Option.bind (align_up_checked audio_end) (\<lambda>total_size.
     if total_size > ucast vw_max_bytes \<or> total_size > ucast (- 1 :: u32) then None
     else Some (slot_table_offset, audio_data_offset, total_size))))))))"

definition calculate_vw_layout :: "vw_config \<Rightarrow> vw_layout_error + vw_header" where
  "calculate_vw_layout c =
     (if vc_direction c \<noteq> vw_direction_render \<and> vc_direction c \<noteq> vw_direction_capture then Inl InvalidDirection
      else if \<not> supported_format (vc_sample_format c) (vc_bits_per_sample c) (vc_valid_bits_per_sample c)
        then Inl InvalidFormat
      else if \<not> vw_range_ok c then Inl InvalidRange
      else case vw_audio_slot_bytes c of
        None \<Rightarrow> Inl ArithmeticOverflow
      | Some audio_slot_bytes \<Rightarrow>
          (case vw_offsets (vc_slot_count c) audio_slot_bytes of
             None \<Rightarrow> Inl ArithmeticOverflow
           | Some (slot_table_offset, audio_data_offset, total_size) \<Rightarrow>
               Inr \<lparr>vh_magic = vw_magic, vh_version = vw_version, vh_header_size = ucast vw_header_bytes,
                 vh_total_size = ucast total_size, vh_direction = vc_direction c,
                 vh_sample_format = vc_sample_format c, vh_sample_rate = vc_sample_rate c,
                 vh_channel_count = vc_channel_count c, vh_bits_per_sample = vc_bits_per_sample c,
                 vh_valid_bits_per_sample = vc_valid_bits_per_sample c,
                 vh_frames_per_slot = vc_frames_per_slot c, vh_slot_count = vc_slot_count c,
                 vh_ring_state_offset = vw_header_bytes, vh_ring_state_size = vw_ring_state_bytes,
                 vh_slot_table_offset = ucast slot_table_offset, vh_slot_stride = vw_slot_state_bytes,
                 vh_audio_data_offset = ucast audio_data_offset, vh_audio_slot_stride = ucast audio_slot_bytes,
                 vh_reserved = replicate 15 0\<rparr>))"

section \<open>Validation of a header\<close>

definition vw_config_of :: "vw_header \<Rightarrow> vw_config" where
  "vw_config_of h = \<lparr>vc_direction = vh_direction h, vc_sample_format = vh_sample_format h,
     vc_sample_rate = vh_sample_rate h, vc_channel_count = vh_channel_count h,
     vc_bits_per_sample = vh_bits_per_sample h, vc_valid_bits_per_sample = vh_valid_bits_per_sample h,
     vc_frames_per_slot = vh_frames_per_slot h, vc_slot_count = vh_slot_count h\<rparr>"

definition vw_regions_ok :: "vw_header \<Rightarrow> bool" where
  "vw_regions_ok h \<longleftrightarrow>
     \<not> (vh_ring_state_size h \<noteq> vw_ring_state_bytes \<or> vh_slot_stride h \<noteq> vw_slot_state_bytes \<or>
        vh_ring_state_offset h < ucast (vh_header_size h) \<or>
        \<not> region_ends_at_or_before (vh_ring_state_offset h) (vh_ring_state_size h) 1 (vh_slot_table_offset h) \<or>
        \<not> region_ends_at_or_before (vh_slot_table_offset h) (vh_slot_stride h) (vh_slot_count h) (vh_audio_data_offset h) \<or>
        \<not> region_ends_at_or_before (vh_audio_data_offset h) (vh_audio_slot_stride h) (vh_slot_count h) (vh_total_size h))"

text \<open>\<open>None\<close> is \<^verbatim>\<open>VirtualWasapiLayoutError::None\<close>; the header is \<open>None\<close> for a null pointer.\<close>

definition validate_vw_layout :: "vw_header option \<Rightarrow> nat \<Rightarrow> u32 \<Rightarrow> vw_layout_error option" where
  "validate_vw_layout header mapped_bytes expected_direction =
     (case header of
        None \<Rightarrow> Some NullHeader
      | Some h \<Rightarrow>
          if mapped_bytes < unat vw_header_bytes \<or> vh_magic h \<noteq> vw_magic \<or> vh_version h \<noteq> vw_version \<or>
             vh_header_size h \<noteq> ucast vw_header_bytes then Some UnsupportedTransportVersion
          else if (vh_direction h \<noteq> vw_direction_render \<and> vh_direction h \<noteq> vw_direction_capture) \<or>
             (expected_direction \<noteq> 0 \<and> vh_direction h \<noteq> expected_direction) then Some InvalidDirection
          else if \<not> supported_format (vh_sample_format h) (vh_bits_per_sample h) (vh_valid_bits_per_sample h)
            then Some InvalidFormat
          else if \<not> all_zero (vh_reserved h) then Some ReservedFieldNotZero
          else if unat (vh_total_size h) > mapped_bytes \<or> vh_total_size h > vw_max_bytes \<or>
             vh_total_size h < vw_header_bytes then Some SizeMismatch
          else case calculate_vw_layout (vw_config_of h) of
            Inl e \<Rightarrow> Some e
          | Inr expected \<Rightarrow>
              if \<not> aligned (vh_ring_state_offset h) \<or> \<not> aligned (vh_slot_table_offset h) \<or>
                 \<not> aligned (vh_audio_data_offset h) \<or> \<not> aligned (vh_slot_stride h) \<or>
                 \<not> aligned (vh_audio_slot_stride h) then Some MisalignedOffset
              else if \<not> vw_regions_ok h then Some OverlappingRegion
              else if vh_total_size h \<noteq> vh_total_size expected \<or>
                 vh_ring_state_offset h \<noteq> vh_ring_state_offset expected \<or>
                 vh_slot_table_offset h \<noteq> vh_slot_table_offset expected \<or>
                 vh_audio_data_offset h \<noteq> vh_audio_data_offset expected \<or>
                 vh_audio_slot_stride h \<noteq> vh_audio_slot_stride expected then Some SizeMismatch
              else None)"

section \<open>The layout in natural numbers\<close>

lemma checked_are: "checked_add = add_checked" "checked_multiply = multiply_checked" "align_up_checked = align_checked"
  by (rule ext, rule ext, simp add: checked_add_def add_checked_def)
     (rule ext, rule ext, simp add: checked_multiply_def multiply_checked_def,
      rule ext, simp add: align_up_checked_def align_checked_def vw_alignment_def checked_add_def add_checked_def
        kVirtualAsioSharedMemoryAlignment_def)


lemma vw_numbers:
  "unat vw_max_bytes = 67108864" "unat vw_max_slots = 1024" "unat vw_max_channels = 256"
  "unat vw_max_frames_per_slot = 8192" "unat vw_header_bytes = 128" "unat vw_ring_state_bytes = 128"
  "unat vw_slot_state_bytes = 64" "unat vw_alignment = 64"
  by (simp_all add: vw_max_bytes_def vw_max_slots_def vw_max_channels_def vw_max_frames_per_slot_def vw_header_bytes_def
      vw_ring_state_bytes_def vw_slot_state_bytes_def vw_alignment_def)

lemma unat_ucast_u64 [simp]: "unat (ucast (w :: u32) :: u64) = unat w"
proof -
  have "unat w < 2 ^ 32" using unsigned_less [of w] by simp
  then show ?thesis by (simp add: unsigned_ucast_eq take_bit_nat_eq_self)
qed

lemma unat_ucast_u32: "unat (w :: u64) < 2 ^ 32 \<Longrightarrow> unat (ucast w :: u32) = unat w"
  by (simp add: unsigned_ucast_eq take_bit_nat_eq_self)

text \<open>Bytes of a frame, of an audio slot and of the whole, in natural numbers.\<close>

definition frame_bytes :: "vw_config \<Rightarrow> nat" where
  "frame_bytes c = unat (vc_channel_count c) * (unat (vc_bits_per_sample c) div 8)"

definition slot_audio_bytes :: "vw_config \<Rightarrow> nat" where
  "slot_audio_bytes c = align_up (unat (vc_frames_per_slot c) * frame_bytes c)"

definition transport_bytes :: "vw_config \<Rightarrow> nat" where
  "transport_bytes c = 256 + 64 * unat (vc_slot_count c) + unat (vc_slot_count c) * slot_audio_bytes c"

lemma supported_bytes: "supported_format f b v \<Longrightarrow> unat b div 8 \<in> {2, 3, 4}"
  by (auto simp: supported_format_def split: if_splits)

lemma range_nat:
  "vw_range_ok c \<longleftrightarrow> 8000 \<le> unat (vc_sample_rate c) \<and> unat (vc_sample_rate c) \<le> 768000 \<and>
     0 < unat (vc_channel_count c) \<and> unat (vc_channel_count c) \<le> 256 \<and>
     0 < unat (vc_frames_per_slot c) \<and> unat (vc_frames_per_slot c) \<le> 8192 \<and>
     2 \<le> unat (vc_slot_count c) \<and> unat (vc_slot_count c) \<le> 1024"
  by (auto simp: vw_range_ok_def word_less_nat_alt vw_numbers vw_min_slots_def not_less unat_gt_0)

lemma slot_audio_bounds:
  assumes "vw_range_ok c" "supported_format (vc_sample_format c) (vc_bits_per_sample c) (vc_valid_bits_per_sample c)"
  shows "frame_bytes c \<le> 1024" "0 < frame_bytes c" "slot_audio_bytes c \<le> 8388608" "64 dvd slot_audio_bytes c"
    "unat (vc_frames_per_slot c) * frame_bytes c \<le> slot_audio_bytes c"
proof -
  have b: "unat (vc_bits_per_sample c) div 8 \<le> 4" "0 < unat (vc_bits_per_sample c) div 8"
    using supported_bytes [OF assms(2)] by auto
  have r: "unat (vc_channel_count c) \<le> 256" "0 < unat (vc_channel_count c)" "unat (vc_frames_per_slot c) \<le> 8192"
    using assms(1) by (simp_all add: range_nat)
  have "frame_bytes c \<le> 256 * 4" unfolding frame_bytes_def by (rule mult_le_mono [OF r(1) b(1)])
  then show f: "frame_bytes c \<le> 1024" by simp
  show "0 < frame_bytes c" using r(2) b(2) by (simp add: frame_bytes_def)
  have "unat (vc_frames_per_slot c) * frame_bytes c \<le> 8192 * 1024" by (rule mult_le_mono [OF r(3) f])
  then show "slot_audio_bytes c \<le> 8388608"
    unfolding slot_audio_bytes_def align_up_def by simp
  show "64 dvd slot_audio_bytes c" "unat (vc_frames_per_slot c) * frame_bytes c \<le> slot_audio_bytes c"
    by (simp_all add: slot_audio_bytes_def align_up_bounds)
qed

lemma vw_audio_slot_bytes_eq:
  assumes "vw_range_ok c" "supported_format (vc_sample_format c) (vc_bits_per_sample c) (vc_valid_bits_per_sample c)"
  shows "\<exists>b. vw_audio_slot_bytes c = Some b \<and> unat b = slot_audio_bytes c"
proof -
  let ?ch = "ucast (vc_channel_count c) :: u64" and ?fr = "ucast (vc_frames_per_slot c) :: u64"
  let ?bs = "ucast (vc_bits_per_sample c) div 8 :: u64"
  have b: "unat ?bs = unat (vc_bits_per_sample c) div 8" by (simp add: unat_div)
  have r: "unat ?ch \<le> 256" "unat ?fr \<le> 8192" using assms(1) by (simp_all add: range_nat)
  have "unat ?ch * unat ?fr \<le> 256 * 8192" by (rule mult_le_mono [OF r])
  then have small: "unat ?ch * unat ?fr \<le> 2097152" by simp
  then have s: "unat (?ch * ?fr) = unat ?ch * unat ?fr" by (simp add: unat_word_ariths)
  have "unat ?bs \<le> 4" using supported_bytes [OF assms(2)] b by auto
  with small have "unat (?ch * ?fr) * unat ?bs \<le> 2097152 * 4" unfolding s by (rule mult_le_mono)
  then have t: "unat (?ch * ?fr) * unat ?bs \<le> 8388608" "unat (?ch * ?fr * ?bs) = unat ?ch * unat ?fr * unat ?bs"
    using s by (simp_all add: unat_word_ariths)
  then have "unat (?ch * ?fr * ?bs) + 63 < 2 ^ 64" using s by simp
  then obtain b where "align_checked (?ch * ?fr * ?bs) = Some b" "unat b = align_up (unat (?ch * ?fr * ?bs))"
    using align_checked_ex by blast
  moreover have "multiply_checked ?ch ?fr = Some (?ch * ?fr)" using small by (simp add: multiply_checked_Some)
  moreover have "multiply_checked (?ch * ?fr) ?bs = Some (?ch * ?fr * ?bs)" using t(1) by (simp add: multiply_checked_Some)
  ultimately show ?thesis
    unfolding vw_audio_slot_bytes_def checked_are slot_audio_bytes_def frame_bytes_def
    using t(2) b by (simp add: mult.assoc mult.left_commute)
qed

lemma vw_offset_numbers:
  assumes "unat slots \<le> 1024" "unat b \<le> 8388608"
  shows "unat (64 * ucast slots :: u64) = 64 * unat (slots :: u32)"
    and "unat (256 + 64 * ucast slots :: u64) = 256 + 64 * unat slots"
    and "unat b * unat slots \<le> 8589934592"
    and "unat (b * ucast slots) = unat b * unat slots"
    and "unat (256 + 64 * ucast slots + b * ucast slots :: u64) = 256 + 64 * unat slots + unat slots * unat b"
proof -
  let ?n = "ucast slots :: u64"
  have n: "unat ?n \<le> 1024" using assms(1) by simp
  show table: "unat (64 * ?n) = 64 * unat slots" using n by (simp add: unat_word_ariths)
  show audio0: "unat (256 + 64 * ?n) = 256 + 64 * unat slots" using n table by (simp add: unat_word_ariths)
  have "unat b * unat slots \<le> 8388608 * 1024" by (rule mult_le_mono [OF assms(2,1)])
  then show small: "unat b * unat slots \<le> 8589934592" by simp
  then show audio: "unat (b * ?n) = unat b * unat slots" by (simp add: unat_word_ariths)
  have "unat (256 + 64 * ?n) + unat (b * ?n) < 2 ^ LENGTH(64)" unfolding audio0 audio using small assms(1) by simp
  then have "unat (256 + 64 * ?n + b * ?n) = unat (256 + 64 * ?n) + unat (b * ?n)" by (rule unat_add_lem [THEN iffD1])
  then show "unat (256 + 64 * ?n + b * ?n) = 256 + 64 * unat slots + unat slots * unat b"
    unfolding audio0 audio by (simp add: mult.commute)
qed

lemma vw_offsets_eq:
  assumes "unat slots \<le> 1024" "unat b \<le> 8388608" "64 dvd unat b"
  shows "vw_offsets slots b =
    (if 256 + 64 * unat slots + unat slots * unat b \<le> 67108864
     then Some (256, 256 + 64 * ucast slots, 256 + 64 * ucast slots + b * ucast slots) else None)"
proof -
  let ?n = "ucast slots :: u64"
  have align: "align_checked w = Some w" if "64 dvd unat w" "unat w + 63 < 2 ^ 64" for w
    using align_checked_Some [of w w] that by simp
  have n: "unat ?n \<le> 1024" using assms(1) by simp
  note table = vw_offset_numbers(1) [OF assms(1,2)] and audio0 = vw_offset_numbers(2) [OF assms(1,2)]
    and small = vw_offset_numbers(3) [OF assms(1,2)] and audio = vw_offset_numbers(4) [OF assms(1,2)]
    and total = vw_offset_numbers(5) [OF assms(1,2)]
  have dvd: "64 dvd unat (256 + 64 * ?n)" "64 dvd unat (256 + 64 * ?n + b * ?n)"
    unfolding total audio0 using assms(3) by (simp_all add: dvd_add)
  have 1: "align_checked (256 :: u64) = Some 256" by (rule align) simp_all
  have 2: "multiply_checked 64 ?n = Some (64 * ?n)" using n by (simp add: multiply_checked_Some)
  have 3: "add_checked 256 (64 * ?n) = Some (256 + 64 * ?n)" using n table by (simp add: add_checked_Some)
  have 4: "align_checked (256 + 64 * ?n) = Some (256 + 64 * ?n)"
    by (rule align [OF dvd(1)]) (use audio0 assms(1) in simp)
  have 5: "multiply_checked b ?n = Some (b * ?n)" using small by (simp add: multiply_checked_Some)
  have 6: "add_checked (256 + 64 * ?n) (b * ?n) = Some (256 + 64 * ?n + b * ?n)"
    unfolding add_checked_Some audio audio0 using small assms(1) by simp
  have 7: "align_checked (256 + 64 * ?n + b * ?n) = Some (256 + 64 * ?n + b * ?n)"
    by (rule align [OF dvd(2)]) (unfold total, use small assms(1) in \<open>simp add: mult.commute\<close>)
  have sizes: "(ucast vw_header_bytes + ucast vw_ring_state_bytes :: u64) = 256" "(ucast vw_slot_state_bytes :: u64) = 64"
    by (simp_all add: vw_header_bytes_def vw_ring_state_bytes_def vw_slot_state_bytes_def)
  have max: "(256 + 64 * ?n + b * ?n > ucast vw_max_bytes \<or> 256 + 64 * ?n + b * ?n > ucast (- 1 :: u32)) \<longleftrightarrow>
      \<not> 256 + 64 * unat slots + unat slots * unat b \<le> 67108864"
    unfolding word_less_nat_alt total unat_ucast_u64 vw_numbers
    by (auto simp: unsigned_minus_1_eq_mask mask_eq_exp_minus_1)
  show ?thesis
    unfolding vw_offsets_def checked_are sizes by (simp add: 1 2 3 4 5 6 7 max)
qed


section \<open>When a layout exists and what it is\<close>

definition vw_config_ok :: "vw_config \<Rightarrow> bool" where
  "vw_config_ok c \<longleftrightarrow> (vc_direction c = vw_direction_render \<or> vc_direction c = vw_direction_capture) \<and>
     supported_format (vc_sample_format c) (vc_bits_per_sample c) (vc_valid_bits_per_sample c) \<and>
     vw_range_ok c \<and> transport_bytes c \<le> 67108864"

definition header_of_config :: "vw_config \<Rightarrow> vw_header" where
  "header_of_config c = \<lparr>vh_magic = vw_magic, vh_version = vw_version, vh_header_size = 128,
     vh_total_size = word_of_nat (transport_bytes c), vh_direction = vc_direction c,
     vh_sample_format = vc_sample_format c, vh_sample_rate = vc_sample_rate c,
     vh_channel_count = vc_channel_count c, vh_bits_per_sample = vc_bits_per_sample c,
     vh_valid_bits_per_sample = vc_valid_bits_per_sample c, vh_frames_per_slot = vc_frames_per_slot c,
     vh_slot_count = vc_slot_count c, vh_ring_state_offset = 128, vh_ring_state_size = 128,
     vh_slot_table_offset = 256, vh_slot_stride = 64,
     vh_audio_data_offset = word_of_nat (256 + 64 * unat (vc_slot_count c)),
     vh_audio_slot_stride = word_of_nat (slot_audio_bytes c), vh_reserved = replicate 15 0\<rparr>"

lemma calculate_vw_layout_iff: "calculate_vw_layout c = Inr h \<longleftrightarrow> vw_config_ok c \<and> h = header_of_config c"
proof (cases "(vc_direction c = vw_direction_render \<or> vc_direction c = vw_direction_capture) \<and>
    supported_format (vc_sample_format c) (vc_bits_per_sample c) (vc_valid_bits_per_sample c) \<and> vw_range_ok c")
  case True
  then have ok: "supported_format (vc_sample_format c) (vc_bits_per_sample c) (vc_valid_bits_per_sample c)" "vw_range_ok c"
    by simp_all
  obtain b where b: "vw_audio_slot_bytes c = Some b" "unat b = slot_audio_bytes c"
    using vw_audio_slot_bytes_eq [OF ok(2,1)] by blast
  have slots: "unat (vc_slot_count c) \<le> 1024" using ok(2) by (simp add: range_nat)
  note bounds = slot_audio_bounds [OF ok(2,1)]
  have off: "vw_offsets (vc_slot_count c) b = (if transport_bytes c \<le> 67108864
      then Some (256, 256 + 64 * ucast (vc_slot_count c), 256 + 64 * ucast (vc_slot_count c) + b * ucast (vc_slot_count c)) else None)"
    using vw_offsets_eq [OF slots, of b] b(2) bounds(3,4) by (simp add: transport_bytes_def)
  have small: "unat b \<le> 8388608" using b(2) bounds(3) by simp
  have cast: "(ucast (w :: u64) :: u32) = word_of_nat (unat w)" for w by simp
  have words: "ucast (256 :: u64) = (256 :: u32)"
    "ucast (256 + 64 * ucast (vc_slot_count c) :: u64) = (word_of_nat (256 + 64 * unat (vc_slot_count c)) :: u32)"
    "ucast (256 + 64 * ucast (vc_slot_count c) + b * ucast (vc_slot_count c)) = (word_of_nat (transport_bytes c) :: u32)"
    "ucast b = (word_of_nat (slot_audio_bytes c) :: u32)"
    unfolding transport_bytes_def b(2) [symmetric]
    by (simp, unfold cast, simp_all only: vw_offset_numbers [OF slots small])
  show ?thesis
    using True b(1) off by (auto simp: calculate_vw_layout_def vw_config_ok_def header_of_config_def words
        vw_header_bytes_def vw_ring_state_bytes_def vw_slot_state_bytes_def)
next
  case False
  then show ?thesis by (auto simp: calculate_vw_layout_def vw_config_ok_def)
qed


lemma config_of_header [simp]: "vw_config_of (header_of_config c) = c"
  by (simp add: vw_config_of_def header_of_config_def)

lemma unat_of_small: "n < 2 ^ 32 \<Longrightarrow> unat (word_of_nat n :: u32) = n"
  by (simp add: unsigned_of_nat take_bit_nat_eq_self)

lemma header_numbers:
  assumes "vw_config_ok c"
  shows "unat (vh_total_size (header_of_config c)) = transport_bytes c"
    and "unat (vh_audio_data_offset (header_of_config c)) = 256 + 64 * unat (vc_slot_count c)"
    and "unat (vh_audio_slot_stride (header_of_config c)) = slot_audio_bytes c"
    and "unat (vc_slot_count c) \<le> 1024" "2 \<le> unat (vc_slot_count c)" "slot_audio_bytes c \<le> 8388608"
    "64 dvd slot_audio_bytes c" "unat (vc_frames_per_slot c) * frame_bytes c \<le> slot_audio_bytes c"
    "transport_bytes c \<le> 67108864"
proof -
  have ok: "supported_format (vc_sample_format c) (vc_bits_per_sample c) (vc_valid_bits_per_sample c)" "vw_range_ok c"
    "transport_bytes c \<le> 67108864"
    using assms by (simp_all add: vw_config_ok_def)
  note bounds = slot_audio_bounds [OF ok(2,1)]
  show "unat (vc_slot_count c) \<le> 1024" "2 \<le> unat (vc_slot_count c)" using ok(2) by (simp_all add: range_nat)
  then have small: "transport_bytes c < 2 ^ 32" "256 + 64 * unat (vc_slot_count c) < 2 ^ 32" "slot_audio_bytes c < 2 ^ 32"
    using ok(3) bounds(3) by simp_all
  show "unat (vh_total_size (header_of_config c)) = transport_bytes c"
    "unat (vh_audio_data_offset (header_of_config c)) = 256 + 64 * unat (vc_slot_count c)"
    "unat (vh_audio_slot_stride (header_of_config c)) = slot_audio_bytes c"
    unfolding header_of_config_def by (simp_all only: vw_header.select_convs unat_of_small [OF small(1)]
      unat_of_small [OF small(2)] unat_of_small [OF small(3)])
qed (use assms in \<open>auto simp: vw_config_ok_def intro: slot_audio_bounds\<close>)

lemma region_nat:
  assumes "unat stride * unat count < 2 ^ 63"
  shows "region_ends_at_or_before offset stride count boundary \<longleftrightarrow> unat offset + unat stride * unat count \<le> unat boundary"
proof -
  have m: "unat ((ucast stride :: u64) * ucast count) = unat stride * unat count"
    using assms by (simp add: unat_word_ariths)
  have "unat offset < 2 ^ 32" using unsigned_less [of offset] by simp
  then have "unat (ucast offset :: u64) + unat ((ucast stride :: u64) * ucast count) < 2 ^ LENGTH(64)"
    unfolding m using assms by simp
  then have "unat ((ucast offset :: u64) + ucast stride * ucast count) = unat offset + unat stride * unat count"
    using m by (simp add: unat_add_lem [THEN iffD1])
  then show ?thesis by (simp add: region_ends_at_or_before_def word_le_nat_alt)
qed

lemma header_regions:
  assumes "vw_config_ok c"
  shows "vw_regions_ok (header_of_config c)"
    and "\<forall>w \<in> {vh_ring_state_offset (header_of_config c), vh_slot_table_offset (header_of_config c),
      vh_audio_data_offset (header_of_config c), vh_slot_stride (header_of_config c),
      vh_audio_slot_stride (header_of_config c)}. aligned w"
proof -
  let ?h = "header_of_config c"
  note n = header_numbers [OF assms]
  have strides: "vh_ring_state_offset ?h = 128" "vh_ring_state_size ?h = 128" "vh_slot_table_offset ?h = 256"
    "vh_slot_stride ?h = 64" "vh_header_size ?h = 128" "vh_slot_count ?h = vc_slot_count c"
    by (simp_all add: header_of_config_def)
  have prod: "slot_audio_bytes c * unat (vc_slot_count c) \<le> 8388608 * 1024" by (rule mult_le_mono [OF n(6,4)])
  have "region_ends_at_or_before 128 128 1 256" by (simp add: region_nat)
  moreover have "region_ends_at_or_before 256 64 (vc_slot_count c) (vh_audio_data_offset ?h)"
    using n(2,4) by (simp add: region_nat)
  moreover have "region_ends_at_or_before (vh_audio_data_offset ?h) (vh_audio_slot_stride ?h) (vc_slot_count c) (vh_total_size ?h)"
    using prod by (subst region_nat) (simp_all add: n(1-3) transport_bytes_def mult.commute)
  ultimately show "vw_regions_ok ?h"
    by (simp add: vw_regions_ok_def strides vw_ring_state_bytes_def vw_slot_state_bytes_def)
  have al: "aligned w" if "64 dvd unat w" for w
    using that by (simp add: aligned_def vw_alignment_def word_unat_eq_iff unat_mod)
  show "\<forall>w \<in> {vh_ring_state_offset ?h, vh_slot_table_offset ?h, vh_audio_data_offset ?h, vh_slot_stride ?h,
      vh_audio_slot_stride ?h}. aligned w"
    using al n(2,3,7) by (auto simp: strides)
qed

lemma validate_vw_layout_iff:
  "length (vh_reserved h) = 15 \<and> validate_vw_layout (Some h) mapped dir = None \<longleftrightarrow>
     (\<exists>c. vw_config_ok c \<and> h = header_of_config c) \<and> unat (vh_total_size h) \<le> mapped \<and>
     (dir = 0 \<or> vh_direction h = dir)"
    (is "?l \<longleftrightarrow> ?r")
proof
  assume l: ?l
  then obtain expected where e: "calculate_vw_layout (vw_config_of h) = Inr expected"
    by (auto simp: validate_vw_layout_def split: if_splits sum.splits)
  then have c: "vw_config_ok (vw_config_of h)" "expected = header_of_config (vw_config_of h)"
    by (simp_all add: calculate_vw_layout_iff)
  have facts: "vh_magic h = vw_magic" "vh_version h = vw_version" "vh_header_size h = ucast vw_header_bytes"
    "all_zero (vh_reserved h)" "vw_regions_ok h" "vh_total_size h = vh_total_size expected"
    "vh_ring_state_offset h = vh_ring_state_offset expected" "vh_slot_table_offset h = vh_slot_table_offset expected"
    "vh_audio_data_offset h = vh_audio_data_offset expected" "vh_audio_slot_stride h = vh_audio_slot_stride expected"
    and rest: "unat (vh_total_size h) \<le> mapped" "dir = 0 \<or> vh_direction h = dir"
    using l e by (simp_all add: validate_vw_layout_def not_less split: if_split_asm)
  have zero: "vh_reserved h = replicate 15 0"
    using l facts(4) by (simp add: all_zero_def replicate_eqI)
  have sizes: "vh_ring_state_size h = 128" "vh_slot_stride h = 64"
    using facts(5) by (simp_all add: vw_regions_ok_def vw_ring_state_bytes_def vw_slot_state_bytes_def)
  have "h = header_of_config (vw_config_of h)"
    by (rule vw_header.equality)
      (simp_all add: facts(1-3,6-10) sizes zero, simp_all add: c(2) header_of_config_def vw_config_of_def vw_header_bytes_def)
  with rest c(1) show ?r by blast
next
  assume r: ?r
  then obtain c where c: "vw_config_ok c" "h = header_of_config c" by blast
  have "transport_bytes c \<ge> 256" by (simp add: transport_bytes_def)
  then have total: "\<not> vh_total_size h > vw_max_bytes" "\<not> vh_total_size h < vw_header_bytes" "unat vw_header_bytes \<le> mapped"
    using header_numbers(1,9) [OF c(1)] r c(2) by (simp_all add: word_less_nat_alt vw_numbers)
  have fields: "vh_magic h = vw_magic" "vh_version h = vw_version" "vh_header_size h = ucast vw_header_bytes"
    "vh_direction h = vc_direction c" "vh_sample_format h = vc_sample_format c" "length (vh_reserved h) = 15"
    "vh_bits_per_sample h = vc_bits_per_sample c" "vh_valid_bits_per_sample h = vc_valid_bits_per_sample c"
    "all_zero (vh_reserved h)"
    by (simp_all add: c(2) header_of_config_def vw_header_bytes_def all_zero_def)
  have calc: "calculate_vw_layout (vw_config_of h) = Inr h" using c by (simp add: calculate_vw_layout_iff)
  have "validate_vw_layout (Some h) mapped dir = None"
    using header_regions [OF c(1), folded c(2)] c(1) r fields total calc
    by (auto simp: validate_vw_layout_def vw_config_ok_def)
  with fields(6) show ?l by blast
qed


section \<open>Properties\<close>

text \<open>
  A header is accepted exactly when it is the layout computed for some valid configuration, fits the
  mapping and has the expected direction; no other header of the ABI is.
\<close>

theorem transport_header_accepted_iff:
  "length (vh_reserved h) = 15 \<and> validate_vw_layout (Some h) mapped dir = None \<longleftrightarrow>
     (\<exists>c. calculate_vw_layout c = Inr h) \<and> unat (vh_total_size h) \<le> mapped \<and> (dir = 0 \<or> vh_direction h = dir)"
  unfolding validate_vw_layout_iff calculate_vw_layout_iff by blast

end
