(* ===== verification/TransportRing.thy ===== *)
theory TransportRing
  imports WasapiTransport WireFormat
begin

text \<open>
  \<^verbatim>\<open>core/platform/virtual_wasapi_transport_ring.h\<close>: the packet ring in the memory shared with the
  virtual WASAPI driver. The mapping is its header, the ring state, the slot table and the audio slots,
  which the layout keeps apart. One side pushes and the other pops; the atomic fields are the plain reads
  and writes of one side's view, and the peer may write anything into the slots.
\<close>

section \<open>State\<close>

datatype vw_packet_status = VwCompleted | VwEmpty | VwFull | VwInvalidPacket

record vw_packet =
  vp_frames :: u32
  vp_flags :: u32
  vp_device_position :: u64
  vp_qpc_position :: u64

record vw_counters =
  vk_produced_frames :: u64
  vk_consumed_frames :: u64
  vk_dropped_frames :: u64
  vk_silence_frames :: u64
  vk_malformed_packets :: u64

record vw_ring_state =
  vr_producer_sequence :: u64
  vr_consumer_sequence :: u64
  vr_generation :: u64
  vr_counters :: vw_counters
  vr_flags :: u32

record vw_slot =
  vs_sequence :: u64
  vs_frame_count :: u32
  vs_flags :: u32
  vs_device_position :: u64
  vs_qpc_position :: u64

record vw_transport =
  vt_header :: vw_header
  vt_state :: vw_ring_state
  vt_slots :: "vw_slot list"
  vt_audio :: "byte list list"

definition zero_counters :: vw_counters where
  "zero_counters = \<lparr>vk_produced_frames = 0, vk_consumed_frames = 0, vk_dropped_frames = 0,
     vk_silence_frames = 0, vk_malformed_packets = 0\<rparr>"

text \<open>
  The whole mapping is cleared and the header copied in. The flag says that the memory is there and
  aligned.
\<close>

definition vw_initialize :: "bool \<Rightarrow> nat \<Rightarrow> vw_header \<Rightarrow> vw_transport option" where
  "vw_initialize memory_ok bytes header =
     (if \<not> memory_ok \<or> validate_vw_layout (Some header) bytes 0 \<noteq> None then None
      else Some \<lparr>vt_header = header,
        vt_state = \<lparr>vr_producer_sequence = 0, vr_consumer_sequence = 0, vr_generation = 0,
          vr_counters = zero_counters, vr_flags = 0\<rparr>,
        vt_slots = replicate (unat (vh_slot_count header)) \<lparr>vs_sequence = 0, vs_frame_count = 0, vs_flags = 0,
          vs_device_position = 0, vs_qpc_position = 0\<rparr>,
        vt_audio = replicate (unat (vh_slot_count header)) (replicate (unat (vh_audio_slot_stride header)) 0)\<rparr>)"

definition vw_attach :: "bool \<Rightarrow> nat \<Rightarrow> u32 \<Rightarrow> vw_transport \<Rightarrow> vw_transport option" where
  "vw_attach memory_ok bytes direction t =
     (if \<not> memory_ok \<or> bytes < unat vw_header_bytes then None
      else if validate_vw_layout (Some (vt_header t)) bytes direction \<noteq> None then None else Some t)"

section \<open>Operations\<close>

definition vw_bytes_per_frame :: "vw_header \<Rightarrow> nat" where
  "vw_bytes_per_frame h = unat (vh_channel_count h) * (unat (vh_bits_per_sample h) div 8)"

definition vw_slot_index :: "vw_transport \<Rightarrow> u64 \<Rightarrow> nat" where
  "vw_slot_index t sequence = unat (sequence mod ucast (vh_slot_count (vt_header t)))"

abbreviation vw_slot_at :: "vw_transport \<Rightarrow> u64 \<Rightarrow> vw_slot" where
  "vw_slot_at t sequence \<equiv> vt_slots t ! vw_slot_index t sequence"

abbreviation vw_audio_at :: "vw_transport \<Rightarrow> u64 \<Rightarrow> byte list" where
  "vw_audio_at t sequence \<equiv> vt_audio t ! vw_slot_index t sequence"

abbreviation vt_producer :: "vw_transport \<Rightarrow> u64" where
  "vt_producer t \<equiv> vr_producer_sequence (vt_state t)"

abbreviation vt_consumer :: "vw_transport \<Rightarrow> u64" where
  "vt_consumer t \<equiv> vr_consumer_sequence (vt_state t)"

definition vw_count :: "(vw_counters \<Rightarrow> vw_counters) \<Rightarrow> vw_transport \<Rightarrow> vw_transport" where
  "vw_count f t = t\<lparr>vt_state := (vt_state t)\<lparr>vr_counters := f (vr_counters (vt_state t))\<rparr>\<rparr>"

definition vw_malformed :: "vw_transport \<Rightarrow> vw_transport" where
  "vw_malformed = vw_count (\<lambda>k. k\<lparr>vk_malformed_packets := vk_malformed_packets k + 1\<rparr>)"

definition known_flags :: "u32 \<Rightarrow> bool" where
  "known_flags flags \<longleftrightarrow> flags AND NOT (vw_slot_flag_silent OR vw_slot_flag_discontinuity) = 0"

definition is_silent :: "u32 \<Rightarrow> bool" where
  "is_silent flags \<longleftrightarrow> flags AND vw_slot_flag_silent \<noteq> 0"

definition packet_refused :: "vw_header \<Rightarrow> byte list \<Rightarrow> vw_packet \<Rightarrow> bool" where
  "packet_refused h audio p \<longleftrightarrow> vp_frames p = 0 \<or> vp_frames p > vh_frames_per_slot h \<or>
     \<not> known_flags (vp_flags p) \<or>
     (if \<not> is_silent (vp_flags p) then length audio \<noteq> unat (vp_frames p) * vw_bytes_per_frame h else audio \<noteq> [])"

definition vw_push :: "byte list \<Rightarrow> vw_packet \<Rightarrow> vw_transport \<Rightarrow> vw_packet_status \<times> vw_transport" where
  "vw_push audio p t =
     (if packet_refused (vt_header t) audio p then (VwInvalidPacket, vw_malformed t)
      else
        let producer = vt_producer t; consumer = vt_consumer t
        in if producer < consumer \<or> producer - consumer \<ge> ucast (vh_slot_count (vt_header t))
           then (VwFull, vw_count (\<lambda>k. k\<lparr>vk_dropped_frames := vk_dropped_frames k + ucast (vp_frames p)\<rparr>) t)
           else
             let i = vw_slot_index t producer;
                 t1 = (if is_silent (vp_flags p) then t
                       else t\<lparr>vt_audio := (vt_audio t)[i := audio @ drop (length audio) (vt_audio t ! i)]\<rparr>);
                 t2 = t1\<lparr>vt_slots := (vt_slots t1)[i := \<lparr>vs_sequence = producer + 1, vs_frame_count = vp_frames p,
                   vs_flags = vp_flags p, vs_device_position = vp_device_position p, vs_qpc_position = vp_qpc_position p\<rparr>]\<rparr>;
                 t3 = vw_count (\<lambda>k. k\<lparr>vk_produced_frames := vk_produced_frames k + ucast (vp_frames p)\<rparr>) t2
             in (VwCompleted, t3\<lparr>vt_state := (vt_state t3)\<lparr>vr_producer_sequence := producer + 1\<rparr>\<rparr>))"

definition slot_malformed :: "vw_transport \<Rightarrow> u64 \<Rightarrow> vw_slot \<Rightarrow> bool" where
  "slot_malformed t consumer s \<longleftrightarrow> vs_sequence s \<noteq> consumer + 1 \<or> vs_frame_count s = 0 \<or>
     vs_frame_count s > vh_frames_per_slot (vt_header t) \<or> \<not> known_flags (vs_flags s)"

definition slot_packet :: "vw_slot \<Rightarrow> vw_packet" where
  "slot_packet s = \<lparr>vp_frames = vs_frame_count s, vp_flags = vs_flags s,
     vp_device_position = vs_device_position s, vp_qpc_position = vs_qpc_position s\<rparr>"

definition advance_consumer :: "u64 \<Rightarrow> vw_transport \<Rightarrow> vw_transport" where
  "advance_consumer consumer t = t\<lparr>vt_state := (vt_state t)\<lparr>vr_consumer_sequence := consumer + 1\<rparr>\<rparr>"

text \<open>The capacity is the size of the destination; the bytes delivered are its first ones afterwards.\<close>

definition vw_pop :: "nat \<Rightarrow> vw_transport \<Rightarrow> vw_packet_status \<times> (vw_packet \<times> byte list) option \<times> vw_transport" where
  "vw_pop capacity t =
     (let consumer = vt_consumer t; producer = vt_producer t
      in if consumer = producer then (VwEmpty, None, t)
         else if consumer > producer \<or> producer - consumer > ucast (vh_slot_count (vt_header t))
         then (VwInvalidPacket, None, vw_malformed t)
         else
           let s = vw_slot_at t consumer
           in if slot_malformed t consumer s then (VwInvalidPacket, None, advance_consumer consumer (vw_malformed t))
              else
                let packet_bytes = unat (vs_frame_count s) * vw_bytes_per_frame (vt_header t)
                in if capacity < packet_bytes then (VwInvalidPacket, None, vw_malformed t)
                   else
                     let silent = is_silent (vs_flags s);
                         audio = (if silent then replicate packet_bytes 0 else take packet_bytes (vw_audio_at t consumer));
                         t1 = (if silent then vw_count (\<lambda>k. k\<lparr>vk_silence_frames := vk_silence_frames k + ucast (vs_frame_count s)\<rparr>) t
                               else t);
                         t2 = vw_count (\<lambda>k. k\<lparr>vk_consumed_frames := vk_consumed_frames k + ucast (vs_frame_count s)\<rparr>) t1
                     in (VwCompleted, Some (slot_packet s, audio), advance_consumer consumer t2))"

definition vw_queued_slots :: "vw_transport \<Rightarrow> nat" where
  "vw_queued_slots t =
     (if vt_producer t \<le> vt_consumer t then 0
      else let queued = vt_producer t - vt_consumer t
           in if queued > ucast (vh_slot_count (vt_header t)) then unat (vh_slot_count (vt_header t)) else unat queued)"

definition counted_frames :: "vw_transport \<Rightarrow> u64 \<Rightarrow> nat" where
  "counted_frames t sequence =
     (let s = vw_slot_at t sequence
      in if vs_sequence s = sequence + 1 \<and> vs_frame_count s \<le> vh_frames_per_slot (vt_header t)
         then unat (vs_frame_count s) else 0)"

definition vw_queued_frames :: "vw_transport \<Rightarrow> nat" where
  "vw_queued_frames t =
     (if vt_producer t \<le> vt_consumer t \<or> vt_producer t - vt_consumer t > ucast (vh_slot_count (vt_header t)) then 0
      else sum_list (map (\<lambda>k. counted_frames t (vt_consumer t + word_of_nat k))
        [0..<unat (vt_producer t - vt_consumer t)]))"

section \<open>The queue the ring stands for\<close>

text \<open>The packet in the slot of a sequence number, with its bytes.\<close>

definition vt_item :: "vw_transport \<Rightarrow> nat \<Rightarrow> vw_packet \<times> byte list" where
  "vt_item t sequence =
     (let i = sequence mod unat (vh_slot_count (vt_header t)); s = vt_slots t ! i;
          n = unat (vs_frame_count s) * vw_bytes_per_frame (vt_header t)
      in (slot_packet s, if is_silent (vs_flags s) then replicate n 0 else take n (vt_audio t ! i)))"

definition vt_items :: "vw_transport \<Rightarrow> (vw_packet \<times> byte list) list" where
  "vt_items t = map (vt_item t) [unat (vt_consumer t)..<unat (vt_producer t)]"

definition vt_live_ok :: "vw_transport \<Rightarrow> nat \<Rightarrow> bool" where
  "vt_live_ok t sequence \<longleftrightarrow>
     (let s = vt_slots t ! (sequence mod unat (vh_slot_count (vt_header t)))
      in unat (vs_sequence s) = sequence + 1 \<and> 0 < vs_frame_count s \<and>
         vs_frame_count s \<le> vh_frames_per_slot (vt_header t) \<and> known_flags (vs_flags s))"

definition vt_inv :: "vw_transport \<Rightarrow> bool" where
  "vt_inv t \<longleftrightarrow> (\<exists>c. vw_config_ok c \<and> vt_header t = header_of_config c) \<and>
     length (vt_slots t) = unat (vh_slot_count (vt_header t)) \<and>
     length (vt_audio t) = unat (vh_slot_count (vt_header t)) \<and>
     (\<forall>a \<in> set (vt_audio t). length a = unat (vh_audio_slot_stride (vt_header t))) \<and>
     unat (vt_consumer t) \<le> unat (vt_producer t) \<and>
     unat (vt_producer t) \<le> unat (vt_consumer t) + unat (vh_slot_count (vt_header t)) \<and>
     (\<forall>k \<in> {unat (vt_consumer t)..<unat (vt_producer t)}. vt_live_ok t k)"


section \<open>One call refines the queue\<close>

record vw_queue =
  vq_items :: "(vw_packet \<times> byte list) list"
  vq_counters :: vw_counters

definition packet_bytes :: "vw_header \<Rightarrow> byte list \<Rightarrow> vw_packet \<Rightarrow> byte list" where
  "packet_bytes h audio p =
     (if is_silent (vp_flags p) then replicate (unat (vp_frames p) * vw_bytes_per_frame h) 0 else audio)"

definition vq_push :: "vw_header \<Rightarrow> byte list \<Rightarrow> vw_packet \<Rightarrow> vw_queue \<Rightarrow> vw_packet_status \<times> vw_queue" where
  "vq_push h audio p q =
     (let k = vq_counters q
      in if packet_refused h audio p
         then (VwInvalidPacket, q\<lparr>vq_counters := k\<lparr>vk_malformed_packets := vk_malformed_packets k + 1\<rparr>\<rparr>)
         else if length (vq_items q) \<ge> unat (vh_slot_count h)
         then (VwFull, q\<lparr>vq_counters := k\<lparr>vk_dropped_frames := vk_dropped_frames k + ucast (vp_frames p)\<rparr>\<rparr>)
         else (VwCompleted, \<lparr>vq_items = vq_items q @ [(p, packet_bytes h audio p)],
           vq_counters = k\<lparr>vk_produced_frames := vk_produced_frames k + ucast (vp_frames p)\<rparr>\<rparr>))"

definition vq_pop :: "nat \<Rightarrow> vw_queue \<Rightarrow> vw_packet_status \<times> (vw_packet \<times> byte list) option \<times> vw_queue" where
  "vq_pop capacity q =
     (let k = vq_counters q
      in case vq_items q of
           [] \<Rightarrow> (VwEmpty, None, q)
         | (p, bs) # rest \<Rightarrow>
             if capacity < length bs
             then (VwInvalidPacket, None, q\<lparr>vq_counters := k\<lparr>vk_malformed_packets := vk_malformed_packets k + 1\<rparr>\<rparr>)
             else (VwCompleted, Some (p, bs), \<lparr>vq_items = rest,
               vq_counters = k\<lparr>vk_silence_frames := vk_silence_frames k + (if is_silent (vp_flags p) then ucast (vp_frames p) else 0),
                 vk_consumed_frames := vk_consumed_frames k + ucast (vp_frames p)\<rparr>\<rparr>))"

definition vt_queue :: "vw_transport \<Rightarrow> vw_queue" where
  "vt_queue t = \<lparr>vq_items = vt_items t, vq_counters = vr_counters (vt_state t)\<rparr>"

lemma vw_slot_index_nat: "vw_slot_index t w = unat w mod unat (vh_slot_count (vt_header t))"
  by (simp add: vw_slot_index_def unat_mod)

lemma vt_inv_slots: "vt_inv t \<Longrightarrow> 2 \<le> unat (vh_slot_count (vt_header t)) \<and> unat (vh_slot_count (vt_header t)) \<le> 1024"
  using header_numbers(4,5) by (auto simp: vt_inv_def header_of_config_def)

lemma vw_count_simps [simp]:
  "vt_header (vw_count f t) = vt_header t" "vt_slots (vw_count f t) = vt_slots t" "vt_audio (vw_count f t) = vt_audio t"
  "vt_producer (vw_count f t) = vt_producer t" "vt_consumer (vw_count f t) = vt_consumer t"
  "vr_counters (vt_state (vw_count f t)) = f (vr_counters (vt_state t))"
  by (simp_all add: vw_count_def)

lemma vt_item_cong: "vt_header t' = vt_header t \<Longrightarrow> vt_slots t' = vt_slots t \<Longrightarrow> vt_audio t' = vt_audio t \<Longrightarrow>
    vt_item t' = vt_item t"
  by (simp add: vt_item_def fun_eq_iff Let_def cong: if_cong)

lemma vt_inv_cong: "vt_header t' = vt_header t \<Longrightarrow> vt_slots t' = vt_slots t \<Longrightarrow> vt_audio t' = vt_audio t \<Longrightarrow>
    vt_producer t' = vt_producer t \<Longrightarrow> vt_consumer t' = vt_consumer t \<Longrightarrow> vt_inv t' = vt_inv t"
  by (simp add: vt_inv_def vt_live_ok_def)

lemma vw_count_inv [simp]: "vt_inv (vw_count f t) = vt_inv t"
  by (rule vt_inv_cong) simp_all

lemma vw_count_items [simp]: "vt_items (vw_count f t) = vt_items t"
  by (simp add: vt_items_def vt_item_cong [of "vw_count f t" t])

lemma length_vt_items: "length (vt_items t) = unat (vt_producer t) - unat (vt_consumer t)"
  by (simp add: vt_items_def)

lemma push_room:
  assumes "vt_inv t"
  shows "(vt_producer t < vt_consumer t \<or> vt_producer t - vt_consumer t \<ge> ucast (vh_slot_count (vt_header t))) \<longleftrightarrow>
    length (vt_items t) \<ge> unat (vh_slot_count (vt_header t))"
proof -
  have le: "vt_consumer t \<le> vt_producer t" using assms by (simp add: vt_inv_def word_le_nat_alt)
  then show ?thesis by (auto simp: length_vt_items word_le_nat_alt unat_sub word_less_nat_alt not_less)
qed

text \<open>Different live sequence numbers use different slots.\<close>

lemma live_slots_apart:
  assumes "k < p" "p < k + n"
  shows "k mod n \<noteq> p mod (n :: nat)"
proof
  assume "k mod n = p mod n"
  then have "p mod n = k mod n" by simp
  then obtain q where "p = k + n * q" using mod_eq_nat1E [of p n k] assms(1) by auto
  with assms show False by (cases q) auto
qed


lemma vt_inv_header:
  assumes "vt_inv t"
  shows "\<exists>c. vw_config_ok c \<and> vt_header t = header_of_config c \<and> vw_bytes_per_frame (vt_header t) = frame_bytes c"
  using assms by (auto simp: vt_inv_def vw_bytes_per_frame_def frame_bytes_def header_of_config_def)

lemma packet_fits_slot:
  assumes "vt_inv t" "frames \<le> vh_frames_per_slot (vt_header t)"
  shows "unat frames * vw_bytes_per_frame (vt_header t) \<le> unat (vh_audio_slot_stride (vt_header t))"
proof -
  obtain c where c: "vw_config_ok c" "vt_header t = header_of_config c" "vw_bytes_per_frame (vt_header t) = frame_bytes c"
    using vt_inv_header [OF assms(1)] by blast
  have "unat frames \<le> unat (vc_frames_per_slot c)"
    using assms(2) by (simp add: c(2) header_of_config_def word_le_nat_alt)
  then have "unat frames * frame_bytes c \<le> unat (vc_frames_per_slot c) * frame_bytes c" by (rule mult_le_mono1)
  also have "\<dots> \<le> slot_audio_bytes c" by (rule header_numbers(8) [OF c(1)])
  finally show ?thesis using header_numbers(3) [OF c(1)] c(2,3) by simp
qed

lemma push_accepted:
  assumes inv: "vt_inv t" and fresh: "unat (vt_producer t) + 1 < 2 ^ 64"
    and ok: "\<not> packet_refused (vt_header t) audio p" and room: "length (vt_items t) < unat (vh_slot_count (vt_header t))"
  defines "t' \<equiv> snd (vw_push audio p t)"
  shows "fst (vw_push audio p t) = VwCompleted" "vt_inv t'" "vt_items t' = vt_items t @ [(p, packet_bytes (vt_header t) audio p)]"
    "vr_counters (vt_state t') = (vr_counters (vt_state t))\<lparr>vk_produced_frames :=
       vk_produced_frames (vr_counters (vt_state t)) + ucast (vp_frames p)\<rparr>"
    "vt_header t' = vt_header t" "unat (vt_producer t') = unat (vt_producer t) + 1"
proof -
  let ?n = "unat (vh_slot_count (vt_header t))" and ?h = "vt_header t"
  let ?i = "unat (vt_producer t) mod ?n"
  let ?c = "unat (vt_consumer t)" and ?p = "unat (vt_producer t)"
  let ?slot = "\<lparr>vs_sequence = vt_producer t + 1, vs_frame_count = vp_frames p, vs_flags = vp_flags p,
    vs_device_position = vp_device_position p, vs_qpc_position = vp_qpc_position p\<rparr>"
  let ?audio = "if is_silent (vp_flags p) then vt_audio t else (vt_audio t)[?i := audio @ drop (length audio) (vt_audio t ! ?i)]"
  have n: "2 \<le> ?n" "?n \<le> 1024" using vt_inv_slots [OF inv] by simp_all
  have i: "?i < ?n" using n by simp
  have len: "length (vt_slots t) = ?n" "length (vt_audio t) = ?n" using inv by (simp_all add: vt_inv_def)
  have cp: "?c \<le> ?p" "?p < ?c + ?n" using inv room by (auto simp: vt_inv_def length_vt_items)
  have no: "\<not> (vt_producer t < vt_consumer t \<or> vt_producer t - vt_consumer t \<ge> ucast (vh_slot_count ?h))"
    using push_room [OF inv] room by simp
  have run: "vw_push audio p t = (VwCompleted, t')"
    "vt_slots t' = (vt_slots t)[?i := ?slot]" "vt_audio t' = ?audio" "vt_header t' = ?h"
    "vt_producer t' = vt_producer t + 1" "vt_consumer t' = vt_consumer t"
    "vr_counters (vt_state t') = (vr_counters (vt_state t))\<lparr>vk_produced_frames :=
       vk_produced_frames (vr_counters (vt_state t)) + ucast (vp_frames p)\<rparr>"
    using ok no by (simp_all add: t'_def vw_push_def Let_def vw_slot_index_nat vw_count_def)
  show "fst (vw_push audio p t) = VwCompleted" "vt_header t' = ?h" using run by simp_all
  show "vr_counters (vt_state t') = (vr_counters (vt_state t))\<lparr>vk_produced_frames :=
       vk_produced_frames (vr_counters (vt_state t)) + ucast (vp_frames p)\<rparr>" by (rule run(7))
  have next_p: "unat (vt_producer t + 1) = ?p + 1" using fresh by (simp add: unat_word_ariths)
  then show "unat (vt_producer t') = ?p + 1" using run(5) by simp
  have valid: "0 < vp_frames p" "vp_frames p \<le> vh_frames_per_slot ?h" "known_flags (vp_flags p)"
    using ok by (auto simp: packet_refused_def not_less unat_gt_0 word_gt_0)
  have other: "k mod ?n \<noteq> ?i" if "?c \<le> k" "k < ?p" for k
    using live_slots_apart [of k ?p ?n] that cp by auto
  have old_item: "vt_item t' k = vt_item t k" if "?c \<le> k" "k < ?p" for k
    using other [OF that] by (simp add: vt_item_def run Let_def cong: if_cong)
  have audio_len: "length audio \<le> length (vt_audio t ! ?i)" if "\<not> is_silent (vp_flags p)"
  proof -
    have "vt_audio t ! ?i \<in> set (vt_audio t)" using i len by simp
    then have "length (vt_audio t ! ?i) = unat (vh_audio_slot_stride ?h)" using inv by (simp add: vt_inv_def)
    moreover have "length audio = unat (vp_frames p) * vw_bytes_per_frame ?h"
      using ok that by (simp add: packet_refused_def)
    ultimately show ?thesis using packet_fits_slot [OF inv valid(2)] by simp
  qed
  have new_item: "vt_item t' ?p = (p, packet_bytes ?h audio p)"
  proof -
    have "slot_packet ?slot = p" by (simp add: slot_packet_def)
    moreover have "length audio = unat (vp_frames p) * vw_bytes_per_frame ?h" if "\<not> is_silent (vp_flags p)"
      using ok that by (simp add: packet_refused_def)
    ultimately show ?thesis
      using i len by (simp add: vt_item_def run Let_def packet_bytes_def)
  qed
  have range: "[?c..<unat (vt_producer t + 1)] = [?c..<?p] @ [?p]" using cp(1) next_p by simp
  show "vt_items t' = vt_items t @ [(p, packet_bytes ?h audio p)]"
    unfolding vt_items_def run(5,6) range by (simp add: old_item new_item)
  have live: "vt_live_ok t' k" if "?c \<le> k" "k < ?p + 1" for k
  proof (cases "k = ?p")
    case True
    then show ?thesis using i len valid next_p by (simp add: vt_live_ok_def run)
  next
    case False
    then have k: "k < ?p" using that by simp
    then have "vt_live_ok t k" using inv that(1) by (simp add: vt_inv_def)
    then show ?thesis using other [OF that(1) k] by (simp add: vt_live_ok_def run)
  qed
  have "\<forall>a \<in> set ?audio. length a = unat (vh_audio_slot_stride ?h)"
    using inv audio_len i len by (auto simp: vt_inv_def dest!: set_update_subset_insert [THEN subsetD])
  then show "vt_inv t'"
  proof -
    assume audio: "\<forall>a \<in> set ?audio. length a = unat (vh_audio_slot_stride ?h)"
    have "length ?audio = ?n" using len by simp
    moreover have "\<exists>c. vw_config_ok c \<and> ?h = header_of_config c" using inv by (simp add: vt_inv_def)
    moreover have "\<forall>k \<in> {?c..<?p + 1}. vt_live_ok t' k" using live by simp
    ultimately show ?thesis
      unfolding vt_inv_def run(2-6) next_p using audio len cp by simp
  qed
qed


lemma push_refines:
  assumes "vt_inv t" "unat (vt_producer t) + 1 < 2 ^ 64"
  shows "fst (vw_push audio p t) = fst (vq_push (vt_header t) audio p (vt_queue t)) \<and>
    vt_queue (snd (vw_push audio p t)) = snd (vq_push (vt_header t) audio p (vt_queue t)) \<and>
    vt_inv (snd (vw_push audio p t)) \<and> vt_header (snd (vw_push audio p t)) = vt_header t \<and>
    unat (vt_producer (snd (vw_push audio p t))) \<le> unat (vt_producer t) + 1"
proof (cases "packet_refused (vt_header t) audio p")
  case True
  then show ?thesis using assms(1) by (simp add: vw_push_def vq_push_def vt_queue_def Let_def vw_malformed_def)
next
  case ok: False
  show ?thesis
  proof (cases "length (vt_items t) < unat (vh_slot_count (vt_header t))")
    case True
    note run = push_accepted [OF assms ok True]
    show ?thesis using run ok True by (simp add: vq_push_def vt_queue_def Let_def not_le)
  next
    case False
    then have "vw_push audio p t = (VwFull, vw_count (\<lambda>k. k\<lparr>vk_dropped_frames := vk_dropped_frames k + ucast (vp_frames p)\<rparr>) t)"
      using push_room [OF assms(1)] ok by (auto simp: vw_push_def Let_def)
    then show ?thesis using ok False assms(1) by (simp add: vq_push_def vt_queue_def Let_def not_less)
  qed
qed

lemma pop_refines:
  assumes inv: "vt_inv t"
  shows "fst (vw_pop n t) = fst (vq_pop n (vt_queue t)) \<and> fst (snd (vw_pop n t)) = fst (snd (vq_pop n (vt_queue t))) \<and>
    vt_queue (snd (snd (vw_pop n t))) = snd (snd (vq_pop n (vt_queue t))) \<and> vt_inv (snd (snd (vw_pop n t))) \<and>
    vt_header (snd (snd (vw_pop n t))) = vt_header t \<and> vt_producer (snd (snd (vw_pop n t))) = vt_producer t"
proof (cases "vt_consumer t = vt_producer t")
  case True
  then have "vt_items t = []" by (simp add: vt_items_def)
  then show ?thesis using True inv by (simp add: vw_pop_def vq_pop_def vt_queue_def Let_def)
next
  case False
  let ?c = "unat (vt_consumer t)" and ?p = "unat (vt_producer t)" and ?h = "vt_header t"
  let ?s = "vw_slot_at t (vt_consumer t)" and ?b = "unat (vs_frame_count (vw_slot_at t (vt_consumer t))) * vw_bytes_per_frame (vt_header t)"
  have le: "?c \<le> ?p" "?p \<le> ?c + unat (vh_slot_count ?h)" using inv by (simp_all add: vt_inv_def)
  with False have lt: "?c < ?p" by (metis le_neq_implies_less word_unat_eq_iff)
  have ranges: "\<not> (vt_consumer t > vt_producer t \<or> vt_producer t - vt_consumer t > ucast (vh_slot_count ?h))"
    using le by (auto simp: word_less_nat_alt word_le_nat_alt unat_sub not_less)
  have next_c: "unat (vt_consumer t + 1) = ?c + 1"
  proof -
    have "?p < 2 ^ 64" using unsigned_less [where ?'a = nat, of "vt_producer t"] by simp
    then show ?thesis using lt by (simp add: unat_word_ariths)
  qed
  have "vt_live_ok t ?c" using inv lt by (simp add: vt_inv_def)
  then have live: "\<not> slot_malformed t (vt_consumer t) ?s"
    using next_c by (simp add: vt_live_ok_def slot_malformed_def vw_slot_index_nat not_less word_unat_eq_iff Let_def)
      (metis less_irrefl unat_0 word_less_nat_alt)
  have item: "vt_item t ?c = (slot_packet ?s, if is_silent (vs_flags ?s) then replicate ?b 0 else take ?b (vw_audio_at t (vt_consumer t)))"
    by (simp add: vt_item_def vw_slot_index_nat Let_def)
  have items: "vt_items t = vt_item t ?c # map (vt_item t) [?c + 1..<?p]"
    using lt by (simp add: vt_items_def upt_conv_Cons)
  have blen: "length (snd (vt_item t ?c)) = ?b"
  proof -
    have "?c mod unat (vh_slot_count ?h) < length (vt_audio t)"
      using inv vt_inv_slots [OF inv] by (simp add: vt_inv_def)
    then have "vw_audio_at t (vt_consumer t) \<in> set (vt_audio t)" by (simp add: vw_slot_index_nat)
    then have "length (vw_audio_at t (vt_consumer t)) = unat (vh_audio_slot_stride ?h)" using inv by (simp add: vt_inv_def)
    moreover have "vs_frame_count ?s \<le> vh_frames_per_slot ?h" using live by (simp add: slot_malformed_def not_less)
    ultimately show ?thesis using packet_fits_slot [OF inv] by (simp add: item)
  qed
  show ?thesis
  proof (cases "n < ?b")
    case True
    then have "vw_pop n t = (VwInvalidPacket, None, vw_malformed t)"
      using False ranges live by (simp add: vw_pop_def Let_def)
    moreover have "n < length (snd (vt_item t ?c))" using True blen by simp
    ultimately show ?thesis
      using inv items by (simp add: vq_pop_def vt_queue_def vw_malformed_def case_prod_beta Let_def)
  next
    case room: False
    define t' where "t' = snd (snd (vw_pop n t))"
    have run: "vw_pop n t = (VwCompleted, Some (vt_item t ?c), t')" "vt_header t' = ?h" "vt_slots t' = vt_slots t"
      "vt_audio t' = vt_audio t" "vt_producer t' = vt_producer t" "vt_consumer t' = vt_consumer t + 1"
      "vr_counters (vt_state t') = (vr_counters (vt_state t))\<lparr>vk_silence_frames :=
         vk_silence_frames (vr_counters (vt_state t)) + (if is_silent (vs_flags ?s) then ucast (vs_frame_count ?s) else 0),
         vk_consumed_frames := vk_consumed_frames (vr_counters (vt_state t)) + ucast (vs_frame_count ?s)\<rparr>"
      using False ranges live room by (simp_all add: t'_def vw_pop_def Let_def item advance_consumer_def vw_count_def)
    have cong: "vt_item t' = vt_item t" by (rule vt_item_cong) (rule run(2-4))+
    have left: "vt_items t' = map (vt_item t) [?c + 1..<?p]"
      unfolding vt_items_def run(5,6) next_c cong ..
    have inv': "vt_inv t'"
    proof -
      have "\<forall>k \<in> {?c + 1..<?p}. vt_live_ok t' k"
        using inv by (simp add: vt_inv_def vt_live_ok_def run(2-6))
      moreover have "\<exists>c. vw_config_ok c \<and> ?h = header_of_config c" using inv by (simp add: vt_inv_def)
      moreover have "\<forall>a \<in> set (vt_audio t). length a = unat (vh_audio_slot_stride ?h)"
        "length (vt_slots t) = unat (vh_slot_count ?h)" "length (vt_audio t) = unat (vh_slot_count ?h)"
        using inv by (simp_all add: vt_inv_def)
      ultimately show ?thesis unfolding vt_inv_def run(2-6) next_c using le lt by simp
    qed
    have "\<not> n < length (snd (vt_item t ?c))" using room blen by simp
    moreover have "vp_flags (fst (vt_item t ?c)) = vs_flags ?s" "vp_frames (fst (vt_item t ?c)) = vs_frame_count ?s"
      by (simp_all add: item slot_packet_def)
    ultimately have "vq_pop n (vt_queue t) = (VwCompleted, Some (vt_item t ?c), vt_queue t')"
      using items left run(7) by (simp add: vq_pop_def vt_queue_def case_prod_beta Let_def)
    then show ?thesis unfolding run(1) using inv' run(2,5) by simp
  qed
qed

section \<open>Whole runs\<close>

datatype vw_op = PushPacket "byte list" vw_packet | PopPacket nat

type_synonym vw_outcome = "vw_packet_status \<times> (vw_packet \<times> byte list) option"

fun vw_run :: "vw_op list \<Rightarrow> vw_transport \<Rightarrow> vw_outcome list \<times> vw_transport" where
  "vw_run [] t = ([], t)"
| "vw_run (PushPacket audio p # ops) t =
     (case vw_push audio p t of (status, t') \<Rightarrow> apfst (Cons (status, None)) (vw_run ops t'))"
| "vw_run (PopPacket n # ops) t =
     (case vw_pop n t of (status, packet, t') \<Rightarrow> apfst (Cons (status, packet)) (vw_run ops t'))"

fun vq_run :: "vw_header \<Rightarrow> vw_op list \<Rightarrow> vw_queue \<Rightarrow> vw_outcome list \<times> vw_queue" where
  "vq_run h [] q = ([], q)"
| "vq_run h (PushPacket audio p # ops) q =
     (case vq_push h audio p q of (status, q') \<Rightarrow> apfst (Cons (status, None)) (vq_run h ops q'))"
| "vq_run h (PopPacket n # ops) q =
     (case vq_pop n q of (status, packet, q') \<Rightarrow> apfst (Cons (status, packet)) (vq_run h ops q'))"

lemma run_refines:
  assumes "vt_inv t" "unat (vt_producer t) + length ops < 2 ^ 64"
  shows "fst (vw_run ops t) = fst (vq_run (vt_header t) ops (vt_queue t)) \<and>
    vt_queue (snd (vw_run ops t)) = snd (vq_run (vt_header t) ops (vt_queue t)) \<and> vt_inv (snd (vw_run ops t))"
  using assms
proof (induction ops arbitrary: t)
  case (Cons op ops)
  show ?case
  proof (cases op)
    case (PushPacket audio p)
    have "unat (vt_producer t) + 1 < 2 ^ 64" using Cons.prems(2) by simp
    note step = push_refines [OF Cons.prems(1) this, of audio p]
    have "unat (vt_producer (snd (vw_push audio p t))) + length ops < 2 ^ 64" using step Cons.prems(2) by simp
    with step Cons.IH [of "snd (vw_push audio p t)"] show ?thesis
      by (simp add: PushPacket case_prod_beta)
  next
    case (PopPacket n)
    note step = pop_refines [OF Cons.prems(1), of n]
    have "unat (vt_producer (snd (snd (vw_pop n t)))) + length ops < 2 ^ 64" using step Cons.prems(2) by simp
    with step Cons.IH [of "snd (snd (vw_pop n t))"] show ?thesis
      by (simp add: PopPacket case_prod_beta)
  qed
qed simp


section \<open>Properties\<close>

lemma vw_initialize_inv:
  assumes "vw_initialize ok bytes h = Some t" "length (vh_reserved h) = 15"
  shows "vt_inv t" "vt_header t = h" "vt_producer t = 0" "vt_queue t = \<lparr>vq_items = [], vq_counters = zero_counters\<rparr>"
proof -
  have "validate_vw_layout (Some h) bytes 0 = None" using assms(1) by (auto simp: vw_initialize_def split: if_splits)
  with assms(2) have "\<exists>c. vw_config_ok c \<and> h = header_of_config c" using validate_vw_layout_iff by blast
  moreover have t: "t = \<lparr>vt_header = h,
        vt_state = \<lparr>vr_producer_sequence = 0, vr_consumer_sequence = 0, vr_generation = 0,
          vr_counters = zero_counters, vr_flags = 0\<rparr>,
        vt_slots = replicate (unat (vh_slot_count h)) \<lparr>vs_sequence = 0, vs_frame_count = 0, vs_flags = 0,
          vs_device_position = 0, vs_qpc_position = 0\<rparr>,
        vt_audio = replicate (unat (vh_slot_count h)) (replicate (unat (vh_audio_slot_stride h)) 0)\<rparr>"
    using assms(1) by (auto simp: vw_initialize_def split: if_splits)
  ultimately show "vt_inv t" by (simp add: vt_inv_def)
  show "vt_header t = h" "vt_producer t = 0" "vt_queue t = \<lparr>vq_items = [], vq_counters = zero_counters\<rparr>"
    by (simp_all add: t vt_queue_def vt_items_def)
qed

text \<open>
  C20: On an initialized mapping the ring is a bounded queue of packets: over fewer than \<open>2 ^ 64\<close> pushes and
  pops in any order, every status and every delivered packet with its bytes is that of a queue that
  holds up to the slot count of packets, delivers the oldest first, refuses what is malformed and drops
  what does not fit, and the five counters are its counters.
\<close>

theorem transport_ring_is_queue:
  assumes "vw_initialize ok bytes h = Some t" "length (vh_reserved h) = 15" "length ops < 2 ^ 64"
  shows "fst (vw_run ops t) = fst (vq_run h ops \<lparr>vq_items = [], vq_counters = zero_counters\<rparr>) \<and>
    vt_queue (snd (vw_run ops t)) = snd (vq_run h ops \<lparr>vq_items = [], vq_counters = zero_counters\<rparr>)"
  using run_refines [OF vw_initialize_inv(1) [OF assms(1,2)], of ops] vw_initialize_inv(2-4) [OF assms(1,2)] assms(3)
  by simp

definition demo_vw_config :: vw_config where
  "demo_vw_config = \<lparr>vc_direction = 1, vc_sample_format = 1, vc_sample_rate = 48000, vc_channel_count = 1,
     vc_bits_per_sample = 16, vc_valid_bits_per_sample = 16, vc_frames_per_slot = 2, vc_slot_count = 2\<rparr>"

lemma demo_vw_config_ok: "vw_config_ok demo_vw_config"
  by (simp add: vw_config_ok_def demo_vw_config_def vw_direction_render_def supported_format_def vw_sample_ieee_float_def
      vw_sample_pcm_int_def range_nat transport_bytes_def slot_audio_bytes_def frame_bytes_def align_up_def)

definition demo_vw_packet :: "u64 \<Rightarrow> u32 \<Rightarrow> vw_packet" where
  "demo_vw_packet position flags = \<lparr>vp_frames = 1, vp_flags = flags, vp_device_position = position, vp_qpc_position = 0\<rparr>"

lemma demo_vw_initialized: "\<exists>t. vw_initialize True 1000 (header_of_config demo_vw_config) = Some t"
proof -
  have "transport_bytes demo_vw_config \<le> 1000"
    by (simp add: transport_bytes_def slot_audio_bytes_def frame_bytes_def align_up_def demo_vw_config_def)
  then have "validate_vw_layout (Some (header_of_config demo_vw_config)) 1000 0 = None"
    using demo_vw_config_ok header_numbers(1) [OF demo_vw_config_ok]
      validate_vw_layout_iff [of "header_of_config demo_vw_config" 1000 0] by auto
  then show ?thesis by (simp add: vw_initialize_def)
qed

theorem transport_ring_is_queue_witness:
  "\<exists>t. vw_initialize True 1000 (header_of_config demo_vw_config) = Some t \<and>
     fst (vw_run [PushPacket [1, 2] (demo_vw_packet 7 0), PushPacket [] (demo_vw_packet 8 1),
       PushPacket [3, 4] (demo_vw_packet 9 0), PopPacket 2, PopPacket 2, PopPacket 2] t) =
       [(VwCompleted, None), (VwCompleted, None), (VwFull, None), (VwCompleted, Some (demo_vw_packet 7 0, [1, 2])),
        (VwCompleted, Some (demo_vw_packet 8 1, [0, 0])), (VwEmpty, None)]"
proof -
  obtain t where t: "vw_initialize True 1000 (header_of_config demo_vw_config) = Some t" using demo_vw_initialized by blast
  have reserved: "length (vh_reserved (header_of_config demo_vw_config)) = 15" by (simp add: header_of_config_def)
  have ops: "length [PushPacket [1, 2] (demo_vw_packet 7 0), PushPacket [] (demo_vw_packet 8 1),
       PushPacket [3, 4] (demo_vw_packet 9 0), PopPacket 2, PopPacket 2, PopPacket 2] < 2 ^ 64" by simp
  have two: "replicate 2 (0 :: byte) = [0, 0]" by (simp add: numeral_2_eq_2)
  show ?thesis
    using t transport_ring_is_queue [OF t reserved ops, THEN conjunct1]
    by (simp add: vq_push_def vq_pop_def Let_def demo_vw_packet_def packet_refused_def known_flags_def is_silent_def
        vw_slot_flag_silent_def vw_slot_flag_discontinuity_def header_of_config_def demo_vw_config_def
        vw_bytes_per_frame_def packet_bytes_def two)
qed

text \<open>
  Whatever the peer writes into the slots, the audio or the ring state, a pop under a valid header
  delivers only packets of one to \<open>frames_per_slot\<close> frames with known flags and exactly the bytes of those
  frames, which lie inside the audio slot; a malformed slot is counted and skipped.
\<close>

theorem transport_pop_guarded:
  assumes "vw_config_ok c" "vt_header t = header_of_config c" "length (vt_audio t) = unat (vc_slot_count c)"
    and "\<forall>a \<in> set (vt_audio t). length a = unat (vh_audio_slot_stride (vt_header t))"
  shows "(\<forall>p bs. fst (snd (vw_pop n t)) = Some (p, bs) \<longrightarrow>
      0 < vp_frames p \<and> vp_frames p \<le> vc_frames_per_slot c \<and> known_flags (vp_flags p) \<and>
      length bs = unat (vp_frames p) * frame_bytes c \<and> length bs \<le> n \<and> length bs \<le> slot_audio_bytes c) \<and>
    (vt_consumer t < vt_producer t \<and> vt_producer t - vt_consumer t \<le> ucast (vc_slot_count c) \<and>
       slot_malformed t (vt_consumer t) (vw_slot_at t (vt_consumer t)) \<longrightarrow>
      fst (vw_pop n t) = VwInvalidPacket \<and> vt_consumer (snd (snd (vw_pop n t))) = vt_consumer t + 1)"
proof (intro conjI allI impI)
  fix p bs
  assume r: "fst (snd (vw_pop n t)) = Some (p, bs)"
  let ?s = "vw_slot_at t (vt_consumer t)"
  let ?b = "unat (vs_frame_count ?s) * frame_bytes c"
  have bpf: "vw_bytes_per_frame (vt_header t) = frame_bytes c"
    by (simp add: assms(2) vw_bytes_per_frame_def frame_bytes_def header_of_config_def)
  have ok: "\<not> slot_malformed t (vt_consumer t) ?s" "?b \<le> n" "p = slot_packet ?s"
    "bs = (if is_silent (vs_flags ?s) then replicate ?b 0 else take ?b (vw_audio_at t (vt_consumer t)))"
    using r by (auto simp: vw_pop_def Let_def bpf not_less split: if_splits)
  have count: "0 < vs_frame_count ?s" "vs_frame_count ?s \<le> vc_frames_per_slot c" "known_flags (vs_flags ?s)"
    using ok(1) by (auto simp: slot_malformed_def assms(2) header_of_config_def not_less word_gt_0)
  have "unat (vs_frame_count ?s) \<le> unat (vc_frames_per_slot c)" using count(2) by (simp add: word_le_nat_alt)
  then have "?b \<le> unat (vc_frames_per_slot c) * frame_bytes c" by (rule mult_le_mono1)
  then have slot: "?b \<le> slot_audio_bytes c" using header_numbers(8) [OF assms(1)] by linarith
  have "vw_slot_index t (vt_consumer t) < length (vt_audio t)"
    using assms(2,3) header_numbers(5) [OF assms(1)] by (simp add: vw_slot_index_nat header_of_config_def)
  then have "length (vw_audio_at t (vt_consumer t)) = slot_audio_bytes c"
    using assms(2,4) header_numbers(3) [OF assms(1)] nth_mem by fastforce
  then have "length bs = ?b" using ok(4) slot by simp
  then show "0 < vp_frames p" "vp_frames p \<le> vc_frames_per_slot c" "known_flags (vp_flags p)"
    "length bs = unat (vp_frames p) * frame_bytes c" "length bs \<le> n" "length bs \<le> slot_audio_bytes c"
    using count ok(2,3) slot by (simp_all add: slot_packet_def)
next
  assume m: "vt_consumer t < vt_producer t \<and> vt_producer t - vt_consumer t \<le> ucast (vc_slot_count c) \<and>
    slot_malformed t (vt_consumer t) (vw_slot_at t (vt_consumer t))"
  then have "vw_pop n t = (VwInvalidPacket, None, advance_consumer (vt_consumer t) (vw_malformed t))"
    by (auto simp: vw_pop_def Let_def assms(2) header_of_config_def)
  then show "fst (vw_pop n t) = VwInvalidPacket" "vt_consumer (snd (snd (vw_pop n t))) = vt_consumer t + 1"
    by (simp_all add: advance_consumer_def)
qed

text \<open>A slot the peer has filled: three frames where the header allows two.\<close>

definition demo_vw_attack :: vw_transport where
  "demo_vw_attack =
     \<lparr>vt_header = header_of_config demo_vw_config,
      vt_state = \<lparr>vr_producer_sequence = 1, vr_consumer_sequence = 0, vr_generation = 0,
        vr_counters = zero_counters, vr_flags = 0\<rparr>,
      vt_slots = [\<lparr>vs_sequence = 1, vs_frame_count = 3, vs_flags = 0, vs_device_position = 0, vs_qpc_position = 0\<rparr>,
        \<lparr>vs_sequence = 0, vs_frame_count = 0, vs_flags = 0, vs_device_position = 0, vs_qpc_position = 0\<rparr>],
      vt_audio = replicate 2 (replicate (slot_audio_bytes demo_vw_config) 0)\<rparr>"

theorem transport_pop_guarded_witness:
  "fst (vw_pop 4 demo_vw_attack) = VwInvalidPacket \<and> vt_consumer (snd (snd (vw_pop 4 demo_vw_attack))) = 1"
proof -
  have "\<forall>a \<in> set (vt_audio demo_vw_attack). length a = unat (vh_audio_slot_stride (vt_header demo_vw_attack))"
    "vt_header demo_vw_attack = header_of_config demo_vw_config"
    "length (vt_audio demo_vw_attack) = unat (vc_slot_count demo_vw_config)"
    using header_numbers(3) [OF demo_vw_config_ok] by (simp_all add: demo_vw_attack_def demo_vw_config_def)
  note guard = transport_pop_guarded [OF demo_vw_config_ok this(2,3,1), of 4, THEN conjunct2]
  have "slot_malformed demo_vw_attack 0 (vw_slot_at demo_vw_attack 0)"
    by (simp add: slot_malformed_def demo_vw_attack_def header_of_config_def demo_vw_config_def vw_slot_index_def)
  then show ?thesis using guard by (simp add: demo_vw_attack_def demo_vw_config_def)
qed

end
