(* ===== verification/BlockRing.thy ===== *)
theory BlockRing
  imports RealtimeBuffers
begin

text \<open>
  The ring of preallocated blocks in the slots of \<^verbatim>\<open>core/platform/virtual_asio_capture_bus.{h,cpp}\<close> and
  \<^verbatim>\<open>virtual_asio_render_bus.{h,cpp}\<close>: one block more than the capacity, a read and a write index. It is
  used through the locale \<open>block_queue\<close>: a bounded queue of whole blocks.
\<close>

section \<open>The ring\<close>

record block_ring =
  bk_blocks :: "audio_buffer list"
  bk_read :: nat
  bk_write :: nat

definition bk_make :: "nat \<Rightarrow> nat \<Rightarrow> nat \<Rightarrow> block_ring option" where
  "bk_make channels frames capacity =
     map_option (\<lambda>b. \<lparr>bk_blocks = replicate (capacity + 1) b, bk_read = 0, bk_write = 0\<rparr>)
       (make_audio_buffer channels frames)"

definition bk_increment :: "block_ring \<Rightarrow> nat \<Rightarrow> nat" where
  "bk_increment r index = (index + 1) mod length (bk_blocks r)"

definition bk_queue_depth :: "block_ring \<Rightarrow> nat \<Rightarrow> nat \<Rightarrow> nat" where
  "bk_queue_depth r read write =
     (if write \<ge> read then write - read else length (bk_blocks r) - read + write)"

definition bk_full :: "block_ring \<Rightarrow> bool" where
  "bk_full r \<longleftrightarrow> bk_increment r (bk_write r) = bk_read r"

definition bk_empty :: "block_ring \<Rightarrow> bool" where
  "bk_empty r \<longleftrightarrow> bk_read r = bk_write r"

definition bk_put :: "audio_buffer \<Rightarrow> block_ring \<Rightarrow> block_ring" where
  "bk_put source r =
     r\<lparr>bk_blocks := (bk_blocks r)[bk_write r := ab_copy_from (bk_blocks r ! bk_write r) source],
       bk_write := bk_increment r (bk_write r)\<rparr>"

definition bk_front :: "block_ring \<Rightarrow> audio_buffer" where
  "bk_front r = bk_blocks r ! bk_read r"

definition bk_drop :: "block_ring \<Rightarrow> block_ring" where
  "bk_drop r = r\<lparr>bk_read := bk_increment r (bk_read r)\<rparr>"

definition bk_reset :: "block_ring \<Rightarrow> block_ring" where
  "bk_reset r = r\<lparr>bk_read := 0, bk_write := 0\<rparr>"

section \<open>What it holds\<close>

definition block_shape :: "nat \<Rightarrow> nat \<Rightarrow> audio_buffer \<Rightarrow> bool" where
  "block_shape channels frames b \<longleftrightarrow> ab_wf b \<and> ab_channels b = channels \<and> ab_frames b = frames"

definition bk_inv :: "nat \<Rightarrow> nat \<Rightarrow> block_ring \<Rightarrow> bool" where
  "bk_inv channels frames r \<longleftrightarrow> 2 \<le> length (bk_blocks r) \<and> bk_read r < length (bk_blocks r) \<and>
     bk_write r < length (bk_blocks r) \<and> (\<forall>b \<in> set (bk_blocks r). block_shape channels frames b)"

definition bk_depth :: "block_ring \<Rightarrow> nat" where
  "bk_depth r = bk_queue_depth r (bk_read r) (bk_write r)"

definition bk_list :: "block_ring \<Rightarrow> audio_buffer list" where
  "bk_list r = map (\<lambda>k. bk_blocks r ! ((bk_read r + k) mod length (bk_blocks r))) [0..<bk_depth r]"

lemma flat_index: "k < c * (f :: nat) \<Longrightarrow> k div f < c \<and> k mod f < f \<and> k = k div f * f + k mod f"
  by (cases "f = 0") (simp_all add: less_mult_imp_div_less)

text \<open>A copy into a block of the same shape is the source.\<close>

lemma ab_copy_from_same:
  assumes "block_shape c f b" "block_shape c f src"
  shows "ab_copy_from b src = src"
proof -
  have wf: "ab_wf b" "ab_wf src" and shape: "ab_channels b = ab_channels src" "ab_frames b = ab_frames src"
    using assms by (simp_all add: block_shape_def)
  note copy = ab_copy_from_simps [OF wf]
  have "ab_samples (ab_copy_from b src) = ab_samples src"
  proof (rule nth_equalityI)
    show "length (ab_samples (ab_copy_from b src)) = length (ab_samples src)"
      using copy(1-3) wf shape by (simp add: ab_wf_def)
    fix k
    assume "k < length (ab_samples (ab_copy_from b src))"
    then have "k < ab_channels src * ab_frames src" using copy(1-3) shape by (simp add: ab_wf_def)
    note at = flat_index [OF this]
    show "ab_samples (ab_copy_from b src) ! k = ab_samples src ! k"
      using copy(4) [of "k div ab_frames src" "k mod ab_frames src"] at shape copy(2,3)
        ab_channel_nth [OF copy(1), of "k div ab_frames src" "k mod ab_frames src"]
        ab_channel_nth [OF wf(2), of "k div ab_frames src" "k mod ab_frames src"]
      by simp
  qed
  with copy(2,3) shape show ?thesis by (simp add: audio_buffer.equality)
qed

lemma bk_depth_less: "bk_inv c f r \<Longrightarrow> bk_depth r < length (bk_blocks r)"
  by (auto simp: bk_inv_def bk_depth_def bk_queue_depth_def)

lemma length_bk_list [simp]: "length (bk_list r) = bk_depth r"
  by (simp add: bk_list_def)

lemma bk_write_position:
  "bk_inv c f r \<Longrightarrow> (bk_read r + bk_depth r) mod length (bk_blocks r) = bk_write r"
  by (auto simp: bk_inv_def bk_depth_def bk_queue_depth_def mod_if)

lemma bk_increment_if: "i < length (bk_blocks r) \<Longrightarrow>
    bk_increment r i = (if i + 1 = length (bk_blocks r) then 0 else i + 1)"
  by (simp add: bk_increment_def)

lemma bk_increment_less: "i < length (bk_blocks r) \<Longrightarrow> bk_increment r i < length (bk_blocks r)"
  by (simp add: bk_increment_def mod_less_divisor [OF gr_implies_not0 [THEN neq0_conv [THEN iffD1]]])

lemma bk_full_iff: "bk_inv c f r \<Longrightarrow> bk_full r \<longleftrightarrow> bk_depth r + 1 = length (bk_blocks r)"
  unfolding bk_inv_def bk_full_def bk_depth_def bk_queue_depth_def
  by (simp add: bk_increment_if) linarith

lemma bk_empty_iff: "bk_inv c f r \<Longrightarrow> bk_empty r \<longleftrightarrow> bk_list r = []"
  by (auto simp: bk_inv_def bk_empty_def bk_list_def bk_depth_def bk_queue_depth_def)

lemma bk_put_depth:
  assumes "bk_inv c f r" "\<not> bk_full r"
  shows "bk_depth (bk_put b r) = bk_depth r + 1"
  using assms unfolding bk_inv_def bk_full_def bk_depth_def bk_queue_depth_def bk_put_def
  by (auto simp: bk_increment_if split: if_splits)

lemma bk_put_list:
  assumes inv: "bk_inv c f r" and room: "\<not> bk_full r" and b: "block_shape c f b"
  shows "bk_list (bk_put b r) = bk_list r @ [b]" "bk_inv c f (bk_put b r)"
proof -
  let ?n = "length (bk_blocks r)"
  have w: "bk_write r < ?n" "block_shape c f (bk_blocks r ! bk_write r)" using inv by (simp_all add: bk_inv_def)
  have blocks: "bk_blocks (bk_put b r) = (bk_blocks r)[bk_write r := b]"
    by (simp add: bk_put_def ab_copy_from_same [OF w(2) b])
  have other: "(bk_read r + k) mod ?n \<noteq> bk_write r" if "k < bk_depth r" for k
    using that bk_depth_less [OF inv] bk_write_position [OF inv] inv
    unfolding bk_inv_def by (auto simp: mod_if split: if_splits)
  have "map (\<lambda>k. bk_blocks (bk_put b r) ! ((bk_read r + k) mod ?n)) [0..<bk_depth r] = bk_list r"
    unfolding bk_list_def blocks by (rule map_cong) (use other [THEN not_sym] in simp_all)
  moreover have "bk_blocks (bk_put b r) ! ((bk_read r + bk_depth r) mod ?n) = b"
    using w(1) by (simp add: blocks bk_write_position [OF inv])
  ultimately show "bk_list (bk_put b r) = bk_list r @ [b]"
    by (simp add: bk_list_def [of "bk_put b r"] bk_put_depth [OF inv room]) (simp add: bk_put_def)
  have "bk_increment r (bk_write r) < ?n" using w(1) by (rule bk_increment_less)
  moreover have "\<forall>x \<in> set (bk_blocks (bk_put b r)). block_shape c f x"
    using inv b unfolding blocks by (auto simp: bk_inv_def dest!: set_update_subset_insert [THEN subsetD])
  ultimately show "bk_inv c f (bk_put b r)"
    using inv by (simp add: bk_inv_def blocks) (simp add: bk_put_def)
qed

lemma bk_drop_list:
  assumes inv: "bk_inv c f r" and some: "\<not> bk_empty r"
  shows "bk_list r = bk_front r # bk_list (bk_drop r)" "bk_inv c f (bk_drop r)"
proof -
  let ?n = "length (bk_blocks r)"
  have rd: "bk_read r < ?n" using inv by (simp add: bk_inv_def)
  then have "bk_increment r (bk_read r) < ?n" by (rule bk_increment_less)
  then show "bk_inv c f (bk_drop r)" using inv by (simp add: bk_inv_def bk_drop_def)
  have depth: "bk_depth r = Suc (bk_depth (bk_drop r))"
    using inv some unfolding bk_inv_def bk_empty_def bk_depth_def bk_queue_depth_def bk_drop_def
    by (simp add: bk_increment_if) linarith
  have "(bk_read r + Suc k) mod ?n = (bk_read (bk_drop r) + k) mod length (bk_blocks (bk_drop r))" for k
    by (simp add: bk_drop_def bk_increment_def mod_simps)
  then have "bk_list (bk_drop r) = map (\<lambda>k. bk_blocks r ! ((bk_read r + Suc k) mod ?n)) [0..<bk_depth (bk_drop r)]"
    by (simp add: bk_list_def) (simp add: bk_drop_def)
  then show "bk_list r = bk_front r # bk_list (bk_drop r)"
    using rd by (simp add: bk_list_def [of r] depth bk_front_def upt_conv_Cons map_Suc_upt [symmetric] comp_def del: upt_Suc)
qed

lemma bk_reset_list: "bk_inv c f r \<Longrightarrow> bk_list (bk_reset r) = [] \<and> bk_inv c f (bk_reset r)"
  by (auto simp: bk_inv_def bk_reset_def bk_list_def bk_depth_def bk_queue_depth_def)

lemma bk_make_inv: "bk_make c f n = Some r \<Longrightarrow> 0 < n \<Longrightarrow> bk_inv c f r \<and> bk_list r = []"
  by (auto simp: bk_make_def bk_inv_def bk_list_def bk_depth_def bk_queue_depth_def block_shape_def
      make_audio_buffer_wf make_audio_buffer_def ab_wf_def split: if_splits)

lemma block_frames_channel: "block_shape c f b \<Longrightarrow> d < c \<Longrightarrow> length (ab_channel b d) = f"
  by (simp add: block_shape_def)

section \<open>The contract\<close>

text \<open>A bounded queue of blocks: one side puts while it is not full, the other drops the front.\<close>

locale block_queue =
  fixes items :: "'q \<Rightarrow> 'b list" and inv :: "'q \<Rightarrow> bool" and fits :: "'b \<Rightarrow> bool" and bound :: "'q \<Rightarrow> nat"
    and full :: "'q \<Rightarrow> bool" and empty :: "'q \<Rightarrow> bool"
    and put :: "'b \<Rightarrow> 'q \<Rightarrow> 'q" and front :: "'q \<Rightarrow> 'b" and drop_front :: "'q \<Rightarrow> 'q"
  assumes put_items: "inv q \<Longrightarrow> \<not> full q \<Longrightarrow> fits b \<Longrightarrow> items (put b q) = items q @ [b]"
    and put_inv: "inv q \<Longrightarrow> \<not> full q \<Longrightarrow> fits b \<Longrightarrow> inv (put b q)"
    and full_iff: "inv q \<Longrightarrow> full q \<longleftrightarrow> length (items q) = bound q"
    and empty_iff: "inv q \<Longrightarrow> empty q \<longleftrightarrow> items q = []"
    and drop_items: "inv q \<Longrightarrow> \<not> empty q \<Longrightarrow> items q = front q # items (drop_front q)"
    and drop_inv: "inv q \<Longrightarrow> \<not> empty q \<Longrightarrow> inv (drop_front q)"
begin

text \<open>What a queue shows as one long run of frames.\<close>

definition frames_of :: "('b \<Rightarrow> 'a list) \<Rightarrow> 'q \<Rightarrow> 'a list" where
  "frames_of channel q = concat (map channel (items q))"

lemma put_frames: "inv q \<Longrightarrow> \<not> full q \<Longrightarrow> fits b \<Longrightarrow> frames_of ch (put b q) = frames_of ch q @ ch b"
  by (simp add: frames_of_def put_items)

lemma drop_frames: "inv q \<Longrightarrow> \<not> empty q \<Longrightarrow> ch (front q) @ frames_of ch (drop_front q) = frames_of ch q"
  by (simp add: frames_of_def drop_items)

lemma front_in_items: "inv q \<Longrightarrow> \<not> empty q \<Longrightarrow> front q \<in> set (items q)"
  by (simp add: drop_items)

end

interpretation bk: block_queue bk_list "bk_inv c f" "block_shape c f" "\<lambda>r. length (bk_blocks r) - 1"
  bk_full bk_empty bk_put bk_front bk_drop for c f
proof unfold_locales
  fix r
  assume inv: "bk_inv c f r"
  then have "0 < length (bk_blocks r)" by (auto simp: bk_inv_def)
  then show "bk_full r \<longleftrightarrow> length (bk_list r) = length (bk_blocks r) - 1" using bk_full_iff [OF inv] by auto
qed (rule bk_put_list bk_empty_iff bk_drop_list; assumption)+

end
