(* ===== verification/CaptureBus.thy ===== *)
theory CaptureBus
  imports BlockRing AsioRegistry
begin

text \<open>
  \<^verbatim>\<open>core/platform/virtual_asio_capture_bus.{h,cpp}\<close>: one producer writes whole blocks, every attached
  consumer reads them at block sizes of its own. Each operation is one step here; the flags
  \<^verbatim>\<open>producer_writing\<close> and \<^verbatim>\<open>consumer_reading\<close> are false between them and are the subject of the theory
  \<open>SlotHandshake\<close>.
\<close>

section \<open>State\<close>

datatype slot_state = SlotIdle | SlotClaiming | SlotActive

record capture_slot =
  csl_ring :: block_ring
  csl_pending :: planar_fifo
  csl_generation :: u64
  csl_state :: slot_state

record capture_counters =
  cbk_published_blocks :: u64
  cbk_dropped_blocks :: u64
  cbk_consumed_blocks :: u64
  cbk_consumer_underflows :: u64
  cbk_consumer_overflows :: u64
  cbk_maximum_queue_depth :: nat
  cbk_active_consumers :: u64

record capture_bus =
  cb_channels :: nat
  cb_producer_frames :: nat
  cb_slots :: "capture_slot list"
  cb_next_generation :: u64
  cb_counters :: capture_counters

definition make_capture_slot :: "nat \<Rightarrow> nat \<Rightarrow> nat \<Rightarrow> capture_slot option" where
  "make_capture_slot channels producer_frames capacity =
     (case (bk_make channels producer_frames capacity,
            make_planar_fifo channels ((unat kVirtualAsioMaxFramesPerBlock + producer_frames * capacity) mod 2 ^ 64)) of
        (Some ring, Inr pending) \<Rightarrow>
          Some \<lparr>csl_ring = ring, csl_pending = pending, csl_generation = 0, csl_state = SlotIdle\<rparr>
      | _ \<Rightarrow> None)"

text \<open>\<open>None\<close> is an exception of the constructor.\<close>

definition make_capture_bus :: "nat \<Rightarrow> nat \<Rightarrow> nat \<Rightarrow> nat \<Rightarrow> capture_bus option" where
  "make_capture_bus channels producer_frames maximum_consumers capacity =
     (if channels = 0 \<or> producer_frames = 0 \<or> maximum_consumers = 0 \<or> capacity = 0 then None
      else map_option (\<lambda>slot.
        \<lparr>cb_channels = channels, cb_producer_frames = producer_frames, cb_slots = replicate maximum_consumers slot,
         cb_next_generation = 1,
         cb_counters = \<lparr>cbk_published_blocks = 0, cbk_dropped_blocks = 0, cbk_consumed_blocks = 0,
           cbk_consumer_underflows = 0, cbk_consumer_overflows = 0, cbk_maximum_queue_depth = 0,
           cbk_active_consumers = 0\<rparr>\<rparr>)
        (make_capture_slot channels producer_frames capacity))"

section \<open>Operations\<close>

fun first_idle :: "('s \<Rightarrow> slot_state) \<Rightarrow> 's list \<Rightarrow> nat option" where
  "first_idle state [] = None"
| "first_idle state (s # ss) = (if state s = SlotIdle then Some 0 else map_option Suc (first_idle state ss))"

definition capture_attach :: "capture_bus \<Rightarrow> (nat \<times> u64) option \<times> capture_bus" where
  "capture_attach b =
     (case first_idle csl_state (cb_slots b) of
        None \<Rightarrow> (None, b)
      | Some i \<Rightarrow>
          let s = cb_slots b ! i; generation = cb_next_generation b;
              s' = s\<lparr>csl_ring := bk_reset (csl_ring s), csl_pending := pf_clear (csl_pending s),
                     csl_generation := generation, csl_state := SlotActive\<rparr>;
              k = cb_counters b
          in (Some (i, generation),
              b\<lparr>cb_slots := (cb_slots b)[i := s'], cb_next_generation := generation + 1,
                cb_counters := k\<lparr>cbk_active_consumers := cbk_active_consumers k + 1\<rparr>\<rparr>))"

definition capture_write_slot ::
  "audio_buffer \<Rightarrow> capture_slot \<Rightarrow> capture_counters \<Rightarrow> bool \<times> capture_slot \<times> capture_counters" where
  "capture_write_slot source s k =
     (if csl_state s \<noteq> SlotActive then (False, s, k)
      else if bk_full (csl_ring s)
      then (False, s, k\<lparr>cbk_consumer_overflows := cbk_consumer_overflows k + 1,
              cbk_dropped_blocks := cbk_dropped_blocks k + 1\<rparr>)
      else
        let ring = bk_put source (csl_ring s)
        in (True, s\<lparr>csl_ring := ring\<rparr>,
            k\<lparr>cbk_maximum_queue_depth := max (cbk_maximum_queue_depth k)
                (bk_queue_depth ring (bk_read (csl_ring s)) (bk_write ring)),
              cbk_published_blocks := cbk_published_blocks k + 1\<rparr>))"

fun capture_write_slots ::
  "audio_buffer \<Rightarrow> capture_slot list \<Rightarrow> capture_counters \<Rightarrow> bool \<times> capture_slot list \<times> capture_counters" where
  "capture_write_slots source [] k = (False, [], k)"
| "capture_write_slots source (s # ss) k =
     (case capture_write_slot source s k of (published, s', k') \<Rightarrow>
        case capture_write_slots source ss k' of (rest, ss', k'') \<Rightarrow> (published \<or> rest, s' # ss', k''))"

definition capture_write :: "audio_buffer \<Rightarrow> capture_bus \<Rightarrow> bool \<times> capture_bus" where
  "capture_write source b =
     (if ab_channels source \<noteq> cb_channels b \<or> ab_frames source \<noteq> cb_producer_frames b
      then (False, b\<lparr>cb_counters := (cb_counters b)\<lparr>cbk_dropped_blocks := cbk_dropped_blocks (cb_counters b) + 1\<rparr>\<rparr>)
      else case capture_write_slots source (cb_slots b) (cb_counters b) of (published, ss, k) \<Rightarrow>
        (published, b\<lparr>cb_slots := ss, cb_counters := k\<rparr>))"

text \<open>
  The loop of \<open>read\<close> that moves whole blocks into the pending frames; every round that goes on drops one
  block, so the number of blocks of the ring bounds the rounds.
\<close>

fun capture_fill :: "nat \<Rightarrow> nat \<Rightarrow> capture_slot \<Rightarrow> capture_counters \<Rightarrow> capture_slot \<times> capture_counters" where
  "capture_fill 0 wanted s k = (s, k)"
| "capture_fill (Suc rounds) wanted s k =
     (if wanted \<le> pf_available (csl_pending s) \<or> bk_empty (csl_ring s) then (s, k)
      else
        let block = bk_front (csl_ring s)
        in if pf_free_frames (csl_pending s) < ab_frames block
           then (s, k\<lparr>cbk_consumer_overflows := cbk_consumer_overflows k + 1\<rparr>)
           else case pf_push block (ab_frames block) (csl_pending s) of (pushed, pending) \<Rightarrow>
             if pushed \<noteq> ab_frames block
             then (s\<lparr>csl_pending := pending\<rparr>, k\<lparr>cbk_consumer_overflows := cbk_consumer_overflows k + 1\<rparr>)
             else capture_fill rounds wanted (s\<lparr>csl_pending := pending, csl_ring := bk_drop (csl_ring s)\<rparr>)
               (k\<lparr>cbk_consumed_blocks := cbk_consumed_blocks k + 1\<rparr>))"

definition capture_underflow :: "capture_counters \<Rightarrow> capture_counters" where
  "capture_underflow k = k\<lparr>cbk_consumer_underflows := cbk_consumer_underflows k + 1\<rparr>"

definition capture_read_refused :: "nat \<Rightarrow> u64 \<Rightarrow> audio_buffer \<Rightarrow> capture_bus \<Rightarrow> bool" where
  "capture_read_refused i generation destination b \<longleftrightarrow>
     i \<ge> length (cb_slots b) \<or> ab_channels destination \<noteq> cb_channels b \<or> ab_frames destination = 0 \<or>
     ab_frames destination > unat kVirtualAsioMaxFramesPerBlock \<or>
     csl_state (cb_slots b ! i) \<noteq> SlotActive \<or> csl_generation (cb_slots b ! i) \<noteq> generation"

definition capture_read :: "nat \<Rightarrow> u64 \<Rightarrow> audio_buffer \<Rightarrow> capture_bus \<Rightarrow> bool \<times> audio_buffer \<times> capture_bus" where
  "capture_read i generation destination b =
     (let silent = ab_clear destination
      in if capture_read_refused i generation destination b
         then (False, silent, b\<lparr>cb_counters := capture_underflow (cb_counters b)\<rparr>)
         else
           let s = cb_slots b ! i
           in case capture_fill (length (bk_blocks (csl_ring s))) (ab_frames destination) s (cb_counters b) of
                (s', k) \<Rightarrow>
                  if pf_available (csl_pending s') < ab_frames destination
                  then (False, silent, b\<lparr>cb_slots := (cb_slots b)[i := s'], cb_counters := capture_underflow k\<rparr>)
                  else case pf_pop silent (ab_frames destination) (csl_pending s') of (popped, filled, pending) \<Rightarrow>
                    (popped = ab_frames destination, filled,
                     b\<lparr>cb_slots := (cb_slots b)[i := s'\<lparr>csl_pending := pending\<rparr>], cb_counters := k\<rparr>))"

definition capture_available_frames :: "nat \<Rightarrow> u64 \<Rightarrow> capture_bus \<Rightarrow> nat" where
  "capture_available_frames i generation b =
     (if i \<ge> length (cb_slots b) then 0
      else
        let s = cb_slots b ! i; r = csl_ring s
        in if csl_state s \<noteq> SlotActive \<or> csl_generation s \<noteq> generation then 0
           else pf_available (csl_pending s) + bk_queue_depth r (bk_read r) (bk_write r) * cb_producer_frames b)"

definition capture_detach :: "nat \<Rightarrow> u64 \<Rightarrow> capture_bus \<Rightarrow> capture_bus" where
  "capture_detach i generation b =
     (if i \<ge> length (cb_slots b) then b
      else
        let s = cb_slots b ! i
        in if csl_generation s \<noteq> generation then b
           else if csl_state s \<noteq> SlotActive then b\<lparr>cb_slots := (cb_slots b)[i := s\<lparr>csl_state := SlotClaiming\<rparr>]\<rparr>
           else b\<lparr>cb_slots := (cb_slots b)[i := s\<lparr>csl_ring := bk_reset (csl_ring s),
                    csl_pending := pf_clear (csl_pending s), csl_state := SlotIdle\<rparr>],
                  cb_counters := (cb_counters b)\<lparr>cbk_active_consumers := cbk_active_consumers (cb_counters b) - 1\<rparr>\<rparr>)"

section \<open>The consumer handle\<close>

record capture_consumer =
  cc_attached :: bool
  cc_slot :: nat
  cc_generation :: u64

definition capture_no_consumer :: capture_consumer where
  "capture_no_consumer = \<lparr>cc_attached = False, cc_slot = 0, cc_generation = 0\<rparr>"

definition bus_attach :: "capture_bus \<Rightarrow> capture_consumer \<times> capture_bus" where
  "bus_attach b =
     (case capture_attach b of
        (None, b') \<Rightarrow> (capture_no_consumer, b')
      | (Some (i, g), b') \<Rightarrow> (\<lparr>cc_attached = True, cc_slot = i, cc_generation = g\<rparr>, b'))"

definition consumer_read :: "capture_consumer \<Rightarrow> audio_buffer \<Rightarrow> capture_bus \<Rightarrow> bool \<times> audio_buffer \<times> capture_bus" where
  "consumer_read c destination b =
     (if cc_attached c then capture_read (cc_slot c) (cc_generation c) destination b else (False, destination, b))"

definition consumer_available_frames :: "capture_consumer \<Rightarrow> capture_bus \<Rightarrow> nat" where
  "consumer_available_frames c b =
     (if cc_attached c then capture_available_frames (cc_slot c) (cc_generation c) b else 0)"

definition consumer_reset :: "capture_consumer \<Rightarrow> capture_bus \<Rightarrow> capture_consumer \<times> capture_bus" where
  "consumer_reset c b =
     (if cc_attached c then (c\<lparr>cc_attached := False\<rparr>, capture_detach (cc_slot c) (cc_generation c) b) else (c, b))"

section \<open>One slot\<close>

text \<open>The frames of a channel still to be read: those pending, then those of the queued blocks.\<close>

definition csl_stream :: "capture_slot \<Rightarrow> nat \<Rightarrow> f32 list" where
  "csl_stream s c = pf_contents (csl_pending s) c @ concat (map (\<lambda>b. ab_channel b c) (bk_list (csl_ring s)))"

definition csl_inv :: "nat \<Rightarrow> nat \<Rightarrow> capture_slot \<Rightarrow> bool" where
  "csl_inv channels frames s \<longleftrightarrow> bk_inv channels frames (csl_ring s) \<and> pf_inv (csl_pending s) \<and>
     pf_channels (csl_pending s) = channels \<and>
     unat kVirtualAsioMaxFramesPerBlock + frames \<le> pf_capacity (csl_pending s)"

lemma csl_stream_split:
  "csl_stream s c = pf_contents (csl_pending s) c @ bk.frames_of (\<lambda>b. ab_channel b c) (csl_ring s)"
  by (simp add: csl_stream_def bk.frames_of_def)

lemma length_concat_blocks: "\<forall>b \<in> set bs. length (g b) = f \<Longrightarrow> length (concat (map g bs)) = length bs * f"
  by (induction bs) auto

lemma length_frames:
  assumes "bk_inv c f r" "d < c"
  shows "length (bk.frames_of (\<lambda>b. ab_channel b d) r) = bk_depth r * f"
proof -
  have "\<forall>b \<in> set (bk_list r). block_shape c f b"
    using assms(1) unfolding bk_list_def bk_inv_def by (auto intro!: nth_mem mod_less_divisor)
  then have "\<forall>b \<in> set (bk_list r). length (ab_channel b d) = f" using assms(2) by (blast intro: block_frames_channel)
  from length_concat_blocks [OF this] show ?thesis by (simp add: bk.frames_of_def)
qed

lemma length_csl_stream:
  "csl_inv c f s \<Longrightarrow> d < c \<Longrightarrow> length (csl_stream s d) = pf_available (csl_pending s) + bk_depth (csl_ring s) * f"
  using length_frames [of c f "csl_ring s" d] by (simp add: csl_stream_split csl_inv_def)

lemma write_slot_stream:
  fixes k :: capture_counters
  assumes inv: "csl_inv c f s" and src: "block_shape c f source"
  defines "s' \<equiv> fst (snd (capture_write_slot source s k))"
  shows "csl_inv c f s'" "csl_stream s' d = csl_stream s d @
      (if csl_state s = SlotActive \<and> \<not> bk_full (csl_ring s) then ab_channel source d else [])"
    "csl_state s' = csl_state s" "csl_generation s' = csl_generation s"
    "fst (capture_write_slot source s k) = (csl_state s = SlotActive \<and> \<not> bk_full (csl_ring s))"
proof -
  have ring: "bk_inv c f (csl_ring s)" using inv by (simp add: csl_inv_def)
  show "csl_inv c f s'" "csl_state s' = csl_state s" "csl_generation s' = csl_generation s"
    "fst (capture_write_slot source s k) = (csl_state s = SlotActive \<and> \<not> bk_full (csl_ring s))"
    using inv bk_put_list(2) [OF ring _ src] by (simp_all add: s'_def capture_write_slot_def csl_inv_def Let_def)
  show "csl_stream s' d = csl_stream s d @
      (if csl_state s = SlotActive \<and> \<not> bk_full (csl_ring s) then ab_channel source d else [])"
    using bk.put_frames [OF ring _ src, of "\<lambda>b. ab_channel b d"]
    by (simp add: s'_def capture_write_slot_def csl_stream_split Let_def)
qed

text \<open>
  Filling moves frames within the stream; the pending FIFO is large enough for every block, so the two
  overflow exits of the loop are dead.
\<close>

lemma front_shape: "bk_inv c f r \<Longrightarrow> block_shape c f (bk_front r)"
  by (simp add: bk_inv_def bk_front_def)

lemma fill_round:
  assumes inv: "csl_inv c f s" and room: "pf_available (csl_pending s) < unat kVirtualAsioMaxFramesPerBlock"
    and some: "\<not> bk_empty (csl_ring s)"
  obtains pending where "pf_push (bk_front (csl_ring s)) f (csl_pending s) = (f, pending)"
    and "ab_frames (bk_front (csl_ring s)) = f" "f \<le> pf_free_frames (csl_pending s)"
    and "csl_inv c f (s\<lparr>csl_pending := pending, csl_ring := bk_drop (csl_ring s)\<rparr>)"
    and "\<forall>d < c. csl_stream (s\<lparr>csl_pending := pending, csl_ring := bk_drop (csl_ring s)\<rparr>) d = csl_stream s d"
    and "pf_available pending = pf_available (csl_pending s) + f"
    and "Suc (bk_depth (bk_drop (csl_ring s))) = bk_depth (csl_ring s)"
proof -
  let ?b = "bk_front (csl_ring s)" and ?q = "csl_pending s"
  have ring: "bk_inv c f (csl_ring s)" and q: "pf_inv ?q" "pf_channels ?q = c"
    "unat kVirtualAsioMaxFramesPerBlock + f \<le> pf_capacity ?q" using inv by (simp_all add: csl_inv_def)
  have b: "ab_wf ?b" "ab_channels ?b = pf_channels ?q" "ab_frames ?b = f"
    using front_shape [OF ring] q(2) by (simp_all add: block_shape_def)
  have free: "f \<le> pf_free_frames ?q" using q(3) room by (simp add: pf_free_frames_def)
  have count: "fst (pf_push ?b f ?q) = f" using pf_push_count [OF b(2), of f] b(3) free by simp
  define pending where "pending = snd (pf_push ?b f ?q)"
  have push: "pf_push ?b f ?q = (f, pending)" using count by (metis pending_def prod.collapse)
  have contents: "pf_contents pending d = pf_contents ?q d @ ab_channel ?b d" if "d < c" for d
    using pf_push_refines [OF q(1) b(1,2), of d f] that count b q(2) by (simp add: pending_def)
  have moved: "ab_channel ?b d @ bk.frames_of (\<lambda>b. ab_channel b d) (bk_drop (csl_ring s)) =
      bk.frames_of (\<lambda>b. ab_channel b d) (csl_ring s)" for d
    by (rule bk.drop_frames [OF ring some])
  have "bk_list (csl_ring s) = ?b # bk_list (bk_drop (csl_ring s))" by (rule bk_drop_list(1) [OF ring some])
  then have "Suc (bk_depth (bk_drop (csl_ring s))) = bk_depth (csl_ring s)" by (metis length_Cons length_bk_list)
  moreover have "csl_inv c f (s\<lparr>csl_pending := pending, csl_ring := bk_drop (csl_ring s)\<rparr>)"
    using inv bk_drop_list(2) [OF ring some] pf_push_inv [OF q(1) b(1), of f]
    by (simp add: csl_inv_def pending_def)
  moreover have "\<forall>d < c. csl_stream (s\<lparr>csl_pending := pending, csl_ring := bk_drop (csl_ring s)\<rparr>) d = csl_stream s d"
    using contents moved by (simp add: csl_stream_split)
  moreover have "pf_available pending = pf_available ?q + f" using count by (simp add: pending_def)
  ultimately show thesis by (intro that [OF push b(3) free])
qed

lemma capture_fill_stream:
  assumes "csl_inv c f s" "wanted \<le> unat kVirtualAsioMaxFramesPerBlock" "bk_depth (csl_ring s) \<le> rounds"
  shows "csl_inv c f (fst (capture_fill rounds wanted s k)) \<and>
    (\<forall>d < c. csl_stream (fst (capture_fill rounds wanted s k)) d = csl_stream s d) \<and>
    (wanted \<le> pf_available (csl_pending (fst (capture_fill rounds wanted s k))) \<or>
     bk_list (csl_ring (fst (capture_fill rounds wanted s k))) = []) \<and>
    csl_state (fst (capture_fill rounds wanted s k)) = csl_state s \<and>
    csl_generation (fst (capture_fill rounds wanted s k)) = csl_generation s \<and>
    cbk_consumer_overflows (snd (capture_fill rounds wanted s k)) = cbk_consumer_overflows k"
  using assms
proof (induction rounds arbitrary: s k)
  case 0
  then show ?case by (simp flip: length_0_conv)
next
  case (Suc rounds)
  have ring: "bk_inv c f (csl_ring s)" using Suc.prems(1) by (simp add: csl_inv_def)
  show ?case
  proof (cases "wanted \<le> pf_available (csl_pending s) \<or> bk_empty (csl_ring s)")
    case True
    then show ?thesis using Suc.prems(1) bk_empty_iff [OF ring] by auto
  next
    case False
    then have go: "pf_available (csl_pending s) < unat kVirtualAsioMaxFramesPerBlock" "\<not> bk_empty (csl_ring s)"
      using Suc.prems(2) by simp_all
    obtain pending where r: "pf_push (bk_front (csl_ring s)) f (csl_pending s) = (f, pending)"
      "ab_frames (bk_front (csl_ring s)) = f" "f \<le> pf_free_frames (csl_pending s)"
      and next_inv: "csl_inv c f (s\<lparr>csl_pending := pending, csl_ring := bk_drop (csl_ring s)\<rparr>)"
      and same: "\<forall>d < c. csl_stream (s\<lparr>csl_pending := pending, csl_ring := bk_drop (csl_ring s)\<rparr>) d = csl_stream s d"
      and less: "Suc (bk_depth (bk_drop (csl_ring s))) = bk_depth (csl_ring s)"
      by (rule fill_round [OF Suc.prems(1) go]) blast
    have step: "capture_fill (Suc rounds) wanted s k =
        capture_fill rounds wanted (s\<lparr>csl_pending := pending, csl_ring := bk_drop (csl_ring s)\<rparr>)
          (k\<lparr>cbk_consumed_blocks := cbk_consumed_blocks k + 1\<rparr>)"
      using False r by (simp add: Let_def)
    have "bk_depth (csl_ring (s\<lparr>csl_pending := pending, csl_ring := bk_drop (csl_ring s)\<rparr>)) \<le> rounds"
      using less Suc.prems(3) by simp
    from Suc.IH [OF next_inv Suc.prems(2) this, of "k\<lparr>cbk_consumed_blocks := cbk_consumed_blocks k + 1\<rparr>"]
    show ?thesis unfolding step using same by simp
  qed
qed

section \<open>The bus\<close>

definition cb_inv :: "capture_bus \<Rightarrow> bool" where
  "cb_inv b \<longleftrightarrow> 0 < cb_channels b \<and> 0 < cb_producer_frames b \<and>
     (\<forall>s \<in> set (cb_slots b). csl_inv (cb_channels b) (cb_producer_frames b) s)"

text \<open>The handle of slot \<open>i\<close> and generation \<open>g\<close> is live.\<close>

definition cb_live :: "capture_bus \<Rightarrow> nat \<Rightarrow> u64 \<Rightarrow> bool" where
  "cb_live b i g \<longleftrightarrow> i < length (cb_slots b) \<and> csl_state (cb_slots b ! i) = SlotActive \<and>
     csl_generation (cb_slots b ! i) = g"

definition cb_stream :: "capture_bus \<Rightarrow> nat \<Rightarrow> nat \<Rightarrow> f32 list" where
  "cb_stream b i c = csl_stream (cb_slots b ! i) c"

text \<open>A block written now reaches slot \<open>i\<close>.\<close>

definition cb_accepts :: "capture_bus \<Rightarrow> nat \<Rightarrow> audio_buffer \<Rightarrow> bool" where
  "cb_accepts b i source \<longleftrightarrow> ab_channels source = cb_channels b \<and> ab_frames source = cb_producer_frames b \<and>
     csl_state (cb_slots b ! i) = SlotActive \<and> \<not> bk_full (csl_ring (cb_slots b ! i))"

lemma cb_invD: "cb_inv b \<Longrightarrow> i < length (cb_slots b) \<Longrightarrow> csl_inv (cb_channels b) (cb_producer_frames b) (cb_slots b ! i)"
  by (simp add: cb_inv_def)

lemma cb_inv_update:
  assumes "cb_inv b" "csl_inv (cb_channels b) (cb_producer_frames b) s" "cb_slots b' = (cb_slots b)[i := s]"
    and "cb_channels b' = cb_channels b" "cb_producer_frames b' = cb_producer_frames b"
  shows "cb_inv b'"
  using assms unfolding cb_inv_def by (auto dest: set_update_subset_insert [THEN subsetD])

lemma make_capture_slot_inv:
  assumes "make_capture_slot c f n = Some s" "0 < n" "0 < f" "8192 + f * n < 2 ^ 64"
  shows "csl_inv c f s"
proof -
  obtain ring pending where r: "bk_make c f n = Some ring" and
    p: "make_planar_fifo c ((unat kVirtualAsioMaxFramesPerBlock + f * n) mod 2 ^ 64) = Inr pending" and
    s: "s = \<lparr>csl_ring = ring, csl_pending = pending, csl_generation = 0, csl_state = SlotIdle\<rparr>"
    using assms(1) by (auto simp: make_capture_slot_def split: option.splits sum.splits)
  have "f \<le> f * n" using assms(2) by simp
  then show ?thesis
    using bk_make_inv [OF r assms(2)] make_planar_fifo_ok [OF p, of 0] assms(4)
    by (simp add: s csl_inv_def kVirtualAsioMaxFramesPerBlock_def)
qed

lemma make_capture_bus_inv:
  assumes "make_capture_bus c f m n = Some b" "8192 + f * n < 2 ^ 64"
  shows "cb_inv b" "\<forall>s \<in> set (cb_slots b). csl_state s = SlotIdle" "length (cb_slots b) = m" "cb_next_generation b = 1" "cb_channels b = c"
proof -
  obtain s where nz: "c \<noteq> 0" "f \<noteq> 0" "m \<noteq> 0" "n \<noteq> 0" and s: "make_capture_slot c f n = Some s"
    and b: "cb_channels b = c" "cb_producer_frames b = f" "cb_slots b = replicate m s" "cb_next_generation b = 1"
    using assms(1) by (auto simp: make_capture_bus_def split: if_splits)
  have "csl_state s = SlotIdle"
    using s by (auto simp: make_capture_slot_def split: option.splits sum.splits)
  then show "cb_inv b" "\<forall>s \<in> set (cb_slots b). csl_state s = SlotIdle" "length (cb_slots b) = m" "cb_next_generation b = 1" "cb_channels b = c"
    using make_capture_slot_inv [OF s] nz assms(2) by (simp_all add: cb_inv_def b)
qed

lemma write_slots_stream:
  assumes "\<forall>s \<in> set ss. csl_inv c f s" "block_shape c f source"
  shows "length (fst (snd (capture_write_slots source ss k))) = length ss \<and>
    (\<forall>s \<in> set (fst (snd (capture_write_slots source ss k))). csl_inv c f s) \<and>
    (\<forall>i < length ss. csl_state (fst (snd (capture_write_slots source ss k)) ! i) = csl_state (ss ! i) \<and>
       csl_generation (fst (snd (capture_write_slots source ss k)) ! i) = csl_generation (ss ! i) \<and>
       (\<forall>d. csl_stream (fst (snd (capture_write_slots source ss k)) ! i) d = csl_stream (ss ! i) d @
         (if csl_state (ss ! i) = SlotActive \<and> \<not> bk_full (csl_ring (ss ! i)) then ab_channel source d else []))) \<and>
    fst (capture_write_slots source ss k) =
      (\<exists>i < length ss. csl_state (ss ! i) = SlotActive \<and> \<not> bk_full (csl_ring (ss ! i)))"
  using assms(1)
proof (induction ss arbitrary: k)
  case (Cons s ss)
  have s: "csl_inv c f s" and ss: "\<forall>s \<in> set ss. csl_inv c f s" using Cons.prems by simp_all
  note head = write_slot_stream [OF s assms(2), of k]
  note tail = Cons.IH [OF ss, of "snd (snd (capture_write_slot source s k))"]
  show ?case
    using head tail by (simp add: case_prod_beta All_less_Suc2 Ex_less_Suc2)
qed simp

lemma capture_write_stream:
  assumes inv: "cb_inv b" and src: "ab_wf source"
  defines "b' \<equiv> snd (capture_write source b)"
  shows "cb_inv b'" "cb_live b' i g = cb_live b i g"
    "i < length (cb_slots b) \<Longrightarrow> cb_stream b' i d = cb_stream b i d @
       (if cb_accepts b i source then ab_channel source d else [])"
    "cb_channels b' = cb_channels b" "cb_producer_frames b' = cb_producer_frames b"
    "length (cb_slots b') = length (cb_slots b)"
    "fst (capture_write source b) = (\<exists>i < length (cb_slots b). cb_accepts b i source)"
proof -
  have slots: "\<forall>s \<in> set (cb_slots b). csl_inv (cb_channels b) (cb_producer_frames b) s" using inv by (simp add: cb_inv_def)
  have "cb_inv b' \<and> cb_live b' i g = cb_live b i g \<and>
    (i < length (cb_slots b) \<longrightarrow> cb_stream b' i d = cb_stream b i d @
       (if cb_accepts b i source then ab_channel source d else [])) \<and>
    cb_channels b' = cb_channels b \<and> cb_producer_frames b' = cb_producer_frames b \<and>
    length (cb_slots b') = length (cb_slots b) \<and>
    fst (capture_write source b) = (\<exists>i < length (cb_slots b). cb_accepts b i source)"
  proof (cases "ab_channels source = cb_channels b \<and> ab_frames source = cb_producer_frames b")
    case True
    then have shape: "block_shape (cb_channels b) (cb_producer_frames b) source" using src by (simp add: block_shape_def)
    note w = write_slots_stream [OF slots shape, of "cb_counters b"]
    have run: "cb_slots b' = fst (snd (capture_write_slots source (cb_slots b) (cb_counters b)))"
      "cb_channels b' = cb_channels b" "cb_producer_frames b' = cb_producer_frames b"
      "fst (capture_write source b) = fst (capture_write_slots source (cb_slots b) (cb_counters b))"
      using True by (simp_all add: b'_def capture_write_def case_prod_beta)
    show ?thesis
      using w inv True unfolding cb_inv_def cb_live_def cb_stream_def cb_accepts_def run by auto
  next
    case False
    then have "capture_write source b = (False, b') \<and> cb_slots b' = cb_slots b \<and> cb_channels b' = cb_channels b \<and>
        cb_producer_frames b' = cb_producer_frames b"
      by (auto simp: b'_def capture_write_def)
    then show ?thesis using False inv by (auto simp: cb_inv_def cb_live_def cb_stream_def cb_accepts_def)
  qed
  then show "cb_inv b'" "cb_live b' i g = cb_live b i g"
    "i < length (cb_slots b) \<Longrightarrow> cb_stream b' i d = cb_stream b i d @
       (if cb_accepts b i source then ab_channel source d else [])"
    "cb_channels b' = cb_channels b" "cb_producer_frames b' = cb_producer_frames b"
    "length (cb_slots b') = length (cb_slots b)"
    "fst (capture_write source b) = (\<exists>i < length (cb_slots b). cb_accepts b i source)" by simp_all
qed

lemma available_frames_length:
  assumes "cb_inv b" "cb_live b i g" "c < cb_channels b"
  shows "capture_available_frames i g b = length (cb_stream b i c)"
proof -
  have i: "i < length (cb_slots b)" using assms(2) by (simp add: cb_live_def)
  show ?thesis
    using length_csl_stream [OF cb_invD [OF assms(1) i] assms(3)] assms(2)
    by (simp add: capture_available_frames_def cb_live_def cb_stream_def bk_depth_def Let_def)
qed

lemma available_frames_dead: "\<not> cb_live b i g \<Longrightarrow> capture_available_frames i g b = 0"
  by (auto simp: capture_available_frames_def cb_live_def Let_def)

text \<open>A read of a live handle at a permitted size.\<close>

lemma read_slot:
  assumes inv: "cb_inv b" and live: "cb_live b i g" and dst: "ab_wf destination" "ab_channels destination = cb_channels b"
    and size: "0 < ab_frames destination" "ab_frames destination \<le> unat kVirtualAsioMaxFramesPerBlock"
  obtains ok out s k where "capture_read i g destination b = (ok, out, b\<lparr>cb_slots := (cb_slots b)[i := s], cb_counters := k\<rparr>)"
    and "csl_inv (cb_channels b) (cb_producer_frames b) s" "csl_state s = SlotActive" "csl_generation s = g"
    and "ok = (ab_frames destination \<le> capture_available_frames i g b)"
    and "\<forall>c < cb_channels b. csl_stream s c = (if ok then drop (ab_frames destination) (cb_stream b i c) else cb_stream b i c)"
    and "\<forall>c < cb_channels b. ab_channel out c =
      (if ok then take (ab_frames destination) (cb_stream b i c) else replicate (ab_frames destination) 0)"
    and "ab_wf out" "ab_channels out = cb_channels b" "ab_frames out = ab_frames destination"
    and "cbk_consumer_overflows k = cbk_consumer_overflows (cb_counters b)"
proof -
  let ?n = "ab_frames destination" and ?s = "cb_slots b ! i" and ?C = "cb_channels b" and ?F = "cb_producer_frames b"
  let ?silent = "ab_clear destination"
  have i: "i < length (cb_slots b)" and active: "csl_state ?s = SlotActive" "csl_generation ?s = g"
    using live by (simp_all add: cb_live_def)
  have slot: "csl_inv ?C ?F ?s" by (rule cb_invD [OF inv i])
  have C: "0 < ?C" using inv by (simp add: cb_inv_def)
  have accept: "\<not> capture_read_refused i g destination b"
    using i active dst(2) size by (simp add: capture_read_refused_def)
  obtain s k where fill: "capture_fill (length (bk_blocks (csl_ring ?s))) ?n ?s (cb_counters b) = (s, k)"
    by (cases "capture_fill (length (bk_blocks (csl_ring ?s))) ?n ?s (cb_counters b)")
  have "bk_depth (csl_ring ?s) \<le> length (bk_blocks (csl_ring ?s))"
    using slot bk_depth_less by (auto simp: csl_inv_def intro: less_imp_le)
  note f = capture_fill_stream [OF slot size(2) this, of "cb_counters b", unfolded fill, simplified]
  have s: "csl_inv ?C ?F s" "csl_state s = SlotActive" "csl_generation s = g"
    "\<forall>c < ?C. csl_stream s c = cb_stream b i c" using f active by (simp_all add: cb_stream_def)
  have avail: "?n \<le> pf_available (csl_pending s) \<longleftrightarrow> ?n \<le> capture_available_frames i g b"
  proof -
    have "capture_available_frames i g b = length (csl_stream s 0)"
      using available_frames_length [OF inv live C] s(4) C by simp
    also have "\<dots> = pf_available (csl_pending s) + bk_depth (csl_ring s) * ?F" by (rule length_csl_stream [OF s(1) C])
    finally have a: "capture_available_frames i g b = pf_available (csl_pending s) + bk_depth (csl_ring s) * ?F" .
    have "bk_depth (csl_ring s) = 0" if "bk_list (csl_ring s) = []"
      using that by (metis length_0_conv length_bk_list)
    with f a show ?thesis by auto
  qed
  have silence: "ab_wf ?silent" "ab_channels ?silent = ?C" "ab_frames ?silent = ?n" using dst by simp_all
  show thesis
  proof (cases "?n \<le> pf_available (csl_pending s)")
    case False
    then have "capture_read i g destination b =
        (False, ?silent, b\<lparr>cb_slots := (cb_slots b)[i := s], cb_counters := capture_underflow k\<rparr>)"
      using accept fill by (simp add: capture_read_def Let_def)
    then show thesis
    proof (rule that [OF _ s(1-3)])
      show "\<forall>c < ?C. ab_channel ?silent c = (if False then take ?n (cb_stream b i c) else replicate ?n 0)"
        using ab_channel_clear [OF dst(1)] dst(2) by simp
    qed (use False avail s(4) silence f in \<open>simp_all add: capture_underflow_def\<close>)
  next
    case True
    obtain m out q where pop: "pf_pop ?silent ?n (csl_pending s) = (m, out, q)"
      by (cases "pf_pop ?silent ?n (csl_pending s)") auto
    have q: "pf_inv (csl_pending s)" "pf_channels (csl_pending s) = ?C" using s(1) by (simp_all add: csl_inv_def)
    have chans: "ab_channels ?silent = pf_channels (csl_pending s)" using silence q(2) by simp
    note p = planar_pop_delivers_oldest [OF q(1) silence(1) chans pop]
    have m: "m = ?n" using p True silence(3) by simp
    obtain d0 where peek: "pf_peek ?silent ?n (csl_pending s) = (m, d0)" "out = d0" "q = snd (pf_consume m (csl_pending s))"
      using pop by (auto simp: pf_pop_def split: prod.splits)
    have out: "ab_wf out" "ab_channels out = ?C" "ab_frames out = ?n"
      using pf_peek_nth(2) [OF q(1) silence(1) chans peek(1)] peek(2) silence by simp_all
    have run: "capture_read i g destination b =
        (True, out, b\<lparr>cb_slots := (cb_slots b)[i := s\<lparr>csl_pending := q\<rparr>], cb_counters := k\<rparr>)"
      using accept fill True pop m by (simp add: capture_read_def Let_def)
    have kept: "pf_inv q" "pf_channels q = pf_channels (csl_pending s)" "pf_capacity q = pf_capacity (csl_pending s)"
      using conjunct1 [OF conjunct2 [OF p]] by (simp_all add: peek(3) pf_consume_def Let_def)
    have split: "ab_channel out c @ pf_contents q c = pf_contents (csl_pending s) c" if "c < ?C" for c
    proof -
      have "take m (ab_channel out c) @ pf_contents q c = pf_contents (csl_pending s) c" using p that unfolding q(2) by blast
      moreover have "length (ab_channel out c) = m" using length_ab_channel [OF out(1)] out that m by simp
      ultimately show ?thesis by simp
    qed
    have len: "length (ab_channel out c) = ?n" if "c < ?C" for c
      using length_ab_channel [OF out(1)] out that by simp
    have whole: "ab_channel out c @ csl_stream (s\<lparr>csl_pending := q\<rparr>) c = cb_stream b i c" if "c < ?C" for c
      using split [OF that] s(4) that by (simp add: csl_stream_def flip: append_assoc)
    show thesis
    proof (rule that [OF run])
      show "csl_inv ?C ?F (s\<lparr>csl_pending := q\<rparr>)"
        using s(1) kept by (simp add: csl_inv_def)
      show "\<forall>c < ?C. csl_stream (s\<lparr>csl_pending := q\<rparr>) c = (if True then drop ?n (cb_stream b i c) else cb_stream b i c)"
        using whole len by (metis append_eq_conv_conj)
      show "\<forall>c < ?C. ab_channel out c = (if True then take ?n (cb_stream b i c) else replicate ?n 0)"
        using whole len by (metis append_eq_conv_conj)
    qed (use True avail s out f in simp_all)
  qed
qed

lemma read_refused:
  assumes "\<not> cb_live b i g \<or> ab_channels destination \<noteq> cb_channels b \<or> ab_frames destination = 0 \<or>
     ab_frames destination > unat kVirtualAsioMaxFramesPerBlock"
  shows "capture_read i g destination b =
     (False, ab_clear destination, b\<lparr>cb_counters := capture_underflow (cb_counters b)\<rparr>)"
  using assms by (auto simp: capture_read_def capture_read_refused_def cb_live_def Let_def)

text \<open>A step of one handle leaves the slots of the others alone.\<close>

lemma other_slot:
  assumes "cb_slots b' = (cb_slots b)[j := s]" "i \<noteq> j"
  shows "cb_live b' i g = cb_live b i g" "cb_stream b' i c = cb_stream b i c"
  using assms by (simp_all add: cb_live_def cb_stream_def)

lemma capture_read_inv:
  assumes inv: "cb_inv b" and dst: "ab_wf destination"
  shows "cb_inv (snd (snd (capture_read j h destination b)))"
    "cb_channels (snd (snd (capture_read j h destination b))) = cb_channels b"
proof -
  have "cb_inv (snd (snd (capture_read j h destination b))) \<and>
    cb_channels (snd (snd (capture_read j h destination b))) = cb_channels b"
  proof (cases "cb_live b j h \<and> ab_channels destination = cb_channels b \<and> 0 < ab_frames destination \<and>
       ab_frames destination \<le> unat kVirtualAsioMaxFramesPerBlock")
    case False
    then have "capture_read j h destination b =
        (False, ab_clear destination, b\<lparr>cb_counters := capture_underflow (cb_counters b)\<rparr>)"
      by (intro read_refused) auto
    then show ?thesis using inv by (simp add: cb_inv_def)
  next
    case True
    then have t: "cb_live b j h" "ab_channels destination = cb_channels b" "0 < ab_frames destination"
      "ab_frames destination \<le> unat kVirtualAsioMaxFramesPerBlock" by simp_all
    obtain ok out s k where run: "capture_read j h destination b = (ok, out, b\<lparr>cb_slots := (cb_slots b)[j := s], cb_counters := k\<rparr>)"
      and s: "csl_inv (cb_channels b) (cb_producer_frames b) s"
      by (rule read_slot [OF inv t(1) dst t(2-4)]) blast
    have "cb_inv (b\<lparr>cb_slots := (cb_slots b)[j := s], cb_counters := k\<rparr>)"
      by (rule cb_inv_update [OF inv s, of _ j]) simp_all
    then show ?thesis by (simp add: run)
  qed
  then show "cb_inv (snd (snd (capture_read j h destination b)))"
    "cb_channels (snd (snd (capture_read j h destination b))) = cb_channels b" by simp_all
qed

lemma capture_read_step:
  fixes j :: nat and h :: u64
  assumes inv: "cb_inv b" and dst: "ab_wf destination" and live: "cb_live b i g" and c: "c < cb_channels b"
  defines "r \<equiv> capture_read j h destination b"
  shows "cb_inv (snd (snd r)) \<and> cb_live (snd (snd r)) i g \<and> cb_channels (snd (snd r)) = cb_channels b \<and>
    (if fst r \<and> j = i \<and> h = g then ab_channel (fst (snd r)) c else []) @ cb_stream (snd (snd r)) i c = cb_stream b i c"
proof (cases "cb_live b j h \<and> ab_channels destination = cb_channels b \<and> 0 < ab_frames destination \<and>
     ab_frames destination \<le> unat kVirtualAsioMaxFramesPerBlock")
  case False
  then have "r = (False, ab_clear destination, b\<lparr>cb_counters := capture_underflow (cb_counters b)\<rparr>)"
    unfolding r_def by (intro read_refused) auto
  then show ?thesis using inv live by (simp add: cb_inv_def cb_live_def cb_stream_def)
next
  case True
  then have t: "cb_live b j h" "ab_channels destination = cb_channels b" "0 < ab_frames destination"
    "ab_frames destination \<le> unat kVirtualAsioMaxFramesPerBlock" by simp_all
  obtain ok out s k where run: "r = (ok, out, b\<lparr>cb_slots := (cb_slots b)[j := s], cb_counters := k\<rparr>)"
    and s: "csl_inv (cb_channels b) (cb_producer_frames b) s" "csl_state s = SlotActive" "csl_generation s = h"
    and stream: "\<forall>c < cb_channels b. csl_stream s c = (if ok then drop (ab_frames destination) (cb_stream b j c) else cb_stream b j c)"
    and out: "\<forall>c < cb_channels b. ab_channel out c =
      (if ok then take (ab_frames destination) (cb_stream b j c) else replicate (ab_frames destination) 0)"
    unfolding r_def by (rule read_slot [OF inv t(1) dst t(2-4)]) blast
  let ?b = "b\<lparr>cb_slots := (cb_slots b)[j := s], cb_counters := k\<rparr>"
  have j: "j < length (cb_slots b)" using t(1) by (simp add: cb_live_def)
  have inv': "cb_inv ?b" by (rule cb_inv_update [OF inv s(1), of _ j]) simp_all
  show ?thesis
  proof (cases "j = i")
    case True
    then have "h = g" using t(1) live by (simp add: cb_live_def)
    with True j have "cb_live ?b i g" "cb_stream ?b i c = csl_stream s c" using s
      by (simp_all add: cb_live_def cb_stream_def)
    then show ?thesis using inv' run stream out c True \<open>h = g\<close> by simp
  next
    case False
    note same = other_slot [of ?b b j s i, OF _ not_sym [OF False]]
    show ?thesis using inv' run same live False by simp
  qed
qed

lemma first_idle_Some: "first_idle f ss = Some i \<Longrightarrow> i < length ss \<and> f (ss ! i) = SlotIdle"
  by (induction ss arbitrary: i) (auto split: if_splits)

lemma capture_attach_step:
  fixes j :: nat and h :: u64
  assumes inv: "cb_inv b"
  defines "b' \<equiv> snd (capture_attach b)"
  shows "cb_inv b'" "cb_channels b' = cb_channels b" "cb_producer_frames b' = cb_producer_frames b"
    and "cb_live b i g \<Longrightarrow> cb_live b' i g \<and> cb_stream b' i c = cb_stream b i c"
    and "fst (capture_attach b) = Some (j, h) \<Longrightarrow> cb_live b' j h \<and> cb_stream b' j c = []"
proof -
  have "cb_inv b' \<and> cb_channels b' = cb_channels b \<and> cb_producer_frames b' = cb_producer_frames b \<and>
    (cb_live b i g \<longrightarrow> cb_live b' i g \<and> cb_stream b' i c = cb_stream b i c) \<and>
    (fst (capture_attach b) = Some (j, h) \<longrightarrow> cb_live b' j h \<and> cb_stream b' j c = [])"
  proof (cases "first_idle csl_state (cb_slots b)")
    case None
    then show ?thesis using inv by (simp add: b'_def capture_attach_def)
  next
    case (Some l)
    note l = first_idle_Some [OF Some]
    let ?s = "(cb_slots b ! l)\<lparr>csl_ring := bk_reset (csl_ring (cb_slots b ! l)),
      csl_pending := pf_clear (csl_pending (cb_slots b ! l)), csl_generation := cb_next_generation b, csl_state := SlotActive\<rparr>"
    have run: "capture_attach b = (Some (l, cb_next_generation b), b')" "cb_slots b' = (cb_slots b)[l := ?s]"
      "cb_channels b' = cb_channels b" "cb_producer_frames b' = cb_producer_frames b"
      using Some by (simp_all add: b'_def capture_attach_def Let_def)
    have slot: "csl_inv (cb_channels b) (cb_producer_frames b) (cb_slots b ! l)" using cb_invD [OF inv] l by blast
    then have reset: "bk_list (bk_reset (csl_ring (cb_slots b ! l))) = [] \<and>
        bk_inv (cb_channels b) (cb_producer_frames b) (bk_reset (csl_ring (cb_slots b ! l)))"
      by (intro bk_reset_list) (simp add: csl_inv_def)
    have s: "csl_inv (cb_channels b) (cb_producer_frames b) ?s" "csl_stream ?s c = []"
      using slot reset by (simp_all add: csl_inv_def csl_stream_def) (simp add: pf_clear_def)
    have "cb_inv b'" by (rule cb_inv_update [OF inv s(1) run(2-4)])
    moreover have "l \<noteq> i" if "cb_live b i g" using that l by (auto simp: cb_live_def)
    ultimately show ?thesis
      using other_slot [OF run(2)] l s(2) run by (auto simp: cb_live_def cb_stream_def)
  qed
  then show "cb_inv b'" "cb_channels b' = cb_channels b" "cb_producer_frames b' = cb_producer_frames b"
    "cb_live b i g \<Longrightarrow> cb_live b' i g \<and> cb_stream b' i c = cb_stream b i c"
    "fst (capture_attach b) = Some (j, h) \<Longrightarrow> cb_live b' j h \<and> cb_stream b' j c = []" by simp_all
qed

lemma capture_detach_step:
  fixes j :: nat and h :: u64
  assumes inv: "cb_inv b"
  defines "b' \<equiv> capture_detach j h b"
  shows "cb_inv b'" "cb_channels b' = cb_channels b" "cb_producer_frames b' = cb_producer_frames b"
    and "cb_live b i g \<Longrightarrow> \<not> (i = j \<and> g = h) \<Longrightarrow> cb_live b' i g \<and> cb_stream b' i c = cb_stream b i c"
    and "\<not> cb_live b' j h"
proof -
  have "cb_inv b' \<and> cb_channels b' = cb_channels b \<and> cb_producer_frames b' = cb_producer_frames b \<and>
    (cb_live b i g \<longrightarrow> \<not> (i = j \<and> g = h) \<longrightarrow> cb_live b' i g \<and> cb_stream b' i c = cb_stream b i c) \<and> \<not> cb_live b' j h"
  proof (cases "j < length (cb_slots b) \<and> csl_generation (cb_slots b ! j) = h")
    case False
    then have "b' = b" by (auto simp: b'_def capture_detach_def Let_def)
    then show ?thesis using inv False by (auto simp: cb_live_def)
  next
    case True
    then have j: "j < length (cb_slots b)" and gen: "csl_generation (cb_slots b ! j) = h" by simp_all
    let ?s = "if csl_state (cb_slots b ! j) \<noteq> SlotActive then (cb_slots b ! j)\<lparr>csl_state := SlotClaiming\<rparr>
      else (cb_slots b ! j)\<lparr>csl_ring := bk_reset (csl_ring (cb_slots b ! j)),
        csl_pending := pf_clear (csl_pending (cb_slots b ! j)), csl_state := SlotIdle\<rparr>"
    have run: "cb_slots b' = (cb_slots b)[j := ?s]" "cb_channels b' = cb_channels b"
      "cb_producer_frames b' = cb_producer_frames b"
      using j gen by (simp_all add: b'_def capture_detach_def Let_def)
    have slot: "csl_inv (cb_channels b) (cb_producer_frames b) (cb_slots b ! j)" by (rule cb_invD [OF inv j])
    then have "bk_inv (cb_channels b) (cb_producer_frames b) (bk_reset (csl_ring (cb_slots b ! j)))"
      using bk_reset_list by (simp add: csl_inv_def)
    with slot have s: "csl_inv (cb_channels b) (cb_producer_frames b) ?s"
      by (simp add: csl_inv_def) (simp add: pf_clear_def)
    have "cb_inv b'" by (rule cb_inv_update [OF inv s run])
    moreover have "\<not> cb_live b' j h" using j by (simp add: cb_live_def run(1))
    moreover have "i \<noteq> j" if "cb_live b i g" "\<not> (i = j \<and> g = h)" using that gen by (auto simp: cb_live_def)
    ultimately show ?thesis using other_slot [OF run(1)] run(2,3) by blast
  qed
  then show "cb_inv b'" "cb_channels b' = cb_channels b" "cb_producer_frames b' = cb_producer_frames b"
    "cb_live b i g \<Longrightarrow> \<not> (i = j \<and> g = h) \<Longrightarrow> cb_live b' i g \<and> cb_stream b' i c = cb_stream b i c"
    "\<not> cb_live b' j h" by simp_all
qed

section \<open>Whole runs\<close>

datatype bus_op = BusWrite audio_buffer | BusRead nat u64 audio_buffer | BusAttach | BusDetach nat u64

fun capture_step :: "bus_op \<Rightarrow> capture_bus \<Rightarrow> capture_bus" where
  "capture_step (BusWrite source) b = snd (capture_write source b)"
| "capture_step (BusRead i g destination) b = snd (snd (capture_read i g destination b))"
| "capture_step BusAttach b = snd (capture_attach b)"
| "capture_step (BusDetach i g) b = capture_detach i g b"

primrec capture_run :: "bus_op list \<Rightarrow> capture_bus \<Rightarrow> capture_bus" where
  "capture_run [] b = b"
| "capture_run (op # ops) b = capture_run ops (capture_step op b)"

text \<open>The frames of a channel a handle has been given, and those of the blocks its slot has taken.\<close>

fun heard_in :: "nat \<Rightarrow> u64 \<Rightarrow> nat \<Rightarrow> bus_op \<Rightarrow> capture_bus \<Rightarrow> f32 list" where
  "heard_in i g c (BusRead j h destination) b =
     (let r = capture_read j h destination b in if fst r \<and> j = i \<and> h = g then ab_channel (fst (snd r)) c else [])"
| "heard_in i g c _ b = []"

primrec heard :: "nat \<Rightarrow> u64 \<Rightarrow> nat \<Rightarrow> bus_op list \<Rightarrow> capture_bus \<Rightarrow> f32 list" where
  "heard i g c [] b = []"
| "heard i g c (op # ops) b = heard_in i g c op b @ heard i g c ops (capture_step op b)"

fun taken_in :: "nat \<Rightarrow> nat \<Rightarrow> bus_op \<Rightarrow> capture_bus \<Rightarrow> f32 list" where
  "taken_in i c (BusWrite source) b = (if cb_accepts b i source then ab_channel source c else [])"
| "taken_in i c _ b = []"

primrec taken :: "nat \<Rightarrow> nat \<Rightarrow> bus_op list \<Rightarrow> capture_bus \<Rightarrow> f32 list" where
  "taken i c [] b = []"
| "taken i c (op # ops) b = taken_in i c op b @ taken i c ops (capture_step op b)"

fun op_buffer_wf :: "bus_op \<Rightarrow> bool" where
  "op_buffer_wf (BusWrite source) = ab_wf source"
| "op_buffer_wf (BusRead i g destination) = ab_wf destination"
| "op_buffer_wf _ = True"

lemma capture_step_stream:
  assumes "cb_inv b" "cb_live b i g" "c < cb_channels b" "op_buffer_wf op" "op \<noteq> BusDetach i g"
  shows "cb_inv (capture_step op b) \<and> cb_live (capture_step op b) i g \<and>
    cb_channels (capture_step op b) = cb_channels b \<and>
    heard_in i g c op b @ cb_stream (capture_step op b) i c = cb_stream b i c @ taken_in i c op b"
proof (cases op)
  case (BusWrite source)
  have "i < length (cb_slots b)" using assms(2) by (simp add: cb_live_def)
  then show ?thesis
    using capture_write_stream [OF assms(1), of source] assms BusWrite by simp
next
  case (BusRead j h destination)
  then show ?thesis using capture_read_step [OF assms(1) _ assms(2,3), of destination j h] assms(4) by (simp add: Let_def)
next
  case BusAttach
  then show ?thesis using capture_attach_step [OF assms(1)] assms(2) by simp
next
  case (BusDetach j h)
  then show ?thesis using capture_detach_step(1,2) [OF assms(1), of j h] capture_detach_step(4) [OF assms(1,2), of j h c]
      assms(5) by auto
qed

lemma capture_run_stream:
  assumes "cb_inv b" "cb_live b i g" "c < cb_channels b" "\<forall>op \<in> set ops. op_buffer_wf op" "BusDetach i g \<notin> set ops"
  shows "cb_inv (capture_run ops b) \<and> cb_live (capture_run ops b) i g \<and>
    heard i g c ops b @ cb_stream (capture_run ops b) i c = cb_stream b i c @ taken i c ops b"
  using assms
proof (induction ops arbitrary: b)
  case (Cons op ops)
  have step: "cb_inv (capture_step op b)" "cb_live (capture_step op b) i g" "cb_channels (capture_step op b) = cb_channels b"
    "heard_in i g c op b @ cb_stream (capture_step op b) i c = cb_stream b i c @ taken_in i c op b"
    using capture_step_stream [OF Cons.prems(1-3), of op] Cons.prems(4,5) by auto
  have "heard i g c ops (capture_step op b) @ cb_stream (capture_run ops (capture_step op b)) i c =
      cb_stream (capture_step op b) i c @ taken i c ops (capture_step op b)"
    and "cb_inv (capture_run ops (capture_step op b)) \<and> cb_live (capture_run ops (capture_step op b)) i g"
    using Cons.IH [OF step(1,2)] Cons.prems(3-5) step(3) by simp_all
  then show ?case using step(4) by (simp flip: append_assoc) (simp add: append_assoc)
qed simp

lemma capture_run_inv:
  assumes "cb_inv b" "\<forall>op \<in> set ops. op_buffer_wf op"
  shows "cb_inv (capture_run ops b)" "cb_channels (capture_run ops b) = cb_channels b"
proof -
  have step: "cb_inv (capture_step op b) \<and> cb_channels (capture_step op b) = cb_channels b"
    if "cb_inv b" "op_buffer_wf op" for op b
    using that capture_write_stream [OF that(1)] capture_attach_step [OF that(1)] capture_detach_step [OF that(1)]
      capture_read_inv [OF that(1)] by (cases op) auto
  have "cb_inv (capture_run ops b) \<and> cb_channels (capture_run ops b) = cb_channels b"
    using assms by (induction ops arbitrary: b) (simp_all add: step)
  then show "cb_inv (capture_run ops b)" "cb_channels (capture_run ops b) = cb_channels b" by simp_all
qed

section \<open>Properties\<close>

text \<open>
  C15: A consumer of the capture bus hears exactly the blocks its slot has taken since it was attached:
  whatever the producer, the other consumers, attaches and detaches do in between, the frames it has
  read followed by those it can still read are the frames of the accepted blocks, in order, per
  channel, cut at whatever block sizes it reads with.
\<close>

theorem capture_consumer_stream:
  assumes "make_capture_bus channels frames consumers capacity = Some b0" "8192 + frames * capacity < 2 ^ 64"
    and "\<forall>op \<in> set before. op_buffer_wf op" "capture_attach (capture_run before b0) = (Some (i, g), b)"
    and "\<forall>op \<in> set ops. op_buffer_wf op" "BusDetach i g \<notin> set ops" "c < channels"
  shows "heard i g c ops b @ cb_stream (capture_run ops b) i c = taken i c ops b \<and>
    capture_available_frames i g (capture_run ops b) = length (cb_stream (capture_run ops b) i c)"
proof -
  have shape: "cb_inv b0" "cb_channels b0 = channels"
    using make_capture_bus_inv [OF assms(1,2)] by simp_all
  note before = capture_run_inv [OF shape(1) assms(3)]
  have attached: "cb_inv b" "cb_live b i g" "cb_stream b i c = []" "cb_channels b = channels"
    using capture_attach_step [OF before(1)] assms(4) before(2) shape(2) by (metis fst_conv snd_conv)+
  have c: "c < cb_channels b" using assms(7) attached(4) by simp
  note run = capture_run_stream [OF attached(1,2) c assms(5,6)]
  have "cb_channels (capture_run ops b) = channels" using capture_run_inv [OF attached(1) assms(5)] attached(4) by simp
  then show ?thesis
    using run available_frames_length [of "capture_run ops b" i g c] attached(3) assms(7) by simp
qed

definition demo_block2 :: "f32 \<Rightarrow> f32 \<Rightarrow> audio_buffer" where
  "demo_block2 x y = \<lparr>ab_channels = 1, ab_frames = 2, ab_samples = [x, y]\<rparr>"

definition demo_attached :: "planar_fifo \<Rightarrow> capture_bus" where
  "demo_attached q =
     \<lparr>cb_channels = 1, cb_producer_frames = 2,
      cb_slots = [\<lparr>csl_ring = \<lparr>bk_blocks = [demo_block2 0 0, demo_block2 0 0], bk_read = 0, bk_write = 0\<rparr>,
        csl_pending = pf_clear q, csl_generation = 1, csl_state = SlotActive\<rparr>],
      cb_next_generation = 2,
      cb_counters = \<lparr>cbk_published_blocks = 0, cbk_dropped_blocks = 0, cbk_consumed_blocks = 0,
        cbk_consumer_underflows = 0, cbk_consumer_overflows = 0, cbk_maximum_queue_depth = 0,
        cbk_active_consumers = 1\<rparr>\<rparr>"

lemma demo_capture_bus:
  "\<exists>b0 q. make_capture_bus 1 2 1 1 = Some b0 \<and> capture_attach b0 = (Some (0, 1), demo_attached q)"
proof -
  have fifo: "make_planar_fifo 1 ((unat kVirtualAsioMaxFramesPerBlock + 2 * 1) mod 2 ^ 64) =
      Inr \<lparr>pf_channels = 1, pf_capacity = 8194, pf_samples = replicate 8194 0, pf_read = 0, pf_write = 0, pf_available = 0\<rparr>"
    by (simp add: make_planar_fifo_def checked_sample_count_def kVirtualAsioMaxFramesPerBlock_def)
  define q :: planar_fifo where
    "q = \<lparr>pf_channels = 1, pf_capacity = 8194, pf_samples = replicate 8194 0, pf_read = 0, pf_write = 0, pf_available = 0\<rparr>"
  have two: "replicate 2 (0 :: f32) = [0, 0]" by (simp add: numeral_2_eq_2)
  have ring: "bk_make 1 2 1 = Some \<lparr>bk_blocks = [demo_block2 0 0, demo_block2 0 0], bk_read = 0, bk_write = 0\<rparr>"
    by (simp add: bk_make_def make_audio_buffer_def demo_block2_def two)
  have "make_capture_slot 1 2 1 = Some \<lparr>csl_ring = \<lparr>bk_blocks = [demo_block2 0 0, demo_block2 0 0], bk_read = 0, bk_write = 0\<rparr>,
      csl_pending = q, csl_generation = 0, csl_state = SlotIdle\<rparr>"
    unfolding make_capture_slot_def ring fifo q_def by simp
  then show ?thesis
    by (simp add: make_capture_bus_def capture_attach_def bk_reset_def demo_attached_def Let_def) blast
qed

theorem capture_consumer_stream_witness:
  "\<exists>q. heard 0 1 0 [BusWrite (demo_block2 1 2), BusWrite (demo_block2 3 4), BusRead 0 1 demo_block] (demo_attached q) @
     cb_stream (capture_run [BusWrite (demo_block2 1 2), BusWrite (demo_block2 3 4), BusRead 0 1 demo_block]
       (demo_attached q)) 0 0 = [1, 2]"
proof -
  obtain b0 q where q: "make_capture_bus 1 2 1 1 = Some b0" "capture_attach (capture_run [] b0) = (Some (0, 1), demo_attached q)"
    using demo_capture_bus by auto
  let ?ops = "[BusWrite (demo_block2 1 2), BusWrite (demo_block2 3 4), BusRead 0 1 demo_block]"
  have wf: "\<forall>op \<in> set ?ops. op_buffer_wf op" by (simp add: ab_wf_def demo_block2_def demo_block_def)
  have "8192 + 2 * 1 < (2 :: nat) ^ 64" "\<forall>op \<in> set []. op_buffer_wf op" "BusDetach 0 1 \<notin> set ?ops" "0 < (1 :: nat)"
    by simp_all
  note stream = capture_consumer_stream [OF q(1) this(1,2) q(2) wf this(3,4)]
  have "taken 0 0 ?ops (demo_attached q) = [1, 2]"
    by (simp add: cb_accepts_def demo_attached_def demo_block2_def capture_write_def capture_write_slot_def
        bk_full_def bk_increment_def bk_put_def ab_channel_def Let_def)
  with stream show ?thesis by auto
qed

text \<open>
  A read succeeds exactly when the handle is live, the block has the channels of the bus and a
  permitted size, and that many frames are available. Then it delivers the oldest frames of every channel
  and removes them; otherwise the destination is silence and no frame is lost. No read ever counts an
  overflow: the pending frames always have room for the next block.
\<close>

theorem capture_read_exact:
  assumes "cb_inv b" "ab_wf destination" "capture_read i g destination b = (ok, out, b')"
  shows "ok = (cb_live b i g \<and> ab_channels destination = cb_channels b \<and> 0 < ab_frames destination \<and>
       ab_frames destination \<le> 8192 \<and> ab_frames destination \<le> capture_available_frames i g b) \<and>
    (ok \<longrightarrow> (\<forall>c < cb_channels b. ab_channel out c = take (ab_frames destination) (cb_stream b i c) \<and>
       cb_stream b' i c = drop (ab_frames destination) (cb_stream b i c))) \<and>
    (\<not> ok \<longrightarrow> (\<forall>c < ab_channels destination. ab_channel out c = replicate (ab_frames destination) 0) \<and>
       (\<forall>c < cb_channels b. cb_stream b' i c = cb_stream b i c)) \<and>
    cbk_consumer_overflows (cb_counters b') = cbk_consumer_overflows (cb_counters b)"
proof (cases "cb_live b i g \<and> ab_channels destination = cb_channels b \<and> 0 < ab_frames destination \<and>
     ab_frames destination \<le> unat kVirtualAsioMaxFramesPerBlock")
  case False
  then have "(ok, out, b') = (False, ab_clear destination, b\<lparr>cb_counters := capture_underflow (cb_counters b)\<rparr>)"
    unfolding assms(3) [symmetric] by (intro read_refused) auto
  then show ?thesis using False ab_channel_clear [OF assms(2)]
    by (auto simp: cb_stream_def capture_underflow_def kVirtualAsioMaxFramesPerBlock_def)
next
  case True
  then have t: "cb_live b i g" "ab_channels destination = cb_channels b" "0 < ab_frames destination"
    "ab_frames destination \<le> unat kVirtualAsioMaxFramesPerBlock" by simp_all
  obtain ok' out' s k where run: "capture_read i g destination b = (ok', out', b\<lparr>cb_slots := (cb_slots b)[i := s], cb_counters := k\<rparr>)"
    and r: "ok' = (ab_frames destination \<le> capture_available_frames i g b)"
    "\<forall>c < cb_channels b. csl_stream s c = (if ok' then drop (ab_frames destination) (cb_stream b i c) else cb_stream b i c)"
    "\<forall>c < cb_channels b. ab_channel out' c =
      (if ok' then take (ab_frames destination) (cb_stream b i c) else replicate (ab_frames destination) 0)"
    "cbk_consumer_overflows k = cbk_consumer_overflows (cb_counters b)"
    by (rule read_slot [OF assms(1) t(1) assms(2) t(2-4)]) blast
  have b': "ok = ok'" "out = out'" "b' = b\<lparr>cb_slots := (cb_slots b)[i := s], cb_counters := k\<rparr>"
    using run assms(3) by simp_all
  have "i < length (cb_slots b)" using t(1) by (simp add: cb_live_def)
  then have "cb_stream b' i c = csl_stream s c" for c by (simp add: b' cb_stream_def)
  then show ?thesis using r t by (auto simp: b' kVirtualAsioMaxFramesPerBlock_def)
qed

theorem capture_read_exact_witness:
  "\<exists>q ok out b'. capture_read 0 1 demo_block (snd (capture_write (demo_block2 1 2) (demo_attached q))) = (ok, out, b') \<and>
     ok \<and> ab_channel out 0 = [1, 2] \<and> cb_stream b' 0 0 = []"
proof -
  obtain b0 q where q: "make_capture_bus 1 2 1 1 = Some b0" "capture_attach b0 = (Some (0, 1), demo_attached q)"
    using demo_capture_bus by auto
  have "cb_inv b0" using make_capture_bus_inv(1) [OF q(1)] by simp
  then have "cb_inv (demo_attached q)" using capture_attach_step(1) [of b0] q(2) by simp
  moreover have wf: "ab_wf (demo_block2 1 2)" "ab_wf demo_block" by (simp_all add: ab_wf_def demo_block2_def demo_block_def)
  ultimately have inv: "cb_inv (snd (capture_write (demo_block2 1 2) (demo_attached q)))" by (simp add: capture_write_stream(1))
  let ?b = "snd (capture_write (demo_block2 1 2) (demo_attached q))"
  obtain ok out b' where r: "capture_read 0 1 demo_block ?b = (ok, out, b')" by (cases "capture_read 0 1 demo_block ?b") auto
  have shape: "demo_block2 0 0 = \<lparr>ab_channels = 1, ab_frames = 2, ab_samples = [0, 0]\<rparr>"
    "block_shape 1 2 (demo_block2 x y)" for x y
    by (simp_all add: demo_block2_def block_shape_def ab_wf_def)
  have b: "cb_slots ?b = [\<lparr>csl_ring = \<lparr>bk_blocks = [demo_block2 1 2, demo_block2 0 0], bk_read = 0, bk_write = 1\<rparr>,
        csl_pending = pf_clear q, csl_generation = 1, csl_state = SlotActive\<rparr>]" "cb_channels ?b = 1" "cb_producer_frames ?b = 2"
    by (simp_all add: demo_attached_def capture_write_def capture_write_slot_def bk_full_def bk_increment_def bk_put_def
        ab_copy_from_same [OF shape(2) shape(2)] Let_def) (simp_all add: demo_block2_def)
  have "cb_live ?b 0 1" "ab_channels demo_block = cb_channels ?b" "ab_frames demo_block = 2"
    "capture_available_frames 0 1 ?b = 2" "cb_stream ?b 0 0 = [1, 2]"
    by (simp_all add: cb_live_def b capture_available_frames_def bk_queue_depth_def cb_stream_def csl_stream_def bk_list_def
        bk_depth_def demo_block_def Let_def) (simp_all add: pf_clear_def demo_block2_def ab_channel_def)
  then have "ok \<and> ab_channel out 0 = [1, 2] \<and> cb_stream b' 0 0 = []"
    using capture_read_exact [OF inv wf(2) r] b(2) by simp
  with r show ?thesis by blast
qed

end
