(* ===== verification/FloatArith.thy ===== *)
theory FloatArith
  imports FloatBits "HOL-Library.Log_Nat"
begin

text \<open>
  The IEEE 754 arithmetic of the sample loops on bit patterns, in the default rounding mode. A finite
  value is a whole number of the smallest subnormal; a result is computed exactly in such units and rounded once,
  to nearest, ties to even. Operations that meet a NaN return it quieted, the first operand's if both are,
  and invalid ones the default NaN, as the SSE unit of the target does.
\<close>

section \<open>Rounding\<close>

text \<open>\<open>n / 2 ^ k\<close> to the nearest integer, ties to even.\<close>

definition rne :: "nat \<Rightarrow> nat \<Rightarrow> nat" where
  "rne n k =
     (let q = n div 2 ^ k; r = n mod 2 ^ k
      in if 2 * r > 2 ^ k \<or> 2 * r = 2 ^ k \<and> odd q then q + 1 else q)"

text \<open>
  Exponent and fraction fields of the number of precision \<open>p\<close> nearest to \<open>n\<close> units of \<open>2 ^ -lo\<close>
  subnormals. A fraction that rounds up to a power of two carries into the exponent.
\<close>

definition fl_round :: "nat \<Rightarrow> nat \<Rightarrow> nat \<Rightarrow> nat" where
  "fl_round p lo n = (let k = max lo (floorlog 2 n - p) in (k - lo) * 2 ^ (p - 1) + rne n k)"

lemma rne_exact: "rne (q * 2 ^ k) k = q"
  by (simp add: rne_def)

lemma rne_0 [simp]: "rne n 0 = n"
  by (simp add: rne_def)

lemma rne_scale: "rne (n * 2 ^ j) (k + j) = rne n k"
proof -
  have "n * 2 ^ j div 2 ^ (k + j) = n div 2 ^ k" by (simp add: power_add mult.commute [of "2 ^ k"])
  moreover have "n * 2 ^ j mod 2 ^ (k + j) = n mod 2 ^ k * 2 ^ j" by (simp add: power_add mult_mod_left)
  moreover have "2 * (n mod 2 ^ k * 2 ^ j) > 2 ^ (k + j) \<longleftrightarrow> 2 * (n mod 2 ^ k) > 2 ^ k"
    "2 * (n mod 2 ^ k * 2 ^ j) = 2 ^ (k + j) \<longleftrightarrow> 2 * (n mod 2 ^ k) = 2 ^ k"
    by (simp_all add: power_add flip: mult.assoc)
  ultimately show ?thesis by (simp only: rne_def Let_def)
qed

text \<open>The rounded integer is nearest: it misses by at most half a unit.\<close>

lemma rne_nearest: "2 * \<bar>int n - int (rne n k * 2 ^ k)\<bar> \<le> int (2 ^ k)"
proof -
  define d q r where "d = (2 ^ k :: nat)" and "q = n div d" and "r = n mod d"
  have n: "n = q * d + r" "r < d" unfolding d_def q_def r_def by (rule div_mult_mod_eq [symmetric]) simp
  have "rne n k = (if 2 * r > d \<or> 2 * r = d \<and> odd q then q + 1 else q)"
    by (simp add: rne_def Let_def d_def q_def r_def)
  then show ?thesis using n by (auto simp flip: d_def simp: algebra_simps)
qed

lemma floorlog_scale: "n > 0 \<Longrightarrow> floorlog 2 (n * 2 ^ j) = floorlog 2 n + j"
  by simp

lemma fl_round_scale: "fl_round p (lo + j) (n * 2 ^ j) = fl_round p lo n"
proof (cases "n = 0")
  case True
  then show ?thesis by (simp add: fl_round_def rne_def floorlog_def)
next
  case False
  then have "max (lo + j) (floorlog 2 (n * 2 ^ j) - p) = max lo (floorlog 2 n - p) + j \<or>
      max (lo + j) (floorlog 2 (n * 2 ^ j) - p) = lo + j \<and> max lo (floorlog 2 n - p) = lo"
    by (auto simp: max_def)
  then show ?thesis
    using rne_scale [of n j lo] rne_scale [of n j "max lo (floorlog 2 n - p)"] by (auto simp: fl_round_def Let_def)
qed

text \<open>A number that needs at most \<open>p\<close> digits is not changed.\<close>

lemma fl_round_small: "n < 2 ^ p \<Longrightarrow> fl_round p 0 n = n"
  by (simp add: fl_round_def floorlog_leI)

lemma fl_round_normal:
  assumes "2 ^ (p - 1) \<le> q" "q < 2 ^ p" "0 < p"
  shows "fl_round p 0 (q * 2 ^ e) = e * 2 ^ (p - 1) + q"
proof -
  have "floorlog 2 q = p"
    using floorlog_leI [OF assms(2)] floorlog_geI [OF assms(1)] by simp
  moreover have "0 < q" using assms(1) by (metis gr0I leD zero_less_numeral zero_less_power)
  ultimately have "floorlog 2 (q * 2 ^ e) = p + e" by simp
  then show ?thesis by (simp add: fl_round_def rne_exact)
qed

section \<open>Single precision\<close>

definition f32_negative :: "f32 \<Rightarrow> bool" where
  "f32_negative x \<longleftrightarrow> 0x80000000 \<le> x"

definition f32_magnitude :: "f32 \<Rightarrow> nat" where
  "f32_magnitude x = unat x mod 2 ^ 31"

definition f32_nan :: "f32 \<Rightarrow> bool" where
  "f32_nan x \<longleftrightarrow> f32_magnitude x > 0x7F800000"

definition f32_infinite :: "f32 \<Rightarrow> bool" where
  "f32_infinite x \<longleftrightarrow> f32_magnitude x = 0x7F800000"

definition f32_quiet :: "f32 \<Rightarrow> f32" where
  "f32_quiet x = x OR 0x00400000"

definition f32_invalid :: f32 where
  "f32_invalid = 0xFFC00000"

definition f32_make :: "bool \<Rightarrow> nat \<Rightarrow> f32" where
  "f32_make negative magnitude = word_of_nat (min magnitude 0x7F800000 + (if negative then 2 ^ 31 else 0))"

text \<open>The units of \<open>2 ^ -149\<close> in the magnitude of a finite value.\<close>

definition units :: "nat \<Rightarrow> nat \<Rightarrow> nat" where
  "units p magnitude =
     (let e = magnitude div 2 ^ (p - 1); m = magnitude mod 2 ^ (p - 1)
      in if e = 0 then m else (2 ^ (p - 1) + m) * 2 ^ (e - 1))"

definition f32_units :: "f32 \<Rightarrow> nat" where
  "f32_units x = units 24 (f32_magnitude x)"

definition f32_signed :: "f32 \<Rightarrow> int" where
  "f32_signed x = (if f32_negative x then - int (f32_units x) else int (f32_units x))"

definition f32_add :: "f32 \<Rightarrow> f32 \<Rightarrow> f32" where
  "f32_add x y =
     (if f32_nan x then f32_quiet x else if f32_nan y then f32_quiet y
      else if f32_infinite x then (if f32_infinite y \<and> f32_negative x \<noteq> f32_negative y then f32_invalid else x)
      else if f32_infinite y then y
      else
        let s = f32_signed x + f32_signed y
        in if s = 0 then f32_make (f32_negative x \<and> f32_negative y) 0
           else f32_make (s < 0) (fl_round 24 0 (nat \<bar>s\<bar>)))"

definition f32_mul :: "f32 \<Rightarrow> f32 \<Rightarrow> f32" where
  "f32_mul x y =
     (if f32_nan x then f32_quiet x else if f32_nan y then f32_quiet y
      else if f32_infinite x \<or> f32_infinite y
      then (if f32_is_zero x \<or> f32_is_zero y then f32_invalid else f32_make (f32_negative x \<noteq> f32_negative y) 0x7F800000)
      else f32_make (f32_negative x \<noteq> f32_negative y) (fl_round 24 149 (f32_units x * f32_units y)))"

definition f32_neg :: "f32 \<Rightarrow> f32" where
  "f32_neg x = x XOR 0x80000000"

definition f32_abs :: "f32 \<Rightarrow> f32" where
  "f32_abs x = x AND 0x7FFFFFFF"

text \<open>Rounding gives back what was exact.\<close>

lemma fl_round_units:
  assumes "0 < p"
  shows "fl_round p 0 (units p m) = m"
proof -
  let ?b = "2 ^ (p - 1) :: nat"
  have p: "2 ^ p = 2 * ?b" using assms by (cases p) simp_all
  have mod: "m mod ?b < ?b" by simp
  show ?thesis
  proof (cases "m div ?b = 0")
    case True
    then have "m mod ?b = m" by (metis div_mult_mod_eq add_0 mult_0)
    moreover have "m mod ?b < 2 ^ p" using mod p by linarith
    ultimately show ?thesis using True fl_round_small [of m p] by (simp add: units_def)
  next
    case False
    then obtain e where e: "m div ?b = Suc e" by (cases "m div ?b") auto
    have "fl_round p 0 ((?b + m mod ?b) * 2 ^ e) = e * ?b + (?b + m mod ?b)"
      using mod p assms by (intro fl_round_normal) simp_all
    also have "\<dots> = m div ?b * ?b + m mod ?b" unfolding e by simp
    also have "\<dots> = m" by (rule div_mult_mod_eq)
    finally show ?thesis unfolding units_def Let_def e by simp
  qed
qed

lemma f32_units_pos: "f32_units x = 0 \<longleftrightarrow> f32_magnitude x = 0"
  unfolding f32_units_def units_def Let_def
  by (auto simp: div_eq_0_iff)

lemma f32_fields: "f32_make (f32_negative x) (f32_magnitude x) = x" if "\<not> f32_nan x"
proof -
  have "unat x < 2 ^ 32" using unsigned_less [where ?'a = nat, of x] by simp
  moreover have "f32_negative x \<longleftrightarrow> 2 ^ 31 \<le> unat x" by (simp add: f32_negative_def word_le_nat_alt)
  ultimately have "f32_magnitude x + (if f32_negative x then 2 ^ 31 else 0) = unat x"
    by (auto simp: f32_magnitude_def not_le mod_if)
  moreover have "min (f32_magnitude x) 0x7F800000 = f32_magnitude x" using that by (simp add: f32_nan_def)
  ultimately show ?thesis by (simp add: f32_make_def)
qed

lemma f32_finite_iff: "f32_finite x \<longleftrightarrow> f32_magnitude x < 0x7F800000"
proof -
  have field: "unat (drop_bit 23 x AND 255) = unat x div 2 ^ 23 mod 2 ^ 8"
  proof -
    have "(255 :: u32) = mask 8" by (simp add: mask_eq_exp_minus_1)
    then have "drop_bit 23 x AND 255 = take_bit 8 (drop_bit 23 x)" by (simp only: take_bit_eq_mask)
    then show ?thesis
      by (simp add: take_bit_eq_mod drop_bit_eq_div unat_div unat_mod)
  qed
  have split: "unat x mod 2 ^ 31 = (unat x div 2 ^ 23 mod 2 ^ 8) * 2 ^ 23 + unat x mod 2 ^ 23"
    using mod_mult2_eq [of "unat x" "2 ^ 23" "2 ^ 8"] by simp
  have "unat x mod 2 ^ 23 < 2 ^ 23" "unat x div 2 ^ 23 mod 2 ^ 8 < 2 ^ 8" by simp_all
  then have "unat x mod 2 ^ 31 < 0x7F800000 \<longleftrightarrow> unat x div 2 ^ 23 mod 2 ^ 8 \<noteq> 255"
    unfolding split by (cases "unat x div 2 ^ 23 mod 2 ^ 8 \<le> 254") auto
  then show ?thesis unfolding f32_finite_def f32_magnitude_def by (simp add: word_unat_eq_iff field)
qed

lemma f32_finite_not: "f32_finite x \<Longrightarrow> \<not> f32_nan x \<and> \<not> f32_infinite x"
  by (simp add: f32_finite_iff f32_nan_def f32_infinite_def)

lemma f32_is_zero_iff: "f32_is_zero x \<longleftrightarrow> f32_magnitude x = 0"
proof -
  have "unat x < 2 ^ 32" using unsigned_less [where ?'a = nat, of x] by simp
  then have "unat x mod 2 ^ 31 = 0 \<longleftrightarrow> unat x = 0 \<or> unat x = 2 ^ 31" by (auto simp: mod_if split: if_splits)
  then show ?thesis by (simp add: f32_is_zero_def f32_magnitude_def word_unat_eq_iff)
qed

lemma f32_round_back: "f32_finite x \<Longrightarrow> f32_make (f32_negative x) (fl_round 24 0 (f32_units x)) = x"
  using f32_fields [of x] f32_finite_not [of x] by (simp add: f32_units_def fl_round_units)

lemma f32_zero [simp]: "f32_magnitude 0 = 0" "\<not> f32_nan 0" "\<not> f32_infinite 0" "\<not> f32_negative 0" "f32_signed 0 = 0" "f32_units 0 = 0"
  by (simp_all add: f32_magnitude_def f32_nan_def f32_infinite_def f32_negative_def f32_signed_def f32_units_def units_def)

lemma f32_add_zero:
  assumes "f32_finite x"
  shows "f32_add 0 x = (if f32_is_zero x then 0 else x)"
proof (cases "f32_is_zero x")
  case True
  then have "f32_units x = 0" by (simp add: f32_units_pos f32_is_zero_iff)
  then show ?thesis using True f32_finite_not [OF assms] by (simp add: f32_add_def f32_signed_def Let_def f32_make_def)
next
  case False
  then have "f32_units x \<noteq> 0" by (simp add: f32_units_pos f32_is_zero_iff)
  then have "f32_signed x \<noteq> 0" "f32_signed x < 0 \<longleftrightarrow> f32_negative x" "nat \<bar>f32_signed x\<bar> = f32_units x"
    by (simp_all add: f32_signed_def)
  then show ?thesis using False f32_finite_not [OF assms] f32_round_back [OF assms] by (simp add: f32_add_def Let_def)
qed

lemma f32_one: "\<not> f32_nan 0x3F800000" "\<not> f32_infinite 0x3F800000" "\<not> f32_negative 0x3F800000"
  "f32_units 0x3F800000 = 2 ^ 149"
  by (simp_all add: f32_nan_def f32_infinite_def f32_negative_def f32_magnitude_def f32_units_def units_def Let_def)

lemma f32_mul_one:
  assumes "f32_finite x"
  shows "f32_mul x 0x3F800000 = x"
proof -
  have "fl_round 24 149 (f32_units x * 2 ^ 149) = fl_round 24 0 (f32_units x)"
    using fl_round_scale [of 24 0 149 "f32_units x"] by simp
  then show ?thesis
    using f32_finite_not [OF assms] f32_round_back [OF assms] unfolding f32_mul_def f32_one(4) by (simp add: f32_one(1-3))
qed

lemma f32_add_commute: "f32_finite x \<Longrightarrow> f32_finite y \<Longrightarrow> f32_add x y = f32_add y x"
  using f32_finite_not [of x] f32_finite_not [of y] by (auto simp: f32_add_def add.commute conj_commute Let_def)

lemma f32_neg_neg [simp]: "f32_neg (f32_neg x) = x"
  by (simp add: f32_neg_def xor.assoc)

section \<open>Double precision\<close>

definition f64_magnitude :: "f64 \<Rightarrow> nat" where
  "f64_magnitude x = unat x mod 2 ^ 63"

definition f64_infinite :: "f64 \<Rightarrow> bool" where
  "f64_infinite x \<longleftrightarrow> f64_magnitude x = 0x7FF0000000000000"

definition f64_quiet :: "f64 \<Rightarrow> f64" where
  "f64_quiet x = x OR 0x0008000000000000"

definition f64_invalid :: f64 where
  "f64_invalid = 0xFFF8000000000000"

definition f64_make :: "bool \<Rightarrow> nat \<Rightarrow> f64" where
  "f64_make negative magnitude = word_of_nat (min magnitude 0x7FF0000000000000 + (if negative then 2 ^ 63 else 0))"

text \<open>Units of \<open>2 ^ -1074\<close>.\<close>

definition f64_units :: "f64 \<Rightarrow> nat" where
  "f64_units x = units 53 (f64_magnitude x)"

definition f64_signed :: "f64 \<Rightarrow> int" where
  "f64_signed x = (if f64_negative x then - int (f64_units x) else int (f64_units x))"

definition f64_add :: "f64 \<Rightarrow> f64 \<Rightarrow> f64" where
  "f64_add x y =
     (if f64_nan x then f64_quiet x else if f64_nan y then f64_quiet y
      else if f64_infinite x then (if f64_infinite y \<and> f64_negative x \<noteq> f64_negative y then f64_invalid else x)
      else if f64_infinite y then y
      else
        let s = f64_signed x + f64_signed y
        in if s = 0 then f64_make (f64_negative x \<and> f64_negative y) 0
           else f64_make (s < 0) (fl_round 53 0 (nat \<bar>s\<bar>)))"

definition f64_mul :: "f64 \<Rightarrow> f64 \<Rightarrow> f64" where
  "f64_mul x y =
     (if f64_nan x then f64_quiet x else if f64_nan y then f64_quiet y
      else if f64_infinite x \<or> f64_infinite y
      then (if f64_is_zero x \<or> f64_is_zero y then f64_invalid else f64_make (f64_negative x \<noteq> f64_negative y) 0x7FF0000000000000)
      else f64_make (f64_negative x \<noteq> f64_negative y) (fl_round 53 1074 (f64_units x * f64_units y)))"

text \<open>
  Quotient and square root are computed to one more digit than the result can have, followed by a digit that
  says whether anything was cut off.
\<close>

definition f64_div :: "f64 \<Rightarrow> f64 \<Rightarrow> f64" where
  "f64_div x y =
     (let negative = (f64_negative x \<noteq> f64_negative y)
      in if f64_nan x then f64_quiet x else if f64_nan y then f64_quiet y
         else if f64_infinite x then (if f64_infinite y then f64_invalid else f64_make negative 0x7FF0000000000000)
         else if f64_infinite y then f64_make negative 0
         else if f64_is_zero y
         then (if f64_is_zero x then f64_invalid else f64_make negative 0x7FF0000000000000)
         else
           let n = f64_units x * 2 ^ 1075; d = f64_units y
           in f64_make negative (fl_round 53 2 (2 * (n div d) + (if n mod d = 0 then 0 else 1))))"

fun nat_sqrt :: "nat \<Rightarrow> nat" where
  "nat_sqrt n = (if n = 0 then 0 else let r = 2 * nat_sqrt (n div 4) in if (r + 1) * (r + 1) \<le> n then r + 1 else r)"

definition f64_sqrt :: "f64 \<Rightarrow> f64" where
  "f64_sqrt x =
     (if f64_nan x then f64_quiet x else if f64_is_zero x then x
      else if f64_negative x then f64_invalid else if f64_infinite x then x
      else
        let n = f64_units x * 2 ^ 1076; r = nat_sqrt n
        in f64_make False (fl_round 53 2 (2 * r + (if r * r = n then 0 else 1))))"

definition f64_of_nat :: "nat \<Rightarrow> f64" where
  "f64_of_nat n = f64_make False (fl_round 53 0 (n * 2 ^ 1074))"

definition f32_to_f64 :: "f32 \<Rightarrow> f64" where
  "f32_to_f64 x =
     (if f32_nan x then f64_make (f32_negative x) 0x7FF0000000000000 OR 0x0008000000000000 OR
        push_bit 29 (ucast (x AND 0x007FFFFF))
      else if f32_infinite x then f64_make (f32_negative x) 0x7FF0000000000000
      else f64_make (f32_negative x) (fl_round 53 0 (f32_units x * 2 ^ 925)))"

definition f64_to_f32 :: "f64 \<Rightarrow> f32" where
  "f64_to_f32 x =
     (if f64_nan x then f32_make (f64_negative x) 0x7F800000 OR 0x00400000 OR
        ucast (drop_bit 29 (x AND 0x000FFFFFFFFFFFFF))
      else if f64_infinite x then f32_make (f64_negative x) 0x7F800000
      else f32_make (f64_negative x) (fl_round 24 925 (f64_units x)))"

definition f64_neg :: "f64 \<Rightarrow> f64" where
  "f64_neg x = x XOR 0x8000000000000000"

definition f64_abs :: "f64 \<Rightarrow> f64" where
  "f64_abs x = x AND 0x7FFFFFFFFFFFFFFF"

definition f64_sub :: "f64 \<Rightarrow> f64 \<Rightarrow> f64" where
  "f64_sub x y = (if f64_nan y then if f64_nan x then f64_quiet x else f64_quiet y else f64_add x (f64_neg y))"

definition f64_le :: "f64 \<Rightarrow> f64 \<Rightarrow> bool" where
  "f64_le x y \<longleftrightarrow> \<not> f64_nan x \<and> \<not> f64_nan y \<and> \<not> f64_less y x"

text \<open>\<^verbatim>\<open>std::clamp\<close>: a NaN is neither below nor above and passes.\<close>

definition f64_clamp :: "f64 \<Rightarrow> f64 \<Rightarrow> f64 \<Rightarrow> f64" where
  "f64_clamp v lo hi = (if f64_less v lo then lo else if f64_less hi v then hi else v)"

lemma nat_sqrt_correct: "nat_sqrt n * nat_sqrt n \<le> n \<and> n < (nat_sqrt n + 1) * (nat_sqrt n + 1)"
proof (induction n rule: nat_sqrt.induct)
  case (1 n)
  show ?case
  proof (cases "n = 0")
    case False
    define r where "r = nat_sqrt (n div 4)"
    have IH: "r * r \<le> n div 4" "n div 4 < (r + 1) * (r + 1)" using 1 False by (simp_all add: r_def)
    have "4 * (n div 4) \<le> n" "n < 4 * (n div 4) + 4" by simp_all
    then have "4 * (r * r) \<le> n" "n < 4 * ((r + 1) * (r + 1))" using IH by linarith+
    then have b: "(2 * r) * (2 * r) \<le> n" "n < (2 * r + 1 + 1) * (2 * r + 1 + 1)" by (simp_all add: algebra_simps)
    have "nat_sqrt n = (if (2 * r + 1) * (2 * r + 1) \<le> n then 2 * r + 1 else 2 * r)"
      using False by (subst nat_sqrt.simps) (simp only: r_def Let_def if_False)
    then show ?thesis using b by auto
  qed simp
qed

end
