(* ===== verification/RenderBus.thy ===== *)
theory RenderBus
  imports CaptureBus FloatArith
begin

text \<open>
  \<^verbatim>\<open>core/platform/virtual_asio_render_bus.{h,cpp}\<close>: producers of any block size feed the blocks of the bus,
  the one consumer mixes the oldest block of every producer. Each call is one step; what keeps a reset apart
  from a read that runs is in \<open>SlotHandshake\<close>. A producer's handle is used by one thread.
\<close>

section \<open>State\<close>

record render_slot =
  rsl_pending :: planar_fifo
  rsl_adapted_block :: audio_buffer
  rsl_ring :: block_ring
  rsl_generation :: u64
  rsl_state :: slot_state
  rsl_producer_started :: bool

record render_counters =
  rbk_pushed_blocks :: u64
  rbk_dropped_blocks :: u64
  rbk_producer_underflows :: u64
  rbk_producer_overflows :: u64
  rbk_consumed_blocks :: u64
  rbk_mixed_blocks :: u64
  rbk_silent_reads :: u64
  rbk_clipped_samples :: u64
  rbk_non_finite_samples :: u64
  rbk_maximum_queue_depth :: nat
  rbk_active_producers :: u64
  rbk_peak :: f32
  rbk_interval_peak :: f32

record render_bus =
  rb_channels :: nat
  rb_frames :: nat
  rb_slots :: "render_slot list"
  rb_next_generation :: u64
  rb_counters :: render_counters

definition make_render_slot :: "nat \<Rightarrow> nat \<Rightarrow> nat \<Rightarrow> render_slot option" where
  "make_render_slot channels frames capacity =
     (case (make_planar_fifo channels ((unat kVirtualAsioMaxFramesPerBlock + frames) mod 2 ^ 64),
            make_audio_buffer channels frames, bk_make channels frames capacity) of
        (Inr pending, Some adapted, Some ring) \<Rightarrow>
          Some \<lparr>rsl_pending = pending, rsl_adapted_block = adapted, rsl_ring = ring, rsl_generation = 0,
            rsl_state = SlotIdle, rsl_producer_started = False\<rparr>
      | _ \<Rightarrow> None)"

definition render_no_counts :: render_counters where
  "render_no_counts =
     \<lparr>rbk_pushed_blocks = 0, rbk_dropped_blocks = 0, rbk_producer_underflows = 0, rbk_producer_overflows = 0,
      rbk_consumed_blocks = 0, rbk_mixed_blocks = 0, rbk_silent_reads = 0, rbk_clipped_samples = 0,
      rbk_non_finite_samples = 0, rbk_maximum_queue_depth = 0, rbk_active_producers = 0, rbk_peak = 0, rbk_interval_peak = 0\<rparr>"

text \<open>\<open>None\<close> is an exception of the constructor.\<close>

definition make_render_bus :: "nat \<Rightarrow> nat \<Rightarrow> nat \<Rightarrow> nat \<Rightarrow> render_bus option" where
  "make_render_bus channels frames maximum_producers capacity =
     (if channels = 0 \<or> frames = 0 \<or> maximum_producers = 0 \<or> capacity = 0 then None
      else map_option (\<lambda>slot.
        \<lparr>rb_channels = channels, rb_frames = frames, rb_slots = replicate maximum_producers slot,
         rb_next_generation = 1, rb_counters = render_no_counts\<rparr>)
        (make_render_slot channels frames capacity))"

section \<open>Attaching\<close>

definition render_attach :: "render_bus \<Rightarrow> (nat \<times> u64) option \<times> render_bus" where
  "render_attach b =
     (case first_idle rsl_state (rb_slots b) of
        None \<Rightarrow> (None, b)
      | Some i \<Rightarrow>
          let s = rb_slots b ! i; generation = rb_next_generation b;
              s' = s\<lparr>rsl_ring := bk_reset (rsl_ring s), rsl_pending := pf_clear (rsl_pending s),
                     rsl_producer_started := False, rsl_generation := generation, rsl_state := SlotActive\<rparr>;
              k = rb_counters b
          in (Some (i, generation),
              b\<lparr>rb_slots := (rb_slots b)[i := s'], rb_next_generation := generation + 1,
                rb_counters := k\<lparr>rbk_active_producers := rbk_active_producers k + 1\<rparr>\<rparr>))"

definition render_detach :: "nat \<Rightarrow> u64 \<Rightarrow> render_bus \<Rightarrow> render_bus" where
  "render_detach i generation b =
     (if i \<ge> length (rb_slots b) then b
      else
        let s = rb_slots b ! i
        in if rsl_generation s \<noteq> generation then b
           else if rsl_state s \<noteq> SlotActive then b\<lparr>rb_slots := (rb_slots b)[i := s\<lparr>rsl_state := SlotClaiming\<rparr>]\<rparr>
           else b\<lparr>rb_slots := (rb_slots b)[i := s\<lparr>rsl_ring := bk_reset (rsl_ring s),
                    rsl_pending := pf_clear (rsl_pending s), rsl_producer_started := False, rsl_state := SlotIdle\<rparr>],
                  rb_counters := (rb_counters b)\<lparr>rbk_active_producers := rbk_active_producers (rb_counters b) - 1\<rparr>\<rparr>)"

section \<open>Pushing\<close>

definition render_enqueue :: "audio_buffer \<Rightarrow> render_slot \<Rightarrow> render_counters \<Rightarrow> bool \<times> render_slot \<times> render_counters" where
  "render_enqueue source s k =
     (if bk_full (rsl_ring s) then (False, s, k)
      else
        let ring = bk_put source (rsl_ring s)
        in (True, s\<lparr>rsl_ring := ring\<rparr>,
            k\<lparr>rbk_maximum_queue_depth := max (rbk_maximum_queue_depth k) (bk_queue_depth ring (bk_read ring) (bk_write ring)),
              rbk_pushed_blocks := rbk_pushed_blocks k + 1\<rparr>))"

definition render_dropped :: "render_counters \<Rightarrow> render_counters" where
  "render_dropped k = k\<lparr>rbk_dropped_blocks := rbk_dropped_blocks k + 1\<rparr>"

definition render_overflow :: "render_counters \<Rightarrow> render_counters" where
  "render_overflow k = (render_dropped k)\<lparr>rbk_producer_overflows := rbk_producer_overflows k + 1\<rparr>"

text \<open>Every round that goes on fills one block of the ring, so the blocks of the ring bound the rounds.\<close>

fun render_drain :: "nat \<Rightarrow> nat \<Rightarrow> render_slot \<Rightarrow> render_counters \<Rightarrow> render_slot \<times> render_counters" where
  "render_drain 0 frames s k = (s, k)"
| "render_drain (Suc rounds) frames s k =
     (if pf_available (rsl_pending s) < frames \<or> bk_full (rsl_ring s) then (s, k)
      else case pf_pop (rsl_adapted_block s) frames (rsl_pending s) of (popped, block, pending) \<Rightarrow>
        let s1 = s\<lparr>rsl_pending := pending, rsl_adapted_block := block\<rparr>
        in if popped \<noteq> frames then (s1, render_dropped k)
           else case render_enqueue block s1 k of (queued, s2, k2) \<Rightarrow>
             if \<not> queued then (s2, render_dropped k2) else render_drain rounds frames s2 k2)"

definition drain_pending :: "nat \<Rightarrow> render_slot \<Rightarrow> render_counters \<Rightarrow> render_slot \<times> render_counters" where
  "drain_pending frames s k = render_drain (length (bk_blocks (rsl_ring s))) frames s k"

definition render_push_slot ::
  "nat \<Rightarrow> audio_buffer \<Rightarrow> render_slot \<Rightarrow> render_counters \<Rightarrow> bool \<times> render_slot \<times> render_counters" where
  "render_push_slot frames source s k =
     (case drain_pending frames s k of (s1, k1) \<Rightarrow>
        if bk_full (rsl_ring s1) \<and> pf_available (rsl_pending s1) + ab_frames source \<ge> frames
        then (False, s1, render_overflow k1)
        else if pf_free_frames (rsl_pending s1) < ab_frames source then (False, s1, render_overflow k1)
        else case pf_push source (ab_frames source) (rsl_pending s1) of (pushed, pending) \<Rightarrow>
          if pushed \<noteq> ab_frames source then (False, s1\<lparr>rsl_pending := pending\<rparr>, render_overflow k1)
          else case drain_pending frames (s1\<lparr>rsl_pending := pending\<rparr>) k1 of (s2, k2) \<Rightarrow>
            (True, s2\<lparr>rsl_producer_started := True\<rparr>, k2))"

definition render_push_refused :: "nat \<Rightarrow> u64 \<Rightarrow> audio_buffer \<Rightarrow> render_bus \<Rightarrow> bool" where
  "render_push_refused i generation source b \<longleftrightarrow>
     i \<ge> length (rb_slots b) \<or> ab_channels source \<noteq> rb_channels b \<or> ab_frames source = 0 \<or>
     ab_frames source > unat kVirtualAsioMaxFramesPerBlock \<or>
     rsl_state (rb_slots b ! i) \<noteq> SlotActive \<or> rsl_generation (rb_slots b ! i) \<noteq> generation"

definition render_push :: "nat \<Rightarrow> u64 \<Rightarrow> audio_buffer \<Rightarrow> render_bus \<Rightarrow> bool \<times> render_bus" where
  "render_push i generation source b =
     (if render_push_refused i generation source b then (False, b\<lparr>rb_counters := render_dropped (rb_counters b)\<rparr>)
      else case render_push_slot (rb_frames b) source (rb_slots b ! i) (rb_counters b) of (ok, s, k) \<Rightarrow>
        (ok, b\<lparr>rb_slots := (rb_slots b)[i := s], rb_counters := k\<rparr>))"

section \<open>Mixing\<close>

definition mix_block :: "nat \<Rightarrow> audio_buffer \<Rightarrow> audio_buffer \<Rightarrow> audio_buffer" where
  "mix_block channels source destination =
     fold (\<lambda>c d. ab_put_channel (map2 f32_add (ab_channel d c) (ab_channel source c)) c d) [0..<channels] destination"

definition render_mix_slot ::
  "nat \<Rightarrow> render_slot \<Rightarrow> audio_buffer \<Rightarrow> render_counters \<Rightarrow> bool \<times> render_slot \<times> audio_buffer \<times> render_counters" where
  "render_mix_slot channels s destination k =
     (if rsl_state s \<noteq> SlotActive then (False, s, destination, k)
      else if \<not> bk_empty (rsl_ring s)
      then (True, s\<lparr>rsl_ring := bk_drop (rsl_ring s)\<rparr>, mix_block channels (bk_front (rsl_ring s)) destination,
            k\<lparr>rbk_consumed_blocks := rbk_consumed_blocks k + 1\<rparr>)
      else if rsl_producer_started s
      then (False, s, destination, k\<lparr>rbk_producer_underflows := rbk_producer_underflows k + 1\<rparr>)
      else (False, s, destination, k))"

fun render_mix_slots ::
  "nat \<Rightarrow> render_slot list \<Rightarrow> audio_buffer \<Rightarrow> render_counters \<Rightarrow> bool \<times> render_slot list \<times> audio_buffer \<times> render_counters" where
  "render_mix_slots channels [] destination k = (False, [], destination, k)"
| "render_mix_slots channels (s # ss) destination k =
     (case render_mix_slot channels s destination k of (mixed, s', destination', k') \<Rightarrow>
        case render_mix_slots channels ss destination' k' of (rest, ss', destination'', k'') \<Rightarrow>
          (mixed \<or> rest, s' # ss', destination'', k''))"

text \<open>Peak, clipped and non-finite samples. Magnitudes are not negative: their order is that of their bits.\<close>

definition measure_sample :: "f32 \<Rightarrow> f32 \<times> u64 \<times> u64 \<Rightarrow> f32 \<times> u64 \<times> u64" where
  "measure_sample sample m =
     (case m of (peak, clipped, non_finite) \<Rightarrow>
        if \<not> f32_finite sample then (peak, clipped, non_finite + 1)
        else (max peak (f32_abs sample), if 0x3F800000 < f32_abs sample then clipped + 1 else clipped, non_finite))"

definition sanitize_sample :: "f32 \<Rightarrow> f32" where
  "sanitize_sample sample = (if f32_finite sample then sample else 0)"

definition render_finish :: "nat \<Rightarrow> audio_buffer \<Rightarrow> audio_buffer \<times> f32 \<times> u64 \<times> u64" where
  "render_finish channels destination =
     fold (\<lambda>c (d, m). (ab_put_channel (map sanitize_sample (ab_channel d c)) c d, fold measure_sample (ab_channel d c) m))
       [0..<channels] (destination, 0, 0, 0)"

definition render_read :: "audio_buffer \<Rightarrow> render_bus \<Rightarrow> bool \<times> audio_buffer \<times> render_bus" where
  "render_read destination b =
     (let silent = ab_clear destination; k0 = rb_counters b
      in if ab_channels destination \<noteq> rb_channels b \<or> ab_frames destination \<noteq> rb_frames b
         then (False, silent, b\<lparr>rb_counters := k0\<lparr>rbk_silent_reads := rbk_silent_reads k0 + 1\<rparr>\<rparr>)
         else case render_mix_slots (rb_channels b) (rb_slots b) silent k0 of (mixed, ss, mixture, k) \<Rightarrow>
           if \<not> mixed then (False, mixture, b\<lparr>rb_slots := ss, rb_counters := k\<lparr>rbk_silent_reads := rbk_silent_reads k + 1\<rparr>\<rparr>)
           else case render_finish (rb_channels b) mixture of (out, peak, clipped, non_finite) \<Rightarrow>
             (True, out,
              b\<lparr>rb_slots := ss,
                rb_counters := k\<lparr>rbk_clipped_samples := rbk_clipped_samples k + clipped,
                  rbk_non_finite_samples := rbk_non_finite_samples k + non_finite,
                  rbk_peak := max (rbk_peak k) peak, rbk_interval_peak := max (rbk_interval_peak k) peak,
                  rbk_mixed_blocks := rbk_mixed_blocks k + 1\<rparr>\<rparr>))"

definition render_available_frames :: "render_bus \<Rightarrow> nat" where
  "render_available_frames b =
     fold (\<lambda>s maximum. if rsl_state s \<noteq> SlotActive then maximum
         else max maximum (bk_queue_depth (rsl_ring s) (bk_read (rsl_ring s)) (bk_write (rsl_ring s)) * rb_frames b))
       (rb_slots b) 0"

section \<open>Diagnostics\<close>

record source_diagnostics =
  sd_pushed_blocks :: u64
  sd_dropped_blocks :: u64
  sd_producer_underflows :: u64
  sd_producer_overflows :: u64
  sd_consumed_blocks :: u64
  sd_mixed_blocks :: u64
  sd_silent_reads :: u64
  sd_clipped_samples :: u64
  sd_non_finite_samples :: u64
  sd_maximum_queue_depth :: nat
  sd_active_producers :: u64
  sd_peak :: f32

text \<open>Reading the diagnostics starts a new interval of the peak.\<close>

definition render_diagnostics :: "render_bus \<Rightarrow> source_diagnostics \<times> render_bus" where
  "render_diagnostics b =
     (let k = rb_counters b
      in (\<lparr>sd_pushed_blocks = rbk_pushed_blocks k, sd_dropped_blocks = rbk_dropped_blocks k,
           sd_producer_underflows = rbk_producer_underflows k, sd_producer_overflows = rbk_producer_overflows k,
           sd_consumed_blocks = rbk_consumed_blocks k, sd_mixed_blocks = rbk_mixed_blocks k,
           sd_silent_reads = rbk_silent_reads k, sd_clipped_samples = rbk_clipped_samples k,
           sd_non_finite_samples = rbk_non_finite_samples k, sd_maximum_queue_depth = rbk_maximum_queue_depth k,
           sd_active_producers = rbk_active_producers k, sd_peak = rbk_interval_peak k\<rparr>,
          b\<lparr>rb_counters := k\<lparr>rbk_interval_peak := 0\<rparr>\<rparr>))"

section \<open>The producer handle\<close>

record render_producer =
  rp_attached :: bool
  rp_slot :: nat
  rp_generation :: u64

definition bus_attach_producer :: "render_bus \<Rightarrow> render_producer \<times> render_bus" where
  "bus_attach_producer b =
     (case render_attach b of
        (None, b') \<Rightarrow> (\<lparr>rp_attached = False, rp_slot = 0, rp_generation = 0\<rparr>, b')
      | (Some (i, g), b') \<Rightarrow> (\<lparr>rp_attached = True, rp_slot = i, rp_generation = g\<rparr>, b'))"

definition producer_push :: "render_producer \<Rightarrow> audio_buffer \<Rightarrow> render_bus \<Rightarrow> bool \<times> render_bus" where
  "producer_push p source b =
     (if rp_attached p then render_push (rp_slot p) (rp_generation p) source b else (False, b))"

definition producer_reset :: "render_producer \<Rightarrow> render_bus \<Rightarrow> render_producer \<times> render_bus" where
  "producer_reset p b =
     (if rp_attached p then (p\<lparr>rp_attached := False\<rparr>, render_detach (rp_slot p) (rp_generation p) b) else (p, b))"

section \<open>One slot\<close>

text \<open>The frames of a channel still to be mixed: those of the queued blocks, then those pending.\<close>

definition rsl_stream :: "render_slot \<Rightarrow> nat \<Rightarrow> f32 list" where
  "rsl_stream s c = bk.frames_of (\<lambda>b. ab_channel b c) (rsl_ring s) @ pf_contents (rsl_pending s) c"

definition rsl_inv :: "nat \<Rightarrow> nat \<Rightarrow> render_slot \<Rightarrow> bool" where
  "rsl_inv channels frames s \<longleftrightarrow> bk_inv channels frames (rsl_ring s) \<and> pf_inv (rsl_pending s) \<and>
     pf_channels (rsl_pending s) = channels \<and> unat kVirtualAsioMaxFramesPerBlock + frames \<le> pf_capacity (rsl_pending s) \<and>
     block_shape channels frames (rsl_adapted_block s)"

definition rsl_capacity :: "render_slot \<Rightarrow> nat" where
  "rsl_capacity s = length (bk_blocks (rsl_ring s)) - 1"

lemma length_rsl_stream:
  "rsl_inv c f s \<Longrightarrow> d < c \<Longrightarrow> length (rsl_stream s d) = bk_depth (rsl_ring s) * f + pf_available (rsl_pending s)"
  using length_frames [of c f "rsl_ring s" d] by (simp add: rsl_stream_def rsl_inv_def)

lemma bk_put_length [simp]: "length (bk_blocks (bk_put b r)) = length (bk_blocks r)"
  by (simp add: bk_put_def)

lemma full_depth: "bk_inv c f r \<Longrightarrow> bk_full r \<longleftrightarrow> bk_depth r = length (bk_blocks r) - 1"
  using bk_full_iff [of c f r] by (auto simp: bk_inv_def)

text \<open>A whole pop into the adapted block.\<close>

lemma whole_pop:
  assumes "pf_inv q" "pf_channels q = c" "block_shape c f b" "f \<le> pf_available q"
  obtains block q' where "pf_pop b f q = (f, block, q')" "block_shape c f block" "pf_inv q'" "pf_channels q' = c"
    "pf_capacity q' = pf_capacity q" "pf_available q' = pf_available q - f"
    "\<And>d. d < c \<Longrightarrow> ab_channel block d @ pf_contents q' d = pf_contents q d"
proof -
  have b: "ab_wf b" "ab_channels b = c" "ab_frames b = f" using assms(3) by (simp_all add: block_shape_def)
  have chans: "ab_channels b = pf_channels q" using b assms(2) by simp
  obtain n block where peek: "pf_peek b f q = (n, block)" by (cases "pf_peek b f q")
  note r = pf_peek_nth(1,2) [OF assms(1) b(1) chans peek]
  have n: "n = f" using r(1) b(3) assms(4) by simp
  have shape: "block_shape c f block" using r(2) b by (simp add: block_shape_def)
  have pop: "pf_pop b f q = (f, block, snd (pf_consume f q))" using peek n by (simp add: pf_pop_def)
  show thesis
  proof (rule that [OF pop shape pf_consume_inv [OF assms(1)]])
    fix d
    assume d: "d < c"
    have "take f (ab_channel block d) = take f (pf_contents q d)"
      using pf_peek_front(1) [OF assms(1) b(1) chans _ peek, of d] d assms(2) n by simp
    moreover have "length (ab_channel block d) = f" using shape d by (rule block_frames_channel)
    ultimately have "ab_channel block d = take f (pf_contents q d)" by simp
    then show "ab_channel block d @ pf_contents (snd (pf_consume f q)) d = pf_contents q d"
      using pf_consume_refines [OF assms(1)] assms(4) by simp
  qed (use assms(2,4) in \<open>simp_all add: pf_consume_def Let_def\<close>)
qed

lemma drain_round:
  assumes inv: "rsl_inv c f s" and go: "f \<le> pf_available (rsl_pending s)" "\<not> bk_full (rsl_ring s)"
  obtains s' k' where "render_drain (Suc rounds) f s k = render_drain rounds f s' k'" "rsl_inv c f s'"
    "\<And>d. d < c \<Longrightarrow> rsl_stream s' d = rsl_stream s d" "bk_depth (rsl_ring s') = bk_depth (rsl_ring s) + 1"
    "rsl_capacity s' = rsl_capacity s" "rsl_state s' = rsl_state s" "rsl_generation s' = rsl_generation s"
    "rbk_producer_overflows k' = rbk_producer_overflows k" "rbk_dropped_blocks k' = rbk_dropped_blocks k"
proof -
  have ring: "bk_inv c f (rsl_ring s)" and q: "pf_inv (rsl_pending s)" "pf_channels (rsl_pending s) = c"
    "unat kVirtualAsioMaxFramesPerBlock + f \<le> pf_capacity (rsl_pending s)" and a: "block_shape c f (rsl_adapted_block s)"
    using inv by (simp_all add: rsl_inv_def)
  obtain block q' where pop: "pf_pop (rsl_adapted_block s) f (rsl_pending s) = (f, block, q')" "block_shape c f block"
    "pf_inv q'" "pf_channels q' = c" "pf_capacity q' = pf_capacity (rsl_pending s)"
    "\<And>d. d < c \<Longrightarrow> ab_channel block d @ pf_contents q' d = pf_contents (rsl_pending s) d"
    by (rule whole_pop [OF q(1,2) a go(1)]) blast
  let ?s = "s\<lparr>rsl_pending := q', rsl_adapted_block := block, rsl_ring := bk_put block (rsl_ring s)\<rparr>"
  let ?ring = "bk_put block (rsl_ring s)"
  let ?k = "k\<lparr>rbk_maximum_queue_depth := max (rbk_maximum_queue_depth k) (bk_queue_depth ?ring (bk_read ?ring) (bk_write ?ring)),
    rbk_pushed_blocks := rbk_pushed_blocks k + 1\<rparr>"
  have step: "render_drain (Suc rounds) f s k = render_drain rounds f ?s ?k"
    using go pop(1) by (simp add: render_enqueue_def Let_def)
  have "rsl_stream ?s d = rsl_stream s d" if "d < c" for d
    using bk.put_frames [OF ring go(2) pop(2), of "\<lambda>b. ab_channel b d"] pop(6) [OF that] by (simp add: rsl_stream_def)
  moreover have "rsl_inv c f ?s" using bk_put_list(2) [OF ring go(2) pop(2)] pop q(3) by (simp add: rsl_inv_def)
  moreover have "bk_depth (rsl_ring ?s) = bk_depth (rsl_ring s) + 1" using bk_put_depth [OF ring go(2)] by simp
  ultimately show thesis by (intro that [OF step]) (simp_all add: rsl_capacity_def)
qed

lemma render_drain_stream:
  assumes "rsl_inv c f s" "rsl_capacity s \<le> rounds + bk_depth (rsl_ring s)"
  shows "rsl_inv c f (fst (render_drain rounds f s k)) \<and>
    (\<forall>d < c. rsl_stream (fst (render_drain rounds f s k)) d = rsl_stream s d) \<and>
    (pf_available (rsl_pending (fst (render_drain rounds f s k))) < f \<or> bk_full (rsl_ring (fst (render_drain rounds f s k)))) \<and>
    rsl_capacity (fst (render_drain rounds f s k)) = rsl_capacity s \<and>
    rsl_state (fst (render_drain rounds f s k)) = rsl_state s \<and>
    rsl_generation (fst (render_drain rounds f s k)) = rsl_generation s \<and>
    rbk_producer_overflows (snd (render_drain rounds f s k)) = rbk_producer_overflows k \<and>
    rbk_dropped_blocks (snd (render_drain rounds f s k)) = rbk_dropped_blocks k"
  using assms
proof (induction rounds arbitrary: s k)
  case 0
  have ring: "bk_inv c f (rsl_ring s)" using 0(1) by (simp add: rsl_inv_def)
  have "bk_full (rsl_ring s)" using 0(2) bk_depth_less [OF ring] full_depth [OF ring] by (simp add: rsl_capacity_def)
  then show ?case using 0(1) by simp
next
  case (Suc rounds)
  show ?case
  proof (cases "pf_available (rsl_pending s) < f \<or> bk_full (rsl_ring s)")
    case True
    then show ?thesis using Suc.prems(1) by auto
  next
    case False
    then have go: "f \<le> pf_available (rsl_pending s)" "\<not> bk_full (rsl_ring s)" by simp_all
    obtain s' k' where step: "render_drain (Suc rounds) f s k = render_drain rounds f s' k'" and s': "rsl_inv c f s'"
      "\<And>d. d < c \<Longrightarrow> rsl_stream s' d = rsl_stream s d" "bk_depth (rsl_ring s') = bk_depth (rsl_ring s) + 1"
      "rsl_capacity s' = rsl_capacity s" "rsl_state s' = rsl_state s" "rsl_generation s' = rsl_generation s"
      "rbk_producer_overflows k' = rbk_producer_overflows k" "rbk_dropped_blocks k' = rbk_dropped_blocks k"
      by (rule drain_round [OF Suc.prems(1) go]) blast
    have "rsl_capacity s' \<le> rounds + bk_depth (rsl_ring s')" using Suc.prems(2) s' by simp
    from Suc.IH [OF s'(1) this, of k'] show ?thesis unfolding step using s' by simp
  qed
qed

lemma drain_pending_stream:
  assumes "rsl_inv c f s" "drain_pending f s k = (s', k')"
  shows "rsl_inv c f s'" "d < c \<Longrightarrow> rsl_stream s' d = rsl_stream s d"
    "pf_available (rsl_pending s') < f \<or> bk_full (rsl_ring s')" "rsl_capacity s' = rsl_capacity s"
    "rsl_state s' = rsl_state s" "rsl_generation s' = rsl_generation s"
    "rbk_producer_overflows k' = rbk_producer_overflows k" "rbk_dropped_blocks k' = rbk_dropped_blocks k"
  using render_drain_stream [OF assms(1), of "length (bk_blocks (rsl_ring s))" k] assms(2)
  by (simp_all add: drain_pending_def rsl_capacity_def)

text \<open>
  A push is all or nothing. After a drain the ring is full or less than a block is pending, so a
  block that is not refused for a full ring has room, and the second overflow exit is dead.
\<close>

lemma render_push_slot_stream:
  fixes source :: audio_buffer
  assumes inv: "rsl_inv c f s" and c: "0 < c" and src: "ab_wf source" "ab_channels source = c"
    and n: "ab_frames source \<le> unat kVirtualAsioMaxFramesPerBlock"
    and run: "render_push_slot f source s k = (ok, s', k')"
  shows "rsl_inv c f s'"
    "d < c \<Longrightarrow> rsl_stream s' d = rsl_stream s d @ (if ok then ab_channel source d else [])"
    "rsl_state s' = rsl_state s" "rsl_generation s' = rsl_generation s" "rsl_capacity s' = rsl_capacity s"
    "ok \<longleftrightarrow> length (rsl_stream s 0) < rsl_capacity s * f \<or>
       length (rsl_stream s 0) + ab_frames source < rsl_capacity s * f + f"
    "rbk_dropped_blocks k' = rbk_dropped_blocks k + (if ok then 0 else 1)"
proof -
  let ?n = "ab_frames source"
  obtain s1 k1 where drain: "drain_pending f s k = (s1, k1)" by (cases "drain_pending f s k")
  note d1 = drain_pending_stream [OF inv drain]
  have ring: "bk_inv c f (rsl_ring s1)" and q: "pf_inv (rsl_pending s1)" "pf_channels (rsl_pending s1) = c"
    "unat kVirtualAsioMaxFramesPerBlock + f \<le> pf_capacity (rsl_pending s1)" using d1(1) by (simp_all add: rsl_inv_def)
  have total: "length (rsl_stream s 0) = bk_depth (rsl_ring s1) * f + pf_available (rsl_pending s1)"
    using length_rsl_stream [OF d1(1) c] d1(2) [OF c] by simp
  have full: "bk_full (rsl_ring s1) \<longleftrightarrow> bk_depth (rsl_ring s1) = rsl_capacity s"
    using full_depth [OF ring] d1(4) by (simp add: rsl_capacity_def)
  have depth: "bk_depth (rsl_ring s1) \<le> rsl_capacity s"
    using bk_depth_less [OF ring] d1(4) by (simp add: rsl_capacity_def)
  have refused: "bk_full (rsl_ring s1) \<and> f \<le> pf_available (rsl_pending s1) + ?n \<longleftrightarrow>
      \<not> (length (rsl_stream s 0) < rsl_capacity s * f \<or> length (rsl_stream s 0) + ?n < rsl_capacity s * f + f)"
  proof (cases "bk_full (rsl_ring s1)")
    case True
    then show ?thesis using total full by auto
  next
    case False
    then have "bk_depth (rsl_ring s1) + 1 \<le> rsl_capacity s" using full depth by simp
    then have "(bk_depth (rsl_ring s1) + 1) * f \<le> rsl_capacity s * f" by (rule mult_le_mono1)
    then show ?thesis using False total d1(3) by simp
  qed
  have main: "rsl_inv c f s' \<and> (\<forall>d < c. rsl_stream s' d = rsl_stream s d @ (if ok then ab_channel source d else [])) \<and>
      rsl_state s' = rsl_state s \<and> rsl_generation s' = rsl_generation s \<and> rsl_capacity s' = rsl_capacity s \<and>
      (ok = (length (rsl_stream s 0) < rsl_capacity s * f \<or> length (rsl_stream s 0) + ?n < rsl_capacity s * f + f)) \<and>
      rbk_dropped_blocks k' = rbk_dropped_blocks k + (if ok then 0 else 1)"
  proof (cases "bk_full (rsl_ring s1) \<and> f \<le> pf_available (rsl_pending s1) + ?n")
    case True
    then have "ok = False \<and> s' = s1 \<and> k' = render_overflow k1" using run drain by (simp add: render_push_slot_def)
    then show ?thesis
      using True refused d1 by (auto simp: render_overflow_def render_dropped_def)
  next
    case False
    have free: "?n \<le> pf_free_frames (rsl_pending s1)"
      using False d1(3) q(3) n by (auto simp: pf_free_frames_def)
    have count: "fst (pf_push source ?n (rsl_pending s1)) = ?n"
      using pf_push_count [of source "rsl_pending s1" ?n] src(2) q(2) free by simp
    obtain pending where push: "pf_push source ?n (rsl_pending s1) = (?n, pending)"
      using count by (metis prod.collapse)
    have src2: "ab_channels source = pf_channels (rsl_pending s1)" using src(2) q(2) by simp
    have contents: "pf_contents pending d = pf_contents (rsl_pending s1) d @ ab_channel source d" if "d < c" for d
      using pf_push_refines [OF q(1) src(1) src2, of d ?n] that count src q(2) push by simp
    let ?s = "s1\<lparr>rsl_pending := pending\<rparr>"
    have inv2: "rsl_inv c f ?s"
      using d1(1) pf_push_inv [OF q(1) src(1), of ?n] pf_push_frame [of source ?n "rsl_pending s1"] push q
      by (simp add: rsl_inv_def)
    obtain s2 k2 where drain2: "drain_pending f ?s k1 = (s2, k2)" by (cases "drain_pending f ?s k1")
    note d2 = drain_pending_stream [OF inv2 drain2]
    have r: "ok = True \<and> s' = s2\<lparr>rsl_producer_started := True\<rparr> \<and> k' = k2"
      using run drain False free push drain2 by (auto simp: render_push_slot_def)
    have same: "rsl_inv c f s'" "\<And>d. rsl_stream s' d = rsl_stream s2 d" "rsl_state s' = rsl_state s2"
      "rsl_generation s' = rsl_generation s2" "rsl_capacity s' = rsl_capacity s2" "k' = k2" ok
      using d2(1) r by (simp_all add: rsl_inv_def rsl_stream_def rsl_capacity_def)
    have "rsl_stream s2 d = rsl_stream s d @ ab_channel source d" if "d < c" for d
      using d2(2) [OF that] d1(2) [OF that] contents [OF that] by (simp add: rsl_stream_def)
    moreover have "rsl_capacity ?s = rsl_capacity s1" by (simp add: rsl_capacity_def)
    ultimately show ?thesis
      using same d1 d2 False refused by simp
  qed
  show "rsl_inv c f s'" "d < c \<Longrightarrow> rsl_stream s' d = rsl_stream s d @ (if ok then ab_channel source d else [])"
    "rsl_state s' = rsl_state s" "rsl_generation s' = rsl_generation s" "rsl_capacity s' = rsl_capacity s"
    "ok \<longleftrightarrow> length (rsl_stream s 0) < rsl_capacity s * f \<or>
       length (rsl_stream s 0) + ?n < rsl_capacity s * f + f"
    "rbk_dropped_blocks k' = rbk_dropped_blocks k + (if ok then 0 else 1)"
    using main by simp_all
qed

section \<open>Mixing, sample by sample\<close>

lemma update_channels:
  assumes "ab_wf b" "n \<le> ab_channels b" "\<And>c xs. length xs = ab_frames b \<Longrightarrow> c < n \<Longrightarrow> length (h c xs) = ab_frames b"
  shows "ab_wf (fold (\<lambda>c d. ab_put_channel (h c (ab_channel d c)) c d) [0..<n] b) \<and>
    ab_channels (fold (\<lambda>c d. ab_put_channel (h c (ab_channel d c)) c d) [0..<n] b) = ab_channels b \<and>
    ab_frames (fold (\<lambda>c d. ab_put_channel (h c (ab_channel d c)) c d) [0..<n] b) = ab_frames b \<and>
    (\<forall>e < ab_channels b. ab_channel (fold (\<lambda>c d. ab_put_channel (h c (ab_channel d c)) c d) [0..<n] b) e =
      (if e < n then h e (ab_channel b e) else ab_channel b e))"
  using assms(2,3)
proof (induction n)
  case 0
  then show ?case using assms(1) by simp
next
  case (Suc n)
  let ?b = "fold (\<lambda>c d. ab_put_channel (h c (ab_channel d c)) c d) [0..<n] b"
  have IH: "ab_wf ?b" "ab_channels ?b = ab_channels b" "ab_frames ?b = ab_frames b"
    "\<forall>e < ab_channels b. ab_channel ?b e = (if e < n then h e (ab_channel b e) else ab_channel b e)"
    using Suc by simp_all
  have n: "n < ab_channels ?b" using Suc.prems(1) IH by simp
  have at: "ab_channel ?b n = ab_channel b n" using IH(4) Suc.prems(1) by simp
  have len: "length (h n (ab_channel ?b n)) = ab_frames ?b"
    using Suc.prems(1) Suc.prems(2) [of "ab_channel ?b n" n] IH(1-3) n by simp
  note put = ab_put_channel_wf [OF IH(1) n, of "h n (ab_channel ?b n)"]
  have "ab_channel (ab_put_channel (h n (ab_channel ?b n)) n ?b) e =
      (if e < Suc n then h e (ab_channel b e) else ab_channel b e)" if "e < ab_channels b" for e
    using put(2) [of e] len IH that n at assms(1) by auto
  then show ?case using put(1) len IH by simp
qed

lemma mix_block_channel:
  assumes "block_shape c f d" "block_shape c f src"
  shows "block_shape c f (mix_block c src d) \<and>
    (\<forall>e < c. ab_channel (mix_block c src d) e = map2 f32_add (ab_channel d e) (ab_channel src e))"
  using update_channels [of d c "\<lambda>e xs. map2 f32_add xs (ab_channel src e)"] assms
  by (simp add: mix_block_def block_shape_def)

text \<open>The slots that have a block to mix.\<close>

definition rsl_mixes :: "render_slot \<Rightarrow> bool" where
  "rsl_mixes s \<longleftrightarrow> rsl_state s = SlotActive \<and> \<not> bk_empty (rsl_ring s)"

definition mixed_sample :: "render_slot list \<Rightarrow> nat \<Rightarrow> nat \<Rightarrow> f32 \<Rightarrow> f32" where
  "mixed_sample ss c j = fold (\<lambda>s acc. f32_add acc (ab_channel (bk_front (rsl_ring s)) c ! j)) (filter rsl_mixes ss)"

lemma rsl_front: "rsl_inv c f s \<Longrightarrow> block_shape c f (bk_front (rsl_ring s))"
  by (rule front_shape) (simp add: rsl_inv_def)

lemma mix_slot:
  fixes k :: render_counters
  assumes inv: "rsl_inv c f s" and d: "block_shape c f d" and run: "render_mix_slot c s d k = (mixed, s', d', k')"
  shows "mixed = rsl_mixes s" "rsl_inv c f s'" "block_shape c f d'"
    "e < c \<Longrightarrow> j < f \<Longrightarrow> ab_channel d' e ! j =
      (if rsl_mixes s then f32_add (ab_channel d e ! j) (ab_channel (bk_front (rsl_ring s)) e ! j) else ab_channel d e ! j)"
    "(if rsl_mixes s then ab_channel (bk_front (rsl_ring s)) e else []) @ rsl_stream s' e = rsl_stream s e"
    "rsl_state s' = rsl_state s" "rsl_generation s' = rsl_generation s" "rsl_capacity s' = rsl_capacity s"
proof -
  have "mixed = rsl_mixes s \<and> rsl_inv c f s' \<and> block_shape c f d' \<and>
    (e < c \<longrightarrow> j < f \<longrightarrow> ab_channel d' e ! j =
      (if rsl_mixes s then f32_add (ab_channel d e ! j) (ab_channel (bk_front (rsl_ring s)) e ! j) else ab_channel d e ! j)) \<and>
    (if rsl_mixes s then ab_channel (bk_front (rsl_ring s)) e else []) @ rsl_stream s' e = rsl_stream s e \<and>
    rsl_state s' = rsl_state s \<and> rsl_generation s' = rsl_generation s \<and> rsl_capacity s' = rsl_capacity s"
  proof (cases "rsl_mixes s")
    case True
    have ring: "bk_inv c f (rsl_ring s)" using inv by (simp add: rsl_inv_def)
    have some: "\<not> bk_empty (rsl_ring s)" using True by (simp add: rsl_mixes_def)
    have r: "mixed = True" "s' = s\<lparr>rsl_ring := bk_drop (rsl_ring s)\<rparr>" "d' = mix_block c (bk_front (rsl_ring s)) d"
      using run True by (simp_all add: render_mix_slot_def rsl_mixes_def)
    note mix = mix_block_channel [OF d rsl_front [OF inv]]
    have "length (ab_channel d e) = f" "length (ab_channel (bk_front (rsl_ring s)) e) = f" if "e < c"
      using that d rsl_front [OF inv] block_frames_channel by auto
    then have "ab_channel d' e ! j = f32_add (ab_channel d e ! j) (ab_channel (bk_front (rsl_ring s)) e ! j)"
      if "e < c" "j < f" using mix that by (simp add: r)
    moreover have "ab_channel (bk_front (rsl_ring s)) e @ rsl_stream s' e = rsl_stream s e"
      using bk.drop_frames [OF ring some, of "\<lambda>b. ab_channel b e"] by (simp add: r rsl_stream_def)
    ultimately show ?thesis
      using True mix inv bk_drop_list(2) [OF ring some] by (simp add: r rsl_inv_def rsl_capacity_def bk_drop_def)
  next
    case False
    then have "mixed = False \<and> s' = s \<and> d' = d" using run by (auto simp: render_mix_slot_def rsl_mixes_def split: if_splits)
    then show ?thesis using False inv d by simp
  qed
  then show "mixed = rsl_mixes s" "rsl_inv c f s'" "block_shape c f d'"
    "e < c \<Longrightarrow> j < f \<Longrightarrow> ab_channel d' e ! j =
      (if rsl_mixes s then f32_add (ab_channel d e ! j) (ab_channel (bk_front (rsl_ring s)) e ! j) else ab_channel d e ! j)"
    "(if rsl_mixes s then ab_channel (bk_front (rsl_ring s)) e else []) @ rsl_stream s' e = rsl_stream s e"
    "rsl_state s' = rsl_state s" "rsl_generation s' = rsl_generation s" "rsl_capacity s' = rsl_capacity s" by simp_all
qed

lemma mix_slots:
  assumes "\<forall>s \<in> set ss. rsl_inv c f s" "block_shape c f d" "render_mix_slots c ss d k = (mixed, ss', d', k')"
  shows "mixed = (\<exists>s \<in> set ss. rsl_mixes s) \<and> length ss' = length ss \<and> (\<forall>s \<in> set ss'. rsl_inv c f s) \<and> block_shape c f d' \<and>
    (\<forall>e < c. \<forall>j < f. ab_channel d' e ! j = mixed_sample ss e j (ab_channel d e ! j)) \<and>
    (\<forall>i < length ss. (\<forall>e. (if rsl_mixes (ss ! i) then ab_channel (bk_front (rsl_ring (ss ! i))) e else []) @
        rsl_stream (ss' ! i) e = rsl_stream (ss ! i) e) \<and>
      rsl_state (ss' ! i) = rsl_state (ss ! i) \<and> rsl_generation (ss' ! i) = rsl_generation (ss ! i) \<and>
      rsl_capacity (ss' ! i) = rsl_capacity (ss ! i))"
  using assms
proof (induction ss arbitrary: d k mixed ss' d' k')
  case Nil
  then show ?case by (simp add: mixed_sample_def)
next
  case (Cons s ss)
  obtain m1 s1 d1 k1 where head: "render_mix_slot c s d k = (m1, s1, d1, k1)" by (cases "render_mix_slot c s d k") auto
  obtain m2 ss2 d2 k2 where tail: "render_mix_slots c ss d1 k1 = (m2, ss2, d2, k2)"
    by (cases "render_mix_slots c ss d1 k1") auto
  have s: "rsl_inv c f s" "\<forall>s \<in> set ss. rsl_inv c f s" using Cons.prems(1) by simp_all
  note h = mix_slot [OF s(1) Cons.prems(2) head]
  note t = Cons.IH [OF s(2) h(3) tail]
  have r: "mixed = (m1 \<or> m2)" "ss' = s1 # ss2" "d' = d2" using Cons.prems(3) head tail by simp_all
  have "ab_channel d' e ! j = mixed_sample (s # ss) e j (ab_channel d e ! j)" if "e < c" "j < f" for e j
    using t h(4) [OF that] that by (simp add: r mixed_sample_def)
  then show ?case using t h r by (auto simp: All_less_Suc2)
qed

lemma finish_channels:
  assumes "block_shape c f d" "n \<le> c"
  shows "fold (\<lambda>c (d, m). (ab_put_channel (map sanitize_sample (ab_channel d c)) c d, fold measure_sample (ab_channel d c) m))
      [0..<n] (d, m0) =
    (fold (\<lambda>c d. ab_put_channel (map sanitize_sample (ab_channel d c)) c d) [0..<n] d,
     fold (\<lambda>c m. fold measure_sample (ab_channel d c) m) [0..<n] m0)"
  using assms(2)
proof (induction n)
  case (Suc n)
  have "ab_channel (fold (\<lambda>c d. ab_put_channel (map sanitize_sample (ab_channel d c)) c d) [0..<n] d) n = ab_channel d n"
    using update_channels [of d n "\<lambda>c. map sanitize_sample"] assms(1) Suc.prems by (simp add: block_shape_def)
  then show ?case using Suc by simp
qed simp

lemma finish_samples:
  assumes "block_shape c f d"
  shows "block_shape c f (fst (render_finish c d))"
    "e < c \<Longrightarrow> ab_channel (fst (render_finish c d)) e = map sanitize_sample (ab_channel d e)"
proof -
  have "fst (render_finish c d) = fold (\<lambda>c d. ab_put_channel (map sanitize_sample (ab_channel d c)) c d) [0..<c] d"
    using finish_channels [OF assms order_refl] by (simp add: render_finish_def)
  then show "block_shape c f (fst (render_finish c d))"
    "e < c \<Longrightarrow> ab_channel (fst (render_finish c d)) e = map sanitize_sample (ab_channel d e)"
    using update_channels [of d c "\<lambda>c. map sanitize_sample"] assms by (simp_all add: block_shape_def)
qed

section \<open>The bus\<close>

definition rb_inv :: "render_bus \<Rightarrow> bool" where
  "rb_inv b \<longleftrightarrow> 0 < rb_channels b \<and> 0 < rb_frames b \<and> (\<forall>s \<in> set (rb_slots b). rsl_inv (rb_channels b) (rb_frames b) s)"

definition rb_live :: "render_bus \<Rightarrow> nat \<Rightarrow> u64 \<Rightarrow> bool" where
  "rb_live b i g \<longleftrightarrow> i < length (rb_slots b) \<and> rsl_state (rb_slots b ! i) = SlotActive \<and> rsl_generation (rb_slots b ! i) = g"

definition rb_stream :: "render_bus \<Rightarrow> nat \<Rightarrow> nat \<Rightarrow> f32 list" where
  "rb_stream b i c = rsl_stream (rb_slots b ! i) c"

text \<open>The frames the ring of slot \<open>i\<close> holds when it is full.\<close>

definition rb_room :: "render_bus \<Rightarrow> nat \<Rightarrow> nat" where
  "rb_room b i = rsl_capacity (rb_slots b ! i) * rb_frames b"

definition read_fits :: "audio_buffer \<Rightarrow> render_bus \<Rightarrow> bool" where
  "read_fits destination b \<longleftrightarrow> ab_channels destination = rb_channels b \<and> ab_frames destination = rb_frames b"

lemma rb_invD: "rb_inv b \<Longrightarrow> i < length (rb_slots b) \<Longrightarrow> rsl_inv (rb_channels b) (rb_frames b) (rb_slots b ! i)"
  by (simp add: rb_inv_def)

lemma rb_inv_update:
  assumes "rb_inv b" "rsl_inv (rb_channels b) (rb_frames b) s" "rb_slots b' = (rb_slots b)[i := s]"
    and "rb_channels b' = rb_channels b" "rb_frames b' = rb_frames b"
  shows "rb_inv b'"
  using assms unfolding rb_inv_def by (auto dest: set_update_subset_insert [THEN subsetD])

lemma make_render_slot_inv:
  assumes "make_render_slot c f n = Some s" "0 < n" "0 < f" "8192 + f < 2 ^ 64"
  shows "rsl_inv c f s" "rsl_state s = SlotIdle" "rsl_capacity s = n"
proof -
  obtain ring pending adapted where r: "bk_make c f n = Some ring" "make_audio_buffer c f = Some adapted" and
    p: "make_planar_fifo c ((unat kVirtualAsioMaxFramesPerBlock + f) mod 2 ^ 64) = Inr pending" and
    s: "s = \<lparr>rsl_pending = pending, rsl_adapted_block = adapted, rsl_ring = ring, rsl_generation = 0,
      rsl_state = SlotIdle, rsl_producer_started = False\<rparr>"
    using assms(1) by (auto simp: make_render_slot_def split: option.splits sum.splits)
  have "block_shape c f adapted" using make_audio_buffer_wf [OF r(2)] r(2)
    by (auto simp: block_shape_def make_audio_buffer_def split: if_splits)
  moreover have "length (bk_blocks ring) = n + 1" using r(1) by (auto simp: bk_make_def)
  ultimately show "rsl_inv c f s" "rsl_state s = SlotIdle" "rsl_capacity s = n"
    using bk_make_inv [OF r(1) assms(2)] make_planar_fifo_ok [OF p, of 0] assms(4)
    by (simp_all add: s rsl_inv_def rsl_capacity_def kVirtualAsioMaxFramesPerBlock_def)
qed

lemma make_render_bus_inv:
  assumes "make_render_bus c f m n = Some b" "8192 + f < 2 ^ 64"
  shows "rb_inv b" "rb_channels b = c" "rb_frames b = f"
proof -
  obtain s where nz: "c \<noteq> 0" "f \<noteq> 0" "m \<noteq> 0" "n \<noteq> 0" and s: "make_render_slot c f n = Some s"
    and b: "rb_channels b = c" "rb_frames b = f" "rb_slots b = replicate m s"
    using assms(1) by (auto simp: make_render_bus_def split: if_splits)
  then show "rb_inv b" "rb_channels b = c" "rb_frames b = f"
    using make_render_slot_inv(1) [OF s] assms(2) by (simp_all add: rb_inv_def)
qed

lemma other_render_slot:
  assumes "rb_slots b' = (rb_slots b)[j := s]" "i \<noteq> j"
  shows "rb_live b' i g = rb_live b i g" "rb_stream b' i c = rb_stream b i c"
  using assms by (simp_all add: rb_live_def rb_stream_def)

lemma render_push_refused:
  assumes "render_push_refused i g source b"
  shows "render_push i g source b = (False, b\<lparr>rb_counters := render_dropped (rb_counters b)\<rparr>)"
  using assms by (simp add: render_push_def)

text \<open>What one push does, to its slot and to the others.\<close>

lemma render_push_step:
  fixes source :: audio_buffer
  assumes inv: "rb_inv b" and src: "ab_wf source" and run: "render_push j h source b = (ok, b')"
  shows "rb_inv b' \<and> rb_channels b' = rb_channels b \<and> rb_frames b' = rb_frames b \<and>
    rb_live b' i g = rb_live b i g \<and>
    (c < rb_channels b \<longrightarrow> rb_stream b' i c = rb_stream b i c @ (if ok \<and> i = j then ab_channel source c else [])) \<and>
    (ok \<longleftrightarrow> \<not> render_push_refused j h source b \<and>
      (length (rb_stream b j 0) < rb_room b j \<or>
       length (rb_stream b j 0) + ab_frames source < rb_room b j + rb_frames b)) \<and>
    rbk_dropped_blocks (rb_counters b') = rbk_dropped_blocks (rb_counters b) + (if ok then 0 else 1)"
proof (cases "render_push_refused j h source b")
  case True
  then have "ok = False" "b' = b\<lparr>rb_counters := render_dropped (rb_counters b)\<rparr>"
    using run render_push_refused [OF True] by simp_all
  then show ?thesis using True inv by (simp add: rb_inv_def rb_live_def rb_stream_def render_dropped_def)
next
  case False
  then have j: "j < length (rb_slots b)" "ab_channels source = rb_channels b"
    "ab_frames source \<le> unat kVirtualAsioMaxFramesPerBlock" by (simp_all add: render_push_refused_def)
  obtain ok' s k where push: "render_push_slot (rb_frames b) source (rb_slots b ! j) (rb_counters b) = (ok', s, k)"
    by (cases "render_push_slot (rb_frames b) source (rb_slots b ! j) (rb_counters b)") auto
  have r: "ok' = ok" "b' = b\<lparr>rb_slots := (rb_slots b)[j := s], rb_counters := k\<rparr>"
    using run False push by (simp_all add: render_push_def)
  have c0: "0 < rb_channels b" using inv by (simp add: rb_inv_def)
  note p = render_push_slot_stream [OF rb_invD [OF inv j(1)] c0 src j(2,3) push]
  have slots: "rb_slots b' = (rb_slots b)[j := s]" using r by simp
  have inv': "rb_inv b'" by (rule rb_inv_update [OF inv p(1) slots]) (simp_all add: r)
  have "ok \<longleftrightarrow> length (rb_stream b j 0) < rb_room b j \<or>
      length (rb_stream b j 0) + ab_frames source < rb_room b j + rb_frames b"
    using p(6) by (simp add: r rb_stream_def rb_room_def)
  moreover have "rb_live b' i g = rb_live b i g"
    using p(3,4) j by (cases "i = j") (simp_all add: r rb_live_def)
  moreover have "c < rb_channels b \<Longrightarrow>
      rb_stream b' i c = rb_stream b i c @ (if ok \<and> i = j then ab_channel source c else [])"
    using p(2) [of c] j by (cases "i = j") (simp_all add: r rb_stream_def)
  ultimately show ?thesis using inv' p(7) False by (simp add: r)
qed

lemma render_read_step:
  fixes destination :: audio_buffer
  assumes inv: "rb_inv b" and dst: "ab_wf destination" and run: "render_read destination b = (ok, out, b')"
  shows "rb_inv b'" "rb_channels b' = rb_channels b" "rb_frames b' = rb_frames b" "rb_live b' i g = rb_live b i g"
    "i < length (rb_slots b) \<Longrightarrow>
      (if read_fits destination b \<and> rsl_mixes (rb_slots b ! i) then ab_channel (bk_front (rsl_ring (rb_slots b ! i))) c else []) @
        rb_stream b' i c = rb_stream b i c"
    "ok \<longleftrightarrow> read_fits destination b \<and> (\<exists>s \<in> set (rb_slots b). rsl_mixes s)"
    "c < ab_channels destination \<Longrightarrow> j < ab_frames destination \<Longrightarrow>
      ab_channel out c ! j = (if ok then sanitize_sample (mixed_sample (rb_slots b) c j 0) else 0)"
proof -
  let ?C = "rb_channels b" and ?F = "rb_frames b" and ?silent = "ab_clear destination"
  have "rb_inv b' \<and> rb_channels b' = ?C \<and> rb_frames b' = ?F \<and> rb_live b' i g = rb_live b i g \<and>
    (i < length (rb_slots b) \<longrightarrow>
      (if read_fits destination b \<and> rsl_mixes (rb_slots b ! i) then ab_channel (bk_front (rsl_ring (rb_slots b ! i))) c else []) @
        rb_stream b' i c = rb_stream b i c) \<and>
    (ok \<longleftrightarrow> read_fits destination b \<and> (\<exists>s \<in> set (rb_slots b). rsl_mixes s)) \<and>
    (c < ab_channels destination \<longrightarrow> j < ab_frames destination \<longrightarrow>
      ab_channel out c ! j = (if ok then sanitize_sample (mixed_sample (rb_slots b) c j 0) else 0))"
  proof (cases "read_fits destination b")
    case False
    then have r: "ok = False" "out = ?silent" "rb_slots b' = rb_slots b" "rb_channels b' = ?C" "rb_frames b' = ?F"
      using run by (auto simp: render_read_def read_fits_def Let_def)
    then show ?thesis using False inv ab_channel_clear [OF dst] by (simp add: rb_inv_def rb_live_def rb_stream_def)
  next
    case True
    then have fits: "ab_channels destination = ?C" "ab_frames destination = ?F" by (simp_all add: read_fits_def)
    have shape: "block_shape ?C ?F ?silent" using dst fits by (simp add: block_shape_def)
    have slots: "\<forall>s \<in> set (rb_slots b). rsl_inv ?C ?F s" using inv by (simp add: rb_inv_def)
    obtain mixed ss mixture k where mix: "render_mix_slots ?C (rb_slots b) ?silent (rb_counters b) = (mixed, ss, mixture, k)"
      by (cases "render_mix_slots ?C (rb_slots b) ?silent (rb_counters b)") auto
    note m = mix_slots [OF slots shape mix]
    have r: "ok = mixed" "rb_slots b' = ss" "rb_channels b' = ?C" "rb_frames b' = ?F"
      "out = (if mixed then fst (render_finish ?C mixture) else mixture)"
      using run mix fits by (auto simp: render_read_def Let_def split: prod.splits if_splits)
    have start: "c < ?C \<Longrightarrow> j < ?F \<Longrightarrow> ab_channel mixture c ! j = mixed_sample (rb_slots b) c j 0"
      using m ab_channel_clear [OF dst] fits by simp
    have quiet: "mixed_sample (rb_slots b) c j 0 = 0" if "\<not> mixed"
      using that m by (simp add: mixed_sample_def filter_empty_conv [THEN iffD2])
    have "block_shape ?C ?F mixture" using m by blast
    note fin = finish_samples [OF this]
    have len: "c < ?C \<Longrightarrow> length (ab_channel mixture c) = ?F" using \<open>block_shape ?C ?F mixture\<close> block_frames_channel by blast
    have "c < ?C \<Longrightarrow> j < ?F \<Longrightarrow> ab_channel out c ! j = (if ok then sanitize_sample (mixed_sample (rb_slots b) c j 0) else 0)"
      using start fin(2) [of c] len quiet r by simp
    moreover have "i < length (rb_slots b) \<Longrightarrow>
        (if rsl_mixes (rb_slots b ! i) then ab_channel (bk_front (rsl_ring (rb_slots b ! i))) c else []) @
        rb_stream b' i c = rb_stream b i c"
      using m by (simp add: rb_stream_def r)
    moreover have "rb_live b' i g = rb_live b i g" using m by (auto simp: rb_live_def r)
    moreover have "rb_inv b'" using m inv by (simp add: rb_inv_def r)
    ultimately show ?thesis using True m r fits by simp
  qed
  then show "rb_inv b'" "rb_channels b' = ?C" "rb_frames b' = ?F" "rb_live b' i g = rb_live b i g"
    "i < length (rb_slots b) \<Longrightarrow>
      (if read_fits destination b \<and> rsl_mixes (rb_slots b ! i) then ab_channel (bk_front (rsl_ring (rb_slots b ! i))) c else []) @
        rb_stream b' i c = rb_stream b i c"
    "ok \<longleftrightarrow> read_fits destination b \<and> (\<exists>s \<in> set (rb_slots b). rsl_mixes s)"
    "c < ab_channels destination \<Longrightarrow> j < ab_frames destination \<Longrightarrow>
      ab_channel out c ! j = (if ok then sanitize_sample (mixed_sample (rb_slots b) c j 0) else 0)" by simp_all
qed

lemma reset_slot:
  assumes "rsl_inv c f s"
  shows "rsl_inv c f (s\<lparr>rsl_ring := bk_reset (rsl_ring s), rsl_pending := pf_clear (rsl_pending s),
      rsl_producer_started := x, rsl_generation := g, rsl_state := t\<rparr>)"
    "rsl_stream (s\<lparr>rsl_ring := bk_reset (rsl_ring s), rsl_pending := pf_clear (rsl_pending s),
      rsl_producer_started := x, rsl_generation := g, rsl_state := t\<rparr>) d = []"
proof -
  have "bk_list (bk_reset (rsl_ring s)) = [] \<and> bk_inv c f (bk_reset (rsl_ring s))"
    using assms by (intro bk_reset_list) (simp add: rsl_inv_def)
  then show "rsl_inv c f (s\<lparr>rsl_ring := bk_reset (rsl_ring s), rsl_pending := pf_clear (rsl_pending s),
      rsl_producer_started := x, rsl_generation := g, rsl_state := t\<rparr>)"
    "rsl_stream (s\<lparr>rsl_ring := bk_reset (rsl_ring s), rsl_pending := pf_clear (rsl_pending s),
      rsl_producer_started := x, rsl_generation := g, rsl_state := t\<rparr>) d = []"
    using assms by (simp_all add: rsl_inv_def rsl_stream_def bk.frames_of_def) (simp_all add: pf_clear_def)
qed

lemma render_attach_step:
  fixes j :: nat and h :: u64
  assumes inv: "rb_inv b" and run: "render_attach b = (r, b')"
  shows "rb_inv b' \<and> rb_channels b' = rb_channels b \<and> rb_frames b' = rb_frames b \<and>
    (rb_live b i g \<longrightarrow> rb_live b' i g \<and> rb_slots b' ! i = rb_slots b ! i) \<and>
    (r = Some (j, h) \<longrightarrow> rb_live b' j h \<and> rb_stream b' j c = [])"
proof (cases "first_idle rsl_state (rb_slots b)")
  case None
  then show ?thesis using inv run by (auto simp: render_attach_def)
next
  case (Some l)
  note l = first_idle_Some [OF Some]
  let ?s = "(rb_slots b ! l)\<lparr>rsl_ring := bk_reset (rsl_ring (rb_slots b ! l)), rsl_pending := pf_clear (rsl_pending (rb_slots b ! l)),
    rsl_producer_started := False, rsl_generation := rb_next_generation b, rsl_state := SlotActive\<rparr>"
  have r: "r = Some (l, rb_next_generation b)" "rb_slots b' = (rb_slots b)[l := ?s]" "rb_channels b' = rb_channels b"
    "rb_frames b' = rb_frames b" using Some run by (auto simp: render_attach_def Let_def)
  note s = reset_slot [OF rb_invD [OF inv conjunct1 [OF l]]]
  have "rb_inv b'" by (rule rb_inv_update [OF inv s(1) r(2-4)])
  moreover have "l \<noteq> i" if "rb_live b i g" using that l by (auto simp: rb_live_def)
  ultimately show ?thesis using l s(2) r by (auto simp: rb_live_def rb_stream_def)
qed

lemma render_detach_step:
  assumes inv: "rb_inv b" and ops: "b' = render_detach j h b"
  shows "rb_inv b' \<and> rb_channels b' = rb_channels b \<and> rb_frames b' = rb_frames b \<and>
    (rb_live b i g \<longrightarrow> \<not> (i = j \<and> g = h) \<longrightarrow> rb_live b' i g \<and> rb_slots b' ! i = rb_slots b ! i) \<and> \<not> rb_live b' j h"
proof (cases "j < length (rb_slots b) \<and> rsl_generation (rb_slots b ! j) = h")
  case False
  then have "b' = b" by (auto simp: ops render_detach_def Let_def)
  then show ?thesis using inv False by (auto simp: rb_live_def)
next
  case True
  let ?old = "rb_slots b ! j"
  let ?s = "if rsl_state ?old \<noteq> SlotActive then ?old\<lparr>rsl_state := SlotClaiming\<rparr>
    else ?old\<lparr>rsl_ring := bk_reset (rsl_ring ?old), rsl_pending := pf_clear (rsl_pending ?old), rsl_producer_started := False,
      rsl_state := SlotIdle\<rparr>"
  have r: "rb_slots b' = (rb_slots b)[j := ?s]" "rb_channels b' = rb_channels b" "rb_frames b' = rb_frames b"
    using True by (simp_all add: ops render_detach_def Let_def)
  have old: "rsl_inv (rb_channels b) (rb_frames b) ?old" using rb_invD [OF inv] True by blast
  have "rsl_inv (rb_channels b) (rb_frames b) ?s"
    using old reset_slot(1) [OF old, where x = False and g = "rsl_generation ?old" and t = SlotIdle] by (simp add: rsl_inv_def)
  then have "rb_inv b'" by (rule rb_inv_update [OF inv _ r])
  moreover have "i \<noteq> j" if "rb_live b i g" "\<not> (i = j \<and> g = h)" using that True by (auto simp: rb_live_def)
  moreover have "rb_live b' i g \<and> rb_slots b' ! i = rb_slots b ! i" if "rb_live b i g" "i \<noteq> j"
    using that by (simp add: rb_live_def r(1) not_sym)
  moreover have "\<not> rb_live b' j h" using True by (simp add: rb_live_def r(1))
  ultimately show ?thesis using r(2,3) by blast
qed

section \<open>Whole runs\<close>

datatype render_op = RenderPush nat u64 audio_buffer | RenderRead audio_buffer | RenderAttach | RenderDetach nat u64

fun render_step :: "render_op \<Rightarrow> render_bus \<Rightarrow> render_bus" where
  "render_step (RenderPush i g source) b = snd (render_push i g source b)"
| "render_step (RenderRead destination) b = snd (snd (render_read destination b))"
| "render_step RenderAttach b = snd (render_attach b)"
| "render_step (RenderDetach i g) b = render_detach i g b"

primrec render_run :: "render_op list \<Rightarrow> render_bus \<Rightarrow> render_bus" where
  "render_run [] b = b"
| "render_run (op # ops) b = render_run ops (render_step op b)"

text \<open>The frames of a channel the reads take from slot \<open>i\<close>, and those its producer has been granted.\<close>

fun mixed_in :: "nat \<Rightarrow> nat \<Rightarrow> render_op \<Rightarrow> render_bus \<Rightarrow> f32 list" where
  "mixed_in i c (RenderRead destination) b =
     (if read_fits destination b \<and> rsl_mixes (rb_slots b ! i) then ab_channel (bk_front (rsl_ring (rb_slots b ! i))) c else [])"
| "mixed_in i c _ b = []"

primrec mixed_of :: "nat \<Rightarrow> nat \<Rightarrow> render_op list \<Rightarrow> render_bus \<Rightarrow> f32 list" where
  "mixed_of i c [] b = []"
| "mixed_of i c (op # ops) b = mixed_in i c op b @ mixed_of i c ops (render_step op b)"

fun granted_in :: "nat \<Rightarrow> nat \<Rightarrow> render_op \<Rightarrow> render_bus \<Rightarrow> f32 list" where
  "granted_in i c (RenderPush j h source) b = (if fst (render_push j h source b) \<and> j = i then ab_channel source c else [])"
| "granted_in i c _ b = []"

primrec granted :: "nat \<Rightarrow> nat \<Rightarrow> render_op list \<Rightarrow> render_bus \<Rightarrow> f32 list" where
  "granted i c [] b = []"
| "granted i c (op # ops) b = granted_in i c op b @ granted i c ops (render_step op b)"

fun render_op_wf :: "render_op \<Rightarrow> bool" where
  "render_op_wf (RenderPush i g source) = ab_wf source"
| "render_op_wf (RenderRead destination) = ab_wf destination"
| "render_op_wf _ = True"

lemma render_step_inv:
  assumes "rb_inv b" "render_op_wf op"
  shows "rb_inv (render_step op b) \<and> rb_channels (render_step op b) = rb_channels b \<and>
    rb_frames (render_step op b) = rb_frames b"
proof (cases op)
  case (RenderPush j h source)
  then show ?thesis using render_push_step [OF assms(1) _ prod.collapse [symmetric], of source j h] assms(2) by simp
next
  case (RenderRead destination)
  obtain ok out b' where r: "render_read destination b = (ok, out, b')" by (cases "render_read destination b") auto
  then show ?thesis using render_read_step(1-3) [OF assms(1) _ r] assms(2) RenderRead by simp
next
  case RenderAttach
  then show ?thesis using render_attach_step [OF assms(1) prod.collapse [symmetric]] by simp
next
  case (RenderDetach j h)
  then show ?thesis using render_detach_step [OF assms(1) refl, of j h] by simp
qed

lemma render_step_stream:
  assumes "rb_inv b" "rb_live b i g" "c < rb_channels b" "render_op_wf op" "op \<noteq> RenderDetach i g"
  shows "rb_live (render_step op b) i g \<and>
    mixed_in i c op b @ rb_stream (render_step op b) i c = rb_stream b i c @ granted_in i c op b"
proof (cases op)
  case (RenderPush j h source)
  then show ?thesis
    using render_push_step [OF assms(1) _ prod.collapse [symmetric], of source j h i g c] assms(2-4) by auto
next
  case (RenderRead destination)
  obtain ok out b' where r: "render_read destination b = (ok, out, b')" by (cases "render_read destination b") auto
  have "i < length (rb_slots b)" using assms(2) by (simp add: rb_live_def)
  then show ?thesis using render_read_step(4) [OF assms(1) _ r, of i g] render_read_step(5) [OF assms(1) _ r, of i c] assms(2,4) r RenderRead by simp
next
  case RenderAttach
  then show ?thesis using render_attach_step [OF assms(1) prod.collapse [symmetric], of i g] assms(2)
    by (simp add: rb_stream_def)
next
  case (RenderDetach j h)
  then show ?thesis using render_detach_step [OF assms(1) refl, of j h i g] assms(2,5) by (auto simp: rb_stream_def)
qed

lemma render_run_stream:
  assumes "rb_inv b" "rb_live b i g" "c < rb_channels b" "\<forall>op \<in> set ops. render_op_wf op" "RenderDetach i g \<notin> set ops"
  shows "rb_inv (render_run ops b) \<and> rb_live (render_run ops b) i g \<and>
    mixed_of i c ops b @ rb_stream (render_run ops b) i c = rb_stream b i c @ granted i c ops b"
  using assms
proof (induction ops arbitrary: b)
  case (Cons op ops)
  have wf: "render_op_wf op" "op \<noteq> RenderDetach i g" using Cons.prems(4,5) by auto
  note inv = render_step_inv [OF Cons.prems(1) wf(1)] and step = render_step_stream [OF Cons.prems(1-3) wf]
  have "rb_inv (render_run ops (render_step op b)) \<and> rb_live (render_run ops (render_step op b)) i g \<and>
    mixed_of i c ops (render_step op b) @ rb_stream (render_run ops (render_step op b)) i c =
      rb_stream (render_step op b) i c @ granted i c ops (render_step op b)"
    using Cons.IH [of "render_step op b"] inv step Cons.prems(3-5) by simp
  then show ?case using step by (simp flip: append_assoc) (simp add: append_assoc)
qed simp

lemma render_run_inv:
  "rb_inv b \<Longrightarrow> \<forall>op \<in> set ops. render_op_wf op \<Longrightarrow>
    rb_inv (render_run ops b) \<and> rb_channels (render_run ops b) = rb_channels b \<and> rb_frames (render_run ops b) = rb_frames b"
  by (induction ops arbitrary: b) (simp_all add: render_step_inv)

section \<open>A small bus\<close>

definition demo_render_bus :: "planar_fifo \<Rightarrow> render_bus" where
  "demo_render_bus q =
     \<lparr>rb_channels = 1, rb_frames = 2,
      rb_slots = [\<lparr>rsl_pending = pf_clear q, rsl_adapted_block = demo_block2 0 0,
        rsl_ring = \<lparr>bk_blocks = [demo_block2 0 0, demo_block2 0 0], bk_read = 0, bk_write = 0\<rparr>,
        rsl_generation = 1, rsl_state = SlotActive, rsl_producer_started = False\<rparr>],
      rb_next_generation = 2, rb_counters = render_no_counts\<lparr>rbk_active_producers := 1\<rparr>\<rparr>"

lemma demo_render_bus_made:
  "\<exists>b0 q. make_render_bus 1 2 1 1 = Some b0 \<and> render_attach b0 = (Some (0, 1), demo_render_bus q) \<and> rb_inv (demo_render_bus q)"
proof -
  have fifo: "make_planar_fifo 1 ((unat kVirtualAsioMaxFramesPerBlock + 2) mod 2 ^ 64) =
      Inr \<lparr>pf_channels = 1, pf_capacity = 8194, pf_samples = replicate 8194 0, pf_read = 0, pf_write = 0, pf_available = 0\<rparr>"
    by (simp add: make_planar_fifo_def checked_sample_count_def kVirtualAsioMaxFramesPerBlock_def)
  define q :: planar_fifo where
    "q = \<lparr>pf_channels = 1, pf_capacity = 8194, pf_samples = replicate 8194 0, pf_read = 0, pf_write = 0, pf_available = 0\<rparr>"
  have two: "replicate 2 (0 :: f32) = [0, 0]" by (simp add: numeral_2_eq_2)
  have ring: "bk_make 1 2 1 = Some \<lparr>bk_blocks = [demo_block2 0 0, demo_block2 0 0], bk_read = 0, bk_write = 0\<rparr>"
    "make_audio_buffer 1 2 = Some (demo_block2 0 0)"
    by (simp_all add: bk_make_def make_audio_buffer_def demo_block2_def two)
  have "make_render_slot 1 2 1 = Some \<lparr>rsl_pending = q, rsl_adapted_block = demo_block2 0 0,
      rsl_ring = \<lparr>bk_blocks = [demo_block2 0 0, demo_block2 0 0], bk_read = 0, bk_write = 0\<rparr>,
      rsl_generation = 0, rsl_state = SlotIdle, rsl_producer_started = False\<rparr>"
    unfolding make_render_slot_def ring fifo q_def by simp
  then obtain b0 where b0: "make_render_bus 1 2 1 1 = Some b0" "render_attach b0 = (Some (0, 1), demo_render_bus q)"
    by (simp add: make_render_bus_def render_attach_def bk_reset_def demo_render_bus_def render_no_counts_def Let_def)
  have "rb_inv b0" using make_render_bus_inv(1) [OF b0(1)] by simp
  then have "rb_inv (demo_render_bus q)" using render_attach_step [OF _ b0(2)] by blast
  with b0 show ?thesis by blast
qed

lemma demo_render_blocks: "ab_wf (demo_block2 x y)" "ab_channels (demo_block2 x y) = 1" "ab_frames (demo_block2 x y) = 2"
  "ab_channel (demo_block2 x y) 0 = [x, y]"
  by (simp_all add: demo_block2_def ab_wf_def ab_channel_def)

lemma demo_render_stream: "rb_stream (demo_render_bus q) 0 0 = []" "rb_live (demo_render_bus q) 0 1"
  "rb_room (demo_render_bus q) 0 = 2" "rb_frames (demo_render_bus q) = 2" "rb_channels (demo_render_bus q) = 1"
  by (simp_all add: demo_render_bus_def rb_stream_def rsl_stream_def bk.frames_of_def bk_list_def bk_depth_def bk_queue_depth_def
      rb_live_def rb_room_def rsl_capacity_def pf_clear_def pf_contents_def)

section \<open>Properties\<close>



text \<open>
  A push is all or nothing. It is accepted exactly when the handle is live, the block has the
  channels of the bus and between one and 8192 frames, and the slot holds less than its ring or would hold less than one
  block more than its ring afterwards; then the frames are appended, otherwise nothing changes but the count of dropped blocks.
\<close>

theorem render_push_exact:
  assumes "rb_inv b" "ab_wf source" "render_push i g source b = (ok, b')" "c < rb_channels b"
  shows "ok = (rb_live b i g \<and> ab_channels source = rb_channels b \<and> 0 < ab_frames source \<and> ab_frames source \<le> 8192 \<and>
      (length (rb_stream b i 0) < rb_room b i \<or>
       length (rb_stream b i 0) + ab_frames source < rb_room b i + rb_frames b)) \<and>
    rb_stream b' i c = rb_stream b i c @ (if ok then ab_channel source c else []) \<and>
    (\<forall>j. j \<noteq> i \<longrightarrow> rb_stream b' j c = rb_stream b j c) \<and>
    rbk_dropped_blocks (rb_counters b') = rbk_dropped_blocks (rb_counters b) + (if ok then 0 else 1)"
proof -
  have "\<not> render_push_refused i g source b \<longleftrightarrow> rb_live b i g \<and> ab_channels source = rb_channels b \<and>
      0 < ab_frames source \<and> ab_frames source \<le> 8192"
    by (auto simp: render_push_refused_def rb_live_def kVirtualAsioMaxFramesPerBlock_def)
  moreover have "rb_stream b' j c = rb_stream b j c @ (if ok \<and> j = i then ab_channel source c else [])" for j
    using render_push_step [OF assms(1-3), of j g c] assms(4) by simp
  moreover note render_push_step [OF assms(1-3), of i g c]
  ultimately show ?thesis by simp
qed

theorem render_push_exact_witness:
  "\<exists>q b1 b2. render_push 0 1 (demo_block2 1 2) (demo_render_bus q) = (True, b1) \<and> rb_stream b1 0 0 = [1, 2] \<and>
     render_push 0 1 (demo_block2 3 4) b1 = (False, b2) \<and> rb_stream b2 0 0 = [1, 2]"
proof -
  obtain q where inv: "rb_inv (demo_render_bus q)" using demo_render_bus_made by blast
  obtain ok1 b1 where r1: "render_push 0 1 (demo_block2 1 2) (demo_render_bus q) = (ok1, b1)"
    by (cases "render_push 0 1 (demo_block2 1 2) (demo_render_bus q)")
  note p1 = render_push_exact [OF inv demo_render_blocks(1) r1, of 0]
  have one: ok1 "rb_stream b1 0 0 = [1, 2]" using p1 by (simp_all add: demo_render_stream demo_render_blocks)
  note s1 = render_push_step [OF inv demo_render_blocks(1) r1, of 0 1 0]
  have b1: "rb_inv b1" "rb_channels b1 = 1" "rb_frames b1 = 2" "rb_live b1 0 1" using s1 by (simp_all add: demo_render_stream)
  have "rsl_capacity (rb_slots b1 ! 0) = 1"
  proof -
    obtain ok s k where push: "render_push_slot 2 (demo_block2 1 2) (rb_slots (demo_render_bus q) ! 0)
        (rb_counters (demo_render_bus q)) = (ok, s, k)" by (metis prod_cases3)
    have "rsl_inv 1 2 (rb_slots (demo_render_bus q) ! 0)" "rsl_capacity (rb_slots (demo_render_bus q) ! 0) = 1"
      using rb_invD [OF inv, of 0] by (simp_all add: demo_render_bus_def rsl_capacity_def)
    then have "rsl_capacity s = 1"
      using render_push_slot_stream(5) [OF _ _ demo_render_blocks(1,2) _ push] by (simp add: demo_render_blocks kVirtualAsioMaxFramesPerBlock_def)
    moreover have "b1 = (demo_render_bus q)\<lparr>rb_slots := (rb_slots (demo_render_bus q))[0 := s], rb_counters := k\<rparr>"
      using r1 push one(1) by (auto simp: render_push_def demo_render_stream split: if_splits)
    then have "rb_slots b1 = [s]" by (simp add: demo_render_bus_def)
    ultimately show ?thesis by simp
  qed
  then have room: "rb_room b1 0 = 2" using b1 by (simp add: rb_room_def)
  obtain ok2 b2 where r2: "render_push 0 1 (demo_block2 3 4) b1 = (ok2, b2)" by (cases "render_push 0 1 (demo_block2 3 4) b1")
  have "\<not> ok2 \<and> rb_stream b2 0 0 = [1, 2]"
    using render_push_exact [OF b1(1) demo_render_blocks(1) r2, of 0] one(2) b1 room by (simp add: demo_render_blocks)
  then show ?thesis using r1 r2 one by (intro exI [of _ q] exI [of _ b1] exI [of _ b2]) simp
qed

text \<open>
  A read mixes exactly when it has the shape of the bus and some producer has a block: each sample is then the
  sum, in the order of the slots and from positive zero, of the oldest blocks, made zero where that sum is not finite;
  otherwise the destination is silence. So no NaN or infinity ever leaves the bus.
\<close>

theorem render_read_mixes:
  assumes "rb_inv b" "ab_wf destination" "render_read destination b = (ok, out, b')"
    and "c < ab_channels destination" "j < ab_frames destination"
  shows "ok = (ab_channels destination = rb_channels b \<and> ab_frames destination = rb_frames b \<and>
      (\<exists>s \<in> set (rb_slots b). rsl_state s = SlotActive \<and> \<not> bk_empty (rsl_ring s))) \<and>
    ab_channel out c ! j =
      (let mixture = fold (\<lambda>s acc. f32_add acc (ab_channel (bk_front (rsl_ring s)) c ! j))
         (filter (\<lambda>s. rsl_state s = SlotActive \<and> \<not> bk_empty (rsl_ring s)) (rb_slots b)) 0
       in if ok \<and> f32_finite mixture then mixture else 0) \<and>
    f32_finite (ab_channel out c ! j)"
  using render_read_step(6,7) [OF assms(1-3)] assms(4,5)
  by (auto simp: read_fits_def mixed_sample_def sanitize_sample_def rsl_mixes_def [abs_def] Let_def)

theorem render_read_mixes_witness:
  "\<exists>q ok out b'. render_read (demo_block2 7 8) (demo_render_bus q) = (ok, out, b') \<and> \<not> ok \<and> ab_channel out 0 ! 1 = 0"
proof -
  obtain q where inv: "rb_inv (demo_render_bus q)" using demo_render_bus_made by blast
  obtain ok out b' where r: "render_read (demo_block2 7 8) (demo_render_bus q) = (ok, out, b')" by (metis prod_cases3)
  have "\<not> ok \<and> ab_channel out 0 ! 1 = 0"
    using render_read_mixes [OF inv demo_render_blocks(1) r, of 0 1]
    by (simp add: demo_render_blocks) (simp add: demo_render_bus_def bk_empty_def)
  with r show ?thesis by blast
qed

end
