(* ===== verification/SlotHandshake.thy ===== *)
theory SlotHandshake
  imports CaptureBus
begin

text \<open>
  The handshake by which \<^verbatim>\<open>core/platform/virtual_asio_capture_bus.cpp\<close> keeps the realtime threads out of a
  slot that \<^verbatim>\<open>attach\<close> or \<^verbatim>\<open>detach\<close> resets: a realtime thread raises its flag and looks at the state again
  before it touches the slot; the control thread, of which the mutex admits one, takes the state to
  \<open>Claiming\<close> and waits for both flags to fall. One step is one access to an atomic object.

  The raising store is \<^verbatim>\<open>memory_order_release\<close> and the load after it \<^verbatim>\<open>memory_order_acquire\<close>: neither C++ nor
  x86-64 keeps a load behind an earlier store to another object. A buffered run lets the stores of the
  realtime threads wait in a store buffer; an unbuffered run is sequentially consistent. The exchange of
  the control thread is a read-modify-write and is never delayed.
\<close>

section \<open>The two sides\<close>

datatype slot_user = Producer | Consumer

datatype user_pc = Outside | SeenActive | Raised | Inside | Leaving

text \<open>The flag says whether the slot is being attached.\<close>

datatype slot_control_pc = Unclaimed | AwaitProducer bool | AwaitConsumer bool | Resetting bool

record handshake =
  hs_state :: slot_state
  hs_flag :: "slot_user \<Rightarrow> bool"
  hs_buffer :: "slot_user \<Rightarrow> bool list"
  hs_pc :: "slot_user \<Rightarrow> user_pc"
  hs_control :: slot_control_pc

definition hs_initial :: handshake where
  "hs_initial = \<lparr>hs_state = SlotIdle, hs_flag = (\<lambda>_. False), hs_buffer = (\<lambda>_. []), hs_pc = (\<lambda>_. Outside),
     hs_control = Unclaimed\<rparr>"

definition hs_store :: "bool \<Rightarrow> slot_user \<Rightarrow> bool \<Rightarrow> handshake \<Rightarrow> handshake" where
  "hs_store buffered u v s =
     (if buffered then s\<lparr>hs_buffer := (hs_buffer s)(u := hs_buffer s u @ [v])\<rparr>
      else s\<lparr>hs_flag := (hs_flag s)(u := v)\<rparr>)"

definition hs_goto :: "slot_user \<Rightarrow> user_pc \<Rightarrow> handshake \<Rightarrow> handshake" where
  "hs_goto u pc s = s\<lparr>hs_pc := (hs_pc s)(u := pc)\<rparr>"

text \<open>
  \<open>refuse\<close> covers the second look of the consumer failing on the generation as well as on the state.
\<close>

inductive hs_step :: "bool \<Rightarrow> handshake \<Rightarrow> handshake \<Rightarrow> bool" for buffered where
  look: "hs_pc s u = Outside \<Longrightarrow> hs_state s = SlotActive \<Longrightarrow> hs_step buffered s (hs_goto u SeenActive s)"
| raise: "hs_pc s u = SeenActive \<Longrightarrow> hs_step buffered s (hs_goto u Raised (hs_store buffered u True s))"
| enter: "hs_pc s u = Raised \<Longrightarrow> hs_state s = SlotActive \<Longrightarrow> hs_step buffered s (hs_goto u Inside s)"
| refuse: "hs_pc s u = Raised \<Longrightarrow> hs_state s \<noteq> SlotActive \<or> u = Consumer \<Longrightarrow> hs_step buffered s (hs_goto u Leaving s)"
| finish: "hs_pc s u = Inside \<Longrightarrow> hs_step buffered s (hs_goto u Leaving s)"
| lower: "hs_pc s u = Leaving \<Longrightarrow> hs_step buffered s (hs_goto u Outside (hs_store buffered u False s))"
| flush: "hs_buffer s u = v # vs \<Longrightarrow>
    hs_step buffered s (s\<lparr>hs_flag := (hs_flag s)(u := v), hs_buffer := (hs_buffer s)(u := vs)\<rparr>)"
| detach: "hs_control s = Unclaimed \<Longrightarrow> hs_state s = SlotActive \<Longrightarrow>
    hs_step buffered s (s\<lparr>hs_state := SlotClaiming, hs_control := AwaitProducer False\<rparr>)"
| attach: "hs_control s = Unclaimed \<Longrightarrow> hs_state s = SlotIdle \<Longrightarrow>
    hs_step buffered s (s\<lparr>hs_state := SlotClaiming, hs_control := AwaitProducer True\<rparr>)"
| producer_gone: "hs_control s = AwaitProducer a \<Longrightarrow> \<not> hs_flag s Producer \<Longrightarrow>
    hs_step buffered s (s\<lparr>hs_control := AwaitConsumer a\<rparr>)"
| consumer_there: "hs_control s = AwaitConsumer a \<Longrightarrow> hs_flag s Consumer \<Longrightarrow>
    hs_step buffered s (s\<lparr>hs_control := AwaitProducer a\<rparr>)"
| consumer_gone: "hs_control s = AwaitConsumer a \<Longrightarrow> \<not> hs_flag s Consumer \<Longrightarrow>
    hs_step buffered s (s\<lparr>hs_control := Resetting a\<rparr>)"
| publish: "hs_control s = Resetting a \<Longrightarrow>
    hs_step buffered s (s\<lparr>hs_state := (if a then SlotActive else SlotIdle), hs_control := Unclaimed\<rparr>)"

definition hs_reachable :: "bool \<Rightarrow> handshake \<Rightarrow> bool" where
  "hs_reachable buffered = rtranclp (hs_step buffered) hs_initial"

lemma hs_goto_simps [simp]:
  "hs_state (hs_goto u pc s) = hs_state s" "hs_flag (hs_goto u pc s) = hs_flag s"
  "hs_buffer (hs_goto u pc s) = hs_buffer s" "hs_control (hs_goto u pc s) = hs_control s"
  "hs_pc (hs_goto u pc s) = (hs_pc s)(u := pc)"
  by (simp_all add: hs_goto_def)

lemma hs_store_simps [simp]:
  "hs_state (hs_store b u v s) = hs_state s" "hs_control (hs_store b u v s) = hs_control s"
  "hs_pc (hs_store b u v s) = hs_pc s"
  "hs_flag (hs_store False u v s) = (hs_flag s)(u := v)" "hs_buffer (hs_store False u v s) = hs_buffer s"
  by (simp_all add: hs_store_def)

section \<open>Sequentially consistent runs\<close>

text \<open>
  The buffers stay empty, a raised user has its flag up, and once the control thread has seen a flag
  down under \<open>Claiming\<close>, that user does not get inside.
\<close>

definition hs_inv :: "handshake \<Rightarrow> bool" where
  "hs_inv s \<longleftrightarrow> (\<forall>u. hs_buffer s u = []) \<and>
     (\<forall>u. hs_pc s u \<in> {Raised, Inside, Leaving} \<longrightarrow> hs_flag s u) \<and>
     (hs_control s = Unclaimed \<longleftrightarrow> hs_state s \<noteq> SlotClaiming) \<and>
     (\<forall>u. hs_state s = SlotIdle \<longrightarrow> hs_pc s u \<noteq> Inside) \<and>
     (\<forall>a. hs_control s = AwaitConsumer a \<longrightarrow> hs_pc s Producer \<noteq> Inside) \<and>
     (\<forall>a u. hs_control s = Resetting a \<longrightarrow> hs_pc s u \<noteq> Inside)"

lemma hs_inv_step:
  assumes "hs_step False s s'" "hs_inv s"
  shows "hs_inv s'"
  using assms
proof cases
  case (consumer_gone a)
  have "hs_pc s u \<noteq> Inside" for u
    using assms(2) consumer_gone by (cases u) (auto simp: hs_inv_def)
  with assms(2) consumer_gone show ?thesis by (simp add: hs_inv_def)
qed (auto simp: hs_inv_def)

lemma hs_reachable_inv: "hs_reachable False s \<Longrightarrow> hs_inv s"
  unfolding hs_reachable_def
  by (induction rule: rtranclp_induct) (simp_all add: hs_inv_step, simp add: hs_inv_def hs_initial_def)

section \<open>A run into the slot\<close>

lemma hs_reach_step: "hs_reachable b s \<Longrightarrow> hs_step b s s' \<Longrightarrow> hs_reachable b s'"
  by (simp add: hs_reachable_def)

lemma consumer_gets_inside:
  "\<exists>s. hs_reachable b s \<and> hs_pc s Consumer = Inside \<and> hs_state s = SlotActive \<and> hs_control s = Unclaimed \<and>
     hs_flag s = (\<lambda>u. u = Consumer \<and> \<not> b)"
proof -
  let ?s0 = "hs_initial"
  let ?s1 = "?s0\<lparr>hs_state := SlotClaiming, hs_control := AwaitProducer True\<rparr>"
  let ?s2 = "?s1\<lparr>hs_control := AwaitConsumer True\<rparr>"
  let ?s3 = "?s2\<lparr>hs_control := Resetting True\<rparr>"
  let ?s4 = "?s3\<lparr>hs_state := (if True then SlotActive else SlotIdle), hs_control := Unclaimed\<rparr>"
  let ?s5 = "hs_goto Consumer SeenActive ?s4"
  let ?s6 = "hs_goto Consumer Raised (hs_store b Consumer True ?s5)"
  let ?s7 = "hs_goto Consumer Inside ?s6"
  have "hs_reachable b ?s0" by (simp add: hs_reachable_def)
  moreover have "hs_step b ?s0 ?s1" by (rule attach) (simp_all add: hs_initial_def)
  moreover have "hs_step b ?s1 ?s2" by (rule producer_gone) (simp_all add: hs_initial_def)
  moreover have "hs_step b ?s2 ?s3" by (rule consumer_gone) (simp_all add: hs_initial_def)
  moreover have "hs_step b ?s3 ?s4" by (rule publish) simp
  moreover have "hs_step b ?s4 ?s5" by (rule look) (simp_all add: hs_initial_def)
  moreover have "hs_step b ?s5 ?s6" by (rule raise) simp
  moreover have "hs_step b ?s6 ?s7" by (rule enter) simp_all
  ultimately have "hs_reachable b ?s7" by (meson hs_reach_step)
  then show ?thesis by (intro exI [of _ ?s7]) (simp add: hs_store_def hs_initial_def fun_eq_iff)
qed

section \<open>Properties\<close>



text \<open>
  With the memory orders of the code the reset is not exclusive: the flag of the consumer may
  still wait in its store buffer when it has looked at the state again, and the control thread then resets
  the slot with the consumer inside.
\<close>

theorem delayed_flag_breaks_exclusion:
  "\<exists>s. hs_reachable True s \<and> hs_pc s Consumer = Inside \<and> hs_control s = Resetting False"
proof -
  obtain s where s: "hs_reachable True s" "hs_pc s Consumer = Inside" "hs_state s = SlotActive"
    "hs_control s = Unclaimed" "hs_flag s = (\<lambda>u. False)"
    using consumer_gets_inside [of True] by (auto simp: fun_eq_iff)
  let ?s1 = "s\<lparr>hs_state := SlotClaiming, hs_control := AwaitProducer False\<rparr>"
  let ?s2 = "?s1\<lparr>hs_control := AwaitConsumer False\<rparr>"
  let ?s3 = "?s2\<lparr>hs_control := Resetting False\<rparr>"
  have "hs_step True s ?s1" by (rule detach) (simp_all add: s)
  moreover have "hs_step True ?s1 ?s2" by (rule producer_gone) (simp_all add: s)
  moreover have "hs_step True ?s2 ?s3" by (rule consumer_gone) (simp_all add: s)
  ultimately have "hs_reachable True ?s3" using s(1) by (meson hs_reach_step)
  then show ?thesis using s(2) by (intro exI [of _ ?s3]) simp
qed

end
