(* ===== verification/EndpointRouting.thy ===== *)
theory EndpointRouting
  imports CaptureBus
begin

text \<open>
  How graph blocks reach independently clocked endpoints and how endpoint blocks become a graph input:
  \<^verbatim>\<open>core/platform/realtime_audio_fanout_sink.{h,cpp}\<close>, \<^verbatim>\<open>realtime_audio_channel_slice_sink.{h,cpp}\<close>,
  \<^verbatim>\<open>realtime_audio_endpoint_queue.{h,cpp}\<close> and \<^verbatim>\<open>realtime_audio_input_assembler.{h,cpp}\<close>. The virtual sinks
  and sources of \<^verbatim>\<open>realtime_audio_source.h\<close> are a state with a write or a read; objects that several
  parts point to are entries of a list, and a pointer is an index.
\<close>

section \<open>The slice sink\<close>

record slice_sink =
  sl_first_channel :: nat
  sl_scratch :: audio_buffer
  sl_published_blocks :: u64
  sl_rejected_blocks :: u64
  sl_downstream_failures :: u64

definition make_slice_sink :: "nat \<Rightarrow> nat \<Rightarrow> nat \<Rightarrow> slice_sink option" where
  "make_slice_sink first_channel channel_count frames_per_block =
     (case make_audio_buffer channel_count frames_per_block of
        None \<Rightarrow> None
      | Some scratch \<Rightarrow>
          if first_channel > (2 ^ 64 - 1) - channel_count then None
          else Some \<lparr>sl_first_channel = first_channel, sl_scratch = scratch, sl_published_blocks = 0,
                 sl_rejected_blocks = 0, sl_downstream_failures = 0\<rparr>)"

definition slice_refuses :: "slice_sink \<Rightarrow> audio_buffer \<Rightarrow> bool" where
  "slice_refuses s source \<longleftrightarrow> ab_channels source < sl_first_channel s + ab_channels (sl_scratch s) \<or>
     ab_frames source \<noteq> ab_frames (sl_scratch s)"

definition slice_copy :: "slice_sink \<Rightarrow> audio_buffer \<Rightarrow> audio_buffer" where
  "slice_copy s source =
     fold (\<lambda>c. ab_put_channel (ab_channel source (sl_first_channel s + c)) c) [0..<ab_channels (sl_scratch s)] (sl_scratch s)"

definition slice_write ::
  "(audio_buffer \<Rightarrow> 'd \<Rightarrow> bool \<times> 'd) \<Rightarrow> audio_buffer \<Rightarrow> slice_sink \<times> 'd \<Rightarrow> bool \<times> slice_sink \<times> 'd" where
  "slice_write downstream source sd =
     (case sd of (s, d) \<Rightarrow>
        if slice_refuses s source then (False, s\<lparr>sl_rejected_blocks := sl_rejected_blocks s + 1\<rparr>, d)
        else
          let scratch = slice_copy s source;
              s' = s\<lparr>sl_scratch := scratch, sl_published_blocks := sl_published_blocks s + 1\<rparr>
          in case downstream scratch d of
               (ok, d') \<Rightarrow>
                 if \<not> ok then (False, s'\<lparr>sl_downstream_failures := sl_downstream_failures s + 1\<rparr>, d')
                 else (True, s', d'))"

section \<open>The endpoint queue\<close>

record endpoint_queue =
  eq_queue :: capture_bus
  eq_consumer :: capture_consumer
  eq_publisher :: slice_sink

definition make_endpoint_queue :: "nat \<Rightarrow> nat \<Rightarrow> nat \<Rightarrow> nat \<Rightarrow> endpoint_queue option" where
  "make_endpoint_queue graph_first_channel endpoint_channels frames_per_block capacity =
     (case make_capture_bus endpoint_channels frames_per_block 1 capacity of
        None \<Rightarrow> None
      | Some queue \<Rightarrow>
          case bus_attach queue of (consumer, queue') \<Rightarrow>
            case make_slice_sink graph_first_channel endpoint_channels frames_per_block of
              None \<Rightarrow> None
            | Some publisher \<Rightarrow>
                if \<not> cc_attached consumer then None
                else Some \<lparr>eq_queue = queue', eq_consumer = consumer, eq_publisher = publisher\<rparr>)"

definition endpoint_publish :: "audio_buffer \<Rightarrow> endpoint_queue \<Rightarrow> bool \<times> endpoint_queue" where
  "endpoint_publish source q =
     (case slice_write capture_write source (eq_publisher q, eq_queue q) of
        (ok, publisher, queue) \<Rightarrow> (ok, q\<lparr>eq_publisher := publisher, eq_queue := queue\<rparr>))"

definition endpoint_read :: "audio_buffer \<Rightarrow> endpoint_queue \<Rightarrow> bool \<times> audio_buffer \<times> endpoint_queue" where
  "endpoint_read destination q =
     (case consumer_read (eq_consumer q) destination (eq_queue q) of
        (ok, out, queue) \<Rightarrow> (ok, out, q\<lparr>eq_queue := queue\<rparr>))"

section \<open>The fan-out\<close>

record fanout_sink =
  fo_sinks :: "nat list"
  fo_published_blocks :: u64
  fo_partial_blocks :: u64
  fo_failed_sink_writes :: u64

text \<open>\<open>None\<close> in the list is the null pointer; no result is \<^verbatim>\<open>std::invalid_argument\<close>.\<close>

fun fanout_unique :: "nat list \<Rightarrow> nat option list \<Rightarrow> nat list option" where
  "fanout_unique seen [] = Some []"
| "fanout_unique seen (None # ps) = None"
| "fanout_unique seen (Some p # ps) =
     (if p \<in> set seen then None else map_option (Cons p) (fanout_unique (p # seen) ps))"

definition make_fanout :: "nat option list \<Rightarrow> fanout_sink option" where
  "make_fanout pointers =
     map_option (\<lambda>ps. \<lparr>fo_sinks = ps, fo_published_blocks = 0, fo_partial_blocks = 0, fo_failed_sink_writes = 0\<rparr>)
       (fanout_unique [] pointers)"

fun fanout_loop :: "(audio_buffer \<Rightarrow> 'k \<Rightarrow> bool \<times> 'k) \<Rightarrow> audio_buffer \<Rightarrow> nat list \<Rightarrow> u64 \<Rightarrow> 'k list \<Rightarrow> u64 \<times> 'k list" where
  "fanout_loop sink source [] failures ks = (failures, ks)"
| "fanout_loop sink source (p # ps) failures ks =
     (case sink source (ks ! p) of
        (ok, k) \<Rightarrow> fanout_loop sink source ps (if ok then failures else failures + 1) (ks[p := k]))"

definition fanout_write ::
  "(audio_buffer \<Rightarrow> 'k \<Rightarrow> bool \<times> 'k) \<Rightarrow> audio_buffer \<Rightarrow> fanout_sink \<Rightarrow> 'k list \<Rightarrow> bool \<times> fanout_sink \<times> 'k list" where
  "fanout_write sink source f ks =
     (case fanout_loop sink source (fo_sinks f) 0 ks of
        (failures, ks') \<Rightarrow>
          let f1 = f\<lparr>fo_published_blocks := fo_published_blocks f + 1\<rparr>;
              f2 = (if failures \<noteq> 0
                    then f1\<lparr>fo_partial_blocks := fo_partial_blocks f + 1,
                      fo_failed_sink_writes := fo_failed_sink_writes f + failures\<rparr>
                    else f1)
          in (failures = 0, f2, ks'))"

section \<open>The input assembler\<close>

record input_binding =
  ib_source :: "nat option"
  ib_first_channel :: nat
  ib_channel_count :: nat

record owned_binding =
  ob_source :: nat
  ob_first_channel :: nat
  ob_scratch :: audio_buffer

record input_assembler =
  ia_graph_channels :: nat
  ia_frames_per_block :: nat
  ia_bindings :: "owned_binding list"

fun occupy :: "nat list \<Rightarrow> bool list \<Rightarrow> bool list option" where
  "occupy [] occupied = Some occupied"
| "occupy (i # is) occupied = (if occupied ! i then None else occupy is (occupied[i := True]))"

fun assemble_bindings :: "nat \<Rightarrow> nat \<Rightarrow> bool list \<Rightarrow> input_binding list \<Rightarrow> owned_binding list option" where
  "assemble_bindings channels frames occupied [] = Some []"
| "assemble_bindings channels frames occupied (b # bs) =
     (case ib_source b of
        None \<Rightarrow> None
      | Some source \<Rightarrow>
          if ib_channel_count b = 0 \<or> ib_first_channel b > channels \<or>
             ib_channel_count b > channels - ib_first_channel b then None
          else
            case occupy [ib_first_channel b..<ib_first_channel b + ib_channel_count b] occupied of
              None \<Rightarrow> None
            | Some occupied' \<Rightarrow>
                case make_audio_buffer (ib_channel_count b) frames of
                  None \<Rightarrow> None
                | Some scratch \<Rightarrow>
                    map_option (Cons \<lparr>ob_source = source, ob_first_channel = ib_first_channel b, ob_scratch = scratch\<rparr>)
                      (assemble_bindings channels frames occupied' bs))"

definition make_input_assembler :: "nat \<Rightarrow> nat \<Rightarrow> input_binding list \<Rightarrow> input_assembler option" where
  "make_input_assembler channels frames bindings =
     (if channels = 0 \<or> frames = 0 then None
      else map_option (\<lambda>bs. \<lparr>ia_graph_channels = channels, ia_frames_per_block = frames, ia_bindings = bs\<rparr>)
        (assemble_bindings channels frames (replicate channels False) bindings))"

definition binding_copy :: "owned_binding \<Rightarrow> audio_buffer \<Rightarrow> audio_buffer \<Rightarrow> audio_buffer" where
  "binding_copy b scratch destination =
     fold (\<lambda>c. ab_put_channel (ab_channel scratch c) (ob_first_channel b + c)) [0..<ab_channels scratch] destination"

fun assembler_loop ::
  "(audio_buffer \<Rightarrow> 's \<Rightarrow> bool \<times> audio_buffer \<times> 's) \<Rightarrow> owned_binding list \<Rightarrow> audio_buffer \<Rightarrow> 's list \<Rightarrow>
     bool \<times> owned_binding list \<times> audio_buffer \<times> 's list" where
  "assembler_loop source [] destination ss = (False, [], destination, ss)"
| "assembler_loop source (b # bs) destination ss =
     (case source (ab_clear (ob_scratch b)) (ss ! ob_source b) of
        (ok, scratch, s) \<Rightarrow>
          case assembler_loop source bs (if ok then binding_copy b scratch destination else destination)
              (ss[ob_source b := s]) of
            (any, bs', destination', ss') \<Rightarrow> (ok \<or> any, b\<lparr>ob_scratch := scratch\<rparr> # bs', destination', ss'))"

definition assembler_read ::
  "(audio_buffer \<Rightarrow> 's \<Rightarrow> bool \<times> audio_buffer \<times> 's) \<Rightarrow> audio_buffer \<Rightarrow> input_assembler \<Rightarrow> 's list \<Rightarrow>
     bool \<times> audio_buffer \<times> input_assembler \<times> 's list" where
  "assembler_read source destination a ss =
     (let silent = ab_clear destination
      in if ab_channels destination \<noteq> ia_graph_channels a \<or> ab_frames destination \<noteq> ia_frames_per_block a
         then (False, silent, a, ss)
         else case assembler_loop source (ia_bindings a) silent ss of
           (any, bs, out, ss') \<Rightarrow> (any, out, a\<lparr>ia_bindings := bs\<rparr>, ss'))"

section \<open>An endpoint queue is a stream of its slice\<close>

datatype endpoint_op = Publish audio_buffer | Listen audio_buffer

fun endpoint_step :: "endpoint_op \<Rightarrow> endpoint_queue \<Rightarrow> endpoint_queue" where
  "endpoint_step (Publish source) q = snd (endpoint_publish source q)"
| "endpoint_step (Listen destination) q = snd (snd (endpoint_read destination q))"

fun endpoint_hears :: "nat \<Rightarrow> endpoint_op \<Rightarrow> endpoint_queue \<Rightarrow> f32 list" where
  "endpoint_hears c (Publish source) q = []"
| "endpoint_hears c (Listen destination) q =
     (let r = endpoint_read destination q in if fst r then ab_channel (fst (snd r)) c else [])"

text \<open>The part of a graph block an endpoint takes: nothing when the block or the queue does not fit.\<close>

definition endpoint_accepts :: "endpoint_queue \<Rightarrow> audio_buffer \<Rightarrow> bool" where
  "endpoint_accepts q source \<longleftrightarrow> \<not> slice_refuses (eq_publisher q) source \<and> \<not> bk_full (csl_ring (cb_slots (eq_queue q) ! 0))"

fun endpoint_takes :: "nat \<Rightarrow> endpoint_op \<Rightarrow> endpoint_queue \<Rightarrow> f32 list" where
  "endpoint_takes c (Publish source) q =
     (if endpoint_accepts q source then ab_channel source (sl_first_channel (eq_publisher q) + c) else [])"
| "endpoint_takes c (Listen destination) q = []"

definition eq_inv :: "endpoint_queue \<Rightarrow> bool" where
  "eq_inv q \<longleftrightarrow> cb_inv (eq_queue q) \<and> length (cb_slots (eq_queue q)) = 1 \<and> cc_attached (eq_consumer q) \<and>
     cc_slot (eq_consumer q) = 0 \<and> cb_live (eq_queue q) 0 (cc_generation (eq_consumer q)) \<and>
     block_shape (cb_channels (eq_queue q)) (cb_producer_frames (eq_queue q)) (sl_scratch (eq_publisher q))"

abbreviation eq_rest :: "endpoint_queue \<Rightarrow> nat \<Rightarrow> f32 list" where
  "eq_rest q c \<equiv> cb_stream (eq_queue q) 0 c"

fun endpoint_op_wf :: "endpoint_op \<Rightarrow> bool" where
  "endpoint_op_wf (Publish b) = ab_wf b"
| "endpoint_op_wf (Listen b) = ab_wf b"

lemma capture_read_length: "length (cb_slots (snd (snd (capture_read i g destination b)))) = length (cb_slots b)"
  by (simp add: capture_read_def Let_def split: prod.splits)

lemma capture_read_frames:
  "cb_producer_frames (snd (snd (capture_read i g destination b))) = cb_producer_frames b"
  by (simp add: capture_read_def Let_def split: prod.splits)

lemma make_endpoint_queue_inv:
  assumes "make_endpoint_queue first channels frames capacity = Some q" "8192 + frames * capacity < 2 ^ 64"
  shows "eq_inv q \<and> cb_channels (eq_queue q) = channels \<and> cb_producer_frames (eq_queue q) = frames \<and>
    sl_first_channel (eq_publisher q) = first \<and> eq_rest q c = []"
proof -
  obtain b where b: "make_capture_bus channels frames 1 capacity = Some b"
    using assms(1) by (auto simp: make_endpoint_queue_def split: option.splits)
  obtain publisher where p: "make_slice_sink first channels frames = Some publisher"
    using assms(1) b by (auto simp: make_endpoint_queue_def split: option.splits prod.splits)
  note bus = make_capture_bus_inv [OF b assms(2)]
  obtain s where s: "cb_slots b = [s]" "csl_state s = SlotIdle"
    using bus(2,3) by (cases "cb_slots b") auto
  then obtain b' where att: "capture_attach b = (Some (0, cb_next_generation b), b')" "length (cb_slots b') = 1"
    by (auto simp: capture_attach_def Let_def)
  have b': "cb_inv b'" "cb_channels b' = channels" "cb_producer_frames b' = frames" "cb_live b' 0 (cb_next_generation b)"
    "cb_stream b' 0 c = []"
    using capture_attach_step(1-3) [OF bus(1)] capture_attach_step(5) [OF bus(1), of 0 "cb_next_generation b" c]
      bus(5) b att(1) by (auto simp: make_capture_bus_def split: if_splits)
  have "q = \<lparr>eq_queue = b', eq_consumer = \<lparr>cc_attached = True, cc_slot = 0, cc_generation = cb_next_generation b\<rparr>,
      eq_publisher = publisher\<rparr>"
    using assms(1) b p att(1) by (simp add: make_endpoint_queue_def bus_attach_def)
  moreover have "block_shape channels frames (sl_scratch publisher) \<and> sl_first_channel publisher = first"
    using p by (auto simp: make_slice_sink_def block_shape_def make_audio_buffer_def ab_wf_def split: option.splits if_splits)
  ultimately show ?thesis using b' att(2) by (simp add: eq_inv_def)
qed

lemma endpoint_publish_step:
  assumes inv: "eq_inv q" and src: "ab_wf source" and c: "c < cb_channels (eq_queue q)"
  defines "q' \<equiv> snd (endpoint_publish source q)"
  shows "eq_inv q' \<and> cb_channels (eq_queue q') = cb_channels (eq_queue q) \<and>
    sl_first_channel (eq_publisher q') = sl_first_channel (eq_publisher q) \<and>
    eq_rest q' c = eq_rest q c @ endpoint_takes c (Publish source) q \<and>
    fst (endpoint_publish source q) = endpoint_accepts q source"
proof (cases "slice_refuses (eq_publisher q) source")
  case True
  then show ?thesis using inv
    by (simp add: q'_def endpoint_publish_def slice_write_def endpoint_accepts_def eq_inv_def)
next
  case False
  let ?s = "eq_publisher q" and ?b = "eq_queue q"
  let ?copy = "slice_copy ?s source"
  have scratch: "ab_wf (sl_scratch ?s)" "ab_channels (sl_scratch ?s) = cb_channels ?b"
    "ab_frames (sl_scratch ?s) = cb_producer_frames ?b" using inv by (simp_all add: eq_inv_def block_shape_def)
  have fit: "sl_first_channel ?s + cb_channels ?b \<le> ab_channels source" "ab_frames source = cb_producer_frames ?b"
    using False scratch by (simp_all add: slice_refuses_def)
  have copy: "block_shape (cb_channels ?b) (cb_producer_frames ?b) ?copy"
    "ab_channel ?copy c = ab_channel source (sl_first_channel ?s + c)"
    using ab_put_whole_channels [OF scratch(1), of 0 "cb_channels ?b" "\<lambda>c. ab_channel source (sl_first_channel ?s + c)"]
      scratch(2,3) fit src c by (simp_all add: slice_copy_def block_shape_def)
  have wf: "ab_wf ?copy" using copy(1) by (simp add: block_shape_def)
  note w = capture_write_stream [OF _ wf, of ?b]
  have inv': "cb_inv ?b" "length (cb_slots ?b) = 1" "csl_state (cb_slots ?b ! 0) = SlotActive"
    using inv by (simp_all add: eq_inv_def cb_live_def)
  have acc: "cb_accepts ?b 0 ?copy = endpoint_accepts q source"
    using copy(1) inv'(3) False by (simp add: cb_accepts_def endpoint_accepts_def block_shape_def)
  obtain ok b' where written: "capture_write ?copy ?b = (ok, b')" by (cases "capture_write ?copy ?b")
  define s' where "s' = (let s1 = ?s\<lparr>sl_scratch := ?copy, sl_published_blocks := sl_published_blocks ?s + 1\<rparr>
    in if ok then s1 else s1\<lparr>sl_downstream_failures := sl_downstream_failures ?s + 1\<rparr>)"
  have run: "endpoint_publish source q =
      (fst (capture_write ?copy ?b), q\<lparr>eq_publisher := s', eq_queue := snd (capture_write ?copy ?b)\<rparr>)"
    using False written by (cases ok) (simp_all add: s'_def endpoint_publish_def slice_write_def Let_def)
  have s': "sl_scratch s' = ?copy" "sl_first_channel s' = sl_first_channel ?s"
    by (simp_all add: s'_def Let_def)
  have "cb_stream (snd (capture_write ?copy ?b)) 0 c = eq_rest q c @ endpoint_takes c (Publish source) q"
    using capture_write_stream(3) [OF inv'(1) wf, of 0 c] inv'(2) acc copy(2) by simp
  moreover have "fst (capture_write ?copy ?b) = endpoint_accepts q source"
    using capture_write_stream(7) [OF inv'(1) wf] inv'(2) acc by simp
  ultimately show ?thesis
    using run s' inv copy(1) capture_write_stream(1,2,4-6) [OF inv'(1) wf]
    by (simp add: q'_def eq_inv_def)
qed

lemma endpoint_read_step:
  assumes inv: "eq_inv q" and dst: "ab_wf destination" and c: "c < cb_channels (eq_queue q)"
  defines "q' \<equiv> snd (snd (endpoint_read destination q))"
  shows "eq_inv q' \<and> cb_channels (eq_queue q') = cb_channels (eq_queue q) \<and> eq_publisher q' = eq_publisher q \<and>
    endpoint_hears c (Listen destination) q @ eq_rest q' c = eq_rest q c"
proof -
  let ?b = "eq_queue q" and ?g = "cc_generation (eq_consumer q)"
  have i: "cb_inv ?b" "cb_live ?b 0 ?g" "length (cb_slots ?b) = 1" "cc_attached (eq_consumer q)" "cc_slot (eq_consumer q) = 0"
    using inv by (simp_all add: eq_inv_def)
  have run: "endpoint_read destination q = (fst (capture_read 0 ?g destination ?b), fst (snd (capture_read 0 ?g destination ?b)),
      q\<lparr>eq_queue := snd (snd (capture_read 0 ?g destination ?b))\<rparr>)"
    using i(4,5) by (simp add: endpoint_read_def consumer_read_def case_prod_beta)
  note r = capture_read_step [OF i(1) dst i(2) c, of 0 ?g]
  have "length (cb_slots (snd (snd (capture_read 0 ?g destination ?b)))) = 1"
    using i(3) by (simp add: capture_read_length)
  then have "eq_inv q' \<and> cb_channels (eq_queue q') = cb_channels ?b \<and> eq_publisher q' = eq_publisher q"
    using r inv capture_read_frames [of 0 ?g destination ?b] by (simp add: q'_def run eq_inv_def)
  moreover have "endpoint_hears c (Listen destination) q @ eq_rest q' c = eq_rest q c"
    using r by (cases "fst (capture_read 0 ?g destination ?b)") (simp_all add: q'_def run Let_def)
  ultimately show ?thesis by simp
qed

lemma endpoint_read_delivers:
  assumes inv: "eq_inv q" and dst: "block_shape (cb_channels (eq_queue q)) f destination" "0 < f" "f \<le> 8192"
    and c: "c < cb_channels (eq_queue q)" and enough: "f \<le> length (eq_rest q c)"
  shows "fst (endpoint_read destination q)" "ab_channel (fst (snd (endpoint_read destination q))) c = take f (eq_rest q c)"
proof -
  let ?b = "eq_queue q" and ?g = "cc_generation (eq_consumer q)"
  have i: "cb_inv ?b" "cb_live ?b 0 ?g" "cc_attached (eq_consumer q)" "cc_slot (eq_consumer q) = 0"
    using inv by (simp_all add: eq_inv_def)
  have d: "ab_wf destination" "ab_channels destination = cb_channels ?b" "0 < ab_frames destination"
    "ab_frames destination \<le> unat kVirtualAsioMaxFramesPerBlock" "ab_frames destination = f"
    using dst by (simp_all add: block_shape_def kVirtualAsioMaxFramesPerBlock_def)
  obtain ok out s k where r: "capture_read 0 ?g destination ?b = (ok, out, ?b\<lparr>cb_slots := (cb_slots ?b)[0 := s], cb_counters := k\<rparr>)"
    "ok = (ab_frames destination \<le> capture_available_frames 0 ?g ?b)"
    "\<forall>c < cb_channels ?b. ab_channel out c =
      (if ok then take (ab_frames destination) (cb_stream ?b 0 c) else replicate (ab_frames destination) 0)"
    by (rule read_slot [OF i(1,2) d(1-4)]) blast
  have "ok" using r(2) available_frames_length [OF i(1,2) c] enough d(5) by simp
  with r c d(5) show "fst (endpoint_read destination q)"
    "ab_channel (fst (snd (endpoint_read destination q))) c = take f (eq_rest q c)"
    by (simp_all add: endpoint_read_def consumer_read_def i(3,4))
qed

primrec endpoint_run :: "endpoint_op list \<Rightarrow> endpoint_queue \<Rightarrow> endpoint_queue" where
  "endpoint_run [] q = q"
| "endpoint_run (op # ops) q = endpoint_run ops (endpoint_step op q)"

primrec endpoint_heard :: "nat \<Rightarrow> endpoint_op list \<Rightarrow> endpoint_queue \<Rightarrow> f32 list" where
  "endpoint_heard c [] q = []"
| "endpoint_heard c (op # ops) q = endpoint_hears c op q @ endpoint_heard c ops (endpoint_step op q)"

primrec endpoint_taken :: "nat \<Rightarrow> endpoint_op list \<Rightarrow> endpoint_queue \<Rightarrow> f32 list" where
  "endpoint_taken c [] q = []"
| "endpoint_taken c (op # ops) q = endpoint_takes c op q @ endpoint_taken c ops (endpoint_step op q)"

lemma endpoint_step_stream:
  assumes "eq_inv q" "c < cb_channels (eq_queue q)" "endpoint_op_wf op"
  shows "eq_inv (endpoint_step op q) \<and> cb_channels (eq_queue (endpoint_step op q)) = cb_channels (eq_queue q) \<and>
    endpoint_hears c op q @ eq_rest (endpoint_step op q) c = eq_rest q c @ endpoint_takes c op q"
proof (cases op)
  case (Publish source)
  then show ?thesis using endpoint_publish_step [OF assms(1) _ assms(2), of source] assms(3) by simp
next
  case (Listen destination)
  then show ?thesis using endpoint_read_step [OF assms(1) _ assms(2), of destination] assms(3) by simp
qed

lemma endpoint_run_stream:
  assumes "eq_inv q" "c < cb_channels (eq_queue q)" "\<forall>op \<in> set ops. endpoint_op_wf op"
  shows "endpoint_heard c ops q @ eq_rest (endpoint_run ops q) c = eq_rest q c @ endpoint_taken c ops q"
  using assms
proof (induction ops arbitrary: q)
  case (Cons op ops)
  have wf: "endpoint_op_wf op" "\<forall>op \<in> set ops. endpoint_op_wf op" using Cons.prems(3) by simp_all
  note step = endpoint_step_stream [OF Cons.prems(1,2) wf(1)]
  have "endpoint_heard c ops (endpoint_step op q) @ eq_rest (endpoint_run ops (endpoint_step op q)) c =
      eq_rest (endpoint_step op q) c @ endpoint_taken c ops (endpoint_step op q)"
    using Cons.IH [of "endpoint_step op q"] Cons.prems(2) step wf(2) by simp
  then show ?case using step by (simp flip: append_assoc) (simp add: append_assoc)
qed simp

section \<open>The fan-out to endpoint queues\<close>

datatype graph_op = GraphBlock audio_buffer | EndpointReads nat audio_buffer

fun graph_step :: "graph_op \<Rightarrow> fanout_sink \<times> endpoint_queue list \<Rightarrow> fanout_sink \<times> endpoint_queue list" where
  "graph_step (GraphBlock source) (f, qs) = snd (fanout_write endpoint_publish source f qs)"
| "graph_step (EndpointReads p destination) (f, qs) = (f, qs[p := snd (snd (endpoint_read destination (qs ! p)))])"

primrec graph_run :: "graph_op list \<Rightarrow> fanout_sink \<times> endpoint_queue list \<Rightarrow> fanout_sink \<times> endpoint_queue list" where
  "graph_run [] s = s"
| "graph_run (op # ops) s = graph_run ops (graph_step op s)"

text \<open>The operations as one endpoint sees them.\<close>

fun endpoint_view :: "nat \<Rightarrow> graph_op \<Rightarrow> endpoint_op list" where
  "endpoint_view p (GraphBlock source) = [Publish source]"
| "endpoint_view p (EndpointReads p' destination) = (if p' = p then [Listen destination] else [])"

definition endpoint_views :: "nat \<Rightarrow> graph_op list \<Rightarrow> endpoint_op list" where
  "endpoint_views p ops = concat (map (endpoint_view p) ops)"

fun graph_op_wf :: "graph_op \<Rightarrow> bool" where
  "graph_op_wf (GraphBlock b) = ab_wf b"
| "graph_op_wf (EndpointReads p b) = ab_wf b"

lemma fanout_unique_Some:
  "fanout_unique seen ps = Some ids \<Longrightarrow> map Some ids = ps \<and> distinct ids \<and> set ids \<inter> set seen = {}"
  by (induction seen ps arbitrary: ids rule: fanout_unique.induct) (auto split: if_splits)

text \<open>Every sink of the list is written once, whatever the others do.\<close>

lemma fanout_loop_each:
  assumes "distinct ps" "\<forall>p \<in> set ps. p < length ks" "p < length ks"
  shows "length (snd (fanout_loop sink source ps n ks)) = length ks \<and>
    snd (fanout_loop sink source ps n ks) ! p = (if p \<in> set ps then snd (sink source (ks ! p)) else ks ! p)"
  using assms
proof (induction ps arbitrary: n ks)
  case (Cons a ps)
  then show ?case by (simp add: case_prod_beta) (auto simp: nth_list_update)
qed simp

lemma fanout_write_each:
  assumes "distinct (fo_sinks f)" "\<forall>p \<in> set (fo_sinks f). p < length ks" "p \<in> set (fo_sinks f)"
  shows "snd (snd (fanout_write sink source f ks)) ! p = snd (sink source (ks ! p))"
    "length (snd (snd (fanout_write sink source f ks))) = length ks"
    "fo_sinks (fst (snd (fanout_write sink source f ks))) = fo_sinks f"
  using fanout_loop_each [OF assms(1,2), of p sink source 0] assms(2,3)
  by (auto simp: fanout_write_def case_prod_beta Let_def)

lemma graph_run_project:
  assumes "distinct (fo_sinks f)" "\<forall>p \<in> set (fo_sinks f). p < length qs" "p \<in> set (fo_sinks f)"
  shows "snd (graph_run ops (f, qs)) ! p = endpoint_run (endpoint_views p ops) (qs ! p)"
  using assms
proof (induction ops arbitrary: f qs)
  case (Cons op ops)
  show ?case
  proof (cases op)
    case (GraphBlock source)
    note w = fanout_write_each [OF Cons.prems, of endpoint_publish source]
    obtain f' qs' where s: "graph_step op (f, qs) = (f', qs')" by (cases "graph_step op (f, qs)")
    then have "fo_sinks f' = fo_sinks f" "length qs' = length qs" "qs' ! p = snd (endpoint_publish source (qs ! p))"
      using w GraphBlock by simp_all
    with s Cons.IH [of f' qs'] Cons.prems show ?thesis by (simp add: GraphBlock endpoint_views_def)
  next
    case (EndpointReads p' destination)
    have "p < length qs" using Cons.prems by blast
    with Cons.IH [of f "qs[p' := snd (snd (endpoint_read destination (qs ! p')))]"] Cons.prems
    show ?thesis by (auto simp: EndpointReads endpoint_views_def nth_list_update)
  qed
qed (simp add: endpoint_views_def)

lemma endpoint_views_wf: "\<forall>op \<in> set ops. graph_op_wf op \<Longrightarrow> \<forall>op \<in> set (endpoint_views p ops). endpoint_op_wf op"
  by (induction ops) (auto simp: endpoint_views_def elim!: graph_op_wf.elims split: if_splits)

section \<open>What the table of the assembler admits\<close>

definition binding_range :: "owned_binding \<Rightarrow> nat set" where
  "binding_range b = {ob_first_channel b..<ob_first_channel b + ab_channels (ob_scratch b)}"

lemma occupy_Some:
  "occupy is occupied = Some occupied' \<Longrightarrow> \<forall>i \<in> set is. i < length occupied \<Longrightarrow>
     length occupied' = length occupied \<and> (\<forall>i \<in> set is. \<not> occupied ! i) \<and>
     (\<forall>j < length occupied. occupied' ! j = (occupied ! j \<or> j \<in> set is))"
proof (induction "is" arbitrary: occupied)
  case (Cons i "is")
  then have free: "\<not> occupied ! i" "occupy is (occupied[i := True]) = Some occupied'" "i < length occupied"
    by (simp_all split: if_splits)
  have IH: "length occupied' = length occupied" "\<forall>j \<in> set is. \<not> occupied[i := True] ! j"
    "\<forall>j < length occupied. occupied' ! j = (occupied[i := True] ! j \<or> j \<in> set is)"
    using Cons.IH [OF free(2)] Cons.prems(2) by simp_all
  have "\<not> occupied ! j" if "j \<in> set is" for j using IH(2) that free(3) by (cases "j = i") auto
  with IH free show ?case by (auto simp: nth_list_update)
qed simp

lemma assemble_bindings_Some:
  "assemble_bindings channels frames occupied bs = Some obs \<Longrightarrow> length occupied = channels \<Longrightarrow>
     (\<forall>b \<in> set obs. ab_wf (ob_scratch b) \<and> ab_frames (ob_scratch b) = frames \<and> 0 < ab_channels (ob_scratch b) \<and>
        ob_first_channel b + ab_channels (ob_scratch b) \<le> channels \<and> (\<forall>d \<in> binding_range b. \<not> occupied ! d)) \<and>
     pairwise (\<lambda>b b'. disjnt (binding_range b) (binding_range b')) (set obs) \<and> distinct obs"
proof (induction bs arbitrary: occupied obs)
  case (Cons b bs)
  let ?range = "[ib_first_channel b..<ib_first_channel b + ib_channel_count b]"
  obtain source occupied' scratch rest where r: "ib_source b = Some source"
    "ib_channel_count b \<noteq> 0" "ib_first_channel b \<le> channels" "ib_channel_count b \<le> channels - ib_first_channel b"
    "occupy ?range occupied = Some occupied'" "make_audio_buffer (ib_channel_count b) frames = Some scratch"
    "assemble_bindings channels frames occupied' bs = Some rest"
    "obs = \<lparr>ob_source = source, ob_first_channel = ib_first_channel b, ob_scratch = scratch\<rparr> # rest"
    using Cons.prems(1) by (auto split: option.splits if_splits)
  let ?b = "\<lparr>ob_source = source, ob_first_channel = ib_first_channel b, ob_scratch = scratch\<rparr>"
  have scratch: "ab_wf scratch" "ab_frames scratch = frames" "ab_channels scratch = ib_channel_count b"
    using r(6) by (auto simp: make_audio_buffer_def ab_wf_def split: if_splits)
  have fit: "ib_first_channel b + ib_channel_count b \<le> channels" using r(3,4) by simp
  then have "\<forall>i \<in> set ?range. i < length occupied" using Cons.prems(2) by auto
  note occ = occupy_Some [OF r(5) this]
  have range: "binding_range ?b = set ?range" by (simp add: binding_range_def scratch)
  have "length occupied' = channels" using occ Cons.prems(2) by simp
  note IH = Cons.IH [OF r(7) this]
  have taken: "\<not> occupied ! d \<and> d \<notin> set ?range" if "b' \<in> set rest" "d \<in> binding_range b'" for b' d
  proof -
    have "\<not> occupied' ! d" "d < channels" using IH that by (fastforce simp: binding_range_def)+
    then show ?thesis using occ Cons.prems(2) by auto
  qed
  have apart: "disjnt (binding_range ?b) (binding_range b')" "disjnt (binding_range b') (binding_range ?b)"
    if "b' \<in> set rest" for b' using taken [OF that] unfolding range disjnt_def by blast+
  have "?b \<notin> set rest"
  proof
    assume "?b \<in> set rest"
    moreover have "ib_first_channel b \<in> binding_range ?b" using r(2) range by simp
    ultimately show False using taken range by blast
  qed
  moreover have "pairwise (\<lambda>b b'. disjnt (binding_range b) (binding_range b')) (insert ?b (set rest))"
    using IH apart by (simp add: pairwise_insert)
  moreover have "\<forall>d \<in> binding_range ?b. \<not> occupied ! d" using occ unfolding range by blast
  moreover have "\<forall>b' \<in> set rest. \<forall>d \<in> binding_range b'. \<not> occupied ! d" using taken by blast
  ultimately show ?case using IH scratch fit r(2) by (simp add: r(8))
qed simp

section \<open>Properties\<close>

text \<open>
  C17: The graph output reaches every endpoint of a fan-out as its slice: for every run of graph blocks
  and endpoint reads, in any order and at any block sizes, what an endpoint has heard on a channel followed by
  what it can still read is that channel of its slice of the graph blocks it took, in order. It takes
  exactly the blocks that have its channels, the block size and room in its queue, whatever the other
  endpoints do.
\<close>

theorem fanout_endpoints_hear_slices:
  assumes "make_fanout pointers = Some f" "Some p \<in> set pointers" "\<forall>p \<in> set (fo_sinks f). p < length qs"
    and "make_endpoint_queue first channels frames capacity = Some (qs ! p)" "8192 + frames * capacity < 2 ^ 64"
    and "\<forall>op \<in> set ops. graph_op_wf op" "c < channels"
  shows "endpoint_heard c (endpoint_views p ops) (qs ! p) @ eq_rest (snd (graph_run ops (f, qs)) ! p) c =
    endpoint_taken c (endpoint_views p ops) (qs ! p)"
proof -
  have ids: "map Some (fo_sinks f) = pointers" "distinct (fo_sinks f)"
    using assms(1) fanout_unique_Some by (auto simp: make_fanout_def)
  then have "p \<in> set (fo_sinks f)" using assms(2) by auto
  note project = graph_run_project [OF ids(2) assms(3) this, of ops]
  have q: "eq_inv (qs ! p)" "c < cb_channels (eq_queue (qs ! p))" "eq_rest (qs ! p) c = []"
    using make_endpoint_queue_inv [OF assms(4,5), of c] assms(7) by simp_all
  show ?thesis
    unfolding project using endpoint_run_stream [OF q(1,2) endpoint_views_wf [OF assms(6)]] q(3) by simp
qed

definition demo_graph_block :: audio_buffer where
  "demo_graph_block = \<lparr>ab_channels = 2, ab_frames = 2, ab_samples = [1, 2, 3, 4]\<rparr>"

lemma demo_endpoint_queue:
  "\<exists>q fifo. make_endpoint_queue 1 1 2 1 = Some q \<and> eq_queue q = demo_attached fifo \<and>
     eq_publisher q = \<lparr>sl_first_channel = 1, sl_scratch = demo_block2 0 0, sl_published_blocks = 0,
       sl_rejected_blocks = 0, sl_downstream_failures = 0\<rparr>"
proof -
  obtain b0 fifo where "make_capture_bus 1 2 1 1 = Some b0" "capture_attach b0 = (Some (0, 1), demo_attached fifo)"
    using demo_capture_bus by blast
  moreover have "replicate 2 (0 :: f32) = [0, 0]" by (simp add: numeral_2_eq_2)
  then have "make_slice_sink 1 1 2 = Some \<lparr>sl_first_channel = 1, sl_scratch = demo_block2 0 0, sl_published_blocks = 0,
       sl_rejected_blocks = 0, sl_downstream_failures = 0\<rparr>"
    by (simp add: make_slice_sink_def make_audio_buffer_def demo_block2_def)
  ultimately show ?thesis by (simp add: make_endpoint_queue_def bus_attach_def) blast
qed

theorem fanout_endpoints_hear_slices_witness:
  "\<exists>f q. make_fanout [Some 0, Some 1] = Some f \<and>
     endpoint_heard 0 (endpoint_views 1 [GraphBlock demo_graph_block, EndpointReads 1 demo_block]) q @
     eq_rest (snd (graph_run [GraphBlock demo_graph_block, EndpointReads 1 demo_block] (f, [q, q])) ! 1) 0 = [3, 4]"
proof -
  obtain q fifo where q: "make_endpoint_queue 1 1 2 1 = Some q" "eq_queue q = demo_attached fifo"
    "eq_publisher q = \<lparr>sl_first_channel = 1, sl_scratch = demo_block2 0 0, sl_published_blocks = 0,
       sl_rejected_blocks = 0, sl_downstream_failures = 0\<rparr>" using demo_endpoint_queue by (elim exE conjE)
  define f where "f = \<lparr>fo_sinks = [0, 1], fo_published_blocks = 0, fo_partial_blocks = 0, fo_failed_sink_writes = 0\<rparr>"
  have f: "make_fanout [Some 0, Some 1] = Some f" "fo_sinks f = [0, 1]" by (simp_all add: make_fanout_def f_def)
  let ?ops = "[GraphBlock demo_graph_block, EndpointReads 1 demo_block]"
  have wf: "\<forall>op \<in> set ?ops. graph_op_wf op" by (simp add: ab_wf_def demo_graph_block_def demo_block_def)
  have "Some 1 \<in> set [Some (0 :: nat), Some 1]" "\<forall>p \<in> set (fo_sinks f). p < length [q, q]"
    "make_endpoint_queue 1 1 2 1 = Some ([q, q] ! 1)" "8192 + 2 * 1 < (2 :: nat) ^ 64" "0 < (1 :: nat)"
    using q f by simp_all
  note heard = fanout_endpoints_hear_slices [OF f(1) this(1-4) wf this(5)]
  have "endpoint_taken 0 (endpoint_views 1 ?ops) q = [3, 4]"
    using q by (simp add: endpoint_views_def endpoint_accepts_def slice_refuses_def demo_graph_block_def demo_block2_def
        demo_attached_def bk_full_def bk_increment_def ab_channel_def)
  with heard f(1) show ?thesis by (intro exI [of _ f] exI [of _ q]) simp
qed

section \<open>The graph input\<close>

text \<open>What the bindings read, in the order of the table.\<close>

fun binding_reads ::
  "(audio_buffer \<Rightarrow> 's \<Rightarrow> bool \<times> audio_buffer \<times> 's) \<Rightarrow> owned_binding list \<Rightarrow> 's list \<Rightarrow> (bool \<times> audio_buffer) list" where
  "binding_reads source [] ss = []"
| "binding_reads source (b # bs) ss =
     (case source (ab_clear (ob_scratch b)) (ss ! ob_source b) of
        (ok, scratch, s) \<Rightarrow> (ok, scratch) # binding_reads source bs (ss[ob_source b := s]))"

text \<open>The contract of a source: it keeps the shape of the block it is given.\<close>

locale audio_source =
  fixes read :: "audio_buffer \<Rightarrow> 's \<Rightarrow> bool \<times> audio_buffer \<times> 's" and ready :: "'s \<Rightarrow> bool"
  assumes read_shape: "ready s \<Longrightarrow> block_shape c f b \<Longrightarrow> block_shape c f (fst (snd (read b s)))"
    and read_ready: "ready s \<Longrightarrow> ab_wf b \<Longrightarrow> ready (snd (snd (read b s)))"
begin

lemma assembler_loop_step:
  assumes "ready (ss ! ob_source b)" "ab_wf (ob_scratch b)" "block_shape channels (ab_frames (ob_scratch b)) destination"
    and "ob_first_channel b + ab_channels (ob_scratch b) \<le> channels"
    and "read (ab_clear (ob_scratch b)) (ss ! ob_source b) = (ok, scratch, s)"
  shows "ready s" "block_shape channels (ab_frames (ob_scratch b)) (binding_copy b scratch destination)"
    and "d < channels \<Longrightarrow> ab_channel (binding_copy b scratch destination) d =
      (if d \<in> binding_range b then ab_channel scratch (d - ob_first_channel b) else ab_channel destination d)"
proof -
  have "block_shape (ab_channels (ob_scratch b)) (ab_frames (ob_scratch b)) (ab_clear (ob_scratch b))"
    using assms(2) by (simp add: block_shape_def)
  from read_shape [OF assms(1) this] have scratch: "ab_wf scratch" "ab_channels scratch = ab_channels (ob_scratch b)"
    "ab_frames scratch = ab_frames (ob_scratch b)" by (simp_all add: assms(5) block_shape_def)
  have dst: "ab_wf destination" "ab_channels destination = channels" "ab_frames destination = ab_frames (ob_scratch b)"
    using assms(3) by (simp_all add: block_shape_def)
  show "ready s" using read_ready [OF assms(1), of "ab_clear (ob_scratch b)"] assms(2,5) by simp
  note put = ab_put_whole_channels [OF dst(1), of "ob_first_channel b" "ab_channels scratch" "ab_channel scratch"]
  show "block_shape channels (ab_frames (ob_scratch b)) (binding_copy b scratch destination)"
    using put scratch dst assms(4) by (simp add: binding_copy_def block_shape_def)
  show "d < channels \<Longrightarrow> ab_channel (binding_copy b scratch destination) d =
      (if d \<in> binding_range b then ab_channel scratch (d - ob_first_channel b) else ab_channel destination d)"
    using put scratch dst assms(4) by (simp add: binding_copy_def binding_range_def)
qed

text \<open>Each binding fills its own channels; a binding whose source gave nothing leaves them as they were.\<close>

lemma assembler_loop_channels:
  assumes "\<forall>s \<in> set ss. ready s" "\<forall>b \<in> set bs. ob_source b < length ss"
    and "\<forall>b \<in> set bs. ab_wf (ob_scratch b) \<and> ab_frames (ob_scratch b) = frames \<and>
      ob_first_channel b + ab_channels (ob_scratch b) \<le> channels"
    and "pairwise (\<lambda>b b'. disjnt (binding_range b) (binding_range b')) (set bs)" "distinct bs"
    and "block_shape channels frames destination"
  shows "fst (assembler_loop read bs destination ss) = (\<exists>k < length bs. fst (binding_reads read bs ss ! k)) \<and>
    block_shape channels frames (fst (snd (snd (assembler_loop read bs destination ss)))) \<and>
    (\<forall>k < length bs. \<forall>d \<in> binding_range (bs ! k).
      ab_channel (fst (snd (snd (assembler_loop read bs destination ss)))) d =
        (if fst (binding_reads read bs ss ! k)
         then ab_channel (snd (binding_reads read bs ss ! k)) (d - ob_first_channel (bs ! k))
         else ab_channel destination d)) \<and>
    (\<forall>d < channels. (\<forall>b \<in> set bs. d \<notin> binding_range b) \<longrightarrow>
      ab_channel (fst (snd (snd (assembler_loop read bs destination ss)))) d = ab_channel destination d)"
  using assms
proof (induction bs arbitrary: destination ss)
  case (Cons b bs)
  obtain ok scratch s where r: "read (ab_clear (ob_scratch b)) (ss ! ob_source b) = (ok, scratch, s)"
    by (cases "read (ab_clear (ob_scratch b)) (ss ! ob_source b)") auto
  let ?dst = "if ok then binding_copy b scratch destination else destination"
  let ?ss = "ss[ob_source b := s]"
  have b: "ready (ss ! ob_source b)" "ab_wf (ob_scratch b)" "ob_first_channel b + ab_channels (ob_scratch b) \<le> channels"
    "ab_frames (ob_scratch b) = frames" using Cons.prems(1-3) by simp_all
  note step = assembler_loop_step [OF b(1,2) _ b(3) r, unfolded b(4), OF Cons.prems(6)]
  have shape: "block_shape channels frames ?dst" using step(2) Cons.prems(6) by simp
  have ready: "\<forall>s \<in> set ?ss. ready s" using Cons.prems(1) step(1) by (auto dest!: set_update_subset_insert [THEN subsetD])
  have apart: "\<forall>b' \<in> set bs. disjnt (binding_range b) (binding_range b')"
    using Cons.prems(4,5) by (auto simp: pairwise_insert)
  have rest: "pairwise (\<lambda>b b'. disjnt (binding_range b) (binding_range b')) (set bs)" "distinct bs"
    "\<forall>b \<in> set bs. ob_source b < length ?ss"
    "\<forall>b \<in> set bs. ab_wf (ob_scratch b) \<and> ab_frames (ob_scratch b) = frames \<and>
      ob_first_channel b + ab_channels (ob_scratch b) \<le> channels"
    using Cons.prems(2-5) by (simp_all add: pairwise_insert)
  note IH = Cons.IH [OF ready rest(3,4,1,2) shape]
  have in_b: "d < channels" "\<forall>b' \<in> set bs. d \<notin> binding_range b'" if "d \<in> binding_range b" for d
    using that b(3) apart by (auto simp: binding_range_def disjnt_def)
  have run: "assembler_loop read (b # bs) destination ss = (ok \<or> fst (assembler_loop read bs ?dst ?ss),
      b\<lparr>ob_scratch := scratch\<rparr> # fst (snd (assembler_loop read bs ?dst ?ss)), snd (snd (assembler_loop read bs ?dst ?ss)))"
    "binding_reads read (b # bs) ss = (ok, scratch) # binding_reads read bs ?ss"
    by (simp_all add: r case_prod_beta)
  have head: "ab_channel (fst (snd (snd (assembler_loop read bs ?dst ?ss)))) d =
      (if ok then ab_channel scratch (d - ob_first_channel b) else ab_channel destination d)" if "d \<in> binding_range b" for d
    using IH in_b [OF that] step(3) that by simp
  have other: "ab_channel ?dst d = ab_channel destination d" if "d < channels" "d \<notin> binding_range b" for d
    using step(3) [OF that(1)] that(2) by simp
  have tail: "ab_channel (fst (snd (snd (assembler_loop read bs ?dst ?ss)))) d =
      (if fst (binding_reads read bs ?ss ! k)
       then ab_channel (snd (binding_reads read bs ?ss ! k)) (d - ob_first_channel (bs ! k))
       else ab_channel destination d)" if "k < length bs" "d \<in> binding_range (bs ! k)" for k d
  proof -
    have mem: "bs ! k \<in> set bs" using that(1) by simp
    then have "d \<notin> binding_range b" "d < channels"
      using apart rest(4) that(2) by (auto simp: disjnt_def binding_range_def)
    then show ?thesis using IH other that by simp
  qed
  have "fst (assembler_loop read (b # bs) destination ss) =
      (\<exists>k < length (b # bs). fst (binding_reads read (b # bs) ss ! k))"
    using IH unfolding run by (simp add: Ex_less_Suc2)
  moreover have "\<forall>k < length (b # bs). \<forall>d \<in> binding_range ((b # bs) ! k).
      ab_channel (fst (snd (snd (assembler_loop read (b # bs) destination ss)))) d =
        (if fst (binding_reads read (b # bs) ss ! k)
         then ab_channel (snd (binding_reads read (b # bs) ss ! k)) (d - ob_first_channel ((b # bs) ! k))
         else ab_channel destination d)"
    using head tail unfolding run by (simp add: All_less_Suc2)
  moreover have "\<forall>d < channels. (\<forall>b' \<in> set (b # bs). d \<notin> binding_range b') \<longrightarrow>
      ab_channel (fst (snd (snd (assembler_loop read (b # bs) destination ss)))) d = ab_channel destination d"
    using IH other unfolding run by simp
  moreover have "block_shape channels frames (fst (snd (snd (assembler_loop read (b # bs) destination ss))))"
    using IH unfolding run by simp
  ultimately show ?case by (intro conjI)
qed simp

end

text \<open>An endpoint queue is such a source.\<close>

lemma capture_read_shape:
  assumes inv: "cb_inv b" and dst: "block_shape c f destination"
  shows "block_shape c f (fst (snd (capture_read i g destination b)))"
proof (cases "cb_live b i g \<and> ab_channels destination = cb_channels b \<and> 0 < ab_frames destination \<and>
     ab_frames destination \<le> unat kVirtualAsioMaxFramesPerBlock")
  case False
  then have "capture_read i g destination b =
      (False, ab_clear destination, b\<lparr>cb_counters := capture_underflow (cb_counters b)\<rparr>)"
    by (intro read_refused) auto
  then show ?thesis using dst by (simp add: block_shape_def)
next
  case True
  then have t: "cb_live b i g" "ab_channels destination = cb_channels b" "0 < ab_frames destination"
    "ab_frames destination \<le> unat kVirtualAsioMaxFramesPerBlock" by simp_all
  have wf: "ab_wf destination" using dst by (simp add: block_shape_def)
  obtain ok out s k where "capture_read i g destination b = (ok, out, b\<lparr>cb_slots := (cb_slots b)[i := s], cb_counters := k\<rparr>)"
    and "ab_wf out" "ab_channels out = cb_channels b" "ab_frames out = ab_frames destination"
    by (rule read_slot [OF inv t(1) wf t(2-4)]) blast
  then show ?thesis using dst t(2) by (simp add: block_shape_def)
qed

interpretation endpoint_source: audio_source endpoint_read eq_inv
proof
  fix q :: endpoint_queue and c f :: nat and b :: audio_buffer
  assume inv: "eq_inv q"
  have live: "cb_inv (eq_queue q)" "cc_attached (eq_consumer q)" "0 < cb_channels (eq_queue q)"
    using inv by (simp_all add: eq_inv_def cb_inv_def)
  show "block_shape c f (fst (snd (endpoint_read b q)))" if "block_shape c f b"
    using capture_read_shape [OF live(1) that] live(2) by (simp add: endpoint_read_def consumer_read_def case_prod_beta)
  show "eq_inv (snd (snd (endpoint_read b q)))" if "ab_wf b"
    using endpoint_read_step [OF inv that live(3)] by blast
qed

text \<open>
  The graph input of an assembler is what its sources deliver: every binding whose endpoint queue
  had a block fills exactly its own channels with it, all other channels are silence, and the read succeeds
  when any of them did. The table admits no two bindings for a channel.
\<close>

theorem assembled_input_channels:
  assumes "make_input_assembler channels frames bindings = Some a" "block_shape channels frames destination"
    and "\<forall>q \<in> set qs. eq_inv q" "\<forall>b \<in> set (ia_bindings a). ob_source b < length qs"
    and "assembler_read endpoint_read destination a qs = (any, out, a', qs')"
  defines "reads \<equiv> binding_reads endpoint_read (ia_bindings a) qs"
  shows "any = (\<exists>k < length (ia_bindings a). fst (reads ! k)) \<and> block_shape channels frames out \<and>
    (\<forall>k < length (ia_bindings a). \<forall>d \<in> binding_range (ia_bindings a ! k). d < channels \<and>
      ab_channel out d = (if fst (reads ! k)
        then ab_channel (snd (reads ! k)) (d - ob_first_channel (ia_bindings a ! k)) else replicate frames 0)) \<and>
    (\<forall>d < channels. (\<forall>b \<in> set (ia_bindings a). d \<notin> binding_range b) \<longrightarrow> ab_channel out d = replicate frames 0)"
proof -
  let ?bs = "ia_bindings a"
  have a: "assemble_bindings channels frames (replicate channels False) bindings = Some ?bs"
    "ia_graph_channels a = channels" "ia_frames_per_block a = frames"
    using assms(1) by (auto simp: make_input_assembler_def split: if_splits)
  note table = assemble_bindings_Some [OF a(1)]
  have dst: "ab_wf destination" "ab_channels destination = channels" "ab_frames destination = frames"
    using assms(2) by (simp_all add: block_shape_def)
  have silent: "block_shape channels frames (ab_clear destination)" using assms(2) by (simp add: block_shape_def)
  have silence: "ab_channel (ab_clear destination) d = replicate frames 0" if "d < channels" for d
    using ab_channel_clear [OF dst(1)] dst(2,3) that by simp
  have wf: "\<forall>b \<in> set ?bs. ab_wf (ob_scratch b) \<and> ab_frames (ob_scratch b) = frames \<and>
      ob_first_channel b + ab_channels (ob_scratch b) \<le> channels" using table by simp
  have "(any, out, a', qs') = (fst (assembler_loop endpoint_read ?bs (ab_clear destination) qs),
      fst (snd (snd (assembler_loop endpoint_read ?bs (ab_clear destination) qs))),
      a\<lparr>ia_bindings := fst (snd (assembler_loop endpoint_read ?bs (ab_clear destination) qs))\<rparr>,
      snd (snd (snd (assembler_loop endpoint_read ?bs (ab_clear destination) qs))))"
    unfolding assms(5) [symmetric] using a dst by (simp add: assembler_read_def Let_def case_prod_beta)
  then have run: "any = fst (assembler_loop endpoint_read ?bs (ab_clear destination) qs)"
    "out = fst (snd (snd (assembler_loop endpoint_read ?bs (ab_clear destination) qs)))" by simp_all
  have inside: "d < channels" if "k < length ?bs" "d \<in> binding_range (?bs ! k)" for k d
    using wf nth_mem [OF that(1)] that(2) by (fastforce simp: binding_range_def)
  have "pairwise (\<lambda>b b'. disjnt (binding_range b) (binding_range b')) (set ?bs)" "distinct ?bs" using table by simp_all
  note loop = endpoint_source.assembler_loop_channels [OF assms(3,4) wf this silent]
  show ?thesis
    unfolding run reads_def using loop inside silence by simp
qed

theorem assembled_input_channels_witness:
  "\<exists>a q any out a' qs'. make_input_assembler 2 2 [\<lparr>ib_source = Some 0, ib_first_channel = 1, ib_channel_count = 1\<rparr>] = Some a \<and>
     assembler_read endpoint_read demo_graph_block a [q] = (any, out, a', qs') \<and>
     any \<and> ab_channel out 0 = [0, 0] \<and> ab_channel out 1 = [3, 4]"
proof -
  obtain q0 fifo where q0: "make_endpoint_queue 1 1 2 1 = Some q0" "eq_queue q0 = demo_attached fifo"
    "eq_publisher q0 = \<lparr>sl_first_channel = 1, sl_scratch = demo_block2 0 0, sl_published_blocks = 0,
       sl_rejected_blocks = 0, sl_downstream_failures = 0\<rparr>" using demo_endpoint_queue by (elim exE conjE)
  have i0: "eq_inv q0" "cb_channels (eq_queue q0) = 1" "eq_rest q0 0 = []"
    using make_endpoint_queue_inv [OF q0(1), of 0] by simp_all
  have "endpoint_accepts q0 demo_graph_block"
    using q0 by (simp add: endpoint_accepts_def slice_refuses_def demo_graph_block_def demo_block2_def demo_attached_def
        bk_full_def bk_increment_def)
  moreover have wf: "ab_wf demo_graph_block" by (simp add: ab_wf_def demo_graph_block_def)
  define q where "q = snd (endpoint_publish demo_graph_block q0)"
  ultimately have q: "eq_inv q" "cb_channels (eq_queue q) = 1" "eq_rest q 0 = [3, 4]"
    using endpoint_publish_step [OF i0(1) wf, of 0] i0(2,3) q0(3)
    by (simp_all add: q_def) (simp add: demo_graph_block_def ab_channel_def)
  let ?z = "demo_block2 0 0"
  have z: "block_shape 1 2 ?z" "ab_clear ?z = ?z"
    by (simp_all add: block_shape_def ab_wf_def demo_block2_def ab_clear_def)
  define a where "a = \<lparr>ia_graph_channels = 2, ia_frames_per_block = 2,
      ia_bindings = [\<lparr>ob_source = 0, ob_first_channel = 1, ob_scratch = ?z\<rparr>]\<rparr>"
  have two: "replicate 2 (0 :: f32) = [0, 0]" "replicate 2 False = [False, False]" by (simp_all add: numeral_2_eq_2)
  have a: "make_input_assembler 2 2 [\<lparr>ib_source = Some 0, ib_first_channel = 1, ib_channel_count = 1\<rparr>] = Some a"
    by (simp add: make_input_assembler_def two make_audio_buffer_def demo_block2_def a_def)
  obtain any out a' qs' where r: "assembler_read endpoint_read demo_graph_block a [q] = (any, out, a', qs')"
    by (cases "assembler_read endpoint_read demo_graph_block a [q]") auto
  have shape: "block_shape 2 2 demo_graph_block" by (simp add: block_shape_def wf) (simp add: demo_graph_block_def)
  have "\<forall>q \<in> set [q]. eq_inv q" "\<forall>b \<in> set (ia_bindings a). ob_source b < length [q]" using q(1) by (simp_all add: a_def)
  note input = assembled_input_channels [OF a shape this r]
  have read: "fst (endpoint_read ?z q)" "ab_channel (fst (snd (endpoint_read ?z q))) 0 = [3, 4]"
    using endpoint_read_delivers [OF q(1), of 2 ?z 0] z(1) q(2,3) by simp_all
  then have reads: "binding_reads endpoint_read (ia_bindings a) [q] = [(True, fst (snd (endpoint_read ?z q)))]"
    by (simp add: a_def z(2) case_prod_beta)
  have range: "binding_range (ia_bindings a ! 0) = {1}" "length (ia_bindings a) = 1" "set (ia_bindings a) = {ia_bindings a ! 0}"
    "ob_first_channel (ia_bindings a ! 0) = 1"
    by (auto simp: a_def binding_range_def demo_block2_def)
  have "any \<and> ab_channel out 0 = [0, 0] \<and> ab_channel out 1 = [3, 4]"
    using input read(2) unfolding reads range by (simp add: range two)
  with a r show ?thesis by blast
qed

end
