(* ===== verification/RealtimeError.thy ===== *)
theory RealtimeError
  imports Prelude "HOL-Library.Sublist"
begin

text \<open>
  \<^verbatim>\<open>core/platform/wasapi_realtime_error.{h,cpp}\<close>: errors of the realtime thread as packed numbers, the
  batch that keeps the first of them and counts the rest, and the channel that publishes a batch to
  readers on other threads under a sequence number.
\<close>

section \<open>Codes\<close>

datatype realtime_code =
    Unclassified
  | StreamNotStarted
  | WrongStreamDirection
  | NativeStreamUnavailable
  | WasapiEventWaitFailed
  | WasapiPaddingFailed
  | WasapiRenderBufferFailed
  | WasapiRenderBufferReleaseFailed
  | WasapiCapturePacketFailed
  | CaptureBufferTooSmall
  | WasapiCaptureBufferFailed
  | WasapiCaptureBufferReleaseFailed
  | SampleChannelMismatch
  | SampleConversionFailed
  | GraphSampleRateMismatch
  | GraphBufferTooSmall
  | WasapiDuplexEventWaitFailed
  | RenderCommittedTooManyFrames
  | CaptureResamplerPrerollFailed
  | CaptureResamplerPrerollStalled
  | CaptureResamplerFailed
  | UnsupportedSampleFormat
  | SampleBufferTooSmall

fun code_number :: "realtime_code \<Rightarrow> u16" where
  "code_number Unclassified = 1"
| "code_number StreamNotStarted = 2"
| "code_number WrongStreamDirection = 3"
| "code_number NativeStreamUnavailable = 4"
| "code_number WasapiEventWaitFailed = 5"
| "code_number WasapiPaddingFailed = 6"
| "code_number WasapiRenderBufferFailed = 7"
| "code_number WasapiRenderBufferReleaseFailed = 8"
| "code_number WasapiCapturePacketFailed = 9"
| "code_number CaptureBufferTooSmall = 10"
| "code_number WasapiCaptureBufferFailed = 11"
| "code_number WasapiCaptureBufferReleaseFailed = 12"
| "code_number SampleChannelMismatch = 13"
| "code_number SampleConversionFailed = 14"
| "code_number GraphSampleRateMismatch = 15"
| "code_number GraphBufferTooSmall = 16"
| "code_number WasapiDuplexEventWaitFailed = 17"
| "code_number RenderCommittedTooManyFrames = 18"
| "code_number CaptureResamplerPrerollFailed = 19"
| "code_number CaptureResamplerPrerollStalled = 20"
| "code_number CaptureResamplerFailed = 21"
| "code_number UnsupportedSampleFormat = 22"
| "code_number SampleBufferTooSmall = 23"

definition code_values :: "realtime_code list" where
  "code_values =
    [Unclassified, StreamNotStarted, WrongStreamDirection, NativeStreamUnavailable,
     WasapiEventWaitFailed, WasapiPaddingFailed, WasapiRenderBufferFailed,
     WasapiRenderBufferReleaseFailed, WasapiCapturePacketFailed, CaptureBufferTooSmall,
     WasapiCaptureBufferFailed, WasapiCaptureBufferReleaseFailed, SampleChannelMismatch,
     SampleConversionFailed, GraphSampleRateMismatch, GraphBufferTooSmall,
     WasapiDuplexEventWaitFailed, RenderCommittedTooManyFrames, CaptureResamplerPrerollFailed,
     CaptureResamplerPrerollStalled, CaptureResamplerFailed, UnsupportedSampleFormat,
     SampleBufferTooSmall]"

definition realtime_error_overflow_code :: u16 where
  "realtime_error_overflow_code = 0xFFFF"

definition realtime_code_of :: "u16 \<Rightarrow> realtime_code option" where
  "realtime_code_of n = find (\<lambda>c. code_number c = n) code_values"

definition mapped_codes :: "(string \<times> realtime_code) list" where
  "mapped_codes =
    [(''stream_not_started'', StreamNotStarted),
     (''wrong_stream_direction'', WrongStreamDirection),
     (''native_stream_unavailable'', NativeStreamUnavailable),
     (''wasapi_event_wait_failed'', WasapiEventWaitFailed),
     (''wasapi_padding_failed'', WasapiPaddingFailed),
     (''wasapi_render_buffer_failed'', WasapiRenderBufferFailed),
     (''wasapi_render_buffer_release_failed'', WasapiRenderBufferReleaseFailed),
     (''wasapi_capture_packet_failed'', WasapiCapturePacketFailed),
     (''capture_buffer_too_small'', CaptureBufferTooSmall),
     (''wasapi_capture_buffer_failed'', WasapiCaptureBufferFailed),
     (''wasapi_capture_buffer_release_failed'', WasapiCaptureBufferReleaseFailed),
     (''unsupported_sample_format'', UnsupportedSampleFormat),
     (''sample_buffer_too_small'', SampleBufferTooSmall),
     (''sample_channel_mismatch'', SampleChannelMismatch),
     (''sample_conversion_failed'', SampleConversionFailed),
     (''graph_sample_rate_mismatch'', GraphSampleRateMismatch),
     (''graph_buffer_too_small'', GraphBufferTooSmall),
     (''wasapi_duplex_event_wait_failed'', WasapiDuplexEventWaitFailed),
     (''render_committed_too_many_frames'', RenderCommittedTooManyFrames),
     (''capture_resampler_preroll_failed'', CaptureResamplerPrerollFailed),
     (''capture_resampler_preroll_stalled'', CaptureResamplerPrerollStalled),
     (''capture_resampler_failed'', CaptureResamplerFailed)]"

definition mapped_code :: "string \<Rightarrow> realtime_code" where
  "mapped_code code = (case map_of mapped_codes code of Some c \<Rightarrow> c | None \<Rightarrow> Unclassified)"

fun code_text :: "realtime_code \<Rightarrow> string" where
  "code_text StreamNotStarted = ''stream_not_started''"
| "code_text WrongStreamDirection = ''wrong_stream_direction''"
| "code_text NativeStreamUnavailable = ''native_stream_unavailable''"
| "code_text WasapiEventWaitFailed = ''wasapi_event_wait_failed''"
| "code_text WasapiPaddingFailed = ''wasapi_padding_failed''"
| "code_text WasapiRenderBufferFailed = ''wasapi_render_buffer_failed''"
| "code_text WasapiRenderBufferReleaseFailed = ''wasapi_render_buffer_release_failed''"
| "code_text WasapiCapturePacketFailed = ''wasapi_capture_packet_failed''"
| "code_text CaptureBufferTooSmall = ''capture_buffer_too_small''"
| "code_text WasapiCaptureBufferFailed = ''wasapi_capture_buffer_failed''"
| "code_text WasapiCaptureBufferReleaseFailed = ''wasapi_capture_buffer_release_failed''"
| "code_text UnsupportedSampleFormat = ''unsupported_sample_format''"
| "code_text SampleBufferTooSmall = ''sample_buffer_too_small''"
| "code_text SampleChannelMismatch = ''sample_channel_mismatch''"
| "code_text SampleConversionFailed = ''sample_conversion_failed''"
| "code_text GraphSampleRateMismatch = ''graph_sample_rate_mismatch''"
| "code_text GraphBufferTooSmall = ''graph_buffer_too_small''"
| "code_text WasapiDuplexEventWaitFailed = ''wasapi_duplex_event_wait_failed''"
| "code_text RenderCommittedTooManyFrames = ''render_committed_too_many_frames''"
| "code_text CaptureResamplerPrerollFailed = ''capture_resampler_preroll_failed''"
| "code_text CaptureResamplerPrerollStalled = ''capture_resampler_preroll_stalled''"
| "code_text CaptureResamplerFailed = ''capture_resampler_failed''"
| "code_text Unclassified = ''unclassified_realtime_error''"

fun code_message :: "realtime_code \<Rightarrow> string" where
  "code_message StreamNotStarted = ''WASAPI processing requires a started stream.''"
| "code_message WrongStreamDirection = ''WASAPI stream direction is invalid for processing.''"
| "code_message NativeStreamUnavailable = ''WASAPI processing requires a native opened stream.''"
| "code_message WasapiEventWaitFailed = ''WASAPI event wait failed.''"
| "code_message WasapiPaddingFailed = ''WASAPI render padding query failed.''"
| "code_message WasapiRenderBufferFailed = ''WASAPI render buffer acquisition failed.''"
| "code_message WasapiRenderBufferReleaseFailed = ''WASAPI render buffer release failed.''"
| "code_message WasapiCapturePacketFailed = ''WASAPI capture packet query failed.''"
| "code_message CaptureBufferTooSmall = ''Capture destination buffer cannot hold the packet.''"
| "code_message WasapiCaptureBufferFailed = ''WASAPI capture buffer acquisition failed.''"
| "code_message WasapiCaptureBufferReleaseFailed = ''WASAPI capture buffer release failed.''"
| "code_message UnsupportedSampleFormat = ''WASAPI stream sample format is not supported.''"
| "code_message SampleBufferTooSmall = ''Audio buffer is too small for the requested frames.''"
| "code_message SampleChannelMismatch = ''Audio buffer channel count does not match the stream.''"
| "code_message SampleConversionFailed = ''Sample conversion failed.''"
| "code_message GraphSampleRateMismatch = ''Graph sample rate must match the WASAPI stream sample rate.''"
| "code_message GraphBufferTooSmall = ''Graph scratch buffers must cover the runner buffer shapes.''"
| "code_message WasapiDuplexEventWaitFailed = ''WASAPI duplex event wait failed.''"
| "code_message RenderCommittedTooManyFrames = ''WASAPI render stream committed more frames than were staged.''"
| "code_message CaptureResamplerPrerollFailed = ''Adaptive capture resampler recovery pre-roll failed.''"
| "code_message CaptureResamplerPrerollStalled = ''Adaptive capture resampler recovery pre-roll made no progress.''"
| "code_message CaptureResamplerFailed = ''Adaptive capture resampling failed in the buffered duplex path.''"
| "code_message Unclassified = ''An unclassified realtime WASAPI error occurred.''"

section \<open>Records\<close>

record realtime_error =
  er_code :: u16
  er_context :: u16
  er_value :: u32

definition context_capture :: u16 where "context_capture = 1"
definition context_render :: u16 where "context_render = 2"
definition context_native_hresult :: u16 where "context_native_hresult = 4"
definition context_native_win32 :: u16 where "context_native_win32 = 8"

definition pack_wasapi_realtime_error :: "realtime_error \<Rightarrow> u64" where
  "pack_wasapi_realtime_error e =
     ucast (er_code e) OR push_bit 16 (ucast (er_context e)) OR push_bit 32 (ucast (er_value e))"

definition unpack_wasapi_realtime_error :: "u64 \<Rightarrow> realtime_error" where
  "unpack_wasapi_realtime_error packed =
     \<lparr>er_code = ucast (packed AND 0xFFFF), er_context = ucast (drop_bit 16 packed AND 0xFFFF),
      er_value = ucast (drop_bit 32 packed AND 0xFFFFFFFF)\<rparr>"

definition map_wasapi_realtime_error ::
  "string \<Rightarrow> string \<Rightarrow> bool \<Rightarrow> u32 \<Rightarrow> bool \<Rightarrow> u32 \<Rightarrow> realtime_error" where
  "map_wasapi_realtime_error code message has_hresult hresult has_win32 win32 =
     (let side = (if sublist ''capture'' message then context_capture
                  else if sublist ''render'' message then context_render else 0)
      in \<lparr>er_code = code_number (mapped_code code),
          er_context = (if has_hresult then side OR context_native_hresult
                        else if has_win32 then side OR context_native_win32 else side),
          er_value = (if has_hresult then hresult else if has_win32 then win32 else 0)\<rparr>)"

definition wasapi_realtime_error_code :: "realtime_error \<Rightarrow> string" where
  "wasapi_realtime_error_code e =
     (case realtime_code_of (er_code e) of
        Some c \<Rightarrow> code_text c
      | None \<Rightarrow> if er_code e = realtime_error_overflow_code then ''realtime_error_overflow''
                else ''unclassified_realtime_error'')"

definition wasapi_realtime_error_message :: "realtime_error \<Rightarrow> string" where
  "wasapi_realtime_error_message e =
     (case realtime_code_of (er_code e) of
        Some c \<Rightarrow> code_message c
      | None \<Rightarrow> if er_code e = realtime_error_overflow_code
                then ''Additional realtime WASAPI errors were omitted.''
                else ''An unclassified realtime WASAPI error occurred.'')"

lemma field_masks: "(0xFFFF :: u64) = mask 16" "(0xFFFFFFFF :: u64) = mask 32"
  by (simp_all add: mask_eq_exp_minus_1)

lemma unpack_pack: "unpack_wasapi_realtime_error (pack_wasapi_realtime_error e) = e"
proof -
  have "ucast (pack_wasapi_realtime_error e AND mask 16) = er_code e"
    by (rule bit_word_eqI) (auto simp: pack_wasapi_realtime_error_def bit_simps)
  moreover have "ucast (drop_bit 16 (pack_wasapi_realtime_error e) AND mask 16) = er_context e"
    by (rule bit_word_eqI) (auto simp: pack_wasapi_realtime_error_def bit_simps dest: bit_imp_le_length)
  moreover have "ucast (drop_bit 32 (pack_wasapi_realtime_error e) AND mask 32) = er_value e"
    by (rule bit_word_eqI) (auto simp: pack_wasapi_realtime_error_def bit_simps dest: bit_imp_le_length)
  ultimately show ?thesis by (simp add: unpack_wasapi_realtime_error_def field_masks)
qed

lemma pack_unpack: "pack_wasapi_realtime_error (unpack_wasapi_realtime_error w) = w"
  unfolding pack_wasapi_realtime_error_def unpack_wasapi_realtime_error_def field_masks
proof (rule bit_word_eqI, simp only: realtime_error.select_convs)
  fix n
  show "bit (ucast (ucast (w AND mask 16) :: u16) OR push_bit 16 (ucast (ucast (drop_bit 16 w AND mask 16) :: u16)) OR
      push_bit 32 (ucast (ucast (drop_bit 32 w AND mask 32) :: u32)) :: u64) n = bit w n" if "n < LENGTH(64)"
    using that by (cases "n < 16"; cases "n < 32") (auto simp: bit_simps)
qed

section \<open>Batches\<close>

definition realtime_error_capacity :: nat where
  "realtime_error_capacity = 8"

record realtime_batch =
  rb_records :: "realtime_error list"
  rb_count :: u32
  rb_overflow_count :: u32

definition no_error :: realtime_error where
  "no_error = \<lparr>er_code = 0, er_context = 0, er_value = 0\<rparr>"

definition empty_batch :: realtime_batch where
  "empty_batch = \<lparr>rb_records = replicate realtime_error_capacity no_error, rb_count = 0, rb_overflow_count = 0\<rparr>"

definition saturated_increment :: "u32 \<Rightarrow> u32" where
  "saturated_increment v = (if v = - 1 then v else v + 1)"

definition overflow_record :: "u32 \<Rightarrow> realtime_error" where
  "overflow_record n = \<lparr>er_code = realtime_error_overflow_code, er_context = 0, er_value = n\<rparr>"

definition batch_push :: "realtime_error \<Rightarrow> realtime_batch \<Rightarrow> bool \<times> realtime_batch" where
  "batch_push e b =
     (if rb_overflow_count b \<noteq> 0 then
        let n = saturated_increment (rb_overflow_count b)
        in (False, b\<lparr>rb_overflow_count := n, rb_records := (rb_records b)[7 := overflow_record n]\<rparr>)
      else if rb_count b < word_of_nat realtime_error_capacity then
        (True, b\<lparr>rb_records := (rb_records b)[unat (rb_count b) := e], rb_count := rb_count b + 1\<rparr>)
      else (False, b\<lparr>rb_overflow_count := 2, rb_records := (rb_records b)[7 := overflow_record 2]\<rparr>))"

definition batch_size :: "realtime_batch \<Rightarrow> nat" where
  "batch_size b = min (unat (rb_count b)) realtime_error_capacity"

definition batch_overflowed :: "realtime_batch \<Rightarrow> bool" where
  "batch_overflowed b \<longleftrightarrow> rb_overflow_count b \<noteq> 0"

fun batch_push_all :: "realtime_error list \<Rightarrow> realtime_batch \<Rightarrow> realtime_batch" where
  "batch_push_all [] b = b"
| "batch_push_all (e # es) b = batch_push_all es (snd (batch_push e b))"

lemma saturated_count:
  assumes "k \<le> 2 ^ 32 - 1"
  shows "saturated_increment (word_of_nat k) = word_of_nat (min (Suc k) (2 ^ 32 - 1))"
proof (cases "k = 2 ^ 32 - 1")
  case False
  then have "unat (word_of_nat k :: u32) = k" using assms by (simp add: unsigned_of_nat take_bit_nat_eq_self)
  moreover have "unat (- 1 :: u32) = 2 ^ 32 - 1" by (simp add: unsigned_minus_1_eq_mask mask_eq_exp_minus_1)
  ultimately have "(word_of_nat k :: u32) \<noteq> - 1" using False by metis
  then show ?thesis using False assms by (simp add: saturated_increment_def min_def)
qed (simp add: saturated_increment_def)

text \<open>What a batch holds after some errors.\<close>

definition batch_of :: "realtime_error list \<Rightarrow> realtime_batch" where
  "batch_of es =
     (if length es \<le> 8
      then \<lparr>rb_records = es @ replicate (8 - length es) no_error, rb_count = word_of_nat (length es), rb_overflow_count = 0\<rparr>
      else let n = word_of_nat (min (length es - 7) (2 ^ 32 - 1))
           in \<lparr>rb_records = take 7 es @ [overflow_record n], rb_count = 8, rb_overflow_count = n\<rparr>)"

lemma batch_push_of: "batch_push e (batch_of es) = (length es < 8, batch_of (es @ [e]))"
proof -
  consider "length es < 8" | "length es = 8" | "8 < length es" by linarith
  then show ?thesis
  proof cases
    case 1
    have "(word_of_nat (length es) :: u32) < 8" using 1 by (simp add: word_less_nat_alt unsigned_of_nat take_bit_nat_eq_self)
    moreover have "unat (word_of_nat (length es) :: u32) = length es" using 1 by (simp add: unsigned_of_nat take_bit_nat_eq_self)
    moreover obtain k where "8 - length es = Suc k" "8 - Suc (length es) = k" using 1 by (cases "8 - length es") auto
    ultimately show ?thesis using 1
      by (simp add: batch_push_def batch_of_def realtime_error_capacity_def list_update_append)
  next
    case 2
    then obtain xs x where "es = xs @ [x]" "length xs = 7" by (cases es rule: rev_cases) auto
    then show ?thesis by (simp add: batch_push_def batch_of_def realtime_error_capacity_def list_update_append Let_def)
  next
    case 3
    define n where "n = min (length es - 7) (2 ^ 32 - 1)"
    have "n \<noteq> 0" "n \<le> 2 ^ 32 - 1" using 3 by (simp_all add: n_def)
    then have "unat (word_of_nat n :: u32) = n" by (simp add: unsigned_of_nat take_bit_nat_eq_self)
    with \<open>n \<noteq> 0\<close> have nz: "word_of_nat n \<noteq> (0 :: u32)" by (metis unat_0)
    have "min (Suc n) (2 ^ 32 - 1) = min (length (es @ [e]) - 7) (2 ^ 32 - 1)" using 3 by (simp add: n_def)
    then have inc: "saturated_increment (word_of_nat n) = word_of_nat (min (length (es @ [e]) - 7) (2 ^ 32 - 1))"
      using saturated_count [OF \<open>n \<le> 2 ^ 32 - 1\<close>] by simp
    have old: "batch_of es = \<lparr>rb_records = take 7 es @ [overflow_record (word_of_nat n)], rb_count = 8,
        rb_overflow_count = word_of_nat n\<rparr>" using 3 by (simp add: batch_of_def n_def Let_def)
    have put: "(take 7 es @ [overflow_record (word_of_nat n)])[7 := r] = take 7 es @ [r]" for r
      using 3 by (simp add: list_update_append)
    have new: "batch_of (es @ [e]) = \<lparr>rb_records = take 7 es @ [overflow_record (saturated_increment (word_of_nat n))],
        rb_count = 8, rb_overflow_count = saturated_increment (word_of_nat n)\<rparr>"
      using 3 unfolding inc by (simp add: batch_of_def Let_def)
    show ?thesis unfolding batch_push_def old new using 3 nz by (simp add: Let_def put)
  qed
qed

lemma batch_push_all_of: "batch_push_all es (batch_of xs) = batch_of (xs @ es)"
  by (induction es arbitrary: xs) (simp_all add: batch_push_of)

lemma batch_of_Nil: "batch_of [] = empty_batch"
  by (simp add: batch_of_def empty_batch_def realtime_error_capacity_def)

section \<open>The channel\<close>

text \<open>
  All accesses to the channel are sequentially consistent, so one step is one access. The writer is one
  thread; a reader takes one snapshot after the other. The history of complete publications and the
  numbers a reader remembers of it are not in the code.
\<close>

record realtime_channel =
  ec_sequence :: u64
  ec_records :: "u64 list"
  ec_metadata :: u64

definition pack_metadata :: "u32 \<Rightarrow> u32 \<Rightarrow> u64" where
  "pack_metadata count overflow_count = ucast count OR push_bit 32 (ucast overflow_count)"

definition snapshot_batch :: "realtime_error list \<Rightarrow> u64 \<Rightarrow> realtime_batch" where
  "snapshot_batch records metadata =
     \<lparr>rb_records = records, rb_count = ucast (metadata AND 0xFFFFFFFF), rb_overflow_count = ucast (drop_bit 32 metadata)\<rparr>"

datatype channel_writer =
    WriterIdle
  | WriterRecords realtime_batch nat
  | WriterDone realtime_batch

datatype channel_reader =
    ReaderStart nat
  | ReaderRecords nat nat u64 "realtime_error list"
  | ReaderCheck nat nat u64 "realtime_error list" u64
  | ReaderResult nat nat realtime_batch

record channel_system =
  cs_channel :: realtime_channel
  cs_writer :: channel_writer
  cs_reader :: channel_reader
  cs_history :: "realtime_batch list"

definition channel_initial :: channel_system where
  "channel_initial =
     \<lparr>cs_channel = \<lparr>ec_sequence = 0, ec_records = replicate realtime_error_capacity 0, ec_metadata = 0\<rparr>,
      cs_writer = WriterIdle, cs_reader = ReaderStart 0, cs_history = []\<rparr>"

inductive channel_step :: "channel_system \<Rightarrow> channel_system \<Rightarrow> bool" where
  publish_begin: "cs_writer s = WriterIdle \<Longrightarrow> length (rb_records b) = realtime_error_capacity \<Longrightarrow>
    channel_step s (s\<lparr>cs_channel := (cs_channel s)\<lparr>ec_sequence := ec_sequence (cs_channel s) + 1\<rparr>,
      cs_writer := WriterRecords b 0\<rparr>)"
| publish_record: "cs_writer s = WriterRecords b i \<Longrightarrow> i < realtime_error_capacity \<Longrightarrow>
    channel_step s (s\<lparr>cs_channel := (cs_channel s)\<lparr>ec_records :=
        (ec_records (cs_channel s))[i := pack_wasapi_realtime_error (rb_records b ! i)]\<rparr>,
      cs_writer := WriterRecords b (i + 1)\<rparr>)"
| publish_metadata: "cs_writer s = WriterRecords b i \<Longrightarrow> i = realtime_error_capacity \<Longrightarrow>
    channel_step s (s\<lparr>cs_channel := (cs_channel s)\<lparr>ec_metadata :=
        pack_metadata (min (rb_count b) (word_of_nat realtime_error_capacity)) (rb_overflow_count b)\<rparr>,
      cs_writer := WriterDone b\<rparr>)"
| publish_end: "cs_writer s = WriterDone b \<Longrightarrow>
    channel_step s (s\<lparr>cs_channel := (cs_channel s)\<lparr>ec_sequence := ec_sequence (cs_channel s) + 1\<rparr>,
      cs_writer := WriterIdle, cs_history := cs_history s @ [b]\<rparr>)"
| read_odd: "cs_reader s = ReaderStart m \<Longrightarrow> ec_sequence (cs_channel s) AND 1 \<noteq> 0 \<Longrightarrow> channel_step s s"
| read_begin: "cs_reader s = ReaderStart m \<Longrightarrow> ec_sequence (cs_channel s) AND 1 = 0 \<Longrightarrow>
    channel_step s (s\<lparr>cs_reader := ReaderRecords m (length (cs_history s)) (ec_sequence (cs_channel s)) []\<rparr>)"
| read_record: "cs_reader s = ReaderRecords m n before rs \<Longrightarrow> length rs < realtime_error_capacity \<Longrightarrow>
    channel_step s (s\<lparr>cs_reader := ReaderRecords m n before
      (rs @ [unpack_wasapi_realtime_error (ec_records (cs_channel s) ! length rs)])\<rparr>)"
| read_metadata: "cs_reader s = ReaderRecords m n before rs \<Longrightarrow> length rs = realtime_error_capacity \<Longrightarrow>
    channel_step s (s\<lparr>cs_reader := ReaderCheck m n before rs (ec_metadata (cs_channel s))\<rparr>)"
| read_same: "cs_reader s = ReaderCheck m n before rs metadata \<Longrightarrow> ec_sequence (cs_channel s) = before \<Longrightarrow>
    channel_step s (s\<lparr>cs_reader := ReaderResult m n (snapshot_batch rs metadata)\<rparr>)"
| read_changed: "cs_reader s = ReaderCheck m n before rs metadata \<Longrightarrow> ec_sequence (cs_channel s) \<noteq> before \<Longrightarrow>
    channel_step s (s\<lparr>cs_reader := ReaderStart m\<rparr>)"
| read_again: "cs_reader s = ReaderResult m n b \<Longrightarrow>
    channel_step s (s\<lparr>cs_reader := ReaderStart (length (cs_history s))\<rparr>)"

definition channel_reachable :: "channel_system \<Rightarrow> bool" where
  "channel_reachable = rtranclp channel_step channel_initial"

text \<open>The batch readers see after \<open>n\<close> publications: its count is clamped.\<close>

definition clamped :: "realtime_batch \<Rightarrow> realtime_batch" where
  "clamped b = b\<lparr>rb_count := min (rb_count b) (word_of_nat realtime_error_capacity)\<rparr>"

definition version :: "realtime_batch list \<Rightarrow> nat \<Rightarrow> realtime_batch" where
  "version history n = (if n = 0 then empty_batch else clamped (history ! (n - 1)))"

definition writer_idle :: "channel_system \<Rightarrow> bool" where
  "writer_idle s \<longleftrightarrow> cs_writer s = WriterIdle"

fun writer_inv :: "realtime_channel \<Rightarrow> realtime_batch list \<Rightarrow> channel_writer \<Rightarrow> bool" where
  "writer_inv c history WriterIdle =
     (ec_records c = map pack_wasapi_realtime_error (rb_records (version history (length history))) \<and>
      ec_metadata c = pack_metadata (rb_count (version history (length history)))
        (rb_overflow_count (version history (length history))))"
| "writer_inv c history (WriterRecords b i) =
     (length (rb_records b) = realtime_error_capacity \<and> i \<le> realtime_error_capacity \<and>
      take i (ec_records c) = map pack_wasapi_realtime_error (take i (rb_records b)))"
| "writer_inv c history (WriterDone b) =
     (length (rb_records b) = realtime_error_capacity \<and> ec_records c = map pack_wasapi_realtime_error (rb_records b) \<and>
      ec_metadata c = pack_metadata (rb_count (clamped b)) (rb_overflow_count b))"

text \<open>As long as nothing was published since the attempt began, what was read is of that version.\<close>

fun reader_inv :: "bool \<Rightarrow> realtime_batch list \<Rightarrow> channel_reader \<Rightarrow> bool" where
  "reader_inv idle history (ReaderStart m) = (m \<le> length history)"
| "reader_inv idle history (ReaderRecords m n before rs) =
     (m \<le> n \<and> n \<le> length history \<and> before = word_of_nat (2 * n) \<and> length rs \<le> realtime_error_capacity \<and>
      (idle \<and> n = length history \<longrightarrow> rs = take (length rs) (rb_records (version history n))))"
| "reader_inv idle history (ReaderCheck m n before rs metadata) =
     (m \<le> n \<and> n \<le> length history \<and> before = word_of_nat (2 * n) \<and>
      (idle \<and> n = length history \<longrightarrow> rs = rb_records (version history n) \<and>
        metadata = pack_metadata (rb_count (version history n)) (rb_overflow_count (version history n))))"
| "reader_inv idle history (ReaderResult m n b) =
     (m \<le> n \<and> n \<le> length history \<and> b = version history n)"

definition channel_inv :: "channel_system \<Rightarrow> bool" where
  "channel_inv s \<longleftrightarrow>
     length (ec_records (cs_channel s)) = realtime_error_capacity \<and>
     (\<forall>b \<in> set (cs_history s). length (rb_records b) = realtime_error_capacity) \<and>
     ec_sequence (cs_channel s) = word_of_nat (2 * length (cs_history s) + (if writer_idle s then 0 else 1)) \<and>
     writer_inv (cs_channel s) (cs_history s) (cs_writer s) \<and>
     reader_inv (writer_idle s) (cs_history s) (cs_reader s)"

lemma version_records: "\<forall>b \<in> set history. length (rb_records b) = realtime_error_capacity \<Longrightarrow> n \<le> length history \<Longrightarrow>
    length (rb_records (version history n)) = realtime_error_capacity"
  by (cases n) (simp_all add: version_def clamped_def empty_batch_def)

lemma version_append [simp]: "n \<le> length history \<Longrightarrow> version (history @ [b]) n = version history n"
  by (cases n) (simp_all add: version_def nth_append)

lemma version_last [simp]: "version (history @ [b]) (Suc (length history)) = clamped b"
  by (simp add: version_def nth_append)

lemma snapshot_of_version: "snapshot_batch (rb_records b) (pack_metadata (rb_count b) (rb_overflow_count b)) = b"
proof -
  have "ucast (pack_metadata c v AND mask 32) = c" "ucast (drop_bit 32 (pack_metadata c v)) = v" for c v
    by (rule bit_word_eqI; simp add: pack_metadata_def bit_simps; auto dest: bit_imp_le_length)+
  then show ?thesis by (simp add: snapshot_batch_def field_masks)
qed

text \<open>The lowest bit of the sequence tells whether the writer is at work.\<close>

lemma sequence_parity: "(word_of_nat n :: u64) AND 1 = 0 \<longleftrightarrow> even n"
proof -
  have "even (word_of_nat n :: u64) \<longleftrightarrow> even n" by transfer simp
  then show ?thesis by (simp add: and_one_eq even_iff_mod_2_eq_zero)
qed

lemma reader_inv_later: "reader_inv idle history r \<Longrightarrow> reader_inv False (history) r"
  by (cases r) auto

lemma reader_inv_published: "reader_inv False history r \<Longrightarrow> reader_inv True (history @ [b]) r"
  by (cases r) auto

lemma sequence_same:
  assumes "(word_of_nat (2 * l + k) :: u64) = word_of_nat (2 * n)" "l < 2 ^ 63" "n \<le> l" "k < 2"
  shows "n = l" "k = 0"
proof -
  have exact: "unat (word_of_nat x :: u64) = x" if "x < 2 ^ 64" for x
    using that by (simp add: unsigned_of_nat take_bit_nat_eq_self)
  have small: "2 * l + k < 2 ^ 64" "2 * n < 2 ^ 64" using assms(2-4) by simp_all
  have "2 * l + k = 2 * n" using exact [OF small(1)] exact [OF small(2)] unfolding assms(1) by linarith
  then show "n = l" "k = 0" using assms(3) by linarith+
qed

lemma channel_inv_step:
  assumes "channel_step s s'" "channel_inv s" "length (cs_history s') < 2 ^ 63"
  shows "channel_inv s'"
  using assms(1)
proof cases
  case (publish_begin b)
  then show ?thesis using assms(2) reader_inv_later by (auto simp: channel_inv_def writer_idle_def)
next
  case (publish_record b i)
  then have "length (ec_records (cs_channel s)) = 8" "length (rb_records b) = 8" "i < 8"
    "take i (ec_records (cs_channel s)) = map pack_wasapi_realtime_error (take i (rb_records b))"
    using assms(2) by (simp_all add: channel_inv_def realtime_error_capacity_def)
  then show ?thesis using publish_record assms(2)
    by (simp add: channel_inv_def writer_idle_def realtime_error_capacity_def take_Suc_conv_app_nth)
next
  case (publish_metadata b i)
  then show ?thesis using assms(2)
    by (auto simp: channel_inv_def writer_idle_def clamped_def)
next
  case (publish_end b)
  then have r: "reader_inv False (cs_history s) (cs_reader s)" using assms(2) by (simp add: channel_inv_def writer_idle_def)
  show ?thesis using publish_end assms(2) reader_inv_published [OF r, of b]
    by (auto simp: channel_inv_def writer_idle_def clamped_def)
next
  case (read_odd m)
  then show ?thesis using assms(2) by simp
next
  case (read_begin m)
  then have "even (2 * length (cs_history s) + (if writer_idle s then 0 else 1))"
    using assms(2) sequence_parity by (metis channel_inv_def)
  then have "writer_idle s" by (auto split: if_splits)
  moreover have "length (rb_records (version (cs_history s) (length (cs_history s)))) = realtime_error_capacity"
    using assms(2) by (intro version_records) (simp_all add: channel_inv_def)
  ultimately show ?thesis using read_begin assms(2) by (simp add: channel_inv_def writer_idle_def)
next
  case (read_record m n before rs)
  have len: "\<forall>b \<in> set (cs_history s). length (rb_records b) = realtime_error_capacity" "n \<le> length (cs_history s)"
    using assms(2) read_record by (simp_all add: channel_inv_def)
  have "unpack_wasapi_realtime_error (ec_records (cs_channel s) ! length rs) = rb_records (version (cs_history s) n) ! length rs"
    if "writer_idle s" "n = length (cs_history s)"
    using assms(2) that read_record version_records [OF len] by (simp add: channel_inv_def writer_idle_def unpack_pack)
  then show ?thesis using read_record assms(2) version_records [OF len]
    by (auto simp: channel_inv_def writer_idle_def take_Suc_conv_app_nth)
next
  case (read_metadata m n before rs)
  have len: "\<forall>b \<in> set (cs_history s). length (rb_records b) = realtime_error_capacity" "n \<le> length (cs_history s)"
    using assms(2) read_metadata by (simp_all add: channel_inv_def)
  show ?thesis using read_metadata assms(2) version_records [OF len] by (auto simp: channel_inv_def writer_idle_def)
next
  case (read_same m n before rs metadata)
  have seq: "ec_sequence (cs_channel s) = word_of_nat (2 * length (cs_history s) + (if writer_idle s then 0 else 1))"
    and reader: "reader_inv (writer_idle s) (cs_history s) (cs_reader s)"
    using assms(2) unfolding channel_inv_def by blast+
  have r: "n \<le> length (cs_history s)" "before = word_of_nat (2 * n)"
    using reader unfolding read_same(2) reader_inv.simps by blast+
  have "n = length (cs_history s)" "(if writer_idle s then 0 else 1 :: nat) = 0"
    using sequence_same [OF trans [OF seq [symmetric] trans [OF read_same(3) r(2)]], OF _ r(1)] read_same assms(3) by simp_all
  then have "writer_idle s" "n = length (cs_history s)" by (simp_all split: if_splits)
  then show ?thesis using read_same assms(2) by (auto simp: channel_inv_def writer_idle_def snapshot_of_version)
next
  case (read_changed m n before rs metadata)
  then show ?thesis using assms(2) by (auto simp: channel_inv_def writer_idle_def)
next
  case (read_again m n b)
  then show ?thesis using assms(2) by (simp add: channel_inv_def writer_idle_def)
qed

lemma channel_history_grows: "channel_step s s' \<Longrightarrow> length (cs_history s) \<le> length (cs_history s')"
  by (cases rule: channel_step.cases) auto

lemma channel_reachable_inv:
  assumes "channel_reachable s" "length (cs_history s) < 2 ^ 63"
  shows "channel_inv s"
  using assms unfolding channel_reachable_def
proof (induction rule: rtranclp_induct)
  case base
  show ?case
    by (simp add: channel_inv_def channel_initial_def writer_idle_def version_def empty_batch_def realtime_error_capacity_def
        pack_metadata_def pack_wasapi_realtime_error_def no_error_def)
next
  case (step s s')
  have "length (cs_history s) < 2 ^ 63" using channel_history_grows [OF step(2)] step(4) by simp
  then show ?case using channel_inv_step [OF step(2) step(3)] step(4) by simp
qed

section \<open>Progress\<close>

text \<open>A publication takes eleven steps, and a snapshot ends when the writer pauses.\<close>

lemma writer_records_run:
  "cs_writer s = WriterRecords b i \<Longrightarrow> i + k = realtime_error_capacity \<Longrightarrow>
    \<exists>s'. rtranclp channel_step s s' \<and> cs_writer s' = WriterRecords b realtime_error_capacity \<and>
      cs_history s' = cs_history s \<and> cs_reader s' = cs_reader s"
proof (induction k arbitrary: s i)
  case (Suc k)
  let ?s = "s\<lparr>cs_channel := (cs_channel s)\<lparr>ec_records :=
        (ec_records (cs_channel s))[i := pack_wasapi_realtime_error (rb_records b ! i)]\<rparr>, cs_writer := WriterRecords b (i + 1)\<rparr>"
  have "channel_step s ?s" using Suc.prems by (intro publish_record) simp_all
  moreover obtain s' where "rtranclp channel_step ?s s'" "cs_writer s' = WriterRecords b realtime_error_capacity"
    "cs_history s' = cs_history s" "cs_reader s' = cs_reader s"
    using Suc.IH [of ?s "i + 1"] Suc.prems(2) by auto
  ultimately show ?case by (meson converse_rtranclp_into_rtranclp)
qed auto

lemma writer_publishes:
  assumes "cs_writer s = WriterIdle" "length (rb_records b) = realtime_error_capacity"
  shows "\<exists>s'. rtranclp channel_step s s' \<and> cs_writer s' = WriterIdle \<and> cs_history s' = cs_history s @ [b] \<and>
    cs_reader s' = cs_reader s"
proof -
  let ?s1 = "s\<lparr>cs_channel := (cs_channel s)\<lparr>ec_sequence := ec_sequence (cs_channel s) + 1\<rparr>, cs_writer := WriterRecords b 0\<rparr>"
  have first: "channel_step s ?s1" using assms by (rule publish_begin)
  obtain s2 where s2: "rtranclp channel_step ?s1 s2" "cs_writer s2 = WriterRecords b realtime_error_capacity"
    "cs_history s2 = cs_history s" "cs_reader s2 = cs_reader s"
    using writer_records_run [of ?s1 b 0 realtime_error_capacity] by auto
  let ?s3 = "s2\<lparr>cs_channel := (cs_channel s2)\<lparr>ec_metadata :=
        pack_metadata (min (rb_count b) (word_of_nat realtime_error_capacity)) (rb_overflow_count b)\<rparr>, cs_writer := WriterDone b\<rparr>"
  let ?s4 = "?s3\<lparr>cs_channel := (cs_channel ?s3)\<lparr>ec_sequence := ec_sequence (cs_channel ?s3) + 1\<rparr>,
      cs_writer := WriterIdle, cs_history := cs_history ?s3 @ [b]\<rparr>"
  have "channel_step s2 ?s3" using s2(2) refl by (rule publish_metadata)
  moreover have "channel_step ?s3 ?s4" by (rule publish_end) simp
  ultimately have "rtranclp channel_step s ?s4"
    using first s2(1) by (meson converse_rtranclp_into_rtranclp rtranclp.rtrancl_into_rtrancl)
  then show ?thesis using s2(3,4) by (intro exI [of _ ?s4]) simp
qed

lemma reader_records_run:
  "cs_reader s = ReaderRecords m n before rs \<Longrightarrow> length rs + k = realtime_error_capacity \<Longrightarrow>
    \<exists>rs'. rtranclp channel_step s (s\<lparr>cs_reader := ReaderRecords m n before rs'\<rparr>) \<and> length rs' = realtime_error_capacity"
proof (induction k arbitrary: s rs)
  case 0
  then have "s\<lparr>cs_reader := ReaderRecords m n before rs\<rparr> = s" by simp
  with 0 show ?case by (metis add_0_right rtranclp.rtrancl_refl)
next
  case (Suc k)
  let ?rs = "rs @ [unpack_wasapi_realtime_error (ec_records (cs_channel s) ! length rs)]"
  have "channel_step s (s\<lparr>cs_reader := ReaderRecords m n before ?rs\<rparr>)" using Suc.prems by (intro read_record) simp_all
  moreover obtain rs' where "rtranclp channel_step (s\<lparr>cs_reader := ReaderRecords m n before ?rs\<rparr>)
      (s\<lparr>cs_reader := ReaderRecords m n before rs'\<rparr>)" "length rs' = realtime_error_capacity"
    using Suc.IH [of "s\<lparr>cs_reader := ReaderRecords m n before ?rs\<rparr>" ?rs] Suc.prems(2) by auto
  ultimately show ?case by (meson converse_rtranclp_into_rtranclp)
qed

lemma reader_completes:
  assumes "channel_inv s" "cs_reader s = ReaderStart m" "cs_writer s = WriterIdle"
  shows "\<exists>b. rtranclp channel_step s (s\<lparr>cs_reader := ReaderResult m (length (cs_history s)) b\<rparr>)"
proof -
  let ?n = "length (cs_history s)" and ?q = "ec_sequence (cs_channel s)"
  have "?q = word_of_nat (2 * ?n + (if writer_idle s then 0 else 1))" using assms(1) unfolding channel_inv_def by blast
  then have "?q AND 1 = 0" using assms(3) sequence_parity [of "2 * ?n"] by (simp add: writer_idle_def)
  with assms(2) have first: "channel_step s (s\<lparr>cs_reader := ReaderRecords m ?n ?q []\<rparr>)" by (rule read_begin)
  obtain rs where rs: "rtranclp channel_step (s\<lparr>cs_reader := ReaderRecords m ?n ?q []\<rparr>) (s\<lparr>cs_reader := ReaderRecords m ?n ?q rs\<rparr>)"
    "length rs = realtime_error_capacity"
    using reader_records_run [of "s\<lparr>cs_reader := ReaderRecords m ?n ?q []\<rparr>" m ?n ?q "[]" realtime_error_capacity] by auto
  let ?t = "s\<lparr>cs_reader := ReaderCheck m ?n ?q rs (ec_metadata (cs_channel s))\<rparr>"
  have "channel_step (s\<lparr>cs_reader := ReaderRecords m ?n ?q rs\<rparr>) ?t"
    using read_metadata [of "s\<lparr>cs_reader := ReaderRecords m ?n ?q rs\<rparr>" m ?n ?q rs] rs(2) by simp
  moreover have "channel_step ?t (s\<lparr>cs_reader := ReaderResult m ?n (snapshot_batch rs (ec_metadata (cs_channel s)))\<rparr>)"
    using read_same [of ?t m ?n ?q rs "ec_metadata (cs_channel s)"] by simp
  ultimately have "rtranclp channel_step s (s\<lparr>cs_reader := ReaderResult m ?n (snapshot_batch rs (ec_metadata (cs_channel s)))\<rparr>)"
    using first rs(1) by (meson converse_rtranclp_into_rtranclp rtranclp.rtrancl_into_rtrancl)
  then show ?thesis by blast
qed

section \<open>Properties\<close>

text \<open>
  A snapshot of the error channel is never torn: in every interleaving of one writer with a
  reader, up to \<open>2 ^ 63\<close> publications, the batch a snapshot returns is one published batch as a whole,
  with its count clamped, and not an older one than was complete when the snapshot began.
\<close>

theorem error_snapshots_consistent:
  assumes "channel_reachable s" "length (cs_history s) < 2 ^ 63" "cs_reader s = ReaderResult m n b"
  shows "m \<le> n \<and> n \<le> length (cs_history s) \<and> b = (if n = 0 then empty_batch else clamped (cs_history s ! (n - 1)))"
  using channel_reachable_inv [OF assms(1,2)] assms(3) by (simp add: channel_inv_def version_def)

theorem error_snapshots_consistent_witness:
  "\<exists>s b. channel_reachable s \<and> cs_reader s = ReaderResult 0 1 b \<and> b = clamped (batch_of [no_error])"
proof -
  let ?b = "batch_of [no_error]"
  have "length (rb_records ?b) = realtime_error_capacity" by (simp add: batch_of_def realtime_error_capacity_def)
  then obtain s where s: "channel_reachable s" "cs_writer s = WriterIdle" "cs_history s = [?b]" "cs_reader s = ReaderStart 0"
    using writer_publishes [of channel_initial ?b] by (auto simp: channel_reachable_def channel_initial_def)
  then have "channel_inv s" by (intro channel_reachable_inv) simp_all
  from reader_completes [OF this s(4,2)] obtain b where
    "rtranclp channel_step s (s\<lparr>cs_reader := ReaderResult 0 1 b\<rparr>)" using s(3) by auto
  then have r: "channel_reachable (s\<lparr>cs_reader := ReaderResult 0 1 b\<rparr>)"
    using s(1) unfolding channel_reachable_def by (rule rtranclp_trans [rotated])
  have "b = clamped ?b" using error_snapshots_consistent [OF r, of 0 1 b] s(3) by simp
  with r show ?thesis by (intro exI [of _ "s\<lparr>cs_reader := ReaderResult 0 1 b\<rparr>"] exI [of _ b]) simp
qed

text \<open>
  A batch keeps the first eight errors in order. From the ninth on the last slot is a marker
  that counts, up to saturation, all the errors that have no slot of their own, so that none is
  unaccounted for, and only errors that were kept are reported as such.
\<close>

theorem error_batch_accounts:
  "batch_push_all es empty_batch =
     (if length es \<le> 8
      then \<lparr>rb_records = es @ replicate (8 - length es) no_error, rb_count = word_of_nat (length es), rb_overflow_count = 0\<rparr>
      else let n = word_of_nat (min (length es - 7) (2 ^ 32 - 1))
           in \<lparr>rb_records = take 7 es @ [overflow_record n], rb_count = 8, rb_overflow_count = n\<rparr>) \<and>
    fst (batch_push e (batch_push_all es empty_batch)) = (length es < 8) \<and>
    (batch_overflowed (batch_push_all es empty_batch) \<longleftrightarrow> 8 < length es)"
proof -
  have all: "batch_push_all es empty_batch = batch_of es" using batch_push_all_of [of es "[]"] by (simp add: batch_of_Nil)
  define n where "n = min (length es - 7) (2 ^ 32 - 1)"
  have "word_of_nat n \<noteq> (0 :: u32)" if "8 < length es"
  proof -
    have "n \<noteq> 0" "n \<le> 2 ^ 32 - 1" using that by (simp_all add: n_def)
    then have "unat (word_of_nat n :: u32) = n" by (simp add: unsigned_of_nat take_bit_nat_eq_self)
    with \<open>n \<noteq> 0\<close> show ?thesis by (metis unat_0)
  qed
  then have "batch_overflowed (batch_of es) \<longleftrightarrow> 8 < length es"
    by (simp add: batch_overflowed_def batch_of_def Let_def n_def)
  then show ?thesis unfolding all by (simp add: batch_push_of) (simp add: batch_of_def)
qed

text \<open>
  Errors cross the channel without loss: a record is unpacked exactly as it was packed, every code
  the realtime loops report is shown under its own name and never as an overflow marker, every other one
  as unclassified, and a native code is kept with its kind.
\<close>

theorem realtime_errors_identified:
  "unpack_wasapi_realtime_error (pack_wasapi_realtime_error e) = e \<and>
   pack_wasapi_realtime_error (unpack_wasapi_realtime_error w) = w \<and>
   wasapi_realtime_error_code (map_wasapi_realtime_error code message has_hresult hresult has_win32 win32) =
     (if code \<in> fst ` set mapped_codes then code else ''unclassified_realtime_error'') \<and>
   er_value (map_wasapi_realtime_error code message has_hresult hresult has_win32 win32) =
     (if has_hresult then hresult else if has_win32 then win32 else 0) \<and>
   (er_context (map_wasapi_realtime_error code message has_hresult hresult has_win32 win32) AND context_native_hresult \<noteq> 0 \<longleftrightarrow>
     has_hresult) \<and>
   (er_context (map_wasapi_realtime_error code message has_hresult hresult has_win32 win32) AND context_native_win32 \<noteq> 0 \<longleftrightarrow>
     has_win32 \<and> \<not> has_hresult)"
proof -
  have number: "realtime_code_of (code_number c) = Some c" for c
    by (cases c) (simp_all add: realtime_code_of_def code_values_def)
  have known: "\<forall>p \<in> set mapped_codes. code_text (snd p) = fst p" by (simp add: mapped_codes_def)
  have name: "code_text (mapped_code code) =
      (if code \<in> fst ` set mapped_codes then code else ''unclassified_realtime_error'')"
  proof (cases "map_of mapped_codes code")
    case None
    moreover have "code \<notin> fst ` set mapped_codes" using None by (simp only: map_of_eq_None_iff not_False_eq_True)
    ultimately show ?thesis by (simp add: mapped_code_def)
  next
    case (Some c)
    then have "(code, c) \<in> set mapped_codes" by (rule map_of_SomeD)
    with known Some show ?thesis by (force simp: mapped_code_def)
  qed
  show ?thesis
    by (simp add: unpack_pack pack_unpack wasapi_realtime_error_code_def map_wasapi_realtime_error_def number name Let_def
        context_capture_def context_render_def context_native_hresult_def context_native_win32_def)
qed

end
