(* ===== verification/GraphProcess.thy ===== *)
theory GraphProcess
  imports Graph FloatArith ControlResponse RealtimeBuffers
begin

text \<open>
  The sample loops of \<^verbatim>\<open>core/graph/graph.cpp\<close> and \<^verbatim>\<open>route_matrix.cpp\<close>: the \<^verbatim>\<open>process\<close> function of every
  node kind and of the graph, which runs its nodes through two scratch buffers. The input and the output of a
  call are different buffers.
\<close>

section \<open>Nodes\<close>

definition passthrough_process :: "audio_buffer \<Rightarrow> audio_buffer \<Rightarrow> audio_buffer" where
  "passthrough_process input output =
     (let channels = min (ab_channels input) (ab_channels output); frames = min (ab_frames input) (ab_frames output)
      in fold (\<lambda>c. ab_put_channel (take frames (ab_channel input c)) c) [0..<channels] output)"

definition gain_process :: "f32 \<Rightarrow> audio_buffer \<Rightarrow> audio_buffer \<Rightarrow> audio_buffer" where
  "gain_process gain input output =
     (let channels = min (ab_channels input) (ab_channels output); frames = min (ab_frames input) (ab_frames output)
      in fold (\<lambda>c. ab_put_channel (map (\<lambda>x. f32_mul x gain) (take frames (ab_channel input c))) c) [0..<channels] output)"

definition mute_process :: "bool \<Rightarrow> audio_buffer \<Rightarrow> audio_buffer \<Rightarrow> audio_buffer" where
  "mute_process muted input output = (if muted then ab_clear output else ab_copy_from output input)"

definition polarity_process :: "bool \<Rightarrow> audio_buffer \<Rightarrow> audio_buffer \<Rightarrow> audio_buffer" where
  "polarity_process inverted input output =
     (let channels = min (ab_channels input) (ab_channels output); frames = min (ab_frames input) (ab_frames output)
      in if \<not> inverted then ab_copy_from output input
         else fold (\<lambda>c. ab_put_channel (map f32_neg (take frames (ab_channel input c))) c) [0..<channels] output)"

text \<open>
  The meter copies and measures what it has copied. Magnitudes are not negative, so their order is that
  of their bits.
\<close>

definition meter_step :: "f32 \<Rightarrow> f32 \<times> f64 \<Rightarrow> f32 \<times> f64" where
  "meter_step sample acc =
     (case acc of (peak, square_sum) \<Rightarrow>
        if \<not> f32_finite sample then acc
        else (max peak (f32_abs sample), f64_add square_sum (f64_mul (f32_to_f64 sample) (f32_to_f64 sample))))"

definition meter_levels :: "audio_buffer \<Rightarrow> f32 \<times> f32" where
  "meter_levels output =
     (case fold (\<lambda>c. fold meter_step (ab_channel output c)) [0..<ab_channels output] (0, 0) of (peak, square_sum) \<Rightarrow>
        let count = ab_channels output * ab_frames output;
            rms = (if f64_finite square_sum then f64_to_f32 (f64_sqrt (f64_div square_sum (f64_of_nat count))) else 0)
        in (peak, if f32_finite rms then rms else 0))"

definition meter_process :: "f32 \<Rightarrow> f32 \<Rightarrow> audio_buffer \<Rightarrow> audio_buffer \<Rightarrow> f32 \<times> f32 \<times> audio_buffer" where
  "meter_process peak rms input output =
     (let copied = ab_copy_from output input
      in if ab_channels copied * ab_frames copied = 0
         then (snd (afp_set 0 peak), snd (afp_set 0 rms), copied)
         else case meter_levels copied of
           (block_peak, block_rms) \<Rightarrow> (snd (afp_set block_peak peak), snd (afp_set block_rms rms), copied))"

definition ab_set_sample :: "nat \<Rightarrow> nat \<Rightarrow> f32 \<Rightarrow> audio_buffer \<Rightarrow> audio_buffer" where
  "ab_set_sample c frame v b = b\<lparr>ab_samples := (ab_samples b)[c * ab_frames b + frame := v]\<rparr>"

text \<open>The input channels \<open>out\<close>, \<open>out + step\<close>, \<open>out + 2 * step\<close> and so on.\<close>

definition bus_inputs :: "nat \<Rightarrow> nat \<Rightarrow> nat \<Rightarrow> nat list" where
  "bus_inputs out step channels = filter (\<lambda>i. out \<le> i \<and> (i - out) mod step = 0) [0..<channels]"

definition bus_sum :: "audio_buffer \<Rightarrow> nat \<Rightarrow> nat \<Rightarrow> nat \<Rightarrow> f32" where
  "bus_sum input out step frame =
     fold (\<lambda>i sum. f32_add sum (ab_channel input i ! frame)) (bus_inputs out step (ab_channels input)) 0"

definition bus_process :: "nat \<Rightarrow> audio_buffer \<Rightarrow> audio_buffer \<Rightarrow> audio_buffer" where
  "bus_process bus_channels input output =
     (let cleared = ab_clear output; frames = min (ab_frames input) (ab_frames output);
          outs = min (ab_channels output) bus_channels
      in if outs = 0 then cleared
         else fold (\<lambda>frame. fold (\<lambda>out. ab_set_sample out frame (bus_sum input out outs frame)) [0..<outs])
           [0..<frames] cleared)"

definition mix_route :: "f32 list \<Rightarrow> nat \<Rightarrow> nat \<Rightarrow> f32 \<Rightarrow> audio_buffer \<Rightarrow> audio_buffer" where
  "mix_route source frames out gain b =
     ab_put_channel (map2 (\<lambda>o_sample i_sample. f32_add o_sample (f32_mul i_sample gain))
       (take frames (ab_channel b out)) (take frames source)) out b"

definition matrix_process :: "route_matrix \<Rightarrow> audio_buffer \<Rightarrow> audio_buffer \<Rightarrow> audio_buffer" where
  "matrix_process m input output =
     (let inputs = min (ab_channels input) (rm_input_channels m); outputs = min (ab_channels output) (rm_output_channels m);
          frames = min (ab_frames input) (ab_frames output)
      in fold (\<lambda>out. fold (\<lambda>i b. if f32_is_zero (rm_gain m i out) then b
             else mix_route (ab_channel input i) frames out (rm_gain m i out) b) [0..<inputs])
           [0..<outputs] (ab_clear output))"

fun node_process :: "graph_node \<Rightarrow> audio_buffer \<Rightarrow> audio_buffer \<Rightarrow> graph_node \<times> audio_buffer" where
  "node_process PassthroughNode input output = (PassthroughNode, passthrough_process input output)"
| "node_process (GainNode gain) input output = (GainNode gain, gain_process gain input output)"
| "node_process (MuteNode muted) input output = (MuteNode muted, mute_process muted input output)"
| "node_process (MeterNode peak rms) input output =
     (case meter_process peak rms input output of (peak', rms', out) \<Rightarrow> (MeterNode peak' rms', out))"
| "node_process (BusNode channels) input output = (BusNode channels, bus_process channels input output)"
| "node_process (PolarityInvertNode inverted) input output =
     (PolarityInvertNode inverted, polarity_process inverted input output)"
| "node_process (RouteMatrixNode m) input output = (RouteMatrixNode m, matrix_process m input output)"

section \<open>The graph\<close>

text \<open>
  The node loop. The current input is the caller's buffer or the scratch buffer written last; the
  buffers are the two scratch buffers and the output.
\<close>

datatype process_source = FromInput | FromScratchA | FromScratchB

record process_buffers =
  pb_scratch_a :: audio_buffer
  pb_scratch_b :: audio_buffer
  pb_output :: audio_buffer

fun source_buffer :: "audio_buffer \<Rightarrow> process_buffers \<Rightarrow> process_source \<Rightarrow> audio_buffer" where
  "source_buffer input bs FromInput = input"
| "source_buffer input bs FromScratchA = pb_scratch_a bs"
| "source_buffer input bs FromScratchB = pb_scratch_b bs"

fun clear_target :: "bool \<Rightarrow> nat \<Rightarrow> process_buffers \<Rightarrow> process_buffers" where
  "clear_target is_last index bs =
     (if is_last then bs\<lparr>pb_output := ab_clear (pb_output bs)\<rparr>
      else if even index then bs\<lparr>pb_scratch_a := ab_clear (pb_scratch_a bs)\<rparr>
      else bs\<lparr>pb_scratch_b := ab_clear (pb_scratch_b bs)\<rparr>)"

fun process_nodes ::
  "audio_buffer \<Rightarrow> nat \<Rightarrow> graph_node list \<Rightarrow> process_source \<Rightarrow> process_buffers \<Rightarrow> graph_node list \<times> process_buffers" where
  "process_nodes input index [] src bs = ([], bs)"
| "process_nodes input index (n # ns) src bs =
     (let is_last = (ns = []); cleared = clear_target is_last index bs; source = source_buffer input cleared src
      in if is_last then
           (case node_process n source (pb_output cleared) of (n', out) \<Rightarrow> ([n'], cleared\<lparr>pb_output := out\<rparr>))
         else if even index then
           (case node_process n source (pb_scratch_a cleared) of
              (n', out) \<Rightarrow> apfst (Cons n') (process_nodes input (index + 1) ns FromScratchA (cleared\<lparr>pb_scratch_a := out\<rparr>)))
         else
           (case node_process n source (pb_scratch_b cleared) of
              (n', out) \<Rightarrow> apfst (Cons n') (process_nodes input (index + 1) ns FromScratchB (cleared\<lparr>pb_scratch_b := out\<rparr>))))"

text \<open>
  The clock is read before and after the nodes; the seconds between are given. A block of no rate has
  an infinite budget.
\<close>

definition graph_process ::
  "f64 \<Rightarrow> audio_buffer \<Rightarrow> graph \<Rightarrow> process_buffers \<Rightarrow> engine_diagnostics \<Rightarrow> graph \<times> process_buffers \<times> engine_diagnostics" where
  "graph_process elapsed input g bs d =
     (let (nodes, bs') =
            (if g_nodes g = [] then ([], bs\<lparr>pb_output := ab_copy_from (pb_output bs) input\<rparr>)
             else process_nodes input 0 (g_nodes g) FromInput bs);
          block_seconds = f64_div (f64_of_nat (ab_frames input)) (f64_of_nat (unat (g_sample_rate g)));
          d1 = d\<lparr>ed_graph_version := g_version g, ed_processed_blocks := ed_processed_blocks d + 1,
                 ed_last_callback_seconds := elapsed,
                 ed_peak_callback_seconds := f64_max (ed_peak_callback_seconds d) elapsed\<rparr>
      in (g\<lparr>g_nodes := nodes\<rparr>, bs',
          if f64_less block_seconds elapsed then d1\<lparr>ed_xrun_count := ed_xrun_count d + 1\<rparr> else d1))"

section \<open>Shapes\<close>

definition shape_of :: "nat \<Rightarrow> nat \<Rightarrow> audio_buffer \<Rightarrow> bool" where
  "shape_of c f b \<longleftrightarrow> ab_wf b \<and> ab_channels b = c \<and> ab_frames b = f"

lemma shape_clear [simp]: "shape_of c f (ab_clear b) = shape_of c f b"
  by (simp add: shape_of_def)

lemma shape_copy_from: "shape_of c f b \<Longrightarrow> ab_wf src \<Longrightarrow> shape_of c f (ab_copy_from b src)"
  by (simp add: shape_of_def ab_copy_from_simps)

lemma shape_put_channel:
  "shape_of c f b \<Longrightarrow> d < c \<Longrightarrow> length xs \<le> f \<Longrightarrow> shape_of c f (ab_put_channel xs d b)"
  by (simp add: shape_of_def ab_put_channel_wf)

lemma shape_set_sample [simp]: "shape_of c f b \<Longrightarrow> shape_of c f (ab_set_sample d j v b)"
  by (simp add: shape_of_def ab_set_sample_def ab_wf_def)

lemma fold_keeps: "P b \<Longrightarrow> (\<And>x b. x \<in> set xs \<Longrightarrow> P b \<Longrightarrow> P (f x b)) \<Longrightarrow> P (fold f xs b)"
  by (rule fold_invariant [where Q = "\<lambda>x. x \<in> set xs"]) auto

lemma shape_put_channels:
  "shape_of c f b \<Longrightarrow> n \<le> c \<Longrightarrow> (\<And>d. d < n \<Longrightarrow> length (g d) \<le> f) \<Longrightarrow>
     shape_of c f (fold (\<lambda>d. ab_put_channel (g d) d) [0..<n] b)"
  by (rule fold_keeps) (auto intro: shape_put_channel)

lemma shape_mix_route: "shape_of c f b \<Longrightarrow> out < c \<Longrightarrow> shape_of c f (mix_route xs n out gain b)"
  unfolding mix_route_def by (rule shape_put_channel) (auto simp: shape_of_def)

lemma shape_matrix:
  assumes "shape_of c f output"
  shows "shape_of c f (matrix_process m input output)"
proof -
  have c: "ab_channels output = c" "shape_of c f (ab_clear output)" using assms by (simp_all add: shape_of_def)
  show ?thesis unfolding matrix_process_def Let_def
    by (intro fold_keeps [where P = "shape_of c f"]) (use c in \<open>simp_all add: shape_mix_route\<close>)
qed

lemma shape_bus: "shape_of c f output \<Longrightarrow> shape_of c f (bus_process n input output)"
proof -
  assume "shape_of c f output"
  then have "shape_of c f (ab_clear output)" by simp
  then show ?thesis unfolding bus_process_def Let_def
    by (auto intro!: fold_keeps [where P = "shape_of c f"])
qed

lemma shape_map_channels:
  assumes "shape_of c f output"
  shows "shape_of c f (fold (\<lambda>d. ab_put_channel (map h (take (min n (ab_frames output)) (ab_channel input d))) d)
    [0..<min k (ab_channels output)] output)"
  using assms by (intro shape_put_channels) (auto simp: shape_of_def)

lemma node_process_shape:
  assumes "ab_wf input" "shape_of c f output"
  shows "shape_of c f (snd (node_process n input output))"
proof (cases n)
  case PassthroughNode
  then show ?thesis using shape_map_channels [OF assms(2), of "\<lambda>x. x"] by (simp add: passthrough_process_def Let_def)
next
  case (GainNode g)
  then show ?thesis using shape_map_channels [OF assms(2)] by (simp add: gain_process_def Let_def)
next
  case (MuteNode m)
  then show ?thesis using shape_copy_from [OF assms(2,1)] assms(2) by (simp add: mute_process_def)
next
  case (MeterNode peak rms)
  then show ?thesis using shape_copy_from [OF assms(2,1)] by (simp add: meter_process_def Let_def split: prod.splits)
next
  case (BusNode k)
  then show ?thesis using shape_bus [OF assms(2)] by simp
next
  case (PolarityInvertNode inverted)
  then show ?thesis using shape_copy_from [OF assms(2,1)] shape_map_channels [OF assms(2)]
    by (simp add: polarity_process_def Let_def)
next
  case (RouteMatrixNode m)
  then show ?thesis using shape_matrix [OF assms(2)] by simp
qed

section \<open>The node loop is a chain\<close>

definition silence :: "nat \<Rightarrow> nat \<Rightarrow> audio_buffer" where
  "silence c f = \<lparr>ab_channels = c, ab_frames = f, ab_samples = replicate (c * f) 0\<rparr>"

lemma clear_is_silence: "shape_of c f b \<Longrightarrow> ab_clear b = silence c f"
  by (simp add: shape_of_def ab_clear_def silence_def ab_wf_def audio_buffer.equality)

lemma silence_shape [simp]: "shape_of c f (silence c f)"
  by (simp add: shape_of_def silence_def ab_wf_def)

text \<open>
  The nodes in a row: each reads what the one before it wrote, on a silent buffer of the graph's shape, the
  last on a silent buffer of the output's.
\<close>

fun chain_process ::
  "nat \<times> nat \<Rightarrow> nat \<times> nat \<Rightarrow> graph_node list \<Rightarrow> audio_buffer \<Rightarrow> graph_node list \<times> audio_buffer" where
  "chain_process shape out_shape [] input = ([], input)"
| "chain_process shape out_shape (n # ns) input =
     (if ns = [] then (case node_process n input (case_prod silence out_shape) of (n', out) \<Rightarrow> ([n'], out))
      else case node_process n input (case_prod silence shape) of
        (n', mid) \<Rightarrow> apfst (Cons n') (chain_process shape out_shape ns mid))"

definition buffers_ok :: "nat \<Rightarrow> nat \<Rightarrow> nat \<Rightarrow> nat \<Rightarrow> process_buffers \<Rightarrow> bool" where
  "buffers_ok c f oc of' bs \<longleftrightarrow> shape_of c f (pb_scratch_a bs) \<and> shape_of c f (pb_scratch_b bs) \<and> shape_of oc of' (pb_output bs)"

text \<open>The buffer a node reads is never the one it writes.\<close>

definition source_apart :: "nat \<Rightarrow> process_source \<Rightarrow> bool" where
  "source_apart index src \<longleftrightarrow> (if even index then src \<noteq> FromScratchA else src \<noteq> FromScratchB)"

lemma cleared_source: "source_apart index src \<Longrightarrow> source_buffer input (clear_target is_last index bs) src = source_buffer input bs src"
  by (cases src) (auto simp: source_apart_def)

lemma cleared_ok: "buffers_ok c f oc of' bs \<Longrightarrow> buffers_ok c f oc of' (clear_target is_last index bs)"
  by (simp add: buffers_ok_def)

lemma source_wf: "buffers_ok c f oc of' bs \<Longrightarrow> ab_wf input \<Longrightarrow> ab_wf (source_buffer input bs src)"
  by (cases src) (simp_all add: buffers_ok_def shape_of_def)

lemma process_nodes_chain:
  assumes "buffers_ok c f oc of' bs" "ab_wf input" "source_apart index src" "ns \<noteq> []"
  shows "fst (process_nodes input index ns src bs) =
      fst (chain_process (c, f) (oc, of') ns (source_buffer input bs src)) \<and>
    pb_output (snd (process_nodes input index ns src bs)) =
      snd (chain_process (c, f) (oc, of') ns (source_buffer input bs src)) \<and>
    buffers_ok c f oc of' (snd (process_nodes input index ns src bs))"
  using assms
proof (induction ns arbitrary: index src bs)
  case (Cons n ns)
  let ?cleared = "clear_target (ns = []) index bs" and ?src = "source_buffer input bs src"
  have ok: "buffers_ok c f oc of' ?cleared" by (rule cleared_ok [OF Cons.prems(1)])
  have src: "source_buffer input ?cleared src = ?src" by (rule cleared_source [OF Cons.prems(3)])
  have wf: "ab_wf ?src" by (rule source_wf [OF Cons.prems(1,2)])
  note shapes = Cons.prems(1) [unfolded buffers_ok_def]
  show ?case
  proof (cases "ns = []")
    case True
    have "pb_output ?cleared = silence oc of'" using shapes True by (simp add: clear_is_silence)
    then show ?thesis
      using True src ok node_process_shape [OF wf silence_shape, of oc of' n]
      by (simp add: case_prod_beta Let_def buffers_ok_def)
  next
    case False
    obtain n' mid where r: "node_process n ?src (silence c f) = (n', mid)" by (cases "node_process n ?src (silence c f)")
    have mid: "shape_of c f mid" using node_process_shape [OF wf silence_shape, of c f n] r by simp
    show ?thesis
    proof (cases "even index")
      case True
      let ?bs = "?cleared\<lparr>pb_scratch_a := mid\<rparr>"
      have target: "pb_scratch_a ?cleared = silence c f" using shapes True False by (simp add: clear_is_silence)
      have "buffers_ok c f oc of' ?bs" "source_apart (index + 1) FromScratchA"
        using ok mid True by (simp_all add: buffers_ok_def source_apart_def)
      from Cons.IH [OF this(1) Cons.prems(2) this(2) False] show ?thesis
        using False True src r target by (simp add: Let_def)
    next
      case odd: False
      let ?bs = "?cleared\<lparr>pb_scratch_b := mid\<rparr>"
      have target: "pb_scratch_b ?cleared = silence c f" using shapes odd False by (simp add: clear_is_silence)
      have "buffers_ok c f oc of' ?bs" "source_apart (index + 1) FromScratchB"
        using ok mid odd by (simp_all add: buffers_ok_def source_apart_def)
      from Cons.IH [OF this(1) Cons.prems(2) this(2) False] show ?thesis
        using False odd src r target by (simp add: Let_def)
    qed
  qed
qed simp

section \<open>What the matrix mixes\<close>

text \<open>The sum at one sample of an output: the routed inputs in their order.\<close>

definition routed_inputs :: "route_matrix \<Rightarrow> nat \<Rightarrow> nat \<Rightarrow> nat list" where
  "routed_inputs m channels out =
     filter (\<lambda>i. \<not> f32_is_zero (rm_gain m i out)) [0..<min channels (rm_input_channels m)]"

definition routed_sum :: "route_matrix \<Rightarrow> audio_buffer \<Rightarrow> nat \<Rightarrow> nat \<Rightarrow> f32" where
  "routed_sum m input out j =
     fold (\<lambda>i acc. f32_add acc (f32_mul (ab_channel input i ! j) (rm_gain m i out))) (routed_inputs m (ab_channels input) out) 0"

lemma mix_route_nth:
  assumes "shape_of c f b" "out < c" "n \<le> f" "n \<le> length xs" "e < c" "j < f"
  shows "ab_channel (mix_route xs n out g b) e ! j =
    (if e = out \<and> j < n then f32_add (ab_channel b out ! j) (f32_mul (xs ! j) g) else ab_channel b e ! j)"
proof -
  let ?ys = "map2 (\<lambda>x y. f32_add x (f32_mul y g)) (take n (ab_channel b out)) (take n xs)"
  have b: "ab_wf b" "ab_channels b = c" "ab_frames b = f" using assms(1) by (simp_all add: shape_of_def)
  have len: "length (ab_channel b out) = f" "length ?ys = n" using b assms(2-4) by simp_all
  have ch: "ab_channel (mix_route xs n out g b) e = (if e = out then ?ys @ drop n (ab_channel b out) else ab_channel b e)"
    using ab_put_channel_wf(2) [OF b(1), of out ?ys e] b assms(2,3,5) len by (simp add: mix_route_def)
  show ?thesis using len assms(3,4,6) by (auto simp: ch nth_append)
qed

lemma mix_routes_nth:
  assumes "shape_of c f b" "out < c" "n \<le> f" "\<forall>i\<in>set is. n \<le> length (xs i)"
  shows "shape_of c f (fold (\<lambda>i. mix_route (xs i) n out (g i)) is b) \<and>
    (\<forall>e<c. \<forall>j<f. ab_channel (fold (\<lambda>i. mix_route (xs i) n out (g i)) is b) e ! j =
      (if e = out \<and> j < n then fold (\<lambda>i acc. f32_add acc (f32_mul (xs i ! j) (g i))) is (ab_channel b out ! j)
       else ab_channel b e ! j))"
  using assms(1,4)
proof (induction "is" arbitrary: b)
  case (Cons i "is")
  let ?b = "mix_route (xs i) n out (g i) b"
  have shape: "shape_of c f ?b" by (rule shape_mix_route [OF Cons.prems(1) assms(2)])
  have nth: "ab_channel ?b e ! j = (if e = out \<and> j < n then f32_add (ab_channel b out ! j) (f32_mul (xs i ! j) (g i))
      else ab_channel b e ! j)" if "e < c" "j < f" for e j
    using mix_route_nth [OF Cons.prems(1) assms(2,3) _ that] Cons.prems(2) by simp
  have "\<forall>i\<in>set is. n \<le> length (xs i)" using Cons.prems(2) by simp
  from Cons.IH [OF shape this] show ?case using nth assms(2,3) by auto
qed simp

lemma fold_skip: "fold (\<lambda>x b. if P x then b else h x b) xs b = fold h (filter (\<lambda>x. \<not> P x) xs) b"
  by (induction xs arbitrary: b) simp_all

lemma matrix_process_filtered:
  "matrix_process m input output =
     fold (\<lambda>out. fold (\<lambda>i. mix_route (ab_channel input i) (min (ab_frames input) (ab_frames output)) out (rm_gain m i out))
         (routed_inputs m (ab_channels input) out))
       [0..<min (ab_channels output) (rm_output_channels m)] (ab_clear output)"
  unfolding matrix_process_def Let_def fold_skip routed_inputs_def by (rule refl)

lemma mixed_outputs:
  fixes m :: route_matrix
  assumes "ab_wf input" "shape_of c f output" "k \<le> c"
  defines "n \<equiv> min (ab_frames input) f"
  defines "r \<equiv> \<lambda>k. fold (\<lambda>out. fold (\<lambda>i. mix_route (ab_channel input i) n out (rm_gain m i out))
      (routed_inputs m (ab_channels input) out)) [0..<k] (ab_clear output)"
  shows "shape_of c f (r k) \<and>
    (\<forall>e<c. \<forall>j<f. ab_channel (r k) e ! j = (if e < k \<and> j < n then routed_sum m input e j else 0))"
  using assms(3)
proof (induction k)
  case 0
  have "ab_wf output" "ab_channels output = c" "ab_frames output = f" using assms(2) by (simp_all add: shape_of_def)
  then show ?case using assms(2) by (simp add: r_def ab_channel_clear)
next
  case (Suc k)
  have IH: "shape_of c f (r k)"
    "\<forall>e<c. \<forall>j<f. ab_channel (r k) e ! j = (if e < k \<and> j < n then routed_sum m input e j else 0)" using Suc by simp_all
  have step: "r (Suc k) = fold (\<lambda>i. mix_route (ab_channel input i) n k (rm_gain m i k))
      (routed_inputs m (ab_channels input) k) (r k)" by (simp add: r_def)
  have len: "\<forall>i\<in>set (routed_inputs m (ab_channels input) k). n \<le> length (ab_channel input i)"
    using assms(1) by (simp add: routed_inputs_def n_def)
  have "k < c" "n \<le> f" using Suc.prems by (simp_all add: n_def)
  from mix_routes_nth [OF IH(1) this len, of "\<lambda>i. rm_gain m i k"] show ?case
    using IH(2) \<open>k < c\<close> by (auto simp: step routed_sum_def less_Suc_eq)
qed

lemma matrix_mixes:
  assumes "ab_wf input" "shape_of c f output"
  shows "shape_of c f (matrix_process m input output)"
    and "e < c \<Longrightarrow> j < f \<Longrightarrow> ab_channel (matrix_process m input output) e ! j =
      (if e < rm_output_channels m \<and> j < ab_frames input then routed_sum m input e j else 0)"
  using mixed_outputs [OF assms, of "min (ab_channels output) (rm_output_channels m)" m] assms(2)
  by (simp_all add: matrix_process_filtered shape_of_def)

section \<open>Properties\<close>

text \<open>
  C9: For any contents of the scratch buffers and of the output, a graph without nodes copies its input onto
  a silent output, and a graph with nodes leaves in the output what its nodes yield in a row, each on a silent buffer;
  the nodes keep the meter levels of that run. The block is counted once, under the graph's version, and as
  an overrun exactly when it took longer than its frames last.
\<close>

theorem graph_runs_node_chain:
  assumes "buffers_ok c f oc of' bs" "ab_wf input" "graph_process elapsed input g bs d = (g', bs', d')"
  shows "pb_output bs' =
      (if g_nodes g = [] then ab_copy_from (silence oc of') input
       else snd (chain_process (c, f) (oc, of') (g_nodes g) input)) \<and>
    g_nodes g' = (if g_nodes g = [] then [] else fst (chain_process (c, f) (oc, of') (g_nodes g) input)) \<and>
    buffers_ok c f oc of' bs' \<and>
    ed_processed_blocks d' = ed_processed_blocks d + 1 \<and>
    ed_graph_version d' = g_version g \<and>
    ed_xrun_count d' = ed_xrun_count d +
      (if f64_less (f64_div (f64_of_nat (ab_frames input)) (f64_of_nat (unat (g_sample_rate g)))) elapsed then 1 else 0)"
proof -
  have "ab_clear (pb_output bs) = silence oc of'" using assms(1) by (simp add: buffers_ok_def clear_is_silence)
  then have copy: "ab_copy_from (pb_output bs) input = ab_copy_from (silence oc of') input"
    using clear_is_silence [OF silence_shape, of oc of'] assms(1)
    by (simp add: ab_copy_from_def Let_def buffers_ok_def shape_of_def silence_def)
  have src: "source_buffer input bs FromInput = input" "source_apart 0 FromInput" by (simp_all add: source_apart_def)
  have copy_shape: "shape_of oc of' (ab_copy_from (pb_output bs) input)"
    using assms(1,2) by (simp add: buffers_ok_def shape_copy_from)
  have "pb_output bs' =
      (if g_nodes g = [] then ab_copy_from (silence oc of') input
       else snd (chain_process (c, f) (oc, of') (g_nodes g) input))"
    "g_nodes g' = (if g_nodes g = [] then [] else fst (chain_process (c, f) (oc, of') (g_nodes g) input))"
    "buffers_ok c f oc of' bs'"
    using process_nodes_chain [OF assms(1,2) src(2), of "g_nodes g"] assms(1,3) copy copy_shape
    by (auto simp: graph_process_def Let_def src buffers_ok_def split: prod.splits if_splits)
  moreover have "ed_processed_blocks d' = ed_processed_blocks d + 1" "ed_graph_version d' = g_version g"
    "ed_xrun_count d' = ed_xrun_count d +
      (if f64_less (f64_div (f64_of_nat (ab_frames input)) (f64_of_nat (unat (g_sample_rate g)))) elapsed then 1 else 0)"
    using assms(3) by (auto simp: graph_process_def Let_def split: prod.splits if_splits)
  ultimately show ?thesis by blast
qed

definition demo_stereo :: "f32 list \<Rightarrow> audio_buffer" where
  "demo_stereo samples = \<lparr>ab_channels = 2, ab_frames = length samples div 2, ab_samples = samples\<rparr>"

definition demo_chain_graph :: graph where
  "demo_chain_graph = \<lparr>g_version = 7, g_sample_rate = 48000, g_channels = 2, g_frames = 2,
     g_nodes = [PassthroughNode, PolarityInvertNode True, MuteNode False],
     g_node_ids = [''a'', ''b'', ''c''], g_node_labels = [''a'', ''b'', ''c'']\<rparr>"

lemma demo_chain_output:
  "ab_samples (snd (chain_process (2, 2) (2, 2) (g_nodes demo_chain_graph) (demo_stereo [0x3F800000, 0, 0xBF800000, 0x40400000]))) =
     [0xBF800000, 0x80000000, 0x3F800000, 0xC0400000]"
  by code_simp

theorem graph_runs_node_chain_witness:
  "\<exists>g' bs' d'. graph_process 0 (demo_stereo [0x3F800000, 0, 0xBF800000, 0x40400000]) demo_chain_graph
      \<lparr>pb_scratch_a = demo_stereo [1, 2, 3, 4], pb_scratch_b = demo_stereo [5, 6, 7, 8], pb_output = demo_stereo [9, 9, 9, 9]\<rparr>
      (default_diagnostics\<lparr>ed_processed_blocks := 41\<rparr>) = (g', bs', d') \<and>
    ab_samples (pb_output bs') = [0xBF800000, 0x80000000, 0x3F800000, 0xC0400000] \<and> ed_processed_blocks d' = 42"
proof -
  let ?in = "demo_stereo [0x3F800000, 0, 0xBF800000, 0x40400000]"
  let ?bs = "\<lparr>pb_scratch_a = demo_stereo [1, 2, 3, 4], pb_scratch_b = demo_stereo [5, 6, 7, 8], pb_output = demo_stereo [9, 9, 9, 9]\<rparr>"
  obtain g' bs' d' where run: "graph_process 0 ?in demo_chain_graph ?bs (default_diagnostics\<lparr>ed_processed_blocks := 41\<rparr>) = (g', bs', d')"
    by (metis prod_cases3)
  have ok: "buffers_ok 2 2 2 2 ?bs" "ab_wf ?in"
    by (simp_all add: buffers_ok_def shape_of_def demo_stereo_def ab_wf_def)
  show ?thesis
    using graph_runs_node_chain [OF ok run] run demo_chain_output by (simp add: demo_chain_graph_def)
qed

text \<open>
  C10: Every sample of an output channel the matrix routes is the sum, from positive zero and in the order of the inputs, of the
  input samples times their gains, over the inputs whose gain is not a zero; samples past the input's frames
  and channels past the matrix's outputs are silent. The old contents of the output have no part in it.
\<close>

theorem matrix_output_samples:
  assumes "ab_wf input" "ab_wf output" "e < ab_channels output" "j < ab_frames output"
  shows "ab_channel (matrix_process m input output) e ! j =
      (if e < rm_output_channels m \<and> j < ab_frames input
       then fold (\<lambda>i sum. f32_add sum (f32_mul (ab_channel input i ! j) (rm_gain m i e)))
         (filter (\<lambda>i. \<not> f32_is_zero (rm_gain m i e)) [0..<min (ab_channels input) (rm_input_channels m)]) 0
       else 0)"
proof -
  have shape: "shape_of (ab_channels output) (ab_frames output) output" using assms(2) by (simp add: shape_of_def)
  show ?thesis
    using matrix_mixes(2) [OF assms(1) shape assms(3,4), of m] by (simp add: routed_sum_def routed_inputs_def)
qed

definition demo_mix_ports :: "route_endpoint list" where
  "demo_mix_ports = [\<lparr>re_id = ''l'', re_label = ''L''\<rparr>, \<lparr>re_id = ''r'', re_label = ''R''\<rparr>]"

definition demo_mix :: route_matrix where
  "demo_mix = \<lparr>rm_inputs = demo_mix_ports, rm_outputs = demo_mix_ports, rm_gains = [0x3F800000, 0x40000000, 0, 0x3F800000]\<rparr>"

lemma demo_mix_routes:
  "filter (\<lambda>i. \<not> f32_is_zero (rm_gain demo_mix i (Suc 0))) [0..<2] = [Suc 0]" "rm_gain demo_mix (Suc 0) (Suc 0) = 0x3F800000"
  "rm_input_channels demo_mix = 2" "rm_output_channels demo_mix = 2"
  by (simp_all add: upt_rec rm_gain_def demo_mix_def demo_mix_ports_def rm_index_def rm_input_channels_def rm_output_channels_def
      f32_is_zero_def)

theorem matrix_output_samples_witness:
  "ab_channel (matrix_process demo_mix (demo_stereo [0x3F800000, 0, 0xBF800000, 0x40400000]) (demo_stereo [9, 9, 9, 9])) 1 ! 1 =
     0x40400000"
proof -
  have "ab_wf (demo_stereo [0x3F800000, 0, 0xBF800000, 0x40400000])" "ab_wf (demo_stereo [9, 9, 9, 9])"
    by (simp_all add: demo_stereo_def ab_wf_def)
  moreover have "f32_finite 0x40400000" "\<not> f32_is_zero 0x40400000" by (simp_all add: f32_is_zero_def f32_finite_def)
  ultimately show ?thesis
    using matrix_output_samples [of "demo_stereo [0x3F800000, 0, 0xBF800000, 0x40400000]" "demo_stereo [9, 9, 9, 9]" 1 1 demo_mix]
    by (simp add: demo_mix_routes demo_stereo_def ab_channel_def f32_mul_one f32_add_zero)
qed

text \<open>
  C11: An output hears only the inputs routed to it: two blocks that agree on those channels, whatever else they hold, NaNs
  and infinities included, give the same samples there. An output fed by one input alone, at unity gain,
  repeats its finite samples, a negative zero becoming a positive one.
\<close>

theorem matrix_isolates_routes:
  assumes "ab_wf input" "ab_wf input'" "ab_wf output" "e < ab_channels output" "j < ab_frames output"
    and "ab_channels input' = ab_channels input" "ab_frames input' = ab_frames input"
    and "\<And>i. \<not> f32_is_zero (rm_gain m i e) \<Longrightarrow> i < ab_channels input \<Longrightarrow> ab_channel input' i = ab_channel input i"
  shows "ab_channel (matrix_process m input' output) e ! j = ab_channel (matrix_process m input output) e ! j \<and>
    (\<forall>s. (\<forall>i. rm_gain m i e = (if i = s then 0x3F800000 else 0)) \<and> s < ab_channels input \<and> j < ab_frames input \<and>
        f32_finite (ab_channel input s ! j) \<longrightarrow>
      ab_channel (matrix_process m input output) e ! j =
        (if f32_is_zero (ab_channel input s ! j) then 0 else ab_channel input s ! j))"
proof (intro conjI allI impI)
  have shape: "shape_of (ab_channels output) (ab_frames output) output" using assms(3) by (simp add: shape_of_def)
  note mix = matrix_mixes(2) [OF assms(1) shape assms(4,5), of m]
  note mix' = matrix_mixes(2) [OF assms(2) shape assms(4,5), of m]
  have "routed_sum m input' e j = routed_sum m input e j"
    unfolding routed_sum_def assms(6) by (rule fold_cong) (auto simp: routed_inputs_def assms(8))
  then show "ab_channel (matrix_process m input' output) e ! j = ab_channel (matrix_process m input output) e ! j"
    using mix mix' assms(7) by simp
  fix s
  assume "(\<forall>i. rm_gain m i e = (if i = s then 0x3F800000 else 0)) \<and> s < ab_channels input \<and> j < ab_frames input \<and>
    f32_finite (ab_channel input s ! j)"
  then have unity: "\<And>i. rm_gain m i e = (if i = s then 0x3F800000 else 0)" and s: "s < ab_channels input" "j < ab_frames input"
    and finite: "f32_finite (ab_channel input s ! j)" by simp_all
  have "rm_gain m s e \<noteq> 0" using unity by simp
  then have in_range: "s < rm_input_channels m" "e < rm_output_channels m" by (auto simp: rm_gain_def split: if_splits)
  have zero: "f32_is_zero (rm_gain m i e) \<longleftrightarrow> i \<noteq> s" for i using unity by (simp add: f32_is_zero_def)
  have "filter (\<lambda>i. i = s) [0..<k] = (if s < k then [s] else [])" for k by (induction k) auto
  then have "routed_inputs m (ab_channels input) e = [s]" using s in_range by (simp add: routed_inputs_def zero)
  then have "routed_sum m input e j = f32_add 0 (f32_mul (ab_channel input s ! j) 0x3F800000)"
    using unity by (simp add: routed_sum_def)
  then show "ab_channel (matrix_process m input output) e ! j =
        (if f32_is_zero (ab_channel input s ! j) then 0 else ab_channel input s ! j)"
    using mix in_range s finite by (simp add: f32_mul_one f32_add_zero)
qed

theorem matrix_isolates_routes_witness:
  "ab_channel (matrix_process demo_mix (demo_stereo [0x7FC00000, 0x7F800000, 0xBF800000, 0x40400000]) (demo_stereo [9, 9, 9, 9])) 1 ! 1 =
     ab_channel (matrix_process demo_mix (demo_stereo [0, 0, 0xBF800000, 0x40400000]) (demo_stereo [9, 9, 9, 9])) 1 ! 1"
proof (rule matrix_isolates_routes [THEN conjunct1])
  fix i
  assume i: "\<not> f32_is_zero (rm_gain demo_mix i 1)" "i < ab_channels (demo_stereo [0, 0, 0xBF800000, 0x40400000])"
  have "f32_is_zero (rm_gain demo_mix 0 1)"
    by (simp add: rm_gain_def demo_mix_def demo_mix_ports_def rm_index_def rm_input_channels_def rm_output_channels_def f32_is_zero_def)
  then have "i = 1" using i by (cases i) (auto simp: demo_stereo_def less_Suc_eq)
  then show "ab_channel (demo_stereo [0x7FC00000, 0x7F800000, 0xBF800000, 0x40400000]) i =
      ab_channel (demo_stereo [0, 0, 0xBF800000, 0x40400000]) i"
    by (simp add: demo_stereo_def ab_channel_def)
qed (simp_all add: demo_stereo_def ab_wf_def)

end
