(* ===== verification/FloatConvert.thy ===== *)
theory FloatConvert
  imports FloatArith
begin

text \<open>
  Conversions between integers and floats as the sample formats and the rate control use them:
  \<^verbatim>\<open>static_cast\<close> to \<^verbatim>\<open>float\<close>, division, the order of floats, \<^verbatim>\<open>std::clamp\<close> and \<^verbatim>\<open>std::lround\<close>. Values that need no
  rounding are carried exactly, which the lemmas on \<open>representable\<close> numbers show.
\<close>

section \<open>Operations\<close>

definition f32_of_int :: "int \<Rightarrow> f32" where
  "f32_of_int v = f32_make (v < 0) (fl_round 24 0 (nat \<bar>v\<bar> * 2 ^ 149))"

definition f32_div :: "f32 \<Rightarrow> f32 \<Rightarrow> f32" where
  "f32_div x y =
     (let negative = (f32_negative x \<noteq> f32_negative y)
      in if f32_nan x then f32_quiet x else if f32_nan y then f32_quiet y
         else if f32_infinite x then (if f32_infinite y then f32_invalid else f32_make negative 0x7F800000)
         else if f32_infinite y then f32_make negative 0
         else if f32_is_zero y
         then (if f32_is_zero x then f32_invalid else f32_make negative 0x7F800000)
         else
           let n = f32_units x * 2 ^ 150; d = f32_units y
           in f32_make negative (fl_round 24 2 (2 * (n div d) + (if n mod d = 0 then 0 else 1))))"

definition f32_less :: "f32 \<Rightarrow> f32 \<Rightarrow> bool" where
  "f32_less x y \<longleftrightarrow> \<not> f32_nan x \<and> \<not> f32_nan y \<and> \<not> (f32_is_zero x \<and> f32_is_zero y) \<and>
     (if f32_negative x then \<not> f32_negative y \<or> y < x else \<not> f32_negative y \<and> x < y)"

text \<open>\<^verbatim>\<open>std::clamp (v, lo, hi)\<close> is \<^verbatim>\<open>v < lo ? lo : hi < v ? hi : v\<close>; a NaN is not clamped.\<close>

definition f32_clamp :: "f32 \<Rightarrow> f32 \<Rightarrow> f32 \<Rightarrow> f32" where
  "f32_clamp v lo hi = (if f32_less v lo then lo else if f32_less hi v then hi else v)"

text \<open>
  Rounding to the nearest integer, halves away from zero. What the library returns for a NaN, an infinity or a value
  that does not fit is unspecified and given.
\<close>

definition f32_lround :: "int \<Rightarrow> f32 \<Rightarrow> int" where
  "f32_lround unspecified x =
     (if \<not> f32_finite x then unspecified
      else let n = int ((f32_units x + 2 ^ 148) div 2 ^ 149)
           in if 2 ^ 63 \<le> n then unspecified else if f32_negative x then - n else n)"

definition f64_lround :: "int \<Rightarrow> f64 \<Rightarrow> int" where
  "f64_lround unspecified x =
     (if \<not> f64_finite x then unspecified
      else let n = int ((f64_units x + 2 ^ 1073) div 2 ^ 1074)
           in if 2 ^ 63 \<le> n then unspecified else if f64_negative x then - n else n)"

section \<open>Representable numbers\<close>

definition representable :: "nat \<Rightarrow> nat \<Rightarrow> bool" where
  "representable p n \<longleftrightarrow> (\<exists>q e. n = q * 2 ^ e \<and> q < 2 ^ p)"

lemma representableI: "q < 2 ^ p \<Longrightarrow> representable p (q * 2 ^ e)"
  by (auto simp: representable_def)

lemma representable_scale: "representable p n \<Longrightarrow> representable p (n * 2 ^ k)"
  unfolding representable_def by (metis mult.assoc power_add)

lemma representable_mono: "representable p n \<Longrightarrow> p \<le> r \<Longrightarrow> representable r n"
proof -
  assume n: "representable p n" and r: "p \<le> r"
  have "(2 :: nat) ^ p \<le> 2 ^ r" using r by (rule power_increasing) simp
  then show ?thesis using n unfolding representable_def by (metis less_le_trans)
qed

lemma representable_mult: "representable p m \<Longrightarrow> representable r n \<Longrightarrow> representable (p + r) (m * n)"
proof -
  assume "representable p m" "representable r n"
  then obtain q e q' e' where m: "m = q * 2 ^ e" "q < 2 ^ p" and n: "n = q' * 2 ^ e'" "q' < 2 ^ r"
    by (auto simp: representable_def)
  have "q * q' < 2 ^ p * 2 ^ r" using m n by (intro mult_strict_mono') simp_all
  moreover have "m * n = (q * q') * 2 ^ (e + e')" by (simp add: m n power_add)
  ultimately show ?thesis unfolding representable_def by (metis power_add)
qed

text \<open>A representable number has a form with all its digits, or is small.\<close>

lemma representable_normal:
  assumes "representable p n" "2 ^ p \<le> n" "0 < p"
  obtains q e where "n = q * 2 ^ e" "2 ^ (p - 1) \<le> q" "q < 2 ^ p"
proof -
  obtain q e where n: "n = q * 2 ^ e" "q < 2 ^ p" using assms(1) by (auto simp: representable_def)
  have "0 < q" using assms(2) n by (metis gr0I mult_0 not_le zero_less_numeral zero_less_power)
  define k where "k = p - floorlog 2 q"
  have fl: "floorlog 2 q \<le> p" by (rule floorlog_leI [OF n(2)]) simp_all
  have "2 ^ (floorlog 2 q - 1) \<le> q" "q < 2 ^ floorlog 2 q" using floorlog_bounds [of q 2] \<open>0 < q\<close> by auto
  moreover have "0 < floorlog 2 q" using \<open>0 < q\<close> by (simp add: floorlog_def)
  ultimately have q: "2 ^ (p - 1) \<le> q * 2 ^ k" "q * 2 ^ k < 2 ^ p"
  proof -
    have "2 ^ (p - 1) = 2 ^ (floorlog 2 q - 1) * (2 :: nat) ^ k"
      using fl \<open>0 < floorlog 2 q\<close> by (simp add: k_def flip: power_add)
    then show "2 ^ (p - 1) \<le> q * 2 ^ k" using \<open>2 ^ (floorlog 2 q - 1) \<le> q\<close> by simp
    have "2 ^ p = 2 ^ floorlog 2 q * (2 :: nat) ^ k" using fl by (simp add: k_def flip: power_add)
    then show "q * 2 ^ k < 2 ^ p" using \<open>q < 2 ^ floorlog 2 q\<close> by simp
  qed
  have "k \<le> e"
  proof (rule ccontr)
    assume "\<not> k \<le> e"
    then have "(2 :: nat) ^ e \<le> 2 ^ k" by simp
    then have "n \<le> q * 2 ^ k" by (simp add: n)
    then show False using q(2) assms(2) by simp
  qed
  then have "n = (q * 2 ^ k) * 2 ^ (e - k)" by (simp add: n mult.assoc flip: power_add)
  then show thesis using q that by blast
qed

lemma units_small: "0 < p \<Longrightarrow> n < 2 ^ p \<Longrightarrow> units p n = n"
proof -
  assume p: "0 < p" "n < 2 ^ p"
  let ?b = "2 ^ (p - 1) :: nat"
  have two: "2 ^ p = 2 * ?b" using p(1) by (cases p) simp_all
  show ?thesis
  proof (cases "n < ?b")
    case True
    then show ?thesis by (simp add: units_def)
  next
    case False
    then have "n div ?b = 1" "n mod ?b = n - ?b" using p(2) two
      by (simp_all add: div_nat_eqI mod_if)
    then show ?thesis using False by (simp add: units_def)
  qed
qed

text \<open>The units of a number given by its two fields.\<close>

lemma units_digits:
  assumes "r < 2 ^ (p - 1)"
  shows "units p (k * 2 ^ (p - 1) + r) = (if k = 0 then r else (2 ^ (p - 1) + r) * 2 ^ (k - 1))"
proof -
  define b :: nat where "b = 2 ^ (p - 1)"
  have "r < b" using assms by (simp only: b_def)
  then have "(k * b + r) div b = k" "(k * b + r) mod b = r" by simp_all
  then show ?thesis unfolding units_def Let_def b_def [symmetric] by (simp only:)
qed

lemma units_fl_round:
  assumes "representable p n" "0 < p"
  shows "units p (fl_round p 0 n) = n"
proof (cases "n < 2 ^ p")
  case True
  then show ?thesis using assms(2) by (simp add: fl_round_small units_small)
next
  case False
  then have "2 ^ p \<le> n" by simp
  from representable_normal [OF assms(1) this assms(2)]
  obtain q e where n: "n = q * 2 ^ e" and q: "2 ^ (p - 1) \<le> q" "q < 2 ^ p" by blast
  define b :: nat where "b = 2 ^ (p - 1)"
  have two: "2 ^ p = 2 * b" using assms(2) unfolding b_def by (cases p) simp_all
  have b: "b \<le> q" "q < 2 * b" using q by (simp_all only: two b_def [symmetric])
  have "fl_round p 0 n = e * b + q" unfolding n b_def by (rule fl_round_normal [OF q assms(2)])
  also have "\<dots> = Suc e * b + (q - b)" using b(1) by simp
  finally have m: "fl_round p 0 n = Suc e * b + (q - b)" .
  have "q - b < 2 ^ (p - 1)" using b unfolding b_def [symmetric] by linarith
  from units_digits [OF this, of "Suc e"] have "units p (fl_round p 0 n) = (b + (q - b)) * 2 ^ e"
    unfolding m b_def [symmetric] by simp
  then show ?thesis using b(1) by (simp add: n)
qed

text \<open>The units grow with the bits.\<close>

lemma units_step: "units p m < units p (Suc m)"
proof -
  define b :: nat where "b = 2 ^ (p - 1)"
  have "0 < b" by (simp add: b_def)
  obtain k r where m: "m = k * b + r" and r: "r < b" using \<open>0 < b\<close> by (metis div_mult_mod_eq mod_less_divisor)
  have here: "units p m = (if k = 0 then r else (b + r) * 2 ^ (k - 1))"
    using units_digits [of r p k] r unfolding m b_def by simp
  show ?thesis
  proof (cases "Suc r < b")
    case True
    have "units p (Suc m) = (if k = 0 then Suc r else (b + Suc r) * 2 ^ (k - 1))"
      using units_digits [of "Suc r" p k] True unfolding m b_def by simp
    then show ?thesis using here by simp
  next
    case False
    then have rb: "Suc r = b" using r by simp
    have "Suc m = Suc k * b + 0" using rb by (simp add: m)
    then have after: "units p (Suc m) = b * 2 ^ k"
      using units_digits [of 0 p "Suc k"] \<open>0 < b\<close> unfolding b_def by simp
    show ?thesis
    proof (cases k)
      case 0
      then show ?thesis using r after here by simp
    next
      case (Suc l)
      have "units p m = (b + r) * 2 ^ l" by (simp add: here Suc)
      also have "\<dots> < (2 * b) * 2 ^ l" using r by simp
      finally show ?thesis using after Suc by simp
    qed
  qed
qed

lemma units_less_iff: "units p m < units p n \<longleftrightarrow> m < n"
proof -
  have "strict_mono (units p)" by (intro strict_mono_Suc_iff [THEN iffD2] allI units_step)
  then show ?thesis by (rule strict_mono_less)
qed

section \<open>Exact results\<close>

lemma f32_make_fields:
  assumes "m < 0x7F800000"
  shows "f32_magnitude (f32_make s m) = m" "f32_negative (f32_make s m) = s" "f32_finite (f32_make s m)"
proof -
  let ?n = "m + (if s then 2 ^ 31 else 0)"
  have "f32_make s m = word_of_nat ?n" unfolding f32_make_def using assms by (simp only: min_absorb1 less_imp_le)
  moreover have "?n < 2 ^ 32" using assms by simp
  ultimately have u: "unat (f32_make s m) = ?n" by (simp only: unsigned_of_nat) (simp add: take_bit_nat_eq_self)
  show m: "f32_magnitude (f32_make s m) = m" using assms u by (simp add: f32_magnitude_def)
  show "f32_negative (f32_make s m) = s" using assms u by (simp add: f32_negative_def word_le_nat_alt)
  show "f32_finite (f32_make s m)" using assms m by (simp add: f32_finite_iff)
qed

text \<open>A representable value below the largest exponent comes out of the rounding as it is.\<close>

lemma f32_make_exact:
  assumes "representable 24 n" "n < 2 ^ 277"
  shows "f32_units (f32_make s (fl_round 24 0 n)) = n" "f32_negative (f32_make s (fl_round 24 0 n)) = s"
    "f32_finite (f32_make s (fl_round 24 0 n))"
proof -
  have u: "units 24 (fl_round 24 0 n) = n" by (rule units_fl_round [OF assms(1)]) simp
  have "units 24 0x7F800000 = 2 ^ 277" by (simp add: units_def)
  then have "fl_round 24 0 n < 0x7F800000" using assms(2) u units_less_iff [of 24 "fl_round 24 0 n" "0x7F800000"] by simp
  note f = f32_make_fields [OF this, of s]
  show "f32_units (f32_make s (fl_round 24 0 n)) = n" using f(1) u by (simp add: f32_units_def)
  show "f32_negative (f32_make s (fl_round 24 0 n)) = s" "f32_finite (f32_make s (fl_round 24 0 n))" by (rule f)+
qed

lemma f64_finite_iff: "f64_finite x \<longleftrightarrow> f64_magnitude x < 0x7FF0000000000000"
proof -
  have field: "unat (drop_bit 52 x AND 2047) = unat x div 2 ^ 52 mod 2 ^ 11"
  proof -
    have "(2047 :: u64) = mask 11" by (simp add: mask_eq_exp_minus_1)
    then have "drop_bit 52 x AND 2047 = take_bit 11 (drop_bit 52 x)" by (simp only: take_bit_eq_mask)
    then show ?thesis by (simp add: take_bit_eq_mod drop_bit_eq_div unat_div unat_mod)
  qed
  have split: "unat x mod 2 ^ 63 = (unat x div 2 ^ 52 mod 2 ^ 11) * 2 ^ 52 + unat x mod 2 ^ 52"
    using mod_mult2_eq [of "unat x" "2 ^ 52" "2 ^ 11"] by simp
  have "unat x mod 2 ^ 52 < 2 ^ 52" "unat x div 2 ^ 52 mod 2 ^ 11 < 2 ^ 11" by simp_all
  then have "unat x mod 2 ^ 63 < 0x7FF0000000000000 \<longleftrightarrow> unat x div 2 ^ 52 mod 2 ^ 11 \<noteq> 2047"
    unfolding split by (cases "unat x div 2 ^ 52 mod 2 ^ 11 \<le> 2046") auto
  then show ?thesis unfolding f64_finite_def f64_magnitude_def by (simp add: word_unat_eq_iff field)
qed

lemma f64_finite_not: "f64_finite x \<Longrightarrow> \<not> f64_nan x \<and> \<not> f64_infinite x"
  using f64_finite_iff [of x] by (simp add: f64_nan_def f64_finite_def f64_infinite_def)

lemma f64_make_fields:
  assumes "m < 0x7FF0000000000000"
  shows "f64_magnitude (f64_make s m) = m" "f64_negative (f64_make s m) = s" "f64_finite (f64_make s m)"
proof -
  let ?n = "m + (if s then 2 ^ 63 else 0)"
  have "f64_make s m = word_of_nat ?n" unfolding f64_make_def using assms by (simp only: min_absorb1 less_imp_le)
  moreover have "?n < 2 ^ 64" using assms by simp
  ultimately have u: "unat (f64_make s m) = ?n" by (simp only: unsigned_of_nat) (simp add: take_bit_nat_eq_self)
  show m: "f64_magnitude (f64_make s m) = m" using assms u by (simp add: f64_magnitude_def)
  show "f64_negative (f64_make s m) = s" using assms u by (simp add: f64_negative_def word_le_nat_alt)
  show "f64_finite (f64_make s m)" using assms m by (simp add: f64_finite_iff)
qed

lemma f64_make_exact:
  assumes "representable 53 n" "n < 2 ^ 2098"
  shows "f64_units (f64_make s (fl_round 53 0 n)) = n" "f64_negative (f64_make s (fl_round 53 0 n)) = s"
    "f64_finite (f64_make s (fl_round 53 0 n))"
proof -
  have u: "units 53 (fl_round 53 0 n) = n" by (rule units_fl_round [OF assms(1)]) simp
  have "units 53 0x7FF0000000000000 = 2 ^ 2098" by (simp add: units_def)
  then have "fl_round 53 0 n < 0x7FF0000000000000"
    using assms(2) u units_less_iff [of 53 "fl_round 53 0 n" "0x7FF0000000000000"] by simp
  note f = f64_make_fields [OF this, of s]
  show "f64_units (f64_make s (fl_round 53 0 n)) = n" using f(1) u by (simp add: f64_units_def)
  show "f64_negative (f64_make s (fl_round 53 0 n)) = s" "f64_finite (f64_make s (fl_round 53 0 n))" by (rule f)+
qed

text \<open>An integer of at most 24 bits is exact, and so is its quotient by a power of two.\<close>

lemma representable_bits: "n < 2 ^ p \<Longrightarrow> representable p (n * 2 ^ e)"
  by (rule representableI)

lemma f32_of_int_exact:
  assumes "nat \<bar>v\<bar> < 2 ^ 24"
  shows "f32_units (f32_of_int v) = nat \<bar>v\<bar> * 2 ^ 149" "f32_negative (f32_of_int v) = (v < 0)" "f32_finite (f32_of_int v)"
proof -
  have "nat \<bar>v\<bar> * 2 ^ 149 < 2 ^ 24 * 2 ^ 149" using assms by (intro mult_strict_right_mono) simp_all
  also have "\<dots> \<le> 2 ^ 277" by simp
  finally have "nat \<bar>v\<bar> * 2 ^ 149 < 2 ^ 277" .
  note f = f32_make_exact [OF representable_bits [OF assms] this, of "v < 0"]
  show "f32_units (f32_of_int v) = nat \<bar>v\<bar> * 2 ^ 149" "f32_negative (f32_of_int v) = (v < 0)" "f32_finite (f32_of_int v)"
    unfolding f32_of_int_def by (rule f)+
qed

lemma f32_clamp_inside:
  assumes "f32_finite x" "f32_units x \<le> 2 ^ 149"
  shows "f32_clamp x 0xBF800000 0x3F800000 = x"
proof -
  have one: "units 24 0x3F800000 = 2 ^ 149" by (simp add: units_def)
  have m: "f32_magnitude x \<le> 0x3F800000"
    using assms(2) units_less_iff [of 24 "0x3F800000" "f32_magnitude x"] one by (simp add: f32_units_def not_less [symmetric])
  have x: "unat x < 2 ^ 32" using unsigned_less [where ?'a = nat, of x] by simp
  show ?thesis
  proof (cases "f32_negative x")
    case True
    then have "2 ^ 31 \<le> unat x" by (simp add: f32_negative_def word_le_nat_alt)
    then have "unat x = f32_magnitude x + 2 ^ 31" using x by (simp add: f32_magnitude_def le_mod_geq)
    then have "\<not> 0xBF800000 < x" using m by (simp add: word_less_nat_alt)
    then show ?thesis using True by (simp add: f32_clamp_def f32_less_def f32_negative_def)
  next
    case False
    then have "unat x = f32_magnitude x" using x by (simp add: f32_negative_def f32_magnitude_def word_le_nat_alt not_le)
    then have "\<not> 0x3F800000 < x" using m by (simp add: word_less_nat_alt)
    then show ?thesis using False by (simp add: f32_clamp_def f32_less_def f32_negative_def)
  qed
qed

lemma f32_to_f64_exact:
  assumes "f32_finite x"
  shows "f64_units (f32_to_f64 x) = f32_units x * 2 ^ 925" "f64_negative (f32_to_f64 x) = f32_negative x"
    "f64_finite (f32_to_f64 x)"
proof -
  define k r where "k = f32_magnitude x div 2 ^ 23" and "r = f32_magnitude x mod 2 ^ 23"
  have r: "r < 2 ^ 23" by (simp add: r_def)
  have "f32_magnitude x < 0x7F800000" using assms by (simp add: f32_finite_iff)
  then have k: "k \<le> 254" unfolding k_def by simp
  have u: "f32_units x = (if k = 0 then r else (2 ^ 23 + r) * 2 ^ (k - 1))"
    using units_digits [of r 24 k] r div_mult_mod_eq [of "f32_magnitude x" "2 ^ 23"] by (simp add: f32_units_def k_def r_def)
  have rep: "representable 24 (f32_units x)"
    using representableI [of r 24 0] representableI [of "2 ^ 23 + r" 24 "k - 1"] r by (simp add: u)
  have "f32_units x < 2 ^ 277"
  proof -
    have "f32_units x < units 24 0x7F800000" using assms units_less_iff [of 24 "f32_magnitude x" "0x7F800000"]
      by (simp add: f32_units_def f32_finite_iff)
    also have "units 24 0x7F800000 = 2 ^ 277" by (simp add: units_def)
    finally show ?thesis .
  qed
  then have "f32_units x * 2 ^ 925 < 2 ^ 277 * 2 ^ 925" by (rule mult_strict_right_mono) simp
  then have "f32_units x * 2 ^ 925 < 2 ^ 2098" by (rule less_trans) simp
  note f = f64_make_exact [OF representable_scale [OF representable_mono [OF rep]] this, of "f32_negative x"]
  have "f32_to_f64 x = f64_make (f32_negative x) (fl_round 53 0 (f32_units x * 2 ^ 925))"
    using f32_finite_not [OF assms] by (simp add: f32_to_f64_def)
  then show "f64_units (f32_to_f64 x) = f32_units x * 2 ^ 925" "f64_negative (f32_to_f64 x) = f32_negative x"
    "f64_finite (f32_to_f64 x)" using f by simp_all
qed

end
