(* ===== verification/SampleConverter.thy ===== *)
theory SampleConverter
  imports FloatConvert GraphProcess WireFormat AudioDevice
begin

text \<open>
  \<^verbatim>\<open>core/platform/sample_converter.{h,cpp}\<close>: interleaved device samples to the planar floats of an audio
  buffer and back. Memory is a list of bytes, least significant first as on the target; \<open>None\<close> is a null pointer.
\<close>

section \<open>Formats\<close>

datatype conversion_status = ConversionOk | ConversionUnsupported | ConversionTooSmall | ConversionChannels | ConversionNull

definition bytes_per_sample :: "audio_format \<Rightarrow> nat" where
  "bytes_per_sample f = (if af_bits_per_sample f mod 8 \<noteq> 0 then 0 else unat (af_bits_per_sample f div 8))"

definition saturated_multiply :: "nat \<Rightarrow> nat \<Rightarrow> nat" where
  "saturated_multiply lhs rhs =
     (if lhs = 0 \<or> rhs = 0 then 0 else if lhs > (2 ^ 64 - 1) div rhs then 2 ^ 64 - 1 else lhs * rhs)"

definition effective_valid_bits :: "audio_format \<Rightarrow> u32" where
  "effective_valid_bits f = (if af_valid_bits_per_sample f = 0 then af_bits_per_sample f else af_valid_bits_per_sample f)"

definition format_supported :: "audio_format \<Rightarrow> bool" where
  "format_supported f \<longleftrightarrow>
     (if af_sample_format f = IeeeFloat \<and> af_bits_per_sample f = 32 then True
      else if af_sample_format f = PcmInt \<and> af_bits_per_sample f = 24 then True
      else if af_sample_format f = PcmInt \<and> af_bits_per_sample f = 16 then True
      else if af_sample_format f = PcmInt \<and> af_bits_per_sample f = 32
      then effective_valid_bits f = 24 \<or> effective_valid_bits f = 32
      else False)"

definition required_interleaved_bytes :: "audio_format \<Rightarrow> nat \<Rightarrow> nat" where
  "required_interleaved_bytes f frames =
     saturated_multiply (saturated_multiply (unat (af_channels f)) frames) (bytes_per_sample f)"

section \<open>Samples\<close>

text \<open>The parameter \<open>u\<close> is what \<^verbatim>\<open>lround\<close> returns for a NaN, which the clamp lets through.\<close>

definition int16_to_float :: "16 word \<Rightarrow> f32" where
  "int16_to_float value = f32_div (f32_of_int (sint value)) 0x47000000"

definition float_to_int16 :: "int \<Rightarrow> f32 \<Rightarrow> 16 word" where
  "float_to_int16 u value =
     word_of_int (f32_lround u (f32_mul (f32_clamp value 0xBF800000 0x3F800000) 0x46FFFE00))"

definition read_int24_le :: "byte list \<Rightarrow> 32 word" where
  "read_int24_le bytes =
     (let value = ucast (bytes ! 0) OR push_bit 8 (ucast (bytes ! 1)) OR push_bit 16 (ucast (bytes ! 2))
      in if value AND 0x00800000 \<noteq> 0 then value OR 0xFF000000 else value)"

definition int24_to_float :: "32 word \<Rightarrow> f32" where
  "int24_to_float value = f32_div (f32_of_int (sint value)) 0x4B000000"

definition write_int24_le :: "32 word \<Rightarrow> byte list" where
  "write_int24_le value =
     [ucast (value AND 0xFF), ucast (drop_bit 8 value AND 0xFF), ucast (drop_bit 16 value AND 0xFF)]"

definition float_to_int24 :: "int \<Rightarrow> f32 \<Rightarrow> 32 word" where
  "float_to_int24 u value =
     word_of_int (f64_lround u (f64_mul (f32_to_f64 (f32_clamp value 0xBF800000 0x3F800000)) 0x415FFFFFC0000000))"

definition int32_to_float :: "32 word \<Rightarrow> f32" where
  "int32_to_float value = f32_div (f32_of_int (sint value)) 0x4F000000"

definition int24_in_int32_to_float :: "32 word \<Rightarrow> f32" where
  "int24_in_int32_to_float value = int32_to_float value"

definition float_to_int32 :: "int \<Rightarrow> f32 \<Rightarrow> 32 word" where
  "float_to_int32 u value =
     word_of_int (f64_lround u (f64_mul (f32_to_f64 (f32_clamp value 0xBF800000 0x3F800000)) 0x41DFFFFFFFC00000))"

definition float_to_int24_in_int32 :: "int \<Rightarrow> f32 \<Rightarrow> 32 word" where
  "float_to_int24_in_int32 u value = push_bit 8 (float_to_int24 u value)"

text \<open>The sample of a format in its bytes, as the branches of the two loops read and write it.\<close>

definition decode_sample :: "audio_format \<Rightarrow> byte list \<Rightarrow> f32" where
  "decode_sample f bytes =
     (if af_sample_format f = IeeeFloat then le_word bytes
      else if af_bits_per_sample f = 16 then int16_to_float (le_word bytes)
      else if af_bits_per_sample f = 24 then int24_to_float (read_int24_le bytes)
      else if effective_valid_bits f = 24 then int24_in_int32_to_float (le_word bytes)
      else int32_to_float (le_word bytes))"

definition encode_sample :: "int \<Rightarrow> audio_format \<Rightarrow> f32 \<Rightarrow> byte list" where
  "encode_sample u f sample =
     (if af_sample_format f = IeeeFloat then le_bytes sample
      else if af_bits_per_sample f = 16 then le_bytes (float_to_int16 u sample)
      else if af_bits_per_sample f = 24 then write_int24_le (float_to_int24 u sample)
      else if effective_valid_bits f = 24 then le_bytes (float_to_int24_in_int32 u sample)
      else le_bytes (float_to_int32 u sample))"

definition read_sample :: "audio_format \<Rightarrow> byte list \<Rightarrow> nat \<Rightarrow> f32" where
  "read_sample f memory index = decode_sample f (take (bytes_per_sample f) (drop (index * bytes_per_sample f) memory))"

definition write_sample :: "int \<Rightarrow> audio_format \<Rightarrow> nat \<Rightarrow> f32 \<Rightarrow> byte list \<Rightarrow> byte list" where
  "write_sample u f index sample memory =
     copy_n (encode_sample u f sample) (bytes_per_sample f) (index * bytes_per_sample f) memory"

section \<open>Import and export\<close>

definition import_interleaved_to_float ::
  "byte list option \<Rightarrow> nat \<Rightarrow> audio_format \<Rightarrow> audio_buffer \<Rightarrow> nat \<Rightarrow> conversion_status \<times> audio_buffer" where
  "import_interleaved_to_float source source_bytes f destination frames =
     (if \<not> format_supported f then (ConversionUnsupported, destination)
      else if frames > 0 \<and> source = None then (ConversionNull, destination)
      else if unat (af_channels f) \<noteq> ab_channels destination then (ConversionChannels, destination)
      else if frames > ab_frames destination \<or> source_bytes < required_interleaved_bytes f frames
      then (ConversionTooSmall, destination)
      else
        (ConversionOk,
         fold (\<lambda>frame. fold (\<lambda>channel. ab_set_sample channel frame
             (read_sample f (the source) (frame * ab_channels destination + channel)))
           [0..<ab_channels destination]) [0..<frames] destination))"

definition export_float_to_interleaved ::
  "int \<Rightarrow> audio_buffer \<Rightarrow> audio_format \<Rightarrow> byte list option \<Rightarrow> nat \<Rightarrow> nat \<Rightarrow> conversion_status \<times> byte list option" where
  "export_float_to_interleaved u source f destination destination_bytes frames =
     (if \<not> format_supported f then (ConversionUnsupported, destination)
      else if frames > 0 \<and> destination = None then (ConversionNull, destination)
      else if unat (af_channels f) \<noteq> ab_channels source then (ConversionChannels, destination)
      else if frames > ab_frames source \<or> destination_bytes < required_interleaved_bytes f frames
      then (ConversionTooSmall, destination)
      else
        (ConversionOk,
         map_option (fold (\<lambda>frame. fold (\<lambda>channel. write_sample u f (frame * ab_channels source + channel)
             (ab_channel source channel ! frame)) [0..<ab_channels source]) [0..<frames]) destination))"

definition import_whole :: "byte list option \<Rightarrow> nat \<Rightarrow> audio_format \<Rightarrow> audio_buffer \<Rightarrow> conversion_status \<times> audio_buffer" where
  "import_whole source source_bytes f destination =
     import_interleaved_to_float source source_bytes f destination (ab_frames destination)"

definition export_whole ::
  "int \<Rightarrow> audio_buffer \<Rightarrow> audio_format \<Rightarrow> byte list option \<Rightarrow> nat \<Rightarrow> conversion_status \<times> byte list option" where
  "export_whole u source f destination destination_bytes =
     export_float_to_interleaved u source f destination destination_bytes (ab_frames source)"

section \<open>The loops\<close>

text \<open>Setting the samples of the first frames and channels, in any order of frames and channels of the code's loops.\<close>

lemma ab_set_sample_simps [simp]:
  "ab_channels (ab_set_sample c j v b) = ab_channels b" "ab_frames (ab_set_sample c j v b) = ab_frames b"
  "ab_wf (ab_set_sample c j v b) = ab_wf b"
  by (simp_all add: ab_set_sample_def ab_wf_def)

lemma ab_set_sample_nth:
  assumes "ab_wf b" "c < ab_channels b" "j < ab_frames b" "d < ab_channels b" "k < ab_frames b"
  shows "ab_channel (ab_set_sample c j v b) d ! k = (if d = c \<and> k = j then v else ab_channel b d ! k)"
  using assms row_bound [OF assms(2,3)] row_eq_iff [OF assms(3,5), of c d]
  by (auto simp: ab_channel_nth) (auto simp: ab_set_sample_def ab_wf_def nth_list_update)

definition fill_frame :: "(nat \<Rightarrow> nat \<Rightarrow> f32) \<Rightarrow> nat \<Rightarrow> nat \<Rightarrow> audio_buffer \<Rightarrow> audio_buffer" where
  "fill_frame g n j = fold (\<lambda>c. ab_set_sample c j (g j c)) [0..<n]"

lemma fill_frame_nth:
  assumes "ab_wf b" "n \<le> ab_channels b" "j < ab_frames b"
  shows "ab_wf (fill_frame g n j b) \<and> ab_channels (fill_frame g n j b) = ab_channels b \<and>
    ab_frames (fill_frame g n j b) = ab_frames b \<and>
    (\<forall>d < ab_channels b. \<forall>k < ab_frames b.
       ab_channel (fill_frame g n j b) d ! k = (if d < n \<and> k = j then g j d else ab_channel b d ! k))"
  using assms(2)
proof (induction n)
  case 0
  then show ?case by (simp add: fill_frame_def assms(1))
next
  case (Suc n)
  have step: "fill_frame g (Suc n) j b = ab_set_sample n j (g j n) (fill_frame g n j b)" by (simp add: fill_frame_def)
  show ?case
    using Suc assms(3) by (auto simp: step ab_set_sample_nth less_Suc_eq)
qed

lemma fill_frames_nth:
  assumes "ab_wf b" "n \<le> ab_channels b" "m \<le> ab_frames b"
  shows "ab_wf (fold (fill_frame g n) [0..<m] b) \<and> ab_channels (fold (fill_frame g n) [0..<m] b) = ab_channels b \<and>
    ab_frames (fold (fill_frame g n) [0..<m] b) = ab_frames b \<and>
    (\<forall>d < ab_channels b. \<forall>k < ab_frames b.
       ab_channel (fold (fill_frame g n) [0..<m] b) d ! k = (if d < n \<and> k < m then g k d else ab_channel b d ! k))"
  using assms(3)
proof (induction m)
  case 0
  then show ?case by (simp add: assms(1))
next
  case (Suc m)
  then have IH: "ab_wf (fold (fill_frame g n) [0..<m] b)" "ab_channels (fold (fill_frame g n) [0..<m] b) = ab_channels b"
    "ab_frames (fold (fill_frame g n) [0..<m] b) = ab_frames b"
    "\<forall>d < ab_channels b. \<forall>k < ab_frames b.
       ab_channel (fold (fill_frame g n) [0..<m] b) d ! k = (if d < n \<and> k < m then g k d else ab_channel b d ! k)"
    by simp_all
  have "n \<le> ab_channels (fold (fill_frame g n) [0..<m] b)" "m < ab_frames (fold (fill_frame g n) [0..<m] b)"
    using IH assms(2) Suc.prems by simp_all
  from fill_frame_nth [OF IH(1) this, of g] show ?case using IH by (auto simp: less_Suc_eq)
qed

text \<open>Writing the samples one after the other is writing their concatenation.\<close>

lemma copy_n_after: "length xs = off \<Longrightarrow> n \<le> length ys \<Longrightarrow> length bs = n \<Longrightarrow> copy_n bs n off (xs @ ys) = (xs @ bs) @ drop n ys"
  by (simp add: copy_n_def)

lemma write_run:
  assumes "\<And>i. length (e i) = n" "length xs = base * n" "m * n \<le> length ys"
  shows "fold (\<lambda>c. copy_n (e c) n ((base + c) * n)) [0..<m] (xs @ ys) = (xs @ concat (map e [0..<m])) @ drop (m * n) ys"
  using assms(3)
proof (induction m)
  case (Suc m)
  have len: "length (concat (map e [0..<m])) = m * n" by (induction m) (simp_all add: assms(1))
  have "n \<le> length (drop (m * n) ys)" using Suc.prems by simp
  then show ?case
    using Suc copy_n_after [of "xs @ concat (map e [0..<m])" "(base + m) * n" n "drop (m * n) ys" "e m"]
    by (simp add: assms(1,2) len algebra_simps)
qed simp

definition interleaved :: "(nat \<Rightarrow> nat \<Rightarrow> byte list) \<Rightarrow> nat \<Rightarrow> nat \<Rightarrow> byte list" where
  "interleaved e channels frames = concat (map (\<lambda>j. concat (map (e j) [0..<channels])) [0..<frames])"

lemma length_blocks: "(\<And>i. length (e i) = n) \<Longrightarrow> length (concat (map e [0..<m])) = m * (n :: nat)"
  by (induction m) simp_all

lemma length_interleaved: "(\<And>j c. length (e j c) = n) \<Longrightarrow> length (interleaved e channels frames) = frames * (channels * n)"
  unfolding interleaved_def by (rule length_blocks) (rule length_blocks)

lemma write_frames:
  assumes "\<And>j c. length (e j c) = n" "frames * channels * n \<le> length ys"
  shows "fold (\<lambda>j. fold (\<lambda>c. copy_n (e j c) n ((j * channels + c) * n)) [0..<channels]) [0..<frames] ys =
    interleaved e channels frames @ drop (frames * channels * n) ys"
  using assms(2)
proof (induction frames)
  case (Suc frames)
  have len: "length (interleaved e channels frames) = (frames * channels) * n"
    by (simp add: length_interleaved [where e = e and n = n] assms(1))
  have "channels * n \<le> length (drop (frames * channels * n) ys)" using Suc.prems by (simp add: algebra_simps)
  then show ?case
    using Suc write_run [of "e frames" n "interleaved e channels frames" "frames * channels" channels
        "drop (frames * channels * n) ys"]
    by (simp add: assms(1) len algebra_simps) (simp add: interleaved_def)
qed (simp add: interleaved_def)

lemma block_at: "(\<And>i. length (e i) = n) \<Longrightarrow> i < m \<Longrightarrow> take n (drop (i * n) (concat (map e [0..<m]) @ rest)) = e i"
proof -
  assume e: "\<And>i. length (e i) = n" and i: "i < m"
  have "[0..<m] = [0..<i] @ i # [Suc i..<m]" using i upt_add_eq_append [of 0 i "m - i"] by (simp add: upt_conv_Cons)
  then show ?thesis using length_blocks [of e n i] e by simp
qed

lemma interleaved_at:
  assumes "\<And>j c. length (e j c) = n" "j < frames" "c < channels"
  shows "take n (drop ((j * channels + c) * n) (interleaved e channels frames @ rest)) = e j c"
proof -
  let ?x = "interleaved e channels frames @ rest"
  have row: "take (channels * n) (drop (j * (channels * n)) ?x) = concat (map (e j) [0..<channels])"
    unfolding interleaved_def
    by (rule block_at [where e = "\<lambda>j. concat (map (e j) [0..<channels])"]) (simp_all add: length_blocks assms)
  have fits: "c * n + n \<le> channels * n" by (rule row_fits [OF assms(3)])
  have window: "take n (drop i (take m y)) = take n (drop i y)" if "i + n \<le> m" for i m and y :: "byte list"
    using that by (simp add: drop_take)
  have "(j * channels + c) * n = c * n + j * (channels * n)" by (simp only: add_mult_distrib mult.assoc add.commute)
  then have "take n (drop ((j * channels + c) * n) ?x) = take n (drop (c * n) (drop (j * (channels * n)) ?x))"
    by (simp only: drop_drop)
  also have "\<dots> = take n (drop (c * n) (take (channels * n) (drop (j * (channels * n)) ?x)))"
    by (rule window [OF fits, symmetric])
  also have "\<dots> = e j c" unfolding row using block_at [where e = "e j" and n = n and i = c and m = channels and rest = "[]"] assms by simp
  finally show ?thesis .
qed

section \<open>Layout and errors\<close>

lemma supported_sample_bytes:
  "format_supported f \<Longrightarrow> bytes_per_sample f =
     (if af_sample_format f = IeeeFloat then 4 else if af_bits_per_sample f = 16 then 2 else if af_bits_per_sample f = 24 then 3 else 4)"
  by (auto simp: format_supported_def bytes_per_sample_def split: if_splits)

lemma length_encode_sample: "format_supported f \<Longrightarrow> length (encode_sample u f x) = bytes_per_sample f"
  by (simp add: supported_sample_bytes encode_sample_def write_int24_le_def)

lemma saturated_exact: "saturated_multiply a b \<le> n \<Longrightarrow> n < 2 ^ 64 - 1 \<Longrightarrow> saturated_multiply a b = a * b"
  by (auto simp: saturated_multiply_def split: if_splits)

lemma saturated_le: "saturated_multiply a b \<le> a * b"
proof -
  have "(2 ^ 64 - 1) div b < a \<Longrightarrow> 2 ^ 64 - 1 \<le> a * b" if "0 < b"
    using div_less_iff_less_mult [OF that, of "2 ^ 64 - 1" a] by simp
  then show ?thesis by (auto simp: saturated_multiply_def)
qed

lemma required_exact:
  assumes "required_interleaved_bytes f frames \<le> n" "n < 2 ^ 64 - 1" "format_supported f"
  shows "required_interleaved_bytes f frames = frames * unat (af_channels f) * bytes_per_sample f"
proof -
  let ?s = "saturated_multiply (unat (af_channels f)) frames"
  have b: "0 < bytes_per_sample f" using assms(3) by (simp add: supported_sample_bytes)
  have r: "required_interleaved_bytes f frames = ?s * bytes_per_sample f"
    using saturated_exact assms(1,2) by (simp add: required_interleaved_bytes_def)
  have "?s \<le> ?s * bytes_per_sample f" using b by simp
  then have "?s \<le> n" using r assms(1) by linarith
  then have "?s = unat (af_channels f) * frames" using saturated_exact assms(2) by blast
  then show ?thesis using r by simp
qed

definition sample_bytes :: "int \<Rightarrow> audio_format \<Rightarrow> audio_buffer \<Rightarrow> nat \<Rightarrow> nat \<Rightarrow> byte list" where
  "sample_bytes u f b frame channel = encode_sample u f (ab_channel b channel ! frame)"

lemma export_ok_value:
  assumes "format_supported f" "unat (af_channels f) = ab_channels b" "frames \<le> ab_frames b"
    and "required_interleaved_bytes f frames \<le> length memory" "length memory < 2 ^ 64 - 1"
  shows "export_float_to_interleaved u b f (Some memory) (length memory) frames =
    (ConversionOk, Some (interleaved (sample_bytes u f b) (ab_channels b) frames @
       drop (required_interleaved_bytes f frames) memory))"
proof -
  have r: "required_interleaved_bytes f frames = frames * ab_channels b * bytes_per_sample f"
    using required_exact [OF assms(4,5,1)] assms(2) by simp
  have "fold (\<lambda>j. fold (\<lambda>c. copy_n (sample_bytes u f b j c) (bytes_per_sample f)
      ((j * ab_channels b + c) * bytes_per_sample f)) [0..<ab_channels b]) [0..<frames] memory =
    interleaved (sample_bytes u f b) (ab_channels b) frames @ drop (frames * ab_channels b * bytes_per_sample f) memory"
    by (rule write_frames) (use assms r in \<open>simp_all add: sample_bytes_def length_encode_sample\<close>)
  then show ?thesis using assms r
    by (simp add: export_float_to_interleaved_def write_sample_def [abs_def] sample_bytes_def)
qed

text \<open>
  C25: Exporting writes, frame by frame and channel by channel, the bytes of every sample and nothing
  behind them, exactly when the format is supported, the channels agree, the block is long enough and the destination can
  hold the samples; otherwise no byte changes. No length overflows on the way.
\<close>

theorem export_interleaves_samples:
  assumes "length memory < 2 ^ 64 - 1"
    and "export_float_to_interleaved u b f (Some memory) (length memory) frames = (status, out)"
  shows "(status = ConversionOk) =
      (format_supported f \<and> unat (af_channels f) = ab_channels b \<and> frames \<le> ab_frames b \<and>
       frames * ab_channels b * bytes_per_sample f \<le> length memory) \<and>
    out = Some (if status = ConversionOk
      then interleaved (\<lambda>j c. encode_sample u f (ab_channel b c ! j)) (ab_channels b) frames @
           drop (frames * ab_channels b * bytes_per_sample f) memory
      else memory)"
proof (cases "format_supported f \<and> unat (af_channels f) = ab_channels b \<and> frames \<le> ab_frames b")
  case False
  then show ?thesis using assms(2) by (auto simp: export_float_to_interleaved_def split: if_splits)
next
  case True
  have upper: "required_interleaved_bytes f frames \<le> frames * ab_channels b * bytes_per_sample f"
    unfolding required_interleaved_bytes_def
    by (rule order_trans [OF saturated_le]) (use True saturated_le [of "ab_channels b" frames] in \<open>simp add: mult.commute\<close>)
  show ?thesis
  proof (cases "required_interleaved_bytes f frames \<le> length memory")
    case fits: True
    then have r: "required_interleaved_bytes f frames = frames * ab_channels b * bytes_per_sample f"
      using required_exact [OF fits assms(1)] True by simp
    then show ?thesis
      using export_ok_value [OF _ _ _ fits assms(1), of b u] True assms(2) fits by (simp add: sample_bytes_def [abs_def])
  next
    case False
    then have "\<not> frames * ab_channels b * bytes_per_sample f \<le> length memory" using upper by linarith
    then show ?thesis using assms(2) True False by (auto simp: export_float_to_interleaved_def)
  qed
qed

lemma import_ok_value:
  assumes "format_supported f" "unat (af_channels f) = ab_channels d" "frames \<le> ab_frames d"
    and "required_interleaved_bytes f frames \<le> length memory" "ab_wf d"
  shows "fst (import_interleaved_to_float (Some memory) (length memory) f d frames) = ConversionOk"
    and "c < ab_channels d \<Longrightarrow> j < ab_frames d \<Longrightarrow>
      ab_channel (snd (import_interleaved_to_float (Some memory) (length memory) f d frames)) c ! j =
        (if j < frames then read_sample f memory (j * ab_channels d + c) else ab_channel d c ! j)"
proof -
  have i: "import_interleaved_to_float (Some memory) (length memory) f d frames =
    (ConversionOk, fold (fill_frame (\<lambda>j c. read_sample f memory (j * ab_channels d + c)) (ab_channels d)) [0..<frames] d)"
    using assms by (simp add: import_interleaved_to_float_def fill_frame_def [abs_def])
  show "fst (import_interleaved_to_float (Some memory) (length memory) f d frames) = ConversionOk" by (simp add: i)
  show "c < ab_channels d \<Longrightarrow> j < ab_frames d \<Longrightarrow>
      ab_channel (snd (import_interleaved_to_float (Some memory) (length memory) f d frames)) c ! j =
        (if j < frames then read_sample f memory (j * ab_channels d + c) else ab_channel d c ! j)"
    using fill_frames_nth [OF assms(5) order_refl assms(3), of "\<lambda>j c. read_sample f memory (j * ab_channels d + c)"]
    by (simp add: i)
qed

text \<open>What an import reads of exported bytes is every sample as the pair of the two conversions leaves it.\<close>

lemma import_of_export:
  assumes "format_supported f" "unat (af_channels f) = ab_channels b" "frames \<le> ab_frames b"
    and "required_interleaved_bytes f frames \<le> length memory" "length memory < 2 ^ 64 - 1"
    and "ab_wf d" "ab_channels d = ab_channels b" "frames \<le> ab_frames d" "c < ab_channels d" "j < frames"
    and "export_float_to_interleaved u b f (Some memory) (length memory) frames = (status, Some out)"
  shows "fst (import_interleaved_to_float (Some out) (length out) f d frames) = ConversionOk \<and>
    ab_channel (snd (import_interleaved_to_float (Some out) (length out) f d frames)) c ! j =
      decode_sample f (encode_sample u f (ab_channel b c ! j))"
proof -
  have r: "required_interleaved_bytes f frames = frames * ab_channels b * bytes_per_sample f"
    using required_exact [OF assms(4,5,1)] assms(2) by simp
  have out: "out = interleaved (sample_bytes u f b) (ab_channels b) frames @ drop (required_interleaved_bytes f frames) memory"
    using export_ok_value [OF assms(1-5), of u] assms(11) by simp
  have e: "length (sample_bytes u f b j c) = bytes_per_sample f" for j c
    using assms(1) by (simp add: sample_bytes_def length_encode_sample)
  have len: "required_interleaved_bytes f frames \<le> length out"
    using length_interleaved [OF e] by (simp add: out r algebra_simps)
  have "take (bytes_per_sample f) (drop ((j * ab_channels b + c) * bytes_per_sample f) out) = sample_bytes u f b j c"
    unfolding out by (rule interleaved_at [OF e assms(10)]) (use assms(7,9) in simp)
  then have "read_sample f out (j * ab_channels d + c) = decode_sample f (sample_bytes u f b j c)"
    by (simp only: read_sample_def assms(7))
  then show ?thesis
    using import_ok_value [of f d frames out] assms len by (simp add: sample_bytes_def)
qed

lemma float_sample_exact: "af_sample_format f = IeeeFloat \<Longrightarrow> decode_sample f (encode_sample u f x) = x"
  by (simp add: decode_sample_def encode_sample_def)


lemma export_interleaves_lengths:
  assumes "length memory < 2 ^ 64 - 1"
    and "export_float_to_interleaved u b f (Some memory) (length memory) frames = (ConversionOk, Some out)"
  shows "length out = length memory"
proof -
  have ok: "format_supported f" "unat (af_channels f) = ab_channels b" "frames \<le> ab_frames b"
    "required_interleaved_bytes f frames \<le> length memory"
    using assms(2) by (auto simp: export_float_to_interleaved_def split: if_splits)
  have "length (sample_bytes u f b j c) = bytes_per_sample f" for j c
    using ok(1) by (simp add: sample_bytes_def length_encode_sample)
  then have "length (interleaved (sample_bytes u f b) (ab_channels b) frames) = required_interleaved_bytes f frames"
    using length_interleaved [where e = "sample_bytes u f b"] required_exact [OF ok(4) assms(1) ok(1)] ok(2) by simp
  then show ?thesis using export_ok_value [OF ok assms(1), of u] assms(2) ok(4) by simp
qed

lemma audio_buffer_eqI:
  assumes "ab_wf a" "ab_wf b" "ab_channels a = ab_channels b" "ab_frames a = ab_frames b"
    and "\<And>c j. c < ab_channels b \<Longrightarrow> j < ab_frames b \<Longrightarrow> ab_channel a c ! j = ab_channel b c ! j"
  shows "a = b"
proof -
  have "ab_samples a ! i = ab_samples b ! i" if "i < ab_channels b * ab_frames b" for i
  proof -
    have f: "0 < ab_frames b" using that by (cases "ab_frames b") simp_all
    have "i div ab_frames b < ab_channels b" using that by (simp add: less_mult_imp_div_less)
    moreover have "i mod ab_frames b < ab_frames b" using f by simp
    ultimately show ?thesis
      using assms(5) [of "i div ab_frames b" "i mod ab_frames b"] assms(1-4) by (simp add: ab_channel_nth)
  qed
  then have "ab_samples a = ab_samples b" using assms(1-4) by (intro nth_equalityI) (simp_all add: ab_wf_def)
  then show ?thesis using assms(3,4) by simp
qed

text \<open>
  C26: Samples of a 32-bit float device survive the way out and back bit for bit, NaNs and infinities
  included: what is imported from the exported bytes is what was exported.
\<close>

theorem float_samples_round_trip:
  assumes "af_sample_format f = IeeeFloat" "af_bits_per_sample f = 32" "unat (af_channels f) = ab_channels b"
    and "length memory = ab_frames b * ab_channels b * 4" "length memory < 2 ^ 64 - 1"
    and "ab_wf b" "ab_wf d" "ab_channels d = ab_channels b" "ab_frames d = ab_frames b"
  shows "\<exists>out. export_whole u b f (Some memory) (length memory) = (ConversionOk, Some out) \<and>
    import_whole (Some out) (length out) f d = (ConversionOk, b)"
proof -
  have f: "format_supported f" "bytes_per_sample f = 4"
    using assms(1,2) by (simp_all add: format_supported_def bytes_per_sample_def)
  have req: "required_interleaved_bytes f (ab_frames b) \<le> length memory"
    unfolding required_interleaved_bytes_def
    by (rule order_trans [OF saturated_le]) (use assms(3,4) f saturated_le [of "ab_channels b" "ab_frames b"] in \<open>simp add: mult.commute\<close>)
  obtain out where out: "export_float_to_interleaved u b f (Some memory) (length memory) (ab_frames b) = (ConversionOk, Some out)"
    using export_ok_value [OF f(1) assms(3) order_refl req assms(5)] by blast
  let ?i = "import_interleaved_to_float (Some out) (length out) f d (ab_frames b)"
  have cell: "fst ?i = ConversionOk \<and> ab_channel (snd ?i) c ! j = ab_channel b c ! j"
    if "c < ab_channels b" "j < ab_frames b" for c j
    using import_of_export [OF f(1) assms(3) order_refl req assms(5,7,8) _ _ that(2) out, of c] that
      float_sample_exact [OF assms(1)] by (simp add: assms(8,9))
  have "required_interleaved_bytes f (ab_frames d) \<le> length out"
  proof -
    have "length out = length memory"
      using export_interleaves_lengths [OF assms(5) out] .
    then show ?thesis using req assms(9) by simp
  qed
  note ok = import_ok_value [OF f(1) _ _ this assms(7)]
  have shape: "ab_wf (snd ?i) \<and> ab_channels (snd ?i) = ab_channels b \<and> ab_frames (snd ?i) = ab_frames b"
    using fill_frames_nth [OF assms(7) order_refl, of "ab_frames b"] assms(3,7,8,9)
    by (auto simp: import_interleaved_to_float_def fill_frame_def [abs_def])
  have "snd ?i = b"
  proof (rule audio_buffer_eqI)
    show "ab_wf (snd ?i)" "ab_wf b" "ab_channels (snd ?i) = ab_channels b" "ab_frames (snd ?i) = ab_frames b"
      using shape assms(6) by simp_all
    show "\<And>c j. c < ab_channels b \<Longrightarrow> j < ab_frames b \<Longrightarrow> ab_channel (snd ?i) c ! j = ab_channel b c ! j" using cell by blast
  qed
  moreover have "fst ?i = ConversionOk" using ok(1) assms(3,8,9) by simp
  ultimately show ?thesis using out by (metis assms(9) export_whole_def import_whole_def prod.collapse)
qed

section \<open>Integer samples\<close>

text \<open>\<open>2 ^ 23\<close> as \<^verbatim>\<open>float\<close> and \<open>2 ^ 23 - 1\<close> as \<^verbatim>\<open>double\<close>.\<close>

lemma f32_scale24: "f32_finite 0x4B000000" "f32_units 0x4B000000 = 2 ^ 172" "\<not> f32_negative 0x4B000000" "\<not> f32_is_zero 0x4B000000"
  by (simp_all add: f32_finite_def f32_units_def units_def f32_magnitude_def f32_negative_def f32_is_zero_def)

lemma f64_scale24: "f64_finite 0x415FFFFFC0000000" "f64_units 0x415FFFFFC0000000 = (2 ^ 23 - 1) * 2 ^ 1074"
  "\<not> f64_negative 0x415FFFFFC0000000"
  by (simp_all add: f64_finite_def f64_units_def units_def f64_magnitude_def f64_negative_def)

lemma int24_to_float_exact:
  assumes "\<bar>sint w\<bar> \<le> 2 ^ 23"
  shows "f32_units (int24_to_float w) = nat \<bar>sint w\<bar> * 2 ^ 126" "f32_negative (int24_to_float w) = (sint w < 0)"
    "f32_finite (int24_to_float w)"
proof -
  define n where "n = nat \<bar>sint w\<bar>"
  have n: "n < 2 ^ 24" using assms by (simp add: n_def)
  note i = f32_of_int_exact [of "sint w", folded n_def, OF n]
  have q: "n * 2 ^ 149 * 2 ^ 150 = n * 2 ^ 127 * 2 ^ 172" by simp
  have d: "n * 2 ^ 149 * 2 ^ 150 div 2 ^ 172 = n * 2 ^ 127" "n * 2 ^ 149 * 2 ^ 150 mod 2 ^ 172 = (0 :: nat)"
    unfolding q by simp_all
  have "2 * (n * 2 ^ 127) = n * 2 ^ 126 * 2 ^ 2" by simp
  then have "int24_to_float w = f32_make (sint w < 0) (fl_round 24 2 (n * 2 ^ 126 * 2 ^ 2))"
    using f32_finite_not [OF i(3)] f32_finite_not [OF f32_scale24(1)] f32_scale24
    unfolding int24_to_float_def f32_div_def Let_def i(1,2) f32_scale24(2) d by simp
  then have e: "int24_to_float w = f32_make (sint w < 0) (fl_round 24 0 (n * 2 ^ 126))"
    by (simp only: fl_round_scale [of 24 0 2 "n * 2 ^ 126", unfolded add_0_left])
  have "n * 2 ^ 126 < 2 ^ 24 * 2 ^ 126" using n by (intro mult_strict_right_mono) simp_all
  then have "n * 2 ^ 126 < 2 ^ 277" by (rule less_trans) simp
  note f = f32_make_exact [OF representable_bits [OF n] this, of "sint w < 0"]
  show "f32_units (int24_to_float w) = nat \<bar>sint w\<bar> * 2 ^ 126" "f32_negative (int24_to_float w) = (sint w < 0)"
    "f32_finite (int24_to_float w)"
    unfolding e n_def [symmetric] by (rule f)+
qed

lemma div_digit: "r < b \<Longrightarrow> (k * b + r) div b = (k :: nat)"
  by simp

text \<open>A sample that is taken in and put out again.\<close>

definition passed24 :: "int \<Rightarrow> int" where
  "passed24 v = (if \<bar>v\<bar> \<le> 2 ^ 22 then v else v - sgn v)"

lemma float_to_int24_of_int24:
  assumes "\<bar>sint w\<bar> \<le> 2 ^ 23"
  shows "float_to_int24 u (int24_to_float w) = word_of_int (passed24 (sint w))"
proof -
  define v n where "v = sint w" and "n = nat \<bar>v\<bar>"
  have n: "n \<le> 2 ^ 23" using assms by (simp add: n_def v_def)
  note x = int24_to_float_exact [OF assms, folded v_def, folded n_def]
  have "n * 2 ^ 126 \<le> 2 ^ 23 * 2 ^ 126" using n by (rule mult_le_mono1)
  then have "f32_units (int24_to_float w) \<le> 2 ^ 149" using x(1) by simp
  from f32_clamp_inside [OF x(3) this]
  have clamp: "f32_clamp (int24_to_float w) 0xBF800000 0x3F800000 = int24_to_float w" .
  note y = f32_to_f64_exact [OF x(3)]
  have product: "n * 2 ^ 126 * 2 ^ 925 * ((2 ^ 23 - 1) * 2 ^ 1074) = n * (2 ^ 23 - 1) * 2 ^ 1051 * 2 ^ 1074"
    by (simp add: mult.assoc mult.commute [of "2 ^ 23 - 1"] flip: power_add)
  have bits: "n * (2 ^ 23 - 1) < 2 ^ 53"
  proof -
    have "n * (2 ^ 23 - 1) \<le> 2 ^ 23 * (2 ^ 23 - 1)" using n by (rule mult_le_mono1)
    then show ?thesis by (rule le_less_trans) simp
  qed
  have "n * (2 ^ 23 - 1) * 2 ^ 1051 < 2 ^ 53 * 2 ^ 1051" using bits by (intro mult_strict_right_mono) simp_all
  then have "n * (2 ^ 23 - 1) * 2 ^ 1051 < 2 ^ 2098" by (rule less_trans) simp
  note z = f64_make_exact [OF representable_bits [OF bits] this]
  define p where "p = f64_mul (f32_to_f64 (int24_to_float w)) 0x415FFFFFC0000000"
  have "p = f64_make (v < 0) (fl_round 53 1074 (n * (2 ^ 23 - 1) * 2 ^ 1051 * 2 ^ 1074))"
    using f64_finite_not [OF y(3)] f64_finite_not [OF f64_scale24(1)] f64_scale24(3) y(2) x(2)
    unfolding p_def f64_mul_def y(1) x(1) f64_scale24(2) product by simp
  then have p: "p = f64_make (v < 0) (fl_round 53 0 (n * (2 ^ 23 - 1) * 2 ^ 1051))"
    by (simp only: fl_round_scale [of 53 0 1074 "n * (2 ^ 23 - 1) * 2 ^ 1051", unfolded add_0_left])
  have pu: "f64_units p = n * (2 ^ 23 - 1) * 2 ^ 1051" "f64_negative p = (v < 0)" "f64_finite p" using z unfolding p by blast+
  have div: "(n * (2 ^ 23 - 1) * 2 ^ 1051 + 2 ^ 1073) div 2 ^ 1074 = (n * (2 ^ 23 - 1) + 2 ^ 22) div 2 ^ 23"
  proof -
    have "n * (2 ^ 23 - 1) * 2 ^ 1051 + 2 ^ 1073 = (n * (2 ^ 23 - 1) + 2 ^ 22) * 2 ^ 1051" by (simp add: add_mult_distrib)
    moreover have "(2 :: nat) ^ 1074 = 2 ^ 23 * 2 ^ 1051" by simp
    moreover have "(a * 2 ^ 1051) div (2 ^ 23 * 2 ^ 1051) = a div 2 ^ 23" for a :: nat
      by (rule div_mult_mult2) simp
    ultimately show ?thesis by (simp only:)
  qed
  define q where "q = (n * (2 ^ 23 - 1) + 2 ^ 22) div 2 ^ 23"
  have q: "q = (if n \<le> 2 ^ 22 then n else n - 1)"
  proof (cases "n \<le> 2 ^ 22")
    case True
    then have e: "n * (2 ^ 23 - 1) + 2 ^ 22 = n * 2 ^ 23 + (2 ^ 22 - n)" by (simp add: algebra_simps)
    show ?thesis unfolding q_def e using True div_digit [of "2 ^ 22 - n" "2 ^ 23" n] by simp
  next
    case False
    then have e: "n * (2 ^ 23 - 1) + 2 ^ 22 = (n - 1) * 2 ^ 23 + (2 ^ 23 + 2 ^ 22 - n)" using n by (simp add: algebra_simps)
    have "2 ^ 23 + 2 ^ 22 - n < 2 ^ 23" using False by simp
    then show ?thesis unfolding q_def e using False div_digit by simp
  qed
  have "float_to_int24 u (int24_to_float w) = word_of_int (f64_lround u p)"
    unfolding float_to_int24_def clamp p_def ..
  also have "f64_lround u p = (if v < 0 then - int q else int q)"
    using pu n q unfolding f64_lround_def Let_def pu(1) div q_def [symmetric] by auto
  also have "\<dots> = passed24 v"
    unfolding passed24_def q n_def by (auto simp: sgn_if)
  finally show ?thesis unfolding v_def .
qed

text \<open>The three bytes of a sample and its sign-extended value determine one another.\<close>

lemma bit_read_int24:
  "bit (read_int24_le [a, b, c]) k \<longleftrightarrow> k < 32 \<and>
     (if k < 8 then bit a k else if k < 16 then bit b (k - 8) else if k < 24 then bit c (k - 16) else bit c 7)"
proof -
  define x where "x = (ucast a OR push_bit 8 (ucast b) OR push_bit 16 (ucast c) :: 32 word)"
  have v: "bit x k \<longleftrightarrow> (if k < 8 then bit a k else if k < 16 then bit b (k - 8) else k < 24 \<and> bit c (k - 16))" for k
    by (auto simp: x_def bit_or_iff bit_push_bit_iff bit_ucast_iff dest: bit_imp_le_length)
  have m: "(0x00800000 :: 32 word) = push_bit 23 1" by (simp add: push_bit_eq_mult)
  have sign: "x AND 0x00800000 \<noteq> 0 \<longleftrightarrow> bit x 23" unfolding m by (rule bit_iff_and_push_bit_not_eq_0 [symmetric])
  define ones :: "32 word" where "ones = push_bit 24 (mask 8)"
  have high: "bit ones j \<longleftrightarrow> 24 \<le> j \<and> j < 32" for j
    unfolding ones_def bit_push_bit_iff bit_mask_iff by auto
  have "ones = 0xFF000000" by (simp add: ones_def mask_eq_exp_minus_1 push_bit_eq_mult)
  then have "read_int24_le [a, b, c] = (if x AND 0x00800000 \<noteq> 0 then x OR ones else x)"
    by (simp add: read_int24_le_def x_def Let_def)
  then show ?thesis
    unfolding sign using v [of k] v [of 23] by (auto simp: bit_or_iff high dest: bit_imp_le_length)
qed

lemma write_read_int24:
  assumes "length bytes = 3"
  shows "write_int24_le (read_int24_le bytes) = bytes"
proof -
  obtain a b c where bytes: "bytes = [a, b, c]" using assms by (auto simp: numeral_3_eq_3 length_Suc_conv)
  have "ucast (drop_bit (8 * i) (read_int24_le [a, b, c]) AND 0xFF) = [a, b, c] ! i" if "i < 3" for i
    unfolding ucast_low_byte using that
    by (intro bit_word_eqI)
      (auto simp: bit_ucast_iff bit_drop_bit_eq bit_read_int24 less_Suc_eq numeral_3_eq_3 dest: bit_imp_le_length)
  from this [of 0] this [of 1] this [of 2] show ?thesis by (simp add: bytes write_int24_le_def)
qed

lemma read_int24_bounds:
  assumes "length bytes = 3"
  shows "- (2 ^ 23) \<le> sint (read_int24_le bytes) \<and> sint (read_int24_le bytes) < 2 ^ 23"
proof -
  obtain a b c where bytes: "bytes = [a, b, c]" using assms by (auto simp: numeral_3_eq_3 length_Suc_conv)
  have "signed_take_bit 23 (sint (read_int24_le bytes)) = sint (read_int24_le bytes)"
  proof (rule bit_eqI)
    fix n :: nat
    consider "n < 23" | "n = 23" | "23 < n" by linarith
    then show "bit (signed_take_bit 23 (sint (read_int24_le bytes))) n = bit (sint (read_int24_le bytes)) n"
      by cases (auto simp: bit_signed_take_bit_iff bit_sint_iff bytes bit_read_int24 min_def)
  qed
  then show ?thesis using signed_take_bit_int_greater_eq_minus_exp [of 23 "sint (read_int24_le bytes)"]
      signed_take_bit_int_less_exp [of 23 "sint (read_int24_le bytes)"] by simp
qed

text \<open>
  C27: A sample of a 24-bit device that is taken in as \<^verbatim>\<open>float\<close> and put out again, bytes to bytes: up to half scale it
  is unchanged, above it loses one step towards zero (the import divides by \<open>2 ^ 23\<close>, the export multiplies by
  \<open>2 ^ 23 - 1\<close>), and it never leaves the range.
\<close>

theorem pcm24_pass_through:
  assumes "af_sample_format f = PcmInt" "af_bits_per_sample f = 24" "length bytes = 3"
  shows "(let v = sint (read_int24_le bytes) in
    encode_sample u f (decode_sample f bytes) = write_int24_le (word_of_int (passed24 v)) \<and>
    (\<bar>v\<bar> \<le> 2 ^ 22 \<longrightarrow> encode_sample u f (decode_sample f bytes) = bytes) \<and>
    \<bar>passed24 v\<bar> \<le> 2 ^ 23 - 1 \<and> \<bar>v - passed24 v\<bar> \<le> 1)"
proof -
  define w where "w = read_int24_le bytes"
  have b: "- (2 ^ 23) \<le> sint w" "sint w < 2 ^ 23" using read_int24_bounds [OF assms(3)] by (simp_all add: w_def)
  have e: "encode_sample u f (decode_sample f bytes) = write_int24_le (word_of_int (passed24 (sint w)))"
    using assms(1,2) float_to_int24_of_int24 [of w u] b by (simp add: encode_sample_def decode_sample_def w_def)
  have same: "\<bar>sint w\<bar> \<le> 2 ^ 22 \<Longrightarrow> write_int24_le (word_of_int (passed24 (sint w))) = bytes"
    using write_read_int24 [OF assms(3)] by (simp add: passed24_def w_def)
  have "\<bar>passed24 (sint w)\<bar> \<le> 2 ^ 23 - 1" "\<bar>sint w - passed24 (sint w)\<bar> \<le> 1"
    using b by (auto simp: passed24_def sgn_if)
  then show ?thesis using e same by (simp add: w_def [symmetric] Let_def)
qed

section \<open>Witnesses\<close>

definition demo_float_format :: audio_format where
  "demo_float_format = default_audio_format\<lparr>af_channels := 1\<rparr>"

definition demo_pcm24_format :: audio_format where
  "demo_pcm24_format = default_audio_format\<lparr>af_channels := 1, af_bits_per_sample := 24, af_sample_format := PcmInt\<rparr>"

lemma demo_float_block: "ab_wf demo_block" "ab_channels demo_block = 1" "ab_frames demo_block = 2"
  by (simp_all add: demo_block_def ab_wf_def)

theorem export_interleaves_samples_witness:
  "\<exists>status out. export_float_to_interleaved 0 demo_block demo_float_format (Some (replicate 9 7)) 9 2 = (status, out) \<and>
     status = ConversionOk \<and> out = Some (le_bytes (5 :: f32) @ le_bytes (6 :: f32) @ [7])"
proof -
  obtain status out where e: "export_float_to_interleaved 0 demo_block demo_float_format (Some (replicate 9 7)) 9 2 = (status, out)"
    by (cases "export_float_to_interleaved 0 demo_block demo_float_format (Some (replicate 9 7)) 9 2")
  have channel: "ab_channel demo_block 0 = [5, 6]" by (simp add: ab_channel_def demo_block_def)
  have f: "format_supported demo_float_format" "unat (af_channels demo_float_format) = 1" "bytes_per_sample demo_float_format = 4"
    "af_sample_format demo_float_format = IeeeFloat"
    by (simp_all add: demo_float_format_def default_audio_format_def format_supported_def bytes_per_sample_def)
  have two: "[0..<2] = [0, Suc 0]" by (simp add: upt_rec)
  have "length (replicate 9 (7 :: byte)) = 9" by simp
  from export_interleaves_samples [of "replicate 9 7" 0 demo_block demo_float_format 2 status out] e
  have "status = ConversionOk" "out = Some (le_bytes (5 :: f32) @ le_bytes (6 :: f32) @ [7])"
    by (simp_all add: f demo_float_block interleaved_def encode_sample_def channel two)
  with e show ?thesis by blast
qed

theorem float_samples_round_trip_witness:
  "\<exists>out. export_whole 0 demo_block demo_float_format (Some (replicate 8 0)) 8 = (ConversionOk, Some out) \<and>
     import_whole (Some out) (length out) demo_float_format (demo_block\<lparr>ab_samples := [0, 0]\<rparr>) = (ConversionOk, demo_block)"
  using float_samples_round_trip [of demo_float_format demo_block "replicate 8 0" "demo_block\<lparr>ab_samples := [0, 0]\<rparr>" 0]
  by (simp add: demo_float_format_def default_audio_format_def demo_block_def ab_wf_def)

theorem pcm24_pass_through_witness:
  "encode_sample 0 demo_pcm24_format (decode_sample demo_pcm24_format [1, 2, 0]) = [1, 2, 0]"
proof -
  have v: "sint (read_int24_le [1, 2, 0]) = 513" by (simp add: read_int24_le_def Let_def)
  have "af_sample_format demo_pcm24_format = PcmInt" "af_bits_per_sample demo_pcm24_format = 24" "length [1, 2, 0 :: byte] = 3"
    by (simp_all add: demo_pcm24_format_def)
  from pcm24_pass_through [OF this, of 0]
  have "\<bar>513 :: int\<bar> \<le> 2 ^ 22 \<longrightarrow> encode_sample 0 demo_pcm24_format (decode_sample demo_pcm24_format [1, 2, 0]) = [1, 2, 0]"
    unfolding Let_def v by blast
  then show ?thesis by simp
qed

end
