(* ===== verification/ClockDrift.thy ===== *)
theory ClockDrift
  imports FloatArith
begin

text \<open>
  The clocks of the two devices of a duplex loop: \<^verbatim>\<open>core/realtime/audio_block_timeline.h\<close>,
  \<^verbatim>\<open>core/realtime/clock_drift_estimator.h\<close> and, of \<^verbatim>\<open>core/platform/windows_wasapi_duplex_loop.{h,cpp}\<close>, the conversion
  of clock positions to frames, the estimator and the tracker of the rate correction, one round of the clock
  observer and the balance of frames. The graph runner's bound of the correction is the one of
  \<^verbatim>\<open>windows_wasapi_graph_runner.cpp\<close>.
\<close>

section \<open>Timelines\<close>

record clock_domain =
  cd_id :: u64
  cd_nominal_sample_rate :: u32

definition cd_valid :: "clock_domain \<Rightarrow> bool" where
  "cd_valid d \<longleftrightarrow> cd_id d \<noteq> 0 \<and> cd_nominal_sample_rate d \<noteq> 0"

datatype block_relation = RelationInvalid | DifferentClockDomain | Overlap | Contiguous | Gap

record block_timeline =
  bt_domain :: clock_domain
  bt_start_frame :: u64
  bt_frame_count :: u32

definition bt_end_frame :: "block_timeline \<Rightarrow> u64 option" where
  "bt_end_frame t =
     (if \<not> cd_valid (bt_domain t) \<or> bt_frame_count t = 0 \<or> bt_start_frame t > - 1 - ucast (bt_frame_count t) then None
      else Some (bt_start_frame t + ucast (bt_frame_count t)))"

definition bt_valid :: "block_timeline \<Rightarrow> bool" where
  "bt_valid t \<longleftrightarrow> bt_end_frame t \<noteq> None"

definition bt_relation :: "block_timeline \<Rightarrow> block_timeline \<Rightarrow> block_relation" where
  "bt_relation t n =
     (case bt_end_frame t of
        None \<Rightarrow> RelationInvalid
      | Some current_end \<Rightarrow>
          if \<not> bt_valid n then RelationInvalid
          else if bt_domain t \<noteq> bt_domain n then DifferentClockDomain
          else if bt_start_frame n < current_end then Overlap
          else if bt_start_frame n = current_end then Contiguous
          else Gap)"

section \<open>Drift\<close>

record clock_sample =
  cs_domain :: clock_domain
  cs_frame_position :: u64
  cs_qpc_100ns :: u64

record drift_estimate =
  de_valid :: bool
  de_observed_sample_rate :: f64
  de_nominal_error_ppm :: f64

record feed_forward =
  ff_valid :: bool
  ff_correction_ppm :: f64

definition no_drift :: drift_estimate where
  "no_drift = \<lparr>de_valid = False, de_observed_sample_rate = 0, de_nominal_error_ppm = 0\<rparr>"

definition no_feed_forward :: feed_forward where
  "no_feed_forward = \<lparr>ff_valid = False, ff_correction_ppm = 0\<rparr>"

text \<open>\<open>1\<close>, a million and ten millions as \<^verbatim>\<open>double\<close>.\<close>

abbreviation f64_one :: f64 where "f64_one \<equiv> 0x3FF0000000000000"
abbreviation f64_million :: f64 where "f64_million \<equiv> 0x412E848000000000"
abbreviation f64_ten_million :: f64 where "f64_ten_million \<equiv> 0x416312D000000000"

definition estimate_drift :: "clock_sample \<Rightarrow> clock_sample \<Rightarrow> drift_estimate" where
  "estimate_drift first second =
     (if \<not> cd_valid (cs_domain first) \<or> cs_domain first \<noteq> cs_domain second \<or>
         cs_frame_position second \<le> cs_frame_position first \<or> cs_qpc_100ns second \<le> cs_qpc_100ns first
      then no_drift
      else
        let frame_delta = cs_frame_position second - cs_frame_position first;
            time_delta = cs_qpc_100ns second - cs_qpc_100ns first;
            nominal_rate = f64_of_nat (unat (cd_nominal_sample_rate (cs_domain first)));
            observed_rate = f64_div (f64_mul (f64_of_nat (unat frame_delta)) f64_ten_million) (f64_of_nat (unat time_delta));
            error_ppm = f64_mul (f64_sub (f64_div observed_rate nominal_rate) f64_one) f64_million
        in if \<not> f64_finite observed_rate \<or> f64_le observed_rate 0 \<or> \<not> f64_finite error_ppm then no_drift
           else \<lparr>de_valid = True, de_observed_sample_rate = observed_rate, de_nominal_error_ppm = error_ppm\<rparr>)"

definition relative_rate_correction :: "drift_estimate \<Rightarrow> drift_estimate \<Rightarrow> feed_forward" where
  "relative_rate_correction capture render =
     (if \<not> de_valid capture \<or> \<not> de_valid render \<or>
         \<not> f64_finite (de_observed_sample_rate capture) \<or> \<not> f64_finite (de_observed_sample_rate render) \<or>
         \<not> f64_finite (de_nominal_error_ppm capture) \<or> \<not> f64_finite (de_nominal_error_ppm render) \<or>
         f64_le (de_observed_sample_rate capture) 0 \<or> f64_le (de_observed_sample_rate render) 0
      then no_feed_forward
      else
        let capture_factor = f64_add f64_one (f64_div (de_nominal_error_ppm capture) f64_million);
            render_factor = f64_add f64_one (f64_div (de_nominal_error_ppm render) f64_million)
        in if \<not> f64_finite capture_factor \<or> \<not> f64_finite render_factor \<or>
              f64_le capture_factor 0 \<or> f64_le render_factor 0
           then no_feed_forward
           else
             let correction_ppm = f64_mul (f64_sub (f64_div capture_factor render_factor) f64_one) f64_million
             in if f64_finite correction_ppm then \<lparr>ff_valid = True, ff_correction_ppm = correction_ppm\<rparr> else no_feed_forward)"

section \<open>Clock positions\<close>

record clock_snapshot =
  ck_position :: u64
  ck_qpc_position_100ns :: u64
  ck_frequency :: u64

text \<open>
  \<open>clock_remainder * sample_rate div clock_frequency\<close> without an intermediate result that could overflow: the
  bits of the rate from the highest, doubling quotient and remainder. One round of the loop:
\<close>

definition fraction_step :: "u64 \<Rightarrow> u64 \<Rightarrow> u32 \<Rightarrow> nat \<Rightarrow> u64 \<times> u64 \<Rightarrow> u64 \<times> u64" where
  "fraction_step clock_remainder frequency sample_rate i s =
     (case s of (q, r) \<Rightarrow>
        let doubled_overflow = (r \<ge> frequency - r);
            r = (if doubled_overflow then r - (frequency - r) else r + r);
            q = q * 2 + (if doubled_overflow then 1 else 0)
        in if \<not> bit sample_rate i then (q, r)
           else if r \<ge> frequency - clock_remainder
           then (q + 1, r - (frequency - clock_remainder))
           else (q, r + clock_remainder))"

definition fractional_audio_frames :: "u64 \<Rightarrow> u64 \<Rightarrow> u32 \<Rightarrow> u64" where
  "fractional_audio_frames clock_remainder frequency sample_rate =
     fst (fold (fraction_step clock_remainder frequency sample_rate) (rev [0..<32]) (0, 0))"

text \<open>\<open>None\<close> is the result \<^verbatim>\<open>false\<close>, with zero frames in the out parameter.\<close>

definition clock_position_to_audio_frames :: "u64 \<Rightarrow> u64 \<Rightarrow> u32 \<Rightarrow> u64 option" where
  "clock_position_to_audio_frames position frequency sample_rate =
     (if frequency = 0 \<or> sample_rate = 0 then None
      else
        let whole_seconds = position div frequency
        in if whole_seconds > - 1 div ucast sample_rate then None
           else
             let whole_frames = whole_seconds * ucast sample_rate;
                 partial_frames = fractional_audio_frames (position mod frequency) frequency sample_rate
             in if whole_frames > - 1 - partial_frames then None else Some (whole_frames + partial_frames))"

definition capture_baseline_trustworthy :: "u64 \<Rightarrow> clock_snapshot \<Rightarrow> bool" where
  "capture_baseline_trustworthy captured_frames s \<longleftrightarrow>
     captured_frames > 0 \<and> ck_frequency s > 0 \<and> ck_qpc_position_100ns s > 0"

text \<open>The result is a signed 64-bit number, saturated at both ends.\<close>

definition signed_frame_balance :: "u64 \<Rightarrow> u64 \<Rightarrow> int" where
  "signed_frame_balance captured rendered =
     (if captured \<ge> rendered then
        let difference = captured - rendered in if difference > 0x7FFFFFFFFFFFFFFF then 2 ^ 63 - 1 else uint difference
      else
        let difference = rendered - captured in if difference > 0x7FFFFFFFFFFFFFFF then - (2 ^ 63) else - uint difference)"

section \<open>The estimator of the correction\<close>

definition kMinimumClockObservationWindow100ns :: u64 where
  "kMinimumClockObservationWindow100ns = 50000000"

definition kMaximumClockObservationWindow100ns :: u64 where
  "kMaximumClockObservationWindow100ns = 600000000"

text \<open>
  The window that keeps the quantization of the clocks within the budget is computed in \<^verbatim>\<open>long double\<close>, whose
  width depends on the compiler: \<open>required\<close> gives the value rounded up, \<open>None\<close> where it is not finite or not
  below the maximum.
\<close>

definition clock_observation_window :: "(u32 \<Rightarrow> u32 \<Rightarrow> u32 \<Rightarrow> u32 \<Rightarrow> u64 option) \<Rightarrow> u32 \<Rightarrow> u32 \<Rightarrow> u32 \<Rightarrow> u32 \<Rightarrow> u64" where
  "clock_observation_window required capture_rate capture_quantum render_rate render_quantum =
     (if capture_rate = 0 \<or> render_rate = 0 then kMaximumClockObservationWindow100ns
      else case required capture_rate capture_quantum render_rate render_quantum of
          None \<Rightarrow> kMaximumClockObservationWindow100ns
        | Some w \<Rightarrow> max kMinimumClockObservationWindow100ns (min w kMaximumClockObservationWindow100ns))"

datatype observation_status = WarmingUp | ObservationReady | ObservationInvalid

record clock_observation =
  ob_status :: observation_status
  ob_feed_forward :: feed_forward
  ob_window_duration_100ns :: u64

definition observation_of :: "observation_status \<Rightarrow> clock_observation" where
  "observation_of status = \<lparr>ob_status = status, ob_feed_forward = no_feed_forward, ob_window_duration_100ns = 0\<rparr>"

record rate_estimator =
  re_capture_sample_rate :: u32
  re_render_sample_rate :: u32
  re_minimum_window :: u64
  re_capture_anchor :: clock_snapshot
  re_render_anchor :: clock_snapshot
  re_anchor_available :: bool

definition no_snapshot :: clock_snapshot where
  "no_snapshot = \<lparr>ck_position = 0, ck_qpc_position_100ns = 0, ck_frequency = 0\<rparr>"

definition make_rate_estimator ::
  "(u32 \<Rightarrow> u32 \<Rightarrow> u32 \<Rightarrow> u32 \<Rightarrow> u64 option) \<Rightarrow> u32 \<Rightarrow> u32 \<Rightarrow> u32 \<Rightarrow> u32 \<Rightarrow> rate_estimator" where
  "make_rate_estimator required capture_rate capture_quantum render_rate render_quantum =
     \<lparr>re_capture_sample_rate = capture_rate, re_render_sample_rate = render_rate,
      re_minimum_window = clock_observation_window required capture_rate capture_quantum render_rate render_quantum,
      re_capture_anchor = no_snapshot, re_render_anchor = no_snapshot, re_anchor_available = False\<rparr>"

definition snapshot_can_anchor :: "clock_snapshot \<Rightarrow> bool" where
  "snapshot_can_anchor s \<longleftrightarrow> ck_frequency s > 0 \<and> ck_qpc_position_100ns s > 0"

definition set_anchor :: "clock_snapshot \<Rightarrow> clock_snapshot \<Rightarrow> rate_estimator \<Rightarrow> rate_estimator" where
  "set_anchor capture render e = e\<lparr>re_capture_anchor := capture, re_render_anchor := render, re_anchor_available := True\<rparr>"

definition snapshot_stale :: "clock_snapshot \<Rightarrow> clock_snapshot \<Rightarrow> bool" where
  "snapshot_stale anchor s \<longleftrightarrow> ck_frequency s \<noteq> ck_frequency anchor \<or> ck_position s \<le> ck_position anchor \<or>
     ck_qpc_position_100ns s \<le> ck_qpc_position_100ns anchor"

text \<open>The two drifts and their ratio, over one domain per device.\<close>

definition device_drift :: "u64 \<Rightarrow> u32 \<Rightarrow> clock_snapshot \<Rightarrow> clock_snapshot \<Rightarrow> drift_estimate option" where
  "device_drift domain_id sample_rate anchor s =
     (let d = \<lparr>cd_id = domain_id, cd_nominal_sample_rate = sample_rate\<rparr>
      in case (clock_position_to_audio_frames (ck_position anchor) (ck_frequency anchor) sample_rate,
               clock_position_to_audio_frames (ck_position s) (ck_frequency s) sample_rate) of
           (Some anchor_frames, Some frames) \<Rightarrow>
             Some (estimate_drift
               \<lparr>cs_domain = d, cs_frame_position = anchor_frames, cs_qpc_100ns = ck_qpc_position_100ns anchor\<rparr>
               \<lparr>cs_domain = d, cs_frame_position = frames, cs_qpc_100ns = ck_qpc_position_100ns s\<rparr>)
         | _ \<Rightarrow> None)"

definition duplex_feed_forward :: "clock_snapshot \<Rightarrow> clock_snapshot \<Rightarrow> rate_estimator \<Rightarrow> feed_forward" where
  "duplex_feed_forward capture render e =
     (case (device_drift 1 (re_capture_sample_rate e) (re_capture_anchor e) capture,
            device_drift 2 (re_render_sample_rate e) (re_render_anchor e) render) of
        (Some capture_drift, Some render_drift) \<Rightarrow> relative_rate_correction capture_drift render_drift
      | _ \<Rightarrow> no_feed_forward)"

definition observe_clocks :: "clock_snapshot \<Rightarrow> clock_snapshot \<Rightarrow> rate_estimator \<Rightarrow> clock_observation \<times> rate_estimator" where
  "observe_clocks capture render e =
     (if \<not> snapshot_can_anchor capture \<or> \<not> snapshot_can_anchor render \<or>
         re_capture_sample_rate e = 0 \<or> re_render_sample_rate e = 0
      then (observation_of ObservationInvalid, e\<lparr>re_anchor_available := False\<rparr>)
      else if \<not> re_anchor_available e then (observation_of WarmingUp, set_anchor capture render e)
      else if snapshot_stale (re_capture_anchor e) capture \<or> snapshot_stale (re_render_anchor e) render
      then (observation_of ObservationInvalid, set_anchor capture render e)
      else
        let capture_duration = ck_qpc_position_100ns capture - ck_qpc_position_100ns (re_capture_anchor e);
            render_duration = ck_qpc_position_100ns render - ck_qpc_position_100ns (re_render_anchor e);
            window = min capture_duration render_duration
        in if window < re_minimum_window e
           then (\<lparr>ob_status = WarmingUp, ob_feed_forward = no_feed_forward, ob_window_duration_100ns = window\<rparr>, e)
           else
             let f = duplex_feed_forward capture render e
             in (\<lparr>ob_status = (if ff_valid f then ObservationReady else ObservationInvalid), ob_feed_forward = f,
                  ob_window_duration_100ns = window\<rparr>,
                 if window \<ge> kMaximumClockObservationWindow100ns then set_anchor capture render e else e))"

section \<open>The tracker\<close>

datatype feed_forward_action = NoAction | ApplyCorrection | DisableCorrection

record feed_forward_tracker =
  ft_ready :: u64
  ft_invalid :: u64
  ft_warming_up :: u64
  ft_disabled_observations :: u64
  ft_consecutive_invalid :: u32
  ft_disabled :: bool

definition tracker_reset :: feed_forward_tracker where
  "tracker_reset = \<lparr>ft_ready = 0, ft_invalid = 0, ft_warming_up = 0, ft_disabled_observations = 0,
     ft_consecutive_invalid = 0, ft_disabled = False\<rparr>"

definition kInvalidSamplesBeforeDisable :: u32 where
  "kInvalidSamplesBeforeDisable = 3"

definition kMaximumCorrectionPpm :: f64 where
  "kMaximumCorrectionPpm = 0x40A3880000000000"

definition observation_usable :: "clock_observation \<Rightarrow> bool" where
  "observation_usable ob \<longleftrightarrow> ob_status ob = ObservationReady \<and> ff_valid (ob_feed_forward ob) \<and>
     f64_finite (ff_correction_ppm (ob_feed_forward ob)) \<and>
     f64_le (f64_abs (ff_correction_ppm (ob_feed_forward ob))) kMaximumCorrectionPpm"

definition tracker_record :: "clock_observation \<Rightarrow> feed_forward_tracker \<Rightarrow> feed_forward_action \<times> feed_forward_tracker" where
  "tracker_record ob t =
     (if ob_status ob = WarmingUp then (NoAction, t\<lparr>ft_warming_up := ft_warming_up t + 1\<rparr>)
      else if observation_usable ob
      then (ApplyCorrection, t\<lparr>ft_ready := ft_ready t + 1, ft_consecutive_invalid := 0, ft_disabled := False\<rparr>)
      else if ft_disabled t then (NoAction, t\<lparr>ft_disabled_observations := ft_disabled_observations t + 1\<rparr>)
      else
        let t = t\<lparr>ft_invalid := ft_invalid t + 1, ft_consecutive_invalid := ft_consecutive_invalid t + 1\<rparr>
        in if ft_consecutive_invalid t < kInvalidSamplesBeforeDisable then (NoAction, t)
           else (DisableCorrection, t\<lparr>ft_disabled := True\<rparr>))"

section \<open>The clock observer\<close>

text \<open>The correction that the runner takes: \<^verbatim>\<open>set_capture_clock_feed_forward_ppm\<close>.\<close>

definition bounded_feed_forward :: "f64 \<Rightarrow> f64" where
  "bounded_feed_forward correction_ppm =
     (if f64_finite correction_ppm then f64_clamp correction_ppm (f64_neg kMaximumCorrectionPpm) kMaximumCorrectionPpm else 0)"

record clock_observer =
  co_estimator :: rate_estimator
  co_tracker :: feed_forward_tracker
  co_smoothed :: f64
  co_feed_forward_ppm :: f64
  co_feed_forward_valid :: bool

text \<open>\<open>start\<close> resets the tracker and the correction; the thread begins with the two baselines of the clocks.\<close>

definition make_clock_observer :: "rate_estimator \<Rightarrow> clock_snapshot \<Rightarrow> clock_snapshot \<Rightarrow> clock_observer" where
  "make_clock_observer e capture_baseline render_baseline =
     \<lparr>co_estimator = snd (observe_clocks capture_baseline render_baseline e), co_tracker = tracker_reset, co_smoothed = 0,
      co_feed_forward_ppm = bounded_feed_forward 0, co_feed_forward_valid = False\<rparr>"

definition smooth_correction :: "f64 \<Rightarrow> f64 \<Rightarrow> f64" where
  "smooth_correction smoothed correction_ppm =
     (let filtered = f64_add smoothed (f64_mul 0x3FC999999999999A (f64_sub correction_ppm smoothed));
          step = f64_clamp (f64_sub filtered smoothed) (f64_neg 0x405F400000000000) 0x405F400000000000
      in f64_add smoothed step)"

text \<open>One round of the loop; \<open>None\<close> is a clock that could not be read.\<close>

definition observer_round :: "clock_snapshot option \<Rightarrow> clock_snapshot option \<Rightarrow> clock_observer \<Rightarrow> clock_observer" where
  "observer_round capture render c =
     (let (observation, e) =
        (case (capture, render) of
           (Some capture, Some render) \<Rightarrow> observe_clocks capture render (co_estimator c)
         | _ \<Rightarrow> (observation_of ObservationInvalid, co_estimator c));
          (action, t) = tracker_record observation (co_tracker c);
          c = c\<lparr>co_estimator := e, co_tracker := t\<rparr>
      in case action of
           ApplyCorrection \<Rightarrow>
             let smoothed = smooth_correction (co_smoothed c) (ff_correction_ppm (ob_feed_forward observation))
             in c\<lparr>co_smoothed := smoothed, co_feed_forward_ppm := bounded_feed_forward smoothed, co_feed_forward_valid := True\<rparr>
         | DisableCorrection \<Rightarrow>
             c\<lparr>co_feed_forward_ppm := bounded_feed_forward 0, co_feed_forward_valid := False, co_smoothed := 0\<rparr>
         | NoAction \<Rightarrow> c)"

section \<open>Positions become frames exactly\<close>

text \<open>What the loop has computed of the bits it has seen, the number \<open>n\<close>.\<close>

definition fraction_inv :: "u64 \<Rightarrow> u64 \<Rightarrow> nat \<Rightarrow> u64 \<times> u64 \<Rightarrow> bool" where
  "fraction_inv c f n s \<longleftrightarrow> snd s < f \<and> unat (fst s) * unat f + unat (snd s) = unat c * n"

lemma fraction_quotient_le: "fraction_inv c f n s \<Longrightarrow> c < f \<Longrightarrow> unat (fst s) \<le> n"
proof -
  assume s: "fraction_inv c f n s" and c: "c < f"
  have "unat (fst s) * unat f \<le> unat c * n" using s unfolding fraction_inv_def by linarith
  also have "\<dots> \<le> n * unat f" using c by (simp add: word_less_nat_alt mult.commute)
  finally show ?thesis using c by (auto simp: word_less_nat_alt)
qed

lemma unat_double: "unat (q :: u64) < 2 ^ 33 \<Longrightarrow> b \<le> 1 \<Longrightarrow> unat (q * 2 + b) = unat q * 2 + unat b"
  by (simp add: unat_word_ariths word_le_nat_alt)

lemma fraction_step_inv:
  assumes "fraction_inv c f n s" "c < f" "n < 2 ^ 32"
  shows "fraction_inv c f (2 * n + (if bit rate i then 1 else 0)) (fraction_step c f rate i s)"
proof -
  obtain q r where s: "s = (q, r)" by (cases s)
  have r: "unat r < unat f" and v: "unat q * unat f + unat r = unat c * n" and c: "unat c < unat f"
    using assms(1,2) by (simp_all add: fraction_inv_def s word_less_nat_alt)
  have q: "unat q < 2 ^ 32" using fraction_quotient_le [OF assms(1,2)] assms(3) by (simp add: s)
  have f: "unat f < 2 ^ 64" using unsigned_less [of f] by simp
  define d where "d = (r \<ge> f - r)"
  have fr: "unat (f - r) = unat f - unat r" using r by (simp add: unat_sub word_le_nat_alt less_imp_le)
  have d: "d \<longleftrightarrow> unat f \<le> 2 * unat r" unfolding d_def word_le_nat_alt fr by linarith
  define q1 where "q1 = q * 2 + (if d then 1 else 0)"
  define r1 where "r1 = (if d then r - (f - r) else r + r)"
  have q1: "unat q1 = 2 * unat q + (if d then 1 else 0)"
    using unat_double [of q "if d then 1 else 0"] q by (auto simp: q1_def)
  have r1: "unat r1 = 2 * unat r - (if d then unat f else 0)"
  proof (cases d)
    case True
    then have "f - r \<le> r" by (simp add: d_def)
    then have "unat (r - (f - r)) = unat r - (unat f - unat r)" by (rule trans [OF unat_sub]) (simp only: fr)
    then show ?thesis using True r by (simp add: r1_def)
  next
    case False
    then have "unat r + unat r < 2 ^ 64" using d f by linarith
    then show ?thesis using False by (simp add: r1_def unat_word_ariths)
  qed
  have r1f: "unat r1 < unat f" using r r1 d by (auto split: if_splits)
  have v1: "unat q1 * unat f + unat r1 = 2 * (unat c * n)"
    unfolding v [symmetric] q1 r1 using d by (cases d) (simp_all add: algebra_simps)
  have step: "fraction_step c f rate i s =
    (if \<not> bit rate i then (q1, r1)
     else if r1 \<ge> f - c then (q1 + 1, r1 - (f - c)) else (q1, r1 + c))"
    unfolding fraction_step_def s prod.case Let_def d_def [symmetric] q1_def [symmetric] r1_def [symmetric] ..
  have fc: "unat (f - c) = unat f - unat c" using c by (simp add: unat_sub word_le_nat_alt less_imp_le)
  have qs: "unat (q1 + 1) = unat q1 + 1"
    using q1 q by (simp add: unat_word_ariths)
  have le: "r1 \<ge> f - c \<longleftrightarrow> unat f \<le> unat r1 + unat c" unfolding word_le_nat_alt fc using c by linarith
  show ?thesis
  proof (cases "bit rate i")
    case False
    then show ?thesis using r1f v1 by (simp add: step fraction_inv_def word_less_nat_alt)
  next
    case True
    show ?thesis
    proof (cases "r1 \<ge> f - c")
      case up: True
      have "unat (r1 - (f - c)) = unat r1 - (unat f - unat c)" using up fc by (simp add: unat_sub)
      then show ?thesis
        using True up r1f v1 qs le c by (simp add: step fraction_inv_def word_less_nat_alt algebra_simps)
    next
      case down: False
      then have "unat r1 + unat c < 2 ^ 64" using le f by linarith
      then have "unat (r1 + c) = unat r1 + unat c" by (simp add: unat_word_ariths)
      then show ?thesis
        using True down v1 le by (simp add: step fraction_inv_def word_less_nat_alt algebra_simps)
    qed
  qed
qed

lemma high_bits_step: "k < 32 \<Longrightarrow> unat (rate :: u32) div 2 ^ k = 2 * (unat rate div 2 ^ Suc k) + (if bit rate k then 1 else 0)"
proof -
  assume "k < 32"
  have "unat rate div 2 ^ Suc k = (unat rate div 2 ^ k) div 2" by (simp add: div_mult2_eq power_Suc2 del: power_Suc)
  moreover have "bit rate k \<longleftrightarrow> odd (unat rate div 2 ^ k)" 
    using bit_unsigned_iff [of rate k, where 'a = nat] by (simp add: bit_iff_odd [of "unat rate"])
  ultimately show ?thesis by (auto elim: oddE)
qed

lemma fraction_fold_inv:
  "k \<le> 32 \<Longrightarrow> c < f \<Longrightarrow> fraction_inv c f (unat rate div 2 ^ k) (fold (fraction_step c f rate) (rev [k..<32]) (0, 0))"
proof (induction k rule: inc_induct)
  case base
  have "unat rate < 2 ^ 32" using unsigned_less [of rate] by simp
  then have "unat rate div 2 ^ 32 = 0" by simp
  then show ?case using base by (auto simp: fraction_inv_def word_less_nat_alt)
next
  case (step k)
  have "rev [k..<32] = rev [Suc k..<32] @ [k]" using step.hyps by (simp add: upt_conv_Cons)
  moreover have "unat rate < 2 ^ 32" using unsigned_less [of rate] by simp
  then have "unat rate div 2 ^ Suc k < 2 ^ 32" by (rule le_less_trans [OF div_le_dividend])
  ultimately show ?case
    using fraction_step_inv [OF step.IH [OF step.prems] step.prems, of rate k] high_bits_step [OF step.hyps(2), of rate] by simp
qed

lemma fractional_audio_frames_value:
  assumes "c < f"
  shows "unat (fractional_audio_frames c f rate) = unat c * unat rate div unat f"
proof -
  let ?s = "fold (fraction_step c f rate) (rev [0..<32]) (0, 0)"
  have "fraction_inv c f (unat rate) ?s" using fraction_fold_inv [of 0 c f rate] assms by simp
  then have "unat (snd ?s) < unat f" "unat c * unat rate = unat (fst ?s) * unat f + unat (snd ?s)"
    by (simp_all add: fraction_inv_def word_less_nat_alt)
  then show ?thesis by (simp add: fractional_audio_frames_def)
qed

lemma unat_all_ones: "unat (- 1 :: u64) = 2 ^ 64 - 1"
  by (simp add: unsigned_minus_1_eq_mask mask_eq_exp_minus_1)

text \<open>
  C28: A clock position becomes exactly \<open>position * sample_rate div frequency\<close> audio frames, although the code
  never forms that product, which may need 96 bits. It fails exactly when a rate is zero or the result does not fit in 64 bits.
\<close>

theorem clock_frames_exact:
  "clock_position_to_audio_frames p f rate =
     (let n = unat p * unat rate div unat f
      in if f = 0 \<or> rate = 0 \<or> 2 ^ 64 \<le> n then None else Some (word_of_nat n))"
proof (cases "f = 0 \<or> rate = 0")
  case True
  then show ?thesis by (auto simp: clock_position_to_audio_frames_def)
next
  case False
  define F R P where "F = unat f" and "R = unat rate" and "P = unat p"
  have F: "0 < F" and R: "0 < R" "R < 2 ^ 32" using False unsigned_less [of rate] by (auto simp: F_def R_def unat_gt_0)
  have up: "unat (ucast rate :: u64) = R" by (simp add: R_def unsigned_ucast_eq) (simp add: take_bit_nat_eq_self unsigned_less [of rate, THEN less_le_trans])
  define part where "part = fractional_audio_frames (p mod f) f rate"
  have part: "unat part = P mod F * R div F"
    unfolding part_def by (subst fractional_audio_frames_value) (use F in \<open>simp_all add: F_def P_def R_def word_less_nat_alt unat_mod\<close>)
  have whole: "p div f > - 1 div ucast rate \<longleftrightarrow> 2 ^ 64 \<le> P div F * R"
  proof -
    have "p div f > - 1 div ucast rate \<longleftrightarrow> (2 ^ 64 - 1) div R < P div F"
      by (simp add: word_less_nat_alt unat_div up F_def P_def unat_all_ones)
    also have "\<dots> \<longleftrightarrow> 2 ^ 64 - 1 < P div F * R" using R by (simp add: div_less_iff_less_mult)
    finally show ?thesis by auto
  qed
  have split: "P * R div F = P div F * R + P mod F * R div F"
  proof -
    have "P * R = P div F * R * F + P mod F * R"
      by (metis add.commute add_mult_distrib div_mult_mod_eq mult.assoc mult.commute)
    then show ?thesis using F by simp
  qed
  show ?thesis
  proof (cases "2 ^ 64 \<le> P div F * R")
    case True
    then show ?thesis using False whole split
      by (simp add: clock_position_to_audio_frames_def Let_def F_def P_def R_def)
  next
    case small: False
    define w where "w = (p div f) * ucast rate"
    have w: "unat w = P div F * R"
      using small by (subst w_def, subst unat_mult_lem [THEN iffD1]) (simp_all add: up unat_div F_def P_def)
    have "w > - 1 - part \<longleftrightarrow> 2 ^ 64 - 1 - unat part < unat w"
      by (simp add: word_less_nat_alt unat_sub unat_all_ones)
    also have "\<dots> \<longleftrightarrow> 2 ^ 64 \<le> P * R div F"
    proof -
      have "unat part < 2 ^ 64" using unsigned_less [of part] by simp
      then show ?thesis unfolding w split part by linarith
    qed
    finally have fits: "w > - 1 - part \<longleftrightarrow> 2 ^ 64 \<le> P * R div F" .
    have "w + part = word_of_nat (P * R div F)"
      unfolding word_unat_eq_iff by (simp only: unat_word_ariths w part split unat_of_nat)
    then show ?thesis using False small whole fits
      by (simp add: clock_position_to_audio_frames_def Let_def F_def P_def R_def flip: w_def part_def)
  qed
qed

lemma signed_frame_balance_value:
  "signed_frame_balance captured rendered = max (- (2 ^ 63)) (min (2 ^ 63 - 1) (uint captured - uint rendered))"
proof (cases "rendered \<le> captured")
  case True
  then have "uint (captured - rendered) = uint captured - uint rendered" by (simp add: uint_minus_simple_alt [THEN iffD1] word_le_def uint_sub_lem)
  then show ?thesis using True by (auto simp: signed_frame_balance_def Let_def word_less_def word_le_def)
next
  case False
  then have "captured \<le> rendered" by simp
  then have "uint (rendered - captured) = uint rendered - uint captured" by (simp add: word_le_def uint_sub_lem)
  then show ?thesis using False by (auto simp: signed_frame_balance_def Let_def word_less_def word_le_def)
qed

section \<open>Contiguous blocks\<close>

lemma bt_end_value:
  "bt_end_frame t = Some e \<Longrightarrow> unat e = unat (bt_start_frame t) + unat (bt_frame_count t)"
proof -
  assume e: "bt_end_frame t = Some e"
  have n: "unat (ucast (bt_frame_count t) :: u64) = unat (bt_frame_count t)"
    by (simp add: unsigned_ucast_eq) (simp add: take_bit_nat_eq_self unsigned_less [of "bt_frame_count t", THEN less_le_trans])
  have "unat (- 1 - ucast (bt_frame_count t) :: u64) = 2 ^ 64 - 1 - unat (bt_frame_count t)"
    by (simp add: unat_sub unat_all_ones n)
  then have "unat (bt_start_frame t) \<le> 2 ^ 64 - 1 - unat (bt_frame_count t)"
    using e by (auto simp: bt_end_frame_def word_less_nat_alt not_less split: if_splits)
  moreover have "unat (bt_frame_count t) < 2 ^ 32" using unsigned_less [of "bt_frame_count t"] by simp
  ultimately have "unat (bt_start_frame t) + unat (bt_frame_count t) < 2 ^ 64" by simp
  then show ?thesis using e by (auto simp: bt_end_frame_def unat_word_ariths n split: if_splits)
qed

text \<open>Blocks that follow one another without a gap cover an interval of frames that is as long as the blocks together.\<close>

fun contiguous_from :: "block_timeline \<Rightarrow> block_timeline list \<Rightarrow> bool" where
  "contiguous_from t [] \<longleftrightarrow> bt_valid t"
| "contiguous_from t (n # ns) \<longleftrightarrow> bt_relation t n = Contiguous \<and> contiguous_from n ns"

lemma contiguous_covers:
  "contiguous_from t ns \<Longrightarrow>
   (\<exists>e. bt_end_frame (last (t # ns)) = Some e \<and>
     unat e = unat (bt_start_frame t) + (\<Sum>b\<leftarrow>t # ns. unat (bt_frame_count b)))"
proof (induction ns arbitrary: t)
  case Nil
  then show ?case using bt_end_value by (auto simp: bt_valid_def)
next
  case (Cons n ns)
  then obtain e where e: "bt_end_frame (last (n # ns)) = Some e"
    "unat e = unat (bt_start_frame n) + (\<Sum>b\<leftarrow>n # ns. unat (bt_frame_count b))" by auto
  have "unat (bt_start_frame n) = unat (bt_start_frame t) + unat (bt_frame_count t)"
    using Cons.prems bt_end_value [of t] by (auto simp: bt_relation_def split: option.splits if_splits)
  then show ?case using e by auto
qed

section \<open>When the correction is used\<close>

text \<open>The observations that were not usable since the last usable one; a window that is still filling does not count.\<close>

fun unusable_streak :: "clock_observation list \<Rightarrow> nat" where
  "unusable_streak [] = 0"
| "unusable_streak (ob # obs) =
     (if ob_status ob = WarmingUp then unusable_streak obs
      else if observation_usable ob then 0 else Suc (unusable_streak obs))"

definition tracker_after :: "clock_observation list \<Rightarrow> feed_forward_tracker" where
  "tracker_after obs = foldr (\<lambda>ob t. snd (tracker_record ob t)) obs tracker_reset"

definition tracker_inv :: "clock_observation list \<Rightarrow> feed_forward_tracker \<Rightarrow> bool" where
  "tracker_inv obs t \<longleftrightarrow> ft_disabled t = (3 \<le> unusable_streak obs) \<and>
     unat (ft_consecutive_invalid t) = min 3 (unusable_streak obs) \<and>
     ft_ready t + ft_invalid t + ft_warming_up t + ft_disabled_observations t = word_of_nat (length obs)"

lemma u32_less_three: "(w :: u32) < 3 \<longleftrightarrow> unat w < 3"
  by (simp add: word_less_nat_alt)

lemma tracker_record_inv:
  assumes "tracker_inv obs t"
  shows "tracker_inv (ob # obs) (snd (tracker_record ob t))"
    and "fst (tracker_record ob t) =
      (if ob_status ob = WarmingUp then NoAction else if observation_usable ob then ApplyCorrection
       else if unusable_streak (ob # obs) = 3 then DisableCorrection else NoAction)"
proof -
  have n: "word_of_nat (length (ob # obs)) = (1 :: u64) + (ft_ready t + ft_invalid t + ft_warming_up t + ft_disabled_observations t)"
    using assms by (simp add: tracker_inv_def)
  have u: "unat (ft_consecutive_invalid t) = min 3 (unusable_streak obs)" "ft_disabled t = (3 \<le> unusable_streak obs)"
    using assms by (simp_all add: tracker_inv_def)
  have next_count: "unat (ft_consecutive_invalid t + 1) = unat (ft_consecutive_invalid t) + 1"
    using u by (simp add: unat_word_ariths)
  show "tracker_inv (ob # obs) (snd (tracker_record ob t))"
    unfolding tracker_inv_def n
    using u next_count by (auto simp: tracker_record_def kInvalidSamplesBeforeDisable_def u32_less_three Let_def)
  show "fst (tracker_record ob t) =
      (if ob_status ob = WarmingUp then NoAction else if observation_usable ob then ApplyCorrection
       else if unusable_streak (ob # obs) = 3 then DisableCorrection else NoAction)"
    using u next_count by (auto simp: tracker_record_def kInvalidSamplesBeforeDisable_def u32_less_three Let_def)
qed

lemma tracker_after_inv: "tracker_inv obs (tracker_after obs)"
proof (induction obs)
  case Nil
  show ?case by (simp add: tracker_inv_def tracker_after_def tracker_reset_def)
next
  case (Cons ob obs)
  then show ?case using tracker_record_inv(1) [of obs "tracker_after obs" ob] by (simp add: tracker_after_def)
qed

text \<open>
  What the tracker does with an observation depends on the history since its reset (the last observation
  first) only: a usable one is applied, the third unusable one in a row, not counting windows that still fill, switches the
  correction off, and every other one changes nothing. Every observation is counted in exactly one of the four counts.
\<close>

theorem tracker_disables_on_third:
  "fst (tracker_record ob (tracker_after obs)) =
     (if ob_status ob = WarmingUp then NoAction else if observation_usable ob then ApplyCorrection
      else if unusable_streak (ob # obs) = 3 then DisableCorrection else NoAction) \<and>
   (let t = tracker_after obs
    in ft_ready t + ft_invalid t + ft_warming_up t + ft_disabled_observations t = word_of_nat (length obs) \<and>
       ft_disabled t = (3 \<le> unusable_streak obs))"
  using tracker_record_inv(2) [OF tracker_after_inv] tracker_after_inv [of obs] by (simp add: tracker_inv_def Let_def)

section \<open>The correction of the runner is bounded\<close>

lemma f64_bound_facts:
  "f64_finite kMaximumCorrectionPpm" "f64_finite (f64_neg kMaximumCorrectionPpm)" "\<not> f64_nan kMaximumCorrectionPpm"
  "\<not> f64_nan (f64_neg kMaximumCorrectionPpm)" "\<not> f64_less kMaximumCorrectionPpm (f64_neg kMaximumCorrectionPpm)"
  by (simp_all add: kMaximumCorrectionPpm_def f64_neg_def f64_finite_def f64_nan_def f64_less_def f64_negative_def f64_is_zero_def)

lemma f64_finite_not_nan: "f64_finite x \<Longrightarrow> \<not> f64_nan x"
  by (simp add: f64_finite_def f64_nan_def)

definition within_bound :: "f64 \<Rightarrow> bool" where
  "within_bound x \<longleftrightarrow> f64_finite x \<and> f64_le (f64_neg kMaximumCorrectionPpm) x \<and> f64_le x kMaximumCorrectionPpm"

lemma bounded_feed_forward_within: "within_bound (bounded_feed_forward x)"
proof (cases "f64_finite x")
  case True
  then show ?thesis
    using f64_bound_facts f64_finite_not_nan [OF True]
    by (auto simp: within_bound_def bounded_feed_forward_def f64_clamp_def f64_le_def)
next
  case False
  have "within_bound 0"
    by (simp add: within_bound_def kMaximumCorrectionPpm_def f64_neg_def f64_le_def f64_nan_def f64_less_def f64_negative_def f64_is_zero_def)
  then show ?thesis using False by (simp add: bounded_feed_forward_def)
qed

lemma bounded_zero: "bounded_feed_forward 0 = 0"
  by (simp add: bounded_feed_forward_def f64_clamp_def kMaximumCorrectionPpm_def f64_neg_def f64_less_def f64_nan_def
      f64_negative_def f64_is_zero_def)

lemma zero_within: "within_bound 0"
  using bounded_feed_forward_within [of 0] by (simp add: bounded_zero)

definition observer_after :: "(clock_snapshot option \<times> clock_snapshot option) list \<Rightarrow> clock_observer \<Rightarrow> clock_observer" where
  "observer_after rounds c = fold (\<lambda>(capture, render) c. observer_round capture render c) rounds c"

definition correction_sound :: "clock_observer \<Rightarrow> bool" where
  "correction_sound c \<longleftrightarrow> within_bound (co_feed_forward_ppm c) \<and> (co_feed_forward_valid c \<or> co_feed_forward_ppm c = 0)"

lemma observer_round_sound: "correction_sound c \<Longrightarrow> correction_sound (observer_round capture render c)"
  using bounded_feed_forward_within zero_within
  by (auto simp: correction_sound_def bounded_zero observer_round_def Let_def split: prod.splits feed_forward_action.splits)

lemma observer_after_sound: "correction_sound c \<Longrightarrow> correction_sound (observer_after rounds c)"
  by (induction rounds arbitrary: c) (auto simp: observer_after_def intro: observer_round_sound)

text \<open>
  C29: Whatever the two clocks report, from start on and after any number of rounds of the observer, the
  correction that the graph runner takes is a finite number of at most 2500 ppm either way, and it is zero whenever it is
  not marked as valid.
\<close>

theorem observer_feed_forward_bounded:
  "within_bound (co_feed_forward_ppm (observer_after rounds (make_clock_observer e capture render))) \<and>
   (co_feed_forward_valid (observer_after rounds (make_clock_observer e capture render)) \<or>
    co_feed_forward_ppm (observer_after rounds (make_clock_observer e capture render)) = 0)"
  using observer_after_sound [of "make_clock_observer e capture render" rounds]
  by (simp add: correction_sound_def make_clock_observer_def bounded_zero zero_within)

text \<open>
  An observation is ready only when both clocks kept their frequency and moved on from the anchor for at least the
  window that the quantization of the clocks needs, and a correction that is ready is finite. The anchor moves
  only forward to the observed snapshots.
\<close>

theorem ready_observation_spans_window:
  assumes "observe_clocks capture render e = (ob, e')" "ob_status ob = ObservationReady"
  shows "re_minimum_window e \<le> ob_window_duration_100ns ob \<and>
    ob_window_duration_100ns ob = min (ck_qpc_position_100ns capture - ck_qpc_position_100ns (re_capture_anchor e))
      (ck_qpc_position_100ns render - ck_qpc_position_100ns (re_render_anchor e)) \<and>
    ck_position (re_capture_anchor e) < ck_position capture \<and> ck_position (re_render_anchor e) < ck_position render \<and>
    ck_frequency capture = ck_frequency (re_capture_anchor e) \<and> ck_frequency render = ck_frequency (re_render_anchor e) \<and>
    f64_finite (ff_correction_ppm (ob_feed_forward ob)) \<and>
    (e' = e \<or> e' = set_anchor capture render e)"
proof -
  have finite: "ff_valid (relative_rate_correction c r) \<Longrightarrow> f64_finite (ff_correction_ppm (relative_rate_correction c r))" for c r
    by (auto simp: relative_rate_correction_def no_feed_forward_def Let_def split: if_splits)
  then have "ff_valid (duplex_feed_forward capture render e) \<Longrightarrow> f64_finite (ff_correction_ppm (duplex_feed_forward capture render e))"
    by (auto simp: duplex_feed_forward_def no_feed_forward_def split: option.splits)
  then show ?thesis using assms
    by (auto simp: observe_clocks_def observation_of_def snapshot_stale_def Let_def not_less not_le split: if_splits)
qed

end
