(* ===== verification/WasapiStream.thy ===== *)
theory WasapiStream
  imports SampleConverter RealtimeError ClockDrift
begin

text \<open>
  \<^verbatim>\<open>core/platform/windows_wasapi_stream.{h,cpp}\<close>: one stream of a device in shared mode, its states, and the
  transfer of one packet in either direction. The audio client, its services and the events are those of
  Windows: functions over a type \<open>'w\<close> of the world outside.
\<close>

section \<open>Probes and errors\<close>

text \<open>Of \<^verbatim>\<open>windows_wasapi_stream_probe.h\<close>.\<close>

datatype stream_direction = RenderStream | CaptureStream
datatype stream_mode = EndpointStream | LoopbackStream

record stream_probe =
  pb_direction :: stream_direction
  pb_mode :: stream_mode
  pb_device_id :: string
  pb_device_label :: string
  pb_mix_format :: audio_format
  pb_default_period_100ns :: u64
  pb_minimum_period_100ns :: u64
  pb_buffer_frames :: u32

record stream_error =
  sx_code :: string
  sx_message :: string
  sx_native_hresult :: "u32 option"
  sx_native_win32_code :: "u32 option"

definition stream_error_of :: "string \<Rightarrow> string \<Rightarrow> stream_error" where
  "stream_error_of code message =
     \<lparr>sx_code = code, sx_message = message, sx_native_hresult = None, sx_native_win32_code = None\<rparr>"

text \<open>Eight upper case digits.\<close>

definition hex_digit :: "nat \<Rightarrow> char" where
  "hex_digit n = ''0123456789ABCDEF'' ! n"

definition hresult_hex :: "u32 \<Rightarrow> string" where
  "hresult_hex r = ''0x'' @ map (\<lambda>i. hex_digit (unat (drop_bit (4 * i) r AND 15))) [7, 6, 5, 4, 3, 2, 1, 0]"

definition hresult_failed :: "u32 \<Rightarrow> bool" where
  "hresult_failed r \<longleftrightarrow> 0x80000000 \<le> r"

definition native_error :: "string \<Rightarrow> string \<Rightarrow> u32 \<Rightarrow> stream_error" where
  "native_error code message r =
     \<lparr>sx_code = code, sx_message = message @ hresult_hex r @ ''.'', sx_native_hresult = Some r, sx_native_win32_code = None\<rparr>"

definition validate_probe :: "stream_probe \<Rightarrow> stream_error list" where
  "validate_probe p =
     push_if (pb_mode p = LoopbackStream \<and> pb_direction p \<noteq> CaptureStream)
       (stream_error_of ''invalid_loopback_direction'' ''WASAPI loopback mode is only valid for capture streams.'') @
     push_if (pb_device_id p = [])
       (stream_error_of ''empty_device_id'' ''WASAPI stream probe device ID must not be empty.'') @
     push_if (pb_device_label p = [])
       (stream_error_of ''empty_device_label'' ''WASAPI stream probe device label must not be empty.'') @
     push_if (af_sample_rate (pb_mix_format p) = 0)
       (stream_error_of ''invalid_sample_rate'' ''WASAPI stream sample rate must be non-zero.'') @
     push_if (af_channels (pb_mix_format p) = 0)
       (stream_error_of ''invalid_channel_count'' ''WASAPI stream channel count must be non-zero.'') @
     push_if (af_bits_per_sample (pb_mix_format p) = 0)
       (stream_error_of ''invalid_bits_per_sample'' ''WASAPI stream bit depth must be non-zero.'') @
     push_if (af_sample_format (pb_mix_format p) = Unknown)
       (stream_error_of ''unsupported_sample_format'' ''WASAPI stream sample format must be supported before opening.'') @
     push_if (af_frames_per_block (pb_mix_format p) = 0)
       (stream_error_of ''invalid_frames_per_block'' ''WASAPI stream block size must be non-zero.'') @
     push_if (af_frames_per_block (pb_mix_format p) \<noteq> 0 \<and> af_frames_per_block (pb_mix_format p) \<noteq> pb_buffer_frames p)
       (stream_error_of ''frames_per_block_mismatch'' ''WASAPI stream block size must match the probed buffer size.'') @
     push_if (pb_buffer_frames p = 0)
       (stream_error_of ''invalid_buffer_frames'' ''WASAPI stream buffer size must be non-zero.'') @
     push_if (pb_default_period_100ns p = 0)
       (stream_error_of ''invalid_device_period'' ''WASAPI stream device period must be non-zero.'') @
     push_if (pb_minimum_period_100ns p = 0)
       (stream_error_of ''invalid_minimum_device_period'' ''WASAPI stream minimum device period must be non-zero.'') @
     push_if (pb_default_period_100ns p \<noteq> 0 \<and> pb_minimum_period_100ns p > pb_default_period_100ns p)
       (stream_error_of ''invalid_device_period_order''
          ''WASAPI stream minimum device period must not exceed the default period.'')"

text \<open>The period of a shared stream: the multiple of the fundamental period nearest to the request.\<close>

definition select_wasapi_shared_period_frames :: "u32 \<Rightarrow> u32 \<Rightarrow> u32 \<Rightarrow> u32 \<Rightarrow> u32 \<Rightarrow> u32" where
  "select_wasapi_shared_period_frames requested default_period fundamental minimum maximum =
     (if requested = 0 \<or> minimum = 0 \<or> maximum < minimum then default_period
      else if fundamental = 0 then default_period
      else
        let first = ((ucast minimum + ucast fundamental - 1) div ucast fundamental) * ucast fundamental :: u64;
            last_period = (ucast maximum div ucast fundamental) * ucast fundamental :: u64
        in if first > last_period \<or> first > 0xFFFFFFFF then default_period
           else if ucast requested \<le> first then ucast first
           else if ucast requested \<ge> last_period then ucast last_period
           else
             let lower = (ucast requested div ucast fundamental) * ucast fundamental :: u64;
                 upper = lower + ucast fundamental
             in if ucast requested - lower < upper - ucast requested then ucast lower else ucast upper)"

section \<open>Results of a transfer\<close>

datatype io_status = IoCompleted | IoIdle | IoTimedOut | IoCancelled | IoFailed

record io_result =
  io_frames :: u32
  io_status :: io_status
  io_silent :: bool
  io_data_discontinuity :: bool
  io_timestamp_error :: bool
  io_errors :: "stream_error list"
  io_realtime_error :: realtime_error

definition io_success :: "u32 \<Rightarrow> bool \<Rightarrow> bool \<Rightarrow> io_result" where
  "io_success frames discontinuity timestamp =
     \<lparr>io_frames = frames, io_status = (if frames = 0 then IoIdle else IoCompleted), io_silent = False,
      io_data_discontinuity = discontinuity, io_timestamp_error = timestamp, io_errors = [], io_realtime_error = no_error\<rparr>"

definition io_success_silent :: "u32 \<Rightarrow> bool \<Rightarrow> bool \<Rightarrow> io_result" where
  "io_success_silent frames discontinuity timestamp =
     \<lparr>io_frames = frames, io_status = (if frames = 0 then IoIdle else IoCompleted), io_silent = (frames > 0),
      io_data_discontinuity = discontinuity, io_timestamp_error = timestamp, io_errors = [], io_realtime_error = no_error\<rparr>"

definition io_without_frames :: "io_status \<Rightarrow> io_result" where
  "io_without_frames status =
     \<lparr>io_frames = 0, io_status = status, io_silent = False, io_data_discontinuity = False, io_timestamp_error = False,
      io_errors = [], io_realtime_error = no_error\<rparr>"

definition io_timeout :: io_result where "io_timeout = io_without_frames IoTimedOut"
definition io_cancellation :: io_result where "io_cancellation = io_without_frames IoCancelled"

definition io_failure :: "realtime_error \<Rightarrow> io_result" where
  "io_failure e = (io_without_frames IoFailed)\<lparr>io_realtime_error := e\<rparr>"

definition io_ok :: "io_result \<Rightarrow> bool" where "io_ok r \<longleftrightarrow> io_status r \<noteq> IoFailed"
definition io_timed_out :: "io_result \<Rightarrow> bool" where "io_timed_out r \<longleftrightarrow> io_status r = IoTimedOut"
definition io_cancelled :: "io_result \<Rightarrow> bool" where "io_cancelled r \<longleftrightarrow> io_status r = IoCancelled"

definition realtime_error_of :: "realtime_code \<Rightarrow> u16 \<Rightarrow> u32 \<Rightarrow> realtime_error" where
  "realtime_error_of code context_bits error_value = \<lparr>er_code = code_number code, er_context = context_bits, er_value = error_value\<rparr>"

definition sample_conversion_error :: "conversion_status \<Rightarrow> realtime_error" where
  "sample_conversion_error status =
     (case status of
        ConversionOk \<Rightarrow> no_error
      | ConversionUnsupported \<Rightarrow> realtime_error_of UnsupportedSampleFormat 0 0
      | ConversionTooSmall \<Rightarrow> realtime_error_of SampleBufferTooSmall 0 0
      | ConversionChannels \<Rightarrow> realtime_error_of SampleChannelMismatch 0 0
      | ConversionNull \<Rightarrow> realtime_error_of SampleConversionFailed 0 0)"

section \<open>The stream\<close>

datatype wait_result = StopRequested | SamplesReady | WaitTimedOut | WaitFailed u32

text \<open>
  What the stream asks of Windows. A wait answers which of the stop and the samples-ready event came. The buffers of
  the two clients are the memory between \<^verbatim>\<open>GetBuffer\<close> and \<^verbatim>\<open>ReleaseBuffer\<close>; releasing a render buffer hands its bytes,
  or silence (\<open>None\<close>), to the device.
\<close>

record 'w audio_client =
  ac_start :: "'w \<Rightarrow> u32 \<times> 'w"
  ac_stop :: "'w \<Rightarrow> u32 \<times> 'w"
  ac_reset_stop_event :: "'w \<Rightarrow> 'w"
  ac_set_stop_event :: "'w \<Rightarrow> 'w"
  ac_wait :: "u32 \<Rightarrow> 'w \<Rightarrow> wait_result \<times> 'w"
  ac_padding :: "'w \<Rightarrow> (u32 \<times> u32) \<times> 'w"
  ac_get_render_buffer :: "u32 \<Rightarrow> 'w \<Rightarrow> (u32 \<times> byte list option) \<times> 'w"
  ac_release_render_buffer :: "u32 \<Rightarrow> byte list option \<Rightarrow> 'w \<Rightarrow> u32 \<times> 'w"
  ac_next_packet :: "'w \<Rightarrow> (u32 \<times> u32) \<times> 'w"
  ac_get_capture_buffer :: "'w \<Rightarrow> (u32 \<times> byte list option \<times> u32 \<times> u32) \<times> 'w"
  ac_release_capture_buffer :: "u32 \<Rightarrow> 'w \<Rightarrow> u32 \<times> 'w"
  ac_clock_position :: "'w \<Rightarrow> (u32 \<times> u64 \<times> u64) \<times> 'w"

datatype stream_state = StreamClosed | StreamOpen | StreamStarted

record stream_impl =
  im_audio_client :: bool
  im_audio_clock :: bool
  im_render_client :: bool
  im_capture_client :: bool
  im_clock_frequency :: u64
  im_samples_ready_event :: bool
  im_stop_requested_event :: bool
  im_samples_ready_latched :: bool

record wasapi_stream =
  ws_state :: stream_state
  ws_probe :: stream_probe
  ws_impl :: "stream_impl option"

definition empty_probe :: stream_probe where
  "empty_probe =
     \<lparr>pb_direction = RenderStream, pb_mode = EndpointStream, pb_device_id = [], pb_device_label = [],
      pb_mix_format = default_audio_format, pb_default_period_100ns = 0, pb_minimum_period_100ns = 0, pb_buffer_frames = 0\<rparr>"

definition closed_stream :: wasapi_stream where
  "closed_stream = \<lparr>ws_state = StreamClosed, ws_probe = empty_probe, ws_impl = None\<rparr>"

definition stream_open :: "stream_probe \<Rightarrow> wasapi_stream \<Rightarrow> stream_error list \<times> wasapi_stream" where
  "stream_open p s =
     (if ws_state s \<noteq> StreamClosed
      then ([stream_error_of ''stream_already_open'' ''WASAPI stream shell is already open.''], s)
      else if validate_probe p \<noteq> [] then (validate_probe p, s)
      else ([], s\<lparr>ws_probe := p, ws_impl := None, ws_state := StreamOpen\<rparr>))"

definition stream_start :: "'w audio_client \<Rightarrow> wasapi_stream \<Rightarrow> 'w \<Rightarrow> stream_error list \<times> wasapi_stream \<times> 'w" where
  "stream_start c s w =
     (if ws_state s = StreamStarted then ([], s, w)
      else if ws_state s \<noteq> StreamOpen
      then ([stream_error_of ''stream_not_open'' ''WASAPI stream shell must be open before start.''], s, w)
      else case ws_impl s of
          None \<Rightarrow> ([], s\<lparr>ws_state := StreamStarted\<rparr>, w)
        | Some m \<Rightarrow>
            if \<not> im_audio_client m then ([], s\<lparr>ws_state := StreamStarted\<rparr>, w)
            else
              let s = s\<lparr>ws_impl := Some (m\<lparr>im_samples_ready_latched := False\<rparr>)\<rparr>;
                  w = (if im_stop_requested_event m then ac_reset_stop_event c w else w)
              in case ac_start c w of (r, w) \<Rightarrow>
                if hresult_failed r
                then ([native_error ''wasapi_start_failed'' ''WASAPI audio client start failed with '' r], s, w)
                else ([], s\<lparr>ws_state := StreamStarted\<rparr>, w))"

definition complete_stop :: "u32 \<Rightarrow> wasapi_stream \<Rightarrow> stream_error list \<times> wasapi_stream" where
  "complete_stop r s =
     (if hresult_failed r
      then [native_error ''wasapi_stop_failed'' ''WASAPI audio client stop failed with '' r] else [],
      s\<lparr>ws_state := StreamOpen\<rparr>)"

definition impl_has :: "(stream_impl \<Rightarrow> bool) \<Rightarrow> wasapi_stream \<Rightarrow> bool" where
  "impl_has P s = (case ws_impl s of None \<Rightarrow> False | Some m \<Rightarrow> P m)"

definition stream_stop :: "'w audio_client \<Rightarrow> wasapi_stream \<Rightarrow> 'w \<Rightarrow> stream_error list \<times> wasapi_stream \<times> 'w" where
  "stream_stop c s w =
     (if ws_state s = StreamOpen then ([], s, w)
      else if ws_state s \<noteq> StreamStarted
      then ([stream_error_of ''stream_not_started'' ''WASAPI stream shell is not started.''], s, w)
      else case (if impl_has im_audio_client s then ac_stop c w else (0, w)) of (r, w) \<Rightarrow>
        case complete_stop r s of (es, s) \<Rightarrow> (es, s, w))"

definition stream_request_stop :: "'w audio_client \<Rightarrow> wasapi_stream \<Rightarrow> 'w \<Rightarrow> 'w" where
  "stream_request_stop c s w = (if impl_has im_stop_requested_event s then ac_set_stop_event c w else w)"

definition stream_close :: "'w audio_client \<Rightarrow> wasapi_stream \<Rightarrow> 'w \<Rightarrow> wasapi_stream \<times> 'w" where
  "stream_close c s w =
     (closed_stream, if ws_state s = StreamStarted \<and> impl_has im_audio_client s then snd (ac_stop c w) else w)"

definition read_clock :: "'w audio_client \<Rightarrow> wasapi_stream \<Rightarrow> 'w \<Rightarrow> clock_snapshot option \<times> 'w" where
  "read_clock c s w =
     (case ws_impl s of
        None \<Rightarrow> (None, w)
      | Some m \<Rightarrow>
          if \<not> im_audio_clock m \<or> im_clock_frequency m = 0 then (None, w)
          else case ac_clock_position c w of ((r, position, qpc), w) \<Rightarrow>
            if hresult_failed r then (None, w)
            else (Some \<lparr>ck_position = position, ck_qpc_position_100ns = qpc, ck_frequency = im_clock_frequency m\<rparr>, w))"

text \<open>Reads the flag that an event has been seen and clears it.\<close>

definition take_latch :: "wasapi_stream \<Rightarrow> bool \<times> wasapi_stream" where
  "take_latch s =
     (case ws_impl s of
        None \<Rightarrow> (False, s)
      | Some m \<Rightarrow> (im_samples_ready_latched m, s\<lparr>ws_impl := Some (m\<lparr>im_samples_ready_latched := False\<rparr>)\<rparr>))"

section \<open>Rendering one packet\<close>

definition kBufferFlagDataDiscontinuity :: u32 where "kBufferFlagDataDiscontinuity = 1"
definition kBufferFlagSilent :: u32 where "kBufferFlagSilent = 2"
definition kBufferFlagTimestampError :: u32 where "kBufferFlagTimestampError = 4"

definition render_unavailable :: "stream_impl \<Rightarrow> bool" where
  "render_unavailable m \<longleftrightarrow> \<not> im_audio_client m \<or> \<not> im_render_client m \<or> \<not> im_samples_ready_event m \<or> \<not> im_stop_requested_event m"

definition capture_unavailable :: "stream_impl \<Rightarrow> bool" where
  "capture_unavailable m \<longleftrightarrow> \<not> im_capture_client m \<or> \<not> im_samples_ready_event m \<or> \<not> im_stop_requested_event m"

text \<open>From the padding on: the frames that fit, their buffer, the conversion, the release.\<close>

definition render_packet :: "int \<Rightarrow> 'w audio_client \<Rightarrow> stream_probe \<Rightarrow> audio_buffer \<Rightarrow> u32 \<Rightarrow> 'w \<Rightarrow> io_result \<times> 'w" where
  "render_packet u c p source requested w =
     (case ac_get_render_buffer c requested w of ((r, memory), w) \<Rightarrow>
        if hresult_failed r \<or> memory = None
        then (io_failure (realtime_error_of WasapiRenderBufferFailed (context_render OR context_native_hresult) r), w)
        else case export_float_to_interleaved u source (pb_mix_format p) memory
            (required_interleaved_bytes (pb_mix_format p) (unat requested)) (unat requested) of (status, memory) \<Rightarrow>
          if status \<noteq> ConversionOk
          then (io_failure (sample_conversion_error status), snd (ac_release_render_buffer c requested None w))
          else case ac_release_render_buffer c requested memory w of (r, w) \<Rightarrow>
            if hresult_failed r
            then (io_failure (realtime_error_of WasapiRenderBufferReleaseFailed (context_render OR context_native_hresult) r), w)
            else (io_success requested False False, w))"

definition render_available :: "int \<Rightarrow> 'w audio_client \<Rightarrow> stream_probe \<Rightarrow> audio_buffer \<Rightarrow> u32 \<Rightarrow> 'w \<Rightarrow> io_result \<times> 'w" where
  "render_available u c p source frames w =
     (case ac_padding c w of ((r, padding), w) \<Rightarrow>
        if hresult_failed r
        then (io_failure (realtime_error_of WasapiPaddingFailed (context_render OR context_native_hresult) r), w)
        else if padding \<ge> pb_buffer_frames p then (io_success 0 False False, w)
        else
          let requested = min (min (pb_buffer_frames p - padding) (word_of_nat (ab_frames source))) frames
          in if requested = 0 then (io_success 0 False False, w) else render_packet u c p source requested w)"

definition render_once ::
  "int \<Rightarrow> 'w audio_client \<Rightarrow> audio_buffer \<Rightarrow> u32 \<Rightarrow> u32 \<Rightarrow> wasapi_stream \<Rightarrow> 'w \<Rightarrow> io_result \<times> wasapi_stream \<times> 'w" where
  "render_once u c source frames timeout s w =
     (if ws_state s \<noteq> StreamStarted then (io_failure (realtime_error_of StreamNotStarted context_render 0), s, w)
      else if pb_direction (ws_probe s) \<noteq> RenderStream
      then (io_failure (realtime_error_of WrongStreamDirection context_render 0), s, w)
      else if \<not> impl_has (\<lambda>m. \<not> render_unavailable m) s
      then (io_failure (realtime_error_of NativeStreamUnavailable context_render 0), s, w)
      else case take_latch s of (latched, s) \<Rightarrow>
        case (if latched then (SamplesReady, w) else ac_wait c timeout w) of (wait, w) \<Rightarrow>
          (case wait of
             StopRequested \<Rightarrow> (io_cancellation, s, w)
           | WaitFailed e \<Rightarrow>
               (io_failure (realtime_error_of WasapiEventWaitFailed (context_render OR context_native_win32) e), s, w)
           | _ \<Rightarrow> case render_available u c (ws_probe s) source frames w of (r, w) \<Rightarrow> (r, s, w)))"

section \<open>Capturing one packet\<close>

definition fill_silence :: "nat \<Rightarrow> audio_buffer \<Rightarrow> audio_buffer" where
  "fill_silence frames destination =
     fold (\<lambda>c. ab_put_channel (replicate frames 0) c) [0..<ab_channels destination] destination"

definition capture_release ::
  "'w audio_client \<Rightarrow> u32 \<Rightarrow> u32 \<Rightarrow> audio_buffer \<Rightarrow> 'w \<Rightarrow> io_result \<times> audio_buffer \<times> 'w" where
  "capture_release c frames flags destination w =
     (case ac_release_capture_buffer c frames w of (r, w) \<Rightarrow>
        if hresult_failed r
        then (io_failure (realtime_error_of WasapiCaptureBufferReleaseFailed (context_capture OR context_native_hresult) r),
              destination, w)
        else
          let discontinuity = (flags AND kBufferFlagDataDiscontinuity \<noteq> 0);
              timestamp = (flags AND kBufferFlagTimestampError \<noteq> 0)
          in (if flags AND kBufferFlagSilent \<noteq> 0 then io_success_silent frames discontinuity timestamp
              else io_success frames discontinuity timestamp, destination, w))"

definition capture_packet ::
  "'w audio_client \<Rightarrow> stream_probe \<Rightarrow> audio_buffer \<Rightarrow> 'w \<Rightarrow> io_result \<times> audio_buffer \<times> 'w" where
  "capture_packet c p destination w =
     (case ac_get_capture_buffer c w of ((r, memory, frames, flags), w) \<Rightarrow>
        if hresult_failed r
        then (io_failure (realtime_error_of WasapiCaptureBufferFailed (context_capture OR context_native_hresult) r),
              destination, w)
        else if flags AND kBufferFlagSilent \<noteq> 0
        then capture_release c frames flags (fill_silence (unat frames) destination) w
        else case import_interleaved_to_float memory (required_interleaved_bytes (pb_mix_format p) (unat frames))
            (pb_mix_format p) destination (unat frames) of (status, destination) \<Rightarrow>
          if status \<noteq> ConversionOk
          then (io_failure (sample_conversion_error status), destination, snd (ac_release_capture_buffer c frames w))
          else capture_release c frames flags destination w)"

definition capture_available ::
  "'w audio_client \<Rightarrow> stream_probe \<Rightarrow> u32 \<Rightarrow> audio_buffer \<Rightarrow> 'w \<Rightarrow> io_result \<times> audio_buffer \<times> 'w" where
  "capture_available c p packet_frames destination w =
     (if packet_frames = 0 then (io_success 0 False False, destination, w)
      else if unat packet_frames > ab_frames destination
      then (io_failure (realtime_error_of CaptureBufferTooSmall context_capture 0), destination, w)
      else capture_packet c p destination w)"

definition capture_query ::
  "'w audio_client \<Rightarrow> (u32 \<Rightarrow> 'w \<Rightarrow> io_result \<times> audio_buffer \<times> 'w) \<Rightarrow> audio_buffer \<Rightarrow> 'w \<Rightarrow> io_result \<times> audio_buffer \<times> 'w" where
  "capture_query c next destination w =
     (case ac_next_packet c w of ((r, packet_frames), w) \<Rightarrow>
        if hresult_failed r
        then (io_failure (realtime_error_of WasapiCapturePacketFailed (context_capture OR context_native_hresult) r),
              destination, w)
        else next packet_frames w)"

definition capture_wait ::
  "'w audio_client \<Rightarrow> stream_probe \<Rightarrow> u32 \<Rightarrow> audio_buffer \<Rightarrow> 'w \<Rightarrow> io_result \<times> audio_buffer \<times> 'w" where
  "capture_wait c p timeout destination w =
     (case ac_wait c timeout w of (wait, w) \<Rightarrow>
        (case wait of
           StopRequested \<Rightarrow> (io_cancellation, destination, w)
         | WaitTimedOut \<Rightarrow> (io_timeout, destination, w)
         | WaitFailed e \<Rightarrow>
             (io_failure (realtime_error_of WasapiEventWaitFailed (context_capture OR context_native_win32) e), destination, w)
         | SamplesReady \<Rightarrow> capture_query c (\<lambda>n w. capture_available c p n destination w) destination w))"

definition capture_once ::
  "'w audio_client \<Rightarrow> u32 \<Rightarrow> audio_buffer \<Rightarrow> wasapi_stream \<Rightarrow> 'w \<Rightarrow> io_result \<times> audio_buffer \<times> wasapi_stream \<times> 'w" where
  "capture_once c timeout destination s w =
     (if ws_state s \<noteq> StreamStarted
      then (io_failure (realtime_error_of StreamNotStarted context_capture 0), destination, s, w)
      else if pb_direction (ws_probe s) \<noteq> CaptureStream
      then (io_failure (realtime_error_of WrongStreamDirection context_capture 0), destination, s, w)
      else if \<not> impl_has (\<lambda>m. \<not> capture_unavailable m) s
      then (io_failure (realtime_error_of NativeStreamUnavailable context_capture 0), destination, s, w)
      else case take_latch s of (latched, s) \<Rightarrow>
        case capture_query c (\<lambda>n w. if n = 0 \<and> \<not> latched then capture_wait c (ws_probe s) timeout destination w
               else capture_available c (ws_probe s) n destination w) destination w of
          (r, destination, w) \<Rightarrow> (r, destination, s, w))"

section \<open>Waiting for two streams\<close>

datatype duplex_wait_status = DuplexReady | DuplexTimedOut | DuplexCancelled | DuplexFailed | DuplexUnavailable

text \<open>Which of the four events a wait found; the stop events come first.\<close>

datatype duplex_event = CaptureStop | RenderStop | CaptureReady | RenderReady | NoEvent | EventFailed

definition set_latch :: "wasapi_stream \<Rightarrow> wasapi_stream" where
  "set_latch s = s\<lparr>ws_impl := map_option (\<lambda>m. m\<lparr>im_samples_ready_latched := True\<rparr>) (ws_impl s)\<rparr>"

definition wait_for_wasapi_duplex_events ::
  "(u32 \<Rightarrow> 'w \<Rightarrow> duplex_event \<times> 'w) \<Rightarrow> u32 \<Rightarrow> wasapi_stream \<Rightarrow> wasapi_stream \<Rightarrow> 'w \<Rightarrow>
     duplex_wait_status \<times> wasapi_stream \<times> wasapi_stream \<times> 'w" where
  "wait_for_wasapi_duplex_events wait timeout capture render w =
     (let events = (\<lambda>m. im_samples_ready_event m \<and> im_stop_requested_event m)
      in if ws_state capture \<noteq> StreamStarted \<or> ws_state render \<noteq> StreamStarted \<or>
            pb_direction (ws_probe capture) \<noteq> CaptureStream \<or> pb_direction (ws_probe render) \<noteq> RenderStream \<or>
            \<not> impl_has events capture \<or> \<not> impl_has events render
         then (DuplexUnavailable, capture, render, w)
         else
           let pending = (impl_has im_samples_ready_latched capture \<or> impl_has im_samples_ready_latched render)
           in case wait (if pending then 0 else timeout) w of (event, w) \<Rightarrow>
             (case event of
                CaptureStop \<Rightarrow> (DuplexCancelled, capture, render, w)
              | RenderStop \<Rightarrow> (DuplexCancelled, capture, render, w)
              | CaptureReady \<Rightarrow> (DuplexReady, set_latch capture, render, w)
              | RenderReady \<Rightarrow> (DuplexReady, capture, set_latch render, w)
              | NoEvent \<Rightarrow> (if pending then DuplexReady else DuplexTimedOut, capture, render, w)
              | EventFailed \<Rightarrow> (DuplexFailed, capture, render, w)))"

section \<open>Opening\<close>

text \<open>
  The calls of \<^verbatim>\<open>open_wasapi_stream_shell\<close> in their order; each answers its \<^verbatim>\<open>HRESULT\<close> and what it returns. An
  event that could not be created answers the error code. The format is the one of \<^verbatim>\<open>GetMixFormat\<close>: its rate, channels
  and bits.
\<close>

record 'w open_calls =
  oc_apartment :: "'w \<Rightarrow> u32 \<times> 'w"
  oc_enumerator :: "'w \<Rightarrow> (u32 \<times> bool) \<times> 'w"
  oc_wide_id :: "string \<Rightarrow> bool"
  oc_device :: "string \<Rightarrow> 'w \<Rightarrow> (u32 \<times> bool) \<times> 'w"
  oc_activate :: "'w \<Rightarrow> (u32 \<times> bool) \<times> 'w"
  oc_mix_format :: "'w \<Rightarrow> (u32 \<times> (u32 \<times> u32 \<times> u32) option) \<times> 'w"
  oc_query_client3 :: "'w \<Rightarrow> u32 \<times> 'w"
  oc_engine_period :: "u32 \<Rightarrow> 'w \<Rightarrow> (u32 \<times> u32 \<times> u32 \<times> u32 \<times> u32) \<times> 'w"
  oc_initialize_period :: "bool \<Rightarrow> u32 \<Rightarrow> u32 \<Rightarrow> 'w \<Rightarrow> u32 \<times> 'w"
  oc_initialize :: "bool \<Rightarrow> bool \<Rightarrow> u32 \<Rightarrow> 'w \<Rightarrow> u32 \<times> 'w"
  oc_buffer_size :: "'w \<Rightarrow> (u32 \<times> u32) \<times> 'w"
  oc_clock :: "'w \<Rightarrow> (u32 \<times> bool) \<times> 'w"
  oc_clock_frequency :: "'w \<Rightarrow> (u32 \<times> u64) \<times> 'w"
  oc_samples_ready_event :: "'w \<Rightarrow> u32 option \<times> 'w"
  oc_stop_event :: "'w \<Rightarrow> u32 option \<times> 'w"
  oc_set_event_handle :: "'w \<Rightarrow> u32 \<times> 'w"
  oc_render_client :: "'w \<Rightarrow> (u32 \<times> bool) \<times> 'w"
  oc_render_buffer :: "u32 \<Rightarrow> 'w \<Rightarrow> (u32 \<times> bool) \<times> 'w"
  oc_render_release :: "u32 \<Rightarrow> 'w \<Rightarrow> u32 \<times> 'w"
  oc_capture_client :: "'w \<Rightarrow> (u32 \<times> bool) \<times> 'w"

text \<open>\<^verbatim>\<open>HRESULT_FROM_WIN32\<close>.\<close>

definition hresult_from_win32 :: "u32 \<Rightarrow> u32" where
  "hresult_from_win32 e = (if hresult_failed e \<or> e = 0 then e else (e AND 0xFFFF) OR 0x80070000)"

definition event_error :: "string \<Rightarrow> string \<Rightarrow> u32 \<Rightarrow> stream_error" where
  "event_error code message e = (native_error code message (hresult_from_win32 e))\<lparr>sx_native_win32_code := Some e\<rparr>"

text \<open>A call that must answer success and an object.\<close>

definition require_call ::
  "string \<Rightarrow> string \<Rightarrow> ('w \<Rightarrow> (u32 \<times> bool) \<times> 'w) \<Rightarrow> ('w \<Rightarrow> (stream_error + 'a) \<times> 'w) \<Rightarrow> 'w \<Rightarrow> (stream_error + 'a) \<times> 'w" where
  "require_call code message call next w =
     (case call w of ((r, present), w) \<Rightarrow>
        if hresult_failed r \<or> \<not> present then (Inl (native_error code message r), w) else next w)"

text \<open>Initialization: with the requested period where the third version of the client offers it, else with the default one.\<close>

definition initialize_with_period ::
  "'w open_calls \<Rightarrow> bool \<Rightarrow> u32 \<Rightarrow> u32 \<Rightarrow> 'w \<Rightarrow> (bool \<times> u32 \<times> bool) \<times> 'w" where
  "initialize_with_period c loopback rate period w =
     (case oc_query_client3 c w of (r, w) \<Rightarrow>
        if hresult_failed r then ((False, 0x80004002, False), w)
        else case oc_engine_period c rate w of ((r, default_period, fundamental, minimum, maximum), w) \<Rightarrow>
          if hresult_failed r then ((False, 0x80004002, True), w)
          else
            let selected = select_wasapi_shared_period_frames period default_period fundamental minimum maximum
            in if selected = 0 then ((False, 0x80004002, True), w)
               else case oc_initialize_period c loopback selected rate w of (r, w) \<Rightarrow>
                 ((\<not> hresult_failed r, r, True), w))"

definition initialize_client ::
  "'w open_calls \<Rightarrow> bool \<Rightarrow> bool \<Rightarrow> u32 \<Rightarrow> u32 \<Rightarrow> 'w \<Rightarrow> (bool \<times> u32) \<times> 'w" where
  "initialize_client c loopback resample rate period w =
     (case (if period \<noteq> 0 \<and> \<not> resample \<and> \<not> loopback then initialize_with_period c loopback rate period w
            else ((False, 0x80004002, False), w)) of ((used, r, client3), w) \<Rightarrow>
        if used then ((True, r), w)
        else case (if client3 then oc_activate c w else ((0, True), w)) of ((r, client), w) \<Rightarrow>
          if \<not> hresult_failed r \<and> client then case oc_initialize c loopback resample rate w of (r, w) \<Rightarrow> ((False, r), w)
          else ((False, r), w))"

definition make_stream_impl :: "stream_direction \<Rightarrow> u64 \<Rightarrow> stream_impl" where
  "make_stream_impl direction frequency =
     \<lparr>im_audio_client = True, im_audio_clock = True, im_render_client = (direction = RenderStream),
      im_capture_client = (direction \<noteq> RenderStream), im_clock_frequency = frequency, im_samples_ready_event = True,
      im_stop_requested_event = True, im_samples_ready_latched = False\<rparr>"

definition open_direction_client ::
  "'w open_calls \<Rightarrow> u32 \<Rightarrow> u64 \<Rightarrow> wasapi_stream \<Rightarrow> 'w \<Rightarrow> (stream_error + wasapi_stream) \<times> 'w" where
  "open_direction_client c native_frames frequency s w =
     (let opened_stream = s\<lparr>ws_impl := Some (make_stream_impl (pb_direction (ws_probe s)) frequency)\<rparr>
      in if pb_direction (ws_probe s) = RenderStream
         then require_call ''wasapi_render_client_failed'' ''WASAPI render client query failed with '' (oc_render_client c)
           (require_call ''wasapi_render_buffer_failed'' ''WASAPI render buffer acquisition failed with ''
              (oc_render_buffer c native_frames)
              (\<lambda>w. case oc_render_release c native_frames w of (r, w) \<Rightarrow>
                 if hresult_failed r
                 then (Inl (native_error ''wasapi_render_buffer_release_failed''
                        ''WASAPI silent render buffer release failed with '' r), w)
                 else (Inr opened_stream, w))) w
         else require_call ''wasapi_capture_client_failed'' ''WASAPI capture client query failed with '' (oc_capture_client c)
           (\<lambda>w. (Inr opened_stream, w)) w)"

definition open_events ::
  "'w open_calls \<Rightarrow> u32 \<Rightarrow> u64 \<Rightarrow> wasapi_stream \<Rightarrow> 'w \<Rightarrow> (stream_error + wasapi_stream) \<times> 'w" where
  "open_events c native_frames frequency s w =
     (case oc_samples_ready_event c w of
        (Some e, w) \<Rightarrow> (Inl (event_error ''wasapi_event_create_failed'' ''WASAPI samples-ready event creation failed with '' e), w)
      | (None, w) \<Rightarrow> (case oc_stop_event c w of
            (Some e, w) \<Rightarrow> (Inl (event_error ''wasapi_stop_event_create_failed'' ''WASAPI stop event creation failed with '' e), w)
          | (None, w) \<Rightarrow> (case oc_set_event_handle c w of (r, w) \<Rightarrow>
              if hresult_failed r
              then (Inl (native_error ''wasapi_event_handle_failed'' ''WASAPI event handle registration failed with '' r), w)
              else open_direction_client c native_frames frequency s w)))"

definition open_clock ::
  "'w open_calls \<Rightarrow> u32 \<Rightarrow> wasapi_stream \<Rightarrow> 'w \<Rightarrow> (stream_error + wasapi_stream) \<times> 'w" where
  "open_clock c native_frames s =
     require_call ''wasapi_clock_client_failed'' ''WASAPI audio clock query failed with '' (oc_clock c)
       (\<lambda>w. case oc_clock_frequency c w of ((r, frequency), w) \<Rightarrow>
          if hresult_failed r \<or> frequency = 0
          then (Inl (native_error ''wasapi_clock_frequency_failed'' ''WASAPI audio clock frequency query failed with '' r), w)
          else open_events c native_frames frequency s w)"

definition open_buffer ::
  "'w open_calls \<Rightarrow> bool \<Rightarrow> bool \<Rightarrow> u32 \<Rightarrow> wasapi_stream \<Rightarrow> 'w \<Rightarrow> (stream_error + wasapi_stream) \<times> 'w" where
  "open_buffer c resample used_period rate s w =
     (case oc_buffer_size c w of ((r, native_frames), w) \<Rightarrow>
        if hresult_failed r \<or> native_frames = 0
        then (Inl (native_error ''wasapi_buffer_size_failed'' ''WASAPI buffer size query failed with '' r), w)
        else if \<not> resample \<and> \<not> used_period \<and> native_frames \<noteq> pb_buffer_frames (ws_probe s)
        then (Inl (stream_error_of ''wasapi_probe_buffer_changed'' ''WASAPI device buffer size changed after it was probed.''), w)
        else
          let p = ws_probe s;
              p = (if resample \<or> used_period
                   then p\<lparr>pb_mix_format := (pb_mix_format p)\<lparr>af_sample_rate := rate, af_frames_per_block := native_frames\<rparr>,
                          pb_buffer_frames := native_frames\<rparr>
                   else p)
          in open_clock c native_frames (s\<lparr>ws_probe := p\<rparr>) w)"

definition open_client ::
  "'w open_calls \<Rightarrow> u32 \<Rightarrow> u32 \<Rightarrow> wasapi_stream \<Rightarrow> 'w \<Rightarrow> (stream_error + wasapi_stream) \<times> 'w" where
  "open_client c requested_rate requested_period s w =
     (case oc_mix_format c w of ((r, format), w) \<Rightarrow>
        (case (if hresult_failed r then None else format) of
           None \<Rightarrow> (Inl (native_error ''wasapi_mix_format_failed'' ''WASAPI mix format query failed with '' r), w)
         | Some (rate, channels, bits) \<Rightarrow>
             let p = ws_probe s; loopback = (pb_mode p = LoopbackStream)
             in if rate \<noteq> af_sample_rate (pb_mix_format p) \<or> channels \<noteq> af_channels (pb_mix_format p) \<or>
                   bits \<noteq> af_bits_per_sample (pb_mix_format p)
                then (Inl (stream_error_of ''wasapi_probe_format_changed'' ''WASAPI device mix format changed after it was probed.''), w)
                else
                  let resample = (requested_rate \<noteq> 0 \<and> requested_rate \<noteq> rate)
                  in if resample \<and> loopback
                     then (Inl (stream_error_of ''wasapi_resample_mode_unsupported''
                            ''WASAPI sample-rate conversion is only supported for endpoint streams.''), w)
                     else
                       let rate = (if resample then requested_rate else rate)
                       in case initialize_client c loopback resample rate requested_period w of ((used_period, r), w) \<Rightarrow>
                         if hresult_failed r
                         then (Inl (native_error ''wasapi_initialize_failed'' ''WASAPI shared stream initialization failed with '' r), w)
                         else open_buffer c resample used_period rate s w))"

definition open_wasapi_stream_shell ::
  "'w open_calls \<Rightarrow> stream_probe \<Rightarrow> u32 \<Rightarrow> u32 \<Rightarrow> 'w \<Rightarrow> (stream_error list + wasapi_stream) \<times> 'w" where
  "open_wasapi_stream_shell c p requested_rate requested_period w =
     (case stream_open p closed_stream of (es, s) \<Rightarrow>
        if es \<noteq> [] then (Inl es, w)
        else case oc_apartment c w of (r, w) \<Rightarrow>
          if hresult_failed r \<and> r \<noteq> 0x80010106
          then (Inl [native_error ''com_initialize_failed'' ''COM initialization failed with '' r], w)
          else case require_call ''wasapi_enumerator_failed'' ''WASAPI enumerator creation failed with '' (oc_enumerator c)
              (\<lambda>w. if \<not> oc_wide_id c (pb_device_id p)
                 then (Inl (stream_error_of ''invalid_device_id_encoding'' ''WASAPI device ID must be valid non-empty UTF-8.''), w)
                 else require_call ''wasapi_device_lookup_failed'' ''WASAPI device lookup failed with '' (oc_device c (pb_device_id p))
                   (require_call ''wasapi_audio_client_failed'' ''WASAPI audio client activation failed with '' (oc_activate c)
                     (open_client c requested_rate requested_period s)) w) w of
            (Inl e, w) \<Rightarrow> (Inl [e], w)
          | (Inr s, w) \<Rightarrow> (Inr s, w))"

section \<open>The period of a shared stream\<close>

lemma u32_up: "unat (ucast (x :: u32) :: u64) = unat x"
  by (simp add: unsigned_ucast_eq) (simp add: take_bit_nat_eq_self unsigned_less [of x, THEN less_le_trans])

lemma u32_small: "unat (x :: u32) < 2 ^ 32"
  using unsigned_less [of x] by simp

lemma u64_down: "unat (x :: u64) < 2 ^ 32 \<Longrightarrow> unat (ucast x :: u32) = unat x"
  by (simp add: unsigned_ucast_eq take_bit_nat_eq_self)

definition period_floor :: "nat \<Rightarrow> nat \<Rightarrow> nat" where
  "period_floor n f = n div f * f"

definition period_ceiling :: "nat \<Rightarrow> nat \<Rightarrow> nat" where
  "period_ceiling n f = (n + f - 1) div f * f"

text \<open>The function over naturals; the 64-bit products of the code do not wrap.\<close>

definition nearest_period :: "nat \<Rightarrow> nat \<Rightarrow> nat \<Rightarrow> nat \<Rightarrow> nat" where
  "nearest_period requested f lo hi =
     (let first = period_ceiling lo f; last_period = period_floor hi f
      in if requested \<le> first then first else if requested \<ge> last_period then last_period
         else let lower = period_floor requested f
              in if requested - lower < lower + f - requested then lower else lower + f)"

lemma word_floor: "unat ((x div y) * y) = period_floor (unat x) (unat y)" for x y :: u64
proof -
  have "unat x div unat y * unat y \<le> unat x" by (rule div_times_less_eq_dividend)
  also have "unat x < 2 ^ LENGTH(64)" by (rule unsigned_less)
  finally have "unat (x div y) * unat y < 2 ^ LENGTH(64)" by (simp only: unat_div)
  then show ?thesis unfolding period_floor_def by (subst unat_mult_lem [THEN iffD1]) (simp_all add: unat_div)
qed

lemma multiples_step: "f dvd a \<Longrightarrow> f dvd b \<Longrightarrow> a < b \<Longrightarrow> a + f \<le> (b :: nat)"
proof -
  assume d: "f dvd a" "f dvd b" and l: "a < b"
  have "f dvd b - a" using d by (simp add: dvd_diff_nat)
  then have "f \<le> b - a" using l by (simp add: dvd_imp_le)
  then show "a + f \<le> b" using l by simp
qed

lemma period_floor_facts: "period_floor n f \<le> n" "f dvd period_floor n f" "0 < f \<Longrightarrow> n < period_floor n f + f"
  using div_mod_decomp_int [of n f] by (simp_all add: period_floor_def) (metis add_less_cancel_left div_mod_decomp mod_less_divisor)

lemma period_floor_greatest: "0 < f \<Longrightarrow> f dvd m \<Longrightarrow> m \<le> n \<Longrightarrow> m \<le> period_floor n f"
proof (rule ccontr)
  assume a: "0 < f" "f dvd m" "m \<le> n" "\<not> m \<le> period_floor n f"
  then have "period_floor n f + f \<le> m" using multiples_step [OF period_floor_facts(2) a(2)] by simp
  then show False using period_floor_facts(3) [OF a(1), of n] a(3) by simp
qed

lemma period_ceiling_facts:
  assumes "0 < f"
  shows "n \<le> period_ceiling n f" "f dvd period_ceiling n f" "f dvd m \<Longrightarrow> n \<le> m \<Longrightarrow> period_ceiling n f \<le> m"
proof -
  have c: "period_ceiling n f = period_floor (n + f - 1) f" by (simp add: period_ceiling_def period_floor_def)
  show "n \<le> period_ceiling n f" using period_floor_facts(3) [OF assms, of "n + f - 1"] assms by (simp add: c)
  show "f dvd period_ceiling n f" unfolding c by (rule period_floor_facts)
  show "f dvd m \<Longrightarrow> n \<le> m \<Longrightarrow> period_ceiling n f \<le> m"
  proof (rule ccontr)
    assume m: "f dvd m" "n \<le> m" "\<not> period_ceiling n f \<le> m"
    then have "m + f \<le> period_ceiling n f" using multiples_step [OF m(1) \<open>f dvd period_ceiling n f\<close>] by simp
    then show False using period_floor_facts(1) [of "n + f - 1" f] m(2) assms by (simp add: c)
  qed
qed

lemma nearest_period_range:
  assumes "0 < f" "period_ceiling lo f \<le> period_floor hi f"
  shows "f dvd nearest_period r f lo hi" "lo \<le> nearest_period r f lo hi" "nearest_period r f lo hi \<le> hi"
    "nearest_period r f lo hi \<le> period_floor hi f"
proof -
  note c = period_ceiling_facts [OF assms(1), of lo] and fl = period_floor_facts [where n = hi and f = f] and fr = period_floor_facts [where n = r and f = f]
  have mid: "period_floor r f + f \<le> period_floor hi f" if "r < period_floor hi f"
    using multiples_step [OF fr(2) fl(2)] fr(1) that by simp
  have low: "period_ceiling lo f \<le> period_floor r f" if "period_ceiling lo f < r"
    using period_floor_greatest [OF assms(1) c(2)] that by simp
  show "f dvd nearest_period r f lo hi" using c fl fr by (auto simp: nearest_period_def Let_def)
  show "lo \<le> nearest_period r f lo hi" using c(1) low assms(2) by (auto simp: nearest_period_def Let_def)
  show m: "nearest_period r f lo hi \<le> period_floor hi f" using assms(2) mid fr(1) by (auto simp: nearest_period_def Let_def)
  then show "nearest_period r f lo hi \<le> hi" using fl(1) by simp
qed

lemma nearest_period_best:
  assumes "0 < f" "period_ceiling lo f \<le> period_floor hi f" "f dvd m" "lo \<le> m" "m \<le> hi"
  shows "\<bar>int r - int (nearest_period r f lo hi)\<bar> \<le> \<bar>int r - int m\<bar>"
proof -
  have m: "period_ceiling lo f \<le> m" "m \<le> period_floor hi f"
    using period_ceiling_facts(3) [OF assms(1,3,4)] period_floor_greatest [OF assms(1,3,5)] by simp_all
  note fr = period_floor_facts [where n = r and f = f]
  show ?thesis
  proof (cases "r \<le> period_ceiling lo f \<or> period_floor hi f \<le> r")
    case True
    then show ?thesis using m assms(2) by (auto simp: nearest_period_def Let_def)
  next
    case False
    have "m \<le> period_floor r f \<or> period_floor r f + f \<le> m"
      using multiples_step [OF fr(2) assms(3)] by linarith
    then show ?thesis using False fr(1,3) assms(1) by (auto simp: nearest_period_def Let_def)
  qed
qed

lemma select_period_nat:
  assumes "requested \<noteq> 0" "minimum \<noteq> 0" "minimum \<le> maximum" "fundamental \<noteq> 0"
    and f: "f = unat fundamental" and lo: "lo = unat minimum" and hi: "hi = unat maximum"
  shows "unat (select_wasapi_shared_period_frames requested d fundamental minimum maximum) =
    (if period_ceiling lo f > period_floor hi f then unat d else nearest_period (unat requested) f lo hi)"
proof -
  define F L H Q :: u64 where "F = ucast fundamental" and "L = ucast minimum" and "H = ucast maximum" and "Q = ucast requested"
  have u: "unat F = f" "unat L = lo" "unat H = hi" "unat Q = unat requested"
    unfolding F_def L_def H_def Q_def f lo hi by (rule u32_up)+
  have b: "0 < f" "f < 2 ^ 32" "lo < 2 ^ 32" "hi < 2 ^ 32" "unat Q < 2 ^ 32"
    using assms(4) u32_small [of fundamental] u32_small [of minimum] u32_small [of maximum] u32_small [of requested]
    unfolding u(4) f lo hi by (simp_all add: unat_gt_0)
  define first where "first = ((L + F - 1) div F) * F"
  define last_period where "last_period = (H div F) * F"
  define lower where "lower = (Q div F) * F"
  have sum: "unat (L + F - 1) = lo + f - 1"
  proof -
    have "unat (L + F) = lo + f" using b by (subst unat_add_lem [THEN iffD1]) (simp_all add: u)
    moreover have "1 \<le> L + F" using calculation b by (simp add: word_le_nat_alt)
    ultimately show ?thesis by (simp add: unat_sub)
  qed
  have w: "unat first = period_ceiling lo f" "unat last_period = period_floor hi f" "unat lower = period_floor (unat Q) f"
    unfolding first_def last_period_def lower_def word_floor u by (simp_all add: sum period_ceiling_def period_floor_def)
  have "period_floor (unat Q) f \<le> unat Q" by (rule period_floor_facts)
  then have upper: "unat (lower + F) = period_floor (unat Q) f + f"
    using b by (subst unat_add_lem [THEN iffD1]) (simp_all add: u w)
  have select: "select_wasapi_shared_period_frames requested d fundamental minimum maximum =
    (if first > last_period \<or> first > 0xFFFFFFFF then d
     else if Q \<le> first then ucast first else if Q \<ge> last_period then ucast last_period
     else if Q - lower < (lower + F) - Q then ucast lower else ucast (lower + F))"
  proof -
    have "\<not> (requested = 0 \<or> minimum = 0 \<or> maximum < minimum)" using assms(1-3) by simp
    then show ?thesis using assms(4)
      unfolding select_wasapi_shared_period_frames_def Let_def F_def L_def H_def Q_def first_def last_period_def lower_def
      by (simp only: if_False)
  qed
  show ?thesis
  proof (cases "period_ceiling lo f > period_floor hi f")
    case True
    then have "first > last_period" by (simp add: word_less_nat_alt w)
    then show ?thesis using True by (simp add: select)
  next
    case False
    then have le: "period_ceiling lo f \<le> period_floor hi f" by simp
    note range = nearest_period_range [OF b(1) le, of "unat Q"]
    have hi32: "period_floor hi f < 2 ^ 32" using period_floor_facts(1) [where n = hi and f = f] b(4) by simp
    have not_default: "\<not> (first > last_period \<or> first > 0xFFFFFFFF)"
      using le hi32 by (simp add: word_less_nat_alt w)
    have diff: "Q - lower < lower + F - Q \<longleftrightarrow> unat Q - period_floor (unat Q) f < period_floor (unat Q) f + f - unat Q"
    proof -
      have "lower \<le> Q" "Q \<le> lower + F"
        using period_floor_facts [where n = "unat Q" and f = f] b(1) by (simp_all add: word_le_nat_alt w upper)
      then show ?thesis by (simp add: word_less_nat_alt unat_sub w upper)
    qed
    have "select_wasapi_shared_period_frames requested d fundamental minimum maximum =
        ucast (if Q \<le> first then first else if Q \<ge> last_period then last_period
          else if Q - lower < (lower + F) - Q then lower else lower + F)"
      unfolding select using not_default by simp
    also have "unat \<dots> = nearest_period (unat Q) f lo hi"
    proof -
      have "unat (if Q \<le> first then first else if Q \<ge> last_period then last_period
          else if Q - lower < (lower + F) - Q then lower else lower + F) = nearest_period (unat Q) f lo hi"
        unfolding nearest_period_def Let_def diff word_le_nat_alt w using upper by (simp add: w)
      then show ?thesis using range(4) hi32 by (subst u64_down) simp_all
    qed
    finally show ?thesis using False by (simp add: u)
  qed
qed

text \<open>
  C24: With sensible limits, the period is a multiple of the fundamental period between the minimum and the
  maximum, and no other such multiple is nearer to the request; when there is none, it is the default period. None of the
  64-bit products wraps.
\<close>

theorem shared_period_is_nearest:
  assumes "requested \<noteq> 0" "minimum \<noteq> 0" "minimum \<le> maximum" "fundamental \<noteq> 0"
  shows "(let r = unat (select_wasapi_shared_period_frames requested d fundamental minimum maximum);
      allowed = (\<lambda>m. unat fundamental dvd m \<and> unat minimum \<le> m \<and> m \<le> unat maximum)
    in if \<exists>m. allowed m
       then allowed r \<and> (\<forall>m. allowed m \<longrightarrow> \<bar>int (unat requested) - int r\<bar> \<le> \<bar>int (unat requested) - int m\<bar>)
       else r = unat d)"
proof -
  define f lo hi q where "f = unat fundamental" and "lo = unat minimum" and "hi = unat maximum" and "q = unat requested"
  have f: "0 < f" using assms(4) by (simp add: f_def unat_gt_0)
  have chosen: "unat (select_wasapi_shared_period_frames requested d fundamental minimum maximum) =
    (if period_ceiling lo f > period_floor hi f then unat d else nearest_period q f lo hi)"
    unfolding q_def by (rule select_period_nat [OF assms f_def lo_def hi_def])
  have some: "(\<exists>m. f dvd m \<and> lo \<le> m \<and> m \<le> hi) \<longleftrightarrow> period_ceiling lo f \<le> period_floor hi f"
  proof
    assume "\<exists>m. f dvd m \<and> lo \<le> m \<and> m \<le> hi"
    then obtain m where m: "f dvd m" "lo \<le> m" "m \<le> hi" by blast
    show "period_ceiling lo f \<le> period_floor hi f"
      using period_ceiling_facts(3) [OF f m(1,2)] period_floor_greatest [OF f m(1,3)] by simp
  next
    assume "period_ceiling lo f \<le> period_floor hi f"
    then show "\<exists>m. f dvd m \<and> lo \<le> m \<and> m \<le> hi"
      using period_ceiling_facts(1,2) [OF f, of lo] period_floor_facts(1) [where n = hi and f = f] by (meson le_trans)
  qed
  show ?thesis
    using nearest_period_range [OF f, of lo hi] nearest_period_best [OF f, of lo hi]
    unfolding Let_def chosen f_def [symmetric] lo_def [symmetric] hi_def [symmetric] q_def [symmetric] some by auto
qed

section \<open>Buffers of the device\<close>

text \<open>A client that is watched: which buffer is out in either direction, and whether one was taken or given back wrongly.\<close>

record 'w watched =
  wd_world :: 'w
  wd_render :: "u32 option"
  wd_capture :: "u32 option"
  wd_misused :: bool

definition watch_call :: "('w \<Rightarrow> 'a \<times> 'w) \<Rightarrow> 'w watched \<Rightarrow> 'a \<times> 'w watched" where
  "watch_call f m = (case f (wd_world m) of (a, w) \<Rightarrow> (a, m\<lparr>wd_world := w\<rparr>))"

definition watch :: "'w audio_client \<Rightarrow> 'w watched audio_client" where
  "watch c =
     \<lparr>ac_start = watch_call (ac_start c), ac_stop = watch_call (ac_stop c),
      ac_reset_stop_event = (\<lambda>m. m\<lparr>wd_world := ac_reset_stop_event c (wd_world m)\<rparr>),
      ac_set_stop_event = (\<lambda>m. m\<lparr>wd_world := ac_set_stop_event c (wd_world m)\<rparr>),
      ac_wait = (\<lambda>t. watch_call (ac_wait c t)), ac_padding = watch_call (ac_padding c),
      ac_get_render_buffer = (\<lambda>n m. case watch_call (ac_get_render_buffer c n) m of ((r, memory), m) \<Rightarrow>
         ((r, memory), if hresult_failed r \<or> memory = None then m
           else m\<lparr>wd_render := Some n, wd_misused := wd_misused m \<or> wd_render m \<noteq> None\<rparr>)),
      ac_release_render_buffer = (\<lambda>n memory m. case watch_call (ac_release_render_buffer c n memory) m of (r, m) \<Rightarrow>
         (r, m\<lparr>wd_render := None, wd_misused := wd_misused m \<or> wd_render m \<noteq> Some n\<rparr>)),
      ac_next_packet = watch_call (ac_next_packet c),
      ac_get_capture_buffer = (\<lambda>m. case watch_call (ac_get_capture_buffer c) m of ((r, memory, n, flags), m) \<Rightarrow>
         ((r, memory, n, flags), if hresult_failed r then m
           else m\<lparr>wd_capture := Some n, wd_misused := wd_misused m \<or> wd_capture m \<noteq> None\<rparr>)),
      ac_release_capture_buffer = (\<lambda>n m. case watch_call (ac_release_capture_buffer c n) m of (r, m) \<Rightarrow>
         (r, m\<lparr>wd_capture := None, wd_misused := wd_misused m \<or> wd_capture m \<noteq> Some n\<rparr>)),
      ac_clock_position = watch_call (ac_clock_position c)\<rparr>"

definition buffers_home :: "'w watched \<Rightarrow> bool" where
  "buffers_home m \<longleftrightarrow> wd_render m = None \<and> wd_capture m = None \<and> \<not> wd_misused m"

lemma watch_call_home: "watch_call f m = (a, m') \<Longrightarrow> buffers_home m' = buffers_home m"
  by (auto simp: watch_call_def buffers_home_def split: prod.splits)

lemma watch_call_fields:
  "watch_call f m = (a, m') \<Longrightarrow> wd_render m' = wd_render m \<and> wd_capture m' = wd_capture m \<and> wd_misused m' = wd_misused m"
  by (auto simp: watch_call_def split: prod.splits)

lemma render_packet_home:
  "buffers_home m \<Longrightarrow> render_packet u (watch c) p source n m = (r, m') \<Longrightarrow> buffers_home m'"
  unfolding render_packet_def
  by (auto simp: watch_def buffers_home_def dest!: watch_call_fields split: prod.splits if_splits)

lemma render_available_home:
  "buffers_home m \<Longrightarrow> render_available u (watch c) p source n m = (r, m') \<Longrightarrow> buffers_home m'"
  unfolding render_available_def
  by (auto simp: watch_def Let_def dest!: watch_call_home split: prod.splits if_splits)
     (auto simp flip: watch_def intro: render_packet_home)

lemma capture_packet_home:
  "buffers_home m \<Longrightarrow> capture_packet (watch c) p d m = (r, d', m') \<Longrightarrow> buffers_home m'"
  unfolding capture_packet_def capture_release_def Let_def
  by (auto simp: watch_def buffers_home_def dest!: watch_call_fields split: prod.splits if_splits)

lemma watch_wait: "ac_wait (watch c) t m = (a, m') \<Longrightarrow> buffers_home m' = buffers_home m"
  by (simp add: watch_def watch_call_home)

lemma watch_next: "ac_next_packet (watch c) m = (a, m') \<Longrightarrow> buffers_home m' = buffers_home m"
  by (simp add: watch_def watch_call_home)

lemma render_once_home:
  "buffers_home m \<Longrightarrow> render_once u (watch c) source n t s m = (r, s', m') \<Longrightarrow> buffers_home m'"
  unfolding render_once_def
  by (auto dest: watch_wait render_available_home split: prod.splits if_splits wait_result.splits)

lemma capture_available_home:
  "buffers_home m \<Longrightarrow> capture_available (watch c) p n d m = (r, d', m') \<Longrightarrow> buffers_home m'"
  unfolding capture_available_def by (auto dest: capture_packet_home split: if_splits)

lemma capture_query_home:
  assumes "buffers_home m" "capture_query (watch c) next_step d m = (r, d', m')"
    and "\<And>n m r d' m'. buffers_home m \<Longrightarrow> next_step n m = (r, d', m') \<Longrightarrow> buffers_home m'"
  shows "buffers_home m'"
  using assms(1,2) unfolding capture_query_def
  by (auto dest!: watch_next split: prod.splits if_splits intro: assms(3))

lemma capture_wait_home:
  "buffers_home m \<Longrightarrow> capture_wait (watch c) p t d m = (r, d', m') \<Longrightarrow> buffers_home m'"
  unfolding capture_wait_def
  by (auto dest!: watch_wait split: prod.splits wait_result.splits elim!: capture_query_home [rotated] intro: capture_available_home)

lemma capture_once_home:
  "buffers_home m \<Longrightarrow> capture_once (watch c) t d s m = (r, d', s', m') \<Longrightarrow> buffers_home m'"
  unfolding capture_once_def
  by (auto split: prod.splits if_splits elim!: capture_query_home [rotated] intro: capture_wait_home capture_available_home)

text \<open>
  C22: Whatever the device answers, a transfer gives back every buffer it has taken, once and with the number of frames
  it was taken for, on success and on every failure; it never takes a second one before.
\<close>

theorem acquired_buffers_released:
  assumes "buffers_home m"
    and "render_once u (watch c) source frames t s m = (r, s', m') \<or> capture_once (watch c) t d s m = (r, d', s', m')"
  shows "wd_render m' = None \<and> wd_capture m' = None \<and> \<not> wd_misused m'"
  using assms render_once_home [OF assms(1)] capture_once_home [OF assms(1)] unfolding buffers_home_def by blast

section \<open>What a stream promises to its user\<close>

text \<open>
  The documented behaviour of the capture client: the packet that \<^verbatim>\<open>GetBuffer\<close> returns has the size that
  \<^verbatim>\<open>GetNextPacketSize\<close> has just announced.
\<close>

definition packet_sizes_agree :: "'w audio_client \<Rightarrow> bool" where
  "packet_sizes_agree c \<longleftrightarrow>
     (\<forall>w r n w' r' memory n' flags w''.
        ac_next_packet c w = ((r, n), w') \<longrightarrow> ac_get_capture_buffer c w' = ((r', memory, n', flags), w'') \<longrightarrow>
        \<not> hresult_failed r' \<longrightarrow> n' = n)"

definition transfer_sound :: "nat \<Rightarrow> io_result \<Rightarrow> bool" where
  "transfer_sound limit r \<longleftrightarrow> unat (io_frames r) \<le> limit \<and> (io_status r = IoCompleted) = (io_frames r > 0) \<and>
     (io_status r = IoFailed \<longrightarrow> io_errors r = []) \<and> (io_silent r \<longrightarrow> io_frames r > 0)"

lemma transfer_sound_simps [simp]:
  "transfer_sound limit (io_failure e)" "transfer_sound limit io_timeout" "transfer_sound limit io_cancellation"
  "transfer_sound limit (io_success n b b') = (unat n \<le> limit)" "transfer_sound limit (io_success_silent n b b') = (unat n \<le> limit)"
  by (auto simp: transfer_sound_def io_failure_def io_timeout_def io_cancellation_def io_without_frames_def io_success_def
      io_success_silent_def word_greater_zero_iff)

lemma render_packet_sound: "render_packet u c p source n w = (r, w') \<Longrightarrow> transfer_sound (unat n) r"
  unfolding render_packet_def by (auto split: prod.splits if_splits)

lemma transfer_sound_mono: "transfer_sound n r \<Longrightarrow> n \<le> m \<Longrightarrow> transfer_sound m r"
  by (auto simp: transfer_sound_def)

lemma render_available_sound:
  "render_available u c p source n w = (r, w') \<Longrightarrow> transfer_sound (min (unat n) (min (unat (pb_buffer_frames p)) (ab_frames source))) r"
  unfolding render_available_def Let_def
proof (clarsimp split: prod.splits if_splits)
  fix padding w1
  let ?k = "min (min (pb_buffer_frames p - padding) (word_of_nat (ab_frames source))) n"
  assume small: "\<not> pb_buffer_frames p \<le> padding" and r: "render_packet u c p source ?k w1 = (r, w')"
  have "unat (word_of_nat (ab_frames source) :: u32) \<le> ab_frames source"
    by (simp add: unsigned_of_nat take_bit_nat_less_eq_self)
  moreover have "unat (pb_buffer_frames p - padding) \<le> unat (pb_buffer_frames p)"
    using small by (simp add: unat_sub less_imp_le not_le)
  ultimately have "unat ?k \<le> min (unat n) (min (unat (pb_buffer_frames p)) (ab_frames source))"
    by (auto simp: min_def word_le_nat_alt)
  then show "transfer_sound (min (unat n) (min (unat (pb_buffer_frames p)) (ab_frames source))) r"
    using render_packet_sound [OF r] transfer_sound_mono by blast
qed

lemma render_once_sound:
  "render_once u c source n t s w = (r, s', w') \<Longrightarrow> transfer_sound (min (unat n) (ab_frames source)) r"
  unfolding render_once_def
  by (auto split: prod.splits if_splits wait_result.splits dest!: render_available_sound elim: transfer_sound_mono)

lemma fill_silence_shape: "shape_of c f d \<Longrightarrow> n \<le> f \<Longrightarrow> shape_of c f (fill_silence n d)"
  unfolding fill_silence_def by (rule shape_put_channels) (auto simp: shape_of_def)

lemma import_shape:
  assumes "shape_of c f d" "import_interleaved_to_float memory size_bytes format d n = (status, d')"
  shows "shape_of c f d'"
proof (cases "n \<le> ab_frames d")
  case True
  have "shape_of c f (fold (fill_frame g (ab_channels d)) [0..<n] d)" for g
    using fill_frames_nth [of d "ab_channels d" n g] True assms(1) by (simp add: shape_of_def)
  then show ?thesis using assms
    unfolding import_interleaved_to_float_def fill_frame_def [abs_def] by (auto split: if_splits)
qed (use assms in \<open>auto simp: import_interleaved_to_float_def split: if_splits\<close>)

lemma capture_release_sound:
  "capture_release c n flags d w = (r, d', w') \<Longrightarrow> d' = d \<and> transfer_sound (unat n) r"
  unfolding capture_release_def Let_def by (auto split: prod.splits if_splits)

lemma capture_packet_sound:
  assumes "shape_of ch f d" "capture_packet c p d w = (r, d', w')"
    and "\<And>r memory n flags w'. ac_get_capture_buffer c w = ((r, memory, n, flags), w') \<Longrightarrow> \<not> hresult_failed r \<Longrightarrow> unat n \<le> f"
  shows "shape_of ch f d' \<and> transfer_sound f r"
proof -
  obtain e memory n flags w1 where g: "ac_get_capture_buffer c w = ((e, memory, n, flags), w1)" by (metis prod.exhaust)
  show ?thesis
  proof (cases "hresult_failed e")
    case True
    then show ?thesis using assms(1,2) g by (auto simp: capture_packet_def)
  next
    case False
    then have n: "unat n \<le> f" using assms(3) [OF g] by simp
    show ?thesis
      using assms(1,2) g False fill_silence_shape [OF assms(1) n]
      by (auto simp: capture_packet_def split: prod.splits if_splits dest!: capture_release_sound
          intro: import_shape transfer_sound_mono [OF _ n])
  qed
qed

lemma capture_query_sound:
  assumes "packet_sizes_agree c" "shape_of ch f d"
    and "capture_query c (\<lambda>n w. if n = 0 \<and> wait_first then waiting n w else capture_available c p n d w) d w = (r, d', w')"
    and "\<And>n w r d' w'. wait_first \<Longrightarrow> waiting n w = (r, d', w') \<Longrightarrow> shape_of ch f d' \<and> transfer_sound f r"
  shows "shape_of ch f d' \<and> transfer_sound f r"
proof -
  obtain e n w1 where q: "ac_next_packet c w = ((e, n), w1)" by (metis prod.exhaust)
  have bound: "unat n' \<le> f" if "unat n \<le> f" "ac_get_capture_buffer c w1 = ((e', memory, n', flags), w2)" "\<not> hresult_failed e'"
    for e' memory n' flags w2
    using assms(1) q that unfolding packet_sizes_agree_def by blast
  have available: "shape_of ch f d' \<and> transfer_sound f r" if run: "capture_available c p n d w1 = (r, d', w')"
  proof -
    consider "n = 0" | "n \<noteq> 0" "ab_frames d < unat n" | "n \<noteq> 0" "unat n \<le> f" "capture_packet c p d w1 = (r, d', w')"
      using run assms(2) by (auto simp: capture_available_def shape_of_def split: if_splits)
    then show ?thesis
    proof cases
      case 3
      then show ?thesis using capture_packet_sound [OF assms(2) 3(3)] bound by blast
    qed (use run assms(2) in \<open>auto simp: capture_available_def\<close>)
  qed
  show ?thesis using assms(2-4) q available by (auto simp: capture_query_def split: if_splits)
qed

lemma capture_wait_sound:
  assumes "packet_sizes_agree c" "shape_of ch f d" "capture_wait c p t d w = (r, d', w')"
  shows "shape_of ch f d' \<and> transfer_sound f r"
  using assms(2,3) capture_query_sound [OF assms(1,2), where wait_first = False]
  unfolding capture_wait_def by (auto split: prod.splits wait_result.splits)

lemma capture_once_sound:
  assumes "packet_sizes_agree c" "shape_of ch f d" "capture_once c t d s w = (r, d', s', w')"
  shows "shape_of ch f d' \<and> transfer_sound f r"
  using assms(2,3) capture_query_sound [OF assms(1,2), where waiting = "\<lambda>n w. capture_wait c p t d w" for p] capture_wait_sound [OF assms(1,2)]
  unfolding capture_once_def by (auto split: prod.splits if_splits)

text \<open>The interface \<^verbatim>\<open>WasapiStreamIo\<close> that the graph runner uses, over a state \<open>'s\<close> of the stream and what is outside.\<close>

record 's stream_io =
  si_start :: "'s \<Rightarrow> stream_error list \<times> 's"
  si_stop :: "'s \<Rightarrow> stream_error list \<times> 's"
  si_render_once :: "audio_buffer \<Rightarrow> u32 \<Rightarrow> u32 \<Rightarrow> 's \<Rightarrow> io_result \<times> 's"
  si_capture_once :: "u32 \<Rightarrow> audio_buffer \<Rightarrow> 's \<Rightarrow> io_result \<times> audio_buffer \<times> 's"
  si_request_stop :: "'s \<Rightarrow> 's"
  si_probe :: stream_probe

definition native_stream :: "int \<Rightarrow> 'w audio_client \<Rightarrow> stream_probe \<Rightarrow> (wasapi_stream \<times> 'w) stream_io" where
  "native_stream u c p =
     \<lparr>si_start = (\<lambda>(s, w). stream_start c s w), si_stop = (\<lambda>(s, w). stream_stop c s w),
      si_render_once = (\<lambda>source n t (s, w). render_once u c source n t s w),
      si_capture_once = (\<lambda>t d (s, w). capture_once c t d s w),
      si_request_stop = (\<lambda>(s, w). (s, stream_request_stop c s w)), si_probe = p\<rparr>"

definition stream_contract :: "'s stream_io \<Rightarrow> bool" where
  "stream_contract h \<longleftrightarrow>
     (\<forall>source n t s. transfer_sound (min (unat n) (ab_frames source)) (fst (si_render_once h source n t s))) \<and>
     (\<forall>t ch f d s. shape_of ch f d \<longrightarrow>
        shape_of ch f (fst (snd (si_capture_once h t d s))) \<and> transfer_sound f (fst (si_capture_once h t d s)))"

text \<open>
  C23: A device stream keeps the contract that the graph runner relies on, in every state and whatever the device answers:
  a render transfers at most the frames offered, a capture at most the frames of the destination, whose shape it keeps,
  a transfer is completed exactly when it has frames, and a failed one carries its error as a number, without a text that would
  have to be allocated.
\<close>

theorem device_stream_contract:
  assumes "packet_sizes_agree c"
  shows "stream_contract (native_stream u c p)"
proof -
  have "transfer_sound (min (unat n) (ab_frames source)) (fst (render_once u c source n t s w))" for source n t s w
    using render_once_sound [of u c source n t s w] by (metis prod.collapse)
  moreover have "shape_of ch f (fst (snd (capture_once c t d s w))) \<and> transfer_sound f (fst (capture_once c t d s w))"
    if "shape_of ch f d" for t ch f d s w
    using capture_once_sound [OF assms that, of t s w] by (metis prod.collapse)
  ultimately show ?thesis by (simp add: stream_contract_def native_stream_def)
qed

section \<open>Opened streams\<close>

definition stream_complete :: "wasapi_stream \<Rightarrow> bool" where
  "stream_complete s \<longleftrightarrow> ws_state s = StreamOpen \<and> validate_probe (ws_probe s) = [] \<and>
     (\<exists>m. ws_impl s = Some m \<and> im_audio_client m \<and> im_audio_clock m \<and> im_clock_frequency m \<noteq> 0 \<and>
        (if pb_direction (ws_probe s) = RenderStream then \<not> render_unavailable m else \<not> capture_unavailable m))"

lemma push_if_empty: "push_if b e = [] \<longleftrightarrow> \<not> b"
  by (simp add: push_if_def)

lemma require_call_Inr: "require_call code message call next w = (Inr x, w') \<Longrightarrow> \<exists>w1. next w1 = (Inr x, w')"
  by (auto simp: require_call_def split: prod.splits if_splits)

lemma open_direction_client_Inr:
  "open_direction_client c n f s w = (Inr s', w') \<Longrightarrow> s' = s\<lparr>ws_impl := Some (make_stream_impl (pb_direction (ws_probe s)) f)\<rparr>"
  unfolding open_direction_client_def Let_def
  by (auto split: if_splits prod.splits dest!: require_call_Inr)

lemma open_events_Inr:
  "open_events c n f s w = (Inr s', w') \<Longrightarrow> s' = s\<lparr>ws_impl := Some (make_stream_impl (pb_direction (ws_probe s)) f)\<rparr>"
  unfolding open_events_def by (auto split: prod.splits option.splits if_splits dest!: open_direction_client_Inr)

lemma open_clock_Inr:
  "open_clock c n s w = (Inr s', w') \<Longrightarrow>
     \<exists>f. f \<noteq> 0 \<and> s' = s\<lparr>ws_impl := Some (make_stream_impl (pb_direction (ws_probe s)) f)\<rparr>"
  unfolding open_clock_def by (auto split: prod.splits if_splits dest!: require_call_Inr open_events_Inr)

lemma complete_impl: "f \<noteq> 0 \<Longrightarrow> ws_state s = StreamOpen \<Longrightarrow> validate_probe (ws_probe s) = [] \<Longrightarrow>
    stream_complete (s\<lparr>ws_impl := Some (make_stream_impl (pb_direction (ws_probe s)) f)\<rparr>)"
  by (auto simp: stream_complete_def make_stream_impl_def render_unavailable_def capture_unavailable_def)

lemma open_buffer_Inr:
  assumes "open_buffer c resample used rate s w = (Inr s', w')" "ws_state s = StreamOpen" "validate_probe (ws_probe s) = []"
    and "rate \<noteq> 0"
  shows "stream_complete s' \<and> pb_direction (ws_probe s') = pb_direction (ws_probe s)"
proof -
  define changed where "changed n = (ws_probe s)\<lparr>pb_mix_format := (pb_mix_format (ws_probe s))
      \<lparr>af_sample_rate := rate, af_frames_per_block := n\<rparr>, pb_buffer_frames := n\<rparr>" for n
  have valid: "n \<noteq> 0 \<Longrightarrow> validate_probe (changed n) = []" for n
    using assms(3,4) by (auto simp: validate_probe_def push_if_empty changed_def)
  obtain p n w1 where p: "open_clock c n (s\<lparr>ws_probe := p\<rparr>) w1 = (Inr s', w')" "n \<noteq> 0" "p = ws_probe s \<or> p = changed n"
    using assms(1) unfolding open_buffer_def changed_def by (auto simp: Let_def split: prod.splits if_splits)
  obtain f where "f \<noteq> 0" "s' = s\<lparr>ws_probe := p, ws_impl := Some (make_stream_impl (pb_direction p) f)\<rparr>"
    using open_clock_Inr [OF p(1)] by auto
  moreover have "validate_probe p = []" "pb_direction p = pb_direction (ws_probe s)"
    using p(2,3) assms(3) valid by (auto simp: changed_def)
  ultimately show ?thesis
    using complete_impl [of f "s\<lparr>ws_probe := p\<rparr>"] assms(2) by simp
qed

lemma open_client_Inr:
  assumes "open_client c rate period s w = (Inr s', w')" "ws_state s = StreamOpen" "validate_probe (ws_probe s) = []"
  shows "stream_complete s' \<and> pb_direction (ws_probe s') = pb_direction (ws_probe s)"
proof -
  have "af_sample_rate (pb_mix_format (ws_probe s)) \<noteq> 0" using assms(3) by (simp add: validate_probe_def push_if_empty)
  then obtain resample used r w1 where r: "open_buffer c resample used r s w1 = (Inr s', w')" "r \<noteq> 0"
    using assms(1) unfolding open_client_def Let_def by (auto split: prod.splits option.splits if_splits)
  show ?thesis by (rule open_buffer_Inr [OF r(1) assms(2,3) r(2)])
qed

lemma open_shell_complete:
  assumes "open_wasapi_stream_shell c p rate period w = (Inr s, w')"
  shows "stream_complete s \<and> pb_direction (ws_probe s) = pb_direction p"
proof -
  let ?s = "closed_stream\<lparr>ws_probe := p, ws_impl := None, ws_state := StreamOpen\<rparr>"
  have p: "validate_probe p = []"
    using assms by (auto simp: open_wasapi_stream_shell_def stream_open_def closed_stream_def split: if_splits)
  then have "stream_open p closed_stream = ([], ?s)" by (simp add: stream_open_def closed_stream_def)
  then obtain w1 where "open_client c rate period ?s w1 = (Inr s, w')"
    using assms unfolding open_wasapi_stream_shell_def
    by (auto split: prod.splits if_splits sum.splits dest!: require_call_Inr)
  then show ?thesis using open_client_Inr p by fastforce
qed

definition setup_error :: "io_result \<Rightarrow> bool" where
  "setup_error r \<longleftrightarrow> er_code (io_realtime_error r) \<in>
     {code_number StreamNotStarted, code_number WrongStreamDirection, code_number NativeStreamUnavailable}"

lemma setup_error_simps [simp]:
  "\<not> setup_error (io_success n b b')" "\<not> setup_error (io_success_silent n b b')" "\<not> setup_error io_timeout"
  "\<not> setup_error io_cancellation"
  by (simp_all add: setup_error_def io_success_def io_success_silent_def io_timeout_def io_cancellation_def
      io_without_frames_def no_error_def)

lemma setup_error_code [simp]:
  "setup_error (io_failure (realtime_error_of code k v)) = (code \<in> {StreamNotStarted, WrongStreamDirection, NativeStreamUnavailable})"
  by (cases code) (simp_all add: setup_error_def io_failure_def realtime_error_of_def)

lemma setup_error_conversion [simp]: "\<not> setup_error (io_failure (sample_conversion_error status))"
  by (cases status) (simp_all add: sample_conversion_error_def, simp add: setup_error_def io_failure_def no_error_def)

lemma render_packet_late: "\<not> setup_error (fst (render_packet u c p source n w))"
  by (auto simp: render_packet_def split: prod.splits)

lemma render_available_late: "\<not> setup_error (fst (render_available u c p source n w))"
  by (auto simp: render_available_def Let_def render_packet_late split: prod.splits)

lemma capture_packet_late: "\<not> setup_error (fst (capture_packet c p d w))"
  by (auto simp: capture_packet_def capture_release_def Let_def split: prod.splits)

lemma capture_available_late: "\<not> setup_error (fst (capture_available c p n d w))"
  by (auto simp: capture_available_def capture_packet_late)

lemma capture_query_late:
  "(\<And>n w. \<not> setup_error (fst (next_step n w))) \<Longrightarrow> \<not> setup_error (fst (capture_query c next_step d w))"
  by (auto simp: capture_query_def split: prod.splits)

lemma capture_wait_late: "\<not> setup_error (fst (capture_wait c p t d w))"
  by (auto simp: capture_wait_def capture_query_late capture_available_late split: prod.splits wait_result.splits)

lemma render_once_late:
  assumes "ws_state s = StreamStarted" "pb_direction (ws_probe s) = RenderStream" "impl_has (\<lambda>m. \<not> render_unavailable m) s"
  shows "\<not> setup_error (fst (render_once u c source n t s w))"
proof -
  obtain latched s1 where l: "take_latch s = (latched, s1)" by (cases "take_latch s")
  obtain wait w1 where w: "(if latched then (SamplesReady, w) else ac_wait c t w) = (wait, w1)" by (metis surj_pair)
  obtain r w2 where r: "render_available u c (ws_probe s1) source n w1 = (r, w2)" by (metis surj_pair)
  have "\<not> setup_error r" using render_available_late [of u c "ws_probe s1" source n w1] unfolding r by simp
  then show ?thesis using assms l w r by (cases wait) (simp_all add: render_once_def)
qed

lemma capture_once_late:
  assumes "ws_state s = StreamStarted" "pb_direction (ws_probe s) \<noteq> RenderStream" "impl_has (\<lambda>m. \<not> capture_unavailable m) s"
  shows "\<not> setup_error (fst (capture_once c t d s w))"
proof -
  have "pb_direction (ws_probe s) = CaptureStream" using assms(2) by (cases "pb_direction (ws_probe s)") simp_all
  moreover obtain latched s1 where l: "take_latch s = (latched, s1)" by (cases "take_latch s")
  let ?q = "capture_query c (\<lambda>n w. if n = 0 \<and> \<not> latched then capture_wait c (ws_probe s1) t d w
      else capture_available c (ws_probe s1) n d w) d w"
  have "\<not> setup_error (fst ?q)" by (rule capture_query_late) (simp add: capture_wait_late capture_available_late)
  moreover obtain r d' w' where "?q = (r, d', w')" by (rule prod_cases3)
  ultimately show ?thesis using assms(1,3) l by (simp add: capture_once_def)
qed

text \<open>A complete stream that has been started.\<close>

lemma started_complete:
  assumes "stream_complete s" "stream_start c s w = ([], s', w')"
  shows "ws_state s' = StreamStarted \<and> ws_probe s' = ws_probe s \<and> impl_has (\<lambda>m. im_clock_frequency m \<noteq> 0) s' \<and>
    (if pb_direction (ws_probe s) = RenderStream then impl_has (\<lambda>m. \<not> render_unavailable m) s'
     else impl_has (\<lambda>m. \<not> capture_unavailable m) s')"
  using assms
  by (auto simp: stream_complete_def stream_start_def Let_def impl_has_def render_unavailable_def capture_unavailable_def
      split: if_splits prod.splits)


section \<open>Witnesses\<close>

text \<open>A device that answers success and offers one packet.\<close>

definition demo_client :: "nat audio_client" where
  "demo_client =
     \<lparr>ac_start = (\<lambda>w. (0, w)), ac_stop = (\<lambda>w. (0, w)), ac_reset_stop_event = (\<lambda>w. w), ac_set_stop_event = (\<lambda>w. w),
      ac_wait = (\<lambda>t w. (SamplesReady, w)), ac_padding = (\<lambda>w. ((0, 0), w)),
      ac_get_render_buffer = (\<lambda>n w. ((0, Some (replicate (unat n * 4) 0)), w)),
      ac_release_render_buffer = (\<lambda>n memory w. (0, w + 1)), ac_next_packet = (\<lambda>w. ((0, 1), w)),
      ac_get_capture_buffer = (\<lambda>w. ((0, Some [0, 0, 0, 0], 1, 0), w)), ac_release_capture_buffer = (\<lambda>n w. (0, w)),
      ac_clock_position = (\<lambda>w. ((0, 1, 1), w))\<rparr>"

definition demo_calls :: "nat open_calls" where
  "demo_calls =
     \<lparr>oc_apartment = (\<lambda>w. (0, w)), oc_enumerator = (\<lambda>w. ((0, True), w)), oc_wide_id = (\<lambda>s. True),
      oc_device = (\<lambda>s w. ((0, True), w)), oc_activate = (\<lambda>w. ((0, True), w)),
      oc_mix_format = (\<lambda>w. ((0, Some (48000, 1, 32)), w)), oc_query_client3 = (\<lambda>w. (0x80004002, w)),
      oc_engine_period = (\<lambda>r w. ((0, 0, 0, 0, 0), w)), oc_initialize_period = (\<lambda>l n r w. (0, w)),
      oc_initialize = (\<lambda>l a r w. (0, w)), oc_buffer_size = (\<lambda>w. ((0, 128), w)), oc_clock = (\<lambda>w. ((0, True), w)),
      oc_clock_frequency = (\<lambda>w. ((0, 48000), w)), oc_samples_ready_event = (\<lambda>w. (None, w)), oc_stop_event = (\<lambda>w. (None, w)),
      oc_set_event_handle = (\<lambda>w. (0, w)), oc_render_client = (\<lambda>w. ((0, True), w)), oc_render_buffer = (\<lambda>n w. ((0, True), w)),
      oc_render_release = (\<lambda>n w. (0, w)), oc_capture_client = (\<lambda>w. ((0, True), w))\<rparr>"

definition demo_probe :: stream_probe where
  "demo_probe =
     \<lparr>pb_direction = RenderStream, pb_mode = EndpointStream, pb_device_id = ''d'', pb_device_label = ''l'',
      pb_mix_format = demo_float_format, pb_default_period_100ns = 100000, pb_minimum_period_100ns = 30000, pb_buffer_frames = 128\<rparr>"

definition demo_impl :: stream_impl where
  "demo_impl = make_stream_impl RenderStream 48000"

definition demo_opened :: wasapi_stream where
  "demo_opened = \<lparr>ws_state = StreamOpen, ws_probe = demo_probe, ws_impl = Some demo_impl\<rparr>"

lemma demo_open: "open_wasapi_stream_shell demo_calls demo_probe 0 0 0 = (Inr demo_opened, 0)"
proof -
  have "validate_probe demo_probe = []"
    by (simp add: validate_probe_def push_if_empty demo_probe_def demo_float_format_def default_audio_format_def)
  then show ?thesis
    by (simp add: open_wasapi_stream_shell_def stream_open_def closed_stream_def demo_calls_def require_call_def hresult_failed_def
        open_client_def initialize_client_def open_buffer_def open_clock_def open_events_def open_direction_client_def
        demo_opened_def demo_impl_def Let_def demo_probe_def demo_float_format_def default_audio_format_def)
qed

lemma demo_start: "stream_start demo_client demo_opened 0 = ([], demo_opened\<lparr>ws_state := StreamStarted\<rparr>, 0)"
  by (simp add: stream_start_def demo_opened_def demo_impl_def make_stream_impl_def demo_client_def hresult_failed_def Let_def)

theorem shared_period_is_nearest_witness:
  "unat (select_wasapi_shared_period_frames 1000 480 480 480 1920) \<le> 1920"
proof -
  have "\<exists>m. unat (480 :: u32) dvd m \<and> unat (480 :: u32) \<le> m \<and> m \<le> unat (1920 :: u32)" by (rule exI [of _ 480]) simp
  then show ?thesis using shared_period_is_nearest [of 1000 480 1920 480 480] unfolding Let_def by simp
qed

theorem acquired_buffers_released_witness:
  "\<exists>m'. wd_render (m' :: nat watched) = None \<and> \<not> wd_misused m'"
proof -
  let ?m = "\<lparr>wd_world = 0 :: nat, wd_render = None, wd_capture = None, wd_misused = False\<rparr>"
  obtain r s' m' where "render_once 0 (watch demo_client) demo_block 2 5 (demo_opened\<lparr>ws_state := StreamStarted\<rparr>) ?m = (r, s', m')"
    by (metis prod_cases3)
  then show ?thesis
    using acquired_buffers_released [of ?m 0 demo_client demo_block 2 5 "demo_opened\<lparr>ws_state := StreamStarted\<rparr>" r s' m']
    by (auto simp: buffers_home_def)
qed

theorem device_stream_contract_witness:
  "stream_contract (native_stream 0 demo_client demo_probe)"
  by (rule device_stream_contract) (simp add: packet_sizes_agree_def demo_client_def)


end
