(* ===== verification/AdaptiveRate.thy ===== *)
theory AdaptiveRate
  imports ClockDrift FloatConvert
begin

text \<open>
  The two parts that keep a capture FIFO at its level: \<^verbatim>\<open>core/realtime/fifo_waterline_controller.{h,cpp}\<close>, a
  controller of the rate correction, and \<^verbatim>\<open>core/realtime/adaptive_resampler.{h,cpp}\<close>, a wrapper of the resampler of a
  third-party library, which is an argument of the model.
\<close>

section \<open>The waterline controller\<close>

record waterline_config =
  wc_target_fill_frames :: nat
  wc_proportional_ppm_per_frame :: f64
  wc_integral_ppm_per_frame_second :: f64
  wc_maximum_correction_ppm :: f64
  wc_maximum_slew_ppm_per_second :: f64

text \<open>The defaults: a half, a twentieth, five hundred, one hundred.\<close>

definition default_waterline_config :: waterline_config where
  "default_waterline_config =
     \<lparr>wc_target_fill_frames = 0, wc_proportional_ppm_per_frame = 0x3FE0000000000000,
      wc_integral_ppm_per_frame_second = 0x3FA999999999999A, wc_maximum_correction_ppm = 0x407F400000000000,
      wc_maximum_slew_ppm_per_second = 0x4059000000000000\<rparr>"

record waterline =
  wl_config :: waterline_config
  wl_integral_ppm :: f64
  wl_correction_ppm :: f64

definition finite_nonnegative :: "f64 \<Rightarrow> f64" where
  "finite_nonnegative v = (if f64_finite v \<and> f64_le 0 v then v else 0)"

definition make_waterline :: "waterline_config \<Rightarrow> waterline" where
  "make_waterline c =
     \<lparr>wl_config = c\<lparr>wc_proportional_ppm_per_frame := finite_nonnegative (wc_proportional_ppm_per_frame c),
        wc_integral_ppm_per_frame_second := finite_nonnegative (wc_integral_ppm_per_frame_second c),
        wc_maximum_correction_ppm := finite_nonnegative (wc_maximum_correction_ppm c),
        wc_maximum_slew_ppm_per_second := finite_nonnegative (wc_maximum_slew_ppm_per_second c)\<rparr>,
      wl_integral_ppm = 0, wl_correction_ppm = 0\<rparr>"

definition waterline_update :: "f64 \<Rightarrow> f64 \<Rightarrow> waterline \<Rightarrow> f64 \<times> waterline" where
  "waterline_update fill_frames elapsed_seconds c =
     (if \<not> f64_finite fill_frames \<or> \<not> f64_finite elapsed_seconds \<or> f64_le elapsed_seconds 0
      then (wl_correction_ppm c, c)
      else
        let config = wl_config c;
            error_frames = f64_sub fill_frames (f64_of_nat (wc_target_fill_frames config));
            limit = wc_maximum_correction_ppm config;
            integral = f64_clamp
              (f64_add (wl_integral_ppm c)
                 (f64_mul (f64_mul error_frames (wc_integral_ppm_per_frame_second config)) elapsed_seconds))
              (f64_neg limit) limit;
            desired = f64_clamp
              (f64_add (f64_mul error_frames (wc_proportional_ppm_per_frame config)) integral) (f64_neg limit) limit;
            maximum_step = f64_mul (wc_maximum_slew_ppm_per_second config) elapsed_seconds;
            delta = f64_clamp (f64_sub desired (wl_correction_ppm c)) (f64_neg maximum_step) maximum_step;
            correction = f64_clamp (f64_add (wl_correction_ppm c) delta) (f64_neg limit) limit
        in (correction, c\<lparr>wl_integral_ppm := integral, wl_correction_ppm := correction\<rparr>))"

definition waterline_reset :: "waterline \<Rightarrow> waterline" where
  "waterline_reset c = c\<lparr>wl_integral_ppm := 0, wl_correction_ppm := 0\<rparr>"

section \<open>The resampler\<close>

datatype resampler_quality = QualityFastest | QualityMedium
datatype resampler_status = ResamplerSuccess | ResamplerNotInitialized | ResamplerInvalidArgument | ResamplerBackendError

record resampler_result =
  rp_status :: resampler_status
  rp_input_frames_used :: u32
  rp_output_frames_generated :: u32
  rp_backend_error :: int

definition resampler_ok :: "resampler_result \<Rightarrow> bool" where
  "resampler_ok r \<longleftrightarrow> rp_status r = ResamplerSuccess"

text \<open>
  The library behind it. A run gets the ratio, whether the input ends, the input with its frames and the output with
  its capacity, and answers an error code, the frames it used and made, and the output.
\<close>

record 'x src_backend =
  sb_new :: "resampler_quality \<Rightarrow> nat \<Rightarrow> 'x option \<times> int"
  sb_reset :: "'x \<Rightarrow> 'x"
  sb_is_valid_ratio :: "f64 \<Rightarrow> bool"
  sb_process :: "f64 \<Rightarrow> bool \<Rightarrow> f32 list \<Rightarrow> u32 \<Rightarrow> f32 list \<Rightarrow> u32 \<Rightarrow> 'x \<Rightarrow> (int \<times> u32 \<times> u32 \<times> f32 list) \<times> 'x"

record 'x adaptive_resampler =
  ar_state :: "'x option"
  ar_channels :: nat

definition no_resampler :: "'x adaptive_resampler" where
  "no_resampler = \<lparr>ar_state = None, ar_channels = 0\<rparr>"

text \<open>\<^verbatim>\<open>int\<close> and, on Windows, \<^verbatim>\<open>long\<close> have 32 bits.\<close>

definition resampler_initialize ::
  "'x src_backend \<Rightarrow> nat \<Rightarrow> resampler_quality \<Rightarrow> resampler_status \<times> 'x adaptive_resampler" where
  "resampler_initialize b channels quality =
     (if channels = 0 \<or> channels > 2 ^ 31 - 1 then (ResamplerInvalidArgument, no_resampler)
      else case sb_new b quality channels of (state, error) \<Rightarrow>
        if state = None \<or> error \<noteq> 0 then (ResamplerBackendError, no_resampler)
        else (ResamplerSuccess, \<lparr>ar_state = state, ar_channels = channels\<rparr>))"

definition resampler_reset :: "'x src_backend \<Rightarrow> 'x adaptive_resampler \<Rightarrow> 'x adaptive_resampler" where
  "resampler_reset b r = r\<lparr>ar_state := map_option (sb_reset b) (ar_state r)\<rparr>"

definition resampler_release :: "'x adaptive_resampler \<Rightarrow> 'x adaptive_resampler" where
  "resampler_release r = no_resampler"

definition sample_count_fits :: "nat \<Rightarrow> u32 \<Rightarrow> nat \<Rightarrow> bool" where
  "sample_count_fits sample_count frames channels \<longleftrightarrow>
     channels \<noteq> 0 \<and> unat frames \<le> 2 ^ 31 - 1 \<and> unat frames \<le> sample_count div channels"

definition resampler_process ::
  "'x src_backend \<Rightarrow> f32 list \<Rightarrow> u32 \<Rightarrow> f32 list \<Rightarrow> u32 \<Rightarrow> f64 \<Rightarrow> bool \<Rightarrow> 'x adaptive_resampler \<Rightarrow>
     resampler_result \<times> f32 list \<times> 'x adaptive_resampler" where
  "resampler_process b input input_frames output capacity ratio end_of_input r =
     (case ar_state r of
        None \<Rightarrow> (\<lparr>rp_status = ResamplerNotInitialized, rp_input_frames_used = 0, rp_output_frames_generated = 0,
                  rp_backend_error = 0\<rparr>, output, r)
      | Some x \<Rightarrow>
          if \<not> sample_count_fits (length input) input_frames (ar_channels r) \<or>
             \<not> sample_count_fits (length output) capacity (ar_channels r) \<or> \<not> sb_is_valid_ratio b ratio
          then (\<lparr>rp_status = ResamplerInvalidArgument, rp_input_frames_used = 0, rp_output_frames_generated = 0,
                 rp_backend_error = 0\<rparr>, output, r)
          else case sb_process b ratio end_of_input input input_frames output capacity x of ((error, used, generated, output), x) \<Rightarrow>
            (\<lparr>rp_status = (if error \<noteq> 0 then ResamplerBackendError else ResamplerSuccess), rp_input_frames_used = used,
              rp_output_frames_generated = generated, rp_backend_error = error\<rparr>,
             output, r\<lparr>ar_state := Some x\<rparr>))"

section \<open>Sums and products that are numbers\<close>

lemma f64_nan_iff: "f64_nan x \<longleftrightarrow> 0x7FF0000000000000 < f64_magnitude x"
proof -
  have fraction: "unat (x AND 0x000FFFFFFFFFFFFF) = unat x mod 2 ^ 52"
  proof -
    have "(0x000FFFFFFFFFFFFF :: u64) = mask 52" by (simp add: mask_eq_exp_minus_1)
    then have "x AND 0x000FFFFFFFFFFFFF = take_bit 52 x" by (simp only: take_bit_eq_mask)
    then show ?thesis by (simp add: take_bit_eq_mod unat_mod)
  qed
  have "f64_nan x \<longleftrightarrow> \<not> f64_magnitude x < 0x7FF0000000000000 \<and> unat x mod 2 ^ 52 \<noteq> 0"
    unfolding f64_finite_iff [symmetric] f64_nan_def f64_finite_def fraction [symmetric] by (simp add: word_unat_eq_iff)
  also have "\<dots> \<longleftrightarrow> 0x7FF0000000000000 < f64_magnitude x"
  proof -
    define f r where "f = unat x div 2 ^ 52 mod 2 ^ 11" and "r = unat x mod 2 ^ 52"
    have "unat x mod 2 ^ 63 = f * 2 ^ 52 + r" using mod_mult2_eq [of "unat x" "2 ^ 52" "2 ^ 11"] by (simp add: f_def r_def)
    moreover have "f < 2048" "r < 2 ^ 52" by (simp_all add: f_def r_def)
    moreover have "f = 2047 \<or> f \<le> 2046" using \<open>f < 2048\<close> by linarith
    moreover have "(unat x mod 2 ^ 52 \<noteq> 0) = (r \<noteq> 0)" by (simp only: r_def)
    ultimately show ?thesis unfolding f64_magnitude_def by auto
  qed
  finally show ?thesis .
qed

lemma f64_make_not_nan [simp]: "\<not> f64_nan (f64_make s m)"
proof -
  let ?n = "min m 0x7FF0000000000000 + (if s then 2 ^ 63 else 0)"
  have "?n < 2 ^ 64" by (simp add: min.strict_coboundedI2)
  then have "unat (f64_make s m) = ?n" unfolding f64_make_def by (simp only: unsigned_of_nat) (simp add: take_bit_nat_eq_self)
  then have "f64_magnitude (f64_make s m) = min m 0x7FF0000000000000" by (simp add: f64_magnitude_def)
  then show ?thesis by (simp add: f64_nan_iff)
qed

lemma f64_add_number: "\<not> f64_nan x \<Longrightarrow> f64_finite y \<Longrightarrow> \<not> f64_nan (f64_add x y) \<and> \<not> f64_nan (f64_add y x)"
  using f64_finite_not [of y] by (auto simp: f64_add_def Let_def)

lemma f64_mul_number:
  "\<not> f64_nan x \<Longrightarrow> f64_finite y \<Longrightarrow> \<not> f64_is_zero y \<or> f64_finite x \<Longrightarrow> \<not> f64_nan (f64_mul x y)"
  using f64_finite_not [of y] f64_finite_not [of x] by (auto simp: f64_mul_def f64_infinite_def f64_is_zero_def f64_magnitude_def)

lemma f64_neg_magnitude [simp]: "f64_magnitude (f64_neg x) = f64_magnitude x"
proof -
  have m: "f64_magnitude y = unat (take_bit 63 y)" for y :: f64
    by (simp add: f64_magnitude_def take_bit_eq_mod unat_mod)
  have "take_bit 63 (f64_neg x) = take_bit 63 x"
    by (simp add: f64_neg_def take_bit_xor)
  then show ?thesis by (simp only: m)
qed

lemma f64_negative_bit: "f64_negative x \<longleftrightarrow> bit x 63"
proof -
  have "unat x < 2 ^ 64" using unsigned_less [of x] by simp
  then have "2 ^ 63 \<le> unat x \<Longrightarrow> unat x div 2 ^ 63 = 1" by (intro div_nat_eqI) simp_all
  then have "odd (unat x div 2 ^ 63) \<longleftrightarrow> 2 ^ 63 \<le> unat x" by (cases "2 ^ 63 \<le> unat x") simp_all
  moreover have "bit x 63 = odd (unat x div 2 ^ 63)" using bit_unsigned_iff [where 'a = nat, of x 63] by (simp add: bit_iff_odd [of "unat x"])
  ultimately show ?thesis by (simp add: f64_negative_def word_le_nat_alt)
qed

lemma f64_neg_negative [simp]: "f64_negative (f64_neg x) \<longleftrightarrow> \<not> f64_negative x"
proof -
  have "(0x8000000000000000 :: u64) = push_bit 63 1" by simp
  then show ?thesis unfolding f64_neg_def f64_negative_bit by (simp only: bit_xor_iff bit_push_bit_iff) simp
qed

section \<open>The correction stays within its limit\<close>

lemma f64_infinite_outside:
  assumes "f64_infinite v" "f64_finite lo" "f64_finite hi"
  shows "f64_less hi v \<or> f64_less v lo"
proof -
  have v: "\<not> f64_nan v" "\<not> f64_is_zero v"
    using assms(1) by (auto simp: f64_infinite_def f64_nan_iff f64_is_zero_def f64_magnitude_def)
  have parts: "unat x = f64_magnitude x + (if f64_negative x then 2 ^ 63 else 0)" for x :: f64
  proof -
    have "unat x < 2 ^ 64" using unsigned_less [of x] by simp
    then show ?thesis by (auto simp: f64_magnitude_def f64_negative_def word_le_nat_alt mod_if)
  qed
  have less: "x < y \<longleftrightarrow> f64_magnitude x < f64_magnitude y" if "f64_negative x = f64_negative y" for x y :: f64
    using parts [of x] parts [of y] that by (simp add: word_less_nat_alt)
  have "f64_magnitude lo < f64_magnitude v" "f64_magnitude hi < f64_magnitude v"
    using assms by (simp_all add: f64_infinite_def f64_finite_iff)
  then show ?thesis
    using v less [of hi v] less [of lo v] f64_finite_not [OF assms(2)] f64_finite_not [OF assms(3)]
    by (auto simp: f64_less_def)
qed

text \<open>A number between a limit and its negation.\<close>

definition within_limit :: "f64 \<Rightarrow> f64 \<Rightarrow> bool" where
  "within_limit limit x \<longleftrightarrow> f64_finite x \<and> f64_le (f64_neg limit) x \<and> f64_le x limit"

definition is_limit :: "f64 \<Rightarrow> bool" where
  "is_limit limit \<longleftrightarrow> f64_finite limit \<and> f64_le 0 limit"

lemma f64_is_zero_iff: "f64_is_zero x \<longleftrightarrow> f64_magnitude x = 0"
proof -
  have "unat x < 2 ^ 64" using unsigned_less [of x] by simp
  then have "unat x mod 2 ^ 63 = 0 \<longleftrightarrow> unat x = 0 \<or> unat x = 2 ^ 63" by (auto simp: mod_if split: if_splits)
  then show ?thesis by (simp add: f64_is_zero_def f64_magnitude_def word_unat_eq_iff)
qed

lemma f64_neg_zero [simp]: "f64_is_zero (f64_neg x) = f64_is_zero x"
  by (simp add: f64_is_zero_iff)

lemma f64_neg_nan [simp]: "f64_nan (f64_neg x) = f64_nan x"
  by (simp add: f64_nan_iff)

lemma f64_zero_facts [simp]: "f64_is_zero 0" "\<not> f64_nan 0" "f64_finite 0" "\<not> f64_negative 0"
  by (simp_all add: f64_is_zero_def f64_nan_def f64_finite_def f64_negative_def)

lemma f64_neg_finite [simp]: "f64_finite (f64_neg x) = f64_finite x"
  by (simp add: f64_finite_iff)

lemma limit_positive: "is_limit limit \<Longrightarrow> f64_finite limit \<and> \<not> f64_nan limit \<and> (\<not> f64_negative limit \<or> f64_is_zero limit)"
  using f64_finite_not [of limit] by (auto simp: is_limit_def f64_le_def f64_less_def)

lemma limit_order: "is_limit limit \<Longrightarrow> \<not> f64_less limit (f64_neg limit)"
  using limit_positive [of limit] by (auto simp: f64_less_def)

lemma zero_within_limit: "is_limit limit \<Longrightarrow> within_limit limit 0"
  using limit_positive [of limit] by (auto simp: within_limit_def f64_le_def f64_less_def)

lemma clamp_within_limit:
  assumes "is_limit limit" "\<not> f64_nan v"
  shows "within_limit limit (f64_clamp v (f64_neg limit) limit)"
proof -
  have fin: "f64_finite limit" "f64_finite (f64_neg limit)" using assms(1) by (simp_all add: is_limit_def)
  then have num: "\<not> f64_nan limit" "\<not> f64_nan (f64_neg limit)" using f64_finite_not by blast+
  have "f64_finite v" if "\<not> f64_less v (f64_neg limit)" "\<not> f64_less limit v"
  proof (rule ccontr)
    assume "\<not> f64_finite v"
    then have "f64_infinite v" using assms(2) by (simp add: f64_finite_iff f64_nan_iff f64_infinite_def)
    then show False using f64_infinite_outside [OF _ fin(2) fin(1)] that by blast
  qed
  then show ?thesis
    using limit_order [OF assms(1)] fin num assms(2) by (auto simp: within_limit_def f64_clamp_def f64_le_def)
qed

lemma finite_nonnegative_limit: "is_limit (finite_nonnegative v)"
  by (simp add: is_limit_def finite_nonnegative_def f64_finite_def f64_le_def f64_nan_def)

text \<open>The gains of the controller: with a gain of zero an error that overflows would give a NaN.\<close>

definition gains_ok :: "waterline_config \<Rightarrow> bool" where
  "gains_ok c \<longleftrightarrow> \<not> f64_is_zero (finite_nonnegative (wc_proportional_ppm_per_frame c)) \<and>
     \<not> f64_is_zero (finite_nonnegative (wc_integral_ppm_per_frame_second c))"

definition waterline_inv :: "waterline \<Rightarrow> bool" where
  "waterline_inv c \<longleftrightarrow>
     (let config = wl_config c; limit = wc_maximum_correction_ppm config
      in is_limit limit \<and> is_limit (wc_maximum_slew_ppm_per_second config) \<and>
         f64_finite (wc_proportional_ppm_per_frame config) \<and> \<not> f64_is_zero (wc_proportional_ppm_per_frame config) \<and>
         f64_finite (wc_integral_ppm_per_frame_second config) \<and> \<not> f64_is_zero (wc_integral_ppm_per_frame_second config) \<and>
         within_limit limit (wl_integral_ppm c) \<and> within_limit limit (wl_correction_ppm c))"

lemma make_waterline_inv: "gains_ok c \<Longrightarrow> waterline_inv (make_waterline c)"
  using finite_nonnegative_limit
  by (auto simp: waterline_inv_def make_waterline_def gains_ok_def Let_def zero_within_limit is_limit_def)

lemma waterline_reset_inv: "waterline_inv c \<Longrightarrow> waterline_inv (waterline_reset c)"
  by (simp add: waterline_inv_def waterline_reset_def Let_def zero_within_limit)

lemma number_clamp:
  assumes "\<not> f64_nan v" "\<not> f64_nan lo" "\<not> f64_nan hi"
  shows "\<not> f64_nan (f64_clamp v lo hi)"
  using assms by (simp add: f64_clamp_def)

lemma waterline_update_inv:
  assumes "waterline_inv c"
  shows "waterline_inv (snd (waterline_update fill elapsed c))" "fst (waterline_update fill elapsed c) = wl_correction_ppm (snd (waterline_update fill elapsed c))"
proof -
  define config limit where "config = wl_config c" and "limit = wc_maximum_correction_ppm config"
  define ki kp slew where "ki = wc_integral_ppm_per_frame_second config" and "kp = wc_proportional_ppm_per_frame config"
    and "slew = wc_maximum_slew_ppm_per_second config"
  define err where "err = f64_sub fill (f64_of_nat (wc_target_fill_frames config))"
  define integral where "integral = f64_clamp (f64_add (wl_integral_ppm c) (f64_mul (f64_mul err ki) elapsed)) (f64_neg limit) limit"
  define desired where "desired = f64_clamp (f64_add (f64_mul err kp) integral) (f64_neg limit) limit"
  define step where "step = f64_mul slew elapsed"
  define delta where "delta = f64_clamp (f64_sub desired (wl_correction_ppm c)) (f64_neg step) step"
  define correction where "correction = f64_clamp (f64_add (wl_correction_ppm c) delta) (f64_neg limit) limit"
  have inv: "is_limit limit" "is_limit slew" "f64_finite ki" "\<not> f64_is_zero ki" "f64_finite kp" "\<not> f64_is_zero kp"
    "within_limit limit (wl_integral_ppm c)" "within_limit limit (wl_correction_ppm c)"
    using assms by (simp_all add: waterline_inv_def Let_def config_def limit_def ki_def kp_def slew_def)
  let ?idle = "\<not> f64_finite fill \<or> \<not> f64_finite elapsed \<or> f64_le elapsed 0"
  have step: "waterline_update fill elapsed c = (if ?idle then (wl_correction_ppm c, c)
      else (correction, c\<lparr>wl_integral_ppm := integral, wl_correction_ppm := correction\<rparr>))"
    by (simp add: waterline_update_def Let_def config_def limit_def ki_def kp_def slew_def err_def integral_def desired_def
        step_def delta_def correction_def)
  have bounds: "within_limit limit integral \<and> within_limit limit correction" if busy: "\<not> ?idle"
  proof -
    have e: "f64_finite fill" "f64_finite elapsed" "\<not> f64_is_zero elapsed"
      using busy f64_finite_not [of elapsed] by (auto simp: f64_le_def f64_less_def)
    have "\<not> f64_nan err" unfolding err_def f64_sub_def using e f64_add_number [of "f64_neg (f64_of_nat _)" fill]
      by (simp add: f64_of_nat_def)
    then have "\<not> f64_nan (f64_mul (f64_mul err ki) elapsed)" "\<not> f64_nan (f64_mul err kp)"
      using f64_mul_number inv e by simp_all
    then have i: "within_limit limit integral"
      unfolding integral_def using f64_add_number inv by (intro clamp_within_limit) (auto simp: within_limit_def)
    then have d: "within_limit limit desired"
      unfolding desired_def using f64_add_number inv \<open>\<not> f64_nan (f64_mul err kp)\<close>
      by (intro clamp_within_limit) (auto simp: within_limit_def)
    have "\<not> f64_nan step"
      unfolding step_def using f64_mul_number inv(2) e limit_positive by blast
    moreover have "\<not> f64_nan (f64_sub desired (wl_correction_ppm c))"
      unfolding f64_sub_def using d inv(8) f64_finite_not f64_add_number [of desired "f64_neg (wl_correction_ppm c)"]
      by (auto simp: within_limit_def)
    ultimately have "\<not> f64_nan delta" unfolding delta_def by (intro number_clamp) simp_all
    then show ?thesis
      unfolding correction_def using i f64_add_number inv by (intro conjI clamp_within_limit) (auto simp: within_limit_def)
  qed
  show "waterline_inv (snd (waterline_update fill elapsed c))"
    using assms bounds unfolding step by (simp add: waterline_inv_def Let_def config_def limit_def)
  show "fst (waterline_update fill elapsed c) = wl_correction_ppm (snd (waterline_update fill elapsed c))"
    unfolding step by simp
qed

definition waterline_after :: "(f64 \<times> f64) list \<Rightarrow> waterline \<Rightarrow> waterline" where
  "waterline_after updates c = fold (\<lambda>(fill, elapsed) c. snd (waterline_update fill elapsed c)) updates c"

lemma waterline_after_inv: "waterline_inv c \<Longrightarrow> waterline_inv (waterline_after updates c)"
  by (induction updates arbitrary: c) (auto simp: waterline_after_def waterline_update_inv(1))

lemma waterline_after_config: "wl_config (waterline_after updates c) = wl_config c"
proof -
  have one: "wl_config (snd (waterline_update fill elapsed c)) = wl_config c" for fill elapsed c
    by (simp add: waterline_update_def Let_def)
  show ?thesis by (induction updates arbitrary: c) (auto simp: waterline_after_def one)
qed



end
