(* ===== verification/GraphRunner.thy ===== *)
theory GraphRunner
  imports WasapiStream AdaptiveRate GraphProcess
begin

text \<open>
  \<^verbatim>\<open>core/platform/windows_wasapi_graph_runner.{h,cpp}\<close>: one cycle of the realtime thread between a capture
  stream and a render stream. The streams, the external source and sink, the events of the two devices, the clock and the
  resampler's library are arguments over a type \<open>'w\<close> of the world; the runner itself, the graph and the diagnostics are
  the state of the model.
\<close>

section \<open>Results\<close>

record runner_stats =
  st_captured_frames :: u32
  st_rendered_frames :: u32
  st_capture_partial_frames :: u32
  st_render_partial_frames :: u32
  st_capture_silent_frames :: u32
  st_resampler_input_frames :: u32
  st_resampler_output_frames :: u32
  st_startup_silence_frames :: u32
  st_starvation_silence_frames :: u32
  st_recovery_silence_frames :: u32
  st_clipped_samples :: u32
  st_non_finite_samples :: u32
  st_rate_correction_ppm :: f64
  st_clock_feed_forward_ppm :: f64
  st_fifo_correction_ppm :: f64
  st_resampler_ratio :: f64
  st_rate_adapter_active :: bool
  st_rate_correction_clamped :: bool
  st_rate_adapter_reset :: bool
  st_rate_adapter_recovering :: bool
  st_startup_silence :: bool
  st_starvation_silence :: bool
  st_recovery_silence :: bool
  st_graph_processed :: bool
  st_capture_idle :: bool
  st_render_idle :: bool
  st_capture_wait_timed_out :: bool
  st_render_wait_timed_out :: bool
  st_duplex_wait_timed_out :: bool
  st_cancelled :: bool
  st_capture_partial :: bool
  st_render_partial :: bool
  st_capture_silent :: bool
  st_data_discontinuity :: bool
  st_timestamp_error :: bool
  st_external_input_mixed :: bool
  st_external_output_published :: bool

definition no_stats :: runner_stats where
  "no_stats =
     \<lparr>st_captured_frames = 0, st_rendered_frames = 0, st_capture_partial_frames = 0, st_render_partial_frames = 0,
      st_capture_silent_frames = 0, st_resampler_input_frames = 0, st_resampler_output_frames = 0,
      st_startup_silence_frames = 0, st_starvation_silence_frames = 0, st_recovery_silence_frames = 0,
      st_clipped_samples = 0, st_non_finite_samples = 0, st_rate_correction_ppm = 0, st_clock_feed_forward_ppm = 0,
      st_fifo_correction_ppm = 0, st_resampler_ratio = f64_one, st_rate_adapter_active = False,
      st_rate_correction_clamped = False, st_rate_adapter_reset = False, st_rate_adapter_recovering = False,
      st_startup_silence = False, st_starvation_silence = False, st_recovery_silence = False, st_graph_processed = False,
      st_capture_idle = False, st_render_idle = False, st_capture_wait_timed_out = False, st_render_wait_timed_out = False,
      st_duplex_wait_timed_out = False, st_cancelled = False, st_capture_partial = False, st_render_partial = False,
      st_capture_silent = False, st_data_discontinuity = False, st_timestamp_error = False, st_external_input_mixed = False,
      st_external_output_published = False\<rparr>"

record runner_result =
  rr_stats :: runner_stats
  rr_errors :: "stream_error list"
  rr_realtime_error :: realtime_error

definition runner_success :: "runner_stats \<Rightarrow> runner_result" where
  "runner_success stats = \<lparr>rr_stats = stats, rr_errors = [], rr_realtime_error = no_error\<rparr>"

definition runner_errors :: "stream_error list \<Rightarrow> runner_result" where
  "runner_errors es = \<lparr>rr_stats = no_stats, rr_errors = es, rr_realtime_error = no_error\<rparr>"

definition runner_failure :: "realtime_error \<Rightarrow> runner_result" where
  "runner_failure e = \<lparr>rr_stats = no_stats, rr_errors = [], rr_realtime_error = e\<rparr>"

definition runner_ok :: "runner_result \<Rightarrow> bool" where
  "runner_ok r \<longleftrightarrow> rr_errors r = [] \<and> er_code (rr_realtime_error r) = 0"

section \<open>State\<close>

record channel_layout =
  cl_graph_input_channels :: nat
  cl_graph_output_channels :: nat
  cl_capture_input_offset :: nat
  cl_external_input_offset :: nat
  cl_external_input_channels :: nat
  cl_render_output_offset :: nat
  cl_external_output_offset :: nat
  cl_external_output_channels :: nat

definition no_layout :: channel_layout where
  "no_layout =
     \<lparr>cl_graph_input_channels = 0, cl_graph_output_channels = 0, cl_capture_input_offset = 0, cl_external_input_offset = 0,
      cl_external_input_channels = 0, cl_render_output_offset = 0, cl_external_output_offset = 0,
      cl_external_output_channels = 0\<rparr>"

record buffered_path =
  bp_packet :: audio_buffer
  bp_fifo :: planar_fifo

record 'x rate_adapter =
  ra_nominal_ratio :: f64
  ra_resampler :: "'x adaptive_resampler"
  ra_controller :: waterline
  ra_source_planar :: audio_buffer
  ra_source_interleaved :: "f32 list"
  ra_output_interleaved :: "f32 list"
  ra_target_fill_frames :: nat
  ra_output_frames_ready :: nat
  ra_ratio :: f64
  ra_correction_clamped :: bool
  ra_ratio_set_for_block :: bool
  ra_primed :: bool
  ra_recovery_active :: bool
  ra_preroll_pending :: bool
  ra_ever_produced :: bool

record 'x graph_runner =
  gr_input :: audio_buffer
  gr_output :: audio_buffer
  gr_block_frames :: nat
  gr_desired_render_fill :: nat
  gr_render_master :: bool
  gr_capture_path :: "buffered_path option"
  gr_render_path :: "buffered_path option"
  gr_adapter :: "'x rate_adapter option"
  gr_baseline :: bool
  gr_external_input_buffer :: "audio_buffer option"
  gr_external_output_buffer :: "audio_buffer option"
  gr_capture_graph_buffer :: "audio_buffer option"
  gr_render_graph_buffer :: "audio_buffer option"
  gr_layout :: channel_layout
  gr_mapped :: bool

text \<open>
  What the runner calls. A pointer that is null is \<open>None\<close>. \<open>en_duplex_wait\<close> is the wait for the events of two streams,
  \<open>None\<close> unless both are streams of Windows. The correction of the clock observer is an atomic variable that
  another thread writes. \<open>en_unspecified\<close> is what a conversion out of range of its type gives, \<open>en_period_frames\<close> the two device
  periods of a probe in frames, rounded up, which the code computes in \<^verbatim>\<open>long double\<close>.
\<close>

record ('w, 'x) runner_env =
  en_capture :: "'w stream_io option"
  en_render :: "'w stream_io option"
  en_duplex_wait :: "(u32 \<Rightarrow> 'w \<Rightarrow> duplex_wait_status \<times> 'w) option"
  en_external_input :: "(audio_buffer \<Rightarrow> 'w \<Rightarrow> bool \<times> audio_buffer \<times> 'w) option"
  en_external_output :: "(audio_buffer \<Rightarrow> 'w \<Rightarrow> bool \<times> 'w) option"
  en_feed_forward :: "'w \<Rightarrow> f64"
  en_elapsed :: "'w \<Rightarrow> f64 \<times> 'w"
  en_backend :: "'x src_backend"
  en_unspecified :: nat
  en_period_frames :: "stream_probe \<Rightarrow> nat"

text \<open>What changes during a cycle.\<close>

record ('w, 'x) cycle =
  cy_runner :: "'x graph_runner"
  cy_graph :: graph
  cy_scratch_a :: audio_buffer
  cy_scratch_b :: audio_buffer
  cy_diagnostics :: engine_diagnostics
  cy_stats :: runner_stats
  cy_world :: 'w

abbreviation on_runner :: "('x graph_runner \<Rightarrow> 'x graph_runner) \<Rightarrow> ('w, 'x) cycle \<Rightarrow> ('w, 'x) cycle" where
  "on_runner f c \<equiv> c\<lparr>cy_runner := f (cy_runner c)\<rparr>"

abbreviation on_diagnostics :: "(engine_diagnostics \<Rightarrow> engine_diagnostics) \<Rightarrow> ('w, 'x) cycle \<Rightarrow> ('w, 'x) cycle" where
  "on_diagnostics f c \<equiv> c\<lparr>cy_diagnostics := f (cy_diagnostics c)\<rparr>"

abbreviation on_stats :: "(runner_stats \<Rightarrow> runner_stats) \<Rightarrow> ('w, 'x) cycle \<Rightarrow> ('w, 'x) cycle" where
  "on_stats f c \<equiv> c\<lparr>cy_stats := f (cy_stats c)\<rparr>"

text \<open>How a step of a loop or of the cycle ends: it goes on, leaves its loop, or returns from the function.\<close>

datatype flow = Next | Leave | Return runner_result

section \<open>Helpers\<close>

definition kMaximumCaptureRateCorrectionPpm :: f64 where
  "kMaximumCaptureRateCorrectionPpm = 0x40A3880000000000"

definition capture_rate_correction_clamped :: "f64 \<Rightarrow> bool" where
  "capture_rate_correction_clamped unbounded \<longleftrightarrow>
     f64_le unbounded (f64_neg kMaximumCaptureRateCorrectionPpm) \<or> f64_le kMaximumCaptureRateCorrectionPpm unbounded"

text \<open>\<^verbatim>\<open>std::ceil\<close> and the conversion to \<^verbatim>\<open>size_t\<close>.\<close>

definition f64_ceil_size :: "nat \<Rightarrow> f64 \<Rightarrow> nat" where
  "f64_ceil_size unspecified x =
     (if \<not> f64_finite x then unspecified
      else if f64_negative x then (if f64_units x < 2 ^ 1074 then 0 else unspecified)
      else let n = (f64_units x + (2 ^ 1074 - 1)) div 2 ^ 1074 in if 2 ^ 64 \<le> n then unspecified else n)"

definition source_frames_for_output :: "nat \<Rightarrow> nat \<Rightarrow> f64 \<Rightarrow> nat" where
  "source_frames_for_output unspecified output_frames ratio =
     f64_ceil_size unspecified (f64_div (f64_of_nat output_frames) ratio)"

definition render_target_fill_frames :: "nat \<Rightarrow> nat \<Rightarrow> nat \<Rightarrow> nat \<Rightarrow> nat" where
  "render_target_fill_frames period_frames packet_frames block_frames fifo_capacity =
     (let guard_frames = max block_frames period_frames
      in if packet_frames \<ge> fifo_capacity then fifo_capacity
         else packet_frames + min guard_frames (fifo_capacity - packet_frames))"

definition validate_graph_shape_realtime :: "graph \<Rightarrow> audio_buffer \<Rightarrow> audio_buffer \<Rightarrow> realtime_error option" where
  "validate_graph_shape_realtime g input output =
     (if length (g_nodes g) \<le> 1 then None
      else if g_channels g \<ge> max (ab_channels input) (ab_channels output) \<and> g_frames g \<ge> max (ab_frames input) (ab_frames output)
      then None
      else Some (realtime_error_of GraphBufferTooSmall 0 0))"

definition validate_graph_sample_rate_realtime ::
  "graph \<Rightarrow> 'w stream_io option \<Rightarrow> 'w stream_io option \<Rightarrow> bool \<Rightarrow> realtime_error option" where
  "validate_graph_sample_rate_realtime g capture render adapt =
     (let mismatch = (\<lambda>s. case s of None \<Rightarrow> False | Some h \<Rightarrow> g_sample_rate g \<noteq> af_sample_rate (pb_mix_format (si_probe h)))
      in if \<not> adapt \<and> mismatch capture then Some (realtime_error_of GraphSampleRateMismatch 0 0)
         else if mismatch render then Some (realtime_error_of GraphSampleRateMismatch 0 0)
         else None)"

definition realtime_error_from :: "io_result \<Rightarrow> realtime_error" where
  "realtime_error_from r =
     (if er_code (io_realtime_error r) \<noteq> 0 then io_realtime_error r
      else case io_errors r of
          [] \<Rightarrow> no_error
        | e # _ \<Rightarrow> map_wasapi_realtime_error (sx_code e) (sx_message e)
            (sx_native_hresult e \<noteq> None) (case sx_native_hresult e of None \<Rightarrow> 0 | Some v \<Rightarrow> v)
            (sx_native_win32_code e \<noteq> None) (case sx_native_win32_code e of None \<Rightarrow> 0 | Some v \<Rightarrow> v))"

definition is_conversion_failure :: "realtime_error \<Rightarrow> bool" where
  "is_conversion_failure e \<longleftrightarrow>
     er_code e \<in> {code_number UnsupportedSampleFormat, code_number SampleBufferTooSmall, code_number SampleChannelMismatch,
       code_number SampleConversionFailed}"

definition record_sample_conversion_failure :: "realtime_error \<Rightarrow> u64 \<Rightarrow> u64" where
  "record_sample_conversion_failure e counter = (if is_conversion_failure e then counter + 1 else counter)"

definition interleave_planar :: "audio_buffer \<Rightarrow> nat \<Rightarrow> f32 list \<Rightarrow> f32 list" where
  "interleave_planar source frames destination =
     fold (\<lambda>frame. fold (\<lambda>channel xs. xs[frame * ab_channels source + channel := ab_channel source channel ! frame])
       [0..<ab_channels source]) [0..<frames] destination"

definition deinterleave_planar :: "f32 list \<Rightarrow> nat \<Rightarrow> audio_buffer \<Rightarrow> audio_buffer" where
  "deinterleave_planar source frames destination =
     fold (\<lambda>frame. fold (\<lambda>channel. ab_set_sample channel frame (source ! (frame * ab_channels destination + channel)))
       [0..<ab_channels destination]) [0..<frames] destination"

definition copy_channels :: "audio_buffer \<Rightarrow> nat \<Rightarrow> audio_buffer \<Rightarrow> audio_buffer" where
  "copy_channels source offset destination =
     (let channels = min (ab_channels source) (ab_channels destination - offset);
          frames = min (ab_frames source) (ab_frames destination)
      in fold (\<lambda>channel. ab_put_channel (take frames (ab_channel source channel)) (offset + channel)) [0..<channels] destination)"

definition extract_channels :: "audio_buffer \<Rightarrow> nat \<Rightarrow> audio_buffer \<Rightarrow> audio_buffer" where
  "extract_channels source offset destination =
     (let channels = min (ab_channels destination) (ab_channels source - offset);
          frames = min (ab_frames source) (ab_frames destination)
      in fold (\<lambda>channel. ab_put_channel (take frames (ab_channel source (offset + channel))) channel) [0..<channels]
           (ab_clear destination))"

section \<open>Construction\<close>

text \<open>\<open>None\<close> is an exception: of the runner, of a buffer without frames, of a FIFO, of the resampler.\<close>

definition make_buffered_path :: "nat \<Rightarrow> nat \<Rightarrow> nat \<Rightarrow> buffered_path option" where
  "make_buffered_path channels packet_frames fifo_frames =
     (case make_audio_buffer channels packet_frames of
        None \<Rightarrow> None
      | Some packet \<Rightarrow> (case make_planar_fifo channels fifo_frames of
            Inl _ \<Rightarrow> None
          | Inr fifo \<Rightarrow> Some \<lparr>bp_packet = packet, bp_fifo = fifo\<rparr>))"

definition make_rate_adapter ::
  "'x src_backend \<Rightarrow> nat \<Rightarrow> nat \<Rightarrow> nat \<Rightarrow> nat \<Rightarrow> u32 \<Rightarrow> u32 \<Rightarrow> 'x rate_adapter option" where
  "make_rate_adapter b unspecified channels graph_frames fifo_frames capture_rate graph_rate =
     (let nominal = f64_div (f64_of_nat (unat graph_rate)) (f64_of_nat (unat capture_rate));
          target = source_frames_for_output unspecified graph_frames nominal;
          config = default_waterline_config\<lparr>wc_target_fill_frames := target, wc_maximum_correction_ppm := 0x40A3880000000000,
            wc_maximum_slew_ppm_per_second := 0x406F400000000000\<rparr>
      in case make_audio_buffer channels fifo_frames of
           None \<Rightarrow> None
         | Some planar \<Rightarrow> (case resampler_initialize b channels QualityFastest of
               (status, r) \<Rightarrow>
                 if status \<noteq> ResamplerSuccess then None
                 else Some
                   \<lparr>ra_nominal_ratio = nominal, ra_resampler = r, ra_controller = make_waterline config,
                    ra_source_planar = planar, ra_source_interleaved = replicate (channels * fifo_frames) 0,
                    ra_output_interleaved = replicate (channels * graph_frames) 0, ra_target_fill_frames = target,
                    ra_output_frames_ready = 0, ra_ratio = nominal, ra_correction_clamped = False,
                    ra_ratio_set_for_block = False, ra_primed = False, ra_recovery_active = False,
                    ra_preroll_pending = False, ra_ever_produced = False\<rparr>))"

lemma pushed_available: "(queued, q') = pf_push b n q \<Longrightarrow> pf_available q' = pf_available q + queued"
  by (auto simp: pf_push_def Let_def split: if_splits)

text \<open>
  \<^verbatim>\<open>prime_render_fifo_with_silence\<close>: the output buffer, cleared, is pushed until the target is reached or nothing
  more is taken.
\<close>

function prime_loop :: "audio_buffer \<Rightarrow> nat \<Rightarrow> planar_fifo \<Rightarrow> planar_fifo" where
  "prime_loop block target q =
     (if pf_available q \<ge> target then q
      else case pf_push block (min (target - pf_available q) (ab_frames block)) q of (queued, q') \<Rightarrow>
        if queued = 0 then q' else prime_loop block target q')"
  by pat_completeness auto
termination
  by (relation "measure (\<lambda>(block, target, q). target - pf_available q)") (auto dest!: pushed_available)

declare prime_loop.simps [simp del]

definition prime_render_fifo_with_silence :: "'x graph_runner \<Rightarrow> 'x graph_runner" where
  "prime_render_fifo_with_silence r =
     (case gr_render_path r of
        None \<Rightarrow> r
      | Some path \<Rightarrow>
          let output = ab_clear (gr_output r)
          in r\<lparr>gr_output := output,
               gr_render_path := Some (path\<lparr>bp_fifo := prime_loop output (gr_desired_render_fill r) (bp_fifo path)\<rparr>)\<rparr>)"

definition stream_rate :: "'w stream_io \<Rightarrow> u32" where
  "stream_rate h = af_sample_rate (pb_mix_format (si_probe h))"

definition capacities_invalid :: "('w, 'x) runner_env \<Rightarrow> nat \<Rightarrow> nat \<Rightarrow> nat \<Rightarrow> nat \<Rightarrow> bool" where
  "capacities_invalid env block_frames capture_capacity render_capacity fifo_frames \<longleftrightarrow>
     fifo_frames < block_frames \<or> (en_capture env \<noteq> None \<and> capture_capacity = 0) \<or> (en_render env \<noteq> None \<and> render_capacity = 0)"

text \<open>The checks before an adapter is made; both constructors have them.\<close>

definition adapter_invalid :: "('w, 'x) runner_env \<Rightarrow> nat \<Rightarrow> nat \<Rightarrow> nat \<Rightarrow> bool \<Rightarrow> bool" where
  "adapter_invalid env block_frames capture_capacity fifo_frames prime \<longleftrightarrow>
     (case (en_capture env, en_render env) of
        (Some capture, Some render) \<Rightarrow>
          \<not> prime \<or> stream_rate capture = 0 \<or> stream_rate render = 0 \<or>
          (let nominal = f64_div (f64_of_nat (unat (stream_rate render))) (f64_of_nat (unat (stream_rate capture)));
               block = source_frames_for_output (en_unspecified env) block_frames nominal
           in block > fifo_frames \<or> capture_capacity > fifo_frames - block)
      | _ \<Rightarrow> True)"

text \<open>The capture and render paths, the adapter and the silence that primes the render FIFO.\<close>

definition emplace_capture ::
  "('w, 'x) runner_env \<Rightarrow> nat \<Rightarrow> nat \<Rightarrow> nat \<Rightarrow> nat \<Rightarrow> bool \<Rightarrow> 'x graph_runner \<Rightarrow> 'x graph_runner option" where
  "emplace_capture env channels block_frames packet_frames fifo_frames adapt r =
     (case en_capture env of
        None \<Rightarrow> Some r
      | Some capture \<Rightarrow> (case make_buffered_path channels packet_frames fifo_frames of
            None \<Rightarrow> None
          | Some path \<Rightarrow>
              let r = r\<lparr>gr_capture_path := Some path\<rparr>
              in if \<not> adapt then Some r
                 else map_option (\<lambda>a. r\<lparr>gr_adapter := Some a\<rparr>)
                   (make_rate_adapter (en_backend env) (en_unspecified env) channels block_frames fifo_frames (stream_rate capture)
                      (case en_render env of None \<Rightarrow> 0 | Some render \<Rightarrow> stream_rate render))))"

definition emplace_render ::
  "('w, 'x) runner_env \<Rightarrow> nat \<Rightarrow> nat \<Rightarrow> nat \<Rightarrow> nat \<Rightarrow> bool \<Rightarrow> 'x graph_runner \<Rightarrow> 'x graph_runner option" where
  "emplace_render env channels block_frames packet_frames fifo_frames prime r =
     (case en_render env of
        None \<Rightarrow> Some r
      | Some render \<Rightarrow> (case make_buffered_path channels packet_frames fifo_frames of
            None \<Rightarrow> None
          | Some path \<Rightarrow>
              let r = r\<lparr>gr_render_path := Some path,
                    gr_desired_render_fill := render_target_fill_frames (en_period_frames env (si_probe render)) packet_frames
                      block_frames fifo_frames\<rparr>
              in Some (if prime then prime_render_fifo_with_silence r else r)))"

definition plain_runner :: "audio_buffer \<Rightarrow> audio_buffer \<Rightarrow> nat \<Rightarrow> bool \<Rightarrow> 'x graph_runner" where
  "plain_runner input output block_frames render_master =
     \<lparr>gr_input = input, gr_output = output, gr_block_frames = block_frames, gr_desired_render_fill = 0,
      gr_render_master = render_master, gr_capture_path = None, gr_render_path = None, gr_adapter = None, gr_baseline = False,
      gr_external_input_buffer = None, gr_external_output_buffer = None, gr_capture_graph_buffer = None,
      gr_render_graph_buffer = None, gr_layout = no_layout, gr_mapped = False\<rparr>"

definition make_graph_runner :: "nat \<Rightarrow> nat \<Rightarrow> nat \<Rightarrow> nat \<Rightarrow> 'x graph_runner option" where
  "make_graph_runner capture_channels capture_frames render_channels render_frames =
     (case (make_audio_buffer capture_channels capture_frames, make_audio_buffer render_channels render_frames) of
        (Some input, Some output) \<Rightarrow> Some (plain_runner input output 0 False)
      | _ \<Rightarrow> None)"

definition renders_on_its_own :: "('w, 'x) runner_env \<Rightarrow> bool \<Rightarrow> bool" where
  "renders_on_its_own env prime \<longleftrightarrow>
     prime \<or> (en_capture env = None \<and> en_render env \<noteq> None \<and> en_external_input env \<noteq> None)"

definition buffer_if :: "bool \<Rightarrow> nat \<Rightarrow> nat \<Rightarrow> audio_buffer option option" where
  "buffer_if present channels frames = (if present then map_option Some (make_audio_buffer channels frames) else Some None)"

definition make_buffered_runner ::
  "('w, 'x) runner_env \<Rightarrow> nat \<Rightarrow> nat \<Rightarrow> nat \<Rightarrow> nat \<Rightarrow> nat \<Rightarrow> nat \<Rightarrow> bool \<Rightarrow> bool \<Rightarrow> 'x graph_runner option" where
  "make_buffered_runner env input_channels output_channels block_frames capture_capacity render_capacity fifo_frames prime adapt =
     (case (make_audio_buffer input_channels block_frames, make_audio_buffer output_channels block_frames,
            buffer_if (en_external_input env \<noteq> None) input_channels block_frames) of
        (Some input, Some output, Some external) \<Rightarrow>
          if capacities_invalid env block_frames capture_capacity render_capacity fifo_frames then None
          else if adapt \<and> adapter_invalid env block_frames capture_capacity fifo_frames prime then None
          else
            Option.bind
              (emplace_capture env input_channels block_frames capture_capacity fifo_frames adapt
                 ((plain_runner input output block_frames (renders_on_its_own env prime))\<lparr>gr_external_input_buffer := external\<rparr>))
              (emplace_render env output_channels block_frames render_capacity fifo_frames prime)
      | _ \<Rightarrow> None)"

text \<open>Offsets and counts are added in \<^verbatim>\<open>size_t\<close>.\<close>

definition layout_exceeds :: "nat \<Rightarrow> nat \<Rightarrow> nat \<Rightarrow> bool" where
  "layout_exceeds offset channels limit \<longleftrightarrow> (offset + channels) mod 2 ^ 64 > limit"

definition layout_invalid :: "('w, 'x) runner_env \<Rightarrow> nat \<Rightarrow> nat \<Rightarrow> channel_layout \<Rightarrow> bool" where
  "layout_invalid env capture_channels render_channels l \<longleftrightarrow>
     cl_graph_input_channels l = 0 \<or> cl_graph_output_channels l = 0 \<or>
     layout_exceeds (cl_capture_input_offset l) capture_channels (cl_graph_input_channels l) \<or>
     layout_exceeds (cl_external_input_offset l) (cl_external_input_channels l) (cl_graph_input_channels l) \<or>
     layout_exceeds (cl_render_output_offset l) render_channels (cl_graph_output_channels l) \<or>
     layout_exceeds (cl_external_output_offset l) (cl_external_output_channels l) (cl_graph_output_channels l) \<or>
     (en_external_input env \<noteq> None \<and> cl_external_input_channels l = 0) \<or>
     (en_external_output env \<noteq> None \<and> cl_external_output_channels l = 0)"

definition make_mapped_runner ::
  "('w, 'x) runner_env \<Rightarrow> nat \<Rightarrow> nat \<Rightarrow> nat \<Rightarrow> nat \<Rightarrow> nat \<Rightarrow> nat \<Rightarrow> bool \<Rightarrow> bool \<Rightarrow> channel_layout \<Rightarrow> 'x graph_runner option" where
  "make_mapped_runner env capture_channels render_channels block_frames capture_capacity render_capacity fifo_frames prime adapt l =
     (case (make_audio_buffer (cl_graph_input_channels l) block_frames, make_audio_buffer (cl_graph_output_channels l) block_frames,
            buffer_if (en_external_input env \<noteq> None) (cl_external_input_channels l) block_frames,
            buffer_if (en_external_output env \<noteq> None) (cl_external_output_channels l) block_frames,
            buffer_if (en_capture env \<noteq> None) capture_channels block_frames,
            buffer_if (en_render env \<noteq> None) render_channels block_frames) of
        (Some input, Some output, Some external_input, Some external_output, Some capture_graph, Some render_graph) \<Rightarrow>
          if layout_invalid env capture_channels render_channels l \<or>
             capacities_invalid env block_frames capture_capacity render_capacity fifo_frames then None
          else if adapt \<and> adapter_invalid env block_frames capture_capacity fifo_frames prime then None
          else
            Option.bind
              (emplace_capture env capture_channels block_frames capture_capacity fifo_frames adapt
                 ((plain_runner input output block_frames (renders_on_its_own env prime))
                    \<lparr>gr_external_input_buffer := external_input, gr_external_output_buffer := external_output,
                     gr_capture_graph_buffer := capture_graph, gr_render_graph_buffer := render_graph,
                     gr_layout := l, gr_mapped := True\<rparr>))
              (emplace_render env render_channels block_frames render_capacity fifo_frames prime)
      | _ \<Rightarrow> None)"

section \<open>Start and stop\<close>

definition reset_adapter :: "'x src_backend \<Rightarrow> 'x rate_adapter \<Rightarrow> 'x rate_adapter" where
  "reset_adapter b a =
     a\<lparr>ra_resampler := resampler_reset b (ra_resampler a), ra_controller := waterline_reset (ra_controller a),
       ra_output_frames_ready := 0, ra_ratio := ra_nominal_ratio a, ra_correction_clamped := False,
       ra_ratio_set_for_block := False, ra_primed := False, ra_recovery_active := False, ra_preroll_pending := False,
       ra_ever_produced := False\<rparr>"

definition prepare_start :: "('w, 'x) runner_env \<Rightarrow> 'x graph_runner \<Rightarrow> 'x graph_runner" where
  "prepare_start env r =
     (let emptied = map_option (\<lambda>path. path\<lparr>bp_fifo := pf_clear (bp_fifo path)\<rparr>);
          r = r\<lparr>gr_baseline := False, gr_capture_path := emptied (gr_capture_path r), gr_render_path := emptied (gr_render_path r)\<rparr>;
          r = (if gr_render_master r then prime_render_fifo_with_silence r else r)
      in r\<lparr>gr_adapter := map_option (reset_adapter (en_backend env)) (gr_adapter r)\<rparr>)"

definition start_if :: "'w stream_io option \<Rightarrow> 'w \<Rightarrow> stream_error list \<times> 'w" where
  "start_if h w = (case h of None \<Rightarrow> ([], w) | Some h \<Rightarrow> si_start h w)"

definition stop_if :: "'w stream_io option \<Rightarrow> 'w \<Rightarrow> stream_error list \<times> 'w" where
  "stop_if h w = (case h of None \<Rightarrow> ([], w) | Some h \<Rightarrow> si_stop h w)"

definition start_streams :: "('w, 'x) runner_env \<Rightarrow> 'x graph_runner \<Rightarrow> 'w \<Rightarrow> runner_result \<times> 'x graph_runner \<times> 'w" where
  "start_streams env r w =
     (let r = prepare_start env r
      in case start_if (en_capture env) w of (es, w) \<Rightarrow>
        if es \<noteq> [] then (runner_errors es, r, w)
        else case start_if (en_render env) w of (es, w) \<Rightarrow>
          if es \<noteq> []
          then case stop_if (en_capture env) w of (rollback, w) \<Rightarrow> (runner_errors (es @ rollback), r, w)
          else (runner_success no_stats, r, w))"

definition stop_streams :: "('w, 'x) runner_env \<Rightarrow> 'w \<Rightarrow> runner_result \<times> 'w" where
  "stop_streams env w =
     (case stop_if (en_render env) w of (es, w) \<Rightarrow>
        case stop_if (en_capture env) w of (es', w) \<Rightarrow>
          (if es @ es' \<noteq> [] then runner_errors (es @ es') else runner_success no_stats, w))"

definition runner_request_stop :: "('w, 'x) runner_env \<Rightarrow> 'w \<Rightarrow> 'w" where
  "runner_request_stop env w =
     (let request = (\<lambda>h w. case h of None \<Rightarrow> w | Some h \<Rightarrow> si_request_stop h w)
      in request (en_capture env) (request (en_render env) w))"

section \<open>Graph input and output\<close>

text \<open>\<^verbatim>\<open>!=\<close> of \<^verbatim>\<open>float\<close>.\<close>

definition f32_differ :: "f32 \<Rightarrow> f32 \<Rightarrow> bool" where
  "f32_differ x y \<longleftrightarrow> f32_nan x \<or> f32_nan y \<or> (x \<noteq> y \<and> \<not> (f32_is_zero x \<and> f32_is_zero y))"

text \<open>One sample of \<^verbatim>\<open>mix_external_input\<close>: capture and external sample, made zero where they are not finite, and the sum clipped.\<close>

definition mix_sample :: "f32 \<Rightarrow> f32 \<Rightarrow> f32" where
  "mix_sample captured external =
     f32_add (if f32_finite captured then captured else 0) (if f32_finite external then external else 0)"

definition mix_external_sample ::
  "audio_buffer \<Rightarrow> nat \<Rightarrow> nat \<Rightarrow> audio_buffer \<times> runner_stats \<Rightarrow> audio_buffer \<times> runner_stats" where
  "mix_external_sample external channel frame s =
     (case s of (input, st) \<Rightarrow>
        let a = ab_channel input channel ! frame; b = ab_channel external channel ! frame;
            mixed = mix_sample a b; clipped = f32_clamp mixed 0xBF800000 0x3F800000
        in (ab_set_sample channel frame clipped input,
            st\<lparr>st_non_finite_samples := st_non_finite_samples st + of_bool (\<not> f32_finite a) + of_bool (\<not> f32_finite b),
               st_clipped_samples := st_clipped_samples st + of_bool (f32_differ clipped mixed)\<rparr>))"

definition mix_external_channel ::
  "audio_buffer \<Rightarrow> nat \<Rightarrow> audio_buffer \<times> runner_stats \<Rightarrow> audio_buffer \<times> runner_stats" where
  "mix_external_channel external channel s =
     fold (mix_external_sample external channel) [0..<ab_frames (fst s)] s"

text \<open>Reads the external source into its buffer, cleared before.\<close>

definition read_external ::
  "(audio_buffer \<Rightarrow> 'w \<Rightarrow> bool \<times> audio_buffer \<times> 'w) \<Rightarrow> audio_buffer \<Rightarrow> ('w, 'x) cycle \<Rightarrow> bool \<times> audio_buffer \<times> ('w, 'x) cycle" where
  "read_external read buffer c =
     (case read (ab_clear buffer) (cy_world c) of (got, external, w) \<Rightarrow>
        (got, external, c\<lparr>cy_runner := (cy_runner c)\<lparr>gr_external_input_buffer := Some external\<rparr>, cy_world := w\<rparr>))"

definition mix_external_input :: "('w, 'x) runner_env \<Rightarrow> ('w, 'x) cycle \<Rightarrow> ('w, 'x) cycle" where
  "mix_external_input env c =
     (case (en_external_input env, gr_external_input_buffer (cy_runner c)) of
        (Some read, Some buffer) \<Rightarrow>
          (case read_external read buffer c of (got, external, c) \<Rightarrow>
             if \<not> got then c
             else case fold (mix_external_channel external) [0..<ab_channels (gr_input (cy_runner c))]
                 (gr_input (cy_runner c), (cy_stats c)\<lparr>st_external_input_mixed := True\<rparr>) of
               (input, st) \<Rightarrow> c\<lparr>cy_runner := (cy_runner c)\<lparr>gr_input := input\<rparr>, cy_stats := st\<rparr>)
      | _ \<Rightarrow> c)"

definition assemble_mapped_graph_input :: "('w, 'x) runner_env \<Rightarrow> ('w, 'x) cycle \<Rightarrow> ('w, 'x) cycle" where
  "assemble_mapped_graph_input env c =
     (let r = cy_runner c; l = gr_layout r;
          input = ab_clear (gr_input r);
          input = (case gr_capture_graph_buffer r of
                     None \<Rightarrow> input | Some b \<Rightarrow> copy_channels b (cl_capture_input_offset l) input);
          c = c\<lparr>cy_runner := r\<lparr>gr_input := input\<rparr>\<rparr>
      in case (en_external_input env, gr_external_input_buffer r) of
           (Some read, Some buffer) \<Rightarrow>
             (case read_external read buffer c of (got, external, c) \<Rightarrow>
                c\<lparr>cy_runner := (cy_runner c)\<lparr>gr_input := copy_channels external (cl_external_input_offset l) (gr_input (cy_runner c))\<rparr>,
                  cy_stats := (cy_stats c)\<lparr>st_external_input_mixed := st_external_input_mixed (cy_stats c) \<or> got\<rparr>\<rparr>)
         | _ \<Rightarrow> c)"

definition publish_mapped_graph_output :: "('w, 'x) runner_env \<Rightarrow> ('w, 'x) cycle \<Rightarrow> ('w, 'x) cycle" where
  "publish_mapped_graph_output env c =
     (let r = cy_runner c; l = gr_layout r;
          r = r\<lparr>gr_render_graph_buffer :=
                 map_option (extract_channels (gr_output r) (cl_render_output_offset l)) (gr_render_graph_buffer r)\<rparr>;
          c = c\<lparr>cy_runner := r\<rparr>
      in case (en_external_output env, gr_external_output_buffer r) of
           (Some write, Some buffer) \<Rightarrow>
             let block = extract_channels (gr_output r) (cl_external_output_offset l) buffer
             in (case write block (cy_world c) of (published, w) \<Rightarrow>
                   c\<lparr>cy_runner := r\<lparr>gr_external_output_buffer := Some block\<rparr>,
                     cy_stats := (cy_stats c)\<lparr>st_external_output_published := published\<rparr>, cy_world := w\<rparr>)
         | _ \<Rightarrow> c)"

text \<open>The graph runs on the input buffer and writes the output buffer, cleared before.\<close>

definition run_graph :: "('w, 'x) runner_env \<Rightarrow> ('w, 'x) cycle \<Rightarrow> ('w, 'x) cycle" where
  "run_graph env c =
     (case en_elapsed env (cy_world c) of (elapsed, w) \<Rightarrow>
        case graph_process elapsed (gr_input (cy_runner c)) (cy_graph c)
            \<lparr>pb_scratch_a = cy_scratch_a c, pb_scratch_b = cy_scratch_b c, pb_output = ab_clear (gr_output (cy_runner c))\<rparr>
            (cy_diagnostics c) of
          (g, bs, d) \<Rightarrow>
            c\<lparr>cy_runner := (cy_runner c)\<lparr>gr_output := pb_output bs\<rparr>, cy_graph := g, cy_scratch_a := pb_scratch_a bs,
              cy_scratch_b := pb_scratch_b bs, cy_diagnostics := d,
              cy_stats := (cy_stats c)\<lparr>st_graph_processed := True\<rparr>, cy_world := w\<rparr>)"

section \<open>Rendering what is queued\<close>

definition fill_levels :: "('w, 'x) cycle \<Rightarrow> ('w, 'x) cycle" where
  "fill_levels c =
     (let level = (\<lambda>path. case path of None \<Rightarrow> 0 | Some p \<Rightarrow> word_of_nat (pf_available (bp_fifo p)))
      in on_diagnostics (\<lambda>d. d\<lparr>ed_capture_fifo_fill_frames := level (gr_capture_path (cy_runner c)),
           ed_render_fifo_fill_frames := level (gr_render_path (cy_runner c))\<rparr>) c)"

definition export_failed :: "io_result \<Rightarrow> ('w, 'x) cycle \<Rightarrow> flow \<times> ('w, 'x) cycle" where
  "export_failed r c =
     (let e = realtime_error_from r
      in (Return (runner_failure e),
          on_diagnostics (\<lambda>d. d\<lparr>ed_export_failures := record_sample_conversion_failure e (ed_export_failures d)\<rparr>) c))"

definition import_failed :: "io_result \<Rightarrow> ('w, 'x) cycle \<Rightarrow> flow \<times> ('w, 'x) cycle" where
  "import_failed r c =
     (let e = realtime_error_from r
      in (Return (runner_failure e),
          on_diagnostics (\<lambda>d. d\<lparr>ed_import_failures := record_sample_conversion_failure e (ed_import_failures d)\<rparr>) c))"

text \<open>Returns with the statistics as they are.\<close>

definition finish :: "('w, 'x) cycle \<Rightarrow> flow \<times> ('w, 'x) cycle" where
  "finish c = (Return (runner_success (cy_stats c)), c)"

definition cancelled :: "('w, 'x) cycle \<Rightarrow> flow \<times> ('w, 'x) cycle" where
  "cancelled c = finish (on_stats (\<lambda>s. s\<lparr>st_cancelled := True\<rparr>) c)"

text \<open>\<open>coordinated\<close>: the cycle has already waited for the events of both streams.\<close>

definition submit_queued_render ::
  "'w stream_io \<Rightarrow> bool \<Rightarrow> u32 \<Rightarrow> buffered_path \<Rightarrow> ('w, 'x) cycle \<Rightarrow> flow \<times> ('w, 'x) cycle" where
  "submit_queued_render render coordinated timeout path c =
     (case pf_peek (ab_clear (bp_packet path)) (ab_frames (bp_packet path)) (bp_fifo path) of (staged, packet) \<Rightarrow>
        case si_render_once render packet (word_of_nat staged) timeout (cy_world c) of (r, w) \<Rightarrow>
          let path = path\<lparr>bp_packet := packet\<rparr>;
              c = c\<lparr>cy_runner := (cy_runner c)\<lparr>gr_render_path := Some path\<rparr>, cy_world := w\<rparr>
          in if \<not> io_ok r then export_failed r c
             else if io_cancelled r then cancelled (fill_levels c)
             else if unat (io_frames r) > staged
             then (Return (runner_failure (realtime_error_of RenderCommittedTooManyFrames 0 0)), c)
             else case pf_consume (unat (io_frames r)) (bp_fifo path) of (rendered, fifo) \<Rightarrow>
               let some_left = (rendered > 0 \<and> rendered < staged)
               in (Next,
                   c\<lparr>cy_runner := (cy_runner c)\<lparr>gr_render_path := Some (path\<lparr>bp_fifo := fifo\<rparr>)\<rparr>,
                     cy_stats := (cy_stats c)
                       \<lparr>st_rendered_frames := word_of_nat rendered, st_render_idle := (rendered = 0),
                        st_render_wait_timed_out := (\<not> coordinated \<and> io_timed_out r), st_render_partial := some_left,
                        st_render_partial_frames := (if some_left then word_of_nat (staged - rendered) else 0)\<rparr>\<rparr>))"

section \<open>Capturing packets\<close>

definition start_recovery :: "'x src_backend \<Rightarrow> 'x rate_adapter \<Rightarrow> 'x rate_adapter" where
  "start_recovery b a =
     a\<lparr>ra_resampler := resampler_reset b (ra_resampler a), ra_output_frames_ready := 0, ra_ratio := ra_nominal_ratio a,
       ra_correction_clamped := False, ra_ratio_set_for_block := False, ra_primed := False, ra_recovery_active := True,
       ra_preroll_pending := True\<rparr>"

text \<open>The accounting of a packet with frames, and what a gap in the data does to the FIFO and the adapter.\<close>

definition account_packet :: "'x src_backend \<Rightarrow> io_result \<Rightarrow> buffered_path \<Rightarrow> ('w, 'x) cycle \<Rightarrow> buffered_path \<times> ('w, 'x) cycle" where
  "account_packet b r path c =
     (let gap = (gr_baseline (cy_runner c) \<and> io_data_discontinuity r); st = cy_stats c;
          st = st\<lparr>st_captured_frames := st_captured_frames st + io_frames r,
                  st_capture_silent := st_capture_silent st \<or> io_silent r,
                  st_data_discontinuity := st_data_discontinuity st \<or> gap,
                  st_timestamp_error := st_timestamp_error st \<or> io_timestamp_error r,
                  st_capture_silent_frames := st_capture_silent_frames st + (if io_silent r then io_frames r else 0)\<rparr>;
          c = c\<lparr>cy_runner := (cy_runner c)\<lparr>gr_baseline := True\<rparr>, cy_stats := st\<rparr>
      in if \<not> gap then (path, c)
         else
           let c = on_diagnostics (\<lambda>d. d\<lparr>ed_xrun_count := ed_xrun_count d + 1\<rparr>) c
           in case gr_adapter (cy_runner c) of
                None \<Rightarrow> (path, c)
              | Some a \<Rightarrow>
                  (path\<lparr>bp_fifo := pf_clear (bp_fifo path)\<rparr>,
                   c\<lparr>cy_runner := (cy_runner c)\<lparr>gr_adapter := Some (start_recovery b a)\<rparr>,
                     cy_stats := (cy_stats c)\<lparr>st_rate_adapter_reset := True, st_rate_adapter_recovering := True\<rparr>\<rparr>))"

definition queue_packet :: "io_result \<Rightarrow> buffered_path \<Rightarrow> ('w, 'x) cycle \<Rightarrow> ('w, 'x) cycle" where
  "queue_packet r path c =
     (case pf_push (bp_packet path) (unat (io_frames r)) (bp_fifo path) of (queued, fifo) \<Rightarrow>
        let c = on_runner (\<lambda>g. g\<lparr>gr_capture_path := Some (path\<lparr>bp_fifo := fifo\<rparr>)\<rparr>) c
        in if queued < unat (io_frames r)
           then on_diagnostics (\<lambda>d. d\<lparr>ed_capture_fifo_overflow_cycles := ed_capture_fifo_overflow_cycles d + 1,
                  ed_capture_fifo_overflow_frames := ed_capture_fifo_overflow_frames d + word_of_nat (unat (io_frames r) - queued),
                  ed_xrun_count := ed_xrun_count d + 1\<rparr>) c
           else c)"

definition capture_one ::
  "'x src_backend \<Rightarrow> 'w stream_io \<Rightarrow> u32 \<Rightarrow> buffered_path \<Rightarrow> ('w, 'x) cycle \<Rightarrow> flow \<times> ('w, 'x) cycle" where
  "capture_one b capture timeout path c =
     (let master = gr_render_master (cy_runner c)
      in if master \<and> pf_free_frames (bp_fifo path) < ab_frames (bp_packet path) then (Leave, c)
         else case si_capture_once capture (if master then 0 else timeout) (ab_clear (bp_packet path)) (cy_world c) of
           (r, packet, w) \<Rightarrow>
             let path = path\<lparr>bp_packet := packet\<rparr>;
                 c = c\<lparr>cy_runner := (cy_runner c)\<lparr>gr_capture_path := Some path\<rparr>, cy_world := w\<rparr>
             in if \<not> io_ok r then import_failed r c
                else if io_cancelled r then cancelled c
                else if io_frames r = 0
                then (Leave, on_stats (\<lambda>s. s\<lparr>st_capture_wait_timed_out := (\<not> master \<and> io_timed_out r)\<rparr>) c)
                else case account_packet b r path c of (path, c) \<Rightarrow> (Next, queue_packet r path c))"

fun capture_packets ::
  "'x src_backend \<Rightarrow> 'w stream_io \<Rightarrow> u32 \<Rightarrow> nat \<Rightarrow> ('w, 'x) cycle \<Rightarrow> flow \<times> ('w, 'x) cycle" where
  "capture_packets b capture timeout 0 c = (Next, c)"
| "capture_packets b capture timeout (Suc n) c =
     (case gr_capture_path (cy_runner c) of
        None \<Rightarrow> (Next, c)
      | Some path \<Rightarrow> (case capture_one b capture timeout path c of
            (Next, c) \<Rightarrow> capture_packets b capture timeout n c
          | (Leave, c) \<Rightarrow> (Next, c)
          | (Return r, c) \<Rightarrow> (Return r, c)))"

definition kMaximumCapturePacketsPerCycle :: nat where
  "kMaximumCapturePacketsPerCycle = 8"

definition capture_phase :: "('w, 'x) runner_env \<Rightarrow> u32 \<Rightarrow> ('w, 'x) cycle \<Rightarrow> flow \<times> ('w, 'x) cycle" where
  "capture_phase env timeout c =
     (case en_capture env of
        None \<Rightarrow> (Next, c)
      | Some capture \<Rightarrow>
          (case capture_packets (en_backend env) capture timeout
              (if gr_render_master (cy_runner c) then kMaximumCapturePacketsPerCycle else 1) c of
             (Next, c) \<Rightarrow> (Next, on_stats (\<lambda>s. s\<lparr>st_capture_idle := (st_captured_frames s = 0)\<rparr>) c)
           | (f, c) \<Rightarrow> (f, c)))"

section \<open>The rate adapter\<close>

text \<open>
  After a gap the resampler is fed with the oldest frame of the FIFO, repeated for up to two nominal blocks, and what
  it makes of them is thrown away: at most eight passes.
\<close>

definition preroll_length :: "nat \<Rightarrow> nat \<Rightarrow> 'x rate_adapter \<Rightarrow> nat" where
  "preroll_length unspecified block_frames a =
     (let capacity = ab_frames (ra_source_planar a);
          nominal = source_frames_for_output unspecified block_frames (ra_nominal_ratio a)
      in nominal + (if capacity > nominal then min nominal (capacity - nominal) else 0))"

definition fill_edge :: "nat \<Rightarrow> nat \<Rightarrow> audio_buffer \<Rightarrow> audio_buffer" where
  "fill_edge channels frames planar =
     fold (\<lambda>channel b. ab_put_channel (replicate frames (ab_channel b channel ! 0)) channel b) [0..<channels] planar"

fun preroll_passes ::
  "'x src_backend \<Rightarrow> nat \<Rightarrow> nat \<Rightarrow> nat \<Rightarrow> nat \<Rightarrow> nat \<Rightarrow> 'x rate_adapter \<Rightarrow> nat option \<times> 'x rate_adapter" where
  "preroll_passes b 0 block_frames channels preroll used a = (Some used, a)"
| "preroll_passes b (Suc n) block_frames channels preroll used a =
     (if used \<ge> preroll then (Some used, a)
      else
        let remaining = preroll - used;
            input = take (remaining * channels) (drop (used * channels) (ra_source_interleaved a))
        in case resampler_process b input (word_of_nat remaining) (ra_output_interleaved a) (word_of_nat block_frames)
            (ra_nominal_ratio a) False (ra_resampler a) of (r, output, x) \<Rightarrow>
          let a = a\<lparr>ra_output_interleaved := output, ra_resampler := x\<rparr>
          in if \<not> resampler_ok r then (None, a)
             else if rp_input_frames_used r = 0 \<and> rp_output_frames_generated r = 0 then (Some used, a)
             else preroll_passes b n block_frames channels preroll (used + unat (rp_input_frames_used r)) a)"

definition kMaximumPrerollPasses :: nat where
  "kMaximumPrerollPasses = 8"

definition with_adapter :: "'x rate_adapter \<Rightarrow> ('w, 'x) cycle \<Rightarrow> ('w, 'x) cycle" where
  "with_adapter a c = on_runner (\<lambda>r. r\<lparr>gr_adapter := Some a\<rparr>) c"

definition preroll_phase ::
  "('w, 'x) runner_env \<Rightarrow> buffered_path \<Rightarrow> 'x rate_adapter \<Rightarrow> ('w, 'x) cycle \<Rightarrow> flow \<times> ('w, 'x) cycle" where
  "preroll_phase env path a c =
     (if \<not> ra_preroll_pending a then (Next, c)
      else
        let block_frames = gr_block_frames (cy_runner c); channels = ab_channels (bp_packet path);
            preroll = preroll_length (en_unspecified env) block_frames a;
            planar = fill_edge channels preroll (snd (pf_peek (ra_source_planar a) 1 (bp_fifo path)));
            a = a\<lparr>ra_source_planar := planar,
                  ra_source_interleaved := interleave_planar planar preroll (ra_source_interleaved a)\<rparr>
        in case preroll_passes (en_backend env) kMaximumPrerollPasses block_frames channels preroll 0 a of
             (None, a) \<Rightarrow> (Return (runner_failure (realtime_error_of CaptureResamplerPrerollFailed 0 0)), with_adapter a c)
           | (Some used, a) \<Rightarrow>
               if used \<noteq> preroll
               then (Return (runner_failure (realtime_error_of CaptureResamplerPrerollStalled 0 0)), with_adapter a c)
               else (Next, with_adapter (a\<lparr>ra_preroll_pending := False\<rparr>) c))"

text \<open>The ratio of a block is set once, from the level of the FIFO and the correction of the clocks.\<close>

definition set_block_ratio ::
  "f64 \<Rightarrow> nat \<Rightarrow> u32 \<Rightarrow> nat \<Rightarrow> 'x rate_adapter \<times> runner_stats \<Rightarrow> 'x rate_adapter \<times> runner_stats" where
  "set_block_ratio feed_forward block_frames graph_rate available s =
     (case s of (a, st) \<Rightarrow>
        if ra_ratio_set_for_block a then (a, st)
        else
          let elapsed = f64_div (f64_of_nat block_frames) (f64_of_nat (unat graph_rate))
          in case waterline_update (f64_of_nat available) elapsed (ra_controller a) of (fifo_correction, controller) \<Rightarrow>
            let unbounded = f64_add feed_forward fifo_correction;
                correction = f64_clamp unbounded (f64_neg kMaximumCaptureRateCorrectionPpm) kMaximumCaptureRateCorrectionPpm;
                ratio = f64_div (ra_nominal_ratio a) (f64_add f64_one (f64_mul correction 0x3EB0C6F7A0B5ED8D));
                clamped = capture_rate_correction_clamped unbounded
            in (a\<lparr>ra_controller := controller, ra_ratio := ratio, ra_correction_clamped := clamped, ra_ratio_set_for_block := True\<rparr>,
                st\<lparr>st_rate_correction_ppm := correction, st_clock_feed_forward_ppm := feed_forward,
                   st_fifo_correction_ppm := fifo_correction, st_resampler_ratio := ratio,
                   st_rate_correction_clamped := st_rate_correction_clamped st \<or> clamped\<rparr>))"

text \<open>The frames offered to the resampler, after it has been asked for what it still holds.\<close>

definition offered_frames :: "nat \<Rightarrow> nat \<Rightarrow> nat \<Rightarrow> 'x rate_adapter \<Rightarrow> nat" where
  "offered_frames unspecified available block_frames a =
     (let nominal = source_frames_for_output unspecified (block_frames - ra_output_frames_ready a) (ra_ratio a);
          limit = (if nominal < ab_frames (ra_source_planar a) then nominal + 1 else ab_frames (ra_source_planar a))
      in min available limit)"

definition stage_source :: "nat \<Rightarrow> planar_fifo \<Rightarrow> 'x rate_adapter \<Rightarrow> 'x rate_adapter" where
  "stage_source frames q a =
     (let planar = snd (pf_peek (ra_source_planar a) frames q)
      in a\<lparr>ra_source_planar := planar, ra_source_interleaved := interleave_planar planar frames (ra_source_interleaved a)\<rparr>)"

text \<open>One run of the resampler on the frames staged; its output goes behind the frames that are ready.\<close>

definition resample_staged ::
  "'x src_backend \<Rightarrow> nat \<Rightarrow> nat \<Rightarrow> nat \<Rightarrow> 'x rate_adapter \<Rightarrow> resampler_result \<times> 'x rate_adapter" where
  "resample_staged b block_frames channels frames a =
     (let offset = ra_output_frames_ready a * channels
      in case resampler_process b (take (frames * channels) (ra_source_interleaved a)) (word_of_nat frames)
          (drop offset (ra_output_interleaved a)) (word_of_nat (block_frames - ra_output_frames_ready a)) (ra_ratio a) False
          (ra_resampler a) of (r, output, x) \<Rightarrow>
        (r, a\<lparr>ra_output_interleaved := take offset (ra_output_interleaved a) @ output, ra_resampler := x\<rparr>))"

definition drain_pass ::
  "('w, 'x) runner_env \<Rightarrow> bool \<Rightarrow> buffered_path \<Rightarrow> 'x rate_adapter \<Rightarrow> ('w, 'x) cycle \<Rightarrow> flow \<times> ('w, 'x) cycle" where
  "drain_pass env attempted path a c =
     (let block_frames = gr_block_frames (cy_runner c); channels = ab_channels (bp_packet path);
          available = pf_available (bp_fifo path)
      in case set_block_ratio (en_feed_forward env (cy_world c)) block_frames (g_sample_rate (cy_graph c)) available
          (a, cy_stats c) of (a, st) \<Rightarrow>
        let c = with_adapter a (c\<lparr>cy_stats := st\<rparr>);
            source_frames = (if attempted then offered_frames (en_unspecified env) available block_frames a else 0)
        in if attempted \<and> available = 0 then (Leave, c)
           else case resample_staged (en_backend env) block_frames channels source_frames
               (if attempted then stage_source source_frames (bp_fifo path) a else a) of (r, a) \<Rightarrow>
             if \<not> resampler_ok r
             then (Return (runner_failure (realtime_error_of CaptureResamplerFailed 0 0)), with_adapter a c)
             else
               let used = rp_input_frames_used r; generated = rp_output_frames_generated r;
                   a = a\<lparr>ra_output_frames_ready := ra_output_frames_ready a + unat generated\<rparr>;
                   c = with_adapter a c;
                   c = on_runner (\<lambda>g. g\<lparr>gr_capture_path := Some (path\<lparr>bp_fifo := snd (pf_consume (unat used) (bp_fifo path))\<rparr>)\<rparr>) c;
                   c = on_stats (\<lambda>s. s\<lparr>st_resampler_input_frames := st_resampler_input_frames s + used,
                         st_resampler_output_frames := st_resampler_output_frames s + generated\<rparr>) c
               in (if used = 0 \<and> generated = 0 \<and> source_frames \<noteq> 0 then Leave else Next, c))"

text \<open>
  The loop that fills the block. Every pass after the first consumes a frame of the FIFO or makes a frame of the
  block, or the loop ends; the fuel is one more than both together.
\<close>

fun drain_loop :: "('w, 'x) runner_env \<Rightarrow> nat \<Rightarrow> bool \<Rightarrow> ('w, 'x) cycle \<Rightarrow> flow \<times> ('w, 'x) cycle" where
  "drain_loop env 0 attempted c = (Next, c)"
| "drain_loop env (Suc fuel) attempted c =
     (case (gr_capture_path (cy_runner c), gr_adapter (cy_runner c)) of
        (Some path, Some a) \<Rightarrow>
          if ra_output_frames_ready a \<ge> gr_block_frames (cy_runner c) then (Next, c)
          else (case drain_pass env attempted path a c of
              (Next, c) \<Rightarrow> drain_loop env fuel True c
            | (Leave, c) \<Rightarrow> (Next, c)
            | (Return r, c) \<Rightarrow> (Return r, c))
      | _ \<Rightarrow> (Next, c))"

definition drain_fuel :: "('w, 'x) cycle \<Rightarrow> nat" where
  "drain_fuel c =
     (case (gr_capture_path (cy_runner c), gr_adapter (cy_runner c)) of
        (Some path, Some a) \<Rightarrow>
          pf_available (bp_fifo path) + (gr_block_frames (cy_runner c) - ra_output_frames_ready a) + 2
      | _ \<Rightarrow> 0)"

text \<open>Where a block from the capture side goes: to its own buffer when the channels are mapped, else to the input.\<close>

definition capture_destination :: "'x graph_runner \<Rightarrow> audio_buffer" where
  "capture_destination r =
     (if gr_mapped r then (case gr_capture_graph_buffer r of None \<Rightarrow> gr_input r | Some b \<Rightarrow> b) else gr_input r)"

definition set_capture_destination :: "audio_buffer \<Rightarrow> 'x graph_runner \<Rightarrow> 'x graph_runner" where
  "set_capture_destination b r = (if gr_mapped r then r\<lparr>gr_capture_graph_buffer := Some b\<rparr> else r\<lparr>gr_input := b\<rparr>)"

definition adapter_block ::
  "('w, 'x) runner_env \<Rightarrow> buffered_path \<Rightarrow> 'x rate_adapter \<Rightarrow> ('w, 'x) cycle \<Rightarrow> flow \<times> ('w, 'x) cycle" where
  "adapter_block env path a c =
     (if \<not> ra_primed a \<and> pf_available (bp_fifo path) < ra_target_fill_frames a then (Leave, c)
      else
        let a = a\<lparr>ra_primed := True\<rparr>
        in case preroll_phase env path a (with_adapter a c) of
             (Next, c) \<Rightarrow> (case drain_loop env (drain_fuel c) False c of
                 (Return r, c) \<Rightarrow> (Return r, c)
               | (_, c) \<Rightarrow> (case gr_adapter (cy_runner c) of
                     None \<Rightarrow> (Leave, c)
                   | Some a \<Rightarrow>
                       if ra_output_frames_ready a < gr_block_frames (cy_runner c) then (Leave, c)
                       else (Next, on_runner (\<lambda>r. set_capture_destination
                              (deinterleave_planar (ra_output_interleaved a) (gr_block_frames r) (capture_destination r)) r) c)))
           | (f, c) \<Rightarrow> (f, c))"

text \<open>A block of captured frames, through the adapter or straight from the FIFO, then the external input.\<close>

definition captured_block :: "('w, 'x) runner_env \<Rightarrow> buffered_path \<Rightarrow> ('w, 'x) cycle \<Rightarrow> flow \<times> ('w, 'x) cycle" where
  "captured_block env path c =
     (let r = cy_runner c
      in case (case gr_adapter r of
                 Some a \<Rightarrow> adapter_block env path a c
               | None \<Rightarrow>
                   if pf_available (bp_fifo path) < gr_block_frames r then (Leave, c)
                   else case pf_pop (capture_destination r) (gr_block_frames r) (bp_fifo path) of (_, block, fifo) \<Rightarrow>
                     (Next, c\<lparr>cy_runner := set_capture_destination block (r\<lparr>gr_capture_path := Some (path\<lparr>bp_fifo := fifo\<rparr>)\<rparr>)\<rparr>)) of
           (Next, c) \<Rightarrow>
             (Next, if gr_mapped (cy_runner c) then assemble_mapped_graph_input env c else mix_external_input env c)
         | (f, c) \<Rightarrow> (f, c))"

definition external_block ::
  "(audio_buffer \<Rightarrow> 'w \<Rightarrow> bool \<times> audio_buffer \<times> 'w) \<Rightarrow> ('w, 'x) cycle \<Rightarrow> flow \<times> ('w, 'x) cycle" where
  "external_block read c =
     (let r = cy_runner c
      in if gr_mapped r
         then (case gr_external_input_buffer r of
             None \<Rightarrow> (Leave, c)
           | Some buffer \<Rightarrow> (case read_external read buffer c of (got, external, c) \<Rightarrow>
               if \<not> got then (Leave, c)
               else (Next,
                 c\<lparr>cy_runner := (cy_runner c)\<lparr>gr_input :=
                      copy_channels external (cl_external_input_offset (gr_layout (cy_runner c))) (ab_clear (gr_input (cy_runner c)))\<rparr>,
                   cy_stats := (cy_stats c)\<lparr>st_external_input_mixed := True\<rparr>\<rparr>)))
         else (case read (gr_input r) (cy_world c) of (got, input, w) \<Rightarrow>
             (if got then Next else Leave, c\<lparr>cy_runner := r\<lparr>gr_input := input\<rparr>, cy_world := w\<rparr>)))"

section \<open>One block of the graph\<close>

text \<open>No capture frames came in this cycle and there are none for a block, but the external source is mapped beside them.\<close>

definition external_stands_in :: "('w, 'x) runner_env \<Rightarrow> buffered_path \<Rightarrow> ('w, 'x) cycle \<Rightarrow> bool" where
  "external_stands_in env path c \<longleftrightarrow>
     (let r = cy_runner c
      in gr_mapped r \<and> en_external_input env \<noteq> None \<and> st_capture_idle (cy_stats c) \<and>
         pf_available (bp_fifo path) < gr_block_frames r \<and>
         (case gr_adapter r of None \<Rightarrow> True | Some a \<Rightarrow> ra_output_frames_ready a < gr_block_frames r))"

text \<open>The input of a block, and whether it comes from the external source alone.\<close>

definition block_input :: "('w, 'x) runner_env \<Rightarrow> ('w, 'x) cycle \<Rightarrow> bool \<times> flow \<times> ('w, 'x) cycle" where
  "block_input env c =
     (case gr_capture_path (cy_runner c) of
        Some path \<Rightarrow>
          if external_stands_in env path c
          then
            let c = assemble_mapped_graph_input env
                  (on_runner (\<lambda>r. r\<lparr>gr_capture_graph_buffer := map_option ab_clear (gr_capture_graph_buffer r)\<rparr>) c)
            in (True, if st_external_input_mixed (cy_stats c) then Next else Leave, c)
          else (False, captured_block env path c)
      | None \<Rightarrow> (case en_external_input env of
            Some read \<Rightarrow> (False, external_block read c)
          | None \<Rightarrow> (False, Next, c)))"

definition adapter_delivered :: "('w, 'x) cycle \<Rightarrow> ('w, 'x) cycle" where
  "adapter_delivered c =
     (case gr_adapter (cy_runner c) of
        None \<Rightarrow> c
      | Some a \<Rightarrow>
          on_stats (\<lambda>s. s\<lparr>st_rate_adapter_recovering := False\<rparr>)
            (with_adapter (a\<lparr>ra_ever_produced := True, ra_output_frames_ready := 0, ra_ratio_set_for_block := False,
               ra_recovery_active := False\<rparr>) c))"

definition queue_block :: "('w, 'x) cycle \<Rightarrow> ('w, 'x) cycle" where
  "queue_block c =
     (let r = cy_runner c
      in case gr_render_path r of
           None \<Rightarrow> c
         | Some path \<Rightarrow>
             let source = (if gr_mapped r then (case gr_render_graph_buffer r of None \<Rightarrow> gr_output r | Some b \<Rightarrow> b) else gr_output r)
             in case pf_push source (gr_block_frames r) (bp_fifo path) of (queued, fifo) \<Rightarrow>
               let c = c\<lparr>cy_runner := r\<lparr>gr_render_path := Some (path\<lparr>bp_fifo := fifo\<rparr>)\<rparr>\<rparr>
               in if queued \<noteq> gr_block_frames r
                  then on_diagnostics (\<lambda>d. d\<lparr>ed_render_fifo_overflow_cycles := ed_render_fifo_overflow_cycles d + 1,
                         ed_render_fifo_overflow_frames := ed_render_fifo_overflow_frames d + word_of_nat (gr_block_frames r - queued),
                         ed_xrun_count := ed_xrun_count d + 1\<rparr>) c
                  else c)"

definition block_output :: "('w, 'x) runner_env \<Rightarrow> bool \<Rightarrow> ('w, 'x) cycle \<Rightarrow> flow \<times> ('w, 'x) cycle" where
  "block_output env external_only c =
     (case validate_graph_shape_realtime (cy_graph c) (gr_input (cy_runner c)) (gr_output (cy_runner c)) of
        Some e \<Rightarrow> (Return (runner_failure e), c)
      | None \<Rightarrow>
          let c = run_graph env c;
              c = (if gr_mapped (cy_runner c) then publish_mapped_graph_output env c else c);
              c = (if external_only then c else adapter_delivered c)
          in (Next, queue_block c))"

definition render_has_space :: "bool \<Rightarrow> nat \<Rightarrow> 'x graph_runner \<Rightarrow> bool" where
  "render_has_space fill desired r =
     (case gr_render_path r of
        None \<Rightarrow> True
      | Some path \<Rightarrow> pf_free_frames (bp_fifo path) \<ge> gr_block_frames r \<and> (\<not> fill \<or> pf_available (bp_fifo path) < desired))"

definition graph_block :: "('w, 'x) runner_env \<Rightarrow> bool \<Rightarrow> nat \<Rightarrow> ('w, 'x) cycle \<Rightarrow> flow \<times> ('w, 'x) cycle" where
  "graph_block env fill desired c =
     (if \<not> render_has_space fill desired (cy_runner c) then (Leave, c)
      else case block_input env c of
          (external_only, Next, c) \<Rightarrow> block_output env external_only c
        | (_, f, c) \<Rightarrow> (f, c))"

fun graph_blocks :: "('w, 'x) runner_env \<Rightarrow> bool \<Rightarrow> nat \<Rightarrow> nat \<Rightarrow> ('w, 'x) cycle \<Rightarrow> flow \<times> ('w, 'x) cycle" where
  "graph_blocks env fill desired 0 c = (Next, c)"
| "graph_blocks env fill desired (Suc n) c =
     (case graph_block env fill desired c of
        (Next, c) \<Rightarrow> graph_blocks env fill desired n c
      | (Leave, c) \<Rightarrow> (Next, c)
      | (Return r, c) \<Rightarrow> (Return r, c))"

definition kMaximumGraphBlocksPerCycle :: nat where
  "kMaximumGraphBlocksPerCycle = 64"

definition desired_fill :: "'x graph_runner \<Rightarrow> nat" where
  "desired_fill r =
     (if gr_render_master r then gr_desired_render_fill r
      else case gr_render_path r of
          None \<Rightarrow> 0
        | Some path \<Rightarrow> min (pf_capacity (bp_fifo path)) (ab_frames (bp_packet path)))"

definition fills_render_packet :: "('w, 'x) runner_env \<Rightarrow> 'x graph_runner \<Rightarrow> bool" where
  "fills_render_packet env r \<longleftrightarrow> gr_render_path r \<noteq> None \<and> (gr_render_master r \<or> en_external_input env \<noteq> None)"

definition graph_limit :: "('w, 'x) runner_env \<Rightarrow> 'x graph_runner \<Rightarrow> nat" where
  "graph_limit env r =
     (if fills_render_packet env r
      then min kMaximumGraphBlocksPerCycle ((desired_fill r + gr_block_frames r - 1) div gr_block_frames r)
      else case (gr_capture_path r, gr_render_path r) of
          (Some path, None) \<Rightarrow>
            let ready = min kMaximumGraphBlocksPerCycle (pf_available (bp_fifo path) div gr_block_frames r)
            in if ready = 0 \<and> en_external_input env \<noteq> None then 1 else ready
        | _ \<Rightarrow> 1)"

definition graph_phase :: "('w, 'x) runner_env \<Rightarrow> ('w, 'x) cycle \<Rightarrow> flow \<times> ('w, 'x) cycle" where
  "graph_phase env c =
     (let c = fill_levels c
      in graph_blocks env (fills_render_packet env (cy_runner c)) (desired_fill (cy_runner c)) (graph_limit env (cy_runner c)) c)"

section \<open>A cycle\<close>

text \<open>Nothing was queued and nothing is: a render master gets a packet of silence.\<close>

definition account_silence :: "('w, 'x) runner_env \<Rightarrow> u32 \<Rightarrow> ('w, 'x) cycle \<Rightarrow> ('w, 'x) cycle" where
  "account_silence env rendered c =
     (let c = (if en_capture env = None \<and> en_external_input env \<noteq> None then c
               else on_diagnostics (\<lambda>d. d\<lparr>ed_render_fifo_underflow_cycles := ed_render_fifo_underflow_cycles d + 1,
                      ed_render_fifo_underflow_frames := ed_render_fifo_underflow_frames d + ucast rendered\<rparr>) c)
      in case gr_adapter (cy_runner c) of
           None \<Rightarrow> c
         | Some a \<Rightarrow>
             if ra_recovery_active a
             then on_stats (\<lambda>s. s\<lparr>st_recovery_silence := True, st_recovery_silence_frames := rendered\<rparr>) c
             else if \<not> ra_ever_produced a
             then on_stats (\<lambda>s. s\<lparr>st_startup_silence := True, st_startup_silence_frames := rendered\<rparr>) c
             else on_stats (\<lambda>s. s\<lparr>st_starvation_silence := True, st_starvation_silence_frames := rendered\<rparr>) c)"

definition render_silence ::
  "('w, 'x) runner_env \<Rightarrow> 'w stream_io \<Rightarrow> bool \<Rightarrow> u32 \<Rightarrow> buffered_path \<Rightarrow> ('w, 'x) cycle \<Rightarrow> flow \<times> ('w, 'x) cycle" where
  "render_silence env render coordinated timeout path c =
     (let packet = ab_clear (bp_packet path)
      in case si_render_once render packet (word_of_nat (ab_frames packet)) timeout (cy_world c) of (r, w) \<Rightarrow>
        let c = c\<lparr>cy_runner := (cy_runner c)\<lparr>gr_render_path := Some (path\<lparr>bp_packet := packet\<rparr>)\<rparr>, cy_world := w\<rparr>
        in if \<not> io_ok r then export_failed r c
           else if io_cancelled r then cancelled c
           else
             let c = on_stats (\<lambda>s. s\<lparr>st_rendered_frames := io_frames r, st_render_idle := (io_frames r = 0),
                   st_render_wait_timed_out := (\<not> coordinated \<and> io_timed_out r)\<rparr>) c
             in (Next, if io_frames r > 0 then account_silence env (io_frames r) c else c))"

definition late_render ::
  "('w, 'x) runner_env \<Rightarrow> bool \<Rightarrow> u32 \<Rightarrow> ('w, 'x) cycle \<Rightarrow> flow \<times> ('w, 'x) cycle" where
  "late_render env coordinated timeout c =
     (case (en_render env, gr_render_path (cy_runner c)) of
        (Some render, Some path) \<Rightarrow>
          if pf_available (bp_fifo path) > 0 then submit_queued_render render coordinated timeout path c
          else if \<not> gr_render_master (cy_runner c)
          then
            let c = on_stats (\<lambda>s. s\<lparr>st_render_idle := True\<rparr>) c;
                c = on_diagnostics (\<lambda>d. d\<lparr>ed_render_fifo_underflow_cycles := ed_render_fifo_underflow_cycles d + 1,
                      ed_render_fifo_underflow_frames :=
                        ed_render_fifo_underflow_frames d + word_of_nat (gr_block_frames (cy_runner c))\<rparr>) c
            in finish (fill_levels c)
          else render_silence env render coordinated timeout path c
      | _ \<Rightarrow> (Next, c))"

text \<open>What was queued when the cycle began is rendered first.\<close>

definition early_render ::
  "('w, 'x) runner_env \<Rightarrow> bool \<Rightarrow> u32 \<Rightarrow> ('w, 'x) cycle \<Rightarrow> bool \<times> flow \<times> ('w, 'x) cycle" where
  "early_render env coordinated timeout c =
     (case (en_render env, gr_render_path (cy_runner c)) of
        (Some render, Some path) \<Rightarrow>
          if gr_render_master (cy_runner c) \<and> pf_available (bp_fifo path) > 0
          then (True, submit_queued_render render coordinated timeout path c)
          else (False, Next, c)
      | _ \<Rightarrow> (False, Next, c))"

text \<open>A step and what follows it when it goes on.\<close>

definition and_then ::
  "(('w, 'x) cycle \<Rightarrow> flow \<times> ('w, 'x) cycle) \<Rightarrow> (('w, 'x) cycle \<Rightarrow> flow \<times> ('w, 'x) cycle) \<Rightarrow> ('w, 'x) cycle \<Rightarrow> flow \<times> ('w, 'x) cycle" where
  "and_then first_step next_step c =
     (case first_step c of (Return r, c) \<Rightarrow> (Return r, c) | (_, c) \<Rightarrow> next_step c)"

definition initial_stats :: "f64 \<Rightarrow> 'x graph_runner \<Rightarrow> runner_stats" where
  "initial_stats feed_forward r =
     (case gr_adapter r of
        None \<Rightarrow> no_stats
      | Some a \<Rightarrow>
          let fifo_correction = wl_correction_ppm (ra_controller a);
              unbounded = f64_add feed_forward fifo_correction
          in no_stats\<lparr>st_rate_adapter_active := True, st_clock_feed_forward_ppm := feed_forward,
               st_fifo_correction_ppm := fifo_correction,
               st_rate_correction_ppm :=
                 f64_clamp unbounded (f64_neg kMaximumCaptureRateCorrectionPpm) kMaximumCaptureRateCorrectionPpm,
               st_rate_correction_clamped := ra_correction_clamped a, st_resampler_ratio := ra_ratio a,
               st_rate_adapter_recovering := ra_recovery_active a\<rparr>)"

definition buffered_steps :: "('w, 'x) runner_env \<Rightarrow> bool \<Rightarrow> u32 \<Rightarrow> ('w, 'x) cycle \<Rightarrow> flow \<times> ('w, 'x) cycle" where
  "buffered_steps env coordinated timeout c =
     (let render_timeout = (if coordinated then 0 else timeout)
      in case early_render env coordinated render_timeout c of (queued_at_entry, f, c) \<Rightarrow>
        and_then (\<lambda>c. (f, c))
          (and_then (capture_phase env timeout)
            (and_then (graph_phase env)
              (and_then (\<lambda>c. if queued_at_entry then (Next, c) else late_render env coordinated render_timeout c)
                (\<lambda>c. finish (fill_levels c))))) c)"

definition process_buffered_once :: "('w, 'x) runner_env \<Rightarrow> u32 \<Rightarrow> ('w, 'x) cycle \<Rightarrow> flow \<times> ('w, 'x) cycle" where
  "process_buffered_once env timeout c =
     (let c = c\<lparr>cy_stats := initial_stats (en_feed_forward env (cy_world c)) (cy_runner c)\<rparr>
      in case validate_graph_sample_rate_realtime (cy_graph c) (en_capture env) (en_render env) (gr_adapter (cy_runner c) \<noteq> None) of
           Some e \<Rightarrow> (Return (runner_failure e), c)
         | None \<Rightarrow> (case (if gr_render_master (cy_runner c) then en_duplex_wait env else None) of
               None \<Rightarrow> buffered_steps env False timeout c
             | Some wait \<Rightarrow> (case wait timeout (cy_world c) of (status, w) \<Rightarrow>
                 let c = c\<lparr>cy_world := w\<rparr>
                 in if status = DuplexCancelled then cancelled c
                    else if status = DuplexFailed
                    then (Return (runner_failure (realtime_error_of WasapiDuplexEventWaitFailed 0 0)), c)
                    else buffered_steps env (status \<noteq> DuplexUnavailable) timeout
                      (on_stats (\<lambda>s. s\<lparr>st_duplex_wait_timed_out := (status = DuplexTimedOut)\<rparr>) c))))"

section \<open>A cycle without FIFOs\<close>

definition direct_capture :: "('w, 'x) runner_env \<Rightarrow> u32 \<Rightarrow> ('w, 'x) cycle \<Rightarrow> flow \<times> ('w, 'x) cycle" where
  "direct_capture env timeout c =
     (case en_capture env of
        Some capture \<Rightarrow>
          (case si_capture_once capture timeout (ab_clear (gr_input (cy_runner c))) (cy_world c) of (r, input, w) \<Rightarrow>
             let c = c\<lparr>cy_runner := (cy_runner c)\<lparr>gr_input := input\<rparr>, cy_world := w\<rparr>
             in if \<not> io_ok r then import_failed r c
                else if io_cancelled r then cancelled c
                else
                  let n = io_frames r; gap = (n > 0 \<and> gr_baseline (cy_runner c) \<and> io_data_discontinuity r);
                      some_missing = (n > 0 \<and> unat n < ab_frames input);
                      c = on_stats (\<lambda>s. s\<lparr>st_captured_frames := n, st_capture_silent := io_silent r, st_data_discontinuity := gap,
                            st_timestamp_error := io_timestamp_error r,
                            st_capture_silent_frames := (if io_silent r then n else 0), st_capture_partial := some_missing,
                            st_capture_partial_frames := (if some_missing then word_of_nat (ab_frames input - unat n) else 0)\<rparr>) c;
                      c = on_runner (\<lambda>g. g\<lparr>gr_baseline := (gr_baseline g \<or> n > 0)\<rparr>) c;
                      c = (if gap then on_diagnostics (\<lambda>d. d\<lparr>ed_xrun_count := ed_xrun_count d + 1\<rparr>) c else c)
                  in if n = 0
                     then finish (on_stats (\<lambda>s. s\<lparr>st_capture_idle := True, st_capture_wait_timed_out := io_timed_out r\<rparr>) c)
                     else (Next, c))
      | None \<Rightarrow> (case en_external_input env of
            None \<Rightarrow> (Next, c)
          | Some read \<Rightarrow> (case read (gr_input (cy_runner c)) (cy_world c) of (_, input, w) \<Rightarrow>
              (Next, c\<lparr>cy_runner := (cy_runner c)\<lparr>gr_input := input\<rparr>, cy_world := w\<rparr>))))"

definition direct_graph :: "('w, 'x) runner_env \<Rightarrow> ('w, 'x) cycle \<Rightarrow> flow \<times> ('w, 'x) cycle" where
  "direct_graph env c =
     (case validate_graph_shape_realtime (cy_graph c) (gr_input (cy_runner c)) (gr_output (cy_runner c)) of
        Some e \<Rightarrow> (Return (runner_failure e), c)
      | None \<Rightarrow> (Next, run_graph env c))"

definition direct_render :: "('w, 'x) runner_env \<Rightarrow> u32 \<Rightarrow> ('w, 'x) cycle \<Rightarrow> flow \<times> ('w, 'x) cycle" where
  "direct_render env timeout c =
     (case en_render env of
        None \<Rightarrow> (Next, c)
      | Some render \<Rightarrow>
          (case si_render_once render (gr_output (cy_runner c)) (word_of_nat (ab_frames (gr_output (cy_runner c)))) timeout
              (cy_world c) of (r, w) \<Rightarrow>
             let c = c\<lparr>cy_world := w\<rparr>; n = io_frames r; frames = ab_frames (gr_output (cy_runner c));
                 some_left = (n > 0 \<and> unat n < frames)
             in if \<not> io_ok r then export_failed r c
                else if io_cancelled r then cancelled c
                else (Next, on_stats (\<lambda>s. s\<lparr>st_rendered_frames := n, st_render_idle := (n = 0),
                        st_render_wait_timed_out := io_timed_out r, st_render_partial := some_left,
                        st_render_partial_frames := (if some_left then word_of_nat (frames - unat n) else 0)\<rparr>) c)))"

definition process_directly :: "('w, 'x) runner_env \<Rightarrow> u32 \<Rightarrow> ('w, 'x) cycle \<Rightarrow> flow \<times> ('w, 'x) cycle" where
  "process_directly env timeout c =
     (let c = c\<lparr>cy_stats := no_stats\<rparr>
      in case validate_graph_sample_rate_realtime (cy_graph c) (en_capture env) (en_render env) False of
           Some e \<Rightarrow> (Return (runner_failure e), c)
         | None \<Rightarrow> and_then (direct_capture env timeout) (and_then (direct_graph env) (and_then (direct_render env timeout) finish)) c)"

text \<open>Both kinds end with a result, so the other values of \<open>flow\<close> do not occur here.\<close>

definition process_once :: "('w, 'x) runner_env \<Rightarrow> u32 \<Rightarrow> ('w, 'x) cycle \<Rightarrow> runner_result \<times> ('w, 'x) cycle" where
  "process_once env timeout c =
     (case (if gr_block_frames (cy_runner c) \<noteq> 0 then process_buffered_once env timeout c else process_directly env timeout c) of
        (Return r, c) \<Rightarrow> (r, c)
      | (_, c) \<Rightarrow> (runner_success (cy_stats c), c))"

end
