(* ===== verification/Spec2Isabelle.thy ===== *)
theory Spec2Isabelle
  imports ControlSession WireControl GraphPublisher SharedQueue RecoveryPolicy BrokerProtocol AsioProfile EngineServiceCorrect DuplexSupervisorCorrect
    MultiEndpointCorrect SessionFileCorrect WasapiTransport TransportRing CaptureBus RenderBus SlotHandshake EndpointRouting RealtimeError GraphProcess
    WasapiStream AdaptiveRate GraphRunner
begin

text \<open>
  \<^bold>\<open>System Audio Route: the control plane, the engine service and the realtime core\<close>

  The program routes audio between devices and virtual endpoints. A client sends a binary control command to the
  engine service; the service decodes it, applies it to the session's preset document, builds the audio graph of the
  new preset, publishes it to the realtime thread, starts or replaces the audio runtime that the configuration asks
  for, and answers with a binary response. The realtime thread moves blocks of planar samples from the devices and
  the virtual endpoints through queues, buses and the graph, and reads the gains of the graph's route matrix while
  the control thread changes them. Supervisors reopen devices that fail. Sessions and presets are saved to files.

  \<^bold>\<open>Theories and sources\<close> (paths under \<^verbatim>\<open>src/core\<close> unless they start elsewhere)

  Shared ground:
  \<^item> \<open>Prelude\<close>: machine types (\<open>size_t\<close> and the fixed-width integers are words), the \<^verbatim>\<open>{code, message}\<close> error value,
    floats as IEEE-754 bit patterns, list and word lemmas. \<open>Errors\<close>: the error pairs of the control plane.
  \<^item> \<open>FloatBits\<close>, \<open>FloatArith\<close>: the order and arithmetic of \<^verbatim>\<open>float\<close> and \<^verbatim>\<open>double\<close> on bit patterns, rounding to nearest
    even over naturals, the NaNs of the SSE instructions. These model the language, not a file of the repository.

  Control plane:
  \<^item> \<open>AudioDevice\<close>: \<^verbatim>\<open>platform/audio_device\<close>, \<^verbatim>\<open>audio_device_registry\<close>, \<^verbatim>\<open>virtual_endpoint\<close>; locale \<open>keyed_registry\<close>.
  \<^item> \<open>Preset\<close>: \<^verbatim>\<open>control/preset_document\<close>. \<open>ControlCommand\<close>: \<^verbatim>\<open>control/control_command\<close>.
    \<open>ControlResponse\<close>: \<^verbatim>\<open>control/control_response\<close>. \<open>ControlSession\<close>: \<^verbatim>\<open>control/control_session\<close>.
  \<^item> \<open>WireFormat\<close>, \<open>WireCodecs\<close>, \<open>WireControl\<close>: \<^verbatim>\<open>control/control_wire_protocol\<close>: writer and reader, the codecs of
    the parts, the two messages with the fields of protocol versions 9 to 14.
  \<^item> \<open>SessionDocument\<close>: \<^verbatim>\<open>control/session_document\<close>. \<open>SessionFile\<close>, \<open>SessionFileCorrect\<close>:
    \<^verbatim>\<open>control/preset_file_codec\<close> and \<^verbatim>\<open>control/session_file_codec\<close> with the layouts of versions one to five.
  \<^item> \<open>BrokerProtocol\<close>: \<^verbatim>\<open>control/virtual_asio_broker_protocol\<close>, the six messages between driver and broker.

  Engine service:
  \<^item> \<open>RuntimeTopology\<close>: \<^verbatim>\<open>service/audio_runtime_topology\<close>, \<^verbatim>\<open>audio_runtime_matrix_binding\<close>,
    \<^verbatim>\<open>audio_runtime_matrix_preset\<close>. \<open>AsioProfile\<close>: \<^verbatim>\<open>service/virtual_asio_matrix_profile\<close>, \<^verbatim>\<open>virtual_asio_instance_layout\<close>.
  \<^item> \<open>EngineService\<close>, \<open>EngineServiceCorrect\<close>: \<^verbatim>\<open>service/engine_control_service\<close> over the interface of
    \<^verbatim>\<open>service/engine_audio_runtime.h\<close> (record \<open>engine_hooks\<close>: the runtime is an argument of the model).
  \<^item> \<open>MultiEndpoint\<close>, \<open>MultiEndpointCorrect\<close>: \<^verbatim>\<open>service/multi_endpoint_audio_runtime\<close>, a runtime made of runtimes.

  Graph:
  \<^item> \<open>Graph\<close>: \<^verbatim>\<open>graph/route_matrix\<close>, \<^verbatim>\<open>graph/graph\<close>, \<^verbatim>\<open>graph/graph_builder\<close>, \<^verbatim>\<open>realtime/atomic_float_parameter.h\<close>:
    structure, validation, gains. \<open>GraphProcess\<close>: the \<^verbatim>\<open>process\<close> function of the matrix, of every node and of the graph.
  \<^item> \<open>GraphPublisher\<close>: \<^verbatim>\<open>graph/graph_snapshot\<close> as the atomic steps of the publishing and the processing thread.

  Realtime data paths:
  \<^item> \<open>RealtimeBuffers\<close>: \<^verbatim>\<open>realtime/audio_buffer\<close>, \<^verbatim>\<open>realtime/planar_audio_fifo\<close> (locale \<open>frame_queue\<close>).
    \<open>SpscRing\<close>: \<^verbatim>\<open>realtime/spsc_ring_buffer.h\<close>, as functions and as the atomic steps of two threads (locale \<open>bounded_fifo\<close>).
  \<^item> \<open>BlockRing\<close>, \<open>CaptureBus\<close>, \<open>RenderBus\<close>: \<^verbatim>\<open>platform/virtual_asio_capture_bus\<close> and \<^verbatim>\<open>virtual_asio_render_bus\<close>: the
    ring of blocks of a slot and the two buses. \<open>SlotHandshake\<close>: the flags of a slot as the steps of three threads.
  \<^item> \<open>EndpointRouting\<close>: \<^verbatim>\<open>platform/realtime_audio_channel_slice_sink\<close>, \<^verbatim>\<open>realtime_audio_endpoint_queue\<close>,
    \<^verbatim>\<open>realtime_audio_fanout_sink\<close>, \<^verbatim>\<open>realtime_audio_input_assembler\<close> (locale \<open>audio_source\<close>).
  \<^item> \<open>SharedMemory\<close>, \<open>SharedQueue\<close>: \<^verbatim>\<open>platform/virtual_asio_shared_memory_layout\<close> and
    \<^verbatim>\<open>windows_virtual_asio_shared_queue\<close>. \<open>AsioRegistry\<close>: \<^verbatim>\<open>platform/virtual_asio_client_registry\<close>.
    \<open>ObjectNames\<close>: \<^verbatim>\<open>platform/windows_virtual_asio_object_names\<close>.
  \<^item> \<open>WasapiTransport\<close>, \<open>TransportRing\<close>: \<^verbatim>\<open>driver/windows_virtual_wasapi/virtual_wasapi_transport_abi.h\<close>,
    \<^verbatim>\<open>platform/virtual_wasapi_transport_layout\<close> and \<^verbatim>\<open>virtual_wasapi_transport_ring.h\<close>.

  Devices that fail:
  \<^item> \<open>RecoveryPolicy\<close>: \<^verbatim>\<open>platform/wasapi_recovery_policy\<close>. \<open>EndpointPolicy\<close>: \<^verbatim>\<open>platform/wasapi_endpoint_selection_policy\<close>.
  \<^item> \<open>DuplexSupervisor\<close>, \<open>DuplexSupervisorCorrect\<close>: \<^verbatim>\<open>platform/windows_wasapi_duplex_supervisor\<close> over an abstract duplex
    runtime. \<open>RealtimeError\<close>: \<^verbatim>\<open>platform/wasapi_realtime_error\<close> with the seqlock of its channel as steps.

  A component theory keeps the sources' order and names (a prefix such as \<open>rm_\<close>, \<open>pf_\<close>, \<open>sp_\<close> names the class of
  a method) and ends with its properties, each followed by a witness that applies it to concrete data where it has
  hypotheses. The theories \<open>...Correct\<close> hold the proofs of components whose model has a file of its own.

  \<^bold>\<open>How the parts interact\<close>

  \<open>handle_wire_request\<close> decodes with \<open>decode_control_command\<close>, looks the id up in the replay cache and runs
  \<open>execute_command\<close>; that calls \<open>session_handle\<close> or the update path over \<open>prepare_preset_update\<close> and
  \<open>commit_preset_update\<close>, which go through \<open>validate_command\<close>, \<open>apply_command\<close>, \<open>validate_preset\<close>, \<open>build_route_matrix\<close> and
  the graph builder. A matrix configuration reconciles the preset (\<open>reconcile_audio_runtime_matrix_preset\<close>) so that its topology
  binds to the matrix axes. The runtimes the service starts are those of \<open>MultiEndpoint\<close>, whose members satisfy the
  contract the service's properties assume (\<open>multi_runtime_contract\<close>); the service is proved once against that contract.
  The graph that the session publishes is the graph \<open>graph_process\<close> runs; its input block comes from \<open>assembler_read\<close> and
  its output block goes to \<open>fanout_write\<close>, whose endpoints are slices in front of \<open>CaptureBus\<close>. \<open>CaptureBus\<close> and \<open>RenderBus\<close>
  share the ring of \<open>BlockRing\<close>, an interpretation of the locale \<open>bounded_fifo\<close> as \<open>SpscRing\<close>, \<open>SharedQueue\<close> and
  \<open>TransportRing\<close> are. The supervisor drives \<open>RecoveryPolicy\<close> and \<open>EndpointPolicy\<close>.

  \<^bold>\<open>What the lemmas show\<close>

  \<^item> Session and service: every command is answered and keeps the invariants; a refused command changes nothing; a
    batch equals its commands one by one; a retried request gets its old answer; an accepted edit moves session and
    runtime together; a running engine survives a failed edit or the answer says it does not.
  \<^item> Codecs: round trips of control messages, broker messages and session files, exact limits of encoding, decoding
    that never leaves the message, every file version read.
  \<^item> Topology: a reconciled preset always binds to its topology.
  \<^item> Graph: the gain of every crosspoint, every output sample of the matrix, the chain of nodes whatever the scratch
    buffers held; no interleaving lets the realtime thread read a freed graph.
  \<^item> Data paths: every queue, ring and bus refines a queue of blocks or of frames; the endpoints behind the fan-out hear their own
    slices; a read of the render bus is the sum of the producers and always finite; a pop of a shared ring stays inside whatever the
    other side wrote; a slot is never reset under its user, provided the flags are seen in program order.
  \<^item> Layouts: accepted headers are exactly the computed ones, their regions aligned, disjoint and inside the mapping.
  \<^item> Recovery: an episode is bounded and counted once, a supervisor recovers when its device does, a multi-endpoint
    start is all or nothing.

  \<^bold>\<open>Modelling choices and bounds\<close>

  All definitions compute. Recursions are structural or over counters that decrease. Two loops have fuel: \<open>capture_fill\<close> and
  \<open>render_drain\<close> get the number of blocks of their ring, and every round that goes on empties or fills one block, so the
  bound is never what ends them. Positions, counts and offsets that the code keeps in \<^verbatim>\<open>size_t\<close> are 64-bit words
  where they can wrap (allocation sizes, ring indices, wire offsets); lengths of vectors in memory are naturals. Counters that
  only count events wrap as in the code. Where a property needs a counter not to wrap, the bound is a
  hypothesis: fewer than \<open>2 ^ 63\<close> publications of realtime errors, fewer than \<open>2 ^ 64\<close> operations on a transport ring, buffers of
  a bus below \<open>2 ^ 64\<close> frames.
  Exceptions of the code are the \<open>None\<close> or \<open>Inl\<close> branches of the results. Arrays are lists and an access out of range is
  excluded by an invariant that is proved. The reader of a message is a state monad whose error is sticky, as in the code.
  Concurrent components are step relations with atomic steps; where the order of memory matters (\<open>SlotHandshake\<close>) the
  store buffer is part of the state.

  \<^bold>\<open>What is not modelled\<close>

  The rate control (\<^verbatim>\<open>audio_block_timeline\<close>, \<^verbatim>\<open>clock_drift_estimator\<close>, \<^verbatim>\<open>fifo_waterline_controller\<close>, \<^verbatim>\<open>adaptive_resampler\<close>): numerical
  control loops around a third-party resampler, with no exact claims to make. The calls into WASAPI, ASIO, COM and Win32
  (devices, events, pipes, mapped sections, threads), the kernel-mode driver, the desktop application, the command line
  tools and the tests. The capture and render streams themselves are therefore arguments of the models above them. In the
  shared queue and the transport ring one push or pop is one step (one producer, one consumer). Allocation failure is
  modelled where the code computes a size that can overflow, not as a general event.
\<close>

end
